(* ===== verification/Ns3_Prelude.thy ===== *)
theory Ns3_Prelude
  imports Main "HOL-Library.Word" "HOL-Library.Monad_Syntax"
begin

text \<open>
  Shared vocabulary of the development: the machine types of the C++ code, the model of
  \<^verbatim>\<open>NS_ASSERT\<close> / \<^verbatim>\<open>NS_ABORT\<close>, the model of
  \<^verbatim>\<open>std::map\<close>, and the fact collections the component theories share.

  \<^item> An unsigned C++ integer whose wrap-around matters is a word of its width
    (\<open>u8\<close>, \<open>u16\<close>, \<open>u32\<close>).  Sequence numbers, sizes and indices, which the code
    keeps in range by explicit \<open>mod\<close> operations, are \<open>nat\<close>.
  \<^item> \<^verbatim>\<open>ns3::Time\<close> is a signed count of nanoseconds; it is an \<open>int\<close>
    (\<^verbatim>\<open>Time::Min()\<close>, used by the code as the value "no limit", is \<open>TimeMin\<close>).
    Overflow of the 64-bit count (292 years of simulated time) is not modelled.
  \<^item> A failed \<^verbatim>\<open>NS_ASSERT\<close>, an \<^verbatim>\<open>NS_ABORT\<close>, an
    \<^verbatim>\<open>NS_FATAL_ERROR\<close> and an operation with undefined behaviour all stop the
    model: the operation returns \<open>None\<close>.  An operation that can stop has a result of type
    \<open>option\<close> and is written in the option monad.
\<close>

section \<open>Machine types\<close>

type_synonym u8 = "8 word"
type_synonym u16 = "16 word"
type_synonym u32 = "32 word"
type_synonym time = int

definition TimeMin :: time where
  "TimeMin = - (2 ^ 63)"

named_theorems frame_simps \<open>fields an operation leaves unchanged\<close>
named_theorems inv_intros \<open>operations that preserve an invariant\<close>
named_theorems seq_simps \<open>arithmetic of the 12-bit sequence number space\<close>

section \<open>Assertions\<close>

definition ns_assert :: "bool \<Rightarrow> unit option" where
  "ns_assert b = (if b then Some () else None)"

lemma ns_assert_True [simp]: "ns_assert True = Some ()"
  by (simp add: ns_assert_def)

lemma ns_assert_False [simp]: "ns_assert False = None"
  by (simp add: ns_assert_def)

lemma ns_assert_eq_Some [simp]: "ns_assert b = Some u \<longleftrightarrow> b"
  by (simp add: ns_assert_def)

lemma ns_assert_bind_eq_Some [simp]:
  "(ns_assert b \<bind> (\<lambda>_. f)) = Some r \<longleftrightarrow> b \<and> f = Some r"
  by (cases b) simp_all

lemma ns_assert_bind [simp]: "b \<Longrightarrow> (ns_assert b \<bind> (\<lambda>_. f)) = f"
  by simp

lemma bind_SomeE:
  assumes "x \<bind> f = Some r"
  obtains y where "x = Some y" and "f y = Some r"
  using assms by (cases x) auto

lemma mod_add_inj:
  assumes "(d + h) mod n = (i + h) mod (n::nat)" "d < n" "i < n"
  shows "d = i"
proof -
  have "int n dvd int (d + h) - int (i + h)"
    using assms(1) by (metis mod_eq_dvd_iff zmod_int)
  then have "int n dvd int d - int i"
    by simp
  then show ?thesis
    using assms(2,3) zdvd_imp_le [of "int n" "int d - int i"] zdvd_imp_le [of "int n" "int i - int d"]
    by (cases d i rule: linorder_cases) (auto simp: dvd_diff_commute)
qed

section \<open>MAC addresses\<close>

text \<open>
  \<^verbatim>\<open>Mac48Address\<close>: six octets, the first one being the most significant;
  a group address has the least significant bit of its first octet set.
\<close>

type_synonym mac48 = "48 word"

definition mac_broadcast :: mac48 where
  "mac_broadcast = - 1"

definition mac_IsBroadcast :: "mac48 \<Rightarrow> bool" where
  "mac_IsBroadcast a \<longleftrightarrow> a = mac_broadcast"

definition mac_IsGroup :: "mac48 \<Rightarrow> bool" where
  "mac_IsGroup a \<longleftrightarrow> bit a 40"

lemma mac_broadcast_group [simp]: "mac_IsGroup mac_broadcast"
  by (simp add: mac_IsGroup_def mac_broadcast_def)

section \<open>Ordered maps\<close>

text \<open>
  \<^verbatim>\<open>std::map\<close> iterates in increasing order of its keys, and the code relies on it
  (values given "sorted in increasing order of link ID" are matched to links by iteration
  order; channel types are scanned from the primary channel outwards).  A map is the list of
  its entries in iteration order.
\<close>

type_synonym ('k, 'v) omap = "('k \<times> 'v) list"

definition omap_keys :: "('k, 'v) omap \<Rightarrow> 'k list" where
  "omap_keys m = map fst m"

definition omap_wf :: "('k::linorder, 'v) omap \<Rightarrow> bool" where
  "omap_wf m \<longleftrightarrow> sorted_wrt (<) (map fst m)"

fun omap_put :: "'k::linorder \<Rightarrow> 'v \<Rightarrow> ('k, 'v) omap \<Rightarrow> ('k, 'v) omap" where
  "omap_put k v [] = [(k, v)]"
| "omap_put k v ((k', v') # m) =
     (if k < k' then (k, v) # (k', v') # m
      else if k = k' then (k, v) # m
      else (k', v') # omap_put k v m)"

definition omap_get :: "('k, 'v) omap \<Rightarrow> 'k \<Rightarrow> 'v option" where
  "omap_get m k = map_of m k"

definition omap_erase :: "'k \<Rightarrow> ('k, 'v) omap \<Rightarrow> ('k, 'v) omap" where
  "omap_erase k m = filter (\<lambda>(k', _). k' \<noteq> k) m"

text \<open>\<^verbatim>\<open>emplace\<close> and \<^verbatim>\<open>insert\<close> leave an existing entry alone.\<close>

definition omap_emplace :: "'k::linorder \<Rightarrow> 'v \<Rightarrow> ('k, 'v) omap \<Rightarrow> ('k, 'v) omap" where
  "omap_emplace k v m = (case omap_get m k of None \<Rightarrow> omap_put k v m | Some _ \<Rightarrow> m)"

lemma set_omap_put: "fst ` set (omap_put k v m) = insert k (fst ` set m)"
  by (induction k v m rule: omap_put.induct) auto

lemma omap_wf_Nil [simp]: "omap_wf []"
  by (simp add: omap_wf_def)

lemma omap_wf_Cons [simp]:
  "omap_wf ((k, v) # m) \<longleftrightarrow> (\<forall>k' \<in> fst ` set m. k < k') \<and> omap_wf m"
  by (auto simp: omap_wf_def)

lemma omap_wf_put: "omap_wf m \<Longrightarrow> omap_wf (omap_put k v m)"
  by (induction k v m rule: omap_put.induct) (auto simp: set_omap_put)

lemma omap_get_put: "omap_get (omap_put k v m) k' = (if k' = k then Some v else omap_get m k')"
  by (induction k v m rule: omap_put.induct) (auto simp: omap_get_def)

lemma omap_get_erase: "omap_get (omap_erase k m) k' = (if k' = k then None else omap_get m k')"
  by (induction m) (auto simp: omap_get_def omap_erase_def)

lemma omap_wf_erase: "omap_wf m \<Longrightarrow> omap_wf (omap_erase k m)"
  by (induction m) (auto simp: omap_erase_def)

lemma omap_wf_emplace: "omap_wf m \<Longrightarrow> omap_wf (omap_emplace k v m)"
  by (simp add: omap_emplace_def omap_wf_put split: option.split)

lemma omap_get_Nil [simp]: "omap_get [] k = None"
  by (simp add: omap_get_def)

lemma omap_get_Cons [simp]:
  "omap_get ((k, v) # m) k' = (if k' = k then Some v else omap_get m k')"
  by (simp add: omap_get_def)

lemma omap_get_Some_in: "omap_get m k = Some v \<Longrightarrow> (k, v) \<in> set m"
  by (simp add: omap_get_def map_of_SomeD)

lemma omap_get_in_keys: "omap_get m k = Some v \<Longrightarrow> k \<in> fst ` set m"
  by (force dest: omap_get_Some_in)

text \<open>The interface the components use, and what it promises.\<close>

locale ordered_map =
  fixes lookup :: "'m \<Rightarrow> 'k \<Rightarrow> 'v option"
    and put :: "'k \<Rightarrow> 'v \<Rightarrow> 'm \<Rightarrow> 'm"
    and erase :: "'k \<Rightarrow> 'm \<Rightarrow> 'm"
    and invar :: "'m \<Rightarrow> bool"
  assumes lookup_put: "lookup (put k v m) k' = (if k' = k then Some v else lookup m k')"
    and lookup_erase: "lookup (erase k m) k' = (if k' = k then None else lookup m k')"
    and invar_put: "invar m \<Longrightarrow> invar (put k v m)"
    and invar_erase: "invar m \<Longrightarrow> invar (erase k m)"
begin

lemma lookup_put_same [simp]: "lookup (put k v m) k = Some v"
  by (simp add: lookup_put)

lemma lookup_put_other [simp]: "k' \<noteq> k \<Longrightarrow> lookup (put k v m) k' = lookup m k'"
  by (simp add: lookup_put)

lemma lookup_erase_same [simp]: "lookup (erase k m) k = None"
  by (simp add: lookup_erase)

lemma lookup_put_put: "lookup (put k v (put k w m)) = lookup (put k v m)"
  by (rule ext) (simp add: lookup_put)

lemma lookup_put_comm:
  "k \<noteq> l \<Longrightarrow> lookup (put k v (put l w m)) = lookup (put l w (put k v m))"
  by (rule ext) (simp add: lookup_put)

end

interpretation omap: ordered_map omap_get omap_put omap_erase omap_wf
  by unfold_locales
    (auto simp: omap_get_put omap_get_erase omap_wf_put omap_wf_erase)

declare omap.lookup_put_same [simp] omap.lookup_put_other [simp] omap.lookup_erase_same [simp]

lemma omap_get_emplace:
  "omap_get (omap_emplace k v m) k' =
     (if k' = k then (case omap_get m k of None \<Rightarrow> Some v | Some w \<Rightarrow> Some w) else omap_get m k')"
  by (auto simp: omap_emplace_def omap_get_put split: option.split)

end
