(* ===== verification/Qos_Utils.thy ===== *)
theory Qos_Utils
  imports Ns3_Prelude
begin

text \<open>
  \<^verbatim>\<open>src/wifi/model/qos-utils.cc\<close> and \<^verbatim>\<open>qos-utils.h\<close>: access categories,
  their order, the mapping from traffic identifiers, and the arithmetic of sequence numbers.
\<close>

section \<open>Access categories\<close>

text \<open>
  \<^verbatim>\<open>enum AcIndex\<close>: the order of the constructors is the order of the enum values, which
  is the iteration order of \<^verbatim>\<open>wifiAcList\<close>, not the priority order.
\<close>

datatype ac_index = AC_BE | AC_BK | AC_VI | AC_VO | AC_BE_NQOS | AC_BEACON | AC_UNDEF

fun ac_value :: "ac_index \<Rightarrow> nat" where
  "ac_value AC_BE = 0"
| "ac_value AC_BK = 1"
| "ac_value AC_VI = 2"
| "ac_value AC_VO = 3"
| "ac_value AC_BE_NQOS = 4"
| "ac_value AC_BEACON = 5"
| "ac_value AC_UNDEF = 6"

text \<open>\<^verbatim>\<open>operator>\<close> aborts on an index that is not one of the four QoS categories.\<close>

definition ac_gt :: "ac_index \<Rightarrow> ac_index \<Rightarrow> bool option" where
  "ac_gt left right =
     do { ns_assert (\<not> (ac_value left > 3 \<or> ac_value right > 3));
          Some (if left = right then False
                else if left = AC_BK then False
                else if right = AC_BK then True
                else ac_value left > ac_value right) }"

definition ac_ge :: "ac_index \<Rightarrow> ac_index \<Rightarrow> bool option" where
  "ac_ge left right =
     do { ns_assert (\<not> (ac_value left > 3 \<or> ac_value right > 3));
          if left = right then Some True else ac_gt left right }"

definition ac_lt :: "ac_index \<Rightarrow> ac_index \<Rightarrow> bool option" where
  "ac_lt left right = map_option Not (ac_ge left right)"

definition ac_le :: "ac_index \<Rightarrow> ac_index \<Rightarrow> bool option" where
  "ac_le left right = map_option Not (ac_gt left right)"

text \<open>\<^verbatim>\<open>class WifiAc\<close> and \<^verbatim>\<open>wifiAcList\<close>.\<close>

record wifi_ac =
  m_lowTid :: nat
  m_highTid :: nat

definition GetOtherTid :: "wifi_ac \<Rightarrow> nat \<Rightarrow> nat option" where
  "GetOtherTid ac tid =
     (if tid = m_lowTid ac then Some (m_highTid ac)
      else if tid = m_highTid ac then Some (m_lowTid ac)
      else None)"

definition wifiAcList :: "(ac_index \<times> wifi_ac) list" where
  "wifiAcList =
     [(AC_BE, \<lparr>m_lowTid = 0, m_highTid = 3\<rparr>),
      (AC_BK, \<lparr>m_lowTid = 1, m_highTid = 2\<rparr>),
      (AC_VI, \<lparr>m_lowTid = 4, m_highTid = 5\<rparr>),
      (AC_VO, \<lparr>m_lowTid = 6, m_highTid = 7\<rparr>)]"

definition QosUtilsMapTidToAc :: "nat \<Rightarrow> ac_index option" where
  "QosUtilsMapTidToAc tid =
     do { ns_assert (tid < 8);
          Some (if tid = 0 \<or> tid = 3 then AC_BE
                else if tid = 1 \<or> tid = 2 then AC_BK
                else if tid = 4 \<or> tid = 5 then AC_VI
                else if tid = 6 \<or> tid = 7 then AC_VO
                else AC_UNDEF) }"

text \<open>
  \<^verbatim>\<open>SelectQueueByDSField\<close>: the priority is the three most significant bits of the
  DS field (0 if the item carries none); the second component is the returned queue index.
\<close>

definition SelectQueueByDSField :: "u8 option \<Rightarrow> (nat \<times> nat) option" where
  "SelectQueueByDSField dscp =
     (let priority = (case dscp of None \<Rightarrow> 0 | Some d \<Rightarrow> unat (drop_bit 5 d))
      in do { ac \<leftarrow> QosUtilsMapTidToAc priority; Some (priority, ac_value ac) })"

section \<open>Sequence numbers\<close>

abbreviation SEQNO_SPACE_SIZE :: nat where
  "SEQNO_SPACE_SIZE \<equiv> 4096"

abbreviation SEQNO_SPACE_HALF_SIZE :: nat where
  "SEQNO_SPACE_HALF_SIZE \<equiv> 2048"

text \<open>
  \<^verbatim>\<open>QosUtilsMapSeqControlToUniqueInteger\<close>: the sequence control is a 16-bit value, the
  end sequence a 12-bit one (\<open>4096 - (e + 1)\<close> is then not negative in the C++ \<open>int\<close>).
\<close>

definition QosUtilsMapSeqControlToUniqueInteger :: "nat \<Rightarrow> nat \<Rightarrow> nat" where
  "QosUtilsMapSeqControlToUniqueInteger seqControl endSequence =
     (let numberSeq = (seqControl div 16) mod 4096;
          integer = (4096 - (endSequence + 1) + numberSeq) mod 4096
      in integer * 16 + seqControl mod 16)"

definition QosUtilsIsOldPacket :: "nat \<Rightarrow> nat \<Rightarrow> bool option" where
  "QosUtilsIsOldPacket startingSeq seqNumber =
     do { ns_assert (startingSeq < 4096);
          ns_assert (seqNumber < 4096);
          Some ((seqNumber + 4096 - startingSeq) mod 4096 \<ge> 2048) }"

text \<open>
  The distance from one sequence number to another, as \<^verbatim>\<open>BlockAckAgreement::GetDistance\<close>
  and the functions above compute it; \<open>seqno n\<close> says that \<open>n\<close> is a sequence number.
\<close>

definition seqno :: "nat \<Rightarrow> bool" where
  "seqno n \<longleftrightarrow> n < 4096"

definition seq_dist :: "nat \<Rightarrow> nat \<Rightarrow> nat" where
  "seq_dist s t = (s + 4096 - t) mod 4096"

definition seq_add :: "nat \<Rightarrow> nat \<Rightarrow> nat" where
  "seq_add s n = (s + n) mod 4096"

lemma seqno_add [simp, intro]: "seqno (seq_add s n)"
  by (simp add: seqno_def seq_add_def)

lemma seqno_mod [simp, intro]: "seqno (n mod 4096)"
  by (simp add: seqno_def)

lemma seq_dist_less [simp]: "seq_dist s t < 4096"
  by (simp add: seq_dist_def)

lemma seq_dist_self [simp]: "seqno s \<Longrightarrow> seq_dist s s = 0"
  by (simp add: seq_dist_def seqno_def)

lemma seq_dist_cases:
  "seqno s \<Longrightarrow> seqno t \<Longrightarrow> seq_dist s t = (if t \<le> s then s - t else s + 4096 - t)"
  by (auto simp: seq_dist_def seqno_def le_mod_geq)

lemma seq_add_cases:
  "seqno s \<Longrightarrow> n \<le> 4096 \<Longrightarrow> seq_add s n = (if s + n < 4096 then s + n else s + n - 4096)"
  by (auto simp: seq_add_def seqno_def le_mod_geq)

lemma seq_dist_add [seq_simps]: "seqno s \<Longrightarrow> n < 4096 \<Longrightarrow> seq_dist (seq_add s n) s = n"
  by (simp add: seq_add_cases seq_dist_cases) (auto simp: seqno_def seq_dist_def le_mod_geq)

lemma seq_add_dist [seq_simps]: "seqno s \<Longrightarrow> seqno t \<Longrightarrow> seq_add t (seq_dist s t) = s"
  by (auto simp: seq_dist_cases seq_add_def seqno_def)

lemma seq_dist_eq_0 [seq_simps]: "seqno s \<Longrightarrow> seqno t \<Longrightarrow> seq_dist s t = 0 \<longleftrightarrow> s = t"
  by (auto simp: seq_dist_cases seqno_def)

lemma seq_dist_inj: "seqno s \<Longrightarrow> seqno s' \<Longrightarrow> seqno t \<Longrightarrow> seq_dist s t = seq_dist s' t \<longleftrightarrow> s = s'"
  by (auto simp: seq_dist_cases seqno_def)

text \<open>Moving the origin forward by \<open>n\<close> shortens every distance of at least \<open>n\<close> by \<open>n\<close>.\<close>

lemma seq_dist_shift [seq_simps]:
  assumes "seqno s" "seqno t" "n \<le> seq_dist s t"
  shows "seq_dist s (seq_add t n) = seq_dist s t - n"
proof -
  have n: "n < 4096" using assms(3) seq_dist_less [of s t] by linarith
  show ?thesis
    using assms n
    by (simp add: seq_dist_cases seq_add_cases) (auto simp: seqno_def seq_dist_def le_mod_geq split: if_splits)
qed

lemma seq_dist_shift_less [seq_simps]:
  assumes "seqno s" "seqno t" "seq_dist s t < n" "n < 4096"
  shows "seq_dist s (seq_add t n) = seq_dist s t + 4096 - n"
  using assms
  by (simp add: seq_dist_cases seq_add_cases) (auto simp: seqno_def seq_dist_def le_mod_geq split: if_splits)

lemma seq_add_add [seq_simps]: "seq_add (seq_add s m) n = seq_add s (m + n)"
  by (simp add: seq_add_def mod_simps ac_simps)

lemma seq_add_0 [simp]: "seqno s \<Longrightarrow> seq_add s 0 = s"
  by (simp add: seq_add_def seqno_def)

end
