(* ===== verification/Block_Ack_Window.thy ===== *)
theory Block_Ack_Window
  imports Qos_Utils
begin

text \<open>
  \<^verbatim>\<open>src/wifi/model/block-ack-window.cc\<close>: a circular buffer of flags, one per
  sequence number of a Block Ack window, with a head index that moves when the window
  advances.  The abstraction \<open>baw_list\<close> reads the buffer from the head: a window is a
  starting sequence number and the list of its flags, and advancing drops flags at the front
  and appends clear ones.  The agreements on both sides use the window through the interface
  \<open>seq_window\<close>, interpreted at the end of the theory.
\<close>

section \<open>The circular buffer\<close>

record baw =
  m_winStart :: nat
  m_window :: "bool list"
  m_head :: nat

definition baw_empty :: baw where
  "baw_empty = \<lparr>m_winStart = 0, m_window = [], m_head = 0\<rparr>"

definition baw_Init :: "nat \<Rightarrow> nat \<Rightarrow> baw \<Rightarrow> baw" where
  "baw_Init winStart winSize w =
     w\<lparr>m_winStart := winStart, m_window := replicate winSize False, m_head := 0\<rparr>"

definition baw_Reset :: "nat \<Rightarrow> baw \<Rightarrow> baw" where
  "baw_Reset winStart w = baw_Init winStart (length (m_window w)) w"

text \<open>
  \<^verbatim>\<open>GetWinEnd\<close> computes in \<^verbatim>\<open>std::size_t\<close>: for the empty window the
  subtraction wraps around in 64 bits, which the \<open>mod 2 ^ 64\<close> below writes out.
\<close>

definition baw_GetWinEnd :: "baw \<Rightarrow> nat" where
  "baw_GetWinEnd w =
     nat ((int (m_winStart w) + int (length (m_window w)) - 1) mod 2 ^ 64) mod SEQNO_SPACE_SIZE"

definition baw_GetWinSize :: "baw \<Rightarrow> nat" where
  "baw_GetWinSize w = length (m_window w)"

definition baw_At :: "nat \<Rightarrow> baw \<Rightarrow> bool option" where
  "baw_At distance w =
     do { ns_assert (distance < length (m_window w));
          Some (m_window w ! ((m_head w + distance) mod length (m_window w))) }"

text \<open>Writing through the reference that \<^verbatim>\<open>At\<close> returns.\<close>

definition baw_SetAt :: "nat \<Rightarrow> bool \<Rightarrow> baw \<Rightarrow> baw option" where
  "baw_SetAt distance b w =
     do { ns_assert (distance < length (m_window w));
          Some (w\<lparr>m_window :=
                  (m_window w)[(m_head w + distance) mod length (m_window w) := b]\<rparr>) }"

text \<open>The loop of \<^verbatim>\<open>Advance\<close>, run \<open>count\<close> times.\<close>

fun baw_clear_heads :: "nat \<Rightarrow> baw \<Rightarrow> baw" where
  "baw_clear_heads 0 w = w"
| "baw_clear_heads (Suc count) w =
     baw_clear_heads count
       (w\<lparr>m_window := (m_window w)[m_head w := False],
          m_head := (m_head w + 1) mod length (m_window w)\<rparr>)"

definition baw_Advance :: "nat \<Rightarrow> baw \<Rightarrow> baw" where
  "baw_Advance count w =
     (if count \<ge> length (m_window w)
      then baw_Reset ((m_winStart w + count) mod SEQNO_SPACE_SIZE) w
      else (baw_clear_heads count w)
             \<lparr>m_winStart := (m_winStart w + count) mod SEQNO_SPACE_SIZE\<rparr>)"

section \<open>Well-formed windows and their abstraction\<close>

definition baw_wf :: "baw \<Rightarrow> bool" where
  "baw_wf w \<longleftrightarrow> seqno (m_winStart w) \<and> (m_window w = [] \<or> m_head w < length (m_window w))"

definition baw_list :: "baw \<Rightarrow> bool list" where
  "baw_list w = rotate (m_head w) (m_window w)"

lemma length_baw_list [simp]: "length (baw_list w) = length (m_window w)"
  by (simp add: baw_list_def)

lemma baw_list_nth:
  "d < length (m_window w) \<Longrightarrow>
     baw_list w ! d = m_window w ! ((m_head w + d) mod length (m_window w))"
  by (simp add: baw_list_def nth_rotate add.commute)

lemma baw_wf_empty [simp]: "baw_wf baw_empty"
  by (simp add: baw_wf_def baw_empty_def seqno_def)

lemma baw_wf_Init: "seqno s \<Longrightarrow> baw_wf (baw_Init s n w)"
  by (auto simp: baw_wf_def baw_Init_def)

lemma baw_list_Init [simp]: "baw_list (baw_Init s n w) = replicate n False"
  by (simp add: baw_list_def baw_Init_def)

lemma baw_Init_fields [simp]:
  "m_winStart (baw_Init s n w) = s" "length (m_window (baw_Init s n w)) = n"
  by (simp_all add: baw_Init_def)

lemma rotate_list_update_head:
  assumes "h < length xs"
  shows "rotate (Suc h mod length xs) (xs[h := b]) = tl (rotate h xs) @ [b]"
proof -
  have rot: "rotate h xs = drop h xs @ take h xs"
    using assms by (simp add: rotate_drop_take)
  have upd: "xs[h := b] = take h xs @ b # drop (Suc h) xs"
    using assms by (simp add: upd_conv_take_nth_drop)
  show ?thesis
  proof (cases "Suc h = length xs")
    case True
    then show ?thesis using assms by (simp add: rot upd drop_Suc [symmetric] Cons_nth_drop_Suc [symmetric])
  next
    case False
    then show ?thesis
      using assms by (simp add: rot upd rotate_drop_take Cons_nth_drop_Suc [symmetric])
  qed
qed

lemma rotate_list_update:
  assumes "d < length xs"
  shows "rotate h (xs[(h + d) mod length xs := b]) = (rotate h xs)[d := b]"
proof (rule nth_equalityI)
  fix i assume i: "i < length (rotate h (xs[(h + d) mod length xs := b]))"
  then have "(h + d) mod length xs = (h + i) mod length xs \<longleftrightarrow> d = i"
    using assms mod_add_inj [of d h "length xs" i] by (auto simp: add.commute)
  moreover have "(h + i) mod length xs < length xs"
    using assms by (intro mod_less_divisor) auto
  ultimately show "rotate h (xs[(h + d) mod length xs := b]) ! i = (rotate h xs)[d := b] ! i"
    using i by (auto simp: nth_rotate nth_list_update add.commute)
qed simp

section \<open>The operations through the abstraction\<close>

lemma baw_At_list:
  "baw_At d w = (if d < length (m_window w) then Some (baw_list w ! d) else None)"
  by (simp add: baw_At_def baw_list_nth ns_assert_def)

lemma baw_SetAt_eq_Some:
  "baw_SetAt d b w = Some w' \<longleftrightarrow> d < length (m_window w) \<and>
     w' = w\<lparr>m_window := (m_window w)[(m_head w + d) mod length (m_window w) := b]\<rparr>"
  by (auto simp: baw_SetAt_def)

lemma baw_SetAt_defined: "d < length (m_window w) \<Longrightarrow> \<exists>w'. baw_SetAt d b w = Some w'"
  by (simp add: baw_SetAt_eq_Some)

lemma baw_SetAt_list: "baw_SetAt d b w = Some w' \<Longrightarrow> baw_list w' = (baw_list w)[d := b]"
  by (auto simp: baw_SetAt_eq_Some baw_list_def rotate_list_update)

lemma baw_SetAt_frame [frame_simps]:
  "baw_SetAt d b w = Some w' \<Longrightarrow> m_winStart w' = m_winStart w"
  "baw_SetAt d b w = Some w' \<Longrightarrow> length (m_window w') = length (m_window w)"
  by (auto simp: baw_SetAt_eq_Some)

lemma baw_SetAt_wf: "baw_SetAt d b w = Some w' \<Longrightarrow> baw_wf w \<Longrightarrow> baw_wf w'"
  by (auto simp: baw_SetAt_eq_Some baw_wf_def)

lemma baw_clear_heads_frame [simp]:
  "m_winStart (baw_clear_heads n w) = m_winStart w"
  "length (m_window (baw_clear_heads n w)) = length (m_window w)"
  by (induction n w rule: baw_clear_heads.induct) simp_all

lemma baw_clear_heads_list:
  "m_head w < length (m_window w) \<Longrightarrow> n \<le> length (m_window w) \<Longrightarrow>
     m_head (baw_clear_heads n w) < length (m_window w) \<and>
     baw_list (baw_clear_heads n w) = drop n (baw_list w) @ replicate n False"
proof (induction n w rule: baw_clear_heads.induct)
  case (1 w)
  then show ?case by simp
next
  case (2 n w)
  let ?w = "w\<lparr>m_window := (m_window w)[m_head w := False],
             m_head := (m_head w + 1) mod length (m_window w)\<rparr>"
  have hd: "m_head ?w < length (m_window ?w)"
    using "2.prems" by (auto intro: mod_less_divisor)
  have step: "baw_list ?w = tl (baw_list w) @ [False]"
    using "2.prems" by (simp add: baw_list_def rotate_list_update_head)
  have IH: "m_head (baw_clear_heads n ?w) < length (m_window ?w) \<and>
      baw_list (baw_clear_heads n ?w) = drop n (baw_list ?w) @ replicate n False"
    using "2.IH" hd "2.prems"(2) by simp
  have "drop n (tl (baw_list w) @ [False]) @ replicate n False
      = drop (Suc n) (baw_list w) @ replicate (Suc n) False"
    using "2.prems" by (simp add: drop_Suc replicate_append_same [symmetric])
  with IH step show ?case by simp
qed

lemma baw_Advance_list:
  assumes "baw_wf w"
  shows "baw_list (baw_Advance n w) =
           drop n (baw_list w) @ replicate (min n (length (m_window w))) False"
proof (cases "n \<ge> length (m_window w)")
  case True
  then show ?thesis by (simp add: baw_Advance_def baw_Reset_def)
next
  case False
  with assms have "m_head w < length (m_window w)" "n \<le> length (m_window w)"
    by (auto simp: baw_wf_def)
  from baw_clear_heads_list [OF this] False show ?thesis
    by (simp add: baw_Advance_def baw_list_def)
qed

lemma baw_Advance_winStart: "m_winStart (baw_Advance n w) = seq_add (m_winStart w) n"
  by (simp add: baw_Advance_def baw_Reset_def seq_add_def)

lemma baw_Advance_size [simp]: "length (m_window (baw_Advance n w)) = length (m_window w)"
  by (simp add: baw_Advance_def baw_Reset_def)

lemma nonempty_if_length_eq: "length xs = length ys \<Longrightarrow> xs = [] \<longleftrightarrow> ys = []"
  by auto

lemma baw_Advance_nonempty [simp]: "m_window (baw_Advance n w) = [] \<longleftrightarrow> m_window w = []"
  by (rule nonempty_if_length_eq) simp

lemma baw_Advance_wf [inv_intros]: "baw_wf w \<Longrightarrow> baw_wf (baw_Advance n w)"
  using baw_clear_heads_list [of w n]
  by (auto simp: baw_Advance_def baw_Reset_def baw_wf_def baw_Init_def)

section \<open>The interface the agreements use\<close>

text \<open>
  A window over the sequence number space: a start, a fixed number of flags, and a move
  forward that forgets the flags it leaves behind and makes room for clear ones.  A flag is
  also addressed by sequence number (\<open>flagged\<close>), which is how the rules of the standard
  are stated.
\<close>

locale seq_window =
  fixes start :: "'w \<Rightarrow> nat"
    and flags :: "'w \<Rightarrow> bool list"
    and at :: "nat \<Rightarrow> 'w \<Rightarrow> bool option"
    and set_at :: "nat \<Rightarrow> bool \<Rightarrow> 'w \<Rightarrow> 'w option"
    and advance :: "nat \<Rightarrow> 'w \<Rightarrow> 'w"
    and invar :: "'w \<Rightarrow> bool"
  assumes start_seqno: "invar w \<Longrightarrow> seqno (start w)"
    and at_flags: "at d w = (if d < length (flags w) then Some (flags w ! d) else None)"
    and set_at_flags:
      "set_at d b w = Some w' \<Longrightarrow>
         d < length (flags w) \<and> flags w' = (flags w)[d := b] \<and> start w' = start w"
    and set_at_defined: "d < length (flags w) \<Longrightarrow> \<exists>w'. set_at d b w = Some w'"
    and set_at_invar: "set_at d b w = Some w' \<Longrightarrow> invar w \<Longrightarrow> invar w'"
    and advance_flags:
      "invar w \<Longrightarrow> flags (advance n w) =
         drop n (flags w) @ replicate (min n (length (flags w))) False"
    and advance_start: "start (advance n w) = seq_add (start w) n"
    and advance_invar: "invar w \<Longrightarrow> invar (advance n w)"
begin

definition flagged :: "'w \<Rightarrow> nat \<Rightarrow> bool" where
  "flagged w s \<longleftrightarrow>
     seq_dist s (start w) < length (flags w) \<and> flags w ! seq_dist s (start w)"

lemma length_advance: "invar w \<Longrightarrow> length (flags (advance n w)) = length (flags w)"
  by (simp add: advance_flags)

lemma advance_0_flags: "invar w \<Longrightarrow> flags (advance 0 w) = flags w"
  by (simp add: advance_flags)

lemma advance_advance_flags:
  assumes "invar w"
  shows "flags (advance n (advance m w)) = flags (advance (m + n) w)"
proof (cases "m + n \<le> length (flags w)")
  case True
  then show ?thesis
    using assms by (simp add: advance_flags advance_invar min_def drop_drop add.commute
        replicate_add [symmetric])
next
  case False
  then have "drop n (flags (advance m w)) = replicate (length (flags w) - n) False"
    using assms by (auto simp: advance_flags min_def)
  with False show ?thesis
    using assms
    by (auto simp: advance_flags advance_invar length_advance min_def replicate_add [symmetric])
qed

lemma nth_advance_flags:
  assumes "invar w" "d < length (flags w)"
  shows "flags (advance n w) ! d \<longleftrightarrow> d + n < length (flags w) \<and> flags w ! (d + n)"
  using assms by (auto simp: advance_flags nth_append add.commute min_def split: if_splits)

text \<open>
  A move forward by \<open>n\<close> keeps the flag of every sequence number that is still in the
  window and clears all others.
\<close>

lemma flagged_advance:
  assumes w: "invar w" and s: "seqno s" and n: "n < 4096 - length (flags w)"
  shows "flagged (advance n w) s \<longleftrightarrow> flagged w s \<and> n \<le> seq_dist s (start w)"
proof (cases "n \<le> seq_dist s (start w)")
  case True
  then have "seq_dist s (start (advance n w)) = seq_dist s (start w) - n"
    using w s by (simp add: advance_start seq_dist_shift start_seqno)
  with True w show ?thesis
    by (auto simp: flagged_def length_advance nth_advance_flags)
next
  case False
  then have "seq_dist s (start (advance n w)) = seq_dist s (start w) + 4096 - n"
    using w s n by (simp add: advance_start seq_dist_shift_less start_seqno)
  with False n w show ?thesis
    by (auto simp: flagged_def length_advance)
qed

lemma flagged_set_at:
  assumes "set_at d b w = Some w'" "seqno s" "invar w"
  shows "flagged w' s \<longleftrightarrow> (if seq_dist s (start w) = d then b else flagged w s)"
  using set_at_flags [OF assms(1)] by (auto simp: flagged_def nth_list_update)

end

interpretation baw: seq_window m_winStart baw_list baw_At baw_SetAt baw_Advance baw_wf
proof (unfold_locales, goal_cases)
  case (1 w)
  then show ?case by (simp add: baw_wf_def)
next
  case (2 d w)
  show ?case by (simp add: baw_At_list)
next
  case (3 d b w w')
  then show ?case by (auto simp: baw_SetAt_list baw_SetAt_eq_Some)
next
  case (4 d w b)
  then show ?case by (simp add: baw_SetAt_defined)
next
  case (5 d b w w')
  then show ?case by (rule baw_SetAt_wf)
next
  case (6 w n)
  then show ?case by (simp add: baw_Advance_list)
next
  case (7 n w)
  show ?case by (rule baw_Advance_winStart)
next
  case (8 w n)
  then show ?case by (rule baw_Advance_wf)
qed

end
