(* ===== verification/Block_Ack_Agreement.thy ===== *)
theory Block_Ack_Agreement
  imports Block_Ack_Window
begin

text \<open>
  \<^verbatim>\<open>src/wifi/model/block-ack-agreement.cc\<close>: the state common to the originator and
  the recipient of a Block Ack agreement.  The inactivity timer is a simulator event and is
  not part of the record; \<^verbatim>\<open>m_winEnd\<close> is never read.
\<close>

record ba_agreement =
  m_peer :: mac48
  m_amsduSupported :: bool
  m_blockAckPolicy :: nat
  m_tid :: nat
  m_bufferSize :: nat
  m_timeout :: nat
  m_startingSeq :: nat
  m_htSupported :: bool
  m_gcrGroupAddress :: "mac48 option"

text \<open>
  The constructor leaves the buffer size, the timeout and the starting sequence number
  uninitialised; the record passed in stands for the memory the object is built in.
\<close>

definition BlockAckAgreement :: "'a ba_agreement_scheme \<Rightarrow> mac48 \<Rightarrow> nat \<Rightarrow> 'a ba_agreement_scheme" where
  "BlockAckAgreement memory peer tid =
     memory\<lparr>m_peer := peer, m_amsduSupported := False, m_blockAckPolicy := 1, m_tid := tid,
            m_htSupported := False, m_gcrGroupAddress := None\<rparr>"

definition SetBufferSize :: "nat \<Rightarrow> 'a ba_agreement_scheme \<Rightarrow> 'a ba_agreement_scheme" where
  "SetBufferSize bufferSize a = a\<lparr>m_bufferSize := bufferSize\<rparr>"

definition SetTimeout :: "nat \<Rightarrow> 'a ba_agreement_scheme \<Rightarrow> 'a ba_agreement_scheme" where
  "SetTimeout timeout a = a\<lparr>m_timeout := timeout\<rparr>"

definition SetStartingSequence ::
  "nat \<Rightarrow> 'a ba_agreement_scheme \<Rightarrow> 'a ba_agreement_scheme option" where
  "SetStartingSequence seq a =
     do { ns_assert (seq < 4096); Some (a\<lparr>m_startingSeq := seq\<rparr>) }"

definition SetStartingSequenceControl ::
  "nat \<Rightarrow> 'a ba_agreement_scheme \<Rightarrow> 'a ba_agreement_scheme option" where
  "SetStartingSequenceControl seq a =
     do { ns_assert ((seq div 16) mod 4096 < 4096);
          Some (a\<lparr>m_startingSeq := (seq div 16) mod 4096\<rparr>) }"

definition SetImmediateBlockAck :: "'a ba_agreement_scheme \<Rightarrow> 'a ba_agreement_scheme" where
  "SetImmediateBlockAck a = a\<lparr>m_blockAckPolicy := 1\<rparr>"

definition SetDelayedBlockAck :: "'a ba_agreement_scheme \<Rightarrow> 'a ba_agreement_scheme" where
  "SetDelayedBlockAck a = a\<lparr>m_blockAckPolicy := 0\<rparr>"

definition SetAmsduSupport :: "bool \<Rightarrow> 'a ba_agreement_scheme \<Rightarrow> 'a ba_agreement_scheme" where
  "SetAmsduSupport supported a = a\<lparr>m_amsduSupported := supported\<rparr>"

definition SetHtSupported :: "bool \<Rightarrow> 'a ba_agreement_scheme \<Rightarrow> 'a ba_agreement_scheme" where
  "SetHtSupported htSupported a = a\<lparr>m_htSupported := htSupported\<rparr>"

definition SetGcrGroupAddress :: "mac48 \<Rightarrow> 'a ba_agreement_scheme \<Rightarrow> 'a ba_agreement_scheme" where
  "SetGcrGroupAddress gcrGroupAddress a = a\<lparr>m_gcrGroupAddress := Some gcrGroupAddress\<rparr>"

definition IsImmediateBlockAck :: "'a ba_agreement_scheme \<Rightarrow> bool" where
  "IsImmediateBlockAck a \<longleftrightarrow> m_blockAckPolicy a = 1"

text \<open>
  \<^verbatim>\<open>(m_startingSeq << 4) & 0xfff0\<close>, stored into a \<^verbatim>\<open>uint16_t\<close>.
\<close>

definition GetStartingSequenceControl :: "'a ba_agreement_scheme \<Rightarrow> nat" where
  "GetStartingSequenceControl a = (m_startingSeq a * 16) mod 65536"

text \<open>
  \<^verbatim>\<open>GetStartingSequence\<close> is virtual: the start is an argument of
  \<^verbatim>\<open>GetWinEnd\<close>, which computes in \<^verbatim>\<open>int\<close>; C++ \<open>%\<close> truncates,
  so the result for a negative sum (start 0 and buffer size 0) is \<open>-1\<close>, stored as 65535.
\<close>

definition GetWinEnd :: "nat \<Rightarrow> 'a ba_agreement_scheme \<Rightarrow> nat" where
  "GetWinEnd startingSequence a =
     (let n = int startingSequence + int (m_bufferSize a) - 1
      in if n < 0 then 65535 else nat n mod SEQNO_SPACE_SIZE)"

definition GetDistance :: "nat \<Rightarrow> nat \<Rightarrow> nat option" where
  "GetDistance seqNumber startingSeqNumber =
     do { ns_assert (seqNumber < SEQNO_SPACE_SIZE \<and> startingSeqNumber < SEQNO_SPACE_SIZE);
          Some (seq_dist seqNumber startingSeqNumber) }"

lemma GetDistance_Some [simp]:
  "seqno s \<Longrightarrow> seqno t \<Longrightarrow> GetDistance s t = Some (seq_dist s t)"
  by (simp add: GetDistance_def seqno_def)

lemma GetDistance_eq_Some:
  "GetDistance s t = Some d \<longleftrightarrow> seqno s \<and> seqno t \<and> d = seq_dist s t"
  by (auto simp: GetDistance_def seqno_def)

text \<open>Block Ack and Block Ack Request variants, with the bitmap length in octets.\<close>

datatype ba_variant =
    BA_BASIC | BA_COMPRESSED | BA_EXTENDED_COMPRESSED | BA_MULTI_TID | BA_GCR | BA_MULTI_STA

datatype bar_variant = BAR_BASIC | BAR_COMPRESSED | BAR_EXTENDED_COMPRESSED | BAR_MULTI_TID | BAR_GCR

definition ba_bitmap_lengths :: "nat list" where
  "ba_bitmap_lengths = [64, 256, 512, 1024]"

definition GetBlockAckType :: "'a ba_agreement_scheme \<Rightarrow> (ba_variant \<times> nat list) option" where
  "GetBlockAckType a =
     (if \<not> m_htSupported a then Some (BA_BASIC, [128])
      else case find (\<lambda>l. m_bufferSize a \<le> l) ba_bitmap_lengths of
             None \<Rightarrow> None
           | Some l \<Rightarrow>
               Some (if m_gcrGroupAddress a \<noteq> None then BA_GCR else BA_COMPRESSED, [l div 8]))"

definition GetBlockAckReqType :: "'a ba_agreement_scheme \<Rightarrow> bar_variant" where
  "GetBlockAckReqType a = (if \<not> m_htSupported a then BAR_BASIC else BAR_COMPRESSED)"

section \<open>Properties\<close>

text \<open>Setting the starting sequence control and reading it back.\<close>

lemma starting_sequence_control_roundtrip:
  assumes "seq < 65536"
  obtains a' where "SetStartingSequenceControl seq a = Some a'"
    and "GetStartingSequenceControl a' = seq - seq mod 16"
    and "seqno (m_startingSeq a')"
proof
  show "SetStartingSequenceControl seq a = Some (a\<lparr>m_startingSeq := (seq div 16) mod 4096\<rparr>)"
    by (simp add: SetStartingSequenceControl_def)
  have "seq div 16 < 4096" using assms by simp
  then show "GetStartingSequenceControl (a\<lparr>m_startingSeq := (seq div 16) mod 4096\<rparr>) = seq - seq mod 16"
    using assms by (simp add: GetStartingSequenceControl_def minus_mod_eq_div_mult)
qed simp

lemma find_ba_bitmap_lengths:
  "find (\<lambda>l. n \<le> l) ba_bitmap_lengths =
     (if n \<le> 64 then Some 64 else if n \<le> 256 then Some 256 else if n \<le> 512 then Some 512
      else if n \<le> 1024 then Some 1024 else None)"
  by (simp add: ba_bitmap_lengths_def)

text \<open>
  The bitmap announced for an HT agreement has one bit for each position of the buffer, and
  no shorter legal bitmap has; the code stops exactly when the buffer exceeds 1024.
\<close>

lemma GetBlockAckType_HT:
  assumes "m_htSupported a"
  shows "GetBlockAckType a = None \<longleftrightarrow> 1024 < m_bufferSize a"
    and "GetBlockAckType a = Some (v, [len]) \<Longrightarrow>
           m_bufferSize a \<le> 8 * len \<and> 8 * len \<in> set ba_bitmap_lengths
           \<and> (\<forall>l \<in> set ba_bitmap_lengths. m_bufferSize a \<le> l \<longrightarrow> 8 * len \<le> l)"
  using assms
  by (auto simp: GetBlockAckType_def find_ba_bitmap_lengths split: if_splits)
    (auto simp: ba_bitmap_lengths_def)

end
