(* ===== verification/Originator_Agreement.thy ===== *)
theory Originator_Agreement
  imports Block_Ack_Agreement
begin

text \<open>
  \<^verbatim>\<open>src/wifi/model/originator-block-ack-agreement.cc\<close>: the transmit window of a Block
  Ack agreement.  The window records which transmitted MPDUs have been acknowledged and slides
  past acknowledged and discarded ones.
\<close>

datatype originator_state = PENDING | ESTABLISHED | NO_REPLY | RESET | REJECTED

record originator = ba_agreement +
  m_state :: originator_state
  m_txWindow :: baw

definition OriginatorBlockAckAgreement :: "originator \<Rightarrow> mac48 \<Rightarrow> nat \<Rightarrow> originator" where
  "OriginatorBlockAckAgreement memory recipient tid =
     (BlockAckAgreement memory recipient tid)\<lparr>m_state := PENDING, m_txWindow := baw_empty\<rparr>"

definition SetState :: "originator_state \<Rightarrow> originator \<Rightarrow> originator" where
  "SetState state a = a\<lparr>m_state := state\<rparr>"

definition IsPending :: "originator \<Rightarrow> bool" where
  "IsPending a \<longleftrightarrow> m_state a = PENDING"

definition IsEstablished :: "originator \<Rightarrow> bool" where
  "IsEstablished a \<longleftrightarrow> m_state a = ESTABLISHED"

definition IsRejected :: "originator \<Rightarrow> bool" where
  "IsRejected a \<longleftrightarrow> m_state a = REJECTED"

definition IsNoReply :: "originator \<Rightarrow> bool" where
  "IsNoReply a \<longleftrightarrow> m_state a = NO_REPLY"

definition IsReset :: "originator \<Rightarrow> bool" where
  "IsReset a \<longleftrightarrow> m_state a = RESET"

definition GetStartingSequence :: "originator \<Rightarrow> nat" where
  "GetStartingSequence a =
     (if baw_GetWinSize (m_txWindow a) = 0 then m_startingSeq a else m_winStart (m_txWindow a))"

definition orig_GetDistance :: "nat \<Rightarrow> originator \<Rightarrow> nat option" where
  "orig_GetDistance seqNumber a = GetDistance seqNumber (m_winStart (m_txWindow a))"

definition InitTxWindow :: "originator \<Rightarrow> originator" where
  "InitTxWindow a = a\<lparr>m_txWindow := baw_Init (m_startingSeq a) (m_bufferSize a) (m_txWindow a)\<rparr>"

text \<open>
  \<^verbatim>\<open>AllAckedMpdusInTxWindow\<close>: the set of sequence numbers is a list in iteration order;
  the loop over the positions returns at the first one that is neither acknowledged nor listed.
\<close>

fun orig_distances :: "nat list \<Rightarrow> originator \<Rightarrow> nat set option" where
  "orig_distances [] a = Some {}"
| "orig_distances (seqN # seqs) a =
     do { d \<leftarrow> orig_GetDistance seqN a; ds \<leftarrow> orig_distances seqs a; Some (insert d ds) }"

fun all_acked_from :: "nat \<Rightarrow> nat \<Rightarrow> nat set \<Rightarrow> baw \<Rightarrow> bool option" where
  "all_acked_from i 0 distances w = Some True"
| "all_acked_from i (Suc n) distances w =
     (if i \<in> distances then all_acked_from (Suc i) n distances w
      else do { b \<leftarrow> baw_At i w;
                if \<not> b then Some False else all_acked_from (Suc i) n distances w })"

definition AllAckedMpdusInTxWindow :: "nat list \<Rightarrow> originator \<Rightarrow> bool option" where
  "AllAckedMpdusInTxWindow seqNumbers a =
     do { distances \<leftarrow> orig_distances seqNumbers a;
          all_acked_from 0 (baw_GetWinSize (m_txWindow a)) distances (m_txWindow a) }"

text \<open>
  \<^verbatim>\<open>AdvanceTxWindow\<close>: a loop that runs while the position at the head is acknowledged.
  The comment in the source argues for its termination; \<open>AdvanceTxWindow_list\<close> below proves
  it for every well-formed window that is not empty.
\<close>

partial_function (option) AdvanceTxWindow :: "baw \<Rightarrow> baw option" where
  "AdvanceTxWindow w =
     do { b \<leftarrow> baw_At 0 w; if b then AdvanceTxWindow (baw_Advance 1 w) else Some w }"

definition NotifyTransmittedMpdu :: "nat \<Rightarrow> originator \<Rightarrow> originator option" where
  "NotifyTransmittedMpdu mpduSeqNumber a =
     do { distance \<leftarrow> orig_GetDistance mpduSeqNumber a;
          if distance \<ge> SEQNO_SPACE_HALF_SIZE then Some a
          else if distance \<ge> baw_GetWinSize (m_txWindow a)
          then do { w \<leftarrow> AdvanceTxWindow
                       (baw_Advance (distance - baw_GetWinSize (m_txWindow a) + 1) (m_txWindow a));
                    Some (a\<lparr>m_txWindow := w\<rparr>) }
          else Some a }"

definition NotifyAckedMpdu :: "nat \<Rightarrow> originator \<Rightarrow> originator option" where
  "NotifyAckedMpdu mpduSeqNumber a =
     do { distance \<leftarrow> orig_GetDistance mpduSeqNumber a;
          if distance \<ge> SEQNO_SPACE_HALF_SIZE then Some a
          else do { w \<leftarrow> baw_SetAt distance True (m_txWindow a);
                    w' \<leftarrow> AdvanceTxWindow w;
                    Some (a\<lparr>m_txWindow := w'\<rparr>) } }"

definition NotifyDiscardedMpdu :: "nat \<Rightarrow> originator \<Rightarrow> originator option" where
  "NotifyDiscardedMpdu mpduSeqNumber a =
     do { distance \<leftarrow> orig_GetDistance mpduSeqNumber a;
          if distance \<ge> SEQNO_SPACE_HALF_SIZE then Some a
          else do { w \<leftarrow> AdvanceTxWindow (baw_Advance (distance + 1) (m_txWindow a));
                    Some (a\<lparr>m_txWindow := w\<rparr>) } }"

section \<open>The advance loop\<close>

definition lead :: "bool list \<Rightarrow> nat" where
  "lead bs = length (takeWhile id bs)"

lemma lead_le: "lead bs \<le> length bs"
  by (simp add: lead_def length_takeWhile_le)

lemma lead_Cons [simp]: "lead (b # bs) = (if b then Suc (lead bs) else 0)"
  by (simp add: lead_def)

lemma lead_Nil [simp]: "lead [] = 0"
  by (simp add: lead_def)

lemma lead_append_False [simp]: "lead (bs @ [False]) = lead bs"
  by (induction bs) auto

lemma nth_below_lead: "i < lead bs \<Longrightarrow> bs ! i"
  by (induction bs arbitrary: i) (auto simp: nth_Cons split: if_splits nat.splits)

lemma nth_lead: "lead bs < length bs \<Longrightarrow> \<not> bs ! lead bs"
  by (induction bs) auto

lemma lead_le_if_not_nth: "d < length bs \<Longrightarrow> \<not> bs ! d \<Longrightarrow> lead bs \<le> d"
  using nth_below_lead not_le by blast

text \<open>
  The loop stops, and what it returns is the window moved past its leading acknowledged flags.
\<close>

lemma AdvanceTxWindow_eq:
  assumes "baw_wf w" "m_window w \<noteq> []"
  shows "\<exists>w'. AdvanceTxWindow w = Some w' \<and> baw_wf w'
            \<and> m_winStart w' = seq_add (m_winStart w) (lead (baw_list w))
            \<and> baw_list w' = baw_list (baw_Advance (lead (baw_list w)) w)
            \<and> \<not> baw_list w' ! 0"
  using assms
proof (induction "lead (baw_list w)" arbitrary: w)
  case 0
  then have "baw_At 0 w = Some False"
    using nth_lead [of "baw_list w"] by (simp add: baw_At_list)
  then have "AdvanceTxWindow w = Some w"
    by (subst AdvanceTxWindow.simps) simp
  moreover have "seqno (m_winStart w)"
    using 0 by (simp add: baw_wf_def)
  ultimately show ?case
    using 0 \<open>baw_At 0 w = Some False\<close>
    by (auto simp: baw.advance_0_flags baw_At_list split: if_splits)
next
  case (Suc k)
  let ?w = "baw_Advance 1 w"
  from Suc.hyps(2) obtain bs where bs: "baw_list w = True # bs" and k: "k = lead bs"
    by (cases "baw_list w") (auto split: if_splits)
  have list: "baw_list ?w = bs @ [False]"
    using Suc.prems by (cases "m_window w") (simp_all add: baw_Advance_list bs)
  have wf: "baw_wf ?w" "m_window ?w \<noteq> []"
    using Suc.prems by (simp_all add: baw_Advance_wf baw_Advance_nonempty)
  have lead_w: "lead (baw_list ?w) = lead bs"
    by (simp only: list lead_append_False)
  then have "k = lead (baw_list ?w)"
    using k by (simp only:)
  from Suc.hyps(1) [OF this wf, unfolded lead_w] obtain w' where w': "AdvanceTxWindow ?w = Some w'" "baw_wf w'"
    "m_winStart w' = seq_add (m_winStart ?w) (lead bs)"
    "baw_list w' = baw_list (baw_Advance (lead bs) ?w)" "\<not> baw_list w' ! 0"
    by blast
  have "baw_At 0 w = Some True"
    using Suc.prems(2) by (simp add: baw_At_list bs)
  then have "AdvanceTxWindow w = Some w'"
    using w'(1) by (subst AdvanceTxWindow.simps) simp
  moreover have "m_winStart w' = seq_add (m_winStart w) (lead (baw_list w))"
    using w'(3) by (simp add: baw_Advance_winStart seq_add_add bs)
  moreover have "baw_list w' = baw_list (baw_Advance (lead (baw_list w)) w)"
    using w'(4) Suc.prems by (simp add: baw.advance_advance_flags bs)
  ultimately show ?case using w'(2,5) by blast
qed

section \<open>The transmit window as a set of acknowledged sequence numbers\<close>

text \<open>
  A transmit window is in order if its buffer is well formed, its size is one that an agreement
  can have (1 to 1024), and the position at its start is not acknowledged.
\<close>

definition tx_window_ok :: "originator \<Rightarrow> bool" where
  "tx_window_ok a \<longleftrightarrow>
     baw_wf (m_txWindow a) \<and> m_window (m_txWindow a) \<noteq> []
     \<and> length (m_window (m_txWindow a)) \<le> 1024 \<and> \<not> baw_list (m_txWindow a) ! 0"

definition tx_start :: "originator \<Rightarrow> nat" where
  "tx_start a = m_winStart (m_txWindow a)"

definition tx_size :: "originator \<Rightarrow> nat" where
  "tx_size a = length (m_window (m_txWindow a))"

definition acked :: "originator \<Rightarrow> nat \<Rightarrow> bool" where
  "acked a s \<longleftrightarrow> baw.flagged (m_txWindow a) s"

text \<open>
  The sequence number \<open>s\<close> lies in the window; \<open>tx_moved a a' k\<close>: the window of
  \<open>a'\<close> is that of \<open>a\<close> moved forward by \<open>k\<close>, all else being equal.
\<close>

definition in_tx_window :: "originator \<Rightarrow> nat \<Rightarrow> bool" where
  "in_tx_window a s \<longleftrightarrow> seq_dist s (tx_start a) < tx_size a"

definition tx_moved :: "originator \<Rightarrow> originator \<Rightarrow> nat \<Rightarrow> bool" where
  "tx_moved a a' k \<longleftrightarrow>
     tx_window_ok a' \<and> tx_start a' = seq_add (tx_start a) k \<and> tx_size a' = tx_size a
     \<and> a' = a\<lparr>m_txWindow := m_txWindow a'\<rparr>"

lemma tx_window_okD:
  assumes "tx_window_ok a"
  shows "baw_wf (m_txWindow a)" "m_window (m_txWindow a) \<noteq> []" "0 < tx_size a"
    "tx_size a \<le> 1024" "seqno (tx_start a)"
  using assms by (auto simp: tx_window_ok_def tx_size_def tx_start_def baw_wf_def)

lemma acked_in_window: "acked a s \<Longrightarrow> in_tx_window a s"
  by (simp add: acked_def baw.flagged_def in_tx_window_def tx_start_def tx_size_def)

lemma acked_nth:
  "acked a s \<longleftrightarrow> in_tx_window a s \<and> baw_list (m_txWindow a) ! seq_dist s (tx_start a)"
  by (simp add: acked_def baw.flagged_def in_tx_window_def tx_start_def tx_size_def)

lemma tx_moved_refl: "tx_window_ok a \<Longrightarrow> tx_moved a a 0"
  using tx_window_okD(5) by (simp add: tx_moved_def)

lemma AdvanceTxWindow_moves:
  assumes w: "baw_wf w" "m_window w \<noteq> []" "length (m_window w) \<le> 1024"
  obtains w' where "AdvanceTxWindow w = Some w'"
    and "tx_window_ok (a\<lparr>m_txWindow := w'\<rparr>)"
    and "length (m_window w') = length (m_window w)"
    and "m_winStart w' = seq_add (m_winStart w) (lead (baw_list w))"
    and "\<And>s. seqno s \<Longrightarrow>
           baw.flagged w' s \<longleftrightarrow> baw.flagged w s \<and> lead (baw_list w) \<le> seq_dist s (m_winStart w)"
proof -
  let ?k = "lead (baw_list w)"
  obtain w' where w': "AdvanceTxWindow w = Some w'" "baw_wf w'"
    "m_winStart w' = seq_add (m_winStart w) ?k"
    "baw_list w' = baw_list (baw_Advance ?k w)" "\<not> baw_list w' ! 0"
    using AdvanceTxWindow_eq [OF w(1,2)] by blast
  have len: "length (m_window w') = length (m_window w)"
    using w'(4) by (metis baw_Advance_size length_baw_list)
  have "baw.flagged w' s \<longleftrightarrow> baw.flagged (baw_Advance ?k w) s" for s
    using w'(3,4) by (simp add: baw.flagged_def baw_Advance_winStart)
  moreover have "?k < 4096 - length (baw_list w)"
    using lead_le [of "baw_list w"] w(3) by simp
  ultimately have "seqno s \<Longrightarrow> baw.flagged w' s \<longleftrightarrow>
      baw.flagged w s \<and> ?k \<le> seq_dist s (m_winStart w)" for s
    using baw.flagged_advance [OF w(1)] by blast
  then show thesis
    using that [of w'] w' len w by (simp add: tx_window_ok_def nonempty_if_length_eq [OF len])
qed

text \<open>A frame older than the window changes nothing, whatever the event.\<close>

lemma old_mpdu_ignored:
  assumes "tx_window_ok a" "seqno s" "2048 \<le> seq_dist s (tx_start a)"
  shows "NotifyTransmittedMpdu s a = Some a" "NotifyAckedMpdu s a = Some a"
    "NotifyDiscardedMpdu s a = Some a"
  using assms tx_window_okD(5) [OF assms(1)]
  by (simp_all add: NotifyTransmittedMpdu_def NotifyAckedMpdu_def NotifyDiscardedMpdu_def
      orig_GetDistance_def tx_start_def)

lemma orig_GetDistance_ok:
  "tx_window_ok a \<Longrightarrow> seqno s \<Longrightarrow> orig_GetDistance s a = Some (seq_dist s (tx_start a))"
  using tx_window_okD(5) by (simp add: orig_GetDistance_def tx_start_def)

text \<open>
  Acknowledgment of an MPDU in the window: exactly that sequence number becomes acknowledged
  and the window slides to the nearest one that is not.
\<close>

lemma NotifyAckedMpdu_spec:
  assumes a: "tx_window_ok a" and s: "seqno s" and d: "in_tx_window a s"
  obtains a' k where "NotifyAckedMpdu s a = Some a'" and "tx_moved a a' k"
    and "\<And>t. seqno t \<Longrightarrow>
           acked a' t \<longleftrightarrow> (acked a t \<or> t = s) \<and> k \<le> seq_dist t (tx_start a)"
    and "\<And>t. seqno t \<Longrightarrow> seq_dist t (tx_start a) < k \<Longrightarrow> acked a t \<or> t = s"
proof -
  note wf = tx_window_okD [OF a]
  let ?d = "seq_dist s (tx_start a)"
  have d': "?d < length (m_window (m_txWindow a))" "?d < 2048"
    using d wf(4) by (simp_all add: in_tx_window_def tx_size_def)
  then obtain w where w: "baw_SetAt ?d True (m_txWindow a) = Some w"
    using baw_SetAt_defined by blast
  have len: "length (m_window w) = tx_size a" and st: "m_winStart w = tx_start a"
    using w by (simp_all add: frame_simps tx_size_def tx_start_def)
  have wwf: "baw_wf w" "m_window w \<noteq> []" "length (m_window w) \<le> 1024"
    using baw_SetAt_wf [OF w wf(1)] len wf(3,4) by auto
  obtain w' where w': "AdvanceTxWindow w = Some w'" "tx_window_ok (a\<lparr>m_txWindow := w'\<rparr>)"
    "length (m_window w') = length (m_window w)"
    "m_winStart w' = seq_add (m_winStart w) (lead (baw_list w))"
    "\<And>t. seqno t \<Longrightarrow>
       baw.flagged w' t \<longleftrightarrow> baw.flagged w t \<and> lead (baw_list w) \<le> seq_dist t (m_winStart w)"
    using AdvanceTxWindow_moves [OF wwf, of a] by metis
  have flag: "baw.flagged w t \<longleftrightarrow> acked a t \<or> t = s" if "seqno t" for t
    using baw.flagged_set_at [OF w that wf(1)] that s wf(5) seq_dist_inj
    by (auto simp: acked_def tx_start_def)
  have "NotifyAckedMpdu s a = Some (a\<lparr>m_txWindow := w'\<rparr>)"
    using d' w w'(1) a s
    by (simp add: NotifyAckedMpdu_def orig_GetDistance_ok)
  moreover have "tx_moved a (a\<lparr>m_txWindow := w'\<rparr>) (lead (baw_list w))"
    using w'(2-4) len st by (simp add: tx_moved_def tx_start_def tx_size_def)
  moreover have "acked (a\<lparr>m_txWindow := w'\<rparr>) t \<longleftrightarrow>
      (acked a t \<or> t = s) \<and> lead (baw_list w) \<le> seq_dist t (tx_start a)" if "seqno t" for t
    using w'(5) [OF that] flag [OF that] st by (simp add: acked_def)
  moreover have "acked a t \<or> t = s"
    if "seqno t" "seq_dist t (tx_start a) < lead (baw_list w)" for t
    using nth_below_lead [OF that(2)] that flag [OF that(1)] lead_le [of "baw_list w"] st
    by (auto simp: baw.flagged_def)
  ultimately show thesis
    by (rule that)
qed

text \<open>
  The step shared by the other two events: move the window forward by \<open>n\<close>, then past the
  acknowledged positions found at its new start.
\<close>

lemma slide_and_advance:
  assumes a: "tx_window_ok a" and n: "n < 3072"
  obtains w' k where "AdvanceTxWindow (baw_Advance n (m_txWindow a)) = Some w'"
    and "tx_moved a (a\<lparr>m_txWindow := w'\<rparr>) k" and "n \<le> k" and "k \<le> n + tx_size a"
    and "\<And>t. seqno t \<Longrightarrow> acked (a\<lparr>m_txWindow := w'\<rparr>) t \<longleftrightarrow> acked a t \<and> k \<le> seq_dist t (tx_start a)"
    and "\<And>t. seqno t \<Longrightarrow> n \<le> seq_dist t (tx_start a) \<Longrightarrow> seq_dist t (tx_start a) < k \<Longrightarrow> acked a t"
proof -
  note wf = tx_window_okD [OF a]
  let ?w = "baw_Advance n (m_txWindow a)"
  let ?k = "lead (baw_list ?w)"
  have wwf: "baw_wf ?w" "m_window ?w \<noteq> []" "length (m_window ?w) \<le> 1024"
    using wf by (simp_all add: baw_Advance_wf tx_size_def)
  have st: "m_winStart ?w = seq_add (tx_start a) n"
    by (simp add: baw_Advance_winStart tx_start_def)
  have size: "tx_size a = length (baw_list ?w)"
    by (simp add: tx_size_def)
  obtain w' where w': "AdvanceTxWindow ?w = Some w'" "tx_window_ok (a\<lparr>m_txWindow := w'\<rparr>)"
    "length (m_window w') = length (m_window ?w)" "m_winStart w' = seq_add (m_winStart ?w) ?k"
    "\<And>t. seqno t \<Longrightarrow> baw.flagged w' t \<longleftrightarrow> baw.flagged ?w t \<and> ?k \<le> seq_dist t (m_winStart ?w)"
    using AdvanceTxWindow_moves [OF wwf, of a] by metis
  have adv: "baw.flagged ?w t \<longleftrightarrow> acked a t \<and> n \<le> seq_dist t (tx_start a)" if "seqno t" for t
    using baw.flagged_advance [OF wf(1) that, of n] n wf(4)
    by (simp add: acked_def tx_start_def tx_size_def)
  have shift: "seq_dist t (m_winStart ?w) = seq_dist t (tx_start a) - n"
    if "seqno t" "n \<le> seq_dist t (tx_start a)" for t
    using that wf(5) by (simp add: st seq_dist_shift)
  have "tx_moved a (a\<lparr>m_txWindow := w'\<rparr>) (n + ?k)"
    using w'(2-4) st by (simp add: tx_moved_def tx_start_def tx_size_def seq_add_add)
  moreover have "?k \<le> tx_size a"
    using lead_le [of "baw_list ?w"] by (simp add: size)
  moreover have "acked (a\<lparr>m_txWindow := w'\<rparr>) t \<longleftrightarrow> acked a t \<and> n + ?k \<le> seq_dist t (tx_start a)"
    if "seqno t" for t
    using w'(5) [OF that] adv [OF that] shift [OF that] by (auto simp: acked_def)
  moreover have "acked a t"
    if t: "seqno t" "n \<le> seq_dist t (tx_start a)" "seq_dist t (tx_start a) < n + ?k" for t
  proof -
    have "seq_dist t (m_winStart ?w) < ?k"
      using shift [OF t(1,2)] t(2,3) by linarith
    then have "baw.flagged ?w t"
      using nth_below_lead lead_le [of "baw_list ?w"] by (force simp: baw.flagged_def)
    with adv [OF t(1)] show ?thesis by simp
  qed
  ultimately show thesis
    using that [of w' "n + ?k"] w'(1) by simp
qed

text \<open>
  Transmission: afterwards the frame is in the window and not acknowledged by it, unless it is
  old.  Discard: afterwards the frame is old, and the window starts after it.
\<close>

lemma NotifyTransmittedMpdu_spec:
  assumes a: "tx_window_ok a" and s: "seqno s" and d: "seq_dist s (tx_start a) < 2048"
  obtains a' k where "NotifyTransmittedMpdu s a = Some a'" and "tx_moved a a' k"
    and "in_tx_window a' s"
    and "\<And>t. seqno t \<Longrightarrow> acked a' t \<longleftrightarrow> acked a t \<and> k \<le> seq_dist t (tx_start a)"
proof (cases "in_tx_window a s")
  case True
  then show thesis
    using that [of a 0] tx_moved_refl [OF a] a s d
    by (simp add: NotifyTransmittedMpdu_def orig_GetDistance_ok in_tx_window_def tx_size_def
        baw_GetWinSize_def)
next
  case False
  let ?d = "seq_dist s (tx_start a)"
  let ?n = "?d - tx_size a + 1"
  note wf = tx_window_okD [OF a]
  have le: "tx_size a \<le> ?d" using False by (simp add: in_tx_window_def)
  have n: "?n < 3072" using d by linarith
  obtain w' k where w': "AdvanceTxWindow (baw_Advance ?n (m_txWindow a)) = Some w'"
    "tx_moved a (a\<lparr>m_txWindow := w'\<rparr>) k" "?n \<le> k"
    "\<And>t. seqno t \<Longrightarrow> acked (a\<lparr>m_txWindow := w'\<rparr>) t \<longleftrightarrow> acked a t \<and> k \<le> seq_dist t (tx_start a)"
    "\<And>t. seqno t \<Longrightarrow> ?n \<le> seq_dist t (tx_start a) \<Longrightarrow> seq_dist t (tx_start a) < k \<Longrightarrow> acked a t"
    using slide_and_advance [OF a n] by metis
  have "k \<le> ?d"
    using w'(5) [OF s] acked_in_window [of a s] False le wf(3) by fastforce
  then have "seq_dist s (seq_add (tx_start a) k) = ?d - k"
    using s wf(5) by (simp add: seq_dist_shift)
  then have "in_tx_window (a\<lparr>m_txWindow := w'\<rparr>) s"
    using w'(2,3) le wf(3) by (simp add: in_tx_window_def tx_moved_def)
  moreover have "NotifyTransmittedMpdu s a = Some (a\<lparr>m_txWindow := w'\<rparr>)"
    using a s d le w'(1)
    by (simp add: NotifyTransmittedMpdu_def orig_GetDistance_ok tx_size_def baw_GetWinSize_def)
  ultimately show thesis
    using that w'(2,4) by blast
qed

lemma NotifyDiscardedMpdu_spec:
  assumes a: "tx_window_ok a" and s: "seqno s" and d: "seq_dist s (tx_start a) < 2048"
  obtains a' k where "NotifyDiscardedMpdu s a = Some a'" and "tx_moved a a' k"
    and "2048 \<le> seq_dist s (tx_start a')"
    and "\<And>t. seqno t \<Longrightarrow> acked a' t \<longleftrightarrow> acked a t \<and> k \<le> seq_dist t (tx_start a)"
proof -
  let ?d = "seq_dist s (tx_start a)"
  note wf = tx_window_okD [OF a]
  have n: "?d + 1 < 3072" using d by simp
  obtain w' k where w': "AdvanceTxWindow (baw_Advance (?d + 1) (m_txWindow a)) = Some w'"
    "tx_moved a (a\<lparr>m_txWindow := w'\<rparr>) k" "?d + 1 \<le> k" "k \<le> ?d + 1 + tx_size a"
    "\<And>t. seqno t \<Longrightarrow> acked (a\<lparr>m_txWindow := w'\<rparr>) t \<longleftrightarrow> acked a t \<and> k \<le> seq_dist t (tx_start a)"
    using slide_and_advance [OF a n] by metis
  have "seq_dist s (seq_add (tx_start a) k) = ?d + 4096 - k"
    using s d w'(3,4) wf(4,5) by (simp add: seq_dist_shift_less)
  then have "2048 \<le> seq_dist s (tx_start (a\<lparr>m_txWindow := w'\<rparr>))"
    using w'(2,4) wf(4) by (simp add: tx_moved_def)
  moreover have "NotifyDiscardedMpdu s a = Some (a\<lparr>m_txWindow := w'\<rparr>)"
    using a s d w'(1) by (simp add: NotifyDiscardedMpdu_def orig_GetDistance_ok)
  ultimately show thesis
    using that w'(2,5) by blast
qed

text \<open>\<^verbatim>\<open>AllAckedMpdusInTxWindow\<close>: the early return of the loop is a bounded quantifier.\<close>

lemma orig_distances_eq:
  assumes "tx_window_ok a" "\<forall>s \<in> set seqs. seqno s"
  shows "orig_distances seqs a = Some ((\<lambda>s. seq_dist s (tx_start a)) ` set seqs)"
  using assms by (induction seqs) (simp_all add: orig_GetDistance_ok)

lemma all_acked_from_eq:
  "i + n \<le> length (m_window w) \<Longrightarrow>
     all_acked_from i n ds w = Some (\<forall>d \<in> {i..<i + n}. d \<in> ds \<or> baw_list w ! d)"
proof (induction n arbitrary: i)
  case (Suc n)
  have split: "{i..<i + Suc n} = insert i {Suc i..<Suc i + n}"
    by auto
  have "all_acked_from (Suc i) n ds w =
      Some (\<forall>d \<in> {Suc i..<Suc i + n}. d \<in> ds \<or> baw_list w ! d)"
    using Suc.prems by (intro Suc.IH) simp
  then show ?case
    using Suc.prems unfolding split by (simp add: baw_At_list)
qed simp

lemma AllAcked_distances:
  assumes "tx_window_ok a" "\<forall>s \<in> set seqs. seqno s"
  shows "AllAckedMpdusInTxWindow seqs a =
    Some (\<forall>d \<in> {0..<tx_size a}. d \<in> (\<lambda>s. seq_dist s (tx_start a)) ` set seqs \<or> baw_list (m_txWindow a) ! d)"
  using orig_distances_eq [OF assms]
  by (simp add: AllAckedMpdusInTxWindow_def all_acked_from_eq tx_size_def baw_GetWinSize_def)

section \<open>Properties\<close>

text \<open>An agreement with a window of four positions from 4094, the second one acknowledged.\<close>

definition ex_originator :: originator where
  "ex_originator =
     \<lparr>m_peer = 1, m_amsduSupported = False, m_blockAckPolicy = 1, m_tid = 0, m_bufferSize = 4,
      m_timeout = 0, m_startingSeq = 4094, m_htSupported = True, m_gcrGroupAddress = None,
      m_state = ESTABLISHED,
      m_txWindow = \<lparr>m_winStart = 4094, m_window = [False, False, False, True], m_head = 2\<rparr>\<rparr>"

lemma ex_originator_ok: "tx_window_ok ex_originator" "tx_start ex_originator = 4094"
  "tx_size ex_originator = 4"
  by (simp_all add: tx_window_ok_def ex_originator_def baw_wf_def baw_list_def tx_start_def
      tx_size_def seqno_def rotate_drop_take)

text \<open>
  Property C31: acknowledging an MPDU of the window never fails, marks exactly that sequence number, and
  moves the window to the first sequence number not acknowledged; everything it moves past is
  acknowledged and everything that stays keeps its status.
\<close>

theorem originator_ack_exact:
  assumes "tx_window_ok a" "seqno s" "in_tx_window a s"
  shows "\<exists>a' k. NotifyAckedMpdu s a = Some a' \<and> tx_moved a a' k
           \<and> (\<forall>t. seqno t \<longrightarrow>
                (acked a' t \<longleftrightarrow> (acked a t \<or> t = s) \<and> k \<le> seq_dist t (tx_start a)))
           \<and> (\<forall>t. seqno t \<and> seq_dist t (tx_start a) < k \<longrightarrow> acked a t \<or> t = s)"
  using NotifyAckedMpdu_spec [OF assms] by metis

theorem originator_ack_exact_witness:
  "\<exists>a' k. NotifyAckedMpdu 4094 ex_originator = Some a' \<and> tx_moved ex_originator a' k"
  using originator_ack_exact [of ex_originator 4094] ex_originator_ok
  by (auto simp: in_tx_window_def seqno_def)

text \<open>
  transmitting an MPDU that is not older than the window never fails and leaves
  its sequence number inside the window, moving it forward only as needed; acknowledgments of
  the sequence numbers that stay are kept and none is invented.
\<close>

theorem originator_transmit_in_window:
  assumes "tx_window_ok a" "seqno s" "seq_dist s (tx_start a) < 2048"
  shows "\<exists>a' k. NotifyTransmittedMpdu s a = Some a' \<and> tx_moved a a' k \<and> in_tx_window a' s
           \<and> (\<forall>t. seqno t \<longrightarrow> (acked a' t \<longleftrightarrow> acked a t \<and> k \<le> seq_dist t (tx_start a)))"
  using NotifyTransmittedMpdu_spec [OF assms] by metis

theorem originator_transmit_in_window_witness:
  "\<exists>a' k. NotifyTransmittedMpdu 5 ex_originator = Some a' \<and> tx_moved ex_originator a' k
     \<and> in_tx_window a' 5"
  using originator_transmit_in_window [of ex_originator 5] ex_originator_ok
  by (auto simp: seqno_def seq_dist_def)

text \<open>
  discarding an MPDU that is not older than the window never fails and leaves its
  sequence number behind the window, so that the recipient can be told to stop waiting for it.
\<close>

theorem originator_discard_leaves_window:
  assumes "tx_window_ok a" "seqno s" "seq_dist s (tx_start a) < 2048"
  shows "\<exists>a' k. NotifyDiscardedMpdu s a = Some a' \<and> tx_moved a a' k
           \<and> 2048 \<le> seq_dist s (tx_start a')
           \<and> (\<forall>t. seqno t \<longrightarrow> (acked a' t \<longleftrightarrow> acked a t \<and> k \<le> seq_dist t (tx_start a)))"
  using NotifyDiscardedMpdu_spec [OF assms] by metis

theorem originator_discard_leaves_window_witness:
  "\<exists>a' k. NotifyDiscardedMpdu 4094 ex_originator = Some a' \<and> tx_moved ex_originator a' k
     \<and> 2048 \<le> seq_dist 4094 (tx_start a')"
  using originator_discard_leaves_window [of ex_originator 4094] ex_originator_ok
  by (auto simp: seqno_def seq_dist_def)

text \<open>
  \<^verbatim>\<open>AllAckedMpdusInTxWindow\<close> answers whether every sequence number of the
  window is acknowledged or in the given set.
\<close>

theorem originator_all_acked:
  assumes "tx_window_ok a" "\<forall>s \<in> set seqs. seqno s"
  shows "AllAckedMpdusInTxWindow seqs a =
           Some (\<forall>s. seqno s \<and> in_tx_window a s \<longrightarrow> acked a s \<or> s \<in> set seqs)"
proof -
  note wf = tx_window_okD [OF assms(1)]
  have inj: "seq_dist s (tx_start a) \<in> (\<lambda>s. seq_dist s (tx_start a)) ` set seqs \<longleftrightarrow> s \<in> set seqs"
    if "seqno s" for s
    using that assms(2) wf(5) seq_dist_inj by blast
  have reach: "\<exists>s. seqno s \<and> in_tx_window a s \<and> seq_dist s (tx_start a) = d" if "d < tx_size a" for d
    using that wf(4,5) by (intro exI [of _ "seq_add (tx_start a) d"])
      (simp add: in_tx_window_def seq_dist_add)
  have "(\<forall>d \<in> {0..<tx_size a}. Q d) \<longleftrightarrow>
      (\<forall>s. seqno s \<and> in_tx_window a s \<longrightarrow> Q (seq_dist s (tx_start a)))" for Q
    by (metis atLeastLessThan_iff in_tx_window_def le0 reach)
  then show ?thesis
    using inj by (auto simp: AllAcked_distances [OF assms] acked_nth)
qed

theorem originator_all_acked_witness:
  "AllAckedMpdusInTxWindow [4094, 0, 1] ex_originator = Some True \<and> acked ex_originator 4095"
proof -
  have "AllAckedMpdusInTxWindow [4094, 0, 1] ex_originator = Some True"
    using ex_originator_ok
    by (simp add: AllAcked_distances seqno_def seq_dist_def atLeastLessThan_upt upt_rec)
      (simp add: ex_originator_def baw_list_def rotate_drop_take)
  moreover have "\<forall>s \<in> set [4094, 0, 1]. seqno s" by (simp add: seqno_def)
  ultimately show ?thesis
    using originator_all_acked [of ex_originator "[4094, 0, 1]"] ex_originator_ok
    by (auto simp: seqno_def in_tx_window_def seq_dist_def dest: spec [of _ 4095])
qed

end
