(* ===== verification/Recipient_Agreement.thy ===== *)
theory Recipient_Agreement
  imports Block_Ack_Agreement
begin

text \<open>
  \<^verbatim>\<open>src/wifi/model/recipient-block-ack-agreement.cc\<close>: the scoreboard and the
  receive reordering buffer of the recipient.  An MPDU is its sequence number and an abstract
  content; what the code passes to \<^verbatim>\<open>MacRxMiddle::Receive\<close> is returned, in order,
  beside the new state.

  \<^verbatim>\<open>m_bufferedMpdus\<close> is a \<^verbatim>\<open>std::map\<close> whose comparator reads
  \<^verbatim>\<open>m_winStartB\<close> through a pointer, so that its order changes with every write to
  that member.  The model keeps the entries in the order of the tree; that the order stays the
  one of the comparator is part of the invariant \<open>recip_ok\<close>.
\<close>

record 'p recipient = ba_agreement +
  m_scoreboard :: baw
  m_winStartB :: nat
  m_winSizeB :: nat
  m_bufferedMpdus :: "(nat \<times> 'p) list"

definition key_less :: "nat \<Rightarrow> nat \<Rightarrow> nat \<Rightarrow> bool" where
  "key_less winStartB a b \<longleftrightarrow>
     (a + SEQNO_SPACE_SIZE - winStartB) mod SEQNO_SPACE_SIZE
       < (b + SEQNO_SPACE_SIZE - winStartB) mod SEQNO_SPACE_SIZE"

definition RecipientBlockAckAgreement ::
  "'p recipient \<Rightarrow> mac48 \<Rightarrow> bool \<Rightarrow> nat \<Rightarrow> nat \<Rightarrow> nat \<Rightarrow> nat \<Rightarrow> bool \<Rightarrow> 'p recipient" where
  "RecipientBlockAckAgreement memory originator amsduSupported tid bufferSize timeout startingSeq
      htSupported =
     (BlockAckAgreement memory originator tid)
       \<lparr>m_amsduSupported := amsduSupported, m_bufferSize := bufferSize, m_timeout := timeout,
        m_startingSeq := startingSeq, m_htSupported := htSupported,
        m_scoreboard := baw_Init startingSeq bufferSize baw_empty,
        m_winStartB := startingSeq, m_winSizeB := bufferSize, m_bufferedMpdus := []\<rparr>"

text \<open>\<^verbatim>\<open>std::map::insert\<close>: an entry with an equivalent key is left alone.\<close>

fun buf_insert :: "nat \<Rightarrow> nat \<times> 'p \<Rightarrow> (nat \<times> 'p) list \<Rightarrow> (nat \<times> 'p) list" where
  "buf_insert w m [] = [m]"
| "buf_insert w m (x # xs) =
     (if key_less w (fst m) (fst x) then m # x # xs
      else if key_less w (fst x) (fst m) then x # buf_insert w m xs
      else x # xs)"

definition no_old_mpdus :: "'p recipient \<Rightarrow> bool option" where
  "no_old_mpdus a =
     (if m_bufferedMpdus a = [] then Some True
      else do { d \<leftarrow> GetDistance (fst (last (m_bufferedMpdus a))) (m_winStartB a);
                Some (d < SEQNO_SPACE_HALF_SIZE) })"

fun until_first_lost :: "nat \<Rightarrow> (nat \<times> 'p) list \<Rightarrow> nat \<times> (nat \<times> 'p) list \<times> (nat \<times> 'p) list" where
  "until_first_lost w [] = (w, [], [])"
| "until_first_lost w (x # xs) =
     (if fst x = w
      then (let (w', rest, out) = until_first_lost ((w + 1) mod SEQNO_SPACE_SIZE) xs
            in (w', rest, x # out))
      else (w, x # xs, []))"

definition PassBufferedMpdusUntilFirstLost ::
  "'p recipient \<Rightarrow> ('p recipient \<times> (nat \<times> 'p) list) option" where
  "PassBufferedMpdusUntilFirstLost a =
     do { ok \<leftarrow> no_old_mpdus a; ns_assert ok;
          (case until_first_lost (m_winStartB a) (m_bufferedMpdus a) of
             (w, rest, out) \<Rightarrow> Some (a\<lparr>m_winStartB := w, m_bufferedMpdus := rest\<rparr>, out)) }"

fun less_than_new_start ::
  "nat \<Rightarrow> nat \<Rightarrow> (nat \<times> 'p) list \<Rightarrow> ((nat \<times> 'p) list \<times> (nat \<times> 'p) list) option" where
  "less_than_new_start newWinStartB w [] = Some ([], [])"
| "less_than_new_start newWinStartB w (x # xs) =
     do { d \<leftarrow> GetDistance (fst x) w;
          d' \<leftarrow> GetDistance newWinStartB w;
          if d < d'
          then do { (rest, out) \<leftarrow> less_than_new_start newWinStartB w xs; Some (rest, x # out) }
          else Some (x # xs, []) }"

definition PassBufferedMpdusWithSeqNumberLessThan ::
  "nat \<Rightarrow> 'p recipient \<Rightarrow> ('p recipient \<times> (nat \<times> 'p) list) option" where
  "PassBufferedMpdusWithSeqNumberLessThan newWinStartB a =
     do { ok \<leftarrow> no_old_mpdus a; ns_assert ok;
          (rest, out) \<leftarrow> less_than_new_start newWinStartB (m_winStartB a) (m_bufferedMpdus a);
          Some (a\<lparr>m_winStartB := newWinStartB, m_bufferedMpdus := rest\<rparr>, out) }"

text \<open>
  \<^verbatim>\<open>m_winSizeB\<close> is a \<^verbatim>\<open>std::size_t\<close>: the subtraction below wraps around in
  64 bits, which the following \<open>mod\<close> 4096 cannot see.
\<close>

definition new_win_start :: "nat \<Rightarrow> nat \<Rightarrow> nat" where
  "new_win_start seq winSizeB =
     nat ((int seq - int winSizeB + 1 + 4096) mod 4096)"

definition scoreboard_mpdu :: "nat \<Rightarrow> baw \<Rightarrow> baw option" where
  "scoreboard_mpdu mpduSeqNumber w =
     do { distance \<leftarrow> GetDistance mpduSeqNumber (m_winStart w);
          if distance < baw_GetWinSize w then baw_SetAt distance True w
          else if distance < SEQNO_SPACE_HALF_SIZE
          then (let w' = baw_Advance (distance - baw_GetWinSize w + 1) w
                in baw_SetAt (baw_GetWinSize w' - 1) True w')
          else Some w }"

definition NotifyReceivedMpdu ::
  "nat \<times> 'p \<Rightarrow> 'p recipient \<Rightarrow> ('p recipient \<times> (nat \<times> 'p) list) option" where
  "NotifyReceivedMpdu mpdu a =
     do { w \<leftarrow> scoreboard_mpdu (fst mpdu) (m_scoreboard a);
          let a = a\<lparr>m_scoreboard := w\<rparr>;
          distance \<leftarrow> GetDistance (fst mpdu) (m_winStartB a);
          if distance < m_winSizeB a
          then PassBufferedMpdusUntilFirstLost
                 (a\<lparr>m_bufferedMpdus := buf_insert (m_winStartB a) mpdu (m_bufferedMpdus a)\<rparr>)
          else if distance < SEQNO_SPACE_HALF_SIZE
          then do { (a', out) \<leftarrow> PassBufferedMpdusWithSeqNumberLessThan
                        (new_win_start (fst mpdu) (m_winSizeB a))
                        (a\<lparr>m_bufferedMpdus := buf_insert (m_winStartB a) mpdu (m_bufferedMpdus a)\<rparr>);
                    (a'', out') \<leftarrow> PassBufferedMpdusUntilFirstLost a';
                    Some (a'', out @ out') }
          else Some (a, []) }"

definition Flush :: "'p recipient \<Rightarrow> ('p recipient \<times> (nat \<times> 'p) list) option" where
  "Flush a =
     do { (a', out) \<leftarrow> PassBufferedMpdusWithSeqNumberLessThan (m_winStart (m_scoreboard a)) a;
          (a'', out') \<leftarrow> PassBufferedMpdusUntilFirstLost a';
          Some (a'', out @ out') }"

definition scoreboard_bar :: "nat \<Rightarrow> baw \<Rightarrow> baw option" where
  "scoreboard_bar startingSequenceNumber w =
     do { distance \<leftarrow> GetDistance startingSequenceNumber (m_winStart w);
          if distance > 0 \<and> distance < baw_GetWinSize w
          then (let w' = baw_Advance distance w
                in do { ns_assert (m_winStart w' = startingSequenceNumber); Some w' })
          else if distance > 0 \<and> distance < SEQNO_SPACE_HALF_SIZE
          then Some (baw_Reset startingSequenceNumber w)
          else Some w }"

definition NotifyReceivedBar ::
  "nat \<Rightarrow> 'p recipient \<Rightarrow> ('p recipient \<times> (nat \<times> 'p) list) option" where
  "NotifyReceivedBar startingSequenceNumber a =
     do { w \<leftarrow> scoreboard_bar startingSequenceNumber (m_scoreboard a);
          let a = a\<lparr>m_scoreboard := w\<rparr>;
          distance \<leftarrow> GetDistance startingSequenceNumber (m_winStartB a);
          if distance > 0 \<and> distance < SEQNO_SPACE_HALF_SIZE
          then do { (a', out) \<leftarrow> PassBufferedMpdusWithSeqNumberLessThan startingSequenceNumber a;
                    (a'', out') \<leftarrow> PassBufferedMpdusUntilFirstLost a';
                    Some (a'', out @ out') }
          else Some (a, []) }"

section \<open>The buffer as a list sorted by distance\<close>

definition buf_sorted :: "nat \<Rightarrow> (nat \<times> 'p) list \<Rightarrow> bool" where
  "buf_sorted w b \<longleftrightarrow>
     (\<forall>x \<in> set b. seqno (fst x) \<and> seq_dist (fst x) w < 2048)
     \<and> sorted_wrt (\<lambda>x y. seq_dist (fst x) w < seq_dist (fst y) w) b"

lemma buf_sorted_Nil [simp]: "buf_sorted w []"
  by (simp add: buf_sorted_def)

lemma buf_sorted_Cons:
  "buf_sorted w (x # xs) \<longleftrightarrow> seqno (fst x) \<and> seq_dist (fst x) w < 2048 \<and> buf_sorted w xs
     \<and> (\<forall>y \<in> set xs. seq_dist (fst x) w < seq_dist (fst y) w)"
  by (auto simp: buf_sorted_def)

lemma key_less_dist: "key_less w a b \<longleftrightarrow> seq_dist a w < seq_dist b w"
  by (simp add: key_less_def seq_dist_def)

lemma set_buf_insert_subset: "set (buf_insert w m b) \<subseteq> insert m (set b)"
  by (induction w m b rule: buf_insert.induct) auto

lemma buf_insert_superset: "set b \<subseteq> set (buf_insert w m b)"
  by (induction w m b rule: buf_insert.induct) auto

lemma buf_insert_sorted:
  assumes "buf_sorted w b" "seqno (fst m)" "seq_dist (fst m) w < 2048" "seqno w"
  shows "buf_sorted w (buf_insert w m b) \<and> fst m \<in> fst ` set (buf_insert w m b)"
  using assms
proof (induction b)
  case (Cons x xs)
  have x: "seqno (fst x)" "seq_dist (fst x) w < 2048" "buf_sorted w xs"
    and lt: "\<And>y. y \<in> set xs \<Longrightarrow> seq_dist (fst x) w < seq_dist (fst y) w"
    using Cons.prems(1) by (simp_all add: buf_sorted_Cons)
  consider "seq_dist (fst m) w < seq_dist (fst x) w" | "seq_dist (fst x) w < seq_dist (fst m) w"
    | "fst x = fst m"
    using x(1) Cons.prems(2,4) seq_dist_inj linorder_less_linear by blast
  then show ?case
  proof cases
    case 1
    then have "seq_dist (fst m) w < seq_dist (fst y) w" if "y \<in> set xs" for y
      using lt [OF that] by (rule less_trans)
    with 1 show ?thesis
      using Cons.prems by (simp add: buf_sorted_Cons key_less_dist)
  next
    case 2
    have "seq_dist (fst x) w < seq_dist (fst y) w" if "y \<in> set (buf_insert w m xs)" for y
      using that set_buf_insert_subset [of w m xs] lt 2 by blast
    with 2 show ?thesis
      using x Cons.IH [OF x(3) Cons.prems(2-4)] by (simp add: buf_sorted_Cons key_less_dist)
  next
    case 3
    then show ?thesis
      using Cons.prems(1) by (simp add: key_less_dist)
  qed
qed (simp add: buf_sorted_def)

lemma no_old_mpdus_ok:
  assumes "buf_sorted (m_winStartB a) (m_bufferedMpdus a)" "seqno (m_winStartB a)"
  shows "no_old_mpdus a = Some True"
proof (cases "m_bufferedMpdus a = []")
  case False
  then have "last (m_bufferedMpdus a) \<in> set (m_bufferedMpdus a)" by simp
  with assms False show ?thesis
    by (auto simp: no_old_mpdus_def buf_sorted_def)
qed (simp add: no_old_mpdus_def)

text \<open>
  \<open>passed w b w' k rest out\<close>: starting from the window start \<open>w\<close> and the buffer
  \<open>b\<close>, the front part \<open>out\<close> of the buffer has been passed up and the window moved
  by \<open>k\<close> to \<open>w'\<close>; what was passed lies before the new start and what is kept does not.
\<close>

definition passed ::
  "nat \<Rightarrow> (nat \<times> 'p) list \<Rightarrow> nat \<Rightarrow> nat \<Rightarrow> (nat \<times> 'p) list \<Rightarrow> (nat \<times> 'p) list \<Rightarrow> bool" where
  "passed w b w' k rest out \<longleftrightarrow>
     out @ rest = b \<and> w' = seq_add w k
     \<and> (\<forall>x \<in> set out. seq_dist (fst x) w < k) \<and> (\<forall>x \<in> set rest. k \<le> seq_dist (fst x) w)"

lemma passed_sorted:
  assumes "passed w b w' k rest out" "buf_sorted w b" "seqno w"
  shows "buf_sorted w' rest" "\<forall>x \<in> set rest. seq_dist (fst x) w' = seq_dist (fst x) w - k"
proof -
  have r: "\<forall>x \<in> set rest. seqno (fst x) \<and> k \<le> seq_dist (fst x) w \<and> seq_dist (fst x) w < 2048"
    and s: "sorted_wrt (\<lambda>x y. seq_dist (fst x) w < seq_dist (fst y) w) rest"
    using assms(1,2) by (auto simp: passed_def buf_sorted_def sorted_wrt_append)
  then show d: "\<forall>x \<in> set rest. seq_dist (fst x) w' = seq_dist (fst x) w - k"
    using assms(1,3) by (auto simp: passed_def seq_dist_shift)
  have "sorted_wrt (\<lambda>x y. seq_dist (fst x) w' < seq_dist (fst y) w') rest"
    using s by (rule sorted_wrt_mono_rel [rotated]) (use r d in \<open>auto intro: diff_less_mono\<close>)
  then show "buf_sorted w' rest"
    using r d by (auto simp: buf_sorted_def)
qed

lemma passed_trans:
  assumes p: "passed w b w1 k1 b1 o1" and q: "passed w1 b1 w2 k2 b2 o2"
    and s: "buf_sorted w b" and w: "seqno w"
  shows "passed w b w2 (k1 + k2) b2 (o1 @ o2)"
proof -
  have d: "\<forall>x \<in> set b1. seq_dist (fst x) w1 = seq_dist (fst x) w - k1"
    by (rule passed_sorted(2) [OF p s w])
  have b1: "b1 = o2 @ b2" and k: "\<forall>x \<in> set b1. k1 \<le> seq_dist (fst x) w"
    using p q by (simp_all add: passed_def)
  have "\<forall>x \<in> set o1. seq_dist (fst x) w < k1 + k2"
    using p by (auto simp: passed_def)
  moreover have "\<forall>x \<in> set o2. seq_dist (fst x) w < k1 + k2"
    using q d k b1 by (fastforce simp: passed_def)
  moreover have "\<forall>x \<in> set b2. k1 + k2 \<le> seq_dist (fst x) w"
  proof
    fix x assume "x \<in> set b2"
    then have "k2 \<le> seq_dist (fst x) w - k1" "k1 \<le> seq_dist (fst x) w"
      using q d k b1 by (auto simp: passed_def)
    then show "k1 + k2 \<le> seq_dist (fst x) w" by simp
  qed
  ultimately show ?thesis
    using p q by (auto simp: passed_def seq_add_add)
qed

text \<open>The two loops.\<close>

lemma until_first_lost_spec:
  assumes "buf_sorted w b" "seqno w" "until_first_lost w b = (w', rest, out)"
  shows "passed w b w' (length out) rest out
    \<and> map (\<lambda>x. seq_dist (fst x) w) out = [0..<length out]
    \<and> (\<forall>x \<in> set rest. length out < seq_dist (fst x) w)"
  using assms
proof (induction w b arbitrary: w' rest out rule: until_first_lost.induct)
  case (1 w)
  then show ?case by (simp add: passed_def)
next
  case (2 w x xs)
  show ?case
  proof (cases "fst x = w")
    case False
    have "0 < seq_dist (fst x) w"
      using False "2.prems" by (metis bot_nat_0.not_eq_extremum buf_sorted_Cons seq_dist_eq_0)
    moreover from this have "0 < seq_dist (fst y) w" if "y \<in> set xs" for y
      using that "2.prems"(1) by (metis buf_sorted_Cons less_trans)
    ultimately show ?thesis
      using False "2.prems" by (auto simp: passed_def)
  next
    case True
    obtain out' where rec: "until_first_lost (seq_add w 1) xs = (w', rest, out')"
      and out: "out = x # out'"
      using True "2.prems"(3) by (auto simp: seq_add_def split: prod.splits)
    have x: "seq_dist (fst x) w = 0"
      using True "2.prems"(2) by simp
    have one: "passed w (x # xs) (seq_add w 1) 1 xs [x]"
      using x "2.prems"(1) by (auto simp: passed_def buf_sorted_Cons Suc_le_eq)
    note sorted = passed_sorted [OF one "2.prems"(1,2)]
    have IH: "passed (seq_add w 1) xs w' (length out') rest out'
        \<and> map (\<lambda>x. seq_dist (fst x) (seq_add w 1)) out' = [0..<length out']
        \<and> (\<forall>x \<in> set rest. length out' < seq_dist (fst x) (seq_add w 1))"
      using "2.IH" [OF True] sorted(1) rec by (simp add: seq_add_def seqno_def)
    have xs: "set xs = set out' \<union> set rest" and pos: "\<forall>y \<in> set xs. 0 < seq_dist (fst y) w"
      using IH x "2.prems"(1) by (auto simp: passed_def buf_sorted_Cons)
    have "map (\<lambda>x. seq_dist (fst x) w) out' = map Suc (map (\<lambda>x. seq_dist (fst x) (seq_add w 1)) out')"
      using sorted(2) xs pos by auto
    also have "\<dots> = map Suc [0..<length out']"
      using IH by simp
    finally have "map (\<lambda>x. seq_dist (fst x) w) out = [0..<length out]"
      using x out by (simp add: map_Suc_upt upt_conv_Cons del: upt_Suc)
    moreover have "\<forall>x \<in> set rest. length out < seq_dist (fst x) w"
      using IH sorted(2) xs out by fastforce
    ultimately show ?thesis
      using passed_trans [OF one _ "2.prems"(1,2)] IH out by force
  qed
qed

lemma less_than_new_start_eq:
  assumes "\<forall>x \<in> set b. seqno (fst x)" "seqno w" "seqno n"
  shows "less_than_new_start n w b =
    Some (dropWhile (\<lambda>x. seq_dist (fst x) w < seq_dist n w) b,
          takeWhile (\<lambda>x. seq_dist (fst x) w < seq_dist n w) b)"
  using assms by (induction b) simp_all

lemma sorted_dropWhile_ge:
  fixes f :: "'a \<Rightarrow> nat"
  assumes "sorted_wrt (\<lambda>x y. f x < f y) b" "x \<in> set (dropWhile (\<lambda>x. f x < k) b)"
  shows "k \<le> f x"
  using assms by (induction b) (auto split: if_splits intro: less_imp_le le_trans)

section \<open>The passes over the buffer\<close>

lemma in_out_if_map:
  assumes "map (\<lambda>x. seq_dist (fst x) w) out = [0..<length out]" "\<forall>x \<in> set out. seqno (fst x)"
    "seqno w" "seqno t" "seq_dist t w < length out"
  shows "t \<in> fst ` set out"
proof -
  let ?i = "seq_dist t w"
  have "seq_dist (fst (out ! ?i)) w = ?i"
    using arg_cong [OF assms(1), of "\<lambda>xs. xs ! ?i"] assms(5) by simp
  then have "fst (out ! ?i) = t"
    using assms seq_dist_inj by (meson nth_mem)
  then show ?thesis using assms(5) nth_mem by force
qed

lemma PassBufferedMpdusUntilFirstLost_spec:
  assumes "buf_sorted (m_winStartB a) (m_bufferedMpdus a)" "seqno (m_winStartB a)"
  obtains w rest out where
    "PassBufferedMpdusUntilFirstLost a = Some (a\<lparr>m_winStartB := w, m_bufferedMpdus := rest\<rparr>, out)"
    "passed (m_winStartB a) (m_bufferedMpdus a) w (length out) rest out"
    "map (\<lambda>x. seq_dist (fst x) (m_winStartB a)) out = [0..<length out]"
    "\<forall>x \<in> set rest. length out < seq_dist (fst x) (m_winStartB a)"
proof -
  obtain w rest out where u: "until_first_lost (m_winStartB a) (m_bufferedMpdus a) = (w, rest, out)"
    by (metis prod_cases3)
  with until_first_lost_spec [OF assms u] no_old_mpdus_ok [OF assms] show thesis
    by (intro that [where w = w and rest = rest and out = out]) (simp_all add: PassBufferedMpdusUntilFirstLost_def)
qed

lemma PassBufferedMpdusWithSeqNumberLessThan_spec:
  assumes b: "buf_sorted (m_winStartB a) (m_bufferedMpdus a)" "seqno (m_winStartB a)" and n: "seqno n"
  obtains rest out where
    "PassBufferedMpdusWithSeqNumberLessThan n a = Some (a\<lparr>m_winStartB := n, m_bufferedMpdus := rest\<rparr>, out)"
    "passed (m_winStartB a) (m_bufferedMpdus a) n (seq_dist n (m_winStartB a)) rest out"
proof -
  let ?P = "\<lambda>x. seq_dist (fst x) (m_winStartB a) < seq_dist n (m_winStartB a)"
  have "less_than_new_start n (m_winStartB a) (m_bufferedMpdus a) =
      Some (dropWhile ?P (m_bufferedMpdus a), takeWhile ?P (m_bufferedMpdus a))"
    using b n by (intro less_than_new_start_eq) (simp_all add: buf_sorted_def)
  moreover have "passed (m_winStartB a) (m_bufferedMpdus a) n (seq_dist n (m_winStartB a))
      (dropWhile ?P (m_bufferedMpdus a)) (takeWhile ?P (m_bufferedMpdus a))"
    using b n sorted_dropWhile_ge [where f = "\<lambda>x. seq_dist (fst x) (m_winStartB a)"]
    by (auto simp: passed_def buf_sorted_def seq_add_dist dest: set_takeWhileD)
  ultimately show thesis
    using that no_old_mpdus_ok [OF b]
    by (simp add: PassBufferedMpdusWithSeqNumberLessThan_def)
qed

text \<open>
  The two passes one after the other, as three of the operations run them.  The window ends up
  past the first run of consecutive sequence numbers found at its new start, and every sequence
  number of that run has been passed up.
\<close>

lemma pass_both_spec:
  assumes b: "buf_sorted (m_winStartB a) (m_bufferedMpdus a)" "seqno (m_winStartB a)" and n: "seqno n"
  obtains w k rest out where
    "do { (a', out) \<leftarrow> PassBufferedMpdusWithSeqNumberLessThan n a;
          (a'', out') \<leftarrow> PassBufferedMpdusUntilFirstLost a';
          Some (a'', out @ out') } = Some (a\<lparr>m_winStartB := w, m_bufferedMpdus := rest\<rparr>, out)"
    "passed (m_winStartB a) (m_bufferedMpdus a) w k rest out"
    "seq_dist n (m_winStartB a) \<le> k"
    "\<forall>x \<in> set rest. k < seq_dist (fst x) (m_winStartB a)"
    "k = seq_dist n (m_winStartB a) \<or> (\<exists>x \<in> set out. Suc (seq_dist (fst x) (m_winStartB a)) = k)"
proof -
  let ?w = "m_winStartB a" and ?d = "seq_dist n (m_winStartB a)"
  obtain r1 o1 where 1:
    "PassBufferedMpdusWithSeqNumberLessThan n a = Some (a\<lparr>m_winStartB := n, m_bufferedMpdus := r1\<rparr>, o1)"
    and p1: "passed ?w (m_bufferedMpdus a) n ?d r1 o1"
    by (rule PassBufferedMpdusWithSeqNumberLessThan_spec [OF b n])
  let ?a = "a\<lparr>m_winStartB := n, m_bufferedMpdus := r1\<rparr>"
  note s1 = passed_sorted [OF p1 b]
  have "buf_sorted (m_winStartB ?a) (m_bufferedMpdus ?a)" "seqno (m_winStartB ?a)"
    using s1(1) n by simp_all
  from PassBufferedMpdusUntilFirstLost_spec [OF this] obtain w r2 o2 where
    "PassBufferedMpdusUntilFirstLost ?a = Some (?a\<lparr>m_winStartB := w, m_bufferedMpdus := r2\<rparr>, o2)"
    "passed (m_winStartB ?a) (m_bufferedMpdus ?a) w (length o2) r2 o2"
    "map (\<lambda>x. seq_dist (fst x) (m_winStartB ?a)) o2 = [0..<length o2]"
    "\<forall>x \<in> set r2. length o2 < seq_dist (fst x) (m_winStartB ?a)" .
  then have 2: "PassBufferedMpdusUntilFirstLost ?a = Some (a\<lparr>m_winStartB := w, m_bufferedMpdus := r2\<rparr>, o2)"
    "passed n r1 w (length o2) r2 o2" "map (\<lambda>x. seq_dist (fst x) n) o2 = [0..<length o2]"
    "\<forall>x \<in> set r2. length o2 < seq_dist (fst x) n"
    by simp_all
  have r1: "r1 = o2 @ r2" and le: "\<forall>x \<in> set r1. ?d \<le> seq_dist (fst x) ?w"
    using 2(2) p1 by (simp_all add: passed_def)
  have "\<exists>x \<in> set (o1 @ o2). Suc (seq_dist (fst x) ?w) = ?d + length o2" if "o2 \<noteq> []"
  proof -
    have "seq_dist (fst (last o2)) n = length o2 - 1"
      using arg_cong [OF 2(3), of last] that by (simp add: last_map)
    moreover have last: "last o2 \<in> set r1" "last o2 \<in> set o2"
      using that r1 by simp_all
    moreover have "?d \<le> seq_dist (fst (last o2)) ?w"
      "seq_dist (fst (last o2)) n = seq_dist (fst (last o2)) ?w - ?d" "0 < length o2"
      using last(1) s1(2) le that by blast+
    ultimately have "Suc (seq_dist (fst (last o2)) ?w) = ?d + length o2"
      by linarith
    then show ?thesis using last(2) by auto
  qed
  moreover have "?d + length o2 < seq_dist (fst x) ?w" if "x \<in> set r2" for x
    using that 2(4) s1(2) le r1 by fastforce
  ultimately show thesis
    using passed_trans [OF p1 2(2) b] 1 2(1)
    by (intro that [where w = w and rest = r2 and out = "o1 @ o2" and k = "?d + length o2"]) auto
qed

section \<open>The invariant and the operations\<close>

text \<open>
  The invariant: the reordering buffer is in the order of its comparator, every MPDU in it is
  ahead of the start of the window and within its size, and the scoreboard has that size.
\<close>

definition recip_ok :: "'p recipient \<Rightarrow> bool" where
  "recip_ok a \<longleftrightarrow>
     seqno (m_winStartB a) \<and> 0 < m_winSizeB a \<and> m_winSizeB a \<le> 1024
     \<and> baw_wf (m_scoreboard a) \<and> length (m_window (m_scoreboard a)) = m_winSizeB a
     \<and> buf_sorted (m_winStartB a) (m_bufferedMpdus a)
     \<and> (\<forall>x \<in> set (m_bufferedMpdus a).
          0 < seq_dist (fst x) (m_winStartB a) \<and> seq_dist (fst x) (m_winStartB a) < m_winSizeB a)"

lemma recip_okD:
  assumes "recip_ok a"
  shows "seqno (m_winStartB a)" "0 < m_winSizeB a" "m_winSizeB a \<le> 1024"
    "baw_wf (m_scoreboard a)" "length (m_window (m_scoreboard a)) = m_winSizeB a"
    "buf_sorted (m_winStartB a) (m_bufferedMpdus a)"
    "x \<in> set (m_bufferedMpdus a) \<Longrightarrow> 0 < seq_dist (fst x) (m_winStartB a)"
    "x \<in> set (m_bufferedMpdus a) \<Longrightarrow> seq_dist (fst x) (m_winStartB a) < m_winSizeB a"
  using assms by (auto simp: recip_ok_def)

lemma recip_ok_moved:
  assumes a: "recip_ok a" and w: "baw_wf sb" "length (m_window sb) = m_winSizeB a"
    and b: "buf_sorted (m_winStartB a) b" and p: "passed (m_winStartB a) b w' k rest out"
    and r: "\<forall>x \<in> set rest. k < seq_dist (fst x) (m_winStartB a)
                        \<and> seq_dist (fst x) (m_winStartB a) < m_winSizeB a + k"
  shows "recip_ok (a\<lparr>m_scoreboard := sb, m_winStartB := w', m_bufferedMpdus := rest\<rparr>)"
proof -
  note s = passed_sorted [OF p b recip_okD(1) [OF a]]
  have "0 < seq_dist (fst x) w' \<and> seq_dist (fst x) w' < m_winSizeB a" if "x \<in> set rest" for x
    using bspec [OF s(2) that] bspec [OF r that] by linarith
  with s(1) w p recip_okD [OF a] show ?thesis
    by (simp add: recip_ok_def passed_def)
qed

text \<open>The scoreboard.\<close>

lemma scoreboard_mpdu_spec:
  assumes w: "baw_wf w" "0 < length (m_window w)" "length (m_window w) \<le> 1024" and s: "seqno s"
  obtains w' k where "scoreboard_mpdu s w = Some w'" "baw_wf w'"
    "length (m_window w') = length (m_window w)" "m_winStart w' = seq_add (m_winStart w) k"
    "k \<le> seq_dist s (m_winStart w)"
    "\<And>t. seqno t \<Longrightarrow> baw.flagged w' t \<longleftrightarrow>
       (baw.flagged w t \<or> (t = s \<and> seq_dist s (m_winStart w) < 2048)) \<and> k \<le> seq_dist t (m_winStart w)"
proof -
  let ?d = "seq_dist s (m_winStart w)" and ?n = "length (m_window w)"
  have start: "seqno (m_winStart w)" using w(1) by (simp add: baw_wf_def)
  note inj = seq_dist_inj [OF _ s start]
  consider "?d < ?n" | "?n \<le> ?d" "?d < 2048" | "2048 \<le> ?d" by linarith
  then show thesis
  proof cases
    case 1
    obtain w' where w': "baw_SetAt ?d True w = Some w'"
      using baw_SetAt_defined 1 by blast
    show thesis
      by (rule that [of w' 0])
        (use 1 w' start s w inj in \<open>auto simp: scoreboard_mpdu_def baw_GetWinSize_def frame_simps
           baw.flagged_set_at [OF w'] dest: baw_SetAt_wf\<close>)
  next
    case 2
    let ?k = "?d - ?n + 1"
    let ?w = "baw_Advance ?k w"
    have wwf: "baw_wf ?w" using w by (simp add: baw_Advance_wf)
    obtain w' where w': "baw_SetAt (?n - 1) True ?w = Some w'"
      using baw_SetAt_defined [of "?n - 1" ?w] w(2) by auto
    have k: "?k \<le> ?d" "?d - ?k = ?n - 1" using 2 w(2) by linarith+
    then have "seq_dist s (m_winStart ?w) = ?n - 1"
      using s start by (simp only: baw_Advance_winStart seq_dist_shift)
    then have last: "seq_dist t (m_winStart ?w) = ?n - 1 \<longleftrightarrow> t = s" if "seqno t" for t
      using seq_dist_inj [OF that s, of "m_winStart ?w"] by (auto simp: baw_Advance_winStart)
    have "baw.flagged w' t \<longleftrightarrow> t = s \<or> (baw.flagged w t \<and> ?k \<le> seq_dist t (m_winStart w))"
      if "seqno t" for t
      using baw.flagged_set_at [OF w' that wwf] last [OF that]
        baw.flagged_advance [OF w(1) that, of ?k] 2 w(3) by auto
    with 2 k(1) w w' wwf s start show thesis
      by (intro that [of w' ?k])
        (auto simp: scoreboard_mpdu_def baw_GetWinSize_def frame_simps baw_Advance_winStart
           dest: baw_SetAt_wf)
  next
    case 3
    show thesis
      by (rule that [of w 0])
        (use 3 w s start in \<open>auto simp: scoreboard_mpdu_def baw_GetWinSize_def\<close>)
  qed
qed

lemma scoreboard_bar_spec:
  assumes w: "baw_wf w" "0 < length (m_window w)" "length (m_window w) \<le> 1024" and s: "seqno s"
  obtains w' k where "scoreboard_bar s w = Some w'" "baw_wf w'"
    "length (m_window w') = length (m_window w)" "m_winStart w' = seq_add (m_winStart w) k"
    "k = (if seq_dist s (m_winStart w) < 2048 then seq_dist s (m_winStart w) else 0)"
    "\<And>t. seqno t \<Longrightarrow> baw.flagged w' t \<longleftrightarrow> baw.flagged w t \<and> k \<le> seq_dist t (m_winStart w)"
proof -
  let ?d = "seq_dist s (m_winStart w)" and ?n = "length (m_window w)"
  have start: "seqno (m_winStart w)" using w(1) by (simp add: baw_wf_def)
  have adv: "seq_add (m_winStart w) ?d = s" using s start by (simp add: seq_add_dist)
  consider "?d = 0 \<or> 2048 \<le> ?d" | "0 < ?d" "?d < ?n" | "?d \<noteq> 0" "?n \<le> ?d" "?d < 2048"
    by fastforce
  then show thesis
  proof cases
    case 1
    show thesis
      by (rule that [of w 0]) (use 1 w s start in \<open>auto simp: scoreboard_bar_def baw_GetWinSize_def\<close>)
  next
    case 2
    show thesis
      by (rule that [of "baw_Advance ?d w" ?d])
        (use 2 w s start adv in \<open>auto simp: scoreboard_bar_def baw_GetWinSize_def
           baw_Advance_winStart baw.flagged_advance baw_Advance_wf\<close>)
  next
    case 3
    then have res: "scoreboard_bar s w = Some (baw_Advance ?d w)"
      using w s start adv
      by (cases "?d = 0") (simp_all add: scoreboard_bar_def baw_GetWinSize_def baw_Advance_def seq_add_def)
    show thesis
      by (rule that [OF res])
        (use 3 w s start adv in \<open>auto simp: baw_Advance_winStart baw.flagged_advance baw_Advance_wf\<close>)
  qed
qed

text \<open>
  What an event does to the window as a whole: the buffer it worked on is the list of what it
  passed up followed by what it kept, and the window moved by \<open>k\<close>.
\<close>

definition recip_moved ::
  "'p recipient \<Rightarrow> (nat \<times> 'p) list \<Rightarrow> 'p recipient \<Rightarrow> nat \<Rightarrow> (nat \<times> 'p) list \<Rightarrow> bool" where
  "recip_moved a b a' k out \<longleftrightarrow>
     recip_ok a' \<and> m_winSizeB a' = m_winSizeB a \<and> k \<le> 2048 \<and> buf_sorted (m_winStartB a) b
     \<and> passed (m_winStartB a) b (m_winStartB a') k (m_bufferedMpdus a') out"

lemma passed_refl: "seqno w \<Longrightarrow> passed w b w 0 b []"
  by (simp add: passed_def)

lemma new_win_start_eq:
  assumes "seqno s" "seqno w" "0 < n" "n \<le> seq_dist s w"
  shows "new_win_start s n = seq_add w (seq_dist s w - n + 1)"
proof -
  have "int (new_win_start s n) = (int s - int n + 1 + 4096) mod 4096"
    by (simp add: new_win_start_def)
  also have "\<dots> = (int s - int n + 1) mod 4096"
    by (rule mod_add_self2)
  also have "int s mod 4096 = (int w + int (seq_dist s w)) mod 4096"
    using seq_add_dist [OF assms(1,2)] by (metis seq_add_def of_nat_add of_nat_mod of_nat_numeral mod_mod_trivial)
  then have "(int s - int n + 1) mod 4096 = (int w + int (seq_dist s w) - int n + 1) mod 4096"
    by (metis mod_add_cong mod_diff_cong)
  also have "\<dots> = int (seq_add w (seq_dist s w - n + 1))"
    using assms(3,4) by (simp add: seq_add_def of_nat_mod of_nat_diff algebra_simps)
  finally show ?thesis by linarith
qed

lemma NotifyReceivedMpdu_near:
  assumes a: "recip_ok a" and s: "seqno (fst m)"
    and d: "seq_dist (fst m) (m_winStartB a) < m_winSizeB a"
  obtains a' k out where "NotifyReceivedMpdu m a = Some (a', out)"
    "recip_moved a (buf_insert (m_winStartB a) m (m_bufferedMpdus a)) a' k out"
    "\<And>t. seqno t \<Longrightarrow> seq_dist t (m_winStartB a) < k \<Longrightarrow> t \<in> fst ` set out"
proof -
  let ?w = "m_winStartB a" and ?b = "buf_insert (m_winStartB a) m (m_bufferedMpdus a)"
  note ok = recip_okD [OF a]
  have len: "0 < length (m_window (m_scoreboard a))" "length (m_window (m_scoreboard a)) \<le> 1024"
    using ok(2,3,5) by simp_all
  obtain sb where sb: "scoreboard_mpdu (fst m) (m_scoreboard a) = Some sb" "baw_wf sb"
    "length (m_window sb) = length (m_window (m_scoreboard a))"
    by (rule scoreboard_mpdu_spec [OF ok(4) len s])
  let ?a = "a\<lparr>m_scoreboard := sb, m_bufferedMpdus := ?b\<rparr>"
  have b: "buf_sorted ?w ?b"
    using buf_insert_sorted [OF ok(6) s _ ok(1)] d ok(3) by simp
  have near: "\<forall>x \<in> set ?b. seq_dist (fst x) ?w < m_winSizeB a"
    using set_buf_insert_subset [of ?w m "m_bufferedMpdus a"] d ok(8) by blast
  have "buf_sorted (m_winStartB ?a) (m_bufferedMpdus ?a)" "seqno (m_winStartB ?a)"
    using b ok(1) by simp_all
  from PassBufferedMpdusUntilFirstLost_spec [OF this] obtain w rest out where
    "PassBufferedMpdusUntilFirstLost ?a = Some (?a\<lparr>m_winStartB := w, m_bufferedMpdus := rest\<rparr>, out)"
    "passed (m_winStartB ?a) (m_bufferedMpdus ?a) w (length out) rest out"
    "map (\<lambda>x. seq_dist (fst x) (m_winStartB ?a)) out = [0..<length out]"
    "\<forall>x \<in> set rest. length out < seq_dist (fst x) (m_winStartB ?a)" .
  note p = this [simplified]
  have set: "set ?b = set out \<union> set rest" using p(2) by (metis passed_def set_append)
  have "length out \<le> m_winSizeB a"
  proof (cases out rule: rev_cases)
    case (snoc out' x)
    then have "seq_dist (fst x) ?w = length out'"
      using arg_cong [OF p(3), of last] by simp
    then show ?thesis using near snoc set by force
  qed simp
  moreover have "recip_ok (a\<lparr>m_scoreboard := sb, m_winStartB := w, m_bufferedMpdus := rest\<rparr>)"
    by (rule recip_ok_moved [OF a sb(2) _ b p(2)]) (use sb(3) ok(5) p(4) near set in \<open>auto intro: trans_less_add1\<close>)
  moreover have "NotifyReceivedMpdu m a =
      Some (a\<lparr>m_scoreboard := sb, m_winStartB := w, m_bufferedMpdus := rest\<rparr>, out)"
    using sb(1) s ok(1) d p(1) by (simp add: NotifyReceivedMpdu_def)
  moreover have "t \<in> fst ` set out" if "seqno t" "seq_dist t ?w < length out" for t
    by (rule in_out_if_map [OF p(3) _ ok(1) that]) (use b set in \<open>auto simp: buf_sorted_def\<close>)
  ultimately show thesis
    using p(2) ok(3) b
    by (intro that [where k = "length out" and out = out]) (auto simp: recip_moved_def)
qed

text \<open>The operations that run both passes, for a new start \<open>n\<close> at distance \<open>d\<close>.\<close>

lemma pass_both_moves:
  assumes a: "recip_ok a" and sb: "baw_wf sb" "length (m_window sb) = m_winSizeB a"
    and b: "buf_sorted (m_winStartB a) b" and n: "seqno n" "seq_dist n (m_winStartB a) < 2048"
    and near: "\<forall>x \<in> set b. seq_dist (fst x) (m_winStartB a) < m_winSizeB a + seq_dist n (m_winStartB a)"
  obtains a' k out where
    "do { (a', out) \<leftarrow> PassBufferedMpdusWithSeqNumberLessThan n
                        (a\<lparr>m_scoreboard := sb, m_bufferedMpdus := b\<rparr>);
          (a'', out') \<leftarrow> PassBufferedMpdusUntilFirstLost a';
          Some (a'', out @ out') } = Some (a', out)"
    "recip_moved a b a' k out" "seq_dist n (m_winStartB a) \<le> k" "m_scoreboard a' = sb"
proof -
  let ?a = "a\<lparr>m_scoreboard := sb, m_bufferedMpdus := b\<rparr>" and ?d = "seq_dist n (m_winStartB a)"
  have "buf_sorted (m_winStartB ?a) (m_bufferedMpdus ?a)" "seqno (m_winStartB ?a)"
    using b recip_okD(1) [OF a] by simp_all
  from pass_both_spec [OF this n(1)] obtain w k rest out where
    "do { (a', out) \<leftarrow> PassBufferedMpdusWithSeqNumberLessThan n ?a;
          (a'', out') \<leftarrow> PassBufferedMpdusUntilFirstLost a';
          Some (a'', out @ out') } = Some (?a\<lparr>m_winStartB := w, m_bufferedMpdus := rest\<rparr>, out)"
    "passed (m_winStartB ?a) (m_bufferedMpdus ?a) w k rest out"
    "seq_dist n (m_winStartB ?a) \<le> k"
    "\<forall>x \<in> set rest. k < seq_dist (fst x) (m_winStartB ?a)"
    "k = seq_dist n (m_winStartB ?a) \<or> (\<exists>x \<in> set out. Suc (seq_dist (fst x) (m_winStartB ?a)) = k)" .
  then have p: "do { (a', out) \<leftarrow> PassBufferedMpdusWithSeqNumberLessThan n ?a;
          (a'', out') \<leftarrow> PassBufferedMpdusUntilFirstLost a';
          Some (a'', out @ out') } =
      Some (a\<lparr>m_scoreboard := sb, m_winStartB := w, m_bufferedMpdus := rest\<rparr>, out)"
    "passed (m_winStartB a) b w k rest out" "?d \<le> k"
    "\<forall>x \<in> set rest. k < seq_dist (fst x) (m_winStartB a)"
    "k = ?d \<or> (\<exists>x \<in> set out. Suc (seq_dist (fst x) (m_winStartB a)) = k)"
    by simp_all
  have set: "set b = set out \<union> set rest" using p(2) by (metis passed_def set_append)
  have "k \<le> 2048"
    using p(5) n(2) b set by (force simp: buf_sorted_def)
  moreover have "recip_ok (a\<lparr>m_scoreboard := sb, m_winStartB := w, m_bufferedMpdus := rest\<rparr>)"
    by (rule recip_ok_moved [OF a sb b p(2)])
      (use p(3,4) near set in \<open>auto intro: less_le_trans\<close>)
  ultimately show thesis
    using p(1-3) b by (intro that [where k = k and out = out]) (auto simp: recip_moved_def)
qed

lemma NotifyReceivedMpdu_far:
  assumes a: "recip_ok a" and s: "seqno (fst m)"
    and d: "m_winSizeB a \<le> seq_dist (fst m) (m_winStartB a)" "seq_dist (fst m) (m_winStartB a) < 2048"
  obtains a' k out where "NotifyReceivedMpdu m a = Some (a', out)"
    "recip_moved a (buf_insert (m_winStartB a) m (m_bufferedMpdus a)) a' k out"
proof -
  let ?w = "m_winStartB a" and ?b = "buf_insert (m_winStartB a) m (m_bufferedMpdus a)"
  let ?d = "seq_dist (fst m) (m_winStartB a)"
  note ok = recip_okD [OF a]
  have len: "0 < length (m_window (m_scoreboard a))" "length (m_window (m_scoreboard a)) \<le> 1024"
    using ok(2,3,5) by simp_all
  obtain sb where sb: "scoreboard_mpdu (fst m) (m_scoreboard a) = Some sb" "baw_wf sb"
    "length (m_window sb) = m_winSizeB a"
    using scoreboard_mpdu_spec [OF ok(4) len s] ok(5) by metis
  have n: "new_win_start (fst m) (m_winSizeB a) = seq_add ?w (?d - m_winSizeB a + 1)"
    using new_win_start_eq [OF s ok(1,2) d(1)] .
  have dn: "seq_dist (new_win_start (fst m) (m_winSizeB a)) ?w = ?d - m_winSizeB a + 1"
    unfolding n using ok(1) d(2) by (intro seq_dist_add) simp_all
  have b: "buf_sorted ?w ?b"
    using buf_insert_sorted [OF ok(6) s d(2) ok(1)] by simp
  have near: "\<forall>x \<in> set ?b. seq_dist (fst x) ?w <
      m_winSizeB a + seq_dist (new_win_start (fst m) (m_winSizeB a)) ?w"
  proof
    fix x assume "x \<in> set ?b"
    then have "seq_dist (fst x) ?w < m_winSizeB a \<or> x = m"
      using set_buf_insert_subset [of ?w m "m_bufferedMpdus a"] ok(8) by blast
    then show "seq_dist (fst x) ?w < m_winSizeB a + seq_dist (new_win_start (fst m) (m_winSizeB a)) ?w"
      unfolding dn using d(1) by auto
  qed
  have n': "seqno (new_win_start (fst m) (m_winSizeB a))"
    "seq_dist (new_win_start (fst m) (m_winSizeB a)) ?w < 2048"
    using n dn d ok(2) by simp_all
  obtain a' k out where p:
    "do { (a', out) \<leftarrow> PassBufferedMpdusWithSeqNumberLessThan (new_win_start (fst m) (m_winSizeB a))
                        (a\<lparr>m_scoreboard := sb, m_bufferedMpdus := ?b\<rparr>);
          (a'', out') \<leftarrow> PassBufferedMpdusUntilFirstLost a';
          Some (a'', out @ out') } = Some (a', out)"
    "recip_moved a ?b a' k out"
    by (rule pass_both_moves [OF a sb(2,3) b n' near])
  have "NotifyReceivedMpdu m a = Some (a', out)"
    using sb(1) s ok(1) d p(1) by (simp add: NotifyReceivedMpdu_def)
  with p(2) show thesis by (rule that [rotated])
qed

lemma recip_ok_scoreboard:
  "recip_ok a \<Longrightarrow> baw_wf sb \<Longrightarrow> length (m_window sb) = m_winSizeB a \<Longrightarrow>
     recip_ok (a\<lparr>m_scoreboard := sb\<rparr>)"
  by (simp add: recip_ok_def)

lemma recip_moved_none:
  "recip_ok a \<Longrightarrow> baw_wf sb \<Longrightarrow> length (m_window sb) = m_winSizeB a \<Longrightarrow>
     recip_moved a (m_bufferedMpdus a) (a\<lparr>m_scoreboard := sb\<rparr>) 0 []"
  by (simp add: recip_moved_def recip_ok_scoreboard recip_okD passed_refl)

lemma NotifyReceivedMpdu_old:
  assumes a: "recip_ok a" and s: "seqno (fst m)" and d: "2048 \<le> seq_dist (fst m) (m_winStartB a)"
  obtains a' where "NotifyReceivedMpdu m a = Some (a', [])"
    "recip_moved a (m_bufferedMpdus a) a' 0 []"
proof -
  note ok = recip_okD [OF a]
  have len: "0 < length (m_window (m_scoreboard a))" "length (m_window (m_scoreboard a)) \<le> 1024"
    using ok(2,3,5) by simp_all
  obtain sb where sb: "scoreboard_mpdu (fst m) (m_scoreboard a) = Some sb" "baw_wf sb"
    "length (m_window sb) = m_winSizeB a"
    using scoreboard_mpdu_spec [OF ok(4) len s] ok(5) by metis
  then show thesis
    using s ok(1,3) d recip_moved_none [OF a sb(2,3)]
    by (intro that [of "a\<lparr>m_scoreboard := sb\<rparr>"]) (simp_all add: NotifyReceivedMpdu_def)
qed

lemma NotifyReceivedBar_spec:
  assumes a: "recip_ok a" and s: "seqno n"
  obtains a' k out where "NotifyReceivedBar n a = Some (a', out)"
    "recip_moved a (m_bufferedMpdus a) a' k out"
    "seq_dist n (m_winStartB a) < 2048 \<Longrightarrow> seq_dist n (m_winStartB a) \<le> k"
proof -
  let ?d = "seq_dist n (m_winStartB a)"
  note ok = recip_okD [OF a]
  have len: "0 < length (m_window (m_scoreboard a))" "length (m_window (m_scoreboard a)) \<le> 1024"
    using ok(2,3,5) by simp_all
  obtain sb where sb: "scoreboard_bar n (m_scoreboard a) = Some sb" "baw_wf sb"
    "length (m_window sb) = m_winSizeB a"
    using scoreboard_bar_spec [OF ok(4) len s] ok(5) by metis
  show thesis
  proof (cases "0 < ?d \<and> ?d < 2048")
    case True
    then have d: "?d < 2048" by simp
    have near: "\<forall>x \<in> set (m_bufferedMpdus a). seq_dist (fst x) (m_winStartB a) < m_winSizeB a + ?d"
      using ok(8) by (auto intro: trans_less_add1)
    obtain a' k out where p:
      "do { (a', out) \<leftarrow> PassBufferedMpdusWithSeqNumberLessThan n
                          (a\<lparr>m_scoreboard := sb, m_bufferedMpdus := m_bufferedMpdus a\<rparr>);
            (a'', out') \<leftarrow> PassBufferedMpdusUntilFirstLost a';
            Some (a'', out @ out') } = Some (a', out)"
      "recip_moved a (m_bufferedMpdus a) a' k out" "?d \<le> k"
      by (rule pass_both_moves [OF a sb(2,3) ok(6) s d near])
    have "NotifyReceivedBar n a = Some (a', out)"
      using sb(1) s ok(1) True p(1) by (simp add: NotifyReceivedBar_def)
    then show thesis using that [OF _ p(2)] p(3) by blast
  next
    case False
    then have "NotifyReceivedBar n a = Some (a\<lparr>m_scoreboard := sb\<rparr>, [])"
      using sb(1) s ok(1) by (auto simp: NotifyReceivedBar_def Let_def)
    with recip_moved_none [OF a sb(2,3)] False show thesis
      by (intro that [where k = 0]) auto
  qed
qed

text \<open>In a state of the invariant there is nothing to pass up at the start of the window.\<close>

lemma PassUntil_none: "recip_ok a \<Longrightarrow> PassBufferedMpdusUntilFirstLost a = Some (a, [])"
  using recip_okD(7) [of a "hd (m_bufferedMpdus a)"] no_old_mpdus_ok [of a] recip_okD(1,6) [of a]
  by (cases "m_bufferedMpdus a") (auto simp: PassBufferedMpdusUntilFirstLost_def)

lemma PassLess_same:
  "recip_ok a \<Longrightarrow> PassBufferedMpdusWithSeqNumberLessThan (m_winStartB a) a = Some (a, [])"
  using no_old_mpdus_ok [of a] recip_okD(1,6) [of a]
  by (cases "m_bufferedMpdus a")
    (simp_all add: PassBufferedMpdusWithSeqNumberLessThan_def buf_sorted_Cons)

section \<open>Sequences of receptions\<close>

text \<open>The events the recipient sees, in any order, and what they pass up.\<close>

datatype 'p rx_event = RxMpdu nat 'p | RxBar nat

fun rx_seq :: "'p rx_event \<Rightarrow> nat" where
  "rx_seq (RxMpdu s p) = s"
| "rx_seq (RxBar s) = s"

fun rx_step :: "'p rx_event \<Rightarrow> 'p recipient \<Rightarrow> ('p recipient \<times> (nat \<times> 'p) list) option" where
  "rx_step (RxMpdu s p) a = NotifyReceivedMpdu (s, p) a"
| "rx_step (RxBar s) a = NotifyReceivedBar s a"

fun rx_run :: "'p rx_event list \<Rightarrow> 'p recipient \<Rightarrow> ('p recipient \<times> (nat \<times> 'p) list) option" where
  "rx_run [] a = Some (a, [])"
| "rx_run (e # es) a =
     do { (a', out) \<leftarrow> rx_step e a; (a'', out') \<leftarrow> rx_run es a'; Some (a'', out @ out') }"

definition rx_received :: "'p rx_event \<Rightarrow> (nat \<times> 'p) set" where
  "rx_received e = (case e of RxMpdu s p \<Rightarrow> {(s, p)} | RxBar s \<Rightarrow> {})"

lemma rx_step_spec:
  assumes a: "recip_ok a" and s: "seqno (rx_seq e)"
  obtains a' b k out where "rx_step e a = Some (a', out)" "recip_moved a b a' k out"
    "set b \<subseteq> rx_received e \<union> set (m_bufferedMpdus a)"
proof (cases e)
  case (RxMpdu s p)
  let ?d = "seq_dist s (m_winStartB a)"
  have sub: "set (buf_insert (m_winStartB a) (s, p) (m_bufferedMpdus a))
      \<subseteq> rx_received e \<union> set (m_bufferedMpdus a)"
    using set_buf_insert_subset [of "m_winStartB a" "(s, p)"] RxMpdu by (auto simp: rx_received_def)
  have s': "seqno (fst (s, p))" using s RxMpdu by simp
  consider "?d < m_winSizeB a" | "m_winSizeB a \<le> ?d" "?d < 2048" | "2048 \<le> ?d" by linarith
  then show thesis
  proof cases
    case 1
    with NotifyReceivedMpdu_near [OF a s'] sub RxMpdu show thesis
      by (metis fst_conv rx_step.simps(1) that)
  next
    case 2
    with NotifyReceivedMpdu_far [OF a s'] sub RxMpdu show thesis
      by (metis fst_conv rx_step.simps(1) that)
  next
    case 3
    with NotifyReceivedMpdu_old [OF a s'] RxMpdu show thesis
      by (metis Un_upper2 fst_conv rx_step.simps(1) that)
  qed
next
  case (RxBar n)
  with s show thesis
    using NotifyReceivedBar_spec [OF a, of n] that by (metis Un_upper2 rx_seq.simps(2) rx_step.simps(2))
qed

text \<open>
  The numbers in the order in which they are passed up, counted from the start of the window:
  strictly increasing, all before the new start.
\<close>

lemma recip_moved_out:
  assumes "recip_moved a b a' k out" "recip_ok a"
  defines "ns \<equiv> map (\<lambda>x. seq_dist (fst x) (m_winStartB a)) out"
  shows "sorted_wrt (<) ns" "\<forall>n \<in> set ns. n < k" "map fst out = map (seq_add (m_winStartB a)) ns"
proof -
  have "sorted_wrt (\<lambda>x y. seq_dist (fst x) (m_winStartB a) < seq_dist (fst y) (m_winStartB a)) out"
    and q: "\<forall>x \<in> set out. seqno (fst x)"
    using assms(1) by (auto simp: recip_moved_def passed_def buf_sorted_def sorted_wrt_append)
  then show "sorted_wrt (<) ns"
    by (simp add: ns_def sorted_wrt_map)
  show "\<forall>n \<in> set ns. n < k"
    using assms(1) by (auto simp: ns_def recip_moved_def passed_def)
  show "map fst out = map (seq_add (m_winStartB a)) ns"
    using q recip_okD(1) [OF assms(2)] by (auto simp: ns_def seq_add_dist)
qed

text \<open>
  The positions at which MPDUs are passed up in a run, counted from the start of the window it begins
  with: each one is how far the window has moved by then and how far the MPDU is ahead of its start.
  \<open>rx_advance\<close> is how far the window moves in all.
\<close>

fun rx_advance :: "'p rx_event list \<Rightarrow> 'p recipient \<Rightarrow> nat" where
  "rx_advance [] a = 0"
| "rx_advance (e # es) a =
     (case rx_step e a of
        Some (a', out) \<Rightarrow> seq_dist (m_winStartB a') (m_winStartB a) + rx_advance es a'
      | None \<Rightarrow> 0)"

fun rx_positions :: "'p rx_event list \<Rightarrow> 'p recipient \<Rightarrow> nat list" where
  "rx_positions [] a = []"
| "rx_positions (e # es) a =
     (case rx_step e a of
        Some (a', out) \<Rightarrow> map (\<lambda>x. seq_dist (fst x) (m_winStartB a)) out
          @ map ((+) (seq_dist (m_winStartB a') (m_winStartB a))) (rx_positions es a')
      | None \<Rightarrow> [])"

lemma rx_run_spec:
  assumes "recip_ok a" "\<forall>e \<in> set es. seqno (rx_seq e)"
  shows "\<exists>a' out. rx_run es a = Some (a', out) \<and> recip_ok a'
    \<and> sorted_wrt (<) (rx_positions es a) \<and> map fst out = map (seq_add (m_winStartB a)) (rx_positions es a)
    \<and> m_winStartB a' = seq_add (m_winStartB a) (rx_advance es a) \<and> rx_advance es a \<le> 2048 * length es
    \<and> (\<forall>n \<in> set (rx_positions es a). n < rx_advance es a)
    \<and> set out \<union> set (m_bufferedMpdus a') \<subseteq> \<Union> (rx_received ` set es) \<union> set (m_bufferedMpdus a)"
  using assms
proof (induction es arbitrary: a)
  case Nil
  then show ?case
    using recip_okD(1) [of a] by auto
next
  case (Cons e es)
  have se: "seqno (rx_seq e)" using Cons.prems(2) by simp
  obtain a1 b k1 o1 where 1: "rx_step e a = Some (a1, o1)" "recip_moved a b a1 k1 o1"
    "set b \<subseteq> rx_received e \<union> set (m_bufferedMpdus a)"
    by (rule rx_step_spec [OF Cons.prems(1) se])
  let ?n1 = "map (\<lambda>x. seq_dist (fst x) (m_winStartB a)) o1"
  note m = recip_moved_out [OF 1(2) Cons.prems(1)]
  have ok1: "recip_ok a1" and w1: "m_winStartB a1 = seq_add (m_winStartB a) k1"
    and b: "o1 @ m_bufferedMpdus a1 = b" and k1: "k1 \<le> 2048"
    using 1(2) by (auto simp: recip_moved_def passed_def)
  have d1: "seq_dist (m_winStartB a1) (m_winStartB a) = k1"
    using k1 recip_okD(1) [OF Cons.prems(1)] by (simp add: w1 seq_dist_add)
  obtain a' o2 where 2: "rx_run es a1 = Some (a', o2)" "recip_ok a'" "sorted_wrt (<) (rx_positions es a1)"
    "map fst o2 = map (seq_add (m_winStartB a1)) (rx_positions es a1)"
    "m_winStartB a' = seq_add (m_winStartB a1) (rx_advance es a1)" "rx_advance es a1 \<le> 2048 * length es"
    "\<forall>n \<in> set (rx_positions es a1). n < rx_advance es a1"
    "set o2 \<union> set (m_bufferedMpdus a') \<subseteq> \<Union> (rx_received ` set es) \<union> set (m_bufferedMpdus a1)"
    using Cons.IH [OF ok1] Cons.prems(2) by auto
  have run: "rx_run (e # es) a = Some (a', o1 @ o2)" "rx_advance (e # es) a = k1 + rx_advance es a1"
    "rx_positions (e # es) a = ?n1 @ map ((+) k1) (rx_positions es a1)"
    using 1(1) 2(1) d1 by simp_all
  have "sorted_wrt (<) (rx_positions (e # es) a)"
    unfolding run(3) using m(1,2) 2(3) by (fastforce simp: sorted_wrt_append sorted_wrt_map)
  moreover have "map fst (o1 @ o2) = map (seq_add (m_winStartB a)) (rx_positions (e # es) a)"
    unfolding run(3) using m(3) 2(4) by (simp add: w1 seq_add_add)
  moreover have "m_winStartB a' = seq_add (m_winStartB a) (rx_advance (e # es) a)"
    unfolding run(2) using 2(5) by (simp add: w1 seq_add_add)
  moreover have "\<forall>n \<in> set (rx_positions (e # es) a). n < rx_advance (e # es) a"
    unfolding run(2,3) using m(2) 2(7) by (auto simp: trans_less_add1)
  moreover have "set (o1 @ o2) \<union> set (m_bufferedMpdus a')
      \<subseteq> \<Union> (rx_received ` set (e # es)) \<union> set (m_bufferedMpdus a)"
  proof -
    have "set o1 \<union> set (m_bufferedMpdus a1) \<subseteq> rx_received e \<union> set (m_bufferedMpdus a)"
      using 1(3) b by auto
    with 2(8) show ?thesis by auto
  qed
  moreover have "rx_advance (e # es) a \<le> 2048 * length (e # es)"
    unfolding run(2) using 2(6) k1 by simp
  ultimately show ?case using run(1) 2(2) by blast
qed

section \<open>Properties\<close>

text \<open>A recipient with a window of four positions from 4094 that has received 4095 and 1.\<close>

definition ex_recipient :: "nat recipient" where
  "ex_recipient =
     \<lparr>m_peer = 1, m_amsduSupported = False, m_blockAckPolicy = 1, m_tid = 0, m_bufferSize = 4,
      m_timeout = 0, m_startingSeq = 4094, m_htSupported = True, m_gcrGroupAddress = None,
      m_scoreboard = \<lparr>m_winStart = 4094, m_window = [False, True, False, True], m_head = 0\<rparr>,
      m_winStartB = 4094, m_winSizeB = 4, m_bufferedMpdus = [(4095, 70), (1, 72)]\<rparr>"

lemma ex_recipient_ok: "recip_ok ex_recipient" "m_winStartB ex_recipient = 4094"
  "m_winSizeB ex_recipient = 4" "m_bufferedMpdus ex_recipient = [(4095, 70), (1, 72)]"
  "m_winStart (m_scoreboard ex_recipient) = 4094"
  by (simp_all add: recip_ok_def ex_recipient_def seqno_def baw_wf_def buf_sorted_def seq_dist_def)

text \<open>
  Property C7: whatever the order in which MPDUs and Block Ack Requests arrive, the recipient
  never trips an assertion, and passes MPDUs up in order, none twice, and nothing that was not
  received: the position of each - how far the window has moved by then plus how far its sequence
  number is ahead of the start of the window, a distance below 4096 - is greater than those of all
  MPDUs passed up before, and below how far the window has moved after the event.  The window moves
  forward by at most 2048 for an event, and ends that far from where it began.
\<close>

theorem recipient_in_order_delivery:
  assumes "recip_ok a" "\<forall>e \<in> set es. seqno (rx_seq e)"
  shows "\<exists>a' out. rx_run es a = Some (a', out) \<and> recip_ok a'
    \<and> map fst out = map (seq_add (m_winStartB a)) (rx_positions es a)
    \<and> sorted_wrt (<) (rx_positions es a)
    \<and> (\<forall>n \<in> set (rx_positions es a). n < rx_advance es a)
    \<and> m_winStartB a' = seq_add (m_winStartB a) (rx_advance es a) \<and> rx_advance es a \<le> 2048 * length es
    \<and> set out \<union> set (m_bufferedMpdus a') \<subseteq> \<Union> (rx_received ` set es) \<union> set (m_bufferedMpdus a)"
  using rx_run_spec [OF assms] by blast

theorem recipient_in_order_delivery_witness:
  "rx_positions [RxMpdu 4094 71, RxBar 1, RxMpdu 4094 71] ex_recipient = [0, 1, 3]
   \<and> sorted_wrt (<) (rx_positions [RxMpdu 4094 71, RxBar 1, RxMpdu 4094 71] ex_recipient)
   \<and> (\<exists>a' out. rx_run [RxMpdu 4094 71, RxBar 1, RxMpdu 4094 71] ex_recipient = Some (a', out) \<and> recip_ok a'
     \<and> map fst out = [4094, 4095, 1])"
proof -
  have "rx_positions [RxMpdu 4094 71, RxBar 1, RxMpdu 4094 71] ex_recipient = [0, 1, 3]"
    by (simp add: ex_recipient_def NotifyReceivedMpdu_def NotifyReceivedBar_def scoreboard_mpdu_def scoreboard_bar_def
        GetDistance_def baw_GetWinSize_def baw_SetAt_def baw_Advance_def key_less_def no_old_mpdus_def
        PassBufferedMpdusUntilFirstLost_def PassBufferedMpdusWithSeqNumberLessThan_def seq_dist_def Let_def
        baw_Reset_def baw_Init_def)
  moreover have "seq_add 4094 0 = 4094" "seq_add 4094 1 = 4095" "seq_add 4094 3 = 1" by (simp_all add: seq_add_def)
  ultimately show ?thesis
    using recipient_in_order_delivery [of ex_recipient "[RxMpdu 4094 71, RxBar 1, RxMpdu 4094 71]"] ex_recipient_ok
    by (auto simp: seqno_def)
qed

text \<open>
  Property C32: an MPDU inside the reordering window is never the cause of a loss: the window
  moves only over sequence numbers that are passed up, and it moves at least past the MPDU
  when that is the one at its start.
\<close>

theorem recipient_no_loss_in_window:
  assumes "recip_ok a" "seqno s" "seq_dist s (m_winStartB a) < m_winSizeB a"
  shows "\<exists>a' k out. NotifyReceivedMpdu (s, p) a = Some (a', out) \<and> recip_ok a'
    \<and> m_winStartB a' = seq_add (m_winStartB a) k
    \<and> (\<forall>t. seqno t \<and> seq_dist t (m_winStartB a) < k \<longrightarrow> t \<in> fst ` set out)
    \<and> (s = m_winStartB a \<longrightarrow> 0 < k)
    \<and> s \<in> fst ` set (out @ m_bufferedMpdus a')"
proof -
  note ok = recip_okD [OF assms(1)]
  obtain a' k out where n: "NotifyReceivedMpdu (s, p) a = Some (a', out)"
    "recip_moved a (buf_insert (m_winStartB a) (s, p) (m_bufferedMpdus a)) a' k out"
    "\<And>t. seqno t \<Longrightarrow> seq_dist t (m_winStartB a) < k \<Longrightarrow> t \<in> fst ` set out"
    using NotifyReceivedMpdu_near [OF assms(1), of "(s, p)"] assms(2,3)
    by (metis fst_conv)
  have "s \<in> fst ` set (buf_insert (m_winStartB a) (s, p) (m_bufferedMpdus a))"
    using buf_insert_sorted [OF ok(6), of "(s, p)"] assms(2,3) ok(1,3) by simp
  then have s: "s \<in> fst ` set (out @ m_bufferedMpdus a')"
    using n(2) by (simp add: recip_moved_def passed_def)
  have "0 < k" if "s = m_winStartB a"
  proof (rule ccontr)
    assume "\<not> 0 < k"
    with n(2) have a': "m_winStartB a' = m_winStartB a" "\<forall>x \<in> set out. False" "recip_ok a'"
      using ok(1) by (simp_all add: recip_moved_def passed_def)
    from a'(2) have "out = []" by (meson last_in_set)
    note a'(1,3) this
    with s that recip_okD(7) [of a'] ok(1) show False by force
  qed
  with n s show ?thesis
    by (intro exI [of _ a'] exI [of _ k] exI [of _ out])
      (simp only: recip_moved_def passed_def, blast)
qed

theorem recipient_no_loss_in_window_witness:
  "\<exists>a' k out. NotifyReceivedMpdu (4094, 71) ex_recipient = Some (a', out) \<and> 0 < k
     \<and> m_winStartB a' = seq_add 4094 k \<and> 4094 \<in> fst ` set (out @ m_bufferedMpdus a')"
  using recipient_no_loss_in_window [of ex_recipient 4094 71] ex_recipient_ok
  by (auto simp: seqno_def)

text \<open>
  a Block Ack Request that is not older than the reordering window moves its start
  to the requested sequence number or past it, and everything buffered before the new start is
  passed up, nothing being dropped.
\<close>

theorem recipient_bar_moves_window:
  assumes "recip_ok a" "seqno n" "seq_dist n (m_winStartB a) < 2048"
  shows "\<exists>a' k out. NotifyReceivedBar n a = Some (a', out) \<and> recip_ok a'
    \<and> m_winStartB a' = seq_add (m_winStartB a) k \<and> seq_dist n (m_winStartB a) \<le> k
    \<and> out @ m_bufferedMpdus a' = m_bufferedMpdus a
    \<and> (\<forall>x \<in> set out. seq_dist (fst x) (m_winStartB a) < k)"
  by (rule NotifyReceivedBar_spec [OF assms(1,2)])
    (use assms(3) in \<open>fastforce simp: recip_moved_def passed_def\<close>)

theorem recipient_bar_moves_window_witness:
  "\<exists>a' out. NotifyReceivedBar 0 ex_recipient = Some (a', out) \<and> recip_ok a'
     \<and> out @ m_bufferedMpdus a' = [(4095, 70), (1, 72)]"
  using recipient_bar_moves_window [of ex_recipient 0] ex_recipient_ok
  by (auto simp: seqno_def seq_dist_def)

text \<open>
  the scoreboard, from which Block Ack bitmaps are filled, records a received MPDU
  that is not older than its start and nothing else: it stays the set of received sequence
  numbers, cut off at its new start.
\<close>

theorem recipient_scoreboard_exact:
  assumes "recip_ok a" "seqno s"
  shows "\<exists>w' k. scoreboard_mpdu s (m_scoreboard a) = Some w' \<and> baw_wf w'
    \<and> length (m_window w') = m_winSizeB a
    \<and> (\<forall>t. seqno t \<longrightarrow>
         (baw.flagged w' t \<longleftrightarrow>
            (baw.flagged (m_scoreboard a) t
             \<or> (t = s \<and> seq_dist s (m_winStart (m_scoreboard a)) < 2048))
            \<and> k \<le> seq_dist t (m_winStart (m_scoreboard a))))"
proof -
  have len: "0 < length (m_window (m_scoreboard a))" "length (m_window (m_scoreboard a)) \<le> 1024"
    using recip_okD(2,3,5) [OF assms(1)] by simp_all
  show ?thesis
    by (rule scoreboard_mpdu_spec [OF recip_okD(4) [OF assms(1)] len assms(2)])
      (metis recip_okD(5) [OF assms(1)])
qed

theorem recipient_scoreboard_exact_witness:
  "\<exists>w'. scoreboard_mpdu 3 (m_scoreboard ex_recipient) = Some w' \<and> baw_wf w'
     \<and> length (m_window w') = 4"
  using recipient_scoreboard_exact [of ex_recipient 3] ex_recipient_ok
  by (auto simp: seqno_def)

text \<open>
  \<^verbatim>\<open>Flush\<close>, which is called when an agreement is destroyed, passes up the
  whole buffer when the scoreboard starts behind the reordering window, but nothing at all when
  both start at the same sequence number, as they do while the MPDU they start with is missing.
\<close>

theorem recipient_flush:
  assumes "recip_ok a" "seqno (m_winStart (m_scoreboard a))"
    "m_winStart (m_scoreboard a) = m_winStartB a
     \<or> m_winSizeB a \<le> seq_dist (m_winStart (m_scoreboard a)) (m_winStartB a)"
  shows "\<exists>a' out. Flush a = Some (a', out) \<and>
    (if m_winStart (m_scoreboard a) = m_winStartB a
     then out = [] \<and> m_bufferedMpdus a' = m_bufferedMpdus a
     else out = m_bufferedMpdus a \<and> m_bufferedMpdus a' = [])"
proof (cases "m_winStart (m_scoreboard a) = m_winStartB a")
  case True
  with assms(1) show ?thesis
    by (simp add: Flush_def PassLess_same PassUntil_none)
next
  case False
  let ?n = "m_winStart (m_scoreboard a)" and ?w = "m_winStartB a"
  note ok = recip_okD [OF assms(1)]
  obtain w k rest out where p: "Flush a = Some (a\<lparr>m_winStartB := w, m_bufferedMpdus := rest\<rparr>, out)"
    "passed ?w (m_bufferedMpdus a) w k rest out" "seq_dist ?n ?w \<le> k"
    "\<forall>x \<in> set rest. k < seq_dist (fst x) ?w"
    unfolding Flush_def by (rule pass_both_spec [OF ok(6,1) assms(2)])
  have b: "out @ rest = m_bufferedMpdus a" using p(2) by (simp add: passed_def)
  have "x \<notin> set rest" for x
  proof
    assume x: "x \<in> set rest"
    then have "x \<in> set (m_bufferedMpdus a)" using b by (metis UnI2 set_append)
    then show False
      using ok(8) bspec [OF p(4) x] p(3) assms(3) False by fastforce
  qed
  then have "rest = []" by (metis last_in_set)
  with False b p(1) show ?thesis by auto
qed

theorem recipient_flush_witness:
  "\<exists>a'. Flush ex_recipient = Some (a', []) \<and> m_bufferedMpdus a' = [(4095, 70), (1, 72)]"
  using recipient_flush [of ex_recipient] ex_recipient_ok by (auto simp: seqno_def)

end
