(* ===== verification/Byte_Buffer.thy ===== *)
theory Byte_Buffer
  imports Ns3_Prelude
begin

unbundle bit_operations_syntax

text \<open>
  The part of \<^verbatim>\<open>src/network/model/buffer.cc\<close> and
  \<^verbatim>\<open>src/network/utils/address-utils.cc\<close> that frame headers are written with: a
  \<^verbatim>\<open>Buffer::Iterator\<close> is the list of the bytes that follow it; a write returns
  the bytes it puts there, a read returns the value and the bytes left, or \<open>None\<close> past
  the end of the buffer.
\<close>

type_synonym bytes = "u8 list"

definition WriteU16 :: "u16 \<Rightarrow> bytes" where
  "WriteU16 data = [ucast (data AND 0xff), ucast (drop_bit 8 data AND 0xff)]"

definition ReadU16 :: "bytes \<Rightarrow> (u16 \<times> bytes) option" where
  "ReadU16 bs =
     (case bs of byte0 # byte1 # rest \<Rightarrow> Some (push_bit 8 (ucast byte1) OR ucast byte0, rest)
      | _ \<Rightarrow> None)"

definition WriteU8 :: "u8 \<Rightarrow> bytes" where
  "WriteU8 data = [data]"

definition ReadU8 :: "bytes \<Rightarrow> (u8 \<times> bytes) option" where
  "ReadU8 bs = (case bs of b # rest \<Rightarrow> Some (b, rest) | _ \<Rightarrow> None)"

definition WriteU32 :: "u32 \<Rightarrow> bytes" where
  "WriteU32 data = map (\<lambda>i. ucast (drop_bit (8 * i) data AND 0xff)) [0, 1, 2, 3]"

definition ReadU32 :: "bytes \<Rightarrow> (u32 \<times> bytes) option" where
  "ReadU32 bs =
     (case bs of byte0 # byte1 # byte2 # byte3 # rest \<Rightarrow>
        Some (push_bit 8 (push_bit 8 (push_bit 8 (ucast byte3) OR ucast byte2) OR ucast byte1) OR ucast byte0, rest)
      | _ \<Rightarrow> None)"

definition WriteMac48 :: "mac48 \<Rightarrow> bytes" where
  "WriteMac48 ad = map (\<lambda>i. ucast (drop_bit (8 * i) ad)) [5, 4, 3, 2, 1, 0]"

definition mac48_of_bytes :: "bytes \<Rightarrow> mac48" where
  "mac48_of_bytes bs = foldl (\<lambda>a b. push_bit 8 a OR ucast b) 0 bs"

definition ReadMac48 :: "bytes \<Rightarrow> (mac48 \<times> bytes) option" where
  "ReadMac48 bs = (if length bs < 6 then None else Some (mac48_of_bytes (take 6 bs), drop 6 bs))"

text \<open>A field of a header: what is written is read back, in a fixed number of bytes.\<close>

locale wire_field =
  fixes enc :: "'v \<Rightarrow> bytes" and dec :: "bytes \<Rightarrow> ('v \<times> bytes) option" and size :: nat
  assumes dec_enc: "dec (enc x @ rest) = Some (x, rest)"
    and length_enc: "length (enc x) = size"
begin

lemma dec_enc_end: "dec (enc x) = Some (x, [])"
  using dec_enc [of x "[]"] by simp

lemma enc_inj: "enc x @ r = enc y @ s \<Longrightarrow> x = y \<and> r = s"
  by (metis option.inject prod.inject dec_enc)

end

text \<open>Bytes cut out of a word and put back.\<close>

lemma bit_byte:
  "bit (push_bit k (ucast (ucast (drop_bit k (x :: 'a::len word)) :: u8)) :: 'a word) n
     \<longleftrightarrow> k \<le> n \<and> n < k + 8 \<and> bit x n"
  by (auto simp: bit_simps dest: bit_imp_le_length)

lemma bit_low_byte:
  "bit (ucast (ucast (x :: 'a::len word) :: u8) :: 'a word) n \<longleftrightarrow> n < 8 \<and> bit x n"
  by (auto simp: bit_simps dest: bit_imp_le_length)

lemma byte_AND_0xff: "ucast (d AND 0xff :: u16) = (ucast d :: u8)"
proof (rule bit_word_eqI)
  fix n assume "n < LENGTH(8)"
  moreover have "(0xff :: u16) = mask 8" by (simp add: mask_eq_exp_minus_1)
  ultimately show "bit (ucast (d AND 0xff) :: u8) n = bit (ucast d :: u8) n"
    by (simp only: bit_ucast_iff bit_and_iff bit_mask_iff) simp
qed

lemma u16_bytes:
  "push_bit 8 (ucast (ucast (drop_bit 8 d) :: u8)) OR ucast (ucast d :: u8) = (d :: u16)"
  by (rule bit_eqI) (auto simp: bit_or_iff bit_byte bit_low_byte dest: bit_imp_le_length)

lemma mac48_bytes:
  "push_bit 40 (ucast (ucast (drop_bit 40 x) :: u8)) OR push_bit 32 (ucast (ucast (drop_bit 32 x) :: u8))
     OR push_bit 24 (ucast (ucast (drop_bit 24 x) :: u8)) OR push_bit 16 (ucast (ucast (drop_bit 16 x) :: u8))
     OR push_bit 8 (ucast (ucast (drop_bit 8 x) :: u8)) OR ucast (ucast x :: u8) = (x :: mac48)"
proof (rule bit_eqI, goal_cases)
  case (1 n)
  have "bit x n \<Longrightarrow> n < 48" using bit_imp_le_length [of x n] by simp
  then show ?case
    unfolding bit_or_iff bit_byte bit_low_byte by linarith
qed

lemma u32_byte: "ucast (d AND 0xff :: u32) = (ucast d :: u8)"
proof (rule bit_word_eqI)
  fix n assume "n < LENGTH(8)"
  moreover have "(0xff :: u32) = mask 8" by (simp add: mask_eq_exp_minus_1)
  ultimately show "bit (ucast (d AND 0xff) :: u8) n = bit (ucast d :: u8) n"
    by (simp only: bit_ucast_iff bit_and_iff bit_mask_iff) simp
qed

lemma u32_bytes:
  "push_bit 24 (ucast (ucast (drop_bit 24 d) :: u8)) OR push_bit 16 (ucast (ucast (drop_bit 16 d) :: u8))
     OR push_bit 8 (ucast (ucast (drop_bit 8 d) :: u8)) OR ucast (ucast d :: u8) = (d :: u32)"
proof (rule bit_eqI, goal_cases)
  case (1 n)
  have "bit d n \<Longrightarrow> n < 32" using bit_imp_le_length [of d n] by simp
  then show ?case unfolding bit_or_iff bit_byte bit_low_byte by linarith
qed

interpretation u8: wire_field WriteU8 ReadU8 1
  by unfold_locales (simp_all add: WriteU8_def ReadU8_def)

interpretation u32: wire_field WriteU32 ReadU32 4
  by unfold_locales
    (simp_all add: WriteU32_def ReadU32_def u32_byte push_bit_or or.assoc u32_bytes)

interpretation u16: wire_field WriteU16 ReadU16 2
  by unfold_locales (simp_all add: WriteU16_def ReadU16_def byte_AND_0xff u16_bytes)

interpretation mac: wire_field WriteMac48 ReadMac48 6
  by unfold_locales (simp_all add: ReadMac48_def WriteMac48_def mac48_of_bytes_def mac48_bytes or.assoc push_bit_or)

declare u8.dec_enc [simp] u8.length_enc [simp] u32.dec_enc [simp] u32.length_enc [simp] u16.dec_enc [simp] mac.dec_enc [simp] u16.dec_enc_end [simp]
  mac.dec_enc_end [simp] u16.length_enc [simp] mac.length_enc [simp]

end
