(* ===== verification/Wifi_Mac_Header.thy ===== *)
theory Wifi_Mac_Header
  imports Byte_Buffer
begin

text \<open>
  \<^verbatim>\<open>src/wifi/model/wifi-mac-header.cc\<close>: the MAC header, its types, its fields and its
  encoding.  The fields have the widths of the C++ members, which are wider than the bits of the
  frame they stand for; \<open>hdr_wf\<close> says that each fits.
\<close>

section \<open>Types\<close>

text \<open>
  The (type, subtype) pair that \<^verbatim>\<open>SetType\<close> stores for a \<^verbatim>\<open>WifiMacType\<close> (it leaves the
  header alone for the others), and the inverse tables of \<^verbatim>\<open>GetType\<close>, one for each value
  of the type field.
\<close>

datatype WifiMacType =
    WIFI_MAC_CTL_TRIGGER
  | WIFI_MAC_CTL_CTLWRAPPER
  | WIFI_MAC_CTL_PSPOLL
  | WIFI_MAC_CTL_RTS
  | WIFI_MAC_CTL_CTS
  | WIFI_MAC_CTL_ACK
  | WIFI_MAC_CTL_BACKREQ
  | WIFI_MAC_CTL_BACKRESP
  | WIFI_MAC_CTL_END
  | WIFI_MAC_CTL_END_ACK
  | WIFI_MAC_CTL_DMG_POLL
  | WIFI_MAC_CTL_DMG_SPR
  | WIFI_MAC_CTL_DMG_GRANT
  | WIFI_MAC_CTL_DMG_CTS
  | WIFI_MAC_CTL_DMG_DTS
  | WIFI_MAC_CTL_DMG_SSW
  | WIFI_MAC_CTL_DMG_SSW_FBCK
  | WIFI_MAC_CTL_DMG_SSW_ACK
  | WIFI_MAC_CTL_DMG_GRANT_ACK
  | WIFI_MAC_MGT_BEACON
  | WIFI_MAC_MGT_ASSOCIATION_REQUEST
  | WIFI_MAC_MGT_ASSOCIATION_RESPONSE
  | WIFI_MAC_MGT_DISASSOCIATION
  | WIFI_MAC_MGT_REASSOCIATION_REQUEST
  | WIFI_MAC_MGT_REASSOCIATION_RESPONSE
  | WIFI_MAC_MGT_PROBE_REQUEST
  | WIFI_MAC_MGT_PROBE_RESPONSE
  | WIFI_MAC_MGT_AUTHENTICATION
  | WIFI_MAC_MGT_DEAUTHENTICATION
  | WIFI_MAC_MGT_ACTION
  | WIFI_MAC_MGT_ACTION_NO_ACK
  | WIFI_MAC_MGT_MULTIHOP_ACTION
  | WIFI_MAC_DATA
  | WIFI_MAC_DATA_CFACK
  | WIFI_MAC_DATA_CFPOLL
  | WIFI_MAC_DATA_CFACK_CFPOLL
  | WIFI_MAC_DATA_NULL
  | WIFI_MAC_DATA_NULL_CFACK
  | WIFI_MAC_DATA_NULL_CFPOLL
  | WIFI_MAC_DATA_NULL_CFACK_CFPOLL
  | WIFI_MAC_QOSDATA
  | WIFI_MAC_QOSDATA_CFACK
  | WIFI_MAC_QOSDATA_CFPOLL
  | WIFI_MAC_QOSDATA_CFACK_CFPOLL
  | WIFI_MAC_QOSDATA_NULL
  | WIFI_MAC_QOSDATA_NULL_CFPOLL
  | WIFI_MAC_QOSDATA_NULL_CFACK_CFPOLL
  | WIFI_MAC_EXTENSION_DMG_BEACON

definition type_codes :: "(WifiMacType \<times> u8 \<times> u8) list" where
  "type_codes =
     [(WIFI_MAC_CTL_TRIGGER, 1, 2),
      (WIFI_MAC_CTL_CTLWRAPPER, 1, 7),
      (WIFI_MAC_CTL_BACKREQ, 1, 8),
      (WIFI_MAC_CTL_BACKRESP, 1, 9),
      (WIFI_MAC_CTL_PSPOLL, 1, 10),
      (WIFI_MAC_CTL_RTS, 1, 11),
      (WIFI_MAC_CTL_CTS, 1, 12),
      (WIFI_MAC_CTL_ACK, 1, 13),
      (WIFI_MAC_CTL_END, 1, 14),
      (WIFI_MAC_CTL_END_ACK, 1, 15),
      (WIFI_MAC_MGT_ASSOCIATION_REQUEST, 0, 0),
      (WIFI_MAC_MGT_ASSOCIATION_RESPONSE, 0, 1),
      (WIFI_MAC_MGT_REASSOCIATION_REQUEST, 0, 2),
      (WIFI_MAC_MGT_REASSOCIATION_RESPONSE, 0, 3),
      (WIFI_MAC_MGT_PROBE_REQUEST, 0, 4),
      (WIFI_MAC_MGT_PROBE_RESPONSE, 0, 5),
      (WIFI_MAC_MGT_BEACON, 0, 8),
      (WIFI_MAC_MGT_DISASSOCIATION, 0, 10),
      (WIFI_MAC_MGT_AUTHENTICATION, 0, 11),
      (WIFI_MAC_MGT_DEAUTHENTICATION, 0, 12),
      (WIFI_MAC_MGT_ACTION, 0, 13),
      (WIFI_MAC_MGT_ACTION_NO_ACK, 0, 14),
      (WIFI_MAC_MGT_MULTIHOP_ACTION, 0, 15),
      (WIFI_MAC_DATA, 2, 0),
      (WIFI_MAC_DATA_CFACK, 2, 1),
      (WIFI_MAC_DATA_CFPOLL, 2, 2),
      (WIFI_MAC_DATA_CFACK_CFPOLL, 2, 3),
      (WIFI_MAC_DATA_NULL, 2, 4),
      (WIFI_MAC_DATA_NULL_CFACK, 2, 5),
      (WIFI_MAC_DATA_NULL_CFPOLL, 2, 6),
      (WIFI_MAC_DATA_NULL_CFACK_CFPOLL, 2, 7),
      (WIFI_MAC_QOSDATA, 2, 8),
      (WIFI_MAC_QOSDATA_CFACK, 2, 9),
      (WIFI_MAC_QOSDATA_CFPOLL, 2, 10),
      (WIFI_MAC_QOSDATA_CFACK_CFPOLL, 2, 11),
      (WIFI_MAC_QOSDATA_NULL, 2, 12),
      (WIFI_MAC_QOSDATA_NULL_CFPOLL, 2, 14),
      (WIFI_MAC_QOSDATA_NULL_CFACK_CFPOLL, 2, 15)]"

definition mgt_types :: "(u8 \<times> WifiMacType) list" where
  "mgt_types =
     [(0, WIFI_MAC_MGT_ASSOCIATION_REQUEST),
      (1, WIFI_MAC_MGT_ASSOCIATION_RESPONSE),
      (2, WIFI_MAC_MGT_REASSOCIATION_REQUEST),
      (3, WIFI_MAC_MGT_REASSOCIATION_RESPONSE),
      (4, WIFI_MAC_MGT_PROBE_REQUEST),
      (5, WIFI_MAC_MGT_PROBE_RESPONSE),
      (8, WIFI_MAC_MGT_BEACON),
      (10, WIFI_MAC_MGT_DISASSOCIATION),
      (11, WIFI_MAC_MGT_AUTHENTICATION),
      (12, WIFI_MAC_MGT_DEAUTHENTICATION),
      (13, WIFI_MAC_MGT_ACTION),
      (14, WIFI_MAC_MGT_ACTION_NO_ACK),
      (15, WIFI_MAC_MGT_MULTIHOP_ACTION)]"

definition ctl_types :: "(u8 \<times> WifiMacType) list" where
  "ctl_types =
     [(2, WIFI_MAC_CTL_TRIGGER),
      (8, WIFI_MAC_CTL_BACKREQ),
      (9, WIFI_MAC_CTL_BACKRESP),
      (10, WIFI_MAC_CTL_PSPOLL),
      (11, WIFI_MAC_CTL_RTS),
      (12, WIFI_MAC_CTL_CTS),
      (13, WIFI_MAC_CTL_ACK),
      (14, WIFI_MAC_CTL_END),
      (15, WIFI_MAC_CTL_END_ACK)]"

definition data_types :: "(u8 \<times> WifiMacType) list" where
  "data_types =
     [(0, WIFI_MAC_DATA),
      (1, WIFI_MAC_DATA_CFACK),
      (2, WIFI_MAC_DATA_CFPOLL),
      (3, WIFI_MAC_DATA_CFACK_CFPOLL),
      (4, WIFI_MAC_DATA_NULL),
      (5, WIFI_MAC_DATA_NULL_CFACK),
      (6, WIFI_MAC_DATA_NULL_CFPOLL),
      (7, WIFI_MAC_DATA_NULL_CFACK_CFPOLL),
      (8, WIFI_MAC_QOSDATA),
      (9, WIFI_MAC_QOSDATA_CFACK),
      (10, WIFI_MAC_QOSDATA_CFPOLL),
      (11, WIFI_MAC_QOSDATA_CFACK_CFPOLL),
      (12, WIFI_MAC_QOSDATA_NULL),
      (14, WIFI_MAC_QOSDATA_NULL_CFPOLL),
      (15, WIFI_MAC_QOSDATA_NULL_CFACK_CFPOLL)]"

section \<open>The header and its setters\<close>

record mac_hdr =
  m_ctrlType :: u8
  m_ctrlSubtype :: u8
  m_ctrlToDs :: u8
  m_ctrlFromDs :: u8
  m_ctrlMoreFrag :: u8
  m_ctrlRetry :: u8
  m_ctrlPowerManagement :: u8
  m_ctrlMoreData :: u8
  m_ctrlWep :: u8
  m_ctrlOrder :: u8
  m_duration :: u16
  m_addr1 :: mac48
  m_addr2 :: mac48
  m_addr3 :: mac48
  m_seqFrag :: u8
  m_seqSeq :: u16
  m_addr4 :: mac48
  m_qosTid :: u8
  m_qosEosp :: u8
  m_qosAckPolicy :: u8
  m_amsduPresent :: u8
  m_qosStuff :: u8

definition mac_hdr_default :: mac_hdr where
  "mac_hdr_default =
     \<lparr>m_ctrlType = 0, m_ctrlSubtype = 0, m_ctrlToDs = 0, m_ctrlFromDs = 0, m_ctrlMoreFrag = 0,
      m_ctrlRetry = 0, m_ctrlPowerManagement = 0, m_ctrlMoreData = 0, m_ctrlWep = 0,
      m_ctrlOrder = 0, m_duration = 0, m_addr1 = 0, m_addr2 = 0, m_addr3 = 0, m_seqFrag = 0,
      m_seqSeq = 0, m_addr4 = 0, m_qosTid = 0, m_qosEosp = 0, m_qosAckPolicy = 0,
      m_amsduPresent = 0, m_qosStuff = 0\<rparr>"

definition TYPE_MGT :: u8 where "TYPE_MGT = 0"
definition TYPE_CTL :: u8 where "TYPE_CTL = 1"
definition TYPE_DATA :: u8 where "TYPE_DATA = 2"

lemmas type_defs = TYPE_MGT_def TYPE_CTL_def TYPE_DATA_def

definition SetType :: "WifiMacType \<Rightarrow> bool \<Rightarrow> mac_hdr \<Rightarrow> mac_hdr" where
  "SetType type resetToDsFromDs h =
     (let h = (case map_of type_codes type of
                 Some (t, s) \<Rightarrow> h\<lparr>m_ctrlType := t, m_ctrlSubtype := s\<rparr>
               | None \<Rightarrow> h)
      in if resetToDsFromDs then h\<lparr>m_ctrlToDs := 0, m_ctrlFromDs := 0\<rparr> else h)"

definition WifiMacHeader :: "WifiMacType \<Rightarrow> mac_hdr" where
  "WifiMacHeader type = SetType type True mac_hdr_default"

definition GetType :: "mac_hdr \<Rightarrow> WifiMacType option" where
  "GetType h =
     (if m_ctrlType h = TYPE_MGT then map_of mgt_types (m_ctrlSubtype h)
      else if m_ctrlType h = TYPE_CTL then map_of ctl_types (m_ctrlSubtype h)
      else if m_ctrlType h = TYPE_DATA then map_of data_types (m_ctrlSubtype h)
      else None)"

definition SetDsFrom :: "mac_hdr \<Rightarrow> mac_hdr" where "SetDsFrom h = h\<lparr>m_ctrlFromDs := 1\<rparr>"
definition SetDsNotFrom :: "mac_hdr \<Rightarrow> mac_hdr" where "SetDsNotFrom h = h\<lparr>m_ctrlFromDs := 0\<rparr>"
definition SetDsTo :: "mac_hdr \<Rightarrow> mac_hdr" where "SetDsTo h = h\<lparr>m_ctrlToDs := 1\<rparr>"
definition SetDsNotTo :: "mac_hdr \<Rightarrow> mac_hdr" where "SetDsNotTo h = h\<lparr>m_ctrlToDs := 0\<rparr>"
definition SetAddr1 :: "mac48 \<Rightarrow> mac_hdr \<Rightarrow> mac_hdr" where "SetAddr1 a h = h\<lparr>m_addr1 := a\<rparr>"
definition SetAddr2 :: "mac48 \<Rightarrow> mac_hdr \<Rightarrow> mac_hdr" where "SetAddr2 a h = h\<lparr>m_addr2 := a\<rparr>"
definition SetAddr3 :: "mac48 \<Rightarrow> mac_hdr \<Rightarrow> mac_hdr" where "SetAddr3 a h = h\<lparr>m_addr3 := a\<rparr>"
definition SetAddr4 :: "mac48 \<Rightarrow> mac_hdr \<Rightarrow> mac_hdr" where "SetAddr4 a h = h\<lparr>m_addr4 := a\<rparr>"

definition SetRawDuration :: "u16 \<Rightarrow> mac_hdr \<Rightarrow> mac_hdr option" where
  "SetRawDuration duration h =
     do { ns_assert (duration \<le> 32768); Some (h\<lparr>m_duration := duration\<rparr>) }"

text \<open>
  The duration in microseconds, rounded up.  The code divides in \<^verbatim>\<open>double\<close>, which is
  exact enough for every duration that passes the assertion.
\<close>

definition ceil_us :: "time \<Rightarrow> int" where
  "ceil_us duration = - ((- duration) div 1000)"

definition SetDuration :: "time \<Rightarrow> mac_hdr \<Rightarrow> mac_hdr option" where
  "SetDuration duration h =
     do { ns_assert (ceil_us duration \<ge> 0 \<and> ceil_us duration \<le> 0x7fff);
          Some (h\<lparr>m_duration := word_of_int (ceil_us duration)\<rparr>) }"

definition SetId :: "u16 \<Rightarrow> mac_hdr \<Rightarrow> mac_hdr" where "SetId i h = h\<lparr>m_duration := i\<rparr>"
definition SetSequenceNumber :: "u16 \<Rightarrow> mac_hdr \<Rightarrow> mac_hdr" where
  "SetSequenceNumber seq h = h\<lparr>m_seqSeq := seq\<rparr>"
definition SetFragmentNumber :: "u8 \<Rightarrow> mac_hdr \<Rightarrow> mac_hdr" where
  "SetFragmentNumber frag h = h\<lparr>m_seqFrag := frag\<rparr>"
definition SetNoMoreFragments :: "mac_hdr \<Rightarrow> mac_hdr" where
  "SetNoMoreFragments h = h\<lparr>m_ctrlMoreFrag := 0\<rparr>"
definition SetMoreFragments :: "mac_hdr \<Rightarrow> mac_hdr" where
  "SetMoreFragments h = h\<lparr>m_ctrlMoreFrag := 1\<rparr>"
definition SetOrder :: "mac_hdr \<Rightarrow> mac_hdr" where "SetOrder h = h\<lparr>m_ctrlOrder := 1\<rparr>"
definition SetNoOrder :: "mac_hdr \<Rightarrow> mac_hdr" where "SetNoOrder h = h\<lparr>m_ctrlOrder := 0\<rparr>"
definition SetRetry :: "mac_hdr \<Rightarrow> mac_hdr" where "SetRetry h = h\<lparr>m_ctrlRetry := 1\<rparr>"
definition SetNoRetry :: "mac_hdr \<Rightarrow> mac_hdr" where "SetNoRetry h = h\<lparr>m_ctrlRetry := 0\<rparr>"
definition SetQosTid :: "u8 \<Rightarrow> mac_hdr \<Rightarrow> mac_hdr" where "SetQosTid tid h = h\<lparr>m_qosTid := tid\<rparr>"
definition SetPowerManagement :: "mac_hdr \<Rightarrow> mac_hdr" where
  "SetPowerManagement h = h\<lparr>m_ctrlPowerManagement := 1\<rparr>"
definition SetNoPowerManagement :: "mac_hdr \<Rightarrow> mac_hdr" where
  "SetNoPowerManagement h = h\<lparr>m_ctrlPowerManagement := 0\<rparr>"
definition SetQosEosp :: "mac_hdr \<Rightarrow> mac_hdr" where "SetQosEosp h = h\<lparr>m_qosEosp := 1\<rparr>"
definition SetQosNoEosp :: "mac_hdr \<Rightarrow> mac_hdr" where "SetQosNoEosp h = h\<lparr>m_qosEosp := 0\<rparr>"

datatype QosAckPolicy = NORMAL_ACK | NO_ACK | NO_EXPLICIT_ACK | BLOCK_ACK

fun SetQosAckPolicy :: "QosAckPolicy \<Rightarrow> mac_hdr \<Rightarrow> mac_hdr" where
  "SetQosAckPolicy NORMAL_ACK h = h\<lparr>m_qosAckPolicy := 0\<rparr>"
| "SetQosAckPolicy NO_ACK h = h\<lparr>m_qosAckPolicy := 1\<rparr>"
| "SetQosAckPolicy NO_EXPLICIT_ACK h = h\<lparr>m_qosAckPolicy := 2\<rparr>"
| "SetQosAckPolicy BLOCK_ACK h = h\<lparr>m_qosAckPolicy := 3\<rparr>"

definition SetQosAmsdu :: "mac_hdr \<Rightarrow> mac_hdr" where "SetQosAmsdu h = h\<lparr>m_amsduPresent := 1\<rparr>"
definition SetQosNoAmsdu :: "mac_hdr \<Rightarrow> mac_hdr" where "SetQosNoAmsdu h = h\<lparr>m_amsduPresent := 0\<rparr>"
definition SetQosTxopLimit :: "u8 \<Rightarrow> mac_hdr \<Rightarrow> mac_hdr" where
  "SetQosTxopLimit txop h = h\<lparr>m_qosStuff := txop\<rparr>"
definition SetQosQueueSize :: "u8 \<Rightarrow> mac_hdr \<Rightarrow> mac_hdr" where
  "SetQosQueueSize sz h = h\<lparr>m_qosEosp := 1, m_qosStuff := sz\<rparr>"
definition SetQosMeshControlPresent :: "mac_hdr \<Rightarrow> mac_hdr" where
  "SetQosMeshControlPresent h = h\<lparr>m_qosStuff := m_qosStuff h OR 0x01\<rparr>"
definition SetQosNoMeshControlPresent :: "mac_hdr \<Rightarrow> mac_hdr" where
  "SetQosNoMeshControlPresent h = h\<lparr>m_qosStuff := m_qosStuff h AND 0xfe\<rparr>"

section \<open>Queries\<close>

definition IsFromDs :: "mac_hdr \<Rightarrow> bool" where "IsFromDs h \<longleftrightarrow> m_ctrlFromDs h = 1"
definition IsToDs :: "mac_hdr \<Rightarrow> bool" where "IsToDs h \<longleftrightarrow> m_ctrlToDs h = 1"
definition IsData :: "mac_hdr \<Rightarrow> bool" where "IsData h \<longleftrightarrow> m_ctrlType h = TYPE_DATA"
definition IsQosData :: "mac_hdr \<Rightarrow> bool" where
  "IsQosData h \<longleftrightarrow> m_ctrlType h = TYPE_DATA \<and> m_ctrlSubtype h AND 0x08 \<noteq> 0"
definition IsCtl :: "mac_hdr \<Rightarrow> bool" where "IsCtl h \<longleftrightarrow> m_ctrlType h = TYPE_CTL"
definition IsMgt :: "mac_hdr \<Rightarrow> bool" where "IsMgt h \<longleftrightarrow> m_ctrlType h = TYPE_MGT"

definition type_in :: "WifiMacType list \<Rightarrow> mac_hdr \<Rightarrow> bool option" where
  "type_in ts h = map_option (\<lambda>t. t \<in> set ts) (GetType h)"

definition IsCfPoll :: "mac_hdr \<Rightarrow> bool option" where
  "IsCfPoll = type_in [WIFI_MAC_DATA_CFPOLL, WIFI_MAC_DATA_CFACK_CFPOLL, WIFI_MAC_DATA_NULL_CFPOLL,
     WIFI_MAC_DATA_NULL_CFACK_CFPOLL, WIFI_MAC_QOSDATA_CFPOLL, WIFI_MAC_QOSDATA_CFACK_CFPOLL,
     WIFI_MAC_QOSDATA_NULL_CFPOLL, WIFI_MAC_QOSDATA_NULL_CFACK_CFPOLL]"
definition IsCfEnd :: "mac_hdr \<Rightarrow> bool option" where
  "IsCfEnd = type_in [WIFI_MAC_CTL_END, WIFI_MAC_CTL_END_ACK]"
definition IsCfAck :: "mac_hdr \<Rightarrow> bool option" where
  "IsCfAck = type_in [WIFI_MAC_DATA_CFACK, WIFI_MAC_DATA_CFACK_CFPOLL, WIFI_MAC_DATA_NULL_CFACK,
     WIFI_MAC_DATA_NULL_CFACK_CFPOLL, WIFI_MAC_CTL_END_ACK]"
definition HasData :: "mac_hdr \<Rightarrow> bool option" where
  "HasData = type_in [WIFI_MAC_DATA, WIFI_MAC_DATA_CFACK, WIFI_MAC_DATA_CFPOLL,
     WIFI_MAC_DATA_CFACK_CFPOLL, WIFI_MAC_QOSDATA, WIFI_MAC_QOSDATA_CFACK, WIFI_MAC_QOSDATA_CFPOLL,
     WIFI_MAC_QOSDATA_CFACK_CFPOLL]"
definition IsRts :: "mac_hdr \<Rightarrow> bool option" where "IsRts = type_in [WIFI_MAC_CTL_RTS]"
definition IsCts :: "mac_hdr \<Rightarrow> bool option" where "IsCts = type_in [WIFI_MAC_CTL_CTS]"
definition IsPsPoll :: "mac_hdr \<Rightarrow> bool option" where "IsPsPoll = type_in [WIFI_MAC_CTL_PSPOLL]"
definition IsAck :: "mac_hdr \<Rightarrow> bool option" where "IsAck = type_in [WIFI_MAC_CTL_ACK]"
definition IsBlockAckReq :: "mac_hdr \<Rightarrow> bool option" where
  "IsBlockAckReq = type_in [WIFI_MAC_CTL_BACKREQ]"
definition IsBlockAck :: "mac_hdr \<Rightarrow> bool option" where
  "IsBlockAck = type_in [WIFI_MAC_CTL_BACKRESP]"
definition IsTrigger :: "mac_hdr \<Rightarrow> bool option" where
  "IsTrigger = type_in [WIFI_MAC_CTL_TRIGGER]"
definition IsBeacon :: "mac_hdr \<Rightarrow> bool option" where
  "IsBeacon = type_in [WIFI_MAC_MGT_BEACON]"

definition GetDuration :: "mac_hdr \<Rightarrow> time" where
  "GetDuration h = 1000 * uint (m_duration h)"
definition HasNav :: "mac_hdr \<Rightarrow> bool" where "HasNav h \<longleftrightarrow> m_duration h AND 0x8000 = 0"
definition GetSequenceControl :: "mac_hdr \<Rightarrow> u16" where
  "GetSequenceControl h = push_bit 4 (m_seqSeq h) OR ucast (m_seqFrag h)"
definition IsRetry :: "mac_hdr \<Rightarrow> bool" where "IsRetry h \<longleftrightarrow> m_ctrlRetry h = 1"
definition IsMoreData :: "mac_hdr \<Rightarrow> bool" where "IsMoreData h \<longleftrightarrow> m_ctrlMoreData h = 1"
definition IsMoreFragments :: "mac_hdr \<Rightarrow> bool" where "IsMoreFragments h \<longleftrightarrow> m_ctrlMoreFrag h = 1"
definition IsPowerManagement :: "mac_hdr \<Rightarrow> bool" where
  "IsPowerManagement h \<longleftrightarrow> m_ctrlPowerManagement h = 1"
definition IsQosBlockAck :: "mac_hdr \<Rightarrow> bool" where
  "IsQosBlockAck h \<longleftrightarrow> IsQosData h \<and> m_qosAckPolicy h = 3"
definition IsQosNoAck :: "mac_hdr \<Rightarrow> bool" where
  "IsQosNoAck h \<longleftrightarrow> IsQosData h \<and> m_qosAckPolicy h = 1"
definition IsQosAck :: "mac_hdr \<Rightarrow> bool" where
  "IsQosAck h \<longleftrightarrow> IsQosData h \<and> m_qosAckPolicy h = 0"
definition IsQosEosp :: "mac_hdr \<Rightarrow> bool" where
  "IsQosEosp h \<longleftrightarrow> IsQosData h \<and> m_qosEosp h = 1"
definition GetQosAckPolicy :: "mac_hdr \<Rightarrow> QosAckPolicy option" where
  "GetQosAckPolicy h =
     do { ns_assert (IsQosData h);
          (if m_qosAckPolicy h = 0 then Some NORMAL_ACK
           else if m_qosAckPolicy h = 1 then Some NO_ACK
           else if m_qosAckPolicy h = 2 then Some NO_EXPLICIT_ACK
           else if m_qosAckPolicy h = 3 then Some BLOCK_ACK
           else None) }"
definition IsQosAmsdu :: "mac_hdr \<Rightarrow> bool" where
  "IsQosAmsdu h \<longleftrightarrow> IsQosData h \<and> m_amsduPresent h = 1"
definition GetQosTid :: "mac_hdr \<Rightarrow> u8 option" where
  "GetQosTid h = do { ns_assert (IsQosData h); Some (m_qosTid h) }"
definition GetQosQueueSize :: "mac_hdr \<Rightarrow> u8 option" where
  "GetQosQueueSize h = do { ns_assert (m_qosEosp h = 1); Some (m_qosStuff h) }"

section \<open>Encoding\<close>

definition GetFrameControl :: "mac_hdr \<Rightarrow> u16" where
  "GetFrameControl h =
     (push_bit 2 (ucast (m_ctrlType h)) AND push_bit 2 0x3)
     OR (push_bit 4 (ucast (m_ctrlSubtype h)) AND push_bit 4 0xf)
     OR (push_bit 8 (ucast (m_ctrlToDs h)) AND push_bit 8 0x1)
     OR (push_bit 9 (ucast (m_ctrlFromDs h)) AND push_bit 9 0x1)
     OR (push_bit 10 (ucast (m_ctrlMoreFrag h)) AND push_bit 10 0x1)
     OR (push_bit 11 (ucast (m_ctrlRetry h)) AND push_bit 11 0x1)
     OR (push_bit 12 (ucast (m_ctrlPowerManagement h)) AND push_bit 12 0x1)
     OR (push_bit 13 (ucast (m_ctrlMoreData h)) AND push_bit 13 0x1)
     OR (push_bit 14 (ucast (m_ctrlWep h)) AND push_bit 14 0x1)
     OR (push_bit 15 (ucast (m_ctrlOrder h)) AND push_bit 15 0x1)"

definition GetQosControl :: "mac_hdr \<Rightarrow> u16" where
  "GetQosControl h =
     ucast (m_qosTid h) OR push_bit 4 (ucast (m_qosEosp h)) OR push_bit 5 (ucast (m_qosAckPolicy h))
     OR push_bit 7 (ucast (m_amsduPresent h)) OR push_bit 8 (ucast (m_qosStuff h))"

definition SetFrameControl :: "u16 \<Rightarrow> mac_hdr \<Rightarrow> mac_hdr" where
  "SetFrameControl ctrl h =
     h\<lparr>m_ctrlType := ucast (drop_bit 2 ctrl AND 0x03),
       m_ctrlSubtype := ucast (drop_bit 4 ctrl AND 0x0f),
       m_ctrlToDs := ucast (drop_bit 8 ctrl AND 0x01),
       m_ctrlFromDs := ucast (drop_bit 9 ctrl AND 0x01),
       m_ctrlMoreFrag := ucast (drop_bit 10 ctrl AND 0x01),
       m_ctrlRetry := ucast (drop_bit 11 ctrl AND 0x01),
       m_ctrlPowerManagement := ucast (drop_bit 12 ctrl AND 0x01),
       m_ctrlMoreData := ucast (drop_bit 13 ctrl AND 0x01),
       m_ctrlWep := ucast (drop_bit 14 ctrl AND 0x01),
       m_ctrlOrder := ucast (drop_bit 15 ctrl AND 0x01)\<rparr>"

definition SetSequenceControl :: "u16 \<Rightarrow> mac_hdr \<Rightarrow> mac_hdr" where
  "SetSequenceControl seq h =
     h\<lparr>m_seqFrag := ucast (seq AND 0x0f), m_seqSeq := drop_bit 4 seq AND 0x0fff\<rparr>"

definition SetQosControl :: "u16 \<Rightarrow> mac_hdr \<Rightarrow> mac_hdr" where
  "SetQosControl qos h =
     h\<lparr>m_qosTid := ucast (qos AND 0x000f),
       m_qosEosp := ucast (drop_bit 4 qos AND 0x0001),
       m_qosAckPolicy := ucast (drop_bit 5 qos AND 0x0003),
       m_amsduPresent := ucast (drop_bit 7 qos AND 0x0001),
       m_qosStuff := ucast (drop_bit 8 qos AND 0x00ff)\<rparr>"

definition ctl_two_addresses :: "u8 list" where
  "ctl_two_addresses = [10, 11, 2, 8, 9, 14, 15]"

definition ctl_one_address :: "u8 list" where
  "ctl_one_address = [12, 13]"

definition hdr_GetSize :: "mac_hdr \<Rightarrow> nat" where
  "hdr_GetSize h =
     (if m_ctrlType h = TYPE_MGT then 2 + 2 + 6 + 6 + 6 + 2
      else if m_ctrlType h = TYPE_CTL
      then (if m_ctrlSubtype h \<in> set ctl_two_addresses then 2 + 2 + 6 + 6
            else if m_ctrlSubtype h \<in> set ctl_one_address then 2 + 2 + 6
            else if m_ctrlSubtype h = 7 then 2 + 2 + 6 + 2 + 4
            else 0)
      else if m_ctrlType h = TYPE_DATA
      then 2 + 2 + 6 + 6 + 6 + 2
           + (if m_ctrlToDs h \<noteq> 0 \<and> m_ctrlFromDs h \<noteq> 0 then 6 else 0)
           + (if m_ctrlSubtype h AND 0x08 \<noteq> 0 then 2 else 0)
      else 0)"

text \<open>
  \<^verbatim>\<open>Serialize\<close>, its switch on the frame type apart.  \<^verbatim>\<open>Deserialize\<close> overwrites an
  existing header; the model returns the header and the bytes left.
\<close>

definition write_body :: "mac_hdr \<Rightarrow> bytes option" where
  "write_body h =
     (if m_ctrlType h = TYPE_MGT
      then Some (WriteMac48 (m_addr2 h) @ WriteMac48 (m_addr3 h) @ WriteU16 (GetSequenceControl h))
      else if m_ctrlType h = TYPE_CTL
      then (if m_ctrlSubtype h \<in> set ctl_two_addresses then Some (WriteMac48 (m_addr2 h))
            else if m_ctrlSubtype h \<in> set ctl_one_address then Some []
            else None)
      else if m_ctrlType h = TYPE_DATA
      then Some (WriteMac48 (m_addr2 h) @ WriteMac48 (m_addr3 h) @ WriteU16 (GetSequenceControl h)
                 @ (if m_ctrlToDs h \<noteq> 0 \<and> m_ctrlFromDs h \<noteq> 0 then WriteMac48 (m_addr4 h) else [])
                 @ (if m_ctrlSubtype h AND 0x08 \<noteq> 0 then WriteU16 (GetQosControl h) else []))
      else None)"

definition hdr_Serialize :: "mac_hdr \<Rightarrow> bytes option" where
  "hdr_Serialize h =
     do { body \<leftarrow> write_body h;
          Some (WriteU16 (GetFrameControl h) @ WriteU16 (m_duration h) @ WriteMac48 (m_addr1 h)
                @ body) }"

definition read_seq_fields :: "bytes \<Rightarrow> mac_hdr \<Rightarrow> (mac_hdr \<times> bytes) option" where
  "read_seq_fields bs h =
     do { (a2, bs) \<leftarrow> ReadMac48 bs;
          (a3, bs) \<leftarrow> ReadMac48 bs;
          (sc, bs) \<leftarrow> ReadU16 bs;
          Some (SetSequenceControl sc (h\<lparr>m_addr2 := a2, m_addr3 := a3\<rparr>), bs) }"

definition read_body :: "bytes \<Rightarrow> mac_hdr \<Rightarrow> (mac_hdr \<times> bytes) option" where
  "read_body bs h =
     (if m_ctrlType h = TYPE_MGT then read_seq_fields bs h
      else if m_ctrlType h = TYPE_CTL
      then (if m_ctrlSubtype h \<in> set ctl_two_addresses
            then do { (a2, bs) \<leftarrow> ReadMac48 bs; Some (h\<lparr>m_addr2 := a2\<rparr>, bs) }
            else Some (h, bs))
      else if m_ctrlType h = TYPE_DATA
      then do { (h, bs) \<leftarrow> read_seq_fields bs h;
                (h, bs) \<leftarrow> (if m_ctrlToDs h \<noteq> 0 \<and> m_ctrlFromDs h \<noteq> 0
                           then do { (a4, bs) \<leftarrow> ReadMac48 bs; Some (h\<lparr>m_addr4 := a4\<rparr>, bs) }
                           else Some (h, bs));
                if m_ctrlSubtype h AND 0x08 \<noteq> 0
                then do { (qc, bs) \<leftarrow> ReadU16 bs; Some (SetQosControl qc h, bs) }
                else Some (h, bs) }
      else Some (h, bs))"

definition hdr_Deserialize :: "bytes \<Rightarrow> mac_hdr \<Rightarrow> (mac_hdr \<times> bytes) option" where
  "hdr_Deserialize bs h =
     do { (frame_control, bs) \<leftarrow> ReadU16 bs;
          (duration, bs) \<leftarrow> ReadU16 bs;
          (a1, bs) \<leftarrow> ReadMac48 bs;
          read_body bs ((SetFrameControl frame_control h)\<lparr>m_duration := duration, m_addr1 := a1\<rparr>) }"

lemma types_distinct [simp]:
  "TYPE_MGT \<noteq> TYPE_CTL" "TYPE_MGT \<noteq> TYPE_DATA" "TYPE_CTL \<noteq> TYPE_DATA"
  "TYPE_CTL \<noteq> TYPE_MGT" "TYPE_DATA \<noteq> TYPE_MGT" "TYPE_DATA \<noteq> TYPE_CTL"
  by (simp_all add: type_defs)

end
