(* ===== verification/Header_Codec.thy ===== *)
theory Header_Codec
  imports Wifi_Mac_Header
begin

text \<open>
  What the encoding of the MAC header promises: every header whose fields fit is read back from
  the bytes it is written to, in the number of bytes the size function announces, and the type
  that was set is the type that is read.
\<close>

section \<open>Fields of control words\<close>

definition fits :: "nat \<Rightarrow> 'a::len word \<Rightarrow> bool" where
  "fits n x \<longleftrightarrow> take_bit n x = x"

lemma fits_bit: "fits n x \<Longrightarrow> bit x k \<Longrightarrow> k < n"
  by (metis fits_def bit_take_bit_iff)

definition hdr_wf :: "mac_hdr \<Rightarrow> bool" where
  "hdr_wf h \<longleftrightarrow>
     fits 2 (m_ctrlType h) \<and> fits 4 (m_ctrlSubtype h) \<and> fits 1 (m_ctrlToDs h)
     \<and> fits 1 (m_ctrlFromDs h) \<and> fits 1 (m_ctrlMoreFrag h) \<and> fits 1 (m_ctrlRetry h)
     \<and> fits 1 (m_ctrlPowerManagement h) \<and> fits 1 (m_ctrlMoreData h) \<and> fits 1 (m_ctrlWep h)
     \<and> fits 1 (m_ctrlOrder h) \<and> fits 4 (m_seqFrag h) \<and> fits 12 (m_seqSeq h)
     \<and> fits 4 (m_qosTid h) \<and> fits 1 (m_qosEosp h) \<and> fits 2 (m_qosAckPolicy h)
     \<and> fits 1 (m_amsduPresent h)"

lemma fits_8 [simp]: "fits 8 (x :: u8)"
  by (simp add: fits_def take_bit_word_eq_self)

lemma hdr_wf_bits:
  assumes "hdr_wf h"
  shows "bit (m_qosTid h) k \<Longrightarrow> k < 4" "bit (m_qosEosp h) k \<Longrightarrow> k < 1"
    "bit (m_qosAckPolicy h) k \<Longrightarrow> k < 2" "bit (m_amsduPresent h) k \<Longrightarrow> k < 1"
    "bit (m_seqFrag h) k \<Longrightarrow> k < 4" "bit (m_seqSeq h) k \<Longrightarrow> k < 12"
  using assms unfolding hdr_wf_def by (blast dest: fits_bit)+

lemma low_masks:
  "(0x01 :: 'a::len word) = mask 1" "(0x03 :: 'a word) = mask 2" "(0x0f :: 'a word) = mask 4"
  "(0xff :: 'a word) = mask 8" "(0x0fff :: 'a word) = mask 12"
  by (simp_all add: mask_eq_exp_minus_1)

lemma bit_put_field:
  "bit (push_bit k (ucast (x :: u8)) AND push_bit k (mask j) :: u16) n
     \<longleftrightarrow> n < 16 \<and> k \<le> n \<and> n < k + j \<and> bit x (n - k)"
  by (auto simp: bit_simps dest: bit_imp_le_length)

lemma get_fieldI:
  assumes "fits j x" "j \<le> 8" "k + j \<le> 16" "\<And>n. n < j \<Longrightarrow> bit w (k + n) = bit x n"
  shows "ucast (drop_bit k (w :: u16) AND mask j) = (x :: u8)"
proof (rule bit_word_eqI)
  fix n assume "n < LENGTH(8)"
  with assms(2-4) fits_bit [OF assms(1), of n]
  show "bit (ucast (drop_bit k w AND mask j) :: u8) n = bit x n"
    by (auto simp: bit_simps)
qed

lemma bit_put_fits:
  assumes "fits j (x :: u8)"
  shows "bit (push_bit k (ucast x) :: u16) n \<longleftrightarrow> n < 16 \<and> k \<le> n \<and> n < k + j \<and> bit x (n - k)"
  using fits_bit [OF assms, of "n - k"] by (auto simp: bit_simps)

lemma bit_GetFrameControl:
  "bit (GetFrameControl h) n \<longleftrightarrow>
     (n < 16 \<and> 2 \<le> n \<and> n < 2 + 2 \<and> bit (m_ctrlType h) (n - 2))
     \<or> (n < 16 \<and> 4 \<le> n \<and> n < 4 + 4 \<and> bit (m_ctrlSubtype h) (n - 4))
     \<or> (n < 16 \<and> 8 \<le> n \<and> n < 8 + 1 \<and> bit (m_ctrlToDs h) (n - 8))
     \<or> (n < 16 \<and> 9 \<le> n \<and> n < 9 + 1 \<and> bit (m_ctrlFromDs h) (n - 9))
     \<or> (n < 16 \<and> 10 \<le> n \<and> n < 10 + 1 \<and> bit (m_ctrlMoreFrag h) (n - 10))
     \<or> (n < 16 \<and> 11 \<le> n \<and> n < 11 + 1 \<and> bit (m_ctrlRetry h) (n - 11))
     \<or> (n < 16 \<and> 12 \<le> n \<and> n < 12 + 1 \<and> bit (m_ctrlPowerManagement h) (n - 12))
     \<or> (n < 16 \<and> 13 \<le> n \<and> n < 13 + 1 \<and> bit (m_ctrlMoreData h) (n - 13))
     \<or> (n < 16 \<and> 14 \<le> n \<and> n < 14 + 1 \<and> bit (m_ctrlWep h) (n - 14))
     \<or> (n < 16 \<and> 15 \<le> n \<and> n < 15 + 1 \<and> bit (m_ctrlOrder h) (n - 15))"
  unfolding GetFrameControl_def low_masks bit_or_iff bit_put_field disj_assoc by (rule refl)

lemma bit_GetQosControl:
  assumes "hdr_wf h"
  shows "bit (GetQosControl h) n \<longleftrightarrow>
     (n < 16 \<and> n < 4 \<and> bit (m_qosTid h) n)
     \<or> (n < 16 \<and> 4 \<le> n \<and> n < 4 + 1 \<and> bit (m_qosEosp h) (n - 4))
     \<or> (n < 16 \<and> 5 \<le> n \<and> n < 5 + 2 \<and> bit (m_qosAckPolicy h) (n - 5))
     \<or> (n < 16 \<and> 7 \<le> n \<and> n < 7 + 1 \<and> bit (m_amsduPresent h) (n - 7))
     \<or> (n < 16 \<and> 8 \<le> n \<and> n < 8 + 8 \<and> bit (m_qosStuff h) (n - 8))"
proof -
  have f: "fits 4 (m_qosTid h)" "fits 1 (m_qosEosp h)" "fits 2 (m_qosAckPolicy h)"
    "fits 1 (m_amsduPresent h)"
    using assms unfolding hdr_wf_def by blast+
  have tid: "bit (ucast (m_qosTid h) :: u16) n \<longleftrightarrow> n < 16 \<and> n < 4 \<and> bit (m_qosTid h) n"
    using bit_put_fits [OF f(1), of 0 n] by simp
  show ?thesis
    unfolding GetQosControl_def bit_or_iff tid bit_put_fits [OF f(2)] bit_put_fits [OF f(3)]
      bit_put_fits [OF f(4)] bit_put_fits [OF fits_8 [of "m_qosStuff h"]] disj_assoc by (rule refl)
qed

lemma SetFrameControl_Get:
  assumes "hdr_wf h"
  shows "SetFrameControl (GetFrameControl h) h0 =
    h0\<lparr>m_ctrlType := m_ctrlType h, m_ctrlSubtype := m_ctrlSubtype h, m_ctrlToDs := m_ctrlToDs h,
       m_ctrlFromDs := m_ctrlFromDs h, m_ctrlMoreFrag := m_ctrlMoreFrag h, m_ctrlRetry := m_ctrlRetry h,
       m_ctrlPowerManagement := m_ctrlPowerManagement h, m_ctrlMoreData := m_ctrlMoreData h,
       m_ctrlWep := m_ctrlWep h, m_ctrlOrder := m_ctrlOrder h\<rparr>"
proof -
  note w = assms [unfolded hdr_wf_def]
  have 1: "ucast (drop_bit 2 (GetFrameControl h) AND mask 2) = m_ctrlType h"
    by (rule get_fieldI) (use w in \<open>simp_all add: bit_GetFrameControl\<close>)
  have 2: "ucast (drop_bit 4 (GetFrameControl h) AND mask 4) = m_ctrlSubtype h"
    by (rule get_fieldI) (use w in \<open>simp_all add: bit_GetFrameControl\<close>)
  have 3: "ucast (drop_bit 8 (GetFrameControl h) AND mask 1) = m_ctrlToDs h"
    "ucast (drop_bit 9 (GetFrameControl h) AND mask 1) = m_ctrlFromDs h"
    "ucast (drop_bit 10 (GetFrameControl h) AND mask 1) = m_ctrlMoreFrag h"
    "ucast (drop_bit 11 (GetFrameControl h) AND mask 1) = m_ctrlRetry h"
    "ucast (drop_bit 12 (GetFrameControl h) AND mask 1) = m_ctrlPowerManagement h"
    "ucast (drop_bit 13 (GetFrameControl h) AND mask 1) = m_ctrlMoreData h"
    "ucast (drop_bit 14 (GetFrameControl h) AND mask 1) = m_ctrlWep h"
    "ucast (drop_bit 15 (GetFrameControl h) AND mask 1) = m_ctrlOrder h"
    by (rule get_fieldI; use w in \<open>simp add: bit_GetFrameControl\<close>)+
  show ?thesis
    unfolding SetFrameControl_def low_masks 1 2 3 by (rule refl)
qed

lemma SetQosControl_Get:
  assumes "hdr_wf h"
  shows "SetQosControl (GetQosControl h) h0 =
    h0\<lparr>m_qosTid := m_qosTid h, m_qosEosp := m_qosEosp h, m_qosAckPolicy := m_qosAckPolicy h,
       m_amsduPresent := m_amsduPresent h, m_qosStuff := m_qosStuff h\<rparr>"
proof -
  note w = assms [unfolded hdr_wf_def]
  have tid: "ucast (drop_bit 0 (GetQosControl h) AND mask 4) = m_qosTid h"
    by (rule get_fieldI) (use w in \<open>simp_all add: bit_GetQosControl [OF assms]\<close>)
  have 1: "ucast (drop_bit 4 (GetQosControl h) AND mask 1) = m_qosEosp h"
    "ucast (drop_bit 5 (GetQosControl h) AND mask 2) = m_qosAckPolicy h"
    "ucast (drop_bit 7 (GetQosControl h) AND mask 1) = m_amsduPresent h"
    "ucast (drop_bit 8 (GetQosControl h) AND mask 8) = m_qosStuff h"
    by (rule get_fieldI; use w in \<open>simp add: bit_GetQosControl [OF assms]\<close>)+
  show ?thesis
    unfolding SetQosControl_def low_masks 1 tid [simplified] by (rule refl)
qed

lemma SetSequenceControl_Get:
  assumes "hdr_wf h"
  shows "SetSequenceControl (GetSequenceControl h) h0 =
    h0\<lparr>m_seqFrag := m_seqFrag h, m_seqSeq := m_seqSeq h\<rparr>"
proof -
  have b: "bit (GetSequenceControl h) n \<longleftrightarrow> n < 16 \<and> (4 \<le> n \<and> bit (m_seqSeq h) (n - 4) \<or> bit (m_seqFrag h) n)" for n
    by (auto simp: GetSequenceControl_def bit_simps)
  have "(ucast (GetSequenceControl h AND mask 4) :: u8) = m_seqFrag h"
    by (rule bit_word_eqI) (auto simp: bit_simps b dest: hdr_wf_bits [OF assms])
  moreover have "drop_bit 4 (GetSequenceControl h) AND mask 12 = m_seqSeq h"
    by (rule bit_word_eqI) (auto simp: bit_simps b dest: hdr_wf_bits [OF assms])
  ultimately show ?thesis
    unfolding SetSequenceControl_def low_masks by simp
qed

section \<open>Round trip\<close>

text \<open>
  Reading overwrites the fields that the frame type carries and keeps the others of the header
  that is read into.
\<close>

definition overwrite_ctrl :: "mac_hdr \<Rightarrow> mac_hdr \<Rightarrow> mac_hdr" where
  "overwrite_ctrl h h0 =
    h0\<lparr>m_ctrlType := m_ctrlType h, m_ctrlSubtype := m_ctrlSubtype h, m_ctrlToDs := m_ctrlToDs h,
       m_ctrlFromDs := m_ctrlFromDs h, m_ctrlMoreFrag := m_ctrlMoreFrag h, m_ctrlRetry := m_ctrlRetry h,
       m_ctrlPowerManagement := m_ctrlPowerManagement h, m_ctrlMoreData := m_ctrlMoreData h,
       m_ctrlWep := m_ctrlWep h, m_ctrlOrder := m_ctrlOrder h, m_duration := m_duration h,
       m_addr1 := m_addr1 h\<rparr>"

definition overwrite_seq :: "mac_hdr \<Rightarrow> mac_hdr \<Rightarrow> mac_hdr" where
  "overwrite_seq h h0 =
    h0\<lparr>m_addr2 := m_addr2 h, m_addr3 := m_addr3 h, m_seqFrag := m_seqFrag h,
       m_seqSeq := m_seqSeq h\<rparr>"

definition overwrite_qos :: "mac_hdr \<Rightarrow> mac_hdr \<Rightarrow> mac_hdr" where
  "overwrite_qos h h0 =
    h0\<lparr>m_qosTid := m_qosTid h, m_qosEosp := m_qosEosp h, m_qosAckPolicy := m_qosAckPolicy h,
       m_amsduPresent := m_amsduPresent h, m_qosStuff := m_qosStuff h\<rparr>"

definition overwrite :: "mac_hdr \<Rightarrow> mac_hdr \<Rightarrow> mac_hdr" where
  "overwrite h h0 =
    (let h1 = overwrite_ctrl h h0
     in if m_ctrlType h = TYPE_MGT then overwrite_seq h h1
        else if m_ctrlType h = TYPE_CTL
        then (if m_ctrlSubtype h \<in> set ctl_two_addresses then h1\<lparr>m_addr2 := m_addr2 h\<rparr> else h1)
        else let h2 = overwrite_seq h h1;
                 h3 = (if m_ctrlToDs h \<noteq> 0 \<and> m_ctrlFromDs h \<noteq> 0 then h2\<lparr>m_addr4 := m_addr4 h\<rparr> else h2)
             in if m_ctrlSubtype h AND 0x08 \<noteq> 0 then overwrite_qos h h3 else h3)"

lemma overwrite_simps [simp]:
  "m_ctrlType (overwrite_ctrl h h0) = m_ctrlType h"
  "m_ctrlSubtype (overwrite_ctrl h h0) = m_ctrlSubtype h"
  "m_ctrlToDs (overwrite_ctrl h h0) = m_ctrlToDs h"
  "m_ctrlFromDs (overwrite_ctrl h h0) = m_ctrlFromDs h"
  "m_ctrlSubtype (overwrite_seq h h0) = m_ctrlSubtype h0"
  "m_ctrlToDs (overwrite_seq h h0) = m_ctrlToDs h0"
  "m_ctrlFromDs (overwrite_seq h h0) = m_ctrlFromDs h0"
  by (simp_all add: overwrite_ctrl_def overwrite_seq_def)

lemma read_ctrl:
  assumes "hdr_wf h"
  shows "(SetFrameControl (GetFrameControl h) h0)\<lparr>m_duration := m_duration h, m_addr1 := m_addr1 h\<rparr>
    = overwrite_ctrl h h0"
  using SetFrameControl_Get [OF assms, of h0] by (simp add: overwrite_ctrl_def)

lemma read_seq:
  assumes "hdr_wf h"
  shows "SetSequenceControl (GetSequenceControl h) (h0\<lparr>m_addr2 := m_addr2 h, m_addr3 := m_addr3 h\<rparr>)
    = overwrite_seq h h0"
  using SetSequenceControl_Get [OF assms] by (simp add: overwrite_seq_def)

lemma read_qos: "hdr_wf h \<Longrightarrow> SetQosControl (GetQosControl h) h0 = overwrite_qos h h0"
  using SetQosControl_Get by (simp add: overwrite_qos_def)

lemma read_seq_fields_write:
  "hdr_wf h \<Longrightarrow> read_seq_fields (WriteMac48 (m_addr2 h) @ WriteMac48 (m_addr3 h)
      @ WriteU16 (GetSequenceControl h) @ rest) h0 = Some (overwrite_seq h h0, rest)"
  by (simp add: read_seq_fields_def read_seq)

lemma read_body_write:
  assumes "hdr_wf h" "write_body h = Some bs"
  shows "read_body (bs @ rest) (overwrite_ctrl h h0) = Some (overwrite h h0, rest)"
proof -
  consider "m_ctrlType h = TYPE_MGT"
    | "m_ctrlType h = TYPE_CTL" "m_ctrlSubtype h \<in> set ctl_two_addresses"
    | "m_ctrlType h = TYPE_CTL" "m_ctrlSubtype h \<notin> set ctl_two_addresses"
    | "m_ctrlType h = TYPE_DATA"
    using assms(2) by (auto simp: write_body_def split: if_splits)
  then show ?thesis
  proof cases
    case 4
    with assms show ?thesis
      by (auto simp: write_body_def read_body_def overwrite_def Let_def read_seq_fields_write read_qos)
  qed (use assms in \<open>auto simp: write_body_def read_body_def overwrite_def Let_def
         read_seq_fields_write split: if_splits\<close>)
qed

lemma length_write_body:
  "write_body h = Some bs \<Longrightarrow> 10 + length bs = hdr_GetSize h"
  by (auto simp: write_body_def hdr_GetSize_def split: if_splits)

lemma hdr_roundtrip:
  assumes w: "hdr_wf h" and s: "hdr_Serialize h = Some bs"
  shows "hdr_Deserialize (bs @ rest) h0 = Some (overwrite h h0, rest)" and "length bs = hdr_GetSize h"
proof -
  obtain body where b: "write_body h = Some body"
    and bs: "bs = WriteU16 (GetFrameControl h) @ WriteU16 (m_duration h) @ WriteMac48 (m_addr1 h) @ body"
    using s by (auto simp: hdr_Serialize_def elim: bind_SomeE)
  show "hdr_Deserialize (bs @ rest) h0 = Some (overwrite h h0, rest)"
    by (simp add: bs hdr_Deserialize_def read_ctrl [OF w] read_body_write [OF w b])
  show "length bs = hdr_GetSize h"
    using length_write_body [OF b] by (simp add: bs)
qed

lemma type_tables:
  "\<forall>(t, a, b) \<in> set type_codes. t = WIFI_MAC_CTL_CTLWRAPPER \<and> a = TYPE_CTL \<and> b = 7
      \<or> t \<noteq> WIFI_MAC_CTL_CTLWRAPPER
        \<and> (if a = TYPE_MGT then map_of mgt_types b else if a = TYPE_CTL then map_of ctl_types b
           else if a = TYPE_DATA then map_of data_types b else None) = Some t"
  by code_simp

section \<open>Properties\<close>

text \<open>
  Property C12: a header whose fields fit is read back from the bytes it is written to: every
  field the frame type carries has its value, the others keep the one of the header that is
  read into, exactly the written bytes are consumed, and their number is the announced size.
\<close>

theorem mac_header_roundtrip:
  assumes "hdr_wf h" "hdr_Serialize h = Some bs"
  shows "hdr_Deserialize (bs @ rest) h0 = Some (overwrite h h0, rest) \<and> length bs = hdr_GetSize h"
  using hdr_roundtrip [OF assms] by simp

definition ex_hdr :: mac_hdr where
  "ex_hdr = SetQosTid 5 (SetQosAckPolicy BLOCK_ACK (SetDsTo (SetRetry (SetSequenceNumber 4095
     (SetAddr1 0x112233445566 (WifiMacHeader WIFI_MAC_QOSDATA))))))"

theorem mac_header_roundtrip_witness:
  "\<exists>bs. hdr_Serialize ex_hdr = Some bs \<and> hdr_Deserialize bs mac_hdr_default = Some (ex_hdr, [])
     \<and> length bs = 26"
proof -
  have w: "hdr_wf ex_hdr"
    by (simp add: ex_hdr_def hdr_wf_def fits_def SetQosTid_def SetDsTo_def SetRetry_def
        SetSequenceNumber_def SetAddr1_def WifiMacHeader_def SetType_def type_codes_def
        mac_hdr_default_def)
  obtain bs where bs: "hdr_Serialize ex_hdr = Some bs"
    by (auto simp: hdr_Serialize_def write_body_def ex_hdr_def SetQosTid_def SetDsTo_def SetRetry_def type_defs
        SetSequenceNumber_def SetAddr1_def WifiMacHeader_def SetType_def type_codes_def
        mac_hdr_default_def)
  have "overwrite ex_hdr mac_hdr_default = ex_hdr" "hdr_GetSize ex_hdr = 26"
    by (simp_all add: overwrite_def overwrite_ctrl_def overwrite_seq_def overwrite_qos_def Let_def
        hdr_GetSize_def ex_hdr_def SetQosTid_def SetDsTo_def SetRetry_def type_defs
        SetSequenceNumber_def SetAddr1_def WifiMacHeader_def SetType_def type_codes_def
        mac_hdr_default_def)
  with mac_header_roundtrip [OF w bs, of "[]" mac_hdr_default] bs show ?thesis by simp
qed

text \<open>
  the type that is set is the type that is read, for every type that
  \<^verbatim>\<open>SetType\<close> supports but the Control Wrapper, for which \<^verbatim>\<open>GetType\<close> and
  \<^verbatim>\<open>Serialize\<close> fail an assertion although \<^verbatim>\<open>GetSize\<close> has a size.
\<close>

theorem mac_header_type_roundtrip:
  assumes "map_of type_codes t \<noteq> None"
  shows "GetType (SetType t r h) = (if t = WIFI_MAC_CTL_CTLWRAPPER then None else Some t)
    \<and> (t = WIFI_MAC_CTL_CTLWRAPPER \<longrightarrow>
         hdr_Serialize (SetType t r h) = None \<and> hdr_GetSize (SetType t r h) = 16)"
proof -
  obtain a b where ab: "map_of type_codes t = Some (a, b)" using assms by auto
  have tab: "t = WIFI_MAC_CTL_CTLWRAPPER \<and> a = TYPE_CTL \<and> b = 7
      \<or> t \<noteq> WIFI_MAC_CTL_CTLWRAPPER
        \<and> (if a = TYPE_MGT then map_of mgt_types b else if a = TYPE_CTL then map_of ctl_types b
           else if a = TYPE_DATA then map_of data_types b else None) = Some t"
    using bspec [OF type_tables map_of_SomeD [OF ab]] by (simp only: prod.case)
  have type: "m_ctrlType (SetType t r h) = a" "m_ctrlSubtype (SetType t r h) = b"
    by (simp_all add: SetType_def Let_def ab)
  show ?thesis
  proof (cases "t = WIFI_MAC_CTL_CTLWRAPPER")
    case True
    with tab have "a = TYPE_CTL" "b = 7" by simp_all
    with True type show ?thesis
      by (simp add: GetType_def hdr_Serialize_def write_body_def hdr_GetSize_def
          ctl_two_addresses_def ctl_one_address_def ctl_types_def)
  next
    case False
    with tab type show ?thesis by (simp only: GetType_def) simp
  qed
qed

theorem mac_header_type_roundtrip_witness:
  "GetType (SetType WIFI_MAC_QOSDATA True mac_hdr_default) = Some WIFI_MAC_QOSDATA"
  using mac_header_type_roundtrip [of WIFI_MAC_QOSDATA] by (simp add: type_codes_def)

end
