(* ===== verification/Mac_Rx_Middle.thy ===== *)
theory Mac_Rx_Middle
  imports Wifi_Mac_Header "HOL-Library.Sublist"
begin

text \<open>
  \<^verbatim>\<open>src/wifi/model/mac-rx-middle.cc\<close>: duplicate filtering and defragmentation of
  received data and management frames, with one status for each originator (and TID, for QoS
  data; group address and TID for QoS groupcast).  A packet is a list, so that
  \<^verbatim>\<open>AddAtEnd\<close> is append.
\<close>

section \<open>The status of an originator\<close>

record 'p rx_status =
  m_defragmenting :: bool
  m_lastSequenceControl :: u16
  m_fragments :: "'p list list"

definition OriginatorRxStatus :: "'p rx_status" where
  "OriginatorRxStatus = \<lparr>m_defragmenting = False, m_lastSequenceControl = 0xffff, m_fragments = []\<rparr>"

definition AccumulateFirstFragment :: "'p list \<Rightarrow> 'p rx_status \<Rightarrow> 'p rx_status option" where
  "AccumulateFirstFragment packet s =
     do { ns_assert (\<not> m_defragmenting s);
          Some (s\<lparr>m_defragmenting := True, m_fragments := m_fragments s @ [packet]\<rparr>) }"

definition AccumulateLastFragment ::
  "'p list \<Rightarrow> 'p rx_status \<Rightarrow> ('p rx_status \<times> 'p list) option" where
  "AccumulateLastFragment packet s =
     do { ns_assert (m_defragmenting s);
          Some (s\<lparr>m_defragmenting := False, m_fragments := []\<rparr>, concat (m_fragments s @ [packet])) }"

definition AccumulateFragment :: "'p list \<Rightarrow> 'p rx_status \<Rightarrow> 'p rx_status option" where
  "AccumulateFragment packet s =
     do { ns_assert (m_defragmenting s); Some (s\<lparr>m_fragments := m_fragments s @ [packet]\<rparr>) }"

text \<open>The sum is taken in \<^verbatim>\<open>int\<close>, so that nothing follows fragment 15.\<close>

definition IsNextFragment :: "u16 \<Rightarrow> 'p rx_status \<Rightarrow> bool" where
  "IsNextFragment sequenceControl s \<longleftrightarrow>
     drop_bit 4 sequenceControl = drop_bit 4 (m_lastSequenceControl s)
     \<and> unat (sequenceControl AND 0x0f) = unat (m_lastSequenceControl s AND 0x0f) + 1"

definition rx_SetSequenceControl :: "u16 \<Rightarrow> 'p rx_status \<Rightarrow> 'p rx_status" where
  "rx_SetSequenceControl sequenceControl s = s\<lparr>m_lastSequenceControl := sequenceControl\<rparr>"

section \<open>The table of originators\<close>

text \<open>
  What the component reads of an MPDU: its (original) header, its packet and, for an A-MSDU,
  the destination of the first MSDU in it.
\<close>

record 'p rx_mpdu =
  mp_hdr :: mac_hdr
  mp_packet :: "'p list"
  mp_amsdu_da :: mac48

record 'p rx_middle =
  m_originatorStatus :: "mac48 \<rightharpoonup> 'p rx_status"
  m_qosOriginatorStatus :: "mac48 \<times> u8 \<rightharpoonup> 'p rx_status"

datatype rx_key = Qos mac48 u8 | NonQos mac48

definition rx_key_of :: "'p rx_mpdu \<Rightarrow> rx_key" where
  "rx_key_of mpdu =
     (let hdr = mp_hdr mpdu
      in if IsQosData hdr \<and> \<not> mac_IsGroup (m_addr1 hdr) then Qos (m_addr2 hdr) (m_qosTid hdr)
         else if IsQosData hdr \<and> mac_IsGroup (m_addr1 hdr)
         then Qos (if IsQosAmsdu hdr then mp_amsdu_da mpdu else m_addr1 hdr) (m_qosTid hdr)
         else NonQos (m_addr2 hdr))"

fun rx_find :: "rx_key \<Rightarrow> 'p rx_middle \<Rightarrow> 'p rx_status option" where
  "rx_find (Qos a t) m = m_qosOriginatorStatus m (a, t)"
| "rx_find (NonQos a) m = m_originatorStatus m a"

fun rx_store :: "rx_key \<Rightarrow> 'p rx_status \<Rightarrow> 'p rx_middle \<Rightarrow> 'p rx_middle" where
  "rx_store (Qos a t) s m = m\<lparr>m_qosOriginatorStatus := (m_qosOriginatorStatus m)((a, t) \<mapsto> s)\<rparr>"
| "rx_store (NonQos a) s m = m\<lparr>m_originatorStatus := (m_originatorStatus m)(a \<mapsto> s)\<rparr>"

text \<open>
  \<^verbatim>\<open>Lookup\<close> inserts a fresh status when there is none and returns a reference: the
  model returns the key that stands for the reference and the status it finds.
\<close>

definition rx_Lookup :: "'p rx_mpdu \<Rightarrow> 'p rx_middle \<Rightarrow> rx_key \<times> 'p rx_status" where
  "rx_Lookup mpdu m =
     (rx_key_of mpdu,
      case rx_find (rx_key_of mpdu) m of None \<Rightarrow> OriginatorRxStatus | Some s \<Rightarrow> s)"

definition rx_IsDuplicate :: "mac_hdr \<Rightarrow> 'p rx_status \<Rightarrow> bool" where
  "rx_IsDuplicate hdr s \<longleftrightarrow> IsRetry hdr \<and> m_lastSequenceControl s = GetSequenceControl hdr"

text \<open>
  \<^verbatim>\<open>HandleFragments\<close> returns a null pointer, the packet it was given (an unfragmented
  frame) or a new packet put together from the fragments; the caller tells the last two apart.
\<close>

datatype 'p aggregate = Null | Same "'p list" | Rebuilt "'p list"

definition HandleFragments ::
  "'p list \<Rightarrow> mac_hdr \<Rightarrow> 'p rx_status \<Rightarrow> ('p rx_status \<times> 'p aggregate) option" where
  "HandleFragments packet hdr s =
     (if m_defragmenting s
      then (if IsMoreFragments hdr
            then (if IsNextFragment (GetSequenceControl hdr) s
                  then do { s' \<leftarrow> AccumulateFragment packet s;
                            Some (rx_SetSequenceControl (GetSequenceControl hdr) s', Null) }
                  else Some (s, Null))
            else (if IsNextFragment (GetSequenceControl hdr) s
                  then do { (s', p) \<leftarrow> AccumulateLastFragment packet s;
                            Some (rx_SetSequenceControl (GetSequenceControl hdr) s', Rebuilt p) }
                  else Some (s, Null)))
      else (if IsMoreFragments hdr
            then do { s' \<leftarrow> AccumulateFirstFragment packet s;
                      Some (rx_SetSequenceControl (GetSequenceControl hdr) s', Null) }
            else Some (s, Same packet)))"

text \<open>What is forwarded: the MPDU as received, or a new one.\<close>

datatype 'p forwarded = FwdMpdu "'p rx_mpdu" | FwdNew "'p list" mac_hdr

definition Receive :: "'p rx_mpdu \<Rightarrow> 'p rx_middle \<Rightarrow> ('p rx_middle \<times> 'p forwarded list) option" where
  "Receive mpdu m =
     (let hdr = mp_hdr mpdu
      in do { ns_assert (IsData hdr \<or> IsMgt hdr);
              let (key, s) = rx_Lookup mpdu m;
              if rx_IsDuplicate hdr s then Some (rx_store key s m, [])
              else do { (s', aggregate) \<leftarrow> HandleFragments (mp_packet mpdu) hdr s;
                        case aggregate of
                          Null \<Rightarrow> Some (rx_store key s' m, [])
                        | Same p \<Rightarrow> Some (rx_store key (rx_SetSequenceControl (GetSequenceControl hdr) s') m,
                                        [FwdMpdu mpdu])
                        | Rebuilt p \<Rightarrow> Some (rx_store key (rx_SetSequenceControl (GetSequenceControl hdr) s') m,
                                        [FwdNew p hdr]) } })"

text \<open>A sequence of receptions, with the outputs of each under the key it was looked up with.\<close>

fun rx_trace ::
  "'p rx_mpdu list \<Rightarrow> 'p rx_middle \<Rightarrow> ('p rx_middle \<times> (rx_key \<times> 'p forwarded list) list) option" where
  "rx_trace [] m = Some (m, [])"
| "rx_trace (x # xs) m =
     do { (m', out) \<leftarrow> Receive x m;
          (m'', tr) \<leftarrow> rx_trace xs m';
          Some (m'', (rx_key_of x, out) # tr) }"

section \<open>The table\<close>

lemma rx_find_store [simp]: "rx_find k (rx_store k' s m) = (if k = k' then Some s else rx_find k m)"
  by (cases k; cases k') auto

lemma rx_store_store [simp]: "rx_store k s' (rx_store k s m) = rx_store k s' m"
  by (cases k) simp_all

lemma rx_store_find: "rx_find k m = Some s \<Longrightarrow> rx_store k s m = m"
  by (cases k) (auto simp: map_upd_triv)

declare rx_store.simps [simp del]

lemma rx_Lookup_store [simp]:
  "rx_key_of x = k \<Longrightarrow> rx_Lookup x (rx_store k s m) = (k, s)"
  by (simp add: rx_Lookup_def)

text \<open>\<^verbatim>\<open>Receive\<close> never fails on a data or management frame, and reads and writes one status.\<close>

definition status_step ::
  "'p rx_mpdu \<Rightarrow> 'p rx_status \<Rightarrow> 'p rx_status \<times> 'p forwarded list" where
  "status_step x s =
     (let hdr = mp_hdr x; sc = GetSequenceControl hdr
      in if IsRetry hdr \<and> m_lastSequenceControl s = sc then (s, [])
         else if m_defragmenting s
         then (if \<not> IsNextFragment sc s then (s, [])
               else if IsMoreFragments hdr
               then (s\<lparr>m_fragments := m_fragments s @ [mp_packet x], m_lastSequenceControl := sc\<rparr>, [])
               else (s\<lparr>m_defragmenting := False, m_fragments := [], m_lastSequenceControl := sc\<rparr>,
                     [FwdNew (concat (m_fragments s @ [mp_packet x])) hdr]))
         else if IsMoreFragments hdr
         then (s\<lparr>m_defragmenting := True, m_fragments := m_fragments s @ [mp_packet x],
                 m_lastSequenceControl := sc\<rparr>, [])
         else (s\<lparr>m_lastSequenceControl := sc\<rparr>, [FwdMpdu x]))"

lemma Receive_step:
  assumes "IsData (mp_hdr x) \<or> IsMgt (mp_hdr x)"
  shows "Receive x m =
    Some (rx_store (rx_key_of x) (fst (status_step x (snd (rx_Lookup x m)))) m,
          snd (status_step x (snd (rx_Lookup x m))))"
  using assms
  by (auto simp: Receive_def rx_Lookup_def Let_def rx_IsDuplicate_def HandleFragments_def
      AccumulateFragment_def AccumulateLastFragment_def AccumulateFirstFragment_def
      rx_SetSequenceControl_def status_step_def)

section \<open>Sequences of receptions\<close>

fun status_run :: "'p rx_mpdu list \<Rightarrow> 'p rx_status \<Rightarrow> 'p rx_status \<times> 'p forwarded list" where
  "status_run [] s = (s, [])"
| "status_run (x # xs) s =
     (let (s', out) = status_step x s; (s'', out') = status_run xs s' in (s'', out @ out'))"

definition rx_status_of :: "rx_key \<Rightarrow> 'p rx_middle \<Rightarrow> 'p rx_status" where
  "rx_status_of k m = (case rx_find k m of None \<Rightarrow> OriginatorRxStatus | Some s \<Rightarrow> s)"

definition rx_out_of :: "rx_key \<Rightarrow> (rx_key \<times> 'p forwarded list) list \<Rightarrow> 'p forwarded list" where
  "rx_out_of k tr = concat (map snd (filter (\<lambda>x. fst x = k) tr))"

definition rx_frame :: "'p rx_mpdu \<Rightarrow> bool" where
  "rx_frame x \<longleftrightarrow> IsData (mp_hdr x) \<or> IsMgt (mp_hdr x)"

lemma rx_status_of_store [simp]:
  "rx_status_of k (rx_store k' s m) = (if k = k' then s else rx_status_of k m)"
  by (simp add: rx_status_of_def)

lemma Receive_frame:
  "rx_frame x \<Longrightarrow> Receive x m =
    Some (rx_store (rx_key_of x) (fst (status_step x (rx_status_of (rx_key_of x) m))) m,
          snd (status_step x (rx_status_of (rx_key_of x) m)))"
  by (simp add: Receive_step rx_frame_def rx_Lookup_def rx_status_of_def)

lemma rx_trace_split:
  assumes "\<forall>x \<in> set xs. rx_frame x"
  shows "\<exists>m' tr. rx_trace xs m = Some (m', tr) \<and>
    (\<forall>k. status_run (filter (\<lambda>x. rx_key_of x = k) xs) (rx_status_of k m)
           = (rx_status_of k m', rx_out_of k tr))"
  using assms
proof (induction xs arbitrary: m)
  case Nil
  then show ?case by (simp add: rx_out_of_def)
next
  case (Cons x xs)
  let ?s = "status_step x (rx_status_of (rx_key_of x) m)"
  let ?m = "rx_store (rx_key_of x) (fst ?s) m"
  obtain m' tr where IH: "rx_trace xs ?m = Some (m', tr)"
    "\<forall>k. status_run (filter (\<lambda>x. rx_key_of x = k) xs) (rx_status_of k ?m)
           = (rx_status_of k m', rx_out_of k tr)"
    using Cons.IH [of ?m] Cons.prems by auto
  have "Receive x m = Some (?m, snd ?s)"
    using Cons.prems by (simp add: Receive_frame)
  then have t: "rx_trace (x # xs) m = Some (m', (rx_key_of x, snd ?s) # tr)"
    using IH(1) by simp
  have "status_run (filter (\<lambda>x. rx_key_of x = k) (x # xs)) (rx_status_of k m)
      = (rx_status_of k m', rx_out_of k ((rx_key_of x, snd ?s) # tr))" for k
    using spec [OF IH(2), of k] by (auto simp: rx_out_of_def split: prod.splits)
  with t show ?case by blast
qed

lemma rx_out_of_set: "x \<in> set (concat (map snd tr)) \<longleftrightarrow> (\<exists>k. x \<in> set (rx_out_of k tr))"
  by (force simp: rx_out_of_def)

section \<open>Fragments\<close>

text \<open>
  Consecutive fragments of one MSDU: the same sequence number, fragment numbers that increase
  by one, all with the More Fragments bit.
\<close>

fun follows :: "mac_hdr \<Rightarrow> mac_hdr \<Rightarrow> bool" where
  "follows h h' \<longleftrightarrow>
     drop_bit 4 (GetSequenceControl h') = drop_bit 4 (GetSequenceControl h)
     \<and> unat (GetSequenceControl h' AND 0x0f) = unat (GetSequenceControl h AND 0x0f) + 1"

fun chain :: "'p rx_mpdu list \<Rightarrow> bool" where
  "chain [] = True"
| "chain [x] = True"
| "chain (x # y # xs) \<longleftrightarrow>
     IsMoreFragments (mp_hdr x) \<and> follows (mp_hdr x) (mp_hdr y) \<and> chain (y # xs)"

lemma chain_snoc:
  "xs \<noteq> [] \<Longrightarrow> chain xs \<Longrightarrow> IsMoreFragments (mp_hdr (last xs)) \<Longrightarrow>
     follows (mp_hdr (last xs)) (mp_hdr y) \<Longrightarrow> chain (xs @ [y])"
  by (induction xs rule: chain.induct) auto

lemma IsNext_follows:
  "m_lastSequenceControl s = GetSequenceControl h \<Longrightarrow>
     IsNextFragment (GetSequenceControl h') s \<longleftrightarrow> follows h h'"
  by (simp add: IsNextFragment_def)

text \<open>A status that has accumulated the fragments \<open>g\<close>.\<close>

definition holds_frags :: "'p rx_mpdu list \<Rightarrow> 'p rx_status \<Rightarrow> bool" where
  "holds_frags g s \<longleftrightarrow>
     m_fragments s = map mp_packet g \<and> (m_defragmenting s \<longleftrightarrow> g \<noteq> []) \<and> chain g
     \<and> (g \<noteq> [] \<longrightarrow> IsMoreFragments (mp_hdr (last g))
                  \<and> m_lastSequenceControl s = GetSequenceControl (mp_hdr (last g)))"

lemma holds_frags_initial [simp]: "holds_frags [] OriginatorRxStatus"
  by (simp add: holds_frags_def OriginatorRxStatus_def)

lemma status_step_frags:
  assumes "holds_frags g s"
  shows "\<exists>g'. holds_frags g' (fst (status_step x s)) \<and> (g' = [] \<or> g' = g \<or> g' = g @ [x])
    \<and> (\<forall>p h. FwdNew p h \<in> set (snd (status_step x s)) \<longrightarrow>
         p = concat (map mp_packet (g @ [x])) \<and> h = mp_hdr x \<and> g \<noteq> [] \<and> chain (g @ [x])
         \<and> \<not> IsMoreFragments h)"
proof (cases "IsRetry (mp_hdr x) \<and> m_lastSequenceControl s = GetSequenceControl (mp_hdr x)")
  case True
  with assms show ?thesis by (auto simp: status_step_def Let_def)
next
  case new: False
  show ?thesis
  proof (cases "g = []")
    case True
    with assms have s: "\<not> m_defragmenting s" "m_fragments s = []"
      by (simp_all add: holds_frags_def)
    show ?thesis
    proof (cases "IsMoreFragments (mp_hdr x)")
      case True
      then have "holds_frags [x] (fst (status_step x s))"
        using new s by (auto simp: status_step_def holds_frags_def Let_def)
      with \<open>g = []\<close> new s True show ?thesis
        by (intro exI [of _ "[x]"]) (auto simp: status_step_def Let_def)
    next
      case False
      then have "holds_frags [] (fst (status_step x s))"
        using new s by (auto simp: status_step_def holds_frags_def Let_def)
      with \<open>g = []\<close> new s False show ?thesis
        by (intro exI [of _ "[]"]) (auto simp: status_step_def Let_def)
    qed
  next
    case False
    then have s: "m_defragmenting s" "m_fragments s = map mp_packet g" "chain g"
      "IsMoreFragments (mp_hdr (last g))"
      "m_lastSequenceControl s = GetSequenceControl (mp_hdr (last g))"
      using assms by (simp_all add: holds_frags_def)
    note next_iff = IsNext_follows [OF s(5), of "mp_hdr x"]
    show ?thesis
    proof (cases "follows (mp_hdr (last g)) (mp_hdr x)")
      case nf: False
      with new s(1) assms show ?thesis
        by (auto simp: status_step_def Let_def next_iff simp del: follows.simps)
    next
      case True
      then have c: "chain (g @ [x])"
        using chain_snoc False s(3,4) by blast
      show ?thesis
      proof (cases "IsMoreFragments (mp_hdr x)")
        case more: True
        then have "holds_frags (g @ [x]) (fst (status_step x s))"
          using new s True c by (auto simp: status_step_def Let_def next_iff holds_frags_def simp del: follows.simps)
        with new s True more show ?thesis
          by (intro exI [of _ "g @ [x]"]) (auto simp: status_step_def Let_def next_iff simp del: follows.simps)
      next
        case last: False
        then have "holds_frags [] (fst (status_step x s))"
          using new s True by (auto simp: status_step_def Let_def next_iff holds_frags_def simp del: follows.simps)
        with new s True last c \<open>g \<noteq> []\<close> show ?thesis
          by (intro exI [of _ "[]"]) (auto simp: status_step_def Let_def next_iff simp del: follows.simps)
      qed
    qed
  qed
qed

lemma status_run_sound:
  assumes "holds_frags g s" "FwdNew p h \<in> set (snd (status_run xs s))"
  shows "\<exists>f. subseq f (g @ xs) \<and> 2 \<le> length f \<and> chain f \<and> p = concat (map mp_packet f)
    \<and> h = mp_hdr (last f) \<and> \<not> IsMoreFragments h"
  using assms
proof (induction xs arbitrary: g s)
  case (Cons x xs)
  let ?s = "fst (status_step x s)"
  obtain g' where g': "holds_frags g' ?s" "g' = [] \<or> g' = g \<or> g' = g @ [x]"
    "\<forall>p h. FwdNew p h \<in> set (snd (status_step x s)) \<longrightarrow>
         p = concat (map mp_packet (g @ [x])) \<and> h = mp_hdr x \<and> g \<noteq> [] \<and> chain (g @ [x])
         \<and> \<not> IsMoreFragments h"
    using status_step_frags [OF Cons.prems(1), of x] by blast
  consider "FwdNew p h \<in> set (snd (status_step x s))" | "FwdNew p h \<in> set (snd (status_run xs ?s))"
    using Cons.prems(2) by (auto split: prod.splits)
  then show ?case
  proof cases
    case 1
    moreover have "subseq (g @ [x]) (g @ x # xs)"
      using list_emb_append_mono [of "(=)" g g "[x]" "x # xs"] by simp
    ultimately show ?thesis
      using g'(3) by (intro exI [of _ "g @ [x]"]) (auto simp: Suc_le_eq)
  next
    case 2
    from Cons.IH [OF g'(1) 2] obtain f where f: "subseq f (g' @ xs)" "2 \<le> length f" "chain f"
      "p = concat (map mp_packet f)" "h = mp_hdr (last f)" "\<not> IsMoreFragments h"
      by blast
    have "subseq (g' @ xs) (g @ x # xs)"
      using g'(2) list_emb_append_mono [of "(=)" g g xs "x # xs"]
      by (auto simp: subseq_drop_many list_emb_Cons)
    with f show ?thesis
      using subseq_order.trans by blast
  qed
qed simp

lemma status_run_burst:
  assumes "holds_frags g s" "chain (g @ xs)" "xs \<noteq> []" "2 \<le> length (g @ xs)"
    "\<not> IsMoreFragments (mp_hdr (last xs))" "\<forall>x \<in> set xs. \<not> IsRetry (mp_hdr x)"
  shows "snd (status_run xs s) = [FwdNew (concat (map mp_packet (g @ xs))) (mp_hdr (last xs))]
    \<and> holds_frags [] (fst (status_run xs s))"
  using assms
proof (induction xs arbitrary: g s)
  case (Cons x xs)
  have more: "IsMoreFragments (mp_hdr x)" if "xs \<noteq> []"
    using that Cons.prems(2)
  proof (induction g rule: chain.induct)
    case (1)
    then show ?case by (cases xs) auto
  next
    case (2 y)
    then show ?case by (cases xs) auto
  qed auto
  have cg: "chain (g @ [x])" and fol: "g \<noteq> [] \<Longrightarrow> follows (mp_hdr (last g)) (mp_hdr x)"
    using Cons.prems(2) by (induction g rule: chain.induct) auto
  have new: "\<not> IsRetry (mp_hdr x)" using Cons.prems(6) by simp
  have nx: "g \<noteq> [] \<Longrightarrow> IsNextFragment (GetSequenceControl (mp_hdr x)) s"
    using fol IsNext_follows [of s "mp_hdr (last g)" "mp_hdr x"] Cons.prems(1) by (simp add: holds_frags_def)
  show ?case
  proof (cases "xs = []")
    case True
    with Cons.prems have "g \<noteq> []" by auto
    with True Cons.prems(1,5) new nx show ?thesis
      by (simp add: status_step_def Let_def holds_frags_def)
  next
    case False
    have out: "snd (status_step x s) = []"
      using more [OF False] new nx Cons.prems(1) by (auto simp: status_step_def Let_def holds_frags_def)
    have "holds_frags (g @ [x]) (fst (status_step x s))"
      using more [OF False] new nx cg Cons.prems(1)
      by (auto simp: status_step_def Let_def holds_frags_def)
    from Cons.IH [OF this] show ?thesis
      using Cons.prems False out by (auto simp: Suc_le_eq split: prod.splits)
  qed
qed simp

section \<open>Properties\<close>

text \<open>
  originators do not disturb each other: in any sequence of receptions, what is
  passed up for a key and the status it is left in are those of its own receptions alone, and
  no reception of a data or management frame fails.
\<close>

theorem rx_originators_independent:
  assumes "\<forall>x \<in> set xs. rx_frame x"
  shows "\<exists>m' tr. rx_trace xs m = Some (m', tr) \<and>
    (\<forall>k. status_run (filter (\<lambda>x. rx_key_of x = k) xs) (rx_status_of k m)
           = (rx_status_of k m', rx_out_of k tr))"
  using rx_trace_split [OF assms] .

definition rx_empty :: "'p rx_middle" where
  "rx_empty = \<lparr>m_originatorStatus = Map.empty, m_qosOriginatorStatus = Map.empty\<rparr>"

lemma rx_status_of_empty [simp]: "rx_status_of k rx_empty = OriginatorRxStatus"
  by (cases k) (simp_all add: rx_status_of_def rx_empty_def)

text \<open>Two fragments of an MSDU to the same receiver, numbered 1 and 2.\<close>

definition ex_frag :: "u8 \<Rightarrow> bool \<Rightarrow> nat rx_mpdu" where
  "ex_frag n mf =
     \<lparr>mp_hdr = mac_hdr_default\<lparr>m_ctrlType := 2, m_ctrlMoreFrag := (if mf then 1 else 0),
        m_seqSeq := 7, m_seqFrag := n, m_addr2 := 9\<rparr>,
      mp_packet = [unat n], mp_amsdu_da = 0\<rparr>"

lemma ex_frag_simps: "rx_frame (ex_frag n mf)" "rx_key_of (ex_frag n mf) = NonQos 9"
  "\<not> IsRetry (mp_hdr (ex_frag n mf))" "IsMoreFragments (mp_hdr (ex_frag n mf)) \<longleftrightarrow> mf"
  "mp_packet (ex_frag n mf) = [unat n]"
  "GetSequenceControl (mp_hdr (ex_frag n mf)) = 0x70 OR ucast n"
  by (simp_all add: ex_frag_def rx_frame_def IsData_def type_defs rx_key_of_def IsQosData_def
      mac_hdr_default_def Let_def IsRetry_def IsMoreFragments_def GetSequenceControl_def)

theorem rx_originators_independent_witness:
  "\<exists>m' tr. rx_trace [ex_frag 0 False] (rx_store (NonQos 8) OriginatorRxStatus rx_empty) = Some (m', tr)
     \<and> rx_status_of (NonQos 8) m' = OriginatorRxStatus"
proof -
  have "\<forall>x \<in> set [ex_frag 0 False]. rx_frame x" by (simp add: ex_frag_simps)
  from rx_originators_independent [OF this, of "rx_store (NonQos 8) OriginatorRxStatus rx_empty"]
  obtain m' tr where t: "rx_trace [ex_frag 0 False] (rx_store (NonQos 8) OriginatorRxStatus rx_empty) = Some (m', tr)"
    "\<forall>k. status_run (filter (\<lambda>x. rx_key_of x = k) [ex_frag 0 False])
           (rx_status_of k (rx_store (NonQos 8) OriginatorRxStatus rx_empty)) = (rx_status_of k m', rx_out_of k tr)"
    by blast
  show ?thesis
    using t(1) spec [OF t(2), of "NonQos 8"]
    by (intro exI [of _ m'] exI [of _ tr]) (simp add: ex_frag_simps)
qed

text \<open>
  Property C8: every packet put together from fragments consists of two or more frames that
  were received in that order from one originator, with one sequence number and consecutive
  fragment numbers, only the last without the More Fragments bit.
\<close>

theorem rx_defragmentation_sound:
  assumes "\<forall>x \<in> set xs. rx_frame x" "rx_trace xs rx_empty = Some (m', tr)"
    "FwdNew p h \<in> set (rx_out_of k tr)"
  shows "\<exists>f. subseq f (filter (\<lambda>x. rx_key_of x = k) xs) \<and> 2 \<le> length f \<and> chain f
    \<and> p = concat (map mp_packet f) \<and> h = mp_hdr (last f) \<and> \<not> IsMoreFragments h"
proof -
  let ?m = "rx_empty :: 'a rx_middle"
  have init: "rx_status_of k ?m = OriginatorRxStatus"
    by simp
  have "status_run (filter (\<lambda>x. rx_key_of x = k) xs) (rx_status_of k ?m) = (rx_status_of k m', rx_out_of k tr)"
    using rx_trace_split [OF assms(1), of ?m] assms(2) by auto
  then have "FwdNew p h \<in> set (snd (status_run (filter (\<lambda>x. rx_key_of x = k) xs) OriginatorRxStatus))"
    using assms(3) init by simp
  from status_run_sound [OF holds_frags_initial this] show ?thesis by simp
qed

theorem rx_defragmentation_sound_witness:
  "\<exists>f m' tr. rx_trace [ex_frag 0 True, ex_frag 1 False]
       rx_empty = Some (m', tr)
     \<and> chain f \<and> 2 \<le> length f \<and> [0, 1] = concat (map mp_packet (f :: nat rx_mpdu list))"
proof -
  let ?xs = "[ex_frag 0 True, ex_frag 1 False]"
  let ?m = "rx_empty :: nat rx_middle"
  have fr: "\<forall>x \<in> set ?xs. rx_frame x" by (simp add: ex_frag_simps)
  obtain m' tr where t: "rx_trace ?xs ?m = Some (m', tr)"
    "status_run (filter (\<lambda>x. rx_key_of x = NonQos 9) ?xs) (rx_status_of (NonQos 9) ?m)
       = (rx_status_of (NonQos 9) m', rx_out_of (NonQos 9) tr)"
    using rx_trace_split [OF fr, of ?m] by blast
  let ?s = "\<lparr>m_defragmenting = True, m_lastSequenceControl = 0x70, m_fragments = [[0]]\<rparr> :: nat rx_status"
  have 1: "status_step (ex_frag 0 True) OriginatorRxStatus = (?s, [])"
    by (simp add: status_step_def OriginatorRxStatus_def ex_frag_simps Let_def)
  have 2: "snd (status_step (ex_frag 1 False) ?s) = [FwdNew [0, 1] (mp_hdr (ex_frag 1 False))]"
    by (simp add: status_step_def ex_frag_simps Let_def IsNextFragment_def)
  have "filter (\<lambda>x. rx_key_of x = NonQos 9) ?xs = ?xs"
    by (simp add: ex_frag_simps)
  then have "snd (status_run (filter (\<lambda>x. rx_key_of x = NonQos 9) ?xs) (rx_status_of (NonQos 9) ?m))
      = [FwdNew [0, 1] (mp_hdr (ex_frag 1 False))]"
    by (simp only: rx_status_of_empty status_run.simps 1 2 Let_def split_def fst_conv snd_conv
        append_Nil append_Nil2)
  then have "FwdNew [0, 1] (mp_hdr (ex_frag 1 False)) \<in> set (rx_out_of (NonQos 9) tr)"
    unfolding t(2) snd_conv by (simp only: list.set_intros)
  from rx_defragmentation_sound [OF fr t(1) this] obtain f where
    "2 \<le> length f" "chain f" "[0, 1] = concat (map mp_packet (f :: nat rx_mpdu list))"
    by blast
  with t(1) show ?thesis by blast
qed

text \<open>
  Property C33: a complete run of fragments, however many, received from an originator that is
  not in the middle of another MSDU is passed up once, put together in order, whatever the
  other originators send in between.  The fragment numbers need not start at 0: an MSDU whose
  first fragments were never received is passed up without them.
\<close>

theorem rx_defragmentation_complete:
  assumes "\<forall>x \<in> set xs. rx_frame x" "filter (\<lambda>x. rx_key_of x = k) xs = f" "chain f" "2 \<le> length f"
    "\<not> IsMoreFragments (mp_hdr (last f))" "\<forall>x \<in> set f. \<not> IsRetry (mp_hdr x)"
    "holds_frags [] (rx_status_of k m)"
  shows "\<exists>m' tr. rx_trace xs m = Some (m', tr) \<and> holds_frags [] (rx_status_of k m')
    \<and> rx_out_of k tr = [FwdNew (concat (map mp_packet f)) (mp_hdr (last f))]"
proof -
  obtain m' tr where t: "rx_trace xs m = Some (m', tr)"
    "status_run f (rx_status_of k m) = (rx_status_of k m', rx_out_of k tr)"
    using rx_trace_split [OF assms(1), of m] assms(2) by metis
  have "f \<noteq> []" using assms(4) by auto
  from status_run_burst [OF assms(7) _ this] assms(3-6) t show ?thesis by auto
qed

theorem rx_defragmentation_complete_witness:
  "\<exists>m' tr. rx_trace [ex_frag 1 True, ex_frag 2 False]
       rx_empty = Some (m', tr)
     \<and> rx_out_of (NonQos 9) tr = [FwdNew [1, 2] (mp_hdr (ex_frag 2 False))]"
proof -
  let ?xs = "[ex_frag 1 True, ex_frag 2 False]"
  let ?m = "rx_empty :: nat rx_middle"
  have "\<forall>x \<in> set ?xs. rx_frame x" "filter (\<lambda>x. rx_key_of x = NonQos 9) ?xs = ?xs" "chain ?xs"
    "2 \<le> length ?xs" "\<not> IsMoreFragments (mp_hdr (last ?xs))" "\<forall>x \<in> set ?xs. \<not> IsRetry (mp_hdr x)"
    "holds_frags [] (rx_status_of (NonQos 9) ?m)"
    by (simp_all add: ex_frag_simps)
  from rx_defragmentation_complete [OF this] show ?thesis
    by (auto simp: ex_frag_simps)
qed

text \<open>
  a retransmission of the MPDU that was received last from its originator is
  dropped and leaves no trace, whether the first copy was passed up or kept as a fragment.
\<close>

theorem rx_retransmission_dropped:
  assumes "rx_frame x" "rx_frame y" "rx_key_of y = rx_key_of x" "IsRetry (mp_hdr y)"
    "GetSequenceControl (mp_hdr y) = GetSequenceControl (mp_hdr x)"
    "\<not> m_defragmenting (rx_status_of (rx_key_of x) m)
     \<or> IsNextFragment (GetSequenceControl (mp_hdr x)) (rx_status_of (rx_key_of x) m)"
  shows "\<exists>m' out. Receive x m = Some (m', out) \<and> Receive y m' = Some (m', [])"
proof -
  let ?s = "rx_status_of (rx_key_of x) m"
  have "m_lastSequenceControl (fst (status_step x ?s)) = GetSequenceControl (mp_hdr x)"
    using assms(6) by (auto simp: status_step_def Let_def)
  then have "status_step y (fst (status_step x ?s)) = (fst (status_step x ?s), [])"
    using assms(4,5) by (simp add: status_step_def)
  with assms(1-3) show ?thesis
    by (simp add: Receive_frame)
qed

theorem rx_retransmission_dropped_witness:
  "\<exists>m' out. Receive (ex_frag 0 False)
       rx_empty = Some (m', out)
     \<and> Receive ((ex_frag 0 False)\<lparr>mp_hdr := SetRetry (mp_hdr (ex_frag 0 False))\<rparr>) m' = Some (m', [])"
  by (rule rx_retransmission_dropped)
    (simp_all add: ex_frag_def rx_frame_def IsData_def type_defs rx_key_of_def IsQosData_def
      mac_hdr_default_def Let_def IsRetry_def SetRetry_def GetSequenceControl_def
      OriginatorRxStatus_def)

text \<open>
  Property C34: while an MSDU is incomplete, every frame of the same originator with another
  sequence number is dropped without a trace, so that one lost last fragment silences the
  originator.
\<close>

theorem rx_incomplete_msdu_blocks_originator:
  assumes "\<forall>x \<in> set xs. rx_frame x \<and> rx_key_of x = k
      \<and> drop_bit 4 (GetSequenceControl (mp_hdr x)) \<noteq> drop_bit 4 (m_lastSequenceControl (rx_status_of k m))"
    "m_defragmenting (rx_status_of k m)"
  shows "\<exists>m' tr. rx_trace xs m = Some (m', tr) \<and> rx_out_of k tr = []
           \<and> rx_status_of k m' = rx_status_of k m"
proof -
  have f: "filter (\<lambda>x. rx_key_of x = k) xs = xs"
    using assms(1) by simp
  have "status_run xs (rx_status_of k m) = (rx_status_of k m, [])"
    using assms
  proof (induction xs)
    case (Cons x xs)
    then have "status_step x (rx_status_of k m) = (rx_status_of k m, [])"
      by (auto simp: status_step_def IsNextFragment_def Let_def)
    with Cons show ?case by simp
  qed simp
  with rx_trace_split [of xs m] assms(1) f show ?thesis
    by (metis Pair_inject)
qed

theorem rx_incomplete_msdu_blocks_originator_witness:
  "\<exists>m' tr. rx_trace [ex_frag 0 False] (rx_store (NonQos 9)
       \<lparr>m_defragmenting = True, m_lastSequenceControl = 0x60, m_fragments = [[0]]\<rparr> rx_empty) = Some (m', tr)
     \<and> rx_out_of (NonQos 9) tr = []"
proof -
  let ?m = "rx_store (NonQos 9)
       \<lparr>m_defragmenting = True, m_lastSequenceControl = 0x60, m_fragments = [[0]]\<rparr> rx_empty"
  have "\<forall>x \<in> set [ex_frag 0 False]. rx_frame x \<and> rx_key_of x = NonQos 9
      \<and> drop_bit 4 (GetSequenceControl (mp_hdr x)) \<noteq> drop_bit 4 (m_lastSequenceControl (rx_status_of (NonQos 9) ?m))"
    "m_defragmenting (rx_status_of (NonQos 9) ?m)"
    by (simp_all add: ex_frag_simps)
  from rx_incomplete_msdu_blocks_originator [OF this] show ?thesis by blast
qed

end
