(* ===== verification/Txop.thy ===== *)
theory Txop
  imports Qos_Utils
begin

unbundle bit_operations_syntax

text \<open>
  \<^verbatim>\<open>src/wifi/model/txop.cc\<close> and \<^verbatim>\<open>txop.h\<close>: the state of a channel access
  function on each link, its contention window and backoff counter, and the access requests.

  \<^item> \<^verbatim>\<open>LinkEntity\<close> is the record \<open>link\<close>; the operations on one link take and
    return the link that \<^verbatim>\<open>GetLink(linkId)\<close> refers to.  The member \<^verbatim>\<open>x\<close> is
    the field \<open>l_x\<close>.
  \<^item> The virtual getters that \<^verbatim>\<open>QosTxop\<close> overrides are arguments.
  \<^item> The random draw is a function \<open>draw\<close> from the largest value to the drawn one; that
    \<open>draw n \<le> n\<close> is a hypothesis where it matters.
  \<^item> Whether the queue has frames to transmit is an argument, computed by the MAC queue.
\<close>

section \<open>A link\<close>

datatype access_status = NOT_REQUESTED | REQUESTED | GRANTED

record link =
  l_backoffSlots :: u32
  l_backoffStart :: time
  l_cw :: u32
  l_cwMin :: u32
  l_cwMax :: u32
  l_aifsn :: u8
  l_txopLimit :: time
  l_staRetryCount :: nat
  l_access :: access_status

definition LinkEntity :: link where
  "LinkEntity =
     \<lparr>l_backoffSlots = 0, l_backoffStart = 0, l_cw = 0, l_cwMin = 0, l_cwMax = 0, l_aifsn = 0,
      l_txopLimit = 0, l_staRetryCount = 0, l_access = NOT_REQUESTED\<rparr>"

definition ResetCw :: "u32 \<Rightarrow> 'a link_scheme \<Rightarrow> 'a link_scheme" where
  "ResetCw minCw l = l\<lparr>l_cw := minCw, l_staRetryCount := 0\<rparr>"

definition SetMinCw :: "('a link_scheme \<Rightarrow> u32 option) \<Rightarrow> u32 \<Rightarrow> 'a link_scheme \<Rightarrow> 'a link_scheme option" where
  "SetMinCw getMinCw minCw l =
     (let changed = (l_cwMin l \<noteq> minCw); l = l\<lparr>l_cwMin := minCw\<rparr>
      in if changed then do { m \<leftarrow> getMinCw l; Some (ResetCw m l) } else Some l)"

definition SetMaxCw :: "('a link_scheme \<Rightarrow> u32 option) \<Rightarrow> u32 \<Rightarrow> 'a link_scheme \<Rightarrow> 'a link_scheme option" where
  "SetMaxCw getMinCw maxCw l =
     (let changed = (l_cwMax l \<noteq> maxCw); l = l\<lparr>l_cwMax := maxCw\<rparr>
      in if changed then do { m \<leftarrow> getMinCw l; Some (ResetCw m l) } else Some l)"

definition SetAifsn :: "u8 \<Rightarrow> 'a link_scheme \<Rightarrow> 'a link_scheme" where
  "SetAifsn aifsn l = l\<lparr>l_aifsn := aifsn\<rparr>"

definition SetTxopLimit :: "time \<Rightarrow> 'a link_scheme \<Rightarrow> 'a link_scheme option" where
  "SetTxopLimit txopLimit l =
     do { ns_assert (txopLimit \<ge> 0);
          ns_assert ((txopLimit div 1000) mod 32 = 0);
          Some (l\<lparr>l_txopLimit := txopLimit\<rparr>) }"

text \<open>
  \<^verbatim>\<open>1 << staRetryCount\<close> is a shift of a 32-bit \<^verbatim>\<open>int\<close>: undefined from 32 on;
  the product and the difference are taken in \<^verbatim>\<open>uint32_t\<close>.
\<close>

definition UpdateFailedCw :: "nat \<Rightarrow> u32 \<Rightarrow> u32 \<Rightarrow> 'a link_scheme \<Rightarrow> 'a link_scheme option" where
  "UpdateFailedCw frameRetryLimit minCw maxCw l =
     (if l_staRetryCount l < frameRetryLimit
      then (let n = l_staRetryCount l + 1
            in do { ns_assert (n < 32);
                    Some (l\<lparr>l_staRetryCount := n,
                            l_cw := min maxCw (push_bit n 1 * (minCw + 1) - 1)\<rparr>) })
      else Some (l\<lparr>l_staRetryCount := 0, l_cw := minCw\<rparr>))"

definition UpdateBackoffSlotsNow :: "u32 \<Rightarrow> time \<Rightarrow> 'a link_scheme \<Rightarrow> 'a link_scheme" where
  "UpdateBackoffSlotsNow nSlots backoffUpdateBound l =
     l\<lparr>l_backoffSlots := l_backoffSlots l - nSlots, l_backoffStart := backoffUpdateBound\<rparr>"

definition StartBackoffNow :: "time \<Rightarrow> u32 \<Rightarrow> 'a link_scheme \<Rightarrow> 'a link_scheme" where
  "StartBackoffNow now nSlots l = l\<lparr>l_backoffSlots := nSlots, l_backoffStart := now\<rparr>"

definition txop_GenerateBackoff :: "(u32 \<Rightarrow> u32) \<Rightarrow> time \<Rightarrow> 'a link_scheme \<Rightarrow> 'a link_scheme" where
  "txop_GenerateBackoff draw now l = StartBackoffNow now (draw (l_cw l)) l"

definition NotifyAccessRequested :: "'a link_scheme \<Rightarrow> 'a link_scheme" where
  "NotifyAccessRequested l = l\<lparr>l_access := REQUESTED\<rparr>"

definition txop_NotifyChannelAccessed :: "'a link_scheme \<Rightarrow> 'a link_scheme" where
  "txop_NotifyChannelAccessed l = l\<lparr>l_access := GRANTED\<rparr>"

text \<open>
  Calls an operation makes to the channel access manager: a request for access now, or one
  scheduled to run at the current time, after the events already there.
\<close>

datatype access_call = CallRequestAccess | ScheduleRequestAccess

text \<open>
  \<^verbatim>\<open>generateBackoff\<close> stands for the virtual \<^verbatim>\<open>GenerateBackoff\<close>, \<open>needBackoff\<close> for the
  answer of \<^verbatim>\<open>NeedBackoffUponAccess\<close>.
\<close>

definition txop_NotifyChannelReleased ::
  "('a link_scheme \<Rightarrow> 'a link_scheme option) \<Rightarrow> bool \<Rightarrow> 'a link_scheme \<Rightarrow>
     ('a link_scheme \<times> access_call list) option" where
  "txop_NotifyChannelReleased generateBackoff hasFrames l =
     do { l \<leftarrow> generateBackoff (l\<lparr>l_access := NOT_REQUESTED\<rparr>);
          Some (l, if hasFrames then [ScheduleRequestAccess] else []) }"

definition txop_RequestAccess :: "'a link_scheme \<Rightarrow> access_call list" where
  "txop_RequestAccess l = (if l_access l = NOT_REQUESTED then [CallRequestAccess] else [])"

definition StartAccessAfterEvent ::
  "('a link_scheme \<Rightarrow> 'a link_scheme option) \<Rightarrow> bool \<Rightarrow> bool \<Rightarrow> bool \<Rightarrow> 'a link_scheme \<Rightarrow>
     ('a link_scheme \<times> access_call list) option" where
  "StartAccessAfterEvent generateBackoff hasPhy hasFrames needBackoff l =
     (if \<not> hasPhy then Some (l, [])
      else if l_access l \<noteq> NOT_REQUESTED then Some (l, [])
      else if \<not> hasFrames then Some (l, [])
      else do { l \<leftarrow> (if needBackoff then generateBackoff l else Some l);
                Some (l, [CallRequestAccess]) })"

section \<open>All the links\<close>

record user_access_params =
  cwMins :: "u32 list"
  cwMaxs :: "u32 list"
  aifsns :: "u8 list"
  txopLimits :: "time list"

record 'l txop =
  m_links :: "(nat, 'l) omap"
  m_userAccessParams :: user_access_params

definition GetLink :: "nat \<Rightarrow> 'l txop \<Rightarrow> 'l option" where
  "GetLink linkId t = omap_get (m_links t) linkId"

text \<open>A call of an operation for one link.\<close>

definition on_link :: "nat \<Rightarrow> ('l \<Rightarrow> 'l option) \<Rightarrow> 'l txop \<Rightarrow> 'l txop option" where
  "on_link linkId f t =
     do { l \<leftarrow> GetLink linkId t; l' \<leftarrow> f l; Some (t\<lparr>m_links := omap_put linkId l' (m_links t)\<rparr>) }"

text \<open>
  The setters that take one value for each link, "sorted in increasing order of link ID":
  \<open>set_all\<close> is the loop over the links, whose index into the vector is always in range.
\<close>

fun set_all :: "('v \<Rightarrow> 'l \<Rightarrow> 'l option) \<Rightarrow> 'v list \<Rightarrow> (nat, 'l) omap \<Rightarrow> (nat, 'l) omap option" where
  "set_all f (v # vs) ((i, l) # ls) =
     do { l' \<leftarrow> f v l; ls' \<leftarrow> set_all f vs ls; Some ((i, l') # ls') }"
| "set_all f vs [] = Some []"
| "set_all f [] (l # ls) = None"

definition set_vector ::
  "('v list \<Rightarrow> user_access_params \<Rightarrow> user_access_params) \<Rightarrow> ('v \<Rightarrow> 'l \<Rightarrow> 'l option) \<Rightarrow> 'v list
     \<Rightarrow> 'l txop \<Rightarrow> 'l txop option" where
  "set_vector record_user f vs t =
     (if vs = [] then Some t
      else do { ns_assert (\<not> (m_links t \<noteq> [] \<and> length vs \<noteq> length (m_links t)));
                let t = t\<lparr>m_userAccessParams := record_user vs (m_userAccessParams t)\<rparr>;
                ls \<leftarrow> set_all f vs (m_links t);
                Some (t\<lparr>m_links := ls\<rparr>) })"

definition SetMinCws ::
  "('a link_scheme \<Rightarrow> u32 option) \<Rightarrow> u32 list \<Rightarrow> 'a link_scheme txop \<Rightarrow> 'a link_scheme txop option" where
  "SetMinCws getMinCw = set_vector (\<lambda>vs p. p\<lparr>cwMins := vs\<rparr>) (SetMinCw getMinCw)"

definition SetMaxCws ::
  "('a link_scheme \<Rightarrow> u32 option) \<Rightarrow> u32 list \<Rightarrow> 'a link_scheme txop \<Rightarrow> 'a link_scheme txop option" where
  "SetMaxCws getMinCw = set_vector (\<lambda>vs p. p\<lparr>cwMaxs := vs\<rparr>) (SetMaxCw getMinCw)"

definition SetAifsns :: "u8 list \<Rightarrow> 'a link_scheme txop \<Rightarrow> 'a link_scheme txop option" where
  "SetAifsns = set_vector (\<lambda>vs p. p\<lparr>aifsns := vs\<rparr>) (\<lambda>v l. Some (SetAifsn v l))"

definition SetTxopLimits :: "time list \<Rightarrow> 'a link_scheme txop \<Rightarrow> 'a link_scheme txop option" where
  "SetTxopLimits = set_vector (\<lambda>vs p. p\<lparr>txopLimits := vs\<rparr>) SetTxopLimit"

definition GetMinCws :: "'a link_scheme txop \<Rightarrow> u32 list" where
  "GetMinCws t = map (l_cwMin \<circ> snd) (m_links t)"

definition GetMaxCws :: "'a link_scheme txop \<Rightarrow> u32 list" where
  "GetMaxCws t = map (l_cwMax \<circ> snd) (m_links t)"

definition GetAifsns :: "'a link_scheme txop \<Rightarrow> u8 list" where
  "GetAifsns t = map (l_aifsn \<circ> snd) (m_links t)"

definition GetTxopLimits :: "'a link_scheme txop \<Rightarrow> time list" where
  "GetTxopLimits t = map (l_txopLimit \<circ> snd) (m_links t)"

definition SetWifiMac :: "'l \<Rightarrow> nat list \<Rightarrow> 'l txop \<Rightarrow> 'l txop" where
  "SetWifiMac createLinkEntity linkIds t =
     t\<lparr>m_links := fold (\<lambda>i m. omap_emplace i createLinkEntity m) linkIds (m_links t)\<rparr>"

text \<open>
  \<^verbatim>\<open>SwapLinks\<close>: the nodes named by the argument are moved under their new key (a name that
  is not there gives an empty node, whose key must not be touched), then the rest is merged in.
  A node whose new key is taken is destroyed, as is a remaining one whose key is taken.
\<close>

fun swap_nodes :: "(nat \<times> nat) list \<Rightarrow> (nat, 'l) omap \<Rightarrow> (nat, 'l) omap \<Rightarrow>
     ((nat, 'l) omap \<times> (nat, 'l) omap) option" where
  "swap_nodes [] tmp m = Some (tmp, m)"
| "swap_nodes ((src, dst) # links) tmp m =
     do { l \<leftarrow> omap_get tmp src;
          swap_nodes links (omap_erase src tmp) (omap_emplace dst l m) }"

definition omap_merge :: "(nat, 'l) omap \<Rightarrow> (nat, 'l) omap \<Rightarrow> (nat, 'l) omap" where
  "omap_merge tmp m = fold (\<lambda>(k, v) m. omap_emplace k v m) tmp m"

definition SwapLinks :: "(nat \<times> nat) list \<Rightarrow> 'l txop \<Rightarrow> 'l txop option" where
  "SwapLinks links t =
     do { (tmp, m) \<leftarrow> swap_nodes links (m_links t) [];
          Some (t\<lparr>m_links := omap_merge tmp m\<rparr>) }"

section \<open>The contention window\<close>

lemma cw_word:
  assumes "2 ^ n * (unat minCw + 1) \<le> 2 ^ 32"
  shows "unat (push_bit n 1 * (minCw + 1) - 1 :: u32) = 2 ^ n * (unat minCw + 1) - 1"
proof -
  let ?p = "2 ^ n * (unat minCw + 1) :: nat"
  have "(push_bit n 1 * (minCw + 1) - 1 :: u32) = of_nat ?p - of_nat 1"
    by (simp add: push_bit_eq_mult algebra_simps)
  also have "\<dots> = of_nat (?p - 1)"
  proof -
    have "1 \<le> ?p" by (simp add: Suc_le_eq)
    then show ?thesis by (rule of_nat_diff [symmetric])
  qed
  finally show ?thesis
    using assms by (simp add: unat_of_nat)
qed

lemma UpdateFailedCw_spec:
  assumes "l_staRetryCount l < limit" "limit < 32" "2 ^ limit * (unat minCw + 1) \<le> 2 ^ 32"
  obtains l' where "UpdateFailedCw limit minCw maxCw l = Some l'"
    "l_staRetryCount l' = l_staRetryCount l + 1"
    "unat (l_cw l') = min (unat maxCw) (2 ^ (l_staRetryCount l + 1) * (unat minCw + 1) - 1)"
    "l' = l\<lparr>l_cw := l_cw l', l_staRetryCount := l_staRetryCount l'\<rparr>"
proof -
  let ?n = "l_staRetryCount l + 1"
  have "2 ^ ?n * (unat minCw + 1) \<le> (2 ^ limit * (unat minCw + 1) :: nat)"
    using assms(1) by (intro mult_right_mono power_increasing) auto
  with assms(3) have "unat (push_bit ?n 1 * (minCw + 1) - 1 :: u32) = 2 ^ ?n * (unat minCw + 1) - 1"
    by (intro cw_word) linarith
  then have "unat (min maxCw (push_bit ?n 1 * (minCw + 1) - 1)) =
      min (unat maxCw) (2 ^ ?n * (unat minCw + 1) - 1)"
    by (simp only: min_def word_le_nat_alt split: if_split) simp
  with assms(1,2) show thesis
    by (intro that [of "l\<lparr>l_staRetryCount := ?n, l_cw := min maxCw (push_bit ?n 1 * (minCw + 1) - 1)\<rparr>"])
      (simp_all add: UpdateFailedCw_def Let_def)
qed

fun fail_times :: "nat \<Rightarrow> nat \<Rightarrow> u32 \<Rightarrow> u32 \<Rightarrow> 'a link_scheme \<Rightarrow> 'a link_scheme option" where
  "fail_times 0 limit minCw maxCw l = Some l"
| "fail_times (Suc k) limit minCw maxCw l =
     do { l \<leftarrow> fail_times k limit minCw maxCw l; UpdateFailedCw limit minCw maxCw l }"

lemma fail_times_spec:
  assumes "k \<le> limit" "limit < 32" "2 ^ limit * (unat minCw + 1) \<le> 2 ^ 32" "minCw \<le> maxCw"
  shows "\<exists>l'. fail_times k limit minCw maxCw (ResetCw minCw l) = Some l'
    \<and> l_staRetryCount l' = k \<and> unat (l_cw l') = min (unat maxCw) (2 ^ k * (unat minCw + 1) - 1)"
  using assms(1)
proof (induction k)
  case 0
  then show ?case
    using assms(4) by (simp add: ResetCw_def word_le_nat_alt)
next
  case (Suc k)
  then obtain l' where l': "fail_times k limit minCw maxCw (ResetCw minCw l) = Some l'"
    "l_staRetryCount l' = k"
    by auto
  obtain l'' where "UpdateFailedCw limit minCw maxCw l' = Some l''"
    "l_staRetryCount l'' = l_staRetryCount l' + 1"
    "unat (l_cw l'') = min (unat maxCw) (2 ^ (l_staRetryCount l' + 1) * (unat minCw + 1) - 1)"
    using UpdateFailedCw_spec [of l' limit minCw maxCw] Suc.prems l'(2) assms(2,3) by auto
  with l' show ?case by auto
qed

section \<open>The vectors of access parameters\<close>

lemma set_all_spec:
  assumes "length vs = length ls" "\<And>v l. v \<in> set vs \<Longrightarrow> \<exists>l'. f v l = Some l' \<and> g l' = v"
  shows "\<exists>ls'. set_all f vs ls = Some ls' \<and> map fst ls' = map fst ls \<and> map (g \<circ> snd) ls' = vs"
  using assms
proof (induction vs ls rule: list_induct2)
  case (Cons v vs l ls)
  obtain l' where "f v (snd l) = Some l'" "g l' = v"
    using Cons.prems [of v "snd l"] by auto
  moreover obtain ls' where "set_all f vs ls = Some ls'" "map fst ls' = map fst ls" "map (g \<circ> snd) ls' = vs"
    using Cons by auto
  ultimately show ?case
    by (cases l) auto
qed simp

lemma set_vector_spec:
  assumes "length vs = length (m_links t)" "vs \<noteq> []"
    "\<And>v l. v \<in> set vs \<Longrightarrow> \<exists>l'. f v l = Some l' \<and> g l' = v"
  shows "\<exists>t'. set_vector r f vs t = Some t' \<and> map fst (m_links t') = map fst (m_links t)
    \<and> map (g \<circ> snd) (m_links t') = vs \<and> m_userAccessParams t' = r vs (m_userAccessParams t)"
  using set_all_spec [of vs "m_links t" f g] assms by (auto simp: set_vector_def Let_def)

lemma SetMinCw_val: "getMinCw (l\<lparr>l_cwMin := v\<rparr>) \<noteq> None \<Longrightarrow> \<exists>l'. SetMinCw getMinCw v l = Some l' \<and> l_cwMin l' = v"
  by (auto simp: SetMinCw_def ResetCw_def Let_def)

lemma SetMaxCw_val: "getMinCw (l\<lparr>l_cwMax := v\<rparr>) \<noteq> None \<Longrightarrow> \<exists>l'. SetMaxCw getMinCw v l = Some l' \<and> l_cwMax l' = v"
  by (auto simp: SetMaxCw_def ResetCw_def Let_def)

section \<open>Swapping links\<close>

lemma omap_get_merge:
  "omap_get (omap_merge tmp m) k = (case omap_get m k of Some v \<Rightarrow> Some v | None \<Rightarrow> omap_get tmp k)"
  unfolding omap_merge_def
proof (induction tmp arbitrary: m)
  case (Cons kv tmp)
  obtain k' v where "kv = (k', v)" by fastforce
  then show ?case
    by (auto simp: Cons.IH omap_get_emplace split: option.split)
qed (simp split: option.split)

lemma swap_nodes_spec:
  assumes "distinct (map fst links)" "distinct (map snd links)"
    "\<forall>i \<in> set (map fst links). omap_get tmp i \<noteq> None" "\<forall>i \<in> set (map snd links). omap_get m i = None"
  shows "\<exists>tmp' m'. swap_nodes links tmp m = Some (tmp', m')
    \<and> (\<forall>k. omap_get tmp' k = (if k \<in> set (map fst links) then None else omap_get tmp k))
    \<and> (\<forall>k. omap_get m' k = (case map_of (map prod.swap links) k of
                              Some i \<Rightarrow> omap_get tmp i | None \<Rightarrow> omap_get m k))"
  using assms
proof (induction links arbitrary: tmp m)
  case (Cons sd links)
  obtain src dst where sd: "sd = (src, dst)" by fastforce
  obtain l where l: "omap_get tmp src = Some l" using Cons.prems(3) sd by auto
  let ?tmp = "omap_erase src tmp" and ?m = "omap_emplace dst l m"
  have m: "omap_get ?m k = (if k = dst then Some l else omap_get m k)" for k
    using Cons.prems(4) sd by (simp add: omap_get_emplace)
  have "\<forall>i \<in> set (map fst links). omap_get ?tmp i \<noteq> None"
    using Cons.prems(1,3) sd by (auto simp: omap_get_erase)
  moreover have "\<forall>i \<in> set (map snd links). omap_get ?m i = None"
    using Cons.prems(2,4) sd by (auto simp: m)
  ultimately obtain tmp' m' where IH: "swap_nodes links ?tmp ?m = Some (tmp', m')"
    "\<forall>k. omap_get tmp' k = (if k \<in> set (map fst links) then None else omap_get ?tmp k)"
    "\<forall>k. omap_get m' k = (case map_of (map prod.swap links) k of
                              Some i \<Rightarrow> omap_get ?tmp i | None \<Rightarrow> omap_get ?m k)"
    using Cons.IH [of ?tmp ?m] Cons.prems(1,2) by auto
  have "omap_get m' k = (case map_of (map prod.swap (sd # links)) k of
                              Some i \<Rightarrow> omap_get tmp i | None \<Rightarrow> omap_get m k)" for k
  proof (cases "k = dst")
    case True
    then have "map_of (map prod.swap links) k = None"
      using Cons.prems(2) sd by (force simp: map_of_eq_None_iff)
    then show ?thesis using IH(3) True l by (simp add: m sd)
  next
    case False
    have "i \<noteq> src" if "map_of (map prod.swap links) k = Some i" for i
      using map_of_SomeD [OF that] Cons.prems(1) sd by (force simp: image_iff)
    then show ?thesis
      using IH(3) False by (auto simp: m sd omap_get_erase split: option.split)
  qed
  with IH l show ?case
    by (auto simp: sd omap_get_erase)
qed simp

section \<open>Properties\<close>

text \<open>
  Property C30: binary exponential backoff: after \<open>k\<close> consecutive failures from a reset, up to
  the frame retry limit, the retry count is \<open>k\<close> and the contention window is the lesser of
  CWmax and 2^k (CWmin + 1) - 1; the failure after that starts again from CWmin.  The bound on
  the product keeps the 32-bit arithmetic of the code exact.
\<close>

theorem contention_window_doubles:
  assumes "k \<le> limit" "limit < 32" "2 ^ limit * (unat minCw + 1) \<le> 2 ^ 32" "minCw \<le> maxCw"
  shows "\<exists>l'. fail_times k limit minCw maxCw (ResetCw minCw l) = Some l'
    \<and> l_staRetryCount l' = k \<and> unat (l_cw l') = min (unat maxCw) (2 ^ k * (unat minCw + 1) - 1)
    \<and> (k = limit \<longrightarrow> UpdateFailedCw limit minCw maxCw l' =
         Some (l'\<lparr>l_staRetryCount := 0, l_cw := minCw\<rparr>))"
  using fail_times_spec [OF assms, of l] by (auto simp: UpdateFailedCw_def)

theorem contention_window_doubles_witness:
  "\<exists>l'. fail_times 3 7 15 1023 (ResetCw 15 LinkEntity) = Some l' \<and> unat (l_cw l') = 127"
  using contention_window_doubles [of 3 7 15 1023 LinkEntity] by auto

text \<open>
  A vector of access parameters gives each link, in the order of the link IDs, its
  value: reading the parameters back returns the vector, no link is added or lost, and the
  vector is remembered as the user's.
\<close>

lemma access_parameters_roundtrip:
  assumes "ws \<noteq> []" "length ws = length (m_links t)" "\<And>l. getMinCw l \<noteq> None"
  shows "\<exists>t' t''. SetMinCws getMinCw ws t = Some t' \<and> GetMinCws t' = ws
      \<and> SetMaxCws getMinCw ws t' = Some t'' \<and> GetMaxCws t'' = ws
      \<and> map fst (m_links t'') = map fst (m_links t)
      \<and> cwMins (m_userAccessParams t'') = ws \<and> cwMaxs (m_userAccessParams t'') = ws"
proof -
  obtain t' where t': "SetMinCws getMinCw ws t = Some t'" "map fst (m_links t') = map fst (m_links t)"
    "GetMinCws t' = ws" "cwMins (m_userAccessParams t') = ws"
    using set_vector_spec [of ws t "SetMinCw getMinCw" l_cwMin "\<lambda>vs p. p\<lparr>cwMins := vs\<rparr>"]
      assms SetMinCw_val [of getMinCw] by (auto simp: SetMinCws_def GetMinCws_def)
  have "length ws = length (m_links t')"
    using t'(2) assms(2) by (metis length_map)
  then obtain t'' where "SetMaxCws getMinCw ws t' = Some t''" "map fst (m_links t'') = map fst (m_links t')"
    "GetMaxCws t'' = ws" "m_userAccessParams t'' = (m_userAccessParams t')\<lparr>cwMaxs := ws\<rparr>"
    using set_vector_spec [of ws t' "SetMaxCw getMinCw" l_cwMax "\<lambda>vs p. p\<lparr>cwMaxs := vs\<rparr>"]
      assms SetMaxCw_val [of getMinCw] by (auto simp: SetMaxCws_def GetMaxCws_def)
  with t' show ?thesis by auto
qed

definition ex_txop :: "link txop" where
  "ex_txop = \<lparr>m_links = [(0, LinkEntity), (1, LinkEntity\<lparr>l_aifsn := 2\<rparr>)],
     m_userAccessParams = \<lparr>cwMins = [], cwMaxs = [], aifsns = [], txopLimits = []\<rparr>\<rparr>"

lemma access_parameters_roundtrip_witness:
  "\<exists>t' t''. SetMinCws (\<lambda>l. Some (l_cwMin l)) [3, 15] ex_txop = Some t' \<and> GetMinCws t' = [3, 15]
     \<and> SetMaxCws (\<lambda>l. Some (l_cwMin l)) [3, 15] t' = Some t''"
  using access_parameters_roundtrip [of "[3, 15]" ex_txop "\<lambda>l. Some (l_cwMin l)"]
  by (auto simp: ex_txop_def)

text \<open>
  Swapping links by a one-to-one renaming that hits no link left in place renames
  the links it names and keeps the others: none is lost and none changes its contents.
\<close>

lemma swap_links_renames:
  assumes "distinct (map fst links)" "distinct (map snd links)"
    "\<forall>i \<in> set (map fst links). GetLink i t \<noteq> None"
    "\<forall>i \<in> set (map snd links) - set (map fst links). GetLink i t = None"
  shows "\<exists>t'. SwapLinks links t = Some t' \<and>
    (\<forall>k. GetLink k t' = (case map_of (map prod.swap links) k of
            Some i \<Rightarrow> GetLink i t
          | None \<Rightarrow> if k \<in> set (map fst links) then None else GetLink k t))"
proof -
  have "\<forall>i \<in> set (map snd links). omap_get [] i = None" by simp
  from swap_nodes_spec [OF assms(1,2) _ this, of "m_links t"] assms(3) obtain tmp m where
    "swap_nodes links (m_links t) [] = Some (tmp, m)"
    "\<forall>k. omap_get tmp k = (if k \<in> set (map fst links) then None else GetLink k t)"
    and m: "\<forall>k. omap_get m k = (case map_of (map prod.swap links) k of Some i \<Rightarrow> GetLink i t | None \<Rightarrow> None)"
    by (auto simp: GetLink_def cong: option.case_cong)
  moreover have "GetLink i t \<noteq> None" if "map_of (map prod.swap links) k = Some i" for i k
    using map_of_SomeD [OF that] assms(3) by force
  ultimately show ?thesis
    by (auto simp: SwapLinks_def GetLink_def omap_get_merge split: option.split)
      (metis option.distinct(1))
qed

lemma swap_links_renames_witness:
  "\<exists>t'. SwapLinks [(0, 1), (1, 0)] ex_txop = Some t'
     \<and> GetLink 0 t' = Some (LinkEntity\<lparr>l_aifsn := 2\<rparr>) \<and> GetLink 1 t' = Some LinkEntity"
  using swap_links_renames [of "[(0, 1), (1, 0)]" ex_txop]
  by (auto simp: ex_txop_def GetLink_def omap_get_def)

end
