(* ===== verification/Qos_Txop.thy ===== *)
theory Qos_Txop
  imports Txop "HOL-Library.Signed_Division"
begin

text \<open>
  \<^verbatim>\<open>src/wifi/model/qos-txop.cc\<close> and \<^verbatim>\<open>qos-txop.h\<close>: the EDCA function of an access
  category: the TXOP, the MU EDCA parameters, and the P-EDCA extension of 802.11bn for voice
  traffic, in which a station that has failed often enough sends a CTS-to-self after a shorter
  defer time and zero backoff, and then contends normally under its protection.

  \<^verbatim>\<open>QosLinkEntity\<close> is the record \<open>qlink\<close>, which extends \<open>link\<close>.  The members of
  \<^verbatim>\<open>QosTxop\<close> that do not change while it runs are \<open>qos_cfg\<close>; what it asks of the MAC
  is \<open>mac_env\<close>.
\<close>

section \<open>State\<close>

record qlink = link +
  l_startTxop :: "time option"
  l_txopDuration :: time
  l_psrc :: u32
  l_pedcaTriggerCount :: u32
  l_pedcaCtsPending :: bool
  l_pedcaMode :: bool
  l_pedcaAfterCts :: bool
  l_pedcaResetOnNextTxop :: bool
  l_pedcaSelections :: u32
  l_pedcaCtsAttempts :: u32
  l_pedcaSuccesses :: u32
  l_pedcaFailures :: u32
  l_pedcaResets :: u32
  l_pedcaEligibilityChecks :: u32
  l_pedcaMaxTriggerCount :: u32
  l_muCwMin :: u32
  l_muCwMax :: u32
  l_muAifsn :: u8
  l_muEdcaTimer :: time
  l_muEdcaTimerStartTime :: time

record qos_cfg =
  m_ac :: ac_index
  m_enableUhrPedca :: bool
  m_distributePedcaAcrossLinks :: bool
  m_preferredPedcaLinkId :: nat
  m_qsrcThreshold :: u32
  m_psrcThreshold :: u32
  m_randomTxopLimitEnabled :: bool
  m_randomTxopLimitMin :: time
  m_randomTxopLimitMax :: time

text \<open>
  Whether a PHY operates on the link and implements 802.11bn (UHR), whether the station is a
  non-AP one, and its number of links.
\<close>

record mac_env =
  uhrPhy :: bool
  isSta :: bool
  nLinks :: nat

definition QosLinkEntity :: qlink where
  "QosLinkEntity =
     \<lparr>l_backoffSlots = 0, l_backoffStart = 0, l_cw = 0, l_cwMin = 0, l_cwMax = 0, l_aifsn = 0,
      l_txopLimit = 0, l_staRetryCount = 0, l_access = NOT_REQUESTED,
      l_startTxop = None, l_txopDuration = 0, l_psrc = 0, l_pedcaTriggerCount = 0,
      l_pedcaCtsPending = False, l_pedcaMode = False, l_pedcaAfterCts = False,
      l_pedcaResetOnNextTxop = False, l_pedcaSelections = 0, l_pedcaCtsAttempts = 0,
      l_pedcaSuccesses = 0, l_pedcaFailures = 0, l_pedcaResets = 0, l_pedcaEligibilityChecks = 0,
      l_pedcaMaxTriggerCount = 0, l_muCwMin = 0, l_muCwMax = 0, l_muAifsn = 0, l_muEdcaTimer = 0,
      l_muEdcaTimerStartTime = 0\<rparr>"

section \<open>Queue size and TXOP limit\<close>

text \<open>The number of bytes is a 32-bit value; \<^verbatim>\<open>ceil(x / 256.0)\<close> is exact for it.\<close>

definition GetQosQueueSize_of :: "nat \<Rightarrow> nat" where
  "GetQosQueueSize_of bufferSize = ((min bufferSize 64769 + 255) div 256) mod 256"

text \<open>
  \<^verbatim>\<open>sample\<close> is the draw of the random variable between two bounds.  The C++ quotients
  truncate, and negative ones become large unsigned numbers.
\<close>

definition to_u64 :: "int \<Rightarrow> int" where
  "to_u64 x = x mod 2 ^ 64"

definition GetMicroSeconds :: "time \<Rightarrow> int" where
  "GetMicroSeconds t = t sdiv 1000"

definition UpdateRandomTxopLimit :: "qos_cfg \<Rightarrow> (int \<Rightarrow> int \<Rightarrow> int) \<Rightarrow> qlink \<Rightarrow> qlink option" where
  "UpdateRandomTxopLimit cfg sample l =
     (if \<not> m_randomTxopLimitEnabled cfg then Some l
      else let us1 = GetMicroSeconds (m_randomTxopLimitMin cfg);
               us2 = GetMicroSeconds (m_randomTxopLimitMax cfg);
               (minUs, maxUs) = (if us2 < us1 then (us2, us1) else (us1, us2));
               minTicks = max 1 (to_u64 ((minUs + 31) sdiv 32));
               maxTicks = max minTicks (to_u64 (maxUs sdiv 32));
               sampledTicks = sample minTicks maxTicks
           in SetTxopLimit (1000 * (sampledTicks * 32)) l)"

section \<open>MU EDCA\<close>

definition SetMuCwMin :: "u16 \<Rightarrow> qlink \<Rightarrow> qlink" where
  "SetMuCwMin v l = l\<lparr>l_muCwMin := ucast v\<rparr>"
definition SetMuCwMax :: "u16 \<Rightarrow> qlink \<Rightarrow> qlink" where
  "SetMuCwMax v l = l\<lparr>l_muCwMax := ucast v\<rparr>"
definition SetMuAifsn :: "u8 \<Rightarrow> qlink \<Rightarrow> qlink" where
  "SetMuAifsn v l = l\<lparr>l_muAifsn := v\<rparr>"
definition SetMuEdcaTimer :: "time \<Rightarrow> qlink \<Rightarrow> qlink" where
  "SetMuEdcaTimer v l = l\<lparr>l_muEdcaTimer := v\<rparr>"

definition MuEdcaTimerRunning :: "time \<Rightarrow> qlink \<Rightarrow> bool" where
  "MuEdcaTimerRunning now l \<longleftrightarrow>
     l_muEdcaTimerStartTime l > 0 \<and> l_muEdcaTimer l > 0
     \<and> l_muEdcaTimerStartTime l + l_muEdcaTimer l > now"

definition EdcaDisabled :: "time \<Rightarrow> qlink \<Rightarrow> bool" where
  "EdcaDisabled now l \<longleftrightarrow> MuEdcaTimerRunning now l \<and> l_muAifsn l = 0"

text \<open>The second component is the duration of the call of \<^verbatim>\<open>DisableEdcaFor\<close>, if any.\<close>

definition StartMuEdcaTimerNow :: "time \<Rightarrow> qlink \<Rightarrow> qlink \<times> time option" where
  "StartMuEdcaTimerNow now l =
     (let l = l\<lparr>l_muEdcaTimerStartTime := now\<rparr>
      in (l, if EdcaDisabled now l then Some (l_muEdcaTimer l) else None))"

definition qos_GetMinCw :: "time \<Rightarrow> qlink \<Rightarrow> u32 option" where
  "qos_GetMinCw now l =
     (if \<not> MuEdcaTimerRunning now l then Some (l_cwMin l)
      else do { ns_assert (\<not> EdcaDisabled now l); Some (l_muCwMin l) })"

definition qos_GetMaxCw :: "time \<Rightarrow> qlink \<Rightarrow> u32 option" where
  "qos_GetMaxCw now l =
     (if \<not> MuEdcaTimerRunning now l then Some (l_cwMax l)
      else do { ns_assert (\<not> EdcaDisabled now l); Some (l_muCwMax l) })"

definition PEDCA_DSAIFS_REDUCTION :: u8 where
  "PEDCA_DSAIFS_REDUCTION = 1"

definition GetEdcaAifsn :: "time \<Rightarrow> qlink \<Rightarrow> u8" where
  "GetEdcaAifsn now l = (if \<not> MuEdcaTimerRunning now l then l_aifsn l else l_muAifsn l)"

definition GetAifsn :: "time \<Rightarrow> qlink \<Rightarrow> u8" where
  "GetAifsn now l =
     (let edcaAifsn = GetEdcaAifsn now l
      in if l_pedcaCtsPending l \<and> \<not> l_pedcaAfterCts l \<and> edcaAifsn > PEDCA_DSAIFS_REDUCTION
         then edcaAifsn - PEDCA_DSAIFS_REDUCTION
         else edcaAifsn)"

text \<open>The virtual getters bound to the operations of the base class.\<close>

definition qos_ResetCw :: "time \<Rightarrow> qlink \<Rightarrow> qlink option" where
  "qos_ResetCw now l = do { m \<leftarrow> qos_GetMinCw now l; Some (ResetCw m l) }"

text \<open>
  \<^verbatim>\<open>UpdateFailedCw\<close> evaluates \<^verbatim>\<open>GetMaxCw\<close> only in its first branch, but both getters
  fail together.
\<close>

definition qos_UpdateFailedCw :: "nat \<Rightarrow> time \<Rightarrow> qlink \<Rightarrow> qlink option" where
  "qos_UpdateFailedCw frameRetryLimit now l =
     do { minCw \<leftarrow> qos_GetMinCw now l; maxCw \<leftarrow> qos_GetMaxCw now l;
          UpdateFailedCw frameRetryLimit minCw maxCw l }"

section \<open>P-EDCA counters and flags\<close>

definition RecordPedcaSelection :: "qlink \<Rightarrow> qlink" where
  "RecordPedcaSelection l = l\<lparr>l_pedcaSelections := l_pedcaSelections l + 1\<rparr>"
definition RecordPedcaCtsAttempt :: "qlink \<Rightarrow> qlink" where
  "RecordPedcaCtsAttempt l = l\<lparr>l_pedcaCtsAttempts := l_pedcaCtsAttempts l + 1\<rparr>"
definition RecordPedcaSuccess :: "qlink \<Rightarrow> qlink" where
  "RecordPedcaSuccess l = l\<lparr>l_pedcaSuccesses := l_pedcaSuccesses l + 1\<rparr>"
definition RecordPedcaFailure :: "qlink \<Rightarrow> qlink" where
  "RecordPedcaFailure l = l\<lparr>l_pedcaFailures := l_pedcaFailures l + 1\<rparr>"
definition RecordPedcaReset :: "qlink \<Rightarrow> qlink" where
  "RecordPedcaReset l = l\<lparr>l_pedcaResets := l_pedcaResets l + 1\<rparr>"

definition IncrementPedcaTriggerCount :: "qos_cfg \<Rightarrow> qlink \<Rightarrow> qlink" where
  "IncrementPedcaTriggerCount cfg l =
     (let n = l_pedcaTriggerCount l + 1;
          l = l\<lparr>l_pedcaTriggerCount := n, l_pedcaMaxTriggerCount := max (l_pedcaMaxTriggerCount l) n\<rparr>
      in if n \<ge> m_qsrcThreshold cfg \<and> \<not> l_pedcaMode l
         then RecordPedcaSelection (l\<lparr>l_pedcaMode := True\<rparr>)
         else l)"

definition RecordPedcaEligibilityCheck :: "u32 \<Rightarrow> qlink \<Rightarrow> qlink" where
  "RecordPedcaEligibilityCheck triggerCount l =
     l\<lparr>l_pedcaEligibilityChecks := l_pedcaEligibilityChecks l + 1,
       l_pedcaMaxTriggerCount := max (l_pedcaMaxTriggerCount l) triggerCount\<rparr>"

definition MarkPedcaCtsPending :: "qlink \<Rightarrow> qlink" where
  "MarkPedcaCtsPending l = l\<lparr>l_pedcaCtsPending := True\<rparr>"

definition ConsumePedcaCtsPending :: "qlink \<Rightarrow> qlink \<times> bool" where
  "ConsumePedcaCtsPending l = (l\<lparr>l_pedcaCtsPending := False\<rparr>, l_pedcaCtsPending l)"

definition MarkPedcaResetOnNextTxop :: "qlink \<Rightarrow> qlink" where
  "MarkPedcaResetOnNextTxop l = l\<lparr>l_pedcaResetOnNextTxop := True\<rparr>"

definition ConsumePedcaResetOnNextTxop :: "qlink \<Rightarrow> qlink \<times> bool" where
  "ConsumePedcaResetOnNextTxop l = (l\<lparr>l_pedcaResetOnNextTxop := False\<rparr>, l_pedcaResetOnNextTxop l)"

definition ResetPedcaCounters :: "qlink \<Rightarrow> qlink" where
  "ResetPedcaCounters l =
     l\<lparr>l_staRetryCount := 0, l_psrc := 0, l_pedcaTriggerCount := 0, l_pedcaCtsPending := False,
       l_pedcaMode := False, l_pedcaAfterCts := False\<rparr>"

definition SetPedcaMode :: "bool \<Rightarrow> qlink \<Rightarrow> qlink" where
  "SetPedcaMode enabled l = l\<lparr>l_pedcaMode := enabled\<rparr>"

definition SetPedcaAfterCts :: "bool \<Rightarrow> qlink \<Rightarrow> qlink" where
  "SetPedcaAfterCts enabled l = l\<lparr>l_pedcaAfterCts := enabled\<rparr>"

definition IncrementPsrcCount :: "qlink \<Rightarrow> qlink" where
  "IncrementPsrcCount l = l\<lparr>l_psrc := l_psrc l + 1\<rparr>"

section \<open>Backoff\<close>

definition GenerateUhrVoBackoff :: "time \<Rightarrow> qlink \<Rightarrow> qlink" where
  "GenerateUhrVoBackoff now l =
     StartBackoffNow now 0 (RecordPedcaCtsAttempt (l\<lparr>l_pedcaCtsPending := True\<rparr>))"

definition isUhrVo :: "qos_cfg \<Rightarrow> mac_env \<Rightarrow> bool" where
  "isUhrVo cfg env \<longleftrightarrow> m_enableUhrPedca cfg \<and> m_ac cfg = AC_VO \<and> uhrPhy env"

definition nonPreferredLink :: "qos_cfg \<Rightarrow> mac_env \<Rightarrow> nat \<Rightarrow> bool" where
  "nonPreferredLink cfg env linkId \<longleftrightarrow>
     m_distributePedcaAcrossLinks cfg \<and> isSta env \<and> nLinks env > 1
     \<and> linkId \<noteq> (m_preferredPedcaLinkId cfg mod nLinks env) mod 256"

definition GenerateBackoff ::
  "qos_cfg \<Rightarrow> mac_env \<Rightarrow> nat \<Rightarrow> (u32 \<Rightarrow> u32) \<Rightarrow> time \<Rightarrow> qlink \<Rightarrow> qlink" where
  "GenerateBackoff cfg env linkId draw now l =
     (if isUhrVo cfg env
      then if nonPreferredLink cfg env linkId
           then txop_GenerateBackoff draw now
                  (l\<lparr>l_pedcaMode := False, l_pedcaAfterCts := False, l_pedcaCtsPending := False\<rparr>)
           else let triggerCount = l_pedcaTriggerCount l;
                    psrc = l_psrc l;
                    l = RecordPedcaEligibilityCheck triggerCount l
                in if triggerCount \<ge> m_qsrcThreshold cfg \<or> l_pedcaMode l
                   then if psrc = m_psrcThreshold cfg
                        then txop_GenerateBackoff draw now (ResetPedcaCounters (RecordPedcaReset l))
                        else let l = l\<lparr>l_pedcaMode := True\<rparr>
                             in if l_pedcaAfterCts l then txop_GenerateBackoff draw now l
                                else GenerateUhrVoBackoff now l
                   else txop_GenerateBackoff draw now
                          (l\<lparr>l_pedcaMode := False, l_pedcaAfterCts := False\<rparr>)
      else txop_GenerateBackoff draw now l)"

section \<open>The TXOP\<close>

definition NotifyChannelAccessed :: "time \<Rightarrow> time \<Rightarrow> qlink \<Rightarrow> qlink option" where
  "NotifyChannelAccessed now txopDuration l =
     do { ns_assert (txopDuration \<noteq> TimeMin);
          Some (txop_NotifyChannelAccessed (l\<lparr>l_startTxop := Some now, l_txopDuration := txopDuration\<rparr>)) }"

text \<open>
  \<^verbatim>\<open>queueEmpty\<close> is the state of the queue after expired MPDUs are removed,
  \<open>backoffOnNoTx\<close> the answer of \<^verbatim>\<open>GetGenerateBackoffOnNoTx\<close>.
\<close>

definition NotifyChannelReleased ::
  "(qlink \<Rightarrow> qlink) \<Rightarrow> bool \<Rightarrow> bool \<Rightarrow> time \<Rightarrow> qlink \<Rightarrow> qlink \<times> access_call list" where
  "NotifyChannelReleased generateBackoff queueEmpty backoffOnNoTx now l =
     (let hasTransmitted = (case l_startTxop l of None \<Rightarrow> False | Some t \<Rightarrow> now > t);
          (l, calls) = (if hasTransmitted \<or> (\<not> queueEmpty \<and> backoffOnNoTx)
                        then (generateBackoff l, if \<not> queueEmpty then [ScheduleRequestAccess] else [])
                        else (l, []))
      in (l\<lparr>l_startTxop := None, l_access := NOT_REQUESTED\<rparr>, calls))"

definition GetRemainingTxop :: "time \<Rightarrow> qlink \<Rightarrow> time option" where
  "GetRemainingTxop now l =
     do { start \<leftarrow> l_startTxop l;
          Some (let remainingTxop = l_txopDuration l - (now - start)
                in if remainingTxop < 0 then 0 else remainingTxop) }"

section \<open>The P-EDCA invariant\<close>

text \<open>
  A CTS-to-self is pending only in P-EDCA mode and while the retry budget is not used up; the
  contention that follows it is not also a CTS attempt; P-EDCA mode was entered after enough
  failures; the budget is never exceeded.
\<close>

definition pedca_ok :: "qos_cfg \<Rightarrow> qlink \<Rightarrow> bool" where
  "pedca_ok cfg l \<longleftrightarrow>
     (l_pedcaCtsPending l \<longrightarrow> l_pedcaMode l \<and> \<not> l_pedcaAfterCts l \<and> l_psrc l < m_psrcThreshold cfg)
     \<and> (l_pedcaAfterCts l \<longrightarrow> l_pedcaMode l)
     \<and> (l_pedcaMode l \<longrightarrow> m_qsrcThreshold cfg \<le> l_pedcaTriggerCount l)
     \<and> l_psrc l \<le> m_psrcThreshold cfg"

lemmas pedca_defs = txop_GenerateBackoff_def StartBackoffNow_def RecordPedcaEligibilityCheck_def
  RecordPedcaReset_def ResetPedcaCounters_def RecordPedcaCtsAttempt_def GenerateUhrVoBackoff_def

lemma pedca_ok_initial: "pedca_ok cfg QosLinkEntity"
  by (simp add: pedca_ok_def QosLinkEntity_def)

lemma pedca_ok_GenerateBackoff [inv_intros]:
  "pedca_ok cfg l \<Longrightarrow> pedca_ok cfg (GenerateBackoff cfg env i draw now l)"
  by (auto simp: pedca_ok_def GenerateBackoff_def pedca_defs Let_def)

lemma pedca_ok_Increment [inv_intros]:
  "pedca_ok cfg l \<Longrightarrow> l_pedcaMode l = False \<Longrightarrow> pedca_ok cfg (IncrementPedcaTriggerCount cfg l)"
  by (auto simp: pedca_ok_def IncrementPedcaTriggerCount_def RecordPedcaSelection_def Let_def)

lemma pedca_ok_Reset [inv_intros]: "pedca_ok cfg (ResetPedcaCounters l)"
  by (simp add: pedca_ok_def ResetPedcaCounters_def)

lemma pedca_ok_Record [inv_intros]:
  "pedca_ok cfg l \<Longrightarrow> pedca_ok cfg (RecordPedcaSuccess l)"
  "pedca_ok cfg l \<Longrightarrow> pedca_ok cfg (RecordPedcaFailure l)"
  "pedca_ok cfg l \<Longrightarrow> pedca_ok cfg (SetPedcaAfterCts False l)"
  by (auto simp: pedca_ok_def RecordPedcaSuccess_def RecordPedcaFailure_def SetPedcaAfterCts_def)

lemma pedca_ok_Consume [inv_intros]:
  "pedca_ok cfg l \<Longrightarrow> pedca_ok cfg (fst (ConsumePedcaCtsPending l))"
  by (auto simp: pedca_ok_def ConsumePedcaCtsPending_def)

text \<open>The CTS-to-self itself: pending consumed, budget charged, contention after it started.\<close>

lemma psrc_step: "l_psrc l < (n :: u32) \<Longrightarrow> l_psrc l + 1 \<le> n"
  by (simp add: inc_le)

lemma pedca_ok_Cts [inv_intros]:
  "pedca_ok cfg l \<Longrightarrow> l_pedcaCtsPending l \<Longrightarrow>
     pedca_ok cfg (SetPedcaAfterCts True (IncrementPsrcCount (fst (ConsumePedcaCtsPending l))))"
  by (auto simp: pedca_ok_def ConsumePedcaCtsPending_def IncrementPsrcCount_def SetPedcaAfterCts_def
      psrc_step)

lemma pedca_ok_cong:
  assumes "l_pedcaCtsPending l' = l_pedcaCtsPending l" "l_pedcaMode l' = l_pedcaMode l"
    "l_pedcaAfterCts l' = l_pedcaAfterCts l" "l_psrc l' = l_psrc l"
    "l_pedcaTriggerCount l' = l_pedcaTriggerCount l"
  shows "pedca_ok cfg l' \<longleftrightarrow> pedca_ok cfg l"
  by (simp add: pedca_ok_def assms)

section \<open>Properties\<close>

definition ex_qcfg :: qos_cfg where
  "ex_qcfg = \<lparr>m_ac = AC_VO, m_enableUhrPedca = True, m_distributePedcaAcrossLinks = False,
     m_preferredPedcaLinkId = 0, m_qsrcThreshold = 2, m_psrcThreshold = 2,
     m_randomTxopLimitEnabled = True, m_randomTxopLimitMin = 1500000, m_randomTxopLimitMax = 5000000\<rparr>"

definition ex_env :: mac_env where
  "ex_env = \<lparr>uhrPhy = True, isSta = True, nLinks = 1\<rparr>"

definition ex_qlink :: qlink where
  "ex_qlink = QosLinkEntity\<lparr>l_cw := 7, l_cwMin := 3, l_cwMax := 7, l_aifsn := 2,
     l_pedcaTriggerCount := 2\<rparr>"

lemmas ex_defs = ex_qcfg_def ex_env_def ex_qlink_def QosLinkEntity_def

text \<open>
  The AIFSN that the channel access manager sees is the EDCA one, shortened by one
  for a pending CTS-to-self and never below one by it.
\<close>

lemma dsaifs_is_one_slot_shorter:
  assumes "pedca_ok cfg l"
  shows "unat (GetAifsn now l) =
    (if l_pedcaCtsPending l \<and> 1 < unat (GetEdcaAifsn now l) then unat (GetEdcaAifsn now l) - 1
     else unat (GetEdcaAifsn now l))"
proof -
  have "unat (a - 1) = unat a - 1" if "1 < (a :: u8)" for a
    using that by (simp add: unat_sub word_less_def word_le_def less_imp_le)
  with assms show ?thesis
    by (auto simp: GetAifsn_def pedca_ok_def PEDCA_DSAIFS_REDUCTION_def Let_def word_less_nat_alt)
qed

lemma dsaifs_is_one_slot_shorter_witness:
  "unat (GetAifsn 0 (ex_qlink\<lparr>l_pedcaMode := True, l_pedcaCtsPending := True\<rparr>)) = 1"
proof -
  have "pedca_ok ex_qcfg (ex_qlink\<lparr>l_pedcaMode := True, l_pedcaCtsPending := True\<rparr>)"
    by (simp add: pedca_ok_def ex_defs)
  from dsaifs_is_one_slot_shorter [OF this, of 0] show ?thesis
    by (simp add: GetEdcaAifsn_def MuEdcaTimerRunning_def ex_defs)
qed

text \<open>
  The Queue Size subfield counts units of 256 octets, rounded up, and 254 stands
  for every buffer of more than 64768 octets.
\<close>

lemma queue_size_subfield:
  shows "(b \<le> 64768 \<longrightarrow> b \<le> 256 * GetQosQueueSize_of b \<and> 256 * GetQosQueueSize_of b < b + 256
            \<and> GetQosQueueSize_of b \<le> 253)
    \<and> (64768 < b \<longrightarrow> GetQosQueueSize_of b = 254)"
proof -
  have "(b + 255) div 256 < 256" if "b \<le> 64768" using that by linarith
  then show ?thesis
    by (auto simp: GetQosQueueSize_of_def min_def)
qed

lemma queue_size_subfield_witness:
  "GetQosQueueSize_of 64769 = 254 \<and> GetQosQueueSize_of 257 \<le> 253"
  using queue_size_subfield [of 64769] queue_size_subfield [of 257] by simp

lemma GetMicroSeconds_pos: "0 \<le> t \<Longrightarrow> GetMicroSeconds t = t div 1000"
  by (simp add: GetMicroSeconds_def signed_divide_int_def sgn_if)

lemma to_u64_sdiv32:
  assumes "0 \<le> x" "x < 2 ^ 64"
  shows "to_u64 (x sdiv 32) = x div 32"
proof -
  have "0 \<le> x div 32" "x div 32 < 2 ^ 64" using assms by simp_all
  then show ?thesis using assms by (simp add: to_u64_def signed_divide_int_def sgn_if)
qed

lemma UpdateRandomTxopLimit_ticks:
  assumes "m_randomTxopLimitEnabled cfg" "0 \<le> lo" "lo \<le> hi" "hi < 2 ^ 63"
    "{m_randomTxopLimitMin cfg, m_randomTxopLimitMax cfg} = {lo, hi}"
    "mn = max 1 ((lo div 1000 + 31) div 32)" "mx = max mn (hi div 1000 div 32)"
  shows "UpdateRandomTxopLimit cfg sample l = SetTxopLimit (1000 * (sample mn mx * 32)) l"
proof -
  have pos: "0 \<le> lo div 1000" "lo div 1000 \<le> hi div 1000" "hi div 1000 < 2 ^ 63"
    using assms(2-4) by (auto intro: zdiv_mono1)
  then have d: "to_u64 ((lo div 1000 + 31) sdiv 32) = (lo div 1000 + 31) div 32"
      "to_u64 (hi div 1000 sdiv 32) = hi div 1000 div 32"
    by (simp_all add: to_u64_sdiv32)
  have g: "GetMicroSeconds lo = lo div 1000" "GetMicroSeconds hi = hi div 1000"
    using assms(2,3) by (simp_all add: GetMicroSeconds_pos)
  consider "m_randomTxopLimitMin cfg = lo" "m_randomTxopLimitMax cfg = hi"
    | "m_randomTxopLimitMin cfg = hi" "m_randomTxopLimitMax cfg = lo"
    using assms(5) by (auto simp: doubleton_eq_iff)
  then show ?thesis
  proof cases
    case 1
    then show ?thesis
      using assms(1) pos(2) by (simp add: UpdateRandomTxopLimit_def g d assms(6,7) Let_def)
  next
    case 2
    have sw: "(if lo div 1000 < hi div 1000 then (lo div 1000, hi div 1000) else (hi div 1000, lo div 1000))
        = (lo div 1000, hi div 1000)"
      using pos(2) by auto
    from 2 show ?thesis
      using assms(1) by (simp only: UpdateRandomTxopLimit_def g d assms(6,7) Let_def sw) (simp add: d)
  qed
qed

text \<open>
  a random TXOP limit is drawn without failing an assertion, is a multiple of 32
  microseconds, and lies between the two configured bounds, whichever way round they are given,
  when a multiple of 32 microseconds does.
\<close>

theorem random_txop_limit_in_range:
  assumes "m_randomTxopLimitEnabled cfg" "0 \<le> lo" "lo \<le> hi" "hi < 2 ^ 63"
    "{m_randomTxopLimitMin cfg, m_randomTxopLimitMax cfg} = {lo, hi}"
    "\<And>a b. a \<le> b \<Longrightarrow> a \<le> sample a b \<and> sample a b \<le> b"
    "lo div 1000 \<le> 32 * k" "32 * k \<le> hi div 1000" "1 \<le> k"
  shows "\<exists>n. UpdateRandomTxopLimit cfg sample l = Some (l\<lparr>l_txopLimit := 32000 * n\<rparr>)
    \<and> 1 \<le> n \<and> lo div 1000 \<le> 32 * n \<and> 32 * n \<le> hi div 1000"
proof -
  define mn where "mn = max 1 ((lo div 1000 + 31) div 32)"
  define mx where "mx = max mn (hi div 1000 div 32)"
  define n where "n = sample mn mx"
  have "(lo div 1000 + 31) div 32 \<le> k" using assms(7) by linarith
  then have "mn \<le> k" using assms(9) by (simp add: mn_def)
  moreover have "k \<le> hi div 1000 div 32" using assms(8) by linarith
  ultimately have "mx = hi div 1000 div 32" by (simp add: mx_def)
  moreover have "mn \<le> n" "n \<le> mx" using assms(6) [of mn mx] by (simp_all add: n_def mx_def)
  moreover have "1 \<le> mn" "(lo div 1000 + 31) div 32 \<le> mn" by (simp_all add: mn_def)
  ultimately have b: "1 \<le> n" "(lo div 1000 + 31) div 32 \<le> n" "n \<le> hi div 1000 div 32" by linarith+
  then have "lo div 1000 \<le> 32 * n" "32 * n \<le> hi div 1000" by linarith+
  moreover have "UpdateRandomTxopLimit cfg sample l = Some (l\<lparr>l_txopLimit := 32000 * n\<rparr>)"
    using b(1) by (simp add: UpdateRandomTxopLimit_ticks [OF assms(1-5) mn_def mx_def] n_def SetTxopLimit_def)
  ultimately show ?thesis using b(1) by blast
qed

theorem random_txop_limit_in_range_witness:
  "\<exists>n. UpdateRandomTxopLimit ex_qcfg (\<lambda>a b. a) ex_qlink = Some (ex_qlink\<lparr>l_txopLimit := 32000 * n\<rparr>)
     \<and> 1500 \<le> 32 * n \<and> 32 * n \<le> 5000"
  using random_txop_limit_in_range [of ex_qcfg 1500000 5000000 "\<lambda>a b. a" 50 ex_qlink]
  by (auto simp: ex_qcfg_def)

text \<open>
  the remaining TXOP is never negative nor more than the duration the TXOP was
  given, and it is zero exactly when that time has passed since its start.
\<close>

theorem remaining_txop_bounds:
  assumes "NotifyChannelAccessed start d l = Some l'" "0 \<le> d" "start \<le> now"
  shows "\<exists>r. GetRemainingTxop now l' = Some r \<and> 0 \<le> r \<and> r \<le> d \<and> (r = 0 \<longleftrightarrow> d \<le> now - start)"
  using assms by (auto simp: NotifyChannelAccessed_def GetRemainingTxop_def txop_NotifyChannelAccessed_def)

theorem remaining_txop_bounds_witness:
  "\<exists>l' r. NotifyChannelAccessed 10 1000 ex_qlink = Some l' \<and> GetRemainingTxop 400 l' = Some r \<and> r \<noteq> 0"
proof -
  obtain l' where l': "NotifyChannelAccessed 10 1000 ex_qlink = Some l'"
    by (simp add: NotifyChannelAccessed_def TimeMin_def)
  from remaining_txop_bounds [OF this, of 400] l' show ?thesis by auto
qed

end
