(* ===== verification/Channel_Access.thy ===== *)
theory Channel_Access
  imports Qos_Txop
begin

text \<open>
  \<^verbatim>\<open>src/wifi/model/channel-access-manager.cc\<close>: what a link knows about its medium
  (receptions, transmissions, CCA, NAV, timeouts, PHY states), the countdown of the backoff
  counters of the channel access functions that contend for it, and the grant of access.

  \<^item> The members of \<^verbatim>\<open>ChannelAccessManager\<close> are the record \<open>cam\<close>.  The \<^verbatim>\<open>Txop\<close>
    objects it manages, with their state on this link, are a list of \<open>edcaf\<close>: the pointer to
    a \<^verbatim>\<open>Txop\<close> is its position in that list.
  \<^item> The active PHY is \<open>m_phy\<close>: a view of what the manager asks of it.
  \<^item> What an operation reads from its surroundings (the time, the queues, the random draws) is
    the record \<open>world\<close>; the calls it makes to other objects are a list of \<open>cam_call\<close>.
  \<^item> A missing key for \<^verbatim>\<open>at\<close>, a null PHY that is dereferenced, a failed assertion
    and a division by a zero slot time stop the model.
\<close>

section \<open>State\<close>

record timespan =
  ts_start :: time
  ts_end :: time

text \<open>The order of the enum values is the order in which the channels are scanned.\<close>

datatype chanlist = PRIMARY | SECONDARY | SECONDARY40 | SECONDARY80 | SECONDARY160

primrec chan_index :: "chanlist \<Rightarrow> nat" where
  "chan_index PRIMARY = 0"
| "chan_index SECONDARY = 1"
| "chan_index SECONDARY40 = 2"
| "chan_index SECONDARY80 = 3"
| "chan_index SECONDARY160 = 4"

instantiation chanlist :: linorder
begin

definition less_eq_chanlist :: "chanlist \<Rightarrow> chanlist \<Rightarrow> bool" where
  "less_eq_chanlist a b \<longleftrightarrow> chan_index a \<le> chan_index b"

definition less_chanlist :: "chanlist \<Rightarrow> chanlist \<Rightarrow> bool" where
  "less_chanlist a b \<longleftrightarrow> chan_index a < chan_index b"

instance
proof
  fix a b :: chanlist
  show "a \<le> b \<Longrightarrow> b \<le> a \<Longrightarrow> a = b"
    by (cases a; cases b) (simp_all add: less_eq_chanlist_def)
qed (auto simp: less_eq_chanlist_def less_chanlist_def)

end

datatype access_reason =
    ACCESS_EXPECTED | R_NOT_REQUESTED | NOTHING_TO_TX | RX_END | BUSY_END | TX_END | NAV_END
  | ACK_TIMER_END | CTS_TIMER_END | SWITCHING_END | NO_PHY_END | SLEEP_END | OFF_END | BACKOFF_END

text \<open>
  \<open>phy_ax\<close>: the standard is 802.11ax or later; \<open>phy_24\<close>: the 2.4 GHz band;
  \<open>phy_channel\<close> stands for the operating channel, compared for equality only.
\<close>

record phy =
  phy_id :: nat
  phy_slot :: time
  phy_sifs :: time
  phy_pifs :: time
  phy_width :: nat
  phy_ofdm :: bool
  phy_ax :: bool
  phy_24 :: bool
  phy_sleep :: bool
  phy_off :: bool
  phy_channel :: nat

text \<open>
  A \<^verbatim>\<open>Txop\<close> that is not a \<^verbatim>\<open>QosTxop\<close> has a \<^verbatim>\<open>LinkEntity\<close> and
  uses only the fields of \<open>link\<close>.
\<close>

record edcaf =
  e_qos :: bool
  e_cfg :: qos_cfg
  e_link :: qlink

record cam =
  m_txops :: "edcaf list"
  m_lastAckTimeoutEnd :: time
  m_lastCtsTimeoutEnd :: time
  m_lastNavEnd :: time
  m_lastRx :: timespan
  m_lastRxReceivedOk :: bool
  m_lastTxEnd :: time
  m_lastBusyEnd :: "(chanlist, time) omap"
  m_lastPer20MHzBusyEnd :: "time list"
  m_lastIdle :: "(chanlist, timespan) omap"
  m_lastSwitchingEnd :: time
  m_lastSleep :: timespan
  m_lastOff :: timespan
  m_eifsNoDifs :: time
  m_lastNoPhy :: timespan
  m_cachedSifs :: time
  m_cachedSlot :: time
  m_accessTimeout :: "time option"
  m_generateBackoffOnNoTx :: bool
  m_proactiveBackoff :: bool
  m_resetBackoffThreshold :: time
  m_switchingEmlsrLinks :: "nat \<rightharpoonup> nat \<times> nat"
  m_phyListeners :: "nat \<rightharpoonup> bool"
  m_phy :: "phy option"
  m_nSlotsLeft :: nat
  m_nSlotsLeftMinDelay :: time

text \<open>
  The time, which channel access functions have frames to transmit, their random draws, what
  they ask of the MAC, and the identifier of the link.
\<close>

record world =
  w_now :: time
  w_hasFrames :: "nat \<Rightarrow> bool"
  w_draw :: "nat \<Rightarrow> u32 \<Rightarrow> u32"
  w_mac :: mac_env
  w_linkId :: nat

datatype cam_call =
    PhyAccessRequested | PhyRegister nat | PhyUnregister nat
  | NSlotsLeftAlert ac_index time
  | StartTx nat nat | InternalCollision nat
  | FemSwitchingStart time | FemSleep | FemOff | FemSwitchingEmlsrLink nat nat time

section \<open>The channel access functions\<close>

text \<open>Virtual functions: \<^verbatim>\<open>QosTxop\<close> overrides them.\<close>

definition e_aifsn :: "time \<Rightarrow> edcaf \<Rightarrow> u8" where
  "e_aifsn now e = (if e_qos e then GetAifsn now (e_link e) else l_aifsn (e_link e))"

definition e_GenerateBackoff :: "world \<Rightarrow> nat \<Rightarrow> edcaf \<Rightarrow> edcaf" where
  "e_GenerateBackoff w i e =
     e\<lparr>e_link := if e_qos e then GenerateBackoff (e_cfg e) (w_mac w) (w_linkId w) (w_draw w i) (w_now w) (e_link e)
                 else txop_GenerateBackoff (w_draw w i) (w_now w) (e_link e)\<rparr>"

definition e_GetMinCw :: "time \<Rightarrow> edcaf \<Rightarrow> u32 option" where
  "e_GetMinCw now e = (if e_qos e then qos_GetMinCw now (e_link e) else Some (l_cwMin (e_link e)))"

definition e_UpdateBackoffSlotsNow :: "u32 \<Rightarrow> time \<Rightarrow> edcaf \<Rightarrow> edcaf" where
  "e_UpdateBackoffSlotsNow n bound e = e\<lparr>e_link := UpdateBackoffSlotsNow n bound (e_link e)\<rparr>"

text \<open>Read and change the channel access function at a position.\<close>

definition get_txop :: "nat \<Rightarrow> 'z cam_scheme \<Rightarrow> edcaf option" where
  "get_txop i c = (if i < length (m_txops c) then Some (m_txops c ! i) else None)"

definition on_txop :: "nat \<Rightarrow> (edcaf \<Rightarrow> edcaf) \<Rightarrow> 'z cam_scheme \<Rightarrow> 'z cam_scheme" where
  "on_txop i f c = c\<lparr>m_txops := (m_txops c)[i := f (m_txops c ! i)]\<rparr>"

fun map_opt :: "('a \<Rightarrow> 'b option) \<Rightarrow> 'a list \<Rightarrow> 'b list option" where
  "map_opt f [] = Some []"
| "map_opt f (x # xs) = do { y \<leftarrow> f x; ys \<leftarrow> map_opt f xs; Some (y # ys) }"

section \<open>PHY\<close>

text \<open>
  The cached values are those of the last call with a PHY; the calls that refresh them before a
  PHY leaves are in \<^verbatim>\<open>RemovePhyListener\<close>.
\<close>

definition GetSlot :: "'z cam_scheme \<Rightarrow> time" where
  "GetSlot c = (case m_phy c of Some p \<Rightarrow> phy_slot p | None \<Rightarrow> m_cachedSlot c)"

definition GetSifs :: "'z cam_scheme \<Rightarrow> time" where
  "GetSifs c = (case m_phy c of Some p \<Rightarrow> phy_sifs p | None \<Rightarrow> m_cachedSifs c)"

definition phy_asleep :: "'z cam_scheme \<Rightarrow> bool" where
  "phy_asleep c \<longleftrightarrow> (case m_phy c of None \<Rightarrow> True | Some p \<Rightarrow> phy_sleep p \<or> phy_off p)"

definition Count20MHzSubchannels :: "nat \<Rightarrow> nat option" where
  "Count20MHzSubchannels width = do { ns_assert (width mod 20 = 0); Some (width div 20) }"

text \<open>\<^verbatim>\<open>resize\<close> of a vector: cut, or filled up with a value.\<close>

definition vec_resize :: "nat \<Rightarrow> 'a \<Rightarrow> 'a list \<Rightarrow> 'a list" where
  "vec_resize n v xs = take n xs @ replicate (n - length xs) v"

definition keep_chan :: "bool \<Rightarrow> chanlist \<Rightarrow> time \<Rightarrow> 'z cam_scheme \<Rightarrow> 'z cam_scheme" where
  "keep_chan present ch now c =
     (if present
      then c\<lparr>m_lastBusyEnd := omap_emplace ch now (m_lastBusyEnd c),
             m_lastIdle := omap_emplace ch \<lparr>ts_start = now, ts_end = now\<rparr> (m_lastIdle c)\<rparr>
      else c\<lparr>m_lastBusyEnd := omap_erase ch (m_lastBusyEnd c),
             m_lastIdle := omap_erase ch (m_lastIdle c)\<rparr>)"

definition ResizeLastBusyStructs :: "time \<Rightarrow> 'z cam_scheme \<Rightarrow> 'z cam_scheme option" where
  "ResizeLastBusyStructs now c =
     (let c = keep_chan True PRIMARY now c;
          width = (case m_phy c of Some p \<Rightarrow> phy_width p | None \<Rightarrow> 0)
      in do {
        size \<leftarrow> (case m_phy c of
                   Some p \<Rightarrow> if width > 20 \<and> phy_ax p then Count20MHzSubchannels width else Some 0
                 | None \<Rightarrow> Some 0);
        let c = c\<lparr>m_lastPer20MHzBusyEnd := vec_resize size now (m_lastPer20MHzBusyEnd c)\<rparr>;
        (case m_phy c of
           None \<Rightarrow> Some c
         | Some p \<Rightarrow>
             if \<not> phy_ofdm p then Some c
             else Some (keep_chan (width \<ge> 320) SECONDARY160 now
                         (keep_chan (width \<ge> 160) SECONDARY80 now
                           (keep_chan (width \<ge> 80) SECONDARY40 now
                             (keep_chan (width \<ge> 40) SECONDARY now c))))) })"

definition InitLastBusyStructs :: "time \<Rightarrow> 'z cam_scheme \<Rightarrow> 'z cam_scheme option" where
  "InitLastBusyStructs now c =
     do { c \<leftarrow> ResizeLastBusyStructs now c;
          Some (c\<lparr>m_lastBusyEnd := map (\<lambda>(ch, _). (ch, now)) (m_lastBusyEnd c),
                  m_lastIdle := map (\<lambda>(ch, _). (ch, \<lparr>ts_start = now, ts_end = now\<rparr>)) (m_lastIdle c),
                  m_lastPer20MHzBusyEnd := map (\<lambda>_. now) (m_lastPer20MHzBusyEnd c)\<rparr>) }"

section \<open>When access can be granted\<close>

definition IsBusy :: "time \<Rightarrow> 'z cam_scheme \<Rightarrow> bool option" where
  "IsBusy now c =
     (if ts_end (m_lastRx c) > now \<or> m_lastTxEnd c > now \<or> m_lastNavEnd c > now then Some True
      else do { t \<leftarrow> omap_get (m_lastBusyEnd c) PRIMARY; Some (t > now) })"

text \<open>
  The \<^verbatim>\<open>multimap\<close> from times to reasons is the list of its entries in iteration order:
  increasing times, and the order of insertion for equal times.
\<close>

definition span_end :: "time \<Rightarrow> timespan \<Rightarrow> time" where
  "span_end now s = (if ts_start s > ts_end s then now else ts_end s)"

definition rx_access_start :: "time \<Rightarrow> 'z cam_scheme \<Rightarrow> time" where
  "rx_access_start now c =
     ts_end (m_lastRx c)
       + (if ts_end (m_lastRx c) \<le> now \<and> \<not> m_lastRxReceivedOk c then m_eifsNoDifs c else 0)"

definition DoGetAccessGrantStart :: "bool \<Rightarrow> time \<Rightarrow> 'z cam_scheme \<Rightarrow> (time \<times> access_reason) list option" where
  "DoGetAccessGrantStart ignoreNav now c =
     do { busyAccessStart \<leftarrow> omap_get (m_lastBusyEnd c) PRIMARY;
          Some (sort_key fst
            [(busyAccessStart, BUSY_END),
             (rx_access_start now c, RX_END),
             (m_lastTxEnd c, TX_END),
             (if ignoreNav then 0 else m_lastNavEnd c, NAV_END),
             (m_lastAckTimeoutEnd c, ACK_TIMER_END),
             (m_lastCtsTimeoutEnd c, CTS_TIMER_END),
             (m_lastSwitchingEnd c, SWITCHING_END),
             (if m_phy c \<noteq> None then ts_end (m_lastNoPhy c) else now, NO_PHY_END),
             (span_end now (m_lastSleep c), SLEEP_END),
             (span_end now (m_lastOff c), OFF_END)]) }"

definition GetAccessGrantStart :: "bool \<Rightarrow> time \<Rightarrow> 'z cam_scheme \<Rightarrow> time option" where
  "GetAccessGrantStart ignoreNav now c =
     do { m \<leftarrow> DoGetAccessGrantStart ignoreNav now c;
          ns_assert (m \<noteq> []);
          Some (fst (last m) + GetSifs c) }"

definition GetBackoffStartFor :: "time \<Rightarrow> time \<Rightarrow> edcaf \<Rightarrow> time \<Rightarrow> time" where
  "GetBackoffStartFor now slot e accessGrantStart =
     max (l_backoffStart (e_link e)) (accessGrantStart + uint (e_aifsn now e) * slot)"

definition GetBackoffEndFor :: "time \<Rightarrow> time \<Rightarrow> edcaf \<Rightarrow> time \<Rightarrow> time" where
  "GetBackoffEndFor now slot e accessGrantStart =
     GetBackoffStartFor now slot e accessGrantStart + uint (l_backoffSlots (e_link e)) * slot"

fun expected_from ::
  "world \<Rightarrow> time \<Rightarrow> time \<Rightarrow> time \<Rightarrow> (nat \<times> edcaf) list \<Rightarrow> access_reason \<Rightarrow> access_reason" where
  "expected_from w deadline slot ags [] reason = reason"
| "expected_from w deadline slot ags ((i, e) # es) reason =
     (if l_access (e_link e) \<noteq> REQUESTED then expected_from w deadline slot ags es reason
      else if \<not> w_hasFrames w i
      then expected_from w deadline slot ags es
             (if reason \<noteq> BACKOFF_END then NOTHING_TO_TX else reason)
      else let backoffEnd = GetBackoffEndFor (w_now w) slot e ags
           in if backoffEnd \<ge> w_now w \<and> backoffEnd \<le> deadline then ACCESS_EXPECTED
              else expected_from w deadline slot ags es BACKOFF_END)"

definition GetExpectedAccessWithin :: "world \<Rightarrow> time \<Rightarrow> 'z cam_scheme \<Rightarrow> access_reason option" where
  "GetExpectedAccessWithin w delay c =
     do { let deadline = w_now w + delay;
          m \<leftarrow> DoGetAccessGrantStart False (w_now w) c;
          ns_assert (m \<noteq> []);
          let accessGrantStart = fst (last m);
          if accessGrantStart \<ge> deadline
          then map_option snd (find (\<lambda>(t, _). t \<ge> deadline) m)
          else Some (expected_from w deadline (GetSlot c) (accessGrantStart + GetSifs c)
                      (enumerate 0 (m_txops c)) R_NOT_REQUESTED) }"

section \<open>Counting down\<close>

text \<open>
  One channel access function: \<open>nIntSlots\<close> is 32 bits wide.  A QoS function counts one slot
  more, the one at the end of its AIFS.
\<close>

definition dec_backoff :: "time \<Rightarrow> time \<Rightarrow> time \<Rightarrow> edcaf \<Rightarrow> edcaf option" where
  "dec_backoff now slot accessGrantStart e =
     (let backoffStart = GetBackoffStartFor now slot e accessGrantStart
      in if backoffStart \<le> now
         then do { ns_assert (slot \<noteq> 0);
                   let nIntSlots = (of_int ((now - backoffStart) div slot) :: u32);
                   let nIntSlots = (if e_qos e then nIntSlots + 1 else nIntSlots);
                   let n = min nIntSlots (l_backoffSlots (e_link e));
                   Some (e_UpdateBackoffSlotsNow n (backoffStart + uint n * slot) e) }
         else Some e)"

definition UpdateBackoff :: "time \<Rightarrow> 'z cam_scheme \<Rightarrow> 'z cam_scheme option" where
  "UpdateBackoff now c =
     do { accessGrantStart \<leftarrow> GetAccessGrantStart False now c;
          txops \<leftarrow> map_opt (dec_backoff now (GetSlot c) accessGrantStart) (m_txops c);
          Some (c\<lparr>m_txops := txops\<rparr>) }"

fun idle_entries :: "time \<Rightarrow> time \<Rightarrow> (chanlist, time) omap \<Rightarrow> (chanlist, timespan) omap \<Rightarrow>
     (chanlist, timespan) omap option" where
  "idle_entries idleStart now [] idle = Some idle"
| "idle_entries idleStart now ((ch, busyEnd) # busy) idle =
     (if busyEnd < now
      then do { _ \<leftarrow> omap_get idle ch;
                idle_entries idleStart now busy
                  (omap_put ch \<lparr>ts_start = max idleStart busyEnd, ts_end = now\<rparr> idle) }
      else idle_entries idleStart now busy idle)"

definition idle_since :: "'z cam_scheme \<Rightarrow> time" where
  "idle_since c =
     Max {m_lastTxEnd c, ts_end (m_lastRx c), m_lastSwitchingEnd c, ts_end (m_lastNoPhy c),
          ts_end (m_lastSleep c), ts_end (m_lastOff c)}"

definition UpdateLastIdlePeriod :: "time \<Rightarrow> 'z cam_scheme \<Rightarrow> 'z cam_scheme option" where
  "UpdateLastIdlePeriod now c =
     (if idle_since c \<ge> now then Some c
      else do { idle \<leftarrow> idle_entries (idle_since c) now (m_lastBusyEnd c) (m_lastIdle c);
                Some (c\<lparr>m_lastIdle := idle\<rparr>) })"

text \<open>The width, in MHz, of the idle channels scanned from the primary one.\<close>

fun idle_width :: "time \<Rightarrow> time \<Rightarrow> (chanlist, timespan) omap \<Rightarrow> nat \<Rightarrow> nat" where
  "idle_width interval stop [] width = width"
| "idle_width interval stop ((ch, s) # idle) width =
     (if ts_start s \<le> stop - interval \<and> ts_end s \<ge> stop
      then idle_width interval stop idle (if width = 0 then 20 else 2 * width)
      else width)"

definition GetLargestIdlePrimaryChannel :: "time \<Rightarrow> time \<Rightarrow> time \<Rightarrow> 'z cam_scheme \<Rightarrow> ('z cam_scheme \<times> nat) option" where
  "GetLargestIdlePrimaryChannel now interval stop c =
     do { c \<leftarrow> UpdateLastIdlePeriod now c;
          Some (c, idle_width interval stop (m_lastIdle c) 0) }"

definition GetPer20MHzBusy :: "time \<Rightarrow> nat list \<Rightarrow> 'z cam_scheme \<Rightarrow> bool option" where
  "GetPer20MHzBusy now indices c =
     do { p \<leftarrow> m_phy c;
          if phy_width p < 40
          then do { ns_assert (indices = [0]);
                    t \<leftarrow> omap_get (m_lastBusyEnd c) PRIMARY; Some (t > now) }
          else fold (\<lambda>index r. do { busy \<leftarrow> r;
                 if busy then Some True
                 else do { ns_assert (index < length (m_lastPer20MHzBusyEnd c));
                           Some (m_lastPer20MHzBusyEnd c ! index > now) } }) indices (Some False) }"

section \<open>The access timeout\<close>

definition MaximumSimulationTime :: time where
  "MaximumSimulationTime = 2 ^ 63 - 1"

text \<open>The function whose backoff ends first, after now, among those that requested access.\<close>

fun next_txop ::
  "time \<Rightarrow> time \<Rightarrow> time \<Rightarrow> edcaf list \<Rightarrow> edcaf option \<Rightarrow> time \<Rightarrow> edcaf option \<times> time" where
  "next_txop now slot ags [] best expected = (best, expected)"
| "next_txop now slot ags (e # es) best expected =
     (if l_access (e_link e) = REQUESTED
         \<and> GetBackoffEndFor now slot e ags > now \<and> GetBackoffEndFor now slot e ags < expected
      then next_txop now slot ags es (Some e) (GetBackoffEndFor now slot e ags)
      else next_txop now slot ags es best expected)"

text \<open>\<open>m_accessTimeout\<close> is the time a pending timeout expires at.\<close>

definition DoRestartAccessTimeoutIfNeeded :: "time \<Rightarrow> 'z cam_scheme \<Rightarrow> ('z cam_scheme \<times> cam_call list) option" where
  "DoRestartAccessTimeoutIfNeeded now c =
     do { ags \<leftarrow> GetAccessGrantStart False now c;
          case next_txop now (GetSlot c) ags (m_txops c) None MaximumSimulationTime of
            (None, _) \<Rightarrow> Some (c, [])
          | (Some e, expectedBackoffEnd) \<Rightarrow>
              let notify = max (expectedBackoffEnd - int (m_nSlotsLeft c) * GetSlot c)
                               (ags - GetSifs c + m_nSlotsLeftMinDelay c);
                  (expectedBackoffDelay, calls) =
                    (if m_nSlotsLeft c > 0
                     then if notify > now then (notify - now, [])
                          else (expectedBackoffEnd - now,
                                [NSlotsLeftAlert (m_ac (e_cfg e)) (expectedBackoffEnd - now)])
                     else (expectedBackoffEnd - now, []));
                  pending = (case m_accessTimeout c of
                               Some t \<Rightarrow> if t - now > expectedBackoffDelay then None else Some t
                             | None \<Rightarrow> None)
              in Some (c\<lparr>m_accessTimeout := (case pending of Some t \<Rightarrow> Some t
                           | None \<Rightarrow> Some (now + expectedBackoffDelay))\<rparr>, calls) }"

section \<open>Granting access\<close>

text \<open>
  \<open>startTx\<close> stands for \<^verbatim>\<open>FrameExchangeManager::StartTransmission\<close> and
  \<open>collide\<close> for \<^verbatim>\<open>NotifyInternalCollision\<close>.  The iterators are positions: after a
  failed attempt the loop goes on with the next one, in the state the attempt left.
\<close>

definition can_access :: "time \<Rightarrow> time \<Rightarrow> 'z cam_scheme \<Rightarrow> nat \<Rightarrow> bool" where
  "can_access now ags c i \<longleftrightarrow>
     i < length (m_txops c)
     \<and> (let e = m_txops c ! i
        in l_access (e_link e) = REQUESTED \<and> GetBackoffEndFor now (GetSlot c) e ags \<le> now)"

definition edca_disabled :: "time \<Rightarrow> 'z cam_scheme \<Rightarrow> nat \<Rightarrow> bool" where
  "edca_disabled now c i \<longleftrightarrow> e_qos (m_txops c ! i) \<and> EdcaDisabled now (e_link (m_txops c ! i))"

definition access_width :: "time \<Rightarrow> 'z cam_scheme \<Rightarrow> ('z cam_scheme \<times> nat) option" where
  "access_width now c =
     do { p \<leftarrow> m_phy c;
          let interval = (if phy_24 p then GetSifs c + 2 * GetSlot c else phy_pifs p);
          if phy_ofdm p \<and> phy_width p > 20
          then GetLargestIdlePrimaryChannel now interval now c
          else Some (c, phy_width p) }"

fun collisions :: "(nat \<Rightarrow> 'z cam_scheme \<Rightarrow> 'z cam_scheme option) \<Rightarrow> nat list \<Rightarrow> 'z cam_scheme \<Rightarrow> ('z cam_scheme \<times> cam_call list) option" where
  "collisions collide [] c = Some (c, [])"
| "collisions collide (j # js) c =
     do { c \<leftarrow> collide j c;
          (c, calls) \<leftarrow> collisions collide js c;
          Some (c, InternalCollision j # calls) }"

fun grant_from ::
  "(nat \<Rightarrow> nat \<Rightarrow> 'z cam_scheme \<Rightarrow> ('z cam_scheme \<times> bool) option) \<Rightarrow> (nat \<Rightarrow> 'z cam_scheme \<Rightarrow> 'z cam_scheme option) \<Rightarrow> time \<Rightarrow> time \<Rightarrow>
     nat list \<Rightarrow> 'z cam_scheme \<Rightarrow> ('z cam_scheme \<times> cam_call list) option" where
  "grant_from startTx collide now ags [] c = Some (c, [])"
| "grant_from startTx collide now ags (i # is) c =
     (if can_access now ags c i \<and> \<not> edca_disabled now c i
      then do {
        let colliding = filter (can_access now ags c) is;
        (c, width) \<leftarrow> access_width now c;
        (c, started) \<leftarrow> startTx i width c;
        (if started
         then do { (c, calls) \<leftarrow> collisions collide colliding c; Some (c, StartTx i width # calls) }
         else do { (c, calls) \<leftarrow> grant_from startTx collide now ags is
                                   (on_txop i (e_UpdateBackoffSlotsNow 0 now) c);
                   Some (c, StartTx i width # calls) }) }
      else grant_from startTx collide now ags is c)"

definition DoGrantDcfAccess ::
  "(nat \<Rightarrow> nat \<Rightarrow> 'z cam_scheme \<Rightarrow> ('z cam_scheme \<times> bool) option) \<Rightarrow> (nat \<Rightarrow> 'z cam_scheme \<Rightarrow> 'z cam_scheme option) \<Rightarrow> time \<Rightarrow> 'z cam_scheme \<Rightarrow>
     ('z cam_scheme \<times> cam_call list) option" where
  "DoGrantDcfAccess startTx collide now c =
     do { ags \<leftarrow> GetAccessGrantStart False now c;
          if ags > now then Some (c, [])
          else grant_from startTx collide now ags [0..<length (m_txops c)] c }"

section \<open>Requests\<close>

text \<open>
  The second component is whether the caller must generate a backoff.  Without frames
  before, on an idle medium, a plain DCF may transmit after a DIFS, and an EDCA function aligns
  to the next slot boundary.
\<close>

definition NeedBackoffUponAccess :: "world \<Rightarrow> nat \<Rightarrow> bool \<Rightarrow> bool \<Rightarrow> 'z cam_scheme \<Rightarrow> ('z cam_scheme \<times> bool) option" where
  "NeedBackoffUponAccess w i hadFramesToTransmit checkMediumBusy c =
     (if phy_asleep c then Some (c, False)
      else do {
        c \<leftarrow> UpdateBackoff (w_now w) c;
        e \<leftarrow> get_txop i c;
        (if \<not> hadFramesToTransmit \<and> w_hasFrames w i \<and> l_access (e_link e) \<noteq> GRANTED
            \<and> l_backoffSlots (e_link e) = 0
         then do {
           busy \<leftarrow> (if checkMediumBusy then IsBusy (w_now w) c else Some True);
           (if checkMediumBusy \<and> \<not> busy
            then let delay = (if e_qos e then 0
                              else GetSifs c + uint (e_aifsn (w_now w) e) * GetSlot c)
                 in Some (on_txop i (e_UpdateBackoffSlotsNow 0 (w_now w + delay)) c, False)
            else Some (c, True)) }
         else Some (c, False)) })"

text \<open>The next slot boundary, counted from the end of the AIFS, not before the backoff start.\<close>

definition align_backoff :: "time \<Rightarrow> time \<Rightarrow> time \<Rightarrow> edcaf \<Rightarrow> edcaf option" where
  "align_backoff now slot ags e =
     (let accessGrantStart = ags + uint (e_aifsn now e) * slot;
          diff = l_backoffStart (e_link e) - accessGrantStart
      in if e_qos e \<and> diff > 0
         then do { ns_assert (slot \<noteq> 0);
                   let nIntSlots = (of_int (diff div slot + (if diff mod slot > 0 then 1 else 0)) :: u32);
                   Some (e_UpdateBackoffSlotsNow 0 (accessGrantStart + uint nIntSlots * slot) e) }
         else Some e)"

definition RequestAccess ::
  "(nat \<Rightarrow> nat \<Rightarrow> 'z cam_scheme \<Rightarrow> ('z cam_scheme \<times> bool) option) \<Rightarrow> (nat \<Rightarrow> 'z cam_scheme \<Rightarrow> 'z cam_scheme option) \<Rightarrow> world \<Rightarrow> nat \<Rightarrow> 'z cam_scheme \<Rightarrow>
     ('z cam_scheme \<times> cam_call list) option" where
  "RequestAccess startTx collide w i c =
     (let calls0 = (if m_phy c \<noteq> None \<and> w_hasFrames w i then [PhyAccessRequested] else [])
      in if phy_asleep c then Some (c, calls0)
         else do {
           ags \<leftarrow> GetAccessGrantStart False (w_now w) c;
           e \<leftarrow> get_txop i c;
           e \<leftarrow> align_backoff (w_now w) (GetSlot c) ags e;
           c \<leftarrow> UpdateBackoff (w_now w) (on_txop i (\<lambda>_. e) c);
           e \<leftarrow> get_txop i c;
           ns_assert (l_access (e_link e) \<noteq> REQUESTED);
           let c = on_txop i (\<lambda>e. e\<lparr>e_link := NotifyAccessRequested (e_link e)\<rparr>) c;
           (c, calls1) \<leftarrow> DoGrantDcfAccess startTx collide (w_now w) c;
           (c, calls2) \<leftarrow> DoRestartAccessTimeoutIfNeeded (w_now w) c;
           Some (c, calls0 @ calls1 @ calls2) })"

text \<open>
  \<^verbatim>\<open>Txop::StartAccessAfterEvent\<close>, with its calls of the manager: the base class model is
  given the manager's answer, after the guards that precede the question.
\<close>

definition StartAccess ::
  "(nat \<Rightarrow> nat \<Rightarrow> 'z cam_scheme \<Rightarrow> ('z cam_scheme \<times> bool) option) \<Rightarrow> (nat \<Rightarrow> 'z cam_scheme \<Rightarrow> 'z cam_scheme option) \<Rightarrow> world \<Rightarrow> nat \<Rightarrow> bool \<Rightarrow> bool
     \<Rightarrow> 'z cam_scheme \<Rightarrow> ('z cam_scheme \<times> cam_call list) option" where
  "StartAccess startTx collide w i hadFramesToTransmit checkMediumBusy c =
     do { e \<leftarrow> get_txop i c;
          (if m_phy c = None \<or> l_access (e_link e) \<noteq> NOT_REQUESTED \<or> \<not> w_hasFrames w i
           then Some (c, [])
           else do {
             (c, needed) \<leftarrow> NeedBackoffUponAccess w i hadFramesToTransmit checkMediumBusy c;
             let c = (if needed then on_txop i (e_GenerateBackoff w i) c else c);
             RequestAccess startTx collide w i c }) }"

end
