(* ===== verification/Channel_Events.thy ===== *)
theory Channel_Events
  imports Channel_Access
begin

text \<open>
  \<^verbatim>\<open>channel-access-manager.cc\<close>, continued: the expiry of the access timeout, the
  notifications of the PHY and of the frame exchange manager, and the PHY listeners.

  A PHY listener is its entry in \<open>m_phyListeners\<close>, which says whether it is active; the
  forwarding of notifications by \<^verbatim>\<open>PhyListener\<close> is \<open>forwarded\<close>.
\<close>

section \<open>Resets\<close>

definition e_ResetCw :: "time \<Rightarrow> edcaf \<Rightarrow> edcaf option" where
  "e_ResetCw now e = do { m \<leftarrow> e_GetMinCw now e; Some (e\<lparr>e_link := ResetCw m (e_link e)\<rparr>) }"

definition ResetBackoff :: "time \<Rightarrow> edcaf \<Rightarrow> edcaf option" where
  "ResetBackoff now e =
     (let remainingSlots = l_backoffSlots (e_link e);
          e = (if remainingSlots > 0 then e_UpdateBackoffSlotsNow remainingSlots now e else e)
      in do { ns_assert (l_backoffSlots (e_link e) = 0);
              e \<leftarrow> e_ResetCw now e;
              Some (e\<lparr>e_link := (e_link e)\<lparr>l_access := NOT_REQUESTED\<rparr>\<rparr>) })"

definition ResetAllBackoffs :: "time \<Rightarrow> 'z cam_scheme \<Rightarrow> 'z cam_scheme option" where
  "ResetAllBackoffs now c =
     do { txops \<leftarrow> map_opt (ResetBackoff now) (m_txops c);
          Some (c\<lparr>m_txops := txops, m_accessTimeout := None\<rparr>) }"

definition clip_end :: "time \<Rightarrow> timespan \<Rightarrow> timespan" where
  "clip_end now s = s\<lparr>ts_end := min (ts_end s) now\<rparr>"

definition ResetState :: "time \<Rightarrow> 'z cam_scheme \<Rightarrow> 'z cam_scheme option" where
  "ResetState now c =
     do { c \<leftarrow> UpdateLastIdlePeriod now (c\<lparr>m_lastRxReceivedOk := True\<rparr>);
          InitLastBusyStructs now
            (c\<lparr>m_lastRx := clip_end now (m_lastRx c),
               m_lastNavEnd := min (m_lastNavEnd c) now,
               m_lastAckTimeoutEnd := min (m_lastAckTimeoutEnd c) now,
               m_lastCtsTimeoutEnd := min (m_lastCtsTimeoutEnd c) now,
               m_lastNoPhy := clip_end now (m_lastNoPhy c),
               m_lastSleep := clip_end now (m_lastSleep c),
               m_lastOff := clip_end now (m_lastOff c)\<rparr>) }"

section \<open>The access timeout expires\<close>

definition AccessTimeout ::
  "(nat \<Rightarrow> nat \<Rightarrow> 'z cam_scheme \<Rightarrow> ('z cam_scheme \<times> bool) option) \<Rightarrow> (nat \<Rightarrow> 'z cam_scheme \<Rightarrow> 'z cam_scheme option) \<Rightarrow> time \<Rightarrow> 'z cam_scheme \<Rightarrow>
     ('z cam_scheme \<times> cam_call list) option" where
  "AccessTimeout startTx collide now c =
     (let c = c\<lparr>m_accessTimeout := None\<rparr>;
          tooLong = (\<lambda>s. now - ts_start s > m_resetBackoffThreshold c);
          noPhyForTooLong = (m_phy c = None \<and> tooLong (m_lastNoPhy c));
          sleepForTooLong = (case m_phy c of Some p \<Rightarrow> phy_sleep p \<and> tooLong (m_lastSleep c) | None \<Rightarrow> False);
          offForTooLong = (case m_phy c of Some p \<Rightarrow> phy_off p \<and> tooLong (m_lastOff c) | None \<Rightarrow> False)
      in if noPhyForTooLong \<or> sleepForTooLong \<or> offForTooLong
         then do { c \<leftarrow> ResetAllBackoffs now c; Some (c, []) }
         else do { c \<leftarrow> UpdateBackoff now c;
                   (c, calls1) \<leftarrow> DoGrantDcfAccess startTx collide now c;
                   (c, calls2) \<leftarrow> DoRestartAccessTimeoutIfNeeded now c;
                   Some (c, calls1 @ calls2) })"

definition DisableEdcaFor :: "time \<Rightarrow> nat \<Rightarrow> time \<Rightarrow> 'z cam_scheme \<Rightarrow> ('z cam_scheme \<times> cam_call list) option" where
  "DisableEdcaFor now i duration c =
     do { e \<leftarrow> get_txop i c;
          ns_assert (e_qos e);
          c \<leftarrow> UpdateBackoff now c;
          DoRestartAccessTimeoutIfNeeded now (on_txop i (e_UpdateBackoffSlotsNow 0 (now + duration)) c) }"

section \<open>Receptions, transmissions and CCA\<close>

definition NotifyRxStartNow :: "time \<Rightarrow> time \<Rightarrow> 'z cam_scheme \<Rightarrow> 'z cam_scheme option" where
  "NotifyRxStartNow now duration c =
     do { c \<leftarrow> UpdateBackoff now c;
          c \<leftarrow> UpdateLastIdlePeriod now c;
          Some (c\<lparr>m_lastRx := \<lparr>ts_start = now, ts_end = now + duration\<rparr>, m_lastRxReceivedOk := True\<rparr>) }"

definition NotifyRxEndOkNow :: "time \<Rightarrow> 'z cam_scheme \<Rightarrow> 'z cam_scheme" where
  "NotifyRxEndOkNow now c = c\<lparr>m_lastRx := (m_lastRx c)\<lparr>ts_end := now\<rparr>, m_lastRxReceivedOk := True\<rparr>"

text \<open>\<open>ackTxTime\<close> is the estimated transmission time of an acknowledgment for the frame.\<close>

definition NotifyRxEndErrorNow :: "time \<Rightarrow> time \<Rightarrow> 'z cam_scheme \<Rightarrow> 'z cam_scheme option" where
  "NotifyRxEndErrorNow now ackTxTime c =
     do { p \<leftarrow> m_phy c;
          Some (c\<lparr>m_lastRx := (m_lastRx c)\<lparr>ts_end := now\<rparr>, m_lastRxReceivedOk := False,
                  m_eifsNoDifs := phy_sifs p + ackTxTime\<rparr>) }"

definition NotifyTxStartNow :: "time \<Rightarrow> time \<Rightarrow> 'z cam_scheme \<Rightarrow> 'z cam_scheme option" where
  "NotifyTxStartNow now duration c =
     do { let c = c\<lparr>m_lastRxReceivedOk := True\<rparr>;
          c \<leftarrow> (if ts_end (m_lastRx c) > now
                then do { ns_assert (now - ts_start (m_lastRx c) \<le> GetSifs c);
                          Some (c\<lparr>m_lastRx := (m_lastRx c)\<lparr>ts_end := now\<rparr>\<rparr>) }
                else UpdateLastIdlePeriod now c);
          c \<leftarrow> UpdateBackoff now c;
          Some (c\<lparr>m_lastTxEnd := now + duration\<rparr>) }"

fun busy_20MHz :: "time \<Rightarrow> time list \<Rightarrow> time list \<Rightarrow> time list" where
  "busy_20MHz now (d # ds) (t # ts) = (if d > 0 then now + d else t) # busy_20MHz now ds ts"
| "busy_20MHz now _ ts = ts"

fun proactive_backoffs :: "world \<Rightarrow> nat list \<Rightarrow> 'z cam_scheme \<Rightarrow> 'z cam_scheme" where
  "proactive_backoffs w [] c = c"
| "proactive_backoffs w (i # is) c =
     proactive_backoffs w is
       (let e = m_txops c ! i
        in if l_access (e_link e) \<noteq> GRANTED \<and> l_backoffSlots (e_link e) = 0
           then on_txop i (e_GenerateBackoff w i) c else c)"

definition NotifyCcaBusyStartNow :: "world \<Rightarrow> time \<Rightarrow> chanlist \<Rightarrow> time list \<Rightarrow> 'z cam_scheme \<Rightarrow> 'z cam_scheme option" where
  "NotifyCcaBusyStartNow w duration channelType per20MhzDurations c =
     do { c \<leftarrow> UpdateBackoff (w_now w) c;
          c \<leftarrow> UpdateLastIdlePeriod (w_now w) c;
          _ \<leftarrow> omap_get (m_lastBusyEnd c) channelType;
          let c = c\<lparr>m_lastBusyEnd := omap_put channelType (w_now w + duration) (m_lastBusyEnd c)\<rparr>;
          ns_assert (length per20MhzDurations = length (m_lastPer20MHzBusyEnd c));
          let c = c\<lparr>m_lastPer20MHzBusyEnd :=
                      busy_20MHz (w_now w) per20MhzDurations (m_lastPer20MHzBusyEnd c)\<rparr>;
          Some (if m_proactiveBackoff c then proactive_backoffs w [0..<length (m_txops c)] c else c) }"

section \<open>Network allocation vector and timeouts\<close>

definition NotifyNavResetNow :: "time \<Rightarrow> time \<Rightarrow> 'z cam_scheme \<Rightarrow> ('z cam_scheme \<times> cam_call list) option" where
  "NotifyNavResetNow now duration c =
     (if m_phy c = None then Some (c, [])
      else do { c \<leftarrow> UpdateBackoff now c;
                DoRestartAccessTimeoutIfNeeded now (c\<lparr>m_lastNavEnd := now + duration\<rparr>) })"

definition NotifyNavStartNow :: "time \<Rightarrow> time \<Rightarrow> 'z cam_scheme \<Rightarrow> 'z cam_scheme option" where
  "NotifyNavStartNow now duration c =
     do { c \<leftarrow> UpdateBackoff now c;
          Some (c\<lparr>m_lastNavEnd := max (m_lastNavEnd c) (now + duration)\<rparr>) }"

definition NotifyAckTimeoutStartNow :: "time \<Rightarrow> time \<Rightarrow> 'z cam_scheme \<Rightarrow> 'z cam_scheme option" where
  "NotifyAckTimeoutStartNow now duration c =
     do { ns_assert (m_lastAckTimeoutEnd c < now);
          Some (c\<lparr>m_lastAckTimeoutEnd := now + duration\<rparr>) }"

definition NotifyAckTimeoutResetNow :: "time \<Rightarrow> 'z cam_scheme \<Rightarrow> ('z cam_scheme \<times> cam_call list) option" where
  "NotifyAckTimeoutResetNow now c = DoRestartAccessTimeoutIfNeeded now (c\<lparr>m_lastAckTimeoutEnd := now\<rparr>)"

definition NotifyCtsTimeoutStartNow :: "time \<Rightarrow> time \<Rightarrow> 'z cam_scheme \<Rightarrow> 'z cam_scheme" where
  "NotifyCtsTimeoutStartNow now duration c = c\<lparr>m_lastCtsTimeoutEnd := now + duration\<rparr>"

definition NotifyCtsTimeoutResetNow :: "time \<Rightarrow> 'z cam_scheme \<Rightarrow> ('z cam_scheme \<times> cam_call list) option" where
  "NotifyCtsTimeoutResetNow now c = DoRestartAccessTimeoutIfNeeded now (c\<lparr>m_lastCtsTimeoutEnd := now\<rparr>)"

section \<open>Sleep, off, and back\<close>

definition NotifySleepNow :: "time \<Rightarrow> 'z cam_scheme \<Rightarrow> ('z cam_scheme \<times> cam_call list) option" where
  "NotifySleepNow now c =
     do { c \<leftarrow> UpdateBackoff now c;
          c \<leftarrow> UpdateLastIdlePeriod now c;
          Some (c\<lparr>m_lastSleep := (m_lastSleep c)\<lparr>ts_start := now\<rparr>\<rparr>, [FemSleep]) }"

definition NotifyOffNow :: "time \<Rightarrow> 'z cam_scheme \<Rightarrow> ('z cam_scheme \<times> cam_call list) option" where
  "NotifyOffNow now c =
     do { c \<leftarrow> UpdateBackoff now c;
          c \<leftarrow> UpdateLastIdlePeriod now c;
          Some (c\<lparr>m_lastOff := (m_lastOff c)\<lparr>ts_start := now\<rparr>\<rparr>, [FemOff]) }"

fun start_all ::
  "(nat \<Rightarrow> nat \<Rightarrow> 'z cam_scheme \<Rightarrow> ('z cam_scheme \<times> bool) option) \<Rightarrow> (nat \<Rightarrow> 'z cam_scheme \<Rightarrow> 'z cam_scheme option) \<Rightarrow> world \<Rightarrow> nat list
     \<Rightarrow> 'z cam_scheme \<Rightarrow> ('z cam_scheme \<times> cam_call list) option" where
  "start_all startTx collide w [] c = Some (c, [])"
| "start_all startTx collide w (i # is) c =
     do { (c, calls1) \<leftarrow> StartAccess startTx collide w i False False c;
          (c, calls2) \<leftarrow> start_all startTx collide w is c;
          Some (c, calls1 @ calls2) }"

definition NotifyWakeupNow ::
  "(nat \<Rightarrow> nat \<Rightarrow> 'z cam_scheme \<Rightarrow> ('z cam_scheme \<times> bool) option) \<Rightarrow> (nat \<Rightarrow> 'z cam_scheme \<Rightarrow> 'z cam_scheme option) \<Rightarrow> world \<Rightarrow> 'z cam_scheme \<Rightarrow>
     ('z cam_scheme \<times> cam_call list) option" where
  "NotifyWakeupNow startTx collide w c =
     do { let c = c\<lparr>m_lastSleep := (m_lastSleep c)\<lparr>ts_end := w_now w\<rparr>\<rparr>;
          c \<leftarrow> (if w_now w - ts_start (m_lastSleep c) > m_resetBackoffThreshold c
                then ResetAllBackoffs (w_now w) c else Some c);
          start_all startTx collide w [0..<length (m_txops c)] c }"

text \<open>\<^verbatim>\<open>Txop::NotifyOn\<close> also starts the access on the other links, with their managers.\<close>

definition NotifyOnNow ::
  "(nat \<Rightarrow> nat \<Rightarrow> 'z cam_scheme \<Rightarrow> ('z cam_scheme \<times> bool) option) \<Rightarrow> (nat \<Rightarrow> 'z cam_scheme \<Rightarrow> 'z cam_scheme option) \<Rightarrow> world \<Rightarrow> 'z cam_scheme \<Rightarrow>
     ('z cam_scheme \<times> cam_call list) option" where
  "NotifyOnNow startTx collide w c =
     do { let c = c\<lparr>m_lastOff := (m_lastOff c)\<lparr>ts_end := w_now w\<rparr>\<rparr>;
          c \<leftarrow> (if w_now w - ts_start (m_lastOff c) > m_resetBackoffThreshold c
                then ResetAllBackoffs (w_now w) c else Some c);
          start_all startTx collide w [0..<length (m_txops c)] c }"

section \<open>PHY listeners\<close>

text \<open>All notifications but the one of channel switching are dropped by an inactive listener.\<close>

definition forwarded :: "nat \<Rightarrow> 'z cam_scheme \<Rightarrow> ('z cam_scheme \<Rightarrow> 'z cam_scheme option) \<Rightarrow> 'z cam_scheme option" where
  "forwarded phyId c notify = do { active \<leftarrow> m_phyListeners c phyId; if active then notify c else Some c }"

definition DeactivatePhyListener :: "nat \<Rightarrow> 'z cam_scheme \<Rightarrow> 'z cam_scheme" where
  "DeactivatePhyListener phyId c =
     (case m_phyListeners c phyId of
        Some _ \<Rightarrow> c\<lparr>m_phyListeners := (m_phyListeners c)(phyId \<mapsto> False)\<rparr>
      | None \<Rightarrow> c)"

definition SetupPhyListener :: "time \<Rightarrow> phy \<Rightarrow> 'z cam_scheme \<Rightarrow> ('z cam_scheme \<times> cam_call list) option" where
  "SetupPhyListener now p c =
     do { (c, calls) \<leftarrow>
            (case m_phyListeners c (phy_id p) of
               Some active \<Rightarrow>
                 do { ns_assert (\<not> active);
                      ns_assert (m_phy c = None);
                      ns_assert (ts_start (m_lastNoPhy c) = now);
                      ns_assert (ts_end (m_lastNoPhy c) \<le> ts_start (m_lastNoPhy c));
                      Some (c\<lparr>m_phyListeners := (m_phyListeners c)(phy_id p \<mapsto> True),
                              m_lastNoPhy := (m_lastNoPhy c)\<lparr>ts_start := ts_end (m_lastNoPhy c)\<rparr>\<rparr>,
                            [PhyUnregister (phy_id p)]) }
             | None \<Rightarrow>
                 do { let c = c\<lparr>m_phyListeners := (m_phyListeners c)(phy_id p \<mapsto> True)\<rparr>;
                      c \<leftarrow> (case m_phy c of
                              Some q \<Rightarrow> Some (DeactivatePhyListener (phy_id q) c)
                            | None \<Rightarrow>
                                (let c = c\<lparr>m_lastSwitchingEnd := now,
                                           m_lastNoPhy := (m_lastNoPhy c)\<lparr>ts_end := now\<rparr>\<rparr>
                                 in if now - ts_start (m_lastNoPhy c) > m_resetBackoffThreshold c
                                    then ResetAllBackoffs now c else Some c));
                      Some (c, []) });
          c \<leftarrow> ResizeLastBusyStructs now (c\<lparr>m_phy := Some p\<rparr>);
          Some (c, calls @ [PhyRegister (phy_id p)]) }"

text \<open>
  \<^verbatim>\<open>UpdateBackoff\<close> reads the SIFS, and the slot time if there is a function to update,
  with the PHY still there: these are the values cached from now on.
\<close>

definition RemovePhyListener :: "time \<Rightarrow> nat \<Rightarrow> 'z cam_scheme \<Rightarrow> ('z cam_scheme \<times> cam_call list) option" where
  "RemovePhyListener now phyId c =
     (case m_phyListeners c phyId of
        None \<Rightarrow> Some (c, [])
      | Some _ \<Rightarrow>
          do { let c = c\<lparr>m_phyListeners := (m_phyListeners c)(phyId := None)\<rparr>;
               c \<leftarrow> (if map_option phy_id (m_phy c) = Some phyId
                     then do { c \<leftarrow> UpdateBackoff now c;
                               c \<leftarrow> UpdateLastIdlePeriod now c;
                               Some (c\<lparr>m_cachedSifs := GetSifs c,
                                       m_cachedSlot := (if m_txops c = [] then m_cachedSlot c else GetSlot c),
                                       m_phy := None,
                                       m_lastNoPhy := (m_lastNoPhy c)\<lparr>ts_start := now\<rparr>\<rparr>) }
                     else Some c);
               Some (c, [PhyUnregister phyId]) })"

definition NotifySwitchingEmlsrLink :: "nat \<Rightarrow> nat \<Rightarrow> nat \<Rightarrow> 'z cam_scheme \<Rightarrow> 'z cam_scheme option" where
  "NotifySwitchingEmlsrLink phyId channel linkId c =
     do { ns_assert (m_switchingEmlsrLinks c phyId = None);
          Some (c\<lparr>m_switchingEmlsrLinks := (m_switchingEmlsrLinks c)(phyId \<mapsto> (channel, linkId))\<rparr>) }"

text \<open>
  \<open>listener\<close> is the PHY of the listener, if one is given; \<open>channelOf\<close> the operating channel of
  a PHY; \<open>ehtFem\<close> whether the frame exchange manager is an 802.11be one.
\<close>

definition NotifySwitchingStartNow ::
  "(nat \<Rightarrow> nat) \<Rightarrow> bool \<Rightarrow> time \<Rightarrow> nat option \<Rightarrow> time \<Rightarrow> 'z cam_scheme \<Rightarrow> ('z cam_scheme \<times> cam_call list) option" where
  "NotifySwitchingStartNow channelOf ehtFem now listener duration c =
     do { ns_assert (m_lastTxEnd c \<le> now);
          (case listener of
             Some phyId \<Rightarrow>
               (case (m_phyListeners c phyId, m_switchingEmlsrLinks c phyId) of
                  (Some _, Some (channel, linkId)) \<Rightarrow>
                    if channelOf phyId = channel then Some (Some (phyId, linkId)) else Some None
                | _ \<Rightarrow> Some None)
           | None \<Rightarrow> Some None) \<bind> (\<lambda>emlsr.
          case emlsr of
            Some (phyId, linkId) \<Rightarrow>
              do { (c, calls) \<leftarrow> RemovePhyListener now phyId c;
                   ns_assert ehtFem;
                   Some (c\<lparr>m_switchingEmlsrLinks := (m_switchingEmlsrLinks c)(phyId := None)\<rparr>,
                         calls @ [FemSwitchingEmlsrLink phyId linkId duration]) }
          | None \<Rightarrow>
              do { c \<leftarrow> ResetState now c;
                   let c = c\<lparr>m_accessTimeout := None\<rparr>;
                   txops \<leftarrow> map_opt (ResetBackoff now) (m_txops c);
                   Some (c\<lparr>m_txops := txops, m_lastSwitchingEnd := now + duration\<rparr>,
                         [FemSwitchingStart duration]) }) }"

end
