(* ===== verification/Channel_Countdown.thy ===== *)
theory Channel_Countdown
  imports Channel_Events
begin

text \<open>
  The countdown of the backoff counters: what the access grant start is, and that the moments at
  which \<^verbatim>\<open>UpdateBackoff\<close> is called do not influence the countdown.
\<close>

section \<open>The access grant start\<close>

text \<open>A manager can work: it has a slot time, and an entry for the primary channel.\<close>

definition cam_ready :: "'z cam_scheme \<Rightarrow> bool" where
  "cam_ready c \<longleftrightarrow> GetSlot c > 0 \<and> omap_get (m_lastBusyEnd c) PRIMARY \<noteq> None"

lemma sorted_last_max:
  fixes ys :: "('a::linorder \<times> 'b) list"
  assumes "sorted (map fst ys)" "x \<in> set ys"
  shows "fst x \<le> fst (last ys)"
proof -
  from assms(2) obtain i where i: "i < length ys" "ys ! i = x" unfolding in_set_conv_nth by blast
  with assms(1) have "map fst ys ! i \<le> map fst ys ! (length ys - 1)"
    by (intro sorted_nth_mono) auto
  with i show ?thesis by (cases ys rule: rev_cases) (auto simp: nth_append)
qed

lemma sort_key_eq_Nil [simp]: "sort_key f xs = [] \<longleftrightarrow> xs = []"
  by (induction xs) (simp_all add: insort_not_Nil)

lemma last_sort_key_fst:
  assumes "xs \<noteq> []"
  shows "fst (last (sort_key fst xs)) = Max (fst ` set xs)"
proof (rule Max_eqI [symmetric])
  show "finite (fst ` set xs)" by simp
  have "fst x \<le> fst (last (sort_key fst xs))" if "x \<in> set xs" for x
    using that by (intro sorted_last_max) simp_all
  then show "y \<le> fst (last (sort_key fst xs))" if "y \<in> fst ` set xs" for y
    using that by blast
  have "last (sort_key fst xs) \<in> set (sort_key fst xs)"
    using assms by (intro last_in_set) simp
  then show "fst (last (sort_key fst xs)) \<in> fst ` set xs" by simp
qed

definition medium_ends :: "bool \<Rightarrow> time \<Rightarrow> time \<Rightarrow> 'z cam_scheme \<Rightarrow> time set" where
  "medium_ends ignoreNav now busyEnd c =
     {busyEnd, rx_access_start now c, m_lastTxEnd c, if ignoreNav then 0 else m_lastNavEnd c,
      m_lastAckTimeoutEnd c, m_lastCtsTimeoutEnd c, m_lastSwitchingEnd c,
      if m_phy c \<noteq> None then ts_end (m_lastNoPhy c) else now,
      span_end now (m_lastSleep c), span_end now (m_lastOff c)}"

lemma DoGetAccessGrantStart_props:
  assumes "DoGetAccessGrantStart ignoreNav now c = Some m"
  obtains busyEnd where "omap_get (m_lastBusyEnd c) PRIMARY = Some busyEnd"
    "fst ` set m = medium_ends ignoreNav now busyEnd c" "m \<noteq> []" "sorted (map fst m)"
    "fst (last m) = Max (medium_ends ignoreNav now busyEnd c)"
proof -
  from assms obtain b where b: "omap_get (m_lastBusyEnd c) PRIMARY = Some b"
    by (auto simp: DoGetAccessGrantStart_def elim: bind_SomeE)
  let ?l = "[(b, BUSY_END), (rx_access_start now c, RX_END), (m_lastTxEnd c, TX_END),
       (if ignoreNav then 0 else m_lastNavEnd c, NAV_END), (m_lastAckTimeoutEnd c, ACK_TIMER_END),
       (m_lastCtsTimeoutEnd c, CTS_TIMER_END), (m_lastSwitchingEnd c, SWITCHING_END),
       (if m_phy c \<noteq> None then ts_end (m_lastNoPhy c) else now, NO_PHY_END),
       (span_end now (m_lastSleep c), SLEEP_END), (span_end now (m_lastOff c), OFF_END)]"
  have m: "m = sort_key fst ?l"
    using assms by (simp add: DoGetAccessGrantStart_def b del: sort_key_simps)
  have s: "fst ` set ?l = medium_ends ignoreNav now b c"
    by (simp only: medium_ends_def list.set image_insert image_empty fst_conv)
  show thesis
  proof (rule that [OF b])
    show "fst ` set m = medium_ends ignoreNav now b c" by (simp only: m set_sort s)
    show "m \<noteq> []" by (simp only: m sort_key_eq_Nil list.distinct(2)) simp
    show "sorted (map fst m)" by (simp only: m sorted_sort_key)
    show "fst (last m) = Max (medium_ends ignoreNav now b c)"
      unfolding m s [symmetric] by (rule last_sort_key_fst) simp
  qed
qed

lemma GetAccessGrantStart_eq:
  assumes "omap_get (m_lastBusyEnd c) PRIMARY = Some b"
  shows "GetAccessGrantStart ignoreNav now c = Some (Max (medium_ends ignoreNav now b c) + GetSifs c)"
proof -
  obtain m where m: "DoGetAccessGrantStart ignoreNav now c = Some m"
    by (simp add: DoGetAccessGrantStart_def assms del: sort_key_simps)
  from DoGetAccessGrantStart_props [OF this] assms show ?thesis
    by (auto simp: GetAccessGrantStart_def m)
qed

lemma GetSifs_txops [simp]: "GetSifs (c\<lparr>m_txops := es\<rparr>) = GetSifs c"
  by (simp add: GetSifs_def split: option.split)

lemma rx_access_start_txops [simp]: "rx_access_start now (c\<lparr>m_txops := es\<rparr>) = rx_access_start now c"
  by (simp add: rx_access_start_def)

lemma DoGetAccessGrantStart_txops [simp]:
  "DoGetAccessGrantStart ignoreNav now (c\<lparr>m_txops := es\<rparr>) = DoGetAccessGrantStart ignoreNav now c"
  by (simp add: DoGetAccessGrantStart_def del: sort_key_simps cong: if_cong)

lemma GetAccessGrantStart_txops [simp]:
  "GetAccessGrantStart ignoreNav now (c\<lparr>m_txops := es\<rparr>) = GetAccessGrantStart ignoreNav now c"
  by (simp add: GetAccessGrantStart_def)

lemma GetSlot_txops [simp]: "GetSlot (c\<lparr>m_txops := es\<rparr>) = GetSlot c"
  by (simp add: GetSlot_def split: option.split)

lemma div_less_if_less_mult:
  assumes "0 < m" "x < k * (m :: int)"
  shows "x div m < k"
proof (rule ccontr)
  assume "\<not> x div m < k"
  then have "k * m \<le> x div m * m" using assms(1) by (intro mult_right_mono) auto
  also have "\<dots> \<le> x" using assms(1) by (simp add: minus_mod_eq_div_mult [symmetric])
  finally show False using assms(2) by simp
qed

section \<open>One function\<close>

lemma map_opt_Some:
  assumes "\<And>x. x \<in> set xs \<Longrightarrow> f x = Some (g x)"
  shows "map_opt f xs = Some (map g xs)"
  using assms by (induction xs) auto

lemma map_opt_length: "map_opt f xs = Some ys \<Longrightarrow> length ys = length xs"
  by (induction xs arbitrary: ys) (auto elim!: bind_SomeE)

lemma map_opt_nth: "map_opt f xs = Some ys \<Longrightarrow> i < length xs \<Longrightarrow> f (xs ! i) = Some (ys ! i)"
proof (induction xs arbitrary: ys i)
  case (Cons x xs)
  then show ?case by (cases i) (auto elim!: bind_SomeE)
qed simp

text \<open>The slots counted down at a time, over the integers.\<close>

definition slots_passed :: "time \<Rightarrow> time \<Rightarrow> bool \<Rightarrow> time \<Rightarrow> int \<Rightarrow> int" where
  "slots_passed now slot qos start slots =
     min ((now - start) div slot + (if qos then 1 else 0)) slots"

lemma slots_passed_word:
  assumes "0 \<le> k" "k + 1 < 2 ^ 32"
  shows "uint (min (if q then of_int k + 1 else of_int k) s :: u32)
    = min (k + (if q then 1 else 0)) (uint s)"
proof -
  have u: "uint (if q then of_int k + 1 else of_int k :: u32) = k + (if q then 1 else 0)"
    using assms by (auto simp: uint_word_ariths word_of_int_inverse unsigned_of_int take_bit_eq_mod)
  show ?thesis by (simp only: min_def word_le_def u) (auto simp: u)
qed

lemma e_aifsn_update [simp]: "e_aifsn now (e_UpdateBackoffSlotsNow n b e) = e_aifsn now e"
  by (simp add: e_aifsn_def e_UpdateBackoffSlotsNow_def UpdateBackoffSlotsNow_def GetAifsn_def
      GetEdcaAifsn_def MuEdcaTimerRunning_def Let_def)

lemma uint_sub_min: "uint (s - min x s :: u32) = uint s - uint (min x s)"
  by (rule uint_sub_lem [THEN iffD1]) (simp add: word_le_def [symmetric])

lemma dec_backoff_spec:
  assumes "slot > 0" "now - GetBackoffStartFor now slot e ags < (2 ^ 32 - 1) * slot"
  defines "a \<equiv> GetBackoffStartFor now slot e ags"
  defines "n \<equiv> slots_passed now slot (e_qos e) a (uint (l_backoffSlots (e_link e)))"
  shows "\<exists>k. dec_backoff now slot ags e =
      Some (if a \<le> now then e_UpdateBackoffSlotsNow k (a + n * slot) e else e)
    \<and> (a \<le> now \<longrightarrow> uint k = n \<and> uint (l_backoffSlots (e_link e) - k) = uint (l_backoffSlots (e_link e)) - n)"
proof (cases "a \<le> now")
  case True
  let ?k = "(now - a) div slot"
  let ?w = "min (if e_qos e then of_int ?k + 1 else of_int ?k) (l_backoffSlots (e_link e))"
  have "0 \<le> ?k" using True assms(1) by (simp add: pos_imp_zdiv_nonneg_iff)
  moreover have "?k < 2 ^ 32 - 1"
    using assms(1,2) unfolding a_def by (intro div_less_if_less_mult)
  ultimately have "uint ?w = n"
    unfolding n_def slots_passed_def by (intro slots_passed_word) auto
  with True assms(1) show ?thesis
    by (intro exI [of _ ?w]) (simp add: dec_backoff_def a_def [symmetric] Let_def uint_sub_min)
qed (simp add: dec_backoff_def a_def)

section \<open>Two updates are one\<close>

lemma slots_passed_bounds:
  assumes "slot > 0" "start \<le> now" "0 \<le> slots"
  shows "0 \<le> slots_passed now slot q start slots" "slots_passed now slot q start slots \<le> slots"
  using assms by (auto simp: slots_passed_def pos_imp_zdiv_nonneg_iff)

lemma slots_passed_twice:
  fixes q :: bool and slot start t1 t2 slots :: int
  assumes "slot > 0" "start \<le> t1" "t1 \<le> t2" "0 \<le> slots"
  defines "n1 \<equiv> slots_passed t1 slot q start slots"
  shows "start + n1 * slot \<le> t2 \<Longrightarrow>
      n1 + slots_passed t2 slot q (start + n1 * slot) (slots - n1) = slots_passed t2 slot q start slots"
    and "\<not> start + n1 * slot \<le> t2 \<Longrightarrow> slots_passed t2 slot q start slots = n1"
proof -
  define f1 f2 where "f1 = (t1 - start) div slot" and "f2 = (t2 - start) div slot"
  have f: "f1 \<le> f2" using assms(1,3) by (simp add: f1_def f2_def zdiv_mono1)
  have n1: "n1 = min (f1 + (if q then 1 else 0)) slots" by (simp add: n1_def slots_passed_def f1_def)
  have shift: "(t2 - (start + n1 * slot)) div slot = f2 - n1"
    using assms(1) div_mult_self1 [of slot "t2 - start" "- n1"] by (simp add: f2_def algebra_simps)
  have le: "start + n1 * slot \<le> t2 \<longleftrightarrow> n1 \<le> f2"
  proof -
    have "n1 \<le> f2 \<longleftrightarrow> 0 \<le> (t2 - (start + n1 * slot)) div slot" by (simp add: shift)
    then show ?thesis using assms(1) by (auto simp: pos_imp_zdiv_nonneg_iff)
  qed
  show "start + n1 * slot \<le> t2 \<Longrightarrow>
      n1 + slots_passed t2 slot q (start + n1 * slot) (slots - n1) = slots_passed t2 slot q start slots"
    by (auto simp: slots_passed_def shift f2_def [symmetric] min_def)
  show "\<not> start + n1 * slot \<le> t2 \<Longrightarrow> slots_passed t2 slot q start slots = n1"
  proof -
    assume "\<not> start + n1 * slot \<le> t2"
    then have "f2 < n1" by (simp add: le)
    then show "slots_passed t2 slot q start slots = n1"
      using f unfolding n1 slots_passed_def f2_def [symmetric] by (auto simp: min_def split: if_splits)
  qed
qed

lemma e_Update_twice:
  "e_UpdateBackoffSlotsNow k2 b2 (e_UpdateBackoffSlotsNow k1 b1 e) = e_UpdateBackoffSlotsNow (k1 + k2) b2 e"
  by (simp add: e_UpdateBackoffSlotsNow_def UpdateBackoffSlotsNow_def algebra_simps)

lemma e_Update_fields [simp]:
  "l_backoffSlots (e_link (e_UpdateBackoffSlotsNow k b e)) = l_backoffSlots (e_link e) - k"
  "l_backoffStart (e_link (e_UpdateBackoffSlotsNow k b e)) = b"
  "l_access (e_link (e_UpdateBackoffSlotsNow k b e)) = l_access (e_link e)"
  "e_qos (e_UpdateBackoffSlotsNow k b e) = e_qos e"
  "e_cfg (e_UpdateBackoffSlotsNow k b e) = e_cfg e"
  by (simp_all add: e_UpdateBackoffSlotsNow_def UpdateBackoffSlotsNow_def)

lemma e_Update_eqI:
  assumes "uint (l_backoffSlots (e_link e) - k) = uint (l_backoffSlots (e_link e) - k')"
  shows "e_UpdateBackoffSlotsNow k b e = e_UpdateBackoffSlotsNow k' b e"
proof -
  have "l_backoffSlots (e_link e) - k = l_backoffSlots (e_link e) - k'"
    by (rule unsigned_word_eqI) (rule assms)
  then show ?thesis by (simp only: e_UpdateBackoffSlotsNow_def UpdateBackoffSlotsNow_def)
qed

lemma dec_backoff_cases:
  assumes "dec_backoff now slot ags e = Some e'"
  obtains "e' = e" | n b where "e' = e_UpdateBackoffSlotsNow n b e"
  using assms unfolding dec_backoff_def Let_def ns_assert_def by (auto split: if_splits)

lemma dec_backoff_frame:
  assumes "dec_backoff now slot ags e = Some e'"
  shows "l_access (e_link e') = l_access (e_link e)" "e_qos e' = e_qos e" "e_cfg e' = e_cfg e"
    "e_aifsn t e' = e_aifsn t e"
  using assms by (auto elim!: dec_backoff_cases)

lemma GetBackoffStartFor_cong:
  "e_aifsn t1 e = e_aifsn t2 e \<Longrightarrow> GetBackoffStartFor t1 slot e ags = GetBackoffStartFor t2 slot e ags"
  by (simp add: GetBackoffStartFor_def)

lemma dec_backoff_twice:
  assumes "slot > 0" "t1 \<le> t2" "e_aifsn t1 e = e_aifsn t2 e"
    "t2 - GetBackoffStartFor t2 slot e ags < (2 ^ 32 - 1) * slot"
  shows "\<exists>e'. dec_backoff t1 slot ags e = Some e' \<and> dec_backoff t2 slot ags e' = dec_backoff t2 slot ags e"
proof -
  let ?a = "GetBackoffStartFor t2 slot e ags" and ?s = "uint (l_backoffSlots (e_link e))"
  let ?q = "e_qos e"
  have a1: "GetBackoffStartFor t1 slot e ags = ?a" by (rule GetBackoffStartFor_cong [OF assms(3)])
  let ?n1 = "slots_passed t1 slot ?q ?a ?s" and ?n = "slots_passed t2 slot ?q ?a ?s"
  obtain k1 where k1: "dec_backoff t1 slot ags e =
        Some (if ?a \<le> t1 then e_UpdateBackoffSlotsNow k1 (?a + ?n1 * slot) e else e)"
      "?a \<le> t1 \<Longrightarrow> uint (l_backoffSlots (e_link e) - k1) = ?s - ?n1"
  proof -
    have "t1 - ?a < (2 ^ 32 - 1) * slot" using assms(2,4) by linarith
    from dec_backoff_spec [of slot t1 e ags, unfolded a1, OF assms(1) this] that show thesis by blast
  qed
  obtain k where k: "dec_backoff t2 slot ags e =
        Some (if ?a \<le> t2 then e_UpdateBackoffSlotsNow k (?a + ?n * slot) e else e)"
      "?a \<le> t2 \<Longrightarrow> uint (l_backoffSlots (e_link e) - k) = ?s - ?n"
    using dec_backoff_spec [OF assms(1,4)] by blast
  show ?thesis
  proof (cases "?a \<le> t1")
    case True
    let ?e' = "e_UpdateBackoffSlotsNow k1 (?a + ?n1 * slot) e"
    note twice = slots_passed_twice [OF assms(1) True assms(2), of ?s ?q, simplified]
    have n1: "0 \<le> ?n1" by (rule slots_passed_bounds [OF assms(1) True]) simp
    have "uint (e_aifsn t2 e) * slot + ags \<le> ?a" by (simp add: GetBackoffStartFor_def)
    moreover have "0 \<le> ?n1 * slot" using n1 assms(1) by simp
    ultimately have a': "GetBackoffStartFor t2 slot ?e' ags = ?a + ?n1 * slot"
      by (simp add: GetBackoffStartFor_def)
    have "t2 - GetBackoffStartFor t2 slot ?e' ags < (2 ^ 32 - 1) * slot"
      unfolding a' using assms(4) \<open>0 \<le> ?n1 * slot\<close> by linarith
    from dec_backoff_spec [OF assms(1) this, unfolded a' e_Update_fields k1(2) [OF True]] obtain k2 where k2:
      "dec_backoff t2 slot ags ?e' = Some (if ?a + ?n1 * slot \<le> t2
         then e_UpdateBackoffSlotsNow k2 (?a + ?n1 * slot + slots_passed t2 slot ?q (?a + ?n1 * slot) (?s - ?n1) * slot) ?e'
         else ?e')"
      "?a + ?n1 * slot \<le> t2 \<Longrightarrow> uint (l_backoffSlots (e_link e) - k1 - k2)
         = ?s - ?n1 - slots_passed t2 slot ?q (?a + ?n1 * slot) (?s - ?n1)"
      by blast
    have "dec_backoff t2 slot ags ?e' = dec_backoff t2 slot ags e"
    proof (cases "?a + ?n1 * slot \<le> t2")
      case le: True
      let ?n2 = "slots_passed t2 slot ?q (?a + ?n1 * slot) (?s - ?n1)"
      have n: "?n = ?n1 + ?n2" using twice(1) [OF le] by simp
      have "e_UpdateBackoffSlotsNow (k1 + k2) (?a + ?n * slot) e = e_UpdateBackoffSlotsNow k (?a + ?n * slot) e"
        using k2(2) [OF le] k(2) True assms(2) n by (intro e_Update_eqI) (simp add: diff_diff_eq)
      then show ?thesis
        using k2(1) k(1) le True assms(2) by (simp add: e_Update_twice n algebra_simps)
    next
      case gt: False
      have n: "?n = ?n1" by (rule twice(2) [OF gt])
      have "e_UpdateBackoffSlotsNow k1 (?a + ?n1 * slot) e = e_UpdateBackoffSlotsNow k (?a + ?n1 * slot) e"
        using k1(2) [OF True] k(2) True assms(2) n by (intro e_Update_eqI) simp
      then show ?thesis using k2(1) k(1) gt True assms(2) n by simp
    qed
    then show ?thesis using k1(1) True by auto
  next
    case False
    then show ?thesis using k1(1) by simp
  qed
qed

section \<open>The end of the backoff stays where it is\<close>

lemma dec_backoff_end:
  assumes "slot > 0" "now - GetBackoffStartFor now slot e ags < (2 ^ 32 - 1) * slot"
  shows "\<exists>e'. dec_backoff now slot ags e = Some e'
    \<and> GetBackoffEndFor now slot e' ags = GetBackoffEndFor now slot e ags
    \<and> l_backoffSlots (e_link e') \<le> l_backoffSlots (e_link e)"
proof -
  let ?a = "GetBackoffStartFor now slot e ags" and ?s = "uint (l_backoffSlots (e_link e))"
  let ?n = "slots_passed now slot (e_qos e) ?a ?s"
  obtain k where k: "dec_backoff now slot ags e =
        Some (if ?a \<le> now then e_UpdateBackoffSlotsNow k (?a + ?n * slot) e else e)"
      "?a \<le> now \<Longrightarrow> uint (l_backoffSlots (e_link e) - k) = ?s - ?n"
    using dec_backoff_spec [OF assms] by blast
  show ?thesis
  proof (cases "?a \<le> now")
    case True
    have n: "0 \<le> ?n" by (rule slots_passed_bounds [OF assms(1) True]) simp
    have "ags + uint (e_aifsn now e) * slot \<le> ?a" by (simp add: GetBackoffStartFor_def)
    moreover have "0 \<le> ?n * slot" using n assms(1) by simp
    ultimately have "GetBackoffStartFor now slot (e_UpdateBackoffSlotsNow k (?a + ?n * slot) e) ags
        = ?a + ?n * slot"
      by (simp add: GetBackoffStartFor_def)
    moreover have "uint (l_backoffSlots (e_link e) - k) = ?s - ?n" by (rule k(2) [OF True])
    ultimately show ?thesis
      using n by (simp add: k(1) True GetBackoffEndFor_def left_diff_distrib word_le_def)
  qed (use k in simp)
qed

end
