(* ===== verification/Channel_Props.thy ===== *)
theory Channel_Props
  imports Channel_Countdown
begin

text \<open>
  What makes the channel access manager correct: the countdown does not depend on when it is
  updated, access is only granted after the medium was idle for the whole backoff, a request is
  never forgotten, and the answers about future accesses are sound.
\<close>

section \<open>An example\<close>

definition ex_phy :: phy where
  "ex_phy = \<lparr>phy_id = 0, phy_slot = 9000, phy_sifs = 16000, phy_pifs = 25000, phy_width = 80,
     phy_ofdm = True, phy_ax = True, phy_24 = False, phy_sleep = False, phy_off = False, phy_channel = 42\<rparr>"

definition ex_edcaf :: "ac_index \<Rightarrow> u8 \<Rightarrow> u32 \<Rightarrow> edcaf" where
  "ex_edcaf ac aifsn slots =
     \<lparr>e_qos = True, e_cfg = ex_qcfg\<lparr>m_ac := ac\<rparr>,
      e_link = ex_qlink\<lparr>l_aifsn := aifsn, l_backoffSlots := slots, l_backoffStart := 0,
        l_muEdcaTimer := 0, l_pedcaCtsPending := False, l_access := REQUESTED\<rparr>\<rparr>"

definition ex_cam :: cam where
  "ex_cam =
     \<lparr>m_txops = [ex_edcaf AC_VO 2 3, ex_edcaf AC_BE 3 7],
      m_lastAckTimeoutEnd = 0, m_lastCtsTimeoutEnd = 0, m_lastNavEnd = 0,
      m_lastRx = \<lparr>ts_start = 0, ts_end = 100000\<rparr>, m_lastRxReceivedOk = True, m_lastTxEnd = 0,
      m_lastBusyEnd = [(PRIMARY, 0), (SECONDARY, 0), (SECONDARY40, 150000)],
      m_lastPer20MHzBusyEnd = [0, 0, 0, 0],
      m_lastIdle = [(PRIMARY, \<lparr>ts_start = 0, ts_end = 0\<rparr>), (SECONDARY, \<lparr>ts_start = 0, ts_end = 0\<rparr>),
                    (SECONDARY40, \<lparr>ts_start = 0, ts_end = 0\<rparr>)],
      m_lastSwitchingEnd = 0, m_lastSleep = \<lparr>ts_start = 0, ts_end = 0\<rparr>,
      m_lastOff = \<lparr>ts_start = 0, ts_end = 0\<rparr>, m_eifsNoDifs = 0,
      m_lastNoPhy = \<lparr>ts_start = 0, ts_end = 0\<rparr>, m_cachedSifs = 0, m_cachedSlot = 0,
      m_accessTimeout = None, m_generateBackoffOnNoTx = False, m_proactiveBackoff = False,
      m_resetBackoffThreshold = 0, m_switchingEmlsrLinks = Map.empty,
      m_phyListeners = [0 \<mapsto> True], m_phy = Some ex_phy, m_nSlotsLeft = 0,
      m_nSlotsLeftMinDelay = 25000\<rparr>"

lemma ex_cam_ready: "cam_ready ex_cam"
  by (simp add: cam_ready_def GetSlot_def ex_cam_def ex_phy_def)

lemma ex_cam_ags:
  assumes "100000 \<le> t"
  shows "GetAccessGrantStart False t ex_cam = Some 116000"
  using assms
  by (subst GetAccessGrantStart_eq [of _ 0])
    (simp_all add: ex_cam_def medium_ends_def rx_access_start_def span_end_def GetSifs_def ex_phy_def)

lemma ex_edcaf_aifsn [simp]: "e_aifsn t (ex_edcaf ac a s) = a"
  by (simp add: e_aifsn_def ex_edcaf_def GetAifsn_def GetEdcaAifsn_def MuEdcaTimerRunning_def)

lemma ex_edcaf_start: "116000 \<le> ags \<Longrightarrow> GetBackoffStartFor t 9000 (ex_edcaf ac a s) ags = ags + uint a * 9000"
  by (simp add: GetBackoffStartFor_def) (simp add: ex_edcaf_def)

lemma ex_cam_slot: "GetSlot ex_cam = 9000" "m_txops ex_cam = [ex_edcaf AC_VO 2 3, ex_edcaf AC_BE 3 7]"
  by (simp_all add: GetSlot_def ex_cam_def ex_phy_def)

section \<open>The countdown\<close>

text \<open>
  The slots since the start of a countdown fit the 32-bit counter of \<^verbatim>\<open>UpdateBackoff\<close>.
\<close>

definition countdown_fits :: "time \<Rightarrow> time \<Rightarrow> 'z cam_scheme \<Rightarrow> bool" where
  "countdown_fits now ags c \<longleftrightarrow>
     (\<forall>e \<in> set (m_txops c). now - GetBackoffStartFor now (GetSlot c) e ags < (2 ^ 32 - 1) * GetSlot c)"

lemma UpdateBackoff_txops:
  assumes "GetAccessGrantStart False now c = Some ags" "UpdateBackoff now c = Some c'"
  obtains es where "map_opt (dec_backoff now (GetSlot c) ags) (m_txops c) = Some es" "c' = c\<lparr>m_txops := es\<rparr>"
  using assms by (auto simp: UpdateBackoff_def elim!: bind_SomeE)

lemma map_opt_bind:
  assumes "\<And>x. x \<in> set xs \<Longrightarrow> \<exists>y. f x = Some y \<and> g y = h x"
  shows "\<exists>ys. map_opt f xs = Some ys \<and> map_opt g ys = map_opt h xs"
  using assms
proof (induction xs)
  case (Cons x xs)
  obtain y where "f x = Some y" "g y = h x" using Cons.prems by auto
  moreover obtain ys where "map_opt f xs = Some ys" "map_opt g ys = map_opt h xs" using Cons by auto
  ultimately show ?case by simp
qed simp

lemma UpdateBackoff_total:
  assumes "cam_ready c" "GetAccessGrantStart False now c = Some ags" "countdown_fits now ags c"
  shows "\<exists>c'. UpdateBackoff now c = Some c'"
proof -
  have "\<exists>ys. map_opt (dec_backoff now (GetSlot c) ags) (m_txops c) = Some ys
      \<and> map_opt Some ys = map_opt (dec_backoff now (GetSlot c) ags) (m_txops c)"
  proof (rule map_opt_bind)
    fix e assume "e \<in> set (m_txops c)"
    then show "\<exists>y. dec_backoff now (GetSlot c) ags e = Some y \<and> Some y = dec_backoff now (GetSlot c) ags e"
      using assms dec_backoff_end [of "GetSlot c" now e ags] by (auto simp: cam_ready_def countdown_fits_def)
  qed
  then show ?thesis by (auto simp: UpdateBackoff_def assms(2))
qed

text \<open>
  Property C5: the countdown does not depend on when \<^verbatim>\<open>UpdateBackoff\<close> is called: with
  the same access grant start and the same AIFSN, an update at a time followed by one at a later
  time gives the same state as the later one alone, and neither fails.
\<close>

theorem countdown_independent_of_updates:
  assumes "cam_ready c" "t1 \<le> t2"
    "GetAccessGrantStart False t1 c = Some ags" "GetAccessGrantStart False t2 c = Some ags"
    "\<forall>e \<in> set (m_txops c). e_aifsn t1 e = e_aifsn t2 e" "countdown_fits t2 ags c"
  shows "\<exists>c1 c2. UpdateBackoff t1 c = Some c1 \<and> UpdateBackoff t2 c1 = Some c2 \<and> UpdateBackoff t2 c = Some c2"
proof -
  let ?dec = "\<lambda>t. dec_backoff t (GetSlot c) ags"
  have "\<exists>ys. map_opt (?dec t1) (m_txops c) = Some ys \<and> map_opt (?dec t2) ys = map_opt (?dec t2) (m_txops c)"
    using assms(1,2,5,6)
    by (intro map_opt_bind dec_backoff_twice) (auto simp: cam_ready_def countdown_fits_def)
  then obtain ys where ys: "map_opt (?dec t1) (m_txops c) = Some ys"
    "map_opt (?dec t2) ys = map_opt (?dec t2) (m_txops c)"
    by blast
  obtain c2 where c2: "UpdateBackoff t2 c = Some c2"
    using UpdateBackoff_total [OF assms(1,4,6)] by blast
  then obtain es where es: "map_opt (?dec t2) (m_txops c) = Some es" "c2 = c\<lparr>m_txops := es\<rparr>"
    by (rule UpdateBackoff_txops [OF assms(4)])
  have "UpdateBackoff t1 c = Some (c\<lparr>m_txops := ys\<rparr>)" by (simp add: UpdateBackoff_def assms(3) ys(1))
  moreover have "UpdateBackoff t2 (c\<lparr>m_txops := ys\<rparr>) = Some c2"
    by (simp add: UpdateBackoff_def assms(4) ys(2) es)
  ultimately show ?thesis using c2 by blast
qed

theorem countdown_independent_of_updates_witness:
  "\<exists>c1 c2. UpdateBackoff 150000 ex_cam = Some c1 \<and> UpdateBackoff 161000 c1 = Some c2
     \<and> UpdateBackoff 161000 ex_cam = Some c2"
  by (rule countdown_independent_of_updates [OF ex_cam_ready, of 150000 161000 116000])
    (simp_all add: ex_cam_ags ex_cam_slot countdown_fits_def ex_edcaf_start)

text \<open>
  counting down does not move the end of any backoff, only shortens what is left of
  it, and leaves the access grant start alone.
\<close>

theorem update_keeps_backoff_end:
  assumes "cam_ready c" "GetAccessGrantStart False now c = Some ags" "countdown_fits now ags c"
  shows "\<exists>c'. UpdateBackoff now c = Some c' \<and> length (m_txops c') = length (m_txops c)
    \<and> GetAccessGrantStart False now c' = Some ags
    \<and> (\<forall>i < length (m_txops c).
         GetBackoffEndFor now (GetSlot c') (m_txops c' ! i) ags = GetBackoffEndFor now (GetSlot c) (m_txops c ! i) ags
         \<and> l_backoffSlots (e_link (m_txops c' ! i)) \<le> l_backoffSlots (e_link (m_txops c ! i))
         \<and> l_access (e_link (m_txops c' ! i)) = l_access (e_link (m_txops c ! i)))"
proof -
  obtain c' where c': "UpdateBackoff now c = Some c'" using UpdateBackoff_total [OF assms] by blast
  then obtain es where es: "map_opt (dec_backoff now (GetSlot c) ags) (m_txops c) = Some es"
    and eq: "c' = c\<lparr>m_txops := es\<rparr>"
    by (rule UpdateBackoff_txops [OF assms(2)])
  have "GetBackoffEndFor now (GetSlot c) (es ! i) ags = GetBackoffEndFor now (GetSlot c) (m_txops c ! i) ags
         \<and> l_backoffSlots (e_link (es ! i)) \<le> l_backoffSlots (e_link (m_txops c ! i))
         \<and> l_access (e_link (es ! i)) = l_access (e_link (m_txops c ! i))"
    if i: "i < length (m_txops c)" for i
  proof -
    have d: "dec_backoff now (GetSlot c) ags (m_txops c ! i) = Some (es ! i)" by (rule map_opt_nth [OF es i])
    have "now - GetBackoffStartFor now (GetSlot c) (m_txops c ! i) ags < (2 ^ 32 - 1) * GetSlot c"
      using assms(3) nth_mem [OF i] unfolding countdown_fits_def by blast
    moreover have "0 < GetSlot c" using assms(1) by (simp add: cam_ready_def)
    ultimately show ?thesis
      using dec_backoff_end [of "GetSlot c" now "m_txops c ! i" ags] d dec_backoff_frame(1) [OF d] by simp
  qed
  then show ?thesis using c' map_opt_length [OF es] assms(2) by (simp add: eq)
qed

theorem update_keeps_backoff_end_witness:
  "\<exists>c'. UpdateBackoff 150000 ex_cam = Some c'
     \<and> GetBackoffEndFor 150000 9000 (m_txops c' ! 0) 116000 = 161000"
proof -
  from update_keeps_backoff_end [OF ex_cam_ready ex_cam_ags, of 150000] obtain c' where
    "UpdateBackoff 150000 ex_cam = Some c'"
    "GetBackoffEndFor 150000 (GetSlot c') (m_txops c' ! 0) 116000 = GetBackoffEndFor 150000 9000 (m_txops ex_cam ! 0) 116000"
    by (auto simp: ex_cam_slot countdown_fits_def ex_edcaf_start)
  moreover from this(1) have "GetSlot c' = 9000"
    by (auto simp: UpdateBackoff_def ex_cam_slot elim!: bind_SomeE)
  ultimately show ?thesis
    by (auto simp: ex_cam_slot GetBackoffEndFor_def ex_edcaf_start) (simp add: ex_edcaf_def)
qed

end
