(* ===== verification/Channel_Grants.thy ===== *)
theory Channel_Grants
  imports Channel_Props
begin

text \<open>
  Which channel access function is granted access, and that a request is never forgotten.
\<close>

section \<open>Who is granted access\<close>

text \<open>
  An attempt to transmit that does not start, seen from the loop that grants access: every other
  function is as it was, or does not request access any more, and the slot time is the same.
\<close>

definition others_kept :: "nat \<Rightarrow> 'z cam_scheme \<Rightarrow> 'z cam_scheme \<Rightarrow> bool" where
  "others_kept i c c' \<longleftrightarrow>
     GetSlot c' = GetSlot c \<and> length (m_txops c') = length (m_txops c)
     \<and> (\<forall>j. j \<noteq> i \<longrightarrow> m_txops c' ! j = m_txops c ! j \<or> l_access (e_link (m_txops c' ! j)) \<noteq> REQUESTED)"

lemma others_kept_refl [simp]: "others_kept i c c"
  by (simp add: others_kept_def)

lemma others_kept_trans: "others_kept i c d \<Longrightarrow> others_kept i d e \<Longrightarrow> others_kept i c e"
  unfolding others_kept_def by (metis (no_types))

definition failed_start_local :: "(nat \<Rightarrow> nat \<Rightarrow> 'z cam_scheme \<Rightarrow> ('z cam_scheme \<times> bool) option) \<Rightarrow> bool" where
  "failed_start_local startTx \<longleftrightarrow>
     (\<forall>i width c c'. startTx i width c = Some (c', False) \<longrightarrow> others_kept i c c')"

lemma on_txop_simps [simp]:
  "GetSlot (on_txop i f c) = GetSlot c" "length (m_txops (on_txop i f c)) = length (m_txops c)"
  "i \<noteq> j \<Longrightarrow> m_txops (on_txop i f c) ! j = m_txops c ! j"
  by (simp_all add: on_txop_def)

lemma UpdateLastIdlePeriod_frame:
  assumes "UpdateLastIdlePeriod now c = Some c'"
  obtains idle where "c' = c\<lparr>m_lastIdle := idle\<rparr>"
proof (cases "idle_since c \<ge> now")
  case True
  with assms show thesis by (intro that [of "m_lastIdle c"]) (simp add: UpdateLastIdlePeriod_def)
next
  case False
  with assms that show thesis by (auto simp: UpdateLastIdlePeriod_def elim!: bind_SomeE)
qed

lemma access_width_frame:
  assumes "access_width now c = Some (c', width)"
  shows "m_txops c' = m_txops c" "GetSlot c' = GetSlot c"
  using assms
  by (auto simp: access_width_def Let_def GetLargestIdlePrimaryChannel_def GetSlot_def
      elim!: bind_SomeE UpdateLastIdlePeriod_frame split: if_splits option.splits)

text \<open>Whoever can access then could access before, and is as it was.\<close>

lemma can_access_kept:
  assumes "others_kept i c c'" "j \<noteq> i" "can_access now ags c' j"
  shows "can_access now ags c j" "edca_disabled now c' j = edca_disabled now c j"
proof -
  have "m_txops c' ! j = m_txops c ! j" using assms by (auto simp: others_kept_def can_access_def Let_def)
  with assms show "can_access now ags c j" "edca_disabled now c' j = edca_disabled now c j"
    by (simp_all add: others_kept_def can_access_def edca_disabled_def)
qed

lemma collisions_calls: "collisions collide js c = Some (c', calls) \<Longrightarrow> calls = map InternalCollision js"
  by (induction js arbitrary: c calls) (auto elim!: bind_SomeE)

fun granted :: "time \<Rightarrow> time \<Rightarrow> 'z cam_scheme \<Rightarrow> cam_call list \<Rightarrow> cam_call \<Rightarrow> bool" where
  "granted now ags c calls (StartTx i width) \<longleftrightarrow> can_access now ags c i \<and> \<not> edca_disabled now c i"
| "granted now ags c calls (InternalCollision j) \<longleftrightarrow>
     can_access now ags c j \<and> (\<exists>i width. i < j \<and> StartTx i width \<in> set calls)"
| "granted now ags c calls _ \<longleftrightarrow> False"

lemma granted_mono: "granted now ags c calls x \<Longrightarrow> granted now ags c (y # calls) x"
  by (cases x) auto

definition position :: "cam_call \<Rightarrow> nat option" where
  "position x = (case x of StartTx i _ \<Rightarrow> Some i | InternalCollision j \<Rightarrow> Some j | _ \<Rightarrow> None)"

lemma granted_access:
  assumes "position x = Some i" "granted now ags c calls x"
  shows "can_access now ags c i"
  using assms by (cases x) (auto simp: position_def)

lemma granted_cong:
  assumes "position x = Some i" "granted now ags c' calls x" "can_access now ags c i"
    "edca_disabled now c' i = edca_disabled now c i"
  shows "granted now ags c calls x"
  using assms by (cases x) (auto simp: position_def)

lemma grant_from_calls:
  assumes "failed_start_local startTx" "sorted_wrt (<) is"
    "grant_from startTx collide now ags is c = Some (c', calls)" "x \<in> set calls"
  shows "granted now ags c calls x \<and> (\<exists>i \<in> set is. position x = Some i)"
  using assms
proof (induction startTx collide now ags "is" c arbitrary: c' calls x rule: grant_from.induct)
  case (2 startTx collide now ags i "is" c)
  show ?case
  proof (cases "can_access now ags c i \<and> \<not> edca_disabled now c i")
    case False
    with 2 show ?thesis by auto
  next
    case True
    with 2(5) obtain c1 width c2 started where
      w: "access_width now c = Some (c1, width)" and s: "startTx i width c1 = Some (c2, started)"
      and r: "(if started
         then do { (c, calls) \<leftarrow> collisions collide (filter (can_access now ags c) is) c2;
                   Some (c, StartTx i width # calls) }
         else do { (c, calls) \<leftarrow> grant_from startTx collide now ags is
                                   (on_txop i (e_UpdateBackoffSlotsNow 0 now) c2);
                   Some (c, StartTx i width # calls) }) = Some (c', calls)"
      by (auto elim!: bind_SomeE)
    show ?thesis
    proof (cases started)
      case st: True
      with r obtain c3 cs where "collisions collide (filter (can_access now ags c) is) c2 = Some (c3, cs)"
        and calls: "calls = StartTx i width # cs" by (auto elim!: bind_SomeE)
      then have "cs = map InternalCollision (filter (can_access now ags c) is)"
        by (auto dest: collisions_calls)
      with calls 2(6) have "x = StartTx i width \<or> (\<exists>j \<in> set is. can_access now ags c j \<and> x = InternalCollision j)"
        by auto
      with calls 2(4) True show ?thesis by (force simp: position_def)
    next
      case False
      let ?c3 = "on_txop i (e_UpdateBackoffSlotsNow 0 now) c2"
      from False r obtain cs where g: "grant_from startTx collide now ags is ?c3 = Some (c', cs)"
        and calls: "calls = StartTx i width # cs" by (auto elim!: bind_SomeE)
      have "others_kept i c1 c2" using s False 2(3) by (auto simp: failed_start_local_def)
      then have kept: "others_kept i c ?c3"
        using access_width_frame [OF w] by (auto simp: others_kept_def)
      show ?thesis
      proof (cases "x = StartTx i width")
        case True
        then show ?thesis using \<open>can_access now ags c i \<and> \<not> edca_disabled now c i\<close> by (simp add: position_def)
      next
        case neq: False
        with 2(6) calls have x: "x \<in> set cs" by simp
        have sorted: "sorted_wrt (<) is" using 2(4) by simp
        have g': "granted now ags ?c3 cs x" "\<exists>i \<in> set is. position x = Some i"
          using 2(1) [OF True refl w refl s refl False 2(3) sorted g x] by blast+
        then obtain j where j: "position x = Some j" "j \<in> set is" by blast
        then have "j \<noteq> i" using 2(4) by auto
        from can_access_kept [OF kept this granted_access [OF j(1) g'(1)]]
        have "granted now ags c cs x" using granted_cong [OF j(1) g'(1)] by blast
        with g'(2) calls show ?thesis by (auto intro: granted_mono)
      qed
    qed
  qed
qed simp

lemma can_access_idle:
  assumes "can_access now ags c i" "GetAccessGrantStart False now c = Some ags"
    "omap_get (m_lastBusyEnd c) PRIMARY = Some busyEnd" "t \<in> medium_ends False now busyEnd c"
  shows "t + GetSifs c + uint (e_aifsn now (m_txops c ! i)) * GetSlot c
      + uint (l_backoffSlots (e_link (m_txops c ! i))) * GetSlot c \<le> now"
proof -
  have "finite (medium_ends False now busyEnd c)" by (simp add: medium_ends_def)
  with assms(4) have "t \<le> Max (medium_ends False now busyEnd c)" by simp
  moreover have "ags = Max (medium_ends False now busyEnd c) + GetSifs c"
    using assms(2) GetAccessGrantStart_eq [OF assms(3)] by simp
  moreover have "ags + uint (e_aifsn now (m_txops c ! i)) * GetSlot c
      + uint (l_backoffSlots (e_link (m_txops c ! i))) * GetSlot c \<le> now"
    using assms(1)
    by (simp add: can_access_def Let_def GetBackoffEndFor_def GetBackoffStartFor_def max_add_distrib_left)
  ultimately show ?thesis by linarith
qed

definition eligible :: "time \<Rightarrow> time \<Rightarrow> 'z cam_scheme \<Rightarrow> nat \<Rightarrow> bool" where
  "eligible now busyEnd c i \<longleftrightarrow>
     i < length (m_txops c) \<and> l_access (e_link (m_txops c ! i)) = REQUESTED
     \<and> (let backoff = uint (l_backoffSlots (e_link (m_txops c ! i))) * GetSlot c
        in l_backoffStart (e_link (m_txops c ! i)) + backoff \<le> now
           \<and> (\<forall>t \<in> medium_ends False now busyEnd c.
                t + GetSifs c + uint (e_aifsn now (m_txops c ! i)) * GetSlot c + backoff \<le> now))"

lemma can_access_eligible:
  assumes "can_access now ags c i" "GetAccessGrantStart False now c = Some ags"
    "omap_get (m_lastBusyEnd c) PRIMARY = Some busyEnd"
  shows "eligible now busyEnd c i"
  using can_access_idle [OF assms] assms(1)
  by (auto simp: eligible_def can_access_def Let_def GetBackoffEndFor_def GetBackoffStartFor_def max_def
      split: if_splits)

lemma grants_after_idle:
  assumes "failed_start_local startTx" "DoGrantDcfAccess startTx collide now c = Some (c', calls)"
    "omap_get (m_lastBusyEnd c) PRIMARY = Some busyEnd"
  shows "StartTx i width \<in> set calls \<Longrightarrow> eligible now busyEnd c i \<and> \<not> edca_disabled now c i"
    "InternalCollision j \<in> set calls \<Longrightarrow>
       eligible now busyEnd c j \<and> (\<exists>i width. i < j \<and> StartTx i width \<in> set calls)"
proof -
  let ?ags = "Max (medium_ends False now busyEnd c) + GetSifs c"
  note ags = GetAccessGrantStart_eq [OF assms(3), of False now]
  have g: "granted now ?ags c calls x" if "x \<in> set calls" for x
  proof (cases "?ags > now")
    case True
    with assms(2) that show ?thesis by (simp add: DoGrantDcfAccess_def ags)
  next
    case False
    with assms(2) have "grant_from startTx collide now ?ags [0..<length (m_txops c)] c = Some (c', calls)"
      by (simp add: DoGrantDcfAccess_def ags)
    from grant_from_calls [OF assms(1) sorted_wrt_upt this that] show ?thesis ..
  qed
  show "StartTx i width \<in> set calls \<Longrightarrow> eligible now busyEnd c i \<and> \<not> edca_disabled now c i"
    "InternalCollision j \<in> set calls \<Longrightarrow>
       eligible now busyEnd c j \<and> (\<exists>i width. i < j \<and> StartTx i width \<in> set calls)"
    using g can_access_eligible [OF _ ags assms(3)] by fastforce+
qed

text \<open>An attempt that always starts, to try the manager alone.\<close>

definition ex_start :: "nat \<Rightarrow> nat \<Rightarrow> 'z cam_scheme \<Rightarrow> ('z cam_scheme \<times> bool) option" where
  "ex_start i width c =
     Some (on_txop i (\<lambda>e. e\<lparr>e_link := txop_NotifyChannelAccessed (e_link e)\<rparr>) c, True)"

section \<open>No request is forgotten\<close>

lemma next_txop_le:
  assumes "next_txop now slot ags es best expected = (b, x)"
  shows "x \<le> expected" "b = None \<Longrightarrow> x = expected"
    "e \<in> set es \<Longrightarrow> l_access (e_link e) = REQUESTED \<Longrightarrow> GetBackoffEndFor now slot e ags > now \<Longrightarrow>
       x \<le> GetBackoffEndFor now slot e ags"
proof -
  show "x \<le> expected" using assms by (induction es arbitrary: best expected) (fastforce split: if_splits)+
  have "b = None \<longrightarrow> best = None \<and> x = expected"
    using assms by (induction es arbitrary: best expected) (force split: if_splits)+
  then show "b = None \<Longrightarrow> x = expected" by blast
  show "e \<in> set es \<Longrightarrow> l_access (e_link e) = REQUESTED \<Longrightarrow> GetBackoffEndFor now slot e ags > now \<Longrightarrow>
       x \<le> GetBackoffEndFor now slot e ags"
    using assms
  proof (induction es arbitrary: best expected)
    case (Cons f es)
    have le: "next_txop now slot ags es best' expected' = (b, x) \<Longrightarrow> x \<le> expected'" for best' expected'
      by (induction es arbitrary: best' expected') (fastforce split: if_splits)+
    show ?case
    proof (cases "e = f")
      case True
      with Cons.prems le show ?thesis by (fastforce split: if_splits)
    next
      case False
      with Cons show ?thesis by (auto split: if_splits)
    qed
  qed simp
qed

text \<open>
  The latest time the timeout is set to for a backoff end: with an alert some slots before it, the
  timeout is for the alert, which is not given before a minimum delay since the medium became idle.
\<close>

definition latest_timeout :: "'z cam_scheme \<Rightarrow> time \<Rightarrow> time \<Rightarrow> time" where
  "latest_timeout c ags backoffEnd =
     (if m_nSlotsLeft c = 0 then backoffEnd
      else max backoffEnd (ags - GetSifs c + m_nSlotsLeftMinDelay c))"

lemma access_timeout_armed:
  assumes "DoRestartAccessTimeoutIfNeeded now c = Some (c', calls)"
    "GetAccessGrantStart False now c = Some ags" "0 \<le> GetSlot c"
    "e \<in> set (m_txops c)" "l_access (e_link e) = REQUESTED"
    "GetBackoffEndFor now (GetSlot c) e ags > now"
    "GetBackoffEndFor now (GetSlot c) e ags < MaximumSimulationTime"
  shows "\<exists>t. m_accessTimeout c' = Some t \<and> t \<le> latest_timeout c ags (GetBackoffEndFor now (GetSlot c) e ags)"
proof -
  let ?E = "GetBackoffEndFor now (GetSlot c) e ags"
  obtain b x where n: "next_txop now (GetSlot c) ags (m_txops c) None MaximumSimulationTime = (b, x)"
    by fastforce
  have x: "x \<le> ?E" by (rule next_txop_le(3) [OF n assms(4-6)])
  then obtain f where f: "b = Some f" using next_txop_le(2) [OF n] assms(7) by (cases b) auto
  define notify where
    "notify = max (x - int (m_nSlotsLeft c) * GetSlot c) (ags - GetSifs c + m_nSlotsLeftMinDelay c)"
  define delay where "delay = (if m_nSlotsLeft c > 0 \<and> notify > now then notify - now else x - now)"
  have "0 \<le> int (m_nSlotsLeft c) * GetSlot c" using assms(3) by simp
  then have "x - int (m_nSlotsLeft c) * GetSlot c \<le> ?E" using x by linarith
  then have d: "now + delay \<le> latest_timeout c ags ?E"
    using x by (auto simp: delay_def notify_def latest_timeout_def)
  have "m_accessTimeout c' = (case (case m_accessTimeout c of Some t \<Rightarrow> if t - now > delay then None else Some t
       | None \<Rightarrow> None) of Some t \<Rightarrow> Some t | None \<Rightarrow> Some (now + delay))"
    using assms(1,2) n f
    by (cases "m_accessTimeout c")
      (auto simp: DoRestartAccessTimeoutIfNeeded_def Let_def notify_def [symmetric] delay_def split: if_splits)
  with d show ?thesis by (cases "m_accessTimeout c") (auto split: if_splits)
qed

lemma restart_frame:
  assumes "DoRestartAccessTimeoutIfNeeded now c = Some (c', calls)"
  shows "c' = c\<lparr>m_accessTimeout := m_accessTimeout c'\<rparr>"
  using assms
  by (auto simp: DoRestartAccessTimeoutIfNeeded_def Let_def elim!: bind_SomeE split: option.splits if_splits prod.splits)

text \<open>A run of the loop that starts nothing.\<close>

lemma grant_from_idle:
  assumes "grant_from startTx collide now ags is c = Some (c', calls)" "\<forall>i w. StartTx i w \<notin> set calls"
  shows "c' = c \<and> (\<forall>i \<in> set is. can_access now ags c i \<longrightarrow> edca_disabled now c i)"
  using assms
proof (induction startTx collide now ags "is" c arbitrary: c' calls rule: grant_from.induct)
  case (2 startTx collide now ags i "is" c)
  show ?case
  proof (cases "can_access now ags c i \<and> \<not> edca_disabled now c i")
    case True
    with 2(3) have "\<exists>w cs. calls = StartTx i w # cs"
      by (auto elim!: bind_SomeE split: if_splits)
    with 2(4) have False by (metis list.set_intros(1))
    then show ?thesis ..
  next
    case False
    with 2 show ?thesis by auto
  qed
qed simp

lemma timeout_frame [simp]:
  "GetSlot (c\<lparr>m_accessTimeout := t\<rparr>) = GetSlot c"
  "GetAccessGrantStart ignoreNav now (c\<lparr>m_accessTimeout := t\<rparr>) = GetAccessGrantStart ignoreNav now c"
  "edca_disabled now (c\<lparr>m_accessTimeout := t\<rparr>) i = edca_disabled now c i"
proof -
  have sifs: "GetSifs (c\<lparr>m_accessTimeout := t\<rparr>) = GetSifs c" by (simp add: GetSifs_def split: option.split)
  have rx: "rx_access_start now (c\<lparr>m_accessTimeout := t\<rparr>) = rx_access_start now c"
    by (simp add: rx_access_start_def)
  have "DoGetAccessGrantStart ignoreNav now (c\<lparr>m_accessTimeout := t\<rparr>) = DoGetAccessGrantStart ignoreNav now c"
    by (simp add: DoGetAccessGrantStart_def rx del: sort_key_simps cong: if_cong)
  then show "GetAccessGrantStart ignoreNav now (c\<lparr>m_accessTimeout := t\<rparr>) = GetAccessGrantStart ignoreNav now c"
    by (simp add: GetAccessGrantStart_def sifs)
qed (simp_all add: GetSlot_def edca_disabled_def split: option.split)

lemma no_start_waits:
  assumes "DoGrantDcfAccess startTx collide now c = Some (c', calls)" "\<forall>i w. StartTx i w \<notin> set calls"
    "GetAccessGrantStart False now c = Some ags" "0 \<le> GetSlot c"
    "i < length (m_txops c)" "l_access (e_link (m_txops c ! i)) = REQUESTED" "\<not> edca_disabled now c i"
  shows "c' = c" "GetBackoffEndFor now (GetSlot c) (m_txops c ! i) ags > now"
proof -
  have "c' = c \<and> GetBackoffEndFor now (GetSlot c) (m_txops c ! i) ags > now"
  proof (cases "ags > now")
    case True
    moreover have "ags \<le> GetBackoffEndFor now (GetSlot c) (m_txops c ! i) ags"
    proof -
      have "0 \<le> uint (e_aifsn now (m_txops c ! i)) * GetSlot c"
        "0 \<le> uint (l_backoffSlots (e_link (m_txops c ! i))) * GetSlot c" using assms(4) by simp_all
      then show ?thesis by (simp add: GetBackoffEndFor_def GetBackoffStartFor_def)
    qed
    ultimately show ?thesis using assms(1,3) by (simp add: DoGrantDcfAccess_def)
  next
    case False
    with assms(1,3) have "grant_from startTx collide now ags [0..<length (m_txops c)] c = Some (c', calls)"
      by (simp add: DoGrantDcfAccess_def)
    from grant_from_idle [OF this assms(2)] assms(5-7) show ?thesis
      by (auto simp: can_access_def Let_def)
  qed
  then show "c' = c" "GetBackoffEndFor now (GetSlot c) (m_txops c ! i) ags > now" by blast+
qed

lemma ResetBackoff_not_requested: "ResetBackoff now e = Some e' \<Longrightarrow> l_access (e_link e') = NOT_REQUESTED"
  by (auto simp: ResetBackoff_def Let_def elim!: bind_SomeE)

lemma ResetAllBackoffs_not_requested:
  assumes "ResetAllBackoffs now c = Some c'" "i < length (m_txops c')"
  shows "l_access (e_link (m_txops c' ! i)) = NOT_REQUESTED"
proof -
  obtain es where es: "map_opt (ResetBackoff now) (m_txops c) = Some es" and c': "m_txops c' = es"
    using assms(1) by (auto simp: ResetAllBackoffs_def elim!: bind_SomeE)
  have "i < length (m_txops c)" using assms(2) map_opt_length [OF es] by (simp add: c')
  from ResetBackoff_not_requested [OF map_opt_nth [OF es this]] show ?thesis by (simp add: c')
qed

text \<open>
  Property C6: when the access timeout expires and no transmission is started, no request is
  forgotten: every function still requesting access, and not disabled, has its backoff end ahead
  (before the end of the simulation time), and a timeout is pending at that time or earlier - or, if
  other links are to be alerted some slots before, at the end of the minimum delay of the alert,
  which may be later.
\<close>

theorem requested_access_served_or_timed:
  assumes "AccessTimeout startTx collide now c = Some (c', calls)" "\<forall>i w. StartTx i w \<notin> set calls"
    "0 \<le> GetSlot c" "GetAccessGrantStart False now c' = Some ags"
    "i < length (m_txops c')" "l_access (e_link (m_txops c' ! i)) = REQUESTED" "\<not> edca_disabled now c' i"
    "GetBackoffEndFor now (GetSlot c') (m_txops c' ! i) ags < MaximumSimulationTime"
  shows "GetBackoffEndFor now (GetSlot c') (m_txops c' ! i) ags > now
    \<and> (\<exists>t. m_accessTimeout c' = Some t
         \<and> (t \<le> GetBackoffEndFor now (GetSlot c') (m_txops c' ! i) ags
              \<or> m_nSlotsLeft c > 0 \<and> t \<le> ags - GetSifs c + m_nSlotsLeftMinDelay c))"
proof -
  let ?c0 = "c\<lparr>m_accessTimeout := None\<rparr>"
  consider (reset) "ResetAllBackoffs now ?c0 = Some c'"
    | (run) c1 c2 calls1 calls2 where "UpdateBackoff now ?c0 = Some c1"
      "DoGrantDcfAccess startTx collide now c1 = Some (c2, calls1)"
      "DoRestartAccessTimeoutIfNeeded now c2 = Some (c', calls2)" "calls = calls1 @ calls2"
    using assms(1) by (auto simp: AccessTimeout_def Let_def elim!: bind_SomeE split: if_splits)
  then show ?thesis
  proof cases
    case reset
    from ResetAllBackoffs_not_requested [OF this assms(5)] assms(6) show ?thesis by simp
  next
    case run
    obtain es where c1: "c1 = ?c0\<lparr>m_txops := es\<rparr>"
      using run(1) by (auto simp: UpdateBackoff_def elim!: bind_SomeE)
    have slot: "GetSlot c1 = GetSlot c" "m_nSlotsLeft c1 = m_nSlotsLeft c" by (simp_all add: c1)
    have lt: "latest_timeout c1 ags x = latest_timeout c ags x" for x
      by (simp add: c1 latest_timeout_def GetSifs_def split: option.split)
    have c': "c' = c2\<lparr>m_accessTimeout := m_accessTimeout c'\<rparr>" by (rule restart_frame [OF run(3)])
    have tx: "m_txops c' = m_txops c2" by (subst c') simp
    have sl: "GetSlot c' = GetSlot c2" by (subst c') simp
    have dis: "edca_disabled now c' i = edca_disabled now c2 i" by (subst c') simp
    have ags': "GetAccessGrantStart False now c' = GetAccessGrantStart False now c2" by (subst c') simp
    have none: "\<forall>i w. StartTx i w \<notin> set calls1" using assms(2) run(4) by simp
    have "c2 = c1"
    proof -
      obtain a where a: "GetAccessGrantStart False now c1 = Some a"
        using run(2) by (auto simp: DoGrantDcfAccess_def elim!: bind_SomeE)
      show ?thesis
      proof (cases "a > now")
        case True
        then show ?thesis using run(2) a by (simp add: DoGrantDcfAccess_def)
      next
        case False
        with run(2) a have "grant_from startTx collide now a [0..<length (m_txops c1)] c1 = Some (c2, calls1)"
          by (simp add: DoGrantDcfAccess_def)
        from grant_from_idle [OF this none] show ?thesis by simp
      qed
    qed
    note [simp] = this
    have ags1: "GetAccessGrantStart False now c1 = Some ags" using assms(4) ags' by simp
    have fut: "GetBackoffEndFor now (GetSlot c1) (m_txops c1 ! i) ags > now"
      using run(2) none ags1 by (rule no_start_waits(2)) (use assms(3,5-7) tx dis slot in simp_all)
    have "m_txops c1 ! i \<in> set (m_txops c1)" using assms(5) tx by simp
    from access_timeout_armed [OF run(3) [unfolded \<open>c2 = c1\<close>] ags1 _ this _ fut] assms(3,6,8)
    obtain t where t: "m_accessTimeout c' = Some t"
      "t \<le> latest_timeout c ags (GetBackoffEndFor now (GetSlot c1) (m_txops c1 ! i) ags)"
      by (auto simp: tx sl slot(1) lt)
    then have "t \<le> GetBackoffEndFor now (GetSlot c1) (m_txops c1 ! i) ags
        \<or> m_nSlotsLeft c > 0 \<and> t \<le> ags - GetSifs c + m_nSlotsLeftMinDelay c"
      by (auto simp: latest_timeout_def max_def split: if_splits)
    with t(1) fut show ?thesis by (auto simp: tx sl)
  qed
qed

theorem requested_access_served_or_timed_witness:
  "\<exists>c' calls t. AccessTimeout ex_start (\<lambda>_. Some) 120000 ex_cam = Some (c', calls)
     \<and> m_accessTimeout c' = Some t \<and> t \<le> 161000"
proof -
  have u: "dec_backoff 120000 9000 116000 (ex_edcaf ac a s) = Some (ex_edcaf ac a s)" if "1 \<le> uint a" for ac a s
    using that by (simp add: dec_backoff_def ex_edcaf_start Let_def)
  have [simp]: "m_nSlotsLeft ex_cam = 0" by (simp add: ex_cam_def)
  let ?c0 = "ex_cam\<lparr>m_accessTimeout := None\<rparr>"
  have e0: "?c0 = ex_cam" by (simp add: ex_cam_def)
  have "UpdateBackoff 120000 ex_cam = Some ex_cam"
    by (simp add: UpdateBackoff_def ex_cam_ags ex_cam_slot u)
  moreover have "can_access 120000 116000 ex_cam 0 = False" "can_access 120000 116000 ex_cam (Suc 0) = False"
    by (simp_all add: can_access_def ex_cam_slot GetBackoffEndFor_def ex_edcaf_start Let_def)
      (simp_all add: ex_edcaf_def)
  then have "DoGrantDcfAccess ex_start (\<lambda>_. Some) 120000 ex_cam = Some (ex_cam, [])"
    by (simp add: DoGrantDcfAccess_def ex_cam_ags ex_cam_slot(2) upt_rec)
  moreover obtain c' calls where r: "DoRestartAccessTimeoutIfNeeded 120000 ex_cam = Some (c', calls)"
      "calls = []"
  proof -
    obtain b x where "next_txop 120000 (GetSlot ex_cam) 116000 (m_txops ex_cam) None MaximumSimulationTime = (b, x)"
      by fastforce
    with that show thesis
      by (cases b) (simp_all add: DoRestartAccessTimeoutIfNeeded_def ex_cam_ags Let_def)
  qed
  ultimately have a: "AccessTimeout ex_start (\<lambda>_. Some) 120000 ex_cam = Some (c', calls)"
    by (simp add: AccessTimeout_def Let_def e0) (simp add: ex_cam_def ex_phy_def)
  have c': "c' = ex_cam\<lparr>m_accessTimeout := m_accessTimeout c'\<rparr>" by (rule restart_frame [OF r(1)])
  have "m_txops c' ! 0 = ex_edcaf AC_VO 2 3" "GetSlot c' = 9000" "length (m_txops c') = 2"
    "GetAccessGrantStart False 120000 c' = Some 116000"
    by (subst c', simp add: ex_cam_slot ex_cam_ags)+
  moreover have "\<not> edca_disabled 120000 c' 0"
    by (subst c', simp add: edca_disabled_def ex_cam_slot ex_edcaf_def EdcaDisabled_def MuEdcaTimerRunning_def)
  moreover have "l_access (e_link (ex_edcaf AC_VO 2 3)) = REQUESTED"
    "uint (l_backoffSlots (e_link (ex_edcaf AC_VO 2 3))) = 3" by (simp_all add: ex_edcaf_def)
  ultimately have "GetBackoffEndFor 120000 (GetSlot c') (m_txops c' ! 0) 116000 = 161000"
    "\<exists>t. m_accessTimeout c' = Some t \<and> t \<le> GetBackoffEndFor 120000 (GetSlot c') (m_txops c' ! 0) 116000"
    using requested_access_served_or_timed [OF a, of 116000 0] r(2)
    by (simp_all add: ex_cam_slot GetBackoffEndFor_def ex_edcaf_start MaximumSimulationTime_def)
  with a show ?thesis by auto
qed

end
