(* ===== verification/Channel_Structs.thy ===== *)
theory Channel_Structs
  imports Channel_Grants
begin

text \<open>
  The channel access manager as a state machine: its steps, and the invariant that the busy and
  idle periods are kept for exactly the channels of the PHY, which makes the lookups by channel
  type safe and bounds the width of a transmission.
\<close>

section \<open>The channels of a PHY\<close>

definition all_chans :: "chanlist list" where
  "all_chans = [PRIMARY, SECONDARY, SECONDARY40, SECONDARY80, SECONDARY160]"

definition chan_count :: "nat \<Rightarrow> nat" where
  "chan_count width =
     (if width \<ge> 320 then 5 else if width \<ge> 160 then 4 else if width \<ge> 80 then 3
      else if width \<ge> 40 then 2 else 1)"

text \<open>The keys of both maps are the first channel types, the primary one at least.\<close>

definition chan_keys :: "'z cam_scheme \<Rightarrow> bool" where
  "chan_keys c \<longleftrightarrow>
     map fst (m_lastIdle c) = map fst (m_lastBusyEnd c)
     \<and> (\<exists>n \<in> {1..5}. map fst (m_lastBusyEnd c) = take n all_chans)"

definition chan_widths :: "'z cam_scheme \<Rightarrow> bool" where
  "chan_widths c \<longleftrightarrow>
     (case m_phy c of
        None \<Rightarrow> True
      | Some p \<Rightarrow>
          (phy_ofdm p \<longrightarrow> map fst (m_lastBusyEnd c) = take (chan_count (phy_width p)) all_chans)
          \<and> length (m_lastPer20MHzBusyEnd c) =
              (if phy_width p > 20 \<and> phy_ax p then phy_width p div 20 else 0))"

definition chan_ok :: "'z cam_scheme \<Rightarrow> bool" where
  "chan_ok c \<longleftrightarrow> chan_keys c \<and> chan_widths c"

text \<open>Nothing of this changes from one state to another.\<close>

definition chan_same :: "'z cam_scheme \<Rightarrow> 'z cam_scheme \<Rightarrow> bool" where
  "chan_same c c' \<longleftrightarrow>
     map fst (m_lastBusyEnd c') = map fst (m_lastBusyEnd c)
     \<and> map fst (m_lastIdle c') = map fst (m_lastIdle c)
     \<and> length (m_lastPer20MHzBusyEnd c') = length (m_lastPer20MHzBusyEnd c)
     \<and> m_phy c' = m_phy c"

lemma chan_same_refl [simp, intro]: "chan_same c c"
  by (simp add: chan_same_def)

lemma chan_same_trans: "chan_same a b \<Longrightarrow> chan_same b c \<Longrightarrow> chan_same a c"
  by (simp add: chan_same_def)

lemma chan_same_keys: "chan_same c c' \<Longrightarrow> chan_keys c \<Longrightarrow> chan_keys c'"
  by (simp add: chan_same_def chan_keys_def)

lemma chan_same_ok: "chan_same c c' \<Longrightarrow> chan_ok c \<Longrightarrow> chan_ok c'"
  by (cases "m_phy c") (auto simp: chan_same_def chan_keys_def chan_ok_def chan_widths_def)

lemmas chan_less = less_chanlist_def

lemma take_all_chans:
  "n \<in> {1..5} \<Longrightarrow> n = 1 \<or> n = 2 \<or> n = 3 \<or> n = 4 \<or> n = (5::nat)"
  by auto

text \<open>The keys of a map under the operations of \<^verbatim>\<open>std::map\<close>.\<close>

fun key_put :: "'k::linorder \<Rightarrow> 'k list \<Rightarrow> 'k list" where
  "key_put k [] = [k]"
| "key_put k (k' # ks) = (if k < k' then k # k' # ks else if k = k' then k # ks else k' # key_put k ks)"

lemma keys_put: "map fst (omap_put k v m) = key_put k (map fst m)"
  by (induction k v m rule: omap_put.induct) auto

lemma keys_emplace:
  "map fst (omap_emplace k v m) = (if k \<in> set (map fst m) then map fst m else key_put k (map fst m))"
proof (cases "omap_get m k")
  case None
  then have "k \<notin> fst ` set m" by (simp add: omap_get_def map_of_eq_None_iff)
  with None show ?thesis by (simp add: omap_emplace_def keys_put)
next
  case (Some w)
  then have "k \<in> fst ` set m" by (rule omap_get_in_keys)
  with Some show ?thesis by (simp add: omap_emplace_def)
qed

lemma keys_erase: "map fst (omap_erase k m) = filter (\<lambda>x. x \<noteq> k) (map fst m)"
  by (induction m) (auto simp: omap_erase_def)

text \<open>The keys after \<^verbatim>\<open>ResizeLastBusyStructs\<close>, from those before.\<close>

definition key_keep :: "bool \<Rightarrow> chanlist \<Rightarrow> chanlist list \<Rightarrow> chanlist list" where
  "key_keep present ch ks =
     (if present then (if ch \<in> set ks then ks else key_put ch ks) else filter (\<lambda>x. x \<noteq> ch) ks)"

lemma keys_keep_chan:
  "map fst (m_lastBusyEnd (keep_chan present ch now c)) = key_keep present ch (map fst (m_lastBusyEnd c))"
  "map fst (m_lastIdle (keep_chan present ch now c)) = key_keep present ch (map fst (m_lastIdle c))"
  "m_phy (keep_chan present ch now c) = m_phy c"
  "m_lastPer20MHzBusyEnd (keep_chan present ch now c) = m_lastPer20MHzBusyEnd c"
  by (simp_all add: keep_chan_def key_keep_def keys_emplace keys_erase)

definition key_resize :: "nat \<Rightarrow> chanlist list \<Rightarrow> chanlist list" where
  "key_resize width ks =
     key_keep (width \<ge> 320) SECONDARY160
       (key_keep (width \<ge> 160) SECONDARY80
         (key_keep (width \<ge> 80) SECONDARY40
           (key_keep (width \<ge> 40) SECONDARY (key_keep True PRIMARY ks))))"

definition key_chain :: "bool \<Rightarrow> bool \<Rightarrow> bool \<Rightarrow> bool \<Rightarrow> chanlist list \<Rightarrow> chanlist list" where
  "key_chain b40 b80 b160 b320 ks =
     key_keep b320 SECONDARY160 (key_keep b160 SECONDARY80 (key_keep b80 SECONDARY40
       (key_keep b40 SECONDARY (key_keep True PRIMARY ks))))"

lemma take_all_chans_cases:
  assumes "n \<le> 5"
  shows "take n all_chans \<in> {[], [PRIMARY], [PRIMARY, SECONDARY], [PRIMARY, SECONDARY, SECONDARY40],
    [PRIMARY, SECONDARY, SECONDARY40, SECONDARY80], all_chans}"
proof -
  have "n = 0 \<or> n = 1 \<or> n = 2 \<or> n = 3 \<or> n = 4 \<or> n = 5" using assms by auto
  then show ?thesis by (elim disjE) (simp_all add: all_chans_def)
qed

lemma key_chain_take:
  assumes "ks \<in> {[], [PRIMARY], [PRIMARY, SECONDARY], [PRIMARY, SECONDARY, SECONDARY40],
    [PRIMARY, SECONDARY, SECONDARY40, SECONDARY80], all_chans}"
  shows "key_chain False False False False ks = take 1 all_chans"
    "key_chain True False False False ks = take 2 all_chans"
    "key_chain True True False False ks = take 3 all_chans"
    "key_chain True True True False ks = take 4 all_chans"
    "key_chain True True True True ks = take 5 all_chans"
  using assms unfolding insert_iff empty_iff
  by (elim disjE; simp add: key_chain_def key_keep_def all_chans_def less_chanlist_def)+

lemma key_resize_take:
  assumes "n \<le> 5"
  shows "key_resize width (take n all_chans) = take (chan_count width) all_chans"
proof -
  note ks = key_chain_take [OF take_all_chans_cases [OF assms]]
  have "key_resize width (take n all_chans)
      = key_chain (width \<ge> 40) (width \<ge> 80) (width \<ge> 160) (width \<ge> 320) (take n all_chans)"
    by (simp only: key_resize_def key_chain_def)
  moreover consider "width < 40" | "40 \<le> width" "width < 80" | "80 \<le> width" "width < 160"
    | "160 \<le> width" "width < 320" | "320 \<le> width" by linarith
  ultimately show ?thesis
    by cases (simp_all add: chan_count_def ks)
qed

lemma length_vec_resize [simp]: "length (vec_resize n v xs) = n"
  by (simp add: vec_resize_def)

lemma ResizeLastBusyStructs_ok:
  assumes "ResizeLastBusyStructs now c = Some c'"
    "map fst (m_lastIdle c) = map fst (m_lastBusyEnd c)" "map fst (m_lastBusyEnd c) = take n all_chans" "n \<le> 5"
  shows "chan_ok c'" "m_phy c' = m_phy c"
proof -
  let ?ks = "take n all_chans"
  have prim: "key_keep True PRIMARY ?ks = take (max 1 n) all_chans"
  proof -
    have "n = 0 \<or> n = 1 \<or> n = 2 \<or> n = 3 \<or> n = 4 \<or> n = 5" using assms(4) by auto
    then show ?thesis by (auto simp: key_keep_def all_chans_def)
  qed
  have cc: "chan_count w \<in> {1..5}" for w by (simp add: chan_count_def)
  show "m_phy c' = m_phy c"
    using assms(1)
    by (auto simp: ResizeLastBusyStructs_def Let_def keys_keep_chan(3) split: option.splits if_splits elim!: bind_SomeE)
  show "chan_ok c'"
  proof (cases "m_phy c")
    case None
    with assms(1-3) prim show ?thesis
      by (auto simp: ResizeLastBusyStructs_def Let_def keys_keep_chan chan_ok_def chan_keys_def chan_widths_def
          intro!: bexI [of _ "max 1 n"] assms(4))
  next
    case (Some p)
    obtain size where size: "size = (if phy_width p > 20 \<and> phy_ax p then phy_width p div 20 else 0)"
      and c': "c' = (let c = (keep_chan True PRIMARY now c)\<lparr>m_lastPer20MHzBusyEnd :=
                               vec_resize size now (m_lastPer20MHzBusyEnd (keep_chan True PRIMARY now c))\<rparr>
                     in if \<not> phy_ofdm p then c
                        else keep_chan (phy_width p \<ge> 320) SECONDARY160 now
                               (keep_chan (phy_width p \<ge> 160) SECONDARY80 now
                                 (keep_chan (phy_width p \<ge> 80) SECONDARY40 now
                                   (keep_chan (phy_width p \<ge> 40) SECONDARY now c))))"
      using assms(1) Some
      by (auto simp: ResizeLastBusyStructs_def Let_def keys_keep_chan Count20MHzSubchannels_def
          split: if_splits elim!: bind_SomeE)
    show ?thesis
    proof (cases "phy_ofdm p")
      case True
      have "map fst (m_lastBusyEnd c') = key_resize (phy_width p) ?ks"
        "map fst (m_lastIdle c') = key_resize (phy_width p) ?ks"
        "m_phy c' = Some p" "length (m_lastPer20MHzBusyEnd c') = size"
        by (simp_all add: c' Let_def True keys_keep_chan key_resize_def assms(2,3) Some)
      with cc size show ?thesis
        by (auto simp: chan_ok_def chan_keys_def chan_widths_def key_resize_take [OF assms(4)])
    next
      case False
      have "map fst (m_lastBusyEnd c') = take (max 1 n) all_chans"
        "map fst (m_lastIdle c') = take (max 1 n) all_chans"
        "m_phy c' = Some p" "length (m_lastPer20MHzBusyEnd c') = size"
        by (simp_all add: c' Let_def False keys_keep_chan prim assms(2,3) Some)
      with size False assms(4) show ?thesis
        by (auto simp: chan_ok_def chan_keys_def chan_widths_def intro!: bexI [of _ "max 1 n"])
    qed
  qed
qed

section \<open>Operations that leave the channels alone\<close>

lemma chan_same_txop [simp]: "chan_same c (on_txop i f c)" "chan_same c (c\<lparr>m_txops := es\<rparr>)"
  by (simp_all add: chan_same_def on_txop_def)

lemma chan_same_on_txop [simp]:
  "chan_same c (on_txop i f c') = chan_same c c'" "chan_same (on_txop i f c) c' = chan_same c c'"
  by (simp_all add: chan_same_def on_txop_def)

lemma chan_keys_on_txop [simp]: "chan_keys (on_txop i f c) = chan_keys c"
  by (simp add: chan_keys_def on_txop_def)

lemma key_put_present: "sorted_wrt (<) ks \<Longrightarrow> k \<in> set ks \<Longrightarrow> key_put k ks = ks"
  by (induction k ks rule: key_put.induct) auto

lemma chan_keys_sorted:
  assumes "chan_keys c"
  shows "sorted_wrt (<) (map fst (m_lastBusyEnd c))" "sorted_wrt (<) (map fst (m_lastIdle c))"
proof -
  obtain n where "n \<le> 5" "map fst (m_lastBusyEnd c) = take n all_chans"
    "map fst (m_lastIdle c) = take n all_chans"
    using assms by (auto simp: chan_keys_def)
  then show "sorted_wrt (<) (map fst (m_lastBusyEnd c))" "sorted_wrt (<) (map fst (m_lastIdle c))"
    using take_all_chans_cases [of n] by (auto simp: all_chans_def less_chanlist_def)
qed

lemma chan_keys_primary: "chan_keys c \<Longrightarrow> omap_get (m_lastBusyEnd c) PRIMARY \<noteq> None"
proof -
  assume "chan_keys c"
  then obtain n where "1 \<le> n" "n \<le> 5" "map fst (m_lastBusyEnd c) = take n all_chans"
    by (auto simp: chan_keys_def)
  then have "PRIMARY \<in> set (map fst (m_lastBusyEnd c))"
    by (cases n) (simp_all add: all_chans_def)
  then show ?thesis by (simp add: omap_get_def map_of_eq_None_iff)
qed

lemma idle_entries_keys:
  assumes "idle_entries s now busy idle = Some idle'" "sorted_wrt (<) (map fst idle)"
  shows "map fst idle' = map fst idle"
  using assms
proof (induction s now busy idle rule: idle_entries.induct)
  case (2 s now ch busyEnd busy idle)
  show ?case
  proof (cases "busyEnd < now")
    case True
    with 2(3) obtain v where v: "omap_get idle ch = Some v"
      "idle_entries s now busy (omap_put ch \<lparr>ts_start = max s busyEnd, ts_end = now\<rparr> idle) = Some idle'"
      by (auto elim!: bind_SomeE)
    have "map fst (omap_put ch \<lparr>ts_start = max s busyEnd, ts_end = now\<rparr> idle) = map fst idle"
      unfolding keys_put using 2(4) omap_get_in_keys [OF v(1)] by (intro key_put_present) auto
    with 2(1) [OF True v(1,2)] 2(4) show ?thesis by simp
  next
    case False
    with 2 show ?thesis by simp
  qed
qed simp

lemma chan_same_UpdateBackoff [inv_intros]: "UpdateBackoff now c = Some c' \<Longrightarrow> chan_same c c'"
  by (auto simp: UpdateBackoff_def elim!: bind_SomeE)

lemma chan_same_Idle [inv_intros]:
  assumes "UpdateLastIdlePeriod now c = Some c'" "chan_keys c"
  shows "chan_same c c'"
  using assms idle_entries_keys chan_keys_sorted(2) [OF assms(2)]
  by (auto simp: UpdateLastIdlePeriod_def chan_same_def split: if_splits elim!: bind_SomeE)

lemma chan_same_restart [inv_intros]:
  assumes "DoRestartAccessTimeoutIfNeeded now c = Some (c', calls)"
  shows "chan_same c c'"
  by (subst restart_frame [OF assms]) (simp add: chan_same_def)

lemma chan_same_ResetAll [inv_intros]: "ResetAllBackoffs now c = Some c' \<Longrightarrow> chan_same c c'"
  by (auto simp: ResetAllBackoffs_def chan_same_def elim!: bind_SomeE)

text \<open>\<^verbatim>\<open>StartTransmission\<close> and \<^verbatim>\<open>NotifyInternalCollision\<close> are asked to do the same.\<close>

definition start_keeps :: "(nat \<Rightarrow> nat \<Rightarrow> 'z cam_scheme \<Rightarrow> ('z cam_scheme \<times> bool) option) \<Rightarrow> bool" where
  "start_keeps startTx \<longleftrightarrow>
     (\<forall>i width c c' b. chan_keys c \<longrightarrow> startTx i width c = Some (c', b) \<longrightarrow> chan_same c c')"

definition collide_keeps :: "(nat \<Rightarrow> 'z cam_scheme \<Rightarrow> 'z cam_scheme option) \<Rightarrow> bool" where
  "collide_keeps collide \<longleftrightarrow> (\<forall>i c c'. chan_keys c \<longrightarrow> collide i c = Some c' \<longrightarrow> chan_same c c')"

lemma chan_same_collisions:
  "collisions collide js c = Some (c', calls) \<Longrightarrow> collide_keeps collide \<Longrightarrow> chan_keys c \<Longrightarrow> chan_same c c'"
proof (induction collide js c arbitrary: c' calls rule: collisions.induct)
  case (2 collide j js c)
  then obtain c1 cs where c1: "collide j c = Some c1" "collisions collide js c1 = Some (c', cs)"
    by (auto elim!: bind_SomeE)
  have s: "chan_same c c1" using c1(1) 2(3,4) unfolding collide_keeps_def by blast
  with 2(1) [OF c1(1,2) 2(3)] chan_same_keys [OF s 2(4)] show ?case by (blast intro: chan_same_trans)
qed simp

lemma chan_same_width:
  assumes "access_width now c = Some (c', width)" "chan_keys c"
  shows "chan_same c c'"
  using assms
  by (auto simp: access_width_def Let_def GetLargestIdlePrimaryChannel_def intro: chan_same_Idle
      split: if_splits elim!: bind_SomeE)

lemma chan_same_grant_from:
  "grant_from startTx collide now ags is c = Some (c', calls) \<Longrightarrow> start_keeps startTx \<Longrightarrow>
     collide_keeps collide \<Longrightarrow> chan_keys c \<Longrightarrow> chan_same c c'"
proof (induction startTx collide now ags "is" c arbitrary: c' calls rule: grant_from.induct)
  case (2 startTx collide now ags i "is" c)
  show ?case
  proof (cases "can_access now ags c i \<and> \<not> edca_disabled now c i")
    case False
    with 2 show ?thesis by simp
  next
    case True
    with 2(3) obtain c1 width c2 started where
      w: "access_width now c = Some (c1, width)" and s: "startTx i width c1 = Some (c2, started)"
      and r: "(if started
         then do { (c, calls) \<leftarrow> collisions collide (filter (can_access now ags c) is) c2;
                   Some (c, StartTx i width # calls) }
         else do { (c, calls) \<leftarrow> grant_from startTx collide now ags is
                                   (on_txop i (e_UpdateBackoffSlotsNow 0 now) c2);
                   Some (c, StartTx i width # calls) }) = Some (c', calls)"
      by (auto elim!: bind_SomeE)
    have same1: "chan_same c c1" by (rule chan_same_width [OF w 2(6)])
    then have k1: "chan_keys c1" using 2(6) by (rule chan_same_keys)
    then have "chan_same c1 c2" using s 2(4) unfolding start_keeps_def by blast
    with same1 have same2: "chan_same c c2" by (rule chan_same_trans)
    then have k2: "chan_keys c2" using 2(6) by (rule chan_same_keys)
    show ?thesis
    proof (cases started)
      case st: True
      with r obtain cs where "collisions collide (filter (can_access now ags c) is) c2 = Some (c', cs)"
        by (auto elim!: bind_SomeE)
      from chan_same_collisions [OF this 2(5) k2] same2 show ?thesis by (blast intro: chan_same_trans)
    next
      case False
      let ?c3 = "on_txop i (e_UpdateBackoffSlotsNow 0 now) c2"
      from False r obtain cs where g: "grant_from startTx collide now ags is ?c3 = Some (c', cs)"
        by (auto elim!: bind_SomeE)
      have same3: "chan_same c ?c3" using same2 chan_same_txop(1) by (rule chan_same_trans)
      then have "chan_keys ?c3" using 2(6) by (rule chan_same_keys)
      from 2(1) [OF True refl w refl s refl False g 2(4,5) this] same3 show ?thesis
        by (blast intro: chan_same_trans)
    qed
  qed
qed simp

lemma chan_same_grant [inv_intros]:
  "DoGrantDcfAccess startTx collide now c = Some (c', calls) \<Longrightarrow> start_keeps startTx \<Longrightarrow>
     collide_keeps collide \<Longrightarrow> chan_keys c \<Longrightarrow> chan_same c c'"
  by (auto simp: DoGrantDcfAccess_def split: if_splits elim!: bind_SomeE dest: chan_same_grant_from)

lemma chan_same_Need [inv_intros]:
  assumes "NeedBackoffUponAccess w i had check c = Some (c', b)"
  shows "chan_same c c'"
proof (cases "phy_asleep c")
  case True
  with assms show ?thesis by (simp add: NeedBackoffUponAccess_def)
next
  case False
  with assms obtain c1 where c1: "UpdateBackoff (w_now w) c = Some c1"
    by (auto simp: NeedBackoffUponAccess_def elim!: bind_SomeE)
  with False assms have "chan_same c1 c'"
    by (auto simp: NeedBackoffUponAccess_def Let_def split: if_splits elim!: bind_SomeE)
  with chan_same_UpdateBackoff [OF c1] show ?thesis by (rule chan_same_trans)
qed

text \<open>Composition: the next operation sees the same channels.\<close>

lemma chan_same_then:
  "chan_same a b \<Longrightarrow> chan_keys a \<Longrightarrow> (chan_keys b \<Longrightarrow> chan_same b c) \<Longrightarrow> chan_same a c"
  using chan_same_keys chan_same_trans by blast

lemma chan_same_Request [inv_intros]:
  assumes "RequestAccess startTx collide w i c = Some (c', calls)" "start_keeps startTx"
    "collide_keeps collide" "chan_keys c"
  shows "chan_same c c'"
proof (cases "phy_asleep c")
  case True
  with assms(1) show ?thesis by (simp add: RequestAccess_def Let_def)
next
  case False
  with assms(1) obtain e c1 f c2 calls1 calls2 where r:
    "UpdateBackoff (w_now w) (on_txop i (\<lambda>_. e) c) = Some c1"
    "DoGrantDcfAccess startTx collide (w_now w) (on_txop i f c1) = Some (c2, calls1)"
    "DoRestartAccessTimeoutIfNeeded (w_now w) c2 = Some (c', calls2)"
    by (auto simp: RequestAccess_def Let_def elim!: bind_SomeE)
  show ?thesis
    by (rule chan_same_then [OF chan_same_txop(1) assms(4)], rule chan_same_then [OF chan_same_UpdateBackoff [OF r(1)]],
        assumption, rule chan_same_then [OF chan_same_txop(1)], assumption,
        rule chan_same_then [OF chan_same_grant [OF r(2) assms(2,3)]], assumption+, rule chan_same_restart [OF r(3)])
qed

lemma chan_same_Start [inv_intros]:
  assumes "StartAccess startTx collide w i had check c = Some (c', calls)" "start_keeps startTx"
    "collide_keeps collide" "chan_keys c"
  shows "chan_same c c'"
proof (cases "c' = c")
  case False
  with assms(1) obtain c1 needed where n: "NeedBackoffUponAccess w i had check c = Some (c1, needed)"
    and r: "RequestAccess startTx collide w i (if needed then on_txop i (e_GenerateBackoff w i) c1 else c1)
              = Some (c', calls)"
    by (auto simp: StartAccess_def Let_def split: if_splits elim!: bind_SomeE)
  have s: "chan_same c c1" by (rule chan_same_Need [OF n])
  then have "chan_keys c1" using assms(4) by (rule chan_same_keys)
  with chan_same_Request [OF r assms(2,3)] have "chan_same c1 c'" by (cases needed) simp_all
  with s show ?thesis by (rule chan_same_trans)
qed simp

lemma chan_same_start_all [inv_intros]:
  "start_all startTx collide w is c = Some (c', calls) \<Longrightarrow> start_keeps startTx \<Longrightarrow> collide_keeps collide \<Longrightarrow>
     chan_keys c \<Longrightarrow> chan_same c c'"
proof (induction startTx collide w "is" c arbitrary: c' calls rule: start_all.induct)
  case (2 startTx collide w i "is" c)
  then obtain c1 calls1 calls2 where c1: "StartAccess startTx collide w i False False c = Some (c1, calls1)"
    "start_all startTx collide w is c1 = Some (c', calls2)"
    by (auto elim!: bind_SomeE)
  have s: "chan_same c c1" by (rule chan_same_Start [OF c1(1) 2(3-5)])
  from 2(1) [OF c1(1) refl c1(2) 2(3,4) chan_same_keys [OF s 2(5)]] s show ?case
    by (blast intro: chan_same_trans)
qed simp

lemma chan_same_Timeout [inv_intros]:
  assumes "AccessTimeout startTx collide now c = Some (c', calls)" "start_keeps startTx"
    "collide_keeps collide" "chan_keys c"
  shows "chan_same c c'"
proof -
  let ?c0 = "c\<lparr>m_accessTimeout := None\<rparr>"
  have s0: "chan_same c ?c0" by (simp add: chan_same_def)
  consider (reset) "ResetAllBackoffs now ?c0 = Some c'"
    | (run) c1 c2 calls1 calls2 where "UpdateBackoff now ?c0 = Some c1"
      "DoGrantDcfAccess startTx collide now c1 = Some (c2, calls1)"
      "DoRestartAccessTimeoutIfNeeded now c2 = Some (c', calls2)"
    using assms(1) by (auto simp: AccessTimeout_def Let_def elim!: bind_SomeE split: if_splits)
  then show ?thesis
  proof cases
    case reset
    from s0 chan_same_ResetAll [OF this] show ?thesis by (rule chan_same_trans)
  next
    case run
    from s0 chan_same_UpdateBackoff [OF run(1)] have s1: "chan_same c c1" by (rule chan_same_trans)
    with chan_same_grant [OF run(2) assms(2,3) chan_same_keys [OF s1 assms(4)]] have "chan_same c c2"
      by (blast intro: chan_same_trans)
    with chan_same_restart [OF run(3)] show ?thesis by (blast intro: chan_same_trans)
  qed
qed

section \<open>Notifications\<close>

text \<open>An update of the backoffs and idle periods, which most notifications begin with.\<close>

lemma chan_same_update_idle:
  assumes "UpdateBackoff now c = Some c1" "UpdateLastIdlePeriod now c1 = Some c2" "chan_keys c"
  shows "chan_same c c2"
  using chan_same_UpdateBackoff [OF assms(1)] assms(2,3)
  by (blast intro: chan_same_trans chan_same_Idle chan_same_keys)

lemma chan_same_rx [inv_intros]:
  "NotifyRxStartNow now d c = Some c' \<Longrightarrow> chan_keys c \<Longrightarrow> chan_same c c'"
  "chan_same c (NotifyRxEndOkNow now c)"
  "NotifyRxEndErrorNow now ack c = Some c' \<Longrightarrow> chan_same c c'"
proof -
  assume n: "NotifyRxStartNow now d c = Some c'" "chan_keys c"
  then obtain c1 c2 where u: "UpdateBackoff now c = Some c1" "UpdateLastIdlePeriod now c1 = Some c2"
    and c': "c' = c2\<lparr>m_lastRx := \<lparr>ts_start = now, ts_end = now + d\<rparr>, m_lastRxReceivedOk := True\<rparr>"
    by (auto simp: NotifyRxStartNow_def elim!: bind_SomeE)
  from chan_same_update_idle [OF u n(2)] show "chan_same c c'" by (simp add: c' chan_same_def)
qed (auto simp: NotifyRxEndOkNow_def NotifyRxEndErrorNow_def chan_same_def elim!: bind_SomeE)

lemma chan_same_tx [inv_intros]:
  assumes "NotifyTxStartNow now d c = Some c'" "chan_keys c"
  shows "chan_same c c'"
proof -
  let ?c0 = "c\<lparr>m_lastRxReceivedOk := True\<rparr>"
  have k0: "chan_keys ?c0" using assms(2) by (simp add: chan_keys_def)
  obtain c1 c2 where "c1 = ?c0\<lparr>m_lastRx := (m_lastRx ?c0)\<lparr>ts_end := now\<rparr>\<rparr> \<or> UpdateLastIdlePeriod now ?c0 = Some c1"
    "UpdateBackoff now c1 = Some c2" "c' = c2\<lparr>m_lastTxEnd := now + d\<rparr>"
    using assms(1) by (auto simp: NotifyTxStartNow_def Let_def split: if_splits elim!: bind_SomeE)
  moreover from this(1) have "chan_same ?c0 c1" using chan_same_Idle [OF _ k0] by (auto simp: chan_same_def)
  ultimately show ?thesis using chan_same_UpdateBackoff [of now c1 c2] by (simp add: chan_same_def)
qed

lemma chan_same_proactive: "chan_same c (proactive_backoffs w is c)"
proof (induction w "is" c rule: proactive_backoffs.induct)
  case (2 w i "is" c)
  then show ?case by (auto simp: Let_def split: if_splits)
qed simp

lemma length_busy_20MHz [simp]: "length (busy_20MHz now ds ts) = length ts"
  by (induction now ds ts rule: busy_20MHz.induct) auto

lemma chan_same_cca [inv_intros]:
  assumes "NotifyCcaBusyStartNow w d ch ds c = Some c'" "chan_keys c"
  shows "chan_same c c'"
proof -
  obtain c1 c2 t where u: "UpdateBackoff (w_now w) c = Some c1" "UpdateLastIdlePeriod (w_now w) c1 = Some c2"
    and t: "omap_get (m_lastBusyEnd c2) ch = Some t"
    and c': "c' = (let c = c2\<lparr>m_lastBusyEnd := omap_put ch (w_now w + d) (m_lastBusyEnd c2),
                       m_lastPer20MHzBusyEnd := busy_20MHz (w_now w) ds (m_lastPer20MHzBusyEnd c2)\<rparr>
                   in if m_proactiveBackoff c then proactive_backoffs w [0..<length (m_txops c)] c else c)"
    using assms(1) by (auto simp: NotifyCcaBusyStartNow_def Let_def elim!: bind_SomeE split: if_splits)
  let ?c3 = "c2\<lparr>m_lastBusyEnd := omap_put ch (w_now w + d) (m_lastBusyEnd c2),
               m_lastPer20MHzBusyEnd := busy_20MHz (w_now w) ds (m_lastPer20MHzBusyEnd c2)\<rparr>"
  have s: "chan_same c c2" by (rule chan_same_update_idle [OF u assms(2)])
  then have "sorted_wrt (<) (map fst (m_lastBusyEnd c2))"
    using assms(2) by (intro chan_keys_sorted) (rule chan_same_keys)
  then have "chan_same c2 ?c3"
    using omap_get_in_keys [OF t] by (simp add: chan_same_def keys_put key_put_present)
  moreover have "chan_same ?c3 c'" by (simp add: c' Let_def chan_same_proactive)
  ultimately show ?thesis using s by (blast intro: chan_same_trans)
qed

lemma chan_same_nav [inv_intros]:
  "NotifyNavStartNow now d c = Some c' \<Longrightarrow> chan_same c c'"
  "NotifyNavResetNow now d c = Some (c', calls) \<Longrightarrow> chan_same c c'"
proof -
  show "NotifyNavStartNow now d c = Some c' \<Longrightarrow> chan_same c c'"
    by (auto simp: NotifyNavStartNow_def chan_same_def UpdateBackoff_def elim!: bind_SomeE)
  assume n: "NotifyNavResetNow now d c = Some (c', calls)"
  show "chan_same c c'"
  proof (cases "m_phy c = None")
    case True
    with n show ?thesis by (simp add: NotifyNavResetNow_def)
  next
    case False
    with n obtain c1 where u: "UpdateBackoff now c = Some c1"
      "DoRestartAccessTimeoutIfNeeded now (c1\<lparr>m_lastNavEnd := now + d\<rparr>) = Some (c', calls)"
      by (auto simp: NotifyNavResetNow_def elim!: bind_SomeE)
    from chan_same_UpdateBackoff [OF u(1)] chan_same_restart [OF u(2)] show ?thesis
      by (simp add: chan_same_def)
  qed
qed

lemma chan_same_timeouts [inv_intros]:
  "NotifyAckTimeoutStartNow now d c = Some c' \<Longrightarrow> chan_same c c'"
  "NotifyAckTimeoutResetNow now c = Some (c', calls) \<Longrightarrow> chan_same c c'"
  "chan_same c (NotifyCtsTimeoutStartNow now d c)"
  "NotifyCtsTimeoutResetNow now c = Some (c', calls) \<Longrightarrow> chan_same c c'"
  using chan_same_restart [of now "c\<lparr>m_lastAckTimeoutEnd := now\<rparr>" c' calls]
    chan_same_restart [of now "c\<lparr>m_lastCtsTimeoutEnd := now\<rparr>" c' calls]
  by (auto simp: NotifyAckTimeoutStartNow_def NotifyAckTimeoutResetNow_def NotifyCtsTimeoutStartNow_def
      NotifyCtsTimeoutResetNow_def chan_same_def elim!: bind_SomeE)

lemma chan_same_disable [inv_intros]:
  "DisableEdcaFor now i d c = Some (c', calls) \<Longrightarrow> chan_same c c'"
proof -
  assume "DisableEdcaFor now i d c = Some (c', calls)"
  then obtain c1 where u: "UpdateBackoff now c = Some c1"
    "DoRestartAccessTimeoutIfNeeded now (on_txop i (e_UpdateBackoffSlotsNow 0 (now + d)) c1) = Some (c', calls)"
    by (auto simp: DisableEdcaFor_def elim!: bind_SomeE)
  from chan_same_UpdateBackoff [OF u(1)] chan_same_restart [OF u(2)] show ?thesis
    by (simp add: chan_same_trans)
qed

lemma chan_same_sleep [inv_intros]:
  assumes "chan_keys c"
  shows "NotifySleepNow now c = Some (c', calls) \<Longrightarrow> chan_same c c'"
    "NotifyOffNow now c = Some (c', calls) \<Longrightarrow> chan_same c c'"
proof -
  have *: "chan_same c (c2\<lparr>m_lastSleep := s\<rparr>)" "chan_same c (c2\<lparr>m_lastOff := s\<rparr>)"
    if "UpdateBackoff now c = Some c1" "UpdateLastIdlePeriod now c1 = Some c2" for c1 c2 s
    using chan_same_update_idle [OF that assms] by (simp_all add: chan_same_def)
  show "NotifySleepNow now c = Some (c', calls) \<Longrightarrow> chan_same c c'"
    by (auto simp: NotifySleepNow_def elim!: bind_SomeE intro: *)
  show "NotifyOffNow now c = Some (c', calls) \<Longrightarrow> chan_same c c'"
    by (auto simp: NotifyOffNow_def elim!: bind_SomeE intro: *)
qed

lemma chan_same_wakeup [inv_intros]:
  assumes "start_keeps startTx" "collide_keeps collide" "chan_keys c"
  shows "NotifyWakeupNow startTx collide w c = Some (c', calls) \<Longrightarrow> chan_same c c'"
    "NotifyOnNow startTx collide w c = Some (c', calls) \<Longrightarrow> chan_same c c'"
proof -
  have *: "chan_same c c'"
    if "chan_same c c0" "c1 = c0 \<or> ResetAllBackoffs (w_now w) c0 = Some c1"
      "start_all startTx collide w [0..<length (m_txops c1)] c1 = Some (c', calls)" for c0 c1
  proof -
    have s: "chan_same c c1" using that(1,2) chan_same_ResetAll by (blast intro: chan_same_trans)
    from chan_same_start_all [OF that(3) assms(1,2) chan_same_keys [OF s assms(3)]] s show ?thesis
      by (blast intro: chan_same_trans)
  qed
  show "NotifyWakeupNow startTx collide w c = Some (c', calls) \<Longrightarrow> chan_same c c'"
  proof -
    let ?c0 = "c\<lparr>m_lastSleep := (m_lastSleep c)\<lparr>ts_end := w_now w\<rparr>\<rparr>"
    assume "NotifyWakeupNow startTx collide w c = Some (c', calls)"
    then have "\<exists>c1. (c1 = ?c0 \<or> ResetAllBackoffs (w_now w) ?c0 = Some c1)
        \<and> start_all startTx collide w [0..<length (m_txops c1)] c1 = Some (c', calls)"
      by (cases "w_now w - ts_start (m_lastSleep c) > m_resetBackoffThreshold c")
        (auto simp: NotifyWakeupNow_def Let_def elim!: bind_SomeE)
    moreover have "chan_same c ?c0" by (simp add: chan_same_def)
    ultimately show ?thesis using * by blast
  qed
  show "NotifyOnNow startTx collide w c = Some (c', calls) \<Longrightarrow> chan_same c c'"
  proof -
    let ?c0 = "c\<lparr>m_lastOff := (m_lastOff c)\<lparr>ts_end := w_now w\<rparr>\<rparr>"
    assume "NotifyOnNow startTx collide w c = Some (c', calls)"
    then have "\<exists>c1. (c1 = ?c0 \<or> ResetAllBackoffs (w_now w) ?c0 = Some c1)
        \<and> start_all startTx collide w [0..<length (m_txops c1)] c1 = Some (c', calls)"
      by (cases "w_now w - ts_start (m_lastOff c) > m_resetBackoffThreshold c")
        (auto simp: NotifyOnNow_def Let_def elim!: bind_SomeE)
    moreover have "chan_same c ?c0" by (simp add: chan_same_def)
    ultimately show ?thesis using * by blast
  qed
qed

section \<open>The manager as a state machine\<close>

definition ChannelAccessManager :: "time \<Rightarrow> cam option" where
  "ChannelAccessManager now =
     InitLastBusyStructs now
       \<lparr>m_txops = [], m_lastAckTimeoutEnd = 0, m_lastCtsTimeoutEnd = 0, m_lastNavEnd = 0,
        m_lastRx = \<lparr>ts_start = 0, ts_end = 0\<rparr>, m_lastRxReceivedOk = True, m_lastTxEnd = 0,
        m_lastBusyEnd = [], m_lastPer20MHzBusyEnd = [], m_lastIdle = [], m_lastSwitchingEnd = 0,
        m_lastSleep = \<lparr>ts_start = 0, ts_end = 0\<rparr>, m_lastOff = \<lparr>ts_start = 0, ts_end = 0\<rparr>,
        m_eifsNoDifs = 0, m_lastNoPhy = \<lparr>ts_start = 0, ts_end = 0\<rparr>, m_cachedSifs = 0,
        m_cachedSlot = 0, m_accessTimeout = None, m_generateBackoffOnNoTx = False,
        m_proactiveBackoff = False, m_resetBackoffThreshold = 0, m_switchingEmlsrLinks = Map.empty,
        m_phyListeners = Map.empty, m_phy = None, m_nSlotsLeft = 0, m_nSlotsLeftMinDelay = 25000\<rparr>"

text \<open>
  The steps of a manager.  Apart from its operations: the functions are changed from outside
  (\<open>others\<close>), and the PHY changes what does not concern its channel (\<open>phy_view\<close>); a PHY that
  switches channel has its new channel when it notifies the listener, its own one.
\<close>

inductive cam_step :: "cam \<Rightarrow> cam \<Rightarrow> bool" where
  step_init: "InitLastBusyStructs now c = Some c' \<Longrightarrow> cam_step c c'"
| step_others: "cam_step c (c\<lparr>m_txops := es\<rparr>)"
| step_phy_view: "m_phy c = Some p \<Longrightarrow> phy_width p' = phy_width p \<Longrightarrow> phy_ofdm p' = phy_ofdm p \<Longrightarrow>
     phy_ax p' = phy_ax p \<Longrightarrow> cam_step c (c\<lparr>m_phy := Some p'\<rparr>)"
| step_request: "start_keeps startTx \<Longrightarrow> collide_keeps collide \<Longrightarrow>
     RequestAccess startTx collide w i c = Some (c', calls) \<Longrightarrow> cam_step c c'"
| step_start: "start_keeps startTx \<Longrightarrow> collide_keeps collide \<Longrightarrow>
     StartAccess startTx collide w i had check c = Some (c', calls) \<Longrightarrow> cam_step c c'"
| step_timeout: "start_keeps startTx \<Longrightarrow> collide_keeps collide \<Longrightarrow>
     AccessTimeout startTx collide now c = Some (c', calls) \<Longrightarrow> cam_step c c'"
| step_disable: "DisableEdcaFor now i d c = Some (c', calls) \<Longrightarrow> cam_step c c'"
| step_width: "GetLargestIdlePrimaryChannel now interval stop c = Some (c', width) \<Longrightarrow> cam_step c c'"
| step_rx_start: "NotifyRxStartNow now d c = Some c' \<Longrightarrow> cam_step c c'"
| step_rx_ok: "cam_step c (NotifyRxEndOkNow now c)"
| step_rx_error: "NotifyRxEndErrorNow now ack c = Some c' \<Longrightarrow> cam_step c c'"
| step_tx_start: "NotifyTxStartNow now d c = Some c' \<Longrightarrow> cam_step c c'"
| step_cca_busy: "NotifyCcaBusyStartNow w d ch ds c = Some c' \<Longrightarrow> cam_step c c'"
| step_nav_reset: "NotifyNavResetNow now d c = Some (c', calls) \<Longrightarrow> cam_step c c'"
| step_nav_start: "NotifyNavStartNow now d c = Some c' \<Longrightarrow> cam_step c c'"
| step_ack_start: "NotifyAckTimeoutStartNow now d c = Some c' \<Longrightarrow> cam_step c c'"
| step_ack_reset: "NotifyAckTimeoutResetNow now c = Some (c', calls) \<Longrightarrow> cam_step c c'"
| step_cts_start: "cam_step c (NotifyCtsTimeoutStartNow now d c)"
| step_cts_reset: "NotifyCtsTimeoutResetNow now c = Some (c', calls) \<Longrightarrow> cam_step c c'"
| step_sleep: "NotifySleepNow now c = Some (c', calls) \<Longrightarrow> cam_step c c'"
| step_off: "NotifyOffNow now c = Some (c', calls) \<Longrightarrow> cam_step c c'"
| step_wakeup: "start_keeps startTx \<Longrightarrow> collide_keeps collide \<Longrightarrow>
     NotifyWakeupNow startTx collide w c = Some (c', calls) \<Longrightarrow> cam_step c c'"
| step_on: "start_keeps startTx \<Longrightarrow> collide_keeps collide \<Longrightarrow>
     NotifyOnNow startTx collide w c = Some (c', calls) \<Longrightarrow> cam_step c c'"
| step_setup: "SetupPhyListener now p c = Some (c', calls) \<Longrightarrow> cam_step c c'"
| step_remove: "RemovePhyListener now i c = Some (c', calls) \<Longrightarrow> cam_step c c'"
| step_deactivate: "cam_step c (DeactivatePhyListener i c)"
| step_emlsr: "NotifySwitchingEmlsrLink i channel linkId c = Some c' \<Longrightarrow> cam_step c c'"
| step_switching: "NotifySwitchingStartNow channelOf eht now l d c = Some (c', calls) \<Longrightarrow> cam_step c c'"
| step_switching_own: "m_phy c = Some p \<Longrightarrow> phy_id p' = phy_id p \<Longrightarrow> l = None \<or> l = Some (phy_id p) \<Longrightarrow>
     NotifySwitchingStartNow channelOf eht now l d (c\<lparr>m_phy := Some p'\<rparr>) = Some (c', calls) \<Longrightarrow> cam_step c c'"

inductive cam_reachable :: "cam \<Rightarrow> bool" where
  created: "ChannelAccessManager now = Some c \<Longrightarrow> cam_reachable c"
| step: "cam_reachable c \<Longrightarrow> cam_step c c' \<Longrightarrow> cam_reachable c'"

section \<open>Steps that set up the channels\<close>

lemma chan_keysE:
  assumes "chan_keys c"
  obtains n where "map fst (m_lastIdle c) = map fst (m_lastBusyEnd c)"
    "map fst (m_lastBusyEnd c) = take n all_chans" "n \<le> 5"
  using assms by (auto simp: chan_keys_def)

lemma chan_ok_Init:
  assumes "InitLastBusyStructs now c = Some c'"
    "map fst (m_lastIdle c) = map fst (m_lastBusyEnd c)" "map fst (m_lastBusyEnd c) = take n all_chans" "n \<le> 5"
  shows "chan_ok c'" "m_phy c' = m_phy c"
proof -
  obtain c1 where r: "ResizeLastBusyStructs now c = Some c1"
    and c': "c' = c1\<lparr>m_lastBusyEnd := map (\<lambda>(ch, _). (ch, now)) (m_lastBusyEnd c1),
                  m_lastIdle := map (\<lambda>(ch, _). (ch, \<lparr>ts_start = now, ts_end = now\<rparr>)) (m_lastIdle c1),
                  m_lastPer20MHzBusyEnd := map (\<lambda>_. now) (m_lastPer20MHzBusyEnd c1)\<rparr>"
    using assms(1) by (auto simp: InitLastBusyStructs_def elim!: bind_SomeE)
  have "chan_same c1 c'" by (simp add: c' chan_same_def split_beta)
  with ResizeLastBusyStructs_ok [OF r assms(2-4)] show "chan_ok c'" "m_phy c' = m_phy c"
    by (auto simp: c' intro: chan_same_ok)
qed

lemma chan_ok_ResetState:
  assumes "ResetState now c = Some c'" "chan_keys c"
  shows "chan_ok c'"
proof -
  let ?c0 = "c\<lparr>m_lastRxReceivedOk := True\<rparr>"
  obtain c1 where u: "UpdateLastIdlePeriod now ?c0 = Some c1"
    and i: "InitLastBusyStructs now
            (c1\<lparr>m_lastRx := clip_end now (m_lastRx c1), m_lastNavEnd := min (m_lastNavEnd c1) now,
               m_lastAckTimeoutEnd := min (m_lastAckTimeoutEnd c1) now,
               m_lastCtsTimeoutEnd := min (m_lastCtsTimeoutEnd c1) now,
               m_lastNoPhy := clip_end now (m_lastNoPhy c1), m_lastSleep := clip_end now (m_lastSleep c1),
               m_lastOff := clip_end now (m_lastOff c1)\<rparr>) = Some c'"
    using assms(1) by (auto simp: ResetState_def elim!: bind_SomeE)
  have "chan_keys ?c0" using assms(2) by (simp add: chan_keys_def)
  with chan_same_Idle [OF u] have "chan_keys c1" using chan_same_keys by blast
  then obtain n where "map fst (m_lastIdle c1) = map fst (m_lastBusyEnd c1)"
    "map fst (m_lastBusyEnd c1) = take n all_chans" "n \<le> 5" by (rule chan_keysE)
  with chan_ok_Init(1) [OF i] show ?thesis by simp
qed

lemma chan_Remove:
  assumes "RemovePhyListener now i c = Some (c', calls)" "chan_keys c"
  shows "chan_keys c'" "m_phy c' = None \<or> chan_same c c'"
    "m_phyListeners c i \<noteq> None \<Longrightarrow> map_option phy_id (m_phy c) = Some i \<Longrightarrow> m_phy c' = None"
proof -
  let ?c0 = "c\<lparr>m_phyListeners := (m_phyListeners c)(i := None)\<rparr>"
  have s0: "chan_same c ?c0" by (simp add: chan_same_def)
  have "chan_keys c' \<and> (m_phy c' = None \<or> chan_same c c')
      \<and> (m_phyListeners c i \<noteq> None \<longrightarrow> map_option phy_id (m_phy c) = Some i \<longrightarrow> m_phy c' = None)"
  proof (cases "m_phyListeners c i")
    case None
    with assms show ?thesis by (simp add: RemovePhyListener_def)
  next
    case listener: (Some b)
    show ?thesis
    proof (cases "map_option phy_id (m_phy c) = Some i")
      case False
      with listener assms(1) have "c' = ?c0"
        by (auto simp: RemovePhyListener_def Let_def split: if_splits)
      with s0 chan_same_keys [OF s0 assms(2)] False show ?thesis by auto
    next
      case True
      with listener assms(1) obtain c1 c2 where u: "UpdateBackoff now ?c0 = Some c1"
        "UpdateLastIdlePeriod now c1 = Some c2"
        and c': "c' = c2\<lparr>m_cachedSifs := GetSifs c2,
               m_cachedSlot := (if m_txops c2 = [] then m_cachedSlot c2 else GetSlot c2), m_phy := None,
               m_lastNoPhy := (m_lastNoPhy c2)\<lparr>ts_start := now\<rparr>\<rparr>"
        unfolding RemovePhyListener_def Let_def by (simp, elim bind_SomeE) simp
      have "chan_keys ?c0" using s0 assms(2) by (rule chan_same_keys)
      from chan_same_keys [OF chan_same_update_idle [OF u this] this] show ?thesis
        by (simp add: c' chan_keys_def)
    qed
  qed
  then show "chan_keys c'" "m_phy c' = None \<or> chan_same c c'"
    "m_phyListeners c i \<noteq> None \<Longrightarrow> map_option phy_id (m_phy c) = Some i \<Longrightarrow> m_phy c' = None"
    by blast+
qed

lemma chan_ok_Setup:
  assumes "SetupPhyListener now p c = Some (c', calls)" "chan_keys c"
  shows "chan_ok c'"
proof -
  obtain c1 where s: "chan_same c c1" and r: "ResizeLastBusyStructs now (c1\<lparr>m_phy := Some p\<rparr>) = Some c'"
  proof (cases "m_phyListeners c (phy_id p)")
    case (Some b)
    let ?c1 = "c\<lparr>m_phyListeners := (m_phyListeners c)(phy_id p \<mapsto> True),
              m_lastNoPhy := (m_lastNoPhy c)\<lparr>ts_start := ts_end (m_lastNoPhy c)\<rparr>\<rparr>"
    have "chan_same c ?c1" by (simp add: chan_same_def)
    moreover have "ResizeLastBusyStructs now (?c1\<lparr>m_phy := Some p\<rparr>) = Some c'"
      using assms(1) Some by (auto simp: SetupPhyListener_def elim!: bind_SomeE)
    ultimately show thesis by (rule that)
  next
    case None
    let ?c0 = "c\<lparr>m_phyListeners := (m_phyListeners c)(phy_id p \<mapsto> True)\<rparr>"
    obtain c1 where r: "ResizeLastBusyStructs now (c1\<lparr>m_phy := Some p\<rparr>) = Some c'"
      and c1: "(case m_phy c of
                  Some q \<Rightarrow> Some (DeactivatePhyListener (phy_id q) ?c0)
                | None \<Rightarrow> (let c = ?c0\<lparr>m_lastSwitchingEnd := now, m_lastNoPhy := (m_lastNoPhy ?c0)\<lparr>ts_end := now\<rparr>\<rparr>
                           in if now - ts_start (m_lastNoPhy c) > m_resetBackoffThreshold c
                              then ResetAllBackoffs now c else Some c)) = Some c1"
      using assms(1) None by (auto simp: SetupPhyListener_def Let_def elim!: bind_SomeE split: option.splits if_splits)
    have "chan_same c c1"
    proof (cases "m_phy c")
      case None
      let ?c = "?c0\<lparr>m_lastSwitchingEnd := now, m_lastNoPhy := (m_lastNoPhy ?c0)\<lparr>ts_end := now\<rparr>\<rparr>"
      have "c1 = ?c \<or> ResetAllBackoffs now ?c = Some c1"
        using c1 None by (auto simp: Let_def split: if_splits)
      moreover have "chan_same c ?c" by (simp add: chan_same_def)
      ultimately show ?thesis using chan_same_ResetAll by (blast intro: chan_same_trans)
    next
      case (Some q)
      with c1 show ?thesis by (auto simp: DeactivatePhyListener_def chan_same_def split: option.splits)
    qed
    from that [OF this r] show thesis .
  qed
  from chan_same_keys [OF s assms(2)] obtain n where "map fst (m_lastIdle c1) = map fst (m_lastBusyEnd c1)"
    "map fst (m_lastBusyEnd c1) = take n all_chans" "n \<le> 5" by (rule chan_keysE)
  with ResizeLastBusyStructs_ok(1) [OF r] show ?thesis by simp
qed

lemma chan_ok_switch:
  assumes "NotifySwitchingStartNow channelOf eht now l d c = Some (c', calls)" "chan_keys c"
    "chan_widths c \<or> (\<exists>p. m_phy c = Some p \<and> (l = None \<or> l = Some (phy_id p)))"
  shows "chan_ok c'"
proof -
  consider (reset) c1 es where "ResetState now c = Some c1"
      "c' = c1\<lparr>m_accessTimeout := None, m_txops := es, m_lastSwitchingEnd := now + d\<rparr>"
    | (emlsr) i c1 cs where "l = Some i" "m_phyListeners c i \<noteq> None"
      "RemovePhyListener now i c = Some (c1, cs)"
      "c' = c1\<lparr>m_switchingEmlsrLinks := (m_switchingEmlsrLinks c1)(i := None)\<rparr>"
    using assms(1)
    by (auto simp: NotifySwitchingStartNow_def Let_def split: option.splits prod.splits if_splits
        elim!: bind_SomeE)
  then show ?thesis
  proof cases
    case reset
    have "chan_same c1 c'" by (simp add: reset(2) chan_same_def)
    then show ?thesis using chan_ok_ResetState [OF reset(1) assms(2)] by (rule chan_same_ok)
  next
    case emlsr
    note r = chan_Remove [OF emlsr(3) assms(2)]
    have "chan_widths c1"
    proof (cases "m_phy c1 = None")
      case True
      then show ?thesis by (simp add: chan_widths_def)
    next
      case False
      with r(2) have "chan_same c c1" by blast
      moreover from False r(3) emlsr(1,2) assms(3) have "chan_widths c" by auto
      ultimately show ?thesis using chan_same_ok [of c c1] assms(2) by (simp add: chan_ok_def)
    qed
    with r(1) have "chan_ok c1" by (simp add: chan_ok_def)
    moreover have "chan_same c1 c'" by (simp add: emlsr(4) chan_same_def)
    ultimately show ?thesis by (blast intro: chan_same_ok)
  qed
qed

lemma chan_ok_by_same: "chan_ok c \<Longrightarrow> (chan_keys c \<Longrightarrow> chan_same c c') \<Longrightarrow> chan_ok c'"
  using chan_same_ok by (auto simp: chan_ok_def)

lemma chan_ok_step: "cam_step c c' \<Longrightarrow> chan_ok c \<Longrightarrow> chan_ok c'"
proof (induction rule: cam_step.induct)
  case (step_init now c c')
  then obtain n where "map fst (m_lastIdle c) = map fst (m_lastBusyEnd c)"
    "map fst (m_lastBusyEnd c) = take n all_chans" "n \<le> 5" by (auto simp: chan_ok_def elim: chan_keysE)
  with chan_ok_Init(1) [OF step_init(1)] show ?case by blast
next
  case (step_phy_view c p p')
  then show ?case by (simp add: chan_ok_def chan_keys_def chan_widths_def)
next
  case (step_width now interval stop c c' w)
  then have "UpdateLastIdlePeriod now c = Some c'"
    by (auto simp: GetLargestIdlePrimaryChannel_def elim!: bind_SomeE)
  moreover have "chan_keys c" using step_width(2) by (simp add: chan_ok_def)
  ultimately show ?case using step_width(2) by (rule chan_same_ok [OF chan_same_Idle])
next
  case (step_setup now p c c' calls)
  then show ?case by (auto simp: chan_ok_def dest: chan_ok_Setup)
next
  case (step_remove now i c c' calls)
  then have "chan_keys c'" "m_phy c' = None \<or> chan_same c c'"
    using chan_Remove(1,2) [OF step_remove(1)] by (simp_all add: chan_ok_def)
  from this(2) show ?case
  proof
    assume "m_phy c' = None"
    with \<open>chan_keys c'\<close> show ?thesis by (simp add: chan_ok_def chan_widths_def)
  next
    assume "chan_same c c'"
    then show ?thesis using step_remove(2) by (rule chan_same_ok)
  qed
next
  case (step_deactivate c i)
  then show ?case
    by (rule chan_same_ok [rotated]) (simp add: DeactivatePhyListener_def chan_same_def split: option.split)
next
  case (step_emlsr i channel linkId c c')
  then have "chan_same c c'" by (auto simp: NotifySwitchingEmlsrLink_def chan_same_def elim!: bind_SomeE)
  then show ?case using step_emlsr(2) by (rule chan_same_ok)
next
  case (step_switching channelOf eht now l d c c' calls)
  then show ?case by (auto simp: chan_ok_def dest!: chan_ok_switch)
next
  case (step_switching_own c p p' l channelOf eht now d c' calls)
  then have "chan_keys (c\<lparr>m_phy := Some p'\<rparr>)" by (simp add: chan_ok_def chan_keys_def)
  from chan_ok_switch [OF step_switching_own(4) this] step_switching_own(2,3) show ?case by auto
qed (erule chan_ok_by_same, blast intro: inv_intros chan_same_txop)+

lemma chan_ok_reachable: "cam_reachable c \<Longrightarrow> chan_ok c"
proof (induction rule: cam_reachable.induct)
  case (created now c)
  then show ?case
    unfolding ChannelAccessManager_def by (rule chan_ok_Init(1) [of _ _ _ 0]) simp_all
qed (rule chan_ok_step)

text \<open>
  Property C11: in every reachable state of the manager, busy and idle periods are kept for the
  same channels: the primary one, and with an OFDM PHY exactly those of its width, in the order
  they are scanned; and for each 20 MHz subchannel of a wide 802.11ax PHY.
\<close>

theorem channel_structs_invariant:
  assumes "cam_reachable c"
  shows "chan_ok c \<and> omap_get (m_lastBusyEnd c) PRIMARY \<noteq> None"
  using chan_ok_reachable [OF assms] chan_keys_primary [of c] by (simp add: chan_ok_def)

theorem channel_structs_invariant_witness:
  "\<exists>c0 c. ChannelAccessManager 0 = Some c0 \<and> SetupPhyListener 5 ex_phy c0 = Some (c, [PhyRegister 0]) \<and> chan_ok c"
proof -
  obtain c0 where c0: "ChannelAccessManager 0 = Some c0"
    by (simp add: ChannelAccessManager_def InitLastBusyStructs_def ResizeLastBusyStructs_def Let_def keep_chan_def)
  then have "m_phy c0 = None" "m_phyListeners c0 = Map.empty" "m_txops c0 = []"
    "m_resetBackoffThreshold c0 = 0" "ts_start (m_lastNoPhy c0) = 0"
    by (auto simp: ChannelAccessManager_def InitLastBusyStructs_def ResizeLastBusyStructs_def Let_def keep_chan_def)
  then obtain c where c: "SetupPhyListener 5 ex_phy c0 = Some (c, [PhyRegister 0])"
    by (simp add: SetupPhyListener_def Let_def ResetAllBackoffs_def ResizeLastBusyStructs_def keep_chan_def
        ex_phy_def Count20MHzSubchannels_def)
  from cam_reachable.created [OF c0] have "cam_reachable c"
    by (rule cam_reachable.step) (rule cam_step.step_setup [OF c])
  from channel_structs_invariant [OF this] c0 c show ?thesis by blast
qed

section \<open>The width of a transmission\<close>

definition covers :: "time \<Rightarrow> time \<Rightarrow> timespan \<Rightarrow> bool" where
  "covers interval stop s \<longleftrightarrow> ts_start s \<le> stop - interval \<and> ts_end s \<ge> stop"

lemma idle_width_covers:
  "idle_width interval stop idle width =
     (let k = length (takeWhile (covers interval stop \<circ> snd) idle)
      in if k = 0 then width else (if width = 0 then 20 * 2 ^ (k - 1) else width * 2 ^ k))"
proof (induction interval stop idle width rule: idle_width.induct)
  case (2 interval stop ch s idle width)
  show ?case
  proof (cases "covers interval stop s")
    case True
    let ?k = "length (takeWhile (covers interval stop \<circ> snd) idle)"
    have "idle_width interval stop ((ch, s) # idle) width
        = idle_width interval stop idle (if width = 0 then 20 else 2 * width)"
      using True by (simp add: covers_def)
    moreover have "(2 * 2 ^ (?k - 1) :: nat) = 2 ^ ?k" if "?k \<noteq> 0"
      using that by (cases ?k) simp_all
    ultimately show ?thesis
      using 2 True by (simp add: covers_def [symmetric] Let_def)
  next
    case False
    then show ?thesis by (auto simp: covers_def Let_def)
  qed
qed simp

text \<open>
  the width found for a transmission is 0 when the primary channel was not idle for
  the interval, and otherwise doubles from 20 MHz with each further channel that was, up to the
  first one that was not; it never exceeds the width of the PHY.
\<close>

theorem largest_idle_width:
  assumes "chan_ok c" "m_phy c = Some p" "phy_ofdm p" "20 \<le> phy_width p"
    "GetLargestIdlePrimaryChannel now interval stop c = Some (c', width)"
  shows "\<exists>k \<le> length (m_lastIdle c'). width = (if k = 0 then 0 else 20 * 2 ^ (k - 1))
    \<and> width \<le> phy_width p
    \<and> (\<forall>j < k. covers interval stop (snd (m_lastIdle c' ! j)))
    \<and> (k < length (m_lastIdle c') \<longrightarrow> \<not> covers interval stop (snd (m_lastIdle c' ! k)))"
proof -
  let ?P = "covers interval stop \<circ> snd" and ?idle = "m_lastIdle c'"
  let ?k = "length (takeWhile ?P ?idle)"
  have u: "UpdateLastIdlePeriod now c = Some c'" and w: "width = idle_width interval stop ?idle 0"
    using assms(5) by (auto simp: GetLargestIdlePrimaryChannel_def elim!: bind_SomeE)
  have "chan_same c c'" using u assms(1) by (auto simp: chan_ok_def intro: chan_same_Idle)
  then have "map fst ?idle = take (chan_count (phy_width p)) all_chans"
    using assms(1-3) by (simp add: chan_same_def chan_ok_def chan_keys_def chan_widths_def)
  then have "length ?idle = length (take (chan_count (phy_width p)) all_chans)"
    by (metis length_map)
  then have len: "length ?idle = chan_count (phy_width p)" by (simp add: all_chans_def chan_count_def)
  have k: "?k \<le> length ?idle" by (rule length_takeWhile_le)
  have width: "width = (if ?k = 0 then 0 else 20 * 2 ^ (?k - 1))"
    by (simp add: w idle_width_covers Let_def)
  have "width \<le> 20 * 2 ^ (chan_count (phy_width p) - 1)"
  proof -
    have "(2::nat) ^ (?k - 1) \<le> 2 ^ (chan_count (phy_width p) - 1)"
      using k len by (intro power_increasing) auto
    then show ?thesis by (simp add: width)
  qed
  also have "\<dots> \<le> phy_width p" using assms(4) by (simp add: chan_count_def)
  finally have "width \<le> phy_width p" .
  moreover have "\<forall>j < ?k. covers interval stop (snd (?idle ! j))"
    using nth_mem [of _ "takeWhile ?P ?idle"] takeWhile_nth [of _ ?P ?idle] set_takeWhileD [of _ ?P ?idle]
    by (metis comp_apply)
  moreover have "?k < length ?idle \<longrightarrow> \<not> covers interval stop (snd (?idle ! ?k))"
    using nth_length_takeWhile [of ?P ?idle] by simp
  ultimately show ?thesis using k width by blast
qed

lemma ex_cam_chan_ok: "chan_ok ex_cam"
  by (auto simp: chan_ok_def chan_keys_def chan_widths_def ex_cam_def ex_phy_def chan_count_def all_chans_def
      intro!: bexI [of _ 3])

theorem largest_idle_width_witness:
  "\<exists>c' width. GetLargestIdlePrimaryChannel 200000 25000 200000 ex_cam = Some (c', width) \<and> width \<le> 80"
proof -
  obtain c' width where "GetLargestIdlePrimaryChannel 200000 25000 200000 ex_cam = Some (c', width)"
    by (auto simp: GetLargestIdlePrimaryChannel_def UpdateLastIdlePeriod_def idle_since_def ex_cam_def
        less_chanlist_def)
  moreover from largest_idle_width [OF ex_cam_chan_ok _ _ _ this, of ex_phy] have "width \<le> 80"
    by (auto simp: ex_cam_def ex_phy_def)
  ultimately show ?thesis by blast
qed

section \<open>Expected accesses\<close>

lemma expected_from_sound:
  "expected_from w deadline slot ags es reason = ACCESS_EXPECTED \<Longrightarrow> reason \<noteq> ACCESS_EXPECTED \<Longrightarrow>
     \<exists>(i, e) \<in> set es. l_access (e_link e) = REQUESTED \<and> w_hasFrames w i
       \<and> GetBackoffEndFor (w_now w) slot e ags \<in> {w_now w..deadline}"
proof (induction w deadline slot ags es reason rule: expected_from.induct)
  case (2 w deadline slot ags i e es reason)
  show ?case
  proof (cases "l_access (e_link e) = REQUESTED \<and> w_hasFrames w i
      \<and> GetBackoffEndFor (w_now w) slot e ags \<in> {w_now w..deadline}")
    case False
    with 2 show ?thesis by (auto simp: Let_def split: if_splits)
  qed auto
qed simp

lemma expected_from_complete:
  "(i, e) \<in> set es \<Longrightarrow> l_access (e_link e) = REQUESTED \<Longrightarrow> w_hasFrames w i \<Longrightarrow>
     GetBackoffEndFor (w_now w) slot e ags \<in> {w_now w..deadline} \<Longrightarrow>
     expected_from w deadline slot ags es reason = ACCESS_EXPECTED"
proof (induction w deadline slot ags es reason rule: expected_from.induct)
  case (2 w deadline slot ags i' e' es reason)
  then show ?case by (auto simp: Let_def)
qed simp

text \<open>
  an access is expected within a delay exactly when the medium is known to be free
  before the deadline and some function that requested access, and has frames to transmit, ends
  its backoff between now and the deadline.
\<close>

theorem expected_access_exact:
  assumes "omap_get (m_lastBusyEnd c) PRIMARY = Some busyEnd"
  shows "GetExpectedAccessWithin w delay c = Some ACCESS_EXPECTED \<longleftrightarrow>
    (\<forall>t \<in> medium_ends False (w_now w) busyEnd c. t < w_now w + delay)
    \<and> (\<exists>i < length (m_txops c). l_access (e_link (m_txops c ! i)) = REQUESTED \<and> w_hasFrames w i
         \<and> GetBackoffEndFor (w_now w) (GetSlot c) (m_txops c ! i)
              (Max (medium_ends False (w_now w) busyEnd c) + GetSifs c) \<in> {w_now w..w_now w + delay})"
proof -
  let ?E = "medium_ends False (w_now w) busyEnd c" and ?d = "w_now w + delay"
  let ?exp = "expected_from w ?d (GetSlot c) (Max ?E + GetSifs c) (enumerate 0 (m_txops c)) R_NOT_REQUESTED"
  obtain m where m: "DoGetAccessGrantStart False (w_now w) c = Some m"
    by (simp add: DoGetAccessGrantStart_def assms del: sort_key_simps)
  from DoGetAccessGrantStart_props [OF m] assms have p: "fst ` set m = ?E" "m \<noteq> []" "fst (last m) = Max ?E"
    by auto
  have fin: "finite ?E" "?E \<noteq> {}" by (simp_all add: medium_ends_def)
  show ?thesis
  proof (cases "Max ?E \<ge> ?d")
    case True
    have "snd x \<noteq> ACCESS_EXPECTED" if "x \<in> set m" for x
      using m that by (auto simp: DoGetAccessGrantStart_def assms simp del: sort_key_simps)
    moreover have "GetExpectedAccessWithin w delay c = map_option snd (find (\<lambda>(t, _). t \<ge> ?d) m)"
      using True p by (simp add: GetExpectedAccessWithin_def m Let_def)
    ultimately have "GetExpectedAccessWithin w delay c \<noteq> Some ACCESS_EXPECTED"
      by (auto simp: find_Some_iff) (metis nth_mem snd_conv)
    moreover have "\<not> (\<forall>t \<in> ?E. t < ?d)" using True Max_in [OF fin] by force
    ultimately show ?thesis by blast
  next
    case False
    then have "GetExpectedAccessWithin w delay c = Some ?exp"
      using p by (simp add: GetExpectedAccessWithin_def m Let_def)
    moreover have "\<forall>t \<in> ?E. t < ?d" using False fin by (simp add: not_le)
    moreover have "?exp = ACCESS_EXPECTED \<longleftrightarrow>
      (\<exists>i < length (m_txops c). l_access (e_link (m_txops c ! i)) = REQUESTED \<and> w_hasFrames w i
         \<and> GetBackoffEndFor (w_now w) (GetSlot c) (m_txops c ! i) (Max ?E + GetSifs c) \<in> {w_now w..?d})"
      (is "_ \<longleftrightarrow> ?R")
    proof
      assume "?exp = ACCESS_EXPECTED"
      from expected_from_sound [OF this] show ?R by (auto simp: in_set_enumerate_eq)
    next
      assume ?R
      then obtain i where "i < length (m_txops c)" "l_access (e_link (m_txops c ! i)) = REQUESTED"
        "w_hasFrames w i"
        "GetBackoffEndFor (w_now w) (GetSlot c) (m_txops c ! i) (Max ?E + GetSifs c) \<in> {w_now w..?d}" by blast
      then show "?exp = ACCESS_EXPECTED"
        by (intro expected_from_complete [of i "m_txops c ! i"]) (auto simp: in_set_enumerate_eq)
    qed
    ultimately show ?thesis by simp
  qed
qed

definition ex_world :: world where
  "ex_world = \<lparr>w_now = 120000, w_hasFrames = (\<lambda>_. True), w_draw = (\<lambda>_ n. n), w_mac = ex_env, w_linkId = 0\<rparr>"

theorem expected_access_exact_witness:
  "GetExpectedAccessWithin ex_world 50000 ex_cam = Some ACCESS_EXPECTED"
proof -
  have "omap_get (m_lastBusyEnd ex_cam) PRIMARY = Some 0" by (simp add: ex_cam_def)
  note iff = expected_access_exact [OF this, of ex_world 50000]
  have "\<forall>t \<in> medium_ends False 120000 0 ex_cam. t < 170000"
    by (simp add: medium_ends_def ex_cam_def rx_access_start_def span_end_def)
  moreover have "Max (medium_ends False 120000 0 ex_cam) + GetSifs ex_cam = 116000"
    using GetAccessGrantStart_eq [of ex_cam 0 False 120000] ex_cam_ags [of 120000] by (simp add: ex_cam_def)
  moreover have "GetBackoffEndFor 120000 9000 (ex_edcaf AC_VO 2 3) 116000 = 161000"
    by (simp add: GetBackoffEndFor_def ex_edcaf_start) (simp add: ex_edcaf_def)
  moreover have "l_access (e_link (ex_edcaf AC_VO 2 3)) = REQUESTED" by (simp add: ex_edcaf_def)
  ultimately show ?thesis
    by (subst iff) (auto simp: ex_world_def ex_cam_slot intro!: exI [of _ 0])
qed

end
