(* ===== verification/Channel_Invariants.thy ===== *)
theory Channel_Invariants
  imports Channel_Grants
begin

text \<open>
  What the operations of the channel access manager do to the channel access functions and to the
  state around the manager, for any property \<open>P i\<close> of the \<open>i\<close>-th function that the few operations the
  manager applies to it preserve (\<open>txop_invariant\<close>), and for any property \<open>K\<close> of the whole
  state that attempts to transmit preserve as well (\<open>access_invariant\<close>).
\<close>

section \<open>Properties of the channel access functions\<close>

locale txop_invariant =
  fixes P :: "nat \<Rightarrow> edcaf \<Rightarrow> bool"
  assumes P_slots: "P i e \<Longrightarrow> P i (e_UpdateBackoffSlotsNow n t e)"
    and P_backoff: "P i e \<Longrightarrow> P i (e_GenerateBackoff w j e)"
    and P_requested: "P i e \<Longrightarrow> P i (e\<lparr>e_link := NotifyAccessRequested (e_link e)\<rparr>)"
    and P_reset: "P i e \<Longrightarrow> ResetBackoff now e = Some e' \<Longrightarrow> P i e'"
begin

definition all_P :: "edcaf list \<Rightarrow> bool" where
  "all_P es \<longleftrightarrow> (\<forall>i < length es. P i (es ! i))"

text \<open>
  The state after an operation at \<open>now\<close>: the functions still satisfy \<open>P\<close>, the NAV has not
  become shorter, a channel switch that has not ended has not, and what extends the manager is
  unchanged.
\<close>

definition keeps :: "time \<Rightarrow> 'z cam_scheme \<Rightarrow> 'z cam_scheme \<Rightarrow> bool" where
  "keeps now c c' \<longleftrightarrow>
     cam.more c' = cam.more c \<and> length (m_txops c') = length (m_txops c)
     \<and> m_lastNavEnd c \<le> m_lastNavEnd c'
     \<and> (now \<le> m_lastSwitchingEnd c \<longrightarrow> now \<le> m_lastSwitchingEnd c')
     \<and> (all_P (m_txops c) \<longrightarrow> all_P (m_txops c'))"

lemma keeps_refl [simp, intro]: "keeps now c c"
  by (simp add: keeps_def)

lemma keeps_trans [trans]: "keeps now c d \<Longrightarrow> keeps now d e \<Longrightarrow> keeps now c e"
  unfolding keeps_def by (metis order_trans)

text \<open>Updates of fields that do not matter.\<close>

lemma keeps_fields [simp]:
  "keeps now c (d\<lparr>m_lastAckTimeoutEnd := t\<rparr>) = keeps now c d"
  "keeps now c (d\<lparr>m_lastCtsTimeoutEnd := t\<rparr>) = keeps now c d"
  "keeps now c (d\<lparr>m_lastRx := x\<rparr>) = keeps now c d"
  "keeps now c (d\<lparr>m_lastRxReceivedOk := b\<rparr>) = keeps now c d"
  "keeps now c (d\<lparr>m_lastTxEnd := t\<rparr>) = keeps now c d"
  "keeps now c (d\<lparr>m_lastBusyEnd := y\<rparr>) = keeps now c d"
  "keeps now c (d\<lparr>m_lastPer20MHzBusyEnd := z\<rparr>) = keeps now c d"
  "keeps now c (d\<lparr>m_lastIdle := u\<rparr>) = keeps now c d"
  "keeps now c (d\<lparr>m_lastSleep := x\<rparr>) = keeps now c d"
  "keeps now c (d\<lparr>m_lastOff := x\<rparr>) = keeps now c d"
  "keeps now c (d\<lparr>m_eifsNoDifs := t\<rparr>) = keeps now c d"
  "keeps now c (d\<lparr>m_lastNoPhy := x\<rparr>) = keeps now c d"
  "keeps now c (d\<lparr>m_cachedSifs := t\<rparr>) = keeps now c d"
  "keeps now c (d\<lparr>m_cachedSlot := t\<rparr>) = keeps now c d"
  "keeps now c (d\<lparr>m_accessTimeout := o'\<rparr>) = keeps now c d"
  "keeps now c (d\<lparr>m_switchingEmlsrLinks := s\<rparr>) = keeps now c d"
  "keeps now c (d\<lparr>m_phyListeners := l\<rparr>) = keeps now c d"
  "keeps now c (d\<lparr>m_phy := p\<rparr>) = keeps now c d"
  by (simp_all add: keeps_def)

lemma keeps_nav: "keeps now c d \<Longrightarrow> m_lastNavEnd d \<le> t \<Longrightarrow> keeps now c (d\<lparr>m_lastNavEnd := t\<rparr>)"
  by (auto simp: keeps_def)

lemma keeps_switching: "keeps now c d \<Longrightarrow> now \<le> t \<Longrightarrow> keeps now c (d\<lparr>m_lastSwitchingEnd := t\<rparr>)"
  by (auto simp: keeps_def)

lemma all_P_update: "all_P es \<Longrightarrow> (i < length es \<Longrightarrow> P i e) \<Longrightarrow> all_P (es[i := e])"
  unfolding all_P_def by (metis length_list_update nth_list_update_eq nth_list_update_neq)

lemma keeps_txop:
  assumes "\<And>e. P i e \<Longrightarrow> P i (f e)" "keeps now c d"
  shows "keeps now c (on_txop i f d)"
proof -
  have "all_P ((m_txops d)[i := f (m_txops d ! i)])" if "all_P (m_txops d)"
    using that by (rule all_P_update) (use that assms(1) in \<open>simp add: all_P_def\<close>)
  with assms(2) show ?thesis by (simp add: keeps_def on_txop_def)
qed

lemma keeps_map_opt:
  assumes "map_opt f (m_txops d) = Some es" "\<And>i e e'. P i e \<Longrightarrow> f e = Some e' \<Longrightarrow> P i e'" "keeps now c d"
  shows "keeps now c (d\<lparr>m_txops := es\<rparr>)"
proof -
  have "length es = length (m_txops d)" using map_opt_length [OF assms(1)] .
  moreover have "all_P es" if "all_P (m_txops d)"
    using that assms(2) map_opt_nth [OF assms(1)] calculation by (auto simp: all_P_def)
  ultimately have "keeps now d (d\<lparr>m_txops := es\<rparr>)" by (simp add: keeps_def)
  with assms(3) show ?thesis by (rule keeps_trans)
qed

lemma P_dec_backoff: "P i e \<Longrightarrow> dec_backoff now slot ags e = Some e' \<Longrightarrow> P i e'"
  by (auto simp: dec_backoff_def Let_def P_slots split: if_splits)

lemma P_align: "P i e \<Longrightarrow> align_backoff now slot ags e = Some e' \<Longrightarrow> P i e'"
  by (auto simp: align_backoff_def Let_def P_slots split: if_splits)

section \<open>Operations without attempts to transmit\<close>

lemma keeps_UpdateBackoff: "UpdateBackoff now c = Some c' \<Longrightarrow> keeps t c c'"
  by (auto simp: UpdateBackoff_def elim!: bind_SomeE) (rule keeps_map_opt, assumption, erule (1) P_dec_backoff, simp)

lemma keeps_Idle: "UpdateLastIdlePeriod now c = Some c' \<Longrightarrow> keeps t c c'"
  by (erule UpdateLastIdlePeriod_frame) simp

lemma keeps_Width: "GetLargestIdlePrimaryChannel now interval stop c = Some (c', width) \<Longrightarrow> keeps t c c'"
  by (auto simp: GetLargestIdlePrimaryChannel_def elim!: bind_SomeE intro: keeps_Idle)

lemma keeps_Restart: "DoRestartAccessTimeoutIfNeeded now c = Some (c', calls) \<Longrightarrow> keeps t c c'"
  by (drule restart_frame) (metis keeps_fields(15) keeps_refl)

lemma keeps_ResetAll: "ResetAllBackoffs now c = Some c' \<Longrightarrow> keeps t c c'"
  by (auto simp: ResetAllBackoffs_def elim!: bind_SomeE) (rule keeps_map_opt, assumption, erule (1) P_reset, simp)

lemma keeps_Disable:
  assumes "DisableEdcaFor now i d c = Some (c', calls)"
  shows "keeps t c c'"
proof -
  from assms obtain c1 where c1: "UpdateBackoff now c = Some c1"
    and c': "DoRestartAccessTimeoutIfNeeded now (on_txop i (e_UpdateBackoffSlotsNow 0 (now + d)) c1) = Some (c', calls)"
    by (auto simp: DisableEdcaFor_def elim!: bind_SomeE)
  have "keeps t c1 (on_txop i (e_UpdateBackoffSlotsNow 0 (now + d)) c1)" by (auto intro: keeps_txop P_slots)
  with keeps_UpdateBackoff [OF c1] keeps_Restart [OF c'] show ?thesis using keeps_trans by blast
qed

lemma keeps_UpdateIdle:
  "UpdateBackoff now c = Some d \<Longrightarrow> UpdateLastIdlePeriod now d = Some e \<Longrightarrow> keeps t c e"
  by (rule keeps_trans [OF keeps_UpdateBackoff keeps_Idle])

lemma keeps_RxStart: "NotifyRxStartNow now d c = Some c' \<Longrightarrow> keeps t c c'"
  by (auto simp: NotifyRxStartNow_def elim!: bind_SomeE intro: keeps_UpdateIdle)

lemma keeps_RxEndOk: "keeps t c (NotifyRxEndOkNow now c)"
  by (simp add: NotifyRxEndOkNow_def)

lemma keeps_RxEndError: "NotifyRxEndErrorNow now ack c = Some c' \<Longrightarrow> keeps t c c'"
  by (auto simp: NotifyRxEndErrorNow_def elim!: bind_SomeE)

lemma keeps_TxStart:
  assumes "NotifyTxStartNow now d c = Some c'"
  shows "keeps t c c'"
proof -
  let ?c0 = "c\<lparr>m_lastRxReceivedOk := True\<rparr>"
  from assms obtain c1 c2 where
    c1: "(if ts_end (m_lastRx ?c0) > now
          then do { ns_assert (now - ts_start (m_lastRx ?c0) \<le> GetSifs ?c0);
                    Some (?c0\<lparr>m_lastRx := (m_lastRx ?c0)\<lparr>ts_end := now\<rparr>\<rparr>) }
          else UpdateLastIdlePeriod now ?c0) = Some c1"
    and c2: "UpdateBackoff now c1 = Some c2" "c' = c2\<lparr>m_lastTxEnd := now + d\<rparr>"
    unfolding NotifyTxStartNow_def Let_def by (elim bind_SomeE) (rule that, assumption, assumption, simp)
  have "keeps t c ?c0" by simp
  also have "keeps t ?c0 c1" using c1 keeps_Idle by (auto split: if_splits)
  also have "keeps t c1 c'" using keeps_UpdateBackoff [OF c2(1)] c2(2) by simp
  finally show ?thesis .
qed

lemma keeps_proactive: "keeps t c d \<Longrightarrow> keeps t c (proactive_backoffs w is d)"
proof (induction w "is" d rule: proactive_backoffs.induct)
  case (2 w i "is" d)
  have "keeps t c (on_txop i (e_GenerateBackoff w i) d)" using P_backoff 2(2) by (rule keeps_txop)
  with 2 show ?case by (simp add: Let_def)
qed simp

lemma keeps_CcaBusy: "NotifyCcaBusyStartNow w d ch ds c = Some c' \<Longrightarrow> keeps t c c'"
  by (auto simp: NotifyCcaBusyStartNow_def Let_def elim!: bind_SomeE intro!: keeps_proactive
      split: if_splits) (erule (1) keeps_UpdateIdle)+

lemma keeps_NavStart: "NotifyNavStartNow now d c = Some c' \<Longrightarrow> keeps t c c'"
  by (auto simp: NotifyNavStartNow_def elim!: bind_SomeE intro: keeps_nav keeps_UpdateBackoff)

lemma keeps_AckStart: "NotifyAckTimeoutStartNow now d c = Some c' \<Longrightarrow> keeps t c c'"
  by (auto simp: NotifyAckTimeoutStartNow_def)

lemma keeps_AckReset: "NotifyAckTimeoutResetNow now c = Some (c', calls) \<Longrightarrow> keeps t c c'"
  unfolding NotifyAckTimeoutResetNow_def
  by (rule keeps_trans [OF _ keeps_Restart]) simp_all

lemma keeps_CtsStart: "keeps t c (NotifyCtsTimeoutStartNow now d c)"
  by (simp add: NotifyCtsTimeoutStartNow_def)

lemma keeps_CtsReset: "NotifyCtsTimeoutResetNow now c = Some (c', calls) \<Longrightarrow> keeps t c c'"
  unfolding NotifyCtsTimeoutResetNow_def
  by (rule keeps_trans [OF _ keeps_Restart]) simp_all

lemma keeps_Sleep: "NotifySleepNow now c = Some (c', calls) \<Longrightarrow> keeps t c c'"
  by (auto simp: NotifySleepNow_def elim!: bind_SomeE intro: keeps_UpdateIdle)

lemma keeps_Off: "NotifyOffNow now c = Some (c', calls) \<Longrightarrow> keeps t c c'"
  by (auto simp: NotifyOffNow_def elim!: bind_SomeE intro: keeps_UpdateIdle)

lemma keeps_keep_chan: "keeps t c d \<Longrightarrow> keeps t c (keep_chan b ch now d)"
  by (simp add: keep_chan_def)

lemma keeps_Resize: "ResizeLastBusyStructs now c = Some c' \<Longrightarrow> keeps t c c'"
  by (auto simp: ResizeLastBusyStructs_def Let_def elim!: bind_SomeE intro!: keeps_keep_chan
      split: option.splits if_splits)

lemma keeps_Init: "InitLastBusyStructs now c = Some c' \<Longrightarrow> keeps t c c'"
  by (auto simp: InitLastBusyStructs_def elim!: bind_SomeE intro: keeps_Resize)

lemma keeps_Deactivate: "keeps t c (DeactivatePhyListener i c)"
  by (simp add: DeactivatePhyListener_def split: option.split)

lemma keeps_Setup:
  assumes "SetupPhyListener now p c = Some (c', calls)"
  shows "keeps now c c'"
proof -
  from assms obtain c1 calls1 where
    c1: "(case m_phyListeners c (phy_id p) of
            Some active \<Rightarrow>
              do { ns_assert (\<not> active);
                   ns_assert (m_phy c = None);
                   ns_assert (ts_start (m_lastNoPhy c) = now);
                   ns_assert (ts_end (m_lastNoPhy c) \<le> ts_start (m_lastNoPhy c));
                   Some (c\<lparr>m_phyListeners := (m_phyListeners c)(phy_id p \<mapsto> True),
                           m_lastNoPhy := (m_lastNoPhy c)\<lparr>ts_start := ts_end (m_lastNoPhy c)\<rparr>\<rparr>,
                         [PhyUnregister (phy_id p)]) }
          | None \<Rightarrow>
              do { let c = c\<lparr>m_phyListeners := (m_phyListeners c)(phy_id p \<mapsto> True)\<rparr>;
                   c \<leftarrow> (case m_phy c of
                           Some q \<Rightarrow> Some (DeactivatePhyListener (phy_id q) c)
                         | None \<Rightarrow>
                             (let c = c\<lparr>m_lastSwitchingEnd := now,
                                        m_lastNoPhy := (m_lastNoPhy c)\<lparr>ts_end := now\<rparr>\<rparr>
                              in if now - ts_start (m_lastNoPhy c) > m_resetBackoffThreshold c
                                 then ResetAllBackoffs now c else Some c));
                   Some (c, []) }) = Some (c1, calls1)"
    and c': "ResizeLastBusyStructs now (c1\<lparr>m_phy := Some p\<rparr>) = Some c'"
    by (auto simp: SetupPhyListener_def elim!: bind_SomeE)
  have "keeps now c c1"
  proof (cases "m_phyListeners c (phy_id p)")
    case (Some active)
    with c1 show ?thesis by (auto split: if_splits)
  next
    case None
    let ?d = "c\<lparr>m_phyListeners := (m_phyListeners c)(phy_id p \<mapsto> True)\<rparr>"
    let ?e = "?d\<lparr>m_lastSwitchingEnd := now, m_lastNoPhy := (m_lastNoPhy ?d)\<lparr>ts_end := now\<rparr>\<rparr>"
    have e: "keeps now c ?e" by (simp add: keeps_switching)
    show ?thesis
    proof (cases "m_phy c")
      case (Some q)
      have "keeps now ?d (DeactivatePhyListener (phy_id q) ?d)" by (rule keeps_Deactivate)
      with None c1 Some show ?thesis by (auto intro: keeps_trans [of _ _ ?d])
    next
      case no_phy: None
      with None c1 have "c1 = ?e \<or> ResetAllBackoffs now ?e = Some c1"
        by (auto simp: Let_def elim!: bind_SomeE split: if_splits)
      with e keeps_ResetAll show ?thesis using keeps_trans by blast
    qed
  qed
  moreover have "keeps now (c1\<lparr>m_phy := Some p\<rparr>) c'" by (rule keeps_Resize [OF c'])
  ultimately show ?thesis using keeps_trans [of now c "c1\<lparr>m_phy := Some p\<rparr>"] by simp
qed

lemma keeps_Remove:
  assumes "RemovePhyListener now i c = Some (c', calls)"
  shows "keeps t c c'"
proof (cases "m_phyListeners c i")
  case None
  with assms show ?thesis by (auto simp: RemovePhyListener_def)
next
  case (Some a)
  let ?d = "c\<lparr>m_phyListeners := (m_phyListeners c)(i := None)\<rparr>"
  show ?thesis
  proof (cases "map_option phy_id (m_phy ?d) = Some i")
    case False
    with Some assms show ?thesis
      by (auto simp: RemovePhyListener_def Let_def elim!: bind_SomeE split: if_splits)
  next
    case True
    with Some assms obtain c1 c2 where "UpdateBackoff now ?d = Some c1" "UpdateLastIdlePeriod now c1 = Some c2"
      "c' = c2\<lparr>m_cachedSifs := GetSifs c2, m_cachedSlot := (if m_txops c2 = [] then m_cachedSlot c2 else GetSlot c2),
               m_phy := None, m_lastNoPhy := (m_lastNoPhy c2)\<lparr>ts_start := now\<rparr>\<rparr>"
      by (auto simp: RemovePhyListener_def Let_def elim!: bind_SomeE)
    then have "keeps t ?d c1" "keeps t c1 c2" "c' = c2\<lparr>m_cachedSifs := GetSifs c2,
       m_cachedSlot := (if m_txops c2 = [] then m_cachedSlot c2 else GetSlot c2),
               m_phy := None, m_lastNoPhy := (m_lastNoPhy c2)\<lparr>ts_start := now\<rparr>\<rparr>"
      by (auto intro: keeps_UpdateBackoff keeps_Idle)
    then show ?thesis using keeps_trans [of t c ?d] keeps_trans [of t ?d c1] by simp
  qed
qed

lemma keeps_Emlsr: "NotifySwitchingEmlsrLink i ch l c = Some c' \<Longrightarrow> keeps t c c'"
  by (auto simp: NotifySwitchingEmlsrLink_def)

section \<open>Operations that cut the NAV short\<close>

lemma NavReset_spec:
  assumes "NotifyNavResetNow now 0 c = Some (c', calls)"
  shows "keeps t (c\<lparr>m_lastNavEnd := min (m_lastNavEnd c) now\<rparr>) c'"
proof (cases "m_phy c")
  case None
  with assms show ?thesis by (auto simp: NotifyNavResetNow_def keeps_def)
next
  case (Some p)
  with assms obtain c1 where c1: "UpdateBackoff now c = Some c1"
    and r: "DoRestartAccessTimeoutIfNeeded now (c1\<lparr>m_lastNavEnd := now\<rparr>) = Some (c', calls)"
    by (auto simp: NotifyNavResetNow_def elim!: bind_SomeE)
  have "m_lastNavEnd c1 = m_lastNavEnd c" using c1 by (auto simp: UpdateBackoff_def elim!: bind_SomeE)
  with keeps_UpdateBackoff [OF c1, of t]
  have "keeps t (c\<lparr>m_lastNavEnd := min (m_lastNavEnd c) now\<rparr>) (c1\<lparr>m_lastNavEnd := now\<rparr>)"
    by (auto simp: keeps_def)
  from keeps_trans [OF this keeps_Restart [OF r]] show ?thesis .
qed

lemma ResetState_spec:
  assumes "ResetState now c = Some c'"
  shows "keeps t (c\<lparr>m_lastNavEnd := min (m_lastNavEnd c) now\<rparr>) c'"
proof -
  let ?c0 = "c\<lparr>m_lastRxReceivedOk := True\<rparr>"
  obtain c1 where u: "UpdateLastIdlePeriod now ?c0 = Some c1"
    and i: "InitLastBusyStructs now
            (c1\<lparr>m_lastRx := clip_end now (m_lastRx c1), m_lastNavEnd := min (m_lastNavEnd c1) now,
               m_lastAckTimeoutEnd := min (m_lastAckTimeoutEnd c1) now,
               m_lastCtsTimeoutEnd := min (m_lastCtsTimeoutEnd c1) now,
               m_lastNoPhy := clip_end now (m_lastNoPhy c1), m_lastSleep := clip_end now (m_lastSleep c1),
               m_lastOff := clip_end now (m_lastOff c1)\<rparr>) = Some c'"
    using assms by (auto simp: ResetState_def elim!: bind_SomeE)
  from u obtain idle where "c1 = ?c0\<lparr>m_lastIdle := idle\<rparr>" by (rule UpdateLastIdlePeriod_frame)
  with keeps_Init [OF i, of t] show ?thesis by (auto simp: keeps_def)
qed

text \<open>
  A channel switch either ends the NAV and tells the frame exchange manager, or is that of another
  PHY.
\<close>

lemma Switching_spec:
  assumes "NotifySwitchingStartNow channelOf eht now listener d c = Some (c', calls)" "0 \<le> d"
  shows "keeps now c c' \<and> (\<forall>d. FemSwitchingStart d \<notin> set calls)
    \<or> keeps now (c\<lparr>m_lastNavEnd := min (m_lastNavEnd c) now\<rparr>) c' \<and> now \<le> m_lastSwitchingEnd c'
       \<and> calls = [FemSwitchingStart d]"
proof -
  from assms(1) consider
    (emlsr) phyId linkId c1 calls1 where "RemovePhyListener now phyId c = Some (c1, calls1)"
      "c' = c1\<lparr>m_switchingEmlsrLinks := (m_switchingEmlsrLinks c1)(phyId := None)\<rparr>"
      "calls = calls1 @ [FemSwitchingEmlsrLink phyId linkId d]"
    | (own) c1 es where "ResetState now c = Some c1" "map_opt (ResetBackoff now) (m_txops c1) = Some es"
      "c' = c1\<lparr>m_accessTimeout := None, m_txops := es, m_lastSwitchingEnd := now + d\<rparr>"
      "calls = [FemSwitchingStart d]"
    by (auto simp: NotifySwitchingStartNow_def Let_def elim!: bind_SomeE split: option.splits if_splits)
  then show ?thesis
  proof cases
    case emlsr
    have "calls1 = [] \<or> calls1 = [PhyUnregister phyId]"
      using emlsr(1) by (auto simp: RemovePhyListener_def Let_def elim!: bind_SomeE split: option.splits if_splits)
    with emlsr keeps_Remove [OF emlsr(1), of now] show ?thesis by auto
  next
    case own
    let ?c0 = "c\<lparr>m_lastNavEnd := min (m_lastNavEnd c) now\<rparr>"
    have "keeps now ?c0 (c1\<lparr>m_txops := es\<rparr>)"
      by (rule keeps_map_opt [OF own(2)]) (erule (1) P_reset, rule ResetState_spec [OF own(1)])
    then have "keeps now ?c0 (c1\<lparr>m_txops := es, m_lastSwitchingEnd := now + d\<rparr>)"
      by (rule keeps_switching) (use assms(2) in simp)
    then have "keeps now ?c0 c'" using own(3) by (simp add: keeps_def)
    with own(3,4) assms(2) show ?thesis by simp
  qed
qed

end

section \<open>Operations with attempts to transmit\<close>

locale access_invariant = txop_invariant +
  fixes now :: time
    and K :: "'z cam_scheme \<Rightarrow> bool"
    and startTx :: "nat \<Rightarrow> nat \<Rightarrow> 'z cam_scheme \<Rightarrow> ('z cam_scheme \<times> bool) option"
    and collide :: "nat \<Rightarrow> 'z cam_scheme \<Rightarrow> 'z cam_scheme option"
  assumes K_keeps: "keeps now c c' \<Longrightarrow> K c \<Longrightarrow> K c'"
    and K_start: "startTx i width c = Some (c', started) \<Longrightarrow> K c \<Longrightarrow> K c'"
    and K_collide: "collide i c = Some c' \<Longrightarrow> K c \<Longrightarrow> K c'"
begin

lemma K_width: "access_width t c = Some (c', width) \<Longrightarrow> K c \<Longrightarrow> K c'"
  by (auto simp: access_width_def Let_def elim!: bind_SomeE dest: K_keeps [OF keeps_Width] split: if_splits)

lemma K_collisions: "collisions collide js c = Some (c', calls) \<Longrightarrow> K c \<Longrightarrow> K c'"
  by (induction js arbitrary: c calls) (auto elim!: bind_SomeE dest: K_collide)

lemma K_grant_from: "grant_from startTx collide t ags is c = Some (c', calls) \<Longrightarrow> K c \<Longrightarrow> K c'"
proof (induction "is" arbitrary: c calls)
  case (Cons i "is")
  show ?case
  proof (cases "can_access t ags c i \<and> \<not> edca_disabled t c i")
    case False
    with Cons show ?thesis by auto
  next
    case True
    with Cons.prems(1) obtain c1 width c2 started where
      w: "access_width t c = Some (c1, width)" and s: "startTx i width c1 = Some (c2, started)"
      and r: "(if started
         then do { (c, calls) \<leftarrow> collisions collide (filter (can_access t ags c) is) c2;
                   Some (c, StartTx i width # calls) }
         else do { (c, calls) \<leftarrow> grant_from startTx collide t ags is
                                   (on_txop i (e_UpdateBackoffSlotsNow 0 t) c2);
                   Some (c, StartTx i width # calls) }) = Some (c', calls)"
      by (auto elim!: bind_SomeE)
    have "K c2" using K_start [OF s K_width [OF w Cons.prems(2)]] .
    moreover from this have "K (on_txop i (e_UpdateBackoffSlotsNow 0 t) c2)"
      by (rule K_keeps [rotated]) (auto intro: keeps_txop P_slots)
    ultimately show ?thesis
      using r Cons.IH K_collisions by (auto elim!: bind_SomeE split: if_splits)
  qed
qed simp

lemma K_grant: "DoGrantDcfAccess startTx collide t c = Some (c', calls) \<Longrightarrow> K c \<Longrightarrow> K c'"
  by (auto simp: DoGrantDcfAccess_def elim!: bind_SomeE intro: K_grant_from split: if_splits)

lemma K_Restart: "DoRestartAccessTimeoutIfNeeded t c = Some (c', calls) \<Longrightarrow> K c \<Longrightarrow> K c'"
  by (rule K_keeps [OF keeps_Restart])

lemma K_UpdateBackoff: "UpdateBackoff t c = Some c' \<Longrightarrow> K c \<Longrightarrow> K c'"
  by (rule K_keeps [OF keeps_UpdateBackoff])

lemma K_AccessTimeout:
  assumes "AccessTimeout startTx collide t c = Some (c', calls)" "K c"
  shows "K c'"
proof -
  have "K (c\<lparr>m_accessTimeout := None\<rparr>)" using assms(2) by (rule K_keeps [rotated]) simp
  with assms(1) show ?thesis
    by (auto simp: AccessTimeout_def Let_def elim!: bind_SomeE split: if_splits
        dest: K_UpdateBackoff K_grant K_Restart K_keeps [OF keeps_ResetAll])
qed

lemma K_on_txop: "K c \<Longrightarrow> (\<And>e. P i e \<Longrightarrow> P i (f e)) \<Longrightarrow> K (on_txop i f c)"
  by (rule K_keeps [OF keeps_txop]) auto

lemma K_align:
  assumes "get_txop i c = Some e" "align_backoff t slot ags e = Some e'" "K c"
  shows "K (on_txop i (\<lambda>_. e') c)"
proof -
  let ?f = "\<lambda>x. if x = e then e' else x"
  have "on_txop i (\<lambda>_. e') c = on_txop i ?f c"
    using assms(1) by (auto simp: on_txop_def get_txop_def split: if_splits)
  moreover have "K (on_txop i ?f c)" by (rule K_on_txop [OF assms(3)]) (auto dest: P_align [OF _ assms(2)])
  ultimately show ?thesis by simp
qed

lemma K_RequestAccess:
  assumes "RequestAccess startTx collide w i c = Some (c', calls)" "K c"
  shows "K c'"
proof (cases "phy_asleep c")
  case True
  with assms show ?thesis by (simp add: RequestAccess_def Let_def)
next
  case False
  with assms(1) obtain ags e e' c1 e1 c2 calls1 calls2 where
    e: "get_txop i c = Some e" "align_backoff (w_now w) (GetSlot c) ags e = Some e'"
    and c1: "UpdateBackoff (w_now w) (on_txop i (\<lambda>_. e') c) = Some c1"
    and c2: "DoGrantDcfAccess startTx collide (w_now w)
      (on_txop i (\<lambda>e. e\<lparr>e_link := NotifyAccessRequested (e_link e)\<rparr>) c1) = Some (c2, calls1)"
    and c': "DoRestartAccessTimeoutIfNeeded (w_now w) c2 = Some (c', calls2)"
    by (auto simp: RequestAccess_def Let_def elim!: bind_SomeE)
  have "K c1" by (rule K_UpdateBackoff [OF c1 K_align [OF e assms(2)]])
  then have "K (on_txop i (\<lambda>e. e\<lparr>e_link := NotifyAccessRequested (e_link e)\<rparr>) c1)"
    by (rule K_on_txop) (rule P_requested)
  from K_Restart [OF c' K_grant [OF c2 this]] show ?thesis .
qed

lemma K_NeedBackoff:
  assumes "NeedBackoffUponAccess w i had check c = Some (c', needed)" "K c"
  shows "K c'"
proof (cases "phy_asleep c")
  case True
  with assms show ?thesis by (simp add: NeedBackoffUponAccess_def)
next
  case False
  with assms(1) obtain c1 where c1: "UpdateBackoff (w_now w) c = Some c1"
    and c': "c' = c1 \<or> (\<exists>t. c' = on_txop i (e_UpdateBackoffSlotsNow 0 t) c1)"
    by (auto simp: NeedBackoffUponAccess_def Let_def elim!: bind_SomeE split: if_splits) blast+
  have "K c1" by (rule K_UpdateBackoff [OF c1 assms(2)])
  with c' show ?thesis by (auto intro: K_on_txop P_slots)
qed

lemma K_StartAccess:
  assumes "StartAccess startTx collide w i had check c = Some (c', calls)" "K c"
  shows "K c'"
proof -
  from assms(1) consider "c' = c" | c1 needed where
      "NeedBackoffUponAccess w i had check c = Some (c1, needed)"
      "RequestAccess startTx collide w i (if needed then on_txop i (e_GenerateBackoff w i) c1 else c1) = Some (c', calls)"
    by (auto simp: StartAccess_def elim!: bind_SomeE split: if_splits)
  then show ?thesis
  proof cases
    case 2
    have "K c1" by (rule K_NeedBackoff [OF 2(1) assms(2)])
    then have "K (if needed then on_txop i (e_GenerateBackoff w i) c1 else c1)"
      by (auto intro: K_on_txop P_backoff)
    from K_RequestAccess [OF 2(2) this] show ?thesis .
  qed (use assms(2) in simp)
qed

lemma K_start_all: "start_all startTx collide w is c = Some (c', calls) \<Longrightarrow> K c \<Longrightarrow> K c'"
  by (induction "is" arbitrary: c calls) (auto elim!: bind_SomeE dest: K_StartAccess)

lemma K_Wakeup: "NotifyWakeupNow startTx collide w c = Some (c', calls) \<Longrightarrow> K c \<Longrightarrow> K c'"
proof -
  assume a: "NotifyWakeupNow startTx collide w c = Some (c', calls)" "K c"
  let ?c0 = "c\<lparr>m_lastSleep := (m_lastSleep c)\<lparr>ts_end := w_now w\<rparr>\<rparr>"
  have "K ?c0" using a(2) by (rule K_keeps [rotated]) simp
  with a(1) show "K c'"
    by (auto simp: NotifyWakeupNow_def Let_def elim!: bind_SomeE dest: K_start_all K_keeps [OF keeps_ResetAll]
        split: if_splits)
qed

lemma K_On: "NotifyOnNow startTx collide w c = Some (c', calls) \<Longrightarrow> K c \<Longrightarrow> K c'"
proof -
  assume a: "NotifyOnNow startTx collide w c = Some (c', calls)" "K c"
  let ?c0 = "c\<lparr>m_lastOff := (m_lastOff c)\<lparr>ts_end := w_now w\<rparr>\<rparr>"
  have "K ?c0" using a(2) by (rule K_keeps [rotated]) simp
  with a(1) show "K c'"
    by (auto simp: NotifyOnNow_def Let_def elim!: bind_SomeE dest: K_start_all K_keeps [OF keeps_ResetAll]
        split: if_splits)
qed

end

end
