(* ===== verification/Mac_Tx_Middle.thy ===== *)
theory Mac_Tx_Middle
  imports Qos_Utils Wifi_Mac_Header
begin

text \<open>
  \<^verbatim>\<open>src/wifi/model/mac-tx-middle.cc\<close>: the counters that sequence numbers are drawn
  from, one for each receiver and TID of QoS data frames that are not broadcast, and one for all
  other frames.  An array of sixteen counters is a list of length 16.
\<close>

record tx_middle =
  m_sequence :: nat
  m_qosSequences :: "mac48 \<rightharpoonup> nat list"

definition MacTxMiddle :: tx_middle where
  "MacTxMiddle = \<lparr>m_sequence = 0, m_qosSequences = Map.empty\<rparr>"

definition own_counter :: "mac_hdr \<Rightarrow> bool" where
  "own_counter hdr \<longleftrightarrow> IsQosData hdr \<and> \<not> mac_IsBroadcast (m_addr1 hdr)"

definition GetNextSequenceNumberFor :: "mac_hdr \<Rightarrow> tx_middle \<Rightarrow> (tx_middle \<times> nat) option" where
  "GetNextSequenceNumberFor hdr m =
     (if own_counter hdr
      then do { tid \<leftarrow> GetQosTid hdr;
                let tid = unat tid;
                ns_assert (tid < 16);
                case m_qosSequences m (m_addr1 hdr) of
                  Some seqs \<Rightarrow>
                    Some (m\<lparr>m_qosSequences := (m_qosSequences m)
                             (m_addr1 hdr \<mapsto> seqs[tid := (seqs ! tid + 1) mod 4096])\<rparr>, seqs ! tid)
                | None \<Rightarrow>
                    Some (m\<lparr>m_qosSequences := (m_qosSequences m)
                             (m_addr1 hdr \<mapsto> (replicate 16 0)[tid := 1])\<rparr>, 0) }
      else Some (m\<lparr>m_sequence := (m_sequence m + 1) mod 4096\<rparr>, m_sequence m))"

definition PeekNextSequenceNumberFor :: "mac_hdr \<Rightarrow> tx_middle \<Rightarrow> nat option" where
  "PeekNextSequenceNumberFor hdr m =
     (if own_counter hdr
      then do { tid \<leftarrow> GetQosTid hdr;
                let tid = unat tid;
                ns_assert (tid < 16);
                Some (case m_qosSequences m (m_addr1 hdr) of Some seqs \<Rightarrow> seqs ! tid | None \<Rightarrow> 0) }
      else Some (m_sequence m))"

definition GetNextSeqNumberByTidAndAddress :: "nat \<Rightarrow> mac48 \<Rightarrow> tx_middle \<Rightarrow> nat option" where
  "GetNextSeqNumberByTidAndAddress tid addr m =
     do { ns_assert (tid < 16);
          Some (case m_qosSequences m addr of Some seqs \<Rightarrow> seqs ! tid | None \<Rightarrow> 0) }"

definition SetSequenceNumberFor :: "mac_hdr \<Rightarrow> tx_middle \<Rightarrow> tx_middle option" where
  "SetSequenceNumberFor hdr m =
     (if own_counter hdr
      then do { tid \<leftarrow> GetQosTid hdr;
                let tid = unat tid;
                ns_assert (tid < 16);
                seqs \<leftarrow> m_qosSequences m (m_addr1 hdr);
                Some (m\<lparr>m_qosSequences := (m_qosSequences m)
                         (m_addr1 hdr \<mapsto> seqs[tid := unat (m_seqSeq hdr)])\<rparr>) }
      else Some (m\<lparr>m_sequence := unat (m_seqSeq hdr)\<rparr>))"

section \<open>The counters\<close>

text \<open>
  The counter a header draws from, its value (0 before its first use), and well-formed tables.
\<close>

datatype counter = Own mac48 nat | Shared

definition counter_of :: "mac_hdr \<Rightarrow> counter" where
  "counter_of hdr = (if own_counter hdr then Own (m_addr1 hdr) (unat (m_qosTid hdr)) else Shared)"

fun counter_val :: "counter \<Rightarrow> tx_middle \<Rightarrow> nat" where
  "counter_val (Own a t) m = (case m_qosSequences m a of Some seqs \<Rightarrow> seqs ! t | None \<Rightarrow> 0)"
| "counter_val Shared m = m_sequence m"

definition tx_middle_ok :: "tx_middle \<Rightarrow> bool" where
  "tx_middle_ok m \<longleftrightarrow> seqno (m_sequence m) \<and>
     (\<forall>a seqs. m_qosSequences m a = Some seqs \<longrightarrow> length seqs = 16 \<and> (\<forall>s \<in> set seqs. seqno s))"

definition tid_ok :: "mac_hdr \<Rightarrow> bool" where
  "tid_ok hdr \<longleftrightarrow> unat (m_qosTid hdr) < 16"

fun counter_ok :: "counter \<Rightarrow> bool" where
  "counter_ok (Own a t) \<longleftrightarrow> t < 16"
| "counter_ok Shared = True"

lemma tx_middle_ok_initial: "tx_middle_ok MacTxMiddle"
  by (simp add: tx_middle_ok_def MacTxMiddle_def seqno_def)

text \<open>
  The interface the frame exchange managers use: a family of counters, each of which is drawn
  from alone.
\<close>

locale sequence_source =
  fixes val :: "'k \<Rightarrow> 's \<Rightarrow> nat"
    and draw :: "'k \<Rightarrow> 's \<Rightarrow> ('s \<times> nat) option"
    and valid :: "'k \<Rightarrow> bool"
    and invar :: "'s \<Rightarrow> bool"
  assumes val_seqno: "invar s \<Longrightarrow> valid k \<Longrightarrow> seqno (val k s)"
    and draw_val: "invar s \<Longrightarrow> valid k \<Longrightarrow> \<exists>s'. draw k s = Some (s', val k s) \<and> invar s'
      \<and> (\<forall>k'. valid k' \<longrightarrow> val k' s' = (if k' = k then seq_add (val k s) 1 else val k' s))"
begin

fun draws :: "'k list \<Rightarrow> 's \<Rightarrow> ('s \<times> nat list) option" where
  "draws [] s = Some (s, [])"
| "draws (k # ks) s =
     do { (s', n) \<leftarrow> draw k s; (s'', ns) \<leftarrow> draws ks s'; Some (s'', n # ns) }"

text \<open>The numbers drawn from one counter, whatever else is drawn in between, are consecutive.\<close>

definition drawn_from :: "'k \<Rightarrow> 'k list \<Rightarrow> nat list \<Rightarrow> nat list" where
  "drawn_from k ks ns = map snd (filter (\<lambda>x. fst x = k) (zip ks ns))"

lemma draws_consecutive:
  assumes "invar s" "\<forall>k \<in> set ks. valid k"
  shows "\<exists>s' ns. draws ks s = Some (s', ns) \<and> invar s' \<and> length ns = length ks
    \<and> (\<forall>k. valid k \<longrightarrow>
         drawn_from k ks ns = map (seq_add (val k s)) [0..<length (drawn_from k ks ns)]
         \<and> val k s' = seq_add (val k s) (length (drawn_from k ks ns)))"
  using assms
proof (induction ks arbitrary: s)
  case Nil
  then show ?case by (auto simp: drawn_from_def val_seqno)
next
  case (Cons k ks)
  have vk: "valid k" using Cons.prems(2) by simp
  obtain s1 where s1: "draw k s = Some (s1, val k s)" "invar s1"
    "\<forall>k'. valid k' \<longrightarrow> val k' s1 = (if k' = k then seq_add (val k s) 1 else val k' s)"
    using draw_val [OF Cons.prems(1) vk] by blast
  obtain s' ns where IH: "draws ks s1 = Some (s', ns)" "invar s'" "length ns = length ks"
    "\<forall>k. valid k \<longrightarrow>
         drawn_from k ks ns = map (seq_add (val k s1)) [0..<length (drawn_from k ks ns)]
         \<and> val k s' = seq_add (val k s1) (length (drawn_from k ks ns))"
    using Cons.IH [OF s1(2)] Cons.prems(2) by auto
  have "drawn_from l (k # ks) (val k s # ns)
        = map (seq_add (val l s)) [0..<length (drawn_from l (k # ks) (val k s # ns))]
      \<and> val l s' = seq_add (val l s) (length (drawn_from l (k # ks) (val k s # ns)))"
    if l: "valid l" for l
  proof (cases "l = k")
    case True
    let ?d = "drawn_from k ks ns"
    have d: "drawn_from k (k # ks) (val k s # ns) = val k s # ?d"
      by (simp add: drawn_from_def)
    have "?d = map (seq_add (seq_add (val k s) 1)) [0..<length ?d]"
      using IH(4) s1(3) vk by auto
    also have "\<dots> = map (seq_add (val k s)) (map Suc [0..<length ?d])"
      by (simp add: seq_add_add)
    finally have "val k s # ?d = map (seq_add (val k s)) [0..<Suc (length ?d)]"
      using val_seqno [OF Cons.prems(1) vk]
      by (simp only: map_Suc_upt upt_conv_Cons [OF zero_less_Suc] list.map) simp
    moreover have "val k s' = seq_add (val k s) (Suc (length ?d))"
      using IH(4) s1(3) vk by (simp add: seq_add_add)
    ultimately show ?thesis
      unfolding True d by simp
  next
    case False
    then have "drawn_from l (k # ks) (val k s # ns) = drawn_from l ks ns"
      by (simp add: drawn_from_def)
    with IH(4) s1(3) l False show ?thesis by auto
  qed
  with IH s1(1) show ?case by auto
qed

end

text \<open>Drawing for a header, as an operation on counters.\<close>

definition draw_counter :: "counter \<Rightarrow> tx_middle \<Rightarrow> (tx_middle \<times> nat) option" where
  "draw_counter c m =
     (case c of
        Shared \<Rightarrow> Some (m\<lparr>m_sequence := (m_sequence m + 1) mod 4096\<rparr>, m_sequence m)
      | Own a t \<Rightarrow>
          do { ns_assert (t < 16);
               let seqs = (case m_qosSequences m a of Some seqs \<Rightarrow> seqs | None \<Rightarrow> replicate 16 0);
               Some (m\<lparr>m_qosSequences := (m_qosSequences m)(a \<mapsto> seqs[t := (seqs ! t + 1) mod 4096])\<rparr>,
                     seqs ! t) })"

lemma GetNext_draw: "GetNextSequenceNumberFor hdr m = draw_counter (counter_of hdr) m"
  by (auto simp: GetNextSequenceNumberFor_def draw_counter_def counter_of_def GetQosTid_def
      own_counter_def ns_assert_def Let_def split: option.split)

lemma PeekNext_val:
  "counter_ok (counter_of hdr) \<Longrightarrow> PeekNextSequenceNumberFor hdr m = Some (counter_val (counter_of hdr) m)"
  by (auto simp: PeekNextSequenceNumberFor_def counter_of_def GetQosTid_def own_counter_def Let_def
      split: option.split)

interpretation txm: sequence_source counter_val draw_counter counter_ok tx_middle_ok
proof (unfold_locales, goal_cases)
  case (1 m c)
  then show ?case
    by (cases c) (auto simp: tx_middle_ok_def seqno_def split: option.split)
next
  case (2 m c)
  show ?case
  proof (cases c)
    case Shared
    with 2 have "tx_middle_ok (m\<lparr>m_sequence := (m_sequence m + 1) mod 4096\<rparr>)"
      by (simp add: tx_middle_ok_def)
    moreover have "counter_val k (m\<lparr>m_sequence := (m_sequence m + 1) mod 4096\<rparr>) =
        (if k = Shared then seq_add (m_sequence m) 1 else counter_val k m)" for k
      by (cases k) (simp_all add: seq_add_def)
    ultimately show ?thesis
      using Shared by (simp add: draw_counter_def)
  next
    case (Own a t)
    let ?seqs = "case m_qosSequences m a of Some seqs \<Rightarrow> seqs | None \<Rightarrow> replicate 16 0"
    let ?m = "m\<lparr>m_qosSequences := (m_qosSequences m)(a \<mapsto> ?seqs[t := (?seqs ! t + 1) mod 4096])\<rparr>"
    have len: "length ?seqs = 16" "\<forall>s \<in> set ?seqs. seqno s"
      using 2(1) by (auto simp: tx_middle_ok_def seqno_def split: option.split)
    have "tx_middle_ok ?m"
      using 2(1) len set_update_subset_insert [of ?seqs t "(?seqs ! t + 1) mod 4096"]
      by (auto simp: tx_middle_ok_def)
    moreover have "counter_val k ?m =
        (if k = Own a t then seq_add (counter_val (Own a t) m) 1 else counter_val k m)"
      if "counter_ok k" for k
      using 2(2) len that Own
      by (cases k) (auto simp: seq_add_def nth_list_update split: option.split)
    moreover have "draw_counter c m = Some (?m, counter_val c m)"
      using 2(2) Own by (auto simp: draw_counter_def Let_def split: option.split)
    ultimately show ?thesis using Own by blast
  qed
qed

section \<open>Properties\<close>

text \<open>A sequence of frames, each numbered in turn.\<close>

fun number_all :: "mac_hdr list \<Rightarrow> tx_middle \<Rightarrow> (tx_middle \<times> nat list) option" where
  "number_all [] m = Some (m, [])"
| "number_all (h # hs) m =
     do { (m', n) \<leftarrow> GetNextSequenceNumberFor h m; (m'', ns) \<leftarrow> number_all hs m'; Some (m'', n # ns) }"

lemma number_all_draws: "number_all hs m = txm.draws (map counter_of hs) m"
  by (induction hs arbitrary: m) (simp_all add: GetNext_draw)

text \<open>
  Property C35: the sequence numbers given to the frames of one counter (a receiver and TID of
  QoS data, or all other frames) are consecutive modulo 4096 from the counter's value, whatever
  other frames are numbered in between, and none of this fails.
\<close>

theorem sequence_numbers_consecutive:
  assumes "tx_middle_ok m" "\<forall>h \<in> set hs. counter_ok (counter_of h)" "counter_ok c"
  shows "\<exists>m' ns. number_all hs m = Some (m', ns) \<and> tx_middle_ok m' \<and> length ns = length hs
    \<and> map snd (filter (\<lambda>x. fst x = c) (zip (map counter_of hs) ns))
        = map (seq_add (counter_val c m)) [0..<count_list (map counter_of hs) c]"
proof -
  have "\<forall>k \<in> set (map counter_of hs). counter_ok k" using assms(2) by simp
  from txm.draws_consecutive [OF assms(1) this] obtain m' ns where
    "number_all hs m = Some (m', ns)" "tx_middle_ok m'" and len: "length ns = length hs"
    and d: "txm.drawn_from c (map counter_of hs) ns =
      map (seq_add (counter_val c m)) [0..<length (txm.drawn_from c (map counter_of hs) ns)]"
    using assms(3) by (auto simp: number_all_draws)
  moreover have "length (txm.drawn_from c (map counter_of hs) ns) = count_list (map counter_of hs) c"
    using len [symmetric] unfolding txm.drawn_from_def
    by (induction hs ns rule: list_induct2) auto
  ultimately show ?thesis
    by (metis txm.drawn_from_def)
qed

theorem sequence_numbers_consecutive_witness:
  "\<exists>m' ns. number_all [mac_hdr_default, mac_hdr_default] MacTxMiddle = Some (m', ns)
     \<and> map snd (filter (\<lambda>x. fst x = Shared) (zip [Shared, Shared] ns)) = [0, 1]"
proof -
  have c: "counter_of mac_hdr_default = Shared"
    by (simp add: counter_of_def own_counter_def IsQosData_def mac_hdr_default_def type_defs)
  have "\<forall>h \<in> set [mac_hdr_default, mac_hdr_default]. counter_ok (counter_of h)" "counter_ok Shared"
    by (simp_all add: c)
  from sequence_numbers_consecutive [OF tx_middle_ok_initial this] show ?thesis
    by (auto simp: c MacTxMiddle_def seq_add_def upt_rec)
qed

text \<open>
  Peeking returns the number the next frame of that counter gets, and returning
  the number of the frame numbered last (as is done when it is not sent) makes it the next one
  again.
\<close>

lemma sequence_number_peek_and_return:
  assumes "tx_middle_ok m" "counter_ok (counter_of h)" "m_seqSeq h = of_nat n"
    "GetNextSequenceNumberFor h m = Some (m', n)"
  shows "PeekNextSequenceNumberFor h m = Some n
    \<and> (\<exists>m''. SetSequenceNumberFor h m' = Some m'' \<and> PeekNextSequenceNumberFor h m'' = Some n
        \<and> (\<forall>c. counter_ok c \<longrightarrow> counter_val c m'' = counter_val c m))"
proof -
  have n: "n = counter_val (counter_of h) m" and ok: "tx_middle_ok m'"
    and other: "\<And>c. counter_ok c \<Longrightarrow> c \<noteq> counter_of h \<Longrightarrow> counter_val c m' = counter_val c m"
    using txm.draw_val [OF assms(1,2)] assms(4) by (auto simp: GetNext_draw)
  have small: "unat (m_seqSeq h) = n"
    using txm.val_seqno [OF assms(1,2)] n assms(3) by (simp add: seqno_def unat_of_nat)
  have "\<exists>m''. SetSequenceNumberFor h m' = Some m''
      \<and> (\<forall>c. counter_ok c \<longrightarrow> counter_val c m'' = (if c = counter_of h then n else counter_val c m'))"
  proof (cases "own_counter h")
    case False
    then have "counter_val c (m'\<lparr>m_sequence := n\<rparr>) = (if c = counter_of h then n else counter_val c m')" for c
      by (cases c) (simp_all add: counter_of_def)
    with False small show ?thesis by (simp add: SetSequenceNumberFor_def)
  next
    case True
    let ?t = "unat (m_qosTid h)"
    have t: "?t < 16" "IsQosData h" "counter_of h = Own (m_addr1 h) ?t"
      using True assms(2) by (simp_all add: counter_of_def own_counter_def)
    obtain seqs where seqs: "m_qosSequences m' (m_addr1 h) = Some seqs"
      using assms(4) True t by (auto simp: GetNextSequenceNumberFor_def GetQosTid_def Let_def split: option.splits)
    have len: "length seqs = 16" using ok seqs by (simp add: tx_middle_ok_def)
    let ?m = "m'\<lparr>m_qosSequences := (m_qosSequences m')(m_addr1 h \<mapsto> seqs[?t := n])\<rparr>"
    have "SetSequenceNumberFor h m' = Some ?m"
      using True t seqs small by (simp add: SetSequenceNumberFor_def GetQosTid_def Let_def)
    moreover have "counter_val c ?m = (if c = counter_of h then n else counter_val c m')" for c
      using seqs len t by (cases c) (auto simp: nth_list_update)
    ultimately show ?thesis by blast
  qed
  then obtain m'' where "SetSequenceNumberFor h m' = Some m''"
    "\<forall>c. counter_ok c \<longrightarrow> counter_val c m'' = (if c = counter_of h then n else counter_val c m')"
    by blast
  with n other assms(2) show ?thesis
    by (auto simp: PeekNext_val)
qed

lemma sequence_number_peek_and_return_witness:
  "\<exists>m' m''. GetNextSequenceNumberFor mac_hdr_default MacTxMiddle = Some (m', 0)
     \<and> SetSequenceNumberFor mac_hdr_default m' = Some m''
     \<and> PeekNextSequenceNumberFor mac_hdr_default m'' = Some 0"
proof -
  have o: "\<not> own_counter mac_hdr_default"
    by (simp add: own_counter_def IsQosData_def mac_hdr_default_def type_defs)
  then have g: "GetNextSequenceNumberFor mac_hdr_default MacTxMiddle = Some (MacTxMiddle\<lparr>m_sequence := 1\<rparr>, 0)"
    by (simp add: GetNextSequenceNumberFor_def MacTxMiddle_def)
  have "counter_ok (counter_of mac_hdr_default)" "m_seqSeq mac_hdr_default = of_nat 0"
    using o by (simp_all add: counter_of_def) (simp add: mac_hdr_default_def)
  from sequence_number_peek_and_return [OF tx_middle_ok_initial this g] g show ?thesis by blast
qed

end
