(* ===== verification/Wifi_Tx_Timer.thy ===== *)
theory Wifi_Tx_Timer
  imports Ns3_Prelude
begin

text \<open>
  \<^verbatim>\<open>src/wifi/model/wifi-tx-timer.cc\<close> and \<^verbatim>\<open>wifi-tx-timer.h\<close>: the timer that waits for
  the response to a frame.  It is lazy: a postponement only moves \<open>m_end\<close>, and the pending
  event reschedules itself when it finds that it came too early.

  \<open>m_timeoutEvent\<close> is the time of the pending event, if any; the event that is being executed
  is not pending any more.  \<open>m_impl\<close> is the function to call with its arguments, of any type
  \<open>'i\<close>.  \<open>Simulator::Schedule\<close> fails on a negative delay.
\<close>

section \<open>The timer\<close>

datatype tx_reason =
    NOT_RUNNING | WAIT_CTS | WAIT_NORMAL_ACK | WAIT_BLOCK_ACK | WAIT_CTS_AFTER_MU_RTS
  | WAIT_NORMAL_ACK_AFTER_DL_MU_PPDU | WAIT_BLOCK_ACKS_IN_TB_PPDU | WAIT_TB_PPDU_AFTER_BASIC_TF
  | WAIT_QOS_NULL_AFTER_BSRP_TF | WAIT_BLOCK_ACK_AFTER_TB_PPDU

record 'i tx_timer =
  m_timeoutEvent :: "time option"
  m_reason :: tx_reason
  m_impl :: "'i option"
  m_end :: time
  m_staExpectResponseFrom :: "mac48 set"

definition WifiTxTimer :: "'i tx_timer" where
  "WifiTxTimer =
     \<lparr>m_timeoutEvent = None, m_reason = NOT_RUNNING, m_impl = None, m_end = 0,
      m_staExpectResponseFrom = {}\<rparr>"

definition timer_IsRunning :: "'i tx_timer \<Rightarrow> bool" where
  "timer_IsRunning t \<longleftrightarrow> m_timeoutEvent t \<noteq> None"

definition timer_GetReason :: "'i tx_timer \<Rightarrow> tx_reason option" where
  "timer_GetReason t = do { ns_assert (timer_IsRunning t); Some (m_reason t) }"

definition timer_GetDelayLeft :: "time \<Rightarrow> 'i tx_timer \<Rightarrow> time" where
  "timer_GetDelayLeft now t = m_end t - now"

text \<open>
  The event of a timer that is already running is forgotten, not cancelled: every caller asserts
  that the timer is not running.
\<close>

definition timer_Set :: "tx_reason \<Rightarrow> time \<Rightarrow> mac48 set \<Rightarrow> 'i \<Rightarrow> time \<Rightarrow> 'i tx_timer \<Rightarrow> 'i tx_timer option" where
  "timer_Set reason delay from call now t =
     do { ns_assert (delay \<ge> 0);
          Some (t\<lparr>m_timeoutEvent := Some (now + delay), m_reason := reason, m_end := now + delay,
                  m_staExpectResponseFrom := from, m_impl := Some call\<rparr>) }"

definition timer_Reschedule :: "time \<Rightarrow> time \<Rightarrow> 'i tx_timer \<Rightarrow> 'i tx_timer option" where
  "timer_Reschedule delay now t =
     (if timer_IsRunning t
      then do { let newEnd = now + delay;
                t \<leftarrow> (if newEnd < m_end t
                      then do { ns_assert (delay \<ge> 0); Some (t\<lparr>m_timeoutEvent := Some (now + delay)\<rparr>) }
                      else Some t);
                Some (t\<lparr>m_end := newEnd\<rparr>) }
      else Some t)"

text \<open>The event; the second component is the call it makes.  A null \<open>m_impl\<close> is dereferenced.\<close>

definition timer_Expire :: "time \<Rightarrow> 'i tx_timer \<Rightarrow> ('i tx_timer \<times> 'i option) option" where
  "timer_Expire now t =
     (let t = t\<lparr>m_timeoutEvent := None\<rparr>
      in if m_end t = now
         then do { call \<leftarrow> m_impl t; Some (t, Some call) }
         else do { ns_assert (m_end t - now \<ge> 0);
                   Some (t\<lparr>m_timeoutEvent := Some (now + (m_end t - now))\<rparr>, None) })"

definition timer_Cancel :: "'i tx_timer \<Rightarrow> 'i tx_timer" where
  "timer_Cancel t = t\<lparr>m_timeoutEvent := None, m_impl := None, m_staExpectResponseFrom := {}\<rparr>"

definition timer_GotResponseFrom :: "mac48 \<Rightarrow> 'i tx_timer \<Rightarrow> 'i tx_timer" where
  "timer_GotResponseFrom from t = t\<lparr>m_staExpectResponseFrom := m_staExpectResponseFrom t - {from}\<rparr>"

lemmas timer_defs = timer_IsRunning_def timer_Set_def timer_Reschedule_def timer_Expire_def
  timer_Cancel_def timer_GotResponseFrom_def

section \<open>Runs of the timer\<close>

text \<open>
  What happens to a timer and its clock.  The clock never passes the pending event, and the event
  runs when the clock reaches it.
\<close>

datatype 'i timer_label = Internal | Started time 'i | Moved time | Cancelled | TimedOut 'i

inductive timer_step :: "time \<times> 'i tx_timer \<Rightarrow> 'i timer_label \<Rightarrow> time \<times> 'i tx_timer \<Rightarrow> bool" where
  elapse: "now \<le> now' \<Longrightarrow> \<forall>e. m_timeoutEvent t = Some e \<longrightarrow> now' \<le> e \<Longrightarrow>
    timer_step (now, t) Internal (now', t)"
| set: "\<not> timer_IsRunning t \<Longrightarrow> timer_Set reason delay from call now t = Some t' \<Longrightarrow>
    timer_step (now, t) (Started (now + delay) call) (now, t')"
| reschedule: "delay \<ge> 0 \<Longrightarrow> timer_Reschedule delay now t = Some t' \<Longrightarrow>
    timer_step (now, t) (if timer_IsRunning t then Moved (now + delay) else Internal) (now, t')"
| cancel: "timer_step (now, t) Cancelled (now, timer_Cancel t)"
| got: "timer_step (now, t) Internal (now, timer_GotResponseFrom from t)"
| expire_late: "m_timeoutEvent t = Some now \<Longrightarrow> timer_Expire now t = Some (t', None) \<Longrightarrow>
    timer_step (now, t) Internal (now, t')"
| expire: "m_timeoutEvent t = Some now \<Longrightarrow> timer_Expire now t = Some (t', Some call) \<Longrightarrow>
    timer_step (now, t) (TimedOut call) (now, t')"

inductive_cases timer_stepE: "timer_step s l s'"

text \<open>The event is not in the past and not after the end.\<close>

definition timer_ok :: "time \<times> 'i tx_timer \<Rightarrow> bool" where
  "timer_ok s \<longleftrightarrow>
     (\<forall>e. m_timeoutEvent (snd s) = Some e \<longrightarrow>
        fst s \<le> e \<and> e \<le> m_end (snd s) \<and> m_impl (snd s) \<noteq> None)"

lemma timer_ok_initial: "timer_ok (now, WifiTxTimer)"
  by (simp add: timer_ok_def WifiTxTimer_def)

lemma timer_ok_step: "timer_step s l s' \<Longrightarrow> timer_ok s \<Longrightarrow> timer_ok s'"
  by (induction rule: timer_step.induct)
    (auto simp: timer_ok_def timer_defs Let_def elim!: bind_SomeE split: if_splits)

lemma Expire_runs:
  assumes "timer_ok (now, t)" "m_timeoutEvent t = Some now"
  shows "timer_Expire now t \<noteq> None"
  using assms by (auto simp: timer_ok_def timer_Expire_def Let_def)

section \<open>An eager timer\<close>

text \<open>
  What the users of the timer rely on: an alarm is a deadline with a call, which is made when the
  clock reaches the deadline, neither earlier nor later.
\<close>

type_synonym 'i alarm = "time \<times> (time \<times> 'i) option"

inductive alarm_step :: "'i alarm \<Rightarrow> 'i timer_label \<Rightarrow> 'i alarm \<Rightarrow> bool" where
  alarm_elapse: "now \<le> now' \<Longrightarrow> \<forall>d c. a = Some (d, c) \<longrightarrow> now' \<le> d \<Longrightarrow>
    alarm_step (now, a) Internal (now', a)"
| alarm_set: "now \<le> d \<Longrightarrow> alarm_step (now, None) (Started d c) (now, Some (d, c))"
| alarm_move: "now \<le> d' \<Longrightarrow> alarm_step (now, Some (d, c)) (Moved d') (now, Some (d', c))"
| alarm_cancel: "alarm_step (now, a) Cancelled (now, None)"
| alarm_ring: "alarm_step (now, Some (now, c)) (TimedOut c) (now, None)"

inductive alarm_run :: "'i alarm \<Rightarrow> 'i timer_label list \<Rightarrow> 'i alarm \<Rightarrow> bool" where
  alarm_nil: "alarm_run s [] s"
| alarm_cons: "alarm_step s l s' \<Longrightarrow> alarm_run s' ls s'' \<Longrightarrow> alarm_run s (l # ls) s''"

inductive timer_run :: "time \<times> 'i tx_timer \<Rightarrow> 'i timer_label list \<Rightarrow> time \<times> 'i tx_timer \<Rightarrow> bool" where
  run_nil: "timer_run s [] s"
| run_cons: "timer_step s l s' \<Longrightarrow> timer_run s' ls s'' \<Longrightarrow> timer_run s (l # ls) s''"

definition alarm_of :: "time \<times> 'i tx_timer \<Rightarrow> 'i alarm" where
  "alarm_of s =
     (fst s, if timer_IsRunning (snd s) then map_option (\<lambda>c. (m_end (snd s), c)) (m_impl (snd s)) else None)"

lemma timer_refines_step:
  assumes "timer_step s l s'" "timer_ok s"
  shows "alarm_step (alarm_of s) l (alarm_of s')"
  using assms
proof (induction rule: timer_step.induct)
  case (elapse now now' t)
  then show ?case
    by (force simp: alarm_of_def timer_ok_def timer_IsRunning_def intro: alarm_elapse)
next
  case (set t reason delay "from" call now t')
  then show ?case by (auto simp: alarm_of_def timer_defs intro!: alarm_set)
next
  case (reschedule delay now t t')
  show ?case
  proof (cases "timer_IsRunning t")
    case True
    with reschedule obtain c where "m_impl t = Some c" by (auto simp: timer_ok_def timer_IsRunning_def)
    with True reschedule show ?thesis
      by (auto simp: alarm_of_def timer_defs Let_def intro!: alarm_move elim!: bind_SomeE split: if_splits)
  next
    case False
    with reschedule show ?thesis
      by (auto simp: alarm_of_def timer_Reschedule_def intro: alarm_elapse)
  qed
next
  case (cancel now t)
  then show ?case by (simp add: alarm_of_def timer_defs alarm_cancel)
next
  case (got now t "from")
  have "alarm_of (now, timer_GotResponseFrom from t) = alarm_of (now, t)"
    by (simp add: alarm_of_def timer_defs)
  with got show ?case
    by (auto simp: alarm_of_def timer_ok_def timer_IsRunning_def intro!: alarm_elapse)
next
  case (expire_late t now t')
  then show ?case
    by (auto simp: alarm_of_def timer_ok_def timer_defs Let_def intro!: alarm_elapse
        elim!: bind_SomeE split: if_splits)
next
  case (expire t now t' call)
  then show ?case
    by (auto simp: alarm_of_def timer_ok_def timer_defs Let_def intro!: alarm_ring
        elim!: bind_SomeE split: if_splits)
qed

lemma timer_ok_run: "timer_run s ls s' \<Longrightarrow> timer_ok s \<Longrightarrow> timer_ok s'"
  by (induction rule: timer_run.induct) (auto dest: timer_ok_step)

lemma timer_refines_run: "timer_run s ls s' \<Longrightarrow> timer_ok s \<Longrightarrow> alarm_run (alarm_of s) ls (alarm_of s')"
  by (induction rule: timer_run.induct)
    (auto intro: alarm_nil alarm_cons dest: timer_refines_step timer_ok_step)

text \<open>
  Property C10: the lazy timer refines an alarm that rings exactly at its deadline.  Every run
  of a new timer, with any starts, moves, cancellations and responses, is a run of the alarm with
  the same starts, moves, cancellations and timeouts; and an event that is due never fails.
\<close>

theorem tx_timer_refines_alarm:
  fixes t :: "'i tx_timer"
  assumes "timer_run (start, WifiTxTimer) ls (now, t)"
  shows "alarm_run (start, None) ls (alarm_of (now, t))
    \<and> (m_timeoutEvent t = Some now \<longrightarrow> timer_Expire now t \<noteq> None)"
proof -
  have "alarm_of (start, WifiTxTimer :: 'i tx_timer) = (start, None)"
    by (simp add: alarm_of_def WifiTxTimer_def timer_IsRunning_def)
  with timer_refines_run [OF assms timer_ok_initial]
  have "alarm_run (start, None) ls (alarm_of (now, t))" by simp
  with timer_ok_run [OF assms timer_ok_initial] show ?thesis by (simp add: Expire_runs)
qed

text \<open>A timer set to 50, moved to 70 at 40, runs its event at 50 and times out at 70.\<close>

theorem tx_timer_refines_alarm_witness:
  "alarm_run (0, None) [Started 50 (7::nat), Internal, Moved 70, Internal, Internal, Internal, TimedOut 7] (70, None)"
proof -
  let ?t = "\<lambda>e d. \<lparr>m_timeoutEvent = e, m_reason = WAIT_CTS, m_impl = Some (7::nat), m_end = d,
    m_staExpectResponseFrom = {}\<rparr>"
  have 1: "timer_step (0, WifiTxTimer) (Started (0 + 50) 7) (0, ?t (Some 50) 50)"
    by (rule set [of _ WAIT_CTS _ "{}"]) (simp_all add: timer_defs WifiTxTimer_def)
  have 2: "timer_step (0, ?t (Some 50) 50) Internal (40, ?t (Some 50) 50)" by (rule elapse) simp_all
  have 3: "timer_step (40, ?t (Some 50) 50) (Moved 70) (40, ?t (Some 50) 70)"
    using reschedule [of 30 40 "?t (Some 50) 50" "?t (Some 50) 70"] by (simp add: timer_defs)
  have 4: "timer_step (40, ?t (Some 50) 70) Internal (50, ?t (Some 50) 70)" by (rule elapse) simp_all
  have 5: "timer_step (50, ?t (Some 50) 70) Internal (50, ?t (Some 70) 70)"
    by (rule expire_late) (simp_all add: timer_defs)
  have 6: "timer_step (50, ?t (Some 70) 70) Internal (70, ?t (Some 70) 70)" by (rule elapse) simp_all
  have 7: "timer_step (70, ?t (Some 70) 70) (TimedOut 7) (70, ?t None 70)"
    by (rule expire) (simp_all add: timer_defs)
  from 1 2 3 4 5 6 7
  have "timer_run (0, WifiTxTimer)
      [Started 50 7, Internal, Moved 70, Internal, Internal, Internal, TimedOut 7] (70, ?t None 70)"
    by (force intro: run_nil run_cons)
  from tx_timer_refines_alarm [OF this] show ?thesis by (simp add: alarm_of_def timer_IsRunning_def)
qed

text \<open>
  a running timer times out.  However often it was rescheduled, if it is left alone
  the clock reaches its end, at most one event comes too early and schedules the next, and the
  call is then made exactly at the end; the timer is not running afterwards.
\<close>

theorem timer_times_out:
  assumes "timer_run (start, WifiTxTimer) ls (now, t)" "timer_IsRunning t"
  shows "\<exists>n call t'. n \<le> 3 \<and> m_impl t = Some call
    \<and> timer_run (now, t) (replicate n Internal @ [TimedOut call]) (m_end t, t') \<and> \<not> timer_IsRunning t'"
proof -
  from assms(2) obtain e where e: "m_timeoutEvent t = Some e" by (auto simp: timer_IsRunning_def)
  with timer_ok_run [OF assms(1) timer_ok_initial] obtain call
    where le: "now \<le> e" "e \<le> m_end t" and call: "m_impl t = Some call" by (auto simp: timer_ok_def)
  define early where "early = t\<lparr>m_timeoutEvent := Some (m_end t)\<rparr>"
  define fired where "fired = t\<lparr>m_timeoutEvent := None\<rparr>"
  have reach: "timer_step (now, t) Internal (e, t)" by (rule elapse) (use e le in auto)
  have ring: "timer_step (m_end t, s) (TimedOut call) (m_end t, fired)"
    if "s\<lparr>m_timeoutEvent := None\<rparr> = fired" "m_timeoutEvent s = Some (m_end t)" for s
    by (rule expire) (use that call in \<open>auto simp: timer_Expire_def fired_def Let_def\<close>)
  have stopped: "\<not> timer_IsRunning fired" by (simp add: fired_def timer_IsRunning_def)
  show ?thesis
  proof (cases "e = m_end t")
    case True
    have "timer_run (now, t) (replicate 1 Internal @ [TimedOut call]) (m_end t, fired)"
      using run_cons [OF reach run_cons [OF ring [of t, folded True] run_nil]] e True
      by (simp add: fired_def)
    with call stopped show ?thesis by (intro exI [of _ 1]) auto
  next
    case False
    have 1: "timer_step (e, t) Internal (e, early)"
      by (rule expire_late) (use e le False in \<open>auto simp: timer_Expire_def early_def Let_def\<close>)
    have 2: "timer_step (e, early) Internal (m_end t, early)"
      by (rule elapse) (use le in \<open>auto simp: early_def\<close>)
    have 3: "timer_step (m_end t, early) (TimedOut call) (m_end t, fired)"
      by (rule ring) (simp_all add: early_def fired_def)
    have "timer_run (now, t) (replicate 3 Internal @ [TimedOut call]) (m_end t, fired)"
      using run_cons [OF reach run_cons [OF 1 run_cons [OF 2 run_cons [OF 3 run_nil]]]]
      by (simp add: eval_nat_numeral)
    with call stopped show ?thesis by (intro exI [of _ 3]) auto
  qed
qed

theorem timer_times_out_witness:
  "\<exists>n t'. n \<le> 3 \<and> timer_run (40, \<lparr>m_timeoutEvent = Some 50, m_reason = WAIT_CTS, m_impl = Some (7::nat), m_end = 70,
     m_staExpectResponseFrom = {}\<rparr>) (replicate n Internal @ [TimedOut 7]) (70, t')"
proof -
  let ?t = "\<lambda>d. \<lparr>m_timeoutEvent = Some 50, m_reason = WAIT_CTS, m_impl = Some (7::nat), m_end = d,
    m_staExpectResponseFrom = {}\<rparr>"
  have 1: "timer_step (0, WifiTxTimer) (Started (0 + 50) 7) (0, ?t 50)"
    by (rule set [of _ WAIT_CTS _ "{}"]) (simp_all add: timer_defs WifiTxTimer_def)
  have 2: "timer_step (0, ?t 50) Internal (40, ?t 50)" by (rule elapse) simp_all
  have 3: "timer_step (40, ?t 50) (Moved 70) (40, ?t 70)"
    using reschedule [of 30 40 "?t 50" "?t 70"] by (simp add: timer_defs)
  from 1 2 3 have "timer_run (0, WifiTxTimer) [Started 50 7, Internal, Moved 70] (40, ?t 70)"
    by (force intro: run_nil run_cons)
  from timer_times_out [OF this] show ?thesis by (auto simp: timer_IsRunning_def)
qed

end
