(* ===== verification/Tx_Parameters.thy ===== *)
theory Tx_Parameters
  imports Wifi_Mac_Header
begin

text \<open>
  \<^verbatim>\<open>src/wifi/model/wifi-tx-parameters.cc\<close>: the PPDU that is being built (its TXVECTOR,
  protection and acknowledgment methods, duration, and for each receiver what its PSDU holds),
  with the addition of an MPDU or MSDU and the undoing of the last addition; and the sizes of
  aggregates of \<^verbatim>\<open>mpdu-aggregator.cc\<close> and \<^verbatim>\<open>msdu-aggregator.cc\<close>.

  The iterator \<^verbatim>\<open>m_lastInfoIt\<close> is the key of the entry it points to.
\<close>

section \<open>Frames and transmission parameters\<close>

datatype mod_class =
    WIFI_MOD_CLASS_UNKNOWN | WIFI_MOD_CLASS_DSSS | WIFI_MOD_CLASS_HR_DSSS | WIFI_MOD_CLASS_ERP_OFDM
  | WIFI_MOD_CLASS_OFDM | WIFI_MOD_CLASS_HT | WIFI_MOD_CLASS_VHT | WIFI_MOD_CLASS_DMG_CTRL
  | WIFI_MOD_CLASS_DMG_OFDM | WIFI_MOD_CLASS_DMG_SC | WIFI_MOD_CLASS_DMG_LP_SC | WIFI_MOD_CLASS_HE
  | WIFI_MOD_CLASS_EHT

text \<open>\<^verbatim>\<open>>= WIFI_MOD_CLASS_VHT\<close>\<close>

definition from_VHT :: "mod_class \<Rightarrow> bool" where
  "from_VHT c \<longleftrightarrow>
     c \<notin> {WIFI_MOD_CLASS_UNKNOWN, WIFI_MOD_CLASS_DSSS, WIFI_MOD_CLASS_HR_DSSS, WIFI_MOD_CLASS_ERP_OFDM,
          WIFI_MOD_CLASS_OFDM, WIFI_MOD_CLASS_HT}"

datatype preamble =
    WIFI_PREAMBLE_LONG | WIFI_PREAMBLE_SHORT | WIFI_PREAMBLE_HT_MF | WIFI_PREAMBLE_VHT_SU
  | WIFI_PREAMBLE_VHT_MU | WIFI_PREAMBLE_DMG_CTRL | WIFI_PREAMBLE_DMG_SC | WIFI_PREAMBLE_DMG_OFDM
  | WIFI_PREAMBLE_HE_SU | WIFI_PREAMBLE_HE_ER_SU | WIFI_PREAMBLE_HE_MU | WIFI_PREAMBLE_HE_TB
  | WIFI_PREAMBLE_EHT_MU | WIFI_PREAMBLE_EHT_TB

text \<open>What the MAC reads of a TXVECTOR; \<open>tv_mode\<close> names the mode of the receiver.\<close>

record tx_vector =
  tv_class :: mod_class
  tv_preamble :: preamble
  tv_width :: nat
  tv_mode :: nat

definition WifiTxVector :: tx_vector where
  "WifiTxVector =
     \<lparr>tv_class = WIFI_MOD_CLASS_UNKNOWN, tv_preamble = WIFI_PREAMBLE_LONG, tv_width = 20, tv_mode = 0\<rparr>"

text \<open>
  An MPDU: its header, the size of its payload, whether it is in a queue and in flight, and
  whether it was given a sequence number.
\<close>

record mpdu =
  mp_hdr :: mac_hdr
  mp_payload :: nat
  mp_queued :: bool
  mp_inFlight :: bool
  mp_hasSeqNo :: bool

definition mpdu_GetSize :: "mpdu \<Rightarrow> nat" where
  "mpdu_GetSize m = mp_payload m + hdr_GetSize (mp_hdr m) + 4"

definition IsFragment :: "mpdu \<Rightarrow> bool" where
  "IsFragment m \<longleftrightarrow> IsMoreFragments (mp_hdr m) \<or> m_seqFrag (mp_hdr m) > 0"

datatype protection_method = PROT_NONE | RTS_CTS tx_vector tx_vector | CTS_TO_SELF tx_vector

record protection =
  pr_method :: protection_method
  pr_time :: "time option"

text \<open>\<open>ACK_OTHER\<close> stands for the methods of the HT and HE managers.\<close>

datatype ack_method = ACK_NONE | ACK_NORMAL tx_vector | ACK_OTHER

record acknowledgment =
  ak_method :: ack_method
  ak_time :: "time option"
  ak_policy :: "mac48 \<Rightarrow> u8 \<Rightarrow> QosAckPolicy option"

record psdu_info =
  pi_header :: mac_hdr
  pi_amsduSize :: nat
  pi_ampduSize :: nat
  pi_seqNumbers :: "u8 \<rightharpoonup> u16 set"

record tx_params =
  m_txVector :: tx_vector
  m_protection :: "protection option"
  m_acknowledgment :: "acknowledgment option"
  m_txDuration :: "time option"
  m_info :: "(mac48, psdu_info) omap"
  m_undoInfo :: psdu_info
  m_lastInfoIt :: "mac48 option"

definition PsduInfo_default :: psdu_info where
  "PsduInfo_default =
     \<lparr>pi_header = mac_hdr_default, pi_amsduSize = 0, pi_ampduSize = 0, pi_seqNumbers = Map.empty\<rparr>"

definition WifiTxParameters :: tx_params where
  "WifiTxParameters =
     \<lparr>m_txVector = WifiTxVector, m_protection = None, m_acknowledgment = None, m_txDuration = None,
      m_info = [], m_undoInfo = PsduInfo_default, m_lastInfoIt = None\<rparr>"

section \<open>Aggregate sizes\<close>

definition CalculatePadding :: "nat \<Rightarrow> nat" where
  "CalculatePadding n = (4 - n mod 4) mod 4"

definition mpdu_GetSizeIfAggregated :: "nat \<Rightarrow> nat \<Rightarrow> nat" where
  "mpdu_GetSizeIfAggregated mpduSize ampduSize = ampduSize + CalculatePadding ampduSize + 4 + mpduSize"

text \<open>Arguments and result are 16 bits wide.\<close>

definition msdu_GetSizeIfAggregated :: "nat \<Rightarrow> nat \<Rightarrow> nat" where
  "msdu_GetSizeIfAggregated msduSize amsduSize =
     (let msdu = msduSize mod 65536; amsdu = amsduSize mod 65536
      in (amsdu + CalculatePadding amsdu + 14 + msdu) mod 65536)"

section \<open>Adding and undoing\<close>

definition tp_Clear :: "tx_params \<Rightarrow> tx_params" where
  "tp_Clear p =
     p\<lparr>m_info := [], m_txVector := WifiTxVector, m_protection := None, m_acknowledgment := None,
       m_txDuration := None\<rparr>"

text \<open>The A-MPDU so far, with the (A-)MSDU being built as its last subframe.\<close>

definition closed_ampdu :: "psdu_info \<Rightarrow> nat" where
  "closed_ampdu i =
     mpdu_GetSizeIfAggregated (hdr_GetSize (pi_header i) + pi_amsduSize i + 4) (pi_ampduSize i)"

definition add_seqNumber :: "u8 \<Rightarrow> u16 \<Rightarrow> (u8 \<rightharpoonup> u16 set) \<Rightarrow> (u8 \<rightharpoonup> u16 set)" where
  "add_seqNumber tid s m = m(tid \<mapsto> insert s (case m tid of Some ss \<Rightarrow> ss | None \<Rightarrow> {}))"

definition AddMpdu :: "mpdu \<Rightarrow> tx_params \<Rightarrow> tx_params option" where
  "AddMpdu mpdu p =
     (let hdr = mp_hdr mpdu; a = m_addr1 hdr;
          own = (if IsQosData hdr then [m_qosTid hdr \<mapsto> {m_seqSeq hdr}] else Map.empty)
      in case omap_get (m_info p) a of
           None \<Rightarrow>
             Some (p\<lparr>m_info := omap_put a \<lparr>pi_header = hdr, pi_amsduSize = mp_payload mpdu, pi_ampduSize = 0,
                                          pi_seqNumbers = own\<rparr> (m_info p),
                     m_lastInfoIt := Some a,
                     m_undoInfo := PsduInfo_default\<rparr>)
         | Some info \<Rightarrow> do {
             null \<leftarrow> (if IsQosData hdr then map_option Not (HasData hdr) else Some False);
             ns_assert (null \<or> pi_amsduSize info > 0);
             Some (p\<lparr>m_lastInfoIt := Some a,
                     m_undoInfo := info\<lparr>pi_seqNumbers := own\<rparr>,
                     m_info := omap_put a
                       (info\<lparr>pi_ampduSize := closed_ampdu info,
                             pi_header := hdr,
                             pi_amsduSize := mp_payload mpdu,
                             pi_seqNumbers := (if IsQosData hdr
                                then add_seqNumber (m_qosTid hdr) (m_seqSeq hdr) (pi_seqNumbers info)
                                else pi_seqNumbers info)\<rparr>) (m_info p)\<rparr>) })"

text \<open>
  The set of numbers to remove holds at most one, of one TID: \<open>drop_seqNumbers\<close> takes them
  away from the entry of their TID.
\<close>

definition drop_seqNumbers :: "(u8 \<rightharpoonup> u16 set) \<Rightarrow> (u8 \<rightharpoonup> u16 set) \<Rightarrow> (u8 \<rightharpoonup> u16 set)" where
  "drop_seqNumbers undo m =
     (\<lambda>tid. case undo tid of None \<Rightarrow> m tid | Some s \<Rightarrow> map_option (\<lambda>ss. ss - s) (m tid))"

definition UndoAddMpdu :: "tx_params \<Rightarrow> tx_params option" where
  "UndoAddMpdu p =
     do { a \<leftarrow> m_lastInfoIt p;
          (if pi_amsduSize (m_undoInfo p) = 0 \<and> pi_ampduSize (m_undoInfo p) = 0
           then Some (p\<lparr>m_info := omap_erase a (m_info p), m_lastInfoIt := None\<rparr>)
           else do {
             info \<leftarrow> omap_get (m_info p) a;
             ns_assert (\<forall>tid \<in> dom (pi_seqNumbers (m_undoInfo p)). pi_seqNumbers info tid \<noteq> None);
             Some (p\<lparr>m_info := omap_put a
                       \<lparr>pi_header = pi_header (m_undoInfo p), pi_amsduSize = pi_amsduSize (m_undoInfo p),
                        pi_ampduSize = pi_ampduSize (m_undoInfo p),
                        pi_seqNumbers = drop_seqNumbers (pi_seqNumbers (m_undoInfo p)) (pi_seqNumbers info)\<rparr>
                       (m_info p),
                     m_lastInfoIt := None\<rparr>) }) }"

definition LastAddedIsFirstMpdu :: "mac48 \<Rightarrow> tx_params \<Rightarrow> bool option" where
  "LastAddedIsFirstMpdu receiver p =
     do { _ \<leftarrow> omap_get (m_info p) receiver;
          ns_assert (m_lastInfoIt p = Some receiver);
          Some (pi_amsduSize (m_undoInfo p) = 0 \<and> pi_ampduSize (m_undoInfo p) = 0) }"

definition GetSizeIfAddMpdu :: "mpdu \<Rightarrow> tx_params \<Rightarrow> nat" where
  "GetSizeIfAddMpdu mpdu p =
     (case omap_get (m_info p) (m_addr1 (mp_hdr mpdu)) of
        None \<Rightarrow> if from_VHT (tv_class (m_txVector p)) then mpdu_GetSizeIfAggregated (mpdu_GetSize mpdu) 0
                else mpdu_GetSize mpdu
      | Some info \<Rightarrow> mpdu_GetSizeIfAggregated (mpdu_GetSize mpdu) (closed_ampdu info))"

definition tp_GetSize :: "mac48 \<Rightarrow> tx_params \<Rightarrow> nat" where
  "tp_GetSize receiver p =
     (case omap_get (m_info p) receiver of
        None \<Rightarrow> 0
      | Some info \<Rightarrow>
          if pi_ampduSize info > 0 \<or> from_VHT (tv_class (m_txVector p)) then closed_ampdu info
          else hdr_GetSize (pi_header info) + pi_amsduSize info + 4)"

definition GetSizeIfAggregateMsdu :: "mpdu \<Rightarrow> tx_params \<Rightarrow> nat option" where
  "GetSizeIfAggregateMsdu msdu p =
     do { ns_assert (IsQosData (mp_hdr msdu));
          info \<leftarrow> omap_get (m_info p) (m_addr1 (mp_hdr msdu));
          ns_assert (pi_amsduSize info > 0);
          ns_assert (IsQosData (pi_header info));
          ns_assert (m_qosTid (pi_header info) = m_qosTid (mp_hdr msdu));
          ns_assert (pi_seqNumbers info (m_qosTid (mp_hdr msdu)) \<noteq> None);
          let currAmsduSize = (if \<not> IsQosAmsdu (pi_header info)
                               then msdu_GetSizeIfAggregated (pi_amsduSize info) 0
                               else pi_amsduSize info);
          Some (msdu_GetSizeIfAggregated (mp_payload msdu) currAmsduSize) }"

definition AggregateMsdu :: "mpdu \<Rightarrow> tx_params \<Rightarrow> tx_params option" where
  "AggregateMsdu msdu p =
     (let a = m_addr1 (mp_hdr msdu)
      in do { info \<leftarrow> omap_get (m_info p) a;
              size \<leftarrow> GetSizeIfAggregateMsdu msdu p;
              Some (p\<lparr>m_lastInfoIt := Some a,
                      m_undoInfo := info\<lparr>pi_seqNumbers := Map.empty\<rparr>,
                      m_info := omap_put a (info\<lparr>pi_amsduSize := size, pi_header := SetQosAmsdu (pi_header info)\<rparr>)
                                  (m_info p)\<rparr>) })"

section \<open>The size of an A-MPDU\<close>

text \<open>
  The octets of an A-MPDU: each MPDU follows a delimiter of 4 octets, and all but the last are
  padded to a multiple of 4.
\<close>

fun ampdu_octets :: "nat list \<Rightarrow> nat" where
  "ampdu_octets [] = 0"
| "ampdu_octets [m] = 4 + m"
| "ampdu_octets (m # ms) = 4 + m + CalculatePadding m + ampdu_octets ms"

lemma padded_mod: "(n + CalculatePadding n) mod 4 = 0"
proof -
  consider "n mod 4 = 0" | "n mod 4 = 1" | "n mod 4 = 2" | "n mod 4 = 3" by linarith
  then show ?thesis by cases (simp_all add: CalculatePadding_def, presburger+)
qed

lemma CalculatePadding_add: "k mod 4 = 0 \<Longrightarrow> CalculatePadding (k + n) = CalculatePadding n"
proof -
  assume "k mod 4 = 0"
  then have "(k + n) mod 4 = n mod 4" by presburger
  then show ?thesis by (simp add: CalculatePadding_def)
qed

lemma ampdu_octets_snoc: "ampdu_octets (ms @ [m]) = mpdu_GetSizeIfAggregated m (ampdu_octets ms)"
proof (induction ms rule: ampdu_octets.induct)
  case 1
  then show ?case by (simp add: mpdu_GetSizeIfAggregated_def CalculatePadding_def)
next
  case (2 x)
  have "CalculatePadding (4 + x) = CalculatePadding x" by (rule CalculatePadding_add) simp
  then show ?case by (simp add: mpdu_GetSizeIfAggregated_def)
next
  case (3 x y ms)
  have "(4 + x + CalculatePadding x) mod 4 = 0" using padded_mod [of x] by presburger
  with 3 show ?case
    using CalculatePadding_add [of "4 + x + CalculatePadding x" "ampdu_octets (y # ms)"]
    by (simp add: mpdu_GetSizeIfAggregated_def)
qed

lemma ampdu_octets_pos: "ms \<noteq> [] \<Longrightarrow> 0 < ampdu_octets ms"
  by (induction ms rule: ampdu_octets.induct) simp_all

fun AddMpdus :: "mpdu list \<Rightarrow> tx_params \<Rightarrow> tx_params option" where
  "AddMpdus [] p = Some p"
| "AddMpdus (m # ms) p = do { p \<leftarrow> AddMpdu m p; AddMpdus ms p }"

lemma AddMpdus_snoc: "AddMpdus (ms @ [m]) p = AddMpdus ms p \<bind> AddMpdu m"
proof (induction ms arbitrary: p)
  case (Cons x ms)
  then show ?case by (cases "AddMpdu x p") simp_all
next
  case Nil
  then show ?case by (cases "AddMpdu m p") simp_all
qed

lemma AddMpdu_info:
  assumes "AddMpdu m p = Some p'"
  shows "m_txVector p' = m_txVector p"
    "omap_get (m_info p') a =
       (if a = m_addr1 (mp_hdr m)
        then Some \<lparr>pi_header = mp_hdr m, pi_amsduSize = mp_payload m,
                   pi_ampduSize = (case omap_get (m_info p) a of None \<Rightarrow> 0 | Some i \<Rightarrow> closed_ampdu i),
                   pi_seqNumbers =
                     (let old = (case omap_get (m_info p) a of None \<Rightarrow> Map.empty | Some i \<Rightarrow> pi_seqNumbers i)
                      in if IsQosData (mp_hdr m) then add_seqNumber (m_qosTid (mp_hdr m)) (m_seqSeq (mp_hdr m)) old
                         else old)\<rparr>
        else omap_get (m_info p) a)"
  using assms
  by (auto simp: AddMpdu_def Let_def add_seqNumber_def elim!: bind_SomeE split: option.splits if_splits)

lemma AddMpdus_size:
  assumes "ms \<noteq> []" "\<forall>m \<in> set ms. m_addr1 (mp_hdr m) = a" "omap_get (m_info p) a = None"
    "AddMpdus ms p = Some p'"
  shows "m_txVector p' = m_txVector p
    \<and> (\<exists>i. omap_get (m_info p') a = Some i
         \<and> pi_header i = mp_hdr (last ms) \<and> pi_amsduSize i = mp_payload (last ms)
         \<and> pi_ampduSize i = ampdu_octets (map mpdu_GetSize (butlast ms)))"
  using assms
proof (induction ms arbitrary: p' rule: rev_induct)
  case (snoc m ms)
  from snoc.prems(4) obtain q where q: "AddMpdus ms p = Some q" "AddMpdu m q = Some p'"
    by (auto simp: AddMpdus_snoc elim!: bind_SomeE)
  note add = AddMpdu_info [OF q(2)]
  show ?case
  proof (cases "ms = []")
    case True
    with q snoc.prems add show ?thesis by simp
  next
    case False
    with snoc.IH [OF False _ snoc.prems(3) q(1)] snoc.prems(2) obtain i where i: "m_txVector q = m_txVector p"
      "omap_get (m_info q) a = Some i" "pi_header i = mp_hdr (last ms)" "pi_amsduSize i = mp_payload (last ms)"
      "pi_ampduSize i = ampdu_octets (map mpdu_GetSize (butlast ms))"
      by auto
    have "closed_ampdu i = ampdu_octets (map mpdu_GetSize (butlast ms @ [last ms]))"
      using i(3-5) by (simp add: closed_ampdu_def ampdu_octets_snoc mpdu_GetSize_def ac_simps)
    with False have "closed_ampdu i = ampdu_octets (map mpdu_GetSize ms)" by simp
    with i(1,2) add snoc.prems(2) show ?thesis by simp
  qed
qed simp

text \<open>
  the size of a PSDU after any number of MPDUs were added for its receiver is the
  number of octets of the A-MPDU of these MPDUs, or the size of the MPDU when there is one only
  and it is sent before 802.11ac; and \<^verbatim>\<open>GetSizeIfAddMpdu\<close> predicts the size that the
  addition of one more gives.
\<close>

theorem psdu_size_is_ampdu_octets:
  assumes "ms \<noteq> []" "\<forall>m \<in> set ms. m_addr1 (mp_hdr m) = a" "omap_get (m_info p) a = None"
    "AddMpdus ms p = Some p'"
  shows "tp_GetSize a p' =
      (if length ms = 1 \<and> \<not> from_VHT (tv_class (m_txVector p)) then mpdu_GetSize (last ms)
       else ampdu_octets (map mpdu_GetSize ms))
    \<and> (\<forall>m p''. m_addr1 (mp_hdr m) = a \<longrightarrow> AddMpdu m p' = Some p'' \<longrightarrow> tp_GetSize a p'' = GetSizeIfAddMpdu m p')"
proof -
  obtain i where i: "m_txVector p' = m_txVector p" "omap_get (m_info p') a = Some i"
    "pi_header i = mp_hdr (last ms)" "pi_amsduSize i = mp_payload (last ms)"
    "pi_ampduSize i = ampdu_octets (map mpdu_GetSize (butlast ms))"
    using AddMpdus_size [OF assms] by auto
  have "closed_ampdu i = ampdu_octets (map mpdu_GetSize (butlast ms @ [last ms]))"
    using i(3-5) by (simp add: closed_ampdu_def ampdu_octets_snoc mpdu_GetSize_def ac_simps)
  then have c: "closed_ampdu i = ampdu_octets (map mpdu_GetSize ms)" using assms(1) by simp
  have "pi_ampduSize i > 0 \<longleftrightarrow> length ms \<noteq> 1"
    using assms(1) ampdu_octets_pos [of "map mpdu_GetSize (butlast ms)"] i(5)
    by (cases ms rule: rev_cases) (auto simp: gr0_conv_Suc)
  then have "tp_GetSize a p' =
      (if length ms = 1 \<and> \<not> from_VHT (tv_class (m_txVector p)) then mpdu_GetSize (last ms)
       else ampdu_octets (map mpdu_GetSize ms))"
    using i c by (simp add: tp_GetSize_def mpdu_GetSize_def)
  moreover have "tp_GetSize a p'' = GetSizeIfAddMpdu m p'"
    if "m_addr1 (mp_hdr m) = a" "AddMpdu m p' = Some p''" for m p''
  proof -
    have "closed_ampdu i > 0" by (simp add: closed_ampdu_def mpdu_GetSizeIfAggregated_def)
    then show ?thesis
      using AddMpdu_info(2) [OF that(2), of a] that(1) i(2)
      by (simp add: tp_GetSize_def GetSizeIfAddMpdu_def closed_ampdu_def mpdu_GetSize_def ac_simps)
  qed
  ultimately show ?thesis by blast
qed

definition ex_mpdu :: "u16 \<Rightarrow> nat \<Rightarrow> mpdu" where
  "ex_mpdu s n =
     \<lparr>mp_hdr = SetSequenceNumber s (SetAddr1 5 (WifiMacHeader WIFI_MAC_QOSDATA)), mp_payload = n,
      mp_queued = True, mp_inFlight = False, mp_hasSeqNo = False\<rparr>"

lemma ex_mpdu_simps [simp]:
  "m_addr1 (mp_hdr (ex_mpdu s n)) = 5" "mp_payload (ex_mpdu s n) = n" "m_seqSeq (mp_hdr (ex_mpdu s n)) = s"
  "IsQosData (mp_hdr (ex_mpdu s n))" "HasData (mp_hdr (ex_mpdu s n)) = Some True"
  "hdr_GetSize (mp_hdr (ex_mpdu s n)) = 26" "m_qosTid (mp_hdr (ex_mpdu s n)) = 0"
  by (simp_all add: ex_mpdu_def WifiMacHeader_def SetType_def type_codes_def mac_hdr_default_def
      SetAddr1_def SetSequenceNumber_def IsQosData_def type_defs HasData_def type_in_def GetType_def
      data_types_def hdr_GetSize_def)

theorem psdu_size_is_ampdu_octets_witness:
  "\<exists>p. AddMpdus [ex_mpdu 1 1001, ex_mpdu 2 500] WifiTxParameters = Some p \<and> tp_GetSize 5 p = 1036 + 534"
proof -
  obtain p where p: "AddMpdus [ex_mpdu 1 1001, ex_mpdu 2 500] WifiTxParameters = Some p"
    by (simp add: AddMpdu_def WifiTxParameters_def Let_def)
  from psdu_size_is_ampdu_octets [OF _ _ _ this, of 5]
  have "tp_GetSize 5 p = ampdu_octets [1031, 530]"
    by (simp add: mpdu_GetSize_def WifiTxParameters_def)
  with p show ?thesis by (simp add: CalculatePadding_def)
qed

section \<open>Undoing\<close>

text \<open>The sequence numbers stored for a TID.\<close>

definition seqs_of :: "psdu_info \<Rightarrow> u8 \<Rightarrow> u16 set" where
  "seqs_of i tid = (case pi_seqNumbers i tid of None \<Rightarrow> {} | Some s \<Rightarrow> s)"

definition same_info :: "psdu_info option \<Rightarrow> psdu_info option \<Rightarrow> bool" where
  "same_info i j \<longleftrightarrow>
     (case (i, j) of
        (None, None) \<Rightarrow> True
      | (Some i, Some j) \<Rightarrow> pi_header i = pi_header j \<and> pi_amsduSize i = pi_amsduSize j
           \<and> pi_ampduSize i = pi_ampduSize j \<and> seqs_of i = seqs_of j
      | _ \<Rightarrow> False)"

lemma same_info_refl [simp]: "same_info i i"
  by (simp add: same_info_def split: option.split)

lemma add_then_undo:
  assumes "AddMpdu m p = Some p'"
    "\<And>i. omap_get (m_info p) (m_addr1 (mp_hdr m)) = Some i \<Longrightarrow>
       (pi_amsduSize i \<noteq> 0 \<or> pi_ampduSize i \<noteq> 0)
       \<and> (IsQosData (mp_hdr m) \<longrightarrow> m_seqSeq (mp_hdr m) \<notin> seqs_of i (m_qosTid (mp_hdr m)))"
  shows "\<exists>p''. UndoAddMpdu p' = Some p''
    \<and> (\<forall>a. same_info (omap_get (m_info p'') a) (omap_get (m_info p) a))"
proof (cases "omap_get (m_info p) (m_addr1 (mp_hdr m))")
  case None
  with assms(1) show ?thesis
    by (auto simp: AddMpdu_def UndoAddMpdu_def Let_def PsduInfo_default_def omap_get_erase omap_get_put)
next
  case (Some i)
  note pre = assms(2) [OF Some]
  let ?m = "mp_hdr m"
  define own where "own = (if IsQosData ?m then [m_qosTid ?m \<mapsto> {m_seqSeq ?m}] else Map.empty)"
  define new where "new = (if IsQosData ?m then add_seqNumber (m_qosTid ?m) (m_seqSeq ?m) (pi_seqNumbers i) else pi_seqNumbers i)"
  from assms(1) Some have p': "m_lastInfoIt p' = Some (m_addr1 ?m)" "m_undoInfo p' = i\<lparr>pi_seqNumbers := own\<rparr>"
    "m_info p' = omap_put (m_addr1 ?m) (i\<lparr>pi_ampduSize := closed_ampdu i, pi_header := ?m,
       pi_amsduSize := mp_payload m, pi_seqNumbers := new\<rparr>) (m_info p)"
    by (auto simp: AddMpdu_def Let_def own_def new_def elim!: bind_SomeE)
  have there: "\<forall>tid \<in> dom own. new tid \<noteq> None" by (simp add: own_def new_def add_seqNumber_def)
  have undone: "(case drop_seqNumbers own new tid of None \<Rightarrow> {} | Some s \<Rightarrow> s) = seqs_of i tid" for tid
    using pre by (auto simp: own_def new_def drop_seqNumbers_def add_seqNumber_def seqs_of_def split: option.splits)
  let ?i = "\<lparr>pi_header = pi_header i, pi_amsduSize = pi_amsduSize i, pi_ampduSize = pi_ampduSize i,
    pi_seqNumbers = drop_seqNumbers own new\<rparr>"
  have "UndoAddMpdu p' = Some (p'\<lparr>m_info := omap_put (m_addr1 ?m) ?i (m_info p'), m_lastInfoIt := None\<rparr>)"
  proof -
    have "\<not> (pi_amsduSize i = 0 \<and> pi_ampduSize i = 0)" using pre by blast
    with there show ?thesis by (auto simp: UndoAddMpdu_def p')
  qed
  moreover have "same_info (Some ?i) (Some i)" using undone by (simp add: same_info_def seqs_of_def fun_eq_iff)
  ultimately show ?thesis using Some by (auto simp: p' omap_get_put)
qed

text \<open>
  undoing the addition of an MPDU restores every PSDU (header, sizes, sequence
  numbers of each TID), provided its sequence number was not already there and the PSDU it was
  added to, if any, did not consist of a single frame without payload.
\<close>

theorem add_mpdu_undo:
  assumes "AddMpdu m p = Some p'"
    "\<And>i. omap_get (m_info p) (m_addr1 (mp_hdr m)) = Some i \<Longrightarrow>
       (pi_amsduSize i \<noteq> 0 \<or> pi_ampduSize i \<noteq> 0)
       \<and> (IsQosData (mp_hdr m) \<longrightarrow> m_seqSeq (mp_hdr m) \<notin> seqs_of i (m_qosTid (mp_hdr m)))"
  shows "\<exists>p''. UndoAddMpdu p' = Some p''
    \<and> (\<forall>a. same_info (omap_get (m_info p'') a) (omap_get (m_info p) a))"
  by (rule add_then_undo [OF assms])

theorem add_mpdu_undo_witness:
  "\<exists>p p' p''. AddMpdu (ex_mpdu 1 1001) WifiTxParameters = Some p \<and> AddMpdu (ex_mpdu 2 500) p = Some p'
     \<and> UndoAddMpdu p' = Some p'' \<and> same_info (omap_get (m_info p'') 5) (omap_get (m_info p) 5)"
proof -
  obtain p where p: "AddMpdu (ex_mpdu 1 1001) WifiTxParameters = Some p"
    by (simp add: AddMpdu_def WifiTxParameters_def Let_def)
  then obtain p' where p': "AddMpdu (ex_mpdu 2 500) p = Some p'"
    by (auto simp: AddMpdu_def WifiTxParameters_def Let_def)
  have "pi_amsduSize i \<noteq> 0 \<and> 2 \<notin> seqs_of i 0" if "omap_get (m_info p) 5 = Some i" for i
    using p that by (auto simp: AddMpdu_def WifiTxParameters_def Let_def seqs_of_def)
  with add_mpdu_undo [OF p'] p p' show ?thesis by (simp, blast)
qed

text \<open>
  Without that proviso it does not: two QoS Null frames for a receiver, and undoing the second
  loses the first.
\<close>

lemma undo_second_qos_null_loses_first:
  assumes "omap_get (m_info p) a = None" "m_addr1 (mp_hdr m1) = a" "m_addr1 (mp_hdr m2) = a"
    "mp_payload m1 = 0" "IsQosData (mp_hdr m2)" "HasData (mp_hdr m2) = Some False"
  shows "\<exists>p1 p2 p3. AddMpdu m1 p = Some p1 \<and> AddMpdu m2 p1 = Some p2 \<and> UndoAddMpdu p2 = Some p3
    \<and> omap_get (m_info p1) a \<noteq> None \<and> omap_get (m_info p3) a = None"
  using assms by (simp add: AddMpdu_def UndoAddMpdu_def Let_def)

end
