(* ===== verification/Station.thy ===== *)
theory Station
  imports Channel_Grants Mac_Tx_Middle Wifi_Tx_Timer Tx_Parameters
begin

text \<open>
  The state of a station on one link: the record \<open>station\<close> extends the channel access
  manager with the members of \<^verbatim>\<open>FrameExchangeManager\<close> and
  \<^verbatim>\<open>QosFrameExchangeManager\<close>
  (\<^verbatim>\<open>src/wifi/model/frame-exchange-manager.h\<close>, \<^verbatim>\<open>qos-frame-exchange-manager.h\<close>), and
  with the events that are scheduled.  The two managers share the PHY \<open>m_phy\<close>.

  \<^item> A \<^verbatim>\<open>Txop\<close> pointer is a position in \<open>m_txops\<close>, a null pointer is \<open>None\<close>.
  \<^item> An event that is kept in a variable (\<^verbatim>\<open>EventId\<close>) is there with its time; the others
    are the list \<open>pending\<close> of times and calls.
  \<^item> What the manager hands to other objects (frames to the PHY, MPDUs to the receive path and
    to the queue) is the list \<open>sent\<close>, in order.
  \<^item> What it asks of the PHY's calculations, the rate manager, the protection and acknowledgment
    managers, the queues and the rest of the MAC is the record \<open>fem_env\<close>; the reports to the
    rate manager, which return nothing, are left out.
\<close>

section \<open>State\<close>

datatype timeout_call = CtsTimeout_of mac_hdr tx_vector | NormalAckTimeout_of mpdu tx_vector

datatype fem_event =
    EvSendMpdu | EvProtectionCompleted | EvTransmissionSucceeded
  | EvStartTxop nat | EvStartTransmission nat nat | EvChannelReleased nat | EvPedcaRelease nat
  | EvSendNormalAck mac_hdr tx_vector | EvGcrRetry mpdu
  | EvRequestAccess nat | EvReset | EvChannelSwitching

datatype fem_call =
    PhySend time mac_hdr tx_vector | RxMiddleReceive mpdu
  | Dequeue mpdu | Replace mpdu mpdu | Discard mpdu | Retransmit mpdu | LastGcrUrTx mpdu | SeqNoReleased mpdu
  | ReportBufferStatus u8 mac48 u8 | CamCall cam_call

record rx_info =
  rx_macHdr :: "mac_hdr option"
  rx_txVector :: tx_vector
  rx_endOfPsduRx :: time

record station = cam +
  m_dcf :: "nat option"
  m_txTimer :: "timeout_call tx_timer"
  m_navResetEvent :: "time option"
  m_sendCtsEvent :: "(time \<times> mac_hdr \<times> tx_vector) option"
  m_self :: mac48
  m_bssid :: mac48
  m_navEnd :: time
  m_txNav :: time
  m_sentRtsTo :: "mac48 set"
  m_sentFrameTo :: "mac48 set"
  m_protectedStas :: "mac48 set"
  m_protectedIfResponded :: bool
  m_allowedWidth :: nat
  m_promisc :: bool
  m_mpdu :: "mpdu option"
  m_txParams :: tx_params
  m_fragmentedPacket :: "nat option"
  m_moreFragments :: bool
  m_ongoingRxInfo :: rx_info
  m_edca :: "nat option"
  m_txopHolder :: "mac48 option"
  m_setQosQueueSize :: bool
  m_protectSingleExchange :: bool
  m_singleExchangeProtectionSurplus :: time
  m_initialFrame :: bool
  m_pifsRecovery :: bool
  m_pifsRecoveryEvent :: "(time \<times> bool) option"
  m_edcaBackingOff :: "nat option"
  m_txMiddle :: tx_middle
  pending :: "(time \<times> fem_event) list"
  sent :: "fem_call list"

text \<open>
  \<^item> \<open>v_txTime\<close>, \<open>v_preambleTime\<close>: \<^verbatim>\<open>CalculateTxDuration\<close> of a number of octets,
    \<^verbatim>\<open>CalculatePhyPreambleAndHeaderDuration\<close>;
  \<^item> \<open>v_rtsTxVector\<close> \<dots> \<open>v_fragmentSize\<close>: the answers of the rate manager;
  \<^item> \<open>v_tryProtection\<close>, \<open>v_tryAck\<close>: \<^verbatim>\<open>TryAddMpdu\<close> of the protection and the
    acknowledgment manager (no value: the method does not change);
  \<^item> \<open>v_peek\<close>: the frame that a channel access function would send next (\<^verbatim>\<open>Peek\<close>,
    \<^verbatim>\<open>PeekNextMpdu\<close>); \<open>v_nextMpdu\<close>: what the A-MSDU aggregation of
    \<^verbatim>\<open>GetNextMpdu\<close> makes of it; \<open>v_queueEmpty\<close>: the queue after expired MPDUs are removed;
  \<^item> \<open>v_retryLimitReached\<close>: \<^verbatim>\<open>GetMpdusToDropOnTxFailure\<close>;
  \<^item> \<open>v_isAp\<close>, \<open>v_powerSave\<close>: the type of the station, and whether a non-AP one is or is
    getting into power save mode;
  \<^item> \<open>v_recipient\<close>: \<^verbatim>\<open>GetIndividuallyAddressedRecipient\<close>; the \<open>v_gcr\<close> fields are
    the answers of the GCR manager of an AP (\<open>v_gcrDestination\<close>: the group address of a frame that
    was sent to a concealment address).
\<close>

record fem_env =
  v_world :: world
  v_txTime :: "nat \<Rightarrow> tx_vector \<Rightarrow> time"
  v_preambleTime :: "tx_vector \<Rightarrow> time"
  v_rtsTxVector :: "mac48 \<Rightarrow> nat \<Rightarrow> tx_vector"
  v_ctsTxVector :: "mac48 \<Rightarrow> nat \<Rightarrow> tx_vector"
  v_ctsToSelfTxVector :: tx_vector
  v_ackTxVector :: "mac48 \<Rightarrow> tx_vector \<Rightarrow> tx_vector"
  v_dataTxVector :: "mac_hdr \<Rightarrow> nat \<Rightarrow> tx_vector"
  v_needFragmentation :: "mpdu \<Rightarrow> bool"
  v_fragmentSize :: "mpdu \<Rightarrow> nat"
  v_tryProtection :: "mpdu \<Rightarrow> tx_params \<Rightarrow> protection option"
  v_tryAck :: "mpdu \<Rightarrow> tx_params \<Rightarrow> acknowledgment option"
  v_maxPsduSize :: "mod_class \<Rightarrow> nat"
  v_peek :: "nat \<Rightarrow> mpdu option"
  v_aggregateMsdu :: "mpdu \<Rightarrow> tx_params \<Rightarrow> time \<Rightarrow> (mpdu \<times> tx_params) option"
  v_queueEmpty :: "nat \<Rightarrow> bool"
  v_queueSize :: "mpdu \<Rightarrow> u8"
  v_retryLimitReached :: "mpdu \<Rightarrow> bool"
  v_frameRetryLimit :: nat
  v_sampleTxopLimit :: "int \<Rightarrow> int \<Rightarrow> int"
  v_recipient :: "mac_hdr \<Rightarrow> mac48"
  v_isAp :: bool
  v_powerSave :: bool
  v_gcrUse :: "mac_hdr \<Rightarrow> bool"
  v_gcrKeepQueued :: "mpdu \<Rightarrow> bool"
  v_gcrUnsolicitedRetry :: bool
  v_gcrDestination :: "mpdu \<Rightarrow> mac48 option"

abbreviation v_now :: "fem_env \<Rightarrow> time" where
  "v_now v \<equiv> w_now (v_world v)"

section \<open>Frame sizes\<close>

definition GetRtsSize :: nat where "GetRtsSize = hdr_GetSize (WifiMacHeader WIFI_MAC_CTL_RTS) + 4"
definition GetCtsSize :: nat where "GetCtsSize = hdr_GetSize (WifiMacHeader WIFI_MAC_CTL_CTS) + 4"
definition GetAckSize :: nat where "GetAckSize = hdr_GetSize (WifiMacHeader WIFI_MAC_CTL_ACK) + 4"

lemma frame_sizes: "GetRtsSize = 20" "GetCtsSize = 14" "GetAckSize = 14"
  by (simp_all add: GetRtsSize_def GetCtsSize_def GetAckSize_def WifiMacHeader_def SetType_def
      type_codes_def mac_hdr_default_def hdr_GetSize_def type_defs ctl_two_addresses_def ctl_one_address_def)

section \<open>Operations of the channel access functions\<close>

text \<open>\<^verbatim>\<open>Simulator::Schedule\<close> and \<^verbatim>\<open>ScheduleNow\<close>: the delay must not be negative.\<close>

definition schedule :: "time \<Rightarrow> time \<Rightarrow> fem_event \<Rightarrow> station \<Rightarrow> station option" where
  "schedule now delay ev s =
     do { ns_assert (delay \<ge> 0); Some (s\<lparr>pending := pending s @ [(now + delay, ev)]\<rparr>) }"

definition emit :: "fem_call \<Rightarrow> station \<Rightarrow> station" where
  "emit call s = s\<lparr>sent := sent s @ [call]\<rparr>"

text \<open>A call of a method through a pointer, on this link.\<close>

definition with_txop :: "nat option \<Rightarrow> (edcaf \<Rightarrow> edcaf option) \<Rightarrow> station \<Rightarrow> station option" where
  "with_txop p f s =
     do { i \<leftarrow> p; e \<leftarrow> get_txop i s; e \<leftarrow> f e; Some (s\<lparr>m_txops := (m_txops s)[i := e]\<rparr>) }"

definition on_qlink :: "(qlink \<Rightarrow> qlink) \<Rightarrow> edcaf \<Rightarrow> edcaf option" where
  "on_qlink f e = Some (e\<lparr>e_link := f (e_link e)\<rparr>)"

definition e_UpdateFailedCw :: "nat \<Rightarrow> time \<Rightarrow> edcaf \<Rightarrow> edcaf option" where
  "e_UpdateFailedCw limit now e =
     do { l \<leftarrow> (if e_qos e then qos_UpdateFailedCw limit now (e_link e)
                else UpdateFailedCw limit (l_cwMin (e_link e)) (l_cwMax (e_link e)) (e_link e));
          Some (e\<lparr>e_link := l\<rparr>) }"

definition e_NotifyChannelAccessed :: "time \<Rightarrow> time \<Rightarrow> edcaf \<Rightarrow> edcaf option" where
  "e_NotifyChannelAccessed now txopDuration e =
     do { l \<leftarrow> (if e_qos e then NotifyChannelAccessed now txopDuration (e_link e)
                else Some (txop_NotifyChannelAccessed (e_link e)));
          Some (e\<lparr>e_link := l\<rparr>) }"

text \<open>The access request that a release schedules.\<close>

definition run_access_calls :: "time \<Rightarrow> nat \<Rightarrow> access_call list \<Rightarrow> station \<Rightarrow> station" where
  "run_access_calls now i calls s =
     s\<lparr>pending := pending s @ map (\<lambda>_. (now, EvRequestAccess i)) (filter ((=) ScheduleRequestAccess) calls)\<rparr>"

text \<open>\<^verbatim>\<open>Txop::NotifyChannelReleased\<close>, with the virtual \<^verbatim>\<open>GenerateBackoff\<close>.\<close>

definition base_NotifyChannelReleased :: "fem_env \<Rightarrow> nat option \<Rightarrow> station \<Rightarrow> station option" where
  "base_NotifyChannelReleased v p s =
     do { i \<leftarrow> p;
          e \<leftarrow> get_txop i s;
          (l, calls) \<leftarrow> txop_NotifyChannelReleased
             (\<lambda>l. Some (e_link (e_GenerateBackoff (v_world v) i (e\<lparr>e_link := l\<rparr>))))
             (w_hasFrames (v_world v) i) (e_link e);
          Some (run_access_calls (v_now v) i calls
                 (s\<lparr>m_txops := (m_txops s)[i := e\<lparr>e_link := l\<rparr>]\<rparr>)) }"

text \<open>The virtual method.\<close>

definition txop_Released :: "fem_env \<Rightarrow> nat option \<Rightarrow> station \<Rightarrow> station option" where
  "txop_Released v p s =
     do { i \<leftarrow> p;
          e \<leftarrow> get_txop i s;
          (if \<not> e_qos e then base_NotifyChannelReleased v p s
           else let w = v_world v;
                    (l, calls) = NotifyChannelReleased
                      (GenerateBackoff (e_cfg e) (w_mac w) (w_linkId w) (w_draw w i) (w_now w))
                      (v_queueEmpty v i) (m_generateBackoffOnNoTx s) (w_now w) (e_link e)
                in Some (run_access_calls (w_now w) i calls
                          (s\<lparr>m_txops := (m_txops s)[i := e\<lparr>e_link := l\<rparr>]\<rparr>))) }"

text \<open>A frame exchange manager calls its channel access manager and goes on with its calls logged.\<close>

definition cam_calls :: "(station \<times> cam_call list) option \<Rightarrow> station option" where
  "cam_calls r = do { (s, calls) \<leftarrow> r; Some (s\<lparr>sent := sent s @ map CamCall calls\<rparr>) }"

section \<open>A station\<close>

text \<open>
  A station whose voice function has been granted access for a TXOP without limit, with the
  channel access manager of the previous examples; a frame takes 20 microseconds and one per octet.
\<close>

definition ex_fem :: "cam \<Rightarrow> station" where
  "ex_fem c = cam.extend c (station.fields
     (Some 0) WifiTxTimer None None 1 9 0 0 {} {} {} False 20 False None WifiTxParameters None False
     \<lparr>rx_macHdr = None, rx_txVector = WifiTxVector, rx_endOfPsduRx = 0\<rparr>
     (Some 0) None False False 0 True True None None MacTxMiddle [] [])"

definition ex_station :: station where
  "ex_station = ex_fem ex_cam"

definition ex_fem_env :: "time \<Rightarrow> fem_env" where
  "ex_fem_env now =
     \<lparr>v_world = \<lparr>w_now = now, w_hasFrames = (\<lambda>_. True), w_draw = (\<lambda>_ n. n), w_mac = ex_env, w_linkId = 0\<rparr>,
      v_txTime = (\<lambda>n _. 20000 + 1000 * int n), v_preambleTime = (\<lambda>_. 20000),
      v_rtsTxVector = (\<lambda>_ _. WifiTxVector), v_ctsTxVector = (\<lambda>_ _. WifiTxVector),
      v_ctsToSelfTxVector = WifiTxVector, v_ackTxVector = (\<lambda>_ _. WifiTxVector),
      v_dataTxVector = (\<lambda>_ _. WifiTxVector), v_needFragmentation = (\<lambda>_. False), v_fragmentSize = (\<lambda>_. 0),
      v_tryProtection = (\<lambda>_ _. Some \<lparr>pr_method = PROT_NONE, pr_time = None\<rparr>),
      v_tryAck = (\<lambda>_ _. Some \<lparr>ak_method = ACK_NORMAL WifiTxVector, ak_time = None,
                              ak_policy = (\<lambda>_ _. Some NORMAL_ACK)\<rparr>),
      v_maxPsduSize = (\<lambda>_. 4095), v_peek = (\<lambda>_. Some (ex_mpdu 1 1000)),
      v_aggregateMsdu = (\<lambda>_ _ _. None), v_queueEmpty = (\<lambda>_. False), v_queueSize = (\<lambda>_. 4),
      v_retryLimitReached = (\<lambda>_. False), v_frameRetryLimit = 7, v_sampleTxopLimit = (\<lambda>a b. a),
      v_recipient = m_addr1, v_isAp = False, v_powerSave = False, v_gcrUse = (\<lambda>_. False),
      v_gcrKeepQueued = (\<lambda>_. False), v_gcrUnsolicitedRetry = False,
      v_gcrDestination = (\<lambda>_. None)\<rparr>"

lemmas ex_station_defs = ex_station_def ex_fem_def cam.defs station.defs ex_cam_def ex_fem_env_def

lemma ex_station_phy [simp]: "m_phy ex_station = Some ex_phy"
  by (simp add: ex_station_defs)

end
