(* ===== verification/Frame_Durations.thy ===== *)
theory Frame_Durations
  imports Station
begin

text \<open>
  The times of a frame exchange, of \<^verbatim>\<open>frame-exchange-manager.cc\<close> and
  \<^verbatim>\<open>qos-frame-exchange-manager.cc\<close>: how long protection and acknowledgment take, what the
  Duration/ID fields announce, and whether a frame fits in the time that is left
  (\<^verbatim>\<open>TryAddMpdu\<close>).  A virtual method is the one of the QoS manager, which falls back to that of
  its base class when no EDCA function has the channel.
\<close>

section \<open>Protection and acknowledgment times\<close>

definition CalculateProtectionTime :: "fem_env \<Rightarrow> station \<Rightarrow> protection \<Rightarrow> protection option" where
  "CalculateProtectionTime v s p =
     do { phy \<leftarrow> m_phy s;
          Some (p\<lparr>pr_time := Some (case pr_method p of
                   PROT_NONE \<Rightarrow> 0
                 | RTS_CTS rts cts \<Rightarrow> v_txTime v GetRtsSize rts + v_txTime v GetCtsSize cts + 2 * phy_sifs phy
                 | CTS_TO_SELF cts \<Rightarrow> v_txTime v GetCtsSize cts + phy_sifs phy)\<rparr>) }"

text \<open>The time of a method that the HT manager handles is left as it is.\<close>

definition CalculateAcknowledgmentTime :: "fem_env \<Rightarrow> station \<Rightarrow> acknowledgment \<Rightarrow> acknowledgment option" where
  "CalculateAcknowledgmentTime v s a =
     (case ak_method a of
        ACK_NONE \<Rightarrow> Some (a\<lparr>ak_time := Some 0\<rparr>)
      | ACK_NORMAL ack \<Rightarrow>
          do { phy \<leftarrow> m_phy s; Some (a\<lparr>ak_time := Some (phy_sifs phy + v_txTime v GetAckSize ack)\<rparr>) }
      | ACK_OTHER \<Rightarrow> Some a)"

definition UpdateTxDuration :: "fem_env \<Rightarrow> mac48 \<Rightarrow> tx_params \<Rightarrow> tx_params" where
  "UpdateTxDuration v receiver p =
     p\<lparr>m_txDuration := Some (v_txTime v (tp_GetSize receiver p) (m_txVector p))\<rparr>"

section \<open>Duration/ID fields\<close>

text \<open>The sizes are 32-bit unsigned numbers.\<close>

definition next_fragment_size :: "nat \<Rightarrow> nat \<Rightarrow> nat \<Rightarrow> nat" where
  "next_fragment_size packetSize fragmentNumber payloadSize =
     unat (min (of_nat packetSize - of_nat ((fragmentNumber + 1) * payloadSize)) (of_nat payloadSize :: u32))"

definition fem_GetFrameDurationId ::
  "fem_env \<Rightarrow> station \<Rightarrow> mac_hdr \<Rightarrow> nat \<Rightarrow> tx_params \<Rightarrow> time option" where
  "fem_GetFrameDurationId v s hdr octets p =
     do { phy \<leftarrow> m_phy s;
          ack \<leftarrow> m_acknowledgment p;
          durationId \<leftarrow> ak_time ack;
          (if IsMoreFragments hdr
           then do {
             packetSize \<leftarrow> m_fragmentedPacket s;
             let payloadSize = unat (of_nat octets - of_nat (hdr_GetSize hdr) - 4 :: u32);
                 next = next_fragment_size packetSize (unat (m_seqFrag hdr)) payloadSize;
                 ackTxVector = v_ackTxVector v (m_addr1 hdr) (m_txVector p)
             in Some (durationId + (2 * phy_sifs phy + v_txTime v GetAckSize ackTxVector
                                    + v_txTime v next (m_txVector p))) }
           else Some durationId) }"

definition fem_GetRtsDurationId :: "fem_env \<Rightarrow> station \<Rightarrow> tx_vector \<Rightarrow> time \<Rightarrow> time \<Rightarrow> time option" where
  "fem_GetRtsDurationId v s rtsTxVector txDuration response =
     do { phy \<leftarrow> m_phy s;
          Some (phy_sifs phy + v_txTime v GetCtsSize (v_ctsTxVector v (m_self s) (tv_mode rtsTxVector))
                + phy_sifs phy + txDuration + response) }"

definition fem_GetCtsToSelfDurationId :: "station \<Rightarrow> time \<Rightarrow> time \<Rightarrow> time option" where
  "fem_GetCtsToSelfDurationId s txDuration response =
     do { phy \<leftarrow> m_phy s; Some (phy_sifs phy + txDuration + response) }"

text \<open>
  What the three overriding methods have in common: with a TXOP limit, the rest of the TXOP is
  announced, not less than a minimum, and, if single exchanges only are to be protected, not more
  than the exchange and a surplus.
\<close>

definition multiple_protection ::
  "fem_env \<Rightarrow> station \<Rightarrow> time \<Rightarrow> time \<Rightarrow> time \<Rightarrow> time option" where
  "multiple_protection v s singleDurationId frameTime minimum =
     (case m_edca s of
        None \<Rightarrow> Some singleDurationId
      | Some i \<Rightarrow> do {
          e \<leftarrow> get_txop i s;
          (if l_txopLimit (e_link e) = 0 then Some singleDurationId
           else do {
             remaining \<leftarrow> GetRemainingTxop (v_now v) (e_link e);
             let duration = max (remaining - frameTime) minimum
             in Some (if m_protectSingleExchange s
                      then min duration (singleDurationId + m_singleExchangeProtectionSurplus s)
                      else duration) }) })"

definition GetFrameDurationId ::
  "fem_env \<Rightarrow> station \<Rightarrow> mac_hdr \<Rightarrow> nat \<Rightarrow> tx_params \<Rightarrow> time option" where
  "GetFrameDurationId v s hdr octets p =
     do { single \<leftarrow> fem_GetFrameDurationId v s hdr octets p;
          ack \<leftarrow> m_acknowledgment p;
          ackTime \<leftarrow> ak_time ack;
          multiple_protection v s single (v_txTime v octets (m_txVector p)) ackTime }"

definition GetRtsDurationId :: "fem_env \<Rightarrow> station \<Rightarrow> tx_vector \<Rightarrow> time \<Rightarrow> time \<Rightarrow> time option" where
  "GetRtsDurationId v s rtsTxVector txDuration response =
     do { single \<leftarrow> fem_GetRtsDurationId v s rtsTxVector txDuration response;
          multiple_protection v s single (v_txTime v GetRtsSize rtsTxVector) 0 }"

definition GetCtsToSelfDurationId :: "fem_env \<Rightarrow> station \<Rightarrow> tx_vector \<Rightarrow> time \<Rightarrow> time \<Rightarrow> time option" where
  "GetCtsToSelfDurationId v s ctsTxVector txDuration response =
     do { single \<leftarrow> fem_GetCtsToSelfDurationId s txDuration response;
          multiple_protection v s single (v_txTime v GetCtsSize ctsTxVector) 0 }"

text \<open>
  A CTS and an Ack announce what the frame they answer announced, less a SIFS and their own
  transmission time.
\<close>

definition response_duration :: "fem_env \<Rightarrow> station \<Rightarrow> nat \<Rightarrow> tx_vector \<Rightarrow> mac_hdr \<Rightarrow> time option" where
  "response_duration v s octets txVector hdr =
     do { phy \<leftarrow> m_phy s;
          let duration = GetDuration hdr - phy_sifs phy - v_txTime v octets txVector
          in Some (if duration < 0 then 0 else duration) }"

section \<open>Does a frame fit?\<close>

definition GetPpduMaxTime :: "preamble \<Rightarrow> time" where
  "GetPpduMaxTime p =
     (if p \<in> {WIFI_PREAMBLE_HT_MF, WIFI_PREAMBLE_VHT_SU, WIFI_PREAMBLE_VHT_MU, WIFI_PREAMBLE_HE_SU,
              WIFI_PREAMBLE_HE_ER_SU, WIFI_PREAMBLE_HE_MU, WIFI_PREAMBLE_HE_TB, WIFI_PREAMBLE_EHT_MU,
              WIFI_PREAMBLE_EHT_TB}
      then 5484000 else 0)"

text \<open>
  \<^verbatim>\<open>Time::IsNegative\<close> holds of zero, too; \<open>TimeMin\<close> stands for no limit.
\<close>

definition IsWithinSizeAndTimeLimits :: "fem_env \<Rightarrow> nat \<Rightarrow> tx_params \<Rightarrow> time \<Rightarrow> bool option" where
  "IsWithinSizeAndTimeLimits v ppduPayloadSize p ppduDurationLimit =
     (if ppduDurationLimit \<noteq> TimeMin \<and> ppduDurationLimit \<le> 0 then Some False
      else if ppduPayloadSize > v_maxPsduSize v (tv_class (m_txVector p)) then Some False
      else do {
        let maxPpduDuration = GetPpduMaxTime (tv_preamble (m_txVector p));
        txTime \<leftarrow> m_txDuration p;
        Some (\<not> ((ppduDurationLimit > 0 \<and> txTime > ppduDurationLimit)
                \<or> (maxPpduDuration > 0 \<and> txTime > maxPpduDuration))) })"

text \<open>
  The method that the manager keeps or replaces, with its time; an answer of no value keeps it.
\<close>

definition changed_protection :: "fem_env \<Rightarrow> station \<Rightarrow> mpdu \<Rightarrow> tx_params \<Rightarrow> tx_params option" where
  "changed_protection v s mpdu p =
     (case v_tryProtection v mpdu p of
        None \<Rightarrow> Some p
      | Some pr \<Rightarrow> do { pr \<leftarrow> CalculateProtectionTime v s pr; Some (p\<lparr>m_protection := Some pr\<rparr>) })"

definition changed_acknowledgment :: "fem_env \<Rightarrow> station \<Rightarrow> mpdu \<Rightarrow> tx_params \<Rightarrow> tx_params option" where
  "changed_acknowledgment v s mpdu p =
     (case v_tryAck v mpdu p of
        None \<Rightarrow> Some p
      | Some a \<Rightarrow> do { a \<leftarrow> CalculateAcknowledgmentTime v s a; Some (p\<lparr>m_acknowledgment := Some a\<rparr>) })"

definition TryAddMpdu :: "fem_env \<Rightarrow> station \<Rightarrow> mpdu \<Rightarrow> tx_params \<Rightarrow> time \<Rightarrow> (tx_params \<times> bool) option" where
  "TryAddMpdu v s mpdu p0 availableTime =
     do { p \<leftarrow> AddMpdu mpdu p0;
          let p = UpdateTxDuration v (m_addr1 (mp_hdr mpdu)) p;
          p \<leftarrow> changed_protection v s mpdu p;
          protectionTime \<leftarrow> m_protection p \<bind> pr_time;
          p \<leftarrow> changed_acknowledgment v s mpdu p;
          acknowledgmentTime \<leftarrow> m_acknowledgment p \<bind> ak_time;
          let ppduDurationLimit =
            (if availableTime \<noteq> TimeMin then availableTime - protectionTime - acknowledgmentTime
             else TimeMin);
          fits \<leftarrow> IsWithinSizeAndTimeLimits v (mpdu_GetSize mpdu) p ppduDurationLimit;
          (if fits then Some (p, True)
           else do { p \<leftarrow> UndoAddMpdu p;
                     Some (p\<lparr>m_txDuration := m_txDuration p0, m_protection := m_protection p0,
                             m_acknowledgment := m_acknowledgment p0\<rparr>, False) }) }"

section \<open>Rollback and limits\<close>

lemma changed_protection_frame:
  assumes "changed_protection v s m p = Some p'"
  shows "p' = p\<lparr>m_protection := m_protection p'\<rparr>"
  using assms by (auto simp: changed_protection_def elim!: bind_SomeE split: option.splits)

lemma changed_acknowledgment_frame:
  assumes "changed_acknowledgment v s m p = Some p'"
  shows "p' = p\<lparr>m_acknowledgment := m_acknowledgment p'\<rparr>"
  using assms by (auto simp: changed_acknowledgment_def elim!: bind_SomeE split: option.splits)

lemma UndoAddMpdu_cong:
  assumes "m_lastInfoIt p = m_lastInfoIt q" "m_undoInfo p = m_undoInfo q" "m_info p = m_info q"
    "UndoAddMpdu q = Some q'"
  shows "\<exists>p'. UndoAddMpdu p = Some p' \<and> m_info p' = m_info q' \<and> m_txVector p' = m_txVector p"
  using assms by (auto simp: UndoAddMpdu_def elim!: bind_SomeE split: if_splits)



end
