(* ===== verification/Frame_Transmit.thy ===== *)
theory Frame_Transmit
  imports Frame_Durations
begin

text \<open>
  Transmission, of \<^verbatim>\<open>frame-exchange-manager.cc\<close>: the frames that are sent, the protection
  of an MPDU, the timers that wait for responses, and the TXNAV.
\<close>

section \<open>Handing a frame to the PHY\<close>

definition FinalizeMacHeader :: "fem_env \<Rightarrow> mac_hdr \<Rightarrow> mac_hdr" where
  "FinalizeMacHeader v hdr =
     (if \<not> isSta (w_mac (v_world v)) then hdr
      else if v_powerSave v then SetPowerManagement hdr else SetNoPowerManagement hdr)"

definition SetTxNav :: "time \<Rightarrow> mac_hdr \<Rightarrow> time \<Rightarrow> station \<Rightarrow> station option" where
  "SetTxNav now hdr txDuration s =
     do { psPoll \<leftarrow> IsPsPoll hdr;
          Some (if \<not> psPoll then s\<lparr>m_txNav := max (m_txNav s) (now + txDuration + GetDuration hdr)\<rparr> else s) }"

definition ResetTxNav :: "time \<Rightarrow> station \<Rightarrow> station" where
  "ResetTxNav now s = s\<lparr>m_txNav := now\<rparr>"

text \<open>
  The PHY tells the channel access manager that a transmission starts: \<^verbatim>\<open>NotifyTxStartNow\<close>
  is part of what \<^verbatim>\<open>Send\<close> does, and is a step of its own here.
\<close>

definition fem_ForwardMpduDown :: "fem_env \<Rightarrow> mac_hdr \<Rightarrow> nat \<Rightarrow> tx_vector \<Rightarrow> station \<Rightarrow> station option" where
  "fem_ForwardMpduDown v hdr payload txVector s =
     do { _ \<leftarrow> m_phy s;
          let hdr = FinalizeMacHeader v hdr;
              s = s\<lparr>m_allowedWidth := min (m_allowedWidth s) (tv_width txVector)\<rparr>;
              txDuration = v_txTime v (payload + hdr_GetSize hdr + 4) txVector
          in do { s \<leftarrow> SetTxNav (v_now v) hdr txDuration s;
                  Some (emit (PhySend txDuration hdr txVector) s) } }"

text \<open>The QoS manager reports the size of the queue in QoS data frames of a non-AP station.\<close>

definition ForwardMpduDown :: "fem_env \<Rightarrow> mpdu \<Rightarrow> tx_vector \<Rightarrow> station \<Rightarrow> station option" where
  "ForwardMpduDown v mpdu txVector s =
     (let hdr = mp_hdr mpdu;
          hdr = (if IsQosData hdr \<and> isSta (w_mac (v_world v)) \<and> (m_setQosQueueSize s \<or> IsQosEosp hdr)
                 then SetQosQueueSize (v_queueSize v mpdu) (SetQosEosp hdr) else hdr)
      in fem_ForwardMpduDown v hdr (mp_payload mpdu) txVector s)"

definition control_frame :: "mac_hdr \<Rightarrow> mpdu" where
  "control_frame hdr = \<lparr>mp_hdr = hdr, mp_payload = 0, mp_queued = False, mp_inFlight = False, mp_hasSeqNo = False\<rparr>"

text \<open>The header of a control frame that is sent with no addresses but these.\<close>

definition ctl_hdr :: "WifiMacType \<Rightarrow> mac_hdr" where
  "ctl_hdr type =
     SetNoMoreFragments (SetNoRetry (SetDsNotTo (SetDsNotFrom (SetType type True mac_hdr_default))))"

section \<open>Responses\<close>

definition SendCtsAfterRts :: "fem_env \<Rightarrow> mac_hdr \<Rightarrow> tx_vector \<Rightarrow> station \<Rightarrow> station option" where
  "SendCtsAfterRts v rtsHdr rtsTxVector s =
     (let ctsTxVector = v_ctsTxVector v (m_addr2 rtsHdr) (tv_mode rtsTxVector)
      in do { duration \<leftarrow> response_duration v s GetCtsSize ctsTxVector rtsHdr;
              cts \<leftarrow> SetDuration duration (SetAddr1 (m_addr2 rtsHdr) (ctl_hdr WIFI_MAC_CTL_CTS));
              ForwardMpduDown v (control_frame cts) ctsTxVector s })"

definition SendNormalAck :: "fem_env \<Rightarrow> mac_hdr \<Rightarrow> tx_vector \<Rightarrow> station \<Rightarrow> station option" where
  "SendNormalAck v hdr dataTxVector s =
     (let ackTxVector = v_ackTxVector v (m_addr2 hdr) dataTxVector
      in do { duration \<leftarrow> response_duration v s GetAckSize ackTxVector hdr;
              ack \<leftarrow> SetDuration duration (SetAddr1 (m_addr2 hdr) (ctl_hdr WIFI_MAC_CTL_ACK));
              ForwardMpduDown v (control_frame ack) ackTxVector s })"

section \<open>Sending an MPDU\<close>

definition DequeueMpdu :: "mpdu \<Rightarrow> station \<Rightarrow> station" where
  "DequeueMpdu mpdu s = (if mp_queued mpdu then emit (Dequeue mpdu) s else s)"

text \<open>The frame of the caller is waited for: the timer is set, and the manager is told.\<close>

definition wait_for_ack :: "fem_env \<Rightarrow> mpdu \<Rightarrow> tx_vector \<Rightarrow> time \<Rightarrow> station \<Rightarrow> station option" where
  "wait_for_ack v mpdu ackTxVector txDuration s =
     do { phy \<leftarrow> m_phy s;
          duration \<leftarrow> GetFrameDurationId v s (mp_hdr mpdu) (mpdu_GetSize mpdu) (m_txParams s);
          hdr \<leftarrow> SetDuration duration (mp_hdr mpdu);
          let mpdu = mpdu\<lparr>mp_hdr := hdr\<rparr>;
              timeout = txDuration + phy_sifs phy + phy_slot phy + v_preambleTime v ackTxVector
          in do {
            ns_assert (\<not> timer_IsRunning (m_txTimer s));
            timer \<leftarrow> timer_Set WAIT_NORMAL_ACK timeout {m_addr1 hdr}
                      (NormalAckTimeout_of mpdu (m_txVector (m_txParams s))) (v_now v) (m_txTimer s);
            s \<leftarrow> NotifyAckTimeoutStartNow (v_now v) timeout (s\<lparr>m_mpdu := Some mpdu, m_txTimer := timer\<rparr>);
            Some s } }"

definition send_unacknowledged :: "fem_env \<Rightarrow> mpdu \<Rightarrow> time \<Rightarrow> station \<Rightarrow> station option" where
  "send_unacknowledged v mpdu txDuration s =
     do { s \<leftarrow> (if v_isAp v \<and> v_gcrUse v (mp_hdr mpdu)
                then if v_gcrKeepQueued v mpdu
                     then do { phy \<leftarrow> m_phy s;
                               schedule (v_now v) (txDuration + phy_sifs phy) (EvGcrRetry mpdu) s }
                     else Some (DequeueMpdu mpdu
                            (if v_gcrUnsolicitedRetry v then emit (LastGcrUrTx mpdu) s else s))
                else if \<not> IsQosData (mp_hdr mpdu) then Some (DequeueMpdu mpdu s)
                else do { policy \<leftarrow> GetQosAckPolicy (mp_hdr mpdu);
                          Some (if policy = NO_ACK then DequeueMpdu mpdu s else s) });
          schedule (v_now v) txDuration EvTransmissionSucceeded s }"

definition SendMpdu :: "fem_env \<Rightarrow> station \<Rightarrow> station option" where
  "SendMpdu v s =
     do { mpdu \<leftarrow> m_mpdu s;
          let txVector = m_txVector (m_txParams s);
              txDuration = v_txTime v (mpdu_GetSize mpdu) txVector
          in do {
            ack \<leftarrow> m_acknowledgment (m_txParams s);
            s \<leftarrow> (case ak_method ack of
                     ACK_NONE \<Rightarrow> send_unacknowledged v mpdu txDuration s
                   | ACK_NORMAL ackTxVector \<Rightarrow> wait_for_ack v mpdu ackTxVector txDuration s
                   | ACK_OTHER \<Rightarrow> None);
            mpdu \<leftarrow> m_mpdu s;
            s \<leftarrow> ForwardMpduDown v mpdu txVector s;
            (if timer_IsRunning (m_txTimer s)
             then do { ns_assert (m_sentFrameTo s = {});
                       Some (s\<lparr>m_sentFrameTo := {m_addr1 (mp_hdr mpdu)}\<rparr>) }
             else Some s) } }"

section \<open>Protection\<close>

definition ProtectionCompleted :: "fem_env \<Rightarrow> station \<Rightarrow> station option" where
  "ProtectionCompleted v s =
     (let s = s\<lparr>m_protectedStas := m_protectedStas s \<union> m_sentRtsTo s, m_sentRtsTo := {}\<rparr>
      in do { _ \<leftarrow> m_mpdu s;
              p \<leftarrow> m_protection (m_txParams s);
              (if pr_method p = PROT_NONE then SendMpdu v s
               else do { phy \<leftarrow> m_phy s; schedule (v_now v) (phy_sifs phy) EvSendMpdu s }) })"

text \<open>The header of the one PSDU that is being built.\<close>

definition SendRts :: "fem_env \<Rightarrow> station \<Rightarrow> station option" where
  "SendRts v s =
     (let p = m_txParams s
      in do {
        phy \<leftarrow> m_phy s;
        ns_assert (length (m_info p) = 1);
        let receiver = v_recipient v (pi_header (snd (hd (m_info p))));
        pr \<leftarrow> m_protection p;
        (case pr_method pr of
           RTS_CTS rtsTxVector ctsTxVector \<Rightarrow> do {
             txDuration \<leftarrow> m_txDuration p;
             ack \<leftarrow> m_acknowledgment p;
             ackTime \<leftarrow> ak_time ack;
             duration \<leftarrow> GetRtsDurationId v s rtsTxVector txDuration ackTime;
             rts \<leftarrow> SetDuration duration (SetAddr2 (m_self s) (SetAddr1 receiver (ctl_hdr WIFI_MAC_CTL_RTS)));
             let timeout = v_txTime v GetRtsSize rtsTxVector + phy_sifs phy + phy_slot phy
                           + v_preambleTime v ctsTxVector;
             ns_assert (\<not> timer_IsRunning (m_txTimer s));
             timer \<leftarrow> timer_Set WAIT_CTS timeout {receiver} (CtsTimeout_of rts rtsTxVector) (v_now v) (m_txTimer s);
             let s = NotifyCtsTimeoutStartNow (v_now v) timeout (s\<lparr>m_txTimer := timer\<rparr>);
             ns_assert (m_sentRtsTo s = {});
             ForwardMpduDown v (control_frame rts) rtsTxVector (s\<lparr>m_sentRtsTo := {receiver}\<rparr>) }
         | _ \<Rightarrow> None) })"

definition SendCtsToSelf :: "fem_env \<Rightarrow> station \<Rightarrow> station option" where
  "SendCtsToSelf v s =
     (let p = m_txParams s
      in do {
        pr \<leftarrow> m_protection p;
        (case pr_method pr of
           CTS_TO_SELF ctsTxVector \<Rightarrow> do {
             txDuration \<leftarrow> m_txDuration p;
             ack \<leftarrow> m_acknowledgment p;
             ackTime \<leftarrow> ak_time ack;
             duration \<leftarrow> GetCtsToSelfDurationId v s ctsTxVector txDuration ackTime;
             cts \<leftarrow> SetDuration duration (SetAddr1 (m_self s) (ctl_hdr WIFI_MAC_CTL_CTS));
             s \<leftarrow> ForwardMpduDown v (control_frame cts) ctsTxVector s;
             schedule (v_now v) (v_txTime v GetCtsSize ctsTxVector) EvProtectionCompleted s }
         | _ \<Rightarrow> None) })"

definition StartProtection :: "fem_env \<Rightarrow> station \<Rightarrow> station option" where
  "StartProtection v s =
     do { pr \<leftarrow> m_protection (m_txParams s);
          case pr_method pr of
            RTS_CTS _ _ \<Rightarrow> SendRts v s
          | CTS_TO_SELF _ \<Rightarrow> SendCtsToSelf v s
          | PROT_NONE \<Rightarrow> ProtectionCompleted v s }"

text \<open>\<open>ack_SetQosAckPolicy\<close> is \<^verbatim>\<open>WifiAckManager::SetQosAckPolicy\<close>.\<close>

definition ack_SetQosAckPolicy :: "acknowledgment \<Rightarrow> mpdu \<Rightarrow> mpdu option" where
  "ack_SetQosAckPolicy ack mpdu =
     (if \<not> IsQosData (mp_hdr mpdu) then Some mpdu
      else do { policy \<leftarrow> ak_policy ack (m_addr1 (mp_hdr mpdu)) (m_qosTid (mp_hdr mpdu));
                Some (mpdu\<lparr>mp_hdr := SetQosAckPolicy policy (mp_hdr mpdu)\<rparr>) })"

definition SendMpduWithProtection :: "fem_env \<Rightarrow> mpdu \<Rightarrow> tx_params \<Rightarrow> station \<Rightarrow> station option" where
  "SendMpduWithProtection v mpdu p s =
     do { pr \<leftarrow> m_protection p;
          ns_assert (pr_method pr = PROT_NONE \<or> IsCtl (mp_hdr mpdu) \<or> mp_queued mpdu);
          ack \<leftarrow> m_acknowledgment p;
          ack \<leftarrow> (if ak_time ack = None then CalculateAcknowledgmentTime v s ack else Some ack);
          mpdu \<leftarrow> ack_SetQosAckPolicy ack mpdu;
          let mpdu = (if mp_queued mpdu then mpdu\<lparr>mp_inFlight := True\<rparr> else mpdu)
          in StartProtection v (s\<lparr>m_mpdu := Some mpdu, m_txParams := p\<lparr>m_acknowledgment := Some ack\<rparr>\<rparr>) }"

section \<open>Fragments\<close>

definition GetFirstFragmentIfNeeded :: "fem_env \<Rightarrow> mpdu \<Rightarrow> station \<Rightarrow> (station \<times> mpdu) option" where
  "GetFirstFragmentIfNeeded v mpdu s =
     (if IsFragment mpdu then do { _ \<leftarrow> m_fragmentedPacket s; Some (s, mpdu) }
      else if v_needFragmentation v mpdu
      then let item = mpdu\<lparr>mp_payload := v_fragmentSize v mpdu, mp_hdr := SetMoreFragments (mp_hdr mpdu),
                       mp_inFlight := False, mp_hasSeqNo := False\<rparr>
           in Some (emit (Replace mpdu item) (s\<lparr>m_fragmentedPacket := Some (mp_payload mpdu)\<rparr>), item)
      else Some (s, mpdu))"

text \<open>
  The fragment number is stored in 8 bits; the sizes are 32-bit unsigned numbers, and
  \<^verbatim>\<open>CreateFragment\<close> fails if the fragment does not lie within the packet.
\<close>

definition GetNextFragment :: "station \<Rightarrow> mpdu option" where
  "GetNextFragment s =
     do { mpdu \<leftarrow> m_mpdu s;
          ns_assert (IsMoreFragments (mp_hdr mpdu));
          packetSize \<leftarrow> m_fragmentedPacket s;
          let hdr = SetFragmentNumber (m_seqFrag (mp_hdr mpdu) + 1) (mp_hdr mpdu);
              startOffset = unat (m_seqFrag hdr) * mp_payload mpdu;
              rest = unat (of_nat packetSize - of_nat startOffset :: u32);
              (fragment, hdr) = (if rest > mp_payload mpdu then (mp_payload mpdu, SetMoreFragments hdr)
                                 else (rest, SetNoMoreFragments hdr))
          in do { ns_assert (startOffset + fragment \<le> packetSize);
                  Some (mpdu\<lparr>mp_hdr := hdr, mp_payload := fragment, mp_inFlight := False, mp_hasSeqNo := False\<rparr>) } }"

end
