(* ===== verification/Frame_Exchange.thy ===== *)
theory Frame_Exchange
  imports Frame_Transmit
begin

text \<open>
  The frame exchanges of \<^verbatim>\<open>frame-exchange-manager.cc\<close> and
  \<^verbatim>\<open>qos-frame-exchange-manager.cc\<close>: the end of an exchange (success, failure, timeouts),
  the start of a transmission when access is granted, the continuation of a TXOP, PIFS recovery,
  CF-End, and the P-EDCA CTS-to-self with the contention that follows it.  The methods of the base
  class have the prefix \<open>fem_\<close> when the QoS manager overrides them.
\<close>

section \<open>Release of the channel\<close>

definition fem_NotifyChannelReleased :: "fem_env \<Rightarrow> nat option \<Rightarrow> station \<Rightarrow> station option" where
  "fem_NotifyChannelReleased v p s =
     do { s \<leftarrow> txop_Released v p s; Some (s\<lparr>m_protectedStas := {}\<rparr>) }"

section \<open>Success\<close>

definition fem_TransmissionSucceeded :: "fem_env \<Rightarrow> station \<Rightarrow> station option" where
  "fem_TransmissionSucceeded v s =
     (let s = s\<lparr>m_sentFrameTo := {}\<rparr>
      in if m_moreFragments s
         then do { phy \<leftarrow> m_phy s;
                   i \<leftarrow> m_dcf s;
                   s \<leftarrow> schedule (v_now v) (phy_sifs phy) (EvStartTransmission i (m_allowedWidth s)) s;
                   Some (s\<lparr>m_moreFragments := False\<rparr>) }
         else do { s \<leftarrow> fem_NotifyChannelReleased v (m_dcf s) s; Some (s\<lparr>m_dcf := None\<rparr>) })"

definition pedca_data_success :: "qlink \<Rightarrow> qlink" where
  "pedca_data_success l = (if l_pedcaMode l then ResetPedcaCounters (RecordPedcaSuccess l) else l)"

text \<open>Whether the TXOP goes on: the remaining time is asked for only under a TXOP limit.\<close>

definition txop_continues :: "fem_env \<Rightarrow> edcaf \<Rightarrow> station \<Rightarrow> bool option" where
  "txop_continues v e s =
     (if l_txopLimit (e_link e) > 0
      then do { remaining \<leftarrow> GetRemainingTxop (v_now v) (e_link e);
                phy \<leftarrow> m_phy s;
                Some (remaining > phy_sifs phy) }
      else Some False)"

definition TransmissionSucceeded :: "fem_env \<Rightarrow> station \<Rightarrow> station option" where
  "TransmissionSucceeded v s =
     (case m_edca s of
        None \<Rightarrow> fem_TransmissionSucceeded v s
      | Some i \<Rightarrow> do {
          s \<leftarrow> with_txop (Some i) (on_qlink pedca_data_success) s;
          e \<leftarrow> get_txop i s;
          continue \<leftarrow> txop_continues v e s;
          s \<leftarrow> (if continue
                then do { phy \<leftarrow> m_phy s;
                          s \<leftarrow> schedule (v_now v) (phy_sifs phy) (EvStartTxop i) s;
                          Some (if m_protectedIfResponded s
                                then s\<lparr>m_protectedStas := m_protectedStas s \<union> m_sentFrameTo s\<rparr> else s) }
                else do { s \<leftarrow> fem_NotifyChannelReleased v (Some i) s; Some (s\<lparr>m_edca := None\<rparr>) });
          Some (s\<lparr>m_initialFrame := False, m_sentFrameTo := {}\<rparr>) })"

section \<open>Failure\<close>

definition fem_TransmissionFailed :: "fem_env \<Rightarrow> bool \<Rightarrow> station \<Rightarrow> station option" where
  "fem_TransmissionFailed v forceCurrentCw s =
     do { s \<leftarrow> (if \<not> forceCurrentCw
                then with_txop (m_dcf s) (e_UpdateFailedCw (v_frameRetryLimit v) (v_now v)) s else Some s);
          let s = ResetTxNav (v_now v) (s\<lparr>m_sentFrameTo := {}\<rparr>);
          s \<leftarrow> fem_NotifyChannelReleased v (m_dcf s) s;
          Some (s\<lparr>m_dcf := None\<rparr>) }"

definition pedca_data_failure :: "qos_cfg \<Rightarrow> qlink \<Rightarrow> qlink" where
  "pedca_data_failure cfg l =
     (if l_pedcaMode l then RecordPedcaFailure (SetPedcaAfterCts False l)
      else IncrementPedcaTriggerCount cfg l)"

definition TransmissionFailed :: "fem_env \<Rightarrow> bool \<Rightarrow> station \<Rightarrow> station option" where
  "TransmissionFailed v forceCurrentCw s =
     (let failedCw = (\<lambda>i. if forceCurrentCw then Some
                      else with_txop (Some i) (e_UpdateFailedCw (v_frameRetryLimit v) (v_now v)))
      in case m_edca s of
        None \<Rightarrow> fem_TransmissionFailed v forceCurrentCw s
      | Some i \<Rightarrow> do {
          s \<leftarrow> with_txop (Some i) (\<lambda>e. on_qlink (pedca_data_failure (e_cfg e)) e) s;
          s \<leftarrow> (if m_initialFrame s
                then do { s \<leftarrow> failedCw i s;
                          s \<leftarrow> fem_NotifyChannelReleased v (Some i) s;
                          Some (s\<lparr>m_edca := None\<rparr>) }
                else do {
                  let s = s\<lparr>m_protectedStas := m_protectedStas s - m_staExpectResponseFrom (m_txTimer s)\<rparr>;
                  e \<leftarrow> get_txop i s;
                  ns_assert (l_txopLimit (e_link e) > 0);
                  (if m_pifsRecovery s
                   then do { ns_assert (m_pifsRecoveryEvent s = None);
                             phy \<leftarrow> m_phy s;
                             ns_assert (phy_pifs phy \<ge> 0);
                             Some (s\<lparr>m_pifsRecoveryEvent := Some (v_now v + phy_pifs phy, forceCurrentCw)\<rparr>) }
                   else do { s \<leftarrow> base_NotifyChannelReleased v (Some i) s;
                             s \<leftarrow> failedCw i s;
                             Some (s\<lparr>m_edcaBackingOff := Some i, m_edca := None\<rparr>) }) });
          Some (ResetTxNav (v_now v) (s\<lparr>m_initialFrame := False, m_sentFrameTo := {}\<rparr>)) })"

section \<open>Timeouts\<close>

text \<open>Whether the MPDU reached a retry limit, and the state in which it was then dropped.\<close>

definition DropMpduIfRetryLimitReached :: "fem_env \<Rightarrow> mpdu \<Rightarrow> station \<Rightarrow> station \<times> bool" where
  "DropMpduIfRetryLimitReached v mpdu s =
     (if v_retryLimitReached v mpdu then (DequeueMpdu mpdu (emit (Discard mpdu) s), True) else (s, False))"

definition NormalAckTimeout :: "fem_env \<Rightarrow> mpdu \<Rightarrow> tx_vector \<Rightarrow> station \<Rightarrow> station option" where
  "NormalAckTimeout v mpdu txVector s =
     (let (s, dropped) = DropMpduIfRetryLimitReached v mpdu s;
          s = (if mp_queued mpdu \<and> \<not> dropped
               then emit (Retransmit (mpdu\<lparr>mp_inFlight := False, mp_hdr := SetRetry (mp_hdr mpdu)\<rparr>)) s
               else s)
      in TransmissionFailed v False (s\<lparr>m_mpdu := None\<rparr>))"

definition ReleaseSequenceNumbers :: "mpdu \<Rightarrow> station \<Rightarrow> station option" where
  "ReleaseSequenceNumbers mpdu s =
     (if \<not> IsRetry (mp_hdr mpdu) \<and> \<not> mp_inFlight mpdu
      then do { m \<leftarrow> SetSequenceNumberFor (mp_hdr mpdu) (m_txMiddle s);
                Some (emit (SeqNoReleased mpdu) (s\<lparr>m_txMiddle := m\<rparr>)) }
      else Some s)"

definition DoCtsTimeout :: "fem_env \<Rightarrow> mpdu \<Rightarrow> station \<Rightarrow> station option" where
  "DoCtsTimeout v mpdu s =
     do { let s = s\<lparr>m_sentRtsTo := {}\<rparr>;
          let mpdu = (if mp_queued mpdu then mpdu\<lparr>mp_inFlight := False\<rparr> else mpdu);
          let s = (if \<not> mac_IsGroup (v_recipient v (mp_hdr mpdu))
                   then fst (DropMpduIfRetryLimitReached v mpdu s) else s);
          s \<leftarrow> ReleaseSequenceNumbers mpdu s;
          TransmissionFailed v False s }"

definition CtsTimeout :: "fem_env \<Rightarrow> station \<Rightarrow> station option" where
  "CtsTimeout v s =
     do { mpdu \<leftarrow> m_mpdu s; s \<leftarrow> DoCtsTimeout v mpdu s; Some (s\<lparr>m_mpdu := None\<rparr>) }"

section \<open>Internal collisions\<close>

definition NotifyInternalCollision :: "fem_env \<Rightarrow> nat \<Rightarrow> station \<Rightarrow> station option" where
  "NotifyInternalCollision v i s =
     do { let s = (case v_peek v i of
                     Some mpdu \<Rightarrow> if \<not> mac_IsGroup (m_addr1 (mp_hdr mpdu))
                                  then fst (DropMpduIfRetryLimitReached v mpdu s) else s
                   | None \<Rightarrow> s);
          s \<leftarrow> with_txop (Some i) (e_UpdateFailedCw (v_frameRetryLimit v) (v_now v)) s;
          base_NotifyChannelReleased v (Some i) s }"

section \<open>Start of a transmission by a DCF\<close>

definition stop_timer :: "station \<Rightarrow> station" where
  "stop_timer s = (if timer_IsRunning (m_txTimer s) then s\<lparr>m_txTimer := timer_Cancel (m_txTimer s)\<rparr> else s)"

text \<open>A number drawn from the counters of the transmit path is stored in the header.\<close>

definition AssignSeqNo :: "mpdu \<Rightarrow> station \<Rightarrow> (station \<times> mpdu) option" where
  "AssignSeqNo mpdu s =
     do { (m, n) \<leftarrow> GetNextSequenceNumberFor (mp_hdr mpdu) (m_txMiddle s);
          Some (s\<lparr>m_txMiddle := m\<rparr>,
                mpdu\<lparr>mp_hdr := SetSequenceNumber (of_nat n) (mp_hdr mpdu), mp_hasSeqNo := True\<rparr>) }"

definition fem_StartTransmission :: "fem_env \<Rightarrow> nat \<Rightarrow> nat \<Rightarrow> station \<Rightarrow> (station \<times> bool) option" where
  "fem_StartTransmission v i allowedWidth s =
     do { ns_assert (m_mpdu s = None);
          let s = (stop_timer s)\<lparr>m_dcf := Some i, m_allowedWidth := allowedWidth\<rparr>;
          case v_peek v i of
            None \<Rightarrow> do { s \<leftarrow> fem_NotifyChannelReleased v (Some i) s; Some (s\<lparr>m_dcf := None\<rparr>, False) }
          | Some mpdu \<Rightarrow> do {
              s \<leftarrow> with_txop (Some i) (e_NotifyChannelAccessed (v_now v) 0) s;
              ns_assert (IsData (mp_hdr mpdu) \<or> IsMgt (mp_hdr mpdu));
              (s, mpdu) \<leftarrow> (if \<not> IsFragment mpdu \<and> \<not> IsRetry (mp_hdr mpdu) then AssignSeqNo mpdu s
                            else Some (s, mpdu));
              (s, mpdu) \<leftarrow> GetFirstFragmentIfNeeded v mpdu s;
              let p = WifiTxParameters\<lparr>m_txVector := v_dataTxVector v (mp_hdr mpdu) (m_allowedWidth s)\<rparr>;
              p \<leftarrow> AddMpdu mpdu p;
              let p = UpdateTxDuration v (m_addr1 (mp_hdr mpdu)) p;
              let p = p\<lparr>m_protection := v_tryProtection v mpdu p\<rparr>;
              let p = p\<lparr>m_acknowledgment := v_tryAck v mpdu p\<rparr>;
              s \<leftarrow> SendMpduWithProtection v mpdu p s;
              Some (s, True) } }"

section \<open>The frames of a TXOP\<close>

text \<open>
  \<^verbatim>\<open>QosTxop::GetNextMpdu\<close>: the initial frame of a TXOP may exceed the TXOP limit, if it is
  the first in its PPDU.  The A-MSDU aggregation, and the check that the frame lies in the window of
  its block ack agreement, are those of the HT manager.
\<close>

definition AssignSequenceNumber :: "mpdu \<Rightarrow> station \<Rightarrow> (station \<times> mpdu) option" where
  "AssignSequenceNumber mpdu s =
     (if \<not> IsFragment mpdu \<and> \<not> mp_hasSeqNo mpdu then AssignSeqNo mpdu s else Some (s, mpdu))"

definition GetNextMpdu ::
  "fem_env \<Rightarrow> mpdu \<Rightarrow> tx_params \<Rightarrow> time \<Rightarrow> bool \<Rightarrow> station \<Rightarrow> (station \<times> tx_params \<times> mpdu option) option" where
  "GetNextMpdu v peeked p availableTime initialFrame s =
     do { let actualAvailableTime =
            (if initialFrame \<and> tp_GetSize (m_addr1 (mp_hdr peeked)) p = 0 then TimeMin else availableTime);
          (p, added) \<leftarrow> TryAddMpdu v s peeked p actualAvailableTime;
          (if \<not> added then Some (s, p, None)
           else do {
             ns_assert (mp_queued peeked);
             let (mpdu, p) = (case (if IsQosData (mp_hdr peeked) then v_aggregateMsdu v peeked p availableTime
                                    else None) of
                                Some r \<Rightarrow> r | None \<Rightarrow> (peeked, p))
             in do { (s, mpdu) \<leftarrow> AssignSequenceNumber mpdu s; Some (s, p, Some mpdu) } }) }"

text \<open>The protection of a frame that was fragmented is that of its first fragment.\<close>

definition StartFrameExchange :: "fem_env \<Rightarrow> nat \<Rightarrow> time \<Rightarrow> bool \<Rightarrow> station \<Rightarrow> (station \<times> bool) option" where
  "StartFrameExchange v i availableTime initialFrame s =
     (case v_peek v i of
        None \<Rightarrow> Some (s, False)
      | Some mpdu \<Rightarrow> do {
          let p = WifiTxParameters\<lparr>m_txVector := v_dataTxVector v (mp_hdr mpdu) (m_allowedWidth s)\<rparr>;
          (s, p, next) \<leftarrow> GetNextMpdu v mpdu p availableTime initialFrame s;
          (case next of
             None \<Rightarrow> Some (s, False)
           | Some item \<Rightarrow> do {
               ns_assert (\<not> IsQosData (mp_hdr item) \<or> \<not> IsQosAmsdu (mp_hdr item));
               (s, item) \<leftarrow> GetFirstFragmentIfNeeded v item s;
               p \<leftarrow> (if IsFragment item \<and> mpdu_GetSize item \<noteq> mpdu_GetSize mpdu
                     then do { fp \<leftarrow> AddMpdu item (WifiTxParameters\<lparr>m_txVector := m_txVector p\<rparr>);
                               pr \<leftarrow> v_tryProtection v item (UpdateTxDuration v (m_addr1 (mp_hdr item)) fp);
                               Some (p\<lparr>m_protection := Some pr\<rparr>) }
                     else Some p);
               s \<leftarrow> SendMpduWithProtection v item p s;
               Some (s, True) }) })"

section \<open>P-EDCA\<close>

text \<open>
  The CTS-to-self, and the contention with the regular EDCA parameters that follows it, to which
  the voice function is released when the CTS has been sent.
\<close>

definition SendPedcaCtsAndRecontend :: "fem_env \<Rightarrow> nat \<Rightarrow> station \<Rightarrow> (station \<times> bool) option" where
  "SendPedcaCtsAndRecontend v i s =
     do { phy \<leftarrow> m_phy s;
          s \<leftarrow> with_txop (Some i) (e_NotifyChannelAccessed (v_now v) 0) s;
          let ctsTxVector = v_ctsToSelfTxVector v;
          e \<leftarrow> get_txop i s;
          let edcaDeferWindow = phy_slot phy * uint (GetEdcaAifsn (v_now v) (e_link e));
          duration \<leftarrow> GetCtsToSelfDurationId v s ctsTxVector edcaDeferWindow 0;
          cts \<leftarrow> SetDuration duration (SetAddr1 (m_self s) (ctl_hdr WIFI_MAC_CTL_CTS));
          s \<leftarrow> ForwardMpduDown v (control_frame cts) ctsTxVector s;
          s \<leftarrow> with_txop (Some i) (on_qlink IncrementPsrcCount) s;
          s \<leftarrow> with_txop (Some i) (on_qlink (SetPedcaAfterCts True)) s;
          s \<leftarrow> schedule (v_now v) (v_txTime v GetCtsSize ctsTxVector) (EvPedcaRelease i) s;
          Some (s, True) }"

definition PedcaRelease :: "fem_env \<Rightarrow> nat \<Rightarrow> station \<Rightarrow> station option" where
  "PedcaRelease v i s =
     do { s \<leftarrow> fem_NotifyChannelReleased v (Some i) s; Some (s\<lparr>m_edca := None, m_dcf := None\<rparr>) }"

end
