(* ===== verification/Qos_Exchange.thy ===== *)
theory Qos_Exchange
  imports Frame_Exchange
begin

text \<open>
  \<^verbatim>\<open>qos-frame-exchange-manager.cc\<close>: the start of a transmission by an EDCA function, which
  starts, continues or ends a TXOP or runs the P-EDCA CTS-to-self; PIFS recovery and CF-End.
\<close>

section \<open>The end of a TXOP\<close>

definition SendCfEndIfNeeded :: "fem_env \<Rightarrow> station \<Rightarrow> (station \<times> bool) option" where
  "SendCfEndIfNeeded v s =
     do { i \<leftarrow> m_edca s;
          _ \<leftarrow> m_phy s;
          hdr \<leftarrow> SetDuration 0 (SetAddr2 (m_self s) (SetAddr1 mac_broadcast (ctl_hdr WIFI_MAC_CTL_END)));
          let txVector = v_rtsTxVector v mac_broadcast (m_allowedWidth s);
          let txDuration = v_txTime v (mpdu_GetSize (control_frame hdr)) txVector;
          (if m_txNav s > v_now v + txDuration
           then do { s \<leftarrow> ForwardMpduDown v (control_frame hdr) txVector s;
                     s \<leftarrow> schedule (v_now v) txDuration (EvChannelReleased i) s;
                     Some (ResetTxNav (v_now v) s, True) }
           else do { s \<leftarrow> fem_NotifyChannelReleased v (Some i) s; Some (s\<lparr>m_edca := None\<rparr>, False) }) }"

section \<open>The start of a transmission\<close>

definition CancelPifsRecovery :: "fem_env \<Rightarrow> station \<Rightarrow> station option" where
  "CancelPifsRecovery v s =
     do { ns_assert (m_pifsRecoveryEvent s \<noteq> None);
          i \<leftarrow> m_edca s;
          fem_NotifyChannelReleased v (Some i) (s\<lparr>m_pifsRecoveryEvent := None\<rparr>) }"

definition abort_pifs :: "fem_env \<Rightarrow> station \<Rightarrow> station option" where
  "abort_pifs v s = (if m_pifsRecoveryEvent s \<noteq> None then CancelPifsRecovery v s else Some s)"

text \<open>The function that went through a backoff in its TXOP is served again.\<close>

definition end_backing_off :: "edcaf \<Rightarrow> station \<Rightarrow> station option" where
  "end_backing_off e s =
     do { ns_assert (l_txopLimit (e_link e) > 0);
          ns_assert (l_startTxop (e_link e) \<noteq> None);
          ns_assert (\<not> m_pifsRecovery s);
          ns_assert (\<not> m_initialFrame s);
          Some (s\<lparr>m_edcaBackingOff := None\<rparr>) }"

definition not_started :: "fem_env \<Rightarrow> nat \<Rightarrow> station \<Rightarrow> (station \<times> bool) option" where
  "not_started v i s =
     do { s \<leftarrow> fem_NotifyChannelReleased v (Some i) s; Some (s\<lparr>m_edca := None\<rparr>, False) }"

text \<open>With a TXOP limit: a new TXOP, or a further frame of the one that has been started.\<close>

definition limited_txop :: "fem_env \<Rightarrow> nat \<Rightarrow> edcaf \<Rightarrow> time \<Rightarrow> bool \<Rightarrow> station \<Rightarrow> (station \<times> bool) option" where
  "limited_txop v i e txopDuration backingOff s =
     do { new \<leftarrow> (if l_startTxop (e_link e) = None then Some True
                 else if backingOff
                 then map_option (\<lambda>r. r = 0) (GetRemainingTxop (v_now v) (e_link e))
                 else Some False);
          (if new
           then do { s \<leftarrow> with_txop (Some i) (e_NotifyChannelAccessed (v_now v) txopDuration) s;
                     (s, started) \<leftarrow> StartFrameExchange v i txopDuration True s;
                     (if started then Some (s\<lparr>m_initialFrame := True\<rparr>, True) else not_started v i s) }
           else do { ns_assert (\<not> m_initialFrame s);
                     remaining \<leftarrow> GetRemainingTxop (v_now v) (e_link e);
                     (s, started) \<leftarrow> StartFrameExchange v i remaining False s;
                     (if started then Some (s, True) else SendCfEndIfNeeded v s) }) }"

definition unlimited_txop :: "fem_env \<Rightarrow> nat \<Rightarrow> station \<Rightarrow> (station \<times> bool) option" where
  "unlimited_txop v i s =
     do { (s, started) \<leftarrow> StartFrameExchange v i TimeMin True (s\<lparr>m_initialFrame := True\<rparr>);
          (if started
           then do { s \<leftarrow> with_txop (Some i) (e_NotifyChannelAccessed (v_now v) 0) s; Some (s, True) }
           else not_started v i s) }"

definition qos_StartTransmission :: "fem_env \<Rightarrow> nat \<Rightarrow> time \<Rightarrow> station \<Rightarrow> (station \<times> bool) option" where
  "qos_StartTransmission v i txopDuration s =
     do { s \<leftarrow> abort_pifs v s;
          let s = (stop_timer s)\<lparr>m_dcf := Some i, m_edca := Some i\<rparr>;
          e \<leftarrow> get_txop i s;
          let ctsPending = snd (ConsumePedcaCtsPending (e_link e));
          s \<leftarrow> with_txop (Some i) (on_qlink (fst \<circ> ConsumePedcaCtsPending)) s;
          (if ctsPending then SendPedcaCtsAndRecontend v i s
           else do {
             e \<leftarrow> get_txop i s;
             let backingOff = (m_edcaBackingOff s = Some i);
             s \<leftarrow> (if backingOff then end_backing_off e s else Some s);
             (if l_txopLimit (e_link e) > 0 then limited_txop v i e txopDuration backingOff s
              else unlimited_txop v i s) }) }"

definition StartTransmission :: "fem_env \<Rightarrow> nat \<Rightarrow> nat \<Rightarrow> station \<Rightarrow> (station \<times> bool) option" where
  "StartTransmission v i allowedWidth s =
     do { s \<leftarrow> abort_pifs v s;
          e \<leftarrow> get_txop i s;
          (if \<not> e_qos e then fem_StartTransmission v i allowedWidth (s\<lparr>m_edca := None\<rparr>)
           else do {
             s \<leftarrow> with_txop (Some i)
                    (\<lambda>e. do { l \<leftarrow> UpdateRandomTxopLimit (e_cfg e) (v_sampleTxopLimit v) (e_link e);
                              Some (e\<lparr>e_link := l\<rparr>) }) (s\<lparr>m_allowedWidth := allowedWidth\<rparr>);
             e \<leftarrow> get_txop i s;
             qos_StartTransmission v i (l_txopLimit (e_link e)) s }) }"

section \<open>PIFS recovery\<close>

text \<open>The event, which is not pending any more.\<close>

definition PifsRecovery :: "fem_env \<Rightarrow> bool \<Rightarrow> station \<Rightarrow> station option" where
  "PifsRecovery v forceCurrentCw s0 =
     do { let s = s0\<lparr>m_pifsRecoveryEvent := None\<rparr>;
          i \<leftarrow> m_edca s;
          e \<leftarrow> get_txop i s;
          ns_assert (l_startTxop (e_link e) \<noteq> None);
          phy \<leftarrow> m_phy s;
          (s, width) \<leftarrow> GetLargestIdlePrimaryChannel (v_now v) (phy_pifs phy) (v_now v) s;
          let s = s\<lparr>m_allowedWidth := min (m_allowedWidth s) width\<rparr>;
          (if m_allowedWidth s = 0
           then do { s \<leftarrow> fem_NotifyChannelReleased v (Some i) s;
                     s \<leftarrow> (if \<not> forceCurrentCw
                           then with_txop (Some i) (e_UpdateFailedCw (v_frameRetryLimit v) (v_now v)) s
                           else Some s);
                     Some (s\<lparr>m_edca := None\<rparr>) }
           else map_option fst (qos_StartTransmission v i 0 s)) }"

end
