(* ===== verification/Frame_Receive.thy ===== *)
theory Frame_Receive
  imports Frame_Exchange
begin

text \<open>
  Reception, of \<^verbatim>\<open>frame-exchange-manager.cc\<close> and \<^verbatim>\<open>qos-frame-exchange-manager.cc\<close>: the
  NAV and the TXOP holder, responses that are waited for, frames that are answered; and the resets.
\<close>

section \<open>The network allocation vector\<close>

definition VirtualCsMediumIdle :: "time \<Rightarrow> station \<Rightarrow> bool" where
  "VirtualCsMediumIdle now s \<longleftrightarrow> m_navEnd s \<le> now"

definition ClearTxopHolderIfNeeded :: "time \<Rightarrow> station \<Rightarrow> station" where
  "ClearTxopHolderIfNeeded now s = (if m_navEnd s \<le> now then s\<lparr>m_txopHolder := None\<rparr> else s)"

definition FindTxopHolder :: "mac48 \<Rightarrow> mac_hdr \<Rightarrow> mac48 option option" where
  "FindTxopHolder bssid hdr =
     do { rts \<leftarrow> IsRts hdr; bar \<leftarrow> IsBlockAckReq hdr; cts \<leftarrow> IsCts hdr;
          Some (if (IsQosData hdr \<or> IsMgt hdr \<or> rts \<or> bar) \<and> (m_addr1 hdr = bssid \<or> m_addr2 hdr = bssid)
                then Some (m_addr2 hdr)
                else if cts \<and> m_addr1 hdr = bssid then Some (m_addr1 hdr)
                else None) }"

definition SetTxopHolder :: "mac_hdr \<Rightarrow> station \<Rightarrow> station option" where
  "SetTxopHolder hdr s =
     do { holder \<leftarrow> FindTxopHolder (m_bssid s) hdr;
          Some (case holder of Some a \<Rightarrow> s\<lparr>m_txopHolder := Some a\<rparr> | None \<Rightarrow> s) }"

text \<open>The event, which is not pending any more when the timeout is called by it.\<close>

definition fem_NavResetTimeout :: "time \<Rightarrow> station \<Rightarrow> station option" where
  "fem_NavResetTimeout now s = cam_calls (NotifyNavResetNow now 0 (s\<lparr>m_navEnd := now\<rparr>))"

definition NavResetTimeout :: "time \<Rightarrow> station \<Rightarrow> station option" where
  "NavResetTimeout now s = do { s \<leftarrow> fem_NavResetTimeout now s; Some (ClearTxopHolderIfNeeded now s) }"

definition nav_reset_delay :: "fem_env \<Rightarrow> phy \<Rightarrow> mac_hdr \<Rightarrow> tx_vector \<Rightarrow> time" where
  "nav_reset_delay v phy hdr txVector =
     (let ctsTxVector = v_ctsTxVector v (m_addr2 hdr) (tv_mode txVector)
      in 2 * phy_sifs phy + v_txTime v GetCtsSize ctsTxVector + v_preambleTime v ctsTxVector
         + 2 * phy_slot phy)"

definition fem_UpdateNav :: "fem_env \<Rightarrow> mac_hdr \<Rightarrow> tx_vector \<Rightarrow> time \<Rightarrow> station \<Rightarrow> station option" where
  "fem_UpdateNav v hdr txVector surplus s =
     (let duration = GetDuration hdr + surplus; navEnd = v_now v + duration
      in if \<not> HasNav hdr then Some s
         else if m_addr1 hdr = m_self s then Some s
         else do {
           s \<leftarrow> (if navEnd > m_navEnd s
                 then do {
                   rts \<leftarrow> IsRts hdr;
                   (if rts
                    then do { phy \<leftarrow> m_phy s;
                              ns_assert (nav_reset_delay v phy hdr txVector \<ge> 0);
                              Some (s\<lparr>m_navEnd := navEnd,
                                      m_navResetEvent := Some (v_now v + nav_reset_delay v phy hdr txVector)\<rparr>) }
                    else Some (s\<lparr>m_navEnd := navEnd\<rparr>)) }
                 else Some s);
           NotifyNavStartNow (v_now v) duration s })"

definition UpdateNav :: "fem_env \<Rightarrow> mac_hdr \<Rightarrow> tx_vector \<Rightarrow> time \<Rightarrow> station \<Rightarrow> station option" where
  "UpdateNav v hdr txVector surplus s =
     do { cfEnd \<leftarrow> IsCfEnd hdr;
          if cfEnd then NavResetTimeout (v_now v) s else fem_UpdateNav v hdr txVector surplus s }"

section \<open>The course of a reception\<close>

definition PSDU_DURATION_SAFEGUARD :: time where
  "PSDU_DURATION_SAFEGUARD = 400"

definition RxStartIndication :: "fem_env \<Rightarrow> tx_vector \<Rightarrow> time \<Rightarrow> station \<Rightarrow> station option" where
  "RxStartIndication v txVector psduDuration s =
     do { ns_assert (\<not> timer_IsRunning (m_txTimer s) \<or> m_navResetEvent s = None);
          s \<leftarrow> (if timer_IsRunning (m_txTimer s) \<and> psduDuration > 0
                then do { timer \<leftarrow> timer_Reschedule (psduDuration + PSDU_DURATION_SAFEGUARD) (v_now v) (m_txTimer s);
                          cam_calls (NotifyAckTimeoutResetNow (v_now v) (s\<lparr>m_txTimer := timer\<rparr>)) }
                else Some s);
          Some (s\<lparr>m_navResetEvent := None,
                  m_ongoingRxInfo := \<lparr>rx_macHdr = None, rx_txVector = txVector,
                                      rx_endOfPsduRx = v_now v + psduDuration\<rparr>\<rparr>) }"

definition ReceivedMacHdr :: "fem_env \<Rightarrow> mac_hdr \<Rightarrow> tx_vector \<Rightarrow> time \<Rightarrow> station \<Rightarrow> station option" where
  "ReceivedMacHdr v hdr txVector psduDuration s =
     do { let s = s\<lparr>m_ongoingRxInfo := \<lparr>rx_macHdr = Some hdr, rx_txVector = txVector,
                                         rx_endOfPsduRx = v_now v + psduDuration\<rparr>\<rparr>;
          s \<leftarrow> UpdateNav v hdr txVector psduDuration s;
          SetTxopHolder hdr s }"

definition GetOngoingRxInfo :: "time \<Rightarrow> station \<Rightarrow> rx_info option" where
  "GetOngoingRxInfo now s =
     (if rx_endOfPsduRx (m_ongoingRxInfo s) \<ge> now then Some (m_ongoingRxInfo s) else None)"

definition GetReceivedMacHdr :: "time \<Rightarrow> station \<Rightarrow> mac_hdr option" where
  "GetReceivedMacHdr now s = do { info \<leftarrow> GetOngoingRxInfo now s; rx_macHdr info }"

text \<open>An AP stores the buffer status that its stations report.\<close>

fun buffer_reports :: "mpdu list \<Rightarrow> station \<Rightarrow> station option" where
  "buffer_reports [] s = Some s"
| "buffer_reports (m # ms) s =
     (let hdr = mp_hdr m
      in if IsQosData hdr \<and> IsQosEosp hdr
         then do { n \<leftarrow> GetQosQueueSize hdr;
                   buffer_reports ms (emit (ReportBufferStatus (m_qosTid hdr) (m_addr2 hdr) n) s) }
         else buffer_reports ms s)"

definition PreProcessFrame :: "fem_env \<Rightarrow> mpdu list \<Rightarrow> station \<Rightarrow> station option" where
  "PreProcessFrame v psdu s =
     do { s \<leftarrow> (if v_isAp v \<and> m_addr1 (mp_hdr (hd psdu)) = m_self s then buffer_reports psdu s else Some s);
          Some (ClearTxopHolderIfNeeded (v_now v) s) }"

definition PostProcessFrame :: "fem_env \<Rightarrow> mpdu list \<Rightarrow> tx_vector \<Rightarrow> station \<Rightarrow> station option" where
  "PostProcessFrame v psdu txVector s =
     do { s \<leftarrow> SetTxopHolder (mp_hdr (hd psdu)) s;
          UpdateNav v (mp_hdr (hd psdu)) txVector 0 s }"

section \<open>Frames that are received\<close>

definition schedule_cts :: "fem_env \<Rightarrow> mac_hdr \<Rightarrow> tx_vector \<Rightarrow> station \<Rightarrow> station option" where
  "schedule_cts v hdr txVector s =
     do { phy \<leftarrow> m_phy s;
          ns_assert (phy_sifs phy \<ge> 0);
          Some (s\<lparr>m_sendCtsEvent := Some (v_now v + phy_sifs phy, hdr, txVector)\<rparr>) }"

definition schedule_ack :: "fem_env \<Rightarrow> mac_hdr \<Rightarrow> tx_vector \<Rightarrow> station \<Rightarrow> station option" where
  "schedule_ack v hdr txVector s =
     do { phy \<leftarrow> m_phy s; schedule (v_now v) (phy_sifs phy) (EvSendNormalAck hdr txVector) s }"

definition ReceivedNormalAck :: "fem_env \<Rightarrow> mpdu \<Rightarrow> station \<Rightarrow> station option" where
  "ReceivedNormalAck v mpdu s =
     do { let timer = timer_Cancel (timer_GotResponseFrom (m_addr1 (mp_hdr mpdu)) (m_txTimer s));
          s \<leftarrow> cam_calls (NotifyAckTimeoutResetNow (v_now v) (s\<lparr>m_txTimer := timer\<rparr>));
          s \<leftarrow> with_txop (m_dcf s) (e_ResetCw (v_now v)) s;
          s \<leftarrow> (if IsMoreFragments (mp_hdr mpdu)
                then do { next \<leftarrow> GetNextFragment s;
                          Some (emit (Replace mpdu next) (s\<lparr>m_moreFragments := True\<rparr>)) }
                else Some (DequeueMpdu mpdu s));
          TransmissionSucceeded v s }"

text \<open>A CTS that was waited for: the RTS succeeded.\<close>

definition ReceivedCts :: "fem_env \<Rightarrow> station \<Rightarrow> station option" where
  "ReceivedCts v s =
     do { s \<leftarrow> cam_calls (NotifyCtsTimeoutResetNow (v_now v) (s\<lparr>m_txTimer := timer_Cancel (m_txTimer s)\<rparr>));
          ProtectionCompleted v s }"

definition receive_ctl :: "fem_env \<Rightarrow> mpdu \<Rightarrow> tx_vector \<Rightarrow> bool \<Rightarrow> station \<Rightarrow> station option" where
  "receive_ctl v mpdu txVector inAmpdu s =
     (let hdr = mp_hdr mpdu;
          waiting = (\<lambda>reason. timer_IsRunning (m_txTimer s) \<and> m_reason (m_txTimer s) = reason \<and> m_mpdu s \<noteq> None)
      in do {
        rts \<leftarrow> IsRts hdr; cts \<leftarrow> IsCts hdr; ack \<leftarrow> IsAck hdr;
        (if rts
         then do { ns_assert (\<not> inAmpdu);
                   if VirtualCsMediumIdle (v_now v) s then schedule_cts v hdr txVector s else Some s }
         else if cts \<and> waiting WAIT_CTS
         then do { ns_assert (\<not> inAmpdu);
                   ns_assert (m_addr1 hdr = m_self s);
                   ReceivedCts v s }
         else if ack \<and> waiting WAIT_NORMAL_ACK
         then do { ns_assert (m_addr1 hdr = m_self s);
                   current \<leftarrow> m_mpdu s;
                   s \<leftarrow> ReceivedNormalAck v current s;
                   Some (s\<lparr>m_mpdu := None\<rparr>) }
         else Some s) })"

definition fem_ReceiveMpdu :: "fem_env \<Rightarrow> mpdu \<Rightarrow> tx_vector \<Rightarrow> bool \<Rightarrow> station \<Rightarrow> station option" where
  "fem_ReceiveMpdu v mpdu txVector inAmpdu s =
     (let hdr = mp_hdr mpdu
      in do {
        ns_assert (mac_IsGroup (m_addr1 hdr) \<or> m_addr1 hdr = m_self s);
        (if IsCtl hdr then receive_ctl v mpdu txVector inAmpdu s
         else if IsMgt hdr \<or> (IsData hdr \<and> \<not> IsQosData hdr)
         then do { ns_assert (IsMgt hdr \<longrightarrow> \<not> inAmpdu);
                   s \<leftarrow> (if m_addr1 hdr = m_self s then schedule_ack v hdr txVector s else Some s);
                   Some (emit (RxMiddleReceive mpdu) s) }
         else Some s) })"

definition ReceiveMpdu :: "fem_env \<Rightarrow> mpdu \<Rightarrow> tx_vector \<Rightarrow> bool \<Rightarrow> station \<Rightarrow> station option" where
  "ReceiveMpdu v mpdu txVector inAmpdu s =
     (let hdr = mp_hdr mpdu
      in do {
        ns_assert (mac_IsGroup (m_addr1 hdr) \<or> m_addr1 hdr = m_self s);
        rts \<leftarrow> IsRts hdr;
        (if rts
         then do { ns_assert (\<not> inAmpdu);
                   if Some (m_addr2 hdr) = m_txopHolder s \<or> VirtualCsMediumIdle (v_now v) s
                   then schedule_cts v hdr txVector s else Some s }
         else if IsQosData hdr
         then do { policy \<leftarrow> (if m_addr1 hdr = m_self s then map_option Some (GetQosAckPolicy hdr) else Some None);
                   s \<leftarrow> (if policy = Some NORMAL_ACK then schedule_ack v hdr txVector s else Some s);
                   Some (emit (RxMiddleReceive mpdu) s) }
         else fem_ReceiveMpdu v mpdu txVector inAmpdu s) })"

text \<open>
  \<open>perMpduStatus\<close> is empty for an MPDU of an A-MPDU.  A PSDU of several MPDUs is received by the
  HT manager.
\<close>

definition Receive :: "fem_env \<Rightarrow> mpdu list \<Rightarrow> tx_vector \<Rightarrow> bool list \<Rightarrow> station \<Rightarrow> station option" where
  "Receive v psdu txVector perMpduStatus s =
     do { ns_assert (psdu \<noteq> []);
          let addr1 = m_addr1 (mp_hdr (hd psdu));
          s \<leftarrow> (if perMpduStatus \<noteq> [] then PreProcessFrame v psdu s else Some s);
          s \<leftarrow> (if mac_IsGroup addr1 \<or> addr1 = m_self s
                then do { ns_assert (length psdu = 1);
                          ns_assert (perMpduStatus = [] \<or> perMpduStatus = [True]);
                          ReceiveMpdu v (hd psdu) txVector (perMpduStatus = []) s }
                else if m_promisc s
                then Some (fold (\<lambda>m s. if \<not> IsCtl (mp_hdr m) then emit (RxMiddleReceive m) s else s) psdu s)
                else Some s);
          (if perMpduStatus \<noteq> [] then PostProcessFrame v psdu txVector s else Some s) }"

section \<open>Resets\<close>

definition Reset :: "time \<Rightarrow> station \<Rightarrow> station" where
  "Reset now s =
     s\<lparr>m_txTimer := timer_Cancel (m_txTimer s), m_navResetEvent := None, m_sendCtsEvent := None,
       m_navEnd := now, m_mpdu := None, m_txParams := tp_Clear (m_txParams s),
       m_ongoingRxInfo := (m_ongoingRxInfo s)\<lparr>rx_macHdr := None, rx_endOfPsduRx := 0\<rparr>, m_dcf := None\<rparr>"

definition fem_NotifySwitchingStartNow :: "time \<Rightarrow> time \<Rightarrow> station \<Rightarrow> station option" where
  "fem_NotifySwitchingStartNow now duration s =
     do { s \<leftarrow> schedule now duration EvChannelSwitching s;
          timer \<leftarrow> timer_Reschedule 0 now (m_txTimer s);
          schedule now 0 EvReset (s\<lparr>m_txTimer := timer\<rparr>) }"

end
