(* ===== verification/Station_Invariants.thy ===== *)
theory Station_Invariants
  imports Channel_Invariants Qos_Exchange Frame_Receive
begin

text \<open>
  The invariant of a station: a property \<open>P\<close> of the P-EDCA states of its EDCA functions that the
  P-EDCA operations preserve (the locale \<open>station_invariant\<close>); the channel access manager counts
  on a NAV that is at least that of the frame exchange manager, except between a channel switch and
  the reset it schedules; the transmission timer is not late and calls the method that fits its
  reason.
\<close>

section \<open>The NAV and the timer\<close>

definition nav_inv :: "time \<Rightarrow> station \<Rightarrow> bool" where
  "nav_inv now s \<longleftrightarrow>
     m_navEnd s \<le> max now (m_lastNavEnd s)
     \<or> (now, EvReset) \<in> set (pending s) \<and> now \<le> m_lastSwitchingEnd s"

fun fits_reason :: "timeout_call \<Rightarrow> tx_reason \<Rightarrow> bool" where
  "fits_reason (CtsTimeout_of _ _) r \<longleftrightarrow> r = WAIT_CTS"
| "fits_reason (NormalAckTimeout_of _ _) r \<longleftrightarrow> r = WAIT_NORMAL_ACK"

definition timer_inv :: "time \<Rightarrow> station \<Rightarrow> bool" where
  "timer_inv now s \<longleftrightarrow>
     timer_ok (now, m_txTimer s)
     \<and> (timer_IsRunning (m_txTimer s) \<longrightarrow>
          (\<forall>call. m_impl (m_txTimer s) = Some call \<longrightarrow> fits_reason call (m_reason (m_txTimer s))))"

text \<open>Updates of fields that do not matter.\<close>

definition station_view ::
  "station \<Rightarrow> edcaf list \<times> time \<times> time \<times> time \<times> (time \<times> fem_event) list \<times> timeout_call tx_timer" where
  "station_view s = (m_txops s, m_lastNavEnd s, m_lastSwitchingEnd s, m_navEnd s, pending s, m_txTimer s)"

lemma view_fields [simp]:
  "station_view (s\<lparr>m_dcf := x1\<rparr>) = station_view s"
  "station_view (s\<lparr>m_navResetEvent := x2\<rparr>) = station_view s"
  "station_view (s\<lparr>m_sendCtsEvent := x3\<rparr>) = station_view s"
  "station_view (s\<lparr>m_txNav := x4\<rparr>) = station_view s"
  "station_view (s\<lparr>m_sentRtsTo := x5\<rparr>) = station_view s"
  "station_view (s\<lparr>m_sentFrameTo := x5\<rparr>) = station_view s"
  "station_view (s\<lparr>m_protectedStas := x5\<rparr>) = station_view s"
  "station_view (s\<lparr>m_allowedWidth := x6\<rparr>) = station_view s"
  "station_view (s\<lparr>m_mpdu := x7\<rparr>) = station_view s"
  "station_view (s\<lparr>m_txParams := x8\<rparr>) = station_view s"
  "station_view (s\<lparr>m_fragmentedPacket := x9\<rparr>) = station_view s"
  "station_view (s\<lparr>m_moreFragments := x10\<rparr>) = station_view s"
  by (simp_all add: station_view_def)

lemma view_fields2 [simp]:
  "station_view (s\<lparr>m_ongoingRxInfo := y1\<rparr>) = station_view s"
  "station_view (s\<lparr>m_edca := y2\<rparr>) = station_view s"
  "station_view (s\<lparr>m_txopHolder := y3\<rparr>) = station_view s"
  "station_view (s\<lparr>m_initialFrame := y4\<rparr>) = station_view s"
  "station_view (s\<lparr>m_pifsRecoveryEvent := y5\<rparr>) = station_view s"
  "station_view (s\<lparr>m_edcaBackingOff := y2\<rparr>) = station_view s"
  "station_view (s\<lparr>m_txMiddle := y6\<rparr>) = station_view s"
  "station_view (s\<lparr>sent := y7\<rparr>) = station_view s"
  "station_view (s\<lparr>m_lastAckTimeoutEnd := y8\<rparr>) = station_view s"
  "station_view (s\<lparr>m_lastCtsTimeoutEnd := y8\<rparr>) = station_view s"
  "station_view (emit call s) = station_view s"
  "station_view (ResetTxNav now s) = station_view s"
  "station_view (DequeueMpdu mpdu s) = station_view s"
  "station_view (fst (DropMpduIfRetryLimitReached v mpdu s)) = station_view s"
  by (simp_all add: station_view_def emit_def ResetTxNav_def DequeueMpdu_def DropMpduIfRetryLimitReached_def)

section \<open>The P-EDCA state of a function\<close>

text \<open>
  What P-EDCA reads and writes; every other operation leaves it as it is.
\<close>

definition pedca_view :: "qlink \<Rightarrow> bool \<times> bool \<times> bool \<times> u32 \<times> u32" where
  "pedca_view l = (l_pedcaMode l, l_pedcaCtsPending l, l_pedcaAfterCts l, l_psrc l, l_pedcaTriggerCount l)"

definition pedca_same :: "edcaf \<Rightarrow> edcaf \<Rightarrow> bool" where
  "pedca_same e e' \<longleftrightarrow>
     e_qos e' = e_qos e \<and> e_cfg e' = e_cfg e \<and> pedca_view (e_link e') = pedca_view (e_link e)"

lemmas pedca_same_defs = pedca_same_def pedca_view_def

lemma same_slots: "pedca_same e (e_UpdateBackoffSlotsNow n t e)"
  by (simp add: pedca_same_defs e_UpdateBackoffSlotsNow_def UpdateBackoffSlotsNow_def)

lemma same_requested: "pedca_same e (e\<lparr>e_link := NotifyAccessRequested (e_link e)\<rparr>)"
  by (simp add: pedca_same_defs NotifyAccessRequested_def)

lemma same_resetCw: "e_ResetCw now e = Some e' \<Longrightarrow> pedca_same e e'"
  by (auto simp: pedca_same_defs e_ResetCw_def ResetCw_def elim!: bind_SomeE)

lemma same_reset: "ResetBackoff now e = Some e' \<Longrightarrow> pedca_same e e'"
  by (auto simp: pedca_same_defs ResetBackoff_def e_ResetCw_def ResetCw_def e_UpdateBackoffSlotsNow_def
      UpdateBackoffSlotsNow_def Let_def elim!: bind_SomeE split: if_splits)

lemma same_failedCw: "e_UpdateFailedCw limit now e = Some e' \<Longrightarrow> pedca_same e e'"
  by (auto simp: pedca_same_defs e_UpdateFailedCw_def qos_UpdateFailedCw_def UpdateFailedCw_def Let_def
      elim!: bind_SomeE split: if_splits)

lemma same_accessed: "e_NotifyChannelAccessed now d e = Some e' \<Longrightarrow> pedca_same e e'"
  by (auto simp: pedca_same_defs e_NotifyChannelAccessed_def NotifyChannelAccessed_def
      txop_NotifyChannelAccessed_def elim!: bind_SomeE split: if_splits)

lemma SetTxopLimit_view: "SetTxopLimit t l = Some l' \<Longrightarrow> pedca_view l' = pedca_view l"
  by (auto simp: SetTxopLimit_def pedca_view_def)

lemma same_limit:
  assumes "UpdateRandomTxopLimit (e_cfg e) sample (e_link e) = Some l"
  shows "pedca_same e (e\<lparr>e_link := l\<rparr>)"
proof -
  have "e_link e = l \<or> (\<exists>t. SetTxopLimit t (e_link e) = Some l)"
    using assms unfolding UpdateRandomTxopLimit_def Let_def case_prod_beta by (metis option.inject)
  then show ?thesis by (auto simp: pedca_same_def SetTxopLimit_view)
qed

lemma same_released: "pedca_same e (e\<lparr>e_link := (e_link e)\<lparr>l_startTxop := t, l_access := a\<rparr>\<rparr>)"
  by (simp add: pedca_same_defs)

lemma same_no_cts:
  "\<not> l_pedcaCtsPending (e_link e) \<Longrightarrow> on_qlink (fst \<circ> ConsumePedcaCtsPending) e = Some e' \<Longrightarrow> pedca_same e e'"
  by (auto simp: pedca_same_defs on_qlink_def ConsumePedcaCtsPending_def)

lemma Released_view:
  assumes "NotifyChannelReleased gen queueEmpty noTx now l = (l', calls)"
  shows "pedca_view l' = pedca_view l \<or> pedca_view l' = pedca_view (gen l)"
proof -
  have view: "pedca_view (k\<lparr>l_startTxop := None, l_access := NOT_REQUESTED\<rparr>) = pedca_view k" for k
    by (simp add: pedca_view_def)
  from assms show ?thesis
    unfolding NotifyChannelReleased_def Let_def by (simp split: if_split_asm) (use view in blast)+
qed

text \<open>The change of state of a P-EDCA CTS-to-self, from the grant to its transmission.\<close>

definition pedca_cts :: "time \<Rightarrow> edcaf \<Rightarrow> edcaf option" where
  "pedca_cts now e =
     do { e \<leftarrow> on_qlink (fst \<circ> ConsumePedcaCtsPending) e;
          e \<leftarrow> e_NotifyChannelAccessed now 0 e;
          e \<leftarrow> on_qlink IncrementPsrcCount e;
          on_qlink (SetPedcaAfterCts True) e }"

locale station_invariant =
  fixes P :: "nat \<Rightarrow> edcaf \<Rightarrow> bool"
  assumes P_same: "P i e \<Longrightarrow> pedca_same e e' \<Longrightarrow> P i e'"
    and P_gen: "P i e \<Longrightarrow> P i (e_GenerateBackoff w j e)"
    and P_cts: "P i e \<Longrightarrow> l_pedcaCtsPending (e_link e) \<Longrightarrow> pedca_cts now e = Some e' \<Longrightarrow> P i e'"
    and P_success: "P i e \<Longrightarrow> on_qlink pedca_data_success e = Some e' \<Longrightarrow> P i e'"
    and P_failure: "P i e \<Longrightarrow> on_qlink (pedca_data_failure (e_cfg e)) e = Some e' \<Longrightarrow> P i e'"

sublocale station_invariant \<subseteq> txop_invariant P
  by unfold_locales (erule P_same P_gen; auto intro: same_slots same_requested same_reset)+

context station_invariant
begin

definition sinv :: "time \<Rightarrow> station \<Rightarrow> bool" where
  "sinv now s \<longleftrightarrow> all_P (m_txops s) \<and> nav_inv now s \<and> timer_inv now s"

lemma sinv_view: "station_view s' = station_view s \<Longrightarrow> sinv now s' = sinv now s"
  by (simp add: station_view_def sinv_def nav_inv_def timer_inv_def)

lemmas sinv_fields [simp] = view_fields [THEN sinv_view] view_fields2 [THEN sinv_view]

section \<open>Pieces of the operations\<close>

lemma sinv_txops:
  assumes "sinv now s" "i < length (m_txops s) \<Longrightarrow> P i e"
  shows "sinv now (s\<lparr>m_txops := (m_txops s)[i := e]\<rparr>)"
  using all_P_update [of "m_txops s" i e] assms by (simp add: sinv_def nav_inv_def timer_inv_def)

lemma sinv_nth: "sinv now s \<Longrightarrow> get_txop i s = Some e \<Longrightarrow> P i e"
  by (auto simp: sinv_def all_P_def get_txop_def split: if_splits)

lemma sinv_with_txop:
  assumes "with_txop p f s = Some s'" "sinv now s" "\<And>i e e'. P i e \<Longrightarrow> f e = Some e' \<Longrightarrow> P i e'"
  shows "sinv now s'"
proof -
  obtain i e e' where "get_txop i s = Some e" "f e = Some e'" "s' = s\<lparr>m_txops := (m_txops s)[i := e']\<rparr>"
    using assms(1) by (auto simp: with_txop_def elim!: bind_SomeE)
  with assms(2,3) sinv_nth show ?thesis by (blast intro: sinv_txops)
qed

lemma sinv_pending: "sinv now s \<Longrightarrow> sinv now (s\<lparr>pending := pending s @ evs\<rparr>)"
  by (auto simp: sinv_def nav_inv_def timer_inv_def)

lemma sinv_schedule: "schedule now d ev s = Some s' \<Longrightarrow> sinv now s \<Longrightarrow> sinv now s'"
  by (auto simp: schedule_def intro: sinv_pending)

lemma sinv_run_calls: "sinv now s \<Longrightarrow> sinv now (run_access_calls t i calls s)"
  by (auto simp: run_access_calls_def intro: sinv_pending)

lemma P_link: "P i e \<Longrightarrow> pedca_view l = pedca_view (e_link e) \<Longrightarrow> P i (e\<lparr>e_link := l\<rparr>)"
  by (erule P_same) (simp add: pedca_same_def)

lemma sinv_base_Released:
  assumes "base_NotifyChannelReleased v p s = Some s'" "sinv (v_now v) s"
  shows "sinv (v_now v) s'"
proof -
  from assms(1) obtain i e l calls where e: "get_txop i s = Some e"
    and l: "l = e_link (e_GenerateBackoff (v_world v) i (e\<lparr>e_link := (e_link e)\<lparr>l_access := NOT_REQUESTED\<rparr>\<rparr>))"
    and s': "s' = run_access_calls (v_now v) i calls (s\<lparr>m_txops := (m_txops s)[i := e\<lparr>e_link := l\<rparr>]\<rparr>)"
    by (auto simp: base_NotifyChannelReleased_def txop_NotifyChannelReleased_def elim!: bind_SomeE)
  have "P i (e\<lparr>e_link := (e_link e)\<lparr>l_access := NOT_REQUESTED\<rparr>\<rparr>)"
    using sinv_nth [OF assms(2) e] by (rule P_link) (simp add: pedca_view_def)
  from P_gen [OF this, of "v_world v" i] have "P i (e\<lparr>e_link := l\<rparr>)"
    by (simp add: l e_GenerateBackoff_def)
  with assms(2) show ?thesis by (simp add: s' sinv_run_calls sinv_txops)
qed

lemma sinv_Released:
  assumes "txop_Released v p s = Some s'" "sinv (v_now v) s"
  shows "sinv (v_now v) s'"
proof -
  from assms(1) obtain i e where e: "p = Some i" "get_txop i s = Some e"
    by (auto simp: txop_Released_def elim!: bind_SomeE)
  show ?thesis
  proof (cases "e_qos e")
    case False
    with assms e show ?thesis by (auto simp: txop_Released_def intro: sinv_base_Released)
  next
    case True
    let ?gen = "GenerateBackoff (e_cfg e) (w_mac (v_world v)) (w_linkId (v_world v)) (w_draw (v_world v) i) (v_now v)"
    obtain l calls where
      l: "NotifyChannelReleased ?gen (v_queueEmpty v i) (m_generateBackoffOnNoTx s) (v_now v) (e_link e) = (l, calls)"
      by fastforce
    with assms(1) e True have
      s': "s' = run_access_calls (v_now v) i calls (s\<lparr>m_txops := (m_txops s)[i := e\<lparr>e_link := l\<rparr>]\<rparr>)"
      by (simp add: txop_Released_def Let_def)
    have Pe: "P i e" using sinv_nth [OF assms(2) e(2)] .
    have gen: "P i (e\<lparr>e_link := ?gen (e_link e)\<rparr>)"
      using P_gen [OF Pe, of "v_world v" i] True by (simp add: e_GenerateBackoff_def)
    have "pedca_view l = pedca_view (e_link e) \<or> pedca_view l = pedca_view (?gen (e_link e))"
      by (rule Released_view [OF l])
    then have "P i (e\<lparr>e_link := l\<rparr>)"
    proof
      assume "pedca_view l = pedca_view (?gen (e_link e))"
      with P_link [OF gen, of l] show ?thesis by simp
    qed (rule P_link [OF Pe])
    with assms(2) show ?thesis by (simp add: s' sinv_run_calls sinv_txops)
  qed
qed

end

lemma more_view:
  assumes "cam.more s' = cam.more s"
  shows "m_navEnd s' = m_navEnd s" "pending s' = pending s" "m_txTimer s' = m_txTimer s"
    "m_edca s' = m_edca s" "m_pifsRecoveryEvent s' = m_pifsRecoveryEvent s"
  using assms by (cases s; cases s'; simp)+

context station_invariant
begin

lemma sinv_keeps:
  assumes "keeps now s s'" "sinv now s"
  shows "sinv now s'"
proof -
  have "cam.more s' = cam.more s" using assms(1) by (simp add: keeps_def)
  note more_view [OF this]
  with assms show ?thesis by (auto simp: sinv_def nav_inv_def timer_inv_def keeps_def)
qed

end

section \<open>The P-EDCA invariant is one\<close>

definition edcaf_ok :: "edcaf \<Rightarrow> bool" where
  "edcaf_ok e \<longleftrightarrow> (e_qos e \<longrightarrow> pedca_ok (e_cfg e) (e_link e))"

text \<open>The steps of a CTS-to-self one after the other, and the phase they lead to.\<close>

lemma pedca_cts_view:
  assumes "pedca_cts now e = Some e'"
  shows "e_qos e' = e_qos e" "e_cfg e' = e_cfg e"
    "pedca_view (e_link e') =
       (l_pedcaMode (e_link e), False, True, l_psrc (e_link e) + 1, l_pedcaTriggerCount (e_link e))"
  using assms
  by (auto simp: pedca_cts_def on_qlink_def ConsumePedcaCtsPending_def IncrementPsrcCount_def SetPedcaAfterCts_def
      pedca_view_def e_NotifyChannelAccessed_def NotifyChannelAccessed_def txop_NotifyChannelAccessed_def
      elim!: bind_SomeE split: if_splits)

lemma pedca_ok_view: "pedca_view l' = pedca_view l \<Longrightarrow> pedca_ok cfg l' = pedca_ok cfg l"
  by (simp add: pedca_view_def pedca_ok_def)

interpretation pedca: station_invariant "\<lambda>_. edcaf_ok"
proof
  fix e e'
  assume "edcaf_ok e" "pedca_same e e'"
  then show "edcaf_ok e'" by (auto simp: edcaf_ok_def pedca_same_def dest: pedca_ok_view)
next
  fix e w i
  assume "edcaf_ok e"
  then show "edcaf_ok (e_GenerateBackoff w i e)"
    by (simp add: edcaf_ok_def e_GenerateBackoff_def pedca_ok_GenerateBackoff)
next
  fix e e' now
  assume "edcaf_ok e" "l_pedcaCtsPending (e_link e)" "pedca_cts now e = Some e'"
  with pedca_cts_view [OF this(3)] show "edcaf_ok e'"
    by (auto simp: edcaf_ok_def pedca_ok_def pedca_view_def psrc_step)
next
  fix e e'
  assume "edcaf_ok e" "on_qlink pedca_data_success e = Some e'"
  then show "edcaf_ok e'" by (auto simp: edcaf_ok_def on_qlink_def pedca_data_success_def pedca_ok_Reset)
next
  fix e e'
  assume "edcaf_ok e" "on_qlink (pedca_data_failure (e_cfg e)) e = Some e'"
  then show "edcaf_ok e'"
    by (auto simp: edcaf_ok_def on_qlink_def pedca_data_failure_def pedca_ok_Record pedca_ok_Increment)
qed

end
