(* ===== verification/Station_Preserved.thy ===== *)
theory Station_Preserved
  imports Station_Invariants
begin

text \<open>
  Every operation of the frame exchange manager preserves the invariant of the station.  The proofs
  go backwards through an operation: \<open>ensures\<close> holds of a result that is a state with the
  invariant, or no state, and the rules of the collection \<open>ensures_intros\<close> follow its structure.
\<close>

section \<open>Reasoning backwards\<close>

named_theorems ensures_intros

context station_invariant
begin

definition ensures :: "time \<Rightarrow> station option \<Rightarrow> bool" where
  "ensures now r \<longleftrightarrow> (\<forall>s. r = Some s \<longrightarrow> sinv now s)"

text \<open>A result that is a state and a value.\<close>

definition ensures_pair :: "time \<Rightarrow> (station \<times> 'a) option \<Rightarrow> bool" where
  "ensures_pair now r \<longleftrightarrow> (\<forall>s x. r = Some (s, x) \<longrightarrow> sinv now s)"

lemma ensuresI: "(\<And>s. r = Some s \<Longrightarrow> sinv now s) \<Longrightarrow> ensures now r"
  by (simp add: ensures_def)

lemma ensures_pairI: "(\<And>s x. r = Some (s, x) \<Longrightarrow> sinv now s) \<Longrightarrow> ensures_pair now r"
  by (simp add: ensures_pair_def)

lemma ensuresD: "ensures now r \<Longrightarrow> r = Some s \<Longrightarrow> sinv now s"
  by (simp add: ensures_def)

lemma ensures_pairD: "ensures_pair now r \<Longrightarrow> r = Some (s, x) \<Longrightarrow> sinv now s"
  by (simp add: ensures_pair_def)

lemma ensures_bind:
  "(\<And>x. m = Some x \<Longrightarrow> ensures now (f x)) \<Longrightarrow> ensures now (m \<bind> f)"
  "(\<And>x. m = Some x \<Longrightarrow> ensures_pair now (g x)) \<Longrightarrow> ensures_pair now (m \<bind> g)"
  by (cases m; simp add: ensures_def ensures_pair_def)+

lemma ensures_bind_state:
  "ensures now m \<Longrightarrow> (\<And>s. sinv now s \<Longrightarrow> ensures now (f s)) \<Longrightarrow> ensures now (m \<bind> f)"
  "ensures now m \<Longrightarrow> (\<And>s. sinv now s \<Longrightarrow> ensures_pair now (g s)) \<Longrightarrow> ensures_pair now (m \<bind> g)"
  by (cases m; simp add: ensures_def ensures_pair_def)+

lemma ensures_bind_pair:
  "ensures_pair now m \<Longrightarrow> (\<And>s x. sinv now s \<Longrightarrow> ensures now (f s x)) \<Longrightarrow> ensures now (m \<bind> (\<lambda>(s, x). f s x))"
  "ensures_pair now m \<Longrightarrow> (\<And>s x. sinv now s \<Longrightarrow> ensures_pair now (g s x)) \<Longrightarrow>
     ensures_pair now (m \<bind> (\<lambda>(s, x). g s x))"
  by (cases m; auto simp: ensures_def ensures_pair_def)+

lemma ensures_if:
  "(c \<Longrightarrow> ensures now a) \<Longrightarrow> (\<not> c \<Longrightarrow> ensures now b) \<Longrightarrow> ensures now (if c then a else b)"
  "(c \<Longrightarrow> ensures_pair now p) \<Longrightarrow> (\<not> c \<Longrightarrow> ensures_pair now q) \<Longrightarrow> ensures_pair now (if c then p else q)"
  by simp_all

lemma ensures_case:
  "(x = None \<Longrightarrow> ensures now a) \<Longrightarrow> (\<And>y. x = Some y \<Longrightarrow> ensures now (f y)) \<Longrightarrow> ensures now (case_option a f x)"
  "(x = None \<Longrightarrow> ensures_pair now p) \<Longrightarrow> (\<And>y. x = Some y \<Longrightarrow> ensures_pair now (g y)) \<Longrightarrow>
     ensures_pair now (case_option p g x)"
  "(\<And>a b. y = (a, b) \<Longrightarrow> ensures now (h a b)) \<Longrightarrow> ensures now (case_prod h y)"
  "(\<And>a b. y = (a, b) \<Longrightarrow> ensures_pair now (k a b)) \<Longrightarrow> ensures_pair now (case_prod k y)"
  by (auto split: option.split prod.split)

lemma ensures_result:
  "sinv now s \<Longrightarrow> ensures now (Some s)"
  "ensures now None"
  "sinv now s \<Longrightarrow> ensures_pair now (Some (s, x))"
  "ensures_pair now None"
  by (simp_all add: ensures_def ensures_pair_def)

lemma ensures_ack_method:
  "ensures now a \<Longrightarrow> (\<And>w. ensures now (b w)) \<Longrightarrow> ensures now (case_ack_method a b None m)"
  by (simp add: ensures_def split: ack_method.split)

lemma ensures_protection_method:
  "ensures now a \<Longrightarrow> (\<And>w x. ensures now (b w x)) \<Longrightarrow> (\<And>w. ensures now (c w)) \<Longrightarrow>
     ensures now (case_protection_method a b c m)"
  by (simp split: protection_method.split)

lemmas ensures_rules = ensures_result ensures_if ensures_case ensures_bind_pair ensures_bind_state ensures_bind

section \<open>Operations of the channel access functions and of the manager\<close>

lemma ensures_schedule [ensures_intros]: "sinv now s \<Longrightarrow> ensures now (schedule now d ev s)"
  by (auto intro: ensuresI sinv_schedule)

lemma ensures_txop:
  "sinv now s \<Longrightarrow> (\<And>i e e'. P i e \<Longrightarrow> f e = Some e' \<Longrightarrow> P i e') \<Longrightarrow> ensures now (with_txop p f s)"
  by (rule ensuresI) (rule sinv_with_txop)

lemma ensures_txop_same:
  "sinv now s \<Longrightarrow> (\<And>e e'. f e = Some e' \<Longrightarrow> pedca_same e e') \<Longrightarrow> ensures now (with_txop p f s)"
  by (blast intro: ensures_txop P_same)

lemma ensures_txops [ensures_intros]:
  assumes "sinv now s"
  shows "ensures now (with_txop p (e_UpdateFailedCw limit t) s)"
    "ensures now (with_txop p (e_NotifyChannelAccessed t d) s)"
    "ensures now (with_txop p (e_ResetCw t) s)"
    "ensures now (with_txop p (on_qlink pedca_data_success) s)"
    "ensures now (with_txop p (\<lambda>e. on_qlink (pedca_data_failure (e_cfg e)) e) s)"
    "ensures now (with_txop p (\<lambda>e. do { l \<leftarrow> UpdateRandomTxopLimit (e_cfg e) sample (e_link e);
                                         Some (e\<lparr>e_link := l\<rparr>) }) s)"
proof -
  show "ensures now (with_txop p (on_qlink pedca_data_success) s)"
    "ensures now (with_txop p (\<lambda>e. on_qlink (pedca_data_failure (e_cfg e)) e) s)"
    by (rule ensures_txop [OF assms], erule (1) P_success P_failure)+
  show "ensures now (with_txop p (\<lambda>e. do { l \<leftarrow> UpdateRandomTxopLimit (e_cfg e) sample (e_link e);
                                         Some (e\<lparr>e_link := l\<rparr>) }) s)"
    by (rule ensures_txop_same [OF assms]) (auto elim!: bind_SomeE intro: same_limit)
qed (rule ensures_txop_same [OF assms], erule same_failedCw same_accessed same_resetCw)+

lemma ensures_Released [ensures_intros]:
  "sinv (v_now v) s \<Longrightarrow> ensures (v_now v) (base_NotifyChannelReleased v p s)"
  "sinv (v_now v) s \<Longrightarrow> ensures (v_now v) (txop_Released v p s)"
  by (auto intro: ensuresI sinv_base_Released sinv_Released)

lemma ensures_AckStart [ensures_intros]: "sinv now s \<Longrightarrow> ensures now (NotifyAckTimeoutStartNow now d s)"
  by (auto intro!: ensuresI intro: sinv_keeps keeps_AckStart)

lemma ensures_AckReset [ensures_intros]: "sinv now s \<Longrightarrow> ensures_pair now (NotifyAckTimeoutResetNow now s)"
  by (auto intro!: ensures_pairI intro: sinv_keeps keeps_AckReset)

lemma ensures_CtsReset [ensures_intros]: "sinv now s \<Longrightarrow> ensures_pair now (NotifyCtsTimeoutResetNow now s)"
  by (auto intro!: ensures_pairI intro: sinv_keeps keeps_CtsReset)

lemma sinv_CtsStart [simp]: "sinv now s \<Longrightarrow> sinv now (NotifyCtsTimeoutStartNow now d s)"
  by (rule sinv_keeps [OF keeps_CtsStart])

lemma ensures_cam_calls [ensures_intros]: "ensures_pair now r \<Longrightarrow> ensures now (cam_calls r)"
  unfolding cam_calls_def by (intro ensures_rules) simp_all

section \<open>The timer\<close>

lemma sinv_timer:
  assumes "sinv now s" "timer_ok (now, t)"
    "timer_IsRunning t \<longrightarrow> (\<forall>call. m_impl t = Some call \<longrightarrow> fits_reason call (m_reason t))"
  shows "sinv now (s\<lparr>m_txTimer := t\<rparr>)"
  using assms by (simp add: sinv_def nav_inv_def timer_inv_def)

lemma sinv_timer_Set:
  assumes "timer_Set reason delay stas call now (m_txTimer s) = Some t" "fits_reason call reason" "sinv now s"
  shows "sinv now (s\<lparr>m_txTimer := t\<rparr>)"
  using assms by (intro sinv_timer) (auto simp: timer_Set_def timer_ok_def)

lemma sinv_timer_Cancel [simp]: "sinv now s \<Longrightarrow> sinv now (s\<lparr>m_txTimer := timer_Cancel t\<rparr>)"
  by (rule sinv_timer) (auto simp: timer_Cancel_def timer_ok_def timer_IsRunning_def)

lemma sinv_stop [simp]: "sinv now s \<Longrightarrow> sinv now (stop_timer s)"
  by (simp add: stop_timer_def)

lemma sinv_timer_Reschedule:
  assumes "timer_Reschedule delay now (m_txTimer s) = Some t" "delay \<ge> 0" "sinv now s"
  shows "sinv now (s\<lparr>m_txTimer := t\<rparr>)"
  using assms
  by (intro sinv_timer)
    (auto simp: sinv_def timer_inv_def timer_Reschedule_def timer_ok_def timer_IsRunning_def Let_def
      elim!: bind_SomeE split: if_splits)

section \<open>Transmission\<close>

lemma ensures_fem_Released [ensures_intros]:
  "sinv (v_now v) s \<Longrightarrow> ensures (v_now v) (fem_NotifyChannelReleased v p s)"
  unfolding fem_NotifyChannelReleased_def by (intro ensures_rules ensures_intros) simp_all

lemma ForwardMpduDown_view:
  assumes "ForwardMpduDown v mpdu txVector s = Some s'"
  shows "station_view s' = station_view s"
  using assms
  by (auto simp: ForwardMpduDown_def fem_ForwardMpduDown_def SetTxNav_def Let_def elim!: bind_SomeE)

lemma ensures_Forward [ensures_intros]: "sinv now s \<Longrightarrow> ensures now (ForwardMpduDown v mpdu txVector s)"
  by (auto intro!: ensuresI simp: ForwardMpduDown_view [THEN sinv_view])

lemma ensures_responses [ensures_intros]:
  "sinv (v_now v) s \<Longrightarrow> ensures (v_now v) (SendCtsAfterRts v hdr txVector s)"
  "sinv (v_now v) s \<Longrightarrow> ensures (v_now v) (SendNormalAck v hdr txVector s)"
  by (simp_all add: SendCtsAfterRts_def SendNormalAck_def Let_def) (intro ensures_rules ensures_intros; simp)+


lemma ensures_wait [ensures_intros]:
  assumes "sinv (v_now v) s"
  shows "ensures (v_now v) (wait_for_ack v mpdu ackTxVector d s)"
proof -
  have "sinv (v_now v) (s\<lparr>m_mpdu := m, m_txTimer := timer\<rparr>)"
    if "timer_Set WAIT_NORMAL_ACK t stas (NormalAckTimeout_of n w) (v_now v) (m_txTimer s) = Some timer"
    for m timer t stas n w
  proof -
    have "sinv (v_now v) (s\<lparr>m_txTimer := timer\<rparr>)" by (rule sinv_timer_Set [OF that]) (simp_all add: assms)
    then show ?thesis by (simp add: sinv_def nav_inv_def timer_inv_def)
  qed
  then show ?thesis
    unfolding wait_for_ack_def Let_def by (intro ensures_rules ensures_intros) simp_all
qed

lemma ensures_unack [ensures_intros]:
  "sinv (v_now v) s \<Longrightarrow> ensures (v_now v) (send_unacknowledged v mpdu d s)"
  unfolding send_unacknowledged_def by (intro ensures_rules ensures_intros) simp_all

lemma ensures_SendMpdu [ensures_intros]: "sinv (v_now v) s \<Longrightarrow> ensures (v_now v) (SendMpdu v s)"
  unfolding SendMpdu_def Let_def
  by (intro ensures_rules ensures_intros ensures_ack_method) simp_all

lemma ensures_ProtectionCompleted [ensures_intros]:
  "sinv (v_now v) s \<Longrightarrow> ensures (v_now v) (ProtectionCompleted v s)"
  unfolding ProtectionCompleted_def Let_def by (intro ensures_rules ensures_intros) simp_all

lemma sinv_CtsTimer:
  assumes "timer_Set WAIT_CTS t stas (CtsTimeout_of rts w) now (m_txTimer s) = Some timer" "sinv now s"
  shows "sinv now (NotifyCtsTimeoutStartNow now d (s\<lparr>m_txTimer := timer\<rparr>))"
proof -
  have "sinv now (s\<lparr>m_txTimer := timer\<rparr>)" by (rule sinv_timer_Set [OF assms(1)]) (simp_all add: assms(2))
  then show ?thesis by simp
qed

lemma ensures_SendRts [ensures_intros]: "sinv (v_now v) s \<Longrightarrow> ensures (v_now v) (SendRts v s)"
  unfolding SendRts_def Let_def
  by (intro ensures_rules ensures_intros ensures_protection_method) (auto intro: sinv_CtsTimer)

lemma ensures_SendCtsToSelf [ensures_intros]: "sinv (v_now v) s \<Longrightarrow> ensures (v_now v) (SendCtsToSelf v s)"
  unfolding SendCtsToSelf_def Let_def
  by (intro ensures_rules ensures_intros ensures_protection_method) simp_all

lemma ensures_StartProtection [ensures_intros]: "sinv (v_now v) s \<Longrightarrow> ensures (v_now v) (StartProtection v s)"
  unfolding StartProtection_def
  by (intro ensures_rules ensures_intros ensures_protection_method) simp_all

lemma ensures_SendMpduWithProtection [ensures_intros]:
  "sinv (v_now v) s \<Longrightarrow> ensures (v_now v) (SendMpduWithProtection v mpdu p s)"
  unfolding SendMpduWithProtection_def Let_def by (intro ensures_rules ensures_intros) simp_all

lemma ensures_FirstFragment [ensures_intros]:
  "sinv now s \<Longrightarrow> ensures_pair now (GetFirstFragmentIfNeeded v mpdu s)"
  unfolding GetFirstFragmentIfNeeded_def Let_def by (intro ensures_rules ensures_intros) simp_all

section \<open>The end of an exchange\<close>

lemma ensures_Succeeded [ensures_intros]:
  "sinv (v_now v) s \<Longrightarrow> ensures (v_now v) (fem_TransmissionSucceeded v s)"
  "sinv (v_now v) s \<Longrightarrow> ensures (v_now v) (TransmissionSucceeded v s)"
proof -
  show fem: "sinv (v_now v) s \<Longrightarrow> ensures (v_now v) (fem_TransmissionSucceeded v s)" for s
    unfolding fem_TransmissionSucceeded_def Let_def by (intro ensures_rules ensures_intros) simp_all
  show "sinv (v_now v) s \<Longrightarrow> ensures (v_now v) (TransmissionSucceeded v s)"
    unfolding TransmissionSucceeded_def by (intro ensures_rules ensures_intros fem) simp_all
qed

lemma ensures_Failed [ensures_intros]:
  "sinv (v_now v) s \<Longrightarrow> ensures (v_now v) (fem_TransmissionFailed v force s)"
  "sinv (v_now v) s \<Longrightarrow> ensures (v_now v) (TransmissionFailed v force s)"
proof -
  show fem: "sinv (v_now v) s \<Longrightarrow> ensures (v_now v) (fem_TransmissionFailed v force s)" for s
    unfolding fem_TransmissionFailed_def Let_def by (intro ensures_rules ensures_intros) simp_all
  have failed: "ensures (v_now v) ((if force then Some
        else with_txop (Some i) (e_UpdateFailedCw (v_frameRetryLimit v) (v_now v))) s)"
    if "sinv (v_now v) s" for i s
    using that by (auto intro: ensures_txops ensures_result)
  show "sinv (v_now v) s \<Longrightarrow> ensures (v_now v) (TransmissionFailed v force s)"
    unfolding TransmissionFailed_def Let_def by (intro ensures_rules ensures_intros fem failed) simp_all
qed

lemma ensures_timeouts [ensures_intros]:
  "sinv (v_now v) s \<Longrightarrow> ensures (v_now v) (NormalAckTimeout v mpdu txVector s)"
  "sinv (v_now v) s \<Longrightarrow> ensures (v_now v) (CtsTimeout v s)"
  "sinv (v_now v) s \<Longrightarrow> ensures (v_now v) (NotifyInternalCollision v i s)"
proof -
  have drop: "sinv (v_now v) s'" if "DropMpduIfRetryLimitReached v m s = (s', b)" "sinv (v_now v) s" for m s s' b
    using that by (metis fst_conv view_fields2(14) sinv_view)
  show "sinv (v_now v) s \<Longrightarrow> ensures (v_now v) (NormalAckTimeout v mpdu txVector s)" for s
    unfolding NormalAckTimeout_def Let_def
    by (intro ensures_rules ensures_intros) (auto dest: drop)
  have release: "sinv (v_now v) s \<Longrightarrow> ensures (v_now v) (ReleaseSequenceNumbers m s)" for m s
    unfolding ReleaseSequenceNumbers_def by (intro ensures_rules ensures_intros) simp_all
  show "sinv (v_now v) s \<Longrightarrow> ensures (v_now v) (CtsTimeout v s)" for s
    unfolding CtsTimeout_def DoCtsTimeout_def Let_def
    by (intro ensures_rules ensures_intros release) simp_all
  show "sinv (v_now v) s \<Longrightarrow> ensures (v_now v) (NotifyInternalCollision v i s)" for s
    unfolding NotifyInternalCollision_def Let_def
    by (intro ensures_rules ensures_intros) (simp_all split: option.split)
qed


section \<open>The P-EDCA CTS-to-self\<close>

lemma with_txop_at:
  assumes "with_txop (Some i) f s = Some s'"
  obtains e e' where "get_txop i s = Some e" "f e = Some e'" "s' = s\<lparr>m_txops := (m_txops s)[i := e']\<rparr>"
    "get_txop i s' = Some e'"
  using assms by (auto simp: with_txop_def get_txop_def elim!: bind_SomeE split: if_splits)

lemma get_txop_Forward:
  assumes "ForwardMpduDown v mpdu txVector s = Some s'"
  shows "get_txop i s' = get_txop i s"
  using ForwardMpduDown_view [OF assms] by (simp add: station_view_def get_txop_def)

text \<open>The grant consumes the pending CTS; the state in between is never seen.\<close>

lemma PedcaCts_state:
  assumes "get_txop i s = Some e" "with_txop (Some i) (on_qlink (fst \<circ> ConsumePedcaCtsPending)) s = Some s0"
    "SendPedcaCtsAndRecontend v i s0 = Some (s', b)"
  obtains e' t where "pedca_cts (v_now v) e = Some e'"
    "station_view t = station_view (s\<lparr>m_txops := (m_txops s)[i := e']\<rparr>)"
    "schedule (v_now v) (v_txTime v GetCtsSize (v_ctsToSelfTxVector v)) (EvPedcaRelease i) t = Some s'" "b"
proof -
  obtain s1 cts s2 s3 s4 where
    s1: "with_txop (Some i) (e_NotifyChannelAccessed (v_now v) 0) s0 = Some s1"
    and s2: "ForwardMpduDown v cts (v_ctsToSelfTxVector v) s1 = Some s2"
    and s3: "with_txop (Some i) (on_qlink IncrementPsrcCount) s2 = Some s3"
    and s4: "with_txop (Some i) (on_qlink (SetPedcaAfterCts True)) s3 = Some s4"
    and s': "schedule (v_now v) (v_txTime v GetCtsSize (v_ctsToSelfTxVector v)) (EvPedcaRelease i) s4 = Some s'" "b"
    using assms(3) unfolding SendPedcaCtsAndRecontend_def Let_def
    by (elim bind_SomeE) (rule that, assumption+, simp_all)
  obtain e0 where e0: "on_qlink (fst \<circ> ConsumePedcaCtsPending) e = Some e0" "get_txop i s0 = Some e0"
    and s0: "s0 = s\<lparr>m_txops := (m_txops s)[i := e0]\<rparr>"
    using assms(1,2) by (auto elim: with_txop_at)
  obtain e1 where e1: "e_NotifyChannelAccessed (v_now v) 0 e0 = Some e1" "get_txop i s1 = Some e1"
    and s1': "s1 = s0\<lparr>m_txops := (m_txops s0)[i := e1]\<rparr>"
    using s1 e0(2) by (auto elim: with_txop_at)
  obtain e3 where e3: "on_qlink IncrementPsrcCount e1 = Some e3" "get_txop i s3 = Some e3"
    and s3': "s3 = s2\<lparr>m_txops := (m_txops s2)[i := e3]\<rparr>"
    using s3 e1(2) get_txop_Forward [OF s2, of i] by (auto elim: with_txop_at)
  obtain e4 where e4: "on_qlink (SetPedcaAfterCts True) e3 = Some e4"
    and s4': "s4 = s3\<lparr>m_txops := (m_txops s3)[i := e4]\<rparr>"
    using s4 e3(2) by (auto elim: with_txop_at)
  have "pedca_cts (v_now v) e = Some e4" using e0(1) e1(1) e3(1) e4 by (simp add: pedca_cts_def)
  moreover have "station_view s4 = station_view (s\<lparr>m_txops := (m_txops s)[i := e4]\<rparr>)"
    using ForwardMpduDown_view [OF s2] by (simp add: station_view_def s4' s3' s1' s0)
  ultimately show thesis using s' by (rule that)
qed

lemma PedcaCts_sinv:
  assumes "sinv (v_now v) s" "get_txop i s = Some e" "l_pedcaCtsPending (e_link e)"
    "with_txop (Some i) (on_qlink (fst \<circ> ConsumePedcaCtsPending)) s = Some s0"
    "SendPedcaCtsAndRecontend v i s0 = Some (s', b)"
  shows "sinv (v_now v) s'"
proof -
  obtain e' t where e': "pedca_cts (v_now v) e = Some e'"
    and t: "station_view t = station_view (s\<lparr>m_txops := (m_txops s)[i := e']\<rparr>)"
    and s': "schedule (v_now v) (v_txTime v GetCtsSize (v_ctsToSelfTxVector v)) (EvPedcaRelease i) t = Some s'"
    using assms(2,4,5) by (rule PedcaCts_state)
  have "P i e'" using sinv_nth [OF assms(1,2)] assms(3) e' by (rule P_cts)
  with assms(1) have "sinv (v_now v) (s\<lparr>m_txops := (m_txops s)[i := e']\<rparr>)" by (rule sinv_txops)
  with t have "sinv (v_now v) t" using sinv_view by blast
  with s' show ?thesis by (rule sinv_schedule)
qed

lemma ensures_PedcaRelease [ensures_intros]: "sinv (v_now v) s \<Longrightarrow> ensures (v_now v) (PedcaRelease v i s)"
  unfolding PedcaRelease_def by (intro ensures_rules ensures_intros) simp_all

section \<open>The start of a transmission\<close>

lemma ensures_AssignSeqNo [ensures_intros]:
  "sinv now s \<Longrightarrow> ensures_pair now (AssignSeqNo mpdu s)"
  "sinv now s \<Longrightarrow> ensures_pair now (AssignSequenceNumber mpdu s)"
  unfolding AssignSeqNo_def AssignSequenceNumber_def by (intro ensures_rules; simp)+

lemma ensures_fem_Start [ensures_intros]:
  "sinv (v_now v) s \<Longrightarrow> ensures_pair (v_now v) (fem_StartTransmission v i width s)"
  unfolding fem_StartTransmission_def Let_def by (intro ensures_rules ensures_intros) simp_all

lemma ensures_GetNextMpdu [ensures_intros]:
  "sinv now s \<Longrightarrow> ensures_pair now (GetNextMpdu v peeked p t initial s)"
  unfolding GetNextMpdu_def Let_def by (intro ensures_rules ensures_intros) simp_all

lemma ensures_StartFrameExchange [ensures_intros]:
  "sinv (v_now v) s \<Longrightarrow> ensures_pair (v_now v) (StartFrameExchange v i t initial s)"
  unfolding StartFrameExchange_def Let_def by (intro ensures_rules ensures_intros) simp_all

lemma ensures_CfEnd [ensures_intros]:
  "sinv (v_now v) s \<Longrightarrow> ensures_pair (v_now v) (SendCfEndIfNeeded v s)"
  unfolding SendCfEndIfNeeded_def Let_def by (intro ensures_rules ensures_intros) simp_all

lemma ensures_pifs [ensures_intros]:
  "sinv (v_now v) s \<Longrightarrow> ensures (v_now v) (abort_pifs v s)"
  "sinv now s \<Longrightarrow> ensures now (end_backing_off e s)"
  "sinv (v_now v) s \<Longrightarrow> ensures_pair (v_now v) (not_started v i s)"
  unfolding abort_pifs_def CancelPifsRecovery_def end_backing_off_def not_started_def
  by (intro ensures_rules ensures_intros; simp)+

lemma ensures_txop_frames [ensures_intros]:
  "sinv (v_now v) s \<Longrightarrow> ensures_pair (v_now v) (limited_txop v i e d backingOff s)"
  "sinv (v_now v) s \<Longrightarrow> ensures_pair (v_now v) (unlimited_txop v i s)"
  unfolding limited_txop_def unlimited_txop_def Let_def
  by (intro ensures_rules ensures_intros; simp)+


lemma ensures_qos_Start [ensures_intros]:
  assumes "sinv (v_now v) s"
  shows "ensures_pair (v_now v) (qos_StartTransmission v i d s)"
proof (rule ensures_pairI)
  fix s' b
  assume "qos_StartTransmission v i d s = Some (s', b)"
  then obtain s1 s2 e s3 where s1: "abort_pifs v s = Some s1"
    and s2: "s2 = (stop_timer s1)\<lparr>m_dcf := Some i, m_edca := Some i\<rparr>"
    and e: "get_txop i s2 = Some e"
    and s3: "with_txop (Some i) (on_qlink (fst \<circ> ConsumePedcaCtsPending)) s2 = Some s3"
    and rest: "(if snd (ConsumePedcaCtsPending (e_link e)) then SendPedcaCtsAndRecontend v i s3
       else do {
         e \<leftarrow> get_txop i s3;
         let backingOff = (m_edcaBackingOff s3 = Some i);
         s \<leftarrow> (if backingOff then end_backing_off e s3 else Some s3);
         (if l_txopLimit (e_link e) > 0 then limited_txop v i e d backingOff s
          else unlimited_txop v i s) }) = Some (s', b)"
    unfolding qos_StartTransmission_def Let_def by (auto elim!: bind_SomeE)
  have "sinv (v_now v) s1" using ensures_pifs(1) s1 assms by (blast dest: ensuresD)
  then have ok2: "sinv (v_now v) s2" by (simp add: s2)
  show "sinv (v_now v) s'"
  proof (cases "l_pedcaCtsPending (e_link e)")
    case True
    with rest have "SendPedcaCtsAndRecontend v i s3 = Some (s', b)" by (simp add: ConsumePedcaCtsPending_def)
    with ok2 e True s3 show ?thesis by (rule PedcaCts_sinv)
  next
    case False
    obtain e3 where "on_qlink (fst \<circ> ConsumePedcaCtsPending) e = Some e3"
      "s3 = s2\<lparr>m_txops := (m_txops s2)[i := e3]\<rparr>"
      using s3 e by (auto elim: with_txop_at)
    then have ok3: "sinv (v_now v) s3"
      using ok2 P_same [OF sinv_nth [OF ok2 e] same_no_cts [OF False]] by (simp add: sinv_txops)
    have "ensures_pair (v_now v) (do {
         e \<leftarrow> get_txop i s3;
         let backingOff = (m_edcaBackingOff s3 = Some i);
         s \<leftarrow> (if backingOff then end_backing_off e s3 else Some s3);
         (if l_txopLimit (e_link e) > 0 then limited_txop v i e d backingOff s
          else unlimited_txop v i s) })"
      unfolding Let_def by (intro ensures_rules ensures_intros) (simp_all add: ok3)
    with False rest show ?thesis by (auto simp: ConsumePedcaCtsPending_def dest: ensures_pairD)
  qed
qed

lemma ensures_Start [ensures_intros]:
  "sinv (v_now v) s \<Longrightarrow> ensures_pair (v_now v) (StartTransmission v i width s)"
  unfolding StartTransmission_def Let_def by (intro ensures_rules ensures_intros) simp_all

lemma ensures_Width [ensures_intros]:
  "sinv now s \<Longrightarrow> ensures_pair now (GetLargestIdlePrimaryChannel t interval stop s)"
  by (auto intro!: ensures_pairI intro: sinv_keeps [OF keeps_Width])

lemma ensures_map_fst [ensures_intros]: "ensures_pair now r \<Longrightarrow> ensures now (map_option fst r)"
  by (auto simp: ensures_def ensures_pair_def)

lemma ensures_PifsRecovery [ensures_intros]:
  "sinv (v_now v) s \<Longrightarrow> ensures (v_now v) (PifsRecovery v force s)"
  unfolding PifsRecovery_def Let_def by (intro ensures_rules ensures_intros) simp_all

section \<open>Reception\<close>

lemma nav_inv_keeps:
  assumes "keeps now (s\<lparr>m_lastNavEnd := min (m_lastNavEnd s) t\<rparr>) s'" "sinv now s" "m_navEnd s \<le> now"
  shows "sinv now s'"
proof -
  have "cam.more s' = cam.more s" using assms(1) by (simp add: keeps_def)
  note more_view [OF this]
  with assms show ?thesis by (auto simp: sinv_def nav_inv_def timer_inv_def keeps_def)
qed

lemma sinv_navEnd: "sinv now s \<Longrightarrow> t \<le> max now (m_lastNavEnd s) \<Longrightarrow> sinv now (s\<lparr>m_navEnd := t\<rparr>)"
  by (auto simp: sinv_def nav_inv_def timer_inv_def)

lemma ClearTxopHolder_view [simp]: "sinv now (ClearTxopHolderIfNeeded t s) = sinv now s"
  by (simp add: ClearTxopHolderIfNeeded_def)

lemma ensures_NavReset [ensures_intros]:
  assumes "sinv now s"
  shows "ensures now (NavResetTimeout now s)"
proof -
  have "ensures_pair now (NotifyNavResetNow now 0 (s\<lparr>m_navEnd := now\<rparr>))"
  proof (rule ensures_pairI)
    fix s' calls
    assume "NotifyNavResetNow now 0 (s\<lparr>m_navEnd := now\<rparr>) = Some (s', calls)"
    from NavReset_spec [OF this] show "sinv now s'"
      by (rule nav_inv_keeps) (use assms in \<open>simp_all add: sinv_navEnd\<close>)
  qed
  then show ?thesis
    unfolding NavResetTimeout_def fem_NavResetTimeout_def by (intro ensures_rules ensures_intros) simp_all
qed

text \<open>The NAV of both managers is set together; that of the channel access manager never lags.\<close>

lemma NavStart_nav:
  assumes "NotifyNavStartNow now d s = Some s'"
  shows "now + d \<le> m_lastNavEnd s'"
  using assms by (auto simp: NotifyNavStartNow_def elim!: bind_SomeE)

lemma ensures_NavStart:
  assumes "sinv now s"
  shows "ensures now (NotifyNavStartNow now d (s\<lparr>m_navEnd := now + d, m_navResetEvent := r\<rparr>))"
    "ensures now (NotifyNavStartNow now d (s\<lparr>m_navEnd := now + d\<rparr>))"
    "ensures now (NotifyNavStartNow now d s)"
proof -
  have *: "sinv now s'" if "NotifyNavStartNow now d t = Some s'" "m_txops t = m_txops s" "pending t = pending s"
    "m_txTimer t = m_txTimer s" "m_lastNavEnd t = m_lastNavEnd s" "m_lastSwitchingEnd t = m_lastSwitchingEnd s"
    "m_navEnd t = m_navEnd s \<or> m_navEnd t = now + d" for t s'
  proof -
    have k: "keeps now t s'" using that(1) by (rule keeps_NavStart)
    then have "cam.more s' = cam.more t" by (simp add: keeps_def)
    note more_view [OF this]
    note m = this
    have "all_P (m_txops s')"
      using assms k that(2) by (simp add: sinv_def keeps_def)
    moreover have "timer_inv now s'" using assms m that(4) by (simp add: sinv_def timer_inv_def)
    moreover have "nav_inv now s \<Longrightarrow> m_lastNavEnd s \<le> m_lastNavEnd s' \<Longrightarrow>
        (now \<le> m_lastSwitchingEnd s \<Longrightarrow> now \<le> m_lastSwitchingEnd s') \<Longrightarrow> nav_inv now s'"
      using NavStart_nav [OF that(1)] that(3,7) m unfolding nav_inv_def by auto
    ultimately show ?thesis using assms k that(5,6) by (simp add: sinv_def keeps_def)
  qed
  show "ensures now (NotifyNavStartNow now d (s\<lparr>m_navEnd := now + d, m_navResetEvent := r\<rparr>))"
    "ensures now (NotifyNavStartNow now d (s\<lparr>m_navEnd := now + d\<rparr>))"
    "ensures now (NotifyNavStartNow now d s)"
    by (rule ensuresI; erule *; simp)+
qed

lemma ensures_UpdateNav [ensures_intros]:
  assumes "sinv (v_now v) s"
  shows "ensures (v_now v) (fem_UpdateNav v hdr w surplus s)" "ensures (v_now v) (UpdateNav v hdr w surplus s)"
proof -
  show fem: "ensures (v_now v) (fem_UpdateNav v hdr w surplus s)"
    using ensures_NavStart [OF assms] ensures_result(1) [OF assms]
    by (auto simp: fem_UpdateNav_def Let_def ensures_def elim!: bind_SomeE split: if_splits)
  show "ensures (v_now v) (UpdateNav v hdr w surplus s)"
    unfolding UpdateNav_def by (intro ensures_rules ensures_intros fem assms)
qed


lemma ensures_SetTxopHolder [ensures_intros]: "sinv now s \<Longrightarrow> ensures now (SetTxopHolder hdr s)"
  unfolding SetTxopHolder_def by (intro ensures_rules ensures_intros) (simp split: option.split)

lemma ensures_RxStart [ensures_intros]:
  "sinv (v_now v) s \<Longrightarrow> ensures (v_now v) (RxStartIndication v w d s)"
  unfolding RxStartIndication_def
  by (intro ensures_rules ensures_intros)
    (auto simp: PSDU_DURATION_SAFEGUARD_def elim!: sinv_timer_Reschedule)

lemma ensures_MacHdr [ensures_intros]:
  "sinv (v_now v) s \<Longrightarrow> ensures (v_now v) (ReceivedMacHdr v hdr w d s)"
  unfolding ReceivedMacHdr_def Let_def by (intro ensures_rules ensures_intros) simp_all

lemma ensures_reports [ensures_intros]: "sinv now s \<Longrightarrow> ensures now (buffer_reports ms s)"
  by (induction ms s rule: buffer_reports.induct)
    (auto simp: Let_def intro: ensures_result ensures_bind)

lemma ensures_PreProcess [ensures_intros]:
  "sinv (v_now v) s \<Longrightarrow> ensures (v_now v) (PreProcessFrame v psdu s)"
  unfolding PreProcessFrame_def by (intro ensures_rules ensures_intros) simp_all

lemma ensures_PostProcess [ensures_intros]:
  "sinv (v_now v) s \<Longrightarrow> ensures (v_now v) (PostProcessFrame v psdu w s)"
  unfolding PostProcessFrame_def by (intro ensures_rules ensures_intros)

lemma ensures_answers [ensures_intros]:
  "sinv (v_now v) s \<Longrightarrow> ensures (v_now v) (schedule_cts v hdr w s)"
  "sinv (v_now v) s \<Longrightarrow> ensures (v_now v) (schedule_ack v hdr w s)"
  unfolding schedule_cts_def schedule_ack_def by (intro ensures_rules ensures_intros; simp)+

lemma ensures_ReceivedAck [ensures_intros]:
  "sinv (v_now v) s \<Longrightarrow> ensures (v_now v) (ReceivedNormalAck v mpdu s)"
  unfolding ReceivedNormalAck_def Let_def by (intro ensures_rules ensures_intros) simp_all

lemma ensures_ReceivedCts [ensures_intros]: "sinv (v_now v) s \<Longrightarrow> ensures (v_now v) (ReceivedCts v s)"
  unfolding ReceivedCts_def by (intro ensures_rules ensures_intros) simp_all

lemma ensures_Receive [ensures_intros]:
  assumes "sinv (v_now v) s"
  shows "ensures (v_now v) (ReceiveMpdu v mpdu w inAmpdu s)" "ensures (v_now v) (Receive v psdu w status s)"
proof -
  have ctl: "ensures (v_now v) (receive_ctl v mpdu w inAmpdu s)" if "sinv (v_now v) s" for mpdu inAmpdu s
    unfolding receive_ctl_def Let_def by (intro ensures_rules ensures_intros) (simp_all add: that)
  have fem: "ensures (v_now v) (fem_ReceiveMpdu v mpdu w inAmpdu s)" if "sinv (v_now v) s" for mpdu inAmpdu s
    unfolding fem_ReceiveMpdu_def Let_def by (intro ensures_rules ensures_intros ctl) (simp_all add: that)
  have mpdu: "ensures (v_now v) (ReceiveMpdu v mpdu w inAmpdu s)" if "sinv (v_now v) s" for mpdu inAmpdu s
    unfolding ReceiveMpdu_def Let_def by (intro ensures_rules ensures_intros fem) (simp_all add: that)
  have up: "sinv now (fold (\<lambda>m s. if \<not> IsCtl (mp_hdr m) then emit (RxMiddleReceive m) s else s) ms s) = sinv now s"
    for now ms s
    by (induction ms arbitrary: s) simp_all
  show "ensures (v_now v) (ReceiveMpdu v mpdu w inAmpdu s)" using assms by (rule mpdu)
  show "ensures (v_now v) (Receive v psdu w status s)"
    unfolding Receive_def Let_def
    by (intro ensures_rules ensures_intros mpdu) (simp_all add: assms up)
qed

section \<open>Resets\<close>

lemma sinv_Reset:
  assumes "sinv now s"
  shows "sinv now (Reset now s)"
proof -
  have "sinv now (s\<lparr>m_txTimer := timer_Cancel (m_txTimer s)\<rparr>)" using assms by simp
  then have "sinv now (s\<lparr>m_txTimer := timer_Cancel (m_txTimer s)\<rparr>\<lparr>m_navEnd := now\<rparr>)"
    by (rule sinv_navEnd) simp
  then show ?thesis by (simp add: Reset_def sinv_def nav_inv_def timer_inv_def)
qed

text \<open>
  A channel switch: the channel access manager ends its NAV at once, the frame exchange manager
  when the reset that is scheduled is run; until then the medium is held busy by the switch.
\<close>

lemma sinv_Switching:
  assumes "keeps now (s\<lparr>m_lastNavEnd := min (m_lastNavEnd s) now\<rparr>) s'" "now \<le> m_lastSwitchingEnd s'"
    "fem_NotifySwitchingStartNow now d (s'\<lparr>sent := x\<rparr>) = Some s''" "sinv now s"
  shows "sinv now s''"
proof -
  obtain s1 timer where s1: "schedule now d EvChannelSwitching (s'\<lparr>sent := x\<rparr>) = Some s1"
    and timer: "timer_Reschedule 0 now (m_txTimer s1) = Some timer"
    and s'': "schedule now 0 EvReset (s1\<lparr>m_txTimer := timer\<rparr>) = Some s''"
    using assms(3) by (auto simp: fem_NotifySwitchingStartNow_def elim!: bind_SomeE)
  have "cam.more s' = cam.more s" using assms(1) by (simp add: keeps_def)
  note m = more_view [OF this]
  let ?t = "s'\<lparr>m_navEnd := now\<rparr>"
  have "sinv now ?t" using assms m by (auto simp: sinv_def nav_inv_def timer_inv_def keeps_def)
  moreover have "timer_Reschedule 0 now (m_txTimer ?t) = Some timer"
    using timer s1 by (auto simp: schedule_def)
  ultimately have "sinv now (?t\<lparr>m_txTimer := timer\<rparr>)" by (intro sinv_timer_Reschedule) auto
  then show ?thesis
    using s1 s'' assms(2) by (auto simp: schedule_def sinv_def nav_inv_def timer_inv_def)
qed

end

end
