(* ===== verification/Station_Step.thy ===== *)
theory Station_Step
  imports Station_Preserved
begin

text \<open>
  A station as a state machine over pairs of a time and a state: time passes until the next event
  that is scheduled, events run, the PHY reports, frames are received, the rest of the MAC changes
  access parameters.  The channel access manager runs with the frame exchange manager that it calls.
\<close>

section \<open>Events that run\<close>

text \<open>
  What runs when an event scheduled by \<^verbatim>\<open>Simulator::Schedule\<close> is due: a method, or the body of
  the lambda of the caller.  \<^verbatim>\<open>WifiMac::NotifyChannelSwitching\<close> is not part of the model.
\<close>

definition unacknowledged_sent :: "fem_env \<Rightarrow> station \<Rightarrow> station option" where
  "unacknowledged_sent v s = do { s \<leftarrow> TransmissionSucceeded v s; Some (s\<lparr>m_mpdu := None\<rparr>) }"

definition groupcast_retry :: "fem_env \<Rightarrow> mpdu \<Rightarrow> station \<Rightarrow> station" where
  "groupcast_retry v mpdu s =
     (let hdr = (case v_gcrDestination v mpdu of Some a \<Rightarrow> SetAddr1 a (mp_hdr mpdu) | None \<Rightarrow> mp_hdr mpdu)
      in emit (Retransmit (mpdu\<lparr>mp_inFlight := False, mp_hdr := SetRetry hdr\<rparr>)) s)"

definition txop_RequestAccess :: "fem_env \<Rightarrow> nat \<Rightarrow> station \<Rightarrow> station option" where
  "txop_RequestAccess v i s =
     do { e \<leftarrow> get_txop i s;
          if l_access (e_link e) = NOT_REQUESTED
          then cam_calls (RequestAccess (StartTransmission v) (NotifyInternalCollision v) (v_world v) i s)
          else Some s }"

fun run_event :: "fem_env \<Rightarrow> fem_event \<Rightarrow> station \<Rightarrow> station option" where
  "run_event v EvSendMpdu s = SendMpdu v s"
| "run_event v EvProtectionCompleted s = ProtectionCompleted v s"
| "run_event v EvTransmissionSucceeded s = unacknowledged_sent v s"
| "run_event v (EvStartTxop i) s = map_option fst (qos_StartTransmission v i 0 s)"
| "run_event v (EvStartTransmission i width) s = map_option fst (StartTransmission v i width s)"
| "run_event v (EvChannelReleased i) s = fem_NotifyChannelReleased v (Some i) s"
| "run_event v (EvPedcaRelease i) s = PedcaRelease v i s"
| "run_event v (EvSendNormalAck hdr txVector) s = SendNormalAck v hdr txVector s"
| "run_event v (EvGcrRetry mpdu) s = Some (groupcast_retry v mpdu s)"
| "run_event v (EvRequestAccess i) s = txop_RequestAccess v i s"
| "run_event v EvReset s = Some (Reset (v_now v) s)"
| "run_event v EvChannelSwitching s = Some s"

fun run_timeout :: "fem_env \<Rightarrow> timeout_call \<Rightarrow> station \<Rightarrow> station option" where
  "run_timeout v (CtsTimeout_of rts txVector) s = CtsTimeout v s"
| "run_timeout v (NormalAckTimeout_of mpdu txVector) s = NormalAckTimeout v mpdu txVector s"

text \<open>The event of the timer: the timer is late and waits on, or its call is made.\<close>

definition run_timer :: "fem_env \<Rightarrow> station \<Rightarrow> station option" where
  "run_timer v s =
     do { (timer, call) \<leftarrow> timer_Expire (v_now v) (m_txTimer s);
          (case call of
             None \<Rightarrow> Some (s\<lparr>m_txTimer := timer\<rparr>)
           | Some call \<Rightarrow> run_timeout v call (s\<lparr>m_txTimer := timer\<rparr>)) }"

section \<open>Reports of the PHY\<close>

text \<open>The calls by the listener of the PHY, and by the PHY itself at the end of a frame.\<close>

datatype phy_event =
    PhyRxStart time | PhyRxEndOk | PhyRxEndError time | PhyTxStart time
  | PhyCcaBusy time chanlist "time list"
  | PhySleep | PhyOff | PhyWakeup | PhyOn | PhySwitching "nat option" time
  | RxStartInd tx_vector time | RxMacHdr mac_hdr tx_vector time | RxPsdu "mpdu list" tx_vector "bool list"

text \<open>
  \<open>forward\<close> are the calls of the channel access manager to the frame exchange manager that are
  answered by it: the reset for sleep and off, and a channel switch.  \<open>channelOf\<close> and \<open>eht\<close> are
  the channels of the PHYs and the standard of the frame exchange manager.
\<close>

fun forward :: "time \<Rightarrow> cam_call list \<Rightarrow> station \<Rightarrow> station option" where
  "forward now [] s = Some s"
| "forward now (FemSwitchingStart d # calls) s =
     do { s \<leftarrow> fem_NotifySwitchingStartNow now d s; forward now calls s }"
| "forward now (FemSleep # calls) s = forward now calls (Reset now s)"
| "forward now (FemOff # calls) s = forward now calls (Reset now s)"
| "forward now (_ # calls) s = forward now calls s"

definition with_forward :: "time \<Rightarrow> (station \<times> cam_call list) option \<Rightarrow> station option" where
  "with_forward now r = do { (s, calls) \<leftarrow> r; forward now calls (s\<lparr>sent := sent s @ map CamCall calls\<rparr>) }"

fun run_phy :: "(nat \<Rightarrow> nat) \<Rightarrow> bool \<Rightarrow> fem_env \<Rightarrow> phy_event \<Rightarrow> station \<Rightarrow> station option" where
  "run_phy channelOf eht v (PhyRxStart d) s = NotifyRxStartNow (v_now v) d s"
| "run_phy channelOf eht v PhyRxEndOk s = Some (NotifyRxEndOkNow (v_now v) s)"
| "run_phy channelOf eht v (PhyRxEndError ack) s = NotifyRxEndErrorNow (v_now v) ack s"
| "run_phy channelOf eht v (PhyTxStart d) s = NotifyTxStartNow (v_now v) d s"
| "run_phy channelOf eht v (PhyCcaBusy d ch ds) s = NotifyCcaBusyStartNow (v_world v) d ch ds s"
| "run_phy channelOf eht v PhySleep s = with_forward (v_now v) (NotifySleepNow (v_now v) s)"
| "run_phy channelOf eht v PhyOff s = with_forward (v_now v) (NotifyOffNow (v_now v) s)"
| "run_phy channelOf eht v PhyWakeup s =
     cam_calls (NotifyWakeupNow (StartTransmission v) (NotifyInternalCollision v) (v_world v) s)"
| "run_phy channelOf eht v PhyOn s =
     cam_calls (NotifyOnNow (StartTransmission v) (NotifyInternalCollision v) (v_world v) s)"
| "run_phy channelOf eht v (PhySwitching listener d) s =
     with_forward (v_now v) (NotifySwitchingStartNow channelOf eht (v_now v) listener d s)"
| "run_phy channelOf eht v (RxStartInd txVector d) s = RxStartIndication v txVector d s"
| "run_phy channelOf eht v (RxMacHdr hdr txVector d) s = ReceivedMacHdr v hdr txVector d s"
| "run_phy channelOf eht v (RxPsdu psdu txVector status) s = Receive v psdu txVector status s"

text \<open>The durations that the PHY reports are not negative.\<close>

fun phy_event_ok :: "phy_event \<Rightarrow> bool" where
  "phy_event_ok (PhySwitching listener d) \<longleftrightarrow> 0 \<le> d"
| "phy_event_ok _ \<longleftrightarrow> True"

section \<open>Steps\<close>

definition deadlines :: "station \<Rightarrow> time set" where
  "deadlines s =
     fst ` set (pending s) \<union> set_option (m_timeoutEvent (m_txTimer s)) \<union> set_option (m_navResetEvent s)
     \<union> fst ` set_option (m_sendCtsEvent s) \<union> fst ` set_option (m_pifsRecoveryEvent s)
     \<union> set_option (m_accessTimeout s)"

text \<open>
  The last two steps are those of the surroundings: the state of the PHY, and the access parameters
  of the channel access functions, whose P-EDCA state no other part of the MAC touches.
\<close>

inductive station_step :: "time \<times> station \<Rightarrow> time \<times> station \<Rightarrow> bool" where
  elapse: "now \<le> now' \<Longrightarrow> \<forall>t \<in> deadlines s. now' \<le> t \<Longrightarrow> station_step (now, s) (now', s)"
| event: "(v_now v, ev) \<in> set (pending s) \<Longrightarrow>
    run_event v ev (s\<lparr>pending := remove1 (v_now v, ev) (pending s)\<rparr>) = Some s' \<Longrightarrow>
    station_step (v_now v, s) (v_now v, s')"
| nav_reset: "m_navResetEvent s = Some now \<Longrightarrow> NavResetTimeout now (s\<lparr>m_navResetEvent := None\<rparr>) = Some s' \<Longrightarrow>
    station_step (now, s) (now, s')"
| send_cts: "m_sendCtsEvent s = Some (v_now v, hdr, txVector) \<Longrightarrow>
    SendCtsAfterRts v hdr txVector (s\<lparr>m_sendCtsEvent := None\<rparr>) = Some s' \<Longrightarrow>
    station_step (v_now v, s) (v_now v, s')"
| pifs: "m_pifsRecoveryEvent s = Some (v_now v, force) \<Longrightarrow> PifsRecovery v force s = Some s' \<Longrightarrow>
    station_step (v_now v, s) (v_now v, s')"
| timer: "m_timeoutEvent (m_txTimer s) = Some (v_now v) \<Longrightarrow> run_timer v s = Some s' \<Longrightarrow>
    station_step (v_now v, s) (v_now v, s')"
| access_timeout: "m_accessTimeout s = Some (v_now v) \<Longrightarrow>
    cam_calls (AccessTimeout (StartTransmission v) (NotifyInternalCollision v) (v_now v) s) = Some s' \<Longrightarrow>
    station_step (v_now v, s) (v_now v, s')"
| start_access: "cam_calls (StartAccess (StartTransmission v) (NotifyInternalCollision v) (v_world v) i had check s)
      = Some s' \<Longrightarrow> station_step (v_now v, s) (v_now v, s')"
| phy_report: "phy_event_ok x \<Longrightarrow> run_phy channelOf eht v x s = Some s' \<Longrightarrow> station_step (v_now v, s) (v_now v, s')"
| phy_state: "station_step (now, s) (now, s\<lparr>m_phy := p\<rparr>)"
| parameters: "list_all2 pedca_same (m_txops s) es \<Longrightarrow> station_step (now, s) (now, s\<lparr>m_txops := es\<rparr>)"

inductive_cases station_stepE: "station_step x y"

text \<open>A station that has just been set up.\<close>

definition station_initial :: "time \<Rightarrow> station \<Rightarrow> bool" where
  "station_initial now s \<longleftrightarrow>
     (\<forall>e \<in> set (m_txops s). pedca_view (e_link e) = pedca_view QosLinkEntity)
     \<and> m_navEnd s \<le> now \<and> pending s = [] \<and> m_txTimer s = WifiTxTimer"

inductive station_reachable :: "time \<times> station \<Rightarrow> bool" where
  set_up: "station_initial now s \<Longrightarrow> station_reachable (now, s)"
| steps: "station_reachable x \<Longrightarrow> station_step x y \<Longrightarrow> station_reachable y"


section \<open>Steps preserve the invariant\<close>

sublocale station_invariant \<subseteq> tx: access_invariant P "v_now v" "sinv (v_now v)" "StartTransmission v"
  "NotifyInternalCollision v" for v
proof unfold_locales
  fix c c' :: station
  show "keeps (v_now v) c c' \<Longrightarrow> sinv (v_now v) c \<Longrightarrow> sinv (v_now v) c'" by (rule sinv_keeps)
next
  fix i width and c c' :: station and started
  show "StartTransmission v i width c = Some (c', started) \<Longrightarrow> sinv (v_now v) c \<Longrightarrow> sinv (v_now v) c'"
    using ensures_Start by (blast dest: ensures_pairD)
next
  fix i and c c' :: station
  show "NotifyInternalCollision v i c = Some c' \<Longrightarrow> sinv (v_now v) c \<Longrightarrow> sinv (v_now v) c'"
    using ensures_timeouts(3) by (blast dest: ensuresD)
qed

context station_invariant
begin

lemma ensures_access [ensures_intros]:
  assumes "sinv (v_now v) s"
  shows "ensures_pair (v_now v) (RequestAccess (StartTransmission v) (NotifyInternalCollision v) (v_world v) i s)"
    "ensures_pair (v_now v) (AccessTimeout (StartTransmission v) (NotifyInternalCollision v) (v_now v) s)"
    "ensures_pair (v_now v) (StartAccess (StartTransmission v) (NotifyInternalCollision v) (v_world v) i had check s)"
    "ensures_pair (v_now v) (NotifyWakeupNow (StartTransmission v) (NotifyInternalCollision v) (v_world v) s)"
    "ensures_pair (v_now v) (NotifyOnNow (StartTransmission v) (NotifyInternalCollision v) (v_world v) s)"
  using assms
  by (auto intro!: ensures_pairI
      intro: tx.K_RequestAccess tx.K_AccessTimeout tx.K_StartAccess tx.K_Wakeup tx.K_On)

lemma ensures_event:
  assumes "sinv (v_now v) s"
  shows "ensures (v_now v) (run_event v ev s)"
proof (cases ev)
  case EvReset
  then show ?thesis using assms by (simp add: sinv_Reset ensures_result)
qed (simp add: unacknowledged_sent_def txop_RequestAccess_def; (intro ensures_rules ensures_intros)?;
    simp add: assms Let_def ensures_result groupcast_retry_def)+

lemma sinv_sent: "sinv now s \<Longrightarrow> sinv now (s\<lparr>sent := x\<rparr>)"
  by simp

lemma ensures_sleep:
  assumes "sinv now s"
  shows "ensures now (with_forward now (NotifySleepNow now s))" "ensures now (with_forward now (NotifyOffNow now s))"
proof -
  have reset: "sinv now (Reset now (s'\<lparr>sent := x\<rparr>))" if "keeps now s s'" for s' x
    using sinv_keeps [OF that assms] by (simp add: sinv_Reset)
  have *: "ensures now (with_forward now (Some (s', [c])))" if "keeps now s s'" "c \<in> {FemSleep, FemOff}" for s' c
    using that reset by (auto simp: with_forward_def ensures_def)
  show "ensures now (with_forward now (NotifySleepNow now s))"
  proof (cases "NotifySleepNow now s")
    case (Some r)
    then have "snd r = [FemSleep]" by (auto simp: NotifySleepNow_def elim!: bind_SomeE)
    with Some * [of "fst r" FemSleep] show ?thesis by (cases r) (auto dest: keeps_Sleep)
  qed (simp add: with_forward_def ensures_def)
  show "ensures now (with_forward now (NotifyOffNow now s))"
  proof (cases "NotifyOffNow now s")
    case (Some r)
    then have "snd r = [FemOff]" by (auto simp: NotifyOffNow_def elim!: bind_SomeE)
    with Some * [of "fst r" FemOff] show ?thesis by (cases r) (auto dest: keeps_Off)
  qed (simp add: with_forward_def ensures_def)
qed

lemma ensures_switching:
  assumes "sinv now s" "0 \<le> d"
  shows "ensures now (with_forward now (NotifySwitchingStartNow channelOf eht now listener d s))"
proof (rule ensuresI)
  fix s2 assume "with_forward now (NotifySwitchingStartNow channelOf eht now listener d s) = Some s2"
  then obtain s1 calls where s1: "NotifySwitchingStartNow channelOf eht now listener d s = Some (s1, calls)"
    and f: "forward now calls (s1\<lparr>sent := sent s1 @ map CamCall calls\<rparr>) = Some s2"
    by (auto simp: with_forward_def elim!: bind_SomeE)
  from Switching_spec [OF s1 assms(2)] show "sinv now s2"
  proof
    assume k: "keeps now s s1 \<and> (\<forall>d. FemSwitchingStart d \<notin> set calls)"
    have "sinv now s2" if "\<forall>d. FemSwitchingStart d \<notin> set calls" "sinv now t" "forward now calls t = Some s2" for t
      using that by (induction now calls t arbitrary: rule: forward.induct) (auto simp: sinv_Reset)
    with k f sinv_keeps [of now s s1] assms(1) show ?thesis by (blast intro: sinv_sent)
  next
    assume "keeps now (s\<lparr>m_lastNavEnd := min (m_lastNavEnd s) now\<rparr>) s1 \<and> now \<le> m_lastSwitchingEnd s1
       \<and> calls = [FemSwitchingStart d]"
    with f assms(1) show ?thesis by (auto elim!: bind_SomeE intro: sinv_Switching)
  qed
qed

lemma ensures_phy:
  assumes "sinv (v_now v) s" "phy_event_ok x"
  shows "ensures (v_now v) (run_phy channelOf eht v x s)"
proof (cases x)
  case (PhyRxStart d)
  then show ?thesis using assms by (auto intro!: ensuresI intro: sinv_keeps keeps_RxStart)
next
  case PhyRxEndOk
  then show ?thesis using sinv_keeps [OF keeps_RxEndOk assms(1)] by (simp add: ensures_result)
next
  case (PhyRxEndError ack)
  then show ?thesis using assms by (auto intro!: ensuresI intro: sinv_keeps keeps_RxEndError)
next
  case (PhyTxStart d)
  then show ?thesis using assms by (auto intro!: ensuresI intro: sinv_keeps keeps_TxStart)
next
  case (PhyCcaBusy d ch ds)
  then show ?thesis using assms by (auto intro!: ensuresI intro: sinv_keeps keeps_CcaBusy)
qed (use assms in \<open>auto intro: ensures_sleep ensures_switching ensures_intros\<close>)

text \<open>The timer runs when its event is due: it is not late, and its call fits its reason.\<close>

lemma ensures_timer:
  assumes "sinv (v_now v) s" "m_timeoutEvent (m_txTimer s) = Some (v_now v)"
  shows "ensures (v_now v) (run_timer v s)"
proof -
  have t: "timer_ok (v_now v, m_txTimer s)" using assms(1) by (simp add: sinv_def timer_inv_def)
  have ok: "sinv (v_now v) (s\<lparr>m_txTimer := timer\<rparr>)"
    if "timer_Expire (v_now v) (m_txTimer s) = Some (timer, call)" for timer call
    using that t assms
    by (intro sinv_timer)
      (auto simp: timer_Expire_def timer_ok_def timer_IsRunning_def sinv_def timer_inv_def Let_def
        elim!: bind_SomeE split: if_splits)
  have call: "ensures (v_now v) (run_timeout v call s)" if "sinv (v_now v) s" for call s
    using that by (cases call) (simp_all add: ensures_timeouts)
  show ?thesis
    unfolding run_timer_def by (intro ensures_rules call) (auto dest: ok)
qed

lemma sinv_elapse:
  assumes "sinv now s" "now \<le> now'" "\<forall>t \<in> deadlines s. now' \<le> t"
  shows "sinv now' s"
proof -
  have "nav_inv now' s"
  proof (cases "(now, EvReset) \<in> set (pending s)")
    case True
    then have "now \<in> deadlines s" by (force simp: deadlines_def)
    with assms(2,3) have "now' = now" by force
    with assms(1) show ?thesis by (simp add: sinv_def)
  next
    case False
    with assms(1,2) show ?thesis by (auto simp: sinv_def nav_inv_def)
  qed
  moreover have "timer_inv now' s"
    using assms by (auto simp: sinv_def timer_inv_def timer_ok_def deadlines_def)
  ultimately show ?thesis using assms(1) by (simp add: sinv_def)
qed

text \<open>An event that is taken from the list; the reset of a channel switch may be the one.\<close>

lemma sinv_take:
  assumes "sinv now s" "ev \<noteq> EvReset"
  shows "sinv now (s\<lparr>pending := remove1 (now, ev) (pending s)\<rparr>)"
  using assms by (auto simp: sinv_def nav_inv_def timer_inv_def in_set_remove1)

lemma sinv_take_reset:
  assumes "sinv now s"
  shows "sinv now (Reset now (s\<lparr>pending := p\<rparr>))"
proof -
  have "sinv now (Reset now s)" using assms by (rule sinv_Reset)
  then show ?thesis by (auto simp: sinv_def nav_inv_def timer_inv_def Reset_def)
qed

lemma sinv_step:
  assumes "station_step x y" "sinv (fst x) (snd x)"
  shows "sinv (fst y) (snd y)"
  using assms
proof cases
  case (elapse now now' s)
  with assms(2) sinv_elapse show ?thesis by auto
next
  case (event v ev s s')
  show ?thesis
  proof (cases "ev = EvReset")
    case True
    with event assms(2) show ?thesis by (auto intro: sinv_take_reset)
  next
    case False
    with event assms(2) show ?thesis by (auto intro: ensuresD [OF ensures_event] sinv_take)
  qed
next
  case (nav_reset s now s')
  with assms(2) ensures_NavReset [of now "s\<lparr>m_navResetEvent := None\<rparr>"] show ?thesis
    by (simp add: ensures_def)
next
  case (send_cts s v hdr txVector s')
  with assms(2) ensures_responses(1) [of v "s\<lparr>m_sendCtsEvent := None\<rparr>"] show ?thesis
    by (simp add: ensures_def)
next
  case (parameters s es now)
  have "all_P es" if "all_P (m_txops s)"
    using that parameters(3) by (auto simp: all_P_def list_all2_conv_all_nth intro: P_same)
  with parameters assms(2) show ?thesis by (auto simp: sinv_def nav_inv_def timer_inv_def)
next
  case (phy_state now s p)
  with assms(2) show ?thesis by (auto simp: sinv_def nav_inv_def timer_inv_def)
next
  case (access_timeout s v s')
  with assms(2) ensures_cam_calls [OF ensures_access(2), of v s] show ?thesis by (simp add: ensures_def)
next
  case (start_access v i had check s s')
  with assms(2) ensures_cam_calls [OF ensures_access(3), of v s i had check] show ?thesis
    by (simp add: ensures_def)
qed (auto dest: ensuresD [OF ensures_PifsRecovery] ensuresD [OF ensures_timer] ensuresD [OF ensures_phy])

end

end
