(* ===== verification/Station_Grants.thy ===== *)
theory Station_Grants
  imports Station_Step
begin

text \<open>
  What an attempt to transmit that does not start changes: the function that made it, and one that was
  in PIFS recovery, which gives up the channel and does not request access any more.  The loop that
  grants access goes on after such an attempt.
\<close>

lemma GetSlot_same: "m_phy s' = m_phy s \<Longrightarrow> m_cachedSlot s' = m_cachedSlot s \<Longrightarrow> GetSlot s' = GetSlot s"
  by (simp add: GetSlot_def split: option.split)

lemma others_kept_same:
  fixes s s' :: station
  assumes "m_phy s' = m_phy s" "m_cachedSlot s' = m_cachedSlot s" "m_txops s' = m_txops s"
  shows "others_kept i s s'"
  using GetSlot_same [OF assms(1,2)] assms(3) by (simp add: others_kept_def)

lemma others_kept_update:
  fixes s :: station
  assumes "j = i \<or> l_access (e_link e) \<noteq> REQUESTED"
  shows "others_kept i s (s\<lparr>m_txops := (m_txops s)[j := e]\<rparr>)"
proof -
  have "(m_txops s)[j := e] ! k = m_txops s ! k \<or> l_access (e_link ((m_txops s)[j := e] ! k)) \<noteq> REQUESTED"
    if "k \<noteq> i" for k
    using that assms by (cases "k = j"; cases "j < length (m_txops s)") (auto simp: list_update_beyond)
  then show ?thesis by (auto simp: others_kept_def intro: GetSlot_same)
qed

lemma others_kept_with_txop: "with_txop (Some i) f s = Some s' \<Longrightarrow> others_kept i s s'"
  by (auto simp: with_txop_def elim!: bind_SomeE intro: others_kept_update)

lemma others_kept_run_calls [simp]: "others_kept i s (run_access_calls t j calls s') = others_kept i s s'"
  by (simp add: others_kept_def run_access_calls_def GetSlot_def split: option.split)

lemma GenerateBackoff_access: "l_access (e_link (e_GenerateBackoff w j e)) = l_access (e_link e)"
  by (simp add: e_GenerateBackoff_def GenerateBackoff_def pedca_defs Let_def)

lemma others_kept_base_Released: "base_NotifyChannelReleased v p s = Some s' \<Longrightarrow> others_kept i s s'"
  by (auto simp: base_NotifyChannelReleased_def txop_NotifyChannelReleased_def GenerateBackoff_access
      elim!: bind_SomeE intro!: others_kept_update)

lemma others_kept_Released:
  assumes "txop_Released v p s = Some s'"
  shows "others_kept i s s'"
proof -
  obtain j e where e: "p = Some j" "get_txop j s = Some e"
    using assms by (auto simp: txop_Released_def elim!: bind_SomeE)
  show ?thesis
  proof (cases "e_qos e")
    case False
    with assms e show ?thesis by (auto simp: txop_Released_def intro: others_kept_base_Released)
  next
    case True
    obtain l calls where
      l: "NotifyChannelReleased (GenerateBackoff (e_cfg e) (w_mac (v_world v)) (w_linkId (v_world v))
            (w_draw (v_world v) j) (w_now (v_world v)))
          (v_queueEmpty v j) (m_generateBackoffOnNoTx s) (w_now (v_world v)) (e_link e) = (l, calls)"
      by fastforce
    have "l_access l = NOT_REQUESTED"
      using l by (auto simp: NotifyChannelReleased_def Let_def split: if_splits)
    moreover have "s' = run_access_calls (v_now v) j calls (s\<lparr>m_txops := (m_txops s)[j := e\<lparr>e_link := l\<rparr>]\<rparr>)"
      using assms e True l by (simp add: txop_Released_def Let_def)
    ultimately show ?thesis by (simp add: others_kept_update)
  qed
qed

lemma others_kept_ChannelReleased:
  assumes "fem_NotifyChannelReleased v p s = Some s'"
  shows "others_kept i s s'"
proof -
  obtain t where t: "txop_Released v p s = Some t" "s' = t\<lparr>m_protectedStas := {}\<rparr>"
    using assms by (auto simp: fem_NotifyChannelReleased_def elim!: bind_SomeE)
  have "others_kept i t s'" unfolding t(2) by (rule others_kept_same) simp_all
  with others_kept_Released [OF t(1)] show ?thesis by (rule others_kept_trans)
qed

lemma others_kept_middle: "others_kept i s (s\<lparr>m_txMiddle := x\<rparr> :: station)"
  by (rule others_kept_same) simp_all

lemma others_kept_NextMpdu: "GetNextMpdu v m p t b s = Some (s', q, nx) \<Longrightarrow> others_kept i s s'"
  by (auto simp: GetNextMpdu_def AssignSequenceNumber_def AssignSeqNo_def Let_def elim!: bind_SomeE
      intro: others_kept_middle split: if_splits option.splits prod.splits)

lemma StartFrameExchange_failed:
  assumes "StartFrameExchange v j t b s = Some (s', False)"
  shows "others_kept i s s'"
proof (cases "v_peek v j")
  case None
  with assms show ?thesis by (simp add: StartFrameExchange_def)
next
  case (Some m)
  with assms obtain q nx t' where n:
    "GetNextMpdu v m (WifiTxParameters\<lparr>m_txVector := v_dataTxVector v (mp_hdr m) (m_allowedWidth s)\<rparr>) t b s
       = Some (t', q, nx)"
    by (auto simp: StartFrameExchange_def Let_def elim!: bind_SomeE)
  with assms Some have "nx = None" "s' = t'"
    by (auto simp: StartFrameExchange_def Let_def elim!: bind_SomeE split: option.splits)
  with others_kept_NextMpdu [OF n] show ?thesis by simp
qed

lemma others_kept_not_started:
  assumes "not_started v j s = Some (s', b)"
  shows "others_kept i s s'" "\<not> b"
proof -
  obtain t where t: "fem_NotifyChannelReleased v (Some j) s = Some t" "s' = t\<lparr>m_edca := None\<rparr>" "\<not> b"
    using assms by (auto simp: not_started_def elim!: bind_SomeE)
  have "others_kept i t s'" unfolding t(2) by (rule others_kept_same) simp_all
  with others_kept_ChannelReleased [OF t(1)] show "others_kept i s s'" by (rule others_kept_trans)
  show "\<not> b" by (rule t(3))
qed

lemma others_kept_CfEnd:
  assumes "SendCfEndIfNeeded v s = Some (s', False)"
  shows "others_kept i s s'"
proof -
  obtain j t where t: "fem_NotifyChannelReleased v (Some j) s = Some t" "s' = t\<lparr>m_edca := None\<rparr>"
    using assms by (auto simp: SendCfEndIfNeeded_def Let_def elim!: bind_SomeE split: if_splits)
  have "others_kept i t s'" unfolding t(2) by (rule others_kept_same) simp_all
  with others_kept_ChannelReleased [OF t(1)] show ?thesis by (rule others_kept_trans)
qed

lemma others_kept_limited:
  assumes "limited_txop v i e d b s = Some (s', False)"
  shows "others_kept i s s'"
proof -
  have new: "others_kept i s s'"
    if a: "do { s \<leftarrow> with_txop (Some i) (e_NotifyChannelAccessed (v_now v) d) s;
                     (s, started) \<leftarrow> StartFrameExchange v i d True s;
                     (if started then Some (s\<lparr>m_initialFrame := True\<rparr>, True) else not_started v i s) } = Some (s', False)"
  proof -
    from a obtain t u where t: "with_txop (Some i) (e_NotifyChannelAccessed (v_now v) d) s = Some t"
      "StartFrameExchange v i d True t = Some (u, False)" "not_started v i u = Some (s', False)"
      by (auto elim!: bind_SomeE split: if_splits)
    with others_kept_with_txop [OF t(1)] others_kept_not_started(1) [OF t(3)] StartFrameExchange_failed [OF t(2)]
    show ?thesis by (blast intro: others_kept_trans)
  qed
  have more: "others_kept i s s'"
    if a: "do { ns_assert (\<not> m_initialFrame s);
                     remaining \<leftarrow> GetRemainingTxop (v_now v) (e_link e);
                     (s, started) \<leftarrow> StartFrameExchange v i remaining False s;
                     (if started then Some (s, True) else SendCfEndIfNeeded v s) } = Some (s', False)"
  proof -
    from a obtain r u where t: "StartFrameExchange v i r False s = Some (u, False)"
      "SendCfEndIfNeeded v u = Some (s', False)"
      by (auto elim!: bind_SomeE split: if_splits)
    with others_kept_CfEnd [OF t(2)] StartFrameExchange_failed [OF t(1)] show ?thesis
      by (blast intro: others_kept_trans)
  qed
  from assms new more show ?thesis
    unfolding limited_txop_def by (elim bind_SomeE) (simp split: if_split_asm)
qed

lemma others_kept_unlimited:
  assumes "unlimited_txop v i s = Some (s', False)"
  shows "others_kept i s s'"
proof -
  from assms obtain u where t: "StartFrameExchange v i TimeMin True (s\<lparr>m_initialFrame := True\<rparr>) = Some (u, False)"
    "not_started v i u = Some (s', False)"
    by (auto simp: unlimited_txop_def elim!: bind_SomeE split: if_splits)
  moreover have "others_kept i s (s\<lparr>m_initialFrame := True\<rparr>)" by (rule others_kept_same) simp_all
  ultimately show ?thesis
    using StartFrameExchange_failed [OF t(1)] others_kept_not_started(1) [OF t(2)] by (blast intro: others_kept_trans)
qed

lemma others_kept_abort: "abort_pifs v s = Some s' \<Longrightarrow> others_kept i s s'"
proof (cases "m_pifsRecoveryEvent s = None")
  case False
  assume "abort_pifs v s = Some s'"
  with False obtain p where "fem_NotifyChannelReleased v p (s\<lparr>m_pifsRecoveryEvent := None\<rparr>) = Some s'"
    by (auto simp: abort_pifs_def CancelPifsRecovery_def elim!: bind_SomeE)
  then have "others_kept i (s\<lparr>m_pifsRecoveryEvent := None\<rparr>) s'" by (rule others_kept_ChannelReleased)
  moreover have "others_kept i s (s\<lparr>m_pifsRecoveryEvent := None\<rparr>)" by (rule others_kept_same) simp_all
  ultimately show ?thesis by (blast intro: others_kept_trans)
qed (simp add: abort_pifs_def)

lemma others_kept_stop:
  "others_kept i s ((stop_timer s)\<lparr>m_dcf := d, m_edca := e\<rparr>)"
  "others_kept i s ((stop_timer s)\<lparr>m_dcf := d, m_allowedWidth := w\<rparr>)"
  by (rule others_kept_same; simp add: stop_timer_def)+

lemma others_kept_qos:
  assumes "qos_StartTransmission v i d s = Some (s', False)"
  shows "others_kept i s s'"
proof -
  from assms obtain s1 s2 and e :: edcaf where 1: "abort_pifs v s = Some s1"
    "with_txop (Some i) (on_qlink (fst \<circ> ConsumePedcaCtsPending)) ((stop_timer s1)\<lparr>m_dcf := Some i, m_edca := Some i\<rparr>) = Some s2"
    and r: "(if snd (ConsumePedcaCtsPending (e_link e)) then SendPedcaCtsAndRecontend v i s2
           else do {
             e \<leftarrow> get_txop i s2;
             s \<leftarrow> (if m_edcaBackingOff s2 = Some i then end_backing_off e s2 else Some s2);
             (if l_txopLimit (e_link e) > 0 then limited_txop v i e d (m_edcaBackingOff s2 = Some i) s
              else unlimited_txop v i s) }) = Some (s', False)"
    unfolding qos_StartTransmission_def Let_def by (elim bind_SomeE) (rule that, assumption+)
  have "\<not> snd (ConsumePedcaCtsPending (e_link e))"
    using r by (auto simp: SendPedcaCtsAndRecontend_def Let_def elim!: bind_SomeE split: if_splits)
  with r obtain e2 b s3 where 3: "(if b then end_backing_off e2 s2 else Some s2) = Some s3"
    "(if l_txopLimit (e_link e2) > 0 then limited_txop v i e2 d b s3 else unlimited_txop v i s3) = Some (s', False)"
    by (auto simp: Let_def elim!: bind_SomeE)
  have "s3 = s2 \<or> s3 = s2\<lparr>m_edcaBackingOff := None\<rparr>"
    using 3(1) by (auto simp: end_backing_off_def elim!: bind_SomeE split: if_splits)
  then have "others_kept i s2 s3" by (elim disjE) (simp_all add: others_kept_same)
  moreover have "others_kept i s3 s'"
    using 3(2) by (auto intro: others_kept_limited others_kept_unlimited split: if_splits)
  ultimately show ?thesis
    using others_kept_trans [OF others_kept_trans [OF others_kept_abort [OF 1(1)] others_kept_stop(1)]
        others_kept_with_txop [OF 1(2)]] by (blast intro: others_kept_trans)
qed

lemma others_kept_fem:
  assumes "fem_StartTransmission v i w s = Some (s', False)"
  shows "others_kept i s s'"
proof -
  from assms obtain t where t: "fem_NotifyChannelReleased v (Some i) ((stop_timer s)\<lparr>m_dcf := Some i, m_allowedWidth := w\<rparr>)
      = Some t" "s' = t\<lparr>m_dcf := None\<rparr>"
    by (auto simp: fem_StartTransmission_def Let_def elim!: bind_SomeE split: option.splits)
  have "others_kept i t s'" unfolding t(2) by (rule others_kept_same) simp_all
  with others_kept_stop(2) others_kept_ChannelReleased [OF t(1)] show ?thesis
    by (blast intro: others_kept_trans)
qed

lemma StartTransmission_failed_local: "failed_start_local (StartTransmission v)"
proof -
  have "others_kept i s s'" if a: "StartTransmission v i w s = Some (s', False)" for i w s s'
  proof -
    from a obtain s1 e where 1: "abort_pifs v s = Some s1" "get_txop i s1 = Some e"
      by (auto simp: StartTransmission_def elim!: bind_SomeE)
    have k: "others_kept i s s1" by (rule others_kept_abort [OF 1(1)])
    show ?thesis
    proof (cases "e_qos e")
      case False
      with a 1 have "fem_StartTransmission v i w (s1\<lparr>m_edca := None\<rparr>) = Some (s', False)"
        by (simp add: StartTransmission_def)
      moreover have "others_kept i s1 (s1\<lparr>m_edca := None\<rparr>)" by (rule others_kept_same) simp_all
      ultimately show ?thesis using k by (blast intro: others_kept_trans others_kept_fem)
    next
      case True
      with a 1 obtain f s2 d where "with_txop (Some i) f (s1\<lparr>m_allowedWidth := w\<rparr>) = Some s2"
        "qos_StartTransmission v i d s2 = Some (s', False)"
        by (auto simp: StartTransmission_def elim!: bind_SomeE)
      moreover have "others_kept i s1 (s1\<lparr>m_allowedWidth := w\<rparr>)" by (rule others_kept_same) simp_all
      ultimately show ?thesis
        using k by (blast intro: others_kept_trans others_kept_with_txop others_kept_qos)
    qed
  qed
  then show ?thesis by (simp add: failed_start_local_def)
qed

end
