(* ===== verification/Station_Props.thy ===== *)
theory Station_Props
  imports Station_Grants
begin

text \<open>
  What holds of every station in every reachable state, and when a station transmits: after the
  medium has been idle, and not while its NAV is set.
\<close>

section \<open>Stations that have been set up\<close>

text \<open>The function waits for access, the medium has been idle for its backoff.\<close>

definition ex_fresh :: station where
  "ex_fresh = ex_station\<lparr>m_txops := [(ex_edcaf AC_VO 2 3)\<lparr>e_qos := False,
     e_link := (e_link (ex_edcaf AC_VO 2 3))\<lparr>l_pedcaTriggerCount := 0\<rparr>\<rparr>], m_edca := None, m_dcf := None,
     m_accessTimeout := Some 161000\<rparr>"

lemma ex_fresh_initial: "0 \<le> now \<Longrightarrow> station_initial now ex_fresh"
  by (simp add: station_initial_def ex_fresh_def ex_station_defs ex_edcaf_def pedca_view_def ex_qlink_def QosLinkEntity_def)

text \<open>It is granted access when its access timeout expires, and has nothing to send, or a frame.\<close>

definition ex_idle_env :: fem_env where
  "ex_idle_env = (ex_fem_env 161000)\<lparr>v_peek := (\<lambda>_. None)\<rparr>"

lemma ex_fresh_ags:
  "GetAccessGrantStart False 161000 (ex_fresh\<lparr>m_accessTimeout := x, m_txops := es\<rparr>) = Some 116000"
  by (subst GetAccessGrantStart_eq [of _ 0])
    (simp_all add: ex_fresh_def ex_station_defs medium_ends_def rx_access_start_def span_end_def GetSifs_def ex_phy_def)

lemma map_opt_single: "xs = [x] \<Longrightarrow> map_opt f xs = do { y \<leftarrow> f x; Some [y] }"
  by simp

lemma ex_fresh_backoff:
  "\<exists>e1. UpdateBackoff 161000 (ex_fresh\<lparr>m_accessTimeout := None\<rparr>) = Some (ex_fresh\<lparr>m_accessTimeout := None, m_txops := [e1]\<rparr>)
     \<and> GetBackoffEndFor 161000 9000 e1 116000 \<le> 161000 \<and> l_access (e_link e1) = REQUESTED \<and> \<not> e_qos e1"
proof -
  let ?s = "ex_fresh\<lparr>m_accessTimeout := None\<rparr>"
  have "GetAccessGrantStart False 161000 ?s = Some 116000"
    using ex_fresh_ags [of "m_txops ex_fresh" None] by simp
  moreover have "GetSlot ?s = 9000" "m_txops ?s = [m_txops ex_fresh ! 0]"
    by (simp_all add: ex_fresh_def ex_station_defs GetSlot_def ex_phy_def)
  moreover have "\<exists>e1. dec_backoff 161000 9000 116000 (m_txops ex_fresh ! 0) = Some e1
     \<and> GetBackoffEndFor 161000 9000 e1 116000 \<le> 161000 \<and> l_access (e_link e1) = REQUESTED \<and> \<not> e_qos e1"
    by (simp add: ex_fresh_def dec_backoff_def GetBackoffStartFor_def GetBackoffEndFor_def ex_edcaf_def Let_def
        e_aifsn_def ex_qlink_def QosLinkEntity_def e_UpdateBackoffSlotsNow_def UpdateBackoffSlotsNow_def)
  ultimately show ?thesis
    by (elim exE conjE) (intro exI conjI, simp add: UpdateBackoff_def map_opt_single, assumption+)
qed

lemma access_width_idle:
  "access_width now c = Some (c', w) \<Longrightarrow> c' = c\<lparr>m_lastIdle := m_lastIdle c'\<rparr>"
  by (auto simp: access_width_def Let_def GetLargestIdlePrimaryChannel_def UpdateLastIdlePeriod_def
      elim!: bind_SomeE split: if_splits)

lemma restart_defined:
  "omap_get (m_lastBusyEnd c) PRIMARY = Some b \<Longrightarrow> \<exists>c' calls. DoRestartAccessTimeoutIfNeeded now c = Some (c', calls)"
  by (auto simp: DoRestartAccessTimeoutIfNeeded_def GetAccessGrantStart_eq Let_def split: prod.split option.split)

text \<open>
  What the function does with its grant, in an environment \<open>v\<close>, is what happens when the access
  timeout expires.
\<close>

lemma ex_fresh_grant:
  assumes start: "\<And>w idle e1. \<not> e_qos e1 \<Longrightarrow> \<exists>s' started. StartTransmission v 0 w
      (ex_fresh\<lparr>m_accessTimeout := None, m_txops := [e1], m_lastIdle := idle\<rparr>) = Some (s', started)
      \<and> m_lastBusyEnd s' = m_lastBusyEnd ex_fresh \<and> Q (m_txTimer s')"
    and v: "v_now v = 161000"
  shows "\<exists>s t s' calls calls' w. UpdateBackoff 161000 (ex_fresh\<lparr>m_accessTimeout := None\<rparr>) = Some s
     \<and> omap_get (m_lastBusyEnd s) PRIMARY = Some 0
     \<and> DoGrantDcfAccess (StartTransmission v) (NotifyInternalCollision v) 161000 s = Some (t, calls)
     \<and> StartTx 0 w \<in> set calls
     \<and> AccessTimeout (StartTransmission v) (NotifyInternalCollision v) 161000 ex_fresh = Some (s', calls @ calls')
     \<and> Q (m_txTimer s')"
proof -
  obtain e1 where e1: "UpdateBackoff 161000 (ex_fresh\<lparr>m_accessTimeout := None\<rparr>)
       = Some (ex_fresh\<lparr>m_accessTimeout := None, m_txops := [e1]\<rparr>)"
     "GetBackoffEndFor 161000 9000 e1 116000 \<le> 161000" "l_access (e_link e1) = REQUESTED" "\<not> e_qos e1"
    by (rule exE [OF ex_fresh_backoff], elim conjE) (rule that)
  let ?s = "ex_fresh\<lparr>m_accessTimeout := None, m_txops := [e1]\<rparr>"
  note ags = ex_fresh_ags [of "[e1]" None]
  have slot: "GetSlot ?s = 9000" by (simp add: ex_fresh_def ex_station_defs GetSlot_def ex_phy_def)
  have can: "can_access 161000 116000 ?s 0" using e1(2,3) slot by (simp add: can_access_def)
  have on: "\<not> edca_disabled 161000 ?s 0" using e1(4) by (simp add: edca_disabled_def)
  have b: "omap_get (m_lastBusyEnd ex_fresh) PRIMARY = Some 0" by (simp add: ex_fresh_def ex_station_defs)
  have "\<exists>c w. access_width 161000 ?s = Some (c, w)"
    by (auto simp: access_width_def ex_fresh_def ex_station_defs ex_phy_def GetLargestIdlePrimaryChannel_def
        UpdateLastIdlePeriod_def idle_since_def less_chanlist_def)
  then obtain c w where w: "access_width 161000 ?s = Some (c, w)" by blast
  then obtain idle where c: "c = ?s\<lparr>m_lastIdle := idle\<rparr>" using access_width_idle by blast
  obtain s' started where s': "StartTransmission v 0 w c = Some (s', started)"
    "m_lastBusyEnd s' = m_lastBusyEnd ex_fresh" "Q (m_txTimer s')"
    using start [OF e1(4), of w idle] by (auto simp: c)
  define t where "t = (if started then s' else on_txop 0 (e_UpdateBackoffSlotsNow 0 161000) s')"
  have g: "DoGrantDcfAccess (StartTransmission v) (NotifyInternalCollision v) 161000 ?s = Some (t, [StartTx 0 w])"
    using s'(1) w can on ags by (simp add: DoGrantDcfAccess_def t_def)
  have t': "omap_get (m_lastBusyEnd t) PRIMARY = Some 0" "Q (m_txTimer t)"
    using s'(2,3) b by (simp_all add: t_def on_txop_def)
  obtain s2 calls where r: "DoRestartAccessTimeoutIfNeeded 161000 t = Some (s2, calls)"
    using restart_defined [OF t'(1)] by blast
  have "m_txTimer s2 = m_txTimer t" using arg_cong [OF restart_frame [OF r], of m_txTimer] by simp
  then have "Q (m_txTimer s2)" using t'(2) by simp
  moreover have "m_phy ex_fresh = Some ex_phy" "\<not> phy_sleep ex_phy" "\<not> phy_off ex_phy"
    by (simp_all add: ex_fresh_def ex_phy_def)
  then have "AccessTimeout (StartTransmission v) (NotifyInternalCollision v) 161000 ex_fresh = Some (s2, [StartTx 0 w] @ calls)"
    using e1(1) g r by (simp add: AccessTimeout_def)
  ultimately show ?thesis
    using e1(1) g b by (intro exI [of _ ?s] exI [of _ t] exI [of _ s2] exI [of _ "[StartTx 0 w]"] exI [of _ calls] exI [of _ w]) simp
qed

text \<open>A frame that is sent again, and acknowledged.\<close>

definition ex_frame :: mpdu where
  "ex_frame = \<lparr>mp_hdr = mac_hdr_default\<lparr>m_ctrlType := TYPE_DATA, m_ctrlRetry := 1, m_addr1 := 5\<rparr>, mp_payload = 1000,
     mp_queued = True, mp_inFlight = False, mp_hasSeqNo = True\<rparr>"

definition ex_send_env :: fem_env where
  "ex_send_env = (ex_fem_env 161000)\<lparr>v_peek := (\<lambda>_. Some ex_frame)\<rparr>"

lemmas frame_kind_defs = IsFragment_def IsRetry_def IsData_def IsQosData_def IsMoreFragments_def IsMgt_def IsCtl_def

lemmas start_frame_defs = StartTransmission_def abort_pifs_def fem_StartTransmission_def stop_timer_def Let_def
  get_txop_def ex_fresh_def ex_station_defs with_txop_def e_NotifyChannelAccessed_def ex_frame_def ex_send_env_def
  mac_hdr_default_def WifiTxTimer_def timer_IsRunning_def

lemmas send_frame_defs = GetFirstFragmentIfNeeded_def AddMpdu_def WifiTxParameters_def UpdateTxDuration_def
  SendMpduWithProtection_def CalculateAcknowledgmentTime_def ack_SetQosAckPolicy_def StartProtection_def
  ProtectionCompleted_def SendMpdu_def wait_for_ack_def Let_def

lemmas wait_for_ack_defs = GetFrameDurationId_def fem_GetFrameDurationId_def multiple_protection_def frame_sizes
  ex_phy_def SetDuration_def ceil_us_def timer_Set_def timer_IsRunning_def NotifyAckTimeoutStartNow_def
  ForwardMpduDown_def fem_ForwardMpduDown_def FinalizeMacHeader_def SetTxNav_def emit_def Let_def ex_env_def

lemma Start_frame:
  assumes "\<not> e_qos e1"
  shows "\<exists>s' started. StartTransmission ex_send_env 0 w
      (ex_fresh\<lparr>m_accessTimeout := None, m_txops := [e1], m_lastIdle := idle\<rparr>) = Some (s', started)
      \<and> m_lastBusyEnd s' = m_lastBusyEnd ex_fresh
      \<and> m_timeoutEvent (m_txTimer s') = Some 1254000 \<and> m_reason (m_txTimer s') = WAIT_NORMAL_ACK"
  using assms
  apply (simp add: start_frame_defs frame_kind_defs type_defs)
  apply (simp add: send_frame_defs frame_kind_defs type_defs)
  apply (simp add: wait_for_ack_defs frame_kind_defs type_defs)
  apply (simp add: IsPsPoll_def type_in_def GetType_def SetNoPowerManagement_def type_defs data_types_def mpdu_GetSize_def
    hdr_GetSize_def IsQosData_def IsToDs_def IsFromDs_def)
  by blast

lemma Start_nothing:
  assumes "m_pifsRecoveryEvent s = None" "m_mpdu s = None" "get_txop i s = Some e" "\<not> e_qos e" "v_peek v i = None"
  shows "\<exists>s'. StartTransmission v i width s = Some (s', False) \<and> m_lastBusyEnd s' = m_lastBusyEnd s"
  using assms
  by (simp add: StartTransmission_def abort_pifs_def fem_StartTransmission_def stop_timer_def Let_def get_txop_def
      fem_NotifyChannelReleased_def txop_Released_def base_NotifyChannelReleased_def
      txop_NotifyChannelReleased_def run_access_calls_def split: if_splits)

text \<open>The medium becomes busy for a voice function that is ready for P-EDCA, and it draws a backoff.\<close>

definition ex_busy :: station where
  "ex_busy = ex_fresh\<lparr>m_txops := [(ex_edcaf AC_VO 2 0)\<lparr>e_cfg := ex_qcfg\<lparr>m_ac := AC_VO, m_qsrcThreshold := 0\<rparr>,
     e_link := (e_link (ex_edcaf AC_VO 2 0))\<lparr>l_pedcaTriggerCount := 0, l_access := NOT_REQUESTED\<rparr>\<rparr>],
     m_proactiveBackoff := True\<rparr>"

lemma ex_busy_initial: "station_initial 0 ex_busy"
  by (simp add: station_initial_def ex_busy_def ex_fresh_def ex_station_defs ex_edcaf_def pedca_view_def ex_qlink_def
     QosLinkEntity_def)

lemma ex_busy_step:
  "\<exists>s'. station_step (0, ex_busy) (0, s')
     \<and> map (\<lambda>e. (e_qos e, pedca_view (e_link e))) (m_txops s') = [(True, True, True, False, 0, 0)]"
proof -
  let ?v = "ex_fem_env 0"
  have ags: "GetAccessGrantStart False 0 ex_busy = Some 116000"
    by (subst GetAccessGrantStart_eq [of _ 0])
      (simp_all add: ex_busy_def ex_fresh_def ex_station_defs medium_ends_def rx_access_start_def span_end_def GetSifs_def ex_phy_def)
  have u: "UpdateBackoff 0 ex_busy = Some ex_busy"
    by (simp add: UpdateBackoff_def ags)
      (simp add: ex_busy_def ex_fresh_def dec_backoff_def GetBackoffStartFor_def ex_edcaf_def Let_def max_def
        e_aifsn_def GetAifsn_def GetEdcaAifsn_def MuEdcaTimerRunning_def ex_qlink_def QosLinkEntity_def GetSlot_def ex_station_defs ex_phy_def)
  have i: "UpdateLastIdlePeriod 0 ex_busy = Some ex_busy"
    by (simp add: UpdateLastIdlePeriod_def idle_since_def ex_busy_def ex_fresh_def ex_station_defs)
  obtain s' where s': "run_phy (\<lambda>_. 0) False ?v (PhyCcaBusy 50000 PRIMARY [0,0,0,0]) ex_busy = Some s'"
    and p: "map (\<lambda>e. (e_qos e, pedca_view (e_link e))) (m_txops s') = [(True, True, True, False, 0, 0)]"
    by (simp add: NotifyCcaBusyStartNow_def ex_fem_env_def u i)
     (simp add: ex_busy_def ex_fresh_def ex_station_defs upt_rec on_txop_def ex_edcaf_def ex_qlink_def QosLinkEntity_def
       e_GenerateBackoff_def GenerateBackoff_def isUhrVo_def nonPreferredLink_def ex_qcfg_def ex_env_def pedca_defs pedca_view_def Let_def)
  have "station_step (v_now ?v, ex_busy) (v_now ?v, s')"
    by (rule phy_report [OF _ s']) simp
  with p show ?thesis by (auto simp: ex_fem_env_def)
qed

section \<open>The invariant\<close>

lemma pedca_sinv_reachable:
  assumes "station_reachable x"
  shows "pedca.sinv (fst x) (snd x)"
  using assms
proof induction
  case (set_up now s)
  have "edcaf_ok e" if "e \<in> set (m_txops s)" for e
    using set_up that pedca_ok_view [of "e_link e" QosLinkEntity] by (auto simp: station_initial_def edcaf_ok_def pedca_ok_initial)
  with set_up show ?case
    by (auto simp: pedca.sinv_def pedca.all_P_def nav_inv_def timer_inv_def station_initial_def
        WifiTxTimer_def timer_ok_def timer_IsRunning_def)
qed (rule pedca.sinv_step)

text \<open>
  Property C4: in every reachable state of a station each EDCA function has a consistent P-EDCA
  state (a CTS-to-self is pending only in P-EDCA mode, not during the contention that follows one,
  and only while the budget is not used up; the budget is never exceeded); the NAV that the channel
  access manager defers to is at least that of the frame exchange manager, but for the instant
  between a channel switch and the reset it schedules, when the switch makes the medium busy; the
  event of the transmission timer is not in the past and calls the method for its reason.
\<close>

theorem station_state_invariant:
  assumes "station_reachable (now, s)"
  shows "(\<forall>e \<in> set (m_txops s). e_qos e \<longrightarrow> pedca_ok (e_cfg e) (e_link e))
    \<and> (m_navEnd s \<le> max now (m_lastNavEnd s) \<or> (now, EvReset) \<in> set (pending s) \<and> now \<le> m_lastSwitchingEnd s)
    \<and> (\<forall>t. m_timeoutEvent (m_txTimer s) = Some t \<longrightarrow> now \<le> t \<and> t \<le> m_end (m_txTimer s)
         \<and> (\<exists>call. m_impl (m_txTimer s) = Some call
              \<and> (timer_IsRunning (m_txTimer s) \<longrightarrow> fits_reason call (m_reason (m_txTimer s)))))"
proof -
  have "pedca.sinv now s" using pedca_sinv_reachable [OF assms] by simp
  then show ?thesis
    by (auto simp: pedca.sinv_def pedca.all_P_def edcaf_ok_def nav_inv_def timer_inv_def timer_ok_def in_set_conv_nth)
qed

text \<open>A function with a CTS-to-self pending, and a timer that waits for an acknowledgment.\<close>

lemma ex_timer_reachable:
  "\<exists>s. station_reachable (161000, s) \<and> m_timeoutEvent (m_txTimer s) = Some 1254000
     \<and> m_reason (m_txTimer s) = WAIT_NORMAL_ACK"
proof -
  let ?Q = "\<lambda>t. m_timeoutEvent t = Some 1254000 \<and> m_reason t = WAIT_NORMAL_ACK"
  have now: "v_now ex_send_env = 161000" by (simp add: ex_send_env_def ex_fem_env_def)
  obtain s' calls where t: "AccessTimeout (StartTransmission ex_send_env) (NotifyInternalCollision ex_send_env)
      161000 ex_fresh = Some (s', calls)" "?Q (m_txTimer s')"
    using ex_fresh_grant [of ex_send_env ?Q, OF Start_frame now] by blast
  let ?s = "s'\<lparr>sent := sent s' @ map CamCall calls\<rparr>"
  have "station_step (v_now ex_send_env, ex_fresh) (v_now ex_send_env, ?s)"
    using t(1) by (intro access_timeout) (simp_all add: now cam_calls_def ex_fresh_def)
  moreover have "station_reachable (161000, ex_fresh)" by (rule set_up) (simp add: ex_fresh_initial)
  ultimately have "station_reachable (161000, ?s)" by (simp add: now steps)
  with t(2) show ?thesis by (intro exI [of _ ?s]) simp
qed

theorem station_state_invariant_witness:
  "(\<exists>s e. station_reachable (0, s) \<and> m_txops s = [e] \<and> pedca_view (e_link e) = (True, True, False, 0, 0)
       \<and> pedca_ok (e_cfg e) (e_link e))
   \<and> (\<exists>s call. station_reachable (161000, s) \<and> m_timeoutEvent (m_txTimer s) = Some 1254000
       \<and> m_impl (m_txTimer s) = Some call \<and> fits_reason call WAIT_NORMAL_ACK \<and> 1254000 \<le> m_end (m_txTimer s))"
proof
  obtain s where s: "station_step (0, ex_busy) (0, s)"
    "map (\<lambda>e. (e_qos e, pedca_view (e_link e))) (m_txops s) = [(True, True, True, False, 0, 0)]"
    by (rule exE [OF ex_busy_step], elim conjE) (rule that)
  have r: "station_reachable (0, s)" using steps [OF set_up [OF ex_busy_initial] s(1)] .
  obtain e where "m_txops s = [e]" "e_qos e" "pedca_view (e_link e) = (True, True, False, 0, 0)"
    using s(2) by auto
  with station_state_invariant [OF r] r
  show "\<exists>s e. station_reachable (0, s) \<and> m_txops s = [e] \<and> pedca_view (e_link e) = (True, True, False, 0, 0)
       \<and> pedca_ok (e_cfg e) (e_link e)" by auto
next
  obtain s where s: "station_reachable (161000, s)" "m_timeoutEvent (m_txTimer s) = Some 1254000"
    "m_reason (m_txTimer s) = WAIT_NORMAL_ACK"
    using ex_timer_reachable by blast
  with station_state_invariant [OF s(1)]
  show "\<exists>s call. station_reachable (161000, s) \<and> m_timeoutEvent (m_txTimer s) = Some 1254000
       \<and> m_impl (m_txTimer s) = Some call \<and> fits_reason call WAIT_NORMAL_ACK \<and> 1254000 \<le> m_end (m_txTimer s)"
    by (auto simp: timer_IsRunning_def)
qed

section \<open>A transmission starts after an idle medium\<close>

text \<open>
  Property C3: a transmission is only started for a function that requested access, is not
  disabled, and has counted down its backoff on a medium that was idle for a SIFS, its AIFS and
  the whole backoff since the last reception (and EIFS), transmission, CCA, NAV, timeout, channel
  switch, sleep and off period; an internal collision is only notified to such a function, and
  only when one of higher priority starts.
\<close>

theorem access_granted_only_after_idle:
  assumes "DoGrantDcfAccess (StartTransmission v) (NotifyInternalCollision v) (v_now v) s = Some (s', calls)"
    "omap_get (m_lastBusyEnd s) PRIMARY = Some busyEnd"
  shows "(\<forall>i width. StartTx i width \<in> set calls \<longrightarrow> eligible (v_now v) busyEnd s i \<and> \<not> edca_disabled (v_now v) s i)
    \<and> (\<forall>j. InternalCollision j \<in> set calls \<longrightarrow> eligible (v_now v) busyEnd s j
         \<and> (\<exists>i width. i < j \<and> StartTx i width \<in> set calls))"
  using grants_after_idle [OF StartTransmission_failed_local assms] by blast

lemma Start_frame_fresh:
  assumes "\<not> e_qos e1"
  shows "\<exists>s' started. StartTransmission ex_idle_env 0 w
      (ex_fresh\<lparr>m_accessTimeout := None, m_txops := [e1], m_lastIdle := idle\<rparr>) = Some (s', started)
      \<and> m_lastBusyEnd s' = m_lastBusyEnd ex_fresh \<and> True"
proof -
  let ?s = "ex_fresh\<lparr>m_accessTimeout := None, m_txops := [e1], m_lastIdle := idle\<rparr>"
  have "m_pifsRecoveryEvent ?s = None" "m_mpdu ?s = None" "get_txop 0 ?s = Some e1" "v_peek ex_idle_env 0 = None"
    by (simp_all add: get_txop_def ex_idle_env_def ex_fresh_def ex_station_defs)
  from Start_nothing [OF this(1-3) assms this(4), of w] show ?thesis by auto
qed

lemma ex_idle_now: "v_now ex_idle_env = 161000"
  by (simp add: ex_idle_env_def ex_fem_env_def)

theorem access_granted_only_after_idle_witness:
  "\<exists>s. UpdateBackoff 161000 (ex_fresh\<lparr>m_accessTimeout := None\<rparr>) = Some s \<and> eligible 161000 0 s 0"
proof -
  obtain s t calls w where "UpdateBackoff 161000 (ex_fresh\<lparr>m_accessTimeout := None\<rparr>) = Some s"
    "omap_get (m_lastBusyEnd s) PRIMARY = Some 0"
    "DoGrantDcfAccess (StartTransmission ex_idle_env) (NotifyInternalCollision ex_idle_env) 161000 s = Some (t, calls)"
    "StartTx 0 w \<in> set calls"
    using ex_fresh_grant [of ex_idle_env "\<lambda>_. True", OF Start_frame_fresh ex_idle_now] by blast
  with access_granted_only_after_idle [of ex_idle_env s t calls 0] show ?thesis by (auto simp: ex_idle_now)
qed

section \<open>No transmission while the NAV is set\<close>

lemma grant_needs_idle:
  assumes "DoGrantDcfAccess startTx collide now c = Some (c', calls)" "calls \<noteq> []"
  shows "m_lastNavEnd c + GetSifs c \<le> now" "m_lastSwitchingEnd c + GetSifs c \<le> now"
proof -
  obtain ags where ags: "GetAccessGrantStart False now c = Some ags" "\<not> now < ags"
    using assms by (auto simp: DoGrantDcfAccess_def elim!: bind_SomeE split: if_splits)
  then obtain b where b: "omap_get (m_lastBusyEnd c) PRIMARY = Some b"
    by (auto simp: GetAccessGrantStart_def DoGetAccessGrantStart_def elim!: bind_SomeE)
  have "finite (medium_ends False now b c)" by (simp add: medium_ends_def)
  moreover have "{m_lastNavEnd c, m_lastSwitchingEnd c} \<subseteq> medium_ends False now b c" by (simp add: medium_ends_def)
  ultimately have "m_lastNavEnd c \<le> Max (medium_ends False now b c)"
    "m_lastSwitchingEnd c \<le> Max (medium_ends False now b c)"
    by (simp_all add: Max_ge)
  with ags GetAccessGrantStart_eq [OF b, of False now]
  show "m_lastNavEnd c + GetSifs c \<le> now" "m_lastSwitchingEnd c + GetSifs c \<le> now" by simp_all
qed

text \<open>The operations that attempt to transmit ask for a grant in the NAV they are called with.\<close>

lemma UpdateBackoff_nav:
  assumes "UpdateBackoff now c = Some c'"
  shows "m_lastNavEnd c' = m_lastNavEnd c" "m_lastSwitchingEnd c' = m_lastSwitchingEnd c" "GetSifs c' = GetSifs c"
  using assms by (auto simp: UpdateBackoff_def elim!: bind_SomeE)

lemma restart_calls:
  assumes "DoRestartAccessTimeoutIfNeeded now c = Some (c', calls)"
  shows "StartTx i width \<notin> set calls"
proof -
  obtain ags where ags: "GetAccessGrantStart False now c = Some ags"
    using assms by (auto simp: DoRestartAccessTimeoutIfNeeded_def elim!: bind_SomeE)
  obtain b x where n: "next_txop now (GetSlot c) ags (m_txops c) None MaximumSimulationTime = (b, x)" by fastforce
  show ?thesis
  proof (cases b)
    case (Some e)
    with assms ags n have "calls = [] \<or> calls = [NSlotsLeftAlert (m_ac (e_cfg e)) (x - now)]"
      by (simp add: DoRestartAccessTimeoutIfNeeded_def Let_def split: if_split_asm)
    then show ?thesis by auto
  qed (use assms ags n in \<open>simp add: DoRestartAccessTimeoutIfNeeded_def\<close>)
qed

lemma started_in_idle:
  assumes "StartTx i width \<in> set calls"
    "RequestAccess startTx collide w j c = Some (c', calls) \<and> w_now w = now
       \<or> AccessTimeout startTx collide now c = Some (c', calls)"
  shows "m_lastNavEnd c + GetSifs c \<le> now \<and> m_lastSwitchingEnd c + GetSifs c \<le> now"
  using assms(2)
proof
  assume r: "RequestAccess startTx collide w j c = Some (c', calls) \<and> w_now w = now"
  show ?thesis
  proof (cases "phy_asleep c")
    case True
    with r assms(1) show ?thesis by (auto simp: RequestAccess_def Let_def split: if_splits)
  next
    case False
    with r obtain e c1 c2 calls0 calls1 c3 calls2 where
      c1: "UpdateBackoff now (on_txop j (\<lambda>_. e) c) = Some c1"
      and c2: "c2 = on_txop j (\<lambda>e. e\<lparr>e_link := NotifyAccessRequested (e_link e)\<rparr>) c1"
      and g: "DoGrantDcfAccess startTx collide now c2 = Some (c3, calls1)"
      and r': "DoRestartAccessTimeoutIfNeeded now c3 = Some (c', calls2)"
      and calls: "calls = calls0 @ calls1 @ calls2" "calls0 = [] \<or> calls0 = [PhyAccessRequested]"
      by (auto simp: RequestAccess_def Let_def elim!: bind_SomeE)
    from assms(1) calls restart_calls [OF r', of i width] have "calls1 \<noteq> []" by auto
    from grant_needs_idle [OF g this] UpdateBackoff_nav [OF c1] show ?thesis
      by (simp add: c2 on_txop_def)
  qed
next
  assume t: "AccessTimeout startTx collide now c = Some (c', calls)"
  show ?thesis
  proof (cases "\<exists>c1. ResetAllBackoffs now (c\<lparr>m_accessTimeout := None\<rparr>) = Some c1 \<and> calls = []")
    case True
    with assms(1) show ?thesis by simp
  next
    case False
    with t obtain c1 c2 calls1 calls2 where c1: "UpdateBackoff now (c\<lparr>m_accessTimeout := None\<rparr>) = Some c1"
      and g: "DoGrantDcfAccess startTx collide now c1 = Some (c2, calls1)"
      and r: "DoRestartAccessTimeoutIfNeeded now c2 = Some (c', calls2)" "calls = calls1 @ calls2"
      unfolding AccessTimeout_def Let_def by (auto elim!: bind_SomeE split: if_split_asm)
    from assms(1) r restart_calls [OF r(1), of i width] have "calls1 \<noteq> []" by auto
    moreover have "GetSifs (c\<lparr>m_accessTimeout := None\<rparr>) = GetSifs c"
      by (simp add: GetSifs_def split: option.split)
    ultimately show ?thesis using grant_needs_idle [OF g] UpdateBackoff_nav [OF c1] by simp
  qed
qed

text \<open>
  Property C2: a station starts no transmission while its NAV is set.  Whenever a reachable station
  requests access or its access timeout expires, and a channel access function is then told to
  transmit, virtual carrier sense says that the medium is idle (the NAV of the frame exchange
  manager has ended, and that of the channel access manager has for a SIFS).
\<close>

theorem no_transmission_in_nav:
  assumes "station_reachable (v_now v, s)" "0 < GetSifs s" "StartTx i width \<in> set calls"
    "RequestAccess (StartTransmission v) (NotifyInternalCollision v) (v_world v) j s = Some (s', calls)
     \<or> AccessTimeout (StartTransmission v) (NotifyInternalCollision v) (v_now v) s = Some (s', calls)"
  shows "VirtualCsMediumIdle (v_now v) s \<and> m_lastNavEnd s + GetSifs s \<le> v_now v"
proof -
  have idle: "m_lastNavEnd s + GetSifs s \<le> v_now v" "m_lastSwitchingEnd s + GetSifs s \<le> v_now v"
    using started_in_idle [OF assms(3), of "StartTransmission v" "NotifyInternalCollision v" "v_world v" j s s']
      assms(4) by auto
  have "nav_inv (v_now v) s" using pedca_sinv_reachable [OF assms(1)] by (simp add: pedca.sinv_def)
  with idle assms(2) show ?thesis by (auto simp: nav_inv_def VirtualCsMediumIdle_def)
qed

theorem no_transmission_in_nav_witness: "VirtualCsMediumIdle (v_now ex_idle_env) ex_fresh"
proof -
  obtain s' calls calls' width where t: "AccessTimeout (StartTransmission ex_idle_env) (NotifyInternalCollision ex_idle_env)
      161000 ex_fresh = Some (s', calls @ calls')" "StartTx 0 width \<in> set calls"
    using ex_fresh_grant [of ex_idle_env "\<lambda>_. True", OF Start_frame_fresh ex_idle_now] by blast
  have "station_reachable (v_now ex_idle_env, ex_fresh)"
    unfolding ex_idle_now by (rule set_up) (simp add: ex_fresh_initial)
  moreover have "0 < GetSifs ex_fresh" by (simp add: GetSifs_def ex_fresh_def ex_phy_def)
  ultimately show ?thesis
    using no_transmission_in_nav [of ex_idle_env ex_fresh 0 width "calls @ calls'" undefined s'] t ex_idle_now by simp
qed

end
