(* ===== verification/Pedca_Refinement.thy ===== *)
theory Pedca_Refinement
  imports Station_Props
begin

text \<open>
  P-EDCA as it is specified, a machine over four phases with two counters, and its refinement by the
  EDCA functions of a station: each operation on their P-EDCA state is an event of the machine.  What
  a backoff is in P-EDCA, and what becomes of the budget.
\<close>

section \<open>P-EDCA as it is specified\<close>

datatype pedca_phase = EDCA | READY | CTS_PENDING | PROTECTED

text \<open>
  Whether P-EDCA is for this function at all (voice, enabled, on a UHR PHY), and, with several links
  to choose from, for this link.
\<close>

datatype eligibility = NO_PEDCA | OTHER_LINK | THIS_LINK

definition eligibility_of :: "qos_cfg \<Rightarrow> mac_env \<Rightarrow> nat \<Rightarrow> eligibility" where
  "eligibility_of cfg env linkId =
     (if \<not> m_enableUhrPedca cfg \<or> m_ac cfg \<noteq> AC_VO \<or> \<not> uhrPhy env then NO_PEDCA
      else if \<not> m_distributePedcaAcrossLinks cfg \<or> \<not> isSta env \<or> nLinks env \<le> 1
              \<or> linkId = (m_preferredPedcaLinkId cfg mod nLinks env) mod 256 then THIS_LINK
      else OTHER_LINK)"

text \<open>A backoff is drawn; a CTS-to-self is sent; data is acknowledged, or not.\<close>

datatype pedca_event = BACKOFF eligibility | CTS_SENT | SUCCESS | FAILURE

text \<open>
  Enough failures make a function ready.  When it draws a backoff a CTS-to-self becomes pending,
  if the budget is not used up; sending it is charged to the budget, and protects the contention
  that follows.  A failure ends the protection; success ends P-EDCA and renews the budget, as does a
  backoff with the budget used up.  A backoff on a link that is not the preferred one ends P-EDCA and
  keeps both counters.
\<close>

fun pedca_next :: "u32 \<Rightarrow> u32 \<Rightarrow> pedca_event \<Rightarrow> pedca_phase \<times> u32 \<times> u32 \<Rightarrow> pedca_phase \<times> u32 \<times> u32" where
  "pedca_next threshold budget (BACKOFF NO_PEDCA) (phase, used, failures) = (phase, used, failures)"
| "pedca_next threshold budget (BACKOFF OTHER_LINK) (phase, used, failures) = (EDCA, used, failures)"
| "pedca_next threshold budget (BACKOFF THIS_LINK) (phase, used, failures) =
     (if phase = EDCA \<and> failures < threshold then (EDCA, used, failures)
      else if used = budget then (EDCA, 0, 0)
      else if phase = PROTECTED then (PROTECTED, used, failures)
      else (CTS_PENDING, used, failures))"
| "pedca_next threshold budget CTS_SENT (phase, used, failures) = (PROTECTED, used + 1, failures)"
| "pedca_next threshold budget SUCCESS (phase, used, failures) =
     (if phase = EDCA then (EDCA, used, failures) else (EDCA, 0, 0))"
| "pedca_next threshold budget FAILURE (phase, used, failures) =
     (case phase of
        EDCA \<Rightarrow> (if threshold \<le> failures + 1 then READY else EDCA, used, failures + 1)
      | PROTECTED \<Rightarrow> (READY, used, failures)
      | _ \<Rightarrow> (phase, used, failures))"

text \<open>The events of a function with its own threshold and budget.\<close>

definition pedca_events :: "qos_cfg \<Rightarrow> pedca_event list \<Rightarrow> pedca_phase \<times> u32 \<times> u32 \<Rightarrow> pedca_phase \<times> u32 \<times> u32" where
  "pedca_events cfg = fold (pedca_next (m_qsrcThreshold cfg) (m_psrcThreshold cfg))"

lemma pedca_events_simps [simp]:
  "pedca_events cfg [] a = a"
  "pedca_events cfg (ev # evs) a = pedca_events cfg evs (pedca_next (m_qsrcThreshold cfg) (m_psrcThreshold cfg) ev a)"
  "pedca_events cfg (evs @ evs') a = pedca_events cfg evs' (pedca_events cfg evs a)"
  by (simp_all add: pedca_events_def)

section \<open>The state of a function\<close>

definition pedca_abs :: "qlink \<Rightarrow> pedca_phase \<times> u32 \<times> u32" where
  "pedca_abs l =
     (if \<not> l_pedcaMode l then EDCA else if l_pedcaCtsPending l then CTS_PENDING
      else if l_pedcaAfterCts l then PROTECTED else READY, l_psrc l, l_pedcaTriggerCount l)"

lemma pedca_abs_view: "pedca_view l' = pedca_view l \<Longrightarrow> pedca_abs l' = pedca_abs l"
  by (simp add: pedca_view_def pedca_abs_def)

text \<open>The operations of the code that change it, and the events they are.\<close>

inductive pedca_run :: "pedca_event list \<Rightarrow> edcaf \<Rightarrow> edcaf \<Rightarrow> bool" where
  start: "pedca_run [] e e"
| other: "pedca_run evs e f \<Longrightarrow> pedca_same f f' \<Longrightarrow> pedca_run evs e f'"
| backoff: "pedca_run evs e f \<Longrightarrow>
    pedca_run (evs @ [BACKOFF (eligibility_of (e_cfg f) (w_mac w) (w_linkId w))]) e (e_GenerateBackoff w i f)"
| cts: "pedca_run evs e f \<Longrightarrow> l_pedcaCtsPending (e_link f) \<Longrightarrow> pedca_cts now f = Some f' \<Longrightarrow>
    pedca_run (evs @ [CTS_SENT]) e f'"
| success: "pedca_run evs e f \<Longrightarrow> on_qlink pedca_data_success f = Some f' \<Longrightarrow> pedca_run (evs @ [SUCCESS]) e f'"
| failure: "pedca_run evs e f \<Longrightarrow> on_qlink (pedca_data_failure (e_cfg f)) f = Some f' \<Longrightarrow>
    pedca_run (evs @ [FAILURE]) e f'"

lemma pedca_run_trans: "pedca_run evs' f g \<Longrightarrow> pedca_run evs e f \<Longrightarrow> pedca_run (evs @ evs') e g"
proof (induction rule: pedca_run.induct)
  case (start e)
  then show ?case by simp
qed (simp_all add: pedca_run.intros flip: append_assoc)

section \<open>Each operation is the event of the specification\<close>

lemma eligibility_cases:
  "eligibility_of cfg env linkId =
     (if \<not> isUhrVo cfg env then NO_PEDCA else if nonPreferredLink cfg env linkId then OTHER_LINK else THIS_LINK)"
  by (auto simp: eligibility_of_def isUhrVo_def nonPreferredLink_def)

lemma abs_GenerateBackoff:
  assumes "pedca_ok cfg l"
  shows "pedca_abs (GenerateBackoff cfg env linkId draw now l)
    = pedca_next (m_qsrcThreshold cfg) (m_psrcThreshold cfg) (BACKOFF (eligibility_of cfg env linkId)) (pedca_abs l)"
  using assms
  by (auto simp: eligibility_cases GenerateBackoff_def pedca_defs pedca_abs_def pedca_ok_def Let_def)

lemma abs_success: "pedca_abs (pedca_data_success l) = pedca_next threshold budget SUCCESS (pedca_abs l)"
  by (simp add: pedca_abs_def pedca_data_success_def ResetPedcaCounters_def RecordPedcaSuccess_def)

lemma abs_failure:
  assumes "pedca_ok cfg l"
  shows "pedca_abs (pedca_data_failure cfg l) = pedca_next (m_qsrcThreshold cfg) budget FAILURE (pedca_abs l)"
  using assms
  by (auto simp: pedca_abs_def pedca_data_failure_def RecordPedcaFailure_def SetPedcaAfterCts_def
      IncrementPedcaTriggerCount_def RecordPedcaSelection_def Let_def pedca_ok_def)

lemma abs_cts:
  assumes "pedca_ok (e_cfg e) (e_link e)" "l_pedcaCtsPending (e_link e)" "pedca_cts now e = Some e'"
  shows "pedca_abs (e_link e') = pedca_next threshold budget CTS_SENT (pedca_abs (e_link e))"
  using assms(1,2) pedca_cts_view(3) [OF assms(3)] by (auto simp: pedca_abs_def pedca_view_def pedca_ok_def)

lemma pedca_run_spec:
  assumes "pedca_run evs e e'" "edcaf_ok e" "e_qos e"
  shows "edcaf_ok e' \<and> e_qos e' \<and> e_cfg e' = e_cfg e
    \<and> pedca_abs (e_link e') = pedca_events (e_cfg e) evs (pedca_abs (e_link e))"
  using assms
proof (induction rule: pedca_run.induct)
  case (other evs e f f')
  then show ?case using pedca_abs_view [of "e_link f'" "e_link f"] by (auto simp: pedca_same_def intro: pedca.P_same)
next
  case (backoff evs e f w i)
  then show ?case
    using pedca.P_gen [of f w i]
    by (auto simp: e_GenerateBackoff_def edcaf_ok_def abs_GenerateBackoff)
next
  case (cts evs e f now f')
  then have "edcaf_ok f" "e_qos f" by auto
  with cts pedca.P_cts [of f now f'] pedca_cts_view [OF cts(3)] abs_cts [of f now f' "m_qsrcThreshold (e_cfg e)" "m_psrcThreshold (e_cfg e)"] show ?case
    by (auto simp: edcaf_ok_def)
next
  case (success evs e f f')
  then have "edcaf_ok f" by auto
  with success pedca.P_success [of f f'] show ?case by (auto simp: on_qlink_def abs_success [of _ "m_qsrcThreshold (e_cfg e)" "m_psrcThreshold (e_cfg e)"])
next
  case (failure evs e f f')
  then have "edcaf_ok f" "e_qos f" by auto
  with failure pedca.P_failure [of f f'] show ?case by (auto simp: on_qlink_def edcaf_ok_def abs_failure [of _ _ "m_psrcThreshold (e_cfg e)"])
qed simp

section \<open>Each step of a station is a run of operations\<close>

interpretation from_state: station_invariant "\<lambda>i e. i < length es \<longrightarrow> (\<exists>evs. pedca_run evs (es ! i) e)" for es
  by standard (blast intro: pedca_run.intros)+

lemma step_is_run:
  assumes "station_reachable (now, s)" "station_step (now, s) (now', s')"
    "get_txop i s = Some e" "get_txop i s' = Some e'"
  shows "\<exists>evs. pedca_run evs e e'"
proof -
  have "pedca.sinv now s" using pedca_sinv_reachable [OF assms(1)] by simp
  then have "from_state.sinv (m_txops s) now s"
    by (auto simp: pedca.sinv_def from_state.sinv_def from_state.all_P_def intro: pedca_run.start)
  then have "from_state.sinv (m_txops s) now' s'"
    using from_state.sinv_step [OF assms(2)] by simp
  with assms(3,4) show ?thesis
    by (auto simp: from_state.sinv_def from_state.all_P_def get_txop_def split: if_splits)
qed

lemma reachable_edcaf_ok: "station_reachable (now, s) \<Longrightarrow> get_txop i s = Some e \<Longrightarrow> edcaf_ok e"
  using pedca.sinv_nth [of now s i e] by (auto dest: pedca_sinv_reachable)

text \<open>
  Property C1: the EDCA functions of a station refine the specification of P-EDCA: whatever step a
  reachable station takes, a function goes through a sequence of events of the machine (the backoffs
  drawn, CTS-to-self sent while one is pending, successes and failures: any number and order of them, and
  other operations), and after any such sequence its phase, the budget it used and the failures it
  counted are exactly those the machine computes from these events.
\<close>

theorem pedca_refines_specification:
  assumes "station_reachable (now, s)" "station_step (now, s) (now', s')"
    "get_txop i s = Some e" "get_txop i s' = Some e'" "e_qos e"
  shows "(\<exists>evs. pedca_run evs e e')
    \<and> (\<forall>evs f. pedca_run evs e f \<longrightarrow>
         e_cfg f = e_cfg e \<and> pedca_abs (e_link f) = pedca_events (e_cfg e) evs (pedca_abs (e_link e)))"
  using step_is_run [OF assms(1-4)] pedca_run_spec [OF _ reachable_edcaf_ok [OF assms(1,3)] assms(5)] by blast

text \<open>A station whose voice function starts P-EDCA at once: drawing a backoff makes a CTS-to-self pending.\<close>

theorem pedca_refines_specification_witness:
  "\<exists>s e e' evs. station_step (0, ex_busy) (0, s) \<and> get_txop 0 ex_busy = Some e \<and> get_txop 0 s = Some e'
     \<and> pedca_run evs e e' \<and> pedca_events (e_cfg e) evs (EDCA, 0, 0) = (CTS_PENDING, 0, 0)"
proof -
  obtain s where s: "station_step (0, ex_busy) (0, s)"
    "map (\<lambda>e. (e_qos e, pedca_view (e_link e))) (m_txops s) = [(True, True, True, False, 0, 0)]"
    by (rule exE [OF ex_busy_step], elim conjE) (rule that)
  then obtain e' where e': "get_txop 0 s = Some e'" "pedca_view (e_link e') = (True, True, False, 0, 0)"
    by (auto simp: get_txop_def)
  let ?e = "m_txops ex_busy ! 0"
  have e: "get_txop 0 ex_busy = Some ?e" by (simp add: get_txop_def ex_busy_def)
  have q: "e_qos ?e" "pedca_abs (e_link ?e) = (EDCA, 0, 0)"
    by (simp_all add: ex_busy_def ex_edcaf_def pedca_abs_def ex_qlink_def QosLinkEntity_def)
  have "station_reachable (0, ex_busy)" by (rule set_up) (rule ex_busy_initial)
  from pedca_refines_specification [OF this s(1) e e'(1) q(1)]
  obtain evs where "pedca_run evs ?e e'" "pedca_abs (e_link e') = pedca_events (e_cfg ?e) evs (EDCA, 0, 0)"
    unfolding q(2) by blast
  moreover have "pedca_abs (e_link e') = (CTS_PENDING, 0, 0)" using e'(2) by (simp add: pedca_abs_def pedca_view_def)
  ultimately show ?thesis using s(1) e e'(1) by auto
qed

section \<open>The backoff of a P-EDCA attempt\<close>

lemma GenerateBackoff_frame:
  "l_cw (GenerateBackoff cfg env i draw now l) = l_cw l"
  "l_backoffStart (GenerateBackoff cfg env i draw now l) = now"
  "GetEdcaAifsn t (GenerateBackoff cfg env i draw now l) = GetEdcaAifsn t l"
  by (auto simp: GenerateBackoff_def pedca_defs GetEdcaAifsn_def MuEdcaTimerRunning_def Let_def)

lemma GenerateBackoff_attempt:
  assumes "pedca_ok cfg l" "pedca_abs l = (phase, used, failures)" "k = eligibility_of cfg env i"
    "attempt \<longleftrightarrow> k = THIS_LINK \<and> (phase \<noteq> EDCA \<or> m_qsrcThreshold cfg \<le> failures) \<and> phase \<noteq> PROTECTED
       \<and> used \<noteq> m_psrcThreshold cfg"
  shows "l_pedcaCtsPending (GenerateBackoff cfg env i draw now l) \<longleftrightarrow>
           attempt \<or> k = NO_PEDCA \<and> l_pedcaCtsPending l"
    "l_backoffSlots (GenerateBackoff cfg env i draw now l) = (if attempt then 0 else draw (l_cw l))"
  using assms
  by (auto simp: eligibility_cases GenerateBackoff_def pedca_defs pedca_abs_def pedca_ok_def Let_def split: if_splits)


lemma ex_busy_function:
  "\<exists>e. get_txop 0 ex_busy = Some e \<and> e_qos e \<and> edcaf_ok e \<and> pedca_abs (e_link e) = (EDCA, 0, 0)
     \<and> m_qsrcThreshold (e_cfg e) = 0 \<and> m_psrcThreshold (e_cfg e) = 2
     \<and> eligibility_of (e_cfg e) (w_mac (v_world (ex_fem_env 0))) (w_linkId (v_world (ex_fem_env 0))) = THIS_LINK"
proof -
  have "get_txop 0 ex_busy = Some (m_txops ex_busy ! 0)" by (simp add: get_txop_def ex_busy_def)
  with reachable_edcaf_ok [OF set_up [OF ex_busy_initial]] have "edcaf_ok (m_txops ex_busy ! 0)" .
  then show ?thesis
    by (simp add: get_txop_def ex_busy_def ex_edcaf_def pedca_abs_def ex_qlink_def QosLinkEntity_def eligibility_of_def
        ex_qcfg_def ex_fem_env_def ex_env_def)
qed


section \<open>The budget\<close>

text \<open>A round in which P-EDCA is tried and does not help: the frame sent after the CTS-to-self is lost.\<close>

definition pedca_round :: "pedca_event list" where
  "pedca_round = [BACKOFF THIS_LINK, CTS_SENT, BACKOFF THIS_LINK, FAILURE]"

lemma of_nat_neq_budget: "n < unat (budget :: u32) \<Longrightarrow> of_nat n \<noteq> budget"
  using mod_less_eq_dividend [of n "2 ^ 32"] by (auto simp: unat_of_nat)

text \<open>The phases from which a backoff is an attempt, if the budget is not used up.\<close>

definition pedca_due :: "u32 \<Rightarrow> pedca_phase \<times> u32 \<times> u32 \<Rightarrow> bool" where
  "pedca_due threshold = (\<lambda>(phase, used, failures). phase \<noteq> PROTECTED \<and> (phase = EDCA \<longrightarrow> threshold \<le> failures))"

lemma pedca_round_failed:
  assumes "n + 1 < unat (m_psrcThreshold cfg)" "pedca_due (m_qsrcThreshold cfg) (phase, of_nat n, failures)"
  shows "pedca_events cfg pedca_round (phase, of_nat n, failures) = (READY, of_nat (n + 1), failures)"
  using of_nat_neq_budget [of n "m_psrcThreshold cfg"] of_nat_neq_budget [OF assms(1)] assms
  by (auto simp: pedca_round_def pedca_due_def add.commute)

lemma concat_replicate_Suc: "concat (replicate (Suc n) xs) = concat (replicate n xs) @ xs"
  by (induction n) simp_all

lemma pedca_rounds_failed:
  assumes "pedca_due (m_qsrcThreshold cfg) (phase, 0, failures)"
  shows "n < unat (m_psrcThreshold cfg) \<Longrightarrow> \<exists>phase'. pedca_due (m_qsrcThreshold cfg) (phase', of_nat n, failures)
     \<and> pedca_events cfg (concat (replicate n pedca_round)) (phase, 0, failures) = (phase', of_nat n, failures)"
proof (induction n)
  case (Suc n)
  then obtain phase' where "pedca_due (m_qsrcThreshold cfg) (phase', of_nat n, failures)"
    "pedca_events cfg (concat (replicate n pedca_round)) (phase, 0, failures) = (phase', of_nat n, failures)" by auto
  with pedca_round_failed [of n cfg phase' failures] Suc.prems show ?case
    by (simp only: concat_replicate_Suc pedca_events_simps) (simp add: pedca_due_def)
qed (use assms in simp)

text \<open>
  Property C18: of a budget of \<open>b\<close> CTS-to-self only \<open>b - 1\<close> protect a contention.  When P-EDCA is due
  with its whole budget, then after \<open>n < b\<close> rounds that failed the next CTS-to-self is sent and charged
  like the others; but the backoff that follows the last one that the budget allows finds it used up:
  P-EDCA ends there, with the budget renewed and the failures that led to it forgotten, and the
  frame contends without protection.
\<close>

theorem pedca_last_cts_unprotected:
  assumes "station_reachable (now, s)" "get_txop i s = Some e" "e_qos e"
    "pedca_abs (e_link e) = (phase, 0, failures)" "pedca_due (m_qsrcThreshold (e_cfg e)) (phase, 0, failures)"
    "n < unat (m_psrcThreshold (e_cfg e))"
    "pedca_run (concat (replicate n pedca_round) @ [BACKOFF THIS_LINK, CTS_SENT, BACKOFF THIS_LINK]) e e'"
  shows "pedca_abs (e_link e') =
    (if n + 1 < unat (m_psrcThreshold (e_cfg e)) then (PROTECTED, of_nat (n + 1), failures) else (EDCA, 0, 0))"
proof -
  let ?b = "m_psrcThreshold (e_cfg e)"
  obtain phase' where due: "pedca_due (m_qsrcThreshold (e_cfg e)) (phase', of_nat n, failures)"
    and rounds: "pedca_events (e_cfg e) (concat (replicate n pedca_round)) (phase, 0, failures)
      = (phase', of_nat n, failures)"
    using pedca_rounds_failed [OF assms(5,6)] by blast
  have "pedca_abs (e_link e') = pedca_events (e_cfg e) [BACKOFF THIS_LINK, CTS_SENT, BACKOFF THIS_LINK]
      (phase', of_nat n, failures)"
    using pedca_run_spec [OF assms(7) reachable_edcaf_ok [OF assms(1,2)] assms(3)] by (simp add: assms(4) rounds)
  also have "\<dots> = (if of_nat (n + 1) = ?b then (EDCA, 0, 0) else (PROTECTED, of_nat (n + 1), failures))"
    using of_nat_neq_budget [OF assms(6)] due by (auto simp: pedca_due_def add.commute)
  also have "of_nat (n + 1) = ?b \<longleftrightarrow> \<not> n + 1 < unat ?b"
    using of_nat_neq_budget [of "n + 1" ?b] assms(6) by (cases "n + 1 = unat ?b") auto
  finally show ?thesis by auto
qed

text \<open>Sequences of events that a function can go through on a link that P-EDCA is for.\<close>

fun pedca_feasible :: "qos_cfg \<Rightarrow> pedca_event list \<Rightarrow> pedca_phase \<times> u32 \<times> u32 \<Rightarrow> bool" where
  "pedca_feasible cfg [] a = True"
| "pedca_feasible cfg (ev # evs) a =
     ((ev = CTS_SENT \<longrightarrow> fst a = CTS_PENDING) \<and> ev \<notin> {BACKOFF NO_PEDCA, BACKOFF OTHER_LINK}
      \<and> pedca_feasible cfg evs (pedca_events cfg [ev] a))"

lemma pedca_run_exists:
  assumes "edcaf_ok e" "e_qos e" "eligibility_of (e_cfg e) (w_mac w) (w_linkId (w :: world)) = THIS_LINK"
    "pedca_feasible (e_cfg e) evs (pedca_abs (e_link e))"
  shows "\<exists>e'. pedca_run evs e e'"
  using assms
proof (induction evs arbitrary: e)
  case Nil
  then show ?case by (blast intro: pedca_run.start)
next
  case (Cons ev evs)
  have "\<exists>f. pedca_run [ev] e f"
  proof (cases ev)
    case (BACKOFF k)
    with Cons.prems(4) have "k = THIS_LINK" by (cases k) auto
    with BACKOFF Cons.prems(3) pedca_run.backoff [OF pedca_run.start, of e w 0] show ?thesis by auto
  next
    case CTS_SENT
    with Cons.prems(4) have "l_pedcaCtsPending (e_link e)" by (auto simp: pedca_abs_def split: if_splits)
    moreover have "\<exists>f. pedca_cts 0 e = Some f"
      using Cons.prems(2)
      by (simp add: pedca_cts_def on_qlink_def e_NotifyChannelAccessed_def NotifyChannelAccessed_def TimeMin_def)
    ultimately show ?thesis using pedca_run.cts [OF pedca_run.start, of e 0] CTS_SENT by auto
  next
    case SUCCESS
    with pedca_run.success [OF pedca_run.start, of e] show ?thesis by (auto simp: on_qlink_def)
  next
    case FAILURE
    with pedca_run.failure [OF pedca_run.start, of e] show ?thesis by (auto simp: on_qlink_def)
  qed
  then obtain f where f: "pedca_run [ev] e f" ..
  from pedca_run_spec [OF f Cons.prems(1,2)] Cons.prems(3,4) Cons.IH [of f]
  obtain e' where "pedca_run evs f e'" by auto
  from pedca_run_trans [OF this f] show ?case by auto
qed

text \<open>With a budget of two, the second CTS-to-self is the one that protects nothing.\<close>

theorem pedca_last_cts_unprotected_witness:
  "\<exists>e e'. get_txop 0 ex_busy = Some e \<and> m_psrcThreshold (e_cfg e) = 2
     \<and> pedca_run (pedca_round @ [BACKOFF THIS_LINK, CTS_SENT, BACKOFF THIS_LINK]) e e'
     \<and> pedca_abs (e_link e') = (EDCA, 0, 0)"
proof -
  obtain e where e: "get_txop 0 ex_busy = Some e" "e_qos e" "edcaf_ok e" "pedca_abs (e_link e) = (EDCA, 0, 0)"
    "m_qsrcThreshold (e_cfg e) = 0" "m_psrcThreshold (e_cfg e) = 2"
    "eligibility_of (e_cfg e) (w_mac (v_world (ex_fem_env 0))) (w_linkId (v_world (ex_fem_env 0))) = THIS_LINK"
    using ex_busy_function by blast
  let ?evs = "concat (replicate 1 pedca_round) @ [BACKOFF THIS_LINK, CTS_SENT, BACKOFF THIS_LINK]"
  have "pedca_feasible (e_cfg e) ?evs (pedca_abs (e_link e))"
    by (simp add: e(4-6) pedca_round_def)
  then obtain e' where r: "pedca_run ?evs e e'" using pedca_run_exists [OF e(3,2,7)] by blast
  have "station_reachable (0, ex_busy)" by (rule set_up) (rule ex_busy_initial)
  from pedca_last_cts_unprotected [OF this e(1,2,4) _ _ r] have "pedca_abs (e_link e') = (EDCA, 0, 0)"
    by (simp add: e(5,6) pedca_due_def)
  with e r show ?thesis by auto
qed

end
