(* ===== verification/Pedca_Exchange.thy ===== *)
theory Pedca_Exchange
  imports Pedca_Refinement
begin

text \<open>
  Which events of P-EDCA the handlers of the frame exchange manager raise: success and failure of a
  transmission, and access that is granted while a CTS-to-self is pending.
\<close>

section \<open>The events of a frame exchange\<close>

text \<open>The function \<open>i\<close>, and no other, goes through some events.\<close>

definition moves :: "nat \<Rightarrow> pedca_event list \<Rightarrow> station \<Rightarrow> station \<Rightarrow> bool" where
  "moves i evs s s' \<longleftrightarrow>
     (\<exists>e e'. get_txop i s = Some e \<and> e_qos e \<and> get_txop i s' = Some e' \<and> pedca_run evs e e')
     \<and> (\<forall>j. j \<noteq> i \<longrightarrow> get_txop j s' = get_txop j s)"

lemma moves_trans: "moves i evs s t \<Longrightarrow> moves i evs' t u \<Longrightarrow> moves i (evs @ evs') s u"
  by (auto simp: moves_def intro: pedca_run_trans)

lemma moves_cong: "m_txops t' = m_txops t \<Longrightarrow> moves i evs s t' = moves i evs s t"
  by (simp add: moves_def get_txop_def)

lemma moves_refl: "get_txop i s = Some e \<Longrightarrow> e_qos e \<Longrightarrow> moves i [] s s"
  by (auto simp: moves_def intro: pedca_run.start)

lemma moves_update:
  fixes s :: station
  assumes "get_txop i s = Some e" "e_qos e" "pedca_run evs e e'"
  shows "moves i evs s (s\<lparr>m_txops := (m_txops s)[i := e']\<rparr>)"
  using assms by (auto simp: moves_def get_txop_def split: if_splits)

lemma moves_with_txop:
  assumes "with_txop (Some i) f s = Some s'" "get_txop i s = Some e" "e_qos e" "\<And>e'. f e = Some e' \<Longrightarrow> pedca_run evs e e'"
  shows "moves i evs s s'"
  using assms by (auto elim!: pedca.with_txop_at intro: moves_update)

lemma moves_run_calls [simp]: "moves i evs s (run_access_calls t j calls s') = moves i evs s s'"
  by (simp add: moves_def get_txop_def run_access_calls_def)

lemma run_view:
  assumes "pedca_run evs e f" "pedca_view l = pedca_view (e_link f)"
  shows "pedca_run evs e (f\<lparr>e_link := l\<rparr>)"
  using assms by (auto simp: pedca_same_def intro: pedca_run.other)

lemma run_backoff_view:
  assumes "e_qos e" "k = eligibility_of (e_cfg e) (w_mac w) (w_linkId (w :: world))"
    "pedca_view l = pedca_view (GenerateBackoff (e_cfg e) (w_mac w) (w_linkId w) (w_draw w i) (w_now w) (e_link e))"
  shows "pedca_run [BACKOFF k] e (e\<lparr>e_link := l\<rparr>)"
proof -
  have "pedca_run ([] @ [BACKOFF k]) e (e_GenerateBackoff w i e)"
    unfolding assms(2) by (rule pedca_run.backoff) (rule pedca_run.start)
  from run_view [OF this, of l] show ?thesis using assms(1,3) by (simp add: e_GenerateBackoff_def)
qed

lemma moves_Released:
  assumes "txop_Released v (Some i) s = Some s'" "get_txop i s = Some e" "e_qos e"
    "k = eligibility_of (e_cfg e) (w_mac (v_world v)) (w_linkId (v_world v))"
  shows "moves i [] s s' \<or> moves i [BACKOFF k] s s'"
proof -
  let ?gen = "GenerateBackoff (e_cfg e) (w_mac (v_world v)) (w_linkId (v_world v)) (w_draw (v_world v) i) (v_now v)"
  obtain l calls where
    l: "NotifyChannelReleased ?gen (v_queueEmpty v i) (m_generateBackoffOnNoTx s) (v_now v) (e_link e) = (l, calls)"
    by fastforce
  with assms have s': "s' = run_access_calls (v_now v) i calls (s\<lparr>m_txops := (m_txops s)[i := e\<lparr>e_link := l\<rparr>]\<rparr>)"
    by (simp add: txop_Released_def Let_def)
  from Released_view [OF l] show ?thesis
  proof
    assume "pedca_view l = pedca_view (e_link e)"
    from run_view [OF pedca_run.start this] show ?thesis using assms(2,3) by (simp add: s' moves_update)
  next
    assume "pedca_view l = pedca_view (?gen (e_link e))"
    from run_backoff_view [OF assms(3,4) this] show ?thesis using assms(2,3) by (simp add: s' moves_update)
  qed
qed

lemma moves_base_Released:
  assumes "base_NotifyChannelReleased v (Some i) s = Some s'" "get_txop i s = Some e" "e_qos e"
    "k = eligibility_of (e_cfg e) (w_mac (v_world v)) (w_linkId (v_world v))"
  shows "moves i [BACKOFF k] s s'"
proof -
  let ?e = "e\<lparr>e_link := (e_link e)\<lparr>l_access := NOT_REQUESTED\<rparr>\<rparr>"
  obtain calls where s': "s' = run_access_calls (v_now v) i calls
      (s\<lparr>m_txops := (m_txops s)[i := e\<lparr>e_link := e_link (e_GenerateBackoff (v_world v) i ?e)\<rparr>]\<rparr>)"
    using assms(1,2) by (auto simp: base_NotifyChannelReleased_def txop_NotifyChannelReleased_def elim!: bind_SomeE)
  have "pedca_run ([] @ [BACKOFF (eligibility_of (e_cfg ?e) (w_mac (v_world v)) (w_linkId (v_world v)))]) e
      (e_GenerateBackoff (v_world v) i ?e)"
    by (rule pedca_run.backoff, rule run_view [OF pedca_run.start]) (simp add: pedca_view_def)
  moreover have "e_GenerateBackoff (v_world v) i ?e
      = e\<lparr>e_link := e_link (e_GenerateBackoff (v_world v) i ?e)\<rparr>"
    by (simp add: e_GenerateBackoff_def)
  ultimately show ?thesis using assms(2-4) by (simp add: s' moves_update)
qed

text \<open>Steps of an exchange one after the other: the state in between has the same function.\<close>

lemma moves_get:
  assumes "moves i evs s s'" "get_txop i s = Some e"
  obtains e' where "get_txop i s' = Some e'" "e_qos e'" "e_cfg e' = e_cfg e" "pedca_run evs e e'"
proof -
  have cfg: "e_qos e' = e_qos e \<and> e_cfg e' = e_cfg e" if "pedca_run evs e e'" for e'
    using that
    by induction (auto simp: pedca_same_def e_GenerateBackoff_def on_qlink_def dest: pedca_cts_view(1,2))
  from assms obtain e' where e': "get_txop i s' = Some e'" "pedca_run evs e e'" "e_qos e"
    by (auto simp: moves_def)
  with cfg [OF e'(2)] show thesis by (auto intro: that)
qed

lemma moves_fem_Released:
  assumes "fem_NotifyChannelReleased v (Some i) s = Some s'" "get_txop i s = Some e" "e_qos e"
    "k = eligibility_of (e_cfg e) (w_mac (v_world v)) (w_linkId (v_world v))"
  shows "moves i [] s s' \<or> moves i [BACKOFF k] s s'"
proof -
  obtain t where t: "txop_Released v (Some i) s = Some t" "s' = t\<lparr>m_protectedStas := {}\<rparr>"
    using assms(1) by (auto simp: fem_NotifyChannelReleased_def elim!: bind_SomeE)
  have "moves i evs s s' = moves i evs s t" for evs by (rule moves_cong) (simp add: t(2))
  with moves_Released [OF t(1) assms(2-4)] show ?thesis by simp
qed


lemma TransmissionSucceeded_moves:
  assumes "TransmissionSucceeded v s = Some s'" "m_edca s = Some i" "get_txop i s = Some e" "e_qos e"
    "k = eligibility_of (e_cfg e) (w_mac (v_world v)) (w_linkId (v_world v))"
  shows "moves i [SUCCESS] s s' \<or> moves i [SUCCESS, BACKOFF k] s s'"
proof -
  obtain t t' continue where t: "with_txop (Some i) (on_qlink pedca_data_success) s = Some t"
    and t': "(if continue
              then do { phy \<leftarrow> m_phy t;
                        s \<leftarrow> schedule (v_now v) (phy_sifs phy) (EvStartTxop i) t;
                        Some (if m_protectedIfResponded s
                              then s\<lparr>m_protectedStas := m_protectedStas s \<union> m_sentFrameTo s\<rparr> else s) }
              else do { s \<leftarrow> fem_NotifyChannelReleased v (Some i) t; Some (s\<lparr>m_edca := None\<rparr>) }) = Some t'"
    and s': "s' = t'\<lparr>m_initialFrame := False, m_sentFrameTo := {}\<rparr>"
    using assms(1,2) unfolding TransmissionSucceeded_def by (auto elim!: bind_SomeE)
  have m: "moves i [SUCCESS] s t"
    using t assms(3,4) pedca_run.success [OF pedca_run.start] by (auto intro: moves_with_txop)
  obtain f where f: "get_txop i t = Some f" "e_qos f" "e_cfg f = e_cfg e" using moves_get [OF m assms(3)] .
  show ?thesis
  proof (cases continue)
    case True
    with t' have "m_txops t' = m_txops t" by (auto simp: schedule_def elim!: bind_SomeE)
    then have "moves i [SUCCESS] s s'" using m moves_cong [of s' t i "[SUCCESS]" s] by (simp add: s')
    then show ?thesis ..
  next
    case False
    then obtain u where u: "fem_NotifyChannelReleased v (Some i) t = Some u" "t' = u\<lparr>m_edca := None\<rparr>"
      using t' by (auto elim!: bind_SomeE)
    have "moves i evs s s' = moves i evs s u" for evs by (rule moves_cong) (simp add: s' u(2))
    with moves_fem_Released [OF u(1) f(1,2)] f(3) assms(5) moves_trans [OF m] show ?thesis by fastforce
  qed
qed

lemma TransmissionFailed_moves:
  assumes "TransmissionFailed v b s = Some s'" "m_edca s = Some i" "get_txop i s = Some e" "e_qos e"
    "k = eligibility_of (e_cfg e) (w_mac (v_world v)) (w_linkId (v_world v))"
  shows "moves i [FAILURE] s s' \<or> moves i [FAILURE, BACKOFF k] s s'"
proof -
  define failedCw where
    "failedCw = (if b then Some else with_txop (Some i) (e_UpdateFailedCw (v_frameRetryLimit v) (v_now v)))"
  obtain t t' where t: "with_txop (Some i) (\<lambda>e. on_qlink (pedca_data_failure (e_cfg e)) e) s = Some t"
    and t': "(if m_initialFrame t
              then do { s \<leftarrow> failedCw t; s \<leftarrow> fem_NotifyChannelReleased v (Some i) s; Some (s\<lparr>m_edca := None\<rparr>) }
              else do {
                let s = t\<lparr>m_protectedStas := m_protectedStas t - m_staExpectResponseFrom (m_txTimer t)\<rparr>;
                e \<leftarrow> get_txop i s;
                ns_assert (l_txopLimit (e_link e) > 0);
                (if m_pifsRecovery s
                 then do { ns_assert (m_pifsRecoveryEvent s = None);
                           phy \<leftarrow> m_phy s;
                           ns_assert (phy_pifs phy \<ge> 0);
                           Some (s\<lparr>m_pifsRecoveryEvent := Some (v_now v + phy_pifs phy, b)\<rparr>) }
                 else do { s \<leftarrow> base_NotifyChannelReleased v (Some i) s;
                           s \<leftarrow> failedCw s;
                           Some (s\<lparr>m_edcaBackingOff := Some i, m_edca := None\<rparr>) }) }) = Some t'"
    and s': "m_txops s' = m_txops t'"
    using assms(1,2) unfolding TransmissionFailed_def failedCw_def Let_def
    by (auto simp: ResetTxNav_def elim!: bind_SomeE)
  have cw: "moves i [] x y" if "failedCw x = Some y" "get_txop i x = Some f" "e_qos f" for x y f
    using that pedca_run.other [OF pedca_run.start same_failedCw]
    by (auto simp: failedCw_def split: if_splits intro: moves_refl moves_with_txop)
  have m: "moves i [FAILURE] s t"
    using t assms(3,4) pedca_run.failure [OF pedca_run.start] by (auto intro: moves_with_txop)
  obtain f where f: "get_txop i t = Some f" "e_qos f" "e_cfg f = e_cfg e" using moves_get [OF m assms(3)] .
  have s'': "moves i evs s s' = moves i evs s t'" for evs by (rule moves_cong) (rule s')
  show ?thesis
  proof (cases "m_initialFrame t")
    case True
    then obtain x y where x: "failedCw t = Some x" and y: "fem_NotifyChannelReleased v (Some i) x = Some y"
      and "t' = y\<lparr>m_edca := None\<rparr>"
      using t' by (auto elim!: bind_SomeE)
    then have y': "moves i evs s t' = moves i evs s y" for evs by (intro moves_cong) simp
    have mx: "moves i [] t x" using x f(1,2) by (rule cw)
    obtain g where g: "get_txop i x = Some g" "e_qos g" "e_cfg g = e_cfg f" using moves_get [OF mx f(1)] .
    have "moves i [FAILURE] s x" using moves_trans [OF m mx] by simp
    with moves_fem_Released [OF y g(1,2)] g(3) f(3) assms(5) moves_trans [OF this] show ?thesis
      by (fastforce simp: s'' y')
  next
    case False
    let ?t = "t\<lparr>m_protectedStas := m_protectedStas t - m_staExpectResponseFrom (m_txTimer t)\<rparr>"
    have mt: "moves i [FAILURE] s ?t" using m moves_cong [of ?t t i "[FAILURE]" s] by simp
    have ft: "get_txop i ?t = Some f" using f(1) by (auto simp: get_txop_def split: if_splits)
    show ?thesis
    proof (cases "m_pifsRecovery t")
      case True
      with t' False have "m_txops t' = m_txops ?t" by (auto simp: Let_def elim!: bind_SomeE)
      with mt moves_cong [of t' ?t i "[FAILURE]" s] show ?thesis by (simp add: s'')
    next
      case recovery: False
      then obtain x y where x: "base_NotifyChannelReleased v (Some i) ?t = Some x" and y: "failedCw x = Some y"
        and t'': "t' = y\<lparr>m_edcaBackingOff := Some i, m_edca := None\<rparr>"
        using t' False by (auto simp: Let_def elim!: bind_SomeE)
      have y': "moves i evs s t' = moves i evs s y" for evs by (rule moves_cong) (simp add: t'')
      have mx: "moves i [BACKOFF k] ?t x" using moves_base_Released [OF x ft f(2)] f(3) assms(5) by simp
      obtain g where g: "get_txop i x = Some g" "e_qos g" using moves_get [OF mx ft] .
      from moves_trans [OF moves_trans [OF mt mx] cw [OF y g]] show ?thesis by (simp add: s'' y')
    qed
  qed
qed


lemma StartTransmission_moves:
  assumes "StartTransmission v i width s = Some (s', started)" "m_pifsRecoveryEvent s = None"
    "get_txop i s = Some e" "e_qos e" "l_pedcaCtsPending (e_link e)"
  shows "moves i [CTS_SENT] s s' \<and> started"
proof -
  let ?f = "\<lambda>e. do { l \<leftarrow> UpdateRandomTxopLimit (e_cfg e) (v_sampleTxopLimit v) (e_link e); Some (e\<lparr>e_link := l\<rparr>) }"
  obtain t d where t: "with_txop (Some i) ?f (s\<lparr>m_allowedWidth := width\<rparr>) = Some t"
    and q: "qos_StartTransmission v i d t = Some (s', started)"
    using assms(1-4) by (auto simp: StartTransmission_def abort_pifs_def elim!: bind_SomeE)
  have s: "get_txop i (s\<lparr>m_allowedWidth := width\<rparr>) = Some e"
    using assms(3) by (auto simp: get_txop_def split: if_splits)
  obtain f where f: "?f e = Some f" "get_txop i t = Some f" "m_pifsRecoveryEvent t = None"
    using t s assms(2) by (auto elim!: pedca.with_txop_at)
  have same: "pedca_same e f" using f(1) by (auto elim!: bind_SomeE intro: same_limit)
  have mt: "moves i [] s t"
  proof -
    have "moves i [] (s\<lparr>m_allowedWidth := width\<rparr>) t"
      using t s assms(4) f(1) pedca_run.other [OF pedca_run.start same] by (auto intro: moves_with_txop)
    moreover have "get_txop j (s\<lparr>m_allowedWidth := width\<rparr>) = get_txop j s" for j by (auto simp: get_txop_def)
    ultimately show ?thesis by (simp add: moves_def)
  qed
  let ?u = "(stop_timer t)\<lparr>m_dcf := Some i, m_edca := Some i\<rparr>"
  have u: "m_txops ?u = m_txops t" by (simp add: stop_timer_def)
  have fu: "get_txop i ?u = Some f" using f(2) u by (auto simp: get_txop_def split: if_splits)
  have pending: "l_pedcaCtsPending (e_link f)" "e_qos f"
    using assms(4,5) same by (simp_all add: pedca_same_defs)
  with q f(3) fu obtain u0 where "with_txop (Some i) (on_qlink (fst \<circ> ConsumePedcaCtsPending)) ?u = Some u0"
    "SendPedcaCtsAndRecontend v i u0 = Some (s', started)"
    by (auto simp: qos_StartTransmission_def abort_pifs_def ConsumePedcaCtsPending_def Let_def elim!: bind_SomeE)
  from pedca.PedcaCts_state [OF fu this] obtain e' x where e': "pedca_cts (v_now v) f = Some e'"
    and x: "station_view x = station_view (?u\<lparr>m_txops := (m_txops ?u)[i := e']\<rparr>)"
    and s': "schedule (v_now v) (v_txTime v GetCtsSize (v_ctsToSelfTxVector v)) (EvPedcaRelease i) x = Some s'"
    and "started" .
  have "m_txops s' = (m_txops t)[i := e']" using s' x u by (auto simp: schedule_def station_view_def elim!: bind_SomeE)
  then have "moves i evs t s' = moves i evs t (t\<lparr>m_txops := (m_txops t)[i := e']\<rparr>)" for evs
    by (intro moves_cong) simp
  moreover have "pedca_run ([] @ [CTS_SENT]) f e'" by (rule pedca_run.cts [OF pedca_run.start pending(1) e'])
  ultimately have "moves i [CTS_SENT] t s'" using f(2) pending(2) by (simp add: moves_update)
  from moves_trans [OF mt this] \<open>started\<close> show ?thesis by simp
qed

lemma moves_spec:
  assumes "moves i evs s s'" "station_reachable (now, s)" "get_txop i s = Some e"
  shows "\<exists>e'. get_txop i s' = Some e' \<and> e_cfg e' = e_cfg e
    \<and> pedca_abs (e_link e') = pedca_events (e_cfg e) evs (pedca_abs (e_link e))"
    "j \<noteq> i \<Longrightarrow> get_txop j s' = get_txop j s"
proof -
  have "e_qos e" using assms(1,3) by (auto simp: moves_def)
  obtain e' where e': "get_txop i s' = Some e'" "pedca_run evs e e'" using moves_get [OF assms(1,3)] .
  from pedca_run_spec [OF e'(2) reachable_edcaf_ok [OF assms(2,3)] \<open>e_qos e\<close>] e'(1)
  show "\<exists>e'. get_txop i s' = Some e' \<and> e_cfg e' = e_cfg e
    \<and> pedca_abs (e_link e') = pedca_events (e_cfg e) evs (pedca_abs (e_link e))" by blast
qed (use assms(1) in \<open>simp add: moves_def\<close>)


text \<open>The voice function of the example, in a TXOP, does not get an answer to its first frame.\<close>

definition ex_txop :: station where
  "ex_txop = ex_busy\<lparr>m_edca := Some 0\<rparr>"

lemma ex_txop_failed: "\<exists>s'. TransmissionFailed (ex_fem_env 0) True ex_txop = Some s'"
  by (simp add: TransmissionFailed_def with_txop_def get_txop_def on_qlink_def fem_NotifyChannelReleased_def
      txop_Released_def ex_txop_def ex_busy_def ex_fresh_def ex_station_defs ex_edcaf_def Let_def split: prod.split)


end
