(* ===== verification/Ctrl_Headers.thy ===== *)
theory Ctrl_Headers
  imports Byte_Buffer Recipient_Agreement "HOL-Library.Signed_Division"
begin

text \<open>
  \<^verbatim>\<open>src/wifi/model/ctrl-headers.cc\<close>: the Block Ack Request and Block Ack frames.  A
  header is serialized to the list of its octets; the bytes left after deserialization are
  returned.  Sequence numbers in headers are 16-bit words, as in the code.
\<close>

section \<open>Block Ack Request\<close>

text \<open>\<^verbatim>\<open>m_nSeqControls\<close> of the type is never read.\<close>

record bar_hdr =
  m_barAckPolicy :: bool
  m_barType :: bar_variant
  bar_tidInfo :: u16
  bar_startingSeq :: u16
  m_gcrAddress :: mac48

text \<open>The constructor leaves the TID and the starting sequence number uninitialised.\<close>

definition CtrlBAckRequestHeader :: "bar_hdr \<Rightarrow> bar_hdr" where
  "CtrlBAckRequestHeader memory =
     memory\<lparr>m_barAckPolicy := False, m_barType := BAR_BASIC, m_gcrAddress := 0\<rparr>"

definition bar_GetSerializedSize :: "bar_hdr \<Rightarrow> nat" where
  "bar_GetSerializedSize h =
     (case m_barType h of
        BAR_MULTI_TID \<Rightarrow> 2 + (2 + 2) * (unat (bar_tidInfo h) + 1)
      | BAR_GCR \<Rightarrow> 2 + (2 + 6)
      | _ \<Rightarrow> 2 + 2)"

definition GetBarControl :: "bar_hdr \<Rightarrow> u16" where
  "GetBarControl h =
     (case m_barType h of
        BAR_BASIC \<Rightarrow> 0
      | BAR_COMPRESSED \<Rightarrow> push_bit 1 0x02
      | BAR_EXTENDED_COMPRESSED \<Rightarrow> push_bit 1 0x01
      | BAR_MULTI_TID \<Rightarrow> push_bit 1 0x03
      | BAR_GCR \<Rightarrow> push_bit 1 0x06)
     OR (push_bit 12 (bar_tidInfo h) AND push_bit 12 0xf)"

definition SetBarControl :: "u16 \<Rightarrow> bar_hdr \<Rightarrow> bar_hdr" where
  "SetBarControl bar h =
     (let v = drop_bit 1 bar AND 0x0f
      in h\<lparr>m_barAckPolicy := (bar AND 0x01 = 1),
           m_barType := (if v = 0x06 then BAR_GCR else if v = 0x03 then BAR_MULTI_TID
                         else if v = 0x01 then BAR_EXTENDED_COMPRESSED
                         else if v = 0x02 then BAR_COMPRESSED else BAR_BASIC),
           bar_tidInfo := drop_bit 12 bar AND 0x0f\<rparr>)"

definition bar_GetStartingSequenceControl :: "bar_hdr \<Rightarrow> u16" where
  "bar_GetStartingSequenceControl h = push_bit 4 (bar_startingSeq h) AND 0xfff0"

definition bar_SetStartingSequenceControl :: "u16 \<Rightarrow> bar_hdr \<Rightarrow> bar_hdr" where
  "bar_SetStartingSequenceControl seqControl h = h\<lparr>bar_startingSeq := drop_bit 4 seqControl AND 0x0fff\<rparr>"

definition bar_Serialize :: "bar_hdr \<Rightarrow> bytes option" where
  "bar_Serialize h =
     (case m_barType h of
        BAR_MULTI_TID \<Rightarrow> None
      | BAR_GCR \<Rightarrow> Some (WriteU16 (GetBarControl h) @ WriteU16 (bar_GetStartingSequenceControl h)
                         @ WriteMac48 (m_gcrAddress h))
      | _ \<Rightarrow> Some (WriteU16 (GetBarControl h) @ WriteU16 (bar_GetStartingSequenceControl h)))"

definition bar_Deserialize :: "bytes \<Rightarrow> bar_hdr \<Rightarrow> (bar_hdr \<times> bytes) option" where
  "bar_Deserialize start h =
     do { (bar, i) \<leftarrow> ReadU16 start;
          let h = SetBarControl bar h;
          (case m_barType h of
             BAR_MULTI_TID \<Rightarrow> None
           | BAR_GCR \<Rightarrow> do { (seqControl, i) \<leftarrow> ReadU16 i;
                             (address, i) \<leftarrow> ReadMac48 i;
                             Some ((bar_SetStartingSequenceControl seqControl h)\<lparr>m_gcrAddress := address\<rparr>, i) }
           | _ \<Rightarrow> do { (seqControl, i) \<leftarrow> ReadU16 i;
                       Some (bar_SetStartingSequenceControl seqControl h, i) }) }"

definition bar_SetHtImmediateAck :: "bool \<Rightarrow> bar_hdr \<Rightarrow> bar_hdr" where
  "bar_SetHtImmediateAck immediateAck h = h\<lparr>m_barAckPolicy := immediateAck\<rparr>"

definition bar_SetType :: "bar_variant \<Rightarrow> bar_hdr \<Rightarrow> bar_hdr" where
  "bar_SetType type h = h\<lparr>m_barType := type\<rparr>"

definition bar_SetTidInfo :: "u8 \<Rightarrow> bar_hdr \<Rightarrow> bar_hdr" where
  "bar_SetTidInfo tid h = h\<lparr>bar_tidInfo := ucast tid\<rparr>"

definition bar_SetStartingSequence :: "u16 \<Rightarrow> bar_hdr \<Rightarrow> bar_hdr" where
  "bar_SetStartingSequence seq h = h\<lparr>bar_startingSeq := seq\<rparr>"

definition bar_GetTidInfo :: "bar_hdr \<Rightarrow> u8" where
  "bar_GetTidInfo h = ucast (bar_tidInfo h)"

definition bar_SetGcrGroupAddress :: "mac48 \<Rightarrow> bar_hdr \<Rightarrow> bar_hdr option" where
  "bar_SetGcrGroupAddress address h =
     do { ns_assert (m_barType h = BAR_GCR); Some (h\<lparr>m_gcrAddress := address\<rparr>) }"

definition bar_GetGcrGroupAddress :: "bar_hdr \<Rightarrow> mac48 option" where
  "bar_GetGcrGroupAddress h = do { ns_assert (m_barType h = BAR_GCR); Some (m_gcrAddress h) }"

section \<open>Block Ack\<close>

record ba_info =
  m_aidTidInfo :: u16
  bi_startingSeq :: u16
  m_bitmap :: bytes
  m_address :: mac48

record ba_hdr =
  m_baAckPolicy :: bool
  m_baVariant :: ba_variant
  m_bitmapLen :: "nat list"
  ba_tidInfo :: u16
  m_baInfo :: "ba_info list"

text \<open>\<^verbatim>\<open>BlockAckType(Variant)\<close>: the lengths of the bitmaps of a variant.\<close>

definition BlockAckType :: "ba_variant \<Rightarrow> ba_variant \<times> nat list" where
  "BlockAckType v =
     (v, case v of BA_BASIC \<Rightarrow> [128] | BA_COMPRESSED \<Rightarrow> [8] | BA_EXTENDED_COMPRESSED \<Rightarrow> [8] | BA_GCR \<Rightarrow> [8]
         | BA_MULTI_TID \<Rightarrow> [] | BA_MULTI_STA \<Rightarrow> [])"

definition ba_info_of_length :: "nat \<Rightarrow> ba_info" where
  "ba_info_of_length bitmapLen =
     \<lparr>m_aidTidInfo = 0, bi_startingSeq = 0, m_bitmap = replicate bitmapLen 0, m_address = 0\<rparr>"

definition ba_SetType :: "ba_variant \<times> nat list \<Rightarrow> ba_hdr \<Rightarrow> ba_hdr" where
  "ba_SetType type h =
     h\<lparr>m_baVariant := fst type, m_bitmapLen := snd type, m_baInfo := map ba_info_of_length (snd type)\<rparr>"

definition CtrlBAckResponseHeader :: ba_hdr where
  "CtrlBAckResponseHeader =
     ba_SetType (BlockAckType BA_BASIC)
       \<lparr>m_baAckPolicy = False, m_baVariant = BA_BASIC, m_bitmapLen = [], ba_tidInfo = 0, m_baInfo = []\<rparr>"

definition ba_GetSerializedSize :: "ba_hdr \<Rightarrow> nat" where
  "ba_GetSerializedSize h =
     (case m_baVariant h of
        BA_MULTI_TID \<Rightarrow> 2 + (2 + 2 + 8) * (unat (ba_tidInfo h) + 1)
      | BA_GCR \<Rightarrow> 2 + (2 + 6 + hd (m_bitmapLen h))
      | BA_MULTI_STA \<Rightarrow> 2 + sum_list (map (\<lambda>len. 2 + (if len > 0 then 2 else 0) + len) (m_bitmapLen h))
      | _ \<Rightarrow> 2 + (2 + hd (m_bitmapLen h)))"

text \<open>The two assertions that most operations on an index begin with, and the entry.\<close>

definition ba_entry :: "nat \<Rightarrow> ba_hdr \<Rightarrow> ba_info option" where
  "ba_entry index h =
     do { ns_assert (m_baVariant h = BA_MULTI_STA \<or> index = 0);
          ns_assert (index < length (m_baInfo h));
          Some (m_baInfo h ! index) }"

definition on_entry :: "nat \<Rightarrow> (ba_info \<Rightarrow> ba_info) \<Rightarrow> ba_hdr \<Rightarrow> ba_hdr" where
  "on_entry index f h = h\<lparr>m_baInfo := (m_baInfo h)[index := f (m_baInfo h ! index)]\<rparr>"

definition ba_SetHtImmediateAck :: "bool \<Rightarrow> ba_hdr \<Rightarrow> ba_hdr" where
  "ba_SetHtImmediateAck immediateAck h = h\<lparr>m_baAckPolicy := immediateAck\<rparr>"

definition ba_SetTidInfo :: "u8 \<Rightarrow> nat \<Rightarrow> ba_hdr \<Rightarrow> ba_hdr option" where
  "ba_SetTidInfo tid index h =
     do { _ \<leftarrow> ba_entry index h;
          Some (if m_baVariant h \<noteq> BA_MULTI_STA then h\<lparr>ba_tidInfo := ucast tid\<rparr>
                else on_entry index (\<lambda>e. e\<lparr>m_aidTidInfo := m_aidTidInfo e OR push_bit 12 (ucast tid AND 0x000f)\<rparr>) h) }"

definition ba_GetTidInfo :: "nat \<Rightarrow> ba_hdr \<Rightarrow> u8 option" where
  "ba_GetTidInfo index h =
     do { e \<leftarrow> ba_entry index h;
          Some (if m_baVariant h \<noteq> BA_MULTI_STA then ucast (ba_tidInfo h)
                else ucast (drop_bit 12 (m_aidTidInfo e) AND 0x000f)) }"

definition ba_SetStartingSequence :: "u16 \<Rightarrow> nat \<Rightarrow> ba_hdr \<Rightarrow> ba_hdr option" where
  "ba_SetStartingSequence seq index h =
     do { _ \<leftarrow> ba_entry index h; Some (on_entry index (\<lambda>e. e\<lparr>bi_startingSeq := seq\<rparr>) h) }"

definition ba_GetStartingSequence :: "nat \<Rightarrow> ba_hdr \<Rightarrow> u16 option" where
  "ba_GetStartingSequence index h = do { e \<leftarrow> ba_entry index h; Some (bi_startingSeq e) }"

text \<open>The fields of a Multi-STA Block Ack.\<close>

definition sta_entry :: "nat \<Rightarrow> ba_hdr \<Rightarrow> ba_info option" where
  "sta_entry index h =
     do { ns_assert (m_baVariant h = BA_MULTI_STA \<and> index < length (m_baInfo h)); Some (m_baInfo h ! index) }"

definition SetAid11 :: "u16 \<Rightarrow> nat \<Rightarrow> ba_hdr \<Rightarrow> ba_hdr option" where
  "SetAid11 aid index h =
     do { _ \<leftarrow> sta_entry index h;
          Some (on_entry index (\<lambda>e. e\<lparr>m_aidTidInfo := m_aidTidInfo e OR (aid AND 0x07ff)\<rparr>) h) }"

definition GetAid11 :: "nat \<Rightarrow> ba_hdr \<Rightarrow> u16 option" where
  "GetAid11 index h = do { e \<leftarrow> sta_entry index h; Some (m_aidTidInfo e AND 0x07ff) }"

definition SetAckType :: "bool \<Rightarrow> nat \<Rightarrow> ba_hdr \<Rightarrow> ba_hdr option" where
  "SetAckType type index h =
     do { _ \<leftarrow> sta_entry index h;
          Some (if type then on_entry index (\<lambda>e. e\<lparr>m_aidTidInfo := m_aidTidInfo e OR push_bit 11 1\<rparr>) h else h) }"

definition GetAckType :: "nat \<Rightarrow> ba_hdr \<Rightarrow> bool option" where
  "GetAckType index h =
     do { e \<leftarrow> sta_entry index h; Some (drop_bit 11 (m_aidTidInfo e) AND 0x0001 \<noteq> 0) }"

definition SetUnassociatedStaAddress :: "mac48 \<Rightarrow> nat \<Rightarrow> ba_hdr \<Rightarrow> ba_hdr option" where
  "SetUnassociatedStaAddress ra index h =
     do { aid \<leftarrow> GetAid11 index h;
          ns_assert (aid = 2045);
          Some (on_entry index (\<lambda>e. e\<lparr>m_address := ra\<rparr>) h) }"

definition GetUnassociatedStaAddress :: "nat \<Rightarrow> ba_hdr \<Rightarrow> mac48 option" where
  "GetUnassociatedStaAddress index h =
     do { aid \<leftarrow> GetAid11 index h; ns_assert (aid = 2045); Some (m_address (m_baInfo h ! index)) }"

definition FindPerAidTidInfoWithAid :: "u16 \<Rightarrow> ba_hdr \<Rightarrow> nat list option" where
  "FindPerAidTidInfoWithAid aid h =
     do { ns_assert (m_baVariant h = BA_MULTI_STA);
          Some (filter (\<lambda>i. GetAid11 i h = Some aid) [0..<length (m_baInfo h)]) }"

definition ba_SetGcrGroupAddress :: "mac48 \<Rightarrow> ba_hdr \<Rightarrow> ba_hdr option" where
  "ba_SetGcrGroupAddress address h =
     do { ns_assert (m_baVariant h = BA_GCR);
          ns_assert (m_baInfo h \<noteq> []);
          Some (on_entry 0 (\<lambda>e. e\<lparr>m_address := address\<rparr>) h) }"

definition ba_GetGcrGroupAddress :: "ba_hdr \<Rightarrow> mac48 option" where
  "ba_GetGcrGroupAddress h =
     do { ns_assert (m_baVariant h = BA_GCR); ns_assert (m_baInfo h \<noteq> []); Some (m_address (hd (m_baInfo h))) }"

section \<open>Control fields\<close>

definition GetBaControl :: "ba_hdr \<Rightarrow> u16" where
  "GetBaControl h =
     ((if m_baAckPolicy h then 0x1 else 0)
      OR (case m_baVariant h of
            BA_BASIC \<Rightarrow> 0
          | BA_COMPRESSED \<Rightarrow> push_bit 1 0x02
          | BA_EXTENDED_COMPRESSED \<Rightarrow> push_bit 1 0x01
          | BA_MULTI_TID \<Rightarrow> push_bit 1 0x03
          | BA_GCR \<Rightarrow> push_bit 1 0x06
          | BA_MULTI_STA \<Rightarrow> push_bit 1 0x0b))
      OR (if m_baVariant h \<noteq> BA_MULTI_STA then push_bit 12 (ba_tidInfo h) AND push_bit 12 0xf else 0)"

definition SetBaControl :: "u16 \<Rightarrow> ba_hdr \<Rightarrow> ba_hdr option" where
  "SetBaControl ba h =
     (let v = drop_bit 1 ba AND 0x0f
      in do { type \<leftarrow> (if v = 0x06 then Some BA_GCR else if v = 0x03 then Some BA_MULTI_TID
                       else if v = 0x01 then Some BA_EXTENDED_COMPRESSED
                       else if v = 0x02 then Some BA_COMPRESSED
                       else if v = 0 then Some BA_BASIC
                       else if v = 0x0b then Some BA_MULTI_STA else None);
              let h = ba_SetType (BlockAckType type) (h\<lparr>m_baAckPolicy := (ba AND 0x01 = 1)\<rparr>);
              Some (if type \<noteq> BA_MULTI_STA then h\<lparr>ba_tidInfo := drop_bit 12 ba AND 0x0f\<rparr> else h) })"

text \<open>The Fragment Number subfield encodes the length of the bitmap.\<close>

definition compressed_lengths :: "(nat \<times> u16) list" where
  "compressed_lengths = [(8, 0), (32, 0x0004), (64, 0x0008), (128, 0x000a)]"

definition multi_sta_lengths :: "(nat \<times> u16) list" where
  "multi_sta_lengths = [(8, 0), (16, 0x0002), (32, 0x0004), (4, 0x0006), (64, 0x0008), (128, 0x000a)]"

definition ba_GetStartingSequenceControl :: "nat \<Rightarrow> ba_hdr \<Rightarrow> u16 option" where
  "ba_GetStartingSequenceControl index h =
     do { e \<leftarrow> ba_entry index h;
          let ret = push_bit 4 (bi_startingSeq e) AND 0xfff0;
          (case m_baVariant h of
             BA_MULTI_STA \<Rightarrow> do {
               ns_assert (length (m_baInfo h) = length (m_bitmapLen h));
               ns_assert (m_bitmap e \<noteq> []);
               code \<leftarrow> map_of multi_sta_lengths (m_bitmapLen h ! index);
               Some (ret OR code) }
           | v \<Rightarrow> if v = BA_COMPRESSED \<or> v = BA_GCR
                  then do { ns_assert (m_bitmapLen h \<noteq> []);
                            code \<leftarrow> map_of compressed_lengths (hd (m_bitmapLen h));
                            Some (ret OR code) }
                  else Some ret) }"

definition length_of_code :: "(nat \<times> u16) list \<Rightarrow> u16 \<Rightarrow> nat option" where
  "length_of_code table fragNumber = map_of (map prod.swap table) fragNumber"

definition ba_SetStartingSequenceControl :: "u16 \<Rightarrow> nat \<Rightarrow> ba_hdr \<Rightarrow> ba_hdr option" where
  "ba_SetStartingSequenceControl seqControl index h =
     do { _ \<leftarrow> ba_entry index h;
          let fragNumber = seqControl AND 0x000f;
          h \<leftarrow> (case m_baVariant h of
                  BA_MULTI_STA \<Rightarrow> do {
                    len \<leftarrow> length_of_code multi_sta_lengths fragNumber;
                    ns_assert (index < length (m_bitmapLen h));
                    Some (on_entry index (\<lambda>e. e\<lparr>m_bitmap := replicate len 0\<rparr>)
                           (h\<lparr>m_bitmapLen := (m_bitmapLen h)[index := len]\<rparr>)) }
                | v \<Rightarrow> if v = BA_COMPRESSED \<or> v = BA_GCR
                       then do { len \<leftarrow> length_of_code compressed_lengths fragNumber;
                                 Some (ba_SetType (v, [len]) h) }
                       else Some h);
          Some (on_entry index (\<lambda>e. e\<lparr>bi_startingSeq := drop_bit 4 seqControl AND 0x0fff\<rparr>) h) }"

section \<open>The bitmap\<close>

text \<open>Elements of a \<^verbatim>\<open>std::vector\<close>: an index past the end is undefined behaviour.\<close>

definition vec_at :: "nat \<Rightarrow> 'a list \<Rightarrow> 'a option" where
  "vec_at i xs = do { ns_assert (i < length xs); Some (xs ! i) }"

definition nAckedMpdus :: "nat \<Rightarrow> ba_hdr \<Rightarrow> nat option" where
  "nAckedMpdus index h =
     do { len \<leftarrow> vec_at index (m_bitmapLen h);
          Some (if m_baVariant h = BA_BASIC then len * 8 div 16 else len * 8) }"

text \<open>The difference is taken in \<^verbatim>\<open>int\<close>, whose remainder truncates towards zero.\<close>

definition IsInBitmap :: "u16 \<Rightarrow> nat \<Rightarrow> ba_hdr \<Rightarrow> bool option" where
  "IsInBitmap seq index h =
     do { ns_assert (m_baVariant h = BA_MULTI_STA \<or> index = 0);
          n \<leftarrow> nAckedMpdus index h;
          e \<leftarrow> vec_at index (m_baInfo h);
          Some ((uint seq - uint (bi_startingSeq e) + 4096) smod 4096 < int n) }"

definition IndexInBitmap :: "u16 \<Rightarrow> nat \<Rightarrow> ba_hdr \<Rightarrow> nat option" where
  "IndexInBitmap seq index h =
     do { e \<leftarrow> vec_at index (m_baInfo h);
          let i = (if seq \<ge> bi_startingSeq e then seq - bi_startingSeq e else 4096 - bi_startingSeq e + seq);
          n \<leftarrow> nAckedMpdus index h;
          ns_assert (unat i < n);
          Some (unat i) }"

definition set_bit_of :: "nat \<Rightarrow> nat \<Rightarrow> nat \<Rightarrow> ba_hdr \<Rightarrow> ba_hdr option" where
  "set_bit_of index octet b h =
     do { e \<leftarrow> vec_at index (m_baInfo h);
          byte \<leftarrow> vec_at octet (m_bitmap e);
          Some (on_entry index (\<lambda>e. e\<lparr>m_bitmap := (m_bitmap e)[octet := byte OR push_bit b 0x01]\<rparr>) h) }"

definition get_bit_of :: "nat \<Rightarrow> nat \<Rightarrow> nat \<Rightarrow> ba_hdr \<Rightarrow> bool option" where
  "get_bit_of index octet b h =
     do { e \<leftarrow> vec_at index (m_baInfo h);
          byte \<leftarrow> vec_at octet (m_bitmap e);
          Some (byte AND push_bit b 0x01 \<noteq> 0) }"

definition SetReceivedPacket :: "u16 \<Rightarrow> nat \<Rightarrow> ba_hdr \<Rightarrow> ba_hdr option" where
  "SetReceivedPacket seq index h =
     do { _ \<leftarrow> ba_entry index h;
          inside \<leftarrow> IsInBitmap seq index h;
          (if \<not> inside then Some h
           else case m_baVariant h of
                  BA_BASIC \<Rightarrow> do { i \<leftarrow> IndexInBitmap seq 0 h; set_bit_of index (i * 2) 0 h }
                | BA_MULTI_TID \<Rightarrow> None
                | _ \<Rightarrow> do { i \<leftarrow> IndexInBitmap seq index h; set_bit_of index (i div 8) (i mod 8) h }) }"

definition SetReceivedFragment :: "u16 \<Rightarrow> nat \<Rightarrow> ba_hdr \<Rightarrow> ba_hdr option" where
  "SetReceivedFragment seq frag h =
     do { ns_assert (frag < 16);
          inside \<leftarrow> IsInBitmap seq 0 h;
          (if \<not> inside then Some h
           else case m_baVariant h of
                  BA_BASIC \<Rightarrow> do { i \<leftarrow> IndexInBitmap seq 0 h; set_bit_of 0 (i * 2 + frag div 8) (frag mod 8) h }
                | BA_MULTI_TID \<Rightarrow> None
                | _ \<Rightarrow> Some h) }"

definition all_ack_context :: "nat \<Rightarrow> ba_hdr \<Rightarrow> bool option" where
  "all_ack_context index h =
     (if m_baVariant h = BA_MULTI_STA
      then do { ack \<leftarrow> GetAckType index h;
                tid \<leftarrow> ba_GetTidInfo index h;
                Some (ack \<and> tid = 14) }
      else Some False)"

definition IsPacketReceived :: "u16 \<Rightarrow> nat \<Rightarrow> ba_hdr \<Rightarrow> bool option" where
  "IsPacketReceived seq index h =
     do { _ \<leftarrow> ba_entry index h;
          allAck \<leftarrow> all_ack_context index h;
          (if allAck then Some True
           else do {
             inside \<leftarrow> IsInBitmap seq index h;
             (if \<not> inside then Some False
              else case m_baVariant h of
                     BA_BASIC \<Rightarrow> Some False
                   | BA_MULTI_TID \<Rightarrow> None
                   | _ \<Rightarrow> do { i \<leftarrow> IndexInBitmap seq index h; get_bit_of index (i div 8) (i mod 8) h }) }) }"

definition IsFragmentReceived :: "u16 \<Rightarrow> nat \<Rightarrow> ba_hdr \<Rightarrow> bool option" where
  "IsFragmentReceived seq frag h =
     do { ns_assert (frag < 16);
          inside \<leftarrow> IsInBitmap seq 0 h;
          (if \<not> inside then Some False
           else case m_baVariant h of
                  BA_BASIC \<Rightarrow> do { i \<leftarrow> IndexInBitmap seq 0 h; get_bit_of 0 (i * 2 + frag div 8) (frag mod 8) h }
                | BA_MULTI_TID \<Rightarrow> None
                | _ \<Rightarrow> Some False) }"

definition ResetBitmap :: "nat \<Rightarrow> ba_hdr \<Rightarrow> ba_hdr option" where
  "ResetBitmap index h =
     do { _ \<leftarrow> ba_entry index h;
          len \<leftarrow> vec_at index (m_bitmapLen h);
          Some (on_entry index (\<lambda>e. e\<lparr>m_bitmap := replicate len 0\<rparr>) h) }"

section \<open>The recipient fills in its scoreboard\<close>

text \<open>\<^verbatim>\<open>RecipientBlockAckAgreement::FillBlockAckBitmap\<close>; the loop over the positions.\<close>

fun fill_from :: "nat \<Rightarrow> nat list \<Rightarrow> baw \<Rightarrow> nat \<Rightarrow> ba_hdr \<Rightarrow> ba_hdr option" where
  "fill_from ssn [] w index h = Some h"
| "fill_from ssn (i # is) w index h =
     do { received \<leftarrow> baw_At i w;
          h \<leftarrow> (if received then SetReceivedPacket (of_nat ((ssn + i) mod SEQNO_SPACE_SIZE)) index h
                else Some h);
          fill_from ssn is w index h }"

definition FillBlockAckBitmap :: "'p recipient \<Rightarrow> nat \<Rightarrow> ba_hdr \<Rightarrow> ba_hdr option" where
  "FillBlockAckBitmap a index h =
     (case m_baVariant h of
        BA_BASIC \<Rightarrow> None
      | BA_MULTI_TID \<Rightarrow> None
      | _ \<Rightarrow> do { let ssn = m_winStart (m_scoreboard a);
                  h \<leftarrow> ba_SetStartingSequence (of_nat ssn) index h;
                  h \<leftarrow> ResetBitmap index h;
                  fill_from ssn [0..<baw_GetWinSize (m_scoreboard a)] (m_scoreboard a) index h })"

section \<open>On the wire\<close>

definition SerializeBitmap :: "nat \<Rightarrow> ba_hdr \<Rightarrow> bytes option" where
  "SerializeBitmap index h =
     do { e \<leftarrow> ba_entry index h;
          ns_assert (m_baVariant h \<noteq> BA_MULTI_TID);
          Some (concat (map WriteU8 (m_bitmap e))) }"

fun read_octets :: "nat list \<Rightarrow> bytes \<Rightarrow> bytes \<Rightarrow> (bytes \<times> bytes) option" where
  "read_octets [] bitmap i = Some (bitmap, i)"
| "read_octets (j # js) bitmap i =
     do { (byte, i) \<leftarrow> ReadU8 i;
          ns_assert (j < length bitmap);
          read_octets js (bitmap[j := byte]) i }"

definition DeserializeBitmap :: "nat \<Rightarrow> bytes \<Rightarrow> ba_hdr \<Rightarrow> (ba_hdr \<times> bytes) option" where
  "DeserializeBitmap index start h =
     do { e \<leftarrow> ba_entry index h;
          ns_assert (m_baVariant h \<noteq> BA_MULTI_TID);
          len \<leftarrow> vec_at index (m_bitmapLen h);
          (bitmap, i) \<leftarrow> read_octets [0..<len] (m_bitmap e) start;
          Some (on_entry index (\<lambda>e. e\<lparr>m_bitmap := bitmap\<rparr>) h, i) }"

definition write_per_aid :: "ba_hdr \<Rightarrow> nat \<Rightarrow> bytes option" where
  "write_per_aid h index =
     do { e \<leftarrow> vec_at index (m_baInfo h);
          aid \<leftarrow> GetAid11 index h;
          (if aid \<noteq> 2045
           then if m_bitmap e \<noteq> []
                then do { ssc \<leftarrow> ba_GetStartingSequenceControl index h;
                          bits \<leftarrow> SerializeBitmap index h;
                          Some (WriteU16 (m_aidTidInfo e) @ WriteU16 ssc @ bits) }
                else Some (WriteU16 (m_aidTidInfo e))
           else Some (WriteU16 (m_aidTidInfo e) @ WriteU32 0 @ WriteMac48 (m_address e))) }"

fun write_all :: "(nat \<Rightarrow> bytes option) \<Rightarrow> nat list \<Rightarrow> bytes option" where
  "write_all f [] = Some []"
| "write_all f (i # is) = do { b \<leftarrow> f i; bs \<leftarrow> write_all f is; Some (b @ bs) }"

definition ba_Serialize :: "ba_hdr \<Rightarrow> bytes option" where
  "ba_Serialize h =
     (case m_baVariant h of
        BA_MULTI_TID \<Rightarrow> None
      | BA_GCR \<Rightarrow> do { ssc \<leftarrow> ba_GetStartingSequenceControl 0 h;
                      bits \<leftarrow> SerializeBitmap 0 h;
                      Some (WriteU16 (GetBaControl h) @ WriteU16 ssc @ WriteMac48 (m_address (hd (m_baInfo h))) @ bits) }
      | BA_MULTI_STA \<Rightarrow> do { infos \<leftarrow> write_all (write_per_aid h) [0..<length (m_baInfo h)];
                             Some (WriteU16 (GetBaControl h) @ infos) }
      | _ \<Rightarrow> do { ssc \<leftarrow> ba_GetStartingSequenceControl 0 h;
                  bits \<leftarrow> SerializeBitmap 0 h;
                  Some (WriteU16 (GetBaControl h) @ WriteU16 ssc @ bits) })"

text \<open>One turn of the loop over the Per AID TID Info subfields.\<close>

definition read_per_aid :: "nat \<Rightarrow> bytes \<Rightarrow> ba_hdr \<Rightarrow> (ba_hdr \<times> bytes) option" where
  "read_per_aid index i h =
     do { (aidTidInfo, i) \<leftarrow> ReadU16 i;
          let h = h\<lparr>m_baInfo := m_baInfo h @ [(ba_info_of_length 0)\<lparr>m_aidTidInfo := aidTidInfo\<rparr>],
                    m_bitmapLen := m_bitmapLen h @ [0]\<rparr>;
          aid \<leftarrow> GetAid11 index h;
          ack \<leftarrow> GetAckType index h;
          tid \<leftarrow> ba_GetTidInfo index h;
          (if aid \<noteq> 2045
           then if \<not> ack \<and> tid < 8
                then do { (ssc, i) \<leftarrow> ReadU16 i;
                          h \<leftarrow> ba_SetStartingSequenceControl ssc index h;
                          DeserializeBitmap index i h }
                else Some (h, i)
           else do { (_, i) \<leftarrow> ReadU32 i;
                     (address, i) \<leftarrow> ReadMac48 i;
                     let last = length (m_baInfo h) - 1;
                     Some ((on_entry last (\<lambda>e. e\<lparr>m_address := address\<rparr>) h)
                            \<lparr>m_bitmapLen := (m_bitmapLen h)[length (m_bitmapLen h) - 1 := 8]\<rparr>, i) }) }"

lemma ReadU8_shorter: "ReadU8 i = Some (b, i') \<Longrightarrow> length i' < length i"
  by (auto simp: ReadU8_def split: list.splits)

lemma ReadU16_shorter: "ReadU16 i = Some (b, i') \<Longrightarrow> length i' < length i"
  by (auto simp: ReadU16_def split: list.splits)

lemma read_octets_shorter: "read_octets js bitmap i = Some (bitmap', i') \<Longrightarrow> length i' \<le> length i"
proof (induction js bitmap i rule: read_octets.induct)
  case (2 j js bitmap i)
  from 2(2) obtain b i2 where "ReadU8 i = Some (b, i2)" "j < length bitmap"
    "read_octets js (bitmap[j := b]) i2 = Some (bitmap', i')"
    by (auto elim!: bind_SomeE)
  with 2(1) [of "(b, i2)" b i2] ReadU8_shorter [of i b i2] show ?case by simp
qed simp

lemma ReadU32_shorter: "ReadU32 i = Some (b, i') \<Longrightarrow> length i' < length i"
  by (auto simp: ReadU32_def split: list.splits)

lemma ReadMac48_shorter: "ReadMac48 i = Some (b, i') \<Longrightarrow> length i' \<le> length i"
  by (auto simp: ReadMac48_def split: if_splits)

lemma read_per_aid_shorter:
  assumes "read_per_aid index i h = Some (h', i')"
  shows "length i' < length i"
  using assms
  by (auto simp: read_per_aid_def Let_def DeserializeBitmap_def elim!: bind_SomeE split: if_splits
      dest!: ReadU16_shorter ReadU32_shorter ReadMac48_shorter read_octets_shorter)

text \<open>The loop runs while there are octets left in the frame.\<close>

function read_multi_sta :: "nat \<Rightarrow> bytes \<Rightarrow> ba_hdr \<Rightarrow> (ba_hdr \<times> bytes) option" where
  "read_multi_sta index i h =
     (if i = [] then Some (h, [])
      else case read_per_aid index i h of
             None \<Rightarrow> None
           | Some (h, i) \<Rightarrow> read_multi_sta (index + 1) i h)"
  by auto
termination
  by (relation "measure (\<lambda>(_, i, _). length i)") (auto dest: read_per_aid_shorter)

declare read_multi_sta.simps [simp del]

definition ba_Deserialize :: "bytes \<Rightarrow> ba_hdr \<Rightarrow> (ba_hdr \<times> bytes) option" where
  "ba_Deserialize start h =
     do { (ba, i) \<leftarrow> ReadU16 start;
          h \<leftarrow> SetBaControl ba h;
          (case m_baVariant h of
             BA_MULTI_TID \<Rightarrow> None
           | BA_GCR \<Rightarrow> do { (ssc, i) \<leftarrow> ReadU16 i;
                           h \<leftarrow> ba_SetStartingSequenceControl ssc 0 h;
                           (address, i) \<leftarrow> ReadMac48 i;
                           DeserializeBitmap 0 i (on_entry 0 (\<lambda>e. e\<lparr>m_address := address\<rparr>) h) }
           | BA_MULTI_STA \<Rightarrow> read_multi_sta 0 i h
           | _ \<Rightarrow> do { (ssc, i) \<leftarrow> ReadU16 i;
                       h \<leftarrow> ba_SetStartingSequenceControl ssc 0 h;
                       DeserializeBitmap 0 i h }) }"

end
