(* ===== verification/Ctrl_Headers_Props.thy ===== *)
theory Ctrl_Headers_Props
  imports Ctrl_Headers Header_Codec
begin

text \<open>
  What the headers of control frames promise: a Block Ack Request and a Block Ack are read back as
  they were written, and the originator reads from the bitmap what the recipient's scoreboard holds.
\<close>

section \<open>Fields of the control words\<close>

lemma fits_0 [simp]: "fits k 0"
  by (simp add: fits_def)

lemma control_fields:
  fixes t v :: u16
  assumes "fits 4 t" "fits 5 v"
  defines "w \<equiv> v OR (push_bit 12 t AND push_bit 12 0xf)"
  shows "drop_bit 12 w AND 0x0f = t" "drop_bit 1 w AND 0x0f = drop_bit 1 v" "w AND 0x01 = v AND 0x01"
proof -
  have f: "(0xf :: u16) = mask 4" "(0x01 :: u16) = mask 1" by (simp_all add: mask_eq_exp_minus_1)
  note b = fits_bit [OF assms(1)] fits_bit [OF assms(2)]
  show "drop_bit 12 w AND 0x0f = t"
    unfolding w_def f by (rule bit_word_eqI) (auto simp: bit_simps dest: b)
  show "drop_bit 1 w AND 0x0f = drop_bit 1 v"
    unfolding w_def f by (rule bit_word_eqI) (auto simp: bit_simps dest: b)
  show "w AND 0x01 = v AND 0x01"
    unfolding w_def f by (rule bit_word_eqI) (auto simp: bit_simps dest: b)
qed

lemma ssc_fields:
  fixes x c :: u16
  assumes "fits 12 x" "fits 4 c"
  defines "w \<equiv> (push_bit 4 x AND 0xfff0) OR c"
  shows "drop_bit 4 w AND 0x0fff = x" "w AND 0x000f = c"
proof -
  have f: "(0xfff0 :: u16) = push_bit 4 (mask 12)" "(0xfff :: u16) = mask 12" "(0xf :: u16) = mask 4"
    by (simp_all add: mask_eq_exp_minus_1)
  note b = fits_bit [OF assms(1)] fits_bit [OF assms(2)]
  show "drop_bit 4 w AND 0x0fff = x"
    unfolding w_def f by (rule bit_word_eqI) (auto simp: bit_simps dest: b)
  show "w AND 0x000f = c"
    unfolding w_def f by (rule bit_word_eqI) (auto simp: bit_simps dest: b)
qed

lemma variant_codes:
  "fits 5 (0 :: u16)" "fits 5 (push_bit 1 0x02 :: u16)" "fits 5 (push_bit 1 0x01 :: u16)"
  "fits 5 (push_bit 1 0x03 :: u16)" "fits 5 (push_bit 1 0x06 :: u16)" "fits 5 (push_bit 1 0x0b :: u16)"
  by (simp_all add: fits_def take_bit_eq_mod)

section \<open>Block Ack Request\<close>

text \<open>
  Property C29: a Block Ack Request is read back from the octets it is written to, whatever header
  it is read into and whatever follows it, and its size is the announced one.  All fields survive
  but the BAR Ack Policy, which is never written and always read as zero.
\<close>

theorem block_ack_request_roundtrip:
  assumes "m_barType h \<noteq> BAR_MULTI_TID" "fits 4 (bar_tidInfo h)" "fits 12 (bar_startingSeq h)"
  shows "\<exists>bs. bar_Serialize h = Some bs \<and> length bs = bar_GetSerializedSize h
    \<and> bar_Deserialize (bs @ rest) h0 =
        Some (h\<lparr>m_barAckPolicy := False,
                m_gcrAddress := (if m_barType h = BAR_GCR then m_gcrAddress h else m_gcrAddress h0)\<rparr>, rest)"
proof -
  have ssc: "bar_SetStartingSequenceControl (bar_GetStartingSequenceControl h) g = g\<lparr>bar_startingSeq := bar_startingSeq h\<rparr>" for g
    using ssc_fields(1) [OF assms(3) fits_0]
    by (simp only: bar_SetStartingSequenceControl_def bar_GetStartingSequenceControl_def or.right_neutral)
  have ctl: "SetBarControl (GetBarControl h) g =
      g\<lparr>m_barAckPolicy := False, m_barType := m_barType h, bar_tidInfo := bar_tidInfo h\<rparr>" for g
    using assms(1)
    by (cases "m_barType h"; simp only: SetBarControl_def GetBarControl_def Let_def bar_variant.case
        control_fields [OF assms(2) variant_codes(1)] control_fields [OF assms(2) variant_codes(2)]
        control_fields [OF assms(2) variant_codes(3)] control_fields [OF assms(2) variant_codes(5)]) simp_all
  show ?thesis
    using assms(1)
    by (cases "m_barType h")
      (simp_all add: bar_Serialize_def bar_GetSerializedSize_def bar_Deserialize_def ctl ssc)
qed

theorem block_ack_request_roundtrip_witness:
  "\<exists>bs. bar_Serialize \<lparr>m_barAckPolicy = False, m_barType = BAR_COMPRESSED, bar_tidInfo = 5, bar_startingSeq = 100,
       m_gcrAddress = 0\<rparr> = Some bs \<and> length bs = 4"
  using block_ack_request_roundtrip [of "\<lparr>m_barAckPolicy = False, m_barType = BAR_COMPRESSED, bar_tidInfo = 5,
      bar_startingSeq = 100, m_gcrAddress = 0\<rparr>"]
  by (auto simp: fits_def take_bit_eq_mod bar_GetSerializedSize_def)

section \<open>Block Ack\<close>

text \<open>
  A header that can be written: one bitmap of a length that the variant has a code for, or
  the Per AID TID Info subfields of a Multi-STA Block Ack, with a bitmap exactly in the Block Ack
  contexts and the address of the station exactly for the unassociated ones.
\<close>

definition bitmap_lengths :: "ba_variant \<Rightarrow> nat list" where
  "bitmap_lengths v =
     (case v of BA_BASIC \<Rightarrow> [128] | BA_EXTENDED_COMPRESSED \<Rightarrow> [8] | BA_COMPRESSED \<Rightarrow> [8, 32, 64, 128]
      | BA_GCR \<Rightarrow> [8, 32, 64, 128] | BA_MULTI_STA \<Rightarrow> [8, 16, 32, 4, 64, 128] | BA_MULTI_TID \<Rightarrow> [])"

definition per_aid_wf :: "nat \<Rightarrow> ba_info \<Rightarrow> bool" where
  "per_aid_wf len e \<longleftrightarrow>
     (let unassociated = (m_aidTidInfo e AND 0x07ff = 2045);
          context = (drop_bit 11 (m_aidTidInfo e) AND 0x0001 = 0 \<and> (ucast (drop_bit 12 (m_aidTidInfo e) AND 0x000f) :: u8) < 8)
      in if \<not> unassociated \<and> context
         then len \<in> set (bitmap_lengths BA_MULTI_STA) \<and> length (m_bitmap e) = len \<and> fits 12 (bi_startingSeq e)
              \<and> m_address e = 0
         else len = (if unassociated then 8 else 0) \<and> m_bitmap e = [] \<and> bi_startingSeq e = 0
              \<and> (unassociated \<or> m_address e = 0))"

definition ba_wf :: "ba_hdr \<Rightarrow> bool" where
  "ba_wf h \<longleftrightarrow>
     (if m_baVariant h = BA_MULTI_STA then list_all2 per_aid_wf (m_bitmapLen h) (m_baInfo h)
      else fits 4 (ba_tidInfo h)
         \<and> (case (m_bitmapLen h, m_baInfo h) of
              ([len], [e]) \<Rightarrow>
                len \<in> set (bitmap_lengths (m_baVariant h)) \<and> length (m_bitmap e) = len \<and> fits 12 (bi_startingSeq e)
                \<and> m_aidTidInfo e = 0 \<and> (m_baVariant h = BA_GCR \<or> m_address e = 0)
            | _ \<Rightarrow> False))"

lemma read_octets_all:
  "k + length bs = length bitmap \<Longrightarrow> read_octets [k..<length bitmap] bitmap (bs @ i) = Some (take k bitmap @ bs, i)"
proof (induction bs arbitrary: k bitmap)
  case (Cons b bs)
  then have k: "k < length bitmap" by simp
  from Cons.prems Cons.IH [of "Suc k" "bitmap[k := b]"] k show ?case
    by (simp add: upt_rec [of k] ReadU8_def take_Suc_conv_app_nth)
qed simp

lemma read_bitmap:
  "length bs = n \<Longrightarrow> read_octets [0..<n] (replicate n x) (bs @ i) = Some (bs, i)"
  using read_octets_all [of 0 bs "replicate n x" i] by simp

lemma write_bitmap [simp]: "concat (map WriteU8 bs) = bs"
  by (induction bs) (simp_all add: WriteU8_def)

text \<open>The lengths of bitmaps and their codes.\<close>

lemma compressed_codes:
  assumes "len \<in> set (bitmap_lengths BA_COMPRESSED)"
  obtains c where "map_of compressed_lengths len = Some c" "fits 4 c" "length_of_code compressed_lengths c = Some len"
  using assms
  by (auto simp: bitmap_lengths_def compressed_lengths_def length_of_code_def fits_def take_bit_eq_mod)

lemma multi_sta_codes:
  assumes "len \<in> set (bitmap_lengths BA_MULTI_STA)"
  obtains c where "map_of multi_sta_lengths len = Some c" "fits 4 c" "length_of_code multi_sta_lengths c = Some len"
    "len > 0"
  using assms
  by (auto simp: bitmap_lengths_def multi_sta_lengths_def length_of_code_def fits_def take_bit_eq_mod)

lemma SetBaControl_Get:
  assumes "m_baVariant h \<noteq> BA_MULTI_STA \<Longrightarrow> fits 4 (ba_tidInfo h)"
  shows "SetBaControl (GetBaControl h) g = Some (ba_SetType (BlockAckType (m_baVariant h))
     (g\<lparr>m_baAckPolicy := m_baAckPolicy h,
        ba_tidInfo := (if m_baVariant h = BA_MULTI_STA then ba_tidInfo g else ba_tidInfo h)\<rparr>))"
proof (cases "m_baVariant h = BA_MULTI_STA")
  case True
  then show ?thesis
    by (simp add: SetBaControl_def GetBaControl_def Let_def)
next
  case False
  have f: "fits 5 ((if m_baAckPolicy h then 0x1 else 0) OR push_bit 1 c :: u16)" if "c \<in> {0, 1, 2, 3, 6}" for c
    using that by (auto simp: fits_def take_bit_eq_mod)
  have "\<exists>c. c \<in> {0, 1, 2, 3, 6 :: u16} \<and>
      GetBaControl h = ((if m_baAckPolicy h then 0x1 else 0) OR push_bit 1 c) OR (push_bit 12 (ba_tidInfo h) AND push_bit 12 0xf)
      \<and> c = (case m_baVariant h of BA_BASIC \<Rightarrow> 0 | BA_COMPRESSED \<Rightarrow> 2 | BA_EXTENDED_COMPRESSED \<Rightarrow> 1
              | BA_MULTI_TID \<Rightarrow> 3 | BA_GCR \<Rightarrow> 6 | BA_MULTI_STA \<Rightarrow> 0)"
    using False by (cases "m_baVariant h") (simp_all add: GetBaControl_def)
  then obtain c where c: "c \<in> {0, 1, 2, 3, 6 :: u16}"
    "GetBaControl h = ((if m_baAckPolicy h then 0x1 else 0) OR push_bit 1 c) OR (push_bit 12 (ba_tidInfo h) AND push_bit 12 0xf)"
    "c = (case m_baVariant h of BA_BASIC \<Rightarrow> 0 | BA_COMPRESSED \<Rightarrow> 2 | BA_EXTENDED_COMPRESSED \<Rightarrow> 1
              | BA_MULTI_TID \<Rightarrow> 3 | BA_GCR \<Rightarrow> 6 | BA_MULTI_STA \<Rightarrow> 0)"
    by blast
  show ?thesis
    unfolding SetBaControl_def Let_def c(2) control_fields [OF assms [OF False] f [OF c(1)]]
    using False c(3) by (cases "m_baVariant h") (simp_all add: ba_SetType_def)
qed

text \<open>A header with one bitmap, from its starting sequence control on.\<close>

lemma ba_SetType_same:
  "m_baVariant g = v \<Longrightarrow> ba_SetType (v, lens) g = g\<lparr>m_bitmapLen := lens, m_baInfo := map ba_info_of_length lens\<rparr>"
  by (cases g) (simp add: ba_SetType_def)

lemma one_bitmap_roundtrip:
  assumes v: "m_baVariant h \<noteq> BA_MULTI_STA" "m_baVariant h \<noteq> BA_MULTI_TID" "ba_wf h"
  obtains ssc len e where "m_bitmapLen h = [len]" "m_baInfo h = [e]" "length (m_bitmap e) = len"
    "ba_GetStartingSequenceControl 0 h = Some ssc"
    "\<And>g. m_baVariant g = m_baVariant h \<Longrightarrow> (m_bitmapLen g, m_baInfo g) = (snd (BlockAckType (m_baVariant h)),
          map ba_info_of_length (snd (BlockAckType (m_baVariant h)))) \<Longrightarrow>
       ba_SetStartingSequenceControl ssc 0 g = Some (g\<lparr>m_bitmapLen := [len],
         m_baInfo := [(ba_info_of_length len)\<lparr>bi_startingSeq := bi_startingSeq e\<rparr>]\<rparr>)"
proof -
  from assms obtain len e where h: "m_bitmapLen h = [len]" "m_baInfo h = [e]" "length (m_bitmap e) = len"
    "len \<in> set (bitmap_lengths (m_baVariant h))" "fits 12 (bi_startingSeq e)"
    by (auto simp: ba_wf_def split: list.splits)
  show ?thesis
  proof (cases "m_baVariant h = BA_COMPRESSED \<or> m_baVariant h = BA_GCR")
    case True
    with h(4) have "len \<in> set (bitmap_lengths BA_COMPRESSED)" by (auto simp: bitmap_lengths_def)
    then obtain c where c: "map_of compressed_lengths len = Some c" "fits 4 c" "length_of_code compressed_lengths c = Some len"
      by (rule compressed_codes)
    define w where "w = (push_bit 4 (bi_startingSeq e) AND 0xfff0) OR c"
    note ssc = ssc_fields [OF h(5) c(2), folded w_def]
    show ?thesis
      by (rule that [OF h(1,2,3), of w])
        (use True h c in \<open>auto simp: ba_GetStartingSequenceControl_def ba_SetStartingSequenceControl_def
            ba_entry_def ssc w_def [symmetric] ba_SetType_same on_entry_def BlockAckType_def\<close>)
  next
    case False
    define w where "w = push_bit 4 (bi_startingSeq e) AND 0xfff0"
    note ssc = ssc_fields(1) [OF h(5) fits_0, unfolded or.right_neutral, folded w_def]
    show ?thesis
      by (rule that [OF h(1,2,3), of w])
        (use False v h in \<open>cases "m_baVariant h"; simp add: ba_GetStartingSequenceControl_def
           ba_SetStartingSequenceControl_def ba_entry_def ssc w_def [symmetric] on_entry_def BlockAckType_def bitmap_lengths_def\<close>)+
  qed
qed

lemma DeserializeBitmap_one:
  assumes "m_bitmapLen g = [len]" "m_baInfo g = [e]" "m_bitmap e = replicate len 0" "length bs = len"
    "m_baVariant g \<noteq> BA_MULTI_TID"
  shows "DeserializeBitmap 0 (bs @ i) g = Some (g\<lparr>m_baInfo := [e\<lparr>m_bitmap := bs\<rparr>]\<rparr>, i)"
  using assms read_bitmap [of bs len 0 i]
  by (simp add: DeserializeBitmap_def ba_entry_def vec_at_def on_entry_def)

lemma WriteU16_not_Nil [simp]: "WriteU16 d \<noteq> []"
  by (simp add: WriteU16_def)

text \<open>One Per AID TID Info subfield of a Multi-STA Block Ack.\<close>

lemma per_aid_step:
  assumes h: "m_baVariant h = BA_MULTI_STA" "k < length (m_baInfo h)" "length (m_bitmapLen h) = length (m_baInfo h)"
    and wf: "per_aid_wf (m_bitmapLen h ! k) (m_baInfo h ! k)"
    and g: "m_baVariant g = BA_MULTI_STA" "length (m_baInfo g) = k" "length (m_bitmapLen g) = k"
  obtains b where "write_per_aid h k = Some b" "b \<noteq> []"
    "length b = 2 + (if m_bitmapLen h ! k > 0 then 2 else 0) + m_bitmapLen h ! k"
    "\<And>i. read_per_aid k (b @ i) g = Some (g\<lparr>m_baInfo := m_baInfo g @ [m_baInfo h ! k],
        m_bitmapLen := m_bitmapLen g @ [m_bitmapLen h ! k]\<rparr>, i)"
proof -
  let ?e = "m_baInfo h ! k" and ?len = "m_bitmapLen h ! k"
  let ?unassociated = "m_aidTidInfo ?e AND 0x07ff = 2045"
  let ?ackContext = "drop_bit 11 (m_aidTidInfo ?e) AND 0x0001 = 0 \<and> (ucast (drop_bit 12 (m_aidTidInfo ?e) AND 0x000f) :: u8) < 8"
  have nth: "(m_baInfo g @ [x]) ! k = x" "(m_baInfo g @ [x])[k := y] = m_baInfo g @ [y]"
    "(m_bitmapLen g @ [l])[k := l'] = m_bitmapLen g @ [l']" "(m_bitmapLen g @ [l]) ! k = l"
    "(m_bitmapLen g @ [l]) ! length (m_baInfo g) = l" for x y l l'
    using g by (simp_all add: nth_append list_update_append)
  note defs = write_per_aid_def read_per_aid_def vec_at_def GetAid11_def sta_entry_def GetAckType_def
    ba_GetTidInfo_def ba_entry_def on_entry_def Let_def ba_info_of_length_def
  consider "?unassociated" | "\<not> ?unassociated" "?ackContext" | "\<not> ?unassociated" "\<not> ?ackContext" by blast
  then show ?thesis
  proof cases
    case 1
    have "?e = \<lparr>m_aidTidInfo = m_aidTidInfo ?e, bi_startingSeq = 0, m_bitmap = [], m_address = m_address ?e\<rparr>" "?len = 8"
      using wf 1 by (cases ?e; simp add: per_aid_wf_def Let_def)+
    with 1 h g show ?thesis
      by (intro that [of "WriteU16 (m_aidTidInfo ?e) @ WriteU32 0 @ WriteMac48 (m_address ?e)"])
        (simp_all add: defs nth)
  next
    case 2
    with wf have e: "?len \<in> set (bitmap_lengths BA_MULTI_STA)" "length (m_bitmap ?e) = ?len" "fits 12 (bi_startingSeq ?e)"
      "m_address ?e = 0" by (simp_all add: per_aid_wf_def Let_def)
    obtain c where c: "map_of multi_sta_lengths ?len = Some c" "fits 4 c" "length_of_code multi_sta_lengths c = Some ?len"
      "?len > 0" using e(1) by (rule multi_sta_codes)
    define w where "w = (push_bit 4 (bi_startingSeq ?e) AND 0xfff0) OR c"
    note ssc = ssc_fields [OF e(3) c(2), folded w_def]
    have ctx: "\<not> (?unassociated)" "drop_bit 11 (m_aidTidInfo ?e) AND 0x0001 = 0"
      "(ucast (drop_bit 12 (m_aidTidInfo ?e) AND 0x000f) :: u8) < 8" using 2 by simp_all
    have some: "m_bitmap ?e \<noteq> []" using e(2) c(4) by auto
    have e_eq: "\<lparr>m_aidTidInfo = m_aidTidInfo ?e, bi_startingSeq = bi_startingSeq ?e, m_bitmap = m_bitmap ?e,
        m_address = 0\<rparr> = ?e" using e(4) by (cases ?e) simp
    have "ba_GetStartingSequenceControl k h = Some w"
      using h some c by (simp add: ba_GetStartingSequenceControl_def ba_entry_def w_def)
    then have wr: "write_per_aid h k = Some (WriteU16 (m_aidTidInfo ?e) @ WriteU16 w @ m_bitmap ?e)"
      using h some ctx(1) by (simp add: write_per_aid_def vec_at_def GetAid11_def sta_entry_def SerializeBitmap_def ba_entry_def)
    have rd: "read_per_aid k ((WriteU16 (m_aidTidInfo ?e) @ WriteU16 w @ m_bitmap ?e) @ i) g =
        Some (g\<lparr>m_baInfo := m_baInfo g @ [?e], m_bitmapLen := m_bitmapLen g @ [?len]\<rparr>, i)" for i
      using g ctx c(3) e(2) read_bitmap [of "m_bitmap ?e" ?len 0 i]
      by (simp add: defs nth ba_SetStartingSequenceControl_def ssc DeserializeBitmap_def e_eq)
    show ?thesis
      by (rule that [OF wr _ _ rd]) (use e(2) c(4) in simp_all)
  next
    case 3
    have e: "m_bitmap ?e = []" "bi_startingSeq ?e = 0" "m_address ?e = 0" "?len = 0"
      using wf 3 by (auto simp: per_aid_wf_def Let_def)
    have e_eq: "\<lparr>m_aidTidInfo = m_aidTidInfo ?e, bi_startingSeq = 0, m_bitmap = [], m_address = 0\<rparr> = ?e"
      using e by (cases ?e) simp
    show ?thesis
      by (rule that [of "WriteU16 (m_aidTidInfo ?e)"])
        (use 3 h g e in \<open>auto simp add: defs nth e_eq\<close>)
  qed
qed

lemma multi_sta_roundtrip:
  assumes h: "m_baVariant h = BA_MULTI_STA" "ba_wf h" and g: "m_baVariant g = BA_MULTI_STA"
  shows "k \<le> length (m_baInfo h) \<Longrightarrow>
    \<exists>bs. write_all (write_per_aid h) [k..<length (m_baInfo h)] = Some bs
      \<and> length bs = sum_list (map (\<lambda>len. 2 + (if len > 0 then 2 else 0) + len) (drop k (m_bitmapLen h)))
      \<and> read_multi_sta k bs (g\<lparr>m_baInfo := take k (m_baInfo h), m_bitmapLen := take k (m_bitmapLen h)\<rparr>)
          = Some (g\<lparr>m_baInfo := m_baInfo h, m_bitmapLen := m_bitmapLen h\<rparr>, [])"
proof (induction "length (m_baInfo h) - k" arbitrary: k)
  case 0
  then have k: "k = length (m_baInfo h)" by simp
  from h have "length (m_bitmapLen h) = length (m_baInfo h)" by (simp add: ba_wf_def list_all2_lengthD)
  then show ?case unfolding k by (intro exI [of _ "[]"] conjI) (simp, simp, subst read_multi_sta.simps, simp)
next
  case (Suc n)
  let ?n = "length (m_baInfo h)" and ?g = "\<lambda>k. g\<lparr>m_baInfo := take k (m_baInfo h), m_bitmapLen := take k (m_bitmapLen h)\<rparr>"
  from Suc.hyps(2) have k: "k < ?n" by simp
  from h have all: "list_all2 per_aid_wf (m_bitmapLen h) (m_baInfo h)" by (simp add: ba_wf_def)
  note len = list_all2_lengthD [OF all]
  have wf: "per_aid_wf (m_bitmapLen h ! k) (m_baInfo h ! k)" using list_all2_nthD [OF all] k len by simp
  from per_aid_step [OF h(1) k len wf, of "?g k"] k len g obtain b where b:
    "write_per_aid h k = Some b" "b \<noteq> []"
    "length b = 2 + (if m_bitmapLen h ! k > 0 then 2 else 0) + m_bitmapLen h ! k"
    "\<And>i. read_per_aid k (b @ i) (?g k) = Some (?g (Suc k), i)"
    by (auto simp: take_Suc_conv_app_nth)
  from Suc.hyps(2) have n: "n = ?n - Suc k" by linarith
  from Suc.hyps(1) [OF n] k obtain bs where bs:
    "write_all (write_per_aid h) [Suc k..<?n] = Some bs"
    "length bs = sum_list (map (\<lambda>len. 2 + (if len > 0 then 2 else 0) + len) (drop (Suc k) (m_bitmapLen h)))"
    "read_multi_sta (Suc k) bs (?g (Suc k)) = Some (g\<lparr>m_baInfo := m_baInfo h, m_bitmapLen := m_bitmapLen h\<rparr>, [])"
    by auto
  have drop: "drop k (m_bitmapLen h) = m_bitmapLen h ! k # drop (Suc k) (m_bitmapLen h)"
    using k len by (simp add: Cons_nth_drop_Suc)
  show ?case
  proof (intro exI conjI)
    show "write_all (write_per_aid h) [k..<?n] = Some (b @ bs)"
      using b(1) bs(1) k by (simp add: upt_rec [of k])
    show "length (b @ bs) = sum_list (map (\<lambda>len. 2 + (if len > 0 then 2 else 0) + len) (drop k (m_bitmapLen h)))"
      using b(3) bs(2) by (simp add: drop)
    show "read_multi_sta k (b @ bs) (?g k) = Some (g\<lparr>m_baInfo := m_baInfo h, m_bitmapLen := m_bitmapLen h\<rparr>, [])"
      using b(2,4) bs(3) by (subst read_multi_sta.simps) simp
  qed
qed

lemma ba_written_and_read:
  assumes "ba_wf h" "m_baVariant h = BA_MULTI_STA \<Longrightarrow> rest = []"
  shows "\<exists>bs. ba_Serialize h = Some bs \<and> length bs = ba_GetSerializedSize h
    \<and> ba_Deserialize (bs @ rest) h0 =
        Some (h\<lparr>ba_tidInfo := (if m_baVariant h = BA_MULTI_STA then ba_tidInfo h0 else ba_tidInfo h)\<rparr>, rest)"
proof (cases "m_baVariant h = BA_MULTI_STA")
  case True
  let ?g = "h0\<lparr>m_baAckPolicy := m_baAckPolicy h, m_baVariant := BA_MULTI_STA, m_baInfo := [], m_bitmapLen := []\<rparr>"
  have ctl: "SetBaControl (GetBaControl h) h0 = Some ?g"
    using SetBaControl_Get [of h h0] True by (simp add: ba_SetType_def BlockAckType_def)
  from multi_sta_roundtrip [OF True assms(1), of ?g 0] obtain bs where
    "write_all (write_per_aid h) [0..<length (m_baInfo h)] = Some bs"
    "length bs = sum_list (map (\<lambda>len. 2 + (if len > 0 then 2 else 0) + len) (m_bitmapLen h))"
    "read_multi_sta 0 bs ?g = Some (?g\<lparr>m_baInfo := m_baInfo h, m_bitmapLen := m_bitmapLen h\<rparr>, [])"
    by auto
  moreover have "?g\<lparr>m_baInfo := m_baInfo h, m_bitmapLen := m_bitmapLen h\<rparr> = h\<lparr>ba_tidInfo := ba_tidInfo h0\<rparr>"
    using True by (cases h; cases h0) simp
  ultimately show ?thesis
    using True assms(2) by (simp add: ba_Serialize_def ba_GetSerializedSize_def ba_Deserialize_def ctl)
next
  case False
  with assms(1) have v: "m_baVariant h \<noteq> BA_MULTI_TID"
    by (auto simp: ba_wf_def bitmap_lengths_def split: list.splits)
  obtain ssc len e where
    h: "m_bitmapLen h = [len]" "m_baInfo h = [e]" "length (m_bitmap e) = len"
    and ssc: "ba_GetStartingSequenceControl 0 h = Some ssc"
    and set: "\<And>g. m_baVariant g = m_baVariant h \<Longrightarrow> (m_bitmapLen g, m_baInfo g) = (snd (BlockAckType (m_baVariant h)),
          map ba_info_of_length (snd (BlockAckType (m_baVariant h)))) \<Longrightarrow>
       ba_SetStartingSequenceControl ssc 0 g = Some (g\<lparr>m_bitmapLen := [len],
         m_baInfo := [(ba_info_of_length len)\<lparr>bi_startingSeq := bi_startingSeq e\<rparr>]\<rparr>)"
    by (rule one_bitmap_roundtrip [OF False v assms(1)]) (rule that)
  from assms(1) False h have e: "fits 4 (ba_tidInfo h)" "m_aidTidInfo e = 0" "m_baVariant h = BA_GCR \<or> m_address e = 0"
    by (simp_all add: ba_wf_def)
  define G where "G = ba_SetType (BlockAckType (m_baVariant h)) (h0\<lparr>m_baAckPolicy := m_baAckPolicy h, ba_tidInfo := ba_tidInfo h\<rparr>)"
  have ctl: "SetBaControl (GetBaControl h) h0 = Some G"
    using SetBaControl_Get [OF e(1)] False by (simp add: G_def)
  let ?r = "\<lambda>a. G\<lparr>m_bitmapLen := [len], m_baInfo := [\<lparr>m_aidTidInfo = 0, bi_startingSeq = bi_startingSeq e,
      m_bitmap = replicate len 0, m_address = a\<rparr>]\<rparr>"
  have g: "ba_SetStartingSequenceControl ssc 0 G = Some (?r 0)"
    by (subst set) (simp_all add: G_def ba_SetType_def BlockAckType_def ba_info_of_length_def)
  have rd: "DeserializeBitmap 0 (m_bitmap e @ rest) (?r a) = Some ((?r a)\<lparr>m_baInfo := [\<lparr>m_aidTidInfo = 0,
      bi_startingSeq = bi_startingSeq e, m_bitmap = m_bitmap e, m_address = a\<rparr>]\<rparr>, rest)" for a
    using DeserializeBitmap_one [of "?r a" len _ "m_bitmap e" rest] h(3) v
    by (simp add: G_def ba_SetType_def BlockAckType_def)
  have eq: "(?r (m_address e))\<lparr>m_baInfo := [\<lparr>m_aidTidInfo = 0, bi_startingSeq = bi_startingSeq e, m_bitmap = m_bitmap e,
      m_address = m_address e\<rparr>]\<rparr> = h"
    using h e by (cases h; cases e) (simp add: G_def ba_SetType_def BlockAckType_def)
  have addr: "on_entry 0 (\<lambda>e. e\<lparr>m_address := a\<rparr>) (?r 0) = ?r a" for a by (simp add: on_entry_def)
  have bits: "SerializeBitmap 0 h = Some (m_bitmap e)"
    using h v by (simp add: SerializeBitmap_def ba_entry_def)
  have v': "m_baVariant G = m_baVariant h" by (simp add: G_def ba_SetType_def BlockAckType_def)
  show ?thesis
  proof (cases "m_baVariant h = BA_GCR")
    case True
    let ?bs = "WriteU16 (GetBaControl h) @ WriteU16 ssc @ WriteMac48 (m_address e) @ m_bitmap e"
    have "ba_Serialize h = Some ?bs" using True h ssc bits by (simp add: ba_Serialize_def)
    moreover have "length ?bs = ba_GetSerializedSize h" using True h by (simp add: ba_GetSerializedSize_def)
    moreover have "ba_Deserialize (?bs @ rest) h0 = Some (h, rest)"
      using True v' by (simp add: ba_Deserialize_def ctl g addr rd eq)
    ultimately show ?thesis using False by auto
  next
    case gcr: False
    let ?bs = "WriteU16 (GetBaControl h) @ WriteU16 ssc @ m_bitmap e"
    have "ba_Serialize h = Some ?bs" using gcr v False ssc bits by (cases "m_baVariant h") (simp_all add: ba_Serialize_def)
    moreover have "length ?bs = ba_GetSerializedSize h"
      using gcr v False h by (cases "m_baVariant h") (simp_all add: ba_GetSerializedSize_def)
    moreover have "ba_Deserialize (?bs @ rest) h0 = Some (h, rest)"
      using gcr v False e(3) rd [of 0] eq v' by (cases "m_baVariant h") (simp_all add: ba_Deserialize_def ctl g)
    ultimately show ?thesis using False by auto
  qed
qed

text \<open>
  Property C25: a Block Ack of any variant that can be sent is read back from the octets it is
  written to, into any header, in the announced number of octets: the policy, the TID, the starting
  sequence number and the bitmap whose length the Fragment Number subfield encodes, the group address
  of a GCR Block Ack and every Per AID TID Info subfield of a Multi-STA Block Ack, which extends to
  the end of the frame.
\<close>

theorem block_ack_roundtrip:
  assumes "ba_wf h" "m_baVariant h = BA_MULTI_STA \<Longrightarrow> rest = []"
  shows "\<exists>bs. ba_Serialize h = Some bs \<and> length bs = ba_GetSerializedSize h
    \<and> ba_Deserialize (bs @ rest) h0 =
        Some (h\<lparr>ba_tidInfo := (if m_baVariant h = BA_MULTI_STA then ba_tidInfo h0 else ba_tidInfo h)\<rparr>, rest)"
  using assms by (rule ba_written_and_read)

text \<open>A Multi-STA Block Ack with a bitmap of four octets, an acknowledgment and an unassociated station.\<close>

definition ex_multi_sta :: ba_hdr where
  "ex_multi_sta =
     \<lparr>m_baAckPolicy = True, m_baVariant = BA_MULTI_STA, m_bitmapLen = [4, 0, 8], ba_tidInfo = 0,
      m_baInfo = [\<lparr>m_aidTidInfo = 0x3005, bi_startingSeq = 4094, m_bitmap = [3, 0, 0, 1], m_address = 0\<rparr>,
                  \<lparr>m_aidTidInfo = 0xe806, bi_startingSeq = 0, m_bitmap = [], m_address = 0\<rparr>,
                  \<lparr>m_aidTidInfo = 0x07fd, bi_startingSeq = 0, m_bitmap = [], m_address = 0x010203040506\<rparr>]\<rparr>"

lemma ex_multi_sta_wf: "ba_wf ex_multi_sta"
  by (simp add: ba_wf_def ex_multi_sta_def per_aid_wf_def Let_def bitmap_lengths_def fits_def take_bit_eq_mod)

theorem block_ack_roundtrip_witness:
  "\<exists>bs. ba_Serialize ex_multi_sta = Some bs \<and> length bs = 24
    \<and> ba_Deserialize bs CtrlBAckResponseHeader = Some (ex_multi_sta, [])"
  using block_ack_roundtrip [OF ex_multi_sta_wf, of "[]" CtrlBAckResponseHeader]
  by (auto simp: ex_multi_sta_def ba_GetSerializedSize_def CtrlBAckResponseHeader_def ba_SetType_def)

end
