(* ===== verification/Block_Ack_Bitmap.thy ===== *)
theory Block_Ack_Bitmap
  imports Ctrl_Headers_Props
begin

text \<open>
  What a Block Ack says: the recipient fills the bitmap from its scoreboard, and the originator
  reads from it, after it went over the wire, which MPDUs have been received.
\<close>

section \<open>Positions and bits\<close>

text \<open>An entry with a bitmap, whose header is of a variant with one bit for each MPDU.\<close>

definition has_bitmap :: "nat \<Rightarrow> ba_hdr \<Rightarrow> bool" where
  "has_bitmap index h \<longleftrightarrow>
     m_baVariant h \<noteq> BA_BASIC \<and> m_baVariant h \<noteq> BA_MULTI_TID \<and> (m_baVariant h = BA_MULTI_STA \<or> index = 0)
     \<and> index < length (m_baInfo h) \<and> length (m_bitmapLen h) = length (m_baInfo h)
     \<and> m_bitmapLen h ! index \<le> 128 \<and> length (m_bitmap (m_baInfo h ! index)) = m_bitmapLen h ! index
     \<and> (m_baVariant h = BA_MULTI_STA \<longrightarrow> drop_bit 11 (m_aidTidInfo (m_baInfo h ! index)) AND 0x0001 = 0)"

lemma has_bitmapD:
  assumes "has_bitmap index h"
  shows "m_baVariant h \<noteq> BA_BASIC" "m_baVariant h \<noteq> BA_MULTI_TID" "m_baVariant h = BA_MULTI_STA \<or> index = 0"
    "index < length (m_baInfo h)" "length (m_bitmapLen h) = length (m_baInfo h)" "m_bitmapLen h ! index \<le> 128"
    "length (m_bitmap (m_baInfo h ! index)) = m_bitmapLen h ! index"
  using assms by (simp_all add: has_bitmap_def)

definition bitmap_of :: "nat \<Rightarrow> ba_hdr \<Rightarrow> bytes" where
  "bitmap_of index h = m_bitmap (m_baInfo h ! index)"

lemma length_bitmap_of: "has_bitmap index h \<Longrightarrow> length (bitmap_of index h) = m_bitmapLen h ! index"
  by (simp add: has_bitmap_def bitmap_of_def)

definition bitmap_bit :: "bytes \<Rightarrow> nat \<Rightarrow> bool" where
  "bitmap_bit bs d \<longleftrightarrow> bit (bs ! (d div 8)) (d mod 8)"

definition set_bitmap :: "nat \<Rightarrow> bytes \<Rightarrow> ba_hdr \<Rightarrow> ba_hdr" where
  "set_bitmap index bs = on_entry index (\<lambda>e. e\<lparr>m_bitmap := bs\<rparr>)"

lemma set_bitmap_simps [simp]:
  "m_baVariant (set_bitmap index bs h) = m_baVariant h" "m_bitmapLen (set_bitmap index bs h) = m_bitmapLen h"
  "length (m_baInfo (set_bitmap index bs h)) = length (m_baInfo h)"
  "set_bitmap index bs (set_bitmap index bs' h) = set_bitmap index bs h"
  "index < length (m_baInfo h) \<Longrightarrow> bitmap_of index (set_bitmap index bs h) = bs"
  "index < length (m_baInfo h) \<Longrightarrow> bi_startingSeq (m_baInfo (set_bitmap index bs h) ! index) = bi_startingSeq (m_baInfo h ! index)"
  by (cases "index < length (m_baInfo h)";
      simp add: set_bitmap_def on_entry_def bitmap_of_def list_update_beyond)+

lemma set_bitmap_same [simp]: "set_bitmap index (bitmap_of index h) h = h"
  by (cases "index < length (m_baInfo h)") (simp_all add: set_bitmap_def on_entry_def bitmap_of_def list_update_beyond)

lemma has_bitmap_set: "has_bitmap index h \<Longrightarrow> length bs = m_bitmapLen h ! index \<Longrightarrow> has_bitmap index (set_bitmap index bs h)"
  by (simp add: has_bitmap_def set_bitmap_def on_entry_def)

text \<open>The position of a sequence number is its distance from the start.\<close>

lemma smod_seq:
  assumes "seqno s" "seqno t"
  shows "(int s - int t + 4096) smod 4096 = int (seq_dist s t)"
proof -
  have "int s - int t + 4096 = int (s + 4096 - t)" using assms by (simp add: seqno_def)
  then show ?thesis by (simp only: smod_mod_positive) (simp add: seq_dist_def zmod_int)
qed

lemma IsInBitmap_eq:
  assumes "has_bitmap index h" "seqno s" "bi_startingSeq (m_baInfo h ! index) = of_nat ssn" "seqno ssn"
  shows "IsInBitmap (of_nat s) index h = Some (seq_dist s ssn < m_bitmapLen h ! index * 8)"
  using assms smod_seq [OF assms(2,4)]
  by (simp add: IsInBitmap_def has_bitmap_def vec_at_def nAckedMpdus_def seqno_def unsigned_of_nat take_bit_nat_eq_self)

lemma IndexInBitmap_eq:
  assumes "has_bitmap index h" "seqno s" "bi_startingSeq (m_baInfo h ! index) = of_nat ssn" "seqno ssn"
    "seq_dist s ssn < m_bitmapLen h ! index * 8"
  shows "IndexInBitmap (of_nat s) index h = Some (seq_dist s ssn)"
proof -
  have u: "unat (of_nat s :: u16) = s" "unat (of_nat ssn :: u16) = ssn"
    using assms(2,4) by (simp_all add: seqno_def unat_of_nat)
  let ?b = "bi_startingSeq (m_baInfo h ! index)"
  have "unat (if (of_nat s :: u16) \<ge> of_nat ssn then of_nat s - of_nat ssn else 4096 - of_nat ssn + of_nat s :: u16)
      = seq_dist s ssn"
  proof (cases "ssn \<le> s")
    case True
    with u have "(of_nat ssn :: u16) \<le> of_nat s" by (simp add: word_le_nat_alt)
    with True u assms(2,4) show ?thesis by (simp add: unat_sub seq_dist_cases)
  next
    case False
    with u have "\<not> (of_nat ssn :: u16) \<le> of_nat s" by (simp add: word_le_nat_alt)
    moreover have eq: "4096 - of_nat ssn + of_nat s = (of_nat (4096 - ssn + s) :: u16)"
      using assms(4) by (simp add: of_nat_diff seqno_def)
    moreover have "unat (of_nat (4096 - ssn + s) :: u16) = seq_dist s ssn"
      unfolding unat_of_nat using False assms(2,4) by (simp add: seq_dist_cases seqno_def)
    ultimately show ?thesis by (simp only: eq if_False)
  qed
  then have "unat (if (of_nat s :: u16) \<ge> ?b then of_nat s - ?b else 4096 - ?b + of_nat s :: u16) = seq_dist s ssn"
    by (simp only: assms(3))
  with assms(1,5) show ?thesis
    by (simp add: IndexInBitmap_def has_bitmap_def vec_at_def nAckedMpdus_def Let_def split del: if_split)
qed

section \<open>Setting and reading a bit\<close>

lemma bit_is_set: "(b :: u8) AND 2 ^ n \<noteq> 0 \<longleftrightarrow> n < 8 \<and> bit b n"
proof -
  have "b AND 2 ^ n \<noteq> 0 \<longleftrightarrow> (\<exists>k. bit (b AND 2 ^ n) k)"
    by (metis bit_eq_iff bit_0_eq bot_apply bot_bool_def)
  also have "\<dots> \<longleftrightarrow> n < 8 \<and> bit b n" by (auto simp: bit_simps dest: bit_imp_le_length)
  finally show ?thesis .
qed

text \<open>What \<^verbatim>\<open>SetReceivedPacket\<close> does to the bitmap, and that it sets exactly one bit.\<close>

definition mark :: "nat \<Rightarrow> bytes \<Rightarrow> bytes" where
  "mark d bs = (if d < length bs * 8 then bs[d div 8 := bs ! (d div 8) OR push_bit (d mod 8) 0x01] else bs)"

lemma length_mark [simp]: "length (mark d bs) = length bs"
  by (simp add: mark_def)

lemma bitmap_bit_mark:
  assumes "i < length bs * 8"
  shows "bitmap_bit (mark d bs) i \<longleftrightarrow> bitmap_bit bs i \<or> i = d"
proof -
  have len: "i div 8 < length bs" using assms by (simp add: div_less_iff_less_mult)
  have "i div 8 = d div 8 \<Longrightarrow> i mod 8 = d mod 8 \<longleftrightarrow> i = d" by (metis div_mod_decomp)
  with len assms show ?thesis
    by (auto simp: bitmap_bit_def mark_def nth_list_update bit_simps)
qed

lemma SetReceivedPacket_eq:
  assumes "has_bitmap index h" "seqno s" "bi_startingSeq (m_baInfo h ! index) = of_nat ssn" "seqno ssn"
  shows "SetReceivedPacket (of_nat s) index h = Some (set_bitmap index (mark (seq_dist s ssn) (bitmap_of index h)) h)"
proof -
  have len: "length (bitmap_of index h) = m_bitmapLen h ! index" using assms(1) by (simp add: has_bitmap_def bitmap_of_def)
  note pos = IsInBitmap_eq [OF assms]
  show ?thesis
  proof (cases "seq_dist s ssn < m_bitmapLen h ! index * 8")
    case True
    then have "seq_dist s ssn div 8 < m_bitmapLen h ! index" by (simp add: div_less_iff_less_mult)
    with True pos IndexInBitmap_eq [OF assms True] has_bitmapD [OF assms(1)] len show ?thesis
      by (cases "m_baVariant h")
        (auto simp: SetReceivedPacket_def ba_entry_def set_bit_of_def vec_at_def mark_def
          set_bitmap_def on_entry_def bitmap_of_def)
  next
    case False
    with pos assms(1) len show ?thesis
      by (simp add: SetReceivedPacket_def ba_entry_def has_bitmap_def mark_def)
  qed
qed

lemma IsPacketReceived_eq:
  assumes "has_bitmap index h" "seqno s" "bi_startingSeq (m_baInfo h ! index) = of_nat ssn" "seqno ssn"
  shows "IsPacketReceived (of_nat s) index h =
    Some (seq_dist s ssn < m_bitmapLen h ! index * 8 \<and> bitmap_bit (bitmap_of index h) (seq_dist s ssn))"
proof -
  note pos = IsInBitmap_eq [OF assms]
  have ctx: "all_ack_context index h = Some False"
    using assms(1) by (simp add: all_ack_context_def GetAckType_def sta_entry_def ba_GetTidInfo_def ba_entry_def has_bitmap_def)
  show ?thesis
  proof (cases "seq_dist s ssn < m_bitmapLen h ! index * 8")
    case True
    then have "seq_dist s ssn div 8 < m_bitmapLen h ! index" by (simp add: div_less_iff_less_mult)
    with True pos IndexInBitmap_eq [OF assms True] has_bitmapD [OF assms(1)] ctx show ?thesis
      by (cases "m_baVariant h")
        (auto simp: IsPacketReceived_def ba_entry_def get_bit_of_def vec_at_def bit_is_set bitmap_of_def bitmap_bit_def)
  next
    case False
    with pos assms(1) ctx show ?thesis by (simp add: IsPacketReceived_def ba_entry_def has_bitmap_def)
  qed
qed

section \<open>The recipient's bitmap\<close>

text \<open>The loop marks the positions that are set in the scoreboard.\<close>

lemma fill_from_eq:
  assumes "has_bitmap index h" "bi_startingSeq (m_baInfo h ! index) = of_nat ssn" "seqno ssn"
    "\<forall>i \<in> set is. i < length (m_window w) \<and> i < 4096"
  shows "\<exists>bs. fill_from ssn is w index h = Some (set_bitmap index bs h) \<and> length bs = m_bitmapLen h ! index
    \<and> (\<forall>d < length bs * 8. bitmap_bit bs d \<longleftrightarrow> bitmap_bit (bitmap_of index h) d \<or> d \<in> set is \<and> baw_list w ! d)"
  using assms
proof (induction "is" arbitrary: h)
  case Nil
  then show ?case
    by (intro exI [of _ "bitmap_of index h"]) (simp add: length_bitmap_of)
next
  case (Cons i "is")
  let ?s = "(ssn + i) mod SEQNO_SPACE_SIZE"
  from Cons.prems have s: "seqno ?s" "seq_dist ?s ssn = i"
    using seq_dist_add [of ssn i] by (simp_all add: seq_add_def)
  note len = has_bitmapD(4,7) [OF Cons.prems(1)]
  define h1 where "h1 = (if baw_list w ! i then set_bitmap index (mark i (bitmap_of index h)) h else h)"
  have step: "fill_from ssn (i # is) w index h = fill_from ssn is w index h1"
    using Cons.prems(4) SetReceivedPacket_eq [OF Cons.prems(1) s(1) Cons.prems(2,3)] s(2)
    by (simp add: h1_def baw_At_list)
  have h1: "has_bitmap index h1" "bi_startingSeq (m_baInfo h1 ! index) = of_nat ssn" "m_bitmapLen h1 = m_bitmapLen h"
    "set_bitmap index bs h1 = set_bitmap index bs h" for bs
    using Cons.prems(1,2) len(1) length_bitmap_of [OF Cons.prems(1)] by (auto simp: h1_def has_bitmap_set)
  have bits: "bitmap_bit (bitmap_of index h1) d \<longleftrightarrow> bitmap_bit (bitmap_of index h) d \<or> d = i \<and> baw_list w ! i"
    if "d < m_bitmapLen h ! index * 8" for d
    using that len(1) length_bitmap_of [OF Cons.prems(1)] bitmap_bit_mark [of d "bitmap_of index h" i]
    by (auto simp: h1_def)
  from Cons.IH [OF h1(1,2) Cons.prems(3)] Cons.prems(4) obtain bs where
    "fill_from ssn is w index h1 = Some (set_bitmap index bs h1)" "length bs = m_bitmapLen h1 ! index"
    "\<forall>d < length bs * 8. bitmap_bit bs d \<longleftrightarrow> bitmap_bit (bitmap_of index h1) d \<or> d \<in> set is \<and> baw_list w ! d"
    by auto
  with step h1(3,4) bits show ?case by (intro exI [of _ bs]) auto
qed

lemma bitmap_bit_zero: "d < n * 8 \<Longrightarrow> \<not> bitmap_bit (replicate n 0) d"
  by (simp add: bitmap_bit_def div_less_iff_less_mult)

lemma FillBlockAckBitmap_eq:
  assumes a: "recip_ok a" and h: "has_bitmap index h"
  obtains bs where "FillBlockAckBitmap a index h =
      Some (on_entry index (\<lambda>e. e\<lparr>bi_startingSeq := of_nat (m_winStart (m_scoreboard a)), m_bitmap := bs\<rparr>) h)"
    "length bs = m_bitmapLen h ! index"
    "\<And>d. d < length bs * 8 \<Longrightarrow> bitmap_bit bs d \<longleftrightarrow> d < m_winSizeB a \<and> baw_list (m_scoreboard a) ! d"
proof -
  let ?w = "m_scoreboard a"
  note ok = recip_okD(3,4,5) [OF a]
  let ?h1 = "on_entry index (\<lambda>e. e\<lparr>bi_startingSeq := of_nat (m_winStart ?w),
      m_bitmap := replicate (m_bitmapLen h ! index) 0\<rparr>) h"
  note hb = has_bitmapD [OF h]
  have ssn: "seqno (m_winStart ?w)" using ok(2) by (simp add: baw_wf_def)
  have h1: "has_bitmap index ?h1" "bi_startingSeq (m_baInfo ?h1 ! index) = of_nat (m_winStart ?w)"
    "bitmap_of index ?h1 = replicate (m_bitmapLen h ! index) 0" "m_bitmapLen ?h1 = m_bitmapLen h"
    using h hb by (auto simp: has_bitmap_def on_entry_def bitmap_of_def)
  have "index < length (m_bitmapLen h)" using hb(4,5) by simp
  then have fill: "FillBlockAckBitmap a index h = fill_from (m_winStart ?w) [0..<length (m_window ?w)] ?w index ?h1"
    using hb(1-4) by (cases "m_baVariant h") (auto simp: FillBlockAckBitmap_def ba_SetStartingSequence_def ba_entry_def
        ResetBitmap_def vec_at_def on_entry_def baw_GetWinSize_def Let_def)
  have "\<forall>i \<in> set [0..<length (m_window ?w)]. i < length (m_window ?w) \<and> i < 4096" using ok by simp
  from fill_from_eq [OF h1(1,2) ssn this] obtain bs where bs:
    "fill_from (m_winStart ?w) [0..<length (m_window ?w)] ?w index ?h1 = Some (set_bitmap index bs ?h1)"
    "length bs = m_bitmapLen h ! index"
    "\<forall>d < length bs * 8. bitmap_bit bs d \<longleftrightarrow> bitmap_bit (bitmap_of index ?h1) d \<or> d \<in> set [0..<length (m_window ?w)] \<and> baw_list ?w ! d"
    unfolding h1(4) by blast
  have "set_bitmap index bs ?h1 = on_entry index (\<lambda>e. e\<lparr>bi_startingSeq := of_nat (m_winStart ?w), m_bitmap := bs\<rparr>) h"
    using hb by (simp add: set_bitmap_def on_entry_def)
  with bs fill h1(3) ok(3) that show ?thesis by (auto simp: bitmap_bit_zero)
qed

text \<open>
  Property C24: a Block Ack tells the originator exactly what the recipient has received.  The
  recipient fills the bitmap of an entry from its scoreboard and the frame is written to octets and
  read again; an MPDU is then reported as received if and only if its sequence number is recorded in
  the scoreboard and lies in the part of the window that the bitmap covers.
\<close>

theorem block_ack_reports_scoreboard:
  assumes "recip_ok a" "ba_wf h" "has_bitmap index h" "0 < m_bitmapLen h ! index"
    "m_baVariant h = BA_MULTI_STA \<Longrightarrow> m_aidTidInfo (m_baInfo h ! index) AND 0x07ff \<noteq> 2045"
    "seqno s"
  shows "\<exists>h1 bs h2. FillBlockAckBitmap a index h = Some h1 \<and> ba_Serialize h1 = Some bs
    \<and> ba_Deserialize bs h0 = Some (h2, [])
    \<and> IsPacketReceived (of_nat s) index h2 = Some (baw.flagged (m_scoreboard a) s
         \<and> seq_dist s (m_winStart (m_scoreboard a)) < m_bitmapLen h ! index * 8)"
proof -
  let ?w = "m_scoreboard a" and ?len = "m_bitmapLen h ! index"
  note hb = has_bitmapD [OF assms(3)]
  have ssn: "seqno (m_winStart ?w)" using recip_okD(4) [OF assms(1)] by (simp add: baw_wf_def)
  then have fits: "fits 12 (of_nat (m_winStart ?w) :: u16)"
    by (simp add: seqno_def fits_def take_bit_of_nat take_bit_nat_eq_self)
  from FillBlockAckBitmap_eq [OF assms(1,3)] obtain bm where
    fill: "FillBlockAckBitmap a index h = Some (on_entry index
        (\<lambda>e. e\<lparr>bi_startingSeq := of_nat (m_winStart ?w), m_bitmap := bm\<rparr>) h)" and
    bm: "length bm = ?len" "\<And>d. d < length bm * 8 \<Longrightarrow> bitmap_bit bm d \<longleftrightarrow> d < m_winSizeB a \<and> baw_list ?w ! d"
    by blast
  define h1 where "h1 = on_entry index (\<lambda>e. e\<lparr>bi_startingSeq := of_nat (m_winStart ?w), m_bitmap := bm\<rparr>) h"
  have wf: "ba_wf h1"
  proof (cases "m_baVariant h = BA_MULTI_STA")
    case True
    with assms(2) have all: "list_all2 per_aid_wf (m_bitmapLen h) (m_baInfo h)" by (simp add: ba_wf_def)
    let ?e = "m_baInfo h ! index"
    have "per_aid_wf ?len ?e" using list_all2_nthD [OF all] hb(4,5) by simp
    then have "per_aid_wf ?len (?e\<lparr>bi_startingSeq := of_nat (m_winStart ?w), m_bitmap := bm\<rparr>)"
      using assms(4) assms(5) [OF True] bm(1) fits by (auto simp: per_aid_wf_def Let_def split: if_splits)
    with all have "list_all2 per_aid_wf (m_bitmapLen h) (m_baInfo h1)"
      using hb(4) by (auto simp: h1_def on_entry_def list_all2_conv_all_nth) (metis nth_list_update)
    with True show ?thesis by (simp add: ba_wf_def h1_def on_entry_def)
  next
    case False
    with assms(2) hb(3) bm(1) fits show ?thesis
      by (auto simp: ba_wf_def h1_def on_entry_def split: list.splits)
  qed
  from ba_written_and_read [OF wf, of "[]" h0] obtain bs where bs: "ba_Serialize h1 = Some bs"
    "ba_Deserialize bs h0 = Some (h1\<lparr>ba_tidInfo := (if m_baVariant h1 = BA_MULTI_STA then ba_tidInfo h0 else ba_tidInfo h1)\<rparr>, [])"
    by auto
  let ?h2 = "h1\<lparr>ba_tidInfo := (if m_baVariant h1 = BA_MULTI_STA then ba_tidInfo h0 else ba_tidInfo h1)\<rparr>"
  have h2: "has_bitmap index ?h2" "bi_startingSeq (m_baInfo ?h2 ! index) = of_nat (m_winStart ?w)"
    "bitmap_of index ?h2 = bm" "m_bitmapLen ?h2 = m_bitmapLen h"
    using assms(3) hb bm(1) by (auto simp: has_bitmap_def h1_def on_entry_def bitmap_of_def)
  have "IsPacketReceived (of_nat s) index ?h2 = Some (baw.flagged ?w s \<and> seq_dist s (m_winStart ?w) < ?len * 8)"
    unfolding IsPacketReceived_eq [OF h2(1) assms(6) h2(2) ssn] h2(3,4)
    using bm recip_okD(5) [OF assms(1)] by (auto simp: baw.flagged_def)
  with fill bs show ?thesis unfolding h1_def [symmetric] by blast
qed

text \<open>A compressed Block Ack for the recipient that has received nothing yet but what it buffers.\<close>

theorem block_ack_reports_scoreboard_witness:
  "\<exists>h1. FillBlockAckBitmap ex_recipient 0 (ba_SetType (BlockAckType BA_COMPRESSED) CtrlBAckResponseHeader) = Some h1"
  using block_ack_reports_scoreboard [OF ex_recipient_ok(1),
      of "ba_SetType (BlockAckType BA_COMPRESSED) CtrlBAckResponseHeader" 0 4095 CtrlBAckResponseHeader]
  by (auto simp: ba_wf_def has_bitmap_def ba_SetType_def BlockAckType_def CtrlBAckResponseHeader_def
      ba_info_of_length_def bitmap_lengths_def seqno_def)

end
