(* ===== verification/Block_Ack_Manager.thy ===== *)
theory Block_Ack_Manager
  imports Originator_Agreement Ctrl_Headers Wifi_Mac_Header "HOL-Library.Sublist"
begin

text \<open>
  \<^verbatim>\<open>src/wifi/model/block-ack-manager.cc\<close>: the agreements of an access category in both roles,
  with the MPDUs in flight under those where the station is the originator.

  MPDUs are shared between the queues of the agreements and the EDCA queue, and change while they
  are in both: a queue holds their addresses, and \<open>b_mpdu\<close> is the store.  Of the EDCA queue the
  manager sees whether an MPDU is in it, the links on which it is in flight, when its lifetime
  expires, and the control frames queued for a station.  MPDUs have no aliases (one link); calls of
  callbacks are logged in \<open>b_calls\<close>.
\<close>

section \<open>State\<close>

record bam_mpdu =
  bm_hdr :: mac_hdr
  bm_msduDestination :: mac48
  bm_queued :: bool
  bm_expiry :: time
  bm_links :: "nat set"

text \<open>
  \<open>oe_inactivity\<close> is \<^verbatim>\<open>m_inactivityEvent\<close>: the number of an event of the simulator, of
  which \<open>b_events\<close> holds those that are pending, with their time and the arguments of the call.
  Assigning a new event does not cancel the one it replaces.
\<close>

record orig_entry =
  oe_agreement :: originator
  oe_queue :: "nat list"
  oe_inactivity :: "nat option"

type_synonym ba_key = "mac48 \<times> nat"

datatype bam_call =
    BlockPackets mac48 nat | UnblockPackets mac48 nat | TxOk nat | TxFailed nat | DroppedOldMpdu nat
  | InactivityExpired mac48 nat "mac48 option" | PassedUp "(nat \<times> nat) list"

text \<open>A control frame in the EDCA queue: a Block Ack Request, or a frame of another kind.\<close>

record ctl_item =
  ci_hdr :: mac_hdr
  ci_bar :: "bar_hdr option"
  ci_time :: time

record bam =
  m_originatorAgreements :: "(ba_key \<times> orig_entry) list"
  m_recipientAgreements :: "(ba_key \<times> nat recipient) list"
  m_sendBarIfDataQueued :: "ba_key list"
  m_gcrBlockAcks :: "(mac48, (mac48, ba_hdr) omap) omap"
  b_mpdu :: "nat \<Rightarrow> bam_mpdu"
  b_ctlQueue :: "mac48 \<Rightarrow> ctl_item list"
  b_events :: "(nat \<times> time \<times> mac48 \<times> nat \<times> mac48 option) list"
  b_nextEvent :: nat
  b_calls :: "bam_call list"

definition call :: "bam_call \<Rightarrow> bam \<Rightarrow> bam" where
  "call c s = s\<lparr>b_calls := b_calls s @ [c]\<rparr>"

section \<open>The two multimaps\<close>

definition key_le :: "ba_key \<Rightarrow> ba_key \<Rightarrow> bool" where
  "key_le k l \<longleftrightarrow> fst k < fst l \<or> fst k = fst l \<and> snd k \<le> snd l"

text \<open>\<^verbatim>\<open>emplace\<close> inserts at the upper end of the range of its key.\<close>

fun mm_emplace :: "ba_key \<Rightarrow> 'v \<Rightarrow> (ba_key \<times> 'v) list \<Rightarrow> (ba_key \<times> 'v) list" where
  "mm_emplace k v [] = [(k, v)]"
| "mm_emplace k v ((k', v') # m) = (if key_le k' k then (k', v') # mm_emplace k v m else (k, v) # (k', v') # m)"

text \<open>The first entry of the range of a key whose group address is the given one, by position.\<close>

fun mm_find :: "('v \<Rightarrow> mac48 option) \<Rightarrow> ba_key \<Rightarrow> mac48 option \<Rightarrow> (ba_key \<times> 'v) list \<Rightarrow> nat option" where
  "mm_find gcr k g [] = None"
| "mm_find gcr k g ((k', v) # m) = (if k' = k \<and> gcr v = g then Some 0 else map_option Suc (mm_find gcr k g m))"

definition mm_erase :: "nat \<Rightarrow> (ba_key \<times> 'v) list \<Rightarrow> (ba_key \<times> 'v) list" where
  "mm_erase i m = take i m @ drop (Suc i) m"

definition mm_set :: "nat \<Rightarrow> 'v \<Rightarrow> (ba_key \<times> 'v) list \<Rightarrow> (ba_key \<times> 'v) list" where
  "mm_set i v m = m[i := (fst (m ! i), v)]"

definition count_gcr :: "('v \<Rightarrow> mac48 option) \<Rightarrow> ba_key \<Rightarrow> mac48 option \<Rightarrow> (ba_key \<times> 'v) list \<Rightarrow> nat" where
  "count_gcr gcr k g m = length (filter (\<lambda>(k', v). k' = k \<and> gcr v = g) m)"

definition oe_gcr :: "orig_entry \<Rightarrow> mac48 option" where
  "oe_gcr e = m_gcrGroupAddress (oe_agreement e)"

definition GetOriginatorBaAgreement :: "mac48 \<Rightarrow> nat \<Rightarrow> mac48 option \<Rightarrow> bam \<Rightarrow> nat option" where
  "GetOriginatorBaAgreement recipient tid gcrGroupAddr s =
     mm_find oe_gcr (recipient, tid) gcrGroupAddr (m_originatorAgreements s)"

definition GetRecipientBaAgreement :: "mac48 \<Rightarrow> nat \<Rightarrow> mac48 option \<Rightarrow> bam \<Rightarrow> nat option" where
  "GetRecipientBaAgreement originator tid gcrGroupAddr s =
     mm_find m_gcrGroupAddress (originator, tid) gcrGroupAddr (m_recipientAgreements s)"

definition orig_at :: "nat \<Rightarrow> bam \<Rightarrow> orig_entry" where
  "orig_at i s = snd (m_originatorAgreements s ! i)"

definition key_at :: "nat \<Rightarrow> bam \<Rightarrow> ba_key" where
  "key_at i s = fst (m_originatorAgreements s ! i)"

definition on_orig :: "nat \<Rightarrow> (orig_entry \<Rightarrow> orig_entry) \<Rightarrow> bam \<Rightarrow> bam" where
  "on_orig i f s = s\<lparr>m_originatorAgreements := mm_set i (f (orig_at i s)) (m_originatorAgreements s)\<rparr>"

definition on_agreement :: "nat \<Rightarrow> (originator \<Rightarrow> originator option) \<Rightarrow> bam \<Rightarrow> bam option" where
  "on_agreement i f s =
     do { a \<leftarrow> f (oe_agreement (orig_at i s)); Some (on_orig i (\<lambda>e. e\<lparr>oe_agreement := a\<rparr>) s) }"

definition set_queue :: "nat \<Rightarrow> nat list \<Rightarrow> bam \<Rightarrow> bam" where
  "set_queue i q = on_orig i (\<lambda>e. e\<lparr>oe_queue := q\<rparr>)"

definition GetAgreementAsOriginator :: "mac48 \<Rightarrow> nat \<Rightarrow> mac48 option \<Rightarrow> bam \<Rightarrow> originator option" where
  "GetAgreementAsOriginator recipient tid gcrGroupAddr s =
     map_option (\<lambda>i. oe_agreement (orig_at i s)) (GetOriginatorBaAgreement recipient tid gcrGroupAddr s)"

definition GetAgreementAsRecipient :: "mac48 \<Rightarrow> nat \<Rightarrow> mac48 option \<Rightarrow> bam \<Rightarrow> nat recipient option" where
  "GetAgreementAsRecipient originator tid gcrGroupAddr s =
     map_option (\<lambda>i. snd (m_recipientAgreements s ! i)) (GetRecipientBaAgreement originator tid gcrGroupAddr s)"

section \<open>Agreements are set up and torn down\<close>

text \<open>What the ADDBA Request and Response carry.\<close>

record addba =
  ab_amsduSupport :: bool
  ab_policy :: u8
  ab_tid :: nat
  ab_bufferSize :: nat
  ab_timeoutValue :: nat
  ab_startingSeq :: nat
  ab_gcrGroupAddress :: "mac48 option"

definition ab_IsImmediateBlockAck :: "addba \<Rightarrow> bool" where
  "ab_IsImmediateBlockAck h \<longleftrightarrow> ab_policy h = 1"

definition ba_policy_of :: "addba \<Rightarrow> 'a ba_agreement_scheme \<Rightarrow> 'a ba_agreement_scheme" where
  "ba_policy_of h a = (if ab_IsImmediateBlockAck h then SetImmediateBlockAck a else SetDelayedBlockAck a)"

definition gcr_of :: "addba \<Rightarrow> 'a ba_agreement_scheme \<Rightarrow> 'a ba_agreement_scheme" where
  "gcr_of h a = (case ab_gcrGroupAddress h of Some g \<Rightarrow> SetGcrGroupAddress g a | None \<Rightarrow> a)"

definition CreateOriginatorAgreement :: "originator \<Rightarrow> addba \<Rightarrow> mac48 \<Rightarrow> bam \<Rightarrow> bam option" where
  "CreateOriginatorAgreement memory reqHdr recipient s =
     do { let tid = ab_tid reqHdr;
          agreement \<leftarrow> SetStartingSequence (ab_startingSeq reqHdr) (OriginatorBlockAckAgreement memory recipient tid);
          let agreement = SetBufferSize (ab_bufferSize reqHdr) agreement;
          let agreement = SetTimeout (ab_timeoutValue reqHdr) agreement;
          let agreement = SetAmsduSupport (ab_amsduSupport reqHdr) agreement;
          let agreement = gcr_of reqHdr (ba_policy_of reqHdr (SetHtSupported True agreement));
          let agreement = SetState PENDING agreement;
          let e = \<lparr>oe_agreement = agreement, oe_queue = [], oe_inactivity = None\<rparr>;
          s \<leftarrow> (case GetOriginatorBaAgreement recipient tid (ab_gcrGroupAddress reqHdr) s of
                  Some i \<Rightarrow> do { ns_assert (IsReset (oe_agreement (orig_at i s)));
                                 Some (on_orig i (\<lambda>_. e) s) }
                | None \<Rightarrow> Some (s\<lparr>m_originatorAgreements :=
                                     mm_emplace (recipient, tid) e (m_originatorAgreements s)\<rparr>));
          ns_assert (count_gcr oe_gcr (recipient, tid) (ab_gcrGroupAddress reqHdr) (m_originatorAgreements s) = 1);
          Some (call (BlockPackets (case ab_gcrGroupAddress reqHdr of Some g \<Rightarrow> g | None \<Rightarrow> recipient) tid) s) }"

text \<open>The inactivity events; the destructor of an agreement cancels its own.\<close>

definition EventIsPending :: "nat option \<Rightarrow> bam \<Rightarrow> bool" where
  "EventIsPending u s \<longleftrightarrow> (\<exists>ev \<in> set (b_events s). u = Some (fst ev))"

definition EventCancel :: "nat option \<Rightarrow> bam \<Rightarrow> bam" where
  "EventCancel u s = s\<lparr>b_events := filter (\<lambda>ev. u \<noteq> Some (fst ev)) (b_events s)\<rparr>"

definition ScheduleInactivity :: "time \<Rightarrow> mac48 \<Rightarrow> nat \<Rightarrow> mac48 option \<Rightarrow> nat \<Rightarrow> bam \<Rightarrow> bam" where
  "ScheduleInactivity t recipient tid g i s =
     (let s' = on_orig i (\<lambda>e. e\<lparr>oe_inactivity := Some (b_nextEvent s)\<rparr>) s
      in s'\<lparr>b_events := b_events s @ [(b_nextEvent s, t, recipient, tid, g)], b_nextEvent := Suc (b_nextEvent s)\<rparr>)"

definition InactivityTimeout :: "mac48 \<Rightarrow> nat \<Rightarrow> mac48 option \<Rightarrow> bam \<Rightarrow> bam" where
  "InactivityTimeout recipient tid gcrGroupAddr s = call (InactivityExpired recipient tid gcrGroupAddr) s"

definition DestroyOriginatorAgreement :: "mac48 \<Rightarrow> nat \<Rightarrow> mac48 option \<Rightarrow> bam \<Rightarrow> bam" where
  "DestroyOriginatorAgreement recipient tid gcrGroupAddr s =
     (case GetOriginatorBaAgreement recipient tid gcrGroupAddr s of
        Some i \<Rightarrow> let s' = EventCancel (oe_inactivity (orig_at i s)) s
                  in s'\<lparr>m_originatorAgreements := mm_erase i (m_originatorAgreements s)\<rparr>
      | None \<Rightarrow> s)"

definition inactivity_delay :: "originator \<Rightarrow> time" where
  "inactivity_delay a = 1000 * (1024 * int (m_timeout a))"

text \<open>Whether every agreement for the group is established: the loop returns at the first that is not.\<close>

definition gcr_established :: "mac48 option \<Rightarrow> bam \<Rightarrow> bool" where
  "gcr_established g s \<longleftrightarrow>
     (\<forall>(_, e) \<in> set (m_originatorAgreements s). oe_gcr e = g \<longrightarrow> IsEstablished (oe_agreement e))"

definition UpdateOriginatorAgreement :: "time \<Rightarrow> addba \<Rightarrow> mac48 \<Rightarrow> nat \<Rightarrow> bam \<Rightarrow> bam option" where
  "UpdateOriginatorAgreement now respHdr recipient startingSeq s =
     do { let tid = ab_tid respHdr;
          s \<leftarrow> (case GetOriginatorBaAgreement recipient tid (ab_gcrGroupAddress respHdr) s of
                  None \<Rightarrow> Some s
                | Some i \<Rightarrow> do {
                    s \<leftarrow> on_agreement i (\<lambda>a. do {
                           a \<leftarrow> SetStartingSequence startingSeq
                                  (SetAmsduSupport (ab_amsduSupport respHdr)
                                    (SetTimeout (ab_timeoutValue respHdr) (SetBufferSize (ab_bufferSize respHdr) a)));
                           Some (SetState ESTABLISHED (gcr_of respHdr (ba_policy_of respHdr (InitTxWindow a)))) }) s;
                    let s = (case ab_gcrGroupAddress respHdr of
                               Some g \<Rightarrow> s\<lparr>m_gcrBlockAcks := omap_emplace g [] (m_gcrBlockAcks s)\<rparr>
                             | None \<Rightarrow> s);
                    let a = oe_agreement (orig_at i s);
                    Some (if m_timeout a \<noteq> 0
                          then ScheduleInactivity (now + inactivity_delay a) recipient tid
                                 (ab_gcrGroupAddress respHdr) i s
                          else s) });
          Some (case ab_gcrGroupAddress respHdr of
                  None \<Rightarrow> call (UnblockPackets recipient tid) s
                | Some g \<Rightarrow> if gcr_established (Some g) s then call (UnblockPackets g tid) s else s) }"

definition CreateRecipientAgreement :: "nat recipient \<Rightarrow> addba \<Rightarrow> mac48 \<Rightarrow> nat \<Rightarrow> bam \<Rightarrow> bam option" where
  "CreateRecipientAgreement memory respHdr originator startingSeq s =
     do { let tid = ab_tid respHdr;
          let agreement = RecipientBlockAckAgreement memory originator (ab_amsduSupport respHdr) tid
                            (ab_bufferSize respHdr) (ab_timeoutValue respHdr) startingSeq True;
          let agreement = gcr_of respHdr (ba_policy_of respHdr agreement);
          let s = (case GetRecipientBaAgreement originator tid (ab_gcrGroupAddress respHdr) s of
                     Some i \<Rightarrow> s\<lparr>m_recipientAgreements := mm_set i agreement (m_recipientAgreements s)\<rparr>
                   | None \<Rightarrow> s\<lparr>m_recipientAgreements :=
                               mm_emplace (originator, tid) agreement (m_recipientAgreements s)\<rparr>);
          ns_assert (count_gcr m_gcrGroupAddress (originator, tid) (ab_gcrGroupAddress respHdr)
                       (m_recipientAgreements s) = 1);
          Some s }"

definition DestroyRecipientAgreement :: "mac48 \<Rightarrow> nat \<Rightarrow> mac48 option \<Rightarrow> bam \<Rightarrow> bam option" where
  "DestroyRecipientAgreement originator tid gcrGroupAddr s =
     (case GetRecipientBaAgreement originator tid gcrGroupAddr s of
        None \<Rightarrow> Some s
      | Some i \<Rightarrow> do {
          (_, out) \<leftarrow> Flush (snd (m_recipientAgreements s ! i));
          Some (call (PassedUp out) (s\<lparr>m_recipientAgreements := mm_erase i (m_recipientAgreements s)\<rparr>)) })"

section \<open>MPDUs in flight\<close>

definition hdr_of :: "bam \<Rightarrow> nat \<Rightarrow> mac_hdr" where
  "hdr_of s p = bm_hdr (b_mpdu s p)"

definition seq_of :: "bam \<Rightarrow> nat \<Rightarrow> nat" where
  "seq_of s p = unat (m_seqSeq (hdr_of s p))"

definition on_mpdu :: "nat \<Rightarrow> (bam_mpdu \<Rightarrow> bam_mpdu) \<Rightarrow> bam \<Rightarrow> bam" where
  "on_mpdu p f s = s\<lparr>b_mpdu := (b_mpdu s)(p := f (b_mpdu s p))\<rparr>"

definition GetInFlightLinkIds :: "bam_mpdu \<Rightarrow> nat set" where
  "GetInFlightLinkIds m = (if bm_queued m then bm_links m else {})"

definition IsInFlight :: "bam_mpdu \<Rightarrow> bool" where
  "IsInFlight m \<longleftrightarrow> bm_queued m \<and> bm_links m \<noteq> {}"

definition distance_of :: "nat \<Rightarrow> bam \<Rightarrow> nat \<Rightarrow> nat option" where
  "distance_of i s p = orig_GetDistance (seq_of s p) (oe_agreement (orig_at i s))"

text \<open>\<^verbatim>\<open>WifiMacQueue\<close>: an MPDU that leaves the queue.\<close>

definition q_Remove :: "nat \<Rightarrow> bam \<Rightarrow> bam option" where
  "q_Remove p s = do { ns_assert (bm_queued (b_mpdu s p)); Some (on_mpdu p (\<lambda>m. m\<lparr>bm_queued := False\<rparr>) s) }"

definition DequeueIfQueued :: "nat list \<Rightarrow> bam \<Rightarrow> bam" where
  "DequeueIfQueued ps s =
     s\<lparr>b_mpdu := (\<lambda>p. if p \<in> set ps then (b_mpdu s p)\<lparr>bm_queued := False\<rparr> else b_mpdu s p)\<rparr>"

text \<open>
  \<^verbatim>\<open>DoStorePacket\<close> walks the queue from its end; the second result is \<open>None\<close> if the
  frame is in the queue already.
\<close>

fun store_back :: "nat \<Rightarrow> bam \<Rightarrow> nat \<Rightarrow> nat \<Rightarrow> nat list \<Rightarrow> nat list option option" where
  "store_back i s p mpduDist [] = Some (Some [p])"
| "store_back i s p mpduDist (q # qs) =
     (if GetSequenceControl (hdr_of s p) = GetSequenceControl (hdr_of s q) then Some None
      else do {
        dist \<leftarrow> distance_of i s q;
        (if mpduDist > dist \<or> (mpduDist = dist \<and> m_seqFrag (hdr_of s p) > m_seqFrag (hdr_of s q))
         then Some (Some (p # q # qs))
         else do { r \<leftarrow> store_back i s p mpduDist qs; Some (map_option ((#) q) r) }) })"

definition DoStorePacket :: "nat \<Rightarrow> mac48 \<Rightarrow> mac48 option \<Rightarrow> bam \<Rightarrow> bam option" where
  "DoStorePacket p recipient gcrGroupAddr s =
     do { ns_assert (IsQosData (hdr_of s p));
          tid \<leftarrow> GetQosTid (hdr_of s p);
          i \<leftarrow> GetOriginatorBaAgreement recipient (unat tid) gcrGroupAddr s;
          mpduDist \<leftarrow> distance_of i s p;
          (if mpduDist \<ge> SEQNO_SPACE_HALF_SIZE then Some s
           else do {
             r \<leftarrow> store_back i s p mpduDist (rev (oe_queue (orig_at i s)));
             (case r of
                None \<Rightarrow> Some s
              | Some q \<Rightarrow> on_agreement i (NotifyTransmittedMpdu (seq_of s p)) (set_queue i (rev q) s)) }) }"

definition StorePacket :: "nat \<Rightarrow> bam \<Rightarrow> bam option" where
  "StorePacket p s = DoStorePacket p (m_addr1 (hdr_of s p)) None s"

fun StoreGcrPacket :: "nat \<Rightarrow> mac48 list \<Rightarrow> bam \<Rightarrow> bam option" where
  "StoreGcrPacket p [] s = Some s"
| "StoreGcrPacket p (member # members) s =
     do { s \<leftarrow> DoStorePacket p member (Some (bm_msduDestination (b_mpdu s p))) s;
          StoreGcrPacket p members s }"

definition GetNBufferedPackets :: "mac48 \<Rightarrow> nat \<Rightarrow> bam \<Rightarrow> nat" where
  "GetNBufferedPackets recipient tid s =
     (case GetOriginatorBaAgreement recipient tid None s of
        Some i \<Rightarrow> length (oe_queue (orig_at i s)) | None \<Rightarrow> 0)"

section \<open>Block Ack Requests\<close>

definition GetBlockAckReqHeader :: "bar_hdr \<Rightarrow> mac48 \<Rightarrow> nat \<Rightarrow> mac48 option \<Rightarrow> bam \<Rightarrow> bar_hdr option" where
  "GetBlockAckReqHeader memory recipient tid gcrGroupAddr s =
     do { i \<leftarrow> GetOriginatorBaAgreement recipient tid gcrGroupAddr s;
          let reqHdr = CtrlBAckRequestHeader memory;
          reqHdr \<leftarrow> (case gcrGroupAddr of
                       Some g \<Rightarrow> bar_SetGcrGroupAddress g (bar_SetType BAR_GCR reqHdr)
                     | None \<Rightarrow> Some (bar_SetType (GetBlockAckReqType (oe_agreement (orig_at i s))) reqHdr));
          Some (bar_SetStartingSequence (of_nat (GetStartingSequence (oe_agreement (orig_at i s))))
                 (bar_SetTidInfo (of_nat tid) reqHdr)) }"

text \<open>
  A request for the same agreement is replaced in its place, with the time at which it was queued;
  \<open>expired\<close> says which control frames are removed because of their age when the queue is looked at.
\<close>

fun replace_bar :: "u8 \<Rightarrow> mac48 \<Rightarrow> ctl_item \<Rightarrow> ctl_item list \<Rightarrow> ctl_item list option" where
  "replace_bar tid recipient bar [] = None"
| "replace_bar tid recipient bar (item # items) =
     (case ci_bar item of
        Some otherHdr \<Rightarrow>
          if m_addr1 (ci_hdr item) = recipient \<and> bar_GetTidInfo otherHdr = tid
          then Some (bar\<lparr>ci_time := ci_time item\<rparr> # items)
          else map_option ((#) item) (replace_bar tid recipient bar items)
      | None \<Rightarrow> map_option ((#) item) (replace_bar tid recipient bar items))"

definition ScheduleBar :: "(ctl_item \<Rightarrow> bool) \<Rightarrow> time \<Rightarrow> bar_hdr \<Rightarrow> mac_hdr \<Rightarrow> bam \<Rightarrow> bam" where
  "ScheduleBar expired now reqHdr hdr s =
     (let a = m_addr1 hdr;
          items = dropWhile expired (b_ctlQueue s a);
          bar = \<lparr>ci_hdr = hdr, ci_bar = Some reqHdr, ci_time = now\<rparr>
      in s\<lparr>b_ctlQueue := (b_ctlQueue s)(a := (case replace_bar (bar_GetTidInfo reqHdr) a bar items of
                                                 Some items' \<Rightarrow> items' | None \<Rightarrow> items @ [bar]))\<rparr>)"

section \<open>Discarded MPDUs\<close>

text \<open>The oldest MPDUs leave the queues up to the first one that is not old.\<close>

fun drop_old :: "nat \<Rightarrow> nat list \<Rightarrow> bam \<Rightarrow> bam option" where
  "drop_old i [] s = Some (set_queue i [] s)"
| "drop_old i (p # ps) s =
     do { d \<leftarrow> distance_of i s p;
          if d \<ge> SEQNO_SPACE_HALF_SIZE
          then drop_old i ps (call (DroppedOldMpdu p) (DequeueIfQueued [p] s))
          else Some (set_queue i (p # ps) s) }"

record bam_env =
  ve_now :: time
  ve_expired :: "ctl_item \<Rightarrow> bool"
  ve_memory :: bar_hdr

definition bar_mac_hdr :: "mac48 \<Rightarrow> mac48 \<Rightarrow> mac_hdr" where
  "bar_mac_hdr recipient self =
     SetNoMoreFragments (SetNoRetry (SetDsNotFrom (SetDsNotTo
       (SetAddr2 self (SetAddr1 recipient (SetType WIFI_MAC_CTL_BACKREQ True mac_hdr_default))))))"

definition HandleDiscardedMpdu :: "bam_env \<Rightarrow> nat \<Rightarrow> nat option \<Rightarrow> bam \<Rightarrow> bam option" where
  "HandleDiscardedMpdu v p iter s =
     (case iter of
        None \<Rightarrow> Some s
      | Some i \<Rightarrow>
          let a = oe_agreement (orig_at i s)
          in if \<not> IsEstablished a then Some s
             else do {
               old \<leftarrow> QosUtilsIsOldPacket (GetStartingSequence a) (seq_of s p);
               (if old then Some s
                else do {
               s \<leftarrow> on_agreement i (NotifyDiscardedMpdu (seq_of s p)) s;
               s \<leftarrow> drop_old i (oe_queue (orig_at i s)) s;
               let (recipient, tid) = key_at i s;
               reqHdr \<leftarrow> GetBlockAckReqHeader (ve_memory v) recipient tid (oe_gcr (orig_at i s)) s;
               Some (ScheduleBar (ve_expired v) (ve_now v) reqHdr
                      (bar_mac_hdr recipient (m_addr2 (hdr_of s p))) s) }) })"

fun discard_from_group :: "bam_env \<Rightarrow> nat \<Rightarrow> nat \<Rightarrow> mac48 \<Rightarrow> nat list \<Rightarrow> bam \<Rightarrow> bam option" where
  "discard_from_group v p tid g [] s = Some s"
| "discard_from_group v p tid g (i # is) s =
     do { s \<leftarrow> (if snd (key_at i s) \<noteq> tid \<or> oe_gcr (orig_at i s) \<noteq> Some g then Some s
                else HandleDiscardedMpdu v p (Some i) s);
          discard_from_group v p tid g is s }"

definition bam_NotifyDiscardedMpdu :: "bam_env \<Rightarrow> nat \<Rightarrow> bam \<Rightarrow> bam option" where
  "bam_NotifyDiscardedMpdu v p s =
     (let hdr = hdr_of s p
      in if \<not> IsQosData hdr then Some s
         else if \<not> IsRetry hdr \<and> \<not> IsInFlight (b_mpdu s p) then Some s
         else do {
           tid \<leftarrow> GetQosTid hdr;
           (if \<not> mac_IsGroup (m_addr1 hdr)
            then HandleDiscardedMpdu v p (GetOriginatorBaAgreement (m_addr1 hdr) (unat tid) None s) s
            else discard_from_group v p (unat tid) (m_addr1 hdr) [0..<length (m_originatorAgreements s)] s) })"

text \<open>The lifetime of an MPDU: the trace source of the queue is connected to the operation above.\<close>

definition TtlExceeded :: "bam_env \<Rightarrow> nat \<Rightarrow> bam \<Rightarrow> (bam \<times> bool) option" where
  "TtlExceeded v p s =
     do { ns_assert (bm_queued (b_mpdu s p));
          (if ve_now v > bm_expiry (b_mpdu s p)
           then do { s \<leftarrow> bam_NotifyDiscardedMpdu v p s; Some (DequeueIfQueued [p] s, True) }
           else Some (s, False)) }"

section \<open>MPDUs in flight are handled\<close>

datatype mpdu_status = STAY_INFLIGHT | TO_RETRANSMIT | ACKNOWLEDGED

text \<open>
  An iterator of the queue of an agreement stays at its element when others are erased: it is given
  by the number \<open>r\<close> of elements from it to the end, 0 for the end itself, when only elements before
  it leave the queue.
\<close>

definition queue_at :: "nat \<Rightarrow> bam \<Rightarrow> nat list" where
  "queue_at i s = oe_queue (orig_at i s)"

definition elem_at :: "nat \<Rightarrow> nat \<Rightarrow> bam \<Rightarrow> nat" where
  "elem_at i r s = queue_at i s ! (length (queue_at i s) - r)"

definition erase_at :: "nat \<Rightarrow> nat \<Rightarrow> bam \<Rightarrow> bam" where
  "erase_at i r s =
     (let q = queue_at i s; n = length q - r in set_queue i (take n q @ drop (Suc n) q) s)"

text \<open>
  \<^verbatim>\<open>HandleInFlightMpdu\<close>.  When the lifetime of the MPDU has expired the queue has changed
  underneath: the code goes on after the MPDU that came before it (\<open>Suc r\<close> elements from the end),
  and using that iterator is undefined if its MPDU has been erased, too.
\<close>

definition HandleInFlightMpdu ::
  "bam_env \<Rightarrow> nat \<Rightarrow> mpdu_status \<Rightarrow> nat \<Rightarrow> nat \<Rightarrow> bam \<Rightarrow> (bam \<times> nat) option" where
  "HandleInFlightMpdu v linkId status i r s =
     (let p = elem_at i r s
      in if \<not> bm_queued (b_mpdu s p) then Some (erase_at i r s, r - 1)
         else if status = ACKNOWLEDGED then Some (erase_at i r s, r - 1)
         else do {
           let hdr = hdr_of s p;
           let (recipient, tid) = key_at i s;
           ns_assert (m_addr1 hdr = recipient \<or> mac_IsGroup (m_addr1 hdr));
           t \<leftarrow> GetQosTid hdr;
           ns_assert (IsQosData hdr \<and> unat t = tid);
           d \<leftarrow> distance_of i s p;
           (if d \<ge> SEQNO_SPACE_HALF_SIZE
            then do { s \<leftarrow> q_Remove p (call (DroppedOldMpdu p) s); Some (erase_at i r s, r - 1) }
            else do {
              let atBegin = (r = length (queue_at i s));
              (s, exceeded) \<leftarrow> TtlExceeded v p s;
              (if exceeded
               then if atBegin then Some (s, length (queue_at i s))
                    else do { ns_assert (Suc r \<le> length (queue_at i s)); Some (s, r) }
               else if status = STAY_INFLIGHT then Some (s, r - 1)
               else Some (erase_at i r
                           (on_mpdu p (\<lambda>m. m\<lparr>bm_hdr := SetRetry (bm_hdr m), bm_links := bm_links m - {linkId}\<rparr>) s),
                          r - 1)) }) })"

section \<open>The loops over MPDUs in flight end\<close>

text \<open>While the lifetime of an MPDU is checked, MPDUs only leave the front of the queues and the EDCA queue.\<close>

definition shrinks :: "bam \<Rightarrow> bam \<Rightarrow> bool" where
  "shrinks s s' \<longleftrightarrow> (\<forall>j. suffix (queue_at j s') (queue_at j s))
                    \<and> (\<forall>p. bm_queued (b_mpdu s' p) \<longrightarrow> bm_queued (b_mpdu s p))"

lemma shrinks_refl [simp]: "shrinks s s"
  by (simp add: shrinks_def)

lemma shrinks_trans: "shrinks s t \<Longrightarrow> shrinks t u \<Longrightarrow> shrinks s u"
  by (meson shrinks_def suffix_order.trans)

lemma orig_at_on_orig:
  "orig_at j (on_orig i f s)
     = (if i = j \<and> i < length (m_originatorAgreements s) then f (orig_at i s) else orig_at j s)"
  by (cases "i < length (m_originatorAgreements s)"; cases "i = j")
    (simp_all add: orig_at_def on_orig_def mm_set_def not_less list_update_beyond)

lemma key_at_on_orig [simp]: "key_at j (on_orig i f s) = key_at j s"
  by (cases "i < length (m_originatorAgreements s)"; cases "i = j")
    (simp_all add: key_at_def on_orig_def mm_set_def not_less list_update_beyond)

lemma on_orig_frame [simp]:
  "b_mpdu (on_orig i f s) = b_mpdu s" "b_events (on_orig i f s) = b_events s"
  "b_ctlQueue (on_orig i f s) = b_ctlQueue s" "b_calls (on_orig i f s) = b_calls s"
  "length (m_originatorAgreements (on_orig i f s)) = length (m_originatorAgreements s)"
  by (simp_all add: on_orig_def mm_set_def)

lemma shrinks_call [simp]: "shrinks s (call c t) \<longleftrightarrow> shrinks s t"
  by (simp add: shrinks_def call_def queue_at_def orig_at_def)

lemma shrinks_DequeueIfQueued: "shrinks s (DequeueIfQueued ps s)"
  by (simp add: shrinks_def DequeueIfQueued_def queue_at_def orig_at_def)

lemma shrinks_on_agreement: "on_agreement i f s = Some s' \<Longrightarrow> shrinks s s'"
  by (auto simp: on_agreement_def shrinks_def queue_at_def orig_at_on_orig elim!: bind_SomeE)

lemma shrinks_set_queue: "suffix q (queue_at i s) \<Longrightarrow> shrinks s (set_queue i q s)"
  by (simp add: shrinks_def set_queue_def queue_at_def orig_at_on_orig)

lemma shrinks_ScheduleBar [simp]: "shrinks s (ScheduleBar e n r h t) \<longleftrightarrow> shrinks s t"
  by (simp add: shrinks_def ScheduleBar_def Let_def queue_at_def orig_at_def)

lemma shrinks_drop_old:
  "drop_old i ps s = Some s' \<Longrightarrow> suffix ps (queue_at i s) \<Longrightarrow> shrinks s s'"
proof (induction ps arbitrary: s)
  case Nil
  then show ?case
    by (auto intro: shrinks_set_queue)
next
  case (Cons p ps)
  obtain d where d: "distance_of i s p = Some d"
    using Cons.prems(1) by (auto elim: bind_SomeE)
  show ?case
  proof (cases "d \<ge> SEQNO_SPACE_HALF_SIZE")
    case True
    let ?t = "call (DroppedOldMpdu p) (DequeueIfQueued [p] s)"
    have "suffix ps (queue_at i ?t)"
      using Cons.prems(2) suffix_ConsD by (simp add: queue_at_def orig_at_def call_def DequeueIfQueued_def)
    then have "shrinks ?t s'"
      using Cons.prems(1) d True by (intro Cons.IH) simp_all
    moreover have "shrinks s ?t"
      by (simp add: shrinks_DequeueIfQueued)
    ultimately show ?thesis
      using shrinks_trans by blast
  next
    case False
    then show ?thesis
      using Cons.prems d by (auto intro: shrinks_set_queue)
  qed
qed

lemma shrinks_HandleDiscardedMpdu:
  assumes "HandleDiscardedMpdu v p iter s = Some s'"
  shows "shrinks s s'"
proof -
  have drop: "shrinks s u"
    if "on_agreement i f s = Some t" "drop_old i (oe_queue (orig_at i t)) t = Some u" for i f t u
    using shrinks_on_agreement [OF that(1)] shrinks_drop_old [OF that(2)]
    by (auto simp: queue_at_def intro: shrinks_trans)
  show ?thesis
    using assms
    by (auto simp: HandleDiscardedMpdu_def Let_def
        split: option.splits if_splits prod.splits elim!: bind_SomeE) (erule (1) drop)
qed

lemma shrinks_discard_from_group: "discard_from_group v p tid g is s = Some s' \<Longrightarrow> shrinks s s'"
proof (induction "is" arbitrary: s)
  case (Cons i "is")
  then show ?case
    by (auto dest!: shrinks_HandleDiscardedMpdu intro: shrinks_trans split: if_splits elim!: bind_SomeE)
qed simp

lemma shrinks_NotifyDiscardedMpdu: "bam_NotifyDiscardedMpdu v p s = Some s' \<Longrightarrow> shrinks s s'"
  by (auto simp: bam_NotifyDiscardedMpdu_def Let_def shrinks_HandleDiscardedMpdu shrinks_discard_from_group
      split: if_splits elim!: bind_SomeE)

lemma TtlExceeded_shrinks:
  assumes "TtlExceeded v p s = Some (s', b)"
  shows "shrinks s s'" and "b \<Longrightarrow> bm_queued (b_mpdu s p) \<and> \<not> bm_queued (b_mpdu s' p)"
    and "\<not> b \<Longrightarrow> s' = s"
proof -
  have "shrinks s (DequeueIfQueued [p] t)" if "bam_NotifyDiscardedMpdu v p s = Some t" for t
    using that shrinks_trans [OF shrinks_NotifyDiscardedMpdu shrinks_DequeueIfQueued] by blast
  then show "shrinks s s'"
    using assms by (auto simp: TtlExceeded_def simp del: split_paired_Ex split: if_splits elim!: bind_SomeE)
qed (use assms in \<open>auto simp: TtlExceeded_def DequeueIfQueued_def split: if_splits elim!: bind_SomeE\<close>)

text \<open>
  A pass over the queue of an agreement ends: each step leaves the iterator closer to the end, or
  where it is with one MPDU less in the EDCA queue from there on.
\<close>

definition queued_after :: "nat \<Rightarrow> nat \<Rightarrow> bam \<Rightarrow> nat" where
  "queued_after i r s =
     length (filter (\<lambda>p. bm_queued (b_mpdu s p))
       (drop (length (queue_at i s) - r) (queue_at i s)))"

lemma suffix_drop_eq:
  "suffix q' q \<Longrightarrow> r \<le> length q' \<Longrightarrow> drop (length q' - r) q' = drop (length q - r) q"
  by (auto simp: suffix_def)

lemma length_filter_less:
  assumes "\<And>x. P x \<Longrightarrow> Q x" "p \<in> set xs" "Q p" "\<not> P p"
  shows "length (filter P xs) < length (filter Q xs)"
  using assms(2)
proof (induction xs)
  case (Cons x xs)
  have "length (filter P xs) \<le> length (filter Q xs)"
    using assms(1) by (induction xs) auto
  with Cons assms show ?case
    by auto
qed simp

lemma queued_after_less:
  assumes "TtlExceeded v (elem_at i r s) s = Some (s', True)"
    and "0 < r" "r \<le> length (queue_at i s)" "r \<le> length (queue_at i s')"
  shows "queued_after i r s' < queued_after i r s"
proof -
  let ?p = "elem_at i r s" and ?q = "drop (length (queue_at i s) - r) (queue_at i s)"
  have p: "?p \<in> set ?q"
    using assms(2,3) by (simp add: elem_at_def Cons_nth_drop_Suc [symmetric])
  have sh: "shrinks s s'" and "bm_queued (b_mpdu s ?p)" "\<not> bm_queued (b_mpdu s' ?p)"
    using TtlExceeded_shrinks [OF assms(1)] by auto
  then have "length (filter (\<lambda>p. bm_queued (b_mpdu s' p)) ?q) < queued_after i r s"
    using p unfolding queued_after_def by (intro length_filter_less [of _ _ ?p]) (auto simp: shrinks_def)
  moreover have "drop (length (queue_at i s') - r) (queue_at i s') = ?q"
    using sh assms(4) by (intro suffix_drop_eq) (simp_all add: shrinks_def)
  ultimately show ?thesis
    by (simp add: queued_after_def)
qed

text \<open>What a step leaves: the MPDU is passed or erased, or its lifetime had expired.\<close>

lemma HandleInFlightMpdu_cases:
  assumes "HandleInFlightMpdu v l status i r s = Some (s', r')"
  shows "r' = r - 1 \<and> queue_at i s' = queue_at i s
       \<or> r' = r - 1 \<and> (\<exists>t. s' = erase_at i r t \<and> queue_at i t = queue_at i s)
       \<or> TtlExceeded v (elem_at i r s) s = Some (s', True)
         \<and> r' = (if r = length (queue_at i s) then length (queue_at i s') else r)
         \<and> (r \<noteq> length (queue_at i s) \<longrightarrow> Suc r \<le> length (queue_at i s'))"
proof -
  let ?p = "elem_at i r s"
  have frame: "queue_at i (call c u) = queue_at i u" "queue_at i (on_mpdu p f u) = queue_at i u" for c p f u
    by (simp_all add: queue_at_def orig_at_def call_def on_mpdu_def)
  have erased: "r' = r - 1 \<and> (\<exists>t. s' = erase_at i r t \<and> queue_at i t = queue_at i s)"
    if "s' = erase_at i r u" "queue_at i u = queue_at i s" "r' = r - 1" for u
    using that by blast
  show ?thesis
  proof (cases "bm_queued (b_mpdu s ?p) \<and> status \<noteq> ACKNOWLEDGED")
    case False
    then have "s' = erase_at i r s" "r' = r - 1"
      using assms by (auto simp: HandleInFlightMpdu_def Let_def split: if_splits)
    then show ?thesis
      using erased by blast
  next
    case True
    obtain d where end_: "(if d \<ge> SEQNO_SPACE_HALF_SIZE
            then do { s \<leftarrow> q_Remove ?p (call (DroppedOldMpdu ?p) s); Some (erase_at i r s, r - 1) }
            else do {
              (u, exceeded) \<leftarrow> TtlExceeded v ?p s;
              (if exceeded
               then if r = length (queue_at i s) then Some (u, length (queue_at i u))
                    else do { ns_assert (Suc r \<le> length (queue_at i u)); Some (u, r) }
               else if status = STAY_INFLIGHT then Some (u, r - 1)
               else Some (erase_at i r
                           (on_mpdu ?p (\<lambda>m. m\<lparr>bm_hdr := SetRetry (bm_hdr m), bm_links := bm_links m - {l}\<rparr>) u),
                          r - 1)) }) = Some (s', r')"
      using assms True unfolding HandleInFlightMpdu_def Let_def split_beta
      by (simp only: if_False if_True simp_thms) (elim bind_SomeE, rule that [unfolded split_beta], assumption)
    show ?thesis
    proof (cases "d \<ge> SEQNO_SPACE_HALF_SIZE")
      case True
      then show ?thesis
        using end_ erased by (auto simp: q_Remove_def frame elim!: bind_SomeE)
    next
      case False
      then obtain u b where u: "TtlExceeded v ?p s = Some (u, b)"
        using end_ by (auto elim: bind_SomeE)
      show ?thesis
      proof (cases b)
        case True
        then show ?thesis
          using end_ False u by (auto split: if_splits elim!: bind_SomeE)
      next
        case b: False
        then have "u = s"
          using TtlExceeded_shrinks(3) [OF u] by simp
        then show ?thesis
          using end_ False u b erased by (auto simp: frame split: if_splits)
      qed
    qed
  qed
qed

lemma queue_at_erase_at:
  "i < length (m_originatorAgreements s) \<Longrightarrow>
     queue_at i (erase_at i r s)
       = (let q = queue_at i s; n = length q - r in take n q @ drop (Suc n) q)"
  by (simp add: erase_at_def set_queue_def queue_at_def orig_at_on_orig Let_def)

lemma length_queue_erase_at:
  "0 < r \<Longrightarrow> r \<le> length (queue_at i s) \<Longrightarrow> r - 1 \<le> length (queue_at i (erase_at i r s))"
  by (auto simp: erase_at_def set_queue_def queue_at_def orig_at_on_orig Let_def)

lemma HandleInFlightMpdu_step:
  assumes "HandleInFlightMpdu v l status i r s = Some (s', r')"
    and "0 < r" "r \<le> length (queue_at i s)"
  shows "r' < r \<or> r' = r \<and> queued_after i r s' < queued_after i r s"
    and "r' \<le> length (queue_at i s')"
proof -
  have len: "length (queue_at i t) \<le> length (queue_at i s)"
    if "TtlExceeded v (elem_at i r s) s = Some (t, True)" for t
    using TtlExceeded_shrinks(1) [OF that] by (auto simp: shrinks_def suffix_length_le)
  have less: "queued_after i r s' < queued_after i r s"
    if "TtlExceeded v (elem_at i r s) s = Some (s', True)" "r \<le> length (queue_at i s')"
    using queued_after_less [OF that(1) assms(2,3) that(2)] .
  have outcome: "r' = r - 1 \<and> queue_at i s' = queue_at i s
       \<or> r' = r - 1 \<and> (\<exists>t. s' = erase_at i r t \<and> queue_at i t = queue_at i s)
       \<or> TtlExceeded v (elem_at i r s) s = Some (s', True)
         \<and> r' = (if r = length (queue_at i s) then length (queue_at i s') else r)
         \<and> (r \<noteq> length (queue_at i s) \<longrightarrow> Suc r \<le> length (queue_at i s'))"
    by (rule HandleInFlightMpdu_cases [OF assms(1)])
  then show "r' < r \<or> r' = r \<and> queued_after i r s' < queued_after i r s"
  proof (elim disjE conjE)
    assume ttl: "TtlExceeded v (elem_at i r s) s = Some (s', True)"
      and "r' = (if r = length (queue_at i s) then length (queue_at i s') else r)"
      and "r \<noteq> length (queue_at i s) \<longrightarrow> Suc r \<le> length (queue_at i s')"
    then show ?thesis
      using len [OF ttl] less [OF ttl] by (cases "r = length (queue_at i s)"; cases "r' = r") auto
  qed (use assms(2) in auto)
  show "r' \<le> length (queue_at i s')"
    using outcome
  proof (elim disjE conjE exE)
    fix t
    assume "r' = r - 1" "s' = erase_at i r t" "queue_at i t = queue_at i s"
    then show ?thesis
      using assms(2,3) length_queue_erase_at [of r i t] by simp
  qed (use assms(3) in \<open>auto split: if_splits\<close>)
qed

text \<open>
  \<open>settle\<close> is the loop over the MPDUs that have not been acknowledged: \<open>status\<close> is chosen from
  the links on which an MPDU is in flight, and with \<open>notify\<close> each MPDU that failed is counted and
  reported.  The iterator is always in the queue (\<open>HandleInFlightMpdu_step\<close>).
\<close>

definition report_if :: "bool \<Rightarrow> bam_call \<Rightarrow> bam \<Rightarrow> bam" where
  "report_if b c s = (if b then call c s else s)"

lemma report_if_frame [simp]:
  "queue_at i (report_if b c s) = queue_at i s" "queued_after i r (report_if b c s) = queued_after i r s"
  "elem_at i r (report_if b c s) = elem_at i r s"
  by (simp_all add: report_if_def queue_at_def orig_at_def call_def queued_after_def elem_at_def)

function settle :: "bam_env \<Rightarrow> nat \<Rightarrow> (nat set \<Rightarrow> mpdu_status) \<Rightarrow> bool \<Rightarrow> nat \<Rightarrow> nat \<Rightarrow> bam \<Rightarrow> (bam \<times> nat) option" where
  "settle v linkId status notify i r s =
     (if r = 0 \<or> length (queue_at i s) < r then Some (s, 0)
      else let p = elem_at i r s;
               st = status (GetInFlightLinkIds (b_mpdu s p));
               failed = (notify \<and> st = TO_RETRANSMIT)
           in case HandleInFlightMpdu v linkId st i r (report_if failed (TxFailed p) s) of
                None \<Rightarrow> None
              | Some (s', r') \<Rightarrow>
                  map_option (\<lambda>(s'', n). (s'', if failed then Suc n else n))
                    (settle v linkId status notify i r' s'))"
  by pat_completeness auto
termination
proof (relation "measures [\<lambda>(v, l, st, nt, i, r, s). r, \<lambda>(v, l, st, nt, i, r, s). queued_after i r s]", goal_cases)
  case (2 v l st nt i r s p t failed sr s' r')
  then show ?case
    using HandleInFlightMpdu_step(1) [of v l t i r "report_if failed (TxFailed p) s" s' r'] by auto
qed simp

declare settle.simps [simp del]

text \<open>The loop of \<^verbatim>\<open>NeedBarRetransmission\<close>, which stops at the first MPDU that stays.\<close>

function some_in_flight :: "bam_env \<Rightarrow> nat \<Rightarrow> nat \<Rightarrow> bam \<Rightarrow> (bam \<times> bool) option" where
  "some_in_flight v i r s =
     (if r = 0 \<or> length (queue_at i s) < r then Some (s, False)
      else case HandleInFlightMpdu v 0 STAY_INFLIGHT i r s of
             None \<Rightarrow> None
           | Some (s', r') \<Rightarrow>
               if r' \<noteq> length (queue_at i s') then Some (s', True) else some_in_flight v i r' s')"
  by pat_completeness auto
termination
proof (relation "measures [\<lambda>(v, i, r, s). r, \<lambda>(v, i, r, s). queued_after i r s]", goal_cases)
  case (2 v i r s sr s' r')
  then show ?case
    using HandleInFlightMpdu_step(1) [of v 0 STAY_INFLIGHT i r s s' r'] by auto
qed simp

declare some_in_flight.simps [simp del]

section \<open>Acknowledgments\<close>

definition agreed :: "nat option \<Rightarrow> bam \<Rightarrow> nat option" where
  "agreed iter s = do { i \<leftarrow> iter; ns_assert (IsEstablished (oe_agreement (orig_at i s))); Some i }"

text \<open>The iterator of the first MPDU with a sequence number; 0 is the end of the queue.\<close>

definition find_seq :: "nat \<Rightarrow> nat \<Rightarrow> bam \<Rightarrow> nat" where
  "find_seq seq i s = length (dropWhile (\<lambda>p. seq_of s p \<noteq> seq) (queue_at i s))"

definition bam_NotifyGotAck :: "bam_env \<Rightarrow> nat \<Rightarrow> nat \<Rightarrow> bam \<Rightarrow> bam option" where
  "bam_NotifyGotAck v linkId mpdu s =
     do { tid \<leftarrow> GetQosTid (hdr_of s mpdu);
          i \<leftarrow> agreed (GetOriginatorBaAgreement (m_addr1 (hdr_of s mpdu)) (unat tid) None s) s;
          s \<leftarrow> on_agreement i (NotifyAckedMpdu (seq_of s mpdu)) s;
          let s = call (TxOk mpdu) s;
          let r = find_seq (seq_of s mpdu) i s;
          (if r = 0 then Some s
           else map_option fst
                  (HandleInFlightMpdu v linkId ACKNOWLEDGED i r (DequeueIfQueued [elem_at i r s] s))) }"

fun bam_NotifyLastGcrUrTx :: "nat \<Rightarrow> mac48 list \<Rightarrow> bam \<Rightarrow> bam option" where
  "bam_NotifyLastGcrUrTx mpdu [] s = do { ns_assert (IsQosData (hdr_of s mpdu)); Some s }"
| "bam_NotifyLastGcrUrTx mpdu (recipient # recipients) s =
     do { tid \<leftarrow> GetQosTid (hdr_of s mpdu);
          i \<leftarrow> agreed (GetOriginatorBaAgreement recipient (unat tid) (Some (m_addr1 (hdr_of s mpdu))) s) s;
          s \<leftarrow> on_agreement i (NotifyAckedMpdu (seq_of s mpdu)) s;
          bam_NotifyLastGcrUrTx mpdu recipients s }"

definition bam_NotifyMissedAck :: "bam_env \<Rightarrow> nat \<Rightarrow> nat \<Rightarrow> bam \<Rightarrow> bam option" where
  "bam_NotifyMissedAck v linkId mpdu s =
     do { tid \<leftarrow> GetQosTid (hdr_of s mpdu);
          i \<leftarrow> agreed (GetOriginatorBaAgreement (m_addr1 (hdr_of s mpdu)) (unat tid) None s) s;
          let r = find_seq (seq_of s mpdu) i s;
          (if r = 0 then Some s
           else map_option fst (HandleInFlightMpdu v linkId TO_RETRANSMIT i r s)) }"

section \<open>Block Acks\<close>

definition restart_inactivity :: "time \<Rightarrow> mac48 \<Rightarrow> nat \<Rightarrow> mac48 option \<Rightarrow> nat \<Rightarrow> bam \<Rightarrow> bam" where
  "restart_inactivity now recipient tid g i s =
     (let e = orig_at i s
      in if EventIsPending (oe_inactivity e) s
         then ScheduleInactivity (now + inactivity_delay (oe_agreement e)) recipient tid g i
                (EventCancel (oe_inactivity e) s)
         else s)"

text \<open>
  An MPDU that the Block Ack acknowledges; \<open>take_acked\<close> passes over the MPDUs from the iterator on
  and returns those that are acknowledged.  An acknowledged MPDU is always erased
  (\<open>HandleInFlightMpdu\<close>), so the iterator moves by one in any case.
\<close>

definition ack_mpdu :: "bam_env \<Rightarrow> nat \<Rightarrow> bool \<Rightarrow> nat \<Rightarrow> nat \<Rightarrow> bam \<Rightarrow> bam option" where
  "ack_mpdu v linkId notify i r s =
     do { let p = elem_at i r s;
          s \<leftarrow> on_agreement i (NotifyAckedMpdu (seq_of s p)) s;
          map_option fst (HandleInFlightMpdu v linkId ACKNOWLEDGED i r (report_if notify (TxOk p) s)) }"

fun take_acked ::
  "bam_env \<Rightarrow> nat \<Rightarrow> (u16 \<Rightarrow> bool option) \<Rightarrow> nat \<Rightarrow> nat \<Rightarrow> bam \<Rightarrow> (bam \<times> nat list) option" where
  "take_acked v linkId received i 0 s = Some (s, [])"
| "take_acked v linkId received i (Suc r) s =
     do { let p = elem_at i (Suc r) s;
          b \<leftarrow> received (m_seqSeq (hdr_of s p));
          (if b then do { s \<leftarrow> ack_mpdu v linkId True i (Suc r) s;
                          (s, acked) \<leftarrow> take_acked v linkId received i r s;
                          Some (s, p # acked) }
           else take_acked v linkId received i r s) }"

text \<open>An MPDU has failed if it is in flight on the link of the Block Ack alone.\<close>

definition got_ba_status :: "nat \<Rightarrow> nat set \<Rightarrow> mpdu_status" where
  "got_ba_status linkId linkIds = (if linkIds = {linkId} then TO_RETRANSMIT else STAY_INFLIGHT)"

definition missed_ba_status :: "nat \<Rightarrow> nat set \<Rightarrow> mpdu_status" where
  "missed_ba_status linkId linkIds = (if linkId \<notin> linkIds then STAY_INFLIGHT else TO_RETRANSMIT)"

definition block_ack_tid :: "ba_hdr \<Rightarrow> nat list \<Rightarrow> nat \<Rightarrow> nat option" where
  "block_ack_tid blockAck tids index =
     do { tid \<leftarrow> ba_GetTidInfo index blockAck;
          (if tid = 14
           then do { b \<leftarrow> GetAckType index blockAck; ns_assert (b \<and> length tids = 1); Some (hd tids) }
           else Some (unat tid)) }"

definition bam_NotifyGotBlockAck ::
  "bam_env \<Rightarrow> nat \<Rightarrow> ba_hdr \<Rightarrow> mac48 \<Rightarrow> nat list \<Rightarrow> nat \<Rightarrow> bam \<Rightarrow> (bam \<times> nat \<times> nat) option" where
  "bam_NotifyGotBlockAck v linkId blockAck recipient tids index s =
     do { ns_assert (m_baVariant blockAck \<noteq> BA_BASIC);
          ns_assert (m_baVariant blockAck \<noteq> BA_MULTI_TID);
          tid \<leftarrow> block_ack_tid blockAck tids index;
          (case agreed (GetOriginatorBaAgreement recipient tid None s) s of
             None \<Rightarrow> Some (s, 0, 0)
           | Some i \<Rightarrow> do {
               let s = restart_inactivity (ve_now v) recipient tid None i s;
               ns_assert (m_baVariant blockAck \<in> {BA_COMPRESSED, BA_EXTENDED_COMPRESSED, BA_MULTI_STA});
               (s, acked) \<leftarrow> take_acked v linkId (\<lambda>seq. IsPacketReceived seq index blockAck) i
                               (length (queue_at i s)) s;
               let s = DequeueIfQueued acked s;
               (s, failed) \<leftarrow> settle v linkId (got_ba_status linkId) True i (length (queue_at i s)) s;
               Some (s, length acked, failed) }) }"

text \<open>An MPDU sent to a group is acknowledged if all the members of the group have received it.\<close>

fun received_by_all :: "u16 \<Rightarrow> (mac48 \<times> ba_hdr) list \<Rightarrow> bool option" where
  "received_by_all seq [] = Some True"
| "received_by_all seq ((_, ba) # bas) =
     do { b \<leftarrow> IsPacketReceived seq 0 ba; bs \<leftarrow> received_by_all seq bas; Some (b \<and> bs) }"

fun gcr_flags :: "bam \<Rightarrow> (mac48 \<times> ba_hdr) list \<Rightarrow> nat list \<Rightarrow> bool list option" where
  "gcr_flags s bas [] = Some []"
| "gcr_flags s bas (p # ps) =
     do { b \<leftarrow> received_by_all (m_seqSeq (hdr_of s p)) bas;
          bs \<leftarrow> gcr_flags s bas ps;
          Some (b # bs) }"

fun gcr_take_acked ::
  "bam_env \<Rightarrow> nat \<Rightarrow> bool list \<Rightarrow> bool \<Rightarrow> nat \<Rightarrow> nat \<Rightarrow> bam \<Rightarrow> (bam \<times> nat list) option" where
  "gcr_take_acked v linkId flags notify i 0 s = Some (s, [])"
| "gcr_take_acked v linkId [] notify i (Suc r) s = None"
| "gcr_take_acked v linkId (b # flags) notify i (Suc r) s =
     (if b then do { let p = elem_at i (Suc r) s;
                     s \<leftarrow> ack_mpdu v linkId notify i (Suc r) s;
                     (s, acked) \<leftarrow> gcr_take_acked v linkId flags notify i r s;
                     Some (s, p # acked) }
      else gcr_take_acked v linkId flags notify i r s)"

fun gcr_acked_members ::
  "bam_env \<Rightarrow> nat \<Rightarrow> bool list \<Rightarrow> nat \<Rightarrow> mac48 \<Rightarrow> bool \<Rightarrow> mac48 list \<Rightarrow> bam \<Rightarrow> (bam \<times> nat list) option" where
  "gcr_acked_members v linkId flags tid g notify [] s = Some (s, [])"
| "gcr_acked_members v linkId flags tid g notify (member # members) s =
     do { i \<leftarrow> GetOriginatorBaAgreement member tid (Some g) s;
          ns_assert (length flags = length (queue_at i s));
          (s, acked) \<leftarrow> gcr_take_acked v linkId flags notify i (length (queue_at i s)) s;
          (s, _) \<leftarrow> gcr_acked_members v linkId flags tid g False members s;
          Some (s, acked) }"

fun gcr_failed_members ::
  "bam_env \<Rightarrow> nat \<Rightarrow> nat \<Rightarrow> mac48 \<Rightarrow> bool \<Rightarrow> mac48 list \<Rightarrow> bam \<Rightarrow> (bam \<times> nat) option" where
  "gcr_failed_members v linkId tid g notify [] s = Some (s, 0)"
| "gcr_failed_members v linkId tid g notify (member # members) s =
     do { i \<leftarrow> GetOriginatorBaAgreement member tid (Some g) s;
          (s, failed) \<leftarrow> settle v linkId (got_ba_status linkId) notify i (length (queue_at i s)) s;
          (s, _) \<leftarrow> gcr_failed_members v linkId tid g False members s;
          Some (s, failed) }"

definition bam_NotifyGotGcrBlockAck ::
  "bam_env \<Rightarrow> nat \<Rightarrow> ba_hdr \<Rightarrow> mac48 \<Rightarrow> mac48 list \<Rightarrow> bam \<Rightarrow> (bam \<times> (nat \<times> nat) option) option" where
  "bam_NotifyGotGcrBlockAck v linkId blockAck recipient members s =
     do { ns_assert (m_baVariant blockAck = BA_GCR);
          ns_assert (recipient \<in> set members);
          tid \<leftarrow> ba_GetTidInfo 0 blockAck;
          let tid = unat tid;
          g \<leftarrow> ba_GetGcrGroupAddress blockAck;
          (case agreed (GetOriginatorBaAgreement recipient tid (Some g) s) s of
             None \<Rightarrow> Some (s, None)
           | Some i \<Rightarrow> do {
               let s = restart_inactivity (ve_now v) recipient tid (Some g) i s;
               bas \<leftarrow> omap_get (m_gcrBlockAcks s) g;
               ns_assert (omap_get bas recipient = None);
               let bas = omap_put recipient blockAck bas;
               let s = s\<lparr>m_gcrBlockAcks := omap_put g bas (m_gcrBlockAcks s)\<rparr>;
               (if length bas < length members then Some (s, None)
                else do {
                  flags \<leftarrow> gcr_flags s bas (queue_at i s);
                  (s, acked) \<leftarrow> gcr_acked_members v linkId flags tid g True members s;
                  let s = DequeueIfQueued acked s;
                  (s, failed) \<leftarrow> gcr_failed_members v linkId tid g True members s;
                  Some (s\<lparr>m_gcrBlockAcks := omap_put g [] (m_gcrBlockAcks s)\<rparr>,
                        Some (length acked, failed)) }) }) }"

definition bam_NotifyMissedBlockAck :: "bam_env \<Rightarrow> nat \<Rightarrow> mac48 \<Rightarrow> nat \<Rightarrow> bam \<Rightarrow> bam option" where
  "bam_NotifyMissedBlockAck v linkId recipient tid s =
     (case agreed (GetOriginatorBaAgreement recipient tid None s) s of
        None \<Rightarrow> Some s
      | Some i \<Rightarrow> map_option fst
                    (settle v linkId (missed_ba_status linkId) False i (length (queue_at i s)) s))"

definition NeedBarRetransmission :: "bam_env \<Rightarrow> nat \<Rightarrow> mac48 \<Rightarrow> bam \<Rightarrow> (bam \<times> bool) option" where
  "NeedBarRetransmission v tid recipient s =
     (case agreed (GetOriginatorBaAgreement recipient tid None s) s of
        None \<Rightarrow> Some (s, False)
      | Some i \<Rightarrow> some_in_flight v i (length (queue_at i s)) s)"

definition NeedGcrBarRetransmission :: "mac48 \<Rightarrow> mac48 \<Rightarrow> nat \<Rightarrow> bam \<Rightarrow> bool" where
  "NeedGcrBarRetransmission gcrGroupAddress recipient tid s \<longleftrightarrow>
     agreed (GetOriginatorBaAgreement recipient tid (Some gcrGroupAddress) s) s \<noteq> None"

section \<open>Reception\<close>

definition on_recipient ::
  "nat \<Rightarrow> (nat recipient \<Rightarrow> (nat recipient \<times> (nat \<times> nat) list) option) \<Rightarrow> bam \<Rightarrow> bam option" where
  "on_recipient i f s =
     do { (a, out) \<leftarrow> f (snd (m_recipientAgreements s ! i));
          Some (call (PassedUp out) (s\<lparr>m_recipientAgreements := mm_set i a (m_recipientAgreements s)\<rparr>)) }"

definition bam_NotifyGotBlockAckRequest :: "mac48 \<Rightarrow> nat \<Rightarrow> nat \<Rightarrow> mac48 option \<Rightarrow> bam \<Rightarrow> bam option" where
  "bam_NotifyGotBlockAckRequest originator tid startingSeq gcrGroupAddr s =
     (case GetRecipientBaAgreement originator tid gcrGroupAddr s of
        None \<Rightarrow> Some s
      | Some i \<Rightarrow> on_recipient i (NotifyReceivedBar startingSeq) s)"

definition bam_NotifyGotMpdu :: "nat \<Rightarrow> bam \<Rightarrow> bam option" where
  "bam_NotifyGotMpdu mpdu s =
     do { let hdr = hdr_of s mpdu;
          tid \<leftarrow> GetQosTid hdr;
          let groupAddress = (if mac_IsGroup (m_addr1 hdr)
                              then Some (if IsQosAmsdu hdr then bm_msduDestination (b_mpdu s mpdu) else m_addr1 hdr)
                              else None);
          (case GetRecipientBaAgreement (m_addr2 hdr) (unat tid) groupAddress s of
             None \<Rightarrow> Some s
           | Some i \<Rightarrow> on_recipient i (NotifyReceivedMpdu (seq_of s mpdu, mpdu)) s) }"

section \<open>Queries, the list of Block Ack Requests and the states of agreements\<close>

definition AddToSendBarIfDataQueuedList :: "mac48 \<Rightarrow> nat \<Rightarrow> bam \<Rightarrow> bam" where
  "AddToSendBarIfDataQueuedList recipient tid s =
     (if (recipient, tid) \<in> set (m_sendBarIfDataQueued s) then s
      else s\<lparr>m_sendBarIfDataQueued := m_sendBarIfDataQueued s @ [(recipient, tid)]\<rparr>)"

definition RemoveFromSendBarIfDataQueuedList :: "mac48 \<Rightarrow> nat \<Rightarrow> bam \<Rightarrow> bam" where
  "RemoveFromSendBarIfDataQueuedList recipient tid s =
     s\<lparr>m_sendBarIfDataQueued := filter (\<lambda>k. k \<noteq> (recipient, tid)) (m_sendBarIfDataQueued s)\<rparr>"

definition set_agreement_state :: "originator_state \<Rightarrow> nat \<Rightarrow> bam \<Rightarrow> bam" where
  "set_agreement_state st i = on_orig i (\<lambda>e. e\<lparr>oe_agreement := SetState st (oe_agreement e)\<rparr>)"

definition NotifyOriginatorAgreementRejected :: "mac48 \<Rightarrow> nat \<Rightarrow> mac48 option \<Rightarrow> bam \<Rightarrow> bam option" where
  "NotifyOriginatorAgreementRejected recipient tid gcrGroupAddr s =
     do { i \<leftarrow> GetOriginatorBaAgreement recipient tid gcrGroupAddr s;
          let s = set_agreement_state REJECTED i s;
          Some (if gcrGroupAddr = None then call (UnblockPackets recipient tid) s else s) }"

definition NotifyOriginatorAgreementNoReply :: "mac48 \<Rightarrow> nat \<Rightarrow> mac48 option \<Rightarrow> bam \<Rightarrow> bam option" where
  "NotifyOriginatorAgreementNoReply recipient tid gcrGroupAddr s =
     do { i \<leftarrow> GetOriginatorBaAgreement recipient tid gcrGroupAddr s;
          let s = set_agreement_state NO_REPLY i s;
          Some (if gcrGroupAddr = None then call (UnblockPackets recipient tid) s else s) }"

definition NotifyOriginatorAgreementReset :: "mac48 \<Rightarrow> nat \<Rightarrow> mac48 option \<Rightarrow> bam \<Rightarrow> bam option" where
  "NotifyOriginatorAgreementReset recipient tid gcrGroupAddr s =
     do { i \<leftarrow> GetOriginatorBaAgreement recipient tid gcrGroupAddr s;
          let s = set_agreement_state RESET i s;
          Some (case gcrGroupAddr of Some g \<Rightarrow> call (UnblockPackets g tid) s | None \<Rightarrow> s) }"

definition GetRecipientBufferSize :: "mac48 \<Rightarrow> nat \<Rightarrow> bam \<Rightarrow> nat" where
  "GetRecipientBufferSize recipient tid s =
     (case GetAgreementAsOriginator recipient tid None s of Some a \<Rightarrow> m_bufferSize a | None \<Rightarrow> 0)"

definition GetOriginatorStartingSequence :: "mac48 \<Rightarrow> nat \<Rightarrow> bam \<Rightarrow> nat" where
  "GetOriginatorStartingSequence recipient tid s =
     (case GetAgreementAsOriginator recipient tid None s of Some a \<Rightarrow> GetStartingSequence a | None \<Rightarrow> 0)"

definition of_group :: "mac48 \<Rightarrow> nat \<Rightarrow> bam \<Rightarrow> originator list" where
  "of_group g tid s = map (\<lambda>e. oe_agreement (snd e))
     (filter (\<lambda>(k, e). snd k = tid \<and> oe_gcr e = Some g) (m_originatorAgreements s))"

definition GetGcrStartingSequence :: "mac48 \<Rightarrow> nat \<Rightarrow> bam \<Rightarrow> nat" where
  "GetGcrStartingSequence g tid s =
     (case of_group g tid s of a # _ \<Rightarrow> GetStartingSequence a | [] \<Rightarrow> 0)"

definition GetGcrBufferSize :: "mac48 \<Rightarrow> nat \<Rightarrow> bam \<Rightarrow> nat" where
  "GetGcrBufferSize g tid s = fold (\<lambda>a m. min (m_bufferSize a) m) (of_group g tid s) 65535"

definition IsGcrAgreementEstablished :: "mac48 \<Rightarrow> nat \<Rightarrow> mac48 list \<Rightarrow> bam \<Rightarrow> bool option" where
  "IsGcrAgreementEstablished g tid members s =
     do { ns_assert (members \<noteq> []);
          Some (\<forall>member \<in> set members. case GetAgreementAsOriginator member tid (Some g) s of
                  None \<Rightarrow> False | Some a \<Rightarrow> IsEstablished a) }"

end
