(* ===== verification/Block_Ack_Manager_Props.thy ===== *)
theory Block_Ack_Manager_Props
  imports Block_Ack_Manager
begin

text \<open>
  What the Block Ack manager does with the MPDUs in flight: a Block Ack settles each of them, the
  queue of an agreement stays in the order of the sequence numbers, and discarding an MPDU leaves no
  old one behind and a single Block Ack Request.
\<close>

section \<open>The entry an operation works on\<close>

lemma orig_at_simps [simp]:
  "orig_at i (call c s) = orig_at i s" "orig_at i (on_mpdu p f s) = orig_at i s"
  "orig_at i (DequeueIfQueued ps s) = orig_at i s"
  by (simp_all add: orig_at_def call_def on_mpdu_def DequeueIfQueued_def)

lemma key_at_simps [simp]:
  "key_at i (call c s) = key_at i s" "key_at i (on_mpdu p f s) = key_at i s"
  "key_at i (DequeueIfQueued ps s) = key_at i s" "key_at i (set_queue j q s) = key_at i s"
  by (simp_all add: key_at_def call_def on_mpdu_def DequeueIfQueued_def)
    (metis key_at_def key_at_on_orig set_queue_def)

lemma mpdu_simps [simp]:
  "b_mpdu (call c s) = b_mpdu s" "b_mpdu (on_mpdu p f s) = (b_mpdu s)(p := f (b_mpdu s p))"
  "b_mpdu (set_queue j q s) = b_mpdu s"
  "b_mpdu (DequeueIfQueued ps s)
     = (\<lambda>p. if p \<in> set ps then (b_mpdu s p)\<lparr>bm_queued := False\<rparr> else b_mpdu s p)"
  by (simp_all add: call_def on_mpdu_def set_queue_def DequeueIfQueued_def)

lemma length_agreements_simps [simp]:
  "length (m_originatorAgreements (call c s)) = length (m_originatorAgreements s)"
  "length (m_originatorAgreements (on_mpdu p f s)) = length (m_originatorAgreements s)"
  "length (m_originatorAgreements (set_queue j q s)) = length (m_originatorAgreements s)"
  "length (m_originatorAgreements (DequeueIfQueued ps s)) = length (m_originatorAgreements s)"
  by (simp_all add: call_def on_mpdu_def set_queue_def DequeueIfQueued_def)

lemma orig_at_set_queue [simp]:
  "i < length (m_originatorAgreements s) \<Longrightarrow> orig_at i (set_queue i q s) = (orig_at i s)\<lparr>oe_queue := q\<rparr>"
  by (simp add: set_queue_def orig_at_on_orig)

section \<open>One MPDU in flight\<close>

definition flight_hdr_ok :: "nat \<Rightarrow> bam \<Rightarrow> nat \<Rightarrow> bool" where
  "flight_hdr_ok i s p \<longleftrightarrow>
     IsQosData (hdr_of s p) \<and> unat (m_qosTid (hdr_of s p)) = snd (key_at i s)
     \<and> (m_addr1 (hdr_of s p) = fst (key_at i s) \<or> mac_IsGroup (m_addr1 (hdr_of s p)))"

text \<open>The lifetime of an MPDU that is still in the EDCA queue is not over.\<close>

definition unexpired :: "bam_env \<Rightarrow> bam \<Rightarrow> nat \<Rightarrow> bool" where
  "unexpired v s p \<longleftrightarrow> (bm_queued (b_mpdu s p) \<longrightarrow> ve_now v \<le> bm_expiry (b_mpdu s p))"

lemma HandleInFlightMpdu_unexpired:
  assumes "queue_at i s = kept @ p # rest" "flight_hdr_ok i s p" "distance_of i s p = Some d"
    and "unexpired v s p" "status \<noteq> ACKNOWLEDGED"
  shows "HandleInFlightMpdu v l status i (Suc (length rest)) s =
    Some (if \<not> bm_queued (b_mpdu s p) then (set_queue i (kept @ rest) s, length rest)
          else if 2048 \<le> d
          then (set_queue i (kept @ rest)
                  (on_mpdu p (\<lambda>m. m\<lparr>bm_queued := False\<rparr>) (call (DroppedOldMpdu p) s)), length rest)
          else if status = STAY_INFLIGHT then (s, length rest)
          else (set_queue i (kept @ rest)
                  (on_mpdu p (\<lambda>m. m\<lparr>bm_hdr := SetRetry (bm_hdr m), bm_links := bm_links m - {l}\<rparr>) s),
                length rest))"
proof -
  have p: "elem_at i (Suc (length rest)) s = p"
    using assms(1) by (simp add: elem_at_def)
  have erase: "erase_at i (Suc (length rest)) t = set_queue i (kept @ rest) t"
    if "queue_at i t = queue_at i s" for t
    using that assms(1) by (simp add: erase_at_def Let_def)
  have frame: "queue_at i (call c t) = queue_at i t" "queue_at i (on_mpdu p f t) = queue_at i t" for c p f t
    by (simp_all add: queue_at_def)
  have ttl: "TtlExceeded v p s = Some (s, False)" if "bm_queued (b_mpdu s p)"
    using that assms(4) by (simp add: TtlExceeded_def unexpired_def)
  obtain recipient tid where key: "key_at i s = (recipient, tid)"
    by fastforce
  show ?thesis
    using assms(2,3,5) ttl
    by (auto simp: HandleInFlightMpdu_def p Let_def key erase frame flight_hdr_ok_def GetQosTid_def
        q_Remove_def)
qed

lemma HandleInFlightMpdu_acknowledged:
  assumes "queue_at i s = kept @ p # rest"
  shows "HandleInFlightMpdu v l ACKNOWLEDGED i (Suc (length rest)) s =
    Some (set_queue i (kept @ rest) s, length rest)"
  using assms by (simp add: HandleInFlightMpdu_def elem_at_def erase_at_def Let_def)

section \<open>A series of acknowledgments\<close>

fun ack_all :: "nat list \<Rightarrow> originator \<Rightarrow> originator option" where
  "ack_all [] a = Some a"
| "ack_all (t # ts) a = do { a \<leftarrow> NotifyAckedMpdu t a; ack_all ts a }"

text \<open>
  The sequence numbers of MPDUs in flight: in the window, or behind it by no more than 1024.  What an
  acknowledgment of the \<open>ts\<close> of the window makes of it, when the window moves by \<open>k\<close>.
\<close>

definition flight_seq :: "originator \<Rightarrow> nat \<Rightarrow> bool" where
  "flight_seq a t \<longleftrightarrow> seqno t \<and> (in_tx_window a t \<or> 3072 \<le> seq_dist t (tx_start a))"

definition acked_exactly :: "originator \<Rightarrow> nat set \<Rightarrow> originator \<Rightarrow> nat \<Rightarrow> bool" where
  "acked_exactly a ts a' k \<longleftrightarrow> tx_moved a a' k \<and> k \<le> tx_size a
     \<and> (\<forall>t. seqno t \<longrightarrow>
          (acked a' t \<longleftrightarrow> (acked a t \<or> t \<in> ts \<and> in_tx_window a t) \<and> k \<le> seq_dist t (tx_start a)))
     \<and> (\<forall>t. seqno t \<and> seq_dist t (tx_start a) < k \<longrightarrow> acked a t \<or> t \<in> ts)"

lemma acked_exactly_window:
  assumes "acked_exactly a ts a' k" "tx_window_ok a" "seqno t"
  shows "acked a' t \<Longrightarrow> in_tx_window a t"
  using assms acked_in_window by (auto simp: acked_exactly_def)

lemma acked_exactly_step:
  assumes a: "tx_window_ok a" and prev: "acked_exactly a ts a' k" and t: "flight_seq a t"
  shows "\<exists>a'' k'. NotifyAckedMpdu t a' = Some a'' \<and> acked_exactly a (insert t ts) a'' k'"
proof -
  note wf = tx_window_okD [OF a]
  have m: "tx_moved a a' k" and k: "k \<le> tx_size a" and t0: "seqno t"
    using prev t by (simp_all add: acked_exactly_def flight_seq_def)
  have a': "tx_window_ok a'" "tx_start a' = seq_add (tx_start a) k" "tx_size a' = tx_size a"
    using m by (simp_all add: tx_moved_def)
  let ?d = "seq_dist t (tx_start a)"
  have dist: "seq_dist u (tx_start a')
      = (if k \<le> seq_dist u (tx_start a) then seq_dist u (tx_start a) - k else seq_dist u (tx_start a) + 4096 - k)"
    if "seqno u" for u
    using that k wf(4,5) a'(2) by (simp add: seq_dist_shift seq_dist_shift_less)
  show ?thesis
  proof (cases "k \<le> ?d \<and> ?d < tx_size a")
    case False
    then have old: "2048 \<le> seq_dist t (tx_start a')"
      using t k wf(4) dist [OF t0] by (auto simp: flight_seq_def in_tx_window_def)
    have "NotifyAckedMpdu t a' = Some a'"
      using old_mpdu_ignored(2) [OF a'(1) t0 old] .
    moreover have "acked_exactly a (insert t ts) a' k"
      using prev False by (auto simp: acked_exactly_def in_tx_window_def)
    ultimately show ?thesis
      by blast
  next
    case True
    then have "in_tx_window a' t"
      using dist [OF t0] a'(3) wf(4) by (auto simp: in_tx_window_def)
    then obtain a'' n where step: "NotifyAckedMpdu t a' = Some a''" "tx_moved a' a'' n"
      "\<And>u. seqno u \<Longrightarrow> acked a'' u \<longleftrightarrow> (acked a' u \<or> u = t) \<and> n \<le> seq_dist u (tx_start a')"
      "\<And>u. seqno u \<Longrightarrow> seq_dist u (tx_start a') < n \<Longrightarrow> acked a' u \<or> u = t"
      using NotifyAckedMpdu_spec [OF a'(1) t0] by metis
    have win: "in_tx_window a u" if "seqno u" "acked a' u \<or> u = t" for u
      using that True acked_exactly_window [OF prev a] by (auto simp: in_tx_window_def)
    have kn: "k + n \<le> tx_size a"
    proof (rule ccontr)
      assume "\<not> k + n \<le> tx_size a"
      let ?u = "seq_add (tx_start a) (tx_size a)"
      have u: "seqno ?u" "seq_dist ?u (tx_start a) = tx_size a"
        using wf(4,5) by (simp_all add: seq_dist_add)
      then have "seq_dist ?u (tx_start a') < n"
        using dist [OF u(1)] k \<open>\<not> k + n \<le> tx_size a\<close> by simp
      then show False
        using step(4) [OF u(1)] win [OF u(1)] u(2) by (auto simp: in_tx_window_def)
    qed
    have "a'' = a\<lparr>m_txWindow := m_txWindow a''\<rparr>"
      using m step(2) unfolding tx_moved_def by (cases a; cases a'; cases a'') simp
    then have "tx_moved a a'' (k + n)"
      using m step(2) wf(5) by (auto simp: tx_moved_def seq_add_add)
    moreover have "acked a'' u \<longleftrightarrow>
        (acked a u \<or> u \<in> insert t ts \<and> in_tx_window a u) \<and> k + n \<le> seq_dist u (tx_start a)" if "seqno u" for u
      using step(3) [OF that] prev that dist [OF that] True kn wf(4) k win [OF that]
      by (auto simp: acked_exactly_def in_tx_window_def split: if_splits)
    moreover have "acked a u \<or> u \<in> insert t ts" if "seqno u" "seq_dist u (tx_start a) < k + n" for u
      using step(4) [OF that(1)] prev that dist [OF that(1)]
      by (cases "k \<le> seq_dist u (tx_start a)") (auto simp: acked_exactly_def)
    ultimately show ?thesis
      using step(1) kn unfolding acked_exactly_def by blast
  qed
qed

lemma ack_all_exactly:
  assumes "tx_window_ok a" "acked_exactly a ts a' k" "\<forall>t \<in> set us. flight_seq a t"
  shows "\<exists>a'' k'. ack_all us a' = Some a'' \<and> acked_exactly a (ts \<union> set us) a'' k'"
  using assms(2,3)
proof (induction us arbitrary: ts a' k)
  case (Cons u us)
  obtain a1 k1 where "NotifyAckedMpdu u a' = Some a1" "acked_exactly a (insert u ts) a1 k1"
    using acked_exactly_step [OF assms(1) Cons.prems(1), of u] Cons.prems(2) by auto
  with Cons.IH [of "insert u ts" a1 k1] Cons.prems(2) show ?case
    by auto
qed auto

lemma acked_exactly_refl:
  assumes "tx_window_ok a"
  shows "acked_exactly a {} a 0"
  using tx_moved_refl [OF assms] by (simp add: acked_exactly_def)

section \<open>The two passes over the queue\<close>

text \<open>The pass over the acknowledged MPDUs, of which \<open>kept\<close> has been passed and \<open>rest\<close> is left.\<close>

lemma ack_mpdu_at:
  assumes "i < length (m_originatorAgreements s)" "queue_at i s = kept @ p # rest"
    and "NotifyAckedMpdu (seq_of s p) (oe_agreement (orig_at i s)) = Some a"
  shows "ack_mpdu v l True i (Suc (length rest)) s =
    Some (set_queue i (kept @ rest) (call (TxOk p) (on_orig i (\<lambda>e. e\<lparr>oe_agreement := a\<rparr>) s)))"
proof -
  let ?s = "call (TxOk p) (on_orig i (\<lambda>e. e\<lparr>oe_agreement := a\<rparr>) s)"
  have "queue_at i ?s = kept @ p # rest"
    using assms(1,2) by (simp add: queue_at_def orig_at_on_orig)
  from HandleInFlightMpdu_acknowledged [OF this] show ?thesis
    using assms by (simp add: ack_mpdu_def elem_at_def on_agreement_def report_if_def)
qed

lemma take_acked_spec:
  assumes "i < length (m_originatorAgreements s)" "queue_at i s = kept @ rest"
    and "\<And>p. p \<in> set rest \<Longrightarrow> received (m_seqSeq (hdr_of s p)) = Some (rcv p)"
    and "ack_all (map (seq_of s) (filter rcv rest)) (oe_agreement (orig_at i s)) = Some a"
  shows "\<exists>s'. take_acked v l received i (length rest) s = Some (s', filter rcv rest)
     \<and> b_mpdu s' = b_mpdu s \<and> key_at i s' = key_at i s
     \<and> length (m_originatorAgreements s') = length (m_originatorAgreements s)
     \<and> orig_at i s' = (orig_at i s)\<lparr>oe_agreement := a, oe_queue := kept @ filter (\<lambda>p. \<not> rcv p) rest\<rparr>"
  using assms
proof (induction rest arbitrary: kept s)
  case Nil
  then show ?case
    by (simp add: queue_at_def)
next
  case (Cons p rest)
  have p: "elem_at i (Suc (length rest)) s = p" "received (m_seqSeq (hdr_of s p)) = Some (rcv p)"
    using Cons.prems(2,3) by (simp_all add: elem_at_def)
  show ?case
  proof (cases "rcv p")
    case False
    have "\<exists>s'. take_acked v l received i (length rest) s = Some (s', filter rcv rest)
       \<and> b_mpdu s' = b_mpdu s \<and> key_at i s' = key_at i s
       \<and> length (m_originatorAgreements s') = length (m_originatorAgreements s)
       \<and> orig_at i s' = (orig_at i s)\<lparr>oe_agreement := a, oe_queue := (kept @ [p]) @ filter (\<lambda>p. \<not> rcv p) rest\<rparr>"
      using Cons.prems False by (intro Cons.IH) simp_all
    with p False show ?thesis
      by simp
  next
    case True
    then obtain b where b: "NotifyAckedMpdu (seq_of s p) (oe_agreement (orig_at i s)) = Some b"
      "ack_all (map (seq_of s) (filter rcv rest)) b = Some a"
      using Cons.prems(4) by (auto elim: bind_SomeE)
    let ?t = "set_queue i (kept @ rest) (call (TxOk p) (on_orig i (\<lambda>e. e\<lparr>oe_agreement := b\<rparr>) s))"
    have t: "ack_mpdu v l True i (Suc (length rest)) s = Some ?t"
      using ack_mpdu_at [OF Cons.prems(1,2) b(1)] .
    have entry: "orig_at i ?t = (orig_at i s)\<lparr>oe_agreement := b, oe_queue := kept @ rest\<rparr>"
      using Cons.prems(1) by (simp add: orig_at_on_orig)
    have hdrs: "hdr_of ?t = hdr_of s" "seq_of ?t = seq_of s"
      by (simp_all add: fun_eq_iff hdr_of_def seq_of_def)
    have "\<exists>s'. take_acked v l received i (length rest) ?t = Some (s', filter rcv rest)
       \<and> b_mpdu s' = b_mpdu ?t \<and> key_at i s' = key_at i ?t
       \<and> length (m_originatorAgreements s') = length (m_originatorAgreements ?t)
       \<and> orig_at i s' = (orig_at i ?t)\<lparr>oe_agreement := a, oe_queue := kept @ filter (\<lambda>p. \<not> rcv p) rest\<rparr>"
      using Cons.prems True b(2) entry hdrs by (intro Cons.IH) (simp_all add: queue_at_def)
    with p True t entry show ?thesis
      by auto
  qed
qed

text \<open>
  What becomes of an MPDU that has not been acknowledged: one that has left the EDCA queue or is old
  leaves, one that failed leaves with its Retry bit set, to be transmitted again, and one that is in
  flight on another link stays.
\<close>

definition is_old :: "originator \<Rightarrow> bam_mpdu \<Rightarrow> bool" where
  "is_old a m \<longleftrightarrow> 2048 \<le> seq_dist (unat (m_seqSeq (bm_hdr m))) (tx_start a)"

definition settled :: "(nat set \<Rightarrow> mpdu_status) \<Rightarrow> nat \<Rightarrow> originator \<Rightarrow> bam_mpdu \<Rightarrow> bam_mpdu" where
  "settled status l a m =
     (if \<not> bm_queued m then m
      else if is_old a m then m\<lparr>bm_queued := False\<rparr>
      else if status (GetInFlightLinkIds m) = STAY_INFLIGHT then m
      else m\<lparr>bm_hdr := SetRetry (bm_hdr m), bm_links := bm_links m - {l}\<rparr>)"

definition stays :: "(nat set \<Rightarrow> mpdu_status) \<Rightarrow> originator \<Rightarrow> bam_mpdu \<Rightarrow> bool" where
  "stays status a m \<longleftrightarrow> bm_queued m \<and> \<not> is_old a m \<and> status (GetInFlightLinkIds m) = STAY_INFLIGHT"

lemma settle_step:
  assumes "i < length (m_originatorAgreements s)" "queue_at i s = kept @ p # rest"
    and "flight_hdr_ok i s p" "seqno (seq_of s p)" "seqno (tx_start (oe_agreement (orig_at i s)))"
    and "unexpired v s p" and st: "status (GetInFlightLinkIds (b_mpdu s p)) \<noteq> ACKNOWLEDGED"
  shows "\<exists>s'. HandleInFlightMpdu v l (status (GetInFlightLinkIds (b_mpdu s p))) i (Suc (length rest)) s
        = Some (s', length rest)
     \<and> b_mpdu s' = (b_mpdu s)(p := settled status l (oe_agreement (orig_at i s)) (b_mpdu s p))
     \<and> key_at i s' = key_at i s \<and> length (m_originatorAgreements s') = length (m_originatorAgreements s)
     \<and> orig_at i s' = (orig_at i s)\<lparr>oe_queue :=
          (if stays status (oe_agreement (orig_at i s)) (b_mpdu s p) then kept @ [p] else kept) @ rest\<rparr>"
proof -
  let ?a = "oe_agreement (orig_at i s)"
  have "distance_of i s p = Some (seq_dist (seq_of s p) (tx_start ?a))"
    using assms(4,5) by (simp add: distance_of_def orig_GetDistance_def tx_start_def)
  note step = HandleInFlightMpdu_unexpired [OF assms(2,3) this assms(6) st, of l]
  have same: "orig_at i s = (orig_at i s)\<lparr>oe_queue := kept @ p # rest\<rparr>"
    using assms(2) by (simp add: queue_at_def)
  have st': "status (GetInFlightLinkIds (b_mpdu s p)) \<noteq> STAY_INFLIGHT
      \<longleftrightarrow> status (GetInFlightLinkIds (b_mpdu s p)) = TO_RETRANSMIT"
    using st by (cases "status (GetInFlightLinkIds (b_mpdu s p))") simp_all
  show ?thesis
    unfolding step using assms(1) same
    by (auto simp: settled_def stays_def is_old_def seq_of_def hdr_of_def fun_eq_iff)
qed

lemma settle_spec:
  assumes "i < length (m_originatorAgreements s)" "queue_at i s = kept @ rest" "distinct rest"
    and "\<forall>p \<in> set rest. flight_hdr_ok i s p \<and> seqno (seq_of s p) \<and> unexpired v s p"
    and "seqno (tx_start (oe_agreement (orig_at i s)))" "\<And>ls. status ls \<noteq> ACKNOWLEDGED"
  shows "\<exists>s'. settle v l status notify i (length rest) s =
        Some (s', if notify
                  then length (filter (\<lambda>p. status (GetInFlightLinkIds (b_mpdu s p)) = TO_RETRANSMIT) rest) else 0)
     \<and> b_mpdu s' = (\<lambda>p. if p \<in> set rest then settled status l (oe_agreement (orig_at i s)) (b_mpdu s p)
                        else b_mpdu s p)
     \<and> orig_at i s' = (orig_at i s)\<lparr>oe_queue := kept
          @ filter (\<lambda>p. stays status (oe_agreement (orig_at i s)) (b_mpdu s p)) rest\<rparr>"
  using assms(1-5)
proof (induction rest arbitrary: kept s)
  case Nil
  then show ?case
    by (simp add: settle.simps queue_at_def)
next
  case (Cons p rest)
  let ?st = "status (GetInFlightLinkIds (b_mpdu s p))"
  define failed where "failed = (notify \<and> ?st = TO_RETRANSMIT)"
  define t where "t = report_if failed (TxFailed p) s"
  have t: "b_mpdu t = b_mpdu s" "orig_at i t = orig_at i s" "key_at i t = key_at i s"
    "length (m_originatorAgreements t) = length (m_originatorAgreements s)" "queue_at i t = queue_at i s"
    by (simp_all add: t_def report_if_def queue_at_def)
  have ok: "flight_hdr_ok i t q = flight_hdr_ok i s q" "seq_of t q = seq_of s q"
    "unexpired v t q = unexpired v s q" for q
    using t by (simp_all add: flight_hdr_ok_def hdr_of_def seq_of_def unexpired_def)
  obtain u where u: "HandleInFlightMpdu v l ?st i (Suc (length rest)) t = Some (u, length rest)"
    "b_mpdu u = (b_mpdu s)(p := settled status l (oe_agreement (orig_at i s)) (b_mpdu s p))"
    "key_at i u = key_at i s" "length (m_originatorAgreements u) = length (m_originatorAgreements s)"
    "orig_at i u = (orig_at i s)\<lparr>oe_queue :=
       (if stays status (oe_agreement (orig_at i s)) (b_mpdu s p) then kept @ [p] else kept) @ rest\<rparr>"
    using settle_step [of i t kept p rest v status l] Cons.prems assms(6) t ok by auto
  let ?kept = "if stays status (oe_agreement (orig_at i s)) (b_mpdu s p) then kept @ [p] else kept"
  have other: "b_mpdu u q = b_mpdu s q" if "q \<in> set rest" for q
    using that u(2) Cons.prems(3) by auto
  have rest: "flight_hdr_ok i u q \<and> seqno (seq_of u q) \<and> unexpired v u q" if "q \<in> set rest" for q
    using that other [OF that] u(3) Cons.prems(4)
    by (simp add: flight_hdr_ok_def hdr_of_def seq_of_def unexpired_def)
  have fails: "filter (\<lambda>q. status (GetInFlightLinkIds (b_mpdu u q)) = TO_RETRANSMIT) rest
      = filter (\<lambda>q. status (GetInFlightLinkIds (b_mpdu s q)) = TO_RETRANSMIT) rest"
    by (rule filter_cong) (simp_all add: other)
  have staying: "filter (\<lambda>q. stays status (oe_agreement (orig_at i s)) (b_mpdu u q)) rest
      = filter (\<lambda>q. stays status (oe_agreement (orig_at i s)) (b_mpdu s q)) rest"
    by (rule filter_cong) (simp_all add: other)
  have agr: "oe_agreement (orig_at i u) = oe_agreement (orig_at i s)"
    by (simp add: u(5))
  obtain s' where s': "settle v l status notify i (length rest) u =
        Some (s', if notify
                  then length (filter (\<lambda>q. status (GetInFlightLinkIds (b_mpdu s q)) = TO_RETRANSMIT) rest) else 0)"
    "b_mpdu s' = (\<lambda>q. if q \<in> set rest then settled status l (oe_agreement (orig_at i s)) (b_mpdu u q)
                        else b_mpdu u q)"
    "orig_at i s' = (orig_at i u)\<lparr>oe_queue := ?kept
          @ filter (\<lambda>q. stays status (oe_agreement (orig_at i s)) (b_mpdu s q)) rest\<rparr>"
    using Cons.IH [of u ?kept] Cons.prems u(4,5) rest unfolding fails staying agr
    by (auto simp: queue_at_def)
  have el: "elem_at i (Suc (length rest)) s = p" "\<not> length (queue_at i s) < Suc (length rest)"
    using Cons.prems(2) by (simp_all add: elem_at_def)
  have "settle v l status notify i (length (p # rest)) s =
      map_option (\<lambda>(s'', n). (s'', if failed then Suc n else n)) (settle v l status notify i (length rest) u)"
    using u(1) el by (subst settle.simps) (simp add: Let_def t_def failed_def)
  moreover have "b_mpdu s' = (\<lambda>q. if q \<in> set (p # rest)
      then settled status l (oe_agreement (orig_at i s)) (b_mpdu s q) else b_mpdu s q)"
    using s'(2) u(2) Cons.prems(3) other by (auto simp: fun_eq_iff)
  ultimately show ?case
    using s'(1,3) u(5) by (auto simp: failed_def)
qed

section \<open>A Block Ack settles the MPDUs in flight\<close>

definition in_flight_ok :: "nat \<Rightarrow> bam \<Rightarrow> bool" where
  "in_flight_ok i s \<longleftrightarrow>
     i < length (m_originatorAgreements s)
     \<and> IsEstablished (oe_agreement (orig_at i s)) \<and> tx_window_ok (oe_agreement (orig_at i s))
     \<and> distinct (queue_at i s)
     \<and> (\<forall>p \<in> set (queue_at i s). flight_hdr_ok i s p \<and> flight_seq (oe_agreement (orig_at i s)) (seq_of s p))"

lemma restart_inactivity_frame:
  "b_mpdu (restart_inactivity n r t g i s) = b_mpdu s"
  "key_at j (restart_inactivity n r t g i s) = key_at j s"
  "length (m_originatorAgreements (restart_inactivity n r t g i s)) = length (m_originatorAgreements s)"
  "oe_agreement (orig_at j (restart_inactivity n r t g i s)) = oe_agreement (orig_at j s)"
  "queue_at j (restart_inactivity n r t g i s) = queue_at j s"
proof -
  have key: "key_at j (s\<lparr>b_events := e, b_nextEvent := n\<rparr>) = key_at j s"
    "orig_at j (s\<lparr>b_events := e, b_nextEvent := n\<rparr>) = orig_at j s"
    "key_at j (s\<lparr>b_events := e\<rparr>) = key_at j s" "orig_at j (s\<lparr>b_events := e\<rparr>) = orig_at j s" for s e n
    by (simp_all add: key_at_def orig_at_def)
  show "b_mpdu (restart_inactivity n r t g i s) = b_mpdu s"
    "key_at j (restart_inactivity n r t g i s) = key_at j s"
    "length (m_originatorAgreements (restart_inactivity n r t g i s)) = length (m_originatorAgreements s)"
    "oe_agreement (orig_at j (restart_inactivity n r t g i s)) = oe_agreement (orig_at j s)"
    "queue_at j (restart_inactivity n r t g i s) = queue_at j s"
    by (simp_all add: restart_inactivity_def ScheduleInactivity_def EventCancel_def Let_def key
        orig_at_on_orig queue_at_def)
qed

lemma two_passes:
  assumes ok: "in_flight_ok i s"
    and rcv: "\<And>p. p \<in> set (queue_at i s) \<Longrightarrow> received (m_seqSeq (hdr_of s p)) = Some (rcv p)"
    and live: "\<And>p. p \<in> set (queue_at i s) \<Longrightarrow> \<not> rcv p \<Longrightarrow> unexpired v s p"
  shows "\<exists>t s' k. take_acked v l received i (length (queue_at i s)) s = Some (t, filter rcv (queue_at i s))
    \<and> (let u = DequeueIfQueued (filter rcv (queue_at i s)) t; a' = oe_agreement (orig_at i s')
       in settle v l (got_ba_status l) True i (length (queue_at i u)) u
            = Some (s', length (filter (\<lambda>p. \<not> rcv p \<and> GetInFlightLinkIds (b_mpdu s p) = {l}) (queue_at i s)))
        \<and> acked_exactly (oe_agreement (orig_at i s)) (seq_of s ` {p \<in> set (queue_at i s). rcv p}) a' k
        \<and> queue_at i s' = filter (\<lambda>p. \<not> rcv p \<and> stays (got_ba_status l) a' (b_mpdu s p)) (queue_at i s)
        \<and> b_mpdu s' = (\<lambda>p. if p \<notin> set (queue_at i s) then b_mpdu s p
                           else if rcv p then (b_mpdu s p)\<lparr>bm_queued := False\<rparr>
                           else settled (got_ba_status l) l a' (b_mpdu s p)))"
proof -
  let ?q = "queue_at i s" and ?a = "oe_agreement (orig_at i s)"
  have i: "i < length (m_originatorAgreements s)" and a: "tx_window_ok ?a" and dist: "distinct ?q"
    and hdrs: "\<And>p. p \<in> set ?q \<Longrightarrow> flight_hdr_ok i s p \<and> flight_seq ?a (seq_of s p)"
    using ok by (simp_all add: in_flight_ok_def)
  obtain a' k where a': "ack_all (map (seq_of s) (filter rcv ?q)) ?a = Some a'"
    "acked_exactly ?a (set (map (seq_of s) (filter rcv ?q))) a' k"
    using ack_all_exactly [OF a acked_exactly_refl [OF a], of "map (seq_of s) (filter rcv ?q)"] hdrs by auto
  obtain t where t: "take_acked v l received i (length ?q) s = Some (t, filter rcv ?q)"
    "b_mpdu t = b_mpdu s" "key_at i t = key_at i s"
    "length (m_originatorAgreements t) = length (m_originatorAgreements s)"
    "orig_at i t = (orig_at i s)\<lparr>oe_agreement := a', oe_queue := [] @ filter (\<lambda>p. \<not> rcv p) ?q\<rparr>"
    using take_acked_spec [OF i _ rcv a'(1), of "[]" v l] by auto
  define u where "u = DequeueIfQueued (filter rcv ?q) t"
  have u: "b_mpdu u = (\<lambda>p. if p \<in> set ?q \<and> rcv p then (b_mpdu s p)\<lparr>bm_queued := False\<rparr> else b_mpdu s p)"
    "key_at i u = key_at i s" "length (m_originatorAgreements u) = length (m_originatorAgreements s)"
    "oe_agreement (orig_at i u) = a'" "queue_at i u = filter (\<lambda>p. \<not> rcv p) ?q"
    using t(2-5) by (auto simp: u_def queue_at_def fun_eq_iff)
  have same: "b_mpdu u p = b_mpdu s p" if "\<not> rcv p" for p
    using that u(1) by simp
  have start: "seqno (tx_start a')"
    using a'(2) tx_window_okD(5) by (simp add: acked_exactly_def tx_moved_def)
  have hdrs': "\<forall>p \<in> set (queue_at i u). flight_hdr_ok i u p \<and> seqno (seq_of u p) \<and> unexpired v u p"
  proof
    fix p
    assume "p \<in> set (queue_at i u)"
    then have "p \<in> set ?q" "\<not> rcv p"
      using u(5) by simp_all
    with hdrs [of p] same [of p] u(2) live [of p]
    show "flight_hdr_ok i u p \<and> seqno (seq_of u p) \<and> unexpired v u p"
      by (simp add: flight_hdr_ok_def hdr_of_def seq_of_def flight_seq_def unexpired_def)
  qed
  have noack: "got_ba_status l ls \<noteq> ACKNOWLEDGED" for ls
    by (simp add: got_ba_status_def)
  have iu: "i < length (m_originatorAgreements u)" and dist': "distinct (queue_at i u)"
    and start': "seqno (tx_start (oe_agreement (orig_at i u)))"
    using i dist start u(3-5) by simp_all
  have q0: "queue_at i u = [] @ queue_at i u"
    by simp
  note pass2 = settle_spec [where status = "got_ba_status l" and notify = True and l = l and rest = "queue_at i u",
      OF iu q0 dist' hdrs' start' noack, unfolded u(4) if_True]
  obtain s' where s': "settle v l (got_ba_status l) True i (length (queue_at i u)) u
      = Some (s', length (filter (\<lambda>p. got_ba_status l (GetInFlightLinkIds (b_mpdu u p)) = TO_RETRANSMIT) (queue_at i u)))"
    "b_mpdu s' = (\<lambda>p. if p \<in> set (queue_at i u) then settled (got_ba_status l) l a' (b_mpdu u p) else b_mpdu u p)"
    "orig_at i s' = (orig_at i u)\<lparr>oe_queue := [] @ filter (\<lambda>p. stays (got_ba_status l) a' (b_mpdu u p)) (queue_at i u)\<rparr>"
    using pass2 by (elim exE conjE) (rule that, assumption+)
  have fails: "filter (\<lambda>p. got_ba_status l (GetInFlightLinkIds (b_mpdu u p)) = TO_RETRANSMIT) (queue_at i u)
      = filter (\<lambda>p. \<not> rcv p \<and> GetInFlightLinkIds (b_mpdu s p) = {l}) ?q"
    unfolding u(5) filter_filter
    by (rule filter_cong [OF refl]) (simp add: got_ba_status_def same cong: conj_cong)
  have staying: "filter (\<lambda>p. stays (got_ba_status l) a' (b_mpdu u p)) (queue_at i u)
      = filter (\<lambda>p. \<not> rcv p \<and> stays (got_ba_status l) a' (b_mpdu s p)) ?q"
    unfolding u(5) filter_filter by (rule filter_cong [OF refl]) (simp add: same cong: conj_cong)
  have agr: "oe_agreement (orig_at i s') = a'"
    using s'(3) u(4) by simp
  have acks: "set (map (seq_of s) (filter rcv ?q)) = seq_of s ` {p \<in> set ?q. rcv p}"
    by auto
  have final: "b_mpdu s' = (\<lambda>p. if p \<notin> set ?q then b_mpdu s p else if rcv p then (b_mpdu s p)\<lparr>bm_queued := False\<rparr>
                           else settled (got_ba_status l) l a' (b_mpdu s p))"
    unfolding s'(2) u(5) by (auto simp: fun_eq_iff u(1))
  have queue: "queue_at i s' = filter (\<lambda>p. \<not> rcv p \<and> stays (got_ba_status l) a' (b_mpdu s p)) ?q"
    using s'(3) unfolding staying by (simp add: queue_at_def)
  show ?thesis
    by (rule exI [of _ t], rule exI [of _ s'], rule exI [of _ k])
      (simp only: Let_def u_def [symmetric] agr t(1) s'(1) fails a'(2) [unfolded acks] queue final simp_thms)
qed

text \<open>
  Property C22: a Block Ack settles the MPDUs in flight under the agreement, in one pass over those
  it acknowledges and one over the others, if the lifetime of none of the others that is still in the
  EDCA queue has expired.  The call returns with the number of MPDUs acknowledged and of those that
  failed, which were in flight on the link of the Block Ack alone.  The acknowledged sequence numbers
  of the window are exactly those recorded, and the window moves past acknowledged ones only.  The
  acknowledged MPDUs leave the queue of the agreement and the EDCA queue.  Of the others, those that
  are not in the EDCA queue any more and those that have become old by the move of the window leave
  the queue of the agreement, and the old ones the EDCA queue, too; those in flight on another link
  stay as they are; the rest leaves the queue of the agreement with the Retry bit set, no longer in
  flight on this link.
\<close>

theorem block_ack_settles_in_flight:
  assumes "GetOriginatorBaAgreement recipient tid None s = Some i" "in_flight_ok i s"
    and "block_ack_tid blockAck tids index = Some tid"
    and "m_baVariant blockAck \<in> {BA_COMPRESSED, BA_EXTENDED_COMPRESSED, BA_MULTI_STA}"
    and "\<And>p. p \<in> set (queue_at i s) \<Longrightarrow> IsPacketReceived (m_seqSeq (hdr_of s p)) index blockAck = Some (rcv p)"
    and "\<And>p. p \<in> set (queue_at i s) \<Longrightarrow> \<not> rcv p \<Longrightarrow> bm_queued (b_mpdu s p) \<Longrightarrow> ve_now v \<le> bm_expiry (b_mpdu s p)"
  shows "\<exists>s' k. bam_NotifyGotBlockAck v l blockAck recipient tids index s
      = Some (s', length (filter rcv (queue_at i s)),
              length (filter (\<lambda>p. \<not> rcv p \<and> GetInFlightLinkIds (b_mpdu s p) = {l}) (queue_at i s)))
    \<and> (let a' = oe_agreement (orig_at i s')
       in acked_exactly (oe_agreement (orig_at i s)) (seq_of s ` {p \<in> set (queue_at i s). rcv p}) a' k
          \<and> queue_at i s' = filter (\<lambda>p. \<not> rcv p \<and> stays (got_ba_status l) a' (b_mpdu s p)) (queue_at i s)
          \<and> b_mpdu s' = (\<lambda>p. if p \<notin> set (queue_at i s) then b_mpdu s p
                             else if rcv p then (b_mpdu s p)\<lparr>bm_queued := False\<rparr>
                             else settled (got_ba_status l) l a' (b_mpdu s p)))"
proof -
  define t where "t = restart_inactivity (ve_now v) recipient tid None i s"
  note frame = restart_inactivity_frame [where n = "ve_now v" and r = recipient and t = tid and g = None
      and i = i and s = s, folded t_def]
  have hdrs: "hdr_of t = hdr_of s" "seq_of t = seq_of s"
    by (simp_all add: fun_eq_iff hdr_of_def seq_of_def frame)
  have ok: "in_flight_ok i t"
    using assms(2) by (simp add: in_flight_ok_def frame hdrs flight_hdr_ok_def)
  have rcv: "IsPacketReceived (m_seqSeq (hdr_of t p)) index blockAck = Some (rcv p)" if "p \<in> set (queue_at i t)" for p
    using that assms(5) by (simp add: frame hdrs)
  have live: "unexpired v t p" if "p \<in> set (queue_at i t)" "\<not> rcv p" for p
    using that assms(6) by (simp add: frame unexpired_def)
  have est: "IsEstablished (oe_agreement (orig_at i s))"
    using assms(2) by (simp add: in_flight_ok_def)
  obtain u s' k where passes: "take_acked v l (\<lambda>seq. IsPacketReceived seq index blockAck) i (length (queue_at i t)) t
      = Some (u, filter rcv (queue_at i t))"
    "let w = DequeueIfQueued (filter rcv (queue_at i t)) u; a' = oe_agreement (orig_at i s')
       in settle v l (got_ba_status l) True i (length (queue_at i w)) w
            = Some (s', length (filter (\<lambda>p. \<not> rcv p \<and> GetInFlightLinkIds (b_mpdu t p) = {l}) (queue_at i t)))
        \<and> acked_exactly (oe_agreement (orig_at i t)) (seq_of t ` {p \<in> set (queue_at i t). rcv p}) a' k
        \<and> queue_at i s' = filter (\<lambda>p. \<not> rcv p \<and> stays (got_ba_status l) a' (b_mpdu t p)) (queue_at i t)
        \<and> b_mpdu s' = (\<lambda>p. if p \<notin> set (queue_at i t) then b_mpdu t p
                           else if rcv p then (b_mpdu t p)\<lparr>bm_queued := False\<rparr>
                           else settled (got_ba_status l) l a' (b_mpdu t p))"
    using two_passes [OF ok, of "\<lambda>seq. IsPacketReceived seq index blockAck" rcv v l] rcv live by blast
  have variant: "m_baVariant blockAck \<noteq> BA_BASIC" "m_baVariant blockAck \<noteq> BA_MULTI_TID"
    using assms(4) by auto
  have "bam_NotifyGotBlockAck v l blockAck recipient tids index s
      = Some (s', length (filter rcv (queue_at i t)),
          length (filter (\<lambda>p. \<not> rcv p \<and> GetInFlightLinkIds (b_mpdu t p) = {l}) (queue_at i t)))"
    using passes assms(1,3,4) variant est
    by (simp add: bam_NotifyGotBlockAck_def agreed_def t_def [symmetric] Let_def)
  with passes(2) show ?thesis
    unfolding Let_def frame hdrs by blast
qed

text \<open>
  A station with an agreement whose window starts at 4094, two MPDUs in flight on link 0 with the
  sequence numbers 4094 and 0, and a Block Ack that reports the first one.
\<close>

definition ex_mpdu :: "u16 \<Rightarrow> bam_mpdu" where
  "ex_mpdu seq =
     \<lparr>bm_hdr = mac_hdr_default\<lparr>m_ctrlType := TYPE_DATA, m_ctrlSubtype := 8, m_addr1 := 1, m_seqSeq := seq,
                  m_seqFrag := 0, m_qosTid := 0\<rparr>,
      bm_msduDestination = 1, bm_queued = True, bm_expiry = 500, bm_links = {0}\<rparr>"

definition ex_bam :: bam where
  "ex_bam =
     \<lparr>m_originatorAgreements =
        [((1, 0), \<lparr>oe_agreement = ex_originator, oe_queue = [0, 1], oe_inactivity = Some 0\<rparr>)],
      m_recipientAgreements = [], m_sendBarIfDataQueued = [], m_gcrBlockAcks = [],
      b_mpdu = (\<lambda>p. ex_mpdu (if p = 0 then 4094 else 0)), b_ctlQueue = (\<lambda>_. []),
      b_events = [(0, 1000, 1, 0, None)], b_nextEvent = 1, b_calls = []\<rparr>"

definition ex_block_ack :: ba_hdr where
  "ex_block_ack =
     \<lparr>m_baAckPolicy = False, m_baVariant = BA_COMPRESSED, m_bitmapLen = [8], ba_tidInfo = 0,
      m_baInfo = [\<lparr>m_aidTidInfo = 0, bi_startingSeq = 4094, m_bitmap = [1, 0, 0, 0, 0, 0, 0, 0], m_address = 0\<rparr>]\<rparr>"

definition ex_env :: bam_env where
  "ex_env = \<lparr>ve_now = 100, ve_expired = (\<lambda>_. False), ve_memory =
     \<lparr>m_barAckPolicy = False, m_barType = BAR_BASIC, bar_tidInfo = 0, bar_startingSeq = 0, m_gcrAddress = 0\<rparr>\<rparr>"

lemma ex_bam_simps:
  "queue_at 0 ex_bam = [0, 1]" "oe_agreement (orig_at 0 ex_bam) = ex_originator" "key_at 0 ex_bam = (1, 0)"
  "hdr_of ex_bam p = bm_hdr (ex_mpdu (if p = 0 then 4094 else 0))"
  "seq_of ex_bam p = (if p = 0 then 4094 else 0)" "length (m_originatorAgreements ex_bam) = 1"
  by (simp_all add: queue_at_def orig_at_def key_at_def hdr_of_def seq_of_def ex_bam_def ex_mpdu_def)

lemma ex_mpdu_hdr:
  "IsQosData (bm_hdr (ex_mpdu n))" "m_qosTid (bm_hdr (ex_mpdu n)) = 0" "m_addr1 (bm_hdr (ex_mpdu n)) = 1"
  "m_seqSeq (bm_hdr (ex_mpdu n)) = n" "m_seqFrag (bm_hdr (ex_mpdu n)) = 0" "bm_queued (ex_mpdu n)"
  "bm_expiry (ex_mpdu n) = 500" "GetInFlightLinkIds (ex_mpdu n) = {0}"
  by (simp_all add: ex_mpdu_def GetInFlightLinkIds_def IsQosData_def)

lemma ex_bam_ok: "in_flight_ok 0 ex_bam"
  using ex_originator_ok
  by (auto simp: in_flight_ok_def ex_bam_simps flight_hdr_ok_def ex_mpdu_hdr flight_seq_def seqno_def
      in_tx_window_def seq_dist_def IsEstablished_def)
    (simp_all add: ex_originator_def ex_bam_def ex_mpdu_hdr)

lemma ex_block_ack_received:
  "IsPacketReceived 4094 0 ex_block_ack = Some True" "IsPacketReceived 0 0 ex_block_ack = Some False"
  "block_ack_tid ex_block_ack [0] 0 = Some 0" "m_baVariant ex_block_ack = BA_COMPRESSED"
  by (code_simp)+

lemma ex_bam_lookup: "GetOriginatorBaAgreement 1 0 None ex_bam = Some 0" "b_mpdu ex_bam 0 = ex_mpdu 4094"
  "b_mpdu ex_bam (Suc 0) = ex_mpdu 0"
  by (simp_all add: GetOriginatorBaAgreement_def ex_bam_def oe_gcr_def ex_originator_def)

theorem block_ack_settles_in_flight_witness:
  "\<exists>s'. bam_NotifyGotBlockAck ex_env 0 ex_block_ack 1 [0] 0 ex_bam = Some (s', 1, 1)"
proof -
  have "IsPacketReceived (m_seqSeq (hdr_of ex_bam p)) 0 ex_block_ack = Some (p = 0)"
    if "p \<in> set (queue_at 0 ex_bam)" for p
    using that ex_block_ack_received by (auto simp: ex_bam_simps ex_mpdu_hdr)
  moreover have "ve_now ex_env \<le> bm_expiry (b_mpdu ex_bam p)" for p
    by (simp add: ex_env_def ex_bam_def ex_mpdu_hdr)
  ultimately have "\<exists>s' k. bam_NotifyGotBlockAck ex_env 0 ex_block_ack 1 [0] 0 ex_bam
      = Some (s', length (filter (\<lambda>p. p = 0) (queue_at 0 ex_bam)),
              length (filter (\<lambda>p. p \<noteq> 0 \<and> GetInFlightLinkIds (b_mpdu ex_bam p) = {0}) (queue_at 0 ex_bam)))"
    using block_ack_settles_in_flight [OF ex_bam_lookup(1) ex_bam_ok ex_block_ack_received(3),
        of "\<lambda>p. p = 0" ex_env 0] by (auto simp: ex_block_ack_received)
  then show ?thesis
    by (auto simp: ex_bam_simps ex_bam_lookup ex_mpdu_hdr ex_block_ack_received)
qed

end
