(* ===== verification/Block_Ack_Queue.thy ===== *)
theory Block_Ack_Queue
  imports Block_Ack_Manager_Props Header_Codec
begin

text \<open>
  The queue of MPDUs in flight under an agreement: storing an MPDU keeps it in the order of the
  sequence numbers, and discarding one leaves no old MPDU and one Block Ack Request that asks the
  recipient to move on.
\<close>

section \<open>The order of the queue\<close>

text \<open>
  The place of an MPDU in the order: its distance from the start of the window, then its fragment
  number, of four bits.
\<close>

definition seq_place :: "originator \<Rightarrow> mac_hdr \<Rightarrow> nat" where
  "seq_place a h = 16 * seq_dist (unat (m_seqSeq h)) (tx_start a) + unat (m_seqFrag h)"

definition seq_hdr_ok :: "mac_hdr \<Rightarrow> bool" where
  "seq_hdr_ok h \<longleftrightarrow> fits 12 (m_seqSeq h) \<and> fits 4 (m_seqFrag h)"

definition in_order :: "originator \<Rightarrow> bam \<Rightarrow> nat list \<Rightarrow> bool" where
  "in_order a s q \<longleftrightarrow>
     (\<forall>p \<in> set q. seq_hdr_ok (hdr_of s p) \<and> seq_place a (hdr_of s p) < 16 * 2048)
     \<and> sorted_wrt (<) (map (\<lambda>p. seq_place a (hdr_of s p)) q)"

lemma fits_less: "fits n x \<Longrightarrow> unat x < 2 ^ n"
  unfolding fits_def by (metis unsigned_take_bit_eq take_bit_nat_less_exp)

lemma seq_hdr_okD:
  assumes "seq_hdr_ok h"
  shows "seqno (unat (m_seqSeq h))" "unat (m_seqFrag h) < 16"
  using assms fits_less [of 12 "m_seqSeq h"] fits_less [of 4 "m_seqFrag h"]
  by (simp_all add: seq_hdr_ok_def seqno_def)

lemma GetSequenceControl_eq:
  assumes "seq_hdr_ok h" "seq_hdr_ok h'"
  shows "GetSequenceControl h = GetSequenceControl h' \<longleftrightarrow> m_seqSeq h = m_seqSeq h' \<and> m_seqFrag h = m_seqFrag h'"
proof -
  have parts: "ucast (GetSequenceControl h AND mask 4) = m_seqFrag h"
    "drop_bit 4 (GetSequenceControl h) AND mask 12 = m_seqSeq h" if "seq_hdr_ok h" for h
  proof -
    have low: "bit (m_seqSeq h) n \<Longrightarrow> n < 12" "bit (m_seqFrag h) n \<Longrightarrow> n < 4" for n
      using that fits_bit by (auto simp: seq_hdr_ok_def)
    have b: "bit (GetSequenceControl h) n \<longleftrightarrow> n < 16 \<and> (4 \<le> n \<and> bit (m_seqSeq h) (n - 4) \<or> bit (m_seqFrag h) n)" for n
      by (auto simp: GetSequenceControl_def bit_simps)
    show "ucast (GetSequenceControl h AND mask 4) = m_seqFrag h"
      by (rule bit_word_eqI) (auto simp: bit_simps b dest: low)
    show "drop_bit 4 (GetSequenceControl h) AND mask 12 = m_seqSeq h"
      by (rule bit_word_eqI) (auto simp: bit_simps b dest: low)
  qed
  show ?thesis
  proof
    assume "GetSequenceControl h = GetSequenceControl h'"
    then show "m_seqSeq h = m_seqSeq h' \<and> m_seqFrag h = m_seqFrag h'"
      using parts [OF assms(1)] parts [OF assms(2)] by metis
  qed (simp add: GetSequenceControl_def)
qed

text \<open>Places compare as pairs of a distance and a fragment number.\<close>

lemma place_arith:
  fixes d e f g :: nat
  assumes "f < 16" "g < 16"
  shows "16 * d + f = 16 * e + g \<longleftrightarrow> d = e \<and> f = g"
    and "16 * d + f < 16 * e + g \<longleftrightarrow> d < e \<or> e = d \<and> f < g"
  using assms by (cases d e rule: linorder_cases; simp)+

text \<open>Two MPDUs have the same place if and only if their Sequence Control fields are equal.\<close>

lemma seq_place_eq:
  assumes "seq_hdr_ok h" "seq_hdr_ok h'" "tx_window_ok a"
  shows "seq_place a h = seq_place a h' \<longleftrightarrow> GetSequenceControl h = GetSequenceControl h'"
proof -
  note ok = seq_hdr_okD [OF assms(1)] seq_hdr_okD [OF assms(2)] tx_window_okD(5) [OF assms(3)]
  have "seq_place a h = seq_place a h' \<longleftrightarrow>
      seq_dist (unat (m_seqSeq h)) (tx_start a) = seq_dist (unat (m_seqSeq h')) (tx_start a)
      \<and> unat (m_seqFrag h) = unat (m_seqFrag h')"
    using ok(2,4) unfolding seq_place_def by (rule place_arith(1))
  then show ?thesis
    using ok by (simp add: seq_dist_inj GetSequenceControl_eq [OF assms(1,2),
        unfolded word_unat_eq_iff [of "m_seqSeq h"] word_unat_eq_iff [of "m_seqFrag h"]])
qed

section \<open>An MPDU is stored\<close>

lemma distance_of_eq:
  assumes "tx_window_ok (oe_agreement (orig_at i s))" "seqno (seq_of s p)"
  shows "distance_of i s p = Some (seq_dist (seq_of s p) (tx_start (oe_agreement (orig_at i s))))"
  using assms by (simp add: distance_of_def orig_GetDistance_ok)

lemma store_back_eq:
  assumes a: "tx_window_ok (oe_agreement (orig_at i s))" and p: "seq_hdr_ok (hdr_of s p)"
    and qs: "\<forall>q \<in> set qs. seq_hdr_ok (hdr_of s q)"
    and sorted: "sorted_wrt (>) (map (\<lambda>q. seq_place (oe_agreement (orig_at i s)) (hdr_of s q)) qs)"
  shows "store_back i s p (seq_dist (seq_of s p) (tx_start (oe_agreement (orig_at i s)))) qs =
    (let place = \<lambda>q. seq_place (oe_agreement (orig_at i s)) (hdr_of s q)
     in Some (if place p \<in> place ` set qs then None
              else Some (filter (\<lambda>q. place p < place q) qs @ p # filter (\<lambda>q. place q < place p) qs)))"
  using qs sorted
proof (induction qs)
  case (Cons q qs)
  let ?a = "oe_agreement (orig_at i s)"
  let ?place = "\<lambda>q. seq_place ?a (hdr_of s q)"
  have q: "seq_hdr_ok (hdr_of s q)"
    using Cons.prems(1) by simp
  have d: "distance_of i s q = Some (seq_dist (seq_of s q) (tx_start ?a))"
    using distance_of_eq [OF a] seq_hdr_okD(1) [OF q] by (simp add: seq_of_def)
  have less: "seq_dist (seq_of s q) (tx_start ?a) < seq_dist (seq_of s p) (tx_start ?a)
      \<or> seq_dist (seq_of s p) (tx_start ?a) = seq_dist (seq_of s q) (tx_start ?a)
        \<and> m_seqFrag (hdr_of s p) > m_seqFrag (hdr_of s q) \<longleftrightarrow> ?place q < ?place p"
    using seq_hdr_okD(2) [OF p] seq_hdr_okD(2) [OF q]
    unfolding seq_place_def seq_of_def word_less_nat_alt by (simp only: place_arith(2))
  have below: "\<forall>r \<in> set qs. ?place r < ?place q"
    using Cons.prems(2) by simp
  consider "?place p = ?place q" | "?place q < ?place p" | "?place p < ?place q"
    by linarith
  then show ?case
  proof cases
    case 1
    then show ?thesis
      using seq_place_eq [OF p q a] by (simp add: Let_def)
  next
    case 2
    then have "?place p \<notin> ?place ` set (q # qs)" "filter (\<lambda>r. ?place p < ?place r) (q # qs) = []"
      "filter (\<lambda>r. ?place r < ?place p) (q # qs) = q # qs"
      using below by (force simp: filter_empty_conv filter_id_conv)+
    then show ?thesis
      using 2 less d seq_place_eq [OF p q a] by (simp add: Let_def)
  next
    case 3
    then show ?thesis
      using Cons less d seq_place_eq [OF p q a] by (auto simp: Let_def)
  qed
qed simp

lemma sorted_insert_at:
  fixes f :: "'a \<Rightarrow> nat"
  assumes "sorted_wrt (<) (map f xs)"
  shows "sorted_wrt (<) (map f (filter (\<lambda>x. f x < f p) xs @ p # filter (\<lambda>x. f p < f x) xs))"
  using assms by (auto simp: sorted_wrt_append sorted_wrt_map sorted_wrt_filter)

lemma DoStorePacket_eq:
  assumes i: "i < length (m_originatorAgreements s)"
    and ag: "GetOriginatorBaAgreement recipient (unat (m_qosTid (hdr_of s p))) g s = Some i"
    and a: "tx_window_ok (oe_agreement (orig_at i s))"
    and q: "in_order (oe_agreement (orig_at i s)) s (queue_at i s)"
    and p: "IsQosData (hdr_of s p)" "seq_hdr_ok (hdr_of s p)"
    and d: "seq_dist (seq_of s p) (tx_start (oe_agreement (orig_at i s))) < 2048"
  shows "DoStorePacket p recipient g s =
    (let place = \<lambda>q. seq_place (oe_agreement (orig_at i s)) (hdr_of s q)
     in if place p \<in> place ` set (queue_at i s) then Some s
        else on_agreement i (NotifyTransmittedMpdu (seq_of s p))
               (set_queue i (filter (\<lambda>q. place q < place p) (queue_at i s)
                               @ p # filter (\<lambda>q. place p < place q) (queue_at i s)) s))"
proof -
  have dp: "distance_of i s p = Some (seq_dist (seq_of s p) (tx_start (oe_agreement (orig_at i s))))"
    using distance_of_eq [OF a] seq_hdr_okD(1) [OF p(2)] by (simp add: seq_of_def)
  have rq: "\<forall>q \<in> set (rev (queue_at i s)). seq_hdr_ok (hdr_of s q)"
    "sorted_wrt (>) (map (\<lambda>q. seq_place (oe_agreement (orig_at i s)) (hdr_of s q)) (rev (queue_at i s)))"
    using q by (simp_all add: in_order_def rev_map [symmetric] sorted_wrt_rev)
  show ?thesis
    using dp d p(1) ag store_back_eq [OF a p(2) rq]
    by (simp add: DoStorePacket_def GetQosTid_def Let_def queue_at_def rev_filter)
qed

text \<open>
  Property C27: storing an MPDU that is not older than the window never fails and keeps the MPDUs in
  flight in the order of their sequence numbers and fragments, each at most once: the MPDU is in the
  queue afterwards, none has left it, and the window has moved so that it covers the MPDU if it was
  not in the queue before.
\<close>

theorem store_packet_keeps_order:
  assumes "i < length (m_originatorAgreements s)"
    and "GetOriginatorBaAgreement (m_addr1 (hdr_of s p)) (unat (m_qosTid (hdr_of s p))) None s = Some i"
    and "tx_window_ok (oe_agreement (orig_at i s))"
    and "in_order (oe_agreement (orig_at i s)) s (queue_at i s)"
    and "IsQosData (hdr_of s p)" "seq_hdr_ok (hdr_of s p)"
    and "seq_dist (seq_of s p) (tx_start (oe_agreement (orig_at i s))) < 2048"
  shows "\<exists>s'. StorePacket p s = Some s' \<and> b_mpdu s' = b_mpdu s
    \<and> in_order (oe_agreement (orig_at i s)) s' (queue_at i s')
    \<and> (if \<exists>q \<in> set (queue_at i s). GetSequenceControl (hdr_of s q) = GetSequenceControl (hdr_of s p)
       then s' = s
       else set (queue_at i s') = insert p (set (queue_at i s))
            \<and> in_tx_window (oe_agreement (orig_at i s')) (seq_of s p))"
proof -
  let ?a = "oe_agreement (orig_at i s)" and ?q = "queue_at i s"
  define place where "place = (\<lambda>q. seq_place ?a (hdr_of s q))"
  note eq = DoStorePacket_eq [OF assms, folded place_def]
  have q: "\<And>q. q \<in> set ?q \<Longrightarrow> seq_hdr_ok (hdr_of s q) \<and> place q < 16 * 2048" "sorted_wrt (<) (map place ?q)"
    using assms(4) by (simp_all add: in_order_def place_def)
  have same: "place p \<in> place ` set ?q
      \<longleftrightarrow> (\<exists>q \<in> set ?q. GetSequenceControl (hdr_of s q) = GetSequenceControl (hdr_of s p))"
  proof -
    have "place p = place q \<longleftrightarrow> GetSequenceControl (hdr_of s q) = GetSequenceControl (hdr_of s p)"
      if "q \<in> set ?q" for q
      using seq_place_eq [OF assms(6) _ assms(3)] q(1) [OF that] by (auto simp: place_def)
    then show ?thesis
      by auto
  qed
  show ?thesis
  proof (cases "place p \<in> place ` set ?q")
    case True
    then have "StorePacket p s = Some s"
      using eq by (simp add: StorePacket_def Let_def place_def)
    with True same assms(4) show ?thesis
      by auto
  next
    case False
    define new where "new = filter (\<lambda>q. place q < place p) ?q @ p # filter (\<lambda>q. place p < place q) ?q"
    obtain a' where a': "NotifyTransmittedMpdu (seq_of s p) ?a = Some a'" "in_tx_window a' (seq_of s p)"
      using NotifyTransmittedMpdu_spec [OF assms(3) _ assms(7)] seq_hdr_okD(1) [OF assms(6)]
      by (metis hdr_of_def seq_of_def)
    define s' where "s' = on_orig i (\<lambda>e. e\<lparr>oe_agreement := a'\<rparr>) (set_queue i new s)"
    have step: "StorePacket p s = Some s'"
      using False eq a'(1) assms(1) by (simp add: StorePacket_def Let_def s'_def on_agreement_def new_def place_def)
    have s': "b_mpdu s' = b_mpdu s" "queue_at i s' = new" "oe_agreement (orig_at i s') = a'"
      using assms(1) by (simp_all add: s'_def queue_at_def orig_at_on_orig)
    have hdr: "hdr_of s' = hdr_of s"
      using s'(1) by (simp add: hdr_of_def fun_eq_iff)
    have sets: "set new = insert p (set ?q)"
      using False by (auto simp: new_def)
    have "place p < 16 * 2048"
      using assms(7) seq_hdr_okD(2) [OF assms(6)] by (simp add: place_def seq_place_def seq_of_def)
    then have "in_order ?a s' new"
      using q sorted_insert_at [OF q(2), of p] sets assms(6)
      unfolding in_order_def hdr new_def [symmetric] by (auto simp: place_def)
    with step s' sets a'(2) False same show ?thesis
      by auto
  qed
qed

text \<open>An MPDU with the sequence number 4095 goes between the two in the queue.\<close>

definition ex_bam3 :: bam where
  "ex_bam3 = ex_bam\<lparr>b_mpdu := (b_mpdu ex_bam)(2 := ex_mpdu 4095)\<rparr>"

lemma ex_bam3_simps:
  "queue_at 0 ex_bam3 = [0, 1]" "oe_agreement (orig_at 0 ex_bam3) = ex_originator"
  "length (m_originatorAgreements ex_bam3) = 1" "GetOriginatorBaAgreement r t g ex_bam3 = GetOriginatorBaAgreement r t g ex_bam"
  "hdr_of ex_bam3 p = bm_hdr (ex_mpdu (if p = 2 then 4095 else if p = 0 then 4094 else 0))"
  by (simp_all add: ex_bam3_def ex_bam_def queue_at_def orig_at_def GetOriginatorBaAgreement_def hdr_of_def)

lemma ex_bam3_in_order: "in_order ex_originator ex_bam3 [0, 1]"
  by (simp add: in_order_def ex_bam3_simps seq_hdr_ok_def ex_mpdu_hdr seq_place_def ex_originator_ok
      seq_dist_def fits_def take_bit_eq_mod)

theorem store_packet_keeps_order_witness:
  "\<exists>s'. StorePacket 2 ex_bam3 = Some s' \<and> set (queue_at 0 s') = {0, 1, 2}
     \<and> in_order ex_originator s' (queue_at 0 s')"
  using store_packet_keeps_order [of 0 ex_bam3 2] ex_bam3_in_order ex_originator_ok ex_bam_lookup(1)
  by (auto simp: ex_bam3_simps ex_mpdu_hdr seq_hdr_ok_def fits_def take_bit_eq_mod seq_of_def seq_dist_def
      GetSequenceControl_def insert_commute)

section \<open>An MPDU is discarded\<close>

lemma NotifyDiscardedMpdu_in_window:
  assumes a: "tx_window_ok a" and s: "seqno t" and d: "in_tx_window a t"
  obtains a' k where "NotifyDiscardedMpdu t a = Some a'" "tx_moved a a' k"
    "seq_dist t (tx_start a) < k" "k \<le> tx_size a"
proof -
  let ?d = "seq_dist t (tx_start a)"
  note wf = tx_window_okD [OF a]
  have dw: "?d < tx_size a"
    using d by (simp add: in_tx_window_def)
  then have n: "?d + 1 < 3072"
    using wf(4) by simp
  obtain w' k where w': "AdvanceTxWindow (baw_Advance (?d + 1) (m_txWindow a)) = Some w'"
    "tx_moved a (a\<lparr>m_txWindow := w'\<rparr>) k" "?d + 1 \<le> k"
    "\<And>u. seqno u \<Longrightarrow> ?d + 1 \<le> seq_dist u (tx_start a) \<Longrightarrow> seq_dist u (tx_start a) < k \<Longrightarrow> acked a u"
    using slide_and_advance [OF a n] by metis
  have "k \<le> tx_size a"
  proof (rule ccontr)
    assume k: "\<not> k \<le> tx_size a"
    let ?u = "seq_add (tx_start a) (tx_size a)"
    have "seqno ?u" "seq_dist ?u (tx_start a) = tx_size a"
      using wf(4,5) by (simp_all add: seq_dist_add)
    then show False
      using w'(4) [of ?u] k dw acked_in_window [of a ?u] by (simp add: in_tx_window_def)
  qed
  moreover have "NotifyDiscardedMpdu t a = Some (a\<lparr>m_txWindow := w'\<rparr>)"
    using a s dw wf(4) w'(1) by (simp add: NotifyDiscardedMpdu_def orig_GetDistance_ok)
  ultimately show thesis
    using that w'(2,3) by simp
qed

text \<open>What the search for an agreement depends on.\<close>

definition lookup_keys :: "bam \<Rightarrow> (ba_key \<times> mac48 option) list" where
  "lookup_keys s = map (\<lambda>(k, e). (k, oe_gcr e)) (m_originatorAgreements s)"

lemma mm_find_keys:
  "mm_find gcr k g m = mm_find id k g (map (\<lambda>(k, v). (k, gcr v)) m)"
  by (induction m) (auto simp: option.map_comp)

lemma GetOriginatorBaAgreement_keys:
  "lookup_keys s = lookup_keys s' \<Longrightarrow> GetOriginatorBaAgreement r t g s = GetOriginatorBaAgreement r t g s'"
  by (simp add: GetOriginatorBaAgreement_def mm_find_keys [of oe_gcr] lookup_keys_def)

lemma lookup_keys_on_orig:
  assumes "oe_gcr (f (orig_at i s)) = oe_gcr (orig_at i s)"
  shows "lookup_keys (on_orig i f s) = lookup_keys s"
proof (cases "i < length (m_originatorAgreements s)")
  case True
  then show ?thesis
    using assms
    by (simp add: lookup_keys_def on_orig_def mm_set_def map_update orig_at_def split_beta list_update_same_conv)
next
  case False
  then show ?thesis
    by (simp add: lookup_keys_def on_orig_def mm_set_def list_update_beyond)
qed

lemma lookup_keys_simps [simp]:
  "lookup_keys (call c s) = lookup_keys s" "lookup_keys (DequeueIfQueued ps s) = lookup_keys s"
  "lookup_keys (set_queue i q s) = lookup_keys s"
  using lookup_keys_on_orig [of "\<lambda>e. e\<lparr>oe_queue := q\<rparr>" i s]
  by (simp_all add: call_def DequeueIfQueued_def lookup_keys_def set_queue_def oe_gcr_def)

lemma ctlQueue_simps [simp]:
  "b_ctlQueue (call c s) = b_ctlQueue s" "b_ctlQueue (DequeueIfQueued ps s) = b_ctlQueue s"
  "b_ctlQueue (set_queue i q s) = b_ctlQueue s"
  by (simp_all add: call_def DequeueIfQueued_def set_queue_def)

lemma is_old_seq: "is_old a (b_mpdu s p) \<longleftrightarrow> 2048 \<le> seq_dist (seq_of s p) (tx_start a)"
  by (simp add: is_old_def seq_of_def hdr_of_def)

lemma drop_old_spec:
  assumes "i < length (m_originatorAgreements s)" "tx_window_ok (oe_agreement (orig_at i s))"
    and "\<forall>p \<in> set ps. seqno (seq_of s p)"
  shows "\<exists>s'. drop_old i ps s = Some s' \<and> lookup_keys s' = lookup_keys s \<and> key_at i s' = key_at i s
    \<and> b_ctlQueue s' = b_ctlQueue s
    \<and> orig_at i s' = (orig_at i s)\<lparr>oe_queue := dropWhile (\<lambda>p. is_old (oe_agreement (orig_at i s)) (b_mpdu s p)) ps\<rparr>
    \<and> b_mpdu s' = (\<lambda>p. if p \<in> set (takeWhile (\<lambda>p. is_old (oe_agreement (orig_at i s)) (b_mpdu s p)) ps)
                       then (b_mpdu s p)\<lparr>bm_queued := False\<rparr> else b_mpdu s p)"
  using assms
proof (induction ps arbitrary: s)
  case Nil
  then show ?case
    by simp
next
  case (Cons p ps)
  let ?a = "oe_agreement (orig_at i s)"
  have d: "distance_of i s p = Some (seq_dist (seq_of s p) (tx_start ?a))"
    using Cons.prems distance_of_eq by simp
  show ?case
  proof (cases "is_old ?a (b_mpdu s p)")
    case False
    then show ?thesis
      using Cons.prems(1) d by (simp add: is_old_seq)
  next
    case True
    let ?t = "call (DroppedOldMpdu p) (DequeueIfQueued [p] s)"
    have seq: "seq_of ?t q = seq_of s q" "is_old ?a (b_mpdu ?t q) = is_old ?a (b_mpdu s q)" for q
      by (simp_all add: seq_of_def hdr_of_def is_old_def)
    have "\<exists>s'. drop_old i ps ?t = Some s' \<and> lookup_keys s' = lookup_keys ?t \<and> key_at i s' = key_at i ?t
      \<and> b_ctlQueue s' = b_ctlQueue ?t
      \<and> orig_at i s' = (orig_at i ?t)\<lparr>oe_queue := dropWhile (\<lambda>p. is_old (oe_agreement (orig_at i ?t)) (b_mpdu ?t p)) ps\<rparr>
      \<and> b_mpdu s' = (\<lambda>p. if p \<in> set (takeWhile (\<lambda>p. is_old (oe_agreement (orig_at i ?t)) (b_mpdu ?t p)) ps)
                         then (b_mpdu ?t p)\<lparr>bm_queued := False\<rparr> else b_mpdu ?t p)"
      using Cons.prems seq(1) by (intro Cons.IH) simp_all
    then show ?thesis
      using True d unfolding orig_at_simps seq(2)
      by (elim exE conjE, intro exI conjI) (simp_all add: is_old_seq, auto)
  qed
qed

section \<open>The Block Ack Request that follows\<close>

definition is_bar :: "mac48 \<Rightarrow> u8 \<Rightarrow> ctl_item \<Rightarrow> bool" where
  "is_bar recipient tid item \<longleftrightarrow>
     (case ci_bar item of Some h \<Rightarrow> m_addr1 (ci_hdr item) = recipient \<and> bar_GetTidInfo h = tid | None \<Rightarrow> False)"

lemma replace_bar_eq:
  "replace_bar tid r bar items =
    (if \<exists>item \<in> set items. is_bar r tid item
     then let before = takeWhile (\<lambda>item. \<not> is_bar r tid item) items;
              rest = dropWhile (\<lambda>item. \<not> is_bar r tid item) items
          in Some (before @ bar\<lparr>ci_time := ci_time (hd rest)\<rparr> # tl rest)
     else None)"
  by (induction items) (auto simp: is_bar_def Let_def split: option.splits)

lemma ScheduleBar_one:
  assumes "length (filter (is_bar (m_addr1 hdr) (bar_GetTidInfo h)) (b_ctlQueue s (m_addr1 hdr))) \<le> 1"
  shows "\<exists>item. filter (is_bar (m_addr1 hdr) (bar_GetTidInfo h)) (b_ctlQueue (ScheduleBar e n h hdr s) (m_addr1 hdr))
           = [item] \<and> ci_bar item = Some h \<and> ci_hdr item = hdr"
proof -
  let ?P = "is_bar (m_addr1 hdr) (bar_GetTidInfo h)"
  let ?bar = "\<lparr>ci_hdr = hdr, ci_bar = Some h, ci_time = n\<rparr>"
  define items where "items = dropWhile e (b_ctlQueue s (m_addr1 hdr))"
  have bar: "?P (?bar\<lparr>ci_time := t\<rparr>)" "?P ?bar" for t
    by (simp_all add: is_bar_def)
  have "length (filter ?P items) \<le> length (filter ?P (takeWhile e (b_ctlQueue s (m_addr1 hdr)) @ items))"
    by simp
  then have one: "length (filter ?P items) \<le> 1"
    using assms by (simp add: items_def del: filter_append)
  show ?thesis
  proof (cases "\<exists>item \<in> set items. ?P item")
    case True
    let ?before = "takeWhile (\<lambda>item. \<not> ?P item) items" and ?rest = "dropWhile (\<lambda>item. \<not> ?P item) items"
    have ne: "?rest \<noteq> []" and hd: "?P (hd ?rest)"
      using True hd_dropWhile [of "\<lambda>item. \<not> ?P item" items] by (auto simp: dropWhile_eq_Nil_conv)
    have before: "filter ?P ?before = []"
      by (auto simp: filter_empty_conv dest: set_takeWhileD)
    have "filter ?P items = filter ?P ?before @ filter ?P (hd ?rest # tl ?rest)"
      using ne by (metis filter_append list.collapse takeWhile_dropWhile_id)
    then have "filter ?P (tl ?rest) = []"
      using one before hd by simp
    moreover have "b_ctlQueue (ScheduleBar e n h hdr s) (m_addr1 hdr)
        = ?before @ ?bar\<lparr>ci_time := ci_time (hd ?rest)\<rparr> # tl ?rest"
      using True by (simp add: ScheduleBar_def Let_def replace_bar_eq items_def [symmetric])
    ultimately show ?thesis
      using before bar(1) by simp
  next
    case False
    then have "b_ctlQueue (ScheduleBar e n h hdr s) (m_addr1 hdr) = items @ [?bar]"
      by (simp add: ScheduleBar_def Let_def replace_bar_eq items_def [symmetric])
    moreover have "filter ?P items = []"
      using False by (simp add: filter_empty_conv)
    ultimately show ?thesis
      using bar(2) by simp
  qed
qed

section \<open>Discarding leaves no old MPDU\<close>

lemma dropWhile_none:
  assumes "sorted_wrt (\<lambda>x y. P y \<longrightarrow> P x) xs" "y \<in> set (dropWhile P xs)"
  shows "\<not> P y"
  using assms
proof (induction xs)
  case (Cons x xs)
  show ?case
  proof (cases "P x")
    case True
    then have "y \<in> set (dropWhile P xs)"
      using Cons.prems(2) by simp
    moreover have "sorted_wrt (\<lambda>x y. P y \<longrightarrow> P x) xs"
      using Cons.prems(1) by (simp only: sorted_wrt.simps)
    ultimately show ?thesis
      by (rule Cons.IH [rotated])
  next
    case False
    then have "y = x \<or> y \<in> set xs"
      using Cons.prems(2) by simp
    moreover have "\<forall>y \<in> set xs. P y \<longrightarrow> P x"
      using Cons.prems(1) unfolding sorted_wrt.simps by (rule conjunct1)
    ultimately show ?thesis
      using False by blast
  qed
qed simp

lemma old_after_move:
  assumes "tx_window_ok a" "tx_moved a a' k" "k \<le> tx_size a" "seqno t" "seq_dist t (tx_start a) < 2048"
  shows "2048 \<le> seq_dist t (tx_start a') \<longleftrightarrow> seq_dist t (tx_start a) < k"
  using assms tx_window_okD(4,5) [OF assms(1)]
  by (cases "k \<le> seq_dist t (tx_start a)") (simp_all add: tx_moved_def seq_dist_shift seq_dist_shift_less)

lemma bar_tid_roundtrip: "bar_GetTidInfo (bar_SetTidInfo tid h) = tid"
proof -
  have "(ucast (ucast tid :: u16) :: u8) = tid"
    by (rule bit_word_eqI) (simp add: bit_simps)
  then show ?thesis
    by (simp add: bar_GetTidInfo_def bar_SetTidInfo_def)
qed

lemma HandleDiscardedMpdu_moves:
  assumes "i < length (m_originatorAgreements s)" "key_at i s = (recipient, tid)" "tid < 256"
    and "GetOriginatorBaAgreement recipient tid (oe_gcr (orig_at i s)) s = Some i"
    and "IsEstablished (oe_agreement (orig_at i s))" "tx_window_ok (oe_agreement (orig_at i s))"
    and "in_order (oe_agreement (orig_at i s)) s (queue_at i s)"
    and "seqno (seq_of s p)" "in_tx_window (oe_agreement (orig_at i s)) (seq_of s p)"
    and "length (filter (is_bar recipient (of_nat tid)) (b_ctlQueue s recipient)) \<le> 1"
  shows "\<exists>s' n item h. HandleDiscardedMpdu v p (Some i) s = Some s'
    \<and> (let a' = oe_agreement (orig_at i s')
       in tx_window_ok a' \<and> 2048 \<le> seq_dist (seq_of s p) (tx_start a')
          \<and> queue_at i s' = drop n (queue_at i s)
          \<and> (\<forall>q \<in> set (queue_at i s'). \<not> is_old a' (b_mpdu s q))
          \<and> (\<forall>q \<in> set (take n (queue_at i s)). is_old a' (b_mpdu s q) \<and> \<not> bm_queued (b_mpdu s' q))
          \<and> filter (is_bar recipient (of_nat tid)) (b_ctlQueue s' recipient) = [item]
          \<and> ci_bar item = Some h \<and> bar_startingSeq h = of_nat (tx_start a'))"
proof -
  let ?a = "oe_agreement (orig_at i s)" and ?q = "queue_at i s"
  obtain a' k where a': "NotifyDiscardedMpdu (seq_of s p) ?a = Some a'" "tx_moved ?a a' k"
    "seq_dist (seq_of s p) (tx_start ?a) < k" "k \<le> tx_size ?a"
    using NotifyDiscardedMpdu_in_window [OF assms(6,8,9)] by metis
  note wf = tx_window_okD [OF assms(6)]
  have ok': "tx_window_ok a'" and fields: "a' = ?a\<lparr>m_txWindow := m_txWindow a'\<rparr>"
    using a'(2) by (simp_all add: tx_moved_def)
  have dp: "seq_dist (seq_of s p) (tx_start ?a) < 2048"
    using assms(9) wf(4) by (simp add: in_tx_window_def)
  have start: "GetStartingSequence ?a = tx_start ?a" "GetStartingSequence a' = tx_start a'"
    using tx_window_okD(2,3) [OF assms(6)] tx_window_okD(2,3) [OF ok']
    by (simp_all add: GetStartingSequence_def baw_GetWinSize_def tx_size_def tx_start_def)
  define t where "t = on_orig i (\<lambda>e. e\<lparr>oe_agreement := a'\<rparr>) s"
  have gcr: "m_gcrGroupAddress a' = m_gcrGroupAddress ?a"
    by (subst fields) simp
  have t: "orig_at i t = (orig_at i s)\<lparr>oe_agreement := a'\<rparr>" "b_mpdu t = b_mpdu s" "key_at i t = key_at i s"
    "lookup_keys t = lookup_keys s" "b_ctlQueue t = b_ctlQueue s" "i < length (m_originatorAgreements t)"
    using assms(1) gcr by (simp_all add: t_def orig_at_on_orig lookup_keys_on_orig oe_gcr_def)
  have q: "\<And>q. q \<in> set ?q \<Longrightarrow> seq_hdr_ok (hdr_of s q) \<and> seq_place ?a (hdr_of s q) < 16 * 2048"
    "sorted_wrt (<) (map (\<lambda>q. seq_place ?a (hdr_of s q)) ?q)"
    using assms(7) by (simp_all add: in_order_def)
  have seqs: "seqno (seq_of s q) \<and> seq_dist (seq_of s q) (tx_start ?a) < 2048" if "q \<in> set ?q" for q
    using q(1) [OF that] seq_hdr_okD(1) by (auto simp: seq_of_def seq_place_def)
  have seq_t: "seq_of t = seq_of s"
    using t(2) by (simp add: fun_eq_iff seq_of_def hdr_of_def)
  obtain u where u: "drop_old i ?q t = Some u" "lookup_keys u = lookup_keys t" "key_at i u = key_at i t"
    "b_ctlQueue u = b_ctlQueue t"
    "orig_at i u = (orig_at i t)\<lparr>oe_queue := dropWhile (\<lambda>q. is_old a' (b_mpdu t q)) ?q\<rparr>"
    "b_mpdu u = (\<lambda>q. if q \<in> set (takeWhile (\<lambda>q. is_old a' (b_mpdu t q)) ?q)
                       then (b_mpdu t q)\<lparr>bm_queued := False\<rparr> else b_mpdu t q)"
    using drop_old_spec [of i t ?q] t ok' seqs seq_t by auto
  let ?h = "bar_SetStartingSequence (of_nat (tx_start a')) (bar_SetTidInfo (of_nat tid)
      (case oe_gcr (orig_at i s) of
         Some g \<Rightarrow> (bar_SetType BAR_GCR (CtrlBAckRequestHeader (ve_memory v)))\<lparr>m_gcrAddress := g\<rparr>
       | None \<Rightarrow> bar_SetType (GetBlockAckReqType a') (CtrlBAckRequestHeader (ve_memory v))))"
  let ?hdr = "bar_mac_hdr recipient (m_addr2 (hdr_of u p))"
  have bar: "GetBlockAckReqHeader (ve_memory v) recipient tid (oe_gcr (orig_at i u)) u = Some ?h"
    using GetOriginatorBaAgreement_keys [of u s] u(2,5) t(1,4) assms(4) start(2) gcr
    by (auto simp: GetBlockAckReqHeader_def bar_SetGcrGroupAddress_def bar_SetType_def oe_gcr_def
        split: option.splits)
  have parts: "m_addr1 ?hdr = recipient" "bar_GetTidInfo ?h = of_nat tid" "bar_startingSeq ?h = of_nat (tx_start a')"
    using bar_tid_roundtrip
    by (simp_all add: bar_mac_hdr_def SetNoMoreFragments_def SetNoRetry_def SetDsNotFrom_def SetDsNotTo_def
        SetAddr2_def SetAddr1_def bar_SetStartingSequence_def bar_GetTidInfo_def)
  define s' where "s' = ScheduleBar (ve_expired v) (ve_now v) ?h ?hdr u"
  have "QosUtilsIsOldPacket (GetStartingSequence ?a) (seq_of s p) = Some False"
    using dp assms(8) wf(5) start(1) by (simp add: QosUtilsIsOldPacket_def seqno_def seq_dist_def)
  moreover have "on_agreement i (NotifyDiscardedMpdu (seq_of s p)) s = Some t"
    using a'(1) by (simp add: on_agreement_def t_def)
  moreover have "key_at i u = (recipient, tid)" "oe_queue (orig_at i t) = ?q"
    using u(3) t(1,3) assms(2) by (simp_all add: queue_at_def)
  ultimately have step: "HandleDiscardedMpdu v p (Some i) s = Some s'"
    using assms(5) u(1) bar by (simp add: HandleDiscardedMpdu_def Let_def s'_def)
  have s': "b_mpdu s' = b_mpdu u" "orig_at i s' = orig_at i u"
    by (simp_all add: s'_def ScheduleBar_def Let_def orig_at_def)
  obtain item where item: "filter (is_bar recipient (of_nat tid)) (b_ctlQueue s' recipient) = [item]"
    "ci_bar item = Some ?h"
    using ScheduleBar_one [of ?hdr ?h u "ve_expired v" "ve_now v"] assms(10) u(4) t(5)
    unfolding parts s'_def [symmetric] by auto
  let ?old = "\<lambda>q. is_old a' (b_mpdu s q)" and ?n = "length (takeWhile (\<lambda>q. is_old a' (b_mpdu s q)) ?q)"
  have old: "?old q \<longleftrightarrow> seq_dist (seq_of s q) (tx_start ?a) < k" if "q \<in> set ?q" for q
    using old_after_move [OF assms(6) a'(2,4)] seqs [OF that] by (simp add: is_old_seq)
  have queue: "queue_at i s' = dropWhile ?old ?q"
    using s'(2) u(5) t(2) by (simp add: queue_at_def)
  have down: "?old x" if "x \<in> set ?q" "y \<in> set ?q" "?old y"
    and "seq_place ?a (hdr_of s x) < seq_place ?a (hdr_of s y)" for x y
  proof -
    have "unat (m_seqFrag (hdr_of s x)) < 16" "unat (m_seqFrag (hdr_of s y)) < 16"
      using that(1,2) q(1) seq_hdr_okD(2) by blast+
    then have "seq_dist (seq_of s x) (tx_start ?a) \<le> seq_dist (seq_of s y) (tx_start ?a)"
      using that(4) unfolding seq_place_def seq_of_def by (simp only: place_arith(2)) linarith
    then show ?thesis
      using old [OF that(1)] old [OF that(2)] that(3) by simp
  qed
  have "sorted_wrt (\<lambda>x y. ?old y \<longrightarrow> ?old x) ?q"
    using q(2) unfolding sorted_wrt_map
    by (rule sorted_wrt_mono_rel [rotated]) (rule impI, rule down)
  then have none: "\<forall>q \<in> set (dropWhile ?old ?q). \<not> ?old q"
    by (intro ballI) (rule dropWhile_none)
  have gone: "?old q \<and> \<not> bm_queued (b_mpdu s' q)" if "q \<in> set (take ?n ?q)" for q
  proof -
    have "q \<in> set (takeWhile ?old ?q)"
      using that by (metis takeWhile_eq_take)
    then show ?thesis
      using set_takeWhileD [of q ?old ?q] s'(1) u(6) t(2) by simp
  qed
  have new: "oe_agreement (orig_at i s') = a'"
    using s'(2) u(5) t(1) by simp
  have passed: "2048 \<le> seq_dist (seq_of s p) (tx_start a')"
    using a'(3) old_after_move [OF assms(6) a'(2,4) assms(8) dp]
    by simp
  show ?thesis
    unfolding Let_def
  proof (intro exI conjI)
    show "HandleDiscardedMpdu v p (Some i) s = Some s'"
      by (rule step)
    show "tx_window_ok (oe_agreement (orig_at i s'))" "2048 \<le> seq_dist (seq_of s p) (tx_start (oe_agreement (orig_at i s')))"
      unfolding new by (rule ok', rule passed)
    show "queue_at i s' = drop ?n ?q"
      unfolding queue by (rule dropWhile_eq_drop)
    show "\<forall>q \<in> set (queue_at i s'). \<not> is_old (oe_agreement (orig_at i s')) (b_mpdu s q)"
      unfolding queue new by (rule none)
    show "\<forall>q \<in> set (take ?n ?q). is_old (oe_agreement (orig_at i s')) (b_mpdu s q) \<and> \<not> bm_queued (b_mpdu s' q)"
      unfolding new using gone by blast
    show "filter (is_bar recipient (of_nat tid)) (b_ctlQueue s' recipient) = [item]" "ci_bar item = Some ?h"
      by (rule item)+
    show "bar_startingSeq ?h = of_nat (tx_start (oe_agreement (orig_at i s')))"
      unfolding new by (rule parts)
  qed
qed

text \<open>
  Property C26: discarding an MPDU of the window never fails and moves the window past it.  No MPDU
  that is left in the queue of the agreement is old; those that left it were at its front, are old,
  and have left the EDCA queue.  The queue of control frames then holds exactly one Block Ack Request
  for the agreement, which announces the new start of the window.
\<close>

theorem discarded_mpdu_moves_window:
  assumes "i < length (m_originatorAgreements s)" "key_at i s = (recipient, tid)" "tid < 256"
    and "GetOriginatorBaAgreement recipient tid (oe_gcr (orig_at i s)) s = Some i"
    and "IsEstablished (oe_agreement (orig_at i s))" "tx_window_ok (oe_agreement (orig_at i s))"
    and "in_order (oe_agreement (orig_at i s)) s (queue_at i s)"
    and "seqno (seq_of s p)" "in_tx_window (oe_agreement (orig_at i s)) (seq_of s p)"
    and "length (filter (is_bar recipient (of_nat tid)) (b_ctlQueue s recipient)) \<le> 1"
  shows "\<exists>s' n item h. HandleDiscardedMpdu v p (Some i) s = Some s'
    \<and> (let a' = oe_agreement (orig_at i s')
       in tx_window_ok a' \<and> 2048 \<le> seq_dist (seq_of s p) (tx_start a')
          \<and> queue_at i s' = drop n (queue_at i s)
          \<and> (\<forall>q \<in> set (queue_at i s'). \<not> is_old a' (b_mpdu s q))
          \<and> (\<forall>q \<in> set (take n (queue_at i s)). is_old a' (b_mpdu s q) \<and> \<not> bm_queued (b_mpdu s' q))
          \<and> filter (is_bar recipient (of_nat tid)) (b_ctlQueue s' recipient) = [item]
          \<and> ci_bar item = Some h \<and> bar_startingSeq h = of_nat (tx_start a'))"
  using assms by (rule HandleDiscardedMpdu_moves)

theorem discarded_mpdu_moves_window_witness:
  "\<exists>s' item. HandleDiscardedMpdu ex_env 0 (Some 0) ex_bam = Some s'
     \<and> filter (is_bar 1 0) (b_ctlQueue s' 1) = [item]"
proof -
  have "in_order ex_originator ex_bam [0, 1]"
    by (simp add: in_order_def ex_bam_simps seq_hdr_ok_def ex_mpdu_hdr seq_place_def ex_originator_ok
        seq_dist_def fits_def take_bit_eq_mod)
  moreover have "oe_gcr (orig_at 0 ex_bam) = None" "IsEstablished ex_originator" "b_ctlQueue ex_bam 1 = []"
    by (simp_all add: oe_gcr_def ex_bam_simps) (simp_all add: ex_originator_def IsEstablished_def ex_bam_def)
  ultimately show ?thesis
    using discarded_mpdu_moves_window [of 0 ex_bam 1 0 0 ex_env] ex_originator_ok ex_bam_lookup(1)
    by (auto simp: ex_bam_simps in_tx_window_def seqno_def Let_def)
qed

section \<open>An expired MPDU behind one that stays\<close>

text \<open>
  The first MPDU is in flight on link 0, the second one has expired.  When the Block Ack on link 1 is
  missed, the first MPDU stays; discarding the second one then drops the first as well, and the loop
  would go on from the iterator of an MPDU that has been erased.
\<close>

definition ex_expired :: bam where
  "ex_expired = ex_bam\<lparr>b_mpdu := (b_mpdu ex_bam)(1 := (ex_mpdu 0)\<lparr>bm_expiry := 50\<rparr>)\<rparr>"

lemma ex_expired_simps:
  "queue_at 0 ex_expired = [0, 1]" "oe_agreement (orig_at 0 ex_expired) = ex_originator"
  "key_at 0 ex_expired = (1, 0)" "length (m_originatorAgreements ex_expired) = 1"
  "GetOriginatorBaAgreement 1 0 None ex_expired = Some 0" "hdr_of ex_expired p = hdr_of ex_bam p"
  "seq_of ex_expired p = seq_of ex_bam p" "b_ctlQueue ex_expired 1 = []"
  "b_mpdu ex_expired 0 = ex_mpdu 4094" "b_mpdu ex_expired (Suc 0) = (ex_mpdu 0)\<lparr>bm_expiry := 50\<rparr>"
  using ex_bam_lookup(1)
  by (simp_all add: ex_expired_def ex_bam_def queue_at_def orig_at_def key_at_def hdr_of_def seq_of_def
      GetOriginatorBaAgreement_def ex_mpdu_def)

lemma ex_expired_discard:
  "\<exists>t. TtlExceeded ex_env 1 ex_expired = Some (t, True) \<and> length (queue_at 0 t) < 2"
proof -
  have "in_order ex_originator ex_expired [0, 1]"
    by (simp add: in_order_def ex_expired_simps ex_bam_simps seq_hdr_ok_def ex_mpdu_hdr seq_place_def
        ex_originator_ok seq_dist_def fits_def take_bit_eq_mod)
  moreover have "oe_gcr (orig_at 0 ex_expired) = None" "IsEstablished ex_originator"
    by (simp_all add: oe_gcr_def ex_expired_simps) (simp_all add: ex_originator_def IsEstablished_def)
  ultimately obtain t n where t: "HandleDiscardedMpdu ex_env 1 (Some 0) ex_expired = Some t"
    "queue_at 0 t = drop n [0, 1]" "\<forall>q \<in> set (queue_at 0 t). \<not> is_old (oe_agreement (orig_at 0 t)) (b_mpdu ex_expired q)"
    "2048 \<le> seq_dist (seq_of ex_expired 1) (tx_start (oe_agreement (orig_at 0 t)))"
    using HandleDiscardedMpdu_moves [of 0 ex_expired 1 0 1 ex_env] ex_originator_ok
    by (auto simp: ex_expired_simps ex_bam_simps in_tx_window_def seqno_def seq_dist_def Let_def)
  have "1 \<notin> set (queue_at 0 t)"
    using t(3,4) by (auto simp: is_old_seq)
  then have "length (queue_at 0 t) < 2"
    unfolding t(2) by (cases n rule: nat.exhaust; cases "n - 1") auto
  moreover have "bam_NotifyDiscardedMpdu ex_env 1 ex_expired = Some t"
    using t(1) by (simp add: bam_NotifyDiscardedMpdu_def ex_expired_simps ex_bam_simps ex_mpdu_hdr GetQosTid_def
        IsInFlight_def ex_mpdu_def IsQosData_def mac_IsGroup_def Let_def)
  ultimately show ?thesis
    by (intro exI [of _ "DequeueIfQueued [1] t"])
      (simp add: TtlExceeded_def ex_expired_simps ex_mpdu_hdr ex_env_def queue_at_def)
qed

lemma expired_behind_staying_undefined:
  "bam_NotifyMissedBlockAck ex_env 1 1 0 ex_expired = None"
proof -
  obtain t where t: "TtlExceeded ex_env 1 ex_expired = Some (t, True)" "length (queue_at 0 t) < 2"
    using ex_expired_discard by blast
  have d: "distance_of 0 ex_expired p = Some (seq_dist (seq_of ex_bam p) 4094)" for p
    using distance_of_eq [of 0 ex_expired p] ex_originator_ok
    by (simp add: ex_expired_simps ex_bam_simps seqno_def)
  have "flight_hdr_ok 0 ex_expired 0" "unexpired ex_env ex_expired 0"
    by (simp_all add: flight_hdr_ok_def unexpired_def ex_expired_simps ex_bam_simps ex_mpdu_hdr ex_env_def)
  then have first: "HandleInFlightMpdu ex_env 1 STAY_INFLIGHT 0 (Suc (Suc 0)) ex_expired = Some (ex_expired, Suc 0)"
    using HandleInFlightMpdu_unexpired [of 0 ex_expired "[]" 0 "[1]" 0 ex_env STAY_INFLIGHT 1] d [of 0]
    by (simp add: ex_expired_simps ex_bam_simps ex_mpdu_hdr seq_dist_def)
  have second: "HandleInFlightMpdu ex_env 1 STAY_INFLIGHT 0 (Suc 0) ex_expired = None"
    using t d [of 1]
    by (simp add: HandleInFlightMpdu_def elem_at_def ex_expired_simps ex_bam_simps ex_mpdu_hdr GetQosTid_def
        seq_dist_def Let_def)
  have est: "IsEstablished ex_originator"
    by (simp add: ex_originator_def IsEstablished_def)
  have st: "missed_ba_status 1 {0} = STAY_INFLIGHT"
    by (simp add: missed_ba_status_def)
  have links: "GetInFlightLinkIds (b_mpdu ex_expired (elem_at 0 r ex_expired)) = {0}" if "r = 1 \<or> r = 2" for r
    using that by (auto simp: elem_at_def ex_expired_simps ex_mpdu_def GetInFlightLinkIds_def)
  have "settle ex_env 1 (missed_ba_status 1) False 0 (Suc 0) ex_expired = None"
    using second st links [of 1] by (subst settle.simps) (simp add: ex_expired_simps report_if_def Let_def)
  then have "settle ex_env 1 (missed_ba_status 1) False 0 (Suc (Suc 0)) ex_expired = None"
    using first st links [of 2]
    by (subst settle.simps) (simp add: ex_expired_simps report_if_def Let_def numeral_2_eq_2)
  then show ?thesis
    by (simp add: bam_NotifyMissedBlockAck_def agreed_def ex_expired_simps est)
qed

end
