(* ===== verification/Block_Ack_Table.thy ===== *)
theory Block_Ack_Table
  imports Block_Ack_Manager_Props
begin

text \<open>
  The agreements of a station.  The code keeps those of a role in a multimap by address and TID and
  searches the range of a key for the group address; \<open>ba_map\<close> is the finite map from address, TID
  and group address that this is meant to be, of which the two multimaps are instances.
\<close>

section \<open>The abstract map\<close>

type_synonym ba_id = "ba_key \<times> mac48 option"

locale ba_map =
  fixes lookup :: "'m \<Rightarrow> ba_id \<Rightarrow> 'v option"
    and store :: "ba_key \<Rightarrow> 'v \<Rightarrow> 'm \<Rightarrow> 'm"
    and erase :: "ba_id \<Rightarrow> 'm \<Rightarrow> 'm"
    and group :: "'v \<Rightarrow> mac48 option"
    and invar :: "'m \<Rightarrow> bool"
  assumes lookup_store: "invar m \<Longrightarrow> lookup (store k v m) = (lookup m)((k, group v) \<mapsto> v)"
    and lookup_erase: "invar m \<Longrightarrow> lookup (erase x m) = (lookup m)(x := None)"
    and invar_store: "invar m \<Longrightarrow> invar (store k v m)"
    and invar_erase: "invar m \<Longrightarrow> invar (erase x m)"
begin

lemma lookup_store_same: "invar m \<Longrightarrow> lookup (store k v m) (k, group v) = Some v"
  by (simp add: lookup_store)

lemma lookup_store_other: "invar m \<Longrightarrow> x \<noteq> (k, group v) \<Longrightarrow> lookup (store k v m) x = lookup m x"
  by (simp add: lookup_store)

lemma store_store: "invar m \<Longrightarrow> group v = group w \<Longrightarrow> lookup (store k w (store k v m)) = lookup (store k w m)"
  by (simp add: lookup_store invar_store)

lemma erase_store: "invar m \<Longrightarrow> lookup m (k, group v) = None \<Longrightarrow> lookup (erase (k, group v) (store k v m)) = lookup m"
  by (simp add: lookup_store lookup_erase invar_store fun_upd_idem)

lemma dom_store: "invar m \<Longrightarrow> dom (lookup (store k v m)) = insert (k, group v) (dom (lookup m))"
  by (simp add: lookup_store)

end

section \<open>The multimaps are such maps\<close>

definition tbl :: "('v \<Rightarrow> mac48 option) \<Rightarrow> (ba_key \<times> 'v) list \<Rightarrow> ba_id \<Rightarrow> 'v option" where
  "tbl gcr m = map_of (map (\<lambda>(k, v). ((k, gcr v), v)) m)"

definition mm_ids :: "('v \<Rightarrow> mac48 option) \<Rightarrow> (ba_key \<times> 'v) list \<Rightarrow> ba_id list" where
  "mm_ids gcr m = map (\<lambda>(k, v). (k, gcr v)) m"

definition mm_wf :: "('v \<Rightarrow> mac48 option) \<Rightarrow> (ba_key \<times> 'v) list \<Rightarrow> bool" where
  "mm_wf gcr m \<longleftrightarrow> sorted_wrt key_le (map fst m) \<and> distinct (mm_ids gcr m)"

definition mm_store :: "('v \<Rightarrow> mac48 option) \<Rightarrow> ba_key \<Rightarrow> 'v \<Rightarrow> (ba_key \<times> 'v) list \<Rightarrow> (ba_key \<times> 'v) list" where
  "mm_store gcr k v m =
     (case mm_find gcr k (gcr v) m of Some i \<Rightarrow> mm_set i v m | None \<Rightarrow> mm_emplace k v m)"

definition mm_remove :: "('v \<Rightarrow> mac48 option) \<Rightarrow> ba_id \<Rightarrow> (ba_key \<times> 'v) list \<Rightarrow> (ba_key \<times> 'v) list" where
  "mm_remove gcr x m = (case mm_find gcr (fst x) (snd x) m of Some i \<Rightarrow> mm_erase i m | None \<Rightarrow> m)"

lemma mm_find_Some:
  "mm_find gcr k g m = Some i \<Longrightarrow> i < length m \<and> fst (m ! i) = k \<and> gcr (snd (m ! i)) = g"
  by (induction gcr k g m arbitrary: i rule: mm_find.induct) (auto split: if_splits)

lemma tbl_find: "map_option (\<lambda>i. snd (m ! i)) (mm_find gcr k g m) = tbl gcr m (k, g)"
  by (induction m) (auto simp: tbl_def option.map_comp comp_def)

lemma mm_find_None: "mm_find gcr k g m = None \<longleftrightarrow> (k, g) \<notin> set (mm_ids gcr m)"
proof (induction m)
  case (Cons x m)
  then show ?case
    by (cases x) (auto simp: mm_ids_def split: if_splits)
qed (simp add: mm_ids_def)

lemma set_mm_ids_emplace: "set (mm_ids gcr (mm_emplace k v m)) = insert (k, gcr v) (set (mm_ids gcr m))"
  by (induction k v m rule: mm_emplace.induct) (auto simp: mm_ids_def)

lemma distinct_mm_ids_emplace:
  "distinct (mm_ids gcr (mm_emplace k v m)) \<longleftrightarrow> (k, gcr v) \<notin> set (mm_ids gcr m) \<and> distinct (mm_ids gcr m)"
proof (induction k v m rule: mm_emplace.induct)
  case (2 k v k' v' m)
  then show ?case
    using set_mm_ids_emplace [of gcr k v m] by (auto simp: mm_ids_def)
qed (simp add: mm_ids_def)

lemma set_mm_emplace: "set (mm_emplace k v m) = insert (k, v) (set m)"
  by (induction k v m rule: mm_emplace.induct) auto

lemma key_le_linear: "\<not> key_le k l \<Longrightarrow> key_le l k" "\<not> key_le k l \<Longrightarrow> key_le k j \<Longrightarrow> key_le l j"
  by (auto simp: key_le_def)

lemma mm_emplace_sorted:
  "sorted_wrt key_le (map fst m) \<Longrightarrow> sorted_wrt key_le (map fst (mm_emplace k v m))"
  by (induction k v m rule: mm_emplace.induct)
    (auto simp: set_mm_emplace intro: key_le_linear)

lemma mm_emplace_wf:
  assumes "mm_wf gcr m" "(k, gcr v) \<notin> set (mm_ids gcr m)"
  shows "mm_wf gcr (mm_emplace k v m)"
  using assms by (simp add: mm_wf_def mm_emplace_sorted distinct_mm_ids_emplace)

lemma tbl_emplace:
  assumes "(k, gcr v) \<notin> set (mm_ids gcr m)"
  shows "tbl gcr (mm_emplace k v m) = (tbl gcr m)((k, gcr v) \<mapsto> v)"
  using assms by (induction k v m rule: mm_emplace.induct) (auto simp: tbl_def mm_ids_def fun_upd_twist)

lemma mm_set_ids:
  assumes "i < length m" "gcr v = gcr (snd (m ! i))"
  shows "mm_ids gcr (mm_set i v m) = mm_ids gcr m" and "map fst (mm_set i v m) = map fst m"
  using assms by (simp_all add: mm_ids_def mm_set_def map_update split_beta list_update_same_conv)

lemma tbl_set:
  "mm_find gcr k (gcr v) m = Some i \<Longrightarrow> tbl gcr (mm_set i v m) = (tbl gcr m)((k, gcr v) \<mapsto> v)"
proof (induction m arbitrary: i)
  case (Cons x m)
  obtain k' v' where x: "x = (k', v')"
    by fastforce
  show ?case
  proof (cases "k' = k \<and> gcr v' = gcr v")
    case True
    then show ?thesis
      using Cons.prems x by (auto simp: tbl_def mm_set_def fun_eq_iff)
  next
    case False
    then obtain j where j: "mm_find gcr k (gcr v) m = Some j" "i = Suc j"
      using Cons.prems x by auto
    have "mm_set i v (x # m) = x # mm_set j v m"
      using j by (simp add: mm_set_def)
    then show ?thesis
      using Cons.IH [OF j(1)] False x by (auto simp: tbl_def fun_upd_twist)
  qed
qed simp

lemma tbl_erase:
  assumes "distinct (mm_ids gcr m)" "mm_find gcr k g m = Some i"
  shows "tbl gcr (mm_erase i m) = (tbl gcr m)((k, g) := None)"
  using assms
proof (induction m arbitrary: i)
  case (Cons x m)
  obtain k' v' where x: "x = (k', v')"
    by fastforce
  show ?case
  proof (cases "k' = k \<and> gcr v' = g")
    case True
    then have "(k, g) \<notin> set (mm_ids gcr m)"
      using Cons.prems(1) x by (auto simp: mm_ids_def)
    then have "tbl gcr m (k, g) = None"
      unfolding tbl_find [symmetric] by (simp add: mm_find_None)
    then show ?thesis
      using True Cons.prems x by (auto simp: tbl_def mm_erase_def fun_eq_iff)
  next
    case False
    then obtain j where j: "mm_find gcr k g m = Some j" "i = Suc j"
      using Cons.prems x by auto
    have "mm_erase i (x # m) = x # mm_erase j m"
      using j by (simp add: mm_erase_def)
    then show ?thesis
      using Cons.IH [OF _ j(1)] Cons.prems(1) False x by (auto simp: tbl_def fun_upd_twist mm_ids_def)
  qed
qed simp

lemma sorted_wrt_without: "sorted_wrt P xs \<Longrightarrow> sorted_wrt P (take i xs @ drop (Suc i) xs)"
proof (induction xs arbitrary: i)
  case (Cons x xs)
  then show ?case
    by (cases i) (auto dest: in_set_takeD in_set_dropD)
qed simp

lemma distinct_without: "distinct xs \<Longrightarrow> distinct (take i xs @ drop (Suc i) xs)"
proof (induction xs arbitrary: i)
  case (Cons x xs)
  then show ?case
    by (cases i) (auto dest: in_set_takeD in_set_dropD)
qed simp

lemma mm_erase_wf: "mm_wf gcr m \<Longrightarrow> mm_wf gcr (mm_erase i m)"
  using sorted_wrt_without [of key_le "map fst m" i] distinct_without [of "mm_ids gcr m" i]
  by (simp add: mm_wf_def mm_erase_def mm_ids_def take_map drop_map)

lemma tbl_store: "tbl gcr (mm_store gcr k v m) = (tbl gcr m)((k, gcr v) \<mapsto> v)"
  by (simp add: mm_store_def tbl_set tbl_emplace mm_find_None split: option.split)

lemma tbl_remove: "mm_wf gcr m \<Longrightarrow> tbl gcr (mm_remove gcr x m) = (tbl gcr m)(x := None)"
proof (cases "mm_find gcr (fst x) (snd x) m")
  case None
  then have "tbl gcr m x = None"
    using tbl_find [of m gcr "fst x" "snd x"] by simp
  then show ?thesis
    using None by (simp add: mm_remove_def fun_upd_idem)
qed (simp add: mm_remove_def mm_wf_def tbl_erase)

lemma mm_store_wf:
  assumes "mm_wf gcr m"
  shows "mm_wf gcr (mm_store gcr k v m)"
proof (cases "mm_find gcr k (gcr v) m")
  case None
  then show ?thesis
    using mm_emplace_wf [OF assms, of k v] mm_find_None [of gcr k "gcr v" m] by (simp add: mm_store_def None)
next
  case (Some i)
  then show ?thesis
    using assms mm_find_Some [OF Some] mm_set_ids [of i m gcr v] by (simp add: mm_store_def mm_wf_def)
qed

lemma mm_remove_wf: "mm_wf gcr m \<Longrightarrow> mm_wf gcr (mm_remove gcr x m)"
  by (simp add: mm_remove_def mm_erase_wf split: option.split)

lemma count_gcr_wf:
  assumes "mm_wf gcr m"
  shows "count_gcr gcr k g m = (if (k, g) \<in> set (mm_ids gcr m) then 1 else 0)"
proof -
  have "count_gcr gcr k g m = (if (k, g) \<in> set (mm_ids gcr m) then 1 else 0)" if "distinct (mm_ids gcr m)"
    using that by (induction m) (auto simp: count_gcr_def mm_ids_def)
  with assms show ?thesis
    by (simp add: mm_wf_def)
qed

lemma mm_ids_store: "(k, gcr v) \<in> set (mm_ids gcr (mm_store gcr k v m))"
  using mm_find_None [of gcr k "gcr v" "mm_store gcr k v m"] tbl_find [of "mm_store gcr k v m" gcr k "gcr v"]
  by (auto simp: tbl_store)

interpretation om: ba_map "tbl oe_gcr" "mm_store oe_gcr" "mm_remove oe_gcr" oe_gcr "mm_wf oe_gcr"
  by unfold_locales (simp_all add: tbl_store tbl_remove mm_store_wf mm_remove_wf)

interpretation rm: ba_map "tbl m_gcrGroupAddress" "mm_store m_gcrGroupAddress" "mm_remove m_gcrGroupAddress"
  m_gcrGroupAddress "mm_wf m_gcrGroupAddress :: (ba_key \<times> nat recipient) list \<Rightarrow> bool"
  by unfold_locales (simp_all add: tbl_store tbl_remove mm_store_wf mm_remove_wf)

section \<open>The operations of the manager on them\<close>

definition agreements :: "bam \<Rightarrow> ba_id \<Rightarrow> orig_entry option" where
  "agreements s = tbl oe_gcr (m_originatorAgreements s)"

definition accepted :: "bam \<Rightarrow> ba_id \<Rightarrow> nat recipient option" where
  "accepted s = tbl m_gcrGroupAddress (m_recipientAgreements s)"

lemma GetAgreementAsOriginator_eq:
  "GetAgreementAsOriginator r t g s = map_option oe_agreement (agreements s ((r, t), g))"
  unfolding agreements_def tbl_find [symmetric]
  by (simp add: GetAgreementAsOriginator_def GetOriginatorBaAgreement_def orig_at_def option.map_comp comp_def)

lemma GetAgreementAsRecipient_eq: "GetAgreementAsRecipient r t g s = accepted s ((r, t), g)"
  unfolding accepted_def tbl_find [symmetric]
  by (simp add: GetAgreementAsRecipient_def GetRecipientBaAgreement_def)

definition requested :: "originator \<Rightarrow> addba \<Rightarrow> mac48 \<Rightarrow> originator" where
  "requested memory h recipient =
     SetState PENDING (gcr_of h (ba_policy_of h (SetHtSupported True (SetAmsduSupport (ab_amsduSupport h)
       (SetTimeout (ab_timeoutValue h) (SetBufferSize (ab_bufferSize h)
         ((OriginatorBlockAckAgreement memory recipient (ab_tid h))\<lparr>m_startingSeq := ab_startingSeq h\<rparr>)))))))"

lemma requested_fields:
  "IsPending (requested memory h r)" "m_peer (requested memory h r) = r" "m_tid (requested memory h r) = ab_tid h"
  "m_bufferSize (requested memory h r) = ab_bufferSize h" "m_timeout (requested memory h r) = ab_timeoutValue h"
  "m_startingSeq (requested memory h r) = ab_startingSeq h"
  "m_gcrGroupAddress (requested memory h r) = ab_gcrGroupAddress h"
  by (simp_all add: requested_def SetState_def gcr_of_def ba_policy_of_def SetHtSupported_def SetAmsduSupport_def
      SetTimeout_def SetBufferSize_def OriginatorBlockAckAgreement_def BlockAckAgreement_def SetGcrGroupAddress_def
      SetImmediateBlockAck_def SetDelayedBlockAck_def IsPending_def split: option.split)

lemma CreateOriginatorAgreement_eq:
  assumes "mm_wf oe_gcr (m_originatorAgreements s)" "ab_startingSeq h < 4096"
    and reset: "\<And>i. GetOriginatorBaAgreement r (ab_tid h) (ab_gcrGroupAddress h) s = Some i
                  \<Longrightarrow> IsReset (oe_agreement (orig_at i s))"
  shows "CreateOriginatorAgreement memory h r s =
    Some (call (BlockPackets (case ab_gcrGroupAddress h of Some g \<Rightarrow> g | None \<Rightarrow> r) (ab_tid h))
      (s\<lparr>m_originatorAgreements := mm_store oe_gcr (r, ab_tid h)
           \<lparr>oe_agreement = requested memory h r, oe_queue = [], oe_inactivity = None\<rparr> (m_originatorAgreements s)\<rparr>))"
proof -
  let ?e = "\<lparr>oe_agreement = requested memory h r, oe_queue = [], oe_inactivity = None\<rparr>"
  let ?m = "mm_store oe_gcr (r, ab_tid h) ?e (m_originatorAgreements s)"
  have g: "oe_gcr ?e = ab_gcrGroupAddress h"
    by (simp add: oe_gcr_def requested_fields)
  have "count_gcr oe_gcr (r, ab_tid h) (ab_gcrGroupAddress h) ?m = 1"
    using count_gcr_wf [OF mm_store_wf [OF assms(1)]] mm_ids_store [of "(r, ab_tid h)" oe_gcr ?e] g by simp
  then show ?thesis
    using assms(2) reset g
    by (auto simp: CreateOriginatorAgreement_def SetStartingSequence_def Let_def requested_def [symmetric]
        mm_store_def GetOriginatorBaAgreement_def on_orig_def split: option.splits)
qed

lemma DestroyOriginatorAgreement_eq:
  "m_originatorAgreements (DestroyOriginatorAgreement r t g s)
     = mm_remove oe_gcr ((r, t), g) (m_originatorAgreements s)"
  by (simp add: DestroyOriginatorAgreement_def GetOriginatorBaAgreement_def mm_remove_def EventCancel_def
      Let_def split: option.split)

text \<open>What the response makes of an agreement that is found.\<close>

definition established :: "addba \<Rightarrow> nat \<Rightarrow> originator \<Rightarrow> originator" where
  "established h startingSeq a =
     SetState ESTABLISHED (gcr_of h (ba_policy_of h (InitTxWindow
       ((SetAmsduSupport (ab_amsduSupport h) (SetTimeout (ab_timeoutValue h)
          (SetBufferSize (ab_bufferSize h) a)))\<lparr>m_startingSeq := startingSeq\<rparr>))))"

lemma established_fields:
  "IsEstablished (established h n a)" "m_bufferSize (established h n a) = ab_bufferSize h"
  "m_timeout (established h n a) = ab_timeoutValue h" "m_amsduSupported (established h n a) = ab_amsduSupport h"
  "m_peer (established h n a) = m_peer a" "m_tid (established h n a) = m_tid a"
  "m_gcrGroupAddress (established h n a)
     = (case ab_gcrGroupAddress h of Some g \<Rightarrow> Some g | None \<Rightarrow> m_gcrGroupAddress a)"
  "m_txWindow (established h n a) = baw_Init n (ab_bufferSize h) (m_txWindow a)"
  by (simp_all add: established_def SetState_def gcr_of_def ba_policy_of_def InitTxWindow_def SetAmsduSupport_def
      SetTimeout_def SetBufferSize_def SetGcrGroupAddress_def SetImmediateBlockAck_def SetDelayedBlockAck_def
      IsEstablished_def split: option.split)

lemma established_window:
  "tx_start (established h n a) = n" "tx_size (established h n a) = ab_bufferSize h" "\<not> acked (established h n a) t"
  by (auto simp: tx_start_def tx_size_def acked_def established_fields baw.flagged_def nth_replicate)

lemma agreements_on_orig:
  assumes "GetOriginatorBaAgreement r t g s = Some i" "oe_gcr (f (orig_at i s)) = g"
  shows "agreements (on_orig i f s) = (agreements s)(((r, t), g) \<mapsto> f (orig_at i s))"
    "mm_wf oe_gcr (m_originatorAgreements s) \<Longrightarrow> mm_wf oe_gcr (m_originatorAgreements (on_orig i f s))"
    "GetOriginatorBaAgreement r t g (on_orig i f s) = Some i"
proof -
  let ?m = "m_originatorAgreements s" and ?e = "f (orig_at i s)"
  have find: "mm_find oe_gcr (r, t) (oe_gcr ?e) ?m = Some i"
    using assms by (simp add: GetOriginatorBaAgreement_def)
  then have store: "m_originatorAgreements (on_orig i f s) = mm_store oe_gcr (r, t) ?e ?m"
    by (simp add: on_orig_def mm_store_def)
  show "agreements (on_orig i f s) = (agreements s)(((r, t), g) \<mapsto> ?e)"
    unfolding agreements_def store using assms(2) by (simp add: tbl_store)
  show "mm_wf oe_gcr ?m \<Longrightarrow> mm_wf oe_gcr (m_originatorAgreements (on_orig i f s))"
    unfolding store by (rule om.invar_store)
  have "mm_find gcr k x (mm_set i v m) = Some i" if "mm_find gcr k x m = Some i" "gcr v = x"
    for gcr :: "orig_entry \<Rightarrow> mac48 option" and k x v m
    using that
  proof (induction m arbitrary: i)
    case (Cons y m)
    then show ?case by (cases y; cases i) (auto simp: mm_set_def split: if_splits)
  qed simp
  from this [OF find, of ?e] assms(2) show "GetOriginatorBaAgreement r t g (on_orig i f s) = Some i"
    by (simp add: GetOriginatorBaAgreement_def on_orig_def)
qed

text \<open>The map of agreements of \<open>s'\<close> is that of \<open>s\<close> updated at one key.\<close>

definition updated_at :: "ba_id \<Rightarrow> originator option \<Rightarrow> bam \<Rightarrow> bam \<Rightarrow> bool" where
  "updated_at x r s s' \<longleftrightarrow> mm_wf oe_gcr (m_originatorAgreements s')
     \<and> (\<forall>p t g. GetAgreementAsOriginator p t g s' = (if ((p, t), g) = x then r else GetAgreementAsOriginator p t g s))"

lemma updated_at_intro:
  assumes "agreements s' = (agreements s)(x := e)" "mm_wf oe_gcr (m_originatorAgreements s')"
  shows "updated_at x (map_option oe_agreement e) s s'"
  using assms by (simp add: updated_at_def GetAgreementAsOriginator_eq)

lemma calls_keep_table:
  "agreements (call c s) = agreements s" "m_originatorAgreements (call c s) = m_originatorAgreements s"
  "agreements (s\<lparr>m_gcrBlockAcks := b\<rparr>) = agreements s"
  "agreements (s\<lparr>b_events := ev, b_nextEvent := n\<rparr>) = agreements s"
  by (simp_all add: agreements_def call_def)

lemma Create_updates:
  assumes "mm_wf oe_gcr (m_originatorAgreements s)" "ab_startingSeq h < 4096"
    and "\<And>a. GetAgreementAsOriginator r (ab_tid h) (ab_gcrGroupAddress h) s = Some a \<Longrightarrow> IsReset a"
  shows "\<exists>s'. CreateOriginatorAgreement memory h r s = Some s'
    \<and> updated_at ((r, ab_tid h), ab_gcrGroupAddress h) (Some (requested memory h r)) s s'"
proof -
  let ?e = "\<lparr>oe_agreement = requested memory h r, oe_queue = [], oe_inactivity = None\<rparr>"
  let ?s = "call (BlockPackets (case ab_gcrGroupAddress h of Some g \<Rightarrow> g | None \<Rightarrow> r) (ab_tid h))
      (s\<lparr>m_originatorAgreements := mm_store oe_gcr (r, ab_tid h) ?e (m_originatorAgreements s)\<rparr>)"
  have reset: "IsReset (oe_agreement (orig_at i s))"
    if "GetOriginatorBaAgreement r (ab_tid h) (ab_gcrGroupAddress h) s = Some i" for i
    using that assms(3) by (simp add: GetAgreementAsOriginator_def)
  note create = CreateOriginatorAgreement_eq [OF assms(1,2) reset, where memory = memory]
  have g: "oe_gcr ?e = ab_gcrGroupAddress h" by (simp add: oe_gcr_def requested_fields)
  have table: "m_originatorAgreements ?s = mm_store oe_gcr (r, ab_tid h) ?e (m_originatorAgreements s)"
    by (simp add: call_def)
  have "agreements ?s = (agreements s)(((r, ab_tid h), ab_gcrGroupAddress h) \<mapsto> ?e)"
    unfolding agreements_def table om.lookup_store [OF assms(1)] g ..
  moreover have "mm_wf oe_gcr (m_originatorAgreements ?s)"
    unfolding table by (rule om.invar_store [OF assms(1)])
  ultimately show ?thesis
    using create updated_at_intro [of ?s s _ "Some ?e"] by auto
qed

lemma Destroy_updates:
  assumes "mm_wf oe_gcr (m_originatorAgreements s)"
  shows "updated_at ((r, t), g) None s (DestroyOriginatorAgreement r t g s)"
proof -
  have "agreements (DestroyOriginatorAgreement r t g s) = (agreements s)(((r, t), g) := None)"
    unfolding agreements_def DestroyOriginatorAgreement_eq by (rule om.lookup_erase [OF assms])
  moreover have "mm_wf oe_gcr (m_originatorAgreements (DestroyOriginatorAgreement r t g s))"
    unfolding DestroyOriginatorAgreement_eq by (rule om.invar_erase [OF assms])
  ultimately show ?thesis using updated_at_intro [of _ s _ None] by simp
qed

lemma Update_updates:
  assumes "mm_wf oe_gcr (m_originatorAgreements s)" "n < 4096"
  shows "\<exists>s'. UpdateOriginatorAgreement now h r n s = Some s'
    \<and> updated_at ((r, ab_tid h), ab_gcrGroupAddress h)
        (map_option (established h n) (GetAgreementAsOriginator r (ab_tid h) (ab_gcrGroupAddress h) s)) s s'"
proof -
  let ?x = "((r, ab_tid h), ab_gcrGroupAddress h)"
  define unblock where "unblock u = (case ab_gcrGroupAddress h of None \<Rightarrow> call (UnblockPackets r (ab_tid h)) u
      | Some g \<Rightarrow> if gcr_established (Some g) u then call (UnblockPackets g (ab_tid h)) u else u)" for u
  have ub: "agreements (unblock u) = agreements u" "m_originatorAgreements (unblock u) = m_originatorAgreements u" for u
    by (simp_all add: unblock_def calls_keep_table split: option.split)
  show ?thesis
  proof (cases "GetOriginatorBaAgreement r (ab_tid h) (ab_gcrGroupAddress h) s")
    case None
    then have "UpdateOriginatorAgreement now h r n s = Some (unblock s)"
      by (simp add: UpdateOriginatorAgreement_def unblock_def split: option.split)
    moreover have none: "agreements s ?x = None"
      using None GetAgreementAsOriginator_eq [of r "ab_tid h" "ab_gcrGroupAddress h" s]
      by (simp add: GetAgreementAsOriginator_def)
    then have "agreements (unblock s) = (agreements s)(?x := None)" by (simp add: ub fun_upd_idem)
    then have "updated_at ?x None s (unblock s)"
      using updated_at_intro [of "unblock s" s ?x None] assms(1) by (simp add: ub)
    ultimately show ?thesis using None by (simp add: GetAgreementAsOriginator_def)
  next
    case (Some i)
    let ?e = "(orig_at i s)\<lparr>oe_agreement := established h n (oe_agreement (orig_at i s))\<rparr>"
    define t where "t = on_orig i (\<lambda>e. e\<lparr>oe_agreement := established h n (oe_agreement (orig_at i s))\<rparr>) s"
    define u where "u = (case ab_gcrGroupAddress h of
        Some g \<Rightarrow> t\<lparr>m_gcrBlockAcks := omap_emplace g [] (m_gcrBlockAcks t)\<rparr> | None \<Rightarrow> t)"
    have "oe_gcr (orig_at i s) = ab_gcrGroupAddress h"
      using Some mm_find_Some [of oe_gcr "(r, ab_tid h)" "ab_gcrGroupAddress h" "m_originatorAgreements s" i]
      by (simp add: GetOriginatorBaAgreement_def orig_at_def)
    then have g: "oe_gcr ?e = ab_gcrGroupAddress h"
      by (simp add: oe_gcr_def established_fields split: option.split)
    note on = agreements_on_orig [OF Some, of "\<lambda>e. e\<lparr>oe_agreement := established h n (oe_agreement (orig_at i s))\<rparr>",
        OF g, folded t_def]
    have u: "agreements u = (agreements s)(?x \<mapsto> ?e)" "mm_wf oe_gcr (m_originatorAgreements u)"
      "GetOriginatorBaAgreement r (ab_tid h) (ab_gcrGroupAddress h) u = Some i"
      using on assms(1) by (auto simp: u_def calls_keep_table GetOriginatorBaAgreement_def split: option.split)
    have e: "oe_agreement (orig_at i u) = established h n (oe_agreement (orig_at i s))"
      using u(1,3) GetAgreementAsOriginator_eq [of r "ab_tid h" "ab_gcrGroupAddress h" u]
      by (simp add: GetAgreementAsOriginator_def)
    define w where "w = (if m_timeout (oe_agreement (orig_at i u)) \<noteq> 0
        then ScheduleInactivity (now + inactivity_delay (oe_agreement (orig_at i u))) r (ab_tid h)
               (ab_gcrGroupAddress h) i u else u)"
    have ge: "oe_gcr ((orig_at i u)\<lparr>oe_inactivity := k\<rparr>) = ab_gcrGroupAddress h" for k
      using g by (simp add: oe_gcr_def e)
    have w: "map_option oe_agreement (agreements w y) = map_option oe_agreement (agreements u y)" for y
      using agreements_on_orig(1) [OF u(3), of "\<lambda>e. e\<lparr>oe_inactivity := Some (b_nextEvent u)\<rparr>", OF ge] u(1) e
      by (auto simp: w_def ScheduleInactivity_def Let_def calls_keep_table)
    have "mm_wf oe_gcr (m_originatorAgreements w)"
      using agreements_on_orig(2) [OF u(3), of "\<lambda>e. e\<lparr>oe_inactivity := Some (b_nextEvent u)\<rparr>", OF ge] u(2) by (simp add: w_def ScheduleInactivity_def Let_def)
    moreover have "UpdateOriginatorAgreement now h r n s = Some (unblock w)"
    proof -
      have "on_agreement i (\<lambda>a. do { a \<leftarrow> SetStartingSequence n (SetAmsduSupport (ab_amsduSupport h)
                 (SetTimeout (ab_timeoutValue h) (SetBufferSize (ab_bufferSize h) a)));
               Some (SetState ESTABLISHED (gcr_of h (ba_policy_of h (InitTxWindow a)))) }) s = Some t"
        using assms(2) by (simp add: on_agreement_def SetStartingSequence_def established_def t_def)
      then show ?thesis
        using Some by (simp add: UpdateOriginatorAgreement_def unblock_def w_def u_def Let_def split: option.split)
    qed
    moreover have "updated_at ?x (Some (established h n (oe_agreement (orig_at i s)))) s (unblock w)"
      using calculation(1) w u(1) by (simp add: updated_at_def ub GetAgreementAsOriginator_eq)
    ultimately show ?thesis using Some by (simp add: GetAgreementAsOriginator_def)
  qed
qed

text \<open>
  Property C28: searched by address, TID and group address, the multimap of agreements is a finite
  map, and each operation changes it at its own key alone.  Creating an agreement never fails unless one
  that is not in the RESET state exists, never trips over the assertion that it is the only one, and
  stores a pending agreement with the parameters of the request.  Establishing one never fails, and
  makes the agreement found, if there is one, an established one with the parameters of the response
  and an empty transmit window at the starting sequence number; without one the map stays as it is.
  Destroying empties the key, whether or not there is an agreement.
\<close>

theorem agreements_refine_map:
  assumes "mm_wf oe_gcr (m_originatorAgreements s)" "ab_startingSeq h < 4096" "n < 4096"
  shows "((\<forall>a. GetAgreementAsOriginator r (ab_tid h) (ab_gcrGroupAddress h) s = Some a \<longrightarrow> IsReset a) \<longrightarrow>
        (\<exists>s' a. CreateOriginatorAgreement memory h r s = Some s'
           \<and> updated_at ((r, ab_tid h), ab_gcrGroupAddress h) (Some a) s s'
           \<and> IsPending a \<and> m_peer a = r \<and> m_tid a = ab_tid h \<and> m_bufferSize a = ab_bufferSize h
           \<and> m_timeout a = ab_timeoutValue h \<and> m_startingSeq a = ab_startingSeq h))
    \<and> (\<exists>s'. UpdateOriginatorAgreement now h' r' n s = Some s'
         \<and> (case GetAgreementAsOriginator r' (ab_tid h') (ab_gcrGroupAddress h') s of
              None \<Rightarrow> updated_at ((r', ab_tid h'), ab_gcrGroupAddress h') None s s'
            | Some a0 \<Rightarrow> \<exists>a. updated_at ((r', ab_tid h'), ab_gcrGroupAddress h') (Some a) s s'
                \<and> IsEstablished a \<and> m_peer a = m_peer a0 \<and> m_tid a = m_tid a0 \<and> m_bufferSize a = ab_bufferSize h'
                \<and> m_timeout a = ab_timeoutValue h' \<and> m_amsduSupported a = ab_amsduSupport h'
                \<and> tx_start a = n \<and> tx_size a = ab_bufferSize h' \<and> (\<forall>t. \<not> acked a t)))
    \<and> updated_at ((x, t), g) None s (DestroyOriginatorAgreement x t g s)"
proof (intro conjI impI)
  assume "\<forall>a. GetAgreementAsOriginator r (ab_tid h) (ab_gcrGroupAddress h) s = Some a \<longrightarrow> IsReset a"
  with Create_updates [OF assms(1,2), of r memory] requested_fields [of memory h r]
  show "\<exists>s' a. CreateOriginatorAgreement memory h r s = Some s'
           \<and> updated_at ((r, ab_tid h), ab_gcrGroupAddress h) (Some a) s s'
           \<and> IsPending a \<and> m_peer a = r \<and> m_tid a = ab_tid h \<and> m_bufferSize a = ab_bufferSize h
           \<and> m_timeout a = ab_timeoutValue h \<and> m_startingSeq a = ab_startingSeq h" by blast
next
  obtain s' where s': "UpdateOriginatorAgreement now h' r' n s = Some s'"
    "updated_at ((r', ab_tid h'), ab_gcrGroupAddress h')
        (map_option (established h' n) (GetAgreementAsOriginator r' (ab_tid h') (ab_gcrGroupAddress h') s)) s s'"
    using Update_updates [OF assms(1,3), of now h' r'] by blast
  then show "\<exists>s'. UpdateOriginatorAgreement now h' r' n s = Some s'
         \<and> (case GetAgreementAsOriginator r' (ab_tid h') (ab_gcrGroupAddress h') s of
              None \<Rightarrow> updated_at ((r', ab_tid h'), ab_gcrGroupAddress h') None s s'
            | Some a0 \<Rightarrow> \<exists>a. updated_at ((r', ab_tid h'), ab_gcrGroupAddress h') (Some a) s s'
                \<and> IsEstablished a \<and> m_peer a = m_peer a0 \<and> m_tid a = m_tid a0 \<and> m_bufferSize a = ab_bufferSize h'
                \<and> m_timeout a = ab_timeoutValue h' \<and> m_amsduSupported a = ab_amsduSupport h'
                \<and> tx_start a = n \<and> tx_size a = ab_bufferSize h' \<and> (\<forall>t. \<not> acked a t))"
    using established_fields [of h' n] established_window [of h' n]
    by (intro exI [of _ s'] conjI) (auto split: option.split)
qed (rule Destroy_updates [OF assms(1)])

text \<open>An agreement for TID 1 next to the one for TID 0.\<close>

definition ex_request :: addba where
  "ex_request = \<lparr>ab_amsduSupport = True, ab_policy = 1, ab_tid = 1, ab_bufferSize = 64, ab_timeoutValue = 0,
     ab_startingSeq = 7, ab_gcrGroupAddress = None\<rparr>"

theorem agreements_refine_map_witness:
  "(\<exists>s'. CreateOriginatorAgreement ex_originator ex_request 1 ex_bam = Some s'
      \<and> GetAgreementAsOriginator 1 0 None s' = Some ex_originator
      \<and> (\<exists>a. GetAgreementAsOriginator 1 1 None s' = Some a \<and> IsPending a))
   \<and> (\<exists>s' a. UpdateOriginatorAgreement 0 (ex_request\<lparr>ab_tid := 0\<rparr>) 1 7 ex_bam = Some s'
      \<and> GetAgreementAsOriginator 1 0 None s' = Some a \<and> IsEstablished a \<and> tx_start a = 7)
   \<and> GetAgreementAsOriginator 1 0 None (DestroyOriginatorAgreement 1 0 None ex_bam) = None"
proof -
  have wf: "mm_wf oe_gcr (m_originatorAgreements ex_bam)"
    by (simp add: ex_bam_def mm_wf_def mm_ids_def)
  have get: "GetAgreementAsOriginator 1 1 None ex_bam = None" "GetAgreementAsOriginator 1 0 None ex_bam = Some ex_originator"
    using ex_bam_simps(2) by (simp_all add: GetAgreementAsOriginator_def GetOriginatorBaAgreement_def ex_bam_def oe_gcr_def
        ex_originator_def)
  have req: "ab_tid ex_request = 1" "ab_gcrGroupAddress ex_request = None" "ab_startingSeq ex_request < 4096"
    by (simp_all add: ex_request_def)
  note T = agreements_refine_map [OF wf req(3), where n = 7 and r = 1 and memory = ex_originator and now = 0
      and h' = "ex_request\<lparr>ab_tid := 0\<rparr>" and r' = 1 and x = 1 and t = 0 and g = None, unfolded req, simplified, unfolded req]
  show ?thesis
  proof (intro conjI)
    show "\<exists>s'. CreateOriginatorAgreement ex_originator ex_request 1 ex_bam = Some s'
      \<and> GetAgreementAsOriginator 1 0 None s' = Some ex_originator
      \<and> (\<exists>a. GetAgreementAsOriginator 1 1 None s' = Some a \<and> IsPending a)"
      using conjunct1 [OF T] get by (auto simp: updated_at_def req)
    show "\<exists>s' a. UpdateOriginatorAgreement 0 (ex_request\<lparr>ab_tid := 0\<rparr>) 1 7 ex_bam = Some s'
      \<and> GetAgreementAsOriginator 1 0 None s' = Some a \<and> IsEstablished a \<and> tx_start a = 7"
      using conjunct1 [OF conjunct2 [OF T]] get by (auto simp: updated_at_def req)
    show "GetAgreementAsOriginator 1 0 None (DestroyOriginatorAgreement 1 0 None ex_bam) = None"
      using conjunct2 [OF conjunct2 [OF T]] by (simp add: updated_at_def)
  qed
qed

end
