(* ===== verification/Block_Ack_Wf.thy ===== *)
theory Block_Ack_Wf
  imports Block_Ack_Table
begin

text \<open>
  The tables of agreements stay well formed whatever happens to the manager: sorted by address and
  TID, at most one agreement for an address, TID and group, and each agreement is for the peer and
  TID under which it is found.
\<close>

section \<open>What identifies the agreements\<close>

definition ba_sig :: "('e \<Rightarrow> 'a ba_agreement_scheme) \<Rightarrow> (ba_key \<times> 'e) list
    \<Rightarrow> (ba_key \<times> mac48 option \<times> mac48 \<times> nat) list" where
  "ba_sig ag m = map (\<lambda>(k, e). (k, m_gcrGroupAddress (ag e), m_peer (ag e), m_tid (ag e))) m"

definition sig_wf :: "(ba_key \<times> mac48 option \<times> mac48 \<times> nat) list \<Rightarrow> bool" where
  "sig_wf xs \<longleftrightarrow> sorted_wrt key_le (map fst xs) \<and> distinct (map (\<lambda>(k, g, _). (k, g)) xs)
     \<and> (\<forall>(k, _, peer, tid) \<in> set xs. (peer, tid) = k)"

definition orig_sig :: "bam \<Rightarrow> (ba_key \<times> mac48 option \<times> mac48 \<times> nat) list" where
  "orig_sig s = ba_sig oe_agreement (m_originatorAgreements s)"

definition recip_sig :: "bam \<Rightarrow> (ba_key \<times> mac48 option \<times> mac48 \<times> nat) list" where
  "recip_sig s = ba_sig id (m_recipientAgreements s)"

definition bam_wf :: "bam \<Rightarrow> bool" where
  "bam_wf s \<longleftrightarrow> sig_wf (orig_sig s) \<and> sig_wf (recip_sig s)"

definition same_sig :: "bam \<Rightarrow> bam \<Rightarrow> bool" where
  "same_sig s s' \<longleftrightarrow> orig_sig s' = orig_sig s \<and> recip_sig s' = recip_sig s"

lemma same_sig_refl [simp]: "same_sig s s"
  by (simp add: same_sig_def)

lemma same_sig_trans [trans]: "same_sig s t \<Longrightarrow> same_sig t u \<Longrightarrow> same_sig s u"
  by (simp add: same_sig_def)

lemma bam_wf_same_sig: "same_sig s s' \<Longrightarrow> bam_wf s \<Longrightarrow> bam_wf s'"
  by (simp add: same_sig_def bam_wf_def)

lemma sig_wf_mm_wf:
  "sig_wf (ba_sig ag m) \<longleftrightarrow> mm_wf (\<lambda>e. m_gcrGroupAddress (ag e)) m \<and> (\<forall>(k, e) \<in> set m. (m_peer (ag e), m_tid (ag e)) = k)"
  by (auto simp: sig_wf_def ba_sig_def mm_wf_def mm_ids_def comp_def case_prod_unfold)

section \<open>Operations that keep them\<close>

definition same_id :: "'a ba_agreement_scheme \<Rightarrow> 'a ba_agreement_scheme \<Rightarrow> bool" where
  "same_id a b \<longleftrightarrow> m_gcrGroupAddress b = m_gcrGroupAddress a \<and> m_peer b = m_peer a \<and> m_tid b = m_tid a"

lemma ba_sig_update:
  assumes "i < length m \<Longrightarrow> same_id (ag (snd (m ! i))) (ag v)"
  shows "ba_sig ag (mm_set i v m) = ba_sig ag m"
proof (cases "i < length m")
  case True
  then show ?thesis
    using assms by (simp add: ba_sig_def mm_set_def map_update split_beta list_update_same_conv same_id_def)
next
  case False
  then show ?thesis
    by (simp add: mm_set_def list_update_beyond)
qed

lemma same_sig_on_orig:
  "same_id (oe_agreement (orig_at i s)) (oe_agreement (f (orig_at i s))) \<Longrightarrow> same_sig s (on_orig i f s)"
  unfolding same_sig_def orig_sig_def recip_sig_def on_orig_def orig_at_def by (simp add: ba_sig_update)

lemma same_sig_on_agreement:
  assumes "on_agreement i f s = Some s'" "\<And>a b. f a = Some b \<Longrightarrow> same_id a b"
  shows "same_sig s s'"
  using assms by (auto simp: on_agreement_def intro!: same_sig_on_orig elim!: bind_SomeE)

lemma same_sig_set_queue [simp]: "same_sig s (set_queue i q s)"
  unfolding set_queue_def by (rule same_sig_on_orig) (simp add: same_id_def)

lemma same_sig_frame [simp]:
  "same_sig s (call c t) \<longleftrightarrow> same_sig s t" "same_sig s (on_mpdu p f t) \<longleftrightarrow> same_sig s t"
  "same_sig s (DequeueIfQueued ps t) \<longleftrightarrow> same_sig s t" "same_sig s (ScheduleBar e n h hdr t) \<longleftrightarrow> same_sig s t"
  "same_sig s (t\<lparr>b_events := ev\<rparr>) \<longleftrightarrow> same_sig s t" "same_sig s (t\<lparr>b_nextEvent := uid\<rparr>) \<longleftrightarrow> same_sig s t"
  "same_sig s (t\<lparr>m_gcrBlockAcks := bs\<rparr>) \<longleftrightarrow> same_sig s t" "same_sig s (t\<lparr>m_sendBarIfDataQueued := l\<rparr>) \<longleftrightarrow> same_sig s t"
  by (simp_all add: same_sig_def orig_sig_def recip_sig_def call_def on_mpdu_def DequeueIfQueued_def ScheduleBar_def Let_def)

lemma orig_same_id:
  "NotifyAckedMpdu n a = Some b \<Longrightarrow> same_id a b" "NotifyTransmittedMpdu n a = Some b \<Longrightarrow> same_id a b"
  "NotifyDiscardedMpdu n a = Some b \<Longrightarrow> same_id a b"
  by (auto simp: NotifyAckedMpdu_def NotifyTransmittedMpdu_def NotifyDiscardedMpdu_def same_id_def
      split: if_splits elim!: bind_SomeE)

lemma same_sig_ScheduleInactivity [simp]: "same_sig s (ScheduleInactivity t r tid g i s)"
  unfolding ScheduleInactivity_def Let_def same_sig_frame
  by (rule same_sig_on_orig) (simp add: same_id_def)

lemma same_sig_restart: "same_sig s (restart_inactivity n r tid g i s)"
proof -
  have "same_sig s (EventCancel u s)" for u
    by (simp add: EventCancel_def)
  from same_sig_trans [OF this same_sig_ScheduleInactivity] show ?thesis
    by (simp add: restart_inactivity_def Let_def)
qed

lemma same_sig_drop_old: "drop_old i ps s = Some s' \<Longrightarrow> same_sig s s'"
proof (induction ps arbitrary: s)
  case (Cons p ps)
  obtain d where d: "distance_of i s p = Some d"
    using Cons.prems by (auto elim: bind_SomeE)
  show ?case
  proof (cases "d \<ge> SEQNO_SPACE_HALF_SIZE")
    case True
    then have "same_sig (call (DroppedOldMpdu p) (DequeueIfQueued [p] s)) s'"
      using Cons d by simp
    then show ?thesis
      by (rule same_sig_trans [rotated]) simp
  next
    case False
    then show ?thesis
      using Cons.prems d by auto
  qed
qed auto

lemma same_sig_HandleDiscardedMpdu:
  assumes "HandleDiscardedMpdu v p iter s = Some s'"
  shows "same_sig s s'"
proof -
  have drop: "same_sig s u"
    if "on_agreement i (NotifyDiscardedMpdu n) s = Some t" "drop_old i q t = Some u" for i n t u q
    using same_sig_on_agreement [OF that(1) orig_same_id(3)] same_sig_drop_old [OF that(2)]
    by (rule same_sig_trans)
  show ?thesis
    using assms
    by (auto simp: HandleDiscardedMpdu_def Let_def split: option.splits if_splits prod.splits
        elim!: bind_SomeE) (erule (1) drop)
qed

lemma same_sig_discard_from_group: "discard_from_group v p tid g is s = Some s' \<Longrightarrow> same_sig s s'"
proof (induction "is" arbitrary: s)
  case (Cons i "is")
  from Cons.prems obtain t where
    t: "(if snd (key_at i s) \<noteq> tid \<or> oe_gcr (orig_at i s) \<noteq> Some g then Some s
         else HandleDiscardedMpdu v p (Some i) s) = Some t"
    and rest: "discard_from_group v p tid g is t = Some s'"
    unfolding discard_from_group.simps by (elim bind_SomeE)
  have "same_sig s t"
    using t by (cases "snd (key_at i s) \<noteq> tid \<or> oe_gcr (orig_at i s) \<noteq> Some g")
      (auto simp: same_sig_HandleDiscardedMpdu split: if_splits)
  with rest Cons.IH show ?case
    using same_sig_trans by blast
qed simp

lemma same_sig_NotifyDiscardedMpdu: "bam_NotifyDiscardedMpdu v p s = Some s' \<Longrightarrow> same_sig s s'"
  by (auto simp: bam_NotifyDiscardedMpdu_def Let_def same_sig_HandleDiscardedMpdu same_sig_discard_from_group
      split: if_splits elim!: bind_SomeE)

lemma same_sig_TtlExceeded: "TtlExceeded v p s = Some (s', b) \<Longrightarrow> same_sig s s'"
  by (auto simp: TtlExceeded_def dest: same_sig_NotifyDiscardedMpdu split: if_splits elim!: bind_SomeE)

lemma same_sig_erase_at: "same_sig s t \<Longrightarrow> same_sig s (erase_at i r t)"
  unfolding erase_at_def Let_def by (rule same_sig_trans [OF _ same_sig_set_queue])

lemma same_sig_HandleInFlightMpdu:
  assumes "HandleInFlightMpdu v l status i r s = Some (s', r')"
  shows "same_sig s s'"
proof -
  have remove: "same_sig s t" if "q_Remove p u = Some t" "same_sig s u" for p u t
    using that by (auto simp: q_Remove_def elim!: bind_SomeE)
  show ?thesis
    using assms
    by (auto simp: HandleInFlightMpdu_def Let_def split_beta intro!: same_sig_erase_at
        split: if_splits elim!: bind_SomeE)
      ((erule same_sig_TtlExceeded | (erule remove, simp))+)
qed

lemma same_sig_report_if [simp]: "same_sig s (report_if b c s)"
  by (simp add: report_if_def)

lemma same_sig_settle: "settle v l status notify i r s = Some (s', n) \<Longrightarrow> same_sig s s'"
proof (induction v l status notify i r s arbitrary: n rule: settle.induct)
  case (1 v l status notify i r s)
  show ?case
  proof (cases "r = 0 \<or> length (queue_at i s) < r")
    case True
    then show ?thesis
      using 1(2) by (subst (asm) settle.simps) auto
  next
    case False
    let ?p = "elem_at i r s"
    let ?st = "status (GetInFlightLinkIds (b_mpdu s ?p))"
    let ?t = "report_if (notify \<and> ?st = TO_RETRANSMIT) (TxFailed ?p) s"
    obtain u r' m where u: "HandleInFlightMpdu v l ?st i r ?t = Some (u, r')" "settle v l status notify i r' u = Some (s', m)"
      using 1(2) False by (subst (asm) settle.simps) (auto simp: Let_def split: option.splits)
    have "same_sig s ?t" "same_sig ?t u"
      using same_sig_HandleInFlightMpdu [OF u(1)] by simp_all
    moreover have "same_sig u s'"
      using 1(1) [OF False refl refl refl u(1) refl u(2)] .
    ultimately show ?thesis
      using same_sig_trans by blast
  qed
qed

lemma same_sig_some_in_flight: "some_in_flight v i r s = Some (s', b) \<Longrightarrow> same_sig s s'"
proof (induction v i r s rule: some_in_flight.induct)
  case (1 v i r s)
  show ?case
  proof (cases "r = 0 \<or> length (queue_at i s) < r")
    case True
    then show ?thesis
      using 1(2) by (subst (asm) some_in_flight.simps) auto
  next
    case False
    obtain u r' where u: "HandleInFlightMpdu v 0 STAY_INFLIGHT i r s = Some (u, r')"
      "r' \<noteq> length (queue_at i u) \<Longrightarrow> u = s'"
      "r' = length (queue_at i u) \<Longrightarrow> some_in_flight v i r' u = Some (s', b)"
      using 1(2) False by (subst (asm) some_in_flight.simps) (auto split: option.splits if_splits)
    have "same_sig u s'"
      using u(2,3) 1(1) [OF False u(1) refl] by (cases "r' = length (queue_at i u)") auto
    then show ?thesis
      using same_sig_HandleInFlightMpdu [OF u(1)] same_sig_trans by blast
  qed
qed

lemma same_sig_ack_mpdu:
  assumes "ack_mpdu v l notify i r s = Some s'"
  shows "same_sig s s'"
proof -
  obtain t where t: "on_agreement i (NotifyAckedMpdu (seq_of s (elem_at i r s))) s = Some t"
    and rest: "map_option fst (HandleInFlightMpdu v l ACKNOWLEDGED i r (report_if notify (TxOk (elem_at i r s)) t)) = Some s'"
    using assms unfolding ack_mpdu_def Let_def by (elim bind_SomeE) (rule that)
  have "same_sig (report_if notify (TxOk (elem_at i r s)) t) s'"
    using rest same_sig_HandleInFlightMpdu by auto
  from same_sig_trans [OF same_sig_trans [OF same_sig_on_agreement [OF t orig_same_id(1)] same_sig_report_if] this]
  show ?thesis .
qed

lemma same_sig_take_acked: "take_acked v l received i r s = Some (s', ps) \<Longrightarrow> same_sig s s'"
proof (induction r arbitrary: s ps)
  case (Suc r)
  obtain b where b: "received (m_seqSeq (hdr_of s (elem_at i (Suc r) s))) = Some b"
    using Suc.prems by (auto simp: Let_def elim: bind_SomeE)
  show ?case
  proof (cases b)
    case True
    then obtain t qs where t: "ack_mpdu v l True i (Suc r) s = Some t" "take_acked v l received i r t = Some (s', qs)"
      using Suc.prems b by (auto simp: Let_def elim!: bind_SomeE)
    from same_sig_trans [OF same_sig_ack_mpdu [OF t(1)] Suc.IH [OF t(2)]] show ?thesis .
  next
    case False
    then show ?thesis
      using Suc b by (auto simp: Let_def)
  qed
qed simp

lemma same_sig_gcr_take_acked:
  "gcr_take_acked v l flags notify i r s = Some (s', ps) \<Longrightarrow> same_sig s s'"
proof (induction v l flags notify i r s arbitrary: ps rule: gcr_take_acked.induct)
  case (3 v l b flags notify i r s)
  show ?case
  proof (cases b)
    case True
    then obtain t ps where t: "ack_mpdu v l notify i (Suc r) s = Some t" "gcr_take_acked v l flags notify i r t = Some (s', ps)"
      using 3(3) by (auto simp: Let_def elim!: bind_SomeE)
    from same_sig_trans [OF same_sig_ack_mpdu [OF t(1)] 3(1) [OF True refl t]] show ?thesis .
  next
    case False
    then show ?thesis
      using 3 by simp
  qed
qed simp_all

lemma same_sig_gcr_acked_members:
  "gcr_acked_members v l flags tid g notify ms s = Some (s', ps) \<Longrightarrow> same_sig s s'"
proof (induction ms arbitrary: s notify ps)
  case (Cons m ms)
  obtain i t rs qs where t: "gcr_take_acked v l flags notify i (length (queue_at i s)) s = Some (t, rs)"
    "gcr_acked_members v l flags tid g False ms t = Some (s', qs)"
    using Cons.prems by (auto elim!: bind_SomeE)
  from same_sig_trans [OF same_sig_gcr_take_acked [OF t(1)] Cons.IH [OF t(2)]] show ?case .
qed simp

lemma same_sig_gcr_failed_members:
  "gcr_failed_members v l tid g notify ms s = Some (s', n) \<Longrightarrow> same_sig s s'"
proof (induction ms arbitrary: s notify n)
  case (Cons m ms)
  obtain i t k j where t: "settle v l (got_ba_status l) notify i (length (queue_at i s)) s = Some (t, k)"
    "gcr_failed_members v l tid g False ms t = Some (s', j)"
    using Cons.prems by (auto elim!: bind_SomeE)
  from same_sig_trans [OF same_sig_settle [OF t(1)] Cons.IH [OF t(2)]] show ?case .
qed simp

lemma same_sig_NotifyGotBlockAck:
  assumes "bam_NotifyGotBlockAck v l ba r tids index s = Some (s', n, k)"
  shows "same_sig s s'"
proof -
  have passes: "same_sig s s'"
    if "take_acked v l rc i q (restart_inactivity nw r t None i s) = Some (u, ps)"
      "settle v l st True i q' (DequeueIfQueued ps u) = Some (s', m)" for rc i q nw t u ps st q' m
  proof -
    have "same_sig s u"
      using same_sig_trans [OF same_sig_restart same_sig_take_acked [OF that(1)]] .
    moreover have "same_sig (DequeueIfQueued ps u) s'"
      using same_sig_settle [OF that(2)] .
    ultimately show ?thesis
      using same_sig_trans [of s "DequeueIfQueued ps u" s'] by simp
  qed
  show ?thesis
    using assms unfolding bam_NotifyGotBlockAck_def Let_def
    by (auto split: option.splits elim!: bind_SomeE) (erule (1) passes)+
qed

lemma same_sig_NotifyGotGcrBlockAck:
  assumes "bam_NotifyGotGcrBlockAck v l ba r members s = Some (s', res)"
  shows "same_sig s s'"
proof -
  have passes: "same_sig s s''"
    if "gcr_acked_members v l flags tid g True members t = Some (u, ps)"
      "gcr_failed_members v l tid g True members (DequeueIfQueued ps u) = Some (s'', m)"
      "same_sig s t" for flags tid g t u ps m s''
  proof -
    have "same_sig s (DequeueIfQueued ps u)"
      using same_sig_trans [OF that(3) same_sig_gcr_acked_members [OF that(1)]] by simp
    from same_sig_trans [OF this same_sig_gcr_failed_members [OF that(2)]] show ?thesis .
  qed
  show ?thesis
    using assms same_sig_restart unfolding bam_NotifyGotGcrBlockAck_def Let_def
    by (auto split: option.splits if_splits elim!: bind_SomeE) (erule (1) passes, simp)
qed

lemma same_sig_handle: "map_option fst (HandleInFlightMpdu v l st i r s) = Some s' \<Longrightarrow> same_sig s s'"
  using same_sig_HandleInFlightMpdu by auto

lemma same_sig_NotifyGotAck:
  assumes "bam_NotifyGotAck v l p s = Some s'"
  shows "same_sig s s'"
proof -
  obtain i t where t: "on_agreement i (NotifyAckedMpdu (seq_of s p)) s = Some t"
    and rest: "(let s = call (TxOk p) t; r = find_seq (seq_of s p) i s
       in if r = 0 then Some s
          else map_option fst (HandleInFlightMpdu v l ACKNOWLEDGED i r (DequeueIfQueued [elem_at i r s] s))) = Some s'"
    using assms unfolding bam_NotifyGotAck_def by (elim bind_SomeE) (rule that)
  have "same_sig t s'"
    using rest by (auto simp: Let_def dest!: same_sig_HandleInFlightMpdu split: if_splits)
      (simp add: same_sig_def orig_sig_def recip_sig_def call_def DequeueIfQueued_def)
  from same_sig_trans [OF same_sig_on_agreement [OF t orig_same_id(1)] this] show ?thesis .
qed

lemma same_sig_NotifyLastGcrUrTx: "bam_NotifyLastGcrUrTx p rs s = Some s' \<Longrightarrow> same_sig s s'"
proof (induction rs arbitrary: s)
  case (Cons r rs)
  obtain i t where t: "on_agreement i (NotifyAckedMpdu (seq_of s p)) s = Some t" "bam_NotifyLastGcrUrTx p rs t = Some s'"
    using Cons.prems by (auto elim!: bind_SomeE)
  from same_sig_trans [OF same_sig_on_agreement [OF t(1) orig_same_id(1)] Cons.IH [OF t(2)]] show ?case .
qed (auto elim: bind_SomeE)

lemma same_sig_NotifyMissedAck: "bam_NotifyMissedAck v l p s = Some s' \<Longrightarrow> same_sig s s'"
  unfolding bam_NotifyMissedAck_def Let_def
  by (auto split: if_splits elim!: bind_SomeE dest!: same_sig_HandleInFlightMpdu)

lemma same_sig_missed_ba: "bam_NotifyMissedBlockAck v l r t s = Some s' \<Longrightarrow> same_sig s s'"
  unfolding bam_NotifyMissedBlockAck_def
  by (auto dest: same_sig_settle split: option.splits)

lemma same_sig_NeedBar: "NeedBarRetransmission v t r s = Some (s', b) \<Longrightarrow> same_sig s s'"
  unfolding NeedBarRetransmission_def by (auto dest: same_sig_some_in_flight split: option.splits)

lemma same_sig_DoStorePacket:
  assumes "DoStorePacket p r g s = Some s'"
  shows "same_sig s s'"
proof -
  have store: "same_sig s s'" if "on_agreement i (NotifyTransmittedMpdu n) (set_queue i q s) = Some s'" for i n q
    by (rule same_sig_trans [OF same_sig_set_queue same_sig_on_agreement [OF that orig_same_id(2)]])
  show ?thesis
    using assms unfolding DoStorePacket_def
    by (auto split: if_splits option.splits elim!: bind_SomeE) (erule store)
qed

lemma same_sig_StoreGcrPacket: "StoreGcrPacket p ms s = Some s' \<Longrightarrow> same_sig s s'"
proof (induction ms arbitrary: s)
  case (Cons m ms)
  obtain t where t: "DoStorePacket p m (Some (bm_msduDestination (b_mpdu s p))) s = Some t" "StoreGcrPacket p ms t = Some s'"
    using Cons.prems by (auto elim!: bind_SomeE)
  from same_sig_trans [OF same_sig_DoStorePacket [OF t(1)] Cons.IH [OF t(2)]] show ?case .
qed simp

lemma same_sig_set_state: "same_sig s (set_agreement_state st i s)"
  unfolding set_agreement_state_def by (rule same_sig_on_orig) (simp add: same_id_def SetState_def)

lemma same_sig_states:
  "NotifyOriginatorAgreementRejected r t g s = Some s' \<Longrightarrow> same_sig s s'"
  "NotifyOriginatorAgreementNoReply r t g s = Some s' \<Longrightarrow> same_sig s s'"
  "NotifyOriginatorAgreementReset r t g s = Some s' \<Longrightarrow> same_sig s s'"
  using same_sig_set_state
  by (auto simp: NotifyOriginatorAgreementRejected_def NotifyOriginatorAgreementNoReply_def
      NotifyOriginatorAgreementReset_def Let_def split: option.splits elim!: bind_SomeE)

lemma recip_same_id:
  "NotifyReceivedMpdu m a = Some (b, out) \<Longrightarrow> same_id a b" "NotifyReceivedBar n a = Some (b, out) \<Longrightarrow> same_id a b"
  by (auto simp: NotifyReceivedMpdu_def NotifyReceivedBar_def PassBufferedMpdusUntilFirstLost_def
      PassBufferedMpdusWithSeqNumberLessThan_def same_id_def Let_def
      split: if_splits prod.splits elim!: bind_SomeE)

lemma same_sig_on_recipient:
  assumes "on_recipient i f s = Some s'" "\<And>a b out. f a = Some (b, out) \<Longrightarrow> same_id a b"
  shows "same_sig s s'"
  using assms
  by (auto simp: on_recipient_def same_sig_def orig_sig_def recip_sig_def call_def ba_sig_update elim!: bind_SomeE)

lemma same_sig_reception:
  "bam_NotifyGotBlockAckRequest r t n g s = Some s' \<Longrightarrow> same_sig s s'"
  "bam_NotifyGotMpdu p s = Some s' \<Longrightarrow> same_sig s s'"
  by (auto simp: bam_NotifyGotBlockAckRequest_def bam_NotifyGotMpdu_def Let_def
      intro: same_sig_on_recipient [OF _ recip_same_id(1)] same_sig_on_recipient [OF _ recip_same_id(2)]
      split: option.splits elim!: bind_SomeE)

section \<open>Operations that change the tables\<close>

lemma bam_wf_iff:
  "bam_wf s \<longleftrightarrow> mm_wf oe_gcr (m_originatorAgreements s) \<and> mm_wf m_gcrGroupAddress (m_recipientAgreements s)
     \<and> (\<forall>(k, e) \<in> set (m_originatorAgreements s). (m_peer (oe_agreement e), m_tid (oe_agreement e)) = k)
     \<and> (\<forall>(k, a) \<in> set (m_recipientAgreements s). (m_peer a, m_tid a) = k)"
proof -
  have "(\<lambda>e. m_gcrGroupAddress (oe_agreement e)) = oe_gcr"
    by (simp add: fun_eq_iff oe_gcr_def)
  then show ?thesis
    by (auto simp: bam_wf_def orig_sig_def recip_sig_def sig_wf_mm_wf)
qed

lemma set_mm_store: "set (mm_store gcr k v m) \<subseteq> insert (k, v) (set m)"
proof (cases "mm_find gcr k (gcr v) m")
  case None
  then show ?thesis
    by (simp add: mm_store_def set_mm_emplace)
next
  case (Some i)
  then have "set (mm_store gcr k v m) = set (m[i := (k, v)])"
    using mm_find_Some [OF Some] by (simp add: mm_store_def mm_set_def)
  then show ?thesis
    using set_update_subset_insert by metis
qed

lemma set_mm_remove: "set (mm_remove gcr x m) \<subseteq> set m"
  by (auto simp: mm_remove_def mm_erase_def dest: in_set_takeD in_set_dropD split: option.splits)

lemma bam_wf_create:
  assumes wf: "bam_wf s" and create: "CreateOriginatorAgreement memory h r s = Some s'"
  shows "bam_wf s'"
proof -
  let ?e = "\<lparr>oe_agreement = requested memory h r, oe_queue = [], oe_inactivity = None\<rparr>"
  have "ab_startingSeq h < 4096"
    using create by (auto simp: CreateOriginatorAgreement_def SetStartingSequence_def Let_def elim!: bind_SomeE)
  moreover have "IsReset (oe_agreement (orig_at i s))"
    if "GetOriginatorBaAgreement r (ab_tid h) (ab_gcrGroupAddress h) s = Some i" for i
    using create that by (auto simp: CreateOriginatorAgreement_def Let_def elim!: bind_SomeE)
  ultimately have "s' = call (BlockPackets (case ab_gcrGroupAddress h of Some g \<Rightarrow> g | None \<Rightarrow> r) (ab_tid h))
      (s\<lparr>m_originatorAgreements := mm_store oe_gcr (r, ab_tid h) ?e (m_originatorAgreements s)\<rparr>)"
    using CreateOriginatorAgreement_eq [of s h r memory] wf create by (simp add: bam_wf_iff)
  then show ?thesis
    using wf set_mm_store [of oe_gcr "(r, ab_tid h)" ?e "m_originatorAgreements s"] requested_fields [of memory h r]
    by (auto simp: bam_wf_iff call_def mm_store_wf)
qed

lemma bam_wf_destroy:
  assumes "bam_wf s"
  shows "bam_wf (DestroyOriginatorAgreement r t g s)"
proof -
  have "m_recipientAgreements (DestroyOriginatorAgreement r t g s) = m_recipientAgreements s"
    by (simp add: DestroyOriginatorAgreement_def EventCancel_def Let_def split: option.split)
  then show ?thesis
    using assms set_mm_remove [of oe_gcr "((r, t), g)" "m_originatorAgreements s"]
    by (auto simp: bam_wf_iff DestroyOriginatorAgreement_eq mm_remove_wf)
qed

lemma same_id_setters:
  "same_id a (SetBufferSize n a)" "same_id a (SetTimeout n a)" "same_id a (SetAmsduSupport b a)"
  "same_id a (ba_policy_of h a)" "SetStartingSequence n a = Some a' \<Longrightarrow> same_id a a'"
  by (auto simp: same_id_def SetBufferSize_def SetTimeout_def SetAmsduSupport_def ba_policy_of_def
      SetImmediateBlockAck_def SetDelayedBlockAck_def SetStartingSequence_def elim!: bind_SomeE)

lemma same_sig_update:
  assumes "UpdateOriginatorAgreement now h r n s = Some s'"
  shows "same_sig s s'"
proof (cases "GetOriginatorBaAgreement r (ab_tid h) (ab_gcrGroupAddress h) s")
  case None
  then show ?thesis
    using assms by (auto simp: UpdateOriginatorAgreement_def Let_def split: option.splits if_splits)
next
  case (Some i)
  then have g: "m_gcrGroupAddress (oe_agreement (orig_at i s)) = ab_gcrGroupAddress h"
    using mm_find_Some [of oe_gcr "(r, ab_tid h)" "ab_gcrGroupAddress h" "m_originatorAgreements s" i]
    by (simp add: GetOriginatorBaAgreement_def orig_at_def oe_gcr_def)
  let ?f = "\<lambda>a. do { a \<leftarrow> SetStartingSequence n (SetAmsduSupport (ab_amsduSupport h)
                    (SetTimeout (ab_timeoutValue h) (SetBufferSize (ab_bufferSize h) a)));
                    Some (SetState ESTABLISHED (gcr_of h (ba_policy_of h (InitTxWindow a)))) }"
  have f: "same_id (oe_agreement (orig_at i s)) b" if "?f (oe_agreement (orig_at i s)) = Some b" for b
    using that g
    by (auto simp: same_id_def SetBufferSize_def SetTimeout_def SetAmsduSupport_def ba_policy_of_def gcr_of_def
        SetImmediateBlockAck_def SetDelayedBlockAck_def SetStartingSequence_def InitTxWindow_def SetState_def
        SetGcrGroupAddress_def split: option.splits elim!: bind_SomeE)
  obtain t where t: "on_agreement i ?f s = Some t"
    using assms Some by (auto simp: UpdateOriginatorAgreement_def Let_def elim!: bind_SomeE)
  have "same_sig s t"
    using t f by (auto simp: on_agreement_def intro!: same_sig_on_orig elim!: bind_SomeE)
  moreover have "same_sig t s'"
  proof -
    have inactivity: "same_sig u (ScheduleInactivity at r' tid g i u)" for u at r' tid g
      by simp
    have "same_sig t (case ab_gcrGroupAddress h of Some g \<Rightarrow> t\<lparr>m_gcrBlockAcks := omap_emplace g [] (m_gcrBlockAcks t)\<rparr>
                               | None \<Rightarrow> t)"
      by (simp split: option.split)
    from same_sig_trans [OF this inactivity] this show ?thesis
      using assms Some t by (auto simp: UpdateOriginatorAgreement_def Let_def split: option.splits if_splits)
  qed
  ultimately show ?thesis
    by (rule same_sig_trans)
qed

definition granted :: "nat recipient \<Rightarrow> addba \<Rightarrow> mac48 \<Rightarrow> nat \<Rightarrow> nat recipient" where
  "granted memory h originator startingSeq =
     gcr_of h (ba_policy_of h (RecipientBlockAckAgreement memory originator (ab_amsduSupport h) (ab_tid h)
       (ab_bufferSize h) (ab_timeoutValue h) startingSeq True))"

lemma granted_fields:
  "m_peer (granted memory h r n) = r" "m_tid (granted memory h r n) = ab_tid h"
  "m_gcrGroupAddress (granted memory h r n) = ab_gcrGroupAddress h"
  by (simp_all add: granted_def gcr_of_def ba_policy_of_def RecipientBlockAckAgreement_def BlockAckAgreement_def
      SetGcrGroupAddress_def SetImmediateBlockAck_def SetDelayedBlockAck_def split: option.split)

lemma CreateRecipientAgreement_eq:
  assumes "mm_wf m_gcrGroupAddress (m_recipientAgreements s)"
  shows "CreateRecipientAgreement memory h r n s =
    Some (s\<lparr>m_recipientAgreements := mm_store m_gcrGroupAddress (r, ab_tid h) (granted memory h r n)
              (m_recipientAgreements s)\<rparr>)"
proof -
  let ?m = "mm_store m_gcrGroupAddress (r, ab_tid h) (granted memory h r n) (m_recipientAgreements s)"
  have "count_gcr m_gcrGroupAddress (r, ab_tid h) (ab_gcrGroupAddress h) ?m = 1"
    using count_gcr_wf [OF mm_store_wf [OF assms]] mm_ids_store [of "(r, ab_tid h)" m_gcrGroupAddress "granted memory h r n"]
      granted_fields(3) [of memory h r n] by metis
  moreover have "(case GetRecipientBaAgreement r (ab_tid h) (ab_gcrGroupAddress h) s of
        Some i \<Rightarrow> s\<lparr>m_recipientAgreements := mm_set i (granted memory h r n) (m_recipientAgreements s)\<rparr>
      | None \<Rightarrow> s\<lparr>m_recipientAgreements := mm_emplace (r, ab_tid h) (granted memory h r n) (m_recipientAgreements s)\<rparr>)
      = s\<lparr>m_recipientAgreements := ?m\<rparr>"
    using granted_fields(3) [of memory h r n]
    by (simp add: mm_store_def GetRecipientBaAgreement_def split: option.split)
  ultimately show ?thesis
    unfolding granted_def by (simp add: CreateRecipientAgreement_def Let_def)
qed

lemma bam_wf_accept:
  assumes wf: "bam_wf s" and create: "CreateRecipientAgreement memory h r n s = Some s'"
  shows "bam_wf s'"
proof -
  have "s' = s\<lparr>m_recipientAgreements := mm_store m_gcrGroupAddress (r, ab_tid h) (granted memory h r n)
              (m_recipientAgreements s)\<rparr>"
    using create CreateRecipientAgreement_eq [of s memory h r n] wf by (simp add: bam_wf_iff)
  then show ?thesis
    using wf set_mm_store [of m_gcrGroupAddress "(r, ab_tid h)" "granted memory h r n" "m_recipientAgreements s"]
      granted_fields [of memory h r n]
    by (auto simp: bam_wf_iff mm_store_wf)
qed

lemma bam_wf_leave:
  assumes wf: "bam_wf s" and destroy: "DestroyRecipientAgreement r t g s = Some s'"
  shows "bam_wf s'"
proof -
  have tables: "m_originatorAgreements s' = m_originatorAgreements s"
    "m_recipientAgreements s' = mm_remove m_gcrGroupAddress ((r, t), g) (m_recipientAgreements s)"
    using destroy
    by (auto simp: DestroyRecipientAgreement_def GetRecipientBaAgreement_def mm_remove_def call_def
        split: option.splits elim!: bind_SomeE)
  then show ?thesis
    using wf set_mm_remove [of m_gcrGroupAddress "((r, t), g)" "m_recipientAgreements s"]
    by (auto simp: bam_wf_iff mm_remove_wf)
qed

section \<open>Whatever happens to the manager\<close>

text \<open>
  The calls of the manager that return, with any arguments, the events of the simulator, and what
  the rest of the station does to the MPDUs and to the queue of control frames.
\<close>

inductive bam_step :: "bam \<Rightarrow> bam \<Rightarrow> bool" where
  create: "CreateOriginatorAgreement memory h r s = Some s' \<Longrightarrow> bam_step s s'"
| destroy: "bam_step s (DestroyOriginatorAgreement r t g s)"
| update: "UpdateOriginatorAgreement now h r n s = Some s' \<Longrightarrow> bam_step s s'"
| create_recipient: "CreateRecipientAgreement memory' h r n s = Some s' \<Longrightarrow> bam_step s s'"
| destroy_recipient: "DestroyRecipientAgreement r t g s = Some s' \<Longrightarrow> bam_step s s'"
| rejected: "NotifyOriginatorAgreementRejected r t g s = Some s' \<Longrightarrow> bam_step s s'"
| no_reply: "NotifyOriginatorAgreementNoReply r t g s = Some s' \<Longrightarrow> bam_step s s'"
| reset: "NotifyOriginatorAgreementReset r t g s = Some s' \<Longrightarrow> bam_step s s'"
| store: "StorePacket p s = Some s' \<Longrightarrow> bam_step s s'"
| store_gcr: "StoreGcrPacket p ms s = Some s' \<Longrightarrow> bam_step s s'"
| got_ack: "bam_NotifyGotAck v l p s = Some s' \<Longrightarrow> bam_step s s'"
| missed_ack: "bam_NotifyMissedAck v l p s = Some s' \<Longrightarrow> bam_step s s'"
| last_gcr: "bam_NotifyLastGcrUrTx p ms s = Some s' \<Longrightarrow> bam_step s s'"
| got_ba: "bam_NotifyGotBlockAck v l ba r tids index s = Some (s', ok, failed) \<Longrightarrow> bam_step s s'"
| got_gcr_ba: "bam_NotifyGotGcrBlockAck v l ba r ms s = Some (s', res) \<Longrightarrow> bam_step s s'"
| missed_ba: "bam_NotifyMissedBlockAck v l r t s = Some s' \<Longrightarrow> bam_step s s'"
| discarded: "bam_NotifyDiscardedMpdu v p s = Some s' \<Longrightarrow> bam_step s s'"
| need_bar: "NeedBarRetransmission v t r s = Some (s', b) \<Longrightarrow> bam_step s s'"
| got_bar: "bam_NotifyGotBlockAckRequest r t n g s = Some s' \<Longrightarrow> bam_step s s'"
| got_mpdu: "bam_NotifyGotMpdu p s = Some s' \<Longrightarrow> bam_step s s'"
| add_bar: "bam_step s (AddToSendBarIfDataQueuedList r t s)"
| remove_bar: "bam_step s (RemoveFromSendBarIfDataQueuedList r t s)"
| schedule_bar: "bam_step s (ScheduleBar e now bar hdr s)"
| inactivity: "(u, now, r, t, g) \<in> set (b_events s) \<Longrightarrow>
    bam_step s (InactivityTimeout r t g (EventCancel (Some u) s))"
| environment: "bam_step s (s\<lparr>b_mpdu := mpdus, b_ctlQueue := frames\<rparr>)"

definition BlockAckManager :: "(nat \<Rightarrow> bam_mpdu) \<Rightarrow> (mac48 \<Rightarrow> ctl_item list) \<Rightarrow> bam" where
  "BlockAckManager mpdus frames =
     \<lparr>m_originatorAgreements = [], m_recipientAgreements = [], m_sendBarIfDataQueued = [], m_gcrBlockAcks = [],
      b_mpdu = mpdus, b_ctlQueue = frames, b_events = [], b_nextEvent = 0, b_calls = []\<rparr>"

lemma same_sig_step:
  assumes "bam_step s s'"
  shows "same_sig s s' \<or> (bam_wf s \<longrightarrow> bam_wf s')"
  using assms
proof cases
  case (update now h r n)
  then show ?thesis using same_sig_update by blast
next
  case (got_ack v l p)
  then show ?thesis using same_sig_NotifyGotAck by blast
next
  case (inactivity u now r t g)
  then show ?thesis by (simp add: InactivityTimeout_def EventCancel_def)
next
  case (environment mpdus frames)
  then show ?thesis by (simp add: same_sig_def orig_sig_def recip_sig_def)
next
  case (store p)
  then show ?thesis using same_sig_DoStorePacket by (auto simp: StorePacket_def)
qed (auto simp: AddToSendBarIfDataQueuedList_def RemoveFromSendBarIfDataQueuedList_def
    dest: bam_wf_create bam_wf_destroy bam_wf_accept bam_wf_leave same_sig_states same_sig_StoreGcrPacket
      same_sig_NotifyMissedAck same_sig_NotifyLastGcrUrTx same_sig_NotifyGotBlockAck same_sig_NotifyGotGcrBlockAck
      same_sig_missed_ba same_sig_NotifyDiscardedMpdu same_sig_NeedBar same_sig_reception)

lemma bam_wf_step: "bam_step s s' \<Longrightarrow> bam_wf s \<Longrightarrow> bam_wf s'"
  using same_sig_step bam_wf_same_sig by blast

text \<open>
  Property C23: in every state the Block Ack manager can reach, by any sequence of its operations and
  whatever the rest of the station does to the MPDUs, the tables of agreements of both roles are well
  formed: sorted by address and TID, with at most one agreement for an address, TID and group, each
  of which is for the peer and TID under which it is found.
\<close>

theorem agreement_tables_well_formed:
  assumes "bam_step\<^sup>*\<^sup>* (BlockAckManager mpdus frames) s"
  shows "bam_wf s"
  using assms
proof (induction rule: rtranclp_induct)
  case base
  show ?case
    by (simp add: BlockAckManager_def bam_wf_iff mm_wf_def mm_ids_def)
next
  case (step s t)
  then show ?case
    by (blast intro: bam_wf_step)
qed

theorem agreement_tables_well_formed_witness:
  "\<exists>s. CreateOriginatorAgreement ex_originator ex_request 1 (BlockAckManager (\<lambda>_. ex_mpdu 0) (\<lambda>_. [])) = Some s
     \<and> bam_wf s"
proof -
  let ?s = "BlockAckManager (\<lambda>_. ex_mpdu 0) (\<lambda>_. [])"
  obtain s where s: "CreateOriginatorAgreement ex_originator ex_request 1 ?s = Some s"
    using CreateOriginatorAgreement_eq [of ?s ex_request 1 ex_originator]
    by (auto simp: BlockAckManager_def mm_wf_def mm_ids_def ex_request_def GetOriginatorBaAgreement_def)
  with agreement_tables_well_formed [OF r_into_rtranclp, OF bam_step.create [OF s]] show ?thesis
    by blast
qed

end
