(* ===== verification/Queue_Container.thy ===== *)
theory Queue_Container
  imports Wifi_Mac_Header Qos_Utils "HOL-Library.Product_Lexorder" "HOL-Library.Option_ord" "HOL-Library.AList"
begin

text \<open>
  \<^verbatim>\<open>src/wifi/model/wifi-mac-queue-container.cc\<close> and the base class
  \<^verbatim>\<open>src/network/utils/queue.h\<close>: the container queues of an access category, one for each
  receiver and traffic identifier, with their sizes in octets, and the queue of the MPDUs whose
  lifetime has expired; the counters of packets and octets around them.

  MPDUs are addresses into the store \<open>m_mpdu\<close>; an iterator is the address of the MPDU its element
  holds (of the end: \<open>None\<close>), and one that does not point into the queue it is used with stops the
  model.  Counters are natural numbers.
\<close>

section \<open>Identifiers of container queues\<close>

datatype queue_type = WIFI_CTL_QUEUE | WIFI_MGT_QUEUE | WIFI_QOSDATA_QUEUE | WIFI_DATA_QUEUE

datatype rcv_addr = UNICAST | BROADCAST | GROUPCAST

primrec queue_type_value :: "queue_type \<Rightarrow> nat" where
  "queue_type_value WIFI_CTL_QUEUE = 0"
| "queue_type_value WIFI_MGT_QUEUE = 1"
| "queue_type_value WIFI_QOSDATA_QUEUE = 2"
| "queue_type_value WIFI_DATA_QUEUE = 3"

primrec rcv_addr_value :: "rcv_addr \<Rightarrow> nat" where
  "rcv_addr_value UNICAST = 0"
| "rcv_addr_value BROADCAST = 1"
| "rcv_addr_value GROUPCAST = 2"

lemma queue_type_value_inj [simp]: "queue_type_value a = queue_type_value b \<longleftrightarrow> a = b"
  by (cases a; cases b) simp_all

lemma rcv_addr_value_inj [simp]: "rcv_addr_value a = rcv_addr_value b \<longleftrightarrow> a = b"
  by (cases a; cases b) simp_all

instantiation queue_type :: linorder
begin

definition less_eq_queue_type :: "queue_type \<Rightarrow> queue_type \<Rightarrow> bool" where
  "a \<le> b \<longleftrightarrow> queue_type_value a \<le> queue_type_value b"

definition less_queue_type :: "queue_type \<Rightarrow> queue_type \<Rightarrow> bool" where
  "a < b \<longleftrightarrow> queue_type_value a < queue_type_value b"

instance
  by intro_classes (auto simp: less_eq_queue_type_def less_queue_type_def)

end

instantiation rcv_addr :: linorder
begin

definition less_eq_rcv_addr :: "rcv_addr \<Rightarrow> rcv_addr \<Rightarrow> bool" where
  "a \<le> b \<longleftrightarrow> rcv_addr_value a \<le> rcv_addr_value b"

definition less_rcv_addr :: "rcv_addr \<Rightarrow> rcv_addr \<Rightarrow> bool" where
  "a < b \<longleftrightarrow> rcv_addr_value a < rcv_addr_value b"

instance
  by intro_classes (auto simp: less_eq_rcv_addr_def less_rcv_addr_def)

end

text \<open>\<^verbatim>\<open>WifiContainerQueueId\<close>, a tuple, which is ordered lexicographically.\<close>

datatype queue_id =
  Queue_Id (qid_type: queue_type) (qid_addrType: rcv_addr) (qid_address: mac48) (qid_tid: "u8 option")

definition qid_tuple :: "queue_id \<Rightarrow> queue_type \<times> rcv_addr \<times> mac48 \<times> u8 option" where
  "qid_tuple q = (qid_type q, qid_addrType q, qid_address q, qid_tid q)"

lemma qid_tuple_inj: "qid_tuple a = qid_tuple b \<Longrightarrow> a = b"
  by (cases a; cases b) (simp add: qid_tuple_def)

instantiation queue_id :: linorder
begin

definition less_eq_queue_id :: "queue_id \<Rightarrow> queue_id \<Rightarrow> bool" where
  "a \<le> b \<longleftrightarrow> qid_tuple a \<le> qid_tuple b"

definition less_queue_id :: "queue_id \<Rightarrow> queue_id \<Rightarrow> bool" where
  "a < b \<longleftrightarrow> qid_tuple a < qid_tuple b"

instance
  by intro_classes (auto simp: less_eq_queue_id_def less_queue_id_def intro: qid_tuple_inj)

end

section \<open>State\<close>

text \<open>
  An MPDU: \<open>qm_destination\<close> is the destination address of the first MSDU of an A-MSDU,
  \<open>qm_size\<close> the octets of the whole frame and \<open>qm_queueIt\<close> the container queue that holds its
  element.  MPDUs have no aliases: of an element in flight the links are kept.
\<close>

record queued_mpdu =
  qm_hdr :: mac_hdr
  qm_destination :: mac48
  qm_size :: nat
  qm_timestamp :: time
  qm_queueIt :: "queue_id option"

record queue_elem =
  qe_mpdu :: nat
  qe_expiryTime :: time
  qe_ac :: ac_index
  qe_expired :: bool
  qe_inflights :: "nat set"

text \<open>The queues are listed in the order they are created (the code leaves it to a hash table).\<close>

record container =
  m_queues :: "(queue_id \<times> queue_elem list) list"
  m_expiredQueue :: "queue_elem list"
  m_nBytesPerQueue :: "queue_id \<Rightarrow> nat option"
  m_mpdu :: "nat \<Rightarrow> queued_mpdu"

definition GetQueueId :: "queued_mpdu \<Rightarrow> queue_id" where
  "GetQueueId mpdu =
     (let hdr = qm_hdr mpdu;
          (addrType, address) =
            (if mac_IsBroadcast (m_addr1 hdr) then (BROADCAST, m_addr2 hdr)
             else if mac_IsGroup (m_addr1 hdr)
             then (GROUPCAST, if IsQosAmsdu hdr then qm_destination mpdu else m_addr1 hdr)
             else (UNICAST, m_addr1 hdr))
      in if IsCtl hdr then Queue_Id WIFI_CTL_QUEUE addrType address None
         else if IsMgt hdr then Queue_Id WIFI_MGT_QUEUE addrType address None
         else if IsQosData hdr then Queue_Id WIFI_QOSDATA_QUEUE addrType address (GetQosTid hdr)
         else Queue_Id WIFI_DATA_QUEUE addrType address None)"

definition queue_id_of :: "('a container_scheme) \<Rightarrow> nat \<Rightarrow> queue_id" where
  "queue_id_of c p = GetQueueId (m_mpdu c p)"

definition on_qm :: "nat \<Rightarrow> (queued_mpdu \<Rightarrow> queued_mpdu) \<Rightarrow> 'a container_scheme \<Rightarrow> 'a container_scheme" where
  "on_qm p f c = c\<lparr>m_mpdu := (m_mpdu c)(p := f (m_mpdu c p))\<rparr>"

text \<open>\<^verbatim>\<open>SetQueueIt\<close> and the deleter of an element.\<close>

definition SetQueueIt :: "queue_id option \<Rightarrow> nat \<Rightarrow> 'a container_scheme \<Rightarrow> 'a container_scheme" where
  "SetQueueIt it p = on_qm p (\<lambda>m. m\<lparr>qm_queueIt := it\<rparr>)"

definition IsQueued :: "nat \<Rightarrow> 'a container_scheme \<Rightarrow> bool" where
  "IsQueued p c \<longleftrightarrow> qm_queueIt (m_mpdu c p) \<noteq> None"

definition GetQueue :: "queue_id \<Rightarrow> 'a container_scheme \<Rightarrow> queue_elem list" where
  "GetQueue q c = (case map_of (m_queues c) q of Some l \<Rightarrow> l | None \<Rightarrow> [])"

definition put_queue :: "queue_id \<Rightarrow> queue_elem list \<Rightarrow> 'a container_scheme \<Rightarrow> 'a container_scheme" where
  "put_queue q l c = c\<lparr>m_queues := AList.update q l (m_queues c)\<rparr>"

section \<open>Operations of the container\<close>

definition c_clear :: "'a container_scheme \<Rightarrow> 'a container_scheme" where
  "c_clear c =
     (fold (SetQueueIt None) (map qe_mpdu (concat (map snd (m_queues c)) @ m_expiredQueue c)) c)
       \<lparr>m_queues := [], m_expiredQueue := [], m_nBytesPerQueue := (\<lambda>_. None)\<rparr>"

definition WifiMacQueueElem :: "nat \<Rightarrow> queue_elem" where
  "WifiMacQueueElem p = \<lparr>qe_mpdu = p, qe_expiryTime = 0, qe_ac = AC_UNDEF, qe_expired = False, qe_inflights = {}\<rparr>"

definition insert_before :: "nat option \<Rightarrow> queue_elem \<Rightarrow> queue_elem list \<Rightarrow> queue_elem list option" where
  "insert_before pos e l =
     (case pos of
        None \<Rightarrow> Some (l @ [e])
      | Some p \<Rightarrow> do { ns_assert (p \<in> qe_mpdu ` set l);
                      Some (takeWhile (\<lambda>x. qe_mpdu x \<noteq> p) l @ e # dropWhile (\<lambda>x. qe_mpdu x \<noteq> p) l) })"

definition c_insert :: "nat option \<Rightarrow> nat \<Rightarrow> 'a container_scheme \<Rightarrow> 'a container_scheme option" where
  "c_insert pos item c =
     do { let q = queue_id_of c item;
          l \<leftarrow> insert_before pos (WifiMacQueueElem item) (GetQueue q c);
          let n = (case m_nBytesPerQueue c q of Some n \<Rightarrow> n | None \<Rightarrow> 0);
          Some (put_queue q l (c\<lparr>m_nBytesPerQueue := (m_nBytesPerQueue c)(q \<mapsto> n + qm_size (m_mpdu c item))\<rparr>)) }"

text \<open>The octets of an MPDU that leaves its queue.\<close>

definition take_bytes :: "nat \<Rightarrow> 'a container_scheme \<Rightarrow> 'a container_scheme option" where
  "take_bytes p c =
     do { let q = queue_id_of c p;
          n \<leftarrow> m_nBytesPerQueue c q;
          ns_assert (n \<ge> qm_size (m_mpdu c p));
          Some (c\<lparr>m_nBytesPerQueue := (m_nBytesPerQueue c)(q \<mapsto> n - qm_size (m_mpdu c p))\<rparr>) }"

text \<open>The element that an iterator points to, in a container queue or among the expired ones.\<close>

datatype elem_it = In_Queue nat | In_Expired nat

fun it_mpdu :: "elem_it \<Rightarrow> nat" where
  "it_mpdu (In_Queue p) = p"
| "it_mpdu (In_Expired p) = p"

fun c_erase :: "elem_it \<Rightarrow> 'a container_scheme \<Rightarrow> 'a container_scheme option" where
  "c_erase (In_Expired p) c =
     do { ns_assert (p \<in> qe_mpdu ` set (m_expiredQueue c));
          Some (SetQueueIt None p (c\<lparr>m_expiredQueue := filter (\<lambda>e. qe_mpdu e \<noteq> p) (m_expiredQueue c)\<rparr>)) }"
| "c_erase (In_Queue p) c =
     do { let q = queue_id_of c p;
          ns_assert (qm_queueIt (m_mpdu c p) = Some q \<and> p \<in> qe_mpdu ` set (GetQueue q c));
          c \<leftarrow> take_bytes p c;
          Some (SetQueueIt None p (put_queue q (filter (\<lambda>e. qe_mpdu e \<noteq> p) (GetQueue q c)) c)) }"

definition c_GetNBytes :: "queue_id \<Rightarrow> 'a container_scheme \<Rightarrow> nat option" where
  "c_GetNBytes q c = (if GetQueue q c = [] then Some 0 else m_nBytesPerQueue c q)"

text \<open>
  \<^verbatim>\<open>DoExtractExpiredMpdus\<close> skips MPDUs in flight, takes those with an expired lifetime that
  follow, and so on until it meets an MPDU that is neither: \<open>split_expired\<close> gives what stays and
  what is taken.
\<close>

fun split_expired :: "time \<Rightarrow> queue_elem list \<Rightarrow> queue_elem list \<times> queue_elem list" where
  "split_expired now [] = ([], [])"
| "split_expired now (e # es) =
     (if qe_inflights e \<noteq> {} then (case split_expired now es of (stay, taken) \<Rightarrow> (e # stay, taken))
      else if qe_expiryTime e \<le> now then (case split_expired now es of (stay, taken) \<Rightarrow> (stay, e # taken))
      else (e # es, []))"

fun mark_expired :: "queue_elem list \<Rightarrow> 'a container_scheme \<Rightarrow> 'a container_scheme option" where
  "mark_expired [] c = Some c"
| "mark_expired (e # es) c =
     do { c \<leftarrow> take_bytes (qe_mpdu e) (SetQueueIt None (qe_mpdu e) c); mark_expired es c }"

definition DoExtractExpiredMpdus ::
  "time \<Rightarrow> queue_id \<Rightarrow> 'a container_scheme \<Rightarrow> ('a container_scheme \<times> nat list) option" where
  "DoExtractExpiredMpdus now q c =
     (case split_expired now (GetQueue q c) of (stay, taken) \<Rightarrow>
        do { c \<leftarrow> mark_expired taken c;
             Some (if taken = [] then c
                   else (put_queue q stay c)
                          \<lparr>m_expiredQueue := m_expiredQueue c @ map (\<lambda>e. e\<lparr>qe_expired := True, qe_ac := AC_UNDEF\<rparr>) taken\<rparr>,
                   map qe_mpdu taken) })"

fun extract_from :: "time \<Rightarrow> queue_id list \<Rightarrow> 'a container_scheme \<Rightarrow> ('a container_scheme \<times> nat list) option" where
  "extract_from now [] c = Some (c, [])"
| "extract_from now (q # qs) c =
     do { (c, ps) \<leftarrow> DoExtractExpiredMpdus now q c;
          (c, ps') \<leftarrow> extract_from now qs c;
          Some (c, ps @ ps') }"

definition c_ExtractAllExpiredMpdus :: "time \<Rightarrow> 'a container_scheme \<Rightarrow> ('a container_scheme \<times> nat list) option" where
  "c_ExtractAllExpiredMpdus now c = extract_from now (map fst (m_queues c)) c"

section \<open>The base class\<close>

record queue_base = container +
  m_nPackets :: nat
  m_nBytes :: nat
  m_maxSize :: nat
  m_nTotalReceivedPackets :: nat
  m_nTotalReceivedBytes :: nat
  m_nTotalDroppedPackets :: nat
  m_nTotalDroppedBytes :: nat
  m_nTotalDroppedPacketsBeforeEnqueue :: nat
  m_nTotalDroppedBytesBeforeEnqueue :: nat
  m_nTotalDroppedPacketsAfterDequeue :: nat
  m_nTotalDroppedBytesAfterDequeue :: nat

definition SetMaxSize :: "nat \<Rightarrow> 'a queue_base_scheme \<Rightarrow> 'a queue_base_scheme option" where
  "SetMaxSize n b = (if n = 0 then Some b else do { ns_assert (m_nPackets b \<le> n); Some (b\<lparr>m_maxSize := n\<rparr>) })"

definition DropBeforeEnqueue :: "nat \<Rightarrow> 'a queue_base_scheme \<Rightarrow> 'a queue_base_scheme" where
  "DropBeforeEnqueue p b =
     b\<lparr>m_nTotalDroppedPackets := m_nTotalDroppedPackets b + 1, m_nTotalDroppedBytes := m_nTotalDroppedBytes b + qm_size (m_mpdu b p),
       m_nTotalDroppedPacketsBeforeEnqueue := m_nTotalDroppedPacketsBeforeEnqueue b + 1,
       m_nTotalDroppedBytesBeforeEnqueue := m_nTotalDroppedBytesBeforeEnqueue b + qm_size (m_mpdu b p)\<rparr>"

definition DropAfterDequeue :: "nat \<Rightarrow> 'a queue_base_scheme \<Rightarrow> 'a queue_base_scheme" where
  "DropAfterDequeue p b =
     b\<lparr>m_nTotalDroppedPackets := m_nTotalDroppedPackets b + 1, m_nTotalDroppedBytes := m_nTotalDroppedBytes b + qm_size (m_mpdu b p),
       m_nTotalDroppedPacketsAfterDequeue := m_nTotalDroppedPacketsAfterDequeue b + 1,
       m_nTotalDroppedBytesAfterDequeue := m_nTotalDroppedBytesAfterDequeue b + qm_size (m_mpdu b p)\<rparr>"

definition base_DoEnqueue :: "nat option \<Rightarrow> nat \<Rightarrow> 'a queue_base_scheme \<Rightarrow> ('a queue_base_scheme \<times> bool) option" where
  "base_DoEnqueue pos item b =
     (if m_nPackets b + 1 > m_maxSize b then Some (DropBeforeEnqueue item b, False)
      else do {
        b \<leftarrow> c_insert pos item b;
        let n = qm_size (m_mpdu b item);
        Some (b\<lparr>m_nBytes := m_nBytes b + n, m_nTotalReceivedBytes := m_nTotalReceivedBytes b + n,
                m_nPackets := m_nPackets b + 1, m_nTotalReceivedPackets := m_nTotalReceivedPackets b + 1\<rparr>, True) })"

definition base_DoDequeue :: "elem_it \<Rightarrow> 'a queue_base_scheme \<Rightarrow> ('a queue_base_scheme \<times> nat option) option" where
  "base_DoDequeue pos b =
     (if m_nPackets b = 0 then Some (b, None)
      else do {
        b \<leftarrow> c_erase pos b;
        let item = it_mpdu pos;
        let n = qm_size (m_mpdu b item);
        ns_assert (m_nBytes b \<ge> n);
        Some (b\<lparr>m_nBytes := m_nBytes b - n, m_nPackets := m_nPackets b - 1\<rparr>, Some item) })"

definition base_DoRemove :: "elem_it \<Rightarrow> 'a queue_base_scheme \<Rightarrow> ('a queue_base_scheme \<times> nat option) option" where
  "base_DoRemove pos b =
     do { (b, item) \<leftarrow> base_DoDequeue pos b;
          Some (case item of Some p \<Rightarrow> (DropAfterDequeue p b, item) | None \<Rightarrow> (b, item)) }"

end
