(* ===== verification/Mac_Queue.thy ===== *)
theory Mac_Queue
  imports Queue_Container
begin

text \<open>
  \<^verbatim>\<open>wifi-mac-queue.cc\<close>, \<^verbatim>\<open>wifi-mac-queue-scheduler-impl.h\<close> and
  \<^verbatim>\<open>fcfs-wifi-queue-scheduler.cc\<close>: the queue of an access category and its part of the
  scheduler.  The two call each other: looking at the head of a container queue extracts the MPDUs
  whose lifetime has expired, which notifies the scheduler, which looks at the head again.
\<close>

section \<open>State\<close>

datatype block_reason =
    WAITING_ADDBA_RESP | POWER_SAVE_MODE | USING_OTHER_EMLSR_LINK | WAITING_EMLSR_TRANSITION_DELAY
  | TID_NOT_MAPPED | REASONS_COUNT

record fcfs_prio =
  fp_priority :: time
  fp_type :: queue_type

text \<open>
  \<open>qi_listed\<close> is whether the iterator \<^verbatim>\<open>priorityIt\<close> is set: it points to the entry of its
  queue in the sorted list.  A link is blocked for a set of reasons.
\<close>

record queue_info =
  qi_listed :: bool
  qi_linkIds :: "(nat, block_reason set) omap"

text \<open>\<open>m_expired\<close> are the MPDUs for which a call of the trace source Expired has been scheduled.\<close>

record mac_queue = queue_base +
  m_ac :: ac_index
  m_maxDelay :: time
  m_expired :: "nat list"
  m_sortedQueues :: "(fcfs_prio \<times> queue_id) list"
  m_queueInfo :: "queue_id \<Rightarrow> queue_info option"

text \<open>
  What the queue asks of the rest: the time, the policy of the scheduler, the links blocked for all
  queues, and the MAC: whether it has several links and an address is its own as a multi-link device,
  its links, whether the link to a peer has been set up, whether an address is that of a multi-link
  device, whether frames can be forwarded to it, and the link that an address belongs to.
\<close>

record mq_env =
  qv_now :: time
  qv_dropOldest :: bool
  qv_blockAll :: "(block_reason \<times> nat set) list"
  qv_isMld :: "mac48 \<Rightarrow> bool"
  qv_linkIds :: "nat list"
  qv_isSetup :: "nat \<Rightarrow> mac48 \<Rightarrow> bool"
  qv_isMldPeer :: "mac48 \<Rightarrow> bool"
  qv_canForward :: "mac48 \<Rightarrow> bool"
  qv_linkByAddress :: "mac48 \<Rightarrow> nat option"

definition TimeMax :: time where
  "TimeMax = 2 ^ 63 - 1"

section \<open>Priorities\<close>

definition prio_eq :: "fcfs_prio \<Rightarrow> fcfs_prio \<Rightarrow> bool" where
  "prio_eq lhs rhs \<longleftrightarrow> fp_priority lhs = fp_priority rhs \<and> fp_type lhs = fp_type rhs"

definition prio_less :: "fcfs_prio \<Rightarrow> fcfs_prio \<Rightarrow> bool" where
  "prio_less lhs rhs \<longleftrightarrow>
     (if fp_type lhs = WIFI_CTL_QUEUE \<and> fp_type rhs \<noteq> WIFI_CTL_QUEUE then True
      else if fp_type lhs \<noteq> WIFI_CTL_QUEUE \<and> fp_type rhs = WIFI_CTL_QUEUE then False
      else if fp_type lhs = WIFI_MGT_QUEUE \<and> fp_type rhs \<noteq> WIFI_MGT_QUEUE then True
      else if fp_type lhs \<noteq> WIFI_MGT_QUEUE \<and> fp_type rhs = WIFI_MGT_QUEUE then False
      else fp_priority lhs < fp_priority rhs)"

text \<open>\<^verbatim>\<open>std::multimap::insert\<close>: behind the entries that are not greater.\<close>

fun multimap_insert :: "('p \<Rightarrow> 'p \<Rightarrow> bool) \<Rightarrow> 'p \<Rightarrow> 'v \<Rightarrow> ('p \<times> 'v) list \<Rightarrow> ('p \<times> 'v) list" where
  "multimap_insert lt p v [] = [(p, v)]"
| "multimap_insert lt p v ((p', v') # l) =
     (if lt p p' then (p, v) # (p', v') # l else (p', v') # multimap_insert lt p v l)"

definition prio_erase :: "queue_id \<Rightarrow> (fcfs_prio \<times> queue_id) list \<Rightarrow> (fcfs_prio \<times> queue_id) list" where
  "prio_erase q l = filter (\<lambda>(p', q'). q' \<noteq> q) l"

definition prio_of :: "queue_id \<Rightarrow> (fcfs_prio \<times> queue_id) list \<Rightarrow> fcfs_prio option" where
  "prio_of q l = map_of (map prod.swap l) q"

definition set_info :: "queue_id \<Rightarrow> queue_info \<Rightarrow> 'a mac_queue_scheme \<Rightarrow> 'a mac_queue_scheme" where
  "set_info q i s = s\<lparr>m_queueInfo := (m_queueInfo s)(q \<mapsto> i)\<rparr>"

definition SetPriority :: "queue_id \<Rightarrow> fcfs_prio \<Rightarrow> 'a mac_queue_scheme \<Rightarrow> 'a mac_queue_scheme option" where
  "SetPriority q priority s =
     do { n \<leftarrow> c_GetNBytes q s;
          ns_assert (n \<noteq> 0);
          i \<leftarrow> m_queueInfo s q;
          (if qi_listed i
           then do { old \<leftarrow> prio_of q (m_sortedQueues s);
                     Some (if prio_eq old priority then s
                           else s\<lparr>m_sortedQueues := multimap_insert prio_less priority q (prio_erase q (m_sortedQueues s))\<rparr>) }
           else Some (set_info q (i\<lparr>qi_listed := True\<rparr>)
                       (s\<lparr>m_sortedQueues := multimap_insert prio_less priority q (m_sortedQueues s)\<rparr>))) }"

section \<open>Notifications of the scheduler\<close>

text \<open>The priority of a queue is that of its head.\<close>

definition head_priority :: "queue_id \<Rightarrow> 'a mac_queue_scheme \<Rightarrow> 'a mac_queue_scheme option" where
  "head_priority q s =
     (case GetQueue q s of
        [] \<Rightarrow> Some s
      | e # _ \<Rightarrow> SetPriority q \<lparr>fp_priority = qm_timestamp (m_mpdu s (qe_mpdu e)), fp_type = qid_type q\<rparr> s)"

text \<open>Queues that have become empty leave the sorted list.\<close>

definition drop_if_empty :: "queue_id \<Rightarrow> 'a mac_queue_scheme \<Rightarrow> 'a mac_queue_scheme option" where
  "drop_if_empty q s =
     do { n \<leftarrow> c_GetNBytes q s;
          (if n = 0
           then do { i \<leftarrow> m_queueInfo s q;
                     (if qi_listed i
                      then do { _ \<leftarrow> prio_of q (m_sortedQueues s);
                                Some (set_info q (i\<lparr>qi_listed := False\<rparr>)
                                       (s\<lparr>m_sortedQueues := prio_erase q (m_sortedQueues s)\<rparr>)) }
                      else Some s) }
           else Some s) }"

fun drop_empty :: "queue_id list \<Rightarrow> 'a mac_queue_scheme \<Rightarrow> 'a mac_queue_scheme option" where
  "drop_empty [] s = Some s"
| "drop_empty (q # qs) s = do { s \<leftarrow> drop_if_empty q s; drop_empty qs s }"

text \<open>The calls of the trace source Expired that an extraction schedules.\<close>

definition fire_expired :: "nat list \<Rightarrow> 'a mac_queue_scheme \<Rightarrow> 'a mac_queue_scheme" where
  "fire_expired ps s = s\<lparr>m_expired := m_expired s @ ps\<rparr>"

text \<open>
  \<open>update_priorities\<close> is the loop of \<^verbatim>\<open>DoNotifyRemove\<close> and \<^verbatim>\<open>DoNotifyDequeue\<close>: for
  each queue, \<^verbatim>\<open>PeekByQueueId\<close> and \<^verbatim>\<open>SetPriority\<close>.  The first extracts
  expired MPDUs and, if there are any, notifies the scheduler, whose loop is the inner call.  It ends
  because an extraction leaves fewer MPDUs in the queues.
\<close>

definition queued :: "'a container_scheme \<Rightarrow> nat" where
  "queued c = sum_list (map (length \<circ> snd) (m_queues c))"

definition queue_ids :: "'a container_scheme \<Rightarrow> nat list \<Rightarrow> queue_id list" where
  "queue_ids c ps = map (queue_id_of c) ps"

definition queue_id_set :: "'a container_scheme \<Rightarrow> nat list \<Rightarrow> queue_id list" where
  "queue_id_set c ps = sort (remdups (queue_ids c ps))"

function update_priorities :: "time \<Rightarrow> queue_id list \<Rightarrow> 'a mac_queue_scheme \<Rightarrow> 'a mac_queue_scheme option" where
  "update_priorities now [] s = Some s"
| "update_priorities now (q # qs) s =
     (case DoExtractExpiredMpdus now q s of
        None \<Rightarrow> None
      | Some (s1, ps) \<Rightarrow>
          (case (if ps = [] then Some s1
                 else case update_priorities now (queue_id_set s1 ps) (fire_expired ps s1) of
                        None \<Rightarrow> None
                      | Some s2 \<Rightarrow> drop_empty (queue_ids s2 ps) s2) of
             None \<Rightarrow> None
           | Some s3 \<Rightarrow>
               (case head_priority q s3 of
                  None \<Rightarrow> None
                | Some s4 \<Rightarrow> update_priorities now qs s4)))"
  by pat_completeness auto

lemma sum_list_update:
  "sum_list (map (length \<circ> snd) (AList.update k v m)) + (case map_of m k of Some l \<Rightarrow> length l | None \<Rightarrow> 0)
     = sum_list (map (length \<circ> snd) m) + length v"
  by (induction m) (auto split: option.splits)

lemma split_expired_length: "split_expired now l = (stay, taken) \<Longrightarrow> length stay + length taken = length l"
  by (induction now l arbitrary: stay taken rule: split_expired.induct) (auto split: if_splits prod.splits)

lemma queued_put_queue: "queued (put_queue q l c) + length (GetQueue q c) = queued c + length l"
  using sum_list_update [of q l "m_queues c"]
  by (auto simp: queued_def put_queue_def GetQueue_def split: option.splits)

lemma mark_expired_queues: "mark_expired es c = Some c' \<Longrightarrow> m_queues c' = m_queues c"
  by (induction es arbitrary: c) (fastforce simp: take_bytes_def Let_def SetQueueIt_def on_qm_def elim!: bind_SomeE)+

lemma DoExtractExpiredMpdus_queued:
  assumes "DoExtractExpiredMpdus now q c = Some (c', ps)"
  shows "queued c' + length ps = queued c"
proof -
  obtain stay taken d where *: "split_expired now (GetQueue q c) = (stay, taken)" "mark_expired taken c = Some d"
    "ps = map qe_mpdu taken" "queued c' = (if taken = [] then queued d else queued (put_queue q stay d))"
    using assms by (auto simp: DoExtractExpiredMpdus_def queued_def split: prod.splits elim!: bind_SomeE)
  have d: "m_queues d = m_queues c" by (rule mark_expired_queues [OF *(2)])
  then have "queued d = queued c" "GetQueue q d = GetQueue q c" by (simp_all add: queued_def GetQueue_def)
  then show ?thesis
    using split_expired_length [OF *(1)] queued_put_queue [of q stay d] *(3,4) by auto
qed

text \<open>The scheduler leaves the container and the counters alone.\<close>

definition same_base :: "'a mac_queue_scheme \<Rightarrow> 'a mac_queue_scheme \<Rightarrow> bool" where
  "same_base s s' \<longleftrightarrow> queue_base.truncate s' = queue_base.truncate s \<and> m_ac s' = m_ac s \<and> m_maxDelay s' = m_maxDelay s"

lemma same_base_refl [simp]: "same_base s s"
  by (simp add: same_base_def)

lemma same_base_trans: "same_base s t \<Longrightarrow> same_base t u \<Longrightarrow> same_base s u"
  by (simp add: same_base_def)

lemma same_baseD:
  assumes "same_base s s'"
  shows "m_queues s' = m_queues s" "m_expiredQueue s' = m_expiredQueue s" "m_nBytesPerQueue s' = m_nBytesPerQueue s"
    "m_mpdu s' = m_mpdu s" "m_nPackets s' = m_nPackets s" "m_nBytes s' = m_nBytes s" "m_maxSize s' = m_maxSize s"
    "m_ac s' = m_ac s" "m_maxDelay s' = m_maxDelay s"
  using assms by (simp_all add: same_base_def queue_base.defs)

lemma same_base_sched [simp]:
  "same_base s (set_info q i t) \<longleftrightarrow> same_base s t" "same_base s (t\<lparr>m_sortedQueues := l\<rparr>) \<longleftrightarrow> same_base s t"
  "same_base s (fire_expired ps t) \<longleftrightarrow> same_base s t"
  by (simp_all add: same_base_def set_info_def fire_expired_def queue_base.defs)

lemma same_base_SetPriority: "SetPriority q p s = Some s' \<Longrightarrow> same_base s s'"
  by (auto simp: SetPriority_def split: if_splits elim!: bind_SomeE)

lemma same_base_head_priority: "head_priority q s = Some s' \<Longrightarrow> same_base s s'"
  by (auto simp: head_priority_def same_base_SetPriority split: list.splits)

lemma same_base_drop_if_empty: "drop_if_empty q s = Some s' \<Longrightarrow> same_base s s'"
  by (auto simp: drop_if_empty_def split: if_splits elim!: bind_SomeE)

lemma same_base_drop_empty: "drop_empty qs s = Some s' \<Longrightarrow> same_base s s'"
  by (induction qs arbitrary: s) (auto dest: same_base_drop_if_empty intro: same_base_trans elim!: bind_SomeE)

lemma same_base_queued: "same_base s s' \<Longrightarrow> queued s' = queued s"
  by (simp add: queued_def same_baseD)

lemma update_priorities_queued:
  "update_priorities_dom (now, qs, s) \<Longrightarrow> update_priorities now qs s = Some s' \<Longrightarrow> queued s' \<le> queued s"
proof (induction arbitrary: s' rule: update_priorities.pinduct)
  case (1 now s)
  then show ?case by (simp add: update_priorities.psimps)
next
  case (2 now q qs s)
  obtain s1 ps where s1: "DoExtractExpiredMpdus now q s = Some (s1, ps)"
    using 2(1,4) by (auto simp: update_priorities.psimps split: option.splits)
  obtain s3 where s3: "(if ps = [] then Some s1
                 else case update_priorities now (queue_id_set s1 ps) (fire_expired ps s1) of
                        None \<Rightarrow> None | Some s2 \<Rightarrow> drop_empty (queue_ids s2 ps) s2) = Some s3"
    using 2(1,4) s1 by (auto simp: update_priorities.psimps split: option.splits)
  obtain s4 where s4: "head_priority q s3 = Some s4" "update_priorities now qs s4 = Some s'"
    using 2(1,4) s1 s3 by (auto simp: update_priorities.psimps split: option.splits)
  have "queued s3 \<le> queued s1"
  proof (cases "ps = []")
    case False
    then obtain s2 where s2: "update_priorities now (queue_id_set s1 ps) (fire_expired ps s1) = Some s2"
      "drop_empty (queue_ids s2 ps) s2 = Some s3" using s3 by (auto split: option.splits)
    have "queued s2 \<le> queued (fire_expired ps s1)"
      using 2(2) [OF s1 refl False s2(1)] .
    then show ?thesis
      using same_base_queued [OF same_base_drop_empty [OF s2(2)]] by (simp add: fire_expired_def queued_def)
  qed (use s3 in simp)
  moreover have "queued s' \<le> queued s4"
    using 2(3) [OF s1 refl _ s4] s3 by simp
  ultimately show ?case
    using same_base_queued [OF same_base_head_priority [OF s4(1)]] DoExtractExpiredMpdus_queued [OF s1] by simp
qed

lemma update_priorities_total: "All update_priorities_dom"
proof (relation "measures [\<lambda>(now, qs, s). queued s, \<lambda>(now, qs, s). length qs]", goal_cases)
  case (2 now q qs s x s1 ps)
  then have "queued s1 + length ps = queued s" "0 < length ps"
    using DoExtractExpiredMpdus_queued [of now q s s1 ps] by simp_all
  then have "queued s1 < queued s" by linarith
  then show ?case by (simp add: fire_expired_def queued_def)
next
  case (3 now q qs s x s1 ps s3 s4)
  have "queued s3 \<le> queued s1"
  proof (cases "ps = []")
    case False
    obtain s2 where s2: "update_priorities now (queue_id_set s1 ps) (fire_expired ps s1) = Some s2"
      "drop_empty (queue_ids s2 ps) s2 = Some s3" using 3(3) False by (auto split: option.splits)
    have "queued s2 \<le> queued (fire_expired ps s1)"
      using update_priorities_queued [OF 3(5) [OF False] s2(1)] .
    then show ?thesis
      using same_base_queued [OF same_base_drop_empty [OF s2(2)]] by (simp add: fire_expired_def queued_def)
  qed (use 3 in simp)
  moreover have "queued s4 = queued s3"
    by (rule same_base_queued [OF same_base_head_priority [OF 3(4)]])
  ultimately show ?case
    using DoExtractExpiredMpdus_queued [of now q s s1 ps] 3(1,2) by auto
qed simp

termination update_priorities
  by (rule update_priorities_total)

declare update_priorities.simps [simp del]

definition NotifyRemove :: "time \<Rightarrow> nat list \<Rightarrow> 'a mac_queue_scheme \<Rightarrow> 'a mac_queue_scheme option" where
  "NotifyRemove now ps s =
     do { s \<leftarrow> update_priorities now (queue_id_set s ps) s; drop_empty (queue_ids s ps) s }"

definition NotifyDequeue :: "time \<Rightarrow> nat list \<Rightarrow> 'a mac_queue_scheme \<Rightarrow> 'a mac_queue_scheme option" where
  "NotifyDequeue now ps s =
     do { s \<leftarrow> update_priorities now (queue_id_set s ps) s; drop_empty (queue_ids s ps) s }"

definition ExtractExpiredMpdus :: "time \<Rightarrow> queue_id \<Rightarrow> 'a mac_queue_scheme \<Rightarrow> 'a mac_queue_scheme option" where
  "ExtractExpiredMpdus now q s =
     do { (s, ps) \<leftarrow> DoExtractExpiredMpdus now q s;
          (if ps = [] then Some s else NotifyRemove now ps (fire_expired ps s)) }"

text \<open>\<^verbatim>\<open>PeekByQueueId\<close> returns the first MPDU of a queue, or the one behind \<open>item\<close>.\<close>

definition next_in :: "nat \<Rightarrow> queue_elem list \<Rightarrow> nat option" where
  "next_in p l = (case dropWhile (\<lambda>e. qe_mpdu e \<noteq> p) l of _ # e # _ \<Rightarrow> Some (qe_mpdu e) | _ \<Rightarrow> None)"

definition PeekByQueueId ::
  "time \<Rightarrow> queue_id \<Rightarrow> nat option \<Rightarrow> 'a mac_queue_scheme \<Rightarrow> ('a mac_queue_scheme \<times> nat option) option" where
  "PeekByQueueId now q item s =
     (case item of
        None \<Rightarrow> do { s \<leftarrow> ExtractExpiredMpdus now q s;
                    Some (s, case GetQueue q s of [] \<Rightarrow> None | e # _ \<Rightarrow> Some (qe_mpdu e)) }
      | Some p \<Rightarrow> do { ns_assert (IsQueued p s \<and> queue_id_of s p = q);
                      Some (s, next_in p (GetQueue q s)) })"

lemma update_priorities_Nil [simp]: "update_priorities now [] s = Some s"
  by (simp add: update_priorities.simps)

lemma queue_id_of_same: "m_mpdu s' = m_mpdu s \<Longrightarrow> queue_id_of s' = queue_id_of s"
  by (rule ext) (simp add: queue_id_of_def)

lemma queue_ids_same:
  assumes "m_mpdu s' = m_mpdu s"
  shows "queue_ids s' = queue_ids s" "queue_id_set s' = queue_id_set s"
  by (rule ext, simp add: queue_ids_def queue_id_set_def queue_id_of_same [OF assms])+

lemma queue_ids_frame [simp]:
  "queue_ids (fire_expired ps s) = queue_ids s" "queue_id_set (fire_expired ps s) = queue_id_set s"
  by (rule queue_ids_same, simp add: fire_expired_def)+

lemma update_priorities_Cons:
  "update_priorities now (q # qs) s =
     do { s \<leftarrow> ExtractExpiredMpdus now q s; s \<leftarrow> head_priority q s; update_priorities now qs s }"
proof (cases "DoExtractExpiredMpdus now q s")
  case (Some r)
  then obtain s1 ps where "DoExtractExpiredMpdus now q s = Some (s1, ps)" by (cases r) simp
  note x = this
  have "ExtractExpiredMpdus now q s = (if ps = [] then Some s1
      else case update_priorities now (queue_id_set s1 ps) (fire_expired ps s1) of None \<Rightarrow> None
           | Some s2 \<Rightarrow> drop_empty (queue_ids s2 ps) s2)"
    by (cases "update_priorities now (queue_id_set s1 ps) (fire_expired ps s1)")
      (simp_all add: ExtractExpiredMpdus_def NotifyRemove_def x)
  then have *: "update_priorities now (q # qs) s =
      (case ExtractExpiredMpdus now q s of None \<Rightarrow> None
       | Some s \<Rightarrow> (case head_priority q s of None \<Rightarrow> None | Some s \<Rightarrow> update_priorities now qs s))"
    by (simp only: update_priorities.simps x option.case prod.case)
  show ?thesis
  proof (cases "ExtractExpiredMpdus now q s")
    case (Some t)
    show ?thesis unfolding * Some by (cases "head_priority q t") simp_all
  qed (simp add: *)
qed (simp add: update_priorities.simps ExtractExpiredMpdus_def)

lemma update_priorities_peek:
  "update_priorities now (q # qs) s =
     do { (s, item) \<leftarrow> PeekByQueueId now q None s;
          s \<leftarrow> (case item of None \<Rightarrow> Some s
                | Some p \<Rightarrow> SetPriority q \<lparr>fp_priority = qm_timestamp (m_mpdu s p), fp_type = qid_type q\<rparr> s);
          update_priorities now qs s }"
  by (auto simp: update_priorities_Cons PeekByQueueId_def head_priority_def split: list.splits bind_splits)

section \<open>Links and blocked queues\<close>

definition blocked_on :: "mq_env \<Rightarrow> nat \<Rightarrow> block_reason set" where
  "blocked_on v l = set (map fst (filter (\<lambda>(_, links). l \<in> links) (qv_blockAll v)))"

fun update_links :: "mq_env \<Rightarrow> mac48 \<Rightarrow> nat list \<Rightarrow> (nat, block_reason set) omap \<Rightarrow> (nat, block_reason set) omap" where
  "update_links v rxAddr [] m = m"
| "update_links v rxAddr (l # ls) m =
     update_links v rxAddr ls
       (if mac_IsGroup rxAddr \<or> qv_isSetup v l rxAddr then omap_emplace l (blocked_on v l) m
        else omap_erase l m)"

definition InitQueueInfo :: "mq_env \<Rightarrow> queued_mpdu \<Rightarrow> 'a mac_queue_scheme \<Rightarrow> 'a mac_queue_scheme option" where
  "InitQueueInfo v mpdu s =
     do { let q = GetQueueId mpdu;
          let i = (case m_queueInfo s q of Some i \<Rightarrow> i | None \<Rightarrow> \<lparr>qi_listed = False, qi_linkIds = []\<rparr>);
          let rxAddr = m_addr1 (qm_hdr mpdu);
          let txAddr = m_addr2 (qm_hdr mpdu);
          (if qv_isMld v txAddr
           then do { ns_assert (mac_IsGroup rxAddr \<or> qv_isMldPeer v rxAddr);
                     ns_assert (qv_canForward v rxAddr);
                     Some (set_info q (i\<lparr>qi_linkIds := update_links v rxAddr (qv_linkIds v) (qi_linkIds i)\<rparr>) s) }
           else do { l \<leftarrow> qv_linkByAddress v txAddr;
                     ns_assert (length (qi_linkIds i) \<le> 1);
                     Some (set_info q (if omap_keys (qi_linkIds i) = [l] then i
                                       else i\<lparr>qi_linkIds := [(l, blocked_on v l)]\<rparr>) s) }) }"

definition GetLinkIds :: "mq_env \<Rightarrow> queued_mpdu \<Rightarrow> block_reason list \<Rightarrow> 'a mac_queue_scheme \<Rightarrow> ('a mac_queue_scheme \<times> nat list) option" where
  "GetLinkIds v mpdu ignoredReasons s =
     do { s \<leftarrow> InitQueueInfo v mpdu s;
          i \<leftarrow> m_queueInfo s (GetQueueId mpdu);
          Some (s, map fst (filter (\<lambda>(l, mask). mask - set ignoredReasons = {}) (qi_linkIds i))) }"

definition set_mask :: "bool \<Rightarrow> block_reason \<Rightarrow> nat set \<Rightarrow> queue_info \<Rightarrow> queue_info" where
  "set_mask block reason linkIds i =
     i\<lparr>qi_linkIds := map (\<lambda>(l, mask). (l, if linkIds = {} \<or> l \<in> linkIds
                                           then if block then insert reason mask else mask - {reason}
                                           else mask)) (qi_linkIds i)\<rparr>"

fun block_headers :: "queue_type \<Rightarrow> u8 list \<Rightarrow> mac_hdr list option" where
  "block_headers WIFI_CTL_QUEUE tids = Some [WifiMacHeader WIFI_MAC_CTL_BACKREQ]"
| "block_headers WIFI_MGT_QUEUE tids = Some [WifiMacHeader WIFI_MAC_MGT_ACTION]"
| "block_headers WIFI_QOSDATA_QUEUE tids =
     do { ns_assert (tids \<noteq> []); Some (map (\<lambda>tid. SetQosTid tid (WifiMacHeader WIFI_MAC_QOSDATA)) tids) }"
| "block_headers WIFI_DATA_QUEUE tids = Some [WifiMacHeader WIFI_MAC_DATA]"

definition block_one ::
  "mq_env \<Rightarrow> bool \<Rightarrow> block_reason \<Rightarrow> mac48 \<Rightarrow> mac48 \<Rightarrow> nat set \<Rightarrow> mac_hdr \<Rightarrow> 'a mac_queue_scheme \<Rightarrow> 'a mac_queue_scheme option" where
  "block_one v block reason rxAddress txAddress linkIds hdr s =
     do { let mpdu = \<lparr>qm_hdr = SetAddr2 txAddress (SetAddr1 rxAddress hdr), qm_destination = 0, qm_size = 0,
                      qm_timestamp = qv_now v, qm_queueIt = None\<rparr>;
          s \<leftarrow> InitQueueInfo v mpdu s;
          i \<leftarrow> m_queueInfo s (GetQueueId mpdu);
          Some (set_info (GetQueueId mpdu) (set_mask block reason linkIds i) s) }"

fun block_all_of ::
  "mq_env \<Rightarrow> bool \<Rightarrow> block_reason \<Rightarrow> mac48 \<Rightarrow> mac48 \<Rightarrow> nat set \<Rightarrow> mac_hdr list \<Rightarrow> 'a mac_queue_scheme \<Rightarrow> 'a mac_queue_scheme option" where
  "block_all_of v block reason rx tx linkIds [] s = Some s"
| "block_all_of v block reason rx tx linkIds (hdr # hdrs) s =
     do { s \<leftarrow> block_one v block reason rx tx linkIds hdr s; block_all_of v block reason rx tx linkIds hdrs s }"

fun collect_headers :: "queue_type list \<Rightarrow> u8 list \<Rightarrow> mac_hdr list option" where
  "collect_headers [] tids = Some []"
| "collect_headers (t # ts) tids =
     do { hs \<leftarrow> block_headers t tids; hs' \<leftarrow> collect_headers ts tids; Some (hs @ hs') }"

definition DoBlockQueues ::
  "mq_env \<Rightarrow> bool \<Rightarrow> block_reason \<Rightarrow> queue_type list \<Rightarrow> mac48 \<Rightarrow> mac48 \<Rightarrow> u8 list \<Rightarrow> nat set
    \<Rightarrow> 'a mac_queue_scheme \<Rightarrow> 'a mac_queue_scheme option" where
  "DoBlockQueues v block reason types rxAddress txAddress tids linkIds s =
     do { hdrs \<leftarrow> collect_headers types tids;
          block_all_of v block reason rxAddress txAddress linkIds hdrs s }"

definition BlockQueues ::
  "mq_env \<Rightarrow> block_reason \<Rightarrow> queue_type list \<Rightarrow> mac48 \<Rightarrow> mac48 \<Rightarrow> u8 list \<Rightarrow> nat set
    \<Rightarrow> 'a mac_queue_scheme \<Rightarrow> 'a mac_queue_scheme option" where
  "BlockQueues v = DoBlockQueues v True"

definition UnblockQueues ::
  "mq_env \<Rightarrow> block_reason \<Rightarrow> queue_type list \<Rightarrow> mac48 \<Rightarrow> mac48 \<Rightarrow> u8 list \<Rightarrow> nat set
    \<Rightarrow> 'a mac_queue_scheme \<Rightarrow> 'a mac_queue_scheme option" where
  "UnblockQueues v = DoBlockQueues v False"

definition GetQueueLinkMask :: "queue_id \<Rightarrow> nat \<Rightarrow> 'a mac_queue_scheme \<Rightarrow> block_reason set option" where
  "GetQueueLinkMask q l s = do { i \<leftarrow> m_queueInfo s q; omap_get (qi_linkIds i) l }"

text \<open>The scheduler of all access categories, which remembers what is blocked for all queues.\<close>

record fcfs_scheduler =
  m_perAcInfo :: "ac_index \<Rightarrow> mac_queue"
  m_blockAllInfo :: "(block_reason \<times> nat set) list"

definition DoBlockAllQueues :: "bool \<Rightarrow> block_reason \<Rightarrow> nat set \<Rightarrow> fcfs_scheduler \<Rightarrow> fcfs_scheduler" where
  "DoBlockAllQueues block reason linkIds d =
     d\<lparr>m_perAcInfo := (\<lambda>ac. let s = m_perAcInfo d ac
                            in s\<lparr>m_queueInfo := (\<lambda>q. map_option (set_mask block reason linkIds) (m_queueInfo s q))\<rparr>)\<rparr>"

definition BlockAllQueues :: "nat list \<Rightarrow> block_reason \<Rightarrow> nat set \<Rightarrow> fcfs_scheduler \<Rightarrow> fcfs_scheduler" where
  "BlockAllQueues allLinks reason linkIds d =
     (let d = DoBlockAllQueues True reason linkIds d;
          old = (case map_of (m_blockAllInfo d) reason of Some ls \<Rightarrow> ls | None \<Rightarrow> {})
      in d\<lparr>m_blockAllInfo := AList.update reason (if linkIds = {} then set allLinks else old \<union> linkIds) (m_blockAllInfo d)\<rparr>)"

definition UnblockAllQueues :: "block_reason \<Rightarrow> nat set \<Rightarrow> fcfs_scheduler \<Rightarrow> fcfs_scheduler" where
  "UnblockAllQueues reason linkIds d =
     (let d = DoBlockAllQueues False reason linkIds d
      in case map_of (m_blockAllInfo d) reason of
           None \<Rightarrow> d
         | Some ls \<Rightarrow>
             let ls = (if linkIds = {} then {} else ls - linkIds)
             in d\<lparr>m_blockAllInfo := (if ls = {} then AList.delete reason (m_blockAllInfo d)
                                    else AList.update reason ls (m_blockAllInfo d))\<rparr>)"

definition GetAllQueuesBlockedOnLink :: "nat \<Rightarrow> block_reason \<Rightarrow> fcfs_scheduler \<Rightarrow> bool" where
  "GetAllQueuesBlockedOnLink linkId reason d \<longleftrightarrow>
     (\<exists>(r, ls) \<in> set (m_blockAllInfo d). (reason = REASONS_COUNT \<or> reason = r) \<and> linkId \<in> ls)"

section \<open>The next queue to serve\<close>

definition eligible :: "nat option \<Rightarrow> bool \<Rightarrow> queue_info \<Rightarrow> bool" where
  "eligible linkId skipBlockedQueues i \<longleftrightarrow>
     \<not> skipBlockedQueues \<or> (\<exists>(l, mask) \<in> set (qi_linkIds i). (linkId = None \<or> linkId = Some l) \<and> mask = {})"

text \<open>
  The iterator over the sorted list is its position.  After the queue at the position \<open>n\<close> has become
  empty the search goes on behind the entry that came before it, by then in \<open>l'\<close>.
\<close>

definition position_after :: "queue_id \<Rightarrow> (fcfs_prio \<times> queue_id) list \<Rightarrow> nat option" where
  "position_after r l =
     do { ns_assert (r \<in> snd ` set l); Some (length l - length (takeWhile (\<lambda>(_, q). q \<noteq> r) (rev l))) }"

definition next_position :: "nat \<Rightarrow> queue_id \<Rightarrow> (fcfs_prio \<times> queue_id) list \<Rightarrow> (fcfs_prio \<times> queue_id) list \<Rightarrow> nat option" where
  "next_position n q l l' =
     do { m \<leftarrow> (if n \<noteq> 0 then position_after (snd (l ! (n - 1))) l' else Some 0);
          Some (if m < length l' \<and> snd (l' ! m) = q then m + 1 else m) }"

function DoGetNext ::
  "time \<Rightarrow> nat option \<Rightarrow> bool \<Rightarrow> nat \<Rightarrow> 'a mac_queue_scheme \<Rightarrow> ('a mac_queue_scheme \<times> queue_id option) option" where
  "DoGetNext now linkId skip n s =
     (if length (m_sortedQueues s) \<le> n then Some (s, None)
      else let q = snd (m_sortedQueues s ! n)
           in case m_queueInfo s q of
                None \<Rightarrow> None
              | Some i \<Rightarrow>
                  if eligible linkId skip i
                  then (case ExtractExpiredMpdus now q s of
                          None \<Rightarrow> None
                        | Some s' \<Rightarrow>
                            (case c_GetNBytes q s' of
                               None \<Rightarrow> None
                             | Some b \<Rightarrow>
                                 if b \<noteq> 0 then Some (s', Some q)
                                 else (case next_position n q (m_sortedQueues s) (m_sortedQueues s') of
                                         None \<Rightarrow> None
                                       | Some n' \<Rightarrow> DoGetNext now linkId skip n' s')))
                  else DoGetNext now linkId skip (n + 1) s)"
  by pat_completeness auto

text \<open>An extraction that takes no MPDU changes nothing, so the search goes on behind the queue.\<close>

lemma NotifyRemove_queued:
  assumes "NotifyRemove now ps s = Some s'"
  shows "queued s' \<le> queued s"
proof -
  obtain t where t: "update_priorities now (queue_id_set s ps) s = Some t" "drop_empty (queue_ids t ps) t = Some s'"
    using assms by (auto simp: NotifyRemove_def elim!: bind_SomeE)
  from update_priorities_queued [OF spec [OF update_priorities_total] t(1)] same_base_queued [OF same_base_drop_empty [OF t(2)]]
  show ?thesis by simp
qed

lemma ExtractExpiredMpdus_queued:
  assumes "ExtractExpiredMpdus now q s = Some s'"
  shows "queued s' \<le> queued s" and "queued s' = queued s \<Longrightarrow> s' = s"
proof -
  obtain s1 ps where e: "DoExtractExpiredMpdus now q s = Some (s1, ps)"
    and s': "(if ps = [] then Some s1 else NotifyRemove now ps (fire_expired ps s1)) = Some s'"
    using assms by (auto simp: ExtractExpiredMpdus_def elim!: bind_SomeE)
  have len: "queued s1 + length ps = queued s" by (rule DoExtractExpiredMpdus_queued [OF e])
  have "queued s' \<le> queued s1"
    using s' NotifyRemove_queued [of now ps "fire_expired ps s1" s'] by (auto simp: fire_expired_def queued_def split: if_splits)
  with len show "queued s' \<le> queued s" by simp
  assume "queued s' = queued s"
  with len \<open>queued s' \<le> queued s1\<close> have ps: "ps = []" by (cases ps) simp_all
  with s' have "s' = s1" by simp
  also have "s1 = s"
    using e ps by (auto simp: DoExtractExpiredMpdus_def split: prod.splits if_splits elim!: bind_SomeE)
  finally show "s' = s" .
qed

text \<open>The position moves on, or an MPDU has left the queues.\<close>

lemma position_after_less:
  assumes "position_after r l = Some m" "n < length l" "snd (l ! n) = r"
  shows "n < m"
proof -
  have "length (takeWhile (\<lambda>(_, q). q \<noteq> r) (rev l)) \<le> length l - Suc n"
  proof (rule ccontr)
    assume "\<not> ?thesis"
    then have "length l - Suc n < length (takeWhile (\<lambda>(_, q). q \<noteq> r) (rev l))" by simp
    moreover have "rev l ! (length l - Suc n) = l ! n" using assms(2) by (simp add: rev_nth)
    ultimately have "snd (l ! n) \<noteq> r"
      using nth_mem [of "length l - Suc n" "takeWhile (\<lambda>(_, q). q \<noteq> r) (rev l)"]
      by (auto simp: takeWhile_nth dest!: set_takeWhileD)
    with assms(3) show False by simp
  qed
  then show ?thesis using assms(1,2) by (auto simp: position_after_def elim!: bind_SomeE)
qed

lemma next_position_less:
  assumes "next_position n (snd (l ! n)) l l = Some m" "n < length l"
  shows "n < m"
proof -
  let ?q = "snd (l ! n)"
  obtain k where k: "(if n \<noteq> 0 then position_after (snd (l ! (n - 1))) l else Some 0) = Some k"
    "m = (if k < length l \<and> snd (l ! k) = ?q then k + 1 else k)"
    using assms(1) by (auto simp: next_position_def elim!: bind_SomeE)
  have "n \<le> k"
    using k(1) assms(2) position_after_less [of "snd (l ! (n - 1))" l k "n - 1"] by (cases n) auto
  then show ?thesis using k(2) assms(2) by (cases "n = k") auto
qed

termination DoGetNext
proof (relation "measures [\<lambda>(now, l, sk, n, s). queued s, \<lambda>(now, l, sk, n, s). length (m_sortedQueues s) - n]", goal_cases)
  case (2 now linkId skip n s q i s' b n')
  then show ?case
    using ExtractExpiredMpdus_queued [of now q s s'] next_position_less [of n "m_sortedQueues s" n']
    by (cases "queued s' = queued s") auto
qed auto

declare DoGetNext.simps [simp del]

definition GetNext :: "time \<Rightarrow> nat option \<Rightarrow> bool \<Rightarrow> 'a mac_queue_scheme \<Rightarrow> ('a mac_queue_scheme \<times> queue_id option) option" where
  "GetNext now linkId skipBlockedQueues s = DoGetNext now linkId skipBlockedQueues 0 s"

definition GetNextAfter ::
  "time \<Rightarrow> nat option \<Rightarrow> queue_id \<Rightarrow> bool \<Rightarrow> 'a mac_queue_scheme \<Rightarrow> ('a mac_queue_scheme \<times> queue_id option) option" where
  "GetNextAfter now linkId prevQueueId skipBlockedQueues s =
     do { i \<leftarrow> m_queueInfo s prevQueueId;
          ns_assert (qi_listed i);
          n \<leftarrow> position_after prevQueueId (m_sortedQueues s);
          DoGetNext now linkId skipBlockedQueues n s }"

section \<open>MPDUs enter and leave\<close>

text \<open>
  \<^verbatim>\<open>HasToDropBeforeEnqueuePriv\<close>: the first MPDU in the order of the sorted queues that is
  neither in flight nor a retransmission.  The loop is only modelled as long as the list it runs over
  stays the same.
\<close>

fun drop_candidate :: "time \<Rightarrow> queue_id list \<Rightarrow> 'a mac_queue_scheme \<Rightarrow> ('a mac_queue_scheme \<times> nat option) option" where
  "drop_candidate now [] s = Some (s, None)"
| "drop_candidate now (q # qs) s =
     (if qid_type q = WIFI_MGT_QUEUE \<or> qid_type q = WIFI_CTL_QUEUE then drop_candidate now qs s
      else do {
        (s', _) \<leftarrow> PeekByQueueId now q None s;
        ns_assert (m_sortedQueues s' = m_sortedQueues s);
        (case find (\<lambda>e. qe_inflights e = {} \<and> \<not> IsRetry (qm_hdr (m_mpdu s' (qe_mpdu e)))) (GetQueue q s') of
           Some e \<Rightarrow> Some (s', Some (qe_mpdu e))
         | None \<Rightarrow> drop_candidate now qs s') })"

definition HasToDropBeforeEnqueue :: "mq_env \<Rightarrow> nat \<Rightarrow> 'a mac_queue_scheme \<Rightarrow> ('a mac_queue_scheme \<times> nat option) option" where
  "HasToDropBeforeEnqueue v item s =
     (let hdr = qm_hdr (m_mpdu s item)
      in if m_nPackets s < m_maxSize s then Some (s, None)
         else if qv_dropOldest v \<or> IsCtl hdr \<or> IsMgt hdr
         then do { (s, r) \<leftarrow> drop_candidate (qv_now v) (map snd (m_sortedQueues s)) s;
                   Some (s, Some (case r of Some p \<Rightarrow> p | None \<Rightarrow> item)) }
         else Some (s, Some item))"

definition NotifyEnqueue :: "mq_env \<Rightarrow> nat \<Rightarrow> 'a mac_queue_scheme \<Rightarrow> 'a mac_queue_scheme option" where
  "NotifyEnqueue v p s =
     do { s \<leftarrow> InitQueueInfo v (m_mpdu s p) s;
          let q = queue_id_of s p;
          (s, item) \<leftarrow> PeekByQueueId (qv_now v) q None s;
          item \<leftarrow> item;
          s \<leftarrow> SetPriority q \<lparr>fp_priority = qm_timestamp (m_mpdu s item), fp_type = qid_type q\<rparr> s;
          i \<leftarrow> m_queueInfo s q;
          ns_assert (qi_listed i);
          Some s }"

text \<open>The element of an MPDU, which \<^verbatim>\<open>GetIt\<close> gives.\<close>

definition elem_of :: "nat \<Rightarrow> 'a container_scheme \<Rightarrow> queue_elem option" where
  "elem_of p c = do { q \<leftarrow> qm_queueIt (m_mpdu c p); find (\<lambda>e. qe_mpdu e = p) (GetQueue q c) }"

definition on_elem :: "nat \<Rightarrow> (queue_elem \<Rightarrow> queue_elem) \<Rightarrow> 'a container_scheme \<Rightarrow> 'a container_scheme option" where
  "on_elem p f c =
     do { q \<leftarrow> qm_queueIt (m_mpdu c p);
          ns_assert (p \<in> qe_mpdu ` set (GetQueue q c));
          Some (put_queue q (map (\<lambda>e. if qe_mpdu e = p then f e else e) (GetQueue q c)) c) }"

definition SetInFlight :: "nat \<Rightarrow> nat \<Rightarrow> 'a container_scheme \<Rightarrow> 'a container_scheme option" where
  "SetInFlight linkId p = on_elem p (\<lambda>e. e\<lparr>qe_inflights := insert linkId (qe_inflights e)\<rparr>)"

definition ResetInFlight :: "nat \<Rightarrow> nat \<Rightarrow> 'a container_scheme \<Rightarrow> 'a container_scheme option" where
  "ResetInFlight linkId p = on_elem p (\<lambda>e. e\<lparr>qe_inflights := qe_inflights e - {linkId}\<rparr>)"

text \<open>A control frame does not take room from the others.\<close>

definition release_room :: "nat \<Rightarrow> 'a mac_queue_scheme \<Rightarrow> 'a mac_queue_scheme option" where
  "release_room p s =
     (if IsCtl (qm_hdr (m_mpdu s p))
      then do { ns_assert (m_maxSize s \<ge> 1); SetMaxSize (m_maxSize s - 1) s }
      else Some s)"

definition DoRemove :: "mq_env \<Rightarrow> elem_it \<Rightarrow> 'a mac_queue_scheme \<Rightarrow> ('a mac_queue_scheme \<times> nat option) option" where
  "DoRemove v pos s =
     do { (s, item) \<leftarrow> base_DoRemove pos s;
          (case item of
             None \<Rightarrow> Some (s, None)
           | Some p \<Rightarrow> do { s \<leftarrow> release_room p s;
                          s \<leftarrow> NotifyRemove (qv_now v) [p] s;
                          Some (s, Some p) }) }"

fun dequeue_all :: "nat list \<Rightarrow> 'a mac_queue_scheme \<Rightarrow> ('a mac_queue_scheme \<times> nat list) option" where
  "dequeue_all [] s = Some (s, [])"
| "dequeue_all (p # ps) s =
     do { (s, item) \<leftarrow> base_DoDequeue (In_Queue p) s;
          s \<leftarrow> (case item of None \<Rightarrow> Some s | Some i \<Rightarrow> release_room i s);
          (s, items) \<leftarrow> dequeue_all ps s;
          Some (s, case item of None \<Rightarrow> items | Some i \<Rightarrow> i # items) }"

definition DoDequeue :: "mq_env \<Rightarrow> nat list \<Rightarrow> 'a mac_queue_scheme \<Rightarrow> 'a mac_queue_scheme option" where
  "DoDequeue v its s =
     do { (s, items) \<leftarrow> dequeue_all its s;
          (if items = [] then Some s else NotifyDequeue (qv_now v) items s) }"

text \<open>The item goes to its container queue, if the base class has room for it.\<close>

definition place_item ::
  "mq_env \<Rightarrow> nat option \<Rightarrow> nat \<Rightarrow> nat \<Rightarrow> 'a mac_queue_scheme \<Rightarrow> ('a mac_queue_scheme \<times> bool) option" where
  "place_item v pos item currSize s =
     do { (s, ok) \<leftarrow> base_DoEnqueue pos item s;
          (if ok
           then do { let s = SetQueueIt (Some (queue_id_of s item)) item s;
                     let expiry = (if IsCtl (qm_hdr (m_mpdu s item)) then TimeMax else qv_now v + m_maxDelay s);
                     s \<leftarrow> on_elem item (\<lambda>e. e\<lparr>qe_ac := m_ac s, qe_expiryTime := expiry\<rparr>) s;
                     s \<leftarrow> NotifyEnqueue v item s;
                     Some (s, True) }
           else do { s \<leftarrow> SetMaxSize currSize s; Some (s, False) }) }"

definition DoEnqueue :: "mq_env \<Rightarrow> nat option \<Rightarrow> nat \<Rightarrow> 'a mac_queue_scheme \<Rightarrow> ('a mac_queue_scheme \<times> bool) option" where
  "DoEnqueue v pos item s =
     do { let currSize = m_maxSize s;
          let ctl = IsCtl (qm_hdr (m_mpdu s item));
          s \<leftarrow> (if ctl then SetMaxSize (currSize + 1) s else Some s);
          (s, mpdu) \<leftarrow> HasToDropBeforeEnqueue v item s;
          (if mpdu = Some item
           then do { s \<leftarrow> SetMaxSize currSize s; Some (s, False) }
           else do {
             let pos = (if pos \<noteq> None \<and> mpdu \<noteq> None \<and> pos = mpdu
                        then next_in (the pos) (GetQueue (queue_id_of s item) s) else pos);
             s \<leftarrow> (case mpdu of
                     None \<Rightarrow> Some s
                   | Some p \<Rightarrow> do { ns_assert (IsQueued p s); map_option fst (DoRemove v (In_Queue p) s) });
             place_item v pos item currSize s }) }"

definition ExtractAllExpiredMpdus :: "time \<Rightarrow> 'a mac_queue_scheme \<Rightarrow> 'a mac_queue_scheme option" where
  "ExtractAllExpiredMpdus now s =
     do { (s, ps) \<leftarrow> c_ExtractAllExpiredMpdus now s;
          (if ps = [] then Some s else NotifyRemove now ps (fire_expired ps s)) }"

fun wipe :: "nat list \<Rightarrow> 'a mac_queue_scheme \<Rightarrow> 'a mac_queue_scheme option" where
  "wipe [] s = Some s"
| "wipe (p # ps) s = do { (s, _) \<leftarrow> base_DoRemove (In_Expired p) s; wipe ps s }"

definition WipeAllExpiredMpdus :: "time \<Rightarrow> 'a mac_queue_scheme \<Rightarrow> 'a mac_queue_scheme option" where
  "WipeAllExpiredMpdus now s =
     do { s \<leftarrow> ExtractAllExpiredMpdus now s; wipe (map qe_mpdu (m_expiredQueue s)) s }"

definition Insert :: "mq_env \<Rightarrow> nat option \<Rightarrow> nat \<Rightarrow> 'a mac_queue_scheme \<Rightarrow> ('a mac_queue_scheme \<times> bool) option" where
  "Insert v pos item s =
     (if m_nPackets s < m_maxSize s then DoEnqueue v pos item s
      else do {
        let q = queue_id_of s item;
        pos \<leftarrow> (case pos of
                  None \<Rightarrow> Some None
                | Some p \<Rightarrow> do { ns_assert (queue_id_of s p = q);
                               e \<leftarrow> find (\<lambda>e. qe_mpdu e = p) (GetQueue q s);
                               Some (if qe_expiryTime e \<le> qv_now v
                                     then (case GetQueue q s of [] \<Rightarrow> None | h # _ \<Rightarrow> Some (qe_mpdu h))
                                     else Some p) });
        s \<leftarrow> WipeAllExpiredMpdus (qv_now v) s;
        DoEnqueue v pos item s })"

definition Enqueue :: "mq_env \<Rightarrow> nat \<Rightarrow> 'a mac_queue_scheme \<Rightarrow> ('a mac_queue_scheme \<times> bool) option" where
  "Enqueue v item s = Insert v None item s"

definition Dequeue :: "'a mac_queue_scheme \<Rightarrow> ('a mac_queue_scheme \<times> nat option) option" where
  "Dequeue s = None"

definition DequeueIfQueued :: "mq_env \<Rightarrow> nat list \<Rightarrow> 'a mac_queue_scheme \<Rightarrow> 'a mac_queue_scheme option" where
  "DequeueIfQueued v mpdus s =
     do { let its = filter (\<lambda>p. IsQueued p s) mpdus;
          ns_assert (\<forall>p \<in> set its. map_option qe_ac (elem_of p s) = Some (m_ac s));
          DoDequeue v its s }"

definition Peek :: "mq_env \<Rightarrow> nat option \<Rightarrow> 'a mac_queue_scheme \<Rightarrow> ('a mac_queue_scheme \<times> nat option) option" where
  "Peek v linkId s =
     do { (s, q) \<leftarrow> GetNext (qv_now v) linkId True s;
          (case q of
             None \<Rightarrow> Some (s, None)
           | Some q \<Rightarrow> (case GetQueue q s of [] \<Rightarrow> None | e # _ \<Rightarrow> Some (s, Some (qe_mpdu e)))) }"

definition PeekByTidAndAddress ::
  "mq_env \<Rightarrow> u8 \<Rightarrow> mac48 \<Rightarrow> nat option \<Rightarrow> 'a mac_queue_scheme \<Rightarrow> ('a mac_queue_scheme \<times> nat option) option" where
  "PeekByTidAndAddress v tid dest item s =
     do { ns_assert (\<not> mac_IsBroadcast dest);
          PeekByQueueId (qv_now v)
            (Queue_Id WIFI_QOSDATA_QUEUE (if mac_IsGroup dest then GROUPCAST else UNICAST) dest (Some tid)) item s }"

definition PeekFirstAvailable :: "mq_env \<Rightarrow> nat \<Rightarrow> nat option \<Rightarrow> 'a mac_queue_scheme \<Rightarrow> ('a mac_queue_scheme \<times> nat option) option" where
  "PeekFirstAvailable v linkId item s =
     do { let head = (\<lambda>s q. case q of
                        None \<Rightarrow> Some (s, None)
                      | Some q \<Rightarrow> (case GetQueue q s of [] \<Rightarrow> None | e # _ \<Rightarrow> Some (s, Some (qe_mpdu e))));
          (case item of
             None \<Rightarrow> do { (s, q) \<leftarrow> GetNext (qv_now v) (Some linkId) True s; head s q }
           | Some p \<Rightarrow> do {
               ns_assert (IsQueued p s);
               (s, r) \<leftarrow> PeekByQueueId (qv_now v) (queue_id_of s p) (Some p) s;
               (if r \<noteq> None then Some (s, r)
                else do { (s, q) \<leftarrow> GetNextAfter (qv_now v) (Some linkId) (queue_id_of s p) True s; head s q }) }) }"

definition Remove :: "mq_env \<Rightarrow> nat \<Rightarrow> 'a mac_queue_scheme \<Rightarrow> ('a mac_queue_scheme \<times> nat option) option" where
  "Remove v p s =
     do { e \<leftarrow> elem_of p s;
          ns_assert (qe_ac e = m_ac s);
          DoRemove v (In_Queue p) s }"

definition RemoveFirst :: "mq_env \<Rightarrow> 'a mac_queue_scheme \<Rightarrow> ('a mac_queue_scheme \<times> nat option) option" where
  "RemoveFirst v s =
     do { (s, q) \<leftarrow> GetNext (qv_now v) None False s;
          (case q of
             None \<Rightarrow> Some (s, None)
           | Some q \<Rightarrow> (case GetQueue q s of [] \<Rightarrow> None | e # _ \<Rightarrow> Remove v (qe_mpdu e) s)) }"

text \<open>The loop of the base class may not end.\<close>

partial_function (option) flush_loop :: "mq_env \<Rightarrow> 'a mac_queue_scheme \<Rightarrow> 'a mac_queue_scheme option" where
  "flush_loop v s = (if m_nPackets s = 0 then Some s else do { (s, _) \<leftarrow> RemoveFirst v s; flush_loop v s })"

definition Flush :: "mq_env \<Rightarrow> 'a mac_queue_scheme \<Rightarrow> 'a mac_queue_scheme option" where
  "Flush v s = do { s \<leftarrow> WipeAllExpiredMpdus (qv_now v) s; flush_loop v s }"

definition Replace :: "mq_env \<Rightarrow> nat \<Rightarrow> nat \<Rightarrow> 'a mac_queue_scheme \<Rightarrow> 'a mac_queue_scheme option" where
  "Replace v currentItem newItem s =
     do { e \<leftarrow> elem_of currentItem s;
          ns_assert (qe_ac e = m_ac s);
          ns_assert (\<not> IsQueued newItem s);
          q \<leftarrow> qm_queueIt (m_mpdu s currentItem);
          let pos = next_in currentItem (GetQueue q s);
          s \<leftarrow> DoDequeue v [currentItem] s;
          (s, ret) \<leftarrow> Insert v pos newItem s;
          s \<leftarrow> on_elem newItem (\<lambda>e'. e'\<lparr>qe_expiryTime := qe_expiryTime e\<rparr>) s;
          ns_assert ret;
          Some s }"

text \<open>\<open>traceExpired\<close> is what is connected to the trace source Expired.\<close>

definition TtlExceeded ::
  "mq_env \<Rightarrow> (nat \<Rightarrow> 'a mac_queue_scheme \<Rightarrow> 'a mac_queue_scheme option) \<Rightarrow> nat \<Rightarrow> 'a mac_queue_scheme
    \<Rightarrow> ('a mac_queue_scheme \<times> bool) option" where
  "TtlExceeded v traceExpired item s =
     do { e \<leftarrow> elem_of item s;
          (if qv_now v > qe_expiryTime e
           then do { s \<leftarrow> traceExpired item s;
                     s \<leftarrow> (if IsQueued item s then map_option fst (DoRemove v (In_Queue item) s) else Some s);
                     Some (s, True) }
           else Some (s, False)) }"

definition SetMaxDelay :: "time \<Rightarrow> 'a mac_queue_scheme \<Rightarrow> 'a mac_queue_scheme" where
  "SetMaxDelay delay s = s\<lparr>m_maxDelay := delay\<rparr>"

definition mq_GetNPackets :: "queue_id \<Rightarrow> 'a mac_queue_scheme \<Rightarrow> nat" where
  "mq_GetNPackets q s = length (GetQueue q s)"

definition mq_GetNBytes :: "queue_id \<Rightarrow> 'a mac_queue_scheme \<Rightarrow> nat option" where
  "mq_GetNBytes q s = c_GetNBytes q s"

end
