(* ===== verification/Mac_Queue_Wf.thy ===== *)
theory Mac_Queue_Wf
  imports Mac_Queue "HOL-Library.Multiset"
begin

text \<open>
  The state of a MAC queue at rest: every MPDU is in the one container queue that its header selects,
  the counters count what is there, and the sorted list of the scheduler holds the queues that are not
  empty, each with the priority of its head.  Within an operation the list lags behind for the queues
  that have just changed.
\<close>

section \<open>The container\<close>

definition qids :: "queue_id \<Rightarrow> 'a container_scheme \<Rightarrow> nat list" where
  "qids q c = map qe_mpdu (GetQueue q c)"

definition octets_of :: "'a container_scheme \<Rightarrow> nat list \<Rightarrow> nat" where
  "octets_of c ps = sum_list (map (\<lambda>p. qm_size (m_mpdu c p)) ps)"

definition octets :: "'a container_scheme \<Rightarrow> nat" where
  "octets c = sum_list (map (\<lambda>(q, l). octets_of c (map qe_mpdu l)) (m_queues c))"

definition expired_ids :: "'a container_scheme \<Rightarrow> nat list" where
  "expired_ids c = map qe_mpdu (m_expiredQueue c)"

definition container_wf :: "'a container_scheme \<Rightarrow> bool" where
  "container_wf c \<longleftrightarrow>
     distinct (map fst (m_queues c))
     \<and> (\<forall>q. distinct (qids q c) \<and> (\<forall>p \<in> set (qids q c). queue_id_of c p = q \<and> qm_size (m_mpdu c p) > 0))
     \<and> (\<forall>q p. qm_queueIt (m_mpdu c p) = Some q \<longleftrightarrow> p \<in> set (qids q c))
     \<and> distinct (expired_ids c) \<and> (\<forall>p \<in> set (expired_ids c). qm_queueIt (m_mpdu c p) = None)
     \<and> (\<forall>q n. m_nBytesPerQueue c q = Some n \<longrightarrow> n = octets_of c (qids q c))
     \<and> (\<forall>q. m_nBytesPerQueue c q = None \<longrightarrow> GetQueue q c = [])"

lemma container_wfD:
  assumes "container_wf c"
  shows "distinct (map fst (m_queues c))" "distinct (qids q c)" "p \<in> set (qids q c) \<Longrightarrow> queue_id_of c p = q"
    "p \<in> set (qids q c) \<Longrightarrow> qm_size (m_mpdu c p) > 0" "qm_queueIt (m_mpdu c p) = Some q \<longleftrightarrow> p \<in> set (qids q c)"
    "distinct (expired_ids c)" "p \<in> set (expired_ids c) \<Longrightarrow> qm_queueIt (m_mpdu c p) = None"
    "m_nBytesPerQueue c q = Some n \<Longrightarrow> n = octets_of c (qids q c)" "m_nBytesPerQueue c q = None \<Longrightarrow> GetQueue q c = []"
  using assms unfolding container_wf_def by blast+

lemma GetQueue_put_queue: "GetQueue r (put_queue q l c) = (if r = q then l else GetQueue r c)"
  by (simp add: GetQueue_def put_queue_def update_conv')

lemma qids_put_queue: "qids r (put_queue q l c) = (if r = q then map qe_mpdu l else qids r c)"
  by (simp add: qids_def GetQueue_put_queue)

lemma put_queue_frame [simp]:
  "m_mpdu (put_queue q l c) = m_mpdu c" "m_nBytesPerQueue (put_queue q l c) = m_nBytesPerQueue c"
  "m_expiredQueue (put_queue q l c) = m_expiredQueue c"
  "distinct (map fst (m_queues (put_queue q l c))) \<longleftrightarrow> distinct (map fst (m_queues c))"
  by (simp_all add: put_queue_def update_keys)

lemma sum_list_AList_update:
  "sum_list (map (\<lambda>(q, l). f l) (AList.update k v m)) + (case map_of m k of Some l \<Rightarrow> f l | None \<Rightarrow> 0)
     = sum_list (map (\<lambda>(q, l). f l) m) + (f v :: nat)"
  by (induction m) (auto split: option.splits)

lemma octets_put_queue:
  "octets (put_queue q l c) + octets_of c (qids q c) = octets c + octets_of c (map qe_mpdu l)"
  using sum_list_AList_update [of "\<lambda>l. octets_of c (map qe_mpdu l)" q l "m_queues c"]
  by (auto simp: octets_def put_queue_def GetQueue_def qids_def octets_of_def split: option.splits)

text \<open>With the counters of the base class.\<close>

definition base_wf :: "'a queue_base_scheme \<Rightarrow> bool" where
  "base_wf b \<longleftrightarrow>
     container_wf b \<and> m_nPackets b = queued b + length (m_expiredQueue b)
     \<and> m_nBytes b = octets b + octets_of b (expired_ids b)"

section \<open>Expired MPDUs are extracted\<close>

lemma split_expired_perm:
  "split_expired now l = (stay, taken) \<Longrightarrow> mset stay + mset taken = mset l"
  by (induction now l arbitrary: stay taken rule: split_expired.induct) (auto split: if_splits prod.splits)

lemma split_expired_idle [simp]: "split_expired now (fst (split_expired now l)) = (fst (split_expired now l), [])"
proof (induction l)
  case (Cons e l)
  then show ?case by (cases "qe_inflights e = {}") (auto split: prod.splits)
qed simp

lemma split_expired_none: "snd (split_expired now l) = [] \<Longrightarrow> fst (split_expired now l) = l"
  by (induction now l rule: split_expired.induct) (auto split: if_splits prod.splits)

lemma split_expired_taken: "e \<in> set (snd (split_expired now l)) \<Longrightarrow> qe_inflights e = {} \<and> qe_expiryTime e \<le> now"
  by (induction now l rule: split_expired.induct) (auto split: if_splits prod.splits)

lemma split_expired_head:
  "fst (split_expired now l) = e # es \<Longrightarrow> qe_inflights e \<noteq> {} \<or> now < qe_expiryTime e"
  by (induction now l rule: split_expired.induct) (auto split: if_splits prod.splits)

lemma GetQueueId_update [simp]: "GetQueueId (m\<lparr>qm_queueIt := x\<rparr>) = GetQueueId m"
  by (simp add: GetQueueId_def Let_def cong: if_cong)

definition unqueue :: "nat set \<Rightarrow> 'a container_scheme \<Rightarrow> 'a container_scheme" where
  "unqueue P c = c\<lparr>m_mpdu := (\<lambda>p. if p \<in> P then (m_mpdu c p)\<lparr>qm_queueIt := None\<rparr> else m_mpdu c p)\<rparr>"

lemma unqueue_simps [simp]:
  "unqueue {} c = c" "queue_id_of (unqueue P c) = queue_id_of c" "octets_of (unqueue P c) = octets_of c"
  "m_queues (unqueue P c) = m_queues c" "m_expiredQueue (unqueue P c) = m_expiredQueue c"
  "m_nBytesPerQueue (unqueue P c) = m_nBytesPerQueue c" "GetQueue q (unqueue P c) = GetQueue q c"
  "qids q (unqueue P c) = qids q c" "expired_ids (unqueue P c) = expired_ids c" "octets (unqueue P c) = octets c"
  "queued (unqueue P c) = queued c"
  "qm_queueIt (m_mpdu (unqueue P c) p) = (if p \<in> P then None else qm_queueIt (m_mpdu c p))"
  "qm_size (m_mpdu (unqueue P c) p) = qm_size (m_mpdu c p)" "qm_hdr (m_mpdu (unqueue P c) p) = qm_hdr (m_mpdu c p)"
  "qm_timestamp (m_mpdu (unqueue P c) p) = qm_timestamp (m_mpdu c p)"
  by (auto simp: unqueue_def queue_id_of_def octets_of_def GetQueue_def qids_def expired_ids_def octets_def
      queued_def fun_eq_iff intro!: arg_cong [where f = sum_list] split: prod.splits)

lemma SetQueueIt_None: "SetQueueIt None p c = unqueue {p} c"
  by (simp add: SetQueueIt_def on_qm_def unqueue_def fun_upd_def) (rule arg_cong [where f = "\<lambda>m. c\<lparr>m_mpdu := m\<rparr>"], auto)

lemma unqueue_insert: "unqueue P (unqueue Q c) = unqueue (P \<union> Q) c"
  by (auto simp: unqueue_def fun_eq_iff)

lemma unqueue_update: "unqueue P (c\<lparr>m_nBytesPerQueue := f\<rparr>) = (unqueue P c)\<lparr>m_nBytesPerQueue := f\<rparr>"
  by (cases c) (simp add: unqueue_def cong: if_cong)

lemma octets_of_simps [simp]:
  "octets_of c [] = 0" "octets_of c (p # ps) = qm_size (m_mpdu c p) + octets_of c ps"
  "octets_of c (ps @ ps') = octets_of c ps + octets_of c ps'" "octets_of (c\<lparr>m_nBytesPerQueue := f\<rparr>) = octets_of c"
  by (simp_all add: octets_of_def fun_eq_iff)

lemma mark_expired_eq:
  assumes "\<forall>p \<in> set (map qe_mpdu es). queue_id_of c p = q" "m_nBytesPerQueue c q = Some n"
    "octets_of c (map qe_mpdu es) \<le> n"
  shows "mark_expired es c = Some ((unqueue (set (map qe_mpdu es)) c)
           \<lparr>m_nBytesPerQueue := (m_nBytesPerQueue c)(q \<mapsto> n - octets_of c (map qe_mpdu es))\<rparr>)"
  using assms
proof (induction es arbitrary: c n)
  case Nil
  then show ?case by (simp add: fun_upd_idem)
next
  case (Cons e es)
  let ?p = "qe_mpdu e"
  let ?d = "(unqueue {?p} c)\<lparr>m_nBytesPerQueue := (m_nBytesPerQueue c)(q \<mapsto> n - qm_size (m_mpdu c ?p))\<rparr>"
  have q: "queue_id_of ?d = queue_id_of c" by (rule ext) (simp add: queue_id_of_def unqueue_def)
  have "take_bytes ?p (SetQueueIt None ?p c) = Some ?d"
    using Cons.prems by (simp add: take_bytes_def SetQueueIt_None)
  moreover have "mark_expired es ?d = Some ((unqueue (set (map qe_mpdu es)) ?d)
           \<lparr>m_nBytesPerQueue := (m_nBytesPerQueue ?d)(q \<mapsto> n - qm_size (m_mpdu c ?p) - octets_of ?d (map qe_mpdu es))\<rparr>)"
    using Cons.prems by (intro Cons.IH) (simp_all add: q)
  ultimately show ?case
    by (simp add: unqueue_update unqueue_insert fun_upd_def cong: if_cong)
qed

definition expired_in :: "time \<Rightarrow> queue_id \<Rightarrow> 'a container_scheme \<Rightarrow> nat list" where
  "expired_in now q c = map qe_mpdu (snd (split_expired now (GetQueue q c)))"

definition alive_in :: "time \<Rightarrow> queue_id \<Rightarrow> 'a container_scheme \<Rightarrow> queue_elem list" where
  "alive_in now q c = fst (split_expired now (GetQueue q c))"

definition as_expired :: "queue_elem \<Rightarrow> queue_elem" where
  "as_expired e = e\<lparr>qe_expired := True, qe_ac := AC_UNDEF\<rparr>"

definition purged :: "time \<Rightarrow> queue_id \<Rightarrow> 'a container_scheme \<Rightarrow> 'a container_scheme" where
  "purged now q c =
     (if expired_in now q c = [] then c
      else (put_queue q (alive_in now q c) ((unqueue (set (expired_in now q c)) c)
              \<lparr>m_nBytesPerQueue := (m_nBytesPerQueue c)(q \<mapsto> octets_of c (map qe_mpdu (alive_in now q c)))\<rparr>))
             \<lparr>m_expiredQueue := m_expiredQueue c @ map as_expired (snd (split_expired now (GetQueue q c)))\<rparr>)"

lemma alive_expired_perm: "mset (map qe_mpdu (alive_in now q c)) + mset (expired_in now q c) = mset (qids q c)"
  using split_expired_perm [of now "GetQueue q c", OF surjective_pairing]
  unfolding alive_in_def expired_in_def qids_def by (metis image_mset_union mset_map)

lemma alive_expired_set: "set (map qe_mpdu (alive_in now q c)) \<union> set (expired_in now q c) = set (qids q c)"
  using arg_cong [OF alive_expired_perm, of set_mset now q c] by simp

lemma octets_of_mset: "mset ps = mset ps' \<Longrightarrow> octets_of c ps = octets_of c ps'"
  by (metis mset_map octets_of_def sum_mset_sum_list)

lemma alive_expired_octets:
  "octets_of c (map qe_mpdu (alive_in now q c)) + octets_of c (expired_in now q c) = octets_of c (qids q c)"
  using octets_of_mset [of "map qe_mpdu (alive_in now q c) @ expired_in now q c" "qids q c" c]
  by (simp only: mset_append alive_expired_perm octets_of_simps)

lemma alive_expired_distinct:
  assumes "container_wf c"
  shows "distinct (map qe_mpdu (alive_in now q c))" "distinct (expired_in now q c)"
    "set (map qe_mpdu (alive_in now q c)) \<inter> set (expired_in now q c) = {}"
proof -
  have "distinct (map qe_mpdu (alive_in now q c) @ expired_in now q c)"
    using container_wfD(2) [OF assms, of q] alive_expired_perm [of now q c]
    by (metis mset_append mset_eq_imp_distinct_iff)
  then show "distinct (map qe_mpdu (alive_in now q c))" "distinct (expired_in now q c)"
    "set (map qe_mpdu (alive_in now q c)) \<inter> set (expired_in now q c) = {}" by (simp_all only: distinct_append)
qed

lemma purged_none: "expired_in now q c = [] \<Longrightarrow> purged now q c = c"
  by (simp add: purged_def)

lemma GetQueue_purged: "GetQueue r (purged now q c) = (if r = q then alive_in now q c else GetQueue r c)"
  using split_expired_none [of now "GetQueue q c"]
  by (auto simp: purged_def GetQueue_def put_queue_def update_conv' alive_in_def expired_in_def)

lemma qids_purged: "qids r (purged now q c) = (if r = q then map qe_mpdu (alive_in now q c) else qids r c)"
  by (simp add: qids_def GetQueue_purged)

lemma purged_frame [simp]:
  "queue_id_of (purged now q c) = queue_id_of c" "octets_of (purged now q c) = octets_of c"
  "expired_ids (purged now q c) = expired_ids c @ expired_in now q c"
  "qm_size (m_mpdu (purged now q c) p) = qm_size (m_mpdu c p)" "qm_hdr (m_mpdu (purged now q c) p) = qm_hdr (m_mpdu c p)"
  "qm_timestamp (m_mpdu (purged now q c) p) = qm_timestamp (m_mpdu c p)"
  "qm_queueIt (m_mpdu (purged now q c) p) = (if p \<in> set (expired_in now q c) then None else qm_queueIt (m_mpdu c p))"
proof -
  have e: "qe_mpdu \<circ> as_expired = qe_mpdu" by (rule ext) (simp add: as_expired_def)
  show "queue_id_of (purged now q c) = queue_id_of c" "octets_of (purged now q c) = octets_of c"
    by (rule ext, simp add: purged_def queue_id_of_def octets_of_def unqueue_def if_distrib [of GetQueueId]
        if_distrib [of qm_size] cong: if_cong)+
  show "expired_ids (purged now q c) = expired_ids c @ expired_in now q c"
    by (simp add: purged_def expired_ids_def e expired_in_def)
qed (simp_all add: purged_def unqueue_def)

lemma m_nBytesPerQueue_purged:
  "m_nBytesPerQueue (purged now q c) =
     (if expired_in now q c = [] then m_nBytesPerQueue c
      else (m_nBytesPerQueue c)(q \<mapsto> octets_of c (map qe_mpdu (alive_in now q c))))"
  by (simp add: purged_def)

text \<open>MPDUs leave a queue: \<open>l\<close> stays of it.\<close>

definition leave :: "queue_id \<Rightarrow> queue_elem list \<Rightarrow> nat set \<Rightarrow> 'a container_scheme \<Rightarrow> 'a container_scheme" where
  "leave q l P c =
     put_queue q l ((unqueue P c)\<lparr>m_nBytesPerQueue := (m_nBytesPerQueue c)(q \<mapsto> octets_of c (map qe_mpdu l))\<rparr>)"

lemma leave_frame [simp]:
  "queue_id_of (leave q l P c) = queue_id_of c" "octets_of (leave q l P c) = octets_of c"
  "m_expiredQueue (leave q l P c) = m_expiredQueue c" "expired_ids (leave q l P c) = expired_ids c"
  "qm_size (m_mpdu (leave q l P c) p) = qm_size (m_mpdu c p)" "qm_hdr (m_mpdu (leave q l P c) p) = qm_hdr (m_mpdu c p)"
  "qm_timestamp (m_mpdu (leave q l P c) p) = qm_timestamp (m_mpdu c p)"
  "qm_queueIt (m_mpdu (leave q l P c) p) = (if p \<in> P then None else qm_queueIt (m_mpdu c p))"
  "m_nBytesPerQueue (leave q l P c) = (m_nBytesPerQueue c)(q \<mapsto> octets_of c (map qe_mpdu l))"
  by (simp_all add: leave_def expired_ids_def octets_of_def [abs_def] queue_id_of_def [abs_def] unqueue_def
      if_distrib [of GetQueueId] if_distrib [of qm_size] cong: if_cong)

lemma GetQueue_leave: "GetQueue r (leave q l P c) = (if r = q then l else GetQueue r c)"
  by (simp add: leave_def GetQueue_put_queue) (simp add: GetQueue_def)

lemma qids_leave: "qids r (leave q l P c) = (if r = q then map qe_mpdu l else qids r c)"
  by (simp add: qids_def GetQueue_leave)

lemma container_wf_leave:
  assumes wf: "container_wf c" and perm: "mset (map qe_mpdu l) + mset ps = mset (qids q c)"
  shows "container_wf (leave q l (set ps) c)"
proof -
  note D = container_wfD [OF wf]
  have sets: "set (map qe_mpdu l) \<union> set ps = set (qids q c)" using arg_cong [OF perm, of set_mset] by simp
  have "distinct (map qe_mpdu l @ ps)"
    using D(2) [of q] perm by (metis mset_append mset_eq_imp_distinct_iff)
  then have dist: "distinct (map qe_mpdu l)" "set (map qe_mpdu l) \<inter> set ps = {}" by (simp_all only: distinct_append)
  have keys: "distinct (map fst (m_queues (leave q l (set ps) c)))"
    using D(1) by (simp add: leave_def put_queue_def distinct_update unqueue_def del: distinct_map)
  have it: "qm_queueIt (m_mpdu (leave q l (set ps) c) p) = Some r \<longleftrightarrow> p \<in> set (qids r (leave q l (set ps) c))" for p r
  proof (cases "p \<in> set ps")
    case True
    then have "p \<in> set (qids q c)" using sets by auto
    then have "p \<notin> set (qids r c)" if "r \<noteq> q" using D(5) [of p] that by (metis option.inject)
    with True dist(2) show ?thesis by (auto simp: qids_leave)
  next
    case False
    then have "p \<in> set (qids q c) \<longleftrightarrow> p \<in> set (map qe_mpdu l)" using sets by auto
    with False D(5) [of p r] show ?thesis by (simp add: qids_leave)
  qed
  have bytes: "n = octets_of c (qids r (leave q l (set ps) c))" if "m_nBytesPerQueue (leave q l (set ps) c) r = Some n" for r n
    using that D(8) [of r n] by (auto simp: qids_leave split: if_splits)
  have none: "GetQueue r (leave q l (set ps) c) = []" if "m_nBytesPerQueue (leave q l (set ps) c) r = None" for r
    using that D(9) [of r] by (auto simp: GetQueue_leave split: if_splits)
  show ?thesis
    unfolding container_wf_def using keys it D(6) bytes none
  proof (intro conjI allI ballI impI)
    fix r
    show "distinct (qids r (leave q l (set ps) c))" using dist(1) D(2) by (simp add: qids_leave)
    fix p
    assume p: "p \<in> set (qids r (leave q l (set ps) c))"
    then have "p \<in> set (qids r c)" using sets by (auto simp: qids_leave split: if_splits)
    then show "queue_id_of (leave q l (set ps) c) p = r" "0 < qm_size (m_mpdu (leave q l (set ps) c) p)"
      using D(3,4) by simp_all
  next
    fix p
    assume "p \<in> set (expired_ids (leave q l (set ps) c))"
    then show "qm_queueIt (m_mpdu (leave q l (set ps) c) p) = None" using D(7) by auto
  qed simp_all
qed

lemma leave_counts:
  assumes perm: "mset (map qe_mpdu l) + mset ps = mset (qids q c)"
  shows "queued (leave q l P c) + length ps = queued c" "octets (leave q l P c) + octets_of c ps = octets c"
proof -
  define d where "d = (unqueue P c)\<lparr>m_nBytesPerQueue := (m_nBytesPerQueue c)(q \<mapsto> octets_of c (map qe_mpdu l))\<rparr>"
  have d: "octets d = octets c" "octets_of d = octets_of c" "qids q d = qids q c" "queued d = queued c" "GetQueue q d = GetQueue q c"
    unfolding d_def by (simp_all add: octets_def octets_of_def queued_def qids_def GetQueue_def fun_eq_iff unqueue_def
        if_distrib [of qm_size] cong: if_cong)
  have l: "leave q l P c = put_queue q l d" by (simp add: leave_def d_def)
  have "length l + length ps = length (GetQueue q c)" using arg_cong [OF perm, of size] by (simp add: qids_def)
  then show "queued (leave q l P c) + length ps = queued c" using queued_put_queue [of q l d] by (simp add: l d)
  have "octets_of c (map qe_mpdu l) + octets_of c ps = octets_of c (qids q c)"
    using octets_of_mset [of "map qe_mpdu l @ ps" "qids q c" c] perm by simp
  then show "octets (leave q l P c) + octets_of c ps = octets c" using octets_put_queue [of q l d] by (simp add: l d)
qed

lemma container_wf_expired:
  assumes "container_wf c" "distinct (map qe_mpdu es)" "\<And>p. p \<in> set (map qe_mpdu es) \<Longrightarrow> qm_queueIt (m_mpdu c p) = None"
  shows "container_wf (c\<lparr>m_expiredQueue := es\<rparr>)"
  using assms
  by (simp add: container_wf_def qids_def GetQueue_def queue_id_of_def octets_of_def expired_ids_def cong: if_cong)

lemma purged_leave:
  "expired_in now q c \<noteq> [] \<Longrightarrow> purged now q c = (leave q (alive_in now q c) (set (expired_in now q c)) c)
     \<lparr>m_expiredQueue := m_expiredQueue c @ map as_expired (snd (split_expired now (GetQueue q c)))\<rparr>"
  by (simp add: purged_def leave_def)

lemma container_wf_purged:
  assumes wf: "container_wf c"
  shows "container_wf (purged now q c)"
proof (cases "expired_in now q c = []")
  case False
  note D = container_wfD [OF wf]
  have ids: "map qe_mpdu (map as_expired (snd (split_expired now (GetQueue q c)))) = expired_in now q c"
    by (simp add: expired_in_def as_expired_def comp_def)
  have "p \<notin> set (expired_in now q c)" if "p \<in> set (expired_ids c)" for p
    using D(7) [OF that] D(5) [of p q] alive_expired_set [of now q c] by auto
  then have "distinct (expired_ids c @ expired_in now q c)"
    using D(6) alive_expired_distinct(2) [OF wf, of now q] by auto
  then show ?thesis
    unfolding purged_leave [OF False]
    using D(7) ids by (intro container_wf_expired container_wf_leave [OF wf alive_expired_perm]) (auto simp: expired_ids_def)
qed (simp add: purged_none wf)

lemma DoExtractExpiredMpdus_eq:
  assumes wf: "container_wf c"
  shows "DoExtractExpiredMpdus now q c = Some (purged now q c, expired_in now q c)"
proof (cases "expired_in now q c = []")
  case True
  then show ?thesis
    by (cases "split_expired now (GetQueue q c)") (simp add: DoExtractExpiredMpdus_def purged_def expired_in_def)
next
  case False
  obtain stay taken where st: "split_expired now (GetQueue q c) = (stay, taken)" by fastforce
  then have ids: "expired_in now q c = map qe_mpdu taken" "alive_in now q c = stay"
    by (simp_all add: expired_in_def alive_in_def)
  have "GetQueue q c \<noteq> []" using False st by (auto simp: expired_in_def)
  then obtain n where n: "m_nBytesPerQueue c q = Some n" using container_wfD(9) [OF wf] by (cases "m_nBytesPerQueue c q") auto
  have len: "n = octets_of c (map qe_mpdu stay) + octets_of c (map qe_mpdu taken)"
    using container_wfD(8) [OF wf n] alive_expired_octets [of c now q] by (simp add: ids)
  have "\<forall>p \<in> set (map qe_mpdu taken). queue_id_of c p = q"
    using alive_expired_set [of now q c] container_wfD(3) [OF wf] by (auto simp: ids)
  then have "mark_expired taken c = Some ((unqueue (set (map qe_mpdu taken)) c)
      \<lparr>m_nBytesPerQueue := (m_nBytesPerQueue c)(q \<mapsto> octets_of c (map qe_mpdu stay))\<rparr>)"
    using mark_expired_eq [of taken c q n] n len by simp
  then show ?thesis
    using False ids st by (simp add: DoExtractExpiredMpdus_def purged_def as_expired_def [abs_def])
qed

lemma queued_purged: "container_wf c \<Longrightarrow> queued (purged now q c) + length (expired_in now q c) = queued c"
  using DoExtractExpiredMpdus_queued [OF DoExtractExpiredMpdus_eq] .

lemma octets_purged: "octets (purged now q c) + octets_of c (expired_in now q c) = octets c"
proof (cases "expired_in now q c = []")
  case False
  have "octets (x\<lparr>m_expiredQueue := es\<rparr>) = octets x" for x :: "'a container_scheme" and es
    by (simp add: octets_def octets_of_def)
  then show ?thesis
    using leave_counts(2) [OF alive_expired_perm [of now q c], of "set (expired_in now q c)"] by (simp add: purged_leave [OF False])
qed (simp add: purged_none)

lemma purged_base [simp]:
  "m_nPackets (purged now q b) = m_nPackets b" "m_nBytes (purged now q b) = m_nBytes b" "m_maxSize (purged now q b) = m_maxSize b"
  by (simp_all add: purged_def put_queue_def unqueue_def)

lemma purged_sched [simp]:
  "m_sortedQueues (purged now q s) = m_sortedQueues s" "m_queueInfo (purged now q s) = m_queueInfo s"
  "m_ac (purged now q s) = m_ac s" "m_maxDelay (purged now q s) = m_maxDelay s" "m_expired (purged now q s) = m_expired s"
  by (simp_all add: purged_def put_queue_def unqueue_def)

lemma length_expired_ids: "length (m_expiredQueue c) = length (expired_ids c)"
  by (simp add: expired_ids_def)

lemma base_wf_purged:
  assumes "base_wf b"
  shows "base_wf (purged now q b)"
proof -
  have wf: "container_wf b" using assms by (simp add: base_wf_def)
  show ?thesis
    using assms queued_purged [OF wf, of now q] octets_purged [of now q b]
    by (simp add: base_wf_def container_wf_purged length_expired_ids)
qed

section \<open>The scheduler\<close>

text \<open>Priorities form a strict weak order, which is what \<^verbatim>\<open>std::multimap\<close> relies on.\<close>

lemma set_multimap_insert: "set (multimap_insert lt p v l) = insert (p, v) (set l)"
  by (induction lt p v l rule: multimap_insert.induct) auto

lemma distinct_multimap_insert:
  "distinct (map snd (multimap_insert lt p v l)) \<longleftrightarrow> distinct (map snd l) \<and> v \<notin> snd ` set l"
  by (induction lt p v l rule: multimap_insert.induct) (auto simp: set_multimap_insert image_iff)

locale strict_weak_order =
  fixes lt :: "'p \<Rightarrow> 'p \<Rightarrow> bool"
  assumes irrefl: "\<not> lt p p"
    and trans: "lt p q \<Longrightarrow> lt q r \<Longrightarrow> lt p r"
    and incomparable: "\<not> lt p q \<Longrightarrow> \<not> lt q r \<Longrightarrow> \<not> lt p r"
begin

lemma asym: "lt p q \<Longrightarrow> \<not> lt q p"
  using irrefl trans by blast

lemma sorted_multimap_insert:
  assumes "sorted_wrt (\<lambda>a b. \<not> lt (fst b) (fst a)) l"
  shows "sorted_wrt (\<lambda>a b. \<not> lt (fst b) (fst a)) (multimap_insert lt p v l)"
  using assms
proof (induction l)
  case (Cons a l)
  obtain p' v' where a: "a = (p', v')" by (cases a)
  show ?case
  proof (cases "lt p p'")
    case True
    then have "\<not> lt (fst b) p" if "b \<in> set l" for b
      using Cons.prems that trans [of "fst b" p p'] by (auto simp: a)
    then show ?thesis using True Cons.prems asym [OF True] by (auto simp: a)
  next
    case False
    then show ?thesis using Cons by (auto simp: a set_multimap_insert)
  qed
qed simp

text \<open>The entries in front of one are not behind it in the order, whatever comes in between.\<close>

lemma before_not_greater:
  assumes "sorted_wrt (\<lambda>a b. \<not> lt (fst b) (fst a)) l" "i \<le> j" "j < length l"
  shows "\<not> lt (fst (l ! j)) (fst (l ! i))"
  using assms irrefl sorted_wrt_nth_less [OF assms(1), of i j] by (cases "i = j") auto

end

interpretation fcfs: strict_weak_order prio_less
  by unfold_locales (auto simp: prio_less_def split: if_splits)

lemma prio_of_insert:
  "q \<notin> snd ` set l \<Longrightarrow> prio_of r (multimap_insert prio_less p q l) = (if r = q then Some p else prio_of r l)"
  by (induction prio_less p q l rule: multimap_insert.induct) (auto simp: prio_of_def)

lemma prio_of_erase: "prio_of r (prio_erase q l) = (if r = q then None else prio_of r l)"
  by (induction l) (auto simp: prio_of_def prio_erase_def)

lemma prio_of_None: "prio_of q l = None \<longleftrightarrow> q \<notin> snd ` set l"
  by (induction l) (auto simp: prio_of_def)

lemma prio_eq_eq: "prio_eq p p' \<longleftrightarrow> p = p'"
  by (cases p; cases p') (auto simp: prio_eq_def)

definition listed_wf :: "'a mac_queue_scheme \<Rightarrow> bool" where
  "listed_wf s \<longleftrightarrow>
     sorted_wrt (\<lambda>a b. \<not> prio_less (fst b) (fst a)) (m_sortedQueues s) \<and> distinct (map snd (m_sortedQueues s))
     \<and> snd ` set (m_sortedQueues s) = {q. \<exists>i. m_queueInfo s q = Some i \<and> qi_listed i}
     \<and> (\<forall>q. GetQueue q s \<noteq> [] \<longrightarrow> m_queueInfo s q \<noteq> None)"

definition mq_wf :: "'a mac_queue_scheme \<Rightarrow> bool" where
  "mq_wf s \<longleftrightarrow> base_wf s \<and> listed_wf s"

text \<open>The list is up to date for the queues outside of a set.\<close>

definition head_prio :: "queue_id \<Rightarrow> 'a container_scheme \<Rightarrow> fcfs_prio option" where
  "head_prio q c =
     (case GetQueue q c of [] \<Rightarrow> None
      | e # _ \<Rightarrow> Some \<lparr>fp_priority = qm_timestamp (m_mpdu c (qe_mpdu e)), fp_type = qid_type q\<rparr>)"

definition current :: "queue_id set \<Rightarrow> 'a mac_queue_scheme \<Rightarrow> bool" where
  "current D s \<longleftrightarrow> (\<forall>q. q \<notin> D \<longrightarrow> prio_of q (m_sortedQueues s) = head_prio q s)"

definition links :: "'a mac_queue_scheme \<Rightarrow> queue_id \<Rightarrow> (nat, block_reason set) omap option" where
  "links s q = map_option qi_linkIds (m_queueInfo s q)"

definition sched_rel :: "'a mac_queue_scheme \<Rightarrow> 'a mac_queue_scheme \<Rightarrow> bool" where
  "sched_rel s s' \<longleftrightarrow> same_base s s' \<and> m_expired s' = m_expired s \<and> links s' = links s"

lemma sched_relD:
  assumes "sched_rel s s'"
  shows "same_base s s'" "m_expired s' = m_expired s" "links s' = links s" "m_mpdu s' = m_mpdu s" "GetQueue q s' = GetQueue q s"
    "head_prio q s' = head_prio q s"
proof -
  show "same_base s s'" "m_expired s' = m_expired s" "links s' = links s" using assms by (simp_all add: sched_rel_def)
  note base = same_baseD [OF this(1)]
  show "m_mpdu s' = m_mpdu s" "GetQueue q s' = GetQueue q s" by (simp_all add: base GetQueue_def)
  then show "head_prio q s' = head_prio q s" by (simp add: head_prio_def split: list.split)
qed

lemma sched_rel_trans: "sched_rel s t \<Longrightarrow> sched_rel t u \<Longrightarrow> sched_rel s u"
  by (auto simp: sched_rel_def intro: same_base_trans)

lemma base_wf_same: "same_base s s' \<Longrightarrow> base_wf s' = base_wf s"
  by (simp add: base_wf_def container_wf_def qids_def GetQueue_def queue_id_of_def expired_ids_def octets_of_def octets_def
      queued_def same_baseD cong: if_cong)

lemma c_GetNBytes_wf:
  assumes "container_wf c"
  obtains n where "c_GetNBytes q c = Some n" "n = 0 \<longleftrightarrow> GetQueue q c = []"
proof (cases "GetQueue q c")
  case Nil
  then show ?thesis using that by (simp add: c_GetNBytes_def)
next
  case (Cons e es)
  then obtain n where n: "m_nBytesPerQueue c q = Some n"
    using container_wfD(9) [OF assms, of q] by (cases "m_nBytesPerQueue c q") auto
  have "n = octets_of c (qids q c)" by (rule container_wfD(8) [OF assms n])
  moreover have "qm_size (m_mpdu c (qe_mpdu e)) > 0"
    using container_wfD(4) [OF assms, of "qe_mpdu e" q] Cons by (simp add: qids_def)
  ultimately show ?thesis using that n Cons by (simp add: c_GetNBytes_def qids_def)
qed

text \<open>What the notifications do to the list: \<open>f\<close> gives the new priority of each queue.\<close>

definition relisted :: "(queue_id \<Rightarrow> fcfs_prio option) \<Rightarrow> 'a mac_queue_scheme \<Rightarrow> 'a mac_queue_scheme \<Rightarrow> bool" where
  "relisted f s s' \<longleftrightarrow> mq_wf s' \<and> sched_rel s s' \<and> (\<forall>q. prio_of q (m_sortedQueues s') = f q)"

lemma listed_wfD:
  assumes "listed_wf s"
  shows "sorted_wrt (\<lambda>a b. \<not> prio_less (fst b) (fst a)) (m_sortedQueues s)" "distinct (map snd (m_sortedQueues s))"
    "snd ` set (m_sortedQueues s) = {q. \<exists>i. m_queueInfo s q = Some i \<and> qi_listed i}"
    "GetQueue q s \<noteq> [] \<Longrightarrow> m_queueInfo s q \<noteq> None"
  using assms unfolding listed_wf_def by blast+

lemma GetQueue_sched [simp]:
  "GetQueue q (s\<lparr>m_sortedQueues := l\<rparr>) = GetQueue q s" "GetQueue q (set_info r i s) = GetQueue q s"
  "GetQueue q (fire_expired ps s) = GetQueue q s"
  by (simp_all add: GetQueue_def set_info_def fire_expired_def)

lemma set_info_simps [simp]:
  "m_sortedQueues (set_info q i s) = m_sortedQueues s" "m_queueInfo (set_info q i s) = (m_queueInfo s)(q \<mapsto> i)"
  "m_expired (set_info q i s) = m_expired s"
  by (simp_all add: set_info_def)

lemma prio_erase_ids: "snd ` set (prio_erase q l) = snd ` set l - {q}"
  by (auto simp: prio_erase_def)

lemma multimap_insert_ids: "snd ` set (multimap_insert lt p q l) = insert q (snd ` set l)"
  by (auto simp: set_multimap_insert)

lemma prio_erase_wf:
  "sorted_wrt P l \<Longrightarrow> sorted_wrt P (prio_erase q l)" "distinct (map snd l) \<Longrightarrow> distinct (map snd (prio_erase q l))"
  by (simp_all add: prio_erase_def sorted_wrt_filter distinct_map_filter)

lemma SetPriority_wf:
  assumes wf: "mq_wf s" and ne: "GetQueue q s \<noteq> []"
  obtains s' where "SetPriority q p s = Some s'"
    "relisted (\<lambda>r. if r = q then Some p else prio_of r (m_sortedQueues s)) s s'"
proof -
  have b: "base_wf s" "listed_wf s" using wf by (simp_all add: mq_wf_def)
  note L = listed_wfD [OF b(2)]
  obtain n where n: "c_GetNBytes q s = Some n" "n \<noteq> 0"
    using c_GetNBytes_wf [of s q] b(1) ne by (auto simp: base_wf_def)
  obtain i where i: "m_queueInfo s q = Some i" using L(4) [OF ne] by auto
  let ?l = "m_sortedQueues s"
  show ?thesis
  proof (cases "qi_listed i")
    case True
    then obtain old where old: "prio_of q ?l = Some old"
      using L(3) i prio_of_None [of q ?l] by (cases "prio_of q ?l") auto
    let ?s = "s\<lparr>m_sortedQueues := multimap_insert prio_less p q (prio_erase q ?l)\<rparr>"
    have new: "q \<notin> snd ` set (prio_erase q ?l)" by (simp add: prio_erase_ids)
    have "listed_wf ?s"
      using L True i new by (auto simp: listed_wf_def fcfs.sorted_multimap_insert prio_erase_wf distinct_multimap_insert
          multimap_insert_ids prio_erase_ids)
    then have "relisted (\<lambda>r. if r = q then Some p else prio_of r ?l) s ?s"
      using b base_wf_same [of s ?s] by (simp add: relisted_def mq_wf_def sched_rel_def links_def [abs_def] prio_of_insert [OF new] prio_of_erase)
    moreover have "relisted (\<lambda>r. if r = q then Some p else prio_of r ?l) s s" if "prio_eq old p"
      using wf that old by (auto simp: relisted_def sched_rel_def prio_eq_eq)
    moreover have "SetPriority q p s = Some (if prio_eq old p then s else ?s)"
      using n i True old by (simp add: SetPriority_def)
    ultimately show ?thesis by (cases "prio_eq old p") (auto intro: that)
  next
    case False
    let ?s = "set_info q (i\<lparr>qi_listed := True\<rparr>) (s\<lparr>m_sortedQueues := multimap_insert prio_less p q ?l\<rparr>)"
    have new: "q \<notin> snd ` set ?l" using L(3) i False by auto
    have "listed_wf ?s"
      using L i new by (auto simp: listed_wf_def fcfs.sorted_multimap_insert distinct_multimap_insert multimap_insert_ids)
    then have "relisted (\<lambda>r. if r = q then Some p else prio_of r ?l) s ?s"
      using b base_wf_same [of s ?s] i by (simp add: relisted_def mq_wf_def sched_rel_def links_def [abs_def] prio_of_insert [OF new] fun_eq_iff)
    then show ?thesis
      using that [of ?s] n i False by (simp add: SetPriority_def)
  qed
qed

lemma head_priority_wf:
  assumes "mq_wf s"
  obtains s' where "head_priority q s = Some s'"
    "relisted (\<lambda>r. if r = q \<and> GetQueue q s \<noteq> [] then head_prio q s else prio_of r (m_sortedQueues s)) s s'"
proof (cases "GetQueue q s")
  case Nil
  then show ?thesis using that [of s] assms by (simp add: head_priority_def relisted_def sched_rel_def)
next
  case (Cons e es)
  then have ne: "GetQueue q s \<noteq> []" by simp
  let ?p = "\<lparr>fp_priority = qm_timestamp (m_mpdu s (qe_mpdu e)), fp_type = qid_type q\<rparr>"
  obtain s' where "SetPriority q ?p s = Some s'" "relisted (\<lambda>r. if r = q then Some ?p else prio_of r (m_sortedQueues s)) s s'"
    by (rule SetPriority_wf [OF assms ne])
  moreover have "head_prio q s = Some ?p" by (simp add: head_prio_def Cons)
  ultimately show ?thesis using Cons by (intro that [of s']) (simp_all add: head_priority_def cong: if_cong)
qed

lemma drop_if_empty_wf:
  assumes wf: "mq_wf s" and known: "m_queueInfo s q \<noteq> None"
  obtains s' where "drop_if_empty q s = Some s'"
    "relisted (\<lambda>r. if r = q \<and> GetQueue q s = [] then None else prio_of r (m_sortedQueues s)) s s'"
proof -
  have b: "base_wf s" "listed_wf s" using wf by (simp_all add: mq_wf_def)
  note L = listed_wfD [OF b(2)]
  obtain n where n: "c_GetNBytes q s = Some n" "n = 0 \<longleftrightarrow> GetQueue q s = []"
    using c_GetNBytes_wf [of s q] b(1) by (auto simp: base_wf_def)
  obtain i where i: "m_queueInfo s q = Some i" using known by auto
  let ?l = "m_sortedQueues s"
  have same: "relisted (\<lambda>r. if r = q \<and> GetQueue q s = [] then None else prio_of r ?l) s s"
    if "GetQueue q s = [] \<Longrightarrow> prio_of q ?l = None"
    using wf that by (simp add: relisted_def sched_rel_def)
  show ?thesis
  proof (cases "GetQueue q s = [] \<and> qi_listed i")
    case True
    then obtain old where old: "prio_of q ?l = Some old"
      using L(3) i prio_of_None [of q ?l] by (cases "prio_of q ?l") auto
    let ?s = "set_info q (i\<lparr>qi_listed := False\<rparr>) (s\<lparr>m_sortedQueues := prio_erase q ?l\<rparr>)"
    have "listed_wf ?s"
      using L i True by (auto simp: listed_wf_def prio_erase_wf prio_erase_ids)
    then have "relisted (\<lambda>r. if r = q \<and> GetQueue q s = [] then None else prio_of r ?l) s ?s"
      using b base_wf_same [of s ?s] i True by (simp add: relisted_def mq_wf_def sched_rel_def links_def [abs_def] prio_of_erase fun_eq_iff)
    then show ?thesis
      using that [of ?s] n i True old by (simp add: drop_if_empty_def)
  next
    case False
    then have "prio_of q ?l = None" if "GetQueue q s = []"
      using that L(3) i by (simp add: prio_of_None)
    then show ?thesis
      using that [of s] same n i False by (auto simp: drop_if_empty_def)
  qed
qed

section \<open>Extraction with its notifications\<close>

definition counters :: "'a queue_base_scheme \<Rightarrow> nat list" where
  "counters b = [m_nPackets b, m_nBytes b, m_maxSize b, m_nTotalReceivedPackets b, m_nTotalReceivedBytes b,
     m_nTotalDroppedPackets b, m_nTotalDroppedBytes b, m_nTotalDroppedPacketsBeforeEnqueue b, m_nTotalDroppedBytesBeforeEnqueue b,
     m_nTotalDroppedPacketsAfterDequeue b, m_nTotalDroppedBytesAfterDequeue b]"

lemma counters_purged [simp]: "counters (purged now q b) = counters b"
  by (simp add: counters_def purged_def put_queue_def unqueue_def)

lemma counters_same_base: "same_base s s' \<Longrightarrow> counters s' = counters s"
  by (simp add: counters_def same_base_def queue_base.defs)

text \<open>The expired MPDUs of the queues in a set have been extracted.\<close>

definition purge_rel :: "time \<Rightarrow> queue_id set \<Rightarrow> 'a mac_queue_scheme \<Rightarrow> 'a mac_queue_scheme \<Rightarrow> bool" where
  "purge_rel now Q s s' \<longleftrightarrow>
     (\<forall>q. GetQueue q s' = (if q \<in> Q then alive_in now q s else GetQueue q s))
     \<and> counters s' = counters s \<and> m_ac s' = m_ac s \<and> m_maxDelay s' = m_maxDelay s \<and> links s' = links s
     \<and> (\<forall>p. m_mpdu s' p = (if p \<in> (\<Union>q \<in> Q. set (expired_in now q s)) then (m_mpdu s p)\<lparr>qm_queueIt := None\<rparr> else m_mpdu s p))
     \<and> (\<exists>ps. m_expired s' = m_expired s @ ps \<and> expired_ids s' = expired_ids s @ ps
            \<and> set ps = (\<Union>q \<in> Q. set (expired_in now q s)))"

lemma purge_rel_empty [simp]: "purge_rel now {} s s"
  by (simp add: purge_rel_def)

lemma alive_idle:
  assumes "GetQueue q t = alive_in now q s"
  shows "alive_in now q t = alive_in now q s" "expired_in now q t = []"
  using assms by (simp_all add: alive_in_def expired_in_def)

lemma purge_rel_trans:
  assumes st: "purge_rel now Q s t" and tu: "purge_rel now R t u"
  shows "purge_rel now (Q \<union> R) s u"
proof -
  have t: "alive_in now q t = alive_in now q s" "expired_in now q t = (if q \<in> Q then [] else expired_in now q s)" for q
    using st alive_idle [of q t now s] by (auto simp: purge_rel_def alive_in_def expired_in_def)
  let ?E = "\<lambda>Q. \<Union>q \<in> Q. set (expired_in now q s)"
  have union: "?E Q \<union> (\<Union>q \<in> R. set (expired_in now q t)) = ?E (Q \<union> R)"
    by (auto simp: t split: if_splits; blast)
  obtain ps ps' where "m_expired t = m_expired s @ ps" "expired_ids t = expired_ids s @ ps" "set ps = ?E Q"
    "m_expired u = m_expired t @ ps'" "expired_ids u = expired_ids t @ ps'" "set ps' = (\<Union>q \<in> R. set (expired_in now q t))"
    using st tu by (auto simp: purge_rel_def)
  then have "\<exists>ps. m_expired u = m_expired s @ ps \<and> expired_ids u = expired_ids s @ ps \<and> set ps = ?E (Q \<union> R)"
    using union by (intro exI [of _ "ps @ ps'"]) simp
  moreover have "m_mpdu u p = (if p \<in> ?E (Q \<union> R) then (m_mpdu s p)\<lparr>qm_queueIt := None\<rparr> else m_mpdu s p)" for p
    unfolding union [symmetric] using st tu by (auto simp: purge_rel_def)
  ultimately show ?thesis
    using st tu t by (auto simp: purge_rel_def)
qed

lemma purge_rel_relisted:
  assumes "purge_rel now Q s t" "sched_rel t u"
  shows "purge_rel now Q s u"
proof -
  note R = sched_relD [OF assms(2)]
  have "expired_ids u = expired_ids t" "m_ac u = m_ac t" "m_maxDelay u = m_maxDelay t"
    using same_baseD [OF R(1)] by (simp_all add: expired_ids_def)
  then show ?thesis
    using assms(1) R counters_same_base [OF R(1)] by (simp add: purge_rel_def)
qed

lemma purge_rel_purged: "purge_rel now {q} s (fire_expired (expired_in now q s) (purged now q s))"
proof -
  have f: "m_mpdu (fire_expired ps t) = m_mpdu t" "expired_ids (fire_expired ps t) = expired_ids t"
    "counters (fire_expired ps t) = counters t" "links (fire_expired ps t) = links t"
    "m_ac (fire_expired ps t) = m_ac t" "m_maxDelay (fire_expired ps t) = m_maxDelay t"
    "m_expired (fire_expired ps t) = m_expired t @ ps" for ps and t :: "'a mac_queue_scheme"
    by (simp_all add: fire_expired_def expired_ids_def counters_def links_def [abs_def])
  have "m_mpdu (purged now q s) p = (if p \<in> set (expired_in now q s) then (m_mpdu s p)\<lparr>qm_queueIt := None\<rparr> else m_mpdu s p)" for p
    by (simp add: purged_def unqueue_def)
  moreover have "links (purged now q s) = links s" by (rule ext) (simp add: links_def)
  ultimately show ?thesis
    by (simp add: purge_rel_def f GetQueue_purged)
qed

lemma mq_wf_purged:
  assumes "mq_wf s"
  shows "mq_wf (fire_expired ps (purged now q s))"
proof -
  have "base_wf (fire_expired ps t) = base_wf t" for t :: "'a mac_queue_scheme"
    by (rule base_wf_same) simp
  moreover have "alive_in now q s \<noteq> [] \<Longrightarrow> GetQueue q s \<noteq> []" by (auto simp: alive_in_def)
  moreover have "m_sortedQueues (fire_expired ps t) = m_sortedQueues t" "m_queueInfo (fire_expired ps t) = m_queueInfo t"
    for t :: "'a mac_queue_scheme" by (simp_all add: fire_expired_def)
  ultimately show ?thesis
    using assms by (simp add: mq_wf_def base_wf_purged listed_wf_def GetQueue_purged)
qed

text \<open>Looking at the head of a queue: the expired MPDUs leave, and the list is as up to date as before.\<close>

lemma queue_id_set_single:
  assumes "ps \<noteq> []" "\<forall>p \<in> set ps. queue_id_of c p = q"
  shows "queue_id_set c ps = [q]"
proof -
  have "remdups (map (queue_id_of c) ps) = [q]" using assms
  proof (induction ps rule: list_nonempty_induct)
    case (cons p ps)
    then show ?case by (cases ps) auto
  qed simp
  then show ?thesis by (simp add: queue_id_set_def queue_ids_def)
qed

lemma drop_empty_wf:
  assumes "mq_wf s" "\<forall>q \<in> set qs. m_queueInfo s q \<noteq> None"
  obtains s' where "drop_empty qs s = Some s'"
    "relisted (\<lambda>r. if r \<in> set qs \<and> GetQueue r s = [] then None else prio_of r (m_sortedQueues s)) s s'"
  using assms
proof (induction qs arbitrary: s thesis)
  case Nil
  then show ?case by (simp add: relisted_def sched_rel_def)
next
  case (Cons q qs)
  obtain t where t: "drop_if_empty q s = Some t"
    "relisted (\<lambda>r. if r = q \<and> GetQueue q s = [] then None else prio_of r (m_sortedQueues s)) s t"
    using drop_if_empty_wf [of s q] Cons.prems by auto
  have R: "sched_rel s t" "mq_wf t" using t(2) by (simp_all add: relisted_def)
  have "m_queueInfo t r = None \<longleftrightarrow> m_queueInfo s r = None" for r
    using fun_cong [OF sched_relD(3) [OF R(1)], of r] by (auto simp: links_def)
  with Cons.prems R obtain u where u: "drop_empty qs t = Some u"
    "relisted (\<lambda>r. if r \<in> set qs \<and> GetQueue r t = [] then None else prio_of r (m_sortedQueues t)) t u"
    using Cons.IH [of t] by auto
  have "relisted (\<lambda>r. if r \<in> set (q # qs) \<and> GetQueue r s = [] then None else prio_of r (m_sortedQueues s)) s u"
    using t(2) u(2) R(1) sched_relD(5) [OF R(1)] sched_rel_trans [OF R(1)] by (auto simp: relisted_def)
  then show ?case using Cons.prems(1) [of u] t(1) u(1) by simp
qed

text \<open>Only the entry of the queue itself moves.\<close>

lemma prio_erase_twice [simp]:
  "prio_erase q (prio_erase q l) = prio_erase q l" "prio_erase q (multimap_insert lt p q l) = prio_erase q l"
  by (simp add: prio_erase_def, induction lt p q l rule: multimap_insert.induct) (auto simp: prio_erase_def)

lemma prio_erase_other: "q \<notin> snd ` set l \<Longrightarrow> prio_erase q l = l"
  by (induction l) (auto simp: prio_erase_def)

lemma head_priority_erase:
  "head_priority q s = Some s' \<Longrightarrow> prio_erase q (m_sortedQueues s') = prio_erase q (m_sortedQueues s)"
  by (auto simp: head_priority_def SetPriority_def split: list.splits if_splits elim!: bind_SomeE)

lemma drop_empty_erase:
  "drop_empty qs s = Some s' \<Longrightarrow> set qs \<subseteq> {q} \<Longrightarrow> prio_erase q (m_sortedQueues s') = prio_erase q (m_sortedQueues s)"
proof (induction qs arbitrary: s)
  case (Cons r qs)
  then obtain t where t: "drop_if_empty q s = Some t" "drop_empty qs t = Some s'"
    by (auto elim!: bind_SomeE)
  have "prio_erase q (m_sortedQueues t) = prio_erase q (m_sortedQueues s)"
    using t(1) by (auto simp: drop_if_empty_def split: if_splits elim!: bind_SomeE)
  then show ?case using Cons.IH [OF t(2)] Cons.prems(2) by simp
qed simp

lemma ExtractExpiredMpdus_full:
  assumes wf: "mq_wf s" and cur: "current D s"
  obtains s' where "ExtractExpiredMpdus now q s = Some s'" "mq_wf s'" "current D s'" "purge_rel now {q} s s'"
    "prio_erase q (m_sortedQueues s') = prio_erase q (m_sortedQueues s)"
proof (cases "expired_in now q s = []")
  have cwf: "container_wf s" using wf by (simp add: mq_wf_def base_wf_def)
  note eq = DoExtractExpiredMpdus_eq [OF cwf, of now q]
  case True
  have "ExtractExpiredMpdus now q s = Some s" using True eq by (simp add: ExtractExpiredMpdus_def purged_def)
  moreover have "purge_rel now {q} s s"
    using purge_rel_purged [of now q s] True by (simp add: purged_def fire_expired_def)
  ultimately show ?thesis using that [OF _ wf cur] by simp
next
  have cwf: "container_wf s" using wf by (simp add: mq_wf_def base_wf_def)
  note eq = DoExtractExpiredMpdus_eq [OF cwf, of now q]
  case False
  let ?ps = "expired_in now q s"
  let ?t = "fire_expired ?ps (purged now q s)"
  have twf: "mq_wf ?t" by (rule mq_wf_purged [OF wf])
  have tp: "purge_rel now {q} s ?t" by (rule purge_rel_purged)
  have "queue_id_of ?t = queue_id_of (purged now q s)" by (rule queue_id_of_same) (simp add: fire_expired_def)
  then have ids: "\<forall>p \<in> set ?ps. queue_id_of ?t p = q"
    using alive_expired_set [of now q s] container_wfD(3) [OF cwf] by auto
  have info: "m_queueInfo ?t q \<noteq> None"
  proof -
    have "GetQueue q s \<noteq> []" using False by (auto simp: expired_in_def)
    then show ?thesis using wf by (simp add: mq_wf_def listed_wf_def fire_expired_def)
  qed
  have idle: "ExtractExpiredMpdus now q ?t = Some ?t"
  proof -
    have "container_wf ?t" using twf by (simp add: mq_wf_def base_wf_def)
    moreover have none: "expired_in now q ?t = []" by (rule alive_idle) (simp add: GetQueue_purged)
    ultimately show ?thesis
      by (simp only: ExtractExpiredMpdus_def DoExtractExpiredMpdus_eq purged_none none) simp
  qed
  obtain u where u: "head_priority q ?t = Some u"
    "relisted (\<lambda>r. if r = q \<and> GetQueue q ?t \<noteq> [] then head_prio q ?t else prio_of r (m_sortedQueues ?t)) ?t u"
    by (rule head_priority_wf [OF twf])
  have uR: "sched_rel ?t u" "mq_wf u" using u(2) by (simp_all add: relisted_def)
  have "m_queueInfo u q \<noteq> None"
    using fun_cong [OF sched_relD(3) [OF uR(1)], of q] info by (auto simp: links_def)
  moreover have qs: "set (queue_ids u ?ps) = {q}"
  proof -
    have "\<forall>p \<in> set ?ps. queue_id_of u p = q" using ids queue_id_of_same [OF sched_relD(4) [OF uR(1)]] by metis
    then show ?thesis using False by (cases ?ps) (auto simp: queue_ids_def)
  qed
  ultimately obtain s' where s': "drop_empty (queue_ids u ?ps) u = Some s'"
    "relisted (\<lambda>r. if r \<in> {q} \<and> GetQueue r u = [] then None else prio_of r (m_sortedQueues u)) u s'"
    using drop_empty_wf [OF uR(2), of "queue_ids u ?ps"] by auto
  have sR: "sched_rel u s'" "mq_wf s'" using s'(2) by (simp_all add: relisted_def)
  have "NotifyRemove now ?ps ?t = Some s'"
    using u(1) s'(1) idle queue_id_set_single [OF False ids] by (simp add: NotifyRemove_def update_priorities_Cons)
  then have run: "ExtractExpiredMpdus now q s = Some s'"
    using eq False by (simp add: ExtractExpiredMpdus_def)
  have rel: "sched_rel ?t s'" by (rule sched_rel_trans [OF uR(1) sR(1)])
  have head: "head_prio r s' = (if r = q then head_prio q ?t else head_prio r s)" for r
  proof -
    have "head_prio r ?t = head_prio r s" if "r \<noteq> q"
      using tp that by (auto simp: purge_rel_def head_prio_def split: list.split)
    then show ?thesis using sched_relD(6) [OF rel] by simp
  qed
  have prio: "prio_of r (m_sortedQueues s') = (if r = q then head_prio q ?t else prio_of r (m_sortedQueues s))" for r
    using u(2) s'(2) sched_relD(5) [OF uR(1)]
    by (auto simp: relisted_def head_prio_def fire_expired_def split: list.split)
  have "current D s'" using cur by (auto simp: current_def head prio)
  moreover have "prio_erase q (m_sortedQueues s') = prio_erase q (m_sortedQueues s)"
    using drop_empty_erase [OF s'(1)] head_priority_erase [OF u(1)] qs by (simp add: fire_expired_def)
  ultimately show ?thesis
    by (rule that [OF run sR(2) _ purge_rel_relisted [OF tp rel]])
qed

lemma ExtractExpiredMpdus_wf:
  assumes wf: "mq_wf s" and cur: "current D s"
  obtains s' where "ExtractExpiredMpdus now q s = Some s'" "mq_wf s'" "current D s'" "purge_rel now {q} s s'"
  by (rule ExtractExpiredMpdus_full [OF assms])

text \<open>\<open>settled\<close>: which queues the list may still be behind for, after the loop over some of them.\<close>

lemma head_prio_None: "head_prio q c = None \<longleftrightarrow> GetQueue q c = []"
  by (simp add: head_prio_def split: list.split)

lemma purge_rel_info: "purge_rel now Q s s' \<Longrightarrow> m_queueInfo s' q = None \<longleftrightarrow> m_queueInfo s q = None"
  by (metis purge_rel_def links_def option.map_disc_iff)

lemma update_priorities_wf:
  assumes "mq_wf s" "current D s"
  obtains s' where "update_priorities now qs s = Some s'" "mq_wf s'" "purge_rel now (set qs) s s'"
    "current {r \<in> D. r \<notin> set qs \<or> GetQueue r s' = []} s'"
  using assms
proof (induction qs arbitrary: s D thesis)
  case Nil
  then show ?case by simp
next
  case (Cons q qs)
  obtain t where t: "ExtractExpiredMpdus now q s = Some t" "mq_wf t" "current D t" "purge_rel now {q} s t"
    using ExtractExpiredMpdus_wf [OF Cons.prems(2,3)] .
  obtain u where u: "head_priority q t = Some u"
    "relisted (\<lambda>r. if r = q \<and> GetQueue q t \<noteq> [] then head_prio q t else prio_of r (m_sortedQueues t)) t u"
    by (rule head_priority_wf [OF t(2)])
  have R: "sched_rel t u" "mq_wf u" using u(2) by (simp_all add: relisted_def)
  have cu: "current {r \<in> D. r \<noteq> q \<or> GetQueue q t = []} u"
    using t(3) u(2) sched_relD(6) [OF R(1)] by (auto simp: current_def relisted_def)
  obtain s' where s': "update_priorities now qs u = Some s'" "mq_wf s'" "purge_rel now (set qs) u s'"
    "current {r \<in> {r \<in> D. r \<noteq> q \<or> GetQueue q t = []}. r \<notin> set qs \<or> GetQueue r s' = []} s'"
    using Cons.IH [OF _ R(2) cu] by blast
  have rel: "purge_rel now ({q} \<union> set qs) s s'"
    by (rule purge_rel_trans [OF purge_rel_relisted [OF t(4) R(1)] s'(3)])
  have "GetQueue q s' = []" if "GetQueue q t = []"
    using that s'(3) sched_relD(5) [OF R(1)] by (auto simp: purge_rel_def alive_in_def)
  then have "{r \<in> {r \<in> D. r \<noteq> q \<or> GetQueue q t = []}. r \<notin> set qs \<or> GetQueue r s' = []}
      \<subseteq> {r \<in> D. r \<notin> set (q # qs) \<or> GetQueue r s' = []}" by auto
  with s'(4) have "current {r \<in> D. r \<notin> set (q # qs) \<or> GetQueue r s' = []} s'" unfolding current_def by blast
  then show ?case
    using Cons.prems(1) [of s'] t(1) u(1) s'(1,2) rel by (simp add: update_priorities_Cons)
qed

lemma NotifyRemove_wf:
  assumes wf: "mq_wf s" and cur: "current D s" and D: "D \<subseteq> queue_id_of s ` set ps"
    and known: "\<forall>p \<in> set ps. m_queueInfo s (queue_id_of s p) \<noteq> None"
  obtains s' where "NotifyRemove now ps s = Some s'" "mq_wf s'" "current {} s'"
    "purge_rel now (queue_id_of s ` set ps) s s'"
proof -
  have ids: "set (queue_id_set s ps) = queue_id_of s ` set ps" by (simp add: queue_id_set_def queue_ids_def)
  obtain t where t: "update_priorities now (queue_id_set s ps) s = Some t" "mq_wf t"
    "purge_rel now (queue_id_of s ` set ps) s t" "current {r \<in> D. r \<notin> queue_id_of s ` set ps \<or> GetQueue r t = []} t"
    using update_priorities_wf [OF wf cur, of now "queue_id_set s ps"] unfolding ids .
  have q: "queue_id_of t = queue_id_of s"
    using t(3) by (auto simp: purge_rel_def queue_id_of_def fun_eq_iff)
  then have idt: "set (queue_ids t ps) = queue_id_of s ` set ps" by (simp add: queue_ids_def)
  have "\<forall>q \<in> set (queue_ids t ps). m_queueInfo t q \<noteq> None"
    unfolding idt using known purge_rel_info [OF t(3)] by auto
  then obtain u where u: "drop_empty (queue_ids t ps) t = Some u"
    "relisted (\<lambda>r. if r \<in> queue_id_of s ` set ps \<and> GetQueue r t = [] then None else prio_of r (m_sortedQueues t)) t u"
    using drop_empty_wf [OF t(2), of "queue_ids t ps"] unfolding idt by blast
  have R: "sched_rel t u" "mq_wf u" using u(2) by (simp_all add: relisted_def)
  have "prio_of r (m_sortedQueues u) = head_prio r u" for r
  proof (cases "r \<in> queue_id_of s ` set ps \<and> GetQueue r t = []")
    case True
    then show ?thesis
      using u(2) sched_relD(5,6) [OF R(1)] head_prio_None [of r t] by (simp add: relisted_def)
  next
    case False
    then have "r \<notin> {r \<in> D. r \<notin> queue_id_of s ` set ps \<or> GetQueue r t = []}" using D by auto
    with t(4) have "prio_of r (m_sortedQueues t) = head_prio r t" unfolding current_def by blast
    with False show ?thesis
      using u(2) sched_relD(6) [OF R(1)] by (auto simp: relisted_def)
  qed
  then show ?thesis
    using that [of u] t(1) u(1) R(2) purge_rel_relisted [OF t(3) R(1)]
    by (simp add: NotifyRemove_def current_def)
qed

lemma NotifyDequeue_eq: "NotifyDequeue = NotifyRemove"
  by (simp add: fun_eq_iff NotifyDequeue_def NotifyRemove_def)

lemmas NotifyDequeue_wf = NotifyRemove_wf [folded NotifyDequeue_eq]

end
