(* ===== verification/Mac_Queue_Search.thy ===== *)
theory Mac_Queue_Search
  imports Mac_Queue_Wf
begin

text \<open>
  The state of a MAC queue between operations, and \<^verbatim>\<open>GetNext\<close>: the search ends with an
  answer, it passes over no queue that can be served, and it extracts expired MPDUs on the way.
\<close>

section \<open>Between operations\<close>

text \<open>Besides: the list is up to date, there is room for what is queued, and the MPDUs belong to this queue.\<close>

definition owned :: "'a mac_queue_scheme \<Rightarrow> bool" where
  "owned s \<longleftrightarrow> (\<forall>q. \<forall>e \<in> set (GetQueue q s). qe_ac e = m_ac s)"

definition at_rest :: "'a mac_queue_scheme \<Rightarrow> bool" where
  "at_rest s \<longleftrightarrow> mq_wf s \<and> current {} s \<and> m_nPackets s \<le> m_maxSize s \<and> owned s"

lemma at_restD:
  assumes "at_rest s"
  shows "mq_wf s" "current {} s" "m_nPackets s \<le> m_maxSize s" "owned s" "base_wf s" "container_wf s" "listed_wf s"
  using assms by (simp_all add: at_rest_def mq_wf_def base_wf_def)

lemma alive_in_subset: "set (alive_in now q c) \<subseteq> set (GetQueue q c)"
  using arg_cong [OF split_expired_perm [of now "GetQueue q c", OF surjective_pairing], of set_mset]
  by (auto simp: alive_in_def)

lemma purge_relD:
  assumes "purge_rel now Q s s'"
  shows "GetQueue q s' = (if q \<in> Q then alive_in now q s else GetQueue q s)" "m_nPackets s' = m_nPackets s"
    "m_maxSize s' = m_maxSize s" "m_ac s' = m_ac s" "m_maxDelay s' = m_maxDelay s" "links s' = links s"
    "qm_hdr (m_mpdu s' p) = qm_hdr (m_mpdu s p)" "qm_size (m_mpdu s' p) = qm_size (m_mpdu s p)"
    "qm_timestamp (m_mpdu s' p) = qm_timestamp (m_mpdu s p)" "queue_id_of s' p = queue_id_of s p"
  using assms by (simp_all add: purge_rel_def counters_def queue_id_of_def)

lemma at_rest_purge:
  assumes "at_rest s" "purge_rel now Q s s'" "mq_wf s'" "current {} s'"
  shows "at_rest s'"
proof -
  have "owned s'"
    using at_restD(4) [OF assms(1)] purge_relD(1,4) [OF assms(2)] alive_in_subset
    by (fastforce simp: owned_def split: if_splits)
  then show ?thesis using assms at_restD(3) [OF assms(1)] purge_relD(2,3) [OF assms(2)] by (simp add: at_rest_def)
qed

lemma ExtractExpiredMpdus_rest:
  assumes "at_rest s"
  obtains s' where "ExtractExpiredMpdus now q s = Some s'" "at_rest s'" "purge_rel now {q} s s'"
    "prio_erase q (m_sortedQueues s') = prio_erase q (m_sortedQueues s)"
proof -
  obtain s' where "ExtractExpiredMpdus now q s = Some s'" "mq_wf s'" "current {} s'" "purge_rel now {q} s s'"
    "prio_erase q (m_sortedQueues s') = prio_erase q (m_sortedQueues s)"
    by (rule ExtractExpiredMpdus_full [OF at_restD(1,2) [OF assms]])
  then show ?thesis using that at_rest_purge [OF assms] by simp
qed

text \<open>The list and the queues.\<close>

lemma listed_iff:
  assumes "at_rest s"
  shows "q \<in> snd ` set (m_sortedQueues s) \<longleftrightarrow> GetQueue q s \<noteq> []"
proof -
  have "prio_of q (m_sortedQueues s) = head_prio q s" using at_restD(2) [OF assms] by (simp add: current_def)
  then show ?thesis using prio_of_None [of q "m_sortedQueues s"] head_prio_None [of q s] by simp
qed

lemma listed_prio:
  assumes "at_rest s" "n < length (m_sortedQueues s)"
  shows "head_prio (snd (m_sortedQueues s ! n)) s = Some (fst (m_sortedQueues s ! n))"
proof -
  have d: "distinct (map snd (m_sortedQueues s))" using at_restD(7) [OF assms(1)] by (simp add: listed_wf_def)
  have "prio_of q l = Some p" if "distinct (map snd l)" "(p, q) \<in> set l" for p q and l :: "(fcfs_prio \<times> queue_id) list"
    using that by (induction l) (auto simp: prio_of_def image_iff)
  from this [OF d, of "fst (m_sortedQueues s ! n)" "snd (m_sortedQueues s ! n)"] assms(2)
  have "prio_of (snd (m_sortedQueues s ! n)) (m_sortedQueues s) = Some (fst (m_sortedQueues s ! n))" by simp
  then show ?thesis using at_restD(2) [OF assms(1)] by (simp add: current_def)
qed

lemma listed_info: "at_rest s \<Longrightarrow> GetQueue q s \<noteq> [] \<Longrightarrow> m_queueInfo s q \<noteq> None"
  by (rule listed_wfD(4) [OF at_restD(7)])

section \<open>The search\<close>

definition servable :: "nat option \<Rightarrow> bool \<Rightarrow> 'a mac_queue_scheme \<Rightarrow> queue_id \<Rightarrow> bool" where
  "servable linkId skip s q \<longleftrightarrow> (case m_queueInfo s q of None \<Rightarrow> False | Some i \<Rightarrow> eligible linkId skip i)"

lemma servable_links:
  assumes "links s' = links s"
  shows "servable linkId skip s' q = servable linkId skip s q"
proof -
  have "map_option qi_linkIds (m_queueInfo s' q) = map_option qi_linkIds (m_queueInfo s q)"
    using fun_cong [OF assms, of q] by (simp add: links_def)
  then show ?thesis
    by (cases "m_queueInfo s q"; cases "m_queueInfo s' q") (simp_all add: servable_def eligible_def)
qed

lemma position_after_split:
  assumes "n < length l" "snd (l ! n) \<notin> snd ` set (drop (Suc n) l)"
  shows "position_after (snd (l ! n)) l = Some (Suc n)"
proof -
  let ?q = "snd (l ! n)"
  have "rev l = rev (drop (Suc n) l) @ l ! n # rev (take n l)"
    using id_take_nth_drop [OF assms(1)] by (metis append_Cons append_Nil append_assoc rev.simps(2) rev_append)
  moreover have "(\<lambda>(_, q). q \<noteq> ?q) x" if "x \<in> set (rev (drop (Suc n) l))" for x
  proof -
    have "snd x \<in> snd ` set (drop (Suc n) l)" using that by simp
    then have "snd x \<noteq> ?q" using assms(2) by metis
    then show ?thesis by (cases x) simp
  qed
  ultimately have "takeWhile (\<lambda>(_, q). q \<noteq> ?q) (rev l) = rev (drop (Suc n) l)"
    by (simp only: takeWhile_append2) (cases "l ! n", simp)
  then have "length (takeWhile (\<lambda>(_, q). q \<noteq> ?q) (rev l)) = length l - Suc n" by simp
  moreover have "?q \<in> snd ` set l" using assms(1) by simp
  ultimately show ?thesis using assms(1) by (simp add: position_after_def)
qed

lemma prio_erase_nth:
  assumes "distinct (map snd l)" "n < length l"
  shows "prio_erase (snd (l ! n)) l = take n l @ drop (Suc n) l"
proof -
  have l: "l = take n l @ l ! n # drop (Suc n) l" by (rule id_take_nth_drop [OF assms(2)])
  then have "distinct (map snd (take n l @ l ! n # drop (Suc n) l))" using assms(1) by metis
  then have "snd (l ! n) \<notin> snd ` set (take n l)" "snd (l ! n) \<notin> snd ` set (drop (Suc n) l)"
    by (simp_all add: image_iff del: drop_append)
  then have "prio_erase (snd (l ! n)) (take n l @ l ! n # drop (Suc n) l) = take n l @ drop (Suc n) l"
    using prio_erase_other [of "snd (l ! n)" "take n l"] prio_erase_other [of "snd (l ! n)" "drop (Suc n) l"]
    by (simp add: prio_erase_def split_beta)
  then show ?thesis using l by metis
qed

lemma next_position_erase:
  assumes d: "distinct (map snd l)" and n: "n < length l"
  shows "next_position n (snd (l ! n)) l (prio_erase (snd (l ! n)) l) = Some n"
proof -
  let ?q = "snd (l ! n)"
  let ?l = "prio_erase ?q l"
  have l: "?l = take n l @ drop (Suc n) l" by (rule prio_erase_nth [OF d n])
  have dl: "distinct (map snd ?l)" by (rule prio_erase_wf(2) [OF d])
  have gone: "snd (?l ! m) \<noteq> ?q" if "m < length ?l" for m
    using that prio_erase_ids [of ?q l] nth_mem [OF that] by blast
  show ?thesis
  proof (cases n)
    case 0
    then show ?thesis using gone [of 0] by (auto simp: next_position_def)
  next
    case (Suc k)
    have "?l ! k = l ! k" "k < length ?l" unfolding l using n Suc by (simp_all add: nth_append)
    moreover have "snd (?l ! k) \<notin> snd ` set (drop (Suc k) ?l)"
    proof
      assume "snd (?l ! k) \<in> snd ` set (drop (Suc k) ?l)"
      then obtain i where i: "i < length ?l - Suc k" "snd (?l ! (Suc k + i)) = snd (?l ! k)"
        by (auto simp: in_set_conv_nth)
      then have "Suc k + i < length ?l" by linarith
      then show False using i(2) nth_eq_iff_index_eq [OF dl, of "Suc k + i" k] \<open>k < length ?l\<close> by simp
    qed
    ultimately have "position_after (snd (l ! k)) ?l = Some n"
      using position_after_split [of k ?l] Suc by simp
    then show ?thesis using gone [of n] Suc by (auto simp: next_position_def)
  qed
qed

text \<open>No queue in front of the position can be served.\<close>

definition passed :: "nat option \<Rightarrow> bool \<Rightarrow> nat \<Rightarrow> 'a mac_queue_scheme \<Rightarrow> bool" where
  "passed linkId skip n s \<longleftrightarrow>
     (\<forall>i < n. i < length (m_sortedQueues s) \<longrightarrow> \<not> servable linkId skip s (snd (m_sortedQueues s ! i)))"

text \<open>
  Of the queues that are left, none that can be served came before the queue found; the others than
  that are as they were.
\<close>

definition first_of :: "nat option \<Rightarrow> bool \<Rightarrow> 'a mac_queue_scheme \<Rightarrow> 'a mac_queue_scheme \<Rightarrow> queue_id option \<Rightarrow> bool" where
  "first_of linkId skip s s' found \<longleftrightarrow>
     (\<forall>r p. found \<noteq> Some r \<and> head_prio r s' = Some p \<longrightarrow>
        head_prio r s = Some p
        \<and> (servable linkId skip s' r \<longrightarrow> (\<exists>q pq. found = Some q \<and> head_prio q s = Some pq \<and> \<not> prio_less p pq)))"

lemma head_prio_same: "GetQueue q s' = GetQueue q s \<Longrightarrow> (\<And>p. qm_timestamp (m_mpdu s' p) = qm_timestamp (m_mpdu s p))
  \<Longrightarrow> head_prio q s' = head_prio q s"
  by (simp add: head_prio_def split: list.split)

lemma purge_head_prio: "purge_rel now Q s s' \<Longrightarrow> q \<notin> Q \<Longrightarrow> head_prio q s' = head_prio q s"
  by (rule head_prio_same) (simp_all add: purge_relD(1,9))

lemma DoGetNext_search:
  assumes "at_rest s"
  shows "\<exists>s' found Q. DoGetNext now linkId skip n s = Some (s', found) \<and> at_rest s' \<and> purge_rel now Q s s'
    \<and> (\<forall>q. found = Some q \<longrightarrow> servable linkId skip s' q \<and> GetQueue q s' \<noteq> [] \<and> expired_in now q s' = [])
    \<and> (passed linkId skip n s \<longrightarrow> first_of linkId skip s s' found)"
  using assms
proof (induction now linkId skip n s rule: DoGetNext.induct)
  case (1 now linkId skip n s)
  let ?l = "m_sortedQueues s"
  note L = listed_wfD [OF at_restD(7) [OF \<open>at_rest s\<close>]]
  have index: "\<exists>i < length ?l. ?l ! i = (p, r)" if p: "head_prio r s = Some p" for r p
  proof -
    have "r \<in> snd ` set ?l" using p listed_iff [OF \<open>at_rest s\<close>] head_prio_None [of r s] by simp
    then obtain i where i: "i < length ?l" "snd (?l ! i) = r" by (auto simp: in_set_conv_nth)
    then show ?thesis using listed_prio [OF \<open>at_rest s\<close> i(1)] p by (intro exI [of _ i]) (simp add: prod_eq_iff)
  qed
  show ?case
  proof (cases "length ?l \<le> n")
    case True
    have "first_of linkId skip s s None" if P: "passed linkId skip n s"
      unfolding first_of_def
    proof (intro allI impI conjI)
      fix r p assume p: "None \<noteq> Some r \<and> head_prio r s = Some p"
      then obtain i where i: "i < length ?l" "?l ! i = (p, r)" using index by blast
      show "head_prio r s = Some p" using p by simp
      assume "servable linkId skip s r"
      then show "\<exists>q pq. None = Some q \<and> head_prio q s = Some pq \<and> \<not> prio_less p pq"
        using P i True unfolding passed_def by (metis leD leI order_less_le_trans snd_conv)
    qed
    moreover have "DoGetNext now linkId skip n s = Some (s, None)" using True by (simp add: DoGetNext.simps)
    ultimately show ?thesis using \<open>at_rest s\<close> purge_rel_empty [of now s] by blast
  next
    case n: False
    let ?q = "snd (?l ! n)"
    have ne: "GetQueue ?q s \<noteq> []" using listed_iff [OF \<open>at_rest s\<close>, of ?q] n by simp
    obtain i where i: "m_queueInfo s ?q = Some i" using listed_info [OF \<open>at_rest s\<close> ne] by auto
    have sv: "servable linkId skip s ?q = eligible linkId skip i" by (simp add: servable_def i)
    show ?thesis
    proof (cases "eligible linkId skip i")
      case False
      have "passed linkId skip (Suc n) s" if "passed linkId skip n s"
        using that sv False unfolding passed_def by (metis less_SucE)
      moreover have "DoGetNext now linkId skip n s = DoGetNext now linkId skip (Suc n) s"
        using n i False by (subst DoGetNext.simps) simp
      ultimately show ?thesis using 1(2) [OF n refl i False \<open>at_rest s\<close>] by auto
    next
      case el: True
      obtain t where t: "ExtractExpiredMpdus now ?q s = Some t" "at_rest t" "purge_rel now {?q} s t"
        "prio_erase ?q (m_sortedQueues t) = prio_erase ?q ?l"
        by (rule ExtractExpiredMpdus_rest [OF \<open>at_rest s\<close>])
      obtain b where b: "c_GetNBytes ?q t = Some b" "b = 0 \<longleftrightarrow> GetQueue ?q t = []"
        by (rule c_GetNBytes_wf [OF at_restD(6) [OF t(2)]])
      have st: "servable linkId skip t r = servable linkId skip s r" for r
        by (rule servable_links [OF purge_relD(6) [OF t(3)]])
      have other: "head_prio r t = head_prio r s" if "r \<noteq> ?q" for r
        using purge_head_prio [OF t(3)] that by simp
      have idle: "expired_in now ?q t = []" by (rule alive_idle) (simp add: purge_relD(1) [OF t(3)])
      show ?thesis
      proof (cases "b = 0")
        case False
        have "first_of linkId skip s t (Some ?q)" if P: "passed linkId skip n s"
          unfolding first_of_def
        proof (intro allI impI)
          fix r p assume r: "Some ?q \<noteq> Some r \<and> head_prio r t = Some p"
          then have p: "head_prio r s = Some p" using other [of r] by auto
          then obtain k where k: "k < length ?l" "?l ! k = (p, r)" using index by blast
          have "\<not> prio_less p (fst (?l ! n))" if "servable linkId skip t r"
          proof -
            have "n \<le> k" using P k that st unfolding passed_def by (metis leI snd_conv)
            then show ?thesis using fcfs.before_not_greater [OF L(1) _ k(1), of n] k(2) by simp
          qed
          then show "head_prio r s = Some p \<and> (servable linkId skip t r \<longrightarrow>
              (\<exists>q pq. Some ?q = Some q \<and> head_prio q s = Some pq \<and> \<not> prio_less p pq))"
            using p listed_prio [OF \<open>at_rest s\<close>, of n] n by simp
        qed
        moreover have "DoGetNext now linkId skip n s = Some (t, Some ?q)"
          using n i el t(1) b False by (subst DoGetNext.simps) simp
        ultimately show ?thesis using t(2,3) b(2) False idle el st sv by auto
      next
        case 0: True
        then have gone: "GetQueue ?q t = []" using b(2) by simp
        have "?q \<notin> snd ` set (m_sortedQueues t)" using listed_iff [OF t(2)] gone by simp
        then have lt: "m_sortedQueues t = prio_erase ?q ?l" using t(4) prio_erase_other by metis
        have np: "next_position n ?q ?l (m_sortedQueues t) = Some n"
          using next_position_erase [OF L(2), of n] n lt by simp
        have pt: "passed linkId skip n t" if P: "passed linkId skip n s"
          unfolding passed_def
        proof (intro allI impI)
          fix j assume j: "j < n" "j < length (m_sortedQueues t)"
          then have "m_sortedQueues t ! j = ?l ! j" using prio_erase_nth [OF L(2), of n] n lt by (simp add: nth_append)
          then show "\<not> servable linkId skip t (snd (m_sortedQueues t ! j))"
            using P j n st unfolding passed_def by simp
        qed
        have nb: "\<not> b \<noteq> 0" using 0 by simp
        obtain s' found Q where *: "DoGetNext now linkId skip n t = Some (s', found)" "at_rest s'"
          "purge_rel now Q t s'"
          "\<forall>q. found = Some q \<longrightarrow> servable linkId skip s' q \<and> GetQueue q s' \<noteq> [] \<and> expired_in now q s' = []"
          "passed linkId skip n t \<longrightarrow> first_of linkId skip t s' found"
          using 1(1) [OF n refl i el t(1) b(1) nb np t(2)] by blast
        have fs: "first_of linkId skip s s' found" if F: "first_of linkId skip t s' found"
          unfolding first_of_def
        proof (intro allI impI)
          fix r p assume r: "found \<noteq> Some r \<and> head_prio r s' = Some p"
          have hs: "head_prio r' s = Some p'" if "head_prio r' t = Some p'" for r' p'
            using that other [of r'] gone head_prio_None [of ?q t] by (cases "r' = ?q") simp_all
          show "head_prio r s = Some p \<and> (servable linkId skip s' r \<longrightarrow>
              (\<exists>q pq. found = Some q \<and> head_prio q s = Some pq \<and> \<not> prio_less p pq))"
          proof (intro conjI impI)
            show "head_prio r s = Some p" using F r hs unfolding first_of_def by metis
            assume "servable linkId skip s' r"
            then obtain q pq where "found = Some q" "head_prio q t = Some pq" "\<not> prio_less p pq"
              using F r unfolding first_of_def by metis
            then show "\<exists>q pq. found = Some q \<and> head_prio q s = Some pq \<and> \<not> prio_less p pq" using hs by metis
          qed
        qed
        have "DoGetNext now linkId skip n s = DoGetNext now linkId skip n t"
          using n i el t(1) b 0 np by (subst DoGetNext.simps) simp
        with *(1) have run: "DoGetNext now linkId skip n s = Some (s', found)" by simp
        have P: "passed linkId skip n s \<longrightarrow> first_of linkId skip s s' found"
          by (intro impI fs mp [OF *(5)] pt)
        show ?thesis
          by (rule exI [of _ s'], rule exI [of _ found], rule exI [of _ "{?q} \<union> Q"])
            (intro conjI run *(2,4) P purge_rel_trans [OF t(3) *(3)])
      qed
    qed
  qed
qed

end
