(* ===== verification/Mac_Queue_Ops.thy ===== *)
theory Mac_Queue_Ops
  imports Mac_Queue_Search
begin

text \<open>
  What the operations of a MAC queue do to a state at rest: they succeed where the code relies on it,
  and leave the queue at rest.
\<close>

section \<open>MPDUs leave\<close>

text \<open>The MPDUs of a set have left their queues, and nobody has been told.\<close>

definition gone :: "nat set \<Rightarrow> 'a mac_queue_scheme \<Rightarrow> 'a mac_queue_scheme \<Rightarrow> bool" where
  "gone P s s' \<longleftrightarrow>
     (\<forall>q. GetQueue q s' = filter (\<lambda>e. qe_mpdu e \<notin> P) (GetQueue q s))
     \<and> (\<forall>p. m_mpdu s' p = (if p \<in> P then (m_mpdu s p)\<lparr>qm_queueIt := None\<rparr> else m_mpdu s p))
     \<and> expired_ids s' = expired_ids s \<and> m_ac s' = m_ac s \<and> m_maxDelay s' = m_maxDelay s
     \<and> m_sortedQueues s' = m_sortedQueues s \<and> m_queueInfo s' = m_queueInfo s"

lemma goneD:
  assumes "gone P s s'"
  shows "GetQueue q s' = filter (\<lambda>e. qe_mpdu e \<notin> P) (GetQueue q s)" "qm_hdr (m_mpdu s' p) = qm_hdr (m_mpdu s p)"
    "qm_size (m_mpdu s' p) = qm_size (m_mpdu s p)" "qm_timestamp (m_mpdu s' p) = qm_timestamp (m_mpdu s p)"
    "queue_id_of s' p = queue_id_of s p" "m_ac s' = m_ac s" "m_maxDelay s' = m_maxDelay s"
    "m_sortedQueues s' = m_sortedQueues s" "m_queueInfo s' = m_queueInfo s" "IsQueued p s' \<longleftrightarrow> IsQueued p s \<and> p \<notin> P"
  using assms by (simp_all add: gone_def queue_id_of_def IsQueued_def)

lemma gone_empty [simp]: "gone {} s s"
  by (simp add: gone_def)

lemma gone_trans: "gone P s t \<Longrightarrow> gone R t u \<Longrightarrow> gone (P \<union> R) s u"
  by (simp add: gone_def conj_commute)

lemma unqueue_put_queue: "unqueue P (put_queue q l c) = put_queue q l (unqueue P c)"
  by (cases c) (simp add: unqueue_def put_queue_def cong: if_cong)

lemma GetQueue_nBytes [simp]: "GetQueue q (c\<lparr>m_nBytesPerQueue := f\<rparr>) = GetQueue q c"
  by (simp add: GetQueue_def)

lemma base_wf_update:
  "base_wf (x\<lparr>m_nBytes := a, m_nPackets := b\<rparr>) \<longleftrightarrow>
     container_wf x \<and> b = queued x + length (m_expiredQueue x) \<and> a = octets x + octets_of x (expired_ids x)"
  by (simp add: base_wf_def container_wf_def qids_def GetQueue_def queue_id_of_def octets_of_def octets_def queued_def
      expired_ids_def cong: if_cong)

lemma erase_queued:
  assumes wf: "container_wf c" and q: "qm_queueIt (m_mpdu c p) = Some q"
  defines "l \<equiv> filter (\<lambda>e. qe_mpdu e \<noteq> p) (GetQueue q c)"
  shows "c_erase (In_Queue p) c = Some (leave q l (set [p]) c)" "mset (map qe_mpdu l) + mset [p] = mset (qids q c)"
proof -
  note D = container_wfD [OF wf]
  have p: "p \<in> set (qids q c)" using D(5) q by simp
  have id: "queue_id_of c p = q" by (rule D(3) [OF p])
  have "map qe_mpdu l = remove1 p (qids q c)"
    using D(2) [of q] by (simp add: l_def qids_def filter_map comp_def distinct_remove1_removeAll removeAll_filter_not_eq eq_commute)
  then show perm: "mset (map qe_mpdu l) + mset [p] = mset (qids q c)" using p by simp
  obtain n where n: "m_nBytesPerQueue c q = Some n"
    using p D(9) [of q] by (cases "m_nBytesPerQueue c q") (auto simp: qids_def)
  have "octets_of c (map qe_mpdu l) + qm_size (m_mpdu c p) = n"
    using D(8) [OF n] octets_of_mset [of "map qe_mpdu l @ [p]" "qids q c" c] perm by simp
  then have "take_bytes p c = Some (c\<lparr>m_nBytesPerQueue := (m_nBytesPerQueue c)(q \<mapsto> octets_of c (map qe_mpdu l))\<rparr>)"
    using n id by (auto simp: take_bytes_def)
  then show "c_erase (In_Queue p) c = Some (leave q l (set [p]) c)"
    using p q by (simp add: id l_def leave_def SetQueueIt_None unqueue_put_queue unqueue_update qids_def)
qed

lemma leave_sched [simp]:
  "m_sortedQueues (leave q l P s) = m_sortedQueues s" "m_queueInfo (leave q l P s) = m_queueInfo s"
  "m_ac (leave q l P s) = m_ac s" "m_maxDelay (leave q l P s) = m_maxDelay s" "m_expired (leave q l P s) = m_expired s"
  "m_nPackets (leave q l P s) = m_nPackets s" "m_nBytes (leave q l P s) = m_nBytes s" "m_maxSize (leave q l P s) = m_maxSize s"
  by (simp_all add: leave_def put_queue_def unqueue_def)

lemma gone_leave:
  assumes wf: "container_wf s" and q: "qm_queueIt (m_mpdu s p) = Some q"
  shows "gone {p} s (leave q (filter (\<lambda>e. qe_mpdu e \<noteq> p) (GetQueue q s)) {p} s)"
proof -
  have "p \<notin> set (qids r s)" if "r \<noteq> q" for r using container_wfD(5) [OF wf, of p r] q that by simp
  then have "filter (\<lambda>e. qe_mpdu e \<noteq> p) (GetQueue r s) = GetQueue r s" if "r \<noteq> q" for r
    using that by (auto simp: qids_def filter_id_conv)
  then show ?thesis
    by (simp add: gone_def GetQueue_leave) (simp add: leave_def unqueue_def)
qed

lemma base_DoDequeue_queued:
  assumes wf: "base_wf s" and q: "IsQueued p s"
  obtains t where "base_DoDequeue (In_Queue p) s = Some (t, Some p)" "base_wf t" "gone {p} s t"
    "Suc (m_nPackets t) = m_nPackets s" "m_maxSize t = m_maxSize s"
proof -
  obtain r where r: "qm_queueIt (m_mpdu s p) = Some r" using q by (auto simp: IsQueued_def)
  have cwf: "container_wf s" using wf by (simp add: base_wf_def)
  let ?l = "filter (\<lambda>e. qe_mpdu e \<noteq> p) (GetQueue r s)"
  let ?t = "(leave r ?l {p} s)\<lparr>m_nBytes := m_nBytes s - qm_size (m_mpdu s p), m_nPackets := m_nPackets s - 1\<rparr>"
  note E = erase_queued [OF cwf r] and C = leave_counts [OF erase_queued(2) [OF cwf r], of "{p}"]
  have n: "m_nPackets s > 0" "m_nBytes s \<ge> qm_size (m_mpdu s p)" using wf C by (simp_all add: base_wf_def)
  then have "base_DoDequeue (In_Queue p) s = Some (?t, Some p)" using E(1) by (simp add: base_DoDequeue_def)
  moreover have "base_wf ?t"
    unfolding base_wf_update using wf C container_wf_leave [OF cwf E(2)] by (auto simp: base_wf_def)
  moreover have "gone {p} s ?t" using gone_leave [OF cwf r] by (simp add: gone_def GetQueue_def expired_ids_def)
  ultimately show ?thesis using that n(1) by simp
qed

lemma release_room_rest:
  assumes "Suc (m_nPackets t) \<le> m_maxSize t"
  obtains n where "release_room p t = Some (t\<lparr>m_maxSize := n\<rparr>)" "m_nPackets t \<le> n"
    "\<not> IsCtl (qm_hdr (m_mpdu t p)) \<Longrightarrow> n = m_maxSize t"
proof (cases "IsCtl (qm_hdr (m_mpdu t p)) \<and> m_maxSize t \<noteq> 1")
  case True
  then show ?thesis using that [of "m_maxSize t - 1"] assms by (simp add: release_room_def SetMaxSize_def)
next
  case False
  have t: "t\<lparr>m_maxSize := m_maxSize t\<rparr> = t" by simp
  show ?thesis using that [of "m_maxSize t", unfolded t] assms False by (auto simp: release_room_def SetMaxSize_def)
qed

lemma maxSize_frame [simp]:
  "base_wf (s\<lparr>m_maxSize := n\<rparr>) = base_wf s" "gone P s (t\<lparr>m_maxSize := n\<rparr>) = gone P s t" "IsQueued p (s\<lparr>m_maxSize := n\<rparr>) = IsQueued p s"
  by (simp_all add: base_wf_def container_wf_def qids_def GetQueue_def queue_id_of_def octets_of_def octets_def queued_def
      expired_ids_def gone_def IsQueued_def cong: if_cong)

lemma dequeue_all_rest:
  assumes "base_wf s" "m_nPackets s \<le> m_maxSize s" "distinct ps" "\<forall>p \<in> set ps. IsQueued p s"
  obtains s' where "dequeue_all ps s = Some (s', ps)" "base_wf s'" "gone (set ps) s s'" "m_nPackets s' \<le> m_maxSize s'"
    "m_nPackets s = m_nPackets s' + length ps"
    "\<forall>p \<in> set ps. \<not> IsCtl (qm_hdr (m_mpdu s p)) \<Longrightarrow> m_maxSize s' = m_maxSize s"
  using assms
proof (induction ps arbitrary: s thesis)
  case Nil
  show ?case by (rule Nil.prems(1) [of s]) (use Nil.prems(2-) in simp_all)
next
  case (Cons p ps)
  obtain t where t: "base_DoDequeue (In_Queue p) s = Some (t, Some p)" "base_wf t" "gone {p} s t"
    "Suc (m_nPackets t) = m_nPackets s" "m_maxSize t = m_maxSize s"
    by (rule base_DoDequeue_queued [OF Cons.prems(2)]) (use Cons.prems in auto)
  obtain n where n: "release_room p t = Some (t\<lparr>m_maxSize := n\<rparr>)" "m_nPackets t \<le> n"
    "\<not> IsCtl (qm_hdr (m_mpdu t p)) \<Longrightarrow> n = m_maxSize t"
    by (rule release_room_rest [of t p]) (use t Cons.prems in auto)
  obtain s' where s': "dequeue_all ps (t\<lparr>m_maxSize := n\<rparr>) = Some (s', ps)" "base_wf s'" "gone (set ps) (t\<lparr>m_maxSize := n\<rparr>) s'"
    "m_nPackets s' \<le> m_maxSize s'" "m_nPackets (t\<lparr>m_maxSize := n\<rparr>) = m_nPackets s' + length ps"
    "\<forall>p \<in> set ps. \<not> IsCtl (qm_hdr (m_mpdu (t\<lparr>m_maxSize := n\<rparr>) p)) \<Longrightarrow> m_maxSize s' = m_maxSize (t\<lparr>m_maxSize := n\<rparr>)"
    by (rule Cons.IH [of "t\<lparr>m_maxSize := n\<rparr>"]) (use t n Cons.prems goneD(10) [OF t(3)] in auto)
  have "gone {p} s (t\<lparr>m_maxSize := n\<rparr>)" using t(3) by simp
  from gone_trans [OF this s'(3)] show ?case
    using Cons.prems(1) [of s'] t(1,4,5) n(1,3) s' goneD(2) [OF t(3)] by simp
qed

text \<open>The scheduler hears of it afterwards.\<close>

lemma gone_lags:
  assumes s: "at_rest s" and t: "base_wf t" "gone P s t" and P: "\<And>p. p \<in> P \<Longrightarrow> IsQueued p s"
  shows "mq_wf t" "current (queue_id_of s ` P) t" "p \<in> P \<Longrightarrow> m_queueInfo t (queue_id_of s p) \<noteq> None" "owned t"
proof -
  note G = goneD [OF t(2)] and wf = at_restD(6) [OF s]
  have listed: "GetQueue (queue_id_of s p) s \<noteq> []" if "IsQueued p s" for p
  proof -
    obtain q where "qm_queueIt (m_mpdu s p) = Some q" using \<open>IsQueued p s\<close> by (auto simp: IsQueued_def)
    then have "p \<in> set (qids q s)" using container_wfD(5) [OF wf] by simp
    then show ?thesis using container_wfD(3) [OF wf] by (auto simp: qids_def)
  qed
  have "GetQueue q s \<noteq> []" if "GetQueue q t \<noteq> []" for q using that by (auto simp: G(1))
  then have "listed_wf t" using at_restD(7) [OF s] by (simp add: listed_wf_def G(8,9))
  with t(1) show "mq_wf t" by (simp add: mq_wf_def)
  show "m_queueInfo t (queue_id_of s p) \<noteq> None" if "p \<in> P"
    using listed_info [OF s listed [OF P [OF that]]] by (simp add: G(9))
  show "owned t" using at_restD(4) [OF s] by (auto simp: owned_def G(1,6))
  show "current (queue_id_of s ` P) t"
    unfolding current_def
  proof (intro allI impI)
    fix q
    assume q: "q \<notin> queue_id_of s ` P"
    have "qe_mpdu e \<notin> P" if "e \<in> set (GetQueue q s)" for e
      using q container_wfD(3) [OF wf, of "qe_mpdu e" q] that by (auto simp: qids_def)
    then have "GetQueue q t = GetQueue q s" by (simp add: G(1) filter_id_conv)
    then have "head_prio q t = head_prio q s" by (rule head_prio_same) (simp add: G(4))
    then show "prio_of q (m_sortedQueues t) = head_prio q t"
      using at_restD(2) [OF s] by (simp add: current_def G(8))
  qed
qed

lemma NotifyRemove_rest:
  assumes s: "at_rest s" and t: "base_wf t" "gone (set ps) s t" "m_nPackets t \<le> m_maxSize t"
    and P: "\<And>p. p \<in> set ps \<Longrightarrow> IsQueued p s"
  obtains s' where "NotifyRemove now ps t = Some s'" "at_rest s'" "purge_rel now (queue_id_of s ` set ps) t s'"
proof -
  note L = gone_lags [OF s t(1,2) P]
  have q: "queue_id_of t = queue_id_of s" by (rule ext) (rule goneD(5) [OF t(2)])
  obtain s' where s': "NotifyRemove now ps t = Some s'" "mq_wf s'" "current {} s'" "purge_rel now (queue_id_of s ` set ps) t s'"
    by (rule NotifyRemove_wf [OF L(1,2), of ps now]) (use L(3) in \<open>auto simp: q\<close>)
  have "owned s'"
    using L(4) purge_relD(1,4) [OF s'(4)] alive_in_subset by (fastforce simp: owned_def split: if_splits)
  then have "at_rest s'" using s'(2,3) t(3) purge_relD(2,3) [OF s'(4)] by (simp add: at_rest_def)
  then show ?thesis using that s'(1,4) by blast
qed

lemma DoDequeue_rest:
  assumes s: "at_rest s" and ps: "distinct ps" "\<And>p. p \<in> set ps \<Longrightarrow> IsQueued p s"
  obtains t s' where "DoDequeue v ps s = Some s'" "at_rest s'" "gone (set ps) s t"
    "purge_rel (qv_now v) (queue_id_of s ` set ps) t s'" "m_nPackets s = m_nPackets s' + length ps"
    "\<forall>p \<in> set ps. \<not> IsCtl (qm_hdr (m_mpdu s p)) \<Longrightarrow> m_maxSize s' = m_maxSize s"
proof -
  obtain t where t: "dequeue_all ps s = Some (t, ps)" "base_wf t" "gone (set ps) s t" "m_nPackets t \<le> m_maxSize t"
    "m_nPackets s = m_nPackets t + length ps" "\<forall>p \<in> set ps. \<not> IsCtl (qm_hdr (m_mpdu s p)) \<Longrightarrow> m_maxSize t = m_maxSize s"
    by (rule dequeue_all_rest [OF at_restD(5,3) [OF s] ps(1)]) (use ps(2) in auto)
  obtain s' where s': "NotifyRemove (qv_now v) ps t = Some s'" "at_rest s'" "purge_rel (qv_now v) (queue_id_of s ` set ps) t s'"
    by (rule NotifyRemove_rest [OF s t(2,3,4) ps(2)])
  show ?thesis
  proof (cases "ps = []")
    case True
    then show ?thesis using that [of s s] s by (simp add: DoDequeue_def)
  next
    case False
    then show ?thesis using that [of s' t] t s' purge_relD(2,3) [OF s'(3)] by (simp add: DoDequeue_def NotifyDequeue_eq)
  qed
qed

lemma drop_frame [simp]:
  "base_wf (DropAfterDequeue p s) = base_wf s" "gone P s (DropAfterDequeue p t) = gone P s t"
  "m_nPackets (DropAfterDequeue p s) = m_nPackets s" "m_maxSize (DropAfterDequeue p s) = m_maxSize s"
  by (simp_all add: DropAfterDequeue_def base_wf_def container_wf_def qids_def GetQueue_def queue_id_of_def octets_of_def octets_def
      queued_def expired_ids_def gone_def cong: if_cong)

lemma DoRemove_rest:
  assumes s: "at_rest s" and p: "IsQueued p s"
  obtains t s' where "DoRemove v (In_Queue p) s = Some (s', Some p)" "at_rest s'" "gone {p} s t"
    "purge_rel (qv_now v) {queue_id_of s p} t s'" "Suc (m_nPackets s') = m_nPackets s"
    "\<not> IsCtl (qm_hdr (m_mpdu s p)) \<Longrightarrow> m_maxSize s' = m_maxSize s"
proof -
  obtain t where t: "base_DoDequeue (In_Queue p) s = Some (t, Some p)" "base_wf t" "gone {p} s t"
    "Suc (m_nPackets t) = m_nPackets s" "m_maxSize t = m_maxSize s"
    by (rule base_DoDequeue_queued [OF at_restD(5) [OF s] p])
  let ?t = "DropAfterDequeue p t"
  obtain n where n: "release_room p ?t = Some (?t\<lparr>m_maxSize := n\<rparr>)" "m_nPackets ?t \<le> n"
    "\<not> IsCtl (qm_hdr (m_mpdu ?t p)) \<Longrightarrow> n = m_maxSize ?t"
    by (rule release_room_rest [of ?t p]) (use t at_restD(3) [OF s] in simp_all)
  let ?u = "?t\<lparr>m_maxSize := n\<rparr>"
  have u: "base_wf ?u" "gone (set [p]) s ?u" "m_nPackets ?u \<le> m_maxSize ?u" using t n by simp_all
  obtain s' where s': "NotifyRemove (qv_now v) [p] ?u = Some s'" "at_rest s'"
    "purge_rel (qv_now v) (queue_id_of s ` set [p]) ?u s'"
    by (rule NotifyRemove_rest [OF s u]) (use p in simp)
  have "DoRemove v (In_Queue p) s = Some (s', Some p)"
    using t(1) n(1) s'(1) by (simp add: DoRemove_def base_DoRemove_def)
  then show ?thesis
    using that [of s' ?u] s' u t(4,5) n(3) purge_relD(2,3) [OF s'(3)] goneD(2) [OF u(2), of p] by simp
qed

section \<open>Expired MPDUs are wiped\<close>

text \<open>All expired MPDUs of the queues are extracted first.\<close>

lemma purge_rel_fire:
  assumes "purge_rel now Q s (fire_expired ps' t)" "m_expired t = m_expired s"
  shows "purge_rel now Q (fire_expired ps s) (fire_expired (ps @ ps') t)"
proof -
  have f: "m_mpdu (fire_expired x u) = m_mpdu u" "expired_ids (fire_expired x u) = expired_ids u"
    "counters (fire_expired x u) = counters u" "links (fire_expired x u) = links u"
    "m_ac (fire_expired x u) = m_ac u" "m_maxDelay (fire_expired x u) = m_maxDelay u"
    "m_expired (fire_expired x u) = m_expired u @ x" "GetQueue q (fire_expired x u) = GetQueue q u"
    "expired_in now q (fire_expired x u) = expired_in now q u" "alive_in now q (fire_expired x u) = alive_in now q u"
    for x q and u :: "'a mac_queue_scheme"
    by (simp_all add: fire_expired_def expired_ids_def counters_def links_def [abs_def] GetQueue_def expired_in_def alive_in_def)
  show ?thesis using assms by (auto simp: purge_rel_def f)
qed

lemma fire_expired_frame [simp]:
  "mq_wf (fire_expired ps s) = mq_wf s" "m_sortedQueues (fire_expired ps s) = m_sortedQueues s"
  "m_queueInfo (fire_expired ps s) = m_queueInfo s"
proof -
  show s: "m_sortedQueues (fire_expired ps s) = m_sortedQueues s" "m_queueInfo (fire_expired ps s) = m_queueInfo s"
    by (simp_all add: fire_expired_def)
  have "base_wf (fire_expired ps s) = base_wf s" by (rule base_wf_same) simp
  then show "mq_wf (fire_expired ps s) = mq_wf s" by (simp add: mq_wf_def listed_wf_def s)
qed

lemma extract_from_wf:
  assumes "mq_wf s"
  obtains t ps where "extract_from now qs s = Some (t, ps)" "mq_wf t" "m_expired t = m_expired s"
    "purge_rel now (set qs) s (fire_expired ps t)" "m_sortedQueues t = m_sortedQueues s" "m_queueInfo t = m_queueInfo s"
    "set ps = (\<Union>q \<in> set qs. set (expired_in now q s))"
  using assms
proof (induction qs arbitrary: s thesis)
  case Nil
  then show ?case by (simp add: fire_expired_def)
next
  case (Cons q qs)
  let ?p = "purged now q s"
  have cwf: "container_wf s" using Cons.prems(2) by (simp add: mq_wf_def base_wf_def)
  have wf: "mq_wf ?p" using mq_wf_purged [OF Cons.prems(2), where ps = "[]"] by simp
  obtain t ps where t: "extract_from now qs ?p = Some (t, ps)" "mq_wf t" "m_expired t = m_expired ?p"
    "purge_rel now (set qs) ?p (fire_expired ps t)" "m_sortedQueues t = m_sortedQueues ?p" "m_queueInfo t = m_queueInfo ?p"
    "set ps = (\<Union>q \<in> set qs. set (expired_in now q ?p))"
    by (rule Cons.IH [OF _ wf])
  have "purge_rel now ({q} \<union> set qs) s (fire_expired (expired_in now q s @ ps) t)"
    by (rule purge_rel_trans [OF purge_rel_purged purge_rel_fire [OF t(4,3)]])
  moreover have "expired_in now r ?p = (if r = q then [] else expired_in now r s)" for r
    by (simp add: expired_in_def GetQueue_purged alive_in_def)
  then have "set (expired_in now q s @ ps) = (\<Union>r \<in> set (q # qs). set (expired_in now r s))"
    using t(7) by (auto split: if_splits)
  ultimately show ?case
    using Cons.prems(1) [of t "expired_in now q s @ ps"] t by (simp add: DoExtractExpiredMpdus_eq [OF cwf])
qed

lemma ExtractAllExpiredMpdus_rest:
  assumes s: "at_rest s"
  obtains s' where "ExtractAllExpiredMpdus now s = Some s'" "at_rest s'" "purge_rel now UNIV s s'"
proof -
  let ?qs = "map fst (m_queues s)"
  obtain t ps where t: "extract_from now ?qs s = Some (t, ps)" "mq_wf t" "m_expired t = m_expired s"
    "purge_rel now (set ?qs) s (fire_expired ps t)" "m_sortedQueues t = m_sortedQueues s" "m_queueInfo t = m_queueInfo s"
    "set ps = (\<Union>q \<in> set ?qs. set (expired_in now q s))"
    by (rule extract_from_wf [OF at_restD(1) [OF s]])
  have none: "GetQueue q s = []" if "q \<notin> set ?qs" for q
    using that by (auto simp: GetQueue_def dest: map_of_SomeD split: option.split) (metis fst_conv image_eqI map_of_SomeD)
  then have ex: "expired_in now q s = []" "alive_in now q s = []" if "q \<notin> set ?qs" for q
    using that by (simp_all add: expired_in_def alive_in_def)
  then have all: "(\<Union>q \<in> set ?qs. set (expired_in now q s)) = (\<Union>q. set (expired_in now q s))" by fastforce
  have GQ: "(if q \<in> set ?qs then alive_in now q s else GetQueue q s) = (if q \<in> UNIV then alive_in now q s else GetQueue q s)" for q
    using none [of q] ex [of q] by simp
  let ?f = "fire_expired ps t"
  have P: "purge_rel now UNIV s ?f" using t(4) unfolding purge_rel_def all GQ .
  note PD = purge_relD [OF P]
  show ?thesis
  proof (cases "ps = []")
    case True
    have tf: "t = ?f" using True by (simp add: fire_expired_def)
    have "GetQueue q t = GetQueue q s" for q
    proof -
      have "expired_in now q s = []" using t(7) True all by auto
      then have "alive_in now q s = GetQueue q s" using split_expired_none by (simp add: expired_in_def alive_in_def)
      then show ?thesis using PD(1) [of q] tf by simp
    qed
    then have "head_prio q t = head_prio q s" for q
      by (rule head_prio_same) (use PD(9) tf in simp)
    then have "current {} t" using at_restD(2) [OF s] t(5) by (simp add: current_def)
    then have "at_rest t" using at_rest_purge [OF s P] t(2) tf by simp
    then show ?thesis using that [of t] P tf t(1) True by (simp add: ExtractAllExpiredMpdus_def c_ExtractAllExpiredMpdus_def)
  next
    case False
    let ?D = "queue_id_of ?f ` set ps"
    have ids: "queue_id_of ?f p = q" if "p \<in> set (expired_in now q s)" for p q
      using container_wfD(3) [OF at_restD(6) [OF s], of p q] alive_expired_set [of now q s] that PD(10) by auto
    have "current ?D ?f"
      unfolding current_def
    proof (intro allI impI)
      fix q
      assume q: "q \<notin> ?D"
      have "expired_in now q s = []"
      proof (rule ccontr)
        assume "expired_in now q s \<noteq> []"
        then obtain p where p: "p \<in> set (expired_in now q s)" by (cases "expired_in now q s") auto
        then have "p \<in> set ps" unfolding t(7) all by blast
        then have "queue_id_of ?f p \<in> ?D" by (rule imageI)
        then show False using q ids [OF p] by simp
      qed
      then have "alive_in now q s = GetQueue q s" using split_expired_none by (simp add: expired_in_def alive_in_def)
      then have "GetQueue q ?f = GetQueue q s" using PD(1) [of q] by simp
      then have "head_prio q ?f = head_prio q s" by (rule head_prio_same) (rule PD(9))
      then show "prio_of q (m_sortedQueues ?f) = head_prio q ?f"
        using at_restD(2) [OF s] t(5) by (simp add: current_def)
    qed
    moreover have "\<forall>p \<in> set ps. m_queueInfo ?f (queue_id_of ?f p) \<noteq> None"
    proof
      fix p
      assume "p \<in> set ps"
      then obtain q where p: "p \<in> set (expired_in now q s)" using t(7) by auto
      then have "p \<in> set (qids q s)" using alive_expired_set [of now q s] by blast
      then have "GetQueue q s \<noteq> []" by (auto simp: qids_def)
      then have "m_queueInfo s q \<noteq> None" by (rule listed_info [OF s])
      then show "m_queueInfo ?f (queue_id_of ?f p) \<noteq> None" using ids [OF p] t(6) by simp
    qed
    ultimately obtain s' where s': "NotifyRemove now ps ?f = Some s'" "mq_wf s'" "current {} s'" "purge_rel now ?D ?f s'"
      using NotifyRemove_wf [of ?f ?D ps now] t(2) by auto
    have P': "purge_rel now UNIV s s'" using purge_rel_trans [OF P s'(4)] by simp
    have "ExtractAllExpiredMpdus now s = Some s'"
      using t(1) s'(1) False by (simp add: ExtractAllExpiredMpdus_def c_ExtractAllExpiredMpdus_def)
    then show ?thesis using that at_rest_purge [OF s P' s'(2,3)] P' by blast
  qed
qed

text \<open>They are removed then.\<close>

definition expired_gone :: "nat list \<Rightarrow> 'a mac_queue_scheme \<Rightarrow> 'a mac_queue_scheme \<Rightarrow> bool" where
  "expired_gone ps s s' \<longleftrightarrow>
     m_queues s' = m_queues s \<and> m_mpdu s' = m_mpdu s \<and> expired_ids s' = ps \<and> m_maxSize s' = m_maxSize s
     \<and> m_ac s' = m_ac s \<and> m_maxDelay s' = m_maxDelay s \<and> m_sortedQueues s' = m_sortedQueues s
     \<and> m_queueInfo s' = m_queueInfo s"

lemma expired_goneD:
  assumes "expired_gone ps s s'"
  shows "GetQueue q s' = GetQueue q s" "m_mpdu s' = m_mpdu s" "expired_ids s' = ps" "links s' = links s"
    "m_maxSize s' = m_maxSize s" "m_ac s' = m_ac s" "m_maxDelay s' = m_maxDelay s"
  using assms by (simp_all add: expired_gone_def GetQueue_def links_def [abs_def])

lemma unqueue_idle: "qm_queueIt (m_mpdu c p) = None \<Longrightarrow> unqueue {p} c = c"
  by (cases c) (auto simp: unqueue_def fun_eq_iff)

lemma wipe_one:
  assumes s: "at_rest s" and p: "expired_ids s = p # ps"
  obtains t where "base_DoRemove (In_Expired p) s = Some (t, Some p)" "at_rest t" "expired_gone ps s t"
proof -
  have wf: "container_wf s" by (rule at_restD(6) [OF s])
  obtain e es where E: "m_expiredQueue s = e # es" "qe_mpdu e = p" "map qe_mpdu es = ps"
    using p by (auto simp: expired_ids_def)
  have d: "distinct (p # ps)" using container_wfD(6) [OF wf] p by simp
  have es': "filter (\<lambda>e. qe_mpdu e \<noteq> p) es = es" using d E(3) by (auto simp: filter_id_conv)
  then have es: "filter (\<lambda>e. qe_mpdu e \<noteq> p) (m_expiredQueue s) = es" using E(1,2) by simp
  have it: "qm_queueIt (m_mpdu s q) = None" if "q \<in> set (p # ps)" for q
    using container_wfD(7) [OF wf, of q] p that by simp
  let ?c = "s\<lparr>m_expiredQueue := es\<rparr>"
  have er: "c_erase (In_Expired p) s = Some ?c"
    using E it [of p] by (simp add: SetQueueIt_None unqueue_idle es')
  have cwf: "container_wf ?c"
    by (rule container_wf_expired [OF wf]) (use d E(3) it in auto)
  have n: "m_nPackets s > 0" "m_nBytes s \<ge> qm_size (m_mpdu s p)"
    using at_restD(5) [OF s] E(1) p by (simp_all add: base_wf_def)
  let ?t = "DropAfterDequeue p (?c\<lparr>m_nBytes := m_nBytes s - qm_size (m_mpdu s p), m_nPackets := m_nPackets s - 1\<rparr>)"
  have run: "base_DoRemove (In_Expired p) s = Some (?t, Some p)"
    using er n by (simp add: base_DoRemove_def base_DoDequeue_def)
  have same: "queued ?c = queued s" "octets ?c = octets s" "octets_of ?c = octets_of s" "expired_ids ?c = ps"
    using E(3) by (simp_all add: queued_def octets_def octets_of_def fun_eq_iff expired_ids_def)
  have "base_wf ?t"
    unfolding drop_frame base_wf_update using at_restD(5) [OF s] cwf same E(1) p by (auto simp: base_wf_def)
  moreover have G: "expired_gone ps s ?t" using E(3) by (simp add: expired_gone_def DropAfterDequeue_def expired_ids_def)
  moreover have "listed_wf ?t" "current {} ?t" "owned ?t"
    using at_restD(2,4,7) [OF s] expired_goneD(1) [OF G] G head_prio_same [of _ ?t s]
    by (simp_all add: listed_wf_def current_def owned_def expired_gone_def)
  moreover have "m_nPackets ?t \<le> m_maxSize ?t" using at_restD(3) [OF s] by simp
  ultimately have "at_rest ?t" by (simp add: at_rest_def mq_wf_def)
  then show ?thesis using that run G by blast
qed

lemma wipe_rest:
  assumes "at_rest s" "expired_ids s = ps"
  obtains s' where "wipe ps s = Some s'" "at_rest s'" "expired_gone [] s s'"
  using assms
proof (induction ps arbitrary: s thesis)
  case Nil
  then show ?case by (simp add: expired_gone_def)
next
  case (Cons p ps)
  obtain t where t: "base_DoRemove (In_Expired p) s = Some (t, Some p)" "at_rest t" "expired_gone ps s t"
    by (rule wipe_one [OF Cons.prems(2,3)])
  obtain s' where s': "wipe ps t = Some s'" "at_rest s'" "expired_gone [] t s'"
    by (rule Cons.IH [OF _ t(2) expired_goneD(3) [OF t(3)]])
  have "expired_gone [] s s'" using t(3) s'(3) by (simp add: expired_gone_def)
  then show ?case using Cons.prems(1) t(1) s'(1,2) by simp
qed

lemma WipeAllExpiredMpdus_rest:
  assumes s: "at_rest s"
  obtains t s' where "WipeAllExpiredMpdus now s = Some s'" "at_rest s'" "purge_rel now UNIV s t" "expired_gone [] t s'"
proof -
  obtain t where t: "ExtractAllExpiredMpdus now s = Some t" "at_rest t" "purge_rel now UNIV s t"
    by (rule ExtractAllExpiredMpdus_rest [OF s])
  obtain s' where s': "wipe (expired_ids t) t = Some s'" "at_rest s'" "expired_gone [] t s'"
    by (rule wipe_rest [OF t(2) refl])
  have "WipeAllExpiredMpdus now s = Some s'" using t(1) s'(1) by (simp add: WipeAllExpiredMpdus_def expired_ids_def)
  then show ?thesis using that s'(2) t(3) s'(3) by blast
qed

end
