(* ===== verification/Mac_Queue_Enqueue.thy ===== *)
theory Mac_Queue_Enqueue
  imports Mac_Queue_Ops
begin

text \<open>An MPDU enters its queue: what is needed for that, and what the queue is like afterwards.\<close>

section \<open>The container\<close>

definition enter :: "queue_id \<Rightarrow> queue_elem list \<Rightarrow> nat \<Rightarrow> 'a container_scheme \<Rightarrow> 'a container_scheme" where
  "enter q l item c =
     put_queue q l ((SetQueueIt (Some q) item c)
       \<lparr>m_nBytesPerQueue := (m_nBytesPerQueue c)(q \<mapsto> octets_of c (map qe_mpdu l))\<rparr>)"

lemma if_same_mpdu [simp]:
  "(if p = item then qm_size (m_mpdu c item) else qm_size (m_mpdu c p)) = qm_size (m_mpdu c p)"
  "(if p = item then GetQueueId (m_mpdu c item) else GetQueueId (m_mpdu c p)) = GetQueueId (m_mpdu c p)"
  by simp_all

lemma enter_frame [simp]:
  "queue_id_of (enter q l item c) = queue_id_of c" "octets_of (enter q l item c) = octets_of c"
  "m_expiredQueue (enter q l item c) = m_expiredQueue c" "expired_ids (enter q l item c) = expired_ids c"
  "m_mpdu (enter q l item c) = (m_mpdu c)(item := (m_mpdu c item)\<lparr>qm_queueIt := Some q\<rparr>)"
  "m_nBytesPerQueue (enter q l item c) = (m_nBytesPerQueue c)(q \<mapsto> octets_of c (map qe_mpdu l))"
  by (simp_all add: enter_def SetQueueIt_def on_qm_def expired_ids_def octets_of_def [abs_def] queue_id_of_def [abs_def]
      fun_upd_def if_distrib [of GetQueueId] if_distrib [of qm_size] cong: if_cong)

lemma GetQueue_enter: "GetQueue r (enter q l item c) = (if r = q then l else GetQueue r c)"
  by (simp add: enter_def GetQueue_put_queue) (simp add: GetQueue_def SetQueueIt_def on_qm_def)

lemma qids_enter: "qids r (enter q l item c) = (if r = q then map qe_mpdu l else qids r c)"
  by (simp add: qids_def GetQueue_enter)

text \<open>An MPDU that is not queued.\<close>

definition fresh :: "nat \<Rightarrow> 'a container_scheme \<Rightarrow> bool" where
  "fresh item c \<longleftrightarrow> \<not> IsQueued item c \<and> item \<notin> set (expired_ids c) \<and> qm_size (m_mpdu c item) > 0"

lemma container_wf_enter:
  assumes wf: "container_wf c" and q: "queue_id_of c item = q" and new: "fresh item c"
    and perm: "mset (map qe_mpdu l) = add_mset item (mset (qids q c))"
  shows "container_wf (enter q l item c)"
proof -
  note D = container_wfD [OF wf]
  have sets: "set (map qe_mpdu l) = insert item (set (qids q c))" using arg_cong [OF perm, of set_mset] by simp
  have none: "qm_queueIt (m_mpdu c item) = None" using new by (simp add: fresh_def IsQueued_def)
  then have out: "item \<notin> set (qids r c)" for r using D(5) [of item r] by simp
  have "distinct (item # qids q c)" using out D(2) by simp
  then have dist: "distinct (map qe_mpdu l)"
    using perm by (metis mset.simps(2) mset_eq_imp_distinct_iff)
  have keys: "distinct (map fst (m_queues (enter q l item c)))"
    using D(1) by (simp add: enter_def put_queue_def distinct_update SetQueueIt_def on_qm_def del: distinct_map)
  show ?thesis
    unfolding container_wf_def
  proof (intro conjI allI ballI impI iffI keys)
    fix r
    show "distinct (qids r (enter q l item c))" using dist D(2) by (simp add: qids_enter)
    fix p
    assume p: "p \<in> set (qids r (enter q l item c))"
    then show "queue_id_of (enter q l item c) p = r"
      using sets D(3) q by (auto simp: qids_enter split: if_splits)
    show "0 < qm_size (m_mpdu (enter q l item c) p)"
      using p sets D(4) new by (auto simp: qids_enter fresh_def split: if_splits)
    show "qm_queueIt (m_mpdu (enter q l item c) p) = Some r"
      using p sets D(5) out [of r] by (auto simp: qids_enter split: if_splits)
  next
    fix r p
    assume "qm_queueIt (m_mpdu (enter q l item c) p) = Some r"
    then show "p \<in> set (qids r (enter q l item c))" using sets D(5) [of p r] by (auto simp: qids_enter split: if_splits)
  next
    show "distinct (expired_ids (enter q l item c))" using D(6) by simp
    fix p
    assume "p \<in> set (expired_ids (enter q l item c))"
    then show "qm_queueIt (m_mpdu (enter q l item c) p) = None" using D(7) new by (auto simp: fresh_def)
  next
    fix r n
    assume "m_nBytesPerQueue (enter q l item c) r = Some n"
    then show "n = octets_of (enter q l item c) (qids r (enter q l item c))"
      using D(8) [of r n] by (auto simp: qids_enter split: if_splits)
  next
    fix r
    assume "m_nBytesPerQueue (enter q l item c) r = None"
    then show "GetQueue r (enter q l item c) = []" using D(9) [of r] by (auto simp: GetQueue_enter split: if_splits)
  qed
qed

lemma enter_counts:
  assumes perm: "mset (map qe_mpdu l) = add_mset item (mset (qids q c))"
  shows "queued (enter q l item c) = Suc (queued c)" "octets (enter q l item c) = octets c + qm_size (m_mpdu c item)"
proof -
  define d where "d = (SetQueueIt (Some q) item c)\<lparr>m_nBytesPerQueue := (m_nBytesPerQueue c)(q \<mapsto> octets_of c (map qe_mpdu l))\<rparr>"
  have d: "octets d = octets c" "octets_of d = octets_of c" "qids q d = qids q c" "queued d = queued c" "GetQueue q d = GetQueue q c"
    unfolding d_def by (simp_all add: octets_def octets_of_def queued_def qids_def GetQueue_def fun_eq_iff SetQueueIt_def on_qm_def
        if_distrib [of qm_size] cong: if_cong)
  have e: "enter q l item c = put_queue q l d" by (simp add: enter_def d_def)
  have "length l = Suc (length (GetQueue q c))" using arg_cong [OF perm, of size] by (simp add: qids_def)
  then show "queued (enter q l item c) = Suc (queued c)" using queued_put_queue [of q l d] by (simp add: e d)
  have "octets_of c (map qe_mpdu l) = qm_size (m_mpdu c item) + octets_of c (qids q c)"
    using octets_of_mset [of "map qe_mpdu l" "item # qids q c" c] perm by simp
  then show "octets (enter q l item c) = octets c + qm_size (m_mpdu c item)"
    using octets_put_queue [of q l d] by (simp add: e d)
qed

lemma enter_sched [simp]:
  "m_sortedQueues (enter q l p s) = m_sortedQueues s" "m_queueInfo (enter q l p s) = m_queueInfo s"
  "m_ac (enter q l p s) = m_ac s" "m_maxDelay (enter q l p s) = m_maxDelay s" "m_expired (enter q l p s) = m_expired s"
  "m_nPackets (enter q l p s) = m_nPackets s" "m_nBytes (enter q l p s) = m_nBytes s" "m_maxSize (enter q l p s) = m_maxSize s"
  by (simp_all add: enter_def put_queue_def SetQueueIt_def on_qm_def)

text \<open>Where it goes.\<close>

lemma insert_before_perm:
  assumes "insert_before pos e l = Some l'"
  shows "mset (map qe_mpdu l') = add_mset (qe_mpdu e) (mset (map qe_mpdu l))" "set l' = insert e (set l)"
proof -
  have "\<exists>a b. l = a @ b \<and> l' = a @ e # b"
    using assms by (auto simp: insert_before_def split: option.splits elim!: bind_SomeE)
      (metis takeWhile_dropWhile_id)
  then show "mset (map qe_mpdu l') = add_mset (qe_mpdu e) (mset (map qe_mpdu l))" "set l' = insert e (set l)" by auto
qed

section \<open>The scheduler is told\<close>

lemma InitQueueInfo_local:
  assumes "InitQueueInfo v m s = Some t" "m_queueInfo s' = m_queueInfo s" "qm_hdr m' = qm_hdr m" "GetQueueId m' = GetQueueId m"
  obtains i where "InitQueueInfo v m' s' = Some (set_info (GetQueueId m) i s')" "t = set_info (GetQueueId m) i s"
    "qi_listed i = (case m_queueInfo s (GetQueueId m) of Some j \<Rightarrow> qi_listed j | None \<Rightarrow> False)"
  using assms by (auto simp: InitQueueInfo_def Let_def split: if_splits option.splits elim!: bind_SomeE)

lemma listed_wf_enter:
  assumes "listed_wf s" "m_sortedQueues u = m_sortedQueues s" "m_queueInfo u = (m_queueInfo s)(q \<mapsto> i)"
    "\<And>r. r \<noteq> q \<Longrightarrow> GetQueue r u = GetQueue r s"
    "qi_listed i = (case m_queueInfo s q of Some j \<Rightarrow> qi_listed j | None \<Rightarrow> False)"
  shows "listed_wf u"
proof -
  note L = listed_wfD [OF assms(1)]
  have "{r. \<exists>j. m_queueInfo u r = Some j \<and> qi_listed j} = {r. \<exists>j. m_queueInfo s r = Some j \<and> qi_listed j}"
    using assms(3,5) by (auto split: option.splits if_splits)
  moreover have "m_queueInfo u r \<noteq> None" if "GetQueue r u \<noteq> []" for r
    using that assms(3,4) L(4) [of r] by (cases "r = q") auto
  ultimately show ?thesis using L(1-3) assms(2) unfolding listed_wf_def by metis
qed

lemma alive_in_mem: "e \<in> set (GetQueue q c) \<Longrightarrow> now < qe_expiryTime e \<Longrightarrow> e \<in> set (alive_in now q c)"
  using arg_cong [OF split_expired_perm [of now "GetQueue q c", OF surjective_pairing], of set_mset]
    split_expired_taken [of e now "GetQueue q c"]
  by (auto simp: alive_in_def)

lemma NotifyEnqueue_rest:
  assumes u: "base_wf u" and s: "at_rest s" and room: "m_nPackets u \<le> m_maxSize u"
    and same: "m_sortedQueues u = m_sortedQueues s" "m_queueInfo u = m_queueInfo s" "m_ac u = m_ac s"
      "\<And>r. r \<noteq> queue_id_of u item \<Longrightarrow> GetQueue r u = GetQueue r s"
      "\<And>p. qm_timestamp (m_mpdu u p) = qm_timestamp (m_mpdu s p)"
      "GetQueueId (m_mpdu s item) = queue_id_of u item" "qm_hdr (m_mpdu s item) = qm_hdr (m_mpdu u item)"
    and own: "owned u" and init: "InitQueueInfo v (m_mpdu s item) s \<noteq> None"
    and e: "e \<in> set (GetQueue (queue_id_of u item) u)" "qv_now v < qe_expiryTime e"
  obtains w s' where "NotifyEnqueue v item u = Some s'" "at_rest s'" "same_base u w"
    "purge_rel (qv_now v) {queue_id_of u item} w s'" "m_expired w = m_expired u"
proof -
  let ?q = "queue_id_of u item"
  obtain t where t: "InitQueueInfo v (m_mpdu s item) s = Some t" using init by auto
  obtain i where i: "InitQueueInfo v (m_mpdu u item) u = Some (set_info ?q i u)"
    "qi_listed i = (case m_queueInfo s ?q of Some j \<Rightarrow> qi_listed j | None \<Rightarrow> False)"
    by (rule InitQueueInfo_local [OF t same(2), where m' = "m_mpdu u item"])
      (use same(6,7) in \<open>simp_all add: queue_id_of_def\<close>)
  let ?w = "set_info ?q i u"
  have GQ: "GetQueue r ?w = GetQueue r u" for r by simp
  have mw: "m_mpdu ?w = m_mpdu u" by (simp add: set_info_def)
  have "listed_wf ?w"
    by (rule listed_wf_enter [OF at_restD(7) [OF s], where q = ?q and i = i]) (use same(1,2,4) i(2) in simp_all)
  then have wf: "mq_wf ?w" using u base_wf_same [of u ?w] by (simp add: mq_wf_def)
  have "current {?q} ?w"
    unfolding current_def
  proof (intro allI impI)
    fix r
    assume "r \<notin> {?q}"
    then have "head_prio r ?w = head_prio r s"
      using same(4) [of r] mw by (intro head_prio_same) (simp_all add: same(5))
    then show "prio_of r (m_sortedQueues ?w) = head_prio r ?w"
      using at_restD(2) [OF s] by (simp add: current_def same(1))
  qed
  then obtain x where x: "ExtractExpiredMpdus (qv_now v) ?q ?w = Some x" "mq_wf x" "current {?q} x"
    "purge_rel (qv_now v) {?q} ?w x"
    by (rule ExtractExpiredMpdus_wf [OF wf])
  have "e \<in> set (GetQueue ?q x)"
    using alive_in_mem [of e ?q ?w "qv_now v"] e purge_relD(1) [OF x(4), of ?q] by simp
  then obtain h es where h: "GetQueue ?q x = h # es" by (cases "GetQueue ?q x") auto
  let ?p = "\<lparr>fp_priority = qm_timestamp (m_mpdu x (qe_mpdu h)), fp_type = qid_type ?q\<rparr>"
  have hp: "head_prio ?q x = Some ?p" by (simp add: head_prio_def h)
  obtain s' where s': "SetPriority ?q ?p x = Some s'"
    "relisted (\<lambda>r. if r = ?q then Some ?p else prio_of r (m_sortedQueues x)) x s'"
    by (rule SetPriority_wf [OF x(2), where q = ?q and p = ?p]) (use h in simp)
  have R: "mq_wf s'" "sched_rel x s'" using s'(2) by (simp_all add: relisted_def)
  have cur: "current {} s'"
    using x(3) hp s'(2) sched_relD(6) [OF R(2)] by (auto simp: current_def relisted_def)
  have "?q \<in> snd ` set (m_sortedQueues s')"
    using s'(2) prio_of_None [of ?q "m_sortedQueues s'"] by (simp add: relisted_def)
  then obtain j where j: "m_queueInfo s' ?q = Some j" "qi_listed j"
    using R(1) by (auto simp: mq_wf_def listed_wf_def)
  have P: "purge_rel (qv_now v) {?q} ?w s'" by (rule purge_rel_relisted [OF x(4) R(2)])
  note PD = purge_relD [OF P]
  have "queue_id_of ?w item = ?q" by (simp add: queue_id_of_def set_info_def)
  then have run: "NotifyEnqueue v item u = Some s'"
    using i(1) x(1) h s'(1) j by (simp add: NotifyEnqueue_def PeekByQueueId_def)
  have ac: "m_ac ?w = m_ac u" "m_nPackets ?w = m_nPackets u" "m_maxSize ?w = m_maxSize u" by (simp_all add: set_info_def)
  have "owned s'"
    using own PD(1,4) alive_in_subset [of "qv_now v" _ ?w] ac(1) GQ by (fastforce simp: owned_def split: if_splits)
  then have "at_rest s'" using R(1) cur room PD(2,3) ac by (simp add: at_rest_def)
  then show ?thesis by (rule that [OF run _ _ P]) simp_all
qed

section \<open>The item is placed\<close>

definition count_in :: "nat \<Rightarrow> 'a queue_base_scheme \<Rightarrow> 'a queue_base_scheme" where
  "count_in k b =
     b\<lparr>m_nBytes := m_nBytes b + k, m_nTotalReceivedBytes := m_nTotalReceivedBytes b + k,
       m_nPackets := m_nPackets b + 1, m_nTotalReceivedPackets := m_nTotalReceivedPackets b + 1\<rparr>"

lemma count_in_frame [simp]:
  "m_mpdu (count_in k s) = m_mpdu s" "GetQueue q (count_in k s) = GetQueue q s" "m_nPackets (count_in k s) = Suc (m_nPackets s)"
  "m_maxSize (count_in k s) = m_maxSize s" "queue_id_of (count_in k s) = queue_id_of s" "expired_ids (count_in k s) = expired_ids s"
  "m_expiredQueue (count_in k s) = m_expiredQueue s"
  by (simp_all add: count_in_def GetQueue_def queue_id_of_def [abs_def] expired_ids_def)

lemma count_in_sched [simp]:
  "m_sortedQueues (count_in k s) = m_sortedQueues s" "m_queueInfo (count_in k s) = m_queueInfo s"
  "m_ac (count_in k s) = m_ac s" "m_maxDelay (count_in k s) = m_maxDelay s" "m_expired (count_in k s) = m_expired s"
  by (simp_all add: count_in_def)

lemma base_wf_count_in:
  "base_wf (count_in k b) \<longleftrightarrow>
     container_wf b \<and> Suc (m_nPackets b) = queued b + length (m_expiredQueue b) \<and> m_nBytes b + k = octets b + octets_of b (expired_ids b)"
  by (simp add: count_in_def base_wf_def container_wf_def qids_def GetQueue_def queue_id_of_def octets_of_def octets_def queued_def
      expired_ids_def cong: if_cong)

text \<open>The element of an item that has been placed.\<close>

definition expiry_of :: "mq_env \<Rightarrow> nat \<Rightarrow> 'a mac_queue_scheme \<Rightarrow> time" where
  "expiry_of v item s = (if IsCtl (qm_hdr (m_mpdu s item)) then TimeMax else qv_now v + m_maxDelay s)"

definition mark_elem :: "nat \<Rightarrow> ac_index \<Rightarrow> time \<Rightarrow> queue_elem \<Rightarrow> queue_elem" where
  "mark_elem item ac expiry e = (if qe_mpdu e = item then e\<lparr>qe_ac := ac, qe_expiryTime := expiry\<rparr> else e)"

lemma mark_elem_mpdu [simp]: "qe_mpdu (mark_elem item ac t e) = qe_mpdu e" "qe_mpdu \<circ> mark_elem item ac t = qe_mpdu"
  by (simp_all add: mark_elem_def fun_eq_iff)

lemma base_DoEnqueue_eq:
  assumes wf: "base_wf s" and room: "m_nPackets s < m_maxSize s" and q: "queue_id_of s item = q"
    and ins: "insert_before pos (WifiMacQueueElem item) (GetQueue q s) = Some l"
  shows "base_DoEnqueue pos item s = Some (count_in (qm_size (m_mpdu s item))
           (put_queue q l (s\<lparr>m_nBytesPerQueue := (m_nBytesPerQueue s)(q \<mapsto> octets_of s (map qe_mpdu l))\<rparr>)), True)"
proof -
  have cwf: "container_wf s" using wf by (simp add: base_wf_def)
  have perm: "mset (map qe_mpdu l) = add_mset item (mset (qids q s))"
    using insert_before_perm(1) [OF ins] by (simp add: WifiMacQueueElem_def qids_def)
  have "(case m_nBytesPerQueue s q of Some n \<Rightarrow> n | None \<Rightarrow> 0) = octets_of s (qids q s)"
    using container_wfD(8,9) [OF cwf, of q] by (cases "m_nBytesPerQueue s q") (auto simp: qids_def)
  moreover have "octets_of s (map qe_mpdu l) = qm_size (m_mpdu s item) + octets_of s (qids q s)"
    using octets_of_mset [of "map qe_mpdu l" "item # qids q s" s] perm by simp
  ultimately show ?thesis
    using room ins q by (simp add: base_DoEnqueue_def c_insert_def count_in_def put_queue_def Let_def add.commute)
qed

lemma place_item_rest:
  fixes v :: mq_env
  assumes s: "at_rest s" and new: "fresh item s" and room: "m_nPackets s < m_maxSize s"
    and ins: "insert_before pos (WifiMacQueueElem item) (GetQueue (queue_id_of s item) s) = Some l"
    and init: "InitQueueInfo v (m_mpdu s item) s \<noteq> None" and time: "qv_now v < expiry_of v item s"
  defines "q \<equiv> queue_id_of s item" and "l' \<equiv> map (mark_elem item (m_ac s) (expiry_of v item s)) l"
  obtains w s' where "place_item v pos item n s = Some (s', True)" "at_rest s'" "purge_rel (qv_now v) {q} w s'"
    "\<And>r. GetQueue r w = (if r = q then l' else GetQueue r s)" "m_nPackets w = Suc (m_nPackets s)" "m_maxSize w = m_maxSize s"
    "m_mpdu w = (m_mpdu s)(item := (m_mpdu s item)\<lparr>qm_queueIt := Some q\<rparr>)" "expired_ids w = expired_ids s"
    "m_ac w = m_ac s" "m_maxDelay w = m_maxDelay s"
proof -
  let ?k = "qm_size (m_mpdu s item)"
  let ?u = "count_in ?k (enter q l' item s)"
  have wf: "base_wf s" "container_wf s" using at_restD(5,6) [OF s] by simp_all
  have qq: "queue_id_of s item = q" by (simp add: q_def)
  have ids: "map qe_mpdu l' = map qe_mpdu l" by (simp add: l'_def)
  have perm: "mset (map qe_mpdu l') = add_mset item (mset (qids q s))"
    using insert_before_perm(1) [OF ins] unfolding ids by (simp add: WifiMacQueueElem_def qids_def q_def)
  note C = enter_counts [OF perm]
  have uwf: "base_wf ?u"
    unfolding base_wf_count_in using wf(1) C container_wf_enter [OF wf(2) qq new perm]
    by (simp add: base_wf_def)
  have GQ: "GetQueue r ?u = (if r = q then l' else GetQueue r s)" for r by (simp add: GetQueue_enter)
  have mem: "item \<in> qe_mpdu ` set l" using insert_before_perm(2) [OF ins] by (auto simp: WifiMacQueueElem_def)
  then obtain e where e: "e \<in> set l" "qe_mpdu e = item" by auto
  let ?b = "count_in ?k (put_queue q l (s\<lparr>m_nBytesPerQueue := (m_nBytesPerQueue s)(q \<mapsto> octets_of s (map qe_mpdu l))\<rparr>))"
  let ?c = "SetQueueIt (Some q) item ?b"
  have bq: "queue_id_of ?b item = q" by (simp add: queue_id_of_def q_def)
  have c: "qm_queueIt (m_mpdu ?c item) = Some q" "GetQueue q ?c = l" "m_ac ?c = m_ac s" "m_maxDelay ?c = m_maxDelay s"
    "qm_hdr (m_mpdu ?c item) = qm_hdr (m_mpdu s item)"
    by (simp_all add: SetQueueIt_def on_qm_def GetQueue_def put_queue_def update_conv' count_in_def)
  have "put_queue q l' ?c = ?u"
    by (cases s) (simp add: put_queue_def SetQueueIt_def on_qm_def count_in_def enter_def ids update_last)
  then have place: "on_elem item (\<lambda>e. e\<lparr>qe_ac := m_ac s, qe_expiryTime := expiry_of v item s\<rparr>) ?c = Some ?u"
    using c(1,2) mem by (simp add: on_elem_def l'_def mark_elem_def [abs_def] cong: if_cong)
  have own: "owned ?u"
    unfolding owned_def
  proof (intro allI ballI)
    fix r h
    assume "h \<in> set (GetQueue r ?u)"
    then show "qe_ac h = m_ac ?u"
      using at_restD(4) [OF s] insert_before_perm(2) [OF ins]
      by (auto simp: GetQueue_enter l'_def mark_elem_def owned_def q_def WifiMacQueueElem_def split: if_splits)
  qed
  have qu: "queue_id_of ?u item = q" by (simp add: q_def)
  have el: "mark_elem item (m_ac s) (expiry_of v item s) e \<in> set (GetQueue (queue_id_of ?u item) ?u)"
    unfolding qu GQ using e(1) by (simp add: l'_def)
  obtain w s' where w: "NotifyEnqueue v item ?u = Some s'" "at_rest s'" "same_base ?u w"
    "purge_rel (qv_now v) {queue_id_of ?u item} w s'" "m_expired w = m_expired ?u"
    by (rule NotifyEnqueue_rest [OF uwf s _ _ _ _ _ _ _ _ own init el])
      (use room time e(2) in \<open>simp_all add: GQ GetQueue_enter mark_elem_def queue_id_of_def q_def\<close>)
  note B = same_baseD [OF w(3)]
  have run: "place_item v pos item n s =
      do { s \<leftarrow> on_elem item (\<lambda>e. e\<lparr>qe_ac := m_ac ?c, qe_expiryTime :=
             (if IsCtl (qm_hdr (m_mpdu ?c item)) then TimeMax else qv_now v + m_maxDelay ?c)\<rparr>) ?c;
           s \<leftarrow> NotifyEnqueue v item s; Some (s, True) }"
    unfolding place_item_def base_DoEnqueue_eq [OF wf(1) room qq ins [folded q_def]]
    by (simp only: Let_def bq bind.simps prod.case if_True)
  have "place_item v pos item n s = Some (s', True)"
    unfolding run c using place w(1) by (simp add: expiry_of_def)
  then show ?thesis
    by (rule that [of s' w]) (use w(2,4) B qu GQ in \<open>simp_all add: GetQueue_def expired_ids_def\<close>)
qed

section \<open>With room\<close>

lemma InitQueueInfo_links:
  assumes "InitQueueInfo v m s \<noteq> None" "links s' = links s"
  shows "InitQueueInfo v m s' \<noteq> None"
proof -
  have "qi_linkIds (case m_queueInfo s' q of Some i \<Rightarrow> i | None \<Rightarrow> \<lparr>qi_listed = False, qi_linkIds = []\<rparr>)
      = qi_linkIds (case m_queueInfo s q of Some i \<Rightarrow> i | None \<Rightarrow> \<lparr>qi_listed = False, qi_linkIds = []\<rparr>)" for q
    using fun_cong [OF assms(2), of q] by (cases "m_queueInfo s q"; cases "m_queueInfo s' q") (simp_all add: links_def)
  then show ?thesis
    using assms(1) by (auto simp: InitQueueInfo_def Let_def split: if_splits elim!: bind_SomeE)
qed

lemma maxSize_update [simp]:
  "GetQueue q (s\<lparr>m_maxSize := n\<rparr>) = GetQueue q s" "queue_id_of (s\<lparr>m_maxSize := n\<rparr>) = queue_id_of s"
  "links (s\<lparr>m_maxSize := n\<rparr>) = links s" "fresh item (s\<lparr>m_maxSize := n\<rparr>) = fresh item s"
  "expired_ids (s\<lparr>m_maxSize := n\<rparr>) = expired_ids s" "expiry_of v item (s\<lparr>m_maxSize := n\<rparr>) = expiry_of v item s"
  by (simp_all add: GetQueue_def queue_id_of_def [abs_def] links_def [abs_def] fresh_def IsQueued_def expired_ids_def expiry_of_def)

lemma at_rest_maxSize:
  assumes "at_rest s" "m_nPackets s \<le> n"
  shows "at_rest (s\<lparr>m_maxSize := n\<rparr>)"
proof -
  have "head_prio q (s\<lparr>m_maxSize := n\<rparr>) = head_prio q s" for q by (rule head_prio_same) simp_all
  then show ?thesis using assms by (simp add: at_rest_def mq_wf_def listed_wf_def current_def owned_def)
qed

lemma DoEnqueue_room:
  fixes v :: mq_env
  assumes s: "at_rest s" and new: "fresh item s" and room: "m_nPackets s < m_maxSize s \<or> IsCtl (qm_hdr (m_mpdu s item))"
    and ins: "insert_before pos (WifiMacQueueElem item) (GetQueue (queue_id_of s item) s) = Some l"
    and init: "InitQueueInfo v (m_mpdu s item) s \<noteq> None" and time: "qv_now v < expiry_of v item s"
  defines "q \<equiv> queue_id_of s item" and "l' \<equiv> map (mark_elem item (m_ac s) (expiry_of v item s)) l"
  obtains w s' where "DoEnqueue v pos item s = Some (s', True)" "at_rest s'" "purge_rel (qv_now v) {q} w s'"
    "\<And>r. GetQueue r w = (if r = q then l' else GetQueue r s)" "m_nPackets w = Suc (m_nPackets s)"
    "m_mpdu w = (m_mpdu s)(item := (m_mpdu s item)\<lparr>qm_queueIt := Some q\<rparr>)" "expired_ids w = expired_ids s"
    "m_ac w = m_ac s" "m_maxDelay w = m_maxDelay s"
proof -
  let ?n = "if IsCtl (qm_hdr (m_mpdu s item)) then m_maxSize s + 1 else m_maxSize s"
  let ?s = "s\<lparr>m_maxSize := ?n\<rparr>"
  have le: "m_nPackets s \<le> m_maxSize s" by (rule at_restD(3) [OF s])
  have room': "m_nPackets ?s < m_maxSize ?s" using room le by auto
  have rest: "at_rest ?s" by (rule at_rest_maxSize [OF s]) (use le in simp)
  have init': "InitQueueInfo v (m_mpdu ?s item) ?s \<noteq> None" using InitQueueInfo_links [OF init, of ?s] by simp
  obtain w s' where w: "place_item v pos item (m_maxSize s) ?s = Some (s', True)" "at_rest s'"
    "purge_rel (qv_now v) {queue_id_of ?s item} w s'"
    "\<And>r. GetQueue r w = (if r = queue_id_of ?s item then map (mark_elem item (m_ac ?s) (expiry_of v item ?s)) l else GetQueue r ?s)"
    "m_nPackets w = Suc (m_nPackets ?s)" "m_maxSize w = m_maxSize ?s"
    "m_mpdu w = (m_mpdu ?s)(item := (m_mpdu ?s item)\<lparr>qm_queueIt := Some (queue_id_of ?s item)\<rparr>)" "expired_ids w = expired_ids ?s"
    "m_ac w = m_ac ?s" "m_maxDelay w = m_maxDelay ?s"
    by (rule place_item_rest [OF rest, of item pos l v "m_maxSize s"])
      (use new room' ins init' time in simp_all)
  have "(if IsCtl (qm_hdr (m_mpdu s item)) then SetMaxSize (m_maxSize s + 1) s else Some s) = Some ?s"
    using le by (simp add: SetMaxSize_def)
  moreover have "HasToDropBeforeEnqueue v item ?s = Some (?s, None)"
    using room' by (simp add: HasToDropBeforeEnqueue_def)
  ultimately have "DoEnqueue v pos item s = place_item v pos item (m_maxSize s) ?s"
    unfolding DoEnqueue_def Let_def by simp
  then show ?thesis
    by (intro that [of s' w]) (use w in \<open>simp_all add: q_def l'_def\<close>)
qed

section \<open>When the queue is full\<close>

text \<open>No MPDU is waiting to be extracted.\<close>

definition idle :: "time \<Rightarrow> 'a container_scheme \<Rightarrow> bool" where
  "idle now c \<longleftrightarrow> (\<forall>q. expired_in now q c = [])"

lemma ExtractExpiredMpdus_idle:
  assumes "container_wf s" "expired_in now q s = []"
  shows "ExtractExpiredMpdus now q s = Some s"
  by (simp only: ExtractExpiredMpdus_def DoExtractExpiredMpdus_eq [OF assms(1)] purged_none [OF assms(2)] assms(2)) simp

text \<open>An MPDU that may be dropped in favour of another.\<close>

definition droppable :: "nat \<Rightarrow> 'a container_scheme \<Rightarrow> bool" where
  "droppable p c \<longleftrightarrow>
     (\<exists>q. \<exists>e \<in> set (GetQueue q c). qe_mpdu e = p \<and> qe_inflights e = {} \<and> \<not> IsRetry (qm_hdr (m_mpdu c p))
        \<and> qid_type q \<noteq> WIFI_MGT_QUEUE \<and> qid_type q \<noteq> WIFI_CTL_QUEUE)"

lemma drop_candidate_idle:
  assumes wf: "container_wf s" and idle: "idle now s"
  shows "\<exists>r. drop_candidate now qs s = Some (s, r) \<and> (case r of None \<Rightarrow> \<forall>p q. q \<in> set qs \<and> p \<in> set (qids q s) \<longrightarrow> \<not> droppable p s
    | Some p \<Rightarrow> droppable p s)"
proof (induction qs)
  case (Cons q qs)
  let ?ok = "\<lambda>e. qe_inflights e = {} \<and> \<not> IsRetry (qm_hdr (m_mpdu s (qe_mpdu e)))"
  have uniq: "r = q" if "p \<in> set (qids q s)" "p \<in> set (qids r s)" for p r
    using container_wfD(3) [OF wf that(1)] container_wfD(3) [OF wf that(2)] by simp
  obtain r where r: "drop_candidate now qs s = Some (s, r)"
    "case r of None \<Rightarrow> \<forall>p q. q \<in> set qs \<and> p \<in> set (qids q s) \<longrightarrow> \<not> droppable p s | Some p \<Rightarrow> droppable p s"
    using Cons.IH by blast
  show ?case
  proof (cases "qid_type q = WIFI_MGT_QUEUE \<or> qid_type q = WIFI_CTL_QUEUE")
    case True
    then have "\<not> droppable p s" if "p \<in> set (qids q s)" for p
      using uniq [OF that] by (auto simp: droppable_def qids_def)
    then show ?thesis using r True by (intro exI [of _ r]) (auto split: option.splits)
  next
    case False
    have "ExtractExpiredMpdus now q s = Some s"
      by (rule ExtractExpiredMpdus_idle [OF wf]) (use idle in \<open>simp add: idle_def\<close>)
    then have peek: "\<exists>x. PeekByQueueId now q None s = Some (s, x)" by (simp add: PeekByQueueId_def)
    show ?thesis
    proof (cases "find ?ok (GetQueue q s)")
      case None
      then have "\<not> droppable p s" if "p \<in> set (qids q s)" for p
        using uniq [OF that] by (auto simp: droppable_def qids_def find_None_iff)
      moreover have "drop_candidate now (q # qs) s = Some (s, r)" using False peek r(1) None by auto
      ultimately show ?thesis using r(2) by (intro exI [of _ r]) (auto split: option.splits)
    next
      case (Some e)
      then have e: "e \<in> set (GetQueue q s)" "?ok e" by (auto simp: find_Some_iff)
      then have "droppable (qe_mpdu e) s" using False unfolding droppable_def by blast
      moreover have "drop_candidate now (q # qs) s = Some (s, Some (qe_mpdu e))" using False peek Some by auto
      ultimately show ?thesis by (intro exI [of _ "Some (qe_mpdu e)"]) simp
    qed
  qed
qed simp

lemma droppable_queued:
  assumes wf: "container_wf s" and p: "droppable p s"
  shows "IsQueued p s" "\<not> IsCtl (qm_hdr (m_mpdu s p))"
proof -
  obtain q where q: "p \<in> set (qids q s)" "qid_type q \<noteq> WIFI_CTL_QUEUE" using p by (auto simp: droppable_def qids_def)
  then show "IsQueued p s" using container_wfD(5) [OF wf, of p q] by (simp add: IsQueued_def)
  show "\<not> IsCtl (qm_hdr (m_mpdu s p))"
    using container_wfD(3) [OF wf q(1)] q(2) by (auto simp: queue_id_of_def GetQueueId_def Let_def split: if_splits prod.splits)
qed

text \<open>What can be dropped, if the item may take the place of another.\<close>

definition may_drop :: "mq_env \<Rightarrow> nat \<Rightarrow> 'a container_scheme \<Rightarrow> bool" where
  "may_drop v item s \<longleftrightarrow>
     (let hdr = qm_hdr (m_mpdu s item) in qv_dropOldest v \<or> IsCtl hdr \<or> IsMgt hdr) \<and> (\<exists>p. droppable p s)"

lemma HasToDropBeforeEnqueue_full:
  assumes s: "at_rest s" and full: "m_nPackets s = m_maxSize s" and idle: "idle (qv_now v) s"
  obtains p where "HasToDropBeforeEnqueue v item s = Some (s, Some p)"
    "if may_drop v item s then droppable p s else p = item"
proof -
  obtain r where r: "drop_candidate (qv_now v) (map snd (m_sortedQueues s)) s = Some (s, r)"
    "case r of None \<Rightarrow> \<forall>p q. q \<in> set (map snd (m_sortedQueues s)) \<and> p \<in> set (qids q s) \<longrightarrow> \<not> droppable p s
     | Some p \<Rightarrow> droppable p s"
    using drop_candidate_idle [OF at_restD(6) [OF s] idle] by blast
  show ?thesis
  proof (cases r)
    case None
    have "\<not> droppable p s" for p
    proof
      assume p: "droppable p s"
      then obtain q where q: "p \<in> set (qids q s)" by (auto simp: droppable_def qids_def)
      then have "GetQueue q s \<noteq> []" by (auto simp: qids_def)
      then have "q \<in> set (map snd (m_sortedQueues s))" using listed_iff [OF s, of q] by simp
      then show False using r(2) None p q by auto
    qed
    then show ?thesis
      using that [of item] full r(1) None by (auto simp: HasToDropBeforeEnqueue_def may_drop_def Let_def)
  next
    case (Some p)
    let ?may = "qv_dropOldest v \<or> IsCtl (qm_hdr (m_mpdu s item)) \<or> IsMgt (qm_hdr (m_mpdu s item))"
    show ?thesis
    proof (cases ?may)
      case True
      have "may_drop v item s" "droppable p s" using True r(2) Some by (auto simp: may_drop_def Let_def)
      moreover have "HasToDropBeforeEnqueue v item s = Some (s, Some p)"
        using True full r(1) Some by (simp add: HasToDropBeforeEnqueue_def Let_def)
      ultimately show ?thesis using that [of p] by simp
    next
      case False
      then show ?thesis using that [of item] full by (auto simp: HasToDropBeforeEnqueue_def may_drop_def Let_def)
    qed
  qed
qed

lemma gone_links: "gone P s t \<Longrightarrow> links t = links s"
  by (simp add: gone_def links_def [abs_def])

lemma gone_purge_fresh:
  assumes wf: "container_wf s" and t: "gone P s t" and u: "purge_rel now Q t u" and new: "fresh item s" "item \<notin> P"
  shows "fresh item u" "m_mpdu u item = m_mpdu s item"
proof -
  have out: "item \<notin> set (expired_in now q t)" for q
  proof
    assume "item \<in> set (expired_in now q t)"
    then have "item \<in> set (qids q t)" using alive_expired_set [of now q t] by blast
    then have "item \<in> set (qids q s)" by (auto simp: qids_def goneD(1) [OF t])
    then show False using new(1) container_wfD(5) [OF wf, of item q] by (simp add: fresh_def IsQueued_def)
  qed
  show m: "m_mpdu u item = m_mpdu s item" using t u new(2) out by (simp add: gone_def purge_rel_def)
  show "fresh item u" using new t u m out by (auto simp: fresh_def IsQueued_def gone_def purge_rel_def)
qed

lemma DoEnqueue_full:
  assumes s: "at_rest s" and new: "fresh item s" and full: "m_nPackets s = m_maxSize s"
    and data: "\<not> IsCtl (qm_hdr (m_mpdu s item))" and idle: "idle (qv_now v) s"
    and init: "InitQueueInfo v (m_mpdu s item) s \<noteq> None" and time: "0 < m_maxDelay s"
  obtains w s' where "DoEnqueue v None item s = Some (s', may_drop v item s)" "at_rest s'"
    "if may_drop v item s
     then purge_rel (qv_now v) {queue_id_of s item} w s'
       \<and> (\<exists>l e. GetQueue (queue_id_of s item) w = l @ [e] \<and> qe_mpdu e = item \<and> qe_inflights e = {} \<and> qv_now v < qe_expiryTime e)
     else s' = s"
proof -
  obtain p where p: "HasToDropBeforeEnqueue v item s = Some (s, Some p)" "if may_drop v item s then droppable p s else p = item"
    by (rule HasToDropBeforeEnqueue_full [OF s full idle])
  show ?thesis
  proof (cases "may_drop v item s")
    case False
    then have "DoEnqueue v None item s = Some (s, False)" using p data full by (auto simp: DoEnqueue_def SetMaxSize_def Let_def)
    then show ?thesis using that [of s s] s False by simp
  next
    case True
    then have dp: "droppable p s" using p(2) by simp
    note Q = droppable_queued [OF at_restD(6) [OF s] dp]
    have ne: "p \<noteq> item" using Q(1) new by (auto simp: fresh_def)
    obtain t u where t: "DoRemove v (In_Queue p) s = Some (u, Some p)" "at_rest u" "gone {p} s t"
      "purge_rel (qv_now v) {queue_id_of s p} t u" "Suc (m_nPackets u) = m_nPackets s"
      "\<not> IsCtl (qm_hdr (m_mpdu s p)) \<Longrightarrow> m_maxSize u = m_maxSize s"
      using DoRemove_rest [OF s Q(1), of v] by blast
    note G = goneD [OF t(3)] and U = purge_relD [OF t(4)]
    have id: "queue_id_of u item = queue_id_of s item" using G(5) U(10) by simp
    have newu: "fresh item u" and m: "m_mpdu u item = m_mpdu s item"
      using gone_purge_fresh [OF at_restD(6) [OF s] t(3,4) new] ne by simp_all
    have initu: "InitQueueInfo v (m_mpdu u item) u \<noteq> None"
      unfolding m by (rule InitQueueInfo_links [OF init]) (simp add: U(6) gone_links [OF t(3)])
    have room: "m_nPackets u < m_maxSize u" using t(5,6) Q(2) full by simp
    let ?e = "WifiMacQueueElem item"
    have ins: "insert_before None ?e (GetQueue (queue_id_of u item) u) = Some (GetQueue (queue_id_of u item) u @ [?e])"
      by (simp add: insert_before_def)
    have timeu: "qv_now v < expiry_of v item u"
      using time data by (simp add: expiry_of_def m U(5) G(7))
    obtain w s' where w: "place_item v None item (m_maxSize s) u = Some (s', True)" "at_rest s'"
      "purge_rel (qv_now v) {queue_id_of u item} w s'"
      "\<And>r. GetQueue r w = (if r = queue_id_of u item
           then map (mark_elem item (m_ac u) (expiry_of v item u)) (GetQueue (queue_id_of u item) u @ [?e]) else GetQueue r u)"
      "m_nPackets w = Suc (m_nPackets u)" "m_maxSize w = m_maxSize u"
      "m_mpdu w = (m_mpdu u)(item := (m_mpdu u item)\<lparr>qm_queueIt := Some (queue_id_of u item)\<rparr>)" "expired_ids w = expired_ids u"
      "m_ac w = m_ac u" "m_maxDelay w = m_maxDelay u"
      by (rule place_item_rest [OF t(2) newu room ins initu timeu, where n = "m_maxSize s"]) (rule that; (assumption | simp only:))
    have "DoEnqueue v None item s = Some (s', True)"
      using p(1) data ne t(1) w(1) Q(1) by (simp add: DoEnqueue_def Let_def)
    moreover have "\<exists>l e. GetQueue (queue_id_of s item) w = l @ [e] \<and> qe_mpdu e = item \<and> qe_inflights e = {} \<and> qv_now v < qe_expiryTime e"
      using w(4) [of "queue_id_of u item"] timeu id by (auto simp: mark_elem_def WifiMacQueueElem_def)
    ultimately show ?thesis using that [of s' w] w(2,3) True id by simp
  qed
qed

section \<open>Enqueue\<close>

lemma alive_snoc:
  assumes "GetQueue q w = l @ [e]" "qe_inflights e = {}" "now < qe_expiryTime e"
  shows "\<exists>l'. alive_in now q w = l' @ [e]"
proof -
  have "\<exists>l'. fst (split_expired now (l @ [e])) = l' @ [e]"
  proof (induction l)
    case (Cons a l)
    then obtain l' where l': "fst (split_expired now (l @ [e])) = l' @ [e]" by blast
    show ?case
    proof (cases "qe_inflights a = {}")
      case True
      then show ?thesis using l' by (auto split: prod.splits)
    next
      case False
      then have "fst (split_expired now ((a # l) @ [e])) = (a # l') @ [e]" using l' by (auto split: prod.splits)
      then show ?thesis by blast
    qed
  qed (use assms(2,3) in simp)
  then show ?thesis by (simp add: alive_in_def assms(1))
qed

lemma DoEnqueue_room_last:
  assumes s: "at_rest s" "fresh item s" "m_nPackets s < m_maxSize s \<or> IsCtl (qm_hdr (m_mpdu s item))"
    and v: "InitQueueInfo v (m_mpdu s item) s \<noteq> None" "qv_now v < expiry_of v item s"
  obtains s' where "DoEnqueue v None item s = Some (s', True)" "at_rest s'" "\<exists>l. qids (queue_id_of s item) s' = l @ [item]"
proof -
  let ?q = "queue_id_of s item" and ?e = "WifiMacQueueElem item"
  let ?m = "mark_elem item (m_ac s) (expiry_of v item s)"
  have ins: "insert_before None ?e (GetQueue ?q s) = Some (GetQueue ?q s @ [?e])" by (simp add: insert_before_def)
  obtain w s' where w: "DoEnqueue v None item s = Some (s', True)" "at_rest s'" "purge_rel (qv_now v) {?q} w s'"
    "\<And>r. GetQueue r w = (if r = ?q then map ?m (GetQueue ?q s @ [?e]) else GetQueue r s)"
    by (rule DoEnqueue_room [OF s ins v]) (rule that; (assumption | simp only:))
  have "GetQueue ?q w = map ?m (GetQueue ?q s) @ [?m ?e]" using w(4) [of ?q] by simp
  then have "\<exists>l'. alive_in (qv_now v) ?q w = l' @ [?m ?e]"
    by (rule alive_snoc) (use v(2) in \<open>simp_all add: mark_elem_def WifiMacQueueElem_def\<close>)
  then have "\<exists>l. qids ?q s' = l @ [item]"
    using purge_relD(1) [OF w(3), of ?q] by (auto simp: qids_def WifiMacQueueElem_def)
  then show ?thesis using that w(1,2) by blast
qed

lemma WipeAllExpiredMpdus_idle:
  assumes s: "at_rest s"
  obtains t where "WipeAllExpiredMpdus now s = Some t" "at_rest t" "idle now t" "\<And>q. GetQueue q t = alive_in now q s"
    "m_expiredQueue t = []" "links t = links s" "m_ac t = m_ac s" "m_maxDelay t = m_maxDelay s" "m_maxSize t = m_maxSize s"
    "\<And>p. fresh p s \<Longrightarrow> fresh p t \<and> m_mpdu t p = m_mpdu s p"
proof -
  obtain u t where t: "WipeAllExpiredMpdus now s = Some t" "at_rest t" "purge_rel now UNIV s u" "expired_gone [] u t"
    using WipeAllExpiredMpdus_rest [OF s, of now] by blast
  note U = purge_relD [OF t(3)] and T = expired_goneD [OF t(4)]
  have q: "GetQueue q t = alive_in now q s" for q by (simp add: T(1) U(1))
  have "idle now t" unfolding idle_def using alive_idle(2) [OF q] by blast
  moreover have "fresh p t \<and> m_mpdu t p = m_mpdu s p" if p: "fresh p s" for p
  proof -
    have "p \<notin> set (expired_in now q s)" for q
      using p container_wfD(5) [OF at_restD(6) [OF s], of p q] alive_expired_set [of now q s] by (auto simp: fresh_def IsQueued_def)
    then show ?thesis using p t(3) T(2,3) by (simp add: purge_rel_def fresh_def IsQueued_def)
  qed
  moreover have "m_expiredQueue t = []" using T(3) by (simp add: expired_ids_def)
  ultimately show ?thesis using that [of t] t(1,2) q T(4-7) U(3-6) by simp
qed

lemma Enqueue_rest:
  assumes s: "at_rest s" and new: "fresh item s"
    and init: "InitQueueInfo v (m_mpdu s item) s \<noteq> None" and time: "qv_now v < expiry_of v item s"
  obtains s' ok where "Enqueue v item s = Some (s', ok)" "at_rest s'" "m_nPackets s < m_maxSize s \<longrightarrow> ok"
    "ok \<longrightarrow> (\<exists>l. qids (queue_id_of s item) s' = l @ [item])"
    "\<not> ok \<longrightarrow> fresh item s' \<and> m_nPackets s' = m_maxSize s' \<and> m_expiredQueue s' = [] \<and> idle (qv_now v) s'
       \<and> \<not> may_drop v item s' \<and> \<not> IsCtl (qm_hdr (m_mpdu s item))"
proof (cases "m_nPackets s < m_maxSize s")
  case True
  then show ?thesis
    using DoEnqueue_room_last [OF s new _ init time] that [of _ True] by (auto simp: Enqueue_def Insert_def)
next
  case False
  let ?q = "queue_id_of s item"
  obtain t where t: "WipeAllExpiredMpdus (qv_now v) s = Some t" "at_rest t" "idle (qv_now v) t"
    "\<And>q. GetQueue q t = alive_in (qv_now v) q s" "m_expiredQueue t = []" "links t = links s" "m_ac t = m_ac s"
    "m_maxDelay t = m_maxDelay s" "m_maxSize t = m_maxSize s" "\<And>p. fresh p s \<Longrightarrow> fresh p t \<and> m_mpdu t p = m_mpdu s p"
    using WipeAllExpiredMpdus_idle [OF s, of "qv_now v"] by blast
  have run: "Enqueue v item s = DoEnqueue v None item t" using False t(1) by (simp add: Enqueue_def Insert_def Let_def)
  have new': "fresh item t" and m: "m_mpdu t item = m_mpdu s item" using t(10) [OF new] by simp_all
  have init': "InitQueueInfo v (m_mpdu t item) t \<noteq> None" unfolding m by (rule InitQueueInfo_links [OF init t(6)])
  have time': "qv_now v < expiry_of v item t" using time by (auto simp: expiry_of_def m t(8) split: if_splits)
  have id: "queue_id_of t item = ?q" by (simp add: queue_id_of_def m)
  show ?thesis
  proof (cases "m_nPackets t < m_maxSize t \<or> IsCtl (qm_hdr (m_mpdu t item))")
    case True
    obtain s' where s': "DoEnqueue v None item t = Some (s', True)" "at_rest s'" "\<exists>l. qids ?q s' = l @ [item]"
      using DoEnqueue_room_last [OF t(2) new' True init' time'] id by metis
    then show ?thesis using that [of s' True] run by simp
  next
    case full: False
    then have eq: "m_nPackets t = m_maxSize t" and data: "\<not> IsCtl (qm_hdr (m_mpdu t item))"
      using at_restD(3) [OF t(2)] by simp_all
    have pos: "0 < m_maxDelay t" using time' data by (simp add: expiry_of_def)
    obtain w s' where w: "DoEnqueue v None item t = Some (s', may_drop v item t)" "at_rest s'"
      "if may_drop v item t
       then purge_rel (qv_now v) {queue_id_of t item} w s'
         \<and> (\<exists>l e. GetQueue (queue_id_of t item) w = l @ [e] \<and> qe_mpdu e = item \<and> qe_inflights e = {} \<and> qv_now v < qe_expiryTime e)
       else s' = t"
      by (rule DoEnqueue_full [OF t(2) new' eq data t(3) init' pos])
    show ?thesis
    proof (cases "may_drop v item t")
      case False
      then show ?thesis using that [of t False] w new' eq t(2,3,5) data \<open>\<not> m_nPackets s < m_maxSize s\<close> run m by simp
    next
      case True
      then obtain l e where l: "GetQueue ?q w = l @ [e]" "qe_mpdu e = item" "qe_inflights e = {}" "qv_now v < qe_expiryTime e"
        "purge_rel (qv_now v) {?q} w s'"
        using w(3) id by auto
      have "\<exists>l. qids ?q s' = l @ [item]"
        using alive_snoc [OF l(1,3,4)] purge_relD(1) [OF l(5), of ?q] l(2) by (auto simp: qids_def)
      then show ?thesis using that [of s' True] w(1,2) True run by simp
    qed
  qed
qed

end
