(* ===== verification/Mac_Queue_Step.thy ===== *)
theory Mac_Queue_Step
  imports Mac_Queue_Enqueue
begin

text \<open>
  All operations of a MAC queue as steps, and that each keeps the queue at rest; and flushing, which
  ends if the lifetimes of the MPDUs of a queue end in its order.
\<close>

section \<open>Small changes\<close>

lemma base_wf_put_same:
  assumes wf: "base_wf b" and l: "map qe_mpdu l = qids q b"
  shows "base_wf (put_queue q l b)"
proof -
  have ids: "qids r (put_queue q l b) = qids r b" for r using l by (simp add: qids_put_queue)
  have GQ: "GetQueue r (put_queue q l b) = [] \<longleftrightarrow> GetQueue r b = []" for r
    using ids [of r] unfolding qids_def by (metis map_is_Nil_conv)
  have fr: "queue_id_of (put_queue q l b) = queue_id_of b" "octets_of (put_queue q l b) = octets_of b"
    "expired_ids (put_queue q l b) = expired_ids b"
    by (simp_all add: queue_id_of_def [abs_def] octets_of_def [abs_def] expired_ids_def)
  have len: "length l = length (GetQueue q b)" using arg_cong [OF l, of length] by (simp add: qids_def)
  have "m_nPackets (put_queue q l b) = m_nPackets b" "m_nBytes (put_queue q l b) = m_nBytes b"
    by (simp_all add: put_queue_def)
  moreover have "queued (put_queue q l b) = queued b" using queued_put_queue [of q l b] len by simp
  moreover have "octets (put_queue q l b) = octets b" using octets_put_queue [of q l b] l by simp
  ultimately show ?thesis using wf by (simp add: base_wf_def container_wf_def ids GQ fr)
qed

lemma put_queue_sched [simp]:
  "m_sortedQueues (put_queue q l s) = m_sortedQueues s" "m_queueInfo (put_queue q l s) = m_queueInfo s"
  "m_ac (put_queue q l s) = m_ac s" "m_nPackets (put_queue q l s) = m_nPackets s" "m_maxSize (put_queue q l s) = m_maxSize s"
  by (simp_all add: put_queue_def)

lemma head_prio_ids:
  assumes "qids q c' = qids q c" "m_mpdu c' = m_mpdu c"
  shows "head_prio q c' = head_prio q c"
  using assms by (cases "GetQueue q c"; cases "GetQueue q c'") (auto simp: head_prio_def qids_def)

lemma at_rest_put_same:
  assumes s: "at_rest s" and l: "map qe_mpdu l = qids q s" "\<forall>e \<in> set l. qe_ac e = m_ac s"
  shows "at_rest (put_queue q l s)"
proof -
  have ids: "qids r (put_queue q l s) = qids r s" for r using l(1) by (simp add: qids_put_queue)
  have GQ: "GetQueue r (put_queue q l s) = [] \<longleftrightarrow> GetQueue r s = []" for r
    using ids [of r] unfolding qids_def by (metis map_is_Nil_conv)
  have "head_prio r (put_queue q l s) = head_prio r s" for r by (rule head_prio_ids [OF ids]) simp
  then show ?thesis
    using at_restD(2,3,4,7) [OF s] base_wf_put_same [OF at_restD(5) [OF s] l(1)] l(2)
    by (simp add: at_rest_def mq_wf_def listed_wf_def current_def owned_def GQ) (simp add: GetQueue_put_queue)
qed

lemma on_elem_rest:
  assumes s: "at_rest s" and run: "on_elem p f s = Some s'" and f: "\<And>e. qe_mpdu (f e) = qe_mpdu e" "\<And>e. qe_ac (f e) = qe_ac e"
  shows "at_rest s'"
proof -
  obtain q where q: "s' = put_queue q (map (\<lambda>e. if qe_mpdu e = p then f e else e) (GetQueue q s)) s"
    using run by (auto simp: on_elem_def elim!: bind_SomeE)
  show ?thesis
    unfolding q
  proof (rule at_rest_put_same [OF s])
    show "map qe_mpdu (map (\<lambda>e. if qe_mpdu e = p then f e else e) (GetQueue q s)) = qids q s" by (simp add: qids_def f(1))
    show "\<forall>e \<in> set (map (\<lambda>e. if qe_mpdu e = p then f e else e) (GetQueue q s)). qe_ac e = m_ac s"
      using at_restD(4) [OF s] by (auto simp: owned_def f(2))
  qed
qed

text \<open>The store changes where no queue depends on it.\<close>

lemma at_rest_on_qm:
  assumes s: "at_rest s"
    and m: "qm_queueIt (f (m_mpdu s p)) = qm_queueIt (m_mpdu s p)"
      "p \<in> set (expired_ids s) \<or> IsQueued p s \<Longrightarrow> qm_size (f (m_mpdu s p)) = qm_size (m_mpdu s p)"
      "IsQueued p s \<Longrightarrow> GetQueueId (f (m_mpdu s p)) = queue_id_of s p"
      "IsQueued p s \<Longrightarrow> qm_timestamp (f (m_mpdu s p)) = qm_timestamp (m_mpdu s p)"
  shows "at_rest (on_qm p f s)"
proof -
  let ?s = "on_qm p f s"
  have wf: "container_wf s" by (rule at_restD(6) [OF s])
  have fr: "m_queues ?s = m_queues s" "m_nBytesPerQueue ?s = m_nBytesPerQueue s" "expired_ids ?s = expired_ids s"
    "m_expiredQueue ?s = m_expiredQueue s"
    "m_nPackets ?s = m_nPackets s" "m_nBytes ?s = m_nBytes s" "m_maxSize ?s = m_maxSize s" "m_ac ?s = m_ac s"
    "m_sortedQueues ?s = m_sortedQueues s" "m_queueInfo ?s = m_queueInfo s" "queued ?s = queued s"
    by (simp_all add: on_qm_def expired_ids_def queued_def)
  have GQ: "GetQueue q ?s = GetQueue q s" and ids: "qids q ?s = qids q s" for q by (simp_all add: GetQueue_def qids_def fr)
  have it: "qm_queueIt (m_mpdu ?s r) = qm_queueIt (m_mpdu s r)" for r using m(1) by (simp add: on_qm_def)
  have Q: "IsQueued r s" if "r \<in> set (qids q s)" for r q
    using container_wfD(5) [OF wf, of r q] that by (simp add: IsQueued_def)
  have size: "qm_size (m_mpdu ?s r) = qm_size (m_mpdu s r)" if "r \<in> set (expired_ids s) \<or> IsQueued r s" for r
    using m(2) that by (auto simp: on_qm_def)
  have id: "queue_id_of ?s r = queue_id_of s r" if "IsQueued r s" for r
    using m(3) that by (auto simp: on_qm_def queue_id_of_def)
  have oct: "octets_of ?s ps = octets_of s ps" if "\<forall>r \<in> set ps. r \<in> set (expired_ids s) \<or> IsQueued r s" for ps
    using that size by (auto simp: octets_of_def intro!: arg_cong [where f = sum_list])
  have octq: "octets_of ?s (qids q s) = octets_of s (qids q s)" for q using Q by (intro oct) blast
  have "octets ?s = octets s"
  proof -
    have "octets_of ?s (map qe_mpdu l) = octets_of s (map qe_mpdu l)" if "(q, l) \<in> set (m_queues s)" for q l
    proof -
      have "GetQueue q s = l" using that container_wfD(1) [OF wf] by (simp add: GetQueue_def)
      then show ?thesis using octq [of q] by (simp add: qids_def)
    qed
    then show ?thesis unfolding octets_def fr by (intro arg_cong [where f = sum_list] map_cong) auto
  qed
  moreover have "octets_of ?s (expired_ids s) = octets_of s (expired_ids s)" by (intro oct) blast
  moreover have "container_wf ?s"
    unfolding container_wf_def fr ids it GQ octq
  proof (intro conjI allI ballI impI)
    fix q p
    assume p: "p \<in> set (qids q s)"
    show "queue_id_of ?s p = q" using id [OF Q [OF p]] container_wfD(3) [OF wf p] by simp
    show "0 < qm_size (m_mpdu ?s p)" using size Q [OF p] container_wfD(4) [OF wf p] by simp
  qed (use container_wfD [OF wf] in \<open>simp_all\<close>)
  ultimately have b: "base_wf ?s" using at_restD(5) [OF s] by (simp add: base_wf_def fr)
  have "head_prio q ?s = head_prio q s" for q
  proof (cases "GetQueue q s")
    case (Cons e es)
    then have "IsQueued (qe_mpdu e) s" using Q [of "qe_mpdu e" q] by (simp add: qids_def)
    then have "qm_timestamp (m_mpdu ?s (qe_mpdu e)) = qm_timestamp (m_mpdu s (qe_mpdu e))"
      using m(4) by (auto simp: on_qm_def)
    then show ?thesis using Cons GQ [of q] by (simp add: head_prio_def)
  qed (simp add: head_prio_def GQ)
  then show ?thesis
    using at_restD(2,3,4,7) [OF s] b by (simp add: at_rest_def mq_wf_def listed_wf_def current_def owned_def fr GQ)
qed

text \<open>Blocking only touches the links of a queue.\<close>

lemma at_rest_set_info:
  assumes s: "at_rest s" and i: "qi_listed i = (case m_queueInfo s q of Some j \<Rightarrow> qi_listed j | None \<Rightarrow> False)"
  shows "at_rest (set_info q i s)"
proof -
  have "listed_wf (set_info q i s)"
    by (rule listed_wf_enter [OF at_restD(7) [OF s], where q = q and i = i]) (simp_all add: i)
  moreover have "base_wf (set_info q i s) = base_wf s" by (rule base_wf_same) simp
  moreover have "head_prio r (set_info q i s) = head_prio r s" for r
    by (rule head_prio_same) (simp, simp add: set_info_def)
  ultimately show ?thesis
    using at_restD(2-5) [OF s] by (simp add: at_rest_def mq_wf_def current_def owned_def) (simp add: set_info_def)
qed

lemma InitQueueInfo_rest:
  assumes s: "at_rest s" and run: "InitQueueInfo v m s = Some s'"
  shows "at_rest s'"
proof -
  obtain i where "s' = set_info (GetQueueId m) i s"
    "qi_listed i = (case m_queueInfo s (GetQueueId m) of Some j \<Rightarrow> qi_listed j | None \<Rightarrow> False)"
    by (rule InitQueueInfo_local [OF run refl refl refl])
  then show ?thesis using at_rest_set_info [OF s] by simp
qed

lemma block_one_rest:
  assumes s: "at_rest s" and run: "block_one v block reason rx tx ls hdr s = Some s'"
  shows "at_rest s'"
proof -
  obtain m t i where *: "InitQueueInfo v m s = Some t" "m_queueInfo t (GetQueueId m) = Some i"
    "s' = set_info (GetQueueId m) (set_mask block reason ls i) t"
    using run by (auto simp: block_one_def Let_def elim!: bind_SomeE)
  show ?thesis
    unfolding *(3) by (rule at_rest_set_info [OF InitQueueInfo_rest [OF s *(1)]]) (simp add: set_mask_def *(2))
qed

lemma DoBlockQueues_rest:
  assumes "at_rest s" "DoBlockQueues v block reason types rx tx tids ls s = Some s'"
  shows "at_rest s'"
proof -
  have "at_rest s \<Longrightarrow> block_all_of v block reason rx tx ls hdrs s = Some s' \<Longrightarrow> at_rest s'" for hdrs
    by (induction hdrs arbitrary: s) (auto elim!: bind_SomeE intro: block_one_rest)
  then show ?thesis using assms by (auto simp: DoBlockQueues_def elim!: bind_SomeE)
qed

section \<open>The operations\<close>

lemma PeekByQueueId_rest:
  assumes s: "at_rest s" and run: "PeekByQueueId now q item s = Some (s', r)"
  shows "at_rest s'"
proof (cases item)
  case None
  obtain t where t: "ExtractExpiredMpdus now q s = Some t" "at_rest t" by (rule ExtractExpiredMpdus_rest [OF s])
  then show ?thesis using run None by (simp add: PeekByQueueId_def)
next
  case (Some p)
  then show ?thesis using run s by (auto simp: PeekByQueueId_def elim!: bind_SomeE)
qed

lemma DoGetNext_rest:
  assumes "at_rest s" "DoGetNext now linkId skip n s = Some (s', r)"
  shows "at_rest s'"
  using DoGetNext_search [OF assms(1), of now linkId skip n] assms(2) by auto

lemma Peek_rest:
  assumes s: "at_rest s" and run: "Peek v linkId s = Some (s', r)"
  shows "at_rest s'"
proof -
  obtain t q where t: "DoGetNext (qv_now v) linkId True 0 s = Some (t, q)"
    "(case q of None \<Rightarrow> Some (t, None) | Some q \<Rightarrow> (case GetQueue q t of [] \<Rightarrow> None | e # _ \<Rightarrow> Some (t, Some (qe_mpdu e)))) = Some (s', r)"
    using run by (auto simp: Peek_def GetNext_def elim!: bind_SomeE)
  then have "s' = t" by (auto split: option.splits list.splits)
  then show ?thesis using DoGetNext_rest [OF s t(1)] by simp
qed

lemma PeekFirstAvailable_rest:
  assumes s: "at_rest s" and run: "PeekFirstAvailable v linkId item s = Some (s', r)"
  shows "at_rest s'"
proof -
  have head: "t = s'" if "(case q of None \<Rightarrow> Some (t, None) | Some q \<Rightarrow> (case GetQueue q t of [] \<Rightarrow> None | e # _ \<Rightarrow> Some (t, Some (qe_mpdu e))))
      = Some (s', r)" for t q
    using that by (auto split: option.splits list.splits)
  show ?thesis
  proof (cases item)
    case None
    then obtain t q where "DoGetNext (qv_now v) (Some linkId) True 0 s = Some (t, q)" "t = s'"
      using run head by (auto simp: PeekFirstAvailable_def GetNext_def elim!: bind_SomeE)
    then show ?thesis using DoGetNext_rest [OF s] by simp
  next
    case (Some p)
    then obtain t x where t: "PeekByQueueId (qv_now v) (queue_id_of s p) (Some p) s = Some (t, x)"
      "t = s' \<or> (\<exists>n q. DoGetNext (qv_now v) (Some linkId) True n t = Some (s', q))"
      using run head by (auto simp: PeekFirstAvailable_def GetNextAfter_def split: if_splits elim!: bind_SomeE) blast+
    show ?thesis using PeekByQueueId_rest [OF s t(1)] t(2) DoGetNext_rest by blast
  qed
qed

lemma DoRemove_queued:
  assumes "at_rest s" "IsQueued p s" "DoRemove v (In_Queue p) s = Some (s', r)"
  shows "at_rest s'"
  using DoRemove_rest [OF assms(1,2), of v] assms(3) by auto

lemma elem_of_queued: "elem_of p s = Some e \<Longrightarrow> IsQueued p s"
  by (auto simp: elem_of_def IsQueued_def elim!: bind_SomeE)

lemma Remove_rest: "at_rest s \<Longrightarrow> Remove v p s = Some (s', r) \<Longrightarrow> at_rest s'"
  by (auto simp: Remove_def elim!: bind_SomeE intro: DoRemove_queued elem_of_queued)

lemma RemoveFirst_rest:
  assumes s: "at_rest s" and run: "RemoveFirst v s = Some (s', r)"
  shows "at_rest s'"
proof -
  obtain t q where t: "DoGetNext (qv_now v) None False 0 s = Some (t, q)"
    "(case q of None \<Rightarrow> Some (t, None) | Some q \<Rightarrow> (case GetQueue q t of [] \<Rightarrow> None | e # _ \<Rightarrow> Remove v (qe_mpdu e) t)) = Some (s', r)"
    using run by (auto simp: RemoveFirst_def GetNext_def elim!: bind_SomeE)
  have "at_rest t" by (rule DoGetNext_rest [OF s t(1)])
  then show ?thesis using t(2) Remove_rest by (auto split: option.splits list.splits)
qed

lemma DoDequeue_queued:
  assumes "at_rest s" "distinct ps" "\<And>p. p \<in> set ps \<Longrightarrow> IsQueued p s" "DoDequeue v ps s = Some s'"
  shows "at_rest s'"
  using DoDequeue_rest [OF assms(1-3), of v] assms(4) by auto

lemma DequeueIfQueued_rest:
  assumes "at_rest s" "distinct ps" "DequeueIfQueued v ps s = Some s'"
  shows "at_rest s'"
  using assms(3) by (auto simp: DequeueIfQueued_def Let_def elim!: bind_SomeE
      intro: DoDequeue_queued [OF assms(1) distinct_filter [OF assms(2)]])

text \<open>What an insertion needs, if it is to return.\<close>

lemma place_item_returns:
  assumes run: "place_item v pos item n s = Some r" and room: "m_nPackets s < m_maxSize s" and wf: "base_wf s"
  shows "\<exists>l. insert_before pos (WifiMacQueueElem item) (GetQueue (queue_id_of s item) s) = Some l"
    and "InitQueueInfo v (m_mpdu s item) s \<noteq> None"
proof -
  obtain l where l: "insert_before pos (WifiMacQueueElem item) (GetQueue (queue_id_of s item) s) = Some l"
    using run room by (auto simp: place_item_def base_DoEnqueue_def c_insert_def Let_def elim!: bind_SomeE)
  then show "\<exists>l. insert_before pos (WifiMacQueueElem item) (GetQueue (queue_id_of s item) s) = Some l" ..
  note E = base_DoEnqueue_eq [OF wf room refl l]
  obtain b where b: "base_DoEnqueue pos item s = Some (b, True)" "m_queueInfo b = m_queueInfo s" "m_mpdu b = m_mpdu s"
    unfolding E by simp
  let ?c = "SetQueueIt (Some (queue_id_of b item)) item b"
  obtain x u t where u: "on_elem item (\<lambda>e. e\<lparr>qe_ac := m_ac ?c, qe_expiryTime := x\<rparr>) ?c = Some u" "NotifyEnqueue v item u = Some t"
    using run unfolding place_item_def b(1) by (auto simp: Let_def elim!: bind_SomeE)
  have f: "m_queueInfo u = m_queueInfo s" "m_mpdu u item = (m_mpdu s item)\<lparr>qm_queueIt := Some (queue_id_of b item)\<rparr>"
    using u(1) b(2,3) by (auto simp: on_elem_def SetQueueIt_def on_qm_def elim!: bind_SomeE)
  obtain w where w: "InitQueueInfo v (m_mpdu u item) u = Some w"
    using u(2) by (auto simp: NotifyEnqueue_def elim!: bind_SomeE)
  obtain i where "InitQueueInfo v (m_mpdu s item) s = Some (set_info (GetQueueId (m_mpdu u item)) i s)"
    by (rule InitQueueInfo_local [OF w, where s' = s and m' = "m_mpdu s item"]) (simp_all add: f)
  then show "InitQueueInfo v (m_mpdu s item) s \<noteq> None" by simp
qed

lemma DoEnqueue_returns:
  assumes run: "DoEnqueue v pos item s = Some r" and s: "at_rest s" and room: "m_nPackets s < m_maxSize s"
  shows "\<exists>l. insert_before pos (WifiMacQueueElem item) (GetQueue (queue_id_of s item) s) = Some l"
    and "InitQueueInfo v (m_mpdu s item) s \<noteq> None"
proof -
  let ?s = "s\<lparr>m_maxSize := if IsCtl (qm_hdr (m_mpdu s item)) then m_maxSize s + 1 else m_maxSize s\<rparr>"
  have "(if IsCtl (qm_hdr (m_mpdu s item)) then SetMaxSize (m_maxSize s + 1) s else Some s) = Some ?s"
    using room by (simp add: SetMaxSize_def)
  moreover have "HasToDropBeforeEnqueue v item ?s = Some (?s, None)" using room by (simp add: HasToDropBeforeEnqueue_def)
  ultimately have "place_item v pos item (m_maxSize s) ?s = Some r" using run unfolding DoEnqueue_def Let_def by simp
  from place_item_returns [OF this] room at_restD(5) [OF s] InitQueueInfo_links [of v "m_mpdu s item" ?s s]
  show "\<exists>l. insert_before pos (WifiMacQueueElem item) (GetQueue (queue_id_of s item) s) = Some l"
    and "InitQueueInfo v (m_mpdu s item) s \<noteq> None" by simp_all
qed

lemma DoEnqueue_rest:
  assumes run: "DoEnqueue v pos item s = Some (s', ok)" and s: "at_rest s" "fresh item s" and room: "m_nPackets s < m_maxSize s"
    and time: "qv_now v < expiry_of v item s"
  shows "at_rest s'"
proof -
  note R = DoEnqueue_returns [OF run s(1) room]
  obtain l where "insert_before pos (WifiMacQueueElem item) (GetQueue (queue_id_of s item) s) = Some l" using R(1) by blast
  from DoEnqueue_room [OF s _ this R(2) time] show ?thesis using run room by auto
qed

lemma Replace_rest:
  assumes s: "at_rest s" and run: "Replace v cur new s = Some s'" and new: "new \<notin> set (expired_ids s)" "qm_size (m_mpdu s new) > 0"
    and data: "\<not> IsCtl (qm_hdr (m_mpdu s cur))" and time: "qv_now v < expiry_of v new s"
  shows "at_rest s'"
proof -
  obtain e q t u where *: "elem_of cur s = Some e" "\<not> IsQueued new s"
    "DoDequeue v [cur] s = Some t" "Insert v (next_in cur (GetQueue q s)) new t = Some (u, True)"
    "on_elem new (\<lambda>e'. e'\<lparr>qe_expiryTime := qe_expiryTime e\<rparr>) u = Some s'"
    using run by (auto simp: Replace_def Let_def elim!: bind_SomeE)
  note cq = elem_of_queued [OF *(1)]
  obtain g t' where t: "DoDequeue v [cur] s = Some t'" "at_rest t'" "gone (set [cur]) s g"
    "purge_rel (qv_now v) (queue_id_of s ` set [cur]) g t'" "m_nPackets s = m_nPackets t' + length [cur]"
    "\<forall>p \<in> set [cur]. \<not> IsCtl (qm_hdr (m_mpdu s p)) \<Longrightarrow> m_maxSize t' = m_maxSize s"
    by (rule DoDequeue_rest [OF s, of "[cur]" v]) (use cq in auto)
  have tt: "t' = t" using t(1) *(3) by simp
  note G = goneD [OF t(3)] and T = purge_relD [OF t(4)]
  have ne: "cur \<noteq> new" using cq *(2) by auto
  have room: "m_nPackets t < m_maxSize t" using t(5,6) data at_restD(3) [OF s] tt by auto
  have "fresh new s" using *(2) new by (simp add: fresh_def)
  then have "fresh new t" using gone_purge_fresh [OF at_restD(6) [OF s] t(3,4)] ne tt by simp
  moreover have "qv_now v < expiry_of v new t" using time T(5,7) G(2,7) unfolding tt expiry_of_def by (auto split: if_splits)
  moreover have "DoEnqueue v (next_in cur (GetQueue q s)) new t = Some (u, True)" using *(4) room by (simp add: Insert_def)
  ultimately have "at_rest u" using DoEnqueue_rest t(2) tt room by blast
  then show ?thesis by (rule on_elem_rest [OF _ *(5)]) simp_all
qed

lemma TtlExceeded_rest:
  assumes s: "at_rest s" and run: "TtlExceeded v (\<lambda>_. Some) item s = Some (s', r)"
  shows "at_rest s'"
  using run s DoRemove_queued [OF s, of item v s'] by (auto simp: TtlExceeded_def split: if_splits elim!: bind_SomeE)

section \<open>Steps\<close>

text \<open>
  An MPDU that is to be queued has not been queued, its lifetime is not over at once, its links are known, and the one
  that it replaces is not a control frame; the header of a queued MPDU may change as long as it
  belongs to the same container queue.
\<close>

inductive mq_step :: "'a mac_queue_scheme \<Rightarrow> 'a mac_queue_scheme \<Rightarrow> bool" where
  mpdu_created: "\<not> IsQueued p s \<Longrightarrow> p \<notin> set (expired_ids s) \<Longrightarrow> qm_queueIt m = None \<Longrightarrow> mq_step s (on_qm p (\<lambda>_. m) s)"
| header_changed:
    "GetQueueId ((m_mpdu s p)\<lparr>qm_hdr := h\<rparr>) = queue_id_of s p \<Longrightarrow> mq_step s (on_qm p (\<lambda>m. m\<lparr>qm_hdr := h\<rparr>) s)"
| enqueue:
    "fresh p s \<Longrightarrow> qv_now v < expiry_of v p s \<Longrightarrow> InitQueueInfo v (m_mpdu s p) s \<noteq> None \<Longrightarrow>
     Enqueue v p s = Some (s', ok) \<Longrightarrow> mq_step s s'"
| replace:
    "p \<notin> set (expired_ids s) \<Longrightarrow> qm_size (m_mpdu s p) > 0 \<Longrightarrow> \<not> IsCtl (qm_hdr (m_mpdu s cur)) \<Longrightarrow>
     qv_now v < expiry_of v p s \<Longrightarrow> Replace v cur p s = Some s' \<Longrightarrow> mq_step s s'"
| dequeued: "distinct ps \<Longrightarrow> DequeueIfQueued v ps s = Some s' \<Longrightarrow> mq_step s s'"
| remove: "Remove v p s = Some (s', r) \<Longrightarrow> mq_step s s'"
| remove_first: "RemoveFirst v s = Some (s', r) \<Longrightarrow> mq_step s s'"
| peek: "Peek v linkId s = Some (s', r) \<Longrightarrow> mq_step s s'"
| peek_queue: "PeekByQueueId now q item s = Some (s', r) \<Longrightarrow> mq_step s s'"
| peek_first: "PeekFirstAvailable v l item s = Some (s', r) \<Longrightarrow> mq_step s s'"
| extract_one: "ExtractExpiredMpdus now q s = Some s' \<Longrightarrow> mq_step s s'"
| extract_all: "ExtractAllExpiredMpdus now s = Some s' \<Longrightarrow> mq_step s s'"
| wipe: "WipeAllExpiredMpdus now s = Some s' \<Longrightarrow> mq_step s s'"
| ttl: "TtlExceeded v (\<lambda>_. Some) p s = Some (s', r) \<Longrightarrow> mq_step s s'"
| set_in_flight: "SetInFlight l p s = Some s' \<Longrightarrow> mq_step s s'"
| reset_in_flight: "ResetInFlight l p s = Some s' \<Longrightarrow> mq_step s s'"
| links: "GetLinkIds v m reasons s = Some (s', ls) \<Longrightarrow> mq_step s s'"
| block: "DoBlockQueues v b reason types rx tx tids ls s = Some s' \<Longrightarrow> mq_step s s'"
| max_delay: "mq_step s (SetMaxDelay d s)"
| max_size: "SetMaxSize n s = Some s' \<Longrightarrow> mq_step s s'"

inductive mq_reachable :: "'a mac_queue_scheme \<Rightarrow> 'a mac_queue_scheme \<Rightarrow> bool" for s where
  mq_start: "mq_reachable s s"
| mq_next: "mq_reachable s t \<Longrightarrow> mq_step t u \<Longrightarrow> mq_reachable s u"

text \<open>A queue that has just been made.\<close>

definition mq_new :: "'a mac_queue_scheme \<Rightarrow> bool" where
  "mq_new s \<longleftrightarrow> m_queues s = [] \<and> m_expiredQueue s = [] \<and> (\<forall>q. m_nBytesPerQueue s q = None) \<and> m_nPackets s = 0
     \<and> m_nBytes s = 0 \<and> m_sortedQueues s = [] \<and> (\<forall>q. m_queueInfo s q = None) \<and> (\<forall>p. qm_queueIt (m_mpdu s p) = None)"

lemma at_rest_new: "mq_new s \<Longrightarrow> at_rest s"
  by (simp add: mq_new_def at_rest_def mq_wf_def base_wf_def container_wf_def listed_wf_def current_def owned_def qids_def
      GetQueue_def expired_ids_def octets_def octets_of_def queued_def prio_of_def head_prio_def)

lemma at_rest_maxDelay:
  assumes "at_rest s"
  shows "at_rest (SetMaxDelay d s)"
proof -
  have "base_wf (s\<lparr>m_maxDelay := d\<rparr>) = base_wf s"
    by (simp add: base_wf_def container_wf_def qids_def GetQueue_def queue_id_of_def octets_of_def octets_def queued_def
        expired_ids_def cong: if_cong)
  moreover have "GetQueue q (s\<lparr>m_maxDelay := d\<rparr>) = GetQueue q s" for q by (simp add: GetQueue_def)
  moreover from this have "head_prio q (s\<lparr>m_maxDelay := d\<rparr>) = head_prio q s" for q by (rule head_prio_same) simp
  ultimately show ?thesis using assms by (simp add: SetMaxDelay_def at_rest_def mq_wf_def listed_wf_def current_def owned_def)
qed

lemma mq_step_rest: "mq_step s s' \<Longrightarrow> at_rest s \<Longrightarrow> at_rest s'"
proof (induction rule: mq_step.induct)
  case (mpdu_created p s m)
  then show ?case by (intro at_rest_on_qm) (auto simp: IsQueued_def)
next
  case (header_changed s p h)
  then show ?case by (intro at_rest_on_qm) simp_all
next
  case (enqueue p s v s' ok)
  then show ?case using Enqueue_rest [OF enqueue.prems enqueue.hyps(1,3,2)] by auto
next
  case (replace p s cur v s')
  then show ?case by (intro Replace_rest [of s v cur p s'])
next
  case (extract_one now q s s')
  then show ?case using ExtractExpiredMpdus_rest [of s now q] by (metis option.inject)
next
  case (extract_all now s s')
  then show ?case using ExtractAllExpiredMpdus_rest [of s now] by (metis option.inject)
next
  case (wipe now s s')
  then show ?case using WipeAllExpiredMpdus_rest [of s now] by (metis option.inject)
next
  case (set_in_flight l p s s')
  then show ?case by (auto simp: SetInFlight_def intro: on_elem_rest)
next
  case (reset_in_flight l p s s')
  then show ?case by (auto simp: ResetInFlight_def intro: on_elem_rest)
next
  case (links v m reasons s s' ls)
  then show ?case by (auto simp: GetLinkIds_def elim!: bind_SomeE intro: InitQueueInfo_rest)
next
  case (max_delay s d)
  then show ?case by (rule at_rest_maxDelay)
next
  case (max_size n s s')
  then show ?case by (auto simp: SetMaxSize_def split: if_splits elim!: bind_SomeE intro: at_rest_maxSize)
qed (blast intro: DequeueIfQueued_rest Remove_rest RemoveFirst_rest Peek_rest PeekByQueueId_rest PeekFirstAvailable_rest
    TtlExceeded_rest DoBlockQueues_rest)+

lemma mq_reachable_rest: "mq_reachable s t \<Longrightarrow> mq_new s \<Longrightarrow> at_rest t"
  by (induction rule: mq_reachable.induct) (auto intro: at_rest_new mq_step_rest)

section \<open>Flushing\<close>

text \<open>Nothing in the queues has expired, unless it is in flight.\<close>

definition unexpired :: "time \<Rightarrow> 'a container_scheme \<Rightarrow> bool" where
  "unexpired now c \<longleftrightarrow> (\<forall>q. \<forall>e \<in> set (GetQueue q c). qe_inflights e \<noteq> {} \<or> now < qe_expiryTime e)"

definition expiry_ordered :: "'a container_scheme \<Rightarrow> bool" where
  "expiry_ordered c \<longleftrightarrow>
     (\<forall>q. sorted_wrt (\<lambda>a b. qe_expiryTime a \<le> qe_expiryTime b) (filter (\<lambda>e. qe_inflights e = {}) (GetQueue q c)))"

lemma alive_unexpired:
  assumes "sorted_wrt (\<lambda>a b. qe_expiryTime a \<le> qe_expiryTime b) (filter (\<lambda>e. qe_inflights e = {}) l)"
  shows "\<forall>e \<in> set (fst (split_expired now l)). qe_inflights e \<noteq> {} \<or> now < qe_expiryTime e"
  using assms
proof (induction l)
  case (Cons a l)
  show ?case
  proof (cases "qe_inflights a = {}")
    case True
    show ?thesis
    proof (cases "qe_expiryTime a \<le> now")
      case False
      have "now < qe_expiryTime e" if "e \<in> set l" "qe_inflights e = {}" for e
      proof -
        have "qe_expiryTime a \<le> qe_expiryTime e" using Cons.prems True that by simp
        then show ?thesis using False by simp
      qed
      then show ?thesis using True False by auto
    qed (use Cons True in \<open>auto split: prod.splits\<close>)
  next
    case False
    have "\<forall>e \<in> set (fst (split_expired now l)). qe_inflights e \<noteq> {} \<or> now < qe_expiryTime e"
      using Cons.IH Cons.prems False by simp
    moreover have "fst (split_expired now (a # l)) = a # fst (split_expired now l)"
      using False by (simp split: prod.splits)
    ultimately show ?thesis using False by simp
  qed
qed simp

lemma unexpired_none:
  assumes "unexpired now c"
  shows "expired_in now q c = []"
proof (rule ccontr)
  assume "expired_in now q c \<noteq> []"
  then obtain e where e: "e \<in> set (snd (split_expired now (GetQueue q c)))"
    by (cases "snd (split_expired now (GetQueue q c))") (auto simp: expired_in_def)
  have "e \<in> set (GetQueue q c)"
    using arg_cong [OF split_expired_perm [of now "GetQueue q c", OF surjective_pairing], of set_mset] e by auto
  then have "qe_inflights e \<noteq> {} \<or> now < qe_expiryTime e" using assms by (simp add: unexpired_def)
  then show False using split_expired_taken [OF e] by simp
qed

lemma unexpired_purge:
  assumes "unexpired now t" "purge_rel now Q t u"
  shows "unexpired now u" "expired_ids u = expired_ids t" "m_nPackets u = m_nPackets t" "GetQueue q u = GetQueue q t"
proof -
  have none: "expired_in now r t = []" for r by (rule unexpired_none [OF assms(1)])
  show "expired_ids u = expired_ids t" using assms(2) none by (auto simp: purge_rel_def)
  show "m_nPackets u = m_nPackets t" by (rule purge_relD(2) [OF assms(2)])
  have "alive_in now r t = GetQueue r t" for r
    using split_expired_none [of now "GetQueue r t"] none [of r] by (simp add: alive_in_def expired_in_def)
  then have GQ: "GetQueue r u = GetQueue r t" for r using purge_relD(1) [OF assms(2), of r] by simp
  show "GetQueue q u = GetQueue q t" by (rule GQ)
  show "unexpired now u" using assms(1) by (simp add: unexpired_def GQ)
qed

text \<open>A queue that holds something gives it up.\<close>

lemma RemoveFirst_progress:
  assumes s: "at_rest s" "unexpired (qv_now v) s" "expired_ids s = []" and n: "m_nPackets s > 0"
  obtains p s' where "RemoveFirst v s = Some (s', Some p)" "at_rest s'" "unexpired (qv_now v) s'" "expired_ids s' = []"
    "m_nPackets s = Suc (m_nPackets s')"
proof -
  obtain t found Q where t: "DoGetNext (qv_now v) None False 0 s = Some (t, found)" "at_rest t" "purge_rel (qv_now v) Q s t"
    "\<forall>q. found = Some q \<longrightarrow> GetQueue q t \<noteq> []"
    "first_of None False s t found"
    using DoGetNext_search [OF s(1), of "qv_now v" None False 0] by (auto simp: passed_def)
  note U = unexpired_purge [OF s(2) t(3)]
  have "found \<noteq> None"
  proof
    assume "found = None"
    then have none: "\<not> servable None False t r" if "head_prio r t = Some p" for r p
      using t(5) that by (auto simp: first_of_def)
    have "GetQueue r t = []" for r
    proof (rule ccontr)
      assume ne: "GetQueue r t \<noteq> []"
      then obtain p where p: "head_prio r t = Some p" using head_prio_None [of r t] by (cases "head_prio r t") auto
      have "servable None False t r" using listed_info [OF t(2) ne] by (auto simp: servable_def eligible_def)
      then show False using none [OF p] by simp
    qed
    then have "l = []" if "(r, l) \<in> set (m_queues t)" for r l
      using that container_wfD(1) [OF at_restD(6) [OF t(2)]] by (metis GetQueue_def map_of_eq_Some_iff option.simps(5))
    then have "queued t = 0" by (auto simp: queued_def)
    moreover have "m_nPackets t = queued t + length (expired_ids t)"
      using at_restD(5) [OF t(2)] by (simp add: base_wf_def expired_ids_def)
    ultimately show False using U(2,3) s(3) n by simp
  qed
  then obtain q where q: "found = Some q" by blast
  then obtain e es where e: "GetQueue q t = e # es" using t(4) by (cases "GetQueue q t") auto
  let ?p = "qe_mpdu e"
  have p: "?p \<in> set (qids q t)" using e by (simp add: qids_def)
  then have it: "qm_queueIt (m_mpdu t ?p) = Some q" using container_wfD(5) [OF at_restD(6) [OF t(2)]] by simp
  have el: "elem_of ?p t = Some e" by (simp add: elem_of_def it e)
  have "e \<in> set (GetQueue q t)" using e by simp
  then have ac: "qe_ac e = m_ac t" using at_restD(4) [OF t(2)] unfolding owned_def by blast
  have iq: "IsQueued ?p t" by (simp add: IsQueued_def it)
  obtain g s' where s': "DoRemove v (In_Queue ?p) t = Some (s', Some ?p)" "at_rest s'" "gone {?p} t g"
    "purge_rel (qv_now v) {queue_id_of t ?p} g s'" "Suc (m_nPackets s') = m_nPackets t"
    "\<not> IsCtl (qm_hdr (m_mpdu t ?p)) \<Longrightarrow> m_maxSize s' = m_maxSize t"
    using DoRemove_rest [OF t(2) iq, of v] by blast
  have run: "RemoveFirst v s = Some (s', Some ?p)"
    using t(1) q e el ac s'(1) by (simp add: RemoveFirst_def GetNext_def Remove_def)
  have "unexpired (qv_now v) g" using U(1) by (auto simp: unexpired_def goneD(1) [OF s'(3)])
  note G = unexpired_purge [OF this s'(4)]
  have "expired_ids s' = []" using G(2) s'(3) U(2) s(3) by (simp add: gone_def)
  then show ?thesis using that [OF run s'(2) G(1)] s'(5) U(3) by simp
qed

lemma flush_loop_ends:
  assumes "at_rest s" "unexpired (qv_now v) s" "expired_ids s = []"
  shows "\<exists>s'. flush_loop v s = Some s' \<and> at_rest s' \<and> m_nPackets s' = 0"
  using assms
proof (induction "m_nPackets s" arbitrary: s)
  case 0
  then show ?case by (simp add: flush_loop.simps)
next
  case (Suc n)
  then obtain p t where t: "RemoveFirst v s = Some (t, Some p)" "at_rest t" "unexpired (qv_now v) t" "expired_ids t = []"
    "m_nPackets s = Suc (m_nPackets t)"
    using RemoveFirst_progress [OF Suc.prems(1,2,3)] by (metis zero_less_Suc)
  have "flush_loop v s = flush_loop v t" using t(1,5) by (simp add: flush_loop.simps [of v s])
  then show ?case using Suc.hyps t by simp
qed

text \<open>A queue that holds something but gives nothing up is never flushed.\<close>

lemma flush_loop_stuck:
  assumes "RemoveFirst v s = Some (s, r)" "m_nPackets s > 0"
  shows "flush_loop v s = None"
proof (rule ccontr)
  assume "flush_loop v s \<noteq> None"
  then obtain s' where run: "flush_loop v s = Some s'" by blast
  have "RemoveFirst v s = Some (s, r) \<longrightarrow> m_nPackets s = 0"
  proof (rule flush_loop.raw_induct [where P = "\<lambda>v s y. RemoveFirst v s = Some (s, r) \<longrightarrow> m_nPackets s = 0", OF _ run])
    fix f v s y
    assume IH: "\<And>v s y. f v s = Some y \<Longrightarrow> RemoveFirst v s = Some (s, r) \<longrightarrow> m_nPackets s = 0"
      and body: "(if m_nPackets s = 0 then Some s else do { (s, _) \<leftarrow> RemoveFirst v s; f v s }) = Some y"
    show "RemoveFirst v s = Some (s, r) \<longrightarrow> m_nPackets s = 0"
      using IH [of v s y] body by (cases "m_nPackets s = 0") auto
  qed
  with assms show False by simp
qed

lemma Flush_empties:
  assumes s: "at_rest s" "expiry_ordered s"
  shows "\<exists>s'. Flush v s = Some s' \<and> at_rest s' \<and> m_nPackets s' = 0"
proof -
  obtain t where t: "WipeAllExpiredMpdus (qv_now v) s = Some t" "at_rest t"
    "\<And>q. GetQueue q t = alive_in (qv_now v) q s" "m_expiredQueue t = []"
    by (rule WipeAllExpiredMpdus_idle [OF s(1), of "qv_now v"]) (rule that; (assumption | simp only:))
  have "\<forall>e \<in> set (GetQueue q t). qe_inflights e \<noteq> {} \<or> qv_now v < qe_expiryTime e" for q
    using alive_unexpired [of "GetQueue q s" "qv_now v"] s(2) t(3) [of q] by (simp add: expiry_ordered_def alive_in_def)
  then have "unexpired (qv_now v) t" unfolding unexpired_def by blast
  then show ?thesis
    using flush_loop_ends [OF t(2), of v] t(1,4) by (simp add: Flush_def expired_ids_def)
qed

end
