(* ===== verification/Mac_Queue_Props.thy ===== *)
theory Mac_Queue_Props
  imports Mac_Queue_Step
begin

text \<open>The properties of the MAC queue and its scheduler, and a queue to try them on.\<close>

section \<open>An example\<close>

text \<open>A station with one link that sends QoS data; its MPDUs live for 100 time units at first.\<close>

definition example_env :: "time \<Rightarrow> mq_env" where
  "example_env now =
     \<lparr>qv_now = now, qv_dropOldest = False, qv_blockAll = [], qv_isMld = (\<lambda>_. False), qv_linkIds = [0],
      qv_isSetup = (\<lambda>_ _. True), qv_isMldPeer = (\<lambda>_. False), qv_canForward = (\<lambda>_. True),
      qv_linkByAddress = (\<lambda>_. Some 0)\<rparr>"

definition example_mpdu :: "nat \<Rightarrow> queued_mpdu" where
  "example_mpdu p =
     \<lparr>qm_hdr = SetAddr2 4 (SetAddr1 2 (SetQosTid 0 (WifiMacHeader WIFI_MAC_QOSDATA))), qm_destination = 2, qm_size = 100,
      qm_timestamp = int p, qm_queueIt = None\<rparr>"

definition example_queue :: "mac_queue" where
  "example_queue =
     \<lparr>m_queues = [], m_expiredQueue = [], m_nBytesPerQueue = (\<lambda>_. None), m_mpdu = example_mpdu, m_nPackets = 0, m_nBytes = 0,
      m_maxSize = 2, m_nTotalReceivedPackets = 0, m_nTotalReceivedBytes = 0, m_nTotalDroppedPackets = 0,
      m_nTotalDroppedBytes = 0, m_nTotalDroppedPacketsBeforeEnqueue = 0,
      m_nTotalDroppedBytesBeforeEnqueue = 0, m_nTotalDroppedPacketsAfterDequeue = 0, m_nTotalDroppedBytesAfterDequeue = 0,
      m_ac = AC_BE, m_maxDelay = 100, m_expired = [], m_sortedQueues = [], m_queueInfo = (\<lambda>_. None)\<rparr>"

definition enqueue_at :: "time \<Rightarrow> nat \<Rightarrow> mac_queue \<Rightarrow> mac_queue" where
  "enqueue_at now p s = fst (the (Enqueue (example_env now) p s))"

definition can_enqueue :: "time \<Rightarrow> nat \<Rightarrow> mac_queue \<Rightarrow> bool" where
  "can_enqueue now p s \<longleftrightarrow>
     fresh p s \<and> now < expiry_of (example_env now) p s \<and> InitQueueInfo (example_env now) (m_mpdu s p) s \<noteq> None
     \<and> Enqueue (example_env now) p s \<noteq> None"

lemma enqueue_at_step: "can_enqueue now p s \<Longrightarrow> mq_step s (enqueue_at now p s)"
  by (rule mq_step.enqueue [of p s "example_env now" _ "snd (the (Enqueue (example_env now) p s))"])
    (auto simp: can_enqueue_def enqueue_at_def example_env_def)

lemma example_new: "mq_new example_queue"
  by (simp add: mq_new_def example_queue_def example_mpdu_def)

text \<open>One MPDU, and then one that lives for 3 time units only.\<close>

definition example_one :: "mac_queue" where
  "example_one = enqueue_at 5 1 example_queue"

definition example_two :: "mac_queue" where
  "example_two = enqueue_at 6 2 (SetMaxDelay 3 example_one)"

lemma example_one_reachable: "mq_reachable example_queue example_one"
proof -
  have "can_enqueue 5 1 example_queue" by code_simp
  then show ?thesis unfolding example_one_def by (blast intro: mq_start mq_next enqueue_at_step)
qed

lemma example_two_reachable: "mq_reachable example_queue example_two"
proof -
  have "can_enqueue 6 2 (SetMaxDelay 3 example_one)" by code_simp
  moreover have "mq_reachable example_queue (SetMaxDelay 3 example_one)"
    by (rule mq_next [OF example_one_reachable max_delay])
  ultimately show ?thesis unfolding example_two_def by (blast intro: mq_next enqueue_at_step)
qed

section \<open>Properties\<close>

text \<open>
  Property C19: In every state that a MAC queue reaches, the counters of the base class count the
  MPDUs and octets that are queued or have expired, the octets of each container queue are those of its
  MPDUs, there is room for what is queued, and the sorted list of the scheduler holds exactly the
  queues that are not empty, each with the priority of its head, in the order of the priorities.
\<close>

theorem mac_queue_consistent:
  assumes "mq_new s" and "mq_reachable s t"
  shows "m_nPackets t = queued t + length (m_expiredQueue t) \<and> m_nBytes t = octets t + octets_of t (expired_ids t)
    \<and> m_nPackets t \<le> m_maxSize t \<and> (\<forall>q n. m_nBytesPerQueue t q = Some n \<longrightarrow> n = octets_of t (qids q t))
    \<and> (\<forall>q. prio_of q (m_sortedQueues t) = head_prio q t) \<and> distinct (map snd (m_sortedQueues t))
    \<and> sorted_wrt (\<lambda>a b. \<not> prio_less (fst b) (fst a)) (m_sortedQueues t)"
proof -
  have t: "at_rest t" by (rule mq_reachable_rest [OF assms(2,1)])
  show ?thesis
    using at_restD(2,3,5) [OF t] container_wfD(8) [OF at_restD(6) [OF t]] listed_wfD(1,2) [OF at_restD(7) [OF t]]
    by (simp add: base_wf_def current_def)
qed

theorem mac_queue_consistent_witness:
  "m_nPackets example_two = queued example_two + length (m_expiredQueue example_two)
   \<and> m_sortedQueues example_two \<noteq> [] \<and> m_nPackets example_two = 2"
proof -
  have "m_sortedQueues example_two \<noteq> []" "m_nPackets example_two = 2" by code_simp+
  with mac_queue_consistent [OF example_new example_two_reachable] show ?thesis by blast
qed

text \<open>
  Property C20: \<^verbatim>\<open>GetNext\<close> of the FCFS scheduler always returns.  A queue that it returns can
  be served, and its head is in flight or has not expired; every other queue that can be served then has
  a priority that is not higher than that queue had, before its expired MPDUs were extracted.  If it
  returns none, no queue that can be served holds an MPDU.
\<close>

theorem get_next_first_come:
  assumes "mq_new s" and "mq_reachable s t"
  shows "\<exists>t' found. GetNext now linkId skip t = Some (t', found)
    \<and> (\<forall>q. found = Some q \<longrightarrow> servable linkId skip t' q
         \<and> (\<exists>e es. GetQueue q t' = e # es \<and> (qe_inflights e \<noteq> {} \<or> now < qe_expiryTime e)))
    \<and> (\<forall>r p. found \<noteq> Some r \<and> head_prio r t' = Some p \<and> servable linkId skip t' r \<longrightarrow>
         (\<exists>q pq. found = Some q \<and> head_prio q t = Some pq \<and> \<not> prio_less p pq))"
proof -
  have t: "at_rest t" by (rule mq_reachable_rest [OF assms(2,1)])
  obtain t' found where *: "DoGetNext now linkId skip 0 t = Some (t', found)"
    "\<forall>q. found = Some q \<longrightarrow> servable linkId skip t' q \<and> GetQueue q t' \<noteq> [] \<and> expired_in now q t' = []"
    "first_of linkId skip t t' found"
    using DoGetNext_search [OF t, of now linkId skip 0] by (auto simp: passed_def)
  have head: "\<exists>e es. GetQueue q t' = e # es \<and> (qe_inflights e \<noteq> {} \<or> now < qe_expiryTime e)" if "found = Some q" for q
  proof -
    have "fst (split_expired now (GetQueue q t')) = GetQueue q t'" "GetQueue q t' \<noteq> []"
      using *(2) that split_expired_none [of now "GetQueue q t'"] by (simp_all add: expired_in_def)
    then show ?thesis using split_expired_head [of now "GetQueue q t'"] by (cases "GetQueue q t'") auto
  qed
  have "\<exists>q pq. found = Some q \<and> head_prio q t = Some pq \<and> \<not> prio_less p pq"
    if "found \<noteq> Some r" "head_prio r t' = Some p" "servable linkId skip t' r" for r p
    using *(3) that unfolding first_of_def by blast
  then show ?thesis using *(1,2) head by (intro exI [of _ t'] exI [of _ found]) (auto simp: GetNext_def)
qed

theorem get_next_first_come_witness:
  "\<exists>t'. GetNext 50 (Some 0) True example_two = Some (t', Some (Queue_Id WIFI_QOSDATA_QUEUE UNICAST 2 (Some 0)))
     \<and> servable (Some 0) True t' (Queue_Id WIFI_QOSDATA_QUEUE UNICAST 2 (Some 0))"
proof -
  obtain t' found where *: "GetNext 50 (Some 0) True example_two = Some (t', found)"
    "\<forall>q. found = Some q \<longrightarrow> servable (Some 0) True t' q
       \<and> (\<exists>e es. GetQueue q t' = e # es \<and> (qe_inflights e \<noteq> {} \<or> 50 < qe_expiryTime e))"
    using get_next_first_come [OF example_new example_two_reachable, of 50 "Some 0" True] by (elim exE conjE)
  have "map_option snd (GetNext 50 (Some 0) True example_two) = Some (Some (Queue_Id WIFI_QOSDATA_QUEUE UNICAST 2 (Some 0)))"
    by code_simp
  then show ?thesis using * by auto
qed

text \<open>
  Property C21: \<^verbatim>\<open>Enqueue\<close> of an MPDU that is not queued yet, whose links are known and whose
  lifetime is not over at once, always returns.  The MPDU is accepted if the queue has room, and is then
  the last one of its container queue.  If it is rejected, it is not a control frame, the queue is
  full, and after all MPDUs with an expired lifetime have been removed there is none that the policy
  allows to be dropped instead.
\<close>

theorem enqueue_accepts_or_rejects:
  assumes "mq_new s" and "mq_reachable s t" and "fresh item t" and "InitQueueInfo v (m_mpdu t item) t \<noteq> None"
    and "qv_now v < expiry_of v item t"
  shows "\<exists>t' ok. Enqueue v item t = Some (t', ok) \<and> (m_nPackets t < m_maxSize t \<longrightarrow> ok)
    \<and> (ok \<longrightarrow> (\<exists>l. qids (queue_id_of t item) t' = l @ [item]))
    \<and> (\<not> ok \<longrightarrow> \<not> IsCtl (qm_hdr (m_mpdu t item)) \<and> \<not> IsQueued item t' \<and> m_nPackets t' = m_maxSize t'
         \<and> m_expiredQueue t' = [] \<and> (\<forall>q. expired_in (qv_now v) q t' = []) \<and> \<not> may_drop v item t')"
proof -
  have t: "at_rest t" by (rule mq_reachable_rest [OF assms(2,1)])
  show ?thesis
    by (rule Enqueue_rest [OF t assms(3-5)]) (auto simp: fresh_def idle_def)
qed

theorem enqueue_accepts_or_rejects_witness:
  "\<exists>t' ok. Enqueue (example_env 7) 3 example_two = Some (t', ok)
    \<and> (\<not> ok \<longrightarrow> m_nPackets t' = m_maxSize t' \<and> m_expiredQueue t' = [])"
proof -
  have "fresh 3 example_two" "InitQueueInfo (example_env 7) (m_mpdu example_two 3) example_two \<noteq> None"
    "qv_now (example_env 7) < expiry_of (example_env 7) 3 example_two" by code_simp+
  from enqueue_accepts_or_rejects [OF example_new example_two_reachable this] show ?thesis by blast
qed

text \<open>
  Property C36: If the lifetimes of the MPDUs of each container queue that are not in flight end in
  the order of the queue, \<^verbatim>\<open>Flush\<close> returns, and the queue is empty.
\<close>

theorem flush_empties_queue:
  assumes "mq_new s" and "mq_reachable s t" and "expiry_ordered t"
  shows "\<exists>t'. Flush v t = Some t' \<and> m_nPackets t' = 0 \<and> queued t' = 0 \<and> m_expiredQueue t' = []"
proof -
  obtain t' where t': "Flush v t = Some t'" "at_rest t'" "m_nPackets t' = 0"
    using Flush_empties [OF mq_reachable_rest [OF assms(2,1)] assms(3)] by blast
  then show ?thesis using at_restD(5) [OF t'(2)] by (simp add: base_wf_def)
qed

theorem flush_empties_queue_witness:
  "\<exists>t'. Flush (example_env 50) example_one = Some t' \<and> m_nPackets t' = 0 \<and> queued t' = 0 \<and> m_expiredQueue t' = []"
proof -
  have "m_queues example_one = [(Queue_Id WIFI_QOSDATA_QUEUE UNICAST 2 (Some 0),
      [\<lparr>qe_mpdu = 1, qe_expiryTime = 105, qe_ac = AC_BE, qe_expired = False, qe_inflights = {}\<rparr>])]" by code_simp
  then have "expiry_ordered example_one" by (simp add: expiry_ordered_def GetQueue_def)
  then show ?thesis by (rule flush_empties_queue [OF example_new example_one_reachable])
qed

lemma RemoveFirst_unlisted: "m_sortedQueues s = [] \<Longrightarrow> RemoveFirst v s = Some (s, None)"
  by (simp add: RemoveFirst_def GetNext_def DoGetNext.simps)

text \<open>
  Property C37: There are reachable states in which \<^verbatim>\<open>Flush\<close> never returns: an MPDU whose
  lifetime has expired and that stands behind one that lives longer survives the first wipe, and is
  extracted, but not removed, when the other has left.
\<close>

theorem flush_may_not_return:
  "\<exists>(s :: mac_queue) t v. mq_new s \<and> mq_reachable s t \<and> Flush v t = None"
proof -
  let ?v = "example_env 20"
  define u where "u = the (WipeAllExpiredMpdus 20 example_two)"
  define w where "w = fst (the (RemoveFirst ?v u))"
  have "WipeAllExpiredMpdus 20 example_two \<noteq> None" by code_simp
  then have u: "WipeAllExpiredMpdus 20 example_two = Some u" by (simp add: u_def)
  have "RemoveFirst ?v u \<noteq> None \<and> m_nPackets u > 0" unfolding u_def by code_simp
  then obtain r where r: "RemoveFirst ?v u = Some (w, r)" "m_nPackets u > 0" by (auto simp: w_def)
  have "m_sortedQueues w = [] \<and> m_nPackets w > 0" unfolding w_def u_def by code_simp
  then have "flush_loop ?v w = None" using flush_loop_stuck [OF RemoveFirst_unlisted] by blast
  then have "flush_loop ?v u = None" using r by (simp add: flush_loop.simps [of ?v u])
  then have "Flush ?v example_two = None" using u by (simp add: Flush_def example_env_def)
  then show ?thesis using example_new example_two_reachable by blast
qed

end
