(* ===== verification/Wifi_Mpdu.thy ===== *)
theory Wifi_Mpdu
  imports Header_Codec Tx_Parameters
begin

text \<open>
  \<^verbatim>\<open>src/wifi/model/wifi-mpdu.cc\<close> with the A-MSDU and A-MPDU subframe headers
  (\<^verbatim>\<open>amsdu-subframe-header.cc\<close>, \<^verbatim>\<open>ampdu-subframe-header.cc\<close>) and the static parts of the
  aggregators (\<^verbatim>\<open>msdu-aggregator.cc\<close>, \<^verbatim>\<open>mpdu-aggregator.cc\<close>): an A-MSDU is built
  from MSDUs and taken apart again.

  A packet is the list of its bytes.  MPDUs are objects that are shared: an alias has a MAC header
  of its own and points to the original for everything else.  The heap is the list of the objects
  created so far, a pointer the position in it.  Sizes, 32 bits wide in the code, are natural numbers:
  they are compared with limits far below \<open>2 ^ 32\<close> before anything is aggregated.
\<close>

section \<open>Network byte order\<close>

definition WriteHtonU16 :: "u16 \<Rightarrow> bytes" where
  "WriteHtonU16 data = [ucast (drop_bit 8 data AND 0xff), ucast (data AND 0xff)]"

definition ReadNtohU16 :: "bytes \<Rightarrow> (u16 \<times> bytes) option" where
  "ReadNtohU16 bs =
     (case bs of byte0 # byte1 # rest \<Rightarrow> Some (push_bit 8 (ucast byte0) OR ucast byte1, rest)
      | _ \<Rightarrow> None)"

interpretation ntoh: wire_field WriteHtonU16 ReadNtohU16 2
  by unfold_locales (simp_all add: WriteHtonU16_def ReadNtohU16_def byte_AND_0xff u16_bytes)

declare ntoh.dec_enc [simp] ntoh.length_enc [simp]

section \<open>Subframe headers\<close>

record amsdu_hdr =
  m_da :: mac48
  m_sa :: mac48
  am_length :: u16

definition AmsduSubframeHeader :: amsdu_hdr where
  "AmsduSubframeHeader = \<lparr>m_da = 0, m_sa = 0, am_length = 0\<rparr>"

definition amsdu_Serialize :: "amsdu_hdr \<Rightarrow> bytes" where
  "amsdu_Serialize h = WriteMac48 (m_da h) @ WriteMac48 (m_sa h) @ WriteHtonU16 (am_length h)"

definition amsdu_Deserialize :: "bytes \<Rightarrow> (amsdu_hdr \<times> bytes) option" where
  "amsdu_Deserialize bs =
     do { (da, bs) \<leftarrow> ReadMac48 bs;
          (sa, bs) \<leftarrow> ReadMac48 bs;
          (len, bs) \<leftarrow> ReadNtohU16 bs;
          Some (\<lparr>m_da = da, m_sa = sa, am_length = len\<rparr>, bs) }"

interpretation amsdu_field: wire_field amsdu_Serialize amsdu_Deserialize 14
  by unfold_locales (simp_all add: amsdu_Serialize_def amsdu_Deserialize_def)

declare amsdu_field.dec_enc [simp] amsdu_field.length_enc [simp]

text \<open>
  The delimiter of an A-MPDU subframe.  The length is written with all its bits next to the EOF bit,
  and read with 14 bits.
\<close>

record ampdu_hdr =
  ap_length :: u16
  m_eof :: bool
  m_signature :: u8

definition AmpduSubframeHeader :: ampdu_hdr where
  "AmpduSubframeHeader = \<lparr>ap_length = 0, m_eof = False, m_signature = 0x4E\<rparr>"

definition ampdu_Serialize :: "ampdu_hdr \<Rightarrow> bytes" where
  "ampdu_Serialize h =
     WriteU16 (push_bit 15 (of_bool (m_eof h)) OR ap_length h) @ WriteU8 1 @ WriteU8 (m_signature h)"

definition ampdu_Deserialize :: "bytes \<Rightarrow> (ampdu_hdr \<times> bytes) option" where
  "ampdu_Deserialize bs =
     do { (field, bs) \<leftarrow> ReadU16 bs;
          (crc, bs) \<leftarrow> ReadU8 bs;
          (sig, bs) \<leftarrow> ReadU8 bs;
          Some (\<lparr>ap_length = field AND 0x3fff, m_eof = (drop_bit 15 (field AND 0x8000) \<noteq> 0), m_signature = sig\<rparr>, bs) }"

definition IsSignatureValid :: "ampdu_hdr \<Rightarrow> bool" where
  "IsSignatureValid h \<longleftrightarrow> m_signature h = 0x4E"

lemma length_ampdu_Serialize [simp]: "length (ampdu_Serialize h) = 4"
  by (simp add: ampdu_Serialize_def)

lemma ampdu_hdr_roundtrip:
  assumes "fits 14 (ap_length h)"
  shows "ampdu_Deserialize (ampdu_Serialize h @ rest) = Some (h, rest)"
proof -
  define w where "w = push_bit 15 (of_bool (m_eof h)) OR ap_length h"
  have m: "(0x3fff :: u16) = mask 14" by (simp add: mask_eq_exp_minus_1)
  have b: "bit w n \<longleftrightarrow> n < 16 \<and> (n = 15 \<and> m_eof h \<or> bit (ap_length h) n)" for n
    by (auto simp: w_def bit_simps dest: bit_imp_le_length)
  have len: "w AND 0x3fff = ap_length h"
    by (rule bit_word_eqI) (auto simp: m bit_and_iff bit_mask_iff b dest: fits_bit [OF assms])
  have "drop_bit 15 (w AND 0x8000) \<noteq> 0 \<longleftrightarrow> bit w 15"
    by (simp add: drop_bit_and and_one_eq bit_iff_odd_drop_bit odd_iff_mod_2_eq_one)
  moreover have "bit w 15 \<longleftrightarrow> m_eof h" using fits_bit [OF assms, of 15] by (auto simp: b)
  ultimately show ?thesis
    using len by (simp add: ampdu_Serialize_def ampdu_Deserialize_def flip: w_def)
qed

section \<open>A-MSDU\<close>

text \<open>\<open>CalculatePadding\<close> of both aggregators is the one of \<open>Tx_Parameters\<close>.\<close>

type_synonym msdu = "bytes \<times> amsdu_hdr"

text \<open>
  \<^verbatim>\<open>MsduAggregator::Deaggregate\<close>: \<open>maxSize\<close> is the size at the beginning, \<open>deserialized\<close>
  counts what was taken off.  \<^verbatim>\<open>RemoveHeader\<close> reads past the end of a short packet, and
  \<^verbatim>\<open>CreateFragment\<close> asserts that the fragment is in the packet; \<^verbatim>\<open>RemoveAtStart\<close> removes at
  most what there is.
\<close>

function deaggregate :: "nat \<Rightarrow> nat \<Rightarrow> bytes \<Rightarrow> msdu list option" where
  "deaggregate maxSize deserialized packet =
     (if deserialized < maxSize
      then case amsdu_Deserialize packet of
             None \<Rightarrow> None
           | Some (hdr, packet) \<Rightarrow>
               (let extractedLength = unat (am_length hdr)
                in if extractedLength \<le> length packet
                   then let extractedMsdu = take extractedLength packet;
                            packet = drop extractedLength packet;
                            deserialized = deserialized + 14 + extractedLength;
                            padding = (4 - (extractedLength + 14) mod 4) mod 4;
                            pad = (if padding > 0 \<and> deserialized < maxSize then padding else 0)
                        in map_option (Cons (extractedMsdu, hdr))
                             (deaggregate maxSize (deserialized + pad) (drop pad packet))
                   else None)
      else Some [])"
  by pat_completeness auto
termination deaggregate
  by (relation "measure (\<lambda>(m, d, p). m - d)") (auto simp: Let_def)

declare deaggregate.simps [simp del]

definition Deaggregate :: "bytes \<Rightarrow> msdu list option" where
  "Deaggregate aggregatedPacket = deaggregate (length aggregatedPacket) 0 aggregatedPacket"

text \<open>The table of addresses in \<^verbatim>\<open>WifiMpdu::DoAggregate\<close>.\<close>

definition subframe_DA :: "mac_hdr \<Rightarrow> mac48" where
  "subframe_DA h = (if IsToDs h then m_addr3 h else m_addr1 h)"

definition subframe_SA :: "mac_hdr \<Rightarrow> mac48" where
  "subframe_SA h =
     (if \<not> IsFromDs h then m_addr2 h else if \<not> IsToDs h then m_addr3 h else m_addr4 h)"

definition subframe_header :: "mac_hdr \<Rightarrow> bytes \<Rightarrow> amsdu_hdr" where
  "subframe_header h packet = \<lparr>m_da = subframe_DA h, m_sa = subframe_SA h, am_length = of_nat (length packet)\<rparr>"

definition append_subframe :: "bytes \<Rightarrow> amsdu_hdr \<Rightarrow> bytes \<Rightarrow> bytes" where
  "append_subframe packet hdr msdu =
     packet @ (if length packet > 0 then replicate (CalculatePadding (length packet)) 0 else [])
       @ amsdu_Serialize hdr @ msdu"

section \<open>MPDU objects\<close>

record original_info =
  oi_packet :: bytes
  oi_timestamp :: time
  oi_retryCount :: u32
  oi_queued :: bool
  oi_seqNoAssigned :: bool
  oi_msduList :: "msdu list"

datatype instance_info = ORIGINAL original_info | ALIAS nat

record wifi_mpdu =
  wm_header :: mac_hdr
  m_instanceInfo :: instance_info

type_synonym mpdu_heap = "wifi_mpdu list"

definition deref :: "nat \<Rightarrow> mpdu_heap \<Rightarrow> wifi_mpdu option" where
  "deref i H = (if i < length H then Some (H ! i) else None)"

text \<open>The constructor with a packet, a header and a timestamp; and \<^verbatim>\<open>CreateAlias\<close>.\<close>

definition WifiMpdu :: "bytes \<Rightarrow> mac_hdr \<Rightarrow> time \<Rightarrow> mpdu_heap \<Rightarrow> (nat \<times> mpdu_heap) option" where
  "WifiMpdu p header stamp H =
     do { msdus \<leftarrow> (if IsQosData header \<and> IsQosAmsdu header then Deaggregate p else Some []);
          Some (length H,
                H @ [\<lparr>wm_header = header,
                      m_instanceInfo = ORIGINAL
                        \<lparr>oi_packet = p, oi_timestamp = stamp, oi_retryCount = 0, oi_queued = False,
                         oi_seqNoAssigned = False, oi_msduList = msdus\<rparr>\<rparr>]) }"

definition IsOriginal :: "nat \<Rightarrow> mpdu_heap \<Rightarrow> bool option" where
  "IsOriginal i H =
     do { m \<leftarrow> deref i H;
          Some (case m_instanceInfo m of ORIGINAL _ \<Rightarrow> True | ALIAS _ \<Rightarrow> False) }"

definition GetOriginal :: "nat \<Rightarrow> mpdu_heap \<Rightarrow> nat option" where
  "GetOriginal i H =
     do { m \<leftarrow> deref i H; Some (case m_instanceInfo m of ORIGINAL _ \<Rightarrow> i | ALIAS j \<Rightarrow> j) }"

definition CreateAlias :: "nat \<Rightarrow> mpdu_heap \<Rightarrow> (nat \<times> mpdu_heap) option" where
  "CreateAlias i H =
     do { m \<leftarrow> deref i H;
          original \<leftarrow> IsOriginal i H;
          ns_assert original;
          Some (length H, H @ [\<lparr>wm_header = wm_header m, m_instanceInfo = ALIAS i\<rparr>]) }"

text \<open>The variant that is read must hold the information of an original.\<close>

definition original_info_of :: "nat \<Rightarrow> mpdu_heap \<Rightarrow> original_info option" where
  "original_info_of i H =
     do { m \<leftarrow> deref i H;
          (case m_instanceInfo m of ORIGINAL oi \<Rightarrow> Some oi | ALIAS _ \<Rightarrow> None) }"

definition GetOriginalInfo :: "nat \<Rightarrow> mpdu_heap \<Rightarrow> original_info option" where
  "GetOriginalInfo i H = do { j \<leftarrow> GetOriginal i H; original_info_of j H }"

definition set_original_info :: "nat \<Rightarrow> (original_info \<Rightarrow> original_info) \<Rightarrow> mpdu_heap \<Rightarrow> mpdu_heap option" where
  "set_original_info i f H =
     do { j \<leftarrow> GetOriginal i H;
          oi \<leftarrow> original_info_of j H;
          Some (H[j := (H ! j)\<lparr>m_instanceInfo := ORIGINAL (f oi)\<rparr>]) }"

definition set_header :: "nat \<Rightarrow> (mac_hdr \<Rightarrow> mac_hdr) \<Rightarrow> mpdu_heap \<Rightarrow> mpdu_heap option" where
  "set_header i f H =
     do { m \<leftarrow> deref i H; Some (H[i := m\<lparr>wm_header := f (wm_header m)\<rparr>]) }"

definition GetHeader :: "nat \<Rightarrow> mpdu_heap \<Rightarrow> mac_hdr option" where
  "GetHeader i H = map_option wm_header (deref i H)"

definition GetPacket :: "nat \<Rightarrow> mpdu_heap \<Rightarrow> bytes option" where
  "GetPacket i H = map_option oi_packet (GetOriginalInfo i H)"

definition GetTimestamp :: "nat \<Rightarrow> mpdu_heap \<Rightarrow> time option" where
  "GetTimestamp i H = map_option oi_timestamp (GetOriginalInfo i H)"

definition GetRetryCount :: "nat \<Rightarrow> mpdu_heap \<Rightarrow> u32 option" where
  "GetRetryCount i H = map_option oi_retryCount (GetOriginalInfo i H)"

text \<open>The MSDUs between \<^verbatim>\<open>begin\<close> and \<^verbatim>\<open>end\<close>.\<close>

definition wm_msdus :: "nat \<Rightarrow> mpdu_heap \<Rightarrow> msdu list option" where
  "wm_msdus i H = map_option oi_msduList (GetOriginalInfo i H)"

definition IncrementRetryCount :: "nat \<Rightarrow> mpdu_heap \<Rightarrow> mpdu_heap option" where
  "IncrementRetryCount i H =
     do { h \<leftarrow> GetHeader i H;
          bar \<leftarrow> IsBlockAckReq h;
          trigger \<leftarrow> (if bar then Some True else IsTrigger h);
          (if trigger then Some H
           else do { ns_assert (IsData h \<or> IsMgt h);
                     set_original_info i (\<lambda>oi. oi\<lparr>oi_retryCount := oi_retryCount oi + 1\<rparr>) H }) }"

definition GetPacketSize :: "nat \<Rightarrow> mpdu_heap \<Rightarrow> nat option" where
  "GetPacketSize i H = map_option length (GetPacket i H)"

definition wm_GetSize :: "nat \<Rightarrow> mpdu_heap \<Rightarrow> nat option" where
  "wm_GetSize i H =
     do { size \<leftarrow> GetPacketSize i H; h \<leftarrow> GetHeader i H; Some (size + hdr_GetSize h + 4) }"

definition wm_IsFragment :: "nat \<Rightarrow> mpdu_heap \<Rightarrow> bool option" where
  "wm_IsFragment i H = map_option (\<lambda>h. IsMoreFragments h \<or> m_seqFrag h > 0) (GetHeader i H)"

text \<open>\<^verbatim>\<open>AddHeader\<close>, \<^verbatim>\<open>AddWifiMacTrailer\<close>: the trailer is four zero octets.\<close>

definition AddWifiMacTrailer :: "bytes \<Rightarrow> bytes" where
  "AddWifiMacTrailer packet = packet @ WriteU32 0"

definition GetProtocolDataUnit :: "nat \<Rightarrow> mpdu_heap \<Rightarrow> bytes option" where
  "GetProtocolDataUnit i H =
     do { p \<leftarrow> GetPacket i H;
          h \<leftarrow> GetHeader i H;
          hb \<leftarrow> hdr_Serialize h;
          Some (AddWifiMacTrailer (hb @ p)) }"

definition SetQueueIt :: "nat \<Rightarrow> bool \<Rightarrow> mpdu_heap \<Rightarrow> mpdu_heap option" where
  "SetQueueIt i queueIt H =
     do { original \<leftarrow> IsOriginal i H;
          ns_assert original;
          set_original_info i (\<lambda>oi. oi\<lparr>oi_queued := queueIt\<rparr>) H }"

definition wm_IsQueued :: "nat \<Rightarrow> mpdu_heap \<Rightarrow> bool option" where
  "wm_IsQueued i H = map_option oi_queued (GetOriginalInfo i H)"

definition AssignSeqNo :: "nat \<Rightarrow> u16 \<Rightarrow> mpdu_heap \<Rightarrow> mpdu_heap option" where
  "AssignSeqNo i seqNo H =
     do { H \<leftarrow> set_header i (SetSequenceNumber seqNo) H;
          j \<leftarrow> GetOriginal i H;
          H \<leftarrow> set_header j (SetSequenceNumber seqNo) H;
          set_original_info i (\<lambda>oi. oi\<lparr>oi_seqNoAssigned := True\<rparr>) H }"

definition HasSeqNoAssigned :: "nat \<Rightarrow> mpdu_heap \<Rightarrow> bool option" where
  "HasSeqNoAssigned i H = map_option oi_seqNoAssigned (GetOriginalInfo i H)"

definition UnassignSeqNo :: "nat \<Rightarrow> mpdu_heap \<Rightarrow> mpdu_heap option" where
  "UnassignSeqNo i H = set_original_info i (\<lambda>oi. oi\<lparr>oi_seqNoAssigned := False\<rparr>) H"

section \<open>Building an A-MSDU\<close>

text \<open>The header and the packet of the MSDU are read when it is aggregated.\<close>

definition DoAggregate :: "nat \<Rightarrow> mac_hdr \<Rightarrow> bytes \<Rightarrow> mpdu_heap \<Rightarrow> mpdu_heap option" where
  "DoAggregate i header packet H =
     (let hdr = subframe_header header packet
      in do { original \<leftarrow> IsOriginal i H;
              ns_assert original;
              set_original_info i (\<lambda>oi. oi\<lparr>oi_msduList := oi_msduList oi @ [(packet, hdr)],
                                          oi_packet := append_subframe (oi_packet oi) hdr packet\<rparr>) H })"

definition set_bssid_addr3 :: "mac_hdr \<Rightarrow> mac_hdr" where
  "set_bssid_addr3 h =
     (if IsToDs h \<and> \<not> IsFromDs h then SetAddr3 (m_addr1 h) h
      else if \<not> IsToDs h \<and> IsFromDs h then SetAddr3 (m_addr2 h) h
      else h)"

text \<open>
  \<^verbatim>\<open>Aggregate\<close>.  The first MSDU is a copy of the object itself, which is destroyed at the end of
  the branch: the destructor asserts that it is not queued.
\<close>

definition start_amsdu :: "nat \<Rightarrow> mpdu_heap \<Rightarrow> mpdu_heap option" where
  "start_amsdu i H =
     do { h \<leftarrow> GetHeader i H;
          oi \<leftarrow> original_info_of i H;
          H \<leftarrow> set_original_info i (\<lambda>oi. oi\<lparr>oi_packet := [], oi_retryCount := 0\<rparr>) H;
          H \<leftarrow> DoAggregate i h (oi_packet oi) H;
          H \<leftarrow> set_header i (set_bssid_addr3 \<circ> SetQosAmsdu) H;
          ns_assert (\<not> oi_queued oi);
          Some H }"

definition Aggregate :: "nat \<Rightarrow> nat option \<Rightarrow> mpdu_heap \<Rightarrow> mpdu_heap option" where
  "Aggregate i msdu H =
     do { (case msdu of
             None \<Rightarrow> Some ()
           | Some j \<Rightarrow> do { h \<leftarrow> GetHeader j H; ns_assert (IsQosData h \<and> \<not> IsQosAmsdu h) });
          original \<leftarrow> IsOriginal i H;
          ns_assert original;
          oi \<leftarrow> original_info_of i H;
          H \<leftarrow> (if oi_msduList oi = [] then start_amsdu i H else Some H);
          (case msdu of
             None \<Rightarrow> Some H
           | Some j \<Rightarrow> do { h \<leftarrow> GetHeader j H; p \<leftarrow> GetPacket j H; DoAggregate i h p H }) }"

end
