(* ===== verification/Wifi_Psdu.thy ===== *)
theory Wifi_Psdu
  imports Wifi_Mpdu Qos_Utils
begin

text \<open>
  \<^verbatim>\<open>src/wifi/model/wifi-psdu.cc\<close>, what the PHY is given to transmit: one MPDU, or an A-MPDU
  whose octets \<^verbatim>\<open>MpduAggregator::Aggregate\<close> (\<^verbatim>\<open>mpdu-aggregator.cc\<close>) puts together.
  The size is computed when the PSDU is created, the octets when they are asked for.

  A PSDU is a value that holds pointers to MPDUs of a heap of \<open>Wifi_Mpdu\<close>.
\<close>

section \<open>Aggregation of MPDUs\<close>

definition GetAmpduSubframeHeader :: "nat \<Rightarrow> bool \<Rightarrow> ampdu_hdr" where
  "GetAmpduSubframeHeader mpduSize isSingle =
     (let hdr = AmpduSubframeHeader\<lparr>ap_length := of_nat mpduSize\<rparr>
      in if isSingle then hdr\<lparr>m_eof := True\<rparr> else hdr)"

definition ampdu_Aggregate :: "nat \<Rightarrow> bytes \<Rightarrow> bool \<Rightarrow> mpdu_heap \<Rightarrow> bytes option" where
  "ampdu_Aggregate i ampdu isSingle H =
     do { ns_assert (\<not> isSingle \<or> length ampdu = 0);
          let ampdu = (if length ampdu > 0 then ampdu @ replicate (CalculatePadding (length ampdu)) 0 else ampdu);
          p \<leftarrow> GetPacket i H;
          h \<leftarrow> GetHeader i H;
          hb \<leftarrow> hdr_Serialize h;
          let tmp = AddWifiMacTrailer (hb @ p);
          Some (ampdu @ ampdu_Serialize (GetAmpduSubframeHeader (length tmp) isSingle) @ tmp) }"

section \<open>PSDUs\<close>

record psdu =
  m_isSingle :: bool
  m_mpduList :: "nat list"
  m_size :: nat

text \<open>The constructors: a packet with a header, an MPDU, a copy of an MPDU, and a list of MPDUs.\<close>

definition WifiPsdu_packet :: "bytes \<Rightarrow> mac_hdr \<Rightarrow> time \<Rightarrow> mpdu_heap \<Rightarrow> (psdu \<times> mpdu_heap) option" where
  "WifiPsdu_packet p header now H =
     do { (i, H) \<leftarrow> WifiMpdu p header now H;
          Some (\<lparr>m_isSingle = False, m_mpduList = [i], m_size = hdr_GetSize header + length p + 4\<rparr>, H) }"

definition WifiPsdu_mpdu :: "nat \<Rightarrow> bool \<Rightarrow> mpdu_heap \<Rightarrow> psdu option" where
  "WifiPsdu_mpdu mpdu isSingle H =
     do { size \<leftarrow> wm_GetSize mpdu H;
          Some \<lparr>m_isSingle = isSingle, m_mpduList = [mpdu], m_size = (if isSingle then size + 4 else size)\<rparr> }"

definition WifiPsdu_copy :: "nat \<Rightarrow> bool \<Rightarrow> mpdu_heap \<Rightarrow> (psdu \<times> mpdu_heap) option" where
  "WifiPsdu_copy mpdu isSingle H =
     do { m \<leftarrow> deref mpdu H;
          p \<leftarrow> WifiPsdu_mpdu (length H) isSingle (H @ [m]);
          Some (p, H @ [m]) }"

text \<open>\<^verbatim>\<open>VhtFrameExchangeManager::GetWifiPsdu\<close>: since 802.11ac a single MPDU is sent as an S-MPDU.\<close>

definition GetWifiPsdu :: "nat \<Rightarrow> tx_vector \<Rightarrow> mpdu_heap \<Rightarrow> psdu option" where
  "GetWifiPsdu mpdu txVector = WifiPsdu_mpdu mpdu (from_VHT (tv_class txVector))"

fun psdu_size_loop :: "nat list \<Rightarrow> nat \<Rightarrow> mpdu_heap \<Rightarrow> nat option" where
  "psdu_size_loop [] sz H = Some sz"
| "psdu_size_loop (mpdu # ms) sz H =
     do { n \<leftarrow> wm_GetSize mpdu H; psdu_size_loop ms (mpdu_GetSizeIfAggregated n sz) H }"

definition WifiPsdu_list :: "nat list \<Rightarrow> mpdu_heap \<Rightarrow> psdu option" where
  "WifiPsdu_list mpduList H =
     do { ns_assert (mpduList \<noteq> []);
          size \<leftarrow> psdu_size_loop mpduList 0 H;
          Some \<lparr>m_isSingle = (length mpduList = 1), m_mpduList = mpduList, m_size = size\<rparr> }"

definition IsSingle :: "psdu \<Rightarrow> bool" where "IsSingle P \<longleftrightarrow> m_isSingle P"

definition IsAggregate :: "psdu \<Rightarrow> bool" where
  "IsAggregate P \<longleftrightarrow> length (m_mpduList P) > 1 \<or> m_isSingle P"

definition psdu_GetSize :: "psdu \<Rightarrow> nat" where "psdu_GetSize P = m_size P"

definition GetNMpdus :: "psdu \<Rightarrow> nat" where "GetNMpdus P = length (m_mpduList P)"

text \<open>\<^verbatim>\<open>vector::at\<close> throws out of range.\<close>

definition mpdu_at :: "nat \<Rightarrow> psdu \<Rightarrow> nat option" where
  "mpdu_at k P = (if k < length (m_mpduList P) then Some (m_mpduList P ! k) else None)"

definition psdu_GetHeader :: "nat \<Rightarrow> psdu \<Rightarrow> mpdu_heap \<Rightarrow> mac_hdr option" where
  "psdu_GetHeader k P H = do { i \<leftarrow> mpdu_at k P; GetHeader i H }"

definition GetPayload :: "nat \<Rightarrow> psdu \<Rightarrow> mpdu_heap \<Rightarrow> bytes option" where
  "GetPayload k P H = do { i \<leftarrow> mpdu_at k P; GetPacket i H }"

fun ampdu_loop :: "nat list \<Rightarrow> bytes \<Rightarrow> mpdu_heap \<Rightarrow> bytes option" where
  "ampdu_loop [] packet H = Some packet"
| "ampdu_loop (mpdu # ms) packet H =
     do { packet \<leftarrow> ampdu_Aggregate mpdu packet False H; ampdu_loop ms packet H }"

definition psdu_GetPacket :: "psdu \<Rightarrow> mpdu_heap \<Rightarrow> bytes option" where
  "psdu_GetPacket P H =
     (if length (m_mpduList P) = 1 \<and> \<not> m_isSingle P
      then do { i \<leftarrow> mpdu_at 0 P;
                packet \<leftarrow> GetPacket i H;
                h \<leftarrow> GetHeader i H;
                hb \<leftarrow> hdr_Serialize h;
                Some (AddWifiMacTrailer (hb @ packet)) }
      else if m_isSingle P
      then do { i \<leftarrow> mpdu_at 0 P; ampdu_Aggregate i [] True H }
      else ampdu_loop (m_mpduList P) [] H)"

definition GetAmpduSubframeSize :: "nat \<Rightarrow> psdu \<Rightarrow> mpdu_heap \<Rightarrow> nat option" where
  "GetAmpduSubframeSize k P H =
     do { i \<leftarrow> mpdu_at k P;
          size \<leftarrow> wm_GetSize i H;
          let subframeSize = 4 + size;
          Some (if k \<noteq> length (m_mpduList P) - 1 then subframeSize + CalculatePadding subframeSize else subframeSize) }"

text \<open>The padding is the difference of two sizes that are unsigned.\<close>

definition GetAmpduSubframe :: "nat \<Rightarrow> psdu \<Rightarrow> mpdu_heap \<Rightarrow> bytes option" where
  "GetAmpduSubframe k P H =
     do { i \<leftarrow> mpdu_at k P;
          pdu \<leftarrow> GetProtocolDataUnit i H;
          let subframe = ampdu_Serialize (GetAmpduSubframeHeader (length pdu) (m_isSingle P)) @ pdu;
          size \<leftarrow> GetAmpduSubframeSize k P H;
          ns_assert (size \<ge> length subframe);
          Some (subframe @ replicate (size - length subframe) 0) }"

section \<open>Header fields of all MPDUs\<close>

text \<open>A field that every MPDU must have in common.\<close>

fun same_field :: "(mac_hdr \<Rightarrow> 'a) \<Rightarrow> 'a \<Rightarrow> nat list \<Rightarrow> mpdu_heap \<Rightarrow> bool option" where
  "same_field f x [] H = Some True"
| "same_field f x (i # is) H =
     do { h \<leftarrow> GetHeader i H; (if f h \<noteq> x then None else same_field f x is H) }"

definition common_field :: "(mac_hdr \<Rightarrow> 'a) \<Rightarrow> psdu \<Rightarrow> mpdu_heap \<Rightarrow> 'a option" where
  "common_field f P H =
     do { h \<leftarrow> psdu_GetHeader 0 P H; _ \<leftarrow> same_field f (f h) (tl (m_mpduList P)) H; Some (f h) }"

definition psdu_GetAddr1 :: "psdu \<Rightarrow> mpdu_heap \<Rightarrow> mac48 option" where "psdu_GetAddr1 = common_field m_addr1"
definition psdu_GetAddr2 :: "psdu \<Rightarrow> mpdu_heap \<Rightarrow> mac48 option" where "psdu_GetAddr2 = common_field m_addr2"
definition psdu_GetDuration :: "psdu \<Rightarrow> mpdu_heap \<Rightarrow> time option" where "psdu_GetDuration = common_field GetDuration"

definition psdu_HasNav :: "psdu \<Rightarrow> mpdu_heap \<Rightarrow> bool option" where
  "psdu_HasNav P H = map_option HasNav (psdu_GetHeader 0 P H)"

text \<open>Loops that change the header, or the shared information, of each MPDU.\<close>

fun each_mpdu :: "(nat \<Rightarrow> mpdu_heap \<Rightarrow> mpdu_heap option) \<Rightarrow> nat list \<Rightarrow> mpdu_heap \<Rightarrow> mpdu_heap option" where
  "each_mpdu f [] H = Some H"
| "each_mpdu f (i # is) H = do { H \<leftarrow> f i H; each_mpdu f is H }"

definition psdu_SetDuration :: "time \<Rightarrow> psdu \<Rightarrow> mpdu_heap \<Rightarrow> mpdu_heap option" where
  "psdu_SetDuration duration P =
     each_mpdu (\<lambda>i H. do { h \<leftarrow> GetHeader i H; h' \<leftarrow> SetDuration duration h; set_header i (\<lambda>_. h') H })
       (m_mpduList P)"

definition psdu_IncrementRetryCount :: "psdu \<Rightarrow> mpdu_heap \<Rightarrow> mpdu_heap option" where
  "psdu_IncrementRetryCount P = each_mpdu IncrementRetryCount (m_mpduList P)"

fun tids_loop :: "nat list \<Rightarrow> mpdu_heap \<Rightarrow> u8 set option" where
  "tids_loop [] H = Some {}"
| "tids_loop (i # is) H =
     do { h \<leftarrow> GetHeader i H;
          s \<leftarrow> tids_loop is H;
          Some (if IsQosData h then insert (m_qosTid h) s else s) }"

definition GetTids :: "psdu \<Rightarrow> mpdu_heap \<Rightarrow> u8 set option" where
  "GetTids P = tids_loop (m_mpduList P)"

definition qos_of_tid :: "u8 \<Rightarrow> mac_hdr \<Rightarrow> bool" where
  "qos_of_tid tid h \<longleftrightarrow> IsQosData h \<and> m_qosTid h = tid"

fun find_policy :: "u8 \<Rightarrow> nat list \<Rightarrow> mpdu_heap \<Rightarrow> (QosAckPolicy \<times> nat list) option" where
  "find_policy tid [] H = None"
| "find_policy tid (i # is) H =
     do { h \<leftarrow> GetHeader i H;
          (if qos_of_tid tid h then do { policy \<leftarrow> GetQosAckPolicy h; Some (policy, is) }
           else find_policy tid is H) }"

fun check_policy :: "u8 \<Rightarrow> QosAckPolicy \<Rightarrow> nat list \<Rightarrow> mpdu_heap \<Rightarrow> unit option" where
  "check_policy tid policy [] H = Some ()"
| "check_policy tid policy (i # is) H =
     do { h \<leftarrow> GetHeader i H;
          (if qos_of_tid tid h then do { p \<leftarrow> GetQosAckPolicy h; ns_assert (p = policy) } else Some ());
          check_policy tid policy is H }"

definition GetAckPolicyForTid :: "u8 \<Rightarrow> psdu \<Rightarrow> mpdu_heap \<Rightarrow> QosAckPolicy option" where
  "GetAckPolicyForTid tid P H =
     do { (policy, rest) \<leftarrow> find_policy tid (m_mpduList P) H;
          check_policy tid policy rest H;
          Some policy }"

definition SetAckPolicyForTid :: "u8 \<Rightarrow> QosAckPolicy \<Rightarrow> psdu \<Rightarrow> mpdu_heap \<Rightarrow> mpdu_heap option" where
  "SetAckPolicyForTid tid policy P =
     each_mpdu (\<lambda>i. set_header i (\<lambda>h. if qos_of_tid tid h then SetQosAckPolicy policy h else h)) (m_mpduList P)"

text \<open>
  The largest distance from the starting sequence number to a QoS data frame that is not old; the
  distance is reduced modulo 4096 before it is stored in 16 bits.
\<close>

fun max_dist_loop :: "nat \<Rightarrow> nat list \<Rightarrow> bool \<times> nat \<Rightarrow> mpdu_heap \<Rightarrow> (bool \<times> nat) option" where
  "max_dist_loop startingSeq [] acc H = Some acc"
| "max_dist_loop startingSeq (i # is) (foundFirst, maxDist) H =
     do { h \<leftarrow> GetHeader i H;
          let currSeqNum = unat (m_seqSeq h);
          new \<leftarrow> (if IsQosData h then map_option Not (QosUtilsIsOldPacket startingSeq currSeqNum) else Some False);
          (if new
           then let currDist = (currSeqNum + SEQNO_SPACE_SIZE - startingSeq) mod SEQNO_SPACE_SIZE
                in max_dist_loop startingSeq is
                     (if \<not> foundFirst \<or> currDist > maxDist then (True, currDist) else (foundFirst, maxDist)) H
           else max_dist_loop startingSeq is (foundFirst, maxDist) H) }"

definition GetMaxDistFromStartingSeq :: "nat \<Rightarrow> psdu \<Rightarrow> mpdu_heap \<Rightarrow> nat option" where
  "GetMaxDistFromStartingSeq startingSeq P H =
     do { (foundFirst, maxDist) \<leftarrow> max_dist_loop startingSeq (m_mpduList P) (False, 0) H;
          Some (if \<not> foundFirst then SEQNO_SPACE_SIZE else maxDist) }"

end
