(* ===== verification/Amsdu.thy ===== *)
theory Amsdu
  imports Wifi_Mpdu
begin

text \<open>
  A-MSDUs: the octets of an A-MSDU as a function of its MSDUs, that taking it apart inverts putting
  it together, and what a receiver finds in the frame that a transmitter built.
\<close>

section \<open>The octets of an A-MSDU\<close>

text \<open>
  The format of 802.11: subframes, each a header and an MSDU, all but the last padded to a multiple
  of 4 octets.
\<close>

fun amsdu_octets :: "msdu list \<Rightarrow> bytes" where
  "amsdu_octets [] = []"
| "amsdu_octets [(m, h)] = amsdu_Serialize h @ m"
| "amsdu_octets ((m, h) # ss) =
     amsdu_Serialize h @ m @ replicate (CalculatePadding (14 + length m)) 0 @ amsdu_octets ss"

definition msdu_ok :: "msdu \<Rightarrow> bool" where
  "msdu_ok s \<longleftrightarrow> unat (am_length (snd s)) = length (fst s)"

lemma amsdu_octets_Cons:
  "ss \<noteq> [] \<Longrightarrow> amsdu_octets ((m, h) # ss) =
     amsdu_Serialize h @ m @ replicate (CalculatePadding (14 + length m)) 0 @ amsdu_octets ss"
  by (cases ss) simp_all

lemma amsdu_octets_pos: "ss \<noteq> [] \<Longrightarrow> 14 \<le> length (amsdu_octets ss)"
  by (induction ss rule: amsdu_octets.induct) simp_all

lemma append_subframe_snoc:
  "append_subframe (amsdu_octets ss) h m = amsdu_octets (ss @ [(m, h)])"
proof (induction ss rule: amsdu_octets.induct)
  case (2 x g)
  then show ?case by (simp add: append_subframe_def)
next
  case (3 x g s ss)
  let ?r = "amsdu_octets (s # ss)" and ?k = "14 + length x + CalculatePadding (14 + length x)"
  have pos: "length ?r > 0" using amsdu_octets_pos [of "s # ss", OF list.distinct(2)] by linarith
  have "CalculatePadding (?k + length ?r) = CalculatePadding (length ?r)"
    by (rule CalculatePadding_add) (rule padded_mod)
  with 3 pos show ?case by (simp add: append_subframe_def add.assoc)
qed (simp add: append_subframe_def)

lemma deaggregate_octets:
  assumes "\<forall>s \<in> set ss. msdu_ok s" "maxSize = deserialized + length (amsdu_octets ss)"
  shows "deaggregate maxSize deserialized (amsdu_octets ss) = Some ss"
  using assms
proof (induction ss arbitrary: deserialized)
  case Nil
  then show ?case by (simp add: deaggregate.simps)
next
  case (Cons s ss)
  obtain m h where s: "s = (m, h)" by (cases s)
  with Cons.prems(1) have len: "unat (am_length h) = length m" by (simp add: msdu_ok_def)
  show ?case
  proof (cases "ss = []")
    case True
    with Cons.prems(2) s len show ?thesis
      by (subst deaggregate.simps) (simp add: deaggregate.simps)
  next
    case False
    let ?p = "CalculatePadding (14 + length m)" and ?d = "deserialized + 14 + length m"
    have o: "amsdu_octets (s # ss) = amsdu_Serialize h @ m @ replicate ?p 0 @ amsdu_octets ss"
      using False s by (simp add: amsdu_octets_Cons)
    have "maxSize = ?d + ?p + length (amsdu_octets ss)" using Cons.prems(2) o by simp
    with Cons.IH [of "?d + ?p"] Cons.prems(1)
    have ih: "deaggregate maxSize (?d + ?p) (amsdu_octets ss) = Some ss" by simp
    have lt: "deserialized < maxSize" "?d < maxSize"
      using \<open>maxSize = ?d + ?p + length (amsdu_octets ss)\<close> amsdu_octets_pos [OF False] by linarith+
    have pad: "(4 - (length m + 14) mod 4) mod 4 = ?p" by (simp add: CalculatePadding_def add.commute)
    have eq: "(if ?p > 0 \<and> ?d < maxSize then ?p else 0) = ?p" using lt by simp
    have "deaggregate maxSize deserialized (amsdu_octets (s # ss)) =
        map_option (Cons (m, h)) (deaggregate maxSize (?d + ?p) (amsdu_octets ss))"
      unfolding o by (subst deaggregate.simps) (simp only: lt amsdu_field.dec_enc option.case prod.case Let_def len pad eq if_True
          append.assoc length_append le_add1 take_append drop_append, simp)
    then show ?thesis by (simp add: ih s)
  qed
qed

lemma Deaggregate_octets: "\<forall>s \<in> set ss. msdu_ok s \<Longrightarrow> Deaggregate (amsdu_octets ss) = Some ss"
  unfolding Deaggregate_def by (rule deaggregate_octets) simp_all

lemma subframe_header_ok: "length p < 65536 \<Longrightarrow> msdu_ok (p, subframe_header h p)"
  by (simp add: msdu_ok_def subframe_header_def unat_of_nat take_bit_nat_eq_self)

section \<open>Aggregation of MPDU objects\<close>

lemma deref_update: "deref j (H[i := x]) = (if j = i \<and> i < length H then Some x else deref j H)"
  by (simp add: deref_def nth_list_update)

lemma GetHeader_update: "j \<noteq> i \<Longrightarrow> GetHeader j (H[i := x]) = GetHeader j H"
  by (simp add: GetHeader_def deref_update)

lemma GetPacket_update:
  assumes "j \<noteq> i" "GetOriginal j H \<noteq> Some i"
  shows "GetPacket j (H[i := x]) = GetPacket j H" "GetOriginal j (H[i := x]) = GetOriginal j H"
proof -
  show o: "GetOriginal j (H[i := x]) = GetOriginal j H"
    using assms(1) by (simp add: GetOriginal_def deref_update)
  show "GetPacket j (H[i := x]) = GetPacket j H"
  proof (cases "GetOriginal j H")
    case (Some k)
    with assms(2) have "k \<noteq> i" by simp
    with Some o show ?thesis
      by (simp add: GetPacket_def GetOriginalInfo_def original_info_of_def deref_update)
  qed (simp add: GetPacket_def GetOriginalInfo_def o)
qed

abbreviation original :: "mac_hdr \<Rightarrow> original_info \<Rightarrow> wifi_mpdu" where
  "original h oi \<equiv> \<lparr>wm_header = h, m_instanceInfo = ORIGINAL oi\<rparr>"

lemma original_access:
  assumes "deref i H = Some (original h oi)"
  shows "IsOriginal i H = Some True" "GetOriginal i H = Some i" "original_info_of i H = Some oi"
    "GetOriginalInfo i H = Some oi" "GetHeader i H = Some h" "GetPacket i H = Some (oi_packet oi)"
    "set_original_info i f H = Some (H[i := original h (f oi)])"
    "set_header i g H = Some (H[i := original (g h) oi])"
proof -
  have i: "H ! i = original h oi" "i < length H" using assms by (simp_all add: deref_def split: if_splits)
  show "IsOriginal i H = Some True" "GetOriginal i H = Some i" "original_info_of i H = Some oi"
    "GetHeader i H = Some h" "set_header i g H = Some (H[i := original (g h) oi])"
    using assms by (simp_all add: IsOriginal_def GetOriginal_def original_info_of_def GetHeader_def set_header_def)
  then show "GetOriginalInfo i H = Some oi" "GetPacket i H = Some (oi_packet oi)"
    "set_original_info i f H = Some (H[i := original h (f oi)])"
    using i by (simp_all add: GetOriginalInfo_def GetPacket_def set_original_info_def)
qed

lemma DoAggregate_original:
  assumes "deref i H = Some (original h oi)" "oi_packet oi = amsdu_octets (oi_msduList oi)"
  shows "DoAggregate i g p H = Some (H[i := original h
    (oi\<lparr>oi_msduList := oi_msduList oi @ [(p, subframe_header g p)],
        oi_packet := amsdu_octets (oi_msduList oi @ [(p, subframe_header g p)])\<rparr>)])"
  using original_access [OF assms(1)] by (simp add: DoAggregate_def Let_def assms(2) append_subframe_snoc)

text \<open>The object after aggregation of a list of MSDUs.\<close>

definition amsdu_object :: "mac_hdr \<Rightarrow> original_info \<Rightarrow> msdu list \<Rightarrow> wifi_mpdu" where
  "amsdu_object h oi ss =
     original (set_bssid_addr3 (SetQosAmsdu h))
       (oi\<lparr>oi_retryCount := 0, oi_msduList := ss, oi_packet := amsdu_octets ss\<rparr>)"

lemma start_amsdu_original:
  assumes "deref i H = Some (original h oi)" "oi_msduList oi = []" "\<not> oi_queued oi"
  shows "start_amsdu i H = Some (H[i := amsdu_object h oi [(oi_packet oi, subframe_header h (oi_packet oi))]])"
proof -
  note a = original_access [OF assms(1)]
  let ?oi = "oi\<lparr>oi_packet := [], oi_retryCount := 0\<rparr>" and ?s = "(oi_packet oi, subframe_header h (oi_packet oi))"
  have l: "i < length H" using assms(1) by (simp add: deref_def split: if_splits)
  then have d: "deref i (H[i := original h ?oi]) = Some (original h ?oi)" by (simp add: deref_update)
  have e: "oi_packet ?oi = amsdu_octets (oi_msduList ?oi)" using assms(2) by simp
  note b = DoAggregate_original [OF d e, of h "oi_packet oi"]
  have d': "deref i (H[i := original h (?oi\<lparr>oi_msduList := [?s], oi_packet := amsdu_octets [?s]\<rparr>)])
      = Some (original h (?oi\<lparr>oi_msduList := [?s], oi_packet := amsdu_octets [?s]\<rparr>))"
    using l by (simp add: deref_update)
  show ?thesis
    using assms(2,3) b original_access(8) [OF d']
    by (simp add: start_amsdu_def a amsdu_object_def)
qed

text \<open>The contents of the MPDUs that are aggregated, which are other objects.\<close>

definition msdu_source :: "nat \<Rightarrow> mpdu_heap \<Rightarrow> nat \<Rightarrow> mac_hdr \<times> bytes \<Rightarrow> bool" where
  "msdu_source i H j f \<longleftrightarrow>
     j \<noteq> i \<and> GetOriginal j H \<noteq> Some i \<and> GetHeader j H = Some (fst f) \<and> GetPacket j H = Some (snd f)
     \<and> IsQosData (fst f) \<and> \<not> IsQosAmsdu (fst f)"

definition msdu_of :: "mac_hdr \<times> bytes \<Rightarrow> msdu" where
  "msdu_of f = (snd f, subframe_header (fst f) (snd f))"

lemma msdu_source_update [simp]: "msdu_source i (H[i := x]) = msdu_source i H"
proof (intro ext)
  fix j f
  have "j \<noteq> i \<Longrightarrow> GetOriginal j (H[i := x]) = GetOriginal j H" by (simp add: GetOriginal_def deref_update)
  then show "msdu_source i (H[i := x]) j f = msdu_source i H j f"
    by (cases "j = i") (auto simp: msdu_source_def GetHeader_update GetPacket_update(1))
qed

fun Aggregates :: "nat \<Rightarrow> nat list \<Rightarrow> mpdu_heap \<Rightarrow> mpdu_heap option" where
  "Aggregates i [] H = Some H"
| "Aggregates i (j # js) H = do { H \<leftarrow> Aggregate i (Some j) H; Aggregates i js H }"

lemma Aggregate_more:
  assumes "deref i H = Some (amsdu_object h oi ss)" "ss \<noteq> []" "msdu_source i H j f"
  shows "Aggregate i (Some j) H = Some (H[i := amsdu_object h oi (ss @ [msdu_of f])])"
proof -
  note d = assms(1) [unfolded amsdu_object_def]
  have e: "oi_packet (oi\<lparr>oi_retryCount := 0, oi_msduList := ss, oi_packet := amsdu_octets ss\<rparr>)
      = amsdu_octets (oi_msduList (oi\<lparr>oi_retryCount := 0, oi_msduList := ss, oi_packet := amsdu_octets ss\<rparr>))" by simp
  show ?thesis
    using assms(2,3) original_access [OF d] DoAggregate_original [OF d e, of "fst f" "snd f"]
    by (simp add: Aggregate_def msdu_source_def amsdu_object_def msdu_of_def)
qed

lemma Aggregates_more:
  assumes "deref i H = Some (amsdu_object h oi ss)" "ss \<noteq> []" "list_all2 (msdu_source i H) js fs"
  shows "Aggregates i js H = Some (H[i := amsdu_object h oi (ss @ map msdu_of fs)])"
  using assms
proof (induction js arbitrary: H ss fs)
  case Nil
  then have "H ! i = amsdu_object h oi ss" by (simp add: deref_def split: if_splits)
  then have "H[i := amsdu_object h oi ss] = H" by (metis list_update_id)
  with Nil show ?case by simp
next
  case (Cons j js)
  then obtain f fs' where f: "fs = f # fs'" "msdu_source i H j f" "list_all2 (msdu_source i H) js fs'"
    by (auto simp: list_all2_Cons1)
  have l: "i < length H" using Cons.prems(1) by (simp add: deref_def split: if_splits)
  let ?x = "amsdu_object h oi (ss @ [msdu_of f])"
  have "Aggregates i js (H[i := ?x]) = Some (H[i := ?x, i := amsdu_object h oi ((ss @ [msdu_of f]) @ map msdu_of fs')])"
    by (rule Cons.IH) (use l f(3) in \<open>simp_all add: deref_update list_all2_mono\<close>)
  with Aggregate_more [OF Cons.prems(1,2) f(2)] f(1) show ?case by simp
qed

lemma Aggregates_original:
  assumes "deref i H = Some (original h oi)" "oi_msduList oi = []" "\<not> oi_queued oi" "js \<noteq> []"
    "list_all2 (msdu_source i H) js fs"
  shows "Aggregates i js H = Some (H[i := amsdu_object h oi (map msdu_of ((h, oi_packet oi) # fs))])"
proof -
  obtain j js' f fs' where f: "js = j # js'" "fs = f # fs'" "msdu_source i H j f" "list_all2 (msdu_source i H) js' fs'"
    using assms(4,5) by (cases js) (auto simp: list_all2_Cons1)
  note a = original_access [OF assms(1)]
  let ?s = "msdu_of (h, oi_packet oi)"
  let ?H = "H[i := amsdu_object h oi [?s]]"
  have l: "i < length H" using assms(1) by (simp add: deref_def split: if_splits)
  have d: "deref i ?H = Some (amsdu_object h oi [?s])" using l by (simp add: deref_update)
  have f3: "msdu_source i ?H j f" using f(3) by simp
  have g: "GetHeader j H = Some (fst f)" "IsQosData (fst f)" "\<not> IsQosAmsdu (fst f)"
    "GetHeader j ?H = Some (fst f)" "GetPacket j ?H = Some (snd f)"
    using f(3) by (simp_all add: msdu_source_def GetHeader_update GetPacket_update)
  have st: "start_amsdu i H = Some ?H"
    using start_amsdu_original [OF assms(1-3)] by (simp add: msdu_of_def)
  note b = original_access(1,3) [OF d [unfolded amsdu_object_def], folded amsdu_object_def]
  have "Aggregate i (Some j) ?H = DoAggregate i (fst f) (snd f) ?H"
    by (simp add: Aggregate_def g b)
  then have "Aggregate i (Some j) H = Aggregate i (Some j) ?H"
    by (simp add: Aggregate_def g a st assms(2))
  with Aggregate_more [OF d _ f3]
  have 1: "Aggregate i (Some j) H = Some (H[i := amsdu_object h oi [?s, msdu_of f]])" by simp
  have "Aggregates i js' (H[i := amsdu_object h oi [?s, msdu_of f]])
      = Some (H[i := amsdu_object h oi ([?s, msdu_of f] @ map msdu_of fs')])"
    using Aggregates_more [of i "H[i := amsdu_object h oi [?s, msdu_of f]]" h oi "[?s, msdu_of f]" js' fs'] l f(4)
    by (simp add: deref_update)
  with 1 f(1,2) show ?thesis by simp
qed

section \<open>What the receiver finds\<close>

text \<open>
  Property C13: MSDUs that are aggregated one after the other into a QoS data frame that is not
  queued make a frame from which the constructor of the received MPDU takes the same MSDUs, in order,
  octet by octet, each with the destination and source address of its own MAC header; no other
  object changes.
\<close>

theorem amsdu_roundtrip:
  assumes "deref i H = Some (original h oi)" "oi_msduList oi = []" "\<not> oi_queued oi" "IsQosData h"
    "js \<noteq> []" "list_all2 (msdu_source i H) js fs"
    "\<forall>p \<in> set (oi_packet oi # map snd fs). length p < 65536"
  shows "\<exists>H' h' p k G'. Aggregates i js H = Some H' \<and> GetHeader i H' = Some h' \<and> GetPacket i H' = Some p
    \<and> WifiMpdu p h' stamp G = Some (k, G') \<and> wm_msdus k G' = Some (map msdu_of ((h, oi_packet oi) # fs))
    \<and> (\<forall>j. j \<noteq> i \<longrightarrow> deref j H' = deref j H)"
proof -
  let ?ss = "map msdu_of ((h, oi_packet oi) # fs)" and ?h = "set_bssid_addr3 (SetQosAmsdu h)"
  let ?H = "H[i := amsdu_object h oi ?ss]"
  note agg = Aggregates_original [OF assms(1-3,5,6)]
  have l: "i < length H" using assms(1) by (simp add: deref_def split: if_splits)
  then have d: "deref i ?H = Some (amsdu_object h oi ?ss)" by (simp only: deref_update if_P refl simp_thms)
  have qos: "IsQosData ?h" "IsQosAmsdu ?h"
    using assms(4) by (simp_all add: set_bssid_addr3_def IsQosAmsdu_def IsQosData_def SetQosAmsdu_def SetAddr3_def)
  have "\<forall>s \<in> set ?ss. msdu_ok s" using assms(7) by (auto simp: msdu_of_def subframe_header_ok)
  then have De: "Deaggregate (amsdu_octets ?ss) = Some ?ss" by (rule Deaggregate_octets)
  let ?oi = "\<lparr>oi_packet = amsdu_octets ?ss, oi_timestamp = stamp, oi_retryCount = 0, oi_queued = False,
    oi_seqNoAssigned = False, oi_msduList = ?ss\<rparr>"
  let ?G = "G @ [original ?h ?oi]"
  have W: "WifiMpdu (amsdu_octets ?ss) ?h stamp G = Some (length G, ?G)"
    by (simp only: WifiMpdu_def qos De simp_thms if_True bind.bind_lunit)
  have "deref (length G) ?G = Some (original ?h ?oi)" by (simp add: deref_def)
  then have M: "wm_msdus (length G) ?G = Some ?ss"
    using original_access(4) [of "length G" ?G ?h ?oi] by (simp add: wm_msdus_def)
  note a = original_access(5,6) [OF d [unfolded amsdu_object_def], folded amsdu_object_def]
  have o: "\<forall>j. j \<noteq> i \<longrightarrow> deref j ?H = deref j H" by (simp add: deref_update)
  show ?thesis
    using agg a W M o by (intro exI conjI) (assumption | simp)+
qed

definition ex_info :: "bytes \<Rightarrow> original_info" where
  "ex_info p =
     \<lparr>oi_packet = p, oi_timestamp = 0, oi_retryCount = 0, oi_queued = False, oi_seqNoAssigned = False, oi_msduList = []\<rparr>"

definition ex_data_hdr :: "mac48 \<Rightarrow> mac_hdr" where
  "ex_data_hdr da = SetDsTo (SetAddr1 1 (SetAddr2 2 (SetAddr3 da (WifiMacHeader WIFI_MAC_QOSDATA))))"

text \<open>Three MSDUs of 3, 2 and 5 octets; the third is aggregated through an alias.\<close>

definition ex_heap :: mpdu_heap where
  "ex_heap =
     [original (ex_data_hdr 7) (ex_info [1, 2, 3]), original (ex_data_hdr 8) (ex_info [4, 5]),
      original (ex_data_hdr 9) (ex_info [6, 7, 8, 9, 10]),
      \<lparr>wm_header = ex_data_hdr 9, m_instanceInfo = ALIAS 2\<rparr>]"

theorem amsdu_roundtrip_witness:
  "\<exists>H' p h' G'. Aggregates 0 [1, 3] ex_heap = Some H' \<and> GetPacket 0 H' = Some p \<and> GetHeader 0 H' = Some h'
     \<and> WifiMpdu p h' 0 [] = Some (0, G')
     \<and> wm_msdus 0 G' = Some [([1, 2, 3], \<lparr>m_da = 7, m_sa = 2, am_length = 3\<rparr>),
                             ([4, 5], \<lparr>m_da = 8, m_sa = 2, am_length = 2\<rparr>),
                             ([6, 7, 8, 9, 10], \<lparr>m_da = 9, m_sa = 2, am_length = 5\<rparr>)]"
proof -
  let ?fs = "[(ex_data_hdr 8, [4, 5]), (ex_data_hdr 9, [6, 7, 8, 9, 10])]"
  have d: "deref 0 ex_heap = Some (original (ex_data_hdr 7) (ex_info [1, 2, 3]))" by (simp add: ex_heap_def deref_def)
  have q: "IsQosData (ex_data_hdr 7)" by code_simp
  have s: "list_all2 (msdu_source 0 ex_heap) [1, 3] ?fs"
    by (simp only: list_all2_Cons list_all2_Nil) code_simp
  obtain H' h' p k G' where r: "Aggregates 0 [1, 3] ex_heap = Some H'" "GetHeader 0 H' = Some h'"
    "GetPacket 0 H' = Some p" "WifiMpdu p h' 0 [] = Some (k, G')"
    "wm_msdus k G' = Some (map msdu_of ((ex_data_hdr 7, oi_packet (ex_info [1, 2, 3])) # ?fs))"
    using amsdu_roundtrip [OF d _ _ q _ s, of 0 "[]"] by (auto simp: ex_info_def)
  have k: "k = 0" using r(4) by (auto simp: WifiMpdu_def elim!: bind_SomeE)
  have "map msdu_of ((ex_data_hdr 7, oi_packet (ex_info [1, 2, 3])) # ?fs)
    = [([1, 2, 3], \<lparr>m_da = 7, m_sa = 2, am_length = 3\<rparr>), ([4, 5], \<lparr>m_da = 8, m_sa = 2, am_length = 2\<rparr>),
       ([6, 7, 8, 9, 10], \<lparr>m_da = 9, m_sa = 2, am_length = 5\<rparr>)]" by code_simp
  with r k show ?thesis by auto
qed

section \<open>The size that is predicted\<close>

lemma length_amsdu_snoc:
  assumes "length (amsdu_octets (ss @ [(m, h)])) < 65536"
  shows "length (amsdu_octets (ss @ [(m, h)])) = msdu_GetSizeIfAggregated (length m) (length (amsdu_octets ss))"
    "length (amsdu_octets ss) < 65536"
proof -
  have "length (append_subframe (amsdu_octets ss) h m)
      = length (amsdu_octets ss) + CalculatePadding (length (amsdu_octets ss)) + 14 + length m"
    by (cases "amsdu_octets ss") (simp_all add: append_subframe_def CalculatePadding_def)
  with assms show "length (amsdu_octets (ss @ [(m, h)])) = msdu_GetSizeIfAggregated (length m) (length (amsdu_octets ss))"
    "length (amsdu_octets ss) < 65536"
    by (simp_all add: append_subframe_snoc msdu_GetSizeIfAggregated_def Let_def)
qed

lemma amsdu_prefix_shorter: "length (amsdu_octets ss) \<le> length (amsdu_octets (ss @ ts))"
proof (induction ts rule: rev_induct)
  case (snoc t ts)
  obtain m h where "t = (m, h)" by (cases t)
  then have "amsdu_octets (ss @ ts @ [t]) = append_subframe (amsdu_octets (ss @ ts)) h m"
    using append_subframe_snoc [of "ss @ ts" h m] by simp
  with snoc.IH show ?case by (simp add: append_subframe_def)
qed simp

fun AggregateMsdus :: "mpdu list \<Rightarrow> tx_params \<Rightarrow> tx_params option" where
  "AggregateMsdus [] p = Some p"
| "AggregateMsdus (m # ms) p = do { p \<leftarrow> AggregateMsdu m p; AggregateMsdus ms p }"

text \<open>The MPDU that \<^verbatim>\<open>WifiTxParameters\<close> is told of stands for this frame.\<close>

definition same_frame :: "mpdu \<Rightarrow> mac_hdr \<times> bytes \<Rightarrow> bool" where
  "same_frame m f \<longleftrightarrow> mp_hdr m = fst f \<and> mp_payload m = length (snd f)"

lemma AggregateMsdu_info:
  assumes "AggregateMsdu m p = Some p'" "omap_get (m_info p) (m_addr1 (mp_hdr m)) = Some info"
  shows "omap_get (m_info p') (m_addr1 (mp_hdr m)) = Some (info\<lparr>pi_amsduSize :=
      msdu_GetSizeIfAggregated (mp_payload m)
        (if \<not> IsQosAmsdu (pi_header info) then msdu_GetSizeIfAggregated (pi_amsduSize info) 0 else pi_amsduSize info),
      pi_header := SetQosAmsdu (pi_header info)\<rparr>)" "IsQosData (pi_header info)"
  using assms by (auto simp: AggregateMsdu_def GetSizeIfAggregateMsdu_def Let_def elim!: bind_SomeE)

lemma AggregateMsdu_Some:
  assumes "IsQosData (mp_hdr m)" "m_addr1 (mp_hdr m) = a" "pi_amsduSize info > 0" "IsQosData (pi_header info)"
    "m_qosTid (pi_header info) = m_qosTid (mp_hdr m)" "pi_seqNumbers info (m_qosTid (mp_hdr m)) \<noteq> None"
    "omap_get (m_info p) a = Some info"
  shows "\<exists>p'. AggregateMsdu m p = Some p' \<and> omap_get (m_info p') a = Some (info\<lparr>pi_amsduSize :=
      msdu_GetSizeIfAggregated (mp_payload m)
        (if \<not> IsQosAmsdu (pi_header info) then msdu_GetSizeIfAggregated (pi_amsduSize info) 0 else pi_amsduSize info),
      pi_header := SetQosAmsdu (pi_header info)\<rparr>)"
  using assms by (auto simp: AggregateMsdu_def GetSizeIfAggregateMsdu_def Let_def)

lemma IsQosAmsdu_Set: "IsQosData h \<Longrightarrow> IsQosAmsdu (SetQosAmsdu h)" "IsQosData (SetQosAmsdu h) = IsQosData h"
  by (simp_all add: IsQosAmsdu_def IsQosData_def SetQosAmsdu_def)

lemma AggregateMsdus_size:
  assumes "AggregateMsdus ms p = Some p'" "list_all2 same_frame ms fs" "\<forall>f \<in> set fs. m_addr1 (fst f) = a"
    "omap_get (m_info p) a = Some info" "IsQosAmsdu (pi_header info)" "pi_amsduSize info = length (amsdu_octets ss)"
    "length (amsdu_octets (ss @ map msdu_of fs)) < 65536"
  shows "\<exists>info'. omap_get (m_info p') a = Some info' \<and> IsQosAmsdu (pi_header info')
    \<and> pi_amsduSize info' = length (amsdu_octets (ss @ map msdu_of fs))"
  using assms
proof (induction ms arbitrary: p fs ss info)
  case Nil
  then show ?case by simp
next
  case (Cons m ms)
  then obtain f fs' where f: "fs = f # fs'" "same_frame m f" "list_all2 same_frame ms fs'"
    by (auto simp: list_all2_Cons1)
  from Cons.prems(1) obtain q where q: "AggregateMsdu m p = Some q" "AggregateMsdus ms q = Some p'"
    by (auto elim: bind_SomeE)
  have a: "m_addr1 (mp_hdr m) = a" using f(1,2) Cons.prems(3) by (simp add: same_frame_def)
  note i = AggregateMsdu_info [OF q(1), unfolded a, OF Cons.prems(4)]
  have lt: "length (amsdu_octets (ss @ [msdu_of f])) < 65536"
    using Cons.prems(7) f(1) amsdu_prefix_shorter [of "ss @ [msdu_of f]" "map msdu_of fs'"] by simp
  have sz: "msdu_GetSizeIfAggregated (mp_payload m) (pi_amsduSize info) = length (amsdu_octets (ss @ [msdu_of f]))"
    using length_amsdu_snoc(1) [of ss "snd f" "subframe_header (fst f) (snd f)"] lt f(2) Cons.prems(6)
    by (simp add: msdu_of_def same_frame_def)
  from Cons.IH [OF q(2) f(3) _ i(1), of "ss @ [msdu_of f]"] Cons.prems(3,5,7) f(1) sz i(2) show ?case
    by (simp add: IsQosAmsdu_Set)
qed

text \<open>
  Property C39: the size that \<^verbatim>\<open>WifiTxParameters\<close> keeps while it is decided what to aggregate
  is the size of the A-MSDU that the aggregation of the same MSDUs then builds, as long as that fits
  in 16 bits.
\<close>

theorem amsdu_size_predicted:
  assumes "deref i H = Some (original h oi)" "oi_msduList oi = []" "\<not> oi_queued oi" "\<not> IsQosAmsdu h"
    "js \<noteq> []" "list_all2 (msdu_source i H) js fs"
    "omap_get (m_info p) a = Some info" "pi_header info = h" "pi_amsduSize info = length (oi_packet oi)"
    "\<forall>f \<in> set fs. m_addr1 (fst f) = a" "list_all2 same_frame ms fs" "AggregateMsdus ms p = Some p'"
    "length (amsdu_octets (map msdu_of ((h, oi_packet oi) # fs))) < 65536"
  shows "\<exists>H' info'. Aggregates i js H = Some H' \<and> omap_get (m_info p') a = Some info'
    \<and> GetPacketSize i H' = Some (pi_amsduSize info')"
proof -
  obtain f fs' where f: "fs = f # fs'" using assms(5,6) by (cases fs) auto
  with assms(11) obtain m ms' where m: "ms = m # ms'" "same_frame m f" "list_all2 same_frame ms' fs'"
    by (auto simp: list_all2_Cons2)
  with assms(12) obtain q where q: "AggregateMsdu m p = Some q" "AggregateMsdus ms' q = Some p'"
    by (auto elim: bind_SomeE)
  have a: "m_addr1 (mp_hdr m) = a" using f m(2) assms(10) by (simp add: same_frame_def)
  note i = AggregateMsdu_info [OF q(1), unfolded a, OF assms(7)]
  let ?s = "msdu_of (h, oi_packet oi)"
  have lt: "length (amsdu_octets ([?s] @ [msdu_of f])) < 65536"
    using assms(13) f amsdu_prefix_shorter [of "[?s] @ [msdu_of f]" "map msdu_of fs'"] by simp
  note l2 = length_amsdu_snoc [of "[?s]" "snd f" "subframe_header (fst f) (snd f)"]
  have lt1: "length (amsdu_octets [?s]) < 65536" using l2(2) lt by (simp add: msdu_of_def)
  then have sz1: "msdu_GetSizeIfAggregated (pi_amsduSize info) 0 = length (amsdu_octets [?s])"
    by (simp add: msdu_of_def assms(9) msdu_GetSizeIfAggregated_def CalculatePadding_def)
  have sz2: "msdu_GetSizeIfAggregated (mp_payload m) (length (amsdu_octets [?s])) = length (amsdu_octets [?s, msdu_of f])"
    using l2(1) lt m(2) by (simp add: msdu_of_def same_frame_def)
  have "\<exists>info'. omap_get (m_info p') a = Some info' \<and> IsQosAmsdu (pi_header info')
      \<and> pi_amsduSize info' = length (amsdu_octets ([?s, msdu_of f] @ map msdu_of fs'))"
    by (rule AggregateMsdus_size [OF q(2) m(3) _ i(1)])
      (use assms(4,8,10,13) f i(2) sz1 sz2 in \<open>simp_all add: IsQosAmsdu_Set\<close>)
  then obtain info' where info': "omap_get (m_info p') a = Some info'"
    "pi_amsduSize info' = length (amsdu_octets (map msdu_of ((h, oi_packet oi) # fs)))"
    using f by auto
  let ?H = "H[i := amsdu_object h oi (map msdu_of ((h, oi_packet oi) # fs))]"
  note agg = Aggregates_original [OF assms(1-3,5,6)]
  have "i < length H" using assms(1) by (simp add: deref_def split: if_splits)
  then have d: "deref i ?H = Some (amsdu_object h oi (map msdu_of ((h, oi_packet oi) # fs)))"
    by (simp only: deref_update if_P refl simp_thms)
  have "GetPacketSize i ?H = Some (pi_amsduSize info')"
    using original_access(6) [OF d [unfolded amsdu_object_def], folded amsdu_object_def] info'(2)
    by (simp add: GetPacketSize_def)
  with agg info'(1) show ?thesis by blast
qed

definition ex_tx_params :: tx_params where
  "ex_tx_params = the (AddMpdu \<lparr>mp_hdr = ex_data_hdr 7, mp_payload = 3, mp_queued = True, mp_inFlight = False, mp_hasSeqNo = False\<rparr>
     WifiTxParameters)"

definition ex_msdu :: "mac48 \<Rightarrow> nat \<Rightarrow> mpdu" where
  "ex_msdu da n = \<lparr>mp_hdr = ex_data_hdr da, mp_payload = n, mp_queued = True, mp_inFlight = False, mp_hasSeqNo = False\<rparr>"

theorem amsdu_size_predicted_witness:
  "\<exists>p' H' info'. AggregateMsdus [ex_msdu 8 2, ex_msdu 9 5] ex_tx_params = Some p'
     \<and> Aggregates 0 [1, 3] ex_heap = Some H' \<and> omap_get (m_info p') 1 = Some info'
     \<and> GetPacketSize 0 H' = Some (pi_amsduSize info') \<and> pi_amsduSize info' = 20 + 16 + 19"
proof -
  let ?fs = "[(ex_data_hdr 8, [4, 5]), (ex_data_hdr 9, [6, 7, 8, 9, 10])]"
  have d: "deref 0 ex_heap = Some (original (ex_data_hdr 7) (ex_info [1, 2, 3]))" by (simp add: ex_heap_def deref_def)
  have q: "\<not> IsQosAmsdu (ex_data_hdr 7)" by code_simp
  have s: "list_all2 (msdu_source 0 ex_heap) [1, 3] ?fs"
    by (simp only: list_all2_Cons list_all2_Nil) code_simp
  let ?i = "\<lparr>pi_header = ex_data_hdr 7, pi_amsduSize = 3, pi_ampduSize = 0, pi_seqNumbers = [0 \<mapsto> {0}]\<rparr>"
  have c: "IsQosData (ex_data_hdr n)" "m_addr1 (ex_data_hdr n) = 1" "m_qosTid (ex_data_hdr n) = 0"
    "m_seqSeq (ex_data_hdr n) = 0" for n
    by (simp_all add: IsQosData_def ex_data_hdr_def WifiMacHeader_def SetType_def type_codes_def mac_hdr_default_def
        SetDsTo_def SetAddr1_def SetAddr2_def SetAddr3_def type_defs)
  have i: "omap_get (m_info ex_tx_params) 1 = Some ?i"
    by (simp add: ex_tx_params_def AddMpdu_def WifiTxParameters_def Let_def c)
  have c': "IsQosData (SetQosAmsdu (ex_data_hdr n))" "m_qosTid (SetQosAmsdu (ex_data_hdr n)) = 0"
    "IsQosAmsdu (SetQosAmsdu (ex_data_hdr n))" for n
    by (simp_all add: IsQosAmsdu_Set c) (simp add: SetQosAmsdu_def c)
  obtain p1 where p1: "AggregateMsdu (ex_msdu 8 2) ex_tx_params = Some p1"
    "omap_get (m_info p1) 1 = Some (?i\<lparr>pi_amsduSize := 36, pi_header := SetQosAmsdu (ex_data_hdr 7)\<rparr>)"
    using AggregateMsdu_Some [OF _ _ _ _ _ _ i, of "ex_msdu 8 2"] q i
    by (auto simp: ex_msdu_def c msdu_GetSizeIfAggregated_def CalculatePadding_def)
  obtain p' where p2: "AggregateMsdu (ex_msdu 9 5) p1 = Some p'"
    "\<exists>info'. omap_get (m_info p') 1 = Some info' \<and> pi_amsduSize info' = 55"
    using AggregateMsdu_Some [OF _ _ _ _ _ _ p1(2), of "ex_msdu 9 5"]
    by (auto simp: ex_msdu_def c c' msdu_GetSizeIfAggregated_def CalculatePadding_def)
  have p': "AggregateMsdus [ex_msdu 8 2, ex_msdu 9 5] ex_tx_params = Some p'"
    "\<exists>info'. omap_get (m_info p') 1 = Some info' \<and> pi_amsduSize info' = 55" using p1(1) p2 by simp_all
  have sm: "list_all2 same_frame [ex_msdu 8 2, ex_msdu 9 5] ?fs" by (simp add: same_frame_def ex_msdu_def)
  have "length (amsdu_octets (map msdu_of ((ex_data_hdr 7, oi_packet (ex_info [1, 2, 3])) # ?fs))) < 65536"
    by (simp add: msdu_of_def ex_info_def CalculatePadding_def)
  from amsdu_size_predicted [OF d _ _ q _ s i _ _ _ sm p'(1) this]
  obtain H' info' where "Aggregates 0 [1, 3] ex_heap = Some H'" "omap_get (m_info p') 1 = Some info'"
    "GetPacketSize 0 H' = Some (pi_amsduSize info')"
    by (auto simp: ex_info_def c)
  with p' show ?thesis by auto
qed

end
