(* ===== verification/Psdu_Props.thy ===== *)
theory Psdu_Props
  imports Wifi_Psdu Amsdu
begin

text \<open>
  PSDUs: the octets and the size of a PSDU agree, its subframes can be found by their delimiters,
  the size is the one that \<^verbatim>\<open>WifiTxParameters\<close> announced, and the acknowledgment policy of a
  TID.
\<close>

section \<open>The octets of an A-MPDU\<close>

abbreviation delimiter :: "bool \<Rightarrow> bytes \<Rightarrow> bytes" where
  "delimiter single pdu \<equiv> ampdu_Serialize (GetAmpduSubframeHeader (length pdu) single)"

fun ampdu_bytes :: "bool \<Rightarrow> bytes list \<Rightarrow> bytes" where
  "ampdu_bytes single [] = []"
| "ampdu_bytes single [p] = delimiter single p @ p"
| "ampdu_bytes single (p # ps) =
     delimiter single p @ p @ replicate (CalculatePadding (length p)) 0 @ ampdu_bytes single ps"

lemma length_ampdu_bytes: "length (ampdu_bytes single ps) = ampdu_octets (map length ps)"
  by (induction single ps rule: ampdu_bytes.induct) simp_all

lemma length_hdr_Serialize: "hdr_Serialize h = Some hb \<Longrightarrow> length hb = hdr_GetSize h"
  by (auto simp: hdr_Serialize_def dest: length_write_body elim!: bind_SomeE)

lemma PDU_access:
  assumes "GetProtocolDataUnit i H = Some pdu"
  obtains p h hb where "GetPacket i H = Some p" "GetHeader i H = Some h" "hdr_Serialize h = Some hb"
    "pdu = AddWifiMacTrailer (hb @ p)"
  using assms by (auto simp: GetProtocolDataUnit_def elim!: bind_SomeE)

lemma PDU_size: "GetProtocolDataUnit i H = Some pdu \<Longrightarrow> wm_GetSize i H = Some (length pdu)"
  by (elim PDU_access) (simp add: wm_GetSize_def GetPacketSize_def AddWifiMacTrailer_def length_hdr_Serialize)

lemma ampdu_Aggregate_PDU:
  assumes "GetProtocolDataUnit i H = Some pdu" "\<not> single \<or> a = []"
  shows "ampdu_Aggregate i a single H =
    Some ((if a = [] then [] else a @ replicate (CalculatePadding (length a)) 0) @ delimiter single pdu @ pdu)"
  using assms by (elim PDU_access) (simp add: ampdu_Aggregate_def Let_def)

lemma ampdu_bytes_snoc:
  "ampdu_bytes single (ps @ [p]) =
     (if ps = [] then [] else ampdu_bytes single ps @ replicate (CalculatePadding (length (ampdu_bytes single ps))) 0)
       @ delimiter single p @ p"
proof (induction single ps rule: ampdu_bytes.induct)
  case (2 single q)
  have "CalculatePadding (4 + length q) = CalculatePadding (length q)" by (rule CalculatePadding_add) simp
  then show ?case by simp
next
  case (3 single q r rs)
  let ?k = "4 + length q + CalculatePadding (length q)" and ?n = "length (ampdu_bytes single (r # rs))"
  have "?k mod 4 = 0" using padded_mod [of "length q"] by presburger
  then have "CalculatePadding (?k + ?n) = CalculatePadding ?n" by (rule CalculatePadding_add)
  with 3 show ?case by (simp add: add.assoc)
qed simp

lemma ampdu_bytes_Nil_iff [simp]: "ampdu_bytes single ps = [] \<longleftrightarrow> ps = []"
  using length_ampdu_bytes [of single ps] ampdu_octets_pos [of "map length ps"] by (cases "ps = []") auto

abbreviation PDUs :: "mpdu_heap \<Rightarrow> nat list \<Rightarrow> bytes list \<Rightarrow> bool" where
  "PDUs H is pdus \<equiv> list_all2 (\<lambda>i pdu. GetProtocolDataUnit i H = Some pdu) is pdus"

lemma ampdu_loop_PDUs:
  "PDUs H is pdus \<Longrightarrow> ampdu_loop is (ampdu_bytes False ps) H = Some (ampdu_bytes False (ps @ pdus))"
proof (induction "is" arbitrary: ps pdus)
  case (Cons i "is")
  then obtain pdu pdus' where p: "pdus = pdu # pdus'" "GetProtocolDataUnit i H = Some pdu" "PDUs H is pdus'"
    by (auto simp: list_all2_Cons1)
  have "ampdu_Aggregate i (ampdu_bytes False ps) False H = Some (ampdu_bytes False (ps @ [pdu]))"
    using ampdu_Aggregate_PDU [OF p(2)] by (simp add: ampdu_bytes_snoc)
  with Cons.IH [OF p(3), of "ps @ [pdu]"] p(1) show ?case by simp
qed simp

lemma psdu_size_PDUs:
  "PDUs H is pdus \<Longrightarrow> psdu_size_loop is (ampdu_octets (map length ps)) H = Some (ampdu_octets (map length (ps @ pdus)))"
proof (induction "is" arbitrary: ps pdus)
  case (Cons i "is")
  then obtain pdu pdus' where p: "pdus = pdu # pdus'" "GetProtocolDataUnit i H = Some pdu" "PDUs H is pdus'"
    by (auto simp: list_all2_Cons1)
  have "psdu_size_loop (i # is) (ampdu_octets (map length ps)) H
      = psdu_size_loop is (ampdu_octets (map length (ps @ [pdu]))) H"
    by (simp add: PDU_size [OF p(2)] ampdu_octets_snoc)
  with Cons.IH [OF p(3), of "ps @ [pdu]"] p(1) show ?case by simp
qed simp

lemma WifiPsdu_list_PDUs:
  assumes "is \<noteq> []" "PDUs H is pdus"
  shows "WifiPsdu_list is H =
    Some \<lparr>m_isSingle = (length is = 1), m_mpduList = is, m_size = ampdu_octets (map length pdus)\<rparr>"
  using psdu_size_PDUs [OF assms(2), of "[]"] assms(1) by (simp add: WifiPsdu_list_def)

lemma psdu_GetPacket_list:
  assumes "is \<noteq> []" "PDUs H is pdus" "m_mpduList P = is" "m_isSingle P \<longleftrightarrow> length is = 1"
  shows "psdu_GetPacket P H = Some (ampdu_bytes (m_isSingle P) pdus)"
proof (cases "m_isSingle P")
  case True
  then obtain i where i: "is = [i]" using assms(4) by (auto simp: length_Suc_conv)
  then obtain pdu where p: "pdus = [pdu]" "GetProtocolDataUnit i H = Some pdu"
    using assms(2) by (auto simp: list_all2_Cons1)
  have "psdu_GetPacket P H = ampdu_Aggregate i [] True H"
    using True i assms(3) by (simp add: psdu_GetPacket_def mpdu_at_def)
  with ampdu_Aggregate_PDU [OF p(2), of True "[]"] p(1) True show ?thesis by simp
next
  case False
  then have "psdu_GetPacket P H = ampdu_loop is [] H"
    using assms(3,4) by (simp add: psdu_GetPacket_def)
  with ampdu_loop_PDUs [OF assms(2), of "[]"] False show ?thesis by simp
qed

definition subframe_of :: "bool \<Rightarrow> nat \<Rightarrow> nat \<Rightarrow> bytes \<Rightarrow> bytes" where
  "subframe_of single n k pdu =
     delimiter single pdu @ pdu @ (if k \<noteq> n - 1 then replicate (CalculatePadding (length pdu)) 0 else [])"

lemma GetAmpduSubframe_PDU:
  assumes "k < length (m_mpduList P)" "GetProtocolDataUnit (m_mpduList P ! k) H = Some pdu"
  shows "GetAmpduSubframe k P H = Some (subframe_of (m_isSingle P) (length (m_mpduList P)) k pdu)"
proof -
  have "CalculatePadding (4 + length pdu) = CalculatePadding (length pdu)" by (rule CalculatePadding_add) simp
  then show ?thesis
    using assms PDU_size [OF assms(2)]
    by (simp add: GetAmpduSubframe_def GetAmpduSubframeSize_def mpdu_at_def subframe_of_def Let_def)
qed

lemma ampdu_bytes_concat:
  "ampdu_bytes single ps = concat (map (\<lambda>k. subframe_of single (length ps) k (ps ! k)) [0..<length ps])"
proof (induction single ps rule: ampdu_bytes.induct)
  case (3 single p q ps)
  have "map (\<lambda>k. subframe_of single (length (p # q # ps)) k ((p # q # ps) ! k)) [0..<length (p # q # ps)]
    = subframe_of single (length (p # q # ps)) 0 p
      # map (\<lambda>k. subframe_of single (length (q # ps)) k ((q # ps) ! k)) [0..<length (q # ps)]"
    by (subst upt_conv_Cons) (auto simp: subframe_of_def map_Suc_upt [symmetric] simp del: upt_Suc)
  moreover have "subframe_of single (length (p # q # ps)) 0 p
      = delimiter single p @ p @ replicate (CalculatePadding (length p)) 0" by (simp add: subframe_of_def)
  ultimately show ?case by (simp only: ampdu_bytes.simps 3 concat.simps append.assoc)
qed (simp_all add: subframe_of_def)

section \<open>Size, octets and delimiters\<close>

lemma delimiter_read:
  assumes "length pdu < 16384"
  shows "ampdu_Deserialize (delimiter single pdu @ rest)
    = Some (\<lparr>ap_length = of_nat (length pdu), m_eof = single, m_signature = 0x4E\<rparr>, rest)"
proof -
  have "take_bit 14 (of_nat (length pdu) :: u16) = of_nat (length pdu)"
    using assms by (simp add: take_bit_of_nat take_bit_nat_eq_self)
  then have "fits 14 (ap_length (GetAmpduSubframeHeader (length pdu) single))"
    by (simp add: fits_def GetAmpduSubframeHeader_def Let_def)
  from ampdu_hdr_roundtrip [OF this] show ?thesis
    by (simp add: GetAmpduSubframeHeader_def AmpduSubframeHeader_def Let_def)
qed

lemma ampdu_Deserialize_append:
  "ampdu_Deserialize s = Some (h, r) \<Longrightarrow> \<exists>r'. ampdu_Deserialize (s @ t) = Some (h, r')"
  by (auto simp: ampdu_Deserialize_def ReadU16_def ReadU8_def split: list.splits)

text \<open>
  Property C16: a PSDU made of MPDUs that can be serialised has as many octets as the size that was
  computed when it was created; the octets are the subframes, one after the other; and each subframe
  begins with a delimiter that tells the length of its MPDU, which follows, and the EOF bit of a
  single MPDU, as long as the length fits in the 14 bits that are read.
\<close>

theorem psdu_octets_and_subframes:
  assumes "is \<noteq> []" "PDUs H is pdus" "\<forall>pdu \<in> set pdus. length pdu < 16384"
  shows "\<exists>P b subs. WifiPsdu_list is H = Some P \<and> psdu_GetPacket P H = Some b \<and> length b = psdu_GetSize P
    \<and> length subs = GetNMpdus P \<and> b = concat subs
    \<and> (\<forall>k < GetNMpdus P. GetAmpduSubframe k P H = Some (subs ! k)
         \<and> (\<exists>rest. ampdu_Deserialize (subs ! k) = Some (\<lparr>ap_length = of_nat (length (pdus ! k)),
                m_eof = IsSingle P, m_signature = 0x4E\<rparr>, rest)
              \<and> take (length (pdus ! k)) rest = pdus ! k))"
proof -
  let ?s = "length is = 1" and ?n = "length is"
  let ?P = "\<lparr>m_isSingle = ?s, m_mpduList = is, m_size = ampdu_octets (map length pdus)\<rparr>"
  let ?subs = "map (\<lambda>k. subframe_of ?s ?n k (pdus ! k)) [0..<?n]"
  have n: "length pdus = ?n" using assms(2) by (simp add: list_all2_lengthD)
  have P: "WifiPsdu_list is H = Some ?P" by (rule WifiPsdu_list_PDUs [OF assms(1,2)])
  have b: "psdu_GetPacket ?P H = Some (ampdu_bytes ?s pdus)"
    using psdu_GetPacket_list [OF assms(1,2), of ?P] by simp
  have c: "ampdu_bytes ?s pdus = concat ?subs" using ampdu_bytes_concat [of ?s pdus] n by simp
  have k: "GetAmpduSubframe k ?P H = Some (?subs ! k)
      \<and> (\<exists>rest. ampdu_Deserialize (?subs ! k) = Some (\<lparr>ap_length = of_nat (length (pdus ! k)),
                m_eof = IsSingle ?P, m_signature = 0x4E\<rparr>, rest)
              \<and> take (length (pdus ! k)) rest = pdus ! k)" if "k < ?n" for k
  proof
    have pdu: "GetProtocolDataUnit (is ! k) H = Some (pdus ! k)" using list_all2_nthD [OF assms(2) that] by simp
    then show "GetAmpduSubframe k ?P H = Some (?subs ! k)"
      using GetAmpduSubframe_PDU [of k ?P H "pdus ! k"] that by simp
    have "length (pdus ! k) < 16384" using assms(3) that n by simp
    from delimiter_read [OF this, of ?s] that
    show "\<exists>rest. ampdu_Deserialize (?subs ! k) = Some (\<lparr>ap_length = of_nat (length (pdus ! k)),
        m_eof = IsSingle ?P, m_signature = 0x4E\<rparr>, rest) \<and> take (length (pdus ! k)) rest = pdus ! k"
      by (auto simp: subframe_of_def IsSingle_def)
  qed
  show ?thesis
  proof (intro exI conjI)
    show "WifiPsdu_list is H = Some ?P" by (rule P)
    show "psdu_GetPacket ?P H = Some (ampdu_bytes ?s pdus)" by (rule b)
    show "ampdu_bytes ?s pdus = concat ?subs" by (rule c)
    show "length (ampdu_bytes ?s pdus) = psdu_GetSize ?P" by (simp add: length_ampdu_bytes psdu_GetSize_def)
    show "length ?subs = GetNMpdus ?P" by (simp add: GetNMpdus_def)
    show "\<forall>k < GetNMpdus ?P. GetAmpduSubframe k ?P H = Some (?subs ! k)
         \<and> (\<exists>rest. ampdu_Deserialize (?subs ! k) = Some (\<lparr>ap_length = of_nat (length (pdus ! k)),
                m_eof = IsSingle ?P, m_signature = 0x4E\<rparr>, rest)
              \<and> take (length (pdus ! k)) rest = pdus ! k)" using k by (simp add: GetNMpdus_def)
  qed
qed

text \<open>An A-MPDU of two MPDUs, the second through an alias.\<close>

theorem psdu_octets_and_subframes_witness:
  "\<exists>P b. WifiPsdu_list [0, 3] ex_heap = Some P \<and> psdu_GetPacket P ex_heap = Some b \<and> length b = psdu_GetSize P
     \<and> psdu_GetSize P = (4 + 33 + 3) + (4 + 35)
     \<and> (\<exists>rest. ampdu_Deserialize b = Some (\<lparr>ap_length = 33, m_eof = False, m_signature = 0x4E\<rparr>, rest))"
proof -
  have "GetProtocolDataUnit 0 ex_heap \<noteq> None" "GetProtocolDataUnit 3 ex_heap \<noteq> None" by code_simp+
  then obtain p q where pq: "GetProtocolDataUnit 0 ex_heap = Some p" "GetProtocolDataUnit 3 ex_heap = Some q" by auto
  have "map_option length (GetProtocolDataUnit 0 ex_heap) = Some 33"
    "map_option length (GetProtocolDataUnit 3 ex_heap) = Some 35" by code_simp+
  then have l: "length p = 33" "length q = 35" by (simp_all add: pq)
  have pd: "PDUs ex_heap [0, 3] [p, q]" by (simp add: pq)
  have small: "\<forall>pdu \<in> set [p, q]. length pdu < 16384" by (simp add: l)
  obtain P b subs where r: "WifiPsdu_list [0, 3] ex_heap = Some P" "psdu_GetPacket P ex_heap = Some b"
    "length b = psdu_GetSize P" "length subs = GetNMpdus P" "b = concat subs"
    and k: "\<forall>k < GetNMpdus P. GetAmpduSubframe k P ex_heap = Some (subs ! k)
         \<and> (\<exists>rest. ampdu_Deserialize (subs ! k) = Some (\<lparr>ap_length = of_nat (length ([p, q] ! k)),
                m_eof = IsSingle P, m_signature = 0x4E\<rparr>, rest)
              \<and> take (length ([p, q] ! k)) rest = [p, q] ! k)"
    using psdu_octets_and_subframes [OF _ pd small] by auto
  have P: "P = \<lparr>m_isSingle = False, m_mpduList = [0, 3], m_size = ampdu_octets [33, 35]\<rparr>"
    using WifiPsdu_list_PDUs [OF _ pd] r(1) l by simp
  have n: "GetNMpdus P = 2" "psdu_GetSize P = 79" "IsSingle P = False"
    by (simp_all add: P GetNMpdus_def psdu_GetSize_def IsSingle_def CalculatePadding_def)
  obtain s ss where s: "subs = s # ss" using r(4) n(1) by (cases subs) auto
  have "\<exists>rest. ampdu_Deserialize s = Some (\<lparr>ap_length = 33, m_eof = False, m_signature = 0x4E\<rparr>, rest)"
    using k n s l by force
  then have "\<exists>rest. ampdu_Deserialize b = Some (\<lparr>ap_length = 33, m_eof = False, m_signature = 0x4E\<rparr>, rest)"
    using r(5) s by (auto intro: ampdu_Deserialize_append)
  with r n show ?thesis by auto
qed

text \<open>
  Property C14: the size that \<^verbatim>\<open>WifiTxParameters\<close> announces, from which the durations of
  protection and transmission are computed, is the number of octets of the PSDU that is then created
  from the MPDUs that were added: an A-MPDU of several MPDUs, or one MPDU, which is an S-MPDU since
  802.11ac.
\<close>

theorem announced_size_is_transmitted:
  assumes "ms \<noteq> []" "\<forall>m \<in> set ms. m_addr1 (mp_hdr m) = a" "omap_get (m_info p) a = None"
    "AddMpdus ms p = Some p'" "PDUs H is pdus" "map mpdu_GetSize ms = map length pdus"
  shows "\<exists>P b. (if length is > 1 then WifiPsdu_list is H else GetWifiPsdu (hd is) (m_txVector p) H) = Some P
    \<and> psdu_GetPacket P H = Some b \<and> length b = tp_GetSize a p' \<and> psdu_GetSize P = tp_GetSize a p'"
proof -
  have len: "length ms = length is" using assms(5,6) by (metis length_map list_all2_lengthD)
  have sz: "tp_GetSize a p' = (if length is = 1 \<and> \<not> from_VHT (tv_class (m_txVector p)) then mpdu_GetSize (last ms)
       else ampdu_octets (map length pdus))"
    using psdu_size_is_ampdu_octets [OF assms(1-4)] assms(6) len by simp
  have ne: "is \<noteq> []" using len assms(1) by auto
  show ?thesis
  proof (cases "length is > 1")
    case True
    then have "WifiPsdu_list is H = Some \<lparr>m_isSingle = False, m_mpduList = is, m_size = ampdu_octets (map length pdus)\<rparr>"
      using WifiPsdu_list_PDUs [OF ne assms(5)] by simp
    moreover have "psdu_GetPacket \<lparr>m_isSingle = False, m_mpduList = is, m_size = ampdu_octets (map length pdus)\<rparr> H
        = Some (ampdu_bytes False pdus)"
      using psdu_GetPacket_list [OF ne assms(5)] True by simp
    ultimately show ?thesis using True sz by (simp add: length_ampdu_bytes psdu_GetSize_def)
  next
    case False
    then obtain i where i: "is = [i]" using ne by (cases "is") auto
    then obtain pdu where pdu: "pdus = [pdu]" "GetProtocolDataUnit i H = Some pdu"
      using assms(5) by (auto simp: list_all2_Cons1)
    then have last: "mpdu_GetSize (last ms) = length pdu" using assms(1,6) i len by (cases ms) auto
    let ?v = "from_VHT (tv_class (m_txVector p))"
    let ?P = "\<lparr>m_isSingle = ?v, m_mpduList = [i], m_size = (if ?v then length pdu + 4 else length pdu)\<rparr>"
    have P: "GetWifiPsdu i (m_txVector p) H = Some ?P"
      by (simp add: GetWifiPsdu_def WifiPsdu_mpdu_def PDU_size [OF pdu(2)])
    have b: "psdu_GetPacket ?P H = Some (if ?v then delimiter True pdu @ pdu else pdu)"
    proof (cases ?v)
      case True
      then show ?thesis using ampdu_Aggregate_PDU [OF pdu(2), of True "[]"] by (simp add: psdu_GetPacket_def mpdu_at_def)
    next
      case False
      with pdu(2) show ?thesis by (elim PDU_access) (simp add: psdu_GetPacket_def mpdu_at_def)
    qed
    from i P b sz last pdu(1) show ?thesis by (simp add: psdu_GetSize_def)
  qed
qed

theorem announced_size_is_transmitted_witness:
  "\<exists>p' P b. AddMpdus [ex_msdu 7 3, (ex_msdu 9 5)\<lparr>mp_queued := False\<rparr>] WifiTxParameters = Some p'
     \<and> WifiPsdu_list [0, 3] ex_heap = Some P \<and> psdu_GetPacket P ex_heap = Some b \<and> length b = tp_GetSize 1 p'
     \<and> tp_GetSize 1 p' = 79"
proof -
  let ?ms = "[ex_msdu 7 3, (ex_msdu 9 5)\<lparr>mp_queued := False\<rparr>]"
  have "GetProtocolDataUnit 0 ex_heap \<noteq> None" "GetProtocolDataUnit 3 ex_heap \<noteq> None" by code_simp+
  then obtain p q where pq: "GetProtocolDataUnit 0 ex_heap = Some p" "GetProtocolDataUnit 3 ex_heap = Some q" by auto
  have "map_option length (GetProtocolDataUnit 0 ex_heap) = Some 33"
    "map_option length (GetProtocolDataUnit 3 ex_heap) = Some 35" by code_simp+
  then have l: "length p = 33" "length q = 35" by (simp_all add: pq)
  have pd: "PDUs ex_heap [0, 3] [p, q]" by (simp add: pq)
  have c: "IsQosData (ex_data_hdr n)" "m_addr1 (ex_data_hdr n) = 1" "HasData (ex_data_hdr n) = Some True"
    "hdr_GetSize (ex_data_hdr n) = 26" for n
    by (simp_all add: IsQosData_def ex_data_hdr_def WifiMacHeader_def SetType_def type_codes_def mac_hdr_default_def
        SetDsTo_def SetAddr1_def SetAddr2_def SetAddr3_def type_defs HasData_def type_in_def GetType_def data_types_def
        hdr_GetSize_def)
  obtain p' where p': "AddMpdus ?ms WifiTxParameters = Some p'"
    by (simp add: AddMpdu_def WifiTxParameters_def Let_def ex_msdu_def c)
  have sz: "map mpdu_GetSize ?ms = map length [p, q]"
    by (simp add: l mpdu_GetSize_def ex_msdu_def c)
  obtain P b where "WifiPsdu_list [0, 3] ex_heap = Some P" "psdu_GetPacket P ex_heap = Some b"
    "length b = tp_GetSize 1 p'" "psdu_GetSize P = tp_GetSize 1 p'"
    using announced_size_is_transmitted [OF _ _ _ p' pd sz, of 1]
    by (auto simp: ex_msdu_def c WifiTxParameters_def)
  moreover from this(1) have "P = \<lparr>m_isSingle = False, m_mpduList = [0, 3], m_size = ampdu_octets [33, 35]\<rparr>"
    using WifiPsdu_list_PDUs [OF _ pd] l by simp
  then have "psdu_GetSize P = 79" by (simp add: psdu_GetSize_def CalculatePadding_def)
  ultimately show ?thesis using p' by auto
qed

section \<open>Acknowledgment policy\<close>

lemma GetHeader_set_header:
  assumes "i < length H"
  shows "\<exists>H'. set_header i f H = Some H' \<and> length H' = length H
    \<and> (\<forall>j. GetHeader j H' = (if j = i then map_option f (GetHeader j H) else GetHeader j H))"
  using assms by (simp add: set_header_def deref_def GetHeader_def nth_list_update)

lemma each_set_header:
  assumes "\<forall>i \<in> set is. i < length H" "\<And>h. f (f h) = f h"
  shows "\<exists>H'. each_mpdu (\<lambda>i. set_header i f) is H = Some H' \<and> length H' = length H
    \<and> (\<forall>j. GetHeader j H' = (if j \<in> set is then map_option f (GetHeader j H) else GetHeader j H))"
  using assms(1)
proof (induction "is" arbitrary: H)
  case (Cons i "is")
  obtain H1 where H1: "set_header i f H = Some H1" "length H1 = length H"
    "\<forall>j. GetHeader j H1 = (if j = i then map_option f (GetHeader j H) else GetHeader j H)"
    using GetHeader_set_header [of i H f] Cons.prems by auto
  obtain H2 where H2: "each_mpdu (\<lambda>i. set_header i f) is H1 = Some H2" "length H2 = length H1"
    "\<forall>j. GetHeader j H2 = (if j \<in> set is then map_option f (GetHeader j H1) else GetHeader j H1)"
    using Cons.IH [of H1] Cons.prems H1(2) by auto
  have "GetHeader j H2 = (if j \<in> set (i # is) then map_option f (GetHeader j H) else GetHeader j H)" for j
    using H1(3) H2(3) assms(2) by (cases "GetHeader j H") auto
  with H1 H2 show ?case by simp
qed simp

lemma SetQosAckPolicy_fields [simp]:
  "IsQosData (SetQosAckPolicy policy h) = IsQosData h" "m_qosTid (SetQosAckPolicy policy h) = m_qosTid h"
  "IsQosData h \<Longrightarrow> GetQosAckPolicy (SetQosAckPolicy policy h) = Some policy"
  "SetQosAckPolicy policy (SetQosAckPolicy policy h) = SetQosAckPolicy policy h"
  by (cases policy; simp add: IsQosData_def GetQosAckPolicy_def)+

text \<open>What the two loops of \<^verbatim>\<open>GetAckPolicyForTid\<close> need of the headers.\<close>

lemma policy_found:
  assumes "\<forall>i \<in> set is. \<exists>h. GetHeader i H = Some h \<and> (qos_of_tid tid h \<longrightarrow> GetQosAckPolicy h = Some policy)"
  shows "check_policy tid policy is H = Some ()"
    "(\<exists>i \<in> set is. \<exists>h. GetHeader i H = Some h \<and> qos_of_tid tid h) \<Longrightarrow>
       \<exists>rest. find_policy tid is H = Some (policy, rest)"
  using assms by (induction "is") (auto, blast+)

lemma policy_cong:
  assumes "\<forall>i \<in> set is. \<exists>h h'. GetHeader i H = Some h \<and> GetHeader i H' = Some h'
     \<and> qos_of_tid tid h' = qos_of_tid tid h \<and> (qos_of_tid tid h \<longrightarrow> h' = h)"
  shows "find_policy tid is H' = find_policy tid is H" "check_policy tid policy is H' = check_policy tid policy is H"
  using assms by (induction "is") (auto cong: if_cong)

lemma set_find_policy: "find_policy tid is H = Some (policy, rest) \<Longrightarrow> set rest \<subseteq> set is"
  by (induction "is") (auto elim!: bind_SomeE split: if_splits)

text \<open>
  Setting the acknowledgment policy of a TID succeeds on every PSDU whose MPDUs
  exist; a frame of that TID then makes \<^verbatim>\<open>GetAckPolicyForTid\<close> answer this policy without
  finding the MPDUs in conflict, whatever they had before, and the answer for any other TID, or
  its failure, is what it was.
\<close>

theorem ack_policy_set_get:
  assumes "\<forall>i \<in> set (m_mpduList P). i < length H"
  shows "\<exists>H'. SetAckPolicyForTid tid policy P H = Some H'
    \<and> ((\<exists>i \<in> set (m_mpduList P). \<exists>h. GetHeader i H = Some h \<and> qos_of_tid tid h)
         \<longrightarrow> GetAckPolicyForTid tid P H' = Some policy)
    \<and> (\<forall>tid'. tid' \<noteq> tid \<longrightarrow> GetAckPolicyForTid tid' P H' = GetAckPolicyForTid tid' P H)"
proof -
  let ?f = "\<lambda>h. if qos_of_tid tid h then SetQosAckPolicy policy h else h" and ?is = "m_mpduList P"
  have "?f (?f h) = ?f h" for h by (simp add: qos_of_tid_def)
  from each_set_header [OF assms, of ?f, OF this] obtain H' where
    H': "SetAckPolicyForTid tid policy P H = Some H'"
    "\<forall>j. GetHeader j H' = (if j \<in> set ?is then map_option ?f (GetHeader j H) else GetHeader j H)"
    unfolding SetAckPolicyForTid_def by auto
  have there: "\<forall>i \<in> set ?is. \<exists>h. GetHeader i H = Some h" using assms by (simp add: GetHeader_def deref_def)
  have new: "\<forall>i \<in> set ?is. \<exists>h. GetHeader i H' = Some h \<and> (qos_of_tid tid h \<longrightarrow> GetQosAckPolicy h = Some policy)"
    using H'(2) there by (fastforce simp: qos_of_tid_def)
  have get: "GetAckPolicyForTid tid P H' = Some policy"
    if ex: "\<exists>i \<in> set ?is. \<exists>h. GetHeader i H = Some h \<and> qos_of_tid tid h"
  proof -
    have "\<exists>i \<in> set ?is. \<exists>h. GetHeader i H' = Some h \<and> qos_of_tid tid h"
      using ex H'(2) by (fastforce simp: qos_of_tid_def)
    from policy_found(2) [OF new this] obtain rest where
      r: "find_policy tid ?is H' = Some (policy, rest)" by blast
    have "check_policy tid policy rest H' = Some ()"
      by (rule policy_found(1)) (use new set_find_policy [OF r] in blast)
    with r show ?thesis by (simp add: GetAckPolicyForTid_def)
  qed
  have other: "GetAckPolicyForTid tid' P H' = GetAckPolicyForTid tid' P H" if t: "tid' \<noteq> tid" for tid'
  proof -
    have c: "\<forall>i \<in> set ?is. \<exists>h h'. GetHeader i H = Some h \<and> GetHeader i H' = Some h'
       \<and> qos_of_tid tid' h' = qos_of_tid tid' h \<and> (qos_of_tid tid' h \<longrightarrow> h' = h)"
      using H'(2) there t by (fastforce simp: qos_of_tid_def)
    have "check_policy tid' pol rest H' = check_policy tid' pol rest H"
      if "find_policy tid' ?is H = Some (pol, rest)" for pol rest
      by (rule policy_cong(2)) (use c set_find_policy [OF that] in blast)
    then show ?thesis
      unfolding GetAckPolicyForTid_def policy_cong(1) [OF c] by (cases "find_policy tid' ?is H") auto
  qed
  from H'(1) get other show ?thesis by blast
qed

theorem ack_policy_set_get_witness:
  "\<exists>H'. SetAckPolicyForTid 0 BLOCK_ACK \<lparr>m_isSingle = False, m_mpduList = [0, 3], m_size = 79\<rparr> ex_heap = Some H'
     \<and> GetAckPolicyForTid 0 \<lparr>m_isSingle = False, m_mpduList = [0, 3], m_size = 79\<rparr> H' = Some BLOCK_ACK"
proof -
  let ?P = "\<lparr>m_isSingle = False, m_mpduList = [0, 3], m_size = 79\<rparr>"
  have b: "\<forall>i \<in> set (m_mpduList ?P). i < length ex_heap" by (simp add: ex_heap_def)
  have "GetHeader 0 ex_heap = Some (ex_data_hdr 7)" by (simp add: GetHeader_def deref_def ex_heap_def)
  moreover have "qos_of_tid 0 (ex_data_hdr 7)" by code_simp
  ultimately have "\<exists>i \<in> set (m_mpduList ?P). \<exists>h. GetHeader i ex_heap = Some h \<and> qos_of_tid 0 h" by auto
  with ack_policy_set_get [OF b, of 0 BLOCK_ACK] show ?thesis by blast
qed

end
