(* ===== verification/Ht_Limits.thy ===== *)
theory Ht_Limits
  imports Frame_Durations Qos_Utils
begin

text \<open>
  Which aggregates are allowed: the maximum lengths that a receiver advertises
  (\<^verbatim>\<open>ht-capabilities.cc\<close>, \<^verbatim>\<open>vht-capabilities.cc\<close>, \<^verbatim>\<open>he-capabilities.cc\<close>,
  \<^verbatim>\<open>he-6ghz-band-capabilities.cc\<close>, \<^verbatim>\<open>eht-capabilities.cc\<close>), the maximum sizes that
  the aggregators derive from them (\<^verbatim>\<open>GetMaxAmsduSize\<close>, \<^verbatim>\<open>GetMaxAmpduSize\<close>), and the
  decisions of \<^verbatim>\<open>ht-frame-exchange-manager.cc\<close> whether one more MPDU or MSDU fits.
\<close>

section \<open>Maximum lengths in the capabilities\<close>

record ht_caps =
  m_maxAmsduLength :: u8
  ht_maxAmpduLengthExponent :: u8

record vht_caps =
  vht_maxMpduLength :: u8
  vht_maxAmpduLengthExponent :: u8

record he_caps =
  he_maxAmpduLengthExponent :: u8

record he6_caps =
  he6_maxMpduLength :: u8
  he6_maxAmpduLengthExponent :: u8

record eht_caps =
  eht_maxMpduLength :: u8
  eht_maxAmpduLengthExponentExtension :: u8

text \<open>
  \<^verbatim>\<open>(1UL << n) - 1\<close> as a 32-bit number; the exponents that are set or received have three bits
  at most.
\<close>

definition exponent_length :: "nat \<Rightarrow> u8 \<Rightarrow> nat" where
  "exponent_length k e = (2 ^ (k + unat e) - 1) mod 2 ^ 32"

text \<open>The loops that look for the exponent of a length.\<close>

definition length_exponent :: "nat \<Rightarrow> nat \<Rightarrow> nat \<Rightarrow> u8 option" where
  "length_exponent k n maxAmpduLength =
     map_option of_nat (List.find (\<lambda>i. 2 ^ (k + i) - 1 = maxAmpduLength) [0..<Suc n])"

definition ht_SetMaxAmsduLength :: "nat \<Rightarrow> ht_caps \<Rightarrow> ht_caps option" where
  "ht_SetMaxAmsduLength l c =
     do { ns_assert (l = 3839 \<or> l = 7935); Some (c\<lparr>m_maxAmsduLength := (if l = 3839 then 0 else 1)\<rparr>) }"

definition ht_SetMaxAmpduLength :: "nat \<Rightarrow> ht_caps \<Rightarrow> ht_caps option" where
  "ht_SetMaxAmpduLength l c = map_option (\<lambda>e. c\<lparr>ht_maxAmpduLengthExponent := e\<rparr>) (length_exponent 13 3 l)"

definition ht_GetMaxAmsduLength :: "ht_caps \<Rightarrow> nat" where
  "ht_GetMaxAmsduLength c = (if m_maxAmsduLength c = 0 then 3839 else 7935)"

definition ht_GetMaxAmpduLength :: "ht_caps \<Rightarrow> nat" where
  "ht_GetMaxAmpduLength c = exponent_length 13 (ht_maxAmpduLengthExponent c)"

text \<open>Three elements encode the maximum MPDU length in the same way.\<close>

definition mpdu_length_code :: "nat \<Rightarrow> u8 option" where
  "mpdu_length_code l =
     do { ns_assert (l = 3895 \<or> l = 7991 \<or> l = 11454);
          Some (if l = 11454 then 2 else if l = 7991 then 1 else 0) }"

definition mpdu_length_of_code :: "u8 \<Rightarrow> nat option" where
  "mpdu_length_of_code c =
     (if c = 0 then Some 3895 else if c = 1 then Some 7991 else if c = 2 then Some 11454 else None)"

definition vht_SetMaxMpduLength :: "nat \<Rightarrow> vht_caps \<Rightarrow> vht_caps option" where
  "vht_SetMaxMpduLength l c = map_option (\<lambda>x. c\<lparr>vht_maxMpduLength := x\<rparr>) (mpdu_length_code l)"

definition vht_GetMaxMpduLength :: "vht_caps \<Rightarrow> nat option" where
  "vht_GetMaxMpduLength c = mpdu_length_of_code (vht_maxMpduLength c)"

definition vht_SetMaxAmpduLength :: "nat \<Rightarrow> vht_caps \<Rightarrow> vht_caps option" where
  "vht_SetMaxAmpduLength l c = map_option (\<lambda>e. c\<lparr>vht_maxAmpduLengthExponent := e\<rparr>) (length_exponent 13 7 l)"

definition vht_GetMaxAmpduLength :: "vht_caps \<Rightarrow> nat" where
  "vht_GetMaxAmpduLength c = exponent_length 13 (vht_maxAmpduLengthExponent c)"

definition he_SetMaxAmpduLength :: "nat \<Rightarrow> he_caps \<Rightarrow> he_caps option" where
  "he_SetMaxAmpduLength l c = map_option (\<lambda>e. c\<lparr>he_maxAmpduLengthExponent := e\<rparr>) (length_exponent 20 3 l)"

definition he_GetMaxAmpduLength :: "he_caps \<Rightarrow> nat" where
  "he_GetMaxAmpduLength c = min (exponent_length 20 (he_maxAmpduLengthExponent c)) 6500631"

definition he6_SetMaxMpduLength :: "nat \<Rightarrow> he6_caps \<Rightarrow> he6_caps option" where
  "he6_SetMaxMpduLength l c = map_option (\<lambda>x. c\<lparr>he6_maxMpduLength := x\<rparr>) (mpdu_length_code l)"

definition he6_GetMaxMpduLength :: "he6_caps \<Rightarrow> nat option" where
  "he6_GetMaxMpduLength c = mpdu_length_of_code (he6_maxMpduLength c)"

definition he6_SetMaxAmpduLength :: "nat \<Rightarrow> he6_caps \<Rightarrow> he6_caps option" where
  "he6_SetMaxAmpduLength l c = map_option (\<lambda>e. c\<lparr>he6_maxAmpduLengthExponent := e\<rparr>) (length_exponent 13 7 l)"

definition he6_GetMaxAmpduLength :: "he6_caps \<Rightarrow> nat" where
  "he6_GetMaxAmpduLength c = exponent_length 13 (he6_maxAmpduLengthExponent c)"

definition eht_SetMaxMpduLength :: "nat \<Rightarrow> eht_caps \<Rightarrow> eht_caps option" where
  "eht_SetMaxMpduLength l c = map_option (\<lambda>x. c\<lparr>eht_maxMpduLength := x\<rparr>) (mpdu_length_code l)"

definition eht_GetMaxMpduLength :: "eht_caps \<Rightarrow> nat option" where
  "eht_GetMaxMpduLength c = mpdu_length_of_code (eht_maxMpduLength c)"

definition eht_SetMaxAmpduLength :: "nat \<Rightarrow> eht_caps \<Rightarrow> eht_caps option" where
  "eht_SetMaxAmpduLength l c =
     map_option (\<lambda>e. c\<lparr>eht_maxAmpduLengthExponentExtension := e\<rparr>) (length_exponent 23 1 l)"

definition eht_GetMaxAmpduLength :: "eht_caps \<Rightarrow> nat" where
  "eht_GetMaxAmpduLength c = min (exponent_length 23 (eht_maxAmpduLengthExponentExtension c)) 15523200"

section \<open>Maximum sizes of aggregates\<close>

text \<open>
  What the aggregators ask: the sizes configured for each access category (\<^verbatim>\<open>WifiMac\<close>), the band
  and standard of the PHY, the capabilities that the remote station manager has stored for a station,
  and on an AP with a GCR manager the individual address that stands for a group.
\<close>

record agg_env =
  m_maxAmsduSize :: "ac_index \<Rightarrow> nat"
  m_maxAmpduSize :: "ac_index \<Rightarrow> nat"
  g_band24 :: bool
  g_band6 :: bool
  g_before11be :: bool
  g_ht :: "mac48 \<Rightarrow> ht_caps option"
  g_vht :: "mac48 \<Rightarrow> vht_caps option"
  g_he :: "mac48 \<Rightarrow> he_caps option"
  g_he6 :: "mac48 \<Rightarrow> he6_caps option"
  g_eht :: "mac48 \<Rightarrow> eht_caps option"
  g_gcrManager :: "(mac48 \<Rightarrow> mac48) option"

definition mac_GetMaxSize :: "(ac_index \<Rightarrow> nat) \<Rightarrow> ac_index \<Rightarrow> nat option" where
  "mac_GetMaxSize sizes ac = do { ns_assert (ac \<in> {AC_BE, AC_BK, AC_VI, AC_VO}); Some (sizes ac) }"

definition max_mpdu_size :: "agg_env \<Rightarrow> mac48 \<Rightarrow> nat option" where
  "max_mpdu_size g recipient =
     (case (g_eht g recipient, g_he6 g recipient, g_vht g recipient) of
        (eht, he6, vht) \<Rightarrow>
          if eht \<noteq> None \<and> g_band24 g then eht \<bind> eht_GetMaxMpduLength
          else if he6 \<noteq> None \<and> g_band6 g then he6 \<bind> he6_GetMaxMpduLength
          else if vht \<noteq> None \<and> \<not> g_band24 g then vht \<bind> vht_GetMaxMpduLength
          else Some 0)"

definition limit_by_mpdu :: "nat \<Rightarrow> nat \<Rightarrow> nat option" where
  "limit_by_mpdu maxMpduSize maxAmsduSize =
     do { ns_assert (maxMpduSize \<noteq> 0); Some (min maxAmsduSize (maxMpduSize - 56)) }"

text \<open>The classes from 802.11n on, in the order of the enumeration.\<close>

definition from_HT :: "mod_class \<Rightarrow> bool" where
  "from_HT c \<longleftrightarrow> c = WIFI_MOD_CLASS_HT \<or> from_VHT c"

definition GetMaxAmsduSize :: "agg_env \<Rightarrow> mac48 \<Rightarrow> nat \<Rightarrow> mod_class \<Rightarrow> nat option" where
  "GetMaxAmsduSize g recipient tid modulation =
     do { ac \<leftarrow> QosUtilsMapTidToAc tid;
          maxAmsduSize \<leftarrow> mac_GetMaxSize (m_maxAmsduSize g) ac;
          (if maxAmsduSize = 0 then Some 0
           else do {
             maxMpduSize \<leftarrow> max_mpdu_size g recipient;
             (if g_ht g recipient = None \<and> g_he6 g recipient = None then Some 0
              else if modulation = WIFI_MOD_CLASS_EHT then limit_by_mpdu maxMpduSize maxAmsduSize
              else if modulation = WIFI_MOD_CLASS_HE
              then (if g_before11be g \<and> g_band24 g
                    then do { ht \<leftarrow> g_ht g recipient; Some (min maxAmsduSize (ht_GetMaxAmsduLength ht)) }
                    else limit_by_mpdu maxMpduSize maxAmsduSize)
              else if modulation = WIFI_MOD_CLASS_VHT then limit_by_mpdu maxMpduSize maxAmsduSize
              else if from_HT modulation
              then do { ht \<leftarrow> g_ht g recipient; Some (min maxAmsduSize (ht_GetMaxAmsduLength ht)) }
              else Some (min maxAmsduSize 3839)) }) }"

definition GetMaxAmpduSize :: "agg_env \<Rightarrow> mac48 \<Rightarrow> nat \<Rightarrow> mod_class \<Rightarrow> nat option" where
  "GetMaxAmpduSize g receiver tid modulation =
     (let recipient = (case g_gcrManager g of
                         Some individual \<Rightarrow>
                           if mac_IsGroup receiver \<and> receiver \<noteq> mac_broadcast then individual receiver else receiver
                       | None \<Rightarrow> receiver)
      in do { ac \<leftarrow> QosUtilsMapTidToAc tid;
              maxAmpduSize \<leftarrow> mac_GetMaxSize (m_maxAmpduSize g) ac;
              (if maxAmpduSize = 0 then Some 0
               else if modulation = WIFI_MOD_CLASS_EHT
               then do { eht \<leftarrow> g_eht g recipient; Some (min maxAmpduSize (eht_GetMaxAmpduLength eht)) }
               else if modulation = WIFI_MOD_CLASS_HE
               then do { he \<leftarrow> g_he g recipient;
                         let size = min maxAmpduSize (he_GetMaxAmpduLength he);
                         Some (case g_he6 g recipient of None \<Rightarrow> size
                               | Some he6 \<Rightarrow> min size (he6_GetMaxAmpduLength he6)) }
               else if modulation = WIFI_MOD_CLASS_VHT
               then do { vht \<leftarrow> g_vht g recipient; Some (min maxAmpduSize (vht_GetMaxAmpduLength vht)) }
               else if modulation = WIFI_MOD_CLASS_HT
               then do { ht \<leftarrow> g_ht g recipient; Some (min maxAmpduSize (ht_GetMaxAmpduLength ht)) }
               else Some 0) })"

section \<open>Decisions of the HT manager\<close>

definition IsWithinAmpduSizeLimit :: "agg_env \<Rightarrow> nat \<Rightarrow> mac48 \<Rightarrow> nat \<Rightarrow> mod_class \<Rightarrow> bool option" where
  "IsWithinAmpduSizeLimit g ampduSize receiver tid modulation =
     do { maxAmpduSize \<leftarrow> GetMaxAmpduSize g receiver tid modulation;
          Some (if maxAmpduSize = 0 then False else if ampduSize > maxAmpduSize then False else True) }"

text \<open>The first TID of a \<^verbatim>\<open>std::map\<close>.\<close>

definition first_tid :: "(u8 \<rightharpoonup> u16 set) \<Rightarrow> u8 option" where
  "first_tid m = List.find (\<lambda>t. m t \<noteq> None) (map of_nat [0..<256])"

definition ht_IsWithinLimitsIfAddMpdu ::
  "agg_env \<Rightarrow> fem_env \<Rightarrow> mpdu \<Rightarrow> tx_params \<Rightarrow> time \<Rightarrow> bool option" where
  "ht_IsWithinLimitsIfAddMpdu g v mpdu p ppduDurationLimit =
     (let receiver = m_addr1 (mp_hdr mpdu); ampduSize = tp_GetSize receiver p
      in do { first \<leftarrow> LastAddedIsFirstMpdu receiver p;
              ok \<leftarrow> (if first then Some True
                     else do {
                       tid \<leftarrow> (if IsQosData (mp_hdr mpdu) then Some (m_qosTid (mp_hdr mpdu))
                              else omap_get (m_info p) receiver \<bind> (\<lambda>info. first_tid (pi_seqNumbers info)));
                       IsWithinAmpduSizeLimit g ampduSize receiver (unat tid) (tv_class (m_txVector p)) });
              (if ok then IsWithinSizeAndTimeLimits v ampduSize p ppduDurationLimit else Some False) })"

definition IsWithinLimitsIfAggregateMsdu ::
  "agg_env \<Rightarrow> fem_env \<Rightarrow> mpdu \<Rightarrow> tx_params \<Rightarrow> time \<Rightarrow> bool option" where
  "IsWithinLimitsIfAggregateMsdu g v msdu p ppduDurationLimit =
     (let receiver = m_addr1 (mp_hdr msdu); modulation = tv_class (m_txVector p)
      in do { ns_assert (IsQosData (mp_hdr msdu));
              let tid = unat (m_qosTid (mp_hdr msdu));
              info \<leftarrow> omap_get (m_info p) receiver;
              maxAmsduSize \<leftarrow> GetMaxAmsduSize g receiver tid modulation;
              (if maxAmsduSize = 0 then Some False
               else if pi_amsduSize info > maxAmsduSize then Some False
               else do {
                 ok \<leftarrow> (if pi_ampduSize info > 0
                        then IsWithinAmpduSizeLimit g (tp_GetSize receiver p) receiver tid modulation
                        else Some True);
                 (if ok then IsWithinSizeAndTimeLimits v (tp_GetSize receiver p) p ppduDurationLimit
                  else Some False) }) })"

text \<open>
  \<^verbatim>\<open>TryAddMpdu\<close> is the method of the QoS manager with the limits of the HT manager;
  \<^verbatim>\<open>TryAggregateMsdu\<close> asks the protection and acknowledgment managers in the same way: the
  environment \<open>v\<close> holds their answers to it.
\<close>

definition exchange_limit :: "tx_params \<Rightarrow> time \<Rightarrow> time option" where
  "exchange_limit p availableTime =
     do { protectionTime \<leftarrow> m_protection p \<bind> pr_time;
          acknowledgmentTime \<leftarrow> m_acknowledgment p \<bind> ak_time;
          Some (if availableTime \<noteq> TimeMin then availableTime - protectionTime - acknowledgmentTime else TimeMin) }"

definition accept_or_undo :: "tx_params \<Rightarrow> tx_params \<Rightarrow> bool \<Rightarrow> (tx_params \<times> bool) option" where
  "accept_or_undo p0 p within =
     (if within then Some (p, True)
      else do { p \<leftarrow> UndoAddMpdu p;
                Some (p\<lparr>m_txDuration := m_txDuration p0, m_protection := m_protection p0,
                        m_acknowledgment := m_acknowledgment p0\<rparr>, False) })"

definition changed_methods :: "fem_env \<Rightarrow> station \<Rightarrow> mpdu \<Rightarrow> tx_params \<Rightarrow> tx_params option" where
  "changed_methods v s mpdu p =
     do { p \<leftarrow> changed_protection v s mpdu (UpdateTxDuration v (m_addr1 (mp_hdr mpdu)) p);
          ns_assert (m_protection p \<bind> pr_time \<noteq> None);
          changed_acknowledgment v s mpdu p }"

definition ht_TryAddMpdu ::
  "agg_env \<Rightarrow> fem_env \<Rightarrow> station \<Rightarrow> mpdu \<Rightarrow> tx_params \<Rightarrow> time \<Rightarrow> (tx_params \<times> bool) option" where
  "ht_TryAddMpdu g v s mpdu p0 availableTime =
     do { p \<leftarrow> AddMpdu mpdu p0;
          p \<leftarrow> changed_methods v s mpdu p;
          limit \<leftarrow> exchange_limit p availableTime;
          within \<leftarrow> ht_IsWithinLimitsIfAddMpdu g v mpdu p limit;
          accept_or_undo p0 p within }"

definition TryAggregateMsdu ::
  "agg_env \<Rightarrow> fem_env \<Rightarrow> station \<Rightarrow> mpdu \<Rightarrow> tx_params \<Rightarrow> time \<Rightarrow> (tx_params \<times> bool) option" where
  "TryAggregateMsdu g v s msdu p0 availableTime =
     do { ns_assert (IsQosData (mp_hdr msdu));
          p \<leftarrow> AggregateMsdu msdu p0;
          ns_assert (m_protection p \<noteq> None \<and> m_acknowledgment p \<noteq> None);
          p \<leftarrow> changed_methods v s msdu p;
          limit \<leftarrow> exchange_limit p availableTime;
          within \<leftarrow> IsWithinLimitsIfAggregateMsdu g v msdu p limit;
          accept_or_undo p0 p within }"

end
