(* ===== verification/Ht_Limits_Props.thy ===== *)
theory Ht_Limits_Props
  imports Ht_Limits
begin

text \<open>
  What the limits of \<open>Ht_Limits\<close> guarantee: an aggregate that is accepted respects what its
  receiver advertised, and one that is not accepted leaves no trace.
\<close>

section \<open>Maximum sizes\<close>

lemma mpdu_length_of_code_bounds: "mpdu_length_of_code c = Some l \<Longrightarrow> 3895 \<le> l \<and> l \<le> 11454"
  by (auto simp: mpdu_length_of_code_def split: if_splits)

lemma max_mpdu_size_bounds: "max_mpdu_size g r = Some l \<Longrightarrow> l \<noteq> 0 \<Longrightarrow> 3895 \<le> l \<and> l \<le> 11454"
  by (auto simp: max_mpdu_size_def eht_GetMaxMpduLength_def he6_GetMaxMpduLength_def vht_GetMaxMpduLength_def
      split: if_splits dest: mpdu_length_of_code_bounds)

text \<open>
  What a receiver accepts, read off the fields of the elements it sent.  The maximum MPDU length is
  the one of the EHT element in the 2.4 GHz band, of the HE 6 GHz band element in that band, and of the
  VHT element otherwise; 56 octets are set aside for the MAC header and the FCS.
\<close>

definition advertised_mpdu_length :: "agg_env \<Rightarrow> mac48 \<Rightarrow> u8 option" where
  "advertised_mpdu_length g r =
     (if g_band24 g \<and> g_eht g r \<noteq> None then map_option eht_maxMpduLength (g_eht g r)
      else if g_band6 g \<and> g_he6 g r \<noteq> None then map_option he6_maxMpduLength (g_he6 g r)
      else if \<not> g_band24 g then map_option vht_maxMpduLength (g_vht g r) else None)"

definition fits_mpdu_length :: "agg_env \<Rightarrow> mac48 \<Rightarrow> nat \<Rightarrow> bool" where
  "fits_mpdu_length g r n \<longleftrightarrow>
     (case advertised_mpdu_length g r of
        Some c \<Rightarrow> n \<le> (if c = 0 then 3895 else if c = 1 then 7991 else 11454) | None \<Rightarrow> False)"

definition fits_ht_amsdu :: "agg_env \<Rightarrow> mac48 \<Rightarrow> nat \<Rightarrow> bool" where
  "fits_ht_amsdu g r n \<longleftrightarrow> (\<exists>c. g_ht g r = Some c \<and> n \<le> (if m_maxAmsduLength c = 0 then 3839 else 7935))"

definition amsdu_allowed :: "agg_env \<Rightarrow> mac48 \<Rightarrow> mod_class \<Rightarrow> nat \<Rightarrow> bool" where
  "amsdu_allowed g r modulation n \<longleftrightarrow>
     (g_ht g r \<noteq> None \<or> g_he6 g r \<noteq> None)
     \<and> (if modulation \<in> {WIFI_MOD_CLASS_EHT, WIFI_MOD_CLASS_VHT} then fits_mpdu_length g r (n + 56)
        else if modulation = WIFI_MOD_CLASS_HE
        then (if g_before11be g \<and> g_band24 g then fits_ht_amsdu g r n else fits_mpdu_length g r (n + 56))
        else if from_HT modulation then fits_ht_amsdu g r n
        else n \<le> 3839)"

text \<open>
  The maximum A-MPDU length; there is no A-MPDU in the formats before 802.11n.  A group addressed
  A-MPDU of a GCR manager respects the station that stands for the group.
\<close>

definition ampdu_allowed :: "agg_env \<Rightarrow> mac48 \<Rightarrow> mod_class \<Rightarrow> nat \<Rightarrow> bool" where
  "ampdu_allowed g r modulation n \<longleftrightarrow>
     (if modulation = WIFI_MOD_CLASS_EHT
      then \<exists>c. g_eht g r = Some c \<and> n \<le> 2 ^ (23 + unat (eht_maxAmpduLengthExponentExtension c)) - 1 \<and> n \<le> 15523200
      else if modulation = WIFI_MOD_CLASS_HE
      then (\<exists>c. g_he g r = Some c \<and> n \<le> 2 ^ (20 + unat (he_maxAmpduLengthExponent c)) - 1 \<and> n \<le> 6500631)
           \<and> (\<forall>c. g_he6 g r = Some c \<longrightarrow> n \<le> 2 ^ (13 + unat (he6_maxAmpduLengthExponent c)) - 1)
      else if modulation = WIFI_MOD_CLASS_VHT
      then \<exists>c. g_vht g r = Some c \<and> n \<le> 2 ^ (13 + unat (vht_maxAmpduLengthExponent c)) - 1
      else modulation = WIFI_MOD_CLASS_HT
           \<and> (\<exists>c. g_ht g r = Some c \<and> n \<le> 2 ^ (13 + unat (ht_maxAmpduLengthExponent c)) - 1))"

definition ampdu_recipient :: "agg_env \<Rightarrow> mac48 \<Rightarrow> mac48" where
  "ampdu_recipient g a =
     (case g_gcrManager g of
        Some individual \<Rightarrow> if mac_IsGroup a \<and> a \<noteq> mac_broadcast then individual a else a
      | None \<Rightarrow> a)"

lemma exponent_length_le: "n \<le> exponent_length k e \<Longrightarrow> n \<le> 2 ^ (k + unat e) - 1"
  unfolding exponent_length_def by (erule order_trans) (rule mod_less_eq_dividend)

lemma fits_mpdu_length_iff:
  assumes "max_mpdu_size g r = Some l" "l \<noteq> 0" "n \<le> l"
  shows "fits_mpdu_length g r n"
  using assms
  by (auto simp: fits_mpdu_length_def advertised_mpdu_length_def max_mpdu_size_def eht_GetMaxMpduLength_def
      he6_GetMaxMpduLength_def vht_GetMaxMpduLength_def mpdu_length_of_code_def split: if_splits)

lemma limit_by_mpduD:
  assumes "limit_by_mpdu l m = Some n" "max_mpdu_size g r = Some l"
  shows "n \<le> m" "n + 56 \<le> l" "l \<le> 11454"
  using assms max_mpdu_size_bounds [OF assms(2)] by (auto simp: limit_by_mpdu_def)

lemma limit_by_mpdu_allowed:
  assumes "limit_by_mpdu l m = Some n" "max_mpdu_size g r = Some l"
  shows "fits_mpdu_length g r (n + 56)" "n \<le> m"
proof -
  have "l \<noteq> 0" using assms(1) by (auto simp: limit_by_mpdu_def)
  then show "fits_mpdu_length g r (n + 56)"
    using fits_mpdu_length_iff [OF assms(2)] limit_by_mpduD(2) [OF assms] by blast
qed (rule limit_by_mpduD(1) [OF assms])

lemma GetMaxAmsduSize_cases:
  assumes "GetMaxAmsduSize g r tid modulation = Some n" "n > 0"
  obtains ac where "QosUtilsMapTidToAc tid = Some ac" "n \<le> m_maxAmsduSize g ac" "amsdu_allowed g r modulation n"
proof -
  obtain ac l where ac: "QosUtilsMapTidToAc tid = Some ac" "m_maxAmsduSize g ac \<noteq> 0" "max_mpdu_size g r = Some l"
    "\<not> (g_ht g r = None \<and> g_he6 g r = None)"
    and r: "(if modulation = WIFI_MOD_CLASS_EHT then limit_by_mpdu l (m_maxAmsduSize g ac)
              else if modulation = WIFI_MOD_CLASS_HE
              then (if g_before11be g \<and> g_band24 g
                    then do { ht \<leftarrow> g_ht g r; Some (min (m_maxAmsduSize g ac) (ht_GetMaxAmsduLength ht)) }
                    else limit_by_mpdu l (m_maxAmsduSize g ac))
              else if modulation = WIFI_MOD_CLASS_VHT then limit_by_mpdu l (m_maxAmsduSize g ac)
              else if from_HT modulation
              then do { ht \<leftarrow> g_ht g r; Some (min (m_maxAmsduSize g ac) (ht_GetMaxAmsduLength ht)) }
              else Some (min (m_maxAmsduSize g ac) 3839)) = Some n"
    using assms unfolding GetMaxAmsduSize_def mac_GetMaxSize_def
    by (auto elim!: bind_SomeE split: if_splits)
  note mpdu = limit_by_mpdu_allowed [OF _ ac(3)]
  have ht: "fits_ht_amsdu g r n \<and> n \<le> m_maxAmsduSize g ac"
    if "do { ht \<leftarrow> g_ht g r; Some (min (m_maxAmsduSize g ac) (ht_GetMaxAmsduLength ht)) } = Some n"
    using that by (auto simp: fits_ht_amsdu_def ht_GetMaxAmsduLength_def elim!: bind_SomeE)
  have "n \<le> m_maxAmsduSize g ac" using r mpdu(2) ht by (auto split: if_splits)
  moreover have "amsdu_allowed g r modulation n"
    unfolding amsdu_allowed_def using r ac(4) mpdu(1) ht
    by (auto split: if_splits simp: from_HT_def from_VHT_def)
  ultimately show thesis using that ac(1) by blast
qed

lemma GetMaxAmpduSize_cases:
  assumes "GetMaxAmpduSize g a tid modulation = Some k" "n \<le> k" "k > 0"
  obtains ac where "QosUtilsMapTidToAc tid = Some ac" "n \<le> m_maxAmpduSize g ac"
    "ampdu_allowed g (ampdu_recipient g a) modulation n"
proof -
  let ?r = "ampdu_recipient g a"
  obtain ac where ac: "QosUtilsMapTidToAc tid = Some ac"
    and r: "(if modulation = WIFI_MOD_CLASS_EHT
               then do { eht \<leftarrow> g_eht g ?r; Some (min (m_maxAmpduSize g ac) (eht_GetMaxAmpduLength eht)) }
               else if modulation = WIFI_MOD_CLASS_HE
               then do { he \<leftarrow> g_he g ?r;
                         let size = min (m_maxAmpduSize g ac) (he_GetMaxAmpduLength he);
                         Some (case g_he6 g ?r of None \<Rightarrow> size
                               | Some he6 \<Rightarrow> min size (he6_GetMaxAmpduLength he6)) }
               else if modulation = WIFI_MOD_CLASS_VHT
               then do { vht \<leftarrow> g_vht g ?r; Some (min (m_maxAmpduSize g ac) (vht_GetMaxAmpduLength vht)) }
               else if modulation = WIFI_MOD_CLASS_HT
               then do { ht \<leftarrow> g_ht g ?r; Some (min (m_maxAmpduSize g ac) (ht_GetMaxAmpduLength ht)) }
               else Some 0) = Some k"
    using assms(1,3) unfolding GetMaxAmpduSize_def mac_GetMaxSize_def ampdu_recipient_def [symmetric] Let_def
    by (auto elim!: bind_SomeE split: if_splits)
  have "n \<le> m_maxAmpduSize g ac \<and> ampdu_allowed g ?r modulation n"
    using r assms(2,3)
    by (auto simp: ampdu_allowed_def eht_GetMaxAmpduLength_def he_GetMaxAmpduLength_def he6_GetMaxAmpduLength_def
        vht_GetMaxAmpduLength_def ht_GetMaxAmpduLength_def Let_def split: if_splits option.splits
        elim!: bind_SomeE intro: exponent_length_le [unfolded One_nat_def])
  with ac that show thesis by blast
qed

lemma fits_mpdu_length_mono: "fits_mpdu_length g r n \<Longrightarrow> k \<le> n \<Longrightarrow> fits_mpdu_length g r k"
  by (auto simp: fits_mpdu_length_def split: option.splits if_splits)

lemma amsdu_allowed_mono:
  assumes "amsdu_allowed g r c n" "k \<le> n"
  shows "amsdu_allowed g r c k"
proof -
  have "fits_mpdu_length g r (n + 56) \<Longrightarrow> fits_mpdu_length g r (k + 56)"
    by (erule fits_mpdu_length_mono) (use assms(2) in simp)
  moreover have "fits_ht_amsdu g r n \<Longrightarrow> fits_ht_amsdu g r k"
    unfolding fits_ht_amsdu_def using assms(2) by (blast intro: order_trans)
  ultimately show ?thesis using assms by (auto simp: amsdu_allowed_def split: if_splits)
qed

lemma hdr_GetSize_le: "hdr_GetSize h \<le> 32"
  by (simp add: hdr_GetSize_def)

section \<open>Time limits and undoing\<close>

lemma changed_methods_frame:
  assumes "changed_methods v s m p = Some q"
  shows "m_info q = m_info p" "m_lastInfoIt q = m_lastInfoIt p" "m_undoInfo q = m_undoInfo p"
    "m_txVector q = m_txVector p"
    "m_txDuration q = Some (v_txTime v (tp_GetSize (m_addr1 (mp_hdr m)) q) (m_txVector q))"
proof -
  from assms obtain r where r: "changed_protection v s m (UpdateTxDuration v (m_addr1 (mp_hdr m)) p) = Some r"
    "changed_acknowledgment v s m r = Some q"
    unfolding changed_methods_def by (auto elim!: bind_SomeE)
  note f1 = changed_protection_frame [OF r(1)] and f2 = changed_acknowledgment_frame [OF r(2)]
  show *: "m_info q = m_info p" "m_lastInfoIt q = m_lastInfoIt p" "m_undoInfo q = m_undoInfo p"
    "m_txVector q = m_txVector p"
    by (subst f2, subst f1, simp add: UpdateTxDuration_def)+
  have "m_txDuration q = Some (v_txTime v (tp_GetSize (m_addr1 (mp_hdr m)) p) (m_txVector p))"
    by (subst f2, subst f1) (simp add: UpdateTxDuration_def)
  then show "m_txDuration q = Some (v_txTime v (tp_GetSize (m_addr1 (mp_hdr m)) q) (m_txVector q))"
    by (simp only: tp_GetSize_def *)
qed

text \<open>The frame exchange takes no longer than it may, and the PPDU is not larger than it may be.\<close>

definition exchange_fits :: "fem_env \<Rightarrow> mac48 \<Rightarrow> tx_params \<Rightarrow> time \<Rightarrow> bool" where
  "exchange_fits v a p availableTime \<longleftrightarrow>
     (\<exists>protectionTime txTime ackTime.
         m_protection p \<bind> pr_time = Some protectionTime \<and> m_acknowledgment p \<bind> ak_time = Some ackTime
         \<and> m_txDuration p = Some txTime \<and> txTime = v_txTime v (tp_GetSize a p) (m_txVector p)
         \<and> tp_GetSize a p \<le> v_maxPsduSize v (tv_class (m_txVector p))
         \<and> (availableTime \<noteq> TimeMin \<longrightarrow> protectionTime + txTime + ackTime \<le> availableTime
              \<or> availableTime - protectionTime - ackTime = TimeMin)
         \<and> (GetPpduMaxTime (tv_preamble (m_txVector p)) > 0 \<longrightarrow> txTime \<le> 5484000))"

lemma within_limits_fit:
  assumes "exchange_limit p availableTime = Some limit"
    "IsWithinSizeAndTimeLimits v (tp_GetSize a p) p limit = Some True"
    "m_txDuration p = Some (v_txTime v (tp_GetSize a p) (m_txVector p))"
  shows "exchange_fits v a p availableTime"
proof -
  from assms(1) obtain pt at where t: "m_protection p \<bind> pr_time = Some pt" "m_acknowledgment p \<bind> ak_time = Some at"
    "limit = (if availableTime \<noteq> TimeMin then availableTime - pt - at else TimeMin)"
    by (auto simp: exchange_limit_def elim!: bind_SomeE)
  define x where "x = v_txTime v (tp_GetSize a p) (m_txVector p)"
  from assms(2,3) have w: "\<not> (limit \<noteq> TimeMin \<and> limit \<le> 0)" "tp_GetSize a p \<le> v_maxPsduSize v (tv_class (m_txVector p))"
    "limit > 0 \<longrightarrow> x \<le> limit"
    "GetPpduMaxTime (tv_preamble (m_txVector p)) > 0 \<longrightarrow> x \<le> GetPpduMaxTime (tv_preamble (m_txVector p))"
    unfolding x_def by (auto simp: IsWithinSizeAndTimeLimits_def Let_def split: if_splits)
  have "availableTime \<noteq> TimeMin \<longrightarrow> pt + x + at \<le> availableTime \<or> availableTime - pt - at = TimeMin"
  proof (intro impI disjCI)
    assume "availableTime \<noteq> TimeMin" "availableTime - pt - at \<noteq> TimeMin"
    with t(3) have "limit = availableTime - pt - at" "limit \<noteq> TimeMin" by simp_all
    with w(1,3) show "pt + x + at \<le> availableTime" by linarith
  qed
  moreover have "GetPpduMaxTime (tv_preamble (m_txVector p)) > 0 \<longrightarrow> x \<le> 5484000"
    using w(4) by (simp add: GetPpduMaxTime_def split: if_splits)
  ultimately show ?thesis
    unfolding exchange_fits_def using t(1,2) w(2) assms(3) x_def by blast
qed

text \<open>The parameters say what they said.\<close>

definition as_before :: "tx_params \<Rightarrow> tx_params \<Rightarrow> bool" where
  "as_before p' p \<longleftrightarrow>
     (\<forall>a. same_info (omap_get (m_info p') a) (omap_get (m_info p) a))
     \<and> m_protection p' = m_protection p \<and> m_acknowledgment p' = m_acknowledgment p
     \<and> m_txDuration p' = m_txDuration p \<and> m_txVector p' = m_txVector p"

lemma refused_is_undone:
  assumes "changed_methods v s m p1 = Some q" "accept_or_undo p q False = Some (p', accepted)"
    "UndoAddMpdu p1 = Some u" "\<forall>a. same_info (omap_get (m_info u) a) (omap_get (m_info p) a)"
    "m_txVector p1 = m_txVector p"
  shows "as_before p' p"
proof -
  note f = changed_methods_frame [OF assms(1)]
  obtain w where w: "UndoAddMpdu q = Some w" "m_info w = m_info u" "m_txVector w = m_txVector q"
    using UndoAddMpdu_cong [OF f(2,3,1) assms(3)] by blast
  with assms(2) have "p' = w\<lparr>m_txDuration := m_txDuration p, m_protection := m_protection p,
      m_acknowledgment := m_acknowledgment p\<rparr>" by (simp add: accept_or_undo_def)
  with w assms(4,5) f(4) show ?thesis by (simp add: as_before_def)
qed

lemma aggregate_then_undo:
  assumes "AggregateMsdu m p = Some p1"
  shows "\<exists>u. UndoAddMpdu p1 = Some u \<and> (\<forall>a. same_info (omap_get (m_info u) a) (omap_get (m_info p) a))"
    "m_txVector p1 = m_txVector p"
proof -
  let ?a = "m_addr1 (mp_hdr m)"
  from assms obtain i n where i: "omap_get (m_info p) ?a = Some i" "pi_amsduSize i > 0"
    and p1: "p1 = p\<lparr>m_lastInfoIt := Some ?a, m_undoInfo := i\<lparr>pi_seqNumbers := Map.empty\<rparr>,
        m_info := omap_put ?a (i\<lparr>pi_amsduSize := n, pi_header := SetQosAmsdu (pi_header i)\<rparr>) (m_info p)\<rparr>"
    by (auto simp: AggregateMsdu_def GetSizeIfAggregateMsdu_def Let_def elim!: bind_SomeE)
  let ?i = "\<lparr>pi_header = pi_header i, pi_amsduSize = pi_amsduSize i, pi_ampduSize = pi_ampduSize i,
    pi_seqNumbers = drop_seqNumbers Map.empty (pi_seqNumbers i)\<rparr>"
  have "UndoAddMpdu p1 = Some (p1\<lparr>m_info := omap_put ?a ?i (m_info p1), m_lastInfoIt := None\<rparr>)"
    using i(2) by (simp add: UndoAddMpdu_def p1)
  moreover have "same_info (Some ?i) (Some i)"
    by (simp add: same_info_def seqs_of_def drop_seqNumbers_def fun_eq_iff)
  ultimately show "\<exists>u. UndoAddMpdu p1 = Some u \<and> (\<forall>a. same_info (omap_get (m_info u) a) (omap_get (m_info p) a))"
    using i(1) by (auto simp: p1 omap_get_put)
  show "m_txVector p1 = m_txVector p" by (simp add: p1)
qed

section \<open>Properties\<close>

lemma TryAggregateMsdu_cases:
  assumes "TryAggregateMsdu g v s m p availableTime = Some (p', accepted)"
  obtains p1 q limit where "AggregateMsdu m p = Some p1" "changed_methods v s m p1 = Some q"
    "exchange_limit q availableTime = Some limit" "IsWithinLimitsIfAggregateMsdu g v m q limit = Some accepted"
    "accept_or_undo p q accepted = Some (p', accepted)"
proof -
  from assms obtain p1 q limit within where *: "AggregateMsdu m p = Some p1" "changed_methods v s m p1 = Some q"
    "exchange_limit q availableTime = Some limit" "IsWithinLimitsIfAggregateMsdu g v m q limit = Some within"
    "accept_or_undo p q within = Some (p', accepted)"
    unfolding TryAggregateMsdu_def by (auto elim!: bind_SomeE)
  then have "within = accepted" by (auto simp: accept_or_undo_def elim!: bind_SomeE split: if_splits)
  with * that show thesis by blast
qed

text \<open>An A-MPDU of \<open>n\<close> octets respects what is configured and what its receiver accepts.\<close>

definition ampdu_fits :: "agg_env \<Rightarrow> mac48 \<Rightarrow> nat \<Rightarrow> mod_class \<Rightarrow> nat \<Rightarrow> bool" where
  "ampdu_fits g a tid modulation n \<longleftrightarrow>
     (\<exists>ac. QosUtilsMapTidToAc tid = Some ac \<and> n \<le> m_maxAmpduSize g ac)
     \<and> ampdu_allowed g (ampdu_recipient g a) modulation n"

lemma IsWithinAmpduSizeLimitD:
  assumes "IsWithinAmpduSizeLimit g n a tid c = Some True"
  shows "ampdu_fits g a tid c n"
proof -
  obtain k where k: "GetMaxAmpduSize g a tid c = Some k" "n \<le> k" "k > 0"
    using assms by (auto simp: IsWithinAmpduSizeLimit_def elim!: bind_SomeE split: if_splits)
  show ?thesis by (rule GetMaxAmpduSize_cases [OF k]) (auto simp: ampdu_fits_def)
qed

text \<open>
  Property C15: an MSDU is aggregated only if the A-MSDU is not larger than what is configured
  for the access category and what its receiver accepts in a PPDU of this format (the HT limit of
  3839 or 7935 octets, or, with the MAC header and the FCS, the maximum MPDU length of 3895, 7991 or
  11454 octets that the element for the band advertises), if an A-MPDU it is part of is within the
  maximum A-MPDU size configured and the length that the receiver advertises for the format, and if the
  frame exchange fits in the available time; if it is not, the transmission parameters are what they were.
\<close>

theorem aggregated_msdu_fits_or_is_undone:
  assumes "TryAggregateMsdu g v s m p availableTime = Some (p', accepted)"
  defines "a \<equiv> m_addr1 (mp_hdr m)" and "tid \<equiv> unat (m_qosTid (mp_hdr m))" and "c \<equiv> tv_class (m_txVector p)"
  shows "if accepted
    then (\<exists>info ac. omap_get (m_info p') a = Some info \<and> QosUtilsMapTidToAc tid = Some ac
           \<and> pi_amsduSize info \<le> m_maxAmsduSize g ac \<and> amsdu_allowed g a c (pi_amsduSize info)
           \<and> (c \<in> {WIFI_MOD_CLASS_VHT, WIFI_MOD_CLASS_EHT} \<longrightarrow>
               fits_mpdu_length g a (hdr_GetSize (pi_header info) + pi_amsduSize info + 4))
           \<and> (pi_ampduSize info > 0 \<longrightarrow> ampdu_fits g a tid c (tp_GetSize a p')))
         \<and> exchange_fits v a p' availableTime
    else as_before p' p"
proof -
  obtain p1 q limit where q: "AggregateMsdu m p = Some p1" "changed_methods v s m p1 = Some q"
    "exchange_limit q availableTime = Some limit" "IsWithinLimitsIfAggregateMsdu g v m q limit = Some accepted"
    "accept_or_undo p q accepted = Some (p', accepted)"
    using TryAggregateMsdu_cases [OF assms(1)] .
  note f = changed_methods_frame [OF q(2)] and u = aggregate_then_undo [OF q(1)]
  show ?thesis
  proof (cases accepted)
    case True
    with q(5) have p': "p' = q" by (simp add: accept_or_undo_def)
    have c: "tv_class (m_txVector q) = c" using f(4) u(2) by (simp add: c_def)
    obtain info n where i: "omap_get (m_info q) a = Some info" "GetMaxAmsduSize g a tid c = Some n"
      "n \<noteq> 0" "pi_amsduSize info \<le> n"
      "pi_ampduSize info > 0 \<longrightarrow> IsWithinAmpduSizeLimit g (tp_GetSize a q) a tid c = Some True"
      "IsWithinSizeAndTimeLimits v (tp_GetSize a q) q limit = Some True"
      using q(4) True unfolding IsWithinLimitsIfAggregateMsdu_def Let_def c a_def tid_def
      by (auto elim!: bind_SomeE split: if_splits)
    obtain ac where ac: "QosUtilsMapTidToAc tid = Some ac" "n \<le> m_maxAmsduSize g ac" "amsdu_allowed g a c n"
      using GetMaxAmsduSize_cases [OF i(2)] i(3) by blast
    have allowed: "amsdu_allowed g a c (pi_amsduSize info)" by (rule amsdu_allowed_mono [OF ac(3) i(4)])
    have "fits_mpdu_length g a (hdr_GetSize (pi_header info) + pi_amsduSize info + 4)"
      if "c \<in> {WIFI_MOD_CLASS_VHT, WIFI_MOD_CLASS_EHT}"
    proof -
      have "fits_mpdu_length g a (pi_amsduSize info + 56)" using allowed that by (auto simp: amsdu_allowed_def)
      then show ?thesis
        by (rule fits_mpdu_length_mono) (use hdr_GetSize_le [of "pi_header info"] in simp)
    qed
    moreover have "pi_ampduSize info > 0 \<longrightarrow> ampdu_fits g a tid c (tp_GetSize a q)"
      using i(5) IsWithinAmpduSizeLimitD by blast
    moreover have "exchange_fits v a q availableTime"
      by (rule within_limits_fit [OF q(3) i(6)]) (use f(5) in \<open>simp add: a_def\<close>)
    moreover have "pi_amsduSize info \<le> m_maxAmsduSize g ac" using i(4) ac(2) by simp
    ultimately show ?thesis using True p' i(1) ac(1) allowed by auto
  next
    case False
    obtain w where w: "UndoAddMpdu p1 = Some w" "\<forall>a. same_info (omap_get (m_info w) a) (omap_get (m_info p) a)"
      using u(1) by blast
    have "accept_or_undo p q False = Some (p', accepted)" using q(5) False by simp
    from refused_is_undone [OF q(2) this w u(2)] False show ?thesis by simp
  qed
qed

definition ex_agg :: agg_env where
  "ex_agg =
     \<lparr>m_maxAmsduSize = (\<lambda>_. 7935), m_maxAmpduSize = (\<lambda>_. 65535), g_band24 = False, g_band6 = False,
      g_before11be = True, g_ht = (\<lambda>_. Some \<lparr>m_maxAmsduLength = 1, ht_maxAmpduLengthExponent = 3\<rparr>),
      g_vht = (\<lambda>_. Some \<lparr>vht_maxMpduLength = 0, vht_maxAmpduLengthExponent = 1\<rparr>), g_he = (\<lambda>_. None),
      g_he6 = (\<lambda>_. None), g_eht = (\<lambda>_. None), g_gcrManager = None\<rparr>"

definition ex_building :: tx_params where
  "ex_building =
     WifiTxParameters\<lparr>m_txVector := WifiTxVector\<lparr>tv_class := WIFI_MOD_CLASS_VHT\<rparr>,
       m_protection := Some \<lparr>pr_method = PROT_NONE, pr_time = Some 0\<rparr>,
       m_acknowledgment := Some \<lparr>ak_method = ACK_NORMAL WifiTxVector, ak_time = Some 50000, ak_policy = (\<lambda>_ _. Some NORMAL_ACK)\<rparr>,
       m_info := [(5, \<lparr>pi_header = mp_hdr (ex_mpdu 1 1000), pi_amsduSize = 1000, pi_ampduSize = 0,
                      pi_seqNumbers = [0 \<mapsto> {1}]\<rparr>)]\<rparr>"

text \<open>1000 and 500 octets fit in an A-MSDU of at most 3895 - 56.\<close>

theorem aggregated_msdu_fits_or_is_undone_witness:
  "\<exists>p' info. TryAggregateMsdu ex_agg (ex_fem_env 0) ex_station (ex_mpdu 2 500) ex_building 10000000 = Some (p', True)
     \<and> omap_get (m_info p') 5 = Some info \<and> hdr_GetSize (pi_header info) + pi_amsduSize info + 4 \<le> 3895"
proof -
  have am: "\<not> IsQosAmsdu (mp_hdr (ex_mpdu n k))" for n k
    by (simp add: IsQosAmsdu_def ex_mpdu_def SetSequenceNumber_def SetAddr1_def WifiMacHeader_def SetType_def
        type_codes_def mac_hdr_default_def)
  have hs: "hdr_GetSize (SetQosAmsdu h) = hdr_GetSize h" for h
    by (simp add: hdr_GetSize_def SetQosAmsdu_def)
  obtain p' where p': "TryAggregateMsdu ex_agg (ex_fem_env 0) ex_station (ex_mpdu 2 500) ex_building 10000000 = Some (p', True)"
    by (simp add: TryAggregateMsdu_def ex_building_def AggregateMsdu_def GetSizeIfAggregateMsdu_def changed_methods_def
        changed_protection_def changed_acknowledgment_def UpdateTxDuration_def CalculateProtectionTime_def
        CalculateAcknowledgmentTime_def exchange_limit_def IsWithinLimitsIfAggregateMsdu_def accept_or_undo_def
        IsWithinSizeAndTimeLimits_def GetPpduMaxTime_def tp_GetSize_def closed_ampdu_def ex_phy_def am hs
        frame_sizes WifiTxVector_def WifiTxParameters_def from_VHT_def TimeMin_def Let_def ex_fem_env_def ex_agg_def
        GetMaxAmsduSize_def QosUtilsMapTidToAc_def mac_GetMaxSize_def max_mpdu_size_def vht_GetMaxMpduLength_def
        mpdu_length_of_code_def limit_by_mpdu_def msdu_GetSizeIfAggregated_def mpdu_GetSizeIfAggregated_def CalculatePadding_def)
  have c: "tv_class (m_txVector ex_building) = WIFI_MOD_CLASS_VHT" by (simp add: ex_building_def)
  have l: "fits_mpdu_length ex_agg 5 n \<longleftrightarrow> n \<le> 3895" for n
    by (simp add: fits_mpdu_length_def advertised_mpdu_length_def ex_agg_def)
  from aggregated_msdu_fits_or_is_undone [OF p'] p' show ?thesis by (auto simp: c l)
qed



end
