(* ===== verification/Spec2Isabelle.thy ===== *)
theory Spec2Isabelle
  imports Originator_Agreement Recipient_Agreement Header_Codec Mac_Rx_Middle Channel_Structs
    Pedca_Exchange Block_Ack_Bitmap Block_Ack_Queue Block_Ack_Wf Mac_Queue_Props
    Psdu_Props Ht_Limits_Props
begin

text \<open>
  \<^bold>\<open>The MAC of an 802.11 station with P-EDCA.\<close>

  The repository is the ns-3 network simulator with an implementation of P-EDCA, the prioritised
  channel access of the voice category in 802.11bn (UHR).  This development models the lower MAC
  of a station on one link, \<^verbatim>\<open>src/src/wifi/model\<close>, from the channel access functions to the
  frame exchanges, with the state machines next to it: block ack agreements, duplicate detection
  and defragmentation, sequence numbers and the MAC header.

  \<^bold>\<open>How the parts interact.\<close>  A channel access function (\<^verbatim>\<open>Txop\<close>, \<^verbatim>\<open>QosTxop\<close>) keeps the
  contention window, the backoff, the TXOP and the P-EDCA state of a category.  It requests access
  from the channel access manager (\<^verbatim>\<open>ChannelAccessManager\<close>), which counts backoffs down over
  what the PHY reports of the medium and calls \<^verbatim>\<open>StartTransmission\<close> of the frame exchange
  manager (\<^verbatim>\<open>FrameExchangeManager\<close>, \<^verbatim>\<open>QosFrameExchangeManager\<close>) for the function that
  wins.  That manager builds a frame exchange (\<^verbatim>\<open>WifiTxParameters\<close>), protects and sends it, waits
  for the response with a timer (\<^verbatim>\<open>WifiTxTimer\<close>), keeps the NAV, answers other stations, and
  releases the channel, after which the function draws a new backoff.

  \<^bold>\<open>Theories.\<close>

  \<^item> \<open>Ns3_Prelude\<close>: the assertion monad (a failed \<^verbatim>\<open>NS_ASSERT\<close> or
    \<^verbatim>\<open>NS_ABORT\<close> is \<open>None\<close>), machine integers, time in nanoseconds, lemma collections.
  \<^item> \<open>Qos_Utils\<close>: \<^verbatim>\<open>qos-utils.cc\<close>, access categories and sequence number arithmetic.
  \<^item> \<open>Block_Ack_Window\<close>, \<open>Block_Ack_Agreement\<close>, \<open>Originator_Agreement\<close>,
    \<open>Recipient_Agreement\<close>: the files \<^verbatim>\<open>block-ack-window.cc\<close>,
    \<^verbatim>\<open>block-ack-agreement.cc\<close>, \<^verbatim>\<open>originator-block-ack-agreement.cc\<close> and
    \<^verbatim>\<open>recipient-block-ack-agreement.cc\<close>.  The circular window implements a set of sequence
    numbers that slides; MPDUs are passed up in order and once.
  \<^item> \<open>Ctrl_Headers\<close>, \<open>Ctrl_Headers_Props\<close>: the Block Ack Request and Block Ack frames of
    \<^verbatim>\<open>ctrl-headers.cc\<close> and their round trips through the wire.  \<open>Block_Ack_Bitmap\<close>: a Block
    Ack reports the scoreboard of the recipient.
  \<^item> \<open>Block_Ack_Manager\<close>: every operation of \<^verbatim>\<open>block-ack-manager.cc\<close>.  MPDUs that are
    shared with the EDCA queue are in a store; the loops over MPDUs in flight, whose queue may change
    underneath them, are proved to end.  \<open>Block_Ack_Manager_Props\<close>: a Block Ack settles the MPDUs
    in flight.  \<open>Block_Ack_Queue\<close>: their queue stays sorted, and a discarded MPDU moves the
    window.  \<open>Block_Ack_Table\<close>: the tables of agreements implement finite maps (the locale
    \<open>ba_map\<close>).  \<open>Block_Ack_Wf\<close>: the manager as a state machine, whose tables stay
    well-formed.
  \<^item> \<open>Queue_Container\<close>, \<open>Mac_Queue\<close>: the queue of an access category, namely
    \<^verbatim>\<open>wifi-mac-queue-container.cc\<close>, the base class \<^verbatim>\<open>queue.h\<close>,
    \<^verbatim>\<open>wifi-mac-queue.cc\<close>, and the scheduler of \<^verbatim>\<open>wifi-mac-queue-scheduler-impl.h\<close>
    and \<^verbatim>\<open>fcfs-wifi-queue-scheduler.cc\<close>.  The queue and the scheduler call each other
    while expired MPDUs are extracted; this recursion, and the search for the next queue to serve,
    are proved to end because MPDUs leave.  \<open>Mac_Queue_Wf\<close>: what holds of a queue at rest, and
    that extraction keeps it (the locale \<open>strict_weak_order\<close> is what the sorted list needs of
    priorities).  \<open>Mac_Queue_Search\<close>, \<open>Mac_Queue_Ops\<close>, \<open>Mac_Queue_Enqueue\<close>,
    \<open>Mac_Queue_Step\<close>: \<^verbatim>\<open>GetNext\<close>, removals, insertions, and the queue as a
    state machine.  \<open>Mac_Queue_Props\<close>: its properties, one of them a defect of the code.
  \<^item> \<open>Byte_Buffer\<close>, \<open>Wifi_Mac_Header\<close>, \<open>Header_Codec\<close>: the MAC header
    (\<^verbatim>\<open>wifi-mac-header.cc\<close>), its fields, sizes and round trip through the bytes on the wire.
  \<^item> \<open>Mac_Rx_Middle\<close>, \<open>Mac_Tx_Middle\<close>: duplicates and fragments of received frames, and
    the sequence number counters.
  \<^item> \<open>Txop\<close>, \<open>Qos_Txop\<close>: the channel access functions, with P-EDCA.
  \<^item> \<open>Channel_Access\<close>, \<open>Channel_Events\<close>: every operation of
    \<^verbatim>\<open>channel-access-manager.cc\<close> on one link.  \<open>Channel_Countdown\<close>,
    \<open>Channel_Props\<close>, \<open>Channel_Grants\<close>, \<open>Channel_Structs\<close>: the countdown is exact
    whenever it is updated; access is granted only to a request whose backoff has ended on an idle
    medium, and a request is granted or has a timeout; the shape of the busy and idle maps is an
    invariant of all reachable states.
  \<^item> \<open>Wifi_Tx_Timer\<close>, \<open>Tx_Parameters\<close>: the transmission timer, a refinement of an alarm
    that can be moved, and the PSDU that is being built.
  \<^item> \<open>Wifi_Mpdu\<close>, \<open>Amsdu\<close>: MPDU objects with their aliases (\<^verbatim>\<open>wifi-mpdu.cc\<close>) in a
    heap, and A-MSDUs: the receiver takes out of the octets what the transmitter put in, and the size
    is the one that was predicted while the frame exchange was planned.  \<open>Wifi_Psdu\<close>,
    \<open>Psdu_Props\<close>: PSDUs (\<^verbatim>\<open>wifi-psdu.cc\<close>) and the octets of A-MPDUs, which are as many as
    were announced and can be found by their delimiters.
  \<^item> \<open>Ht_Limits\<close>, \<open>Ht_Limits_Props\<close>: the maximum lengths in the HT, VHT, HE and EHT
    capabilities, the maximum sizes the aggregators derive from them, and the decisions of
    \<^verbatim>\<open>ht-frame-exchange-manager.cc\<close> whether one more MPDU or MSDU fits; what does not fit is
    undone.
  \<^item> \<open>Station\<close>: the state of a station on a link, a record that extends the channel access
    manager with the members of both frame exchange managers and the scheduled events, and the record
    \<open>fem_env\<close> of what they ask of the parts that are not modelled.  \<open>Frame_Durations\<close>,
    \<open>Frame_Transmit\<close>, \<open>Frame_Exchange\<close>, \<open>Qos_Exchange\<close>, \<open>Frame_Receive\<close>:
    \<^verbatim>\<open>frame-exchange-manager.cc\<close> and \<^verbatim>\<open>qos-frame-exchange-manager.cc\<close>.  Virtual
    methods are those of the QoS manager; those of the base class have the prefix \<open>fem_\<close>.
  \<^item> \<open>Channel_Invariants\<close>, \<open>Station_Invariants\<close>: what the operations keep, for any
    property of a channel access function that the few operations applied to it preserve (the locales
    \<open>txop_invariant\<close>, \<open>access_invariant\<close> and \<open>station_invariant\<close>).
    \<open>Station_Preserved\<close> goes through every operation of the frame exchange managers, with a
    backward calculus for the assertion monad.
  \<^item> \<open>Station_Step\<close>: a station as a state machine; every step (time passes, an event, the
    timer or the access timeout runs, the PHY reports, a frame is received, access is requested) takes
    an invariant state to one.  \<open>Station_Grants\<close>: an attempt to transmit that does not start
    leaves the other functions as they are, or not requesting access any more.  \<open>Station_Props\<close>:
    the consistency of P-EDCA, NAV and timer in reachable states, that transmissions only start after
    an idle medium, and that none starts while the NAV is set.
  \<^item> \<open>Pedca_Refinement\<close>: P-EDCA as a deterministic machine of four phases, a budget and a
    failure count; each operation on the P-EDCA state of a function is an event of the machine, and a
    station in any of its steps performs a sequence of them.  What a backoff is in P-EDCA, and that the
    last CTS-to-self of the budget protects nothing.  \<open>Pedca_Exchange\<close>: the events that the outcome
    of a frame exchange raises.

  \<^bold>\<open>Conventions.\<close>  An operation that the code lets change an object returns the new state; an
  operation that may fail an assertion, or that dereferences a null pointer, returns an option, and
  a theorem that an operation succeeds says that its value is \<open>Some\<close>.  Calls to other objects
  are returned as a list in the order they are made.  Integers of a fixed width are words where they
  wrap around (sequence numbers, 16-bit durations, header fields, contention windows).  Every
  function terminates by structural recursion or by a measure that is proved, and no fuel is used,
  except for \<open>flush_loop\<close>, the loop of \<^verbatim>\<open>Queue::Flush\<close>, which may not end.

  \<^bold>\<open>Not modelled.\<close>  The loops of the aggregators that take frames from the queue, aliases
  of MPDUs in the MAC queues, Trigger frames, the headers of management frames, the other operations of
  the HT, VHT, HE and EHT managers and multi-link operation build on the classes modelled here.  Rate managers, error models and the PHY compute in floating point and are parameters:
  durations of frames, rates, protection and acknowledgment methods.  Logging and traces are left
  out, and so are the other modules of the simulator, which P-EDCA does not touch.
\<close>

end
